(* ===== verification/Prelude.thy ===== *)
theory Prelude
  imports Complex_Main
begin

text \<open>
  Shared vocabulary of the development: the collections of facts the components extend, the
  thrown values of the program, results that are either a thrown value or a return value, the
  plumbing of code that may throw (sequencing, mapping and folding), and safe integers.
\<close>

named_theorems result_simps \<open>inversion of results of code that may throw\<close>
named_theorems digit_simps \<open>decimal digit strings\<close>
named_theorems dec_laws \<open>what the decimal operations return on valid operands\<close>
named_theorems rat_laws \<open>what the rational operations return\<close>


section \<open>Thrown values and results\<close>

text \<open>
  A thrown \<^verbatim>\<open>Error\<close> carries its message; the classes the program catches by type or
  code have their own constructor.
\<close>

datatype error =
    Error string
  | JsTypeError string
  | TradingRiskError string string
  | LeverageTierError string
  | MoneyRationalValidationError string
  | TakeProfitAllocationError string
  | QueueCapacityError int
  | ClockDriftError string
  | CrashLoopBlockedError int string
  | FxEvidenceError string
  | TradingSymbolUnavailableError string
  | TradingOwnershipError string string
  | TradingSafetyProofError string
  | CancellationEvidenceError string string
  | EntryAdmissionRevokedError
  | CancelBudgetExhaustedError
  | SignalValidationError string
  | StartupAuthorityError string

type_synonym 'a result = "error + 'a"

fun rbind :: "'a result \<Rightarrow> ('a \<Rightarrow> 'b result) \<Rightarrow> 'b result" where
  "rbind (Inl e) f = Inl e"
| "rbind (Inr x) f = f x"

definition throw_if :: "bool \<Rightarrow> error \<Rightarrow> unit result" where
  "throw_if c e = (if c then Inl e else Inr ())"

fun mapM :: "('a \<Rightarrow> 'b result) \<Rightarrow> 'a list \<Rightarrow> 'b list result" where
  "mapM f [] = Inr []"
| "mapM f (x # xs) = rbind (f x) (\<lambda>y. rbind (mapM f xs) (\<lambda>ys. Inr (y # ys)))"

fun foldM :: "('s \<Rightarrow> 'a \<Rightarrow> 's result) \<Rightarrow> 's \<Rightarrow> 'a list \<Rightarrow> 's result" where
  "foldM f s [] = Inr s"
| "foldM f s (x # xs) = rbind (f s x) (\<lambda>s'. foldM f s' xs)"

lemma rbind_Inr_iff [result_simps]:
  "rbind m f = Inr y \<longleftrightarrow> (\<exists>x. m = Inr x \<and> f x = Inr y)"
  by (cases m) auto

lemma rbind_Inl_iff [result_simps]:
  "rbind m f = Inl e \<longleftrightarrow> m = Inl e \<or> (\<exists>x. m = Inr x \<and> f x = Inl e)"
  by (cases m) auto

lemma rbind_assoc: "rbind (rbind m f) g = rbind m (\<lambda>x. rbind (f x) g)"
  by (cases m) auto

lemma rbind_cong [fundef_cong]:
  "m = m' \<Longrightarrow> (\<And>x. m' = Inr x \<Longrightarrow> f x = f' x) \<Longrightarrow> rbind m f = rbind m' f'"
  by (cases m') auto

lemma throw_if_Inr [result_simps]: "throw_if c e = Inr u \<longleftrightarrow> \<not> c"
  by (simp add: throw_if_def)

lemma throw_if_Inl [result_simps]: "throw_if c e = Inl e' \<longleftrightarrow> c \<and> e = e'"
  by (auto simp: throw_if_def)

lemma throw_if_True [simp]: "throw_if True e = Inl e"
  by (simp add: throw_if_def)

lemma throw_if_False [simp]: "throw_if False e = Inr ()"
  by (simp add: throw_if_def)

lemma mapM_Inr_iff: "mapM f xs = Inr ys \<longleftrightarrow> list_all2 (\<lambda>x y. f x = Inr y) xs ys"
proof (induction xs arbitrary: ys)
  case Nil
  then show ?case by auto
next
  case (Cons x xs)
  then show ?case by (cases ys) (auto simp: result_simps)
qed

lemma mapM_total: "(\<And>x. x \<in> set xs \<Longrightarrow> \<exists>y. f x = Inr y) \<Longrightarrow> \<exists>ys. mapM f xs = Inr ys"
proof (induction xs)
  case Nil
  then show ?case by simp
next
  case (Cons x xs)
  then obtain y ys where "f x = Inr y" "mapM f xs = Inr ys"
    by (metis list.set_intros)
  then show ?case by simp
qed

lemma mapM_length: "mapM f xs = Inr ys \<Longrightarrow> length ys = length xs"
  by (auto simp: mapM_Inr_iff dest: list_all2_lengthD)

lemma foldM_append: "foldM f s (xs @ ys) = rbind (foldM f s xs) (\<lambda>s'. foldM f s' ys)"
  by (induction xs arbitrary: s) (auto simp: rbind_assoc)

text \<open>The invariant rule of a throwing loop: what every successful step keeps holds at the end.\<close>

lemma foldM_invariant:
  assumes "foldM f s xs = Inr s'" and "P s"
    and "\<And>s x t. P s \<Longrightarrow> x \<in> set xs \<Longrightarrow> f s x = Inr t \<Longrightarrow> P t"
  shows "P s'"
  using assms
proof (induction xs arbitrary: s)
  case Nil
  from Nil.prems(1,2) show ?case by simp
next
  case (Cons x xs)
  from Cons.prems(1) obtain t where t: "f s x = Inr t" "foldM f t xs = Inr s'"
    by (auto simp: result_simps)
  have "P t"
    by (rule Cons.prems(3) [OF Cons.prems(2) _ t(1)]) simp
  moreover have "\<And>s y u. P s \<Longrightarrow> y \<in> set xs \<Longrightarrow> f s y = Inr u \<Longrightarrow> P u"
    by (rule Cons.prems(3)) auto
  ultimately show ?case
    using Cons.IH [OF t(2)] by blast
qed


section \<open>Safe integers\<close>

definition max_safe_integer :: int where
  "max_safe_integer = 2 ^ 53 - 1"

definition is_safe_integer :: "int \<Rightarrow> bool" where
  "is_safe_integer n \<longleftrightarrow> \<bar>n\<bar> \<le> max_safe_integer"

end
