(* ===== verification/JS_Strings.thy ===== *)
theory JS_Strings
  imports Prelude "HOL-Library.Signed_Division"
begin

text \<open>
  The JavaScript string and integer primitives the trading code is built on: decimal digit
  strings, printing and reading of \<^verbatim>\<open>BigInt\<close> values, \<^verbatim>\<open>padStart\<close>, \<^verbatim>\<open>split\<close> and \<^verbatim>\<open>trim\<close>, with the
  laws that relate a digit string to the integer it denotes. A JavaScript string is a
  \<^typ>\<open>string\<close> whose characters are code units below 256.
\<close>

section \<open>Decimal digit strings\<close>

definition is_digit :: "char \<Rightarrow> bool" where
  "is_digit c \<longleftrightarrow> 48 \<le> (of_char c :: int) \<and> (of_char c :: int) \<le> 57"

definition digit_val :: "char \<Rightarrow> int" where
  "digit_val c = of_char c - 48"

definition digit_char :: "int \<Rightarrow> char" where
  "digit_char d = ''0123456789'' ! nat d"

definition all_digits :: "string \<Rightarrow> bool" where
  "all_digits s \<longleftrightarrow> list_all is_digit s"

text \<open>\<open>digits_val\<close> is \<^verbatim>\<open>BigInt(s)\<close> on a string of digits; the empty string reads as 0.\<close>

definition digits_val :: "string \<Rightarrow> int" where
  "digits_val s = foldl (\<lambda>a c. 10 * a + digit_val c) 0 s"

text \<open>\<open>show_nonneg\<close> is \<^verbatim>\<open>BigInt.prototype.toString\<close> on a non-negative value.\<close>

function show_nonneg :: "int \<Rightarrow> string" where
  "show_nonneg n = (if n < 10 then [digit_char n] else show_nonneg (n div 10) @ [digit_char (n mod 10)])"
  by pat_completeness auto
termination
  by (relation "measure nat") auto

declare show_nonneg.simps [simp del]

definition show_int :: "int \<Rightarrow> string" where
  "show_int n = (if n < 0 then CHR ''-'' # show_nonneg (- n) else show_nonneg n)"

text \<open>\<open>bigint_of\<close> is \<^verbatim>\<open>BigInt(s)\<close> on an optionally signed string of digits.\<close>

definition bigint_of :: "string \<Rightarrow> int" where
  "bigint_of s = (case s of [] \<Rightarrow> 0
     | c # t \<Rightarrow> if c = CHR ''-'' then - digits_val t else digits_val s)"

definition pad_start :: "string \<Rightarrow> nat \<Rightarrow> char \<Rightarrow> string" where
  "pad_start s n c = replicate (n - length s) c @ s"

definition pad_end :: "string \<Rightarrow> nat \<Rightarrow> char \<Rightarrow> string" where
  "pad_end s n c = s @ replicate (n - length s) c"

text \<open>\<^verbatim>\<open>s.split(c)\<close> with a one-character separator: never empty.\<close>

fun split_on :: "char \<Rightarrow> string \<Rightarrow> string list" where
  "split_on c [] = [[]]"
| "split_on c (x # xs) =
     (if x = c then [] # split_on c xs
      else (case split_on c xs of [] \<Rightarrow> [[x]] | w # ws \<Rightarrow> (x # w) # ws))"

text \<open>\<^verbatim>\<open>const [integer, fraction = ''] = value.split('.')\<close>\<close>

definition split_point :: "string \<Rightarrow> string \<times> string" where
  "split_point s = (case split_on (CHR ''.'') s of
       [] \<Rightarrow> ([], []) | [i] \<Rightarrow> (i, []) | i # f # _ \<Rightarrow> (i, f))"

text \<open>The white space \<^verbatim>\<open>trim\<close> removes, among code units below 256.\<close>

definition is_space :: "char \<Rightarrow> bool" where
  "is_space c \<longleftrightarrow> (let n = (of_char c :: int) in (9 \<le> n \<and> n \<le> 13) \<or> n = 32 \<or> n = 160)"

definition js_trim :: "string \<Rightarrow> string" where
  "js_trim s = rev (dropWhile is_space (rev (dropWhile is_space s)))"

definition is_lower :: "char \<Rightarrow> bool" where
  "is_lower c \<longleftrightarrow> 97 \<le> (of_char c :: int) \<and> (of_char c :: int) \<le> 122"

definition is_upper :: "char \<Rightarrow> bool" where
  "is_upper c \<longleftrightarrow> 65 \<le> (of_char c :: int) \<and> (of_char c :: int) \<le> 90"

section \<open>Laws of digit strings\<close>

lemma of_char_digit_char: "0 \<le> d \<Longrightarrow> d < 10 \<Longrightarrow> (of_char (digit_char d) :: int) = 48 + d"
proof -
  assume "0 \<le> d" "d < 10"
  then have "d = 0 \<or> d = 1 \<or> d = 2 \<or> d = 3 \<or> d = 4 \<or> d = 5 \<or> d = 6 \<or> d = 7 \<or> d = 8 \<or> d = 9"
    by arith
  then show ?thesis
    by (elim disjE) (simp_all add: digit_char_def)
qed

lemma digit_val_char [simp]: "0 \<le> d \<Longrightarrow> d < 10 \<Longrightarrow> digit_val (digit_char d) = d"
  by (simp add: digit_val_def of_char_digit_char)

lemma is_digit_char [simp]: "0 \<le> d \<Longrightarrow> d < 10 \<Longrightarrow> is_digit (digit_char d)"
  by (simp add: is_digit_def of_char_digit_char)

lemma digit_val_bounds: "is_digit c \<Longrightarrow> 0 \<le> digit_val c \<and> digit_val c < 10"
  by (simp add: is_digit_def digit_val_def)

lemma digit_char_val [simp]: "is_digit c \<Longrightarrow> digit_char (digit_val c) = c"
proof -
  assume c: "is_digit c"
  then have "(of_char (digit_char (digit_val c)) :: int) = of_char c"
    using digit_val_bounds [OF c] by (simp add: of_char_digit_char digit_val_def)
  then show ?thesis by simp
qed

lemma digit_zero [simp]: "digit_char 0 = CHR ''0''" "digit_val (CHR ''0'') = 0" "is_digit (CHR ''0'')"
  by (simp_all add: digit_char_def digit_val_def is_digit_def)

lemma not_digit_marks [simp]: "\<not> is_digit (CHR ''.'')" "\<not> is_digit (CHR ''-'')"
  by (simp_all add: is_digit_def)

lemma digit_val_eq_0 [simp]: "is_digit c \<Longrightarrow> digit_val c = 0 \<longleftrightarrow> c = CHR ''0''"
  by (metis digit_char_val digit_zero(1,2))

lemma all_digits_simps [simp]:
  "all_digits []"
  "all_digits (c # s) \<longleftrightarrow> is_digit c \<and> all_digits s"
  "all_digits (s @ t) \<longleftrightarrow> all_digits s \<and> all_digits t"
  by (simp_all add: all_digits_def)

lemma all_digits_sub [simp]:
  "all_digits s \<Longrightarrow> all_digits (take n s)" "all_digits s \<Longrightarrow> all_digits (drop n s)"
  "all_digits s \<Longrightarrow> all_digits (butlast s)" "all_digits (rev s) = all_digits s"
  "all_digits (replicate n (CHR ''0''))"
  by (auto simp: all_digits_def list_all_iff dest: in_set_takeD in_set_dropD in_set_butlastD)

lemma all_digits_mem: "all_digits s \<Longrightarrow> c \<in> set s \<Longrightarrow> is_digit c"
  by (simp add: all_digits_def list_all_iff)

lemma hd_digit: "all_digits s \<Longrightarrow> s \<noteq> [] \<Longrightarrow> is_digit (hd s)"
  by (simp add: all_digits_mem)

lemma digits_val_Nil [simp]: "digits_val [] = 0"
  by (simp add: digits_val_def)

lemma digits_val_snoc [simp]: "digits_val (s @ [c]) = 10 * digits_val s + digit_val c"
  by (simp add: digits_val_def)

lemma digits_val_append [digit_simps]:
  "digits_val (s @ t) = digits_val s * 10 ^ length t + digits_val t"
proof (induction t rule: rev_induct)
  case Nil
  then show ?case by simp
next
  case (snoc c t)
  have "digits_val (s @ t @ [c]) = 10 * digits_val (s @ t) + digit_val c"
    by (metis append_assoc digits_val_snoc)
  also have "\<dots> = digits_val s * 10 ^ length (t @ [c]) + digits_val (t @ [c])"
    by (simp add: snoc.IH algebra_simps)
  finally show ?case by simp
qed

lemma digits_val_Cons [digit_simps]: "digits_val (c # s) = digit_val c * 10 ^ length s + digits_val s"
  using digits_val_append [of "[c]" s] by (simp add: digits_val_def)

lemma digits_val_zeros [simp]: "digits_val (replicate n (CHR ''0'')) = 0"
  by (induction n) (simp_all add: digits_val_Cons)

lemma digits_val_zeros_append [simp]: "digits_val (replicate n (CHR ''0'') @ s) = digits_val s"
  by (simp add: digits_val_append)

lemma digits_val_bounds: "all_digits s \<Longrightarrow> 0 \<le> digits_val s \<and> digits_val s < 10 ^ length s"
proof (induction s rule: rev_induct)
  case Nil
  then show ?case by simp
next
  case (snoc c s)
  then show ?case
    using digit_val_bounds [of c] by simp
qed

lemmas digits_val_nonneg = digits_val_bounds [THEN conjunct1]
lemmas digits_val_less = digits_val_bounds [THEN conjunct2]


subsection \<open>Printing integers\<close>

lemma show_nonneg_small: "n < 10 \<Longrightarrow> show_nonneg n = [digit_char n]"
  by (simp add: show_nonneg.simps)

lemma show_nonneg_step: "10 \<le> n \<Longrightarrow> show_nonneg n = show_nonneg (n div 10) @ [digit_char (n mod 10)]"
  by (subst show_nonneg.simps) simp

lemma show_nonneg_induct [consumes 1, case_names small step]:
  fixes n :: int
  assumes "0 \<le> n"
    and "\<And>n. 0 \<le> n \<Longrightarrow> n < 10 \<Longrightarrow> P n"
    and "\<And>n. 10 \<le> n \<Longrightarrow> P (n div 10) \<Longrightarrow> P n"
  shows "P n"
  using assms(1)
proof (induction n rule: show_nonneg.induct)
  case (1 n)
  show ?case
  proof (cases "n < 10")
    case True
    with 1 assms(2) show ?thesis by simp
  next
    case False
    with 1 have "P (n div 10)" by simp
    with False assms(3) show ?thesis by simp
  qed
qed

lemma show_nonneg_digits [simp]: "0 \<le> n \<Longrightarrow> all_digits (show_nonneg n)"
  by (induction n rule: show_nonneg_induct) (simp_all add: show_nonneg_small show_nonneg_step)

lemma show_nonneg_nonempty [simp]: "show_nonneg n \<noteq> []"
  by (subst show_nonneg.simps) simp

lemma digits_val_show [simp]: "0 \<le> n \<Longrightarrow> digits_val (show_nonneg n) = n"
proof (induction n rule: show_nonneg_induct)
  case (small n)
  then show ?case by (simp add: show_nonneg_small digits_val_Cons)
next
  case (step n)
  then show ?case by (simp add: show_nonneg_step)
qed

lemma show_nonneg_hd: "0 < n \<Longrightarrow> hd (show_nonneg n) \<noteq> CHR ''0''"
proof -
  assume "0 < n"
  then have "0 \<le> n" by simp
  then show ?thesis
    using \<open>0 < n\<close>
  proof (induction n rule: show_nonneg_induct)
    case (small n)
    then have "digit_val (digit_char n) \<noteq> 0" by simp
    then have "digit_char n \<noteq> CHR ''0''" using digit_zero(2) by auto
    with small show ?case by (simp add: show_nonneg_small)
  next
    case (step n)
    then show ?case by (simp add: show_nonneg_step hd_append)
  qed
qed

lemma show_nonneg_0 [simp]: "show_nonneg 0 = ''0''"
  by (simp add: show_nonneg_small)

text \<open>A digit string without a superfluous leading zero is what printing its value gives.\<close>

definition canonical_digits :: "string \<Rightarrow> bool" where
  "canonical_digits s \<longleftrightarrow> s \<noteq> [] \<and> all_digits s \<and> (s = ''0'' \<or> hd s \<noteq> CHR ''0'')"

lemma digits_val_pos: "all_digits s \<Longrightarrow> s \<noteq> [] \<Longrightarrow> hd s \<noteq> CHR ''0'' \<Longrightarrow> 0 < digits_val s"
proof -
  assume s: "all_digits s" "s \<noteq> []" "hd s \<noteq> CHR ''0''"
  then obtain c t where ct: "s = c # t" by (cases s) auto
  with s have "is_digit c" and "digit_val c \<noteq> 0" by auto
  with digit_val_bounds [OF \<open>is_digit c\<close>] have "0 < digit_val c" by linarith
  with s ct show ?thesis
    using digits_val_nonneg [of t] by (simp add: digits_val_Cons add_pos_nonneg)
qed

lemma show_digits_val: "canonical_digits s \<Longrightarrow> show_nonneg (digits_val s) = s"
proof (induction s rule: rev_induct)
  case Nil
  then show ?case by (simp add: canonical_digits_def)
next
  case (snoc c s)
  have c: "is_digit c" and s: "all_digits s"
    using snoc.prems by (auto simp: canonical_digits_def)
  show ?case
  proof (cases "s = []")
    case True
    with c digit_val_bounds [OF c] show ?thesis
      by (simp add: digits_val_def show_nonneg_small)
  next
    case False
    then have hd: "hd s \<noteq> CHR ''0''"
      using snoc.prems by (auto simp: canonical_digits_def hd_append)
    then have "canonical_digits s"
      using False s by (simp add: canonical_digits_def)
    then have IH: "show_nonneg (digits_val s) = s" by (rule snoc.IH)
    have "0 < digits_val s" using digits_val_pos s False hd by blast
    then show ?thesis
      using c digit_val_bounds [OF c] IH by (simp add: show_nonneg_step)
  qed
qed

lemma canonical_show [simp]: "0 \<le> n \<Longrightarrow> canonical_digits (show_nonneg n)"
  unfolding canonical_digits_def using show_nonneg_hd [of n] by (cases "n = 0") auto

lemma show_nonneg_length:
  assumes "0 \<le> n" "n < 10 ^ k" "0 < k"
  shows "length (show_nonneg n) \<le> k"
  using assms
proof (induction n arbitrary: k rule: show_nonneg_induct)
  case (small n)
  then show ?case by (simp add: show_nonneg_small)
next
  case (step n)
  show ?case
  proof (cases k)
    case 0
    with step show ?thesis by simp
  next
    case (Suc j)
    with step.prems have less: "n div 10 < 10 ^ j" by auto
    moreover have "0 < j"
      using step.hyps less by (cases j) auto
    ultimately show ?thesis
      using step Suc by (simp add: show_nonneg_step)
  qed
qed

lemma show_nonneg_length_iff:
  assumes "0 \<le> n" "0 < k"
  shows "length (show_nonneg n) \<le> k \<longleftrightarrow> n < 10 ^ k"
proof
  assume "length (show_nonneg n) \<le> k"
  then have "(10::int) ^ length (show_nonneg n) \<le> 10 ^ k"
    by (simp add: power_increasing)
  moreover have "n < 10 ^ length (show_nonneg n)"
    using digits_val_less [of "show_nonneg n"] assms by simp
  ultimately show "n < 10 ^ k" by linarith
next
  assume "n < 10 ^ k"
  then show "length (show_nonneg n) \<le> k"
    using assms show_nonneg_length by blast
qed

lemma show_nonneg_times10: "0 < n \<Longrightarrow> show_nonneg (10 * n) = show_nonneg n @ ''0''"
  by (subst show_nonneg_step) auto

lemma bigint_of_digits: "all_digits s \<Longrightarrow> bigint_of s = digits_val s"
  by (cases s) (auto simp: bigint_of_def)

lemma bigint_of_neg [simp]: "bigint_of (CHR ''-'' # s) = - digits_val s"
  by (simp add: bigint_of_def)

lemma bigint_of_show [simp]: "bigint_of (show_int n) = n"
  by (simp add: show_int_def bigint_of_digits)


subsection \<open>Splitting at the decimal point, trimming\<close>

lemma split_on_nonempty [simp]: "split_on c s \<noteq> []"
  by (induction s) (auto split: list.splits)

lemma split_on_none: "c \<notin> set s \<Longrightarrow> split_on c s = [s]"
  by (induction s) auto

lemma split_on_one: "c \<notin> set s \<Longrightarrow> split_on c (s @ c # t) = s # split_on c t"
  by (induction s) auto

lemma no_point_in_digits: "all_digits s \<Longrightarrow> CHR ''.'' \<notin> set s"
  using all_digits_mem not_digit_marks(1) by blast

lemma split_point_int [simp]: "CHR ''.'' \<notin> set i \<Longrightarrow> split_point i = (i, [])"
  by (simp add: split_point_def split_on_none)

lemma split_point_frac [simp]:
  "CHR ''.'' \<notin> set i \<Longrightarrow> CHR ''.'' \<notin> set f \<Longrightarrow> split_point (i @ CHR ''.'' # f) = (i, f)"
  by (simp add: split_point_def split_on_one split_on_none)

lemma digit_not_space: "is_digit c \<Longrightarrow> \<not> is_space c"
  by (auto simp: is_digit_def is_space_def Let_def)

lemma point_not_space: "\<not> is_space (CHR ''.'')"
  by (simp add: is_space_def)

lemma js_trim_id:
  assumes "s \<noteq> [] \<Longrightarrow> \<not> is_space (hd s) \<and> \<not> is_space (last s)"
  shows "js_trim s = s"
proof (cases "s = []")
  case True
  then show ?thesis by (simp add: js_trim_def)
next
  case False
  with assms have h: "\<not> is_space (hd s)" and l: "\<not> is_space (last s)" by auto
  have "dropWhile is_space s = s"
    using False h by (cases s) auto
  moreover have "dropWhile is_space (rev s) = rev s"
    using False l by (cases s rule: rev_cases) auto
  ultimately show ?thesis by (simp add: js_trim_def)
qed

end
