(* ===== verification/Contracts.thy ===== *)
theory Contracts
  imports Prelude
begin

text \<open>
  The contracts several components share, each a locale that a component interprets on its own
  operations: an addition that is exact whenever it returns (unsigned and signed decimals,
  rationals), one that in addition returns on every admissible operand below a limit (unsigned
  decimals), and a component whose operations keep an invariant (the queue, the outbox scheduler, the
  delivery tracker, the order history, the simulated exchange and the mutation coordinator).
\<close>

locale exact_accumulator =
  fixes add :: "'a \<Rightarrow> 'a \<Rightarrow> 'a result" and val :: "'a \<Rightarrow> rat"
  assumes add_exact: "add a b = Inr c \<Longrightarrow> val c = val a + val b"
begin

text \<open>A sum folded from left to right is the sum of the values, whatever the order of rounding.\<close>

lemma fold_exact: "foldM add z xs = Inr s \<Longrightarrow> val s = val z + (\<Sum>x\<leftarrow>xs. val x)"
proof (induction xs arbitrary: z)
  case Nil
  then show ?case by simp
next
  case (Cons x xs)
  then obtain c where "add z x = Inr c" "foldM add c xs = Inr s" by (auto simp: result_simps)
  then show ?case using Cons.IH add_exact by (simp add: algebra_simps)
qed

end

locale total_accumulator = exact_accumulator add val
  for add :: "'a \<Rightarrow> 'a \<Rightarrow> 'a result" and val :: "'a \<Rightarrow> rat" +
  fixes ok :: "'a \<Rightarrow> bool" and limit :: rat
  assumes ok_nonneg: "ok a \<Longrightarrow> 0 \<le> val a"
    and add_total: "ok a \<Longrightarrow> ok b \<Longrightarrow> val a + val b < limit \<Longrightarrow> \<exists>c. add a b = Inr c \<and> ok c"
begin

lemma fold_total:
  assumes "ok z" "\<And>x. x \<in> set xs \<Longrightarrow> ok x" "val z + (\<Sum>x\<leftarrow>xs. val x) < limit"
  shows "\<exists>s. foldM add z xs = Inr s \<and> ok s"
  using assms
proof (induction xs arbitrary: z)
  case Nil
  then show ?case by simp
next
  case (Cons x xs)
  have "0 \<le> (\<Sum>x\<leftarrow>xs. val x)"
    using Cons.prems(2) ok_nonneg by (intro sum_list_nonneg) auto
  then obtain c where c: "add z x = Inr c" "ok c"
    using add_total [of z x] Cons.prems by auto
  then have "val c + (\<Sum>x\<leftarrow>xs. val x) < limit"
    using Cons.prems(3) add_exact [OF c(1)] by simp
  then show ?case
    using Cons.IH [OF c(2)] Cons.prems(2) c by simp
qed

end

text \<open>
  A component with a state, operations that may throw or not, and an invariant that every
  operation keeps: then every run from a good state ends in a good state.
\<close>

locale invariant_system =
  fixes step :: "'s \<Rightarrow> 'e \<Rightarrow> 's" and inv :: "'s \<Rightarrow> bool"
  assumes step_inv: "inv s \<Longrightarrow> inv (step s e)"
begin

lemma run_inv: "inv s \<Longrightarrow> inv (foldl step s es)"
  by (induction es arbitrary: s) (auto simp: step_inv)

text \<open>What holds of every step from a good state to the next, and composes, holds of a run.\<close>

lemma run_rel:
  assumes "inv s" and refl: "\<And>s. R s s" and trans: "\<And>a b c. R a b \<Longrightarrow> R b c \<Longrightarrow> R a c"
    and step: "\<And>s e. inv s \<Longrightarrow> R s (step s e)"
  shows "R s (foldl step s es)"
  using assms(1)
proof (induction es arbitrary: s)
  case Nil
  then show ?case by (simp add: refl)
next
  case (Cons e es)
  then have "R (step s e) (foldl step (step s e) es)" by (simp add: step_inv)
  with Cons.prems step trans show ?case by (metis foldl_Cons)
qed

end

end
