(* ===== verification/Trading_Decimal.thy ===== *)
theory Trading_Decimal
  imports JS_Strings Contracts
begin

text \<open>
  Exact decimal arithmetic on strings (\<^verbatim>\<open>src/trading_decimal.ts\<close>). Every price, quantity
  and amount of the trading core is an unsigned decimal string of at most 36 integer and 18
  fraction digits; the operations parse their operands into an integer coefficient and a scale,
  compute on \<^verbatim>\<open>BigInt\<close>, and print a canonical string. The first part is the code, the second the
  rational number a string denotes and the law of each operation over it.
\<close>

section \<open>The code\<close>

text \<open>\<^verbatim>\<open>DECIMAL_PATTERN = /^(?:0|[1-9]\d{0,35})(?:\.\d{1,18})?$/\<close>\<close>

definition decimal_pattern :: "string \<Rightarrow> bool" where
  "decimal_pattern s \<longleftrightarrow>
     (let i = takeWhile is_digit s; rest = dropWhile is_digit s in
        (i = ''0'' \<or> (i \<noteq> [] \<and> hd i \<noteq> CHR ''0'' \<and> length i \<le> 36)) \<and>
        (case rest of [] \<Rightarrow> True
         | c # f \<Rightarrow> c = CHR ''.'' \<and> all_digits f \<and> 1 \<le> length f \<and> length f \<le> 18))"

record parsed_decimal =
  coefficient :: int
  scale :: nat

definition powerOfTen :: "int \<Rightarrow> int result" where
  "powerOfTen e =
     (if \<not> is_safe_integer e \<or> e < 0 \<or> e > 36
      then Inl (Error ''Decimal scale is outside the supported range.'')
      else Inr (10 ^ nat e))"

definition parse :: "string \<Rightarrow> parsed_decimal result" where
  "parse value =
     (if \<not> decimal_pattern value
      then Inl (Error (''Invalid unsigned decimal '' @ [CHR 0x27] @ value @ [CHR 0x27] @ ''.''))
      else (case split_point value of (integer, fraction) \<Rightarrow>
        Inr \<lparr>coefficient = digits_val (integer @ fraction), scale = length fraction\<rparr>))"

text \<open>\<^verbatim>\<open>while (fraction.endsWith('0')) fraction = fraction.slice(0, -1)\<close>\<close>

function strip_zeros :: "string \<Rightarrow> string" where
  "strip_zeros f = (if f \<noteq> [] \<and> last f = CHR ''0'' then strip_zeros (butlast f) else f)"
  by pat_completeness auto
termination
  by (relation "measure length") auto

declare strip_zeros.simps [simp del]

definition format :: "int \<Rightarrow> nat \<Rightarrow> string result" where
  "format c sc =
     (if c < 0 then Inl (Error ''Unsigned decimal result must not be negative.'')
      else let digits = pad_start (show_nonneg c) (sc + 1) (CHR ''0'') in
        if sc = 0 then Inr digits
        else let integer = take (length digits - sc) digits;
                 fraction = strip_zeros (drop (length digits - sc) digits)
             in Inr (if fraction \<noteq> [] then integer @ CHR ''.'' # fraction else integer))"

definition align :: "parsed_decimal \<Rightarrow> parsed_decimal \<Rightarrow> (int \<times> int \<times> nat) result" where
  "align left right =
     (let sc = max (scale left) (scale right) in
      rbind (powerOfTen (int sc - int (scale left))) (\<lambda>a.
      rbind (powerOfTen (int sc - int (scale right))) (\<lambda>b.
        Inr (coefficient left * a, coefficient right * b, sc))))"

definition compareDecimal :: "string \<Rightarrow> string \<Rightarrow> int result" where
  "compareDecimal left right =
     rbind (parse left) (\<lambda>l. rbind (parse right) (\<lambda>r.
     rbind (align l r) (\<lambda>(leftValue, rightValue, _).
       if leftValue < rightValue then Inr (-1)
       else if leftValue > rightValue then Inr 1 else Inr 0)))"

text \<open>\<^verbatim>\<open>decimal(value, { positive, max })\<close>; an empty \<^verbatim>\<open>max\<close> is falsy and ignored.\<close>

definition decimal_with :: "bool \<Rightarrow> string option \<Rightarrow> string \<Rightarrow> string result" where
  "decimal_with positive maximum value =
     rbind (parse (js_trim value)) (\<lambda>parsed.
     rbind (format (coefficient parsed) (scale parsed)) (\<lambda>normalized.
     rbind (throw_if (positive \<and> coefficient parsed = 0) (Error ''Decimal must be greater than zero.'')) (\<lambda>_.
       case maximum of None \<Rightarrow> Inr normalized
       | Some m \<Rightarrow>
           if m = [] then Inr normalized
           else rbind (compareDecimal normalized m) (\<lambda>c.
             if c > 0 then Inl (Error (''Decimal must not exceed '' @ m @ ''.'')) else Inr normalized))))"

definition decimal :: "string \<Rightarrow> string result" where
  "decimal = decimal_with False None"

definition decimal_positive :: "string \<Rightarrow> string result" where
  "decimal_positive = decimal_with True None"

definition addDecimal :: "string \<Rightarrow> string \<Rightarrow> string result" where
  "addDecimal left right =
     rbind (parse left) (\<lambda>l. rbind (parse right) (\<lambda>r.
     rbind (align l r) (\<lambda>(leftValue, rightValue, sc). format (leftValue + rightValue) sc)))"

definition subtractDecimal :: "string \<Rightarrow> string \<Rightarrow> string result" where
  "subtractDecimal left right =
     rbind (parse left) (\<lambda>l. rbind (parse right) (\<lambda>r.
     rbind (align l r) (\<lambda>(leftValue, rightValue, sc).
       if rightValue > leftValue then Inl (Error ''Unsigned decimal subtraction would be negative.'')
       else format (leftValue - rightValue) sc)))"

definition multiplyDecimal :: "string \<Rightarrow> string \<Rightarrow> string result" where
  "multiplyDecimal left right =
     rbind (parse left) (\<lambda>l. rbind (parse right) (\<lambda>r.
       let productScale = scale l + scale r; c = coefficient l * coefficient r in
       if productScale \<le> 18 then format c productScale
       else rbind (powerOfTen (int productScale - 18)) (\<lambda>p. format (c sdiv p) 18)))"

definition divideDecimal :: "string \<Rightarrow> string \<Rightarrow> int \<Rightarrow> string result" where
  "divideDecimal left right sc =
     rbind (parse left) (\<lambda>l. rbind (parse right) (\<lambda>r.
       if coefficient r = 0 then Inl (Error ''Division by zero.'')
       else if \<not> is_safe_integer sc \<or> sc < 0 \<or> sc > 18
       then Inl (Error ''Division scale must be between 0 and 18.'')
       else rbind (powerOfTen (sc + int (scale r))) (\<lambda>a.
            rbind (powerOfTen (int (scale l))) (\<lambda>b.
              format ((coefficient l * a) sdiv (coefficient r * b)) (nat sc)))))"

definition sumDecimals :: "string list \<Rightarrow> string result" where
  "sumDecimals values = foldM addDecimal ''0'' values"

definition midpointDecimal :: "string \<Rightarrow> string \<Rightarrow> string result" where
  "midpointDecimal mn mx =
     rbind (compareDecimal mn mx) (\<lambda>c.
       if c > 0 then Inl (Error ''Decimal range is inverted.'')
       else rbind (addDecimal mn mx) (\<lambda>s. divideDecimal s ''2'' 18))"

definition minDecimal :: "string list \<Rightarrow> string result" where
  "minDecimal values =
     (case values of [] \<Rightarrow> Inl (Error ''At least one decimal is required.'')
      | first # rest \<Rightarrow>
          foldM (\<lambda>minimum v. rbind (compareDecimal v minimum) (\<lambda>c.
            Inr (if c < 0 then v else minimum))) first rest)"

definition quantizeDecimalDown :: "string \<Rightarrow> string \<Rightarrow> string result" where
  "quantizeDecimalDown value increment =
     rbind (decimal value) (\<lambda>_. rbind (decimal_positive increment) (\<lambda>_.
     rbind (divideDecimal value increment 0) (\<lambda>q. multiplyDecimal q increment)))"


subsection \<open>Signed decimals\<close>

definition starts_neg :: "string \<Rightarrow> bool" where
  "starts_neg s \<longleftrightarrow> (case s of [] \<Rightarrow> False | c # _ \<Rightarrow> c = CHR ''-'')"

text \<open>\<^verbatim>\<open>s.startsWith('-') ? s.slice(1) : s\<close>\<close>

definition magnitude_of :: "string \<Rightarrow> string" where
  "magnitude_of s = (if starts_neg s then drop 1 s else s)"

definition signedDecimal :: "string \<Rightarrow> string result" where
  "signedDecimal value =
     rbind (decimal (magnitude_of value)) (\<lambda>normalized.
       Inr (if starts_neg value \<and> normalized \<noteq> ''0'' then CHR ''-'' # normalized else normalized))"

definition negateSignedDecimal :: "string \<Rightarrow> string result" where
  "negateSignedDecimal value =
     rbind (signedDecimal value) (\<lambda>normalized.
       if normalized = ''0'' then Inr ''0''
       else if starts_neg normalized then Inr (drop 1 normalized) else Inr (CHR ''-'' # normalized))"

definition addSignedDecimal :: "string \<Rightarrow> string \<Rightarrow> string result" where
  "addSignedDecimal left right =
     rbind (signedDecimal left) (\<lambda>signedLeft. rbind (signedDecimal right) (\<lambda>signedRight.
       let leftNegative = starts_neg signedLeft; rightNegative = starts_neg signedRight;
           leftMagnitude = magnitude_of signedLeft; rightMagnitude = magnitude_of signedRight in
       if leftNegative = rightNegative
       then rbind (addDecimal leftMagnitude rightMagnitude) (\<lambda>sum.
              Inr (if leftNegative \<and> sum \<noteq> ''0'' then CHR ''-'' # sum else sum))
       else rbind (compareDecimal leftMagnitude rightMagnitude) (\<lambda>order.
              if order = 0 then Inr ''0''
              else rbind (if order > 0 then subtractDecimal leftMagnitude rightMagnitude
                          else subtractDecimal rightMagnitude leftMagnitude) (\<lambda>difference.
                     let negative = (if order > 0 then leftNegative else rightNegative) in
                     Inr (if negative then CHR ''-'' # difference else difference)))))"

definition subtractSignedDecimal :: "string \<Rightarrow> string \<Rightarrow> string result" where
  "subtractSignedDecimal left right =
     rbind (negateSignedDecimal right) (\<lambda>n. addSignedDecimal left n)"

definition multiplySignedDecimal :: "string \<Rightarrow> string \<Rightarrow> string result" where
  "multiplySignedDecimal left right =
     rbind (signedDecimal left) (\<lambda>signedLeft. rbind (signedDecimal right) (\<lambda>signedRight.
     rbind (multiplyDecimal (magnitude_of signedLeft) (magnitude_of signedRight)) (\<lambda>magnitude.
       if starts_neg signedLeft \<noteq> starts_neg signedRight then negateSignedDecimal magnitude
       else Inr magnitude)))"

text \<open>\<^verbatim>\<open>while (scale > 0 && coefficient % 10n === 0n) { coefficient /= 10n; scale -= 1; }\<close>\<close>

fun reduce_scale :: "int \<Rightarrow> nat \<Rightarrow> int \<times> nat" where
  "reduce_scale c 0 = (c, 0)"
| "reduce_scale c (Suc sc) = (if c smod 10 = 0 then reduce_scale (c sdiv 10) sc else (c, Suc sc))"

definition multiplyExactSignedDecimal :: "string \<Rightarrow> string \<Rightarrow> string result" where
  "multiplyExactSignedDecimal left right =
     rbind (signedDecimal left) (\<lambda>signedLeft. rbind (signedDecimal right) (\<lambda>signedRight.
     rbind (parse (magnitude_of signedLeft)) (\<lambda>a. rbind (parse (magnitude_of signedRight)) (\<lambda>b.
       case reduce_scale (coefficient a * coefficient b) (scale a + scale b) of (c, sc) \<Rightarrow>
       if sc > 18 then Inl (Error ''Exact monetary valuation exceeds supported decimal precision.'')
       else rbind (format c sc) (\<lambda>s. rbind (decimal s) (\<lambda>magnitude.
         if starts_neg signedLeft \<noteq> starts_neg signedRight then negateSignedDecimal magnitude
         else Inr magnitude))))))"

definition allocateDecimalExact :: "string \<Rightarrow> string \<Rightarrow> string \<Rightarrow> string result" where
  "allocateDecimalExact value numerator denominator =
     rbind (rbind (decimal value) parse) (\<lambda>amount.
     rbind (rbind (decimal numerator) parse) (\<lambda>share.
     rbind (rbind (decimal_positive denominator) parse) (\<lambda>total.
     rbind (powerOfTen (int (scale total))) (\<lambda>p. rbind (powerOfTen 18) (\<lambda>p18.
     rbind (powerOfTen (int (scale amount + scale share))) (\<lambda>q.
       let top = coefficient amount * coefficient share * p * p18;
           bottom = coefficient total * q in
       if top smod bottom \<noteq> 0
       then Inl (Error ''Exact cost allocation exceeds supported decimal precision.'')
       else rbind (format (top sdiv bottom) 18) decimal))))))"

definition signedDifference :: "string \<Rightarrow> string \<Rightarrow> string result" where
  "signedDifference left right =
     rbind (compareDecimal left right) (\<lambda>order.
       if order = 0 then Inr ''0''
       else let greater = (if order > 0 then left else right);
                lesser = (if order > 0 then right else left) in
         rbind (subtractDecimal greater lesser) (\<lambda>difference.
           Inr (if order > 0 then difference else CHR ''-'' # difference)))"


section \<open>What a decimal string denotes\<close>

definition dec_val :: "string \<Rightarrow> rat" where
  "dec_val s = (case split_point s of (i, f) \<Rightarrow> of_int (digits_val (i @ f)) / 10 ^ length f)"

definition pd_val :: "parsed_decimal \<Rightarrow> rat" where
  "pd_val p = of_int (coefficient p) / 10 ^ scale p"

definition join_point :: "string \<Rightarrow> string \<Rightarrow> string" where
  "join_point i f = (if f \<noteq> [] then i @ CHR ''.'' # f else i)"

text \<open>
  A canonical decimal has no superfluous zero on either side: the strings \<^const>\<open>format\<close> prints.
  There is no bound on its length, since a sum or product of valid decimals may be too long to be
  parsed again.
\<close>

definition canonical_decimal :: "string \<Rightarrow> bool" where
  "canonical_decimal s \<longleftrightarrow>
     (\<exists>i f. s = join_point i f \<and> canonical_digits i \<and> all_digits f \<and> (f = [] \<or> last f \<noteq> CHR ''0''))"

text \<open>\<open>on_grid k q\<close>: the number has at most \<open>k\<close> decimal places.\<close>

definition on_grid :: "nat \<Rightarrow> rat \<Rightarrow> bool" where
  "on_grid k q \<longleftrightarrow> 10 ^ k * q \<in> \<int>"

definition dec_limit :: rat where
  "dec_limit = 10 ^ 36"

definition returns_decimal :: "string result \<Rightarrow> rat \<Rightarrow> bool" where
  "returns_decimal r q \<longleftrightarrow> (\<exists>s. r = Inr s \<and> canonical_decimal s \<and> dec_val s = q)"

lemma canonical_digitsD:
  assumes "canonical_digits i"
  shows "i \<noteq> []" "all_digits i" "CHR ''.'' \<notin> set i"
  using assms no_point_in_digits by (auto simp: canonical_digits_def)

lemma split_join [simp]:
  "all_digits i \<Longrightarrow> all_digits f \<Longrightarrow> split_point (join_point i f) = (i, f)"
  by (auto simp: join_point_def no_point_in_digits)

lemma dec_val_join [simp]:
  "all_digits i \<Longrightarrow> all_digits f \<Longrightarrow> dec_val (join_point i f) = of_int (digits_val (i @ f)) / 10 ^ length f"
  by (simp add: dec_val_def)

lemma dec_val_join_sum:
  assumes "all_digits i" "all_digits f"
  shows "dec_val (join_point i f) = of_int (digits_val i) + of_int (digits_val f) / 10 ^ length f"
  using assms by (simp add: digits_val_append field_simps)

lemma fraction_bounds:
  assumes "all_digits f"
  shows "0 \<le> (of_int (digits_val f) / 10 ^ length f :: rat)" "(of_int (digits_val f) / 10 ^ length f :: rat) < 1"
proof -
  have "(of_int (digits_val f) :: rat) < of_int (10 ^ length f)"
    using digits_val_less [OF assms] by (simp only: of_int_less_iff)
  then show "(of_int (digits_val f) / 10 ^ length f :: rat) < 1" by simp
  show "0 \<le> (of_int (digits_val f) / 10 ^ length f :: rat)"
    using digits_val_nonneg [OF assms] by simp
qed


subsection \<open>The accepted strings\<close>

lemma decimal_pattern_iff:
  "decimal_pattern s \<longleftrightarrow>
     (\<exists>i f. s = join_point i f \<and> canonical_digits i \<and> length i \<le> 36 \<and> all_digits f \<and> length f \<le> 18)"
  (is "_ \<longleftrightarrow> ?R")
proof
  assume P: "decimal_pattern s"
  define i where "i = takeWhile is_digit s"
  define rest where "rest = dropWhile is_digit s"
  define f where "f = drop 1 rest"
  have s: "s = i @ rest" by (simp add: i_def rest_def)
  have "all_digits i" by (auto simp: all_digits_def i_def list_all_iff dest: set_takeWhileD)
  then have "canonical_digits i" "length i \<le> 36"
    using P unfolding decimal_pattern_def Let_def i_def [symmetric] canonical_digits_def by auto
  moreover have "s = join_point i f" "all_digits f" "length f \<le> 18"
    using P s unfolding decimal_pattern_def Let_def rest_def [symmetric]
    by (auto simp: join_point_def f_def split: list.splits)
  ultimately show ?R by blast
next
  assume ?R
  then obtain i f where s: "s = join_point i f" and i: "canonical_digits i" "length i \<le> 36"
    and f: "all_digits f" "length f \<le> 18" by blast
  have ai: "\<forall>c\<in>set i. is_digit c" using i(1) by (simp add: canonical_digits_def all_digits_def list_all_iff)
  have split: "takeWhile is_digit s = i" "dropWhile is_digit s = (if f = [] then [] else CHR ''.'' # f)"
    using ai by (auto simp: s join_point_def takeWhile_append dropWhile_append)
  show "decimal_pattern s"
    unfolding decimal_pattern_def Let_def split
    using i f by (auto simp: canonical_digits_def Suc_le_eq)
qed

lemma dec_ok_cases:
  assumes "decimal_pattern s"
  obtains i f where "s = join_point i f" "canonical_digits i" "length i \<le> 36" "all_digits i"
    "all_digits f" "length f \<le> 18" "i \<noteq> []"
  using assms canonical_digitsD by (force simp: decimal_pattern_iff)

lemma parse_ok:
  assumes "decimal_pattern s"
  obtains p where "parse s = Inr p" "pd_val p = dec_val s" "0 \<le> coefficient p" "scale p \<le> 18"
proof -
  from assms obtain i f where "s = join_point i f" "all_digits i" "all_digits f" "length f \<le> 18"
    by (rule dec_ok_cases)
  then have "parse s = Inr \<lparr>coefficient = digits_val (i @ f), scale = length f\<rparr>"
      "0 \<le> digits_val (i @ f)" "dec_val s = of_int (digits_val (i @ f)) / 10 ^ length f" "length f \<le> 18"
    using assms digits_val_nonneg [of "i @ f"] by (simp_all add: parse_def)
  then show ?thesis using that by (force simp: pd_val_def)
qed

lemma parse_Inr_iff [result_simps]: "(\<exists>p. parse s = Inr p) \<longleftrightarrow> decimal_pattern s"
  by (auto simp: parse_def split: prod.splits)

lemma parse_InrD: "parse s = Inr p \<Longrightarrow> decimal_pattern s"
  using parse_Inr_iff by blast

lemma parse_reject: "\<not> decimal_pattern s \<Longrightarrow>
    parse s = Inl (Error (''Invalid unsigned decimal '' @ [CHR 0x27] @ s @ [CHR 0x27] @ ''.''))"
  by (simp add: parse_def)

lemma pd_val_nonneg: "0 \<le> coefficient p \<Longrightarrow> 0 \<le> pd_val p"
  by (simp add: pd_val_def)

lemma dec_val_nonneg: "decimal_pattern s \<Longrightarrow> 0 \<le> dec_val s"
  by (metis parse_ok pd_val_nonneg)

lemma pow10_split: "k \<le> n \<Longrightarrow> (10::'a::comm_semiring_1) ^ n = 10 ^ (n - k) * 10 ^ k"
  by (simp flip: power_add)

lemma dec_val_grid: "decimal_pattern s \<Longrightarrow> on_grid 18 (dec_val s)"
proof -
  assume "decimal_pattern s"
  then obtain p where p: "pd_val p = dec_val s" "scale p \<le> 18" by (rule parse_ok)
  have "(10::rat) ^ 18 * pd_val p = of_int (10 ^ (18 - scale p) * coefficient p)"
    by (subst pow10_split [OF p(2)]) (simp add: pd_val_def)
  then show ?thesis
    unfolding on_grid_def p(1) [symmetric] by (metis Ints_of_int)
qed


subsection \<open>Printing\<close>

lemma strip_zeros_spec:
  "\<exists>k. f = strip_zeros f @ replicate k (CHR ''0'') \<and> (strip_zeros f = [] \<or> last (strip_zeros f) \<noteq> CHR ''0'')"
proof (induction f rule: strip_zeros.induct)
  case (1 f)
  show ?case
  proof (cases "f \<noteq> [] \<and> last f = CHR ''0''")
    case True
    with "1.IH" obtain k where k: "butlast f = strip_zeros (butlast f) @ replicate k (CHR ''0'')"
      "strip_zeros (butlast f) = [] \<or> last (strip_zeros (butlast f)) \<noteq> CHR ''0''" by auto
    have "f = butlast f @ [CHR ''0'']"
      using True by (metis append_butlast_last_id)
    also have "\<dots> = strip_zeros (butlast f) @ replicate (Suc k) (CHR ''0'')"
      by (subst k(1)) (simp add: replicate_append_same)
    finally show ?thesis
      using True k(2) by (metis strip_zeros.simps)
  next
    case False
    then have "strip_zeros f = f" by (subst strip_zeros.simps) auto
    with False show ?thesis by (metis append_Nil2 replicate_empty)
  qed
qed

lemma strip_zeros_id: "f = [] \<or> last f \<noteq> CHR ''0'' \<Longrightarrow> strip_zeros f = f"
  by (subst strip_zeros.simps) auto

lemma strip_zeros_snoc [simp]: "strip_zeros (f @ ''0'') = strip_zeros f"
  by (subst strip_zeros.simps) simp

lemma format_pad:
  fixes c :: int and sc :: nat
  assumes "0 \<le> c"
  defines "d \<equiv> pad_start (show_nonneg c) (sc + 1) (CHR ''0'')"
  shows "format c sc = Inr (join_point (take (length d - sc) d) (strip_zeros (drop (length d - sc) d)))"
  using assms(1) by (auto simp: format_def d_def Let_def join_point_def strip_zeros_id)

lemma take_one: "length d = sc + 1 \<Longrightarrow> take (length d - sc) d = [hd d]"
  by (cases d) auto

lemma pad_facts:
  fixes c :: int and sc :: nat
  assumes "0 \<le> c"
  defines "d \<equiv> pad_start (show_nonneg c) (sc + 1) (CHR ''0'')"
  shows "all_digits d" "digits_val d = c" "sc < length d" "canonical_digits (take (length d - sc) d)"
proof -
  show "all_digits d" "digits_val d = c" "sc < length d"
    using assms by (simp_all add: pad_start_def)
  have nz: "show_nonneg c \<noteq> []" by simp
  show "canonical_digits (take (length d - sc) d)"
  proof (cases "length (show_nonneg c) \<le> sc + 1")
    case True
    then have d: "d = replicate (sc + 1 - length (show_nonneg c)) (CHR ''0'') @ show_nonneg c" "length d = sc + 1"
      using nz by (simp_all add: d_def pad_start_def)
    have t: "take (length d - sc) d = [hd d]"
      by (rule take_one) (fact d(2))
    show ?thesis
    proof (cases "length (show_nonneg c) = sc + 1")
      case True
      then have "hd d = hd (show_nonneg c)" using d by simp
      moreover have "is_digit (hd (show_nonneg c))"
        using all_digits_mem [OF show_nonneg_digits [OF assms(1)]] nz by simp
      ultimately show ?thesis
        unfolding t by (simp add: canonical_digits_def)
    next
      case False
      then have "hd d = CHR ''0''" using d True by (simp add: hd_append)
      then show ?thesis unfolding t by (simp add: canonical_digits_def)
    qed
  next
    case False
    then have d: "d = show_nonneg c" by (simp add: d_def pad_start_def)
    have "c \<noteq> 0" using False by auto
    then have "hd d \<noteq> CHR ''0''" using show_nonneg_hd [of c] assms(1) d by simp
    moreover have "take (length d - sc) d \<noteq> []" using False d by simp
    ultimately show ?thesis
      using \<open>all_digits d\<close> by (simp add: canonical_digits_def)
  qed
qed

lemma format_spec: "0 \<le> c \<Longrightarrow> returns_decimal (format c sc) (of_int c / 10 ^ sc)"
proof -
  assume c: "0 \<le> c"
  define d where "d = pad_start (show_nonneg c) (sc + 1) (CHR ''0'')"
  define i f where "i = take (length d - sc) d" and "f = drop (length d - sc) d"
  note d = pad_facts [OF c, of sc, folded d_def]
  have i: "canonical_digits i" "all_digits i" and f: "all_digits f" "length f = sc" and v: "digits_val (i @ f) = c"
    using d by (simp_all add: i_def f_def)
  obtain k where k: "f = strip_zeros f @ replicate k (CHR ''0'')" "strip_zeros f = [] \<or> last (strip_zeros f) \<noteq> CHR ''0''"
    using strip_zeros_spec by blast
  define g where "g = strip_zeros f"
  have g: "all_digits g" and sc: "sc = length g + k" and c': "c = digits_val (i @ g) * 10 ^ k"
    using k(1) f v unfolding g_def by (metis all_digits_simps(3), metis length_append length_replicate,
      metis add.right_neutral append_assoc digits_val_append digits_val_zeros length_replicate)
  have "format c sc = Inr (join_point i g)"
    using format_pad [OF c, of sc] by (simp add: i_def g_def f_def d_def)
  moreover have "canonical_decimal (join_point i g)"
    using i g k(2) unfolding canonical_decimal_def g_def by blast
  moreover have "dec_val (join_point i g) = of_int c / 10 ^ sc"
    using i g by (simp add: c' sc power_add)
  ultimately show ?thesis by (auto simp: returns_decimal_def)
qed

lemma format_negative: "c < 0 \<Longrightarrow> format c sc = Inl (Error ''Unsigned decimal result must not be negative.'')"
  by (simp add: format_def)


subsection \<open>Canonical strings are determined by their value\<close>

lemma digits_val_mod: "all_digits g \<Longrightarrow> g \<noteq> [] \<Longrightarrow> digits_val g mod 10 = digit_val (last g)"
proof -
  assume g: "all_digits g" "g \<noteq> []"
  then obtain h c where "g = h @ [c]" by (metis rev_exhaust)
  with g show ?thesis using digit_val_bounds [of c] by simp
qed

lemma digits_val_inj:
  "all_digits s \<Longrightarrow> all_digits t \<Longrightarrow> length s = length t \<Longrightarrow> digits_val s = digits_val t \<Longrightarrow> s = t"
proof (induction s arbitrary: t rule: rev_induct)
  case Nil
  then show ?case by simp
next
  case (snoc c s)
  then obtain u d where t: "t = u @ [d]" by (metis length_0_conv rev_exhaust snoc_eq_iff_butlast)
  have b: "0 \<le> digit_val c" "digit_val c < 10" "0 \<le> digit_val d" "digit_val d < 10"
    using snoc.prems digit_val_bounds by (auto simp: t)
  have "10 * digits_val s + digit_val c = 10 * digits_val u + digit_val d"
    using snoc.prems by (simp add: t)
  with b have eq: "digits_val s = digits_val u" "digit_val c = digit_val d" by arith+
  have "is_digit c" "is_digit d" "all_digits s" "all_digits u" "length s = length u"
    using snoc.prems by (simp_all add: t)
  then have "s = u" "c = d"
    using eq snoc.IH by (blast, metis digit_char_val)
  then show ?case by (simp add: t)
qed

lemma canonical_integer_part:
  assumes "all_digits i" "all_digits f"
  shows "\<lfloor>dec_val (join_point i f)\<rfloor> = digits_val i"
  using fraction_bounds [OF assms(2)] dec_val_join_sum [OF assms] by linarith

lemma canonical_fraction_shorter:
  assumes f: "all_digits f" and g: "all_digits g" "g \<noteq> []" "last g \<noteq> CHR ''0''"
    and eq: "(of_int (digits_val f) / 10 ^ length f :: rat) = of_int (digits_val g) / 10 ^ length g"
  shows "length g \<le> length f"
proof (rule ccontr)
  assume "\<not> ?thesis"
  then obtain k where k: "length g = length f + Suc k"
    using less_imp_add_positive by (metis add_Suc_right gr0_conv_Suc not_le)
  have "(of_int (digits_val g) :: rat) = of_int (digits_val f * 10 ^ Suc k)"
    using eq by (simp add: k power_add field_simps)
  then have "digits_val g = digits_val f * 10 ^ Suc k" by (simp only: of_int_eq_iff)
  then have "digits_val g mod 10 = 0" by simp
  moreover have "is_digit (last g)" using g by (simp add: all_digits_mem)
  ultimately show False using g digits_val_mod by simp
qed

lemma canonical_decimal_inj:
  assumes "canonical_decimal s" "canonical_decimal t" "dec_val s = dec_val t"
  shows "s = t"
proof -
  obtain i f where s: "s = join_point i f" "canonical_digits i" "all_digits f" "f = [] \<or> last f \<noteq> CHR ''0''"
    using assms(1) by (auto simp: canonical_decimal_def)
  obtain j g where t: "t = join_point j g" "canonical_digits j" "all_digits g" "g = [] \<or> last g \<noteq> CHR ''0''"
    using assms(2) by (auto simp: canonical_decimal_def)
  note d = canonical_digitsD(2) [OF s(2)] canonical_digitsD(2) [OF t(2)]
  have "digits_val i = digits_val j"
    using assms(3) canonical_integer_part d s t by metis
  then have ij: "i = j" using show_digits_val s t by metis
  have fr: "(of_int (digits_val f) / 10 ^ length f :: rat) = of_int (digits_val g) / 10 ^ length g"
    using assms(3) dec_val_join_sum [OF d(1) s(3)] dec_val_join_sum [OF d(2) t(3)] by (simp add: s(1) t(1) ij)
  have "length f = length g"
  proof (rule antisym)
    show "length f \<le> length g"
      by (cases "f = []") (use canonical_fraction_shorter [OF t(3) s(3)] fr s(4) in auto)
    show "length g \<le> length f"
      by (cases "g = []") (use canonical_fraction_shorter [OF s(3) t(3)] fr t(4) in auto)
  qed
  moreover have "digits_val f = digits_val g"
    using fr calculation by simp
  ultimately have "f = g" using digits_val_inj s t by blast
  then show ?thesis using s t ij by simp
qed

lemma returns_decimal_unique: "returns_decimal r q \<Longrightarrow> returns_decimal r' q \<Longrightarrow> r = r'"
  using canonical_decimal_inj by (auto simp: returns_decimal_def)

lemma returns_decimalE:
  assumes "returns_decimal r q"
  obtains s where "r = Inr s" "canonical_decimal s" "dec_val s = q"
  using assms by (auto simp: returns_decimal_def)

lemma on_grid_frac:
  assumes i: "all_digits i" and f: "all_digits f" "f \<noteq> []" "last f \<noteq> CHR ''0''"
    and grid: "on_grid k (dec_val (join_point i f))"
  shows "length f \<le> k"
proof (rule ccontr)
  assume "\<not> ?thesis"
  then obtain m where m: "length f = k + Suc m"
    using less_imp_add_positive by (metis add_Suc_right gr0_conv_Suc not_le)
  from grid obtain z where z: "10 ^ k * dec_val (join_point i f) = of_int z"
    unfolding on_grid_def by (auto elim: Ints_cases)
  have "(of_int (digits_val (i @ f)) :: rat) = of_int (z * 10 ^ Suc m)"
    using z i f by (simp add: m power_add field_simps)
  then have "digits_val (i @ f) = z * 10 ^ Suc m" by (simp only: of_int_eq_iff)
  then have "digits_val (i @ f) mod 10 = 0" by simp
  moreover have "is_digit (last f)" using f by (simp add: all_digits_mem)
  ultimately show False using i f digits_val_mod [of "i @ f"] by simp
qed

lemma canonical_valid_iff:
  assumes "canonical_decimal s"
  shows "decimal_pattern s \<longleftrightarrow> dec_val s < dec_limit \<and> on_grid 18 (dec_val s)"
proof -
  obtain i f where s: "s = join_point i f" "canonical_digits i" "all_digits f" "f = [] \<or> last f \<noteq> CHR ''0''"
    using assms by (auto simp: canonical_decimal_def)
  note d = canonical_digitsD(2) [OF s(2)]
  have "dec_val s < dec_limit \<longleftrightarrow> \<lfloor>dec_val s\<rfloor> < 10 ^ 36" by (simp add: floor_less_iff dec_limit_def)
  also have "\<dots> \<longleftrightarrow> digits_val i < 10 ^ 36" using canonical_integer_part d s by simp
  also have "\<dots> \<longleftrightarrow> length i \<le> 36"
    using show_nonneg_length_iff [of "digits_val i" 36] digits_val_nonneg [OF d] show_digits_val [OF s(2)] by simp
  finally have int: "dec_val s < dec_limit \<longleftrightarrow> length i \<le> 36" .
  have unique: "join_point i f = join_point j g \<Longrightarrow> canonical_digits j \<Longrightarrow> all_digits g \<Longrightarrow> i = j \<and> f = g" for j g
    by (metis Pair_inject canonical_digitsD(2) d s(3) split_join)
  have pat: "decimal_pattern s \<longleftrightarrow> length i \<le> 36 \<and> length f \<le> 18"
    unfolding decimal_pattern_iff s(1) using s unique by blast
  show ?thesis
  proof
    assume "decimal_pattern s"
    with pat int dec_val_grid show "dec_val s < dec_limit \<and> on_grid 18 (dec_val s)" by blast
  next
    assume "dec_val s < dec_limit \<and> on_grid 18 (dec_val s)"
    with int pat on_grid_frac [OF d s(3)] s(1,4) show "decimal_pattern s" by (cases "f = []") auto
  qed
qed

lemma dec_val_bound: "decimal_pattern s \<Longrightarrow> dec_val s < dec_limit"
proof -
  assume "decimal_pattern s"
  then obtain i f where s: "s = join_point i f" "all_digits i" "all_digits f" "length i \<le> 36"
    by (rule dec_ok_cases)
  have "digits_val i < 10 ^ length i" using s digits_val_less by blast
  also have "\<dots> \<le> 10 ^ 36" using s(4) by (intro power_increasing) simp_all
  finally have "\<lfloor>dec_val s\<rfloor> < 10 ^ 36"
    using canonical_integer_part [OF s(2,3)] by (simp add: s(1))
  then show ?thesis by (simp add: floor_less_iff dec_limit_def)
qed


section \<open>The laws of the operations\<close>

definition rat_cmp :: "rat \<Rightarrow> rat \<Rightarrow> int" where
  "rat_cmp x y = (if x < y then -1 else if x > y then 1 else 0)"

text \<open>\<open>trunc_at k q\<close>: the number cut off after \<open>k\<close> decimal places.\<close>

definition trunc_at :: "nat \<Rightarrow> rat \<Rightarrow> rat" where
  "trunc_at k q = of_int \<lfloor>10 ^ k * q\<rfloor> / 10 ^ k"

lemma rat_cmp_simps [simp]:
  "rat_cmp x y < 0 \<longleftrightarrow> x < y" "0 < rat_cmp x y \<longleftrightarrow> y < x" "rat_cmp x y = 0 \<longleftrightarrow> x = y"
  "rat_cmp x y \<le> 0 \<longleftrightarrow> x \<le> y" "0 \<le> rat_cmp x y \<longleftrightarrow> y \<le> x"
  by (auto simp: rat_cmp_def)

lemma trunc_at_grid: "on_grid k q \<Longrightarrow> trunc_at k q = q"
proof -
  assume "on_grid k q"
  then obtain z where z: "10 ^ k * q = of_int z" by (auto simp: on_grid_def elim: Ints_cases)
  then have "q = of_int z / 10 ^ k" by (simp add: field_simps)
  with z show ?thesis by (simp add: trunc_at_def)
qed

lemma trunc_at_on_grid [simp]: "on_grid k (trunc_at k q)"
  by (simp add: trunc_at_def on_grid_def)

lemma trunc_at_le: "trunc_at k q \<le> q"
proof -
  have "of_int \<lfloor>10 ^ k * q\<rfloor> \<le> 10 ^ k * q" by (rule of_int_floor_le)
  then show ?thesis by (simp add: trunc_at_def divide_le_eq mult.commute)
qed

lemma trunc_at_gt: "q - 1 / 10 ^ k < trunc_at k q"
proof -
  have "10 ^ k * q - 1 < of_int \<lfloor>10 ^ k * q\<rfloor>" by linarith
  then have "(10 ^ k * q - 1) / 10 ^ k < of_int \<lfloor>10 ^ k * q\<rfloor> / 10 ^ k"
    by (intro divide_strict_right_mono) simp_all
  then show ?thesis by (simp add: trunc_at_def diff_divide_distrib)
qed

lemma trunc_at_nonneg: "0 \<le> q \<Longrightarrow> 0 \<le> trunc_at k q"
  by (simp add: trunc_at_def)

lemma on_grid_add: "on_grid k x \<Longrightarrow> on_grid k y \<Longrightarrow> on_grid k (x + y)"
  by (simp add: on_grid_def distrib_left)

lemma on_grid_diff: "on_grid k x \<Longrightarrow> on_grid k y \<Longrightarrow> on_grid k (x - y)"
  by (simp add: on_grid_def right_diff_distrib)

lemma on_grid_mono: "k \<le> n \<Longrightarrow> on_grid k x \<Longrightarrow> on_grid n x"
  unfolding on_grid_def by (subst pow10_split [of k n]) (simp_all add: mult.assoc Ints_mult Ints_power)

lemma on_grid_int_mult: "on_grid k x \<Longrightarrow> on_grid k (of_int n * x)"
  unfolding on_grid_def by (simp add: mult.left_commute Ints_mult)

lemma on_grid_of_int [simp]: "on_grid k (of_int n)"
  by (simp add: on_grid_def Ints_mult)

lemma powerOfTen_ok: "0 \<le> e \<Longrightarrow> e \<le> 36 \<Longrightarrow> powerOfTen e = Inr (10 ^ nat e)"
  by (simp add: powerOfTen_def is_safe_integer_def max_safe_integer_def)

lemma align_ok:
  assumes "scale l \<le> 18" "scale r \<le> 18"
  obtains a b sc where "align l r = Inr (a, b, sc)" "of_int a / 10 ^ sc = pd_val l" "of_int b / 10 ^ sc = pd_val r"
    "0 \<le> coefficient l \<Longrightarrow> 0 \<le> a" "0 \<le> coefficient r \<Longrightarrow> 0 \<le> b"
proof -
  define sc where "sc = max (scale l) (scale r)"
  have sc: "scale l \<le> sc" "scale r \<le> sc" "sc \<le> 18" using assms by (auto simp: sc_def)
  have p: "powerOfTen (int sc - int n) = Inr (10 ^ (sc - n))" if "n \<le> sc" for n
    using that sc by (subst powerOfTen_ok) (auto simp: nat_diff_distrib)
  have "align l r = Inr (coefficient l * 10 ^ (sc - scale l), coefficient r * 10 ^ (sc - scale r), sc)"
    unfolding align_def Let_def sc_def [symmetric] by (simp add: p sc)
  moreover have "of_int (coefficient l * 10 ^ (sc - scale l)) / 10 ^ sc = pd_val l"
    by (subst pow10_split [OF sc(1)]) (simp add: pd_val_def)
  moreover have "of_int (coefficient r * 10 ^ (sc - scale r)) / 10 ^ sc = pd_val r"
    by (subst pow10_split [OF sc(2)]) (simp add: pd_val_def)
  ultimately show ?thesis using that by simp
qed

lemma aligned_operands:
  assumes "decimal_pattern left" "decimal_pattern right"
  obtains l r a b sc where "parse left = Inr l" "parse right = Inr r" "align l r = Inr (a, b, sc)"
    "dec_val left = of_int a / 10 ^ sc" "dec_val right = of_int b / 10 ^ sc" "0 \<le> a" "0 \<le> b"
proof -
  obtain l where l: "parse left = Inr l" "pd_val l = dec_val left" "0 \<le> coefficient l" "scale l \<le> 18"
    using assms(1) by (rule parse_ok)
  obtain r where r: "parse right = Inr r" "pd_val r = dec_val right" "0 \<le> coefficient r" "scale r \<le> 18"
    using assms(2) by (rule parse_ok)
  show ?thesis
    using align_ok [OF l(4) r(4)] l r that by metis
qed

lemma compare_law [dec_laws]:
  "decimal_pattern l \<Longrightarrow> decimal_pattern r \<Longrightarrow> compareDecimal l r = Inr (rat_cmp (dec_val l) (dec_val r))"
  by (erule (1) aligned_operands)
    (simp add: compareDecimal_def rat_cmp_def divide_strict_right_mono divide_less_cancel)

lemma add_law [dec_laws]:
  "decimal_pattern l \<Longrightarrow> decimal_pattern r \<Longrightarrow> returns_decimal (addDecimal l r) (dec_val l + dec_val r)"
  by (erule (1) aligned_operands)
    (use format_spec in \<open>simp add: addDecimal_def flip: add_divide_distrib of_int_add\<close>)

lemma subtract_law [dec_laws]:
  assumes "decimal_pattern l" "decimal_pattern r" "dec_val r \<le> dec_val l"
  shows "returns_decimal (subtractDecimal l r) (dec_val l - dec_val r)"
proof -
  obtain pl pr a b sc where *: "parse l = Inr pl" "parse r = Inr pr" "align pl pr = Inr (a, b, sc)"
    "dec_val l = of_int a / 10 ^ sc" "dec_val r = of_int b / 10 ^ sc" "0 \<le> a" "0 \<le> b"
    using assms(1,2) by (rule aligned_operands)
  then have "b \<le> a" using assms(3) by (simp add: divide_le_cancel)
  with * format_spec [of "a - b" sc] show ?thesis
    by (simp add: subtractDecimal_def diff_divide_distrib)
qed

lemma subtract_negative [dec_laws]:
  assumes "decimal_pattern l" "decimal_pattern r" "dec_val l < dec_val r"
  shows "subtractDecimal l r = Inl (Error ''Unsigned decimal subtraction would be negative.'')"
proof -
  obtain pl pr a b sc where *: "parse l = Inr pl" "parse r = Inr pr" "align pl pr = Inr (a, b, sc)"
    "dec_val l = of_int a / 10 ^ sc" "dec_val r = of_int b / 10 ^ sc" "0 \<le> a" "0 \<le> b"
    using assms(1,2) by (rule aligned_operands)
  then have "a < b" using assms(3) by (simp add: divide_less_cancel)
  with * show ?thesis by (simp add: subtractDecimal_def)
qed

lemma sdiv_nonneg: "0 \<le> (a::int) \<Longrightarrow> 0 \<le> b \<Longrightarrow> a sdiv b = a div b"
  by (simp add: signed_divide_int_def sgn_if)

lemma smod_nonneg: "0 \<le> (a::int) \<Longrightarrow> 0 \<le> b \<Longrightarrow> a smod b = a mod b"
  by (simp add: signed_modulo_int_def sgn_if)

lemma multiply_law [dec_laws]:
  assumes "decimal_pattern left" "decimal_pattern right"
  shows "returns_decimal (multiplyDecimal left right) (trunc_at 18 (dec_val left * dec_val right))"
proof -
  obtain l where l: "parse left = Inr l" "pd_val l = dec_val left" "0 \<le> coefficient l" "scale l \<le> 18"
    using assms(1) by (rule parse_ok)
  obtain r where r: "parse right = Inr r" "pd_val r = dec_val right" "0 \<le> coefficient r" "scale r \<le> 18"
    using assms(2) by (rule parse_ok)
  define c ps where "c = coefficient l * coefficient r" and "ps = scale l + scale r"
  have c: "0 \<le> c" using l r by (simp add: c_def)
  have v: "dec_val left * dec_val right = of_int c / 10 ^ ps"
    by (simp add: l(2) [symmetric] r(2) [symmetric] pd_val_def c_def ps_def power_add)
  show ?thesis
  proof (cases "ps \<le> 18")
    case True
    then have "on_grid 18 (of_int c / 10 ^ ps)"
      by (intro on_grid_mono [OF True]) (simp add: on_grid_def)
    with True c l r format_spec [OF c, of ps] show ?thesis
      by (simp add: multiplyDecimal_def v trunc_at_grid c_def ps_def)
  next
    case False
    then have p: "powerOfTen (int ps - 18) = Inr (10 ^ (ps - 18))"
      using l r by (subst powerOfTen_ok) (auto simp: ps_def nat_diff_distrib)
    have "(10::rat) ^ 18 * (of_int c / 10 ^ ps) = of_int c / of_int (10 ^ (ps - 18))"
      using False by (subst pow10_split [of 18 ps]) auto
    then have t: "trunc_at 18 (of_int c / 10 ^ ps) = of_int (c div 10 ^ (ps - 18)) / 10 ^ 18"
      unfolding trunc_at_def by (simp only: floor_divide_of_int_eq)
    have "multiplyDecimal left right = format (c div 10 ^ (ps - 18)) 18"
      using False p c l r
      by (simp add: multiplyDecimal_def c_def [symmetric] ps_def [symmetric] Let_def sdiv_nonneg)
    moreover have "0 \<le> c div 10 ^ (ps - 18)" using c by (simp add: pos_imp_zdiv_nonneg_iff)
    ultimately show ?thesis unfolding v t using format_spec by metis
  qed
qed

lemma divide_law [dec_laws]:
  assumes "decimal_pattern left" "decimal_pattern right" "dec_val right \<noteq> 0" "0 \<le> sc" "sc \<le> 18"
  shows "returns_decimal (divideDecimal left right sc) (trunc_at (nat sc) (dec_val left / dec_val right))"
proof -
  obtain l where l: "parse left = Inr l" "pd_val l = dec_val left" "0 \<le> coefficient l" "scale l \<le> 18"
    using assms(1) by (rule parse_ok)
  obtain r where r: "parse right = Inr r" "pd_val r = dec_val right" "0 \<le> coefficient r" "scale r \<le> 18"
    using assms(2) by (rule parse_ok)
  have nz: "coefficient r \<noteq> 0" using assms(3) r(2) by (auto simp: pd_val_def)
  define n d where "n = coefficient l * 10 ^ (nat sc + scale r)" and "d = coefficient r * 10 ^ scale l"
  have nd: "0 \<le> n" "0 < d" using l r nz by (simp_all add: n_def d_def)
  have "10 ^ nat sc * (dec_val left / dec_val right) = of_int n / of_int d"
    using nz by (simp add: l(2) [symmetric] r(2) [symmetric] pd_val_def n_def d_def power_add field_simps)
  then have t: "trunc_at (nat sc) (dec_val left / dec_val right) = of_int (n div d) / 10 ^ nat sc"
    unfolding trunc_at_def by (simp only: floor_divide_of_int_eq)
  have p: "powerOfTen (sc + int (scale r)) = Inr (10 ^ (nat sc + scale r))" "powerOfTen (int (scale l)) = Inr (10 ^ scale l)"
    using l r assms by (simp_all add: powerOfTen_ok nat_add_distrib)
  have safe: "is_safe_integer sc" using assms by (simp add: is_safe_integer_def max_safe_integer_def)
  have "divideDecimal left right sc = format (n div d) (nat sc)"
    using l r nz p assms nd safe by (simp add: divideDecimal_def n_def [symmetric] d_def [symmetric] sdiv_nonneg)
  with format_spec [of "n div d" "nat sc"] nd t show ?thesis
    by (simp add: pos_imp_zdiv_nonneg_iff)
qed


subsection \<open>Normalisation and validated input\<close>

lemma trim_valid [simp]: "decimal_pattern s \<Longrightarrow> js_trim s = s"
proof (rule js_trim_id)
  assume "decimal_pattern s"
  then obtain i f where s: "s = join_point i f" "all_digits i" "all_digits f" "i \<noteq> []"
    by (rule dec_ok_cases)
  then have "is_digit (hd s)" "is_digit (last s)"
    by (auto simp: join_point_def all_digits_mem)
  then show "\<not> is_space (hd s) \<and> \<not> is_space (last s)" by (simp add: digit_not_space)
qed

lemma format_parsed:
  assumes "parse s = Inr p"
  shows "returns_decimal (format (coefficient p) (scale p)) (dec_val s)"
proof -
  have "decimal_pattern s" using assms by (rule parse_InrD)
  then obtain q where "parse s = Inr q" "pd_val q = dec_val s" "0 \<le> coefficient q" by (rule parse_ok)
  then show ?thesis using assms format_spec [of "coefficient p" "scale p"] by (simp add: pd_val_def)
qed

lemma coefficient_eq_0: "parse s = Inr p \<Longrightarrow> coefficient p = 0 \<longleftrightarrow> dec_val s = 0"
  by (metis Inr_inject div_0 divide_eq_0_iff of_int_0_eq_iff parse_InrD parse_ok pd_val_def power_not_zero zero_neq_numeral)

lemma canonical_valid:
  "decimal_pattern s \<Longrightarrow> canonical_decimal t \<Longrightarrow> dec_val t = dec_val s \<Longrightarrow> decimal_pattern t"
  by (simp add: canonical_valid_iff dec_val_bound dec_val_grid)

text \<open>What \<^const>\<open>decimal_with\<close> returns, and when it throws.\<close>

lemma decimal_with_Inr_iff:
  "decimal_with pos mx v = Inr t \<longleftrightarrow>
     decimal_pattern (js_trim v) \<and> canonical_decimal t \<and> dec_val t = dec_val (js_trim v) \<and>
     (pos \<longrightarrow> dec_val t \<noteq> 0) \<and>
     (case mx of None \<Rightarrow> True | Some m \<Rightarrow> m = [] \<or> (decimal_pattern m \<and> dec_val t \<le> dec_val m))"
proof (cases "decimal_pattern (js_trim v)")
  case False
  then show ?thesis by (simp add: decimal_with_def parse_reject)
next
  case True
  then obtain p where p: "parse (js_trim v) = Inr p" by (rule parse_ok)
  obtain n where n: "format (coefficient p) (scale p) = Inr n" "canonical_decimal n" "dec_val n = dec_val (js_trim v)"
    using format_parsed [OF p] by (rule returns_decimalE)
  have nv: "decimal_pattern n" using True n by (blast intro: canonical_valid)
  have t: "t = n \<longleftrightarrow> canonical_decimal t \<and> dec_val t = dec_val (js_trim v)"
    using n canonical_decimal_inj by metis
  have m: "rbind (compareDecimal n m) (\<lambda>c. if c > 0 then Inl e else Inr n) = Inr t \<longleftrightarrow>
      decimal_pattern m \<and> dec_val n \<le> dec_val m \<and> t = n" for m e
  proof (cases "decimal_pattern m")
    case True
    then show ?thesis using nv by (auto simp: compare_law)
  next
    case False
    then show ?thesis using nv by (auto simp: compareDecimal_def parse_reject result_simps)
  qed
  show ?thesis
  proof (cases "pos \<and> dec_val (js_trim v) = 0")
    case True
    then show ?thesis
      using p n coefficient_eq_0 [OF p] by (auto simp: decimal_with_def)
  next
    case False
    then have "decimal_with pos mx v = (case mx of None \<Rightarrow> Inr n | Some m \<Rightarrow> if m = [] then Inr n
        else rbind (compareDecimal n m) (\<lambda>c. if c > 0 then Inl (Error (''Decimal must not exceed '' @ m @ ''.'')) else Inr n))"
      using p n coefficient_eq_0 [OF p] by (auto simp: decimal_with_def throw_if_def)
    with True False t n(3) m show ?thesis by (cases mx) auto
  qed
qed

lemma decimal_Inr_iff:
  "decimal v = Inr t \<longleftrightarrow> decimal_pattern (js_trim v) \<and> canonical_decimal t \<and> dec_val t = dec_val (js_trim v)"
  by (simp add: decimal_def decimal_with_Inr_iff)

lemma decimal_positive_Inr_iff:
  "decimal_positive v = Inr t \<longleftrightarrow>
     decimal_pattern (js_trim v) \<and> canonical_decimal t \<and> dec_val t = dec_val (js_trim v) \<and> dec_val t \<noteq> 0"
  by (simp add: decimal_positive_def decimal_with_Inr_iff)

lemma decimal_law [dec_laws]: "decimal_pattern v \<Longrightarrow> returns_decimal (decimal v) (dec_val v)"
  using parse_ok [of v] format_parsed
  by (metis decimal_Inr_iff returns_decimalE returns_decimal_def trim_valid)

lemma decimal_with_valid: "decimal_with pos mx v = Inr t \<Longrightarrow> decimal_pattern t"
  by (auto simp: decimal_with_Inr_iff intro: canonical_valid)

lemma decimal_valid: "decimal v = Inr t \<Longrightarrow> decimal_pattern t"
  unfolding decimal_def by (rule decimal_with_valid)

lemma decimal_canonical_id: "decimal_pattern t \<Longrightarrow> canonical_decimal t \<Longrightarrow> decimal t = Inr t"
  by (simp add: decimal_Inr_iff)

lemma decimal_idempotent: "decimal v = Inr t \<Longrightarrow> decimal t = Inr t"
  by (metis decimal_Inr_iff decimal_canonical_id decimal_valid)

lemma decimal_positive_law [dec_laws]:
  assumes "decimal_pattern v" "dec_val v \<noteq> 0"
  shows "returns_decimal (decimal_positive v) (dec_val v)"
proof -
  obtain t where "decimal v = Inr t" "canonical_decimal t" "dec_val t = dec_val v"
    using decimal_law [OF assms(1)] by (rule returns_decimalE)
  then have "decimal_positive v = Inr t"
    using assms by (simp add: decimal_positive_Inr_iff)
  with \<open>canonical_decimal t\<close> \<open>dec_val t = dec_val v\<close> show ?thesis by (simp add: returns_decimal_def)
qed

lemma zero_valid [simp]: "decimal_pattern ''0''" "dec_val ''0'' = 0"
  by code_simp+

lemma zero_canonical [simp]: "canonical_decimal ''0''"
proof -
  have "''0'' = join_point ''0'' []" by (simp add: join_point_def)
  moreover have "canonical_digits ''0''" by (simp add: canonical_digits_def)
  ultimately show ?thesis unfolding canonical_decimal_def by (metis all_digits_simps(1))
qed

lemma canonical_zero_iff: "canonical_decimal s \<Longrightarrow> s = ''0'' \<longleftrightarrow> dec_val s = 0"
  by (metis canonical_decimal_inj zero_canonical zero_valid(2))


subsection \<open>Quantisation\<close>

text \<open>The number of whole increments fits the supported range.\<close>

lemma quantize_law [dec_laws]:
  assumes "decimal_pattern v" "decimal_pattern inc" "dec_val inc \<noteq> 0"
    and "dec_val v / dec_val inc < dec_limit"
  shows "returns_decimal (quantizeDecimalDown v inc) (of_int \<lfloor>dec_val v / dec_val inc\<rfloor> * dec_val inc)"
proof -
  have "0 \<le> dec_val v" "0 < dec_val inc"
    using assms dec_val_nonneg [of v] dec_val_nonneg [of inc] by auto
  obtain d d' where d: "decimal v = Inr d" "decimal_positive inc = Inr d'"
    using decimal_law decimal_positive_law assms by (metis returns_decimalE)
  obtain q where q: "divideDecimal v inc 0 = Inr q" "canonical_decimal q"
      "dec_val q = of_int \<lfloor>dec_val v / dec_val inc\<rfloor>"
    using divide_law [OF assms(1-3), of 0] by (auto simp: trunc_at_def elim: returns_decimalE)
  have "dec_val q < dec_limit"
    using q(3) assms(4) of_int_floor_le [of "dec_val v / dec_val inc"] by linarith
  then have vq: "decimal_pattern q" using q by (simp add: canonical_valid_iff)
  have "on_grid 18 (dec_val q * dec_val inc)"
    using on_grid_int_mult [OF dec_val_grid [OF assms(2)]] q(3) by metis
  then show ?thesis
    using multiply_law [OF vq assms(2)] d q by (simp add: quantizeDecimalDown_def trunc_at_grid)
qed


subsection \<open>Sums, minima and midpoints\<close>

lemma add_exact_val: "addDecimal a b = Inr c \<Longrightarrow> dec_val c = dec_val a + dec_val b"
proof -
  assume add: "addDecimal a b = Inr c"
  then have "decimal_pattern a" "decimal_pattern b"
    by (auto simp: addDecimal_def rbind_Inr_iff dest: parse_InrD)
  from add_law [OF this] add show ?thesis by (auto elim: returns_decimalE)
qed

lemma add_total_valid:
  assumes "decimal_pattern a" "decimal_pattern b" "dec_val a + dec_val b < dec_limit"
  shows "\<exists>c. addDecimal a b = Inr c \<and> decimal_pattern c"
proof -
  obtain c where c: "addDecimal a b = Inr c" "canonical_decimal c" "dec_val c = dec_val a + dec_val b"
    using add_law [OF assms(1,2)] by (rule returns_decimalE)
  then have "decimal_pattern c"
    using assms on_grid_add dec_val_grid by (simp add: canonical_valid_iff)
  with c show ?thesis by blast
qed

interpretation dec_sum: total_accumulator addDecimal dec_val decimal_pattern dec_limit
proof
  show "addDecimal a b = Inr c \<Longrightarrow> dec_val c = dec_val a + dec_val b" for a b c by (rule add_exact_val)
  show "decimal_pattern a \<Longrightarrow> 0 \<le> dec_val a" for a by (rule dec_val_nonneg)
  show "\<exists>c. addDecimal a b = Inr c \<and> decimal_pattern c"
    if "decimal_pattern a" "decimal_pattern b" "dec_val a + dec_val b < dec_limit" for a b
    using that by (rule add_total_valid)
qed

lemma sum_exact: "sumDecimals vs = Inr s \<Longrightarrow> dec_val s = (\<Sum>v\<leftarrow>vs. dec_val v)"
  unfolding sumDecimals_def using dec_sum.fold_exact [of "''0''"] by simp

lemma sum_total:
  assumes "\<And>v. v \<in> set vs \<Longrightarrow> decimal_pattern v" "(\<Sum>v\<leftarrow>vs. dec_val v) < dec_limit"
  shows "\<exists>s. sumDecimals vs = Inr s \<and> decimal_pattern s"
  unfolding sumDecimals_def using dec_sum.fold_total [of "''0''" vs] assms by simp

lemma compare_ok_iff: "(\<exists>c. compareDecimal l r = Inr c) \<longleftrightarrow> decimal_pattern l \<and> decimal_pattern r"
proof
  assume "\<exists>c. compareDecimal l r = Inr c"
  then show "decimal_pattern l \<and> decimal_pattern r"
    by (auto simp: compareDecimal_def rbind_Inr_iff dest: parse_InrD)
qed (auto simp: compare_law)

lemma minDecimal_law:
  assumes "vs \<noteq> []" "\<And>v. v \<in> set vs \<Longrightarrow> decimal_pattern v"
  obtains m where "minDecimal vs = Inr m" "m \<in> set vs" "\<And>v. v \<in> set vs \<Longrightarrow> dec_val m \<le> dec_val v"
proof -
  let ?f = "\<lambda>minimum v. rbind (compareDecimal v minimum) (\<lambda>c. Inr (if c < 0 then v else minimum))"
  have fold: "\<exists>m. foldM ?f z xs = Inr m \<and> m \<in> set (z # xs) \<and> (\<forall>v\<in>set (z # xs). dec_val m \<le> dec_val v)"
    if "decimal_pattern z" "\<forall>x\<in>set xs. decimal_pattern x" for z xs
    using that
  proof (induction xs arbitrary: z)
    case Nil
    then show ?case by simp
  next
    case (Cons x xs)
    let ?z = "if dec_val x < dec_val z then x else z"
    have "?f z x = Inr ?z" using Cons.prems by (simp add: compare_law)
    moreover have "decimal_pattern ?z" using Cons.prems by simp
    ultimately show ?case using Cons.IH [of ?z] Cons.prems by (force split: if_splits)
  qed
  obtain z xs where vs: "vs = z # xs" using assms(1) by (cases vs) auto
  then show ?thesis using fold [of z xs] assms(2) that by (auto simp: minDecimal_def)
qed

lemma midpoint_law [dec_laws]:
  assumes "decimal_pattern a" "decimal_pattern b" "dec_val a \<le> dec_val b" "dec_val a + dec_val b < dec_limit"
  shows "returns_decimal (midpointDecimal a b) (trunc_at 18 ((dec_val a + dec_val b) / 2))"
proof -
  obtain c where c: "addDecimal a b = Inr c" "decimal_pattern c"
    using add_total_valid [OF assms(1,2,4)] by blast
  have two: "decimal_pattern ''2''" "dec_val ''2'' = 2" by code_simp+
  then show ?thesis
    using divide_law [OF c(2) two(1), of 18] c assms add_exact_val [OF c(1)]
    by (simp add: midpointDecimal_def compare_law)
qed


section \<open>Signed decimals\<close>

definition sdec_val :: "string \<Rightarrow> rat" where
  "sdec_val s = (if starts_neg s then - dec_val (magnitude_of s) else dec_val (magnitude_of s))"

definition signed_ok :: "string \<Rightarrow> bool" where
  "signed_ok s \<longleftrightarrow> decimal_pattern (magnitude_of s)"

definition canonical_signed :: "string \<Rightarrow> bool" where
  "canonical_signed s \<longleftrightarrow> canonical_decimal (magnitude_of s) \<and> (starts_neg s \<longrightarrow> magnitude_of s \<noteq> ''0'')"

definition returns_signed :: "string result \<Rightarrow> rat \<Rightarrow> bool" where
  "returns_signed r q \<longleftrightarrow> (\<exists>s. r = Inr s \<and> canonical_signed s \<and> sdec_val s = q)"

definition with_sign :: "bool \<Rightarrow> string \<Rightarrow> string" where
  "with_sign neg s = (if neg \<and> s \<noteq> ''0'' then CHR ''-'' # s else s)"

lemma digit_led_unsigned: "s \<noteq> [] \<Longrightarrow> is_digit (hd s) \<Longrightarrow> \<not> starts_neg s"
  by (cases s) (auto simp: starts_neg_def)

lemma canonical_unsigned: "canonical_decimal s \<Longrightarrow> \<not> starts_neg s"
  by (rule digit_led_unsigned)
    (auto simp: canonical_decimal_def join_point_def canonical_digits_def all_digits_mem split: if_splits)

lemma valid_unsigned: "decimal_pattern s \<Longrightarrow> \<not> starts_neg s"
  by (erule dec_ok_cases, rule digit_led_unsigned) (auto simp: join_point_def all_digits_mem)

lemma magnitude_unsigned [simp]: "\<not> starts_neg s \<Longrightarrow> magnitude_of s = s"
  by (simp add: magnitude_of_def)

lemma neg_Cons [simp]: "starts_neg (CHR ''-'' # s)" "magnitude_of (CHR ''-'' # s) = s"
  by (simp_all add: starts_neg_def magnitude_of_def)

lemma starts_negE:
  assumes "starts_neg s"
  obtains t where "s = CHR ''-'' # t"
  using assms by (auto simp: starts_neg_def split: list.splits)

lemma with_sign_facts:
  assumes "canonical_decimal m"
  shows "canonical_signed (with_sign neg m)" "sdec_val (with_sign neg m) = (if neg then - dec_val m else dec_val m)"
    "magnitude_of (with_sign neg m) = m" "starts_neg (with_sign neg m) \<longleftrightarrow> neg \<and> m \<noteq> ''0''"
  using canonical_unsigned [OF assms] assms canonical_zero_iff [OF assms]
  by (auto simp: canonical_signed_def with_sign_def sdec_val_def)

lemma canonical_signed_cases:
  assumes "canonical_signed s"
  obtains m neg where "s = with_sign neg m" "canonical_decimal m" "m = magnitude_of s"
proof (rule that)
  show "s = with_sign (starts_neg s) (magnitude_of s)"
    using assms by (auto simp: canonical_signed_def with_sign_def elim: starts_negE)
  show "canonical_decimal (magnitude_of s)" using assms by (simp add: canonical_signed_def)
qed simp

lemma canonical_signed_inj:
  assumes "canonical_signed s" "canonical_signed t" "sdec_val s = sdec_val t"
    and "decimal_pattern (magnitude_of s)" "decimal_pattern (magnitude_of t)"
  shows "s = t"
proof -
  have nn: "0 \<le> dec_val (magnitude_of s)" "0 \<le> dec_val (magnitude_of t)"
    using assms dec_val_nonneg by auto
  have zero: "dec_val (magnitude_of s) = 0 \<Longrightarrow> \<not> starts_neg s" "dec_val (magnitude_of t) = 0 \<Longrightarrow> \<not> starts_neg t"
    using assms(1,2) canonical_zero_iff by (auto simp: canonical_signed_def)
  have sgn: "starts_neg s = starts_neg t"
    using assms(3) nn zero by (auto simp: sdec_val_def split: if_splits)
  then have "dec_val (magnitude_of s) = dec_val (magnitude_of t)"
    using assms(3) by (simp add: sdec_val_def split: if_splits)
  then have "magnitude_of s = magnitude_of t"
    using canonical_decimal_inj assms(1,2) by (auto simp: canonical_signed_def)
  with sgn show ?thesis by (metis magnitude_unsigned neg_Cons(2) starts_negE)
qed

lemma signedDecimal_eq:
  "signedDecimal v = rbind (decimal (magnitude_of v)) (\<lambda>m. Inr (with_sign (starts_neg v) m))"
  by (simp add: signedDecimal_def with_sign_def)

lemma signedDecimal_InrD:
  assumes "signedDecimal v = Inr t"
  shows "canonical_signed t" "signed_ok t" "decimal_pattern (js_trim (magnitude_of v))"
    "sdec_val t = (if starts_neg v then -1 else 1) * dec_val (js_trim (magnitude_of v))"
proof -
  obtain m where m: "decimal (magnitude_of v) = Inr m" "t = with_sign (starts_neg v) m"
    using assms by (auto simp: signedDecimal_eq rbind_Inr_iff)
  then have c: "canonical_decimal m" "decimal_pattern m" "dec_val m = dec_val (js_trim (magnitude_of v))"
    using decimal_valid [OF m(1)] decimal_Inr_iff [THEN iffD1, OF m(1)] by blast+
  show "canonical_signed t" "signed_ok t" "decimal_pattern (js_trim (magnitude_of v))"
    "sdec_val t = (if starts_neg v then -1 else 1) * dec_val (js_trim (magnitude_of v))"
    using with_sign_facts [OF c(1), of "starts_neg v"] m(2) c decimal_Inr_iff [THEN iffD1, OF m(1)]
    by (simp_all add: signed_ok_def)
qed

lemma signed_law:
  assumes "signed_ok v"
  shows "returns_signed (signedDecimal v) (sdec_val v)"
proof -
  obtain m where m: "decimal (magnitude_of v) = Inr m" "canonical_decimal m" "dec_val m = dec_val (magnitude_of v)"
    using decimal_law assms unfolding signed_ok_def by (blast elim: returns_decimalE)
  then show ?thesis
    using with_sign_facts [OF m(2)] by (auto simp: signedDecimal_eq returns_signed_def sdec_val_def)
qed

lemma signed_ok_normal:
  assumes "signed_ok v"
  obtains t where "signedDecimal v = Inr t" "canonical_signed t" "signed_ok t" "sdec_val t = sdec_val v"
  using signed_law [OF assms] signedDecimal_InrD(2) that by (auto simp: returns_signed_def)

lemma signed_of_valid: "decimal_pattern s \<Longrightarrow> signed_ok s \<and> sdec_val s = dec_val s"
  by (simp add: signed_ok_def sdec_val_def valid_unsigned)

lemma signedDecimal_canonical: "canonical_signed t \<Longrightarrow> signed_ok t \<Longrightarrow> signedDecimal t = Inr t"
  by (metis canonical_signed_inj signed_ok_def signed_ok_normal)

lemma negate_law:
  assumes "signed_ok v"
  shows "returns_signed (negateSignedDecimal v) (- sdec_val v)"
proof -
  obtain t where t: "signedDecimal v = Inr t" "canonical_signed t" "sdec_val t = sdec_val v"
    using assms by (rule signed_ok_normal)
  obtain m neg where m: "t = with_sign neg m" "canonical_decimal m"
    using t(2) by (rule canonical_signed_cases)
  have zero: "t = ''0'' \<longleftrightarrow> m = ''0''"
    using m by (auto simp: with_sign_def)
  have "negateSignedDecimal v = Inr (with_sign (\<not> starts_neg t) m)"
    using t(1) m zero with_sign_facts(4) [OF m(2)] canonical_unsigned [OF m(2)]
    by (auto simp: negateSignedDecimal_def with_sign_def)
  then show ?thesis
    using t(3) with_sign_facts [OF m(2), of neg] with_sign_facts [OF m(2), of "\<not> starts_neg t"] m
      canonical_zero_iff [OF m(2)] by (auto simp: returns_signed_def)
qed

text \<open>The signed sum of two magnitudes, as the code computes it.\<close>

lemma add_signed_law:
  assumes "signed_ok l" "signed_ok r"
  shows "returns_signed (addSignedDecimal l r) (sdec_val l + sdec_val r)"
proof -
  obtain sl where sl: "signedDecimal l = Inr sl" "signed_ok sl" "sdec_val sl = sdec_val l"
    using assms(1) by (rule signed_ok_normal)
  obtain sr where sr: "signedDecimal r = Inr sr" "signed_ok sr" "sdec_val sr = sdec_val r"
    using assms(2) by (rule signed_ok_normal)
  define a b where "a = magnitude_of sl" and "b = magnitude_of sr"
  have ab: "decimal_pattern a" "decimal_pattern b" using sl sr by (simp_all add: signed_ok_def a_def b_def)
  have v: "sdec_val l = (if starts_neg sl then - dec_val a else dec_val a)"
      "sdec_val r = (if starts_neg sr then - dec_val b else dec_val b)"
    using sl(3) sr(3) sdec_val_def [of sl] sdec_val_def [of sr] unfolding a_def b_def by metis+
  show ?thesis
  proof (cases "starts_neg sl = starts_neg sr")
    case True
    obtain s where "addDecimal a b = Inr s" "canonical_decimal s" "dec_val s = dec_val a + dec_val b"
      using add_law [OF ab] by (rule returns_decimalE)
    then show ?thesis
      using sl(1) sr(1) True v with_sign_facts(1,2) [of s "starts_neg sl"] canonical_zero_iff [of s]
      by (auto simp: addSignedDecimal_def Let_def a_def [symmetric] b_def [symmetric] returns_signed_def with_sign_def)
  next
    case False
    have step: "\<exists>d. subtractDecimal x y = Inr d \<and> canonical_decimal d \<and> dec_val d = dec_val x - dec_val y \<and> d \<noteq> ''0''"
      if "dec_val y < dec_val x" "decimal_pattern x" "decimal_pattern y" for x y
      using subtract_law [of x y] that canonical_zero_iff by (fastforce elim: returns_decimalE)
    consider "dec_val a = dec_val b" | "dec_val b < dec_val a" | "dec_val a < dec_val b" by linarith
    then show ?thesis
    proof cases
      case 1
      then show ?thesis
        using sl(1) sr(1) False v compare_law [OF ab] zero_canonical with_sign_facts(1,2) [of "''0''" False]
        by (auto simp: addSignedDecimal_def Let_def a_def [symmetric] b_def [symmetric] returns_signed_def with_sign_def)
    next
      case 2
      then obtain d where d: "subtractDecimal a b = Inr d" "canonical_decimal d" "dec_val d = dec_val a - dec_val b" "d \<noteq> ''0''"
        using step ab by blast
      then show ?thesis
        using sl(1) sr(1) False v compare_law [OF ab] 2 with_sign_facts(1,2) [of d "starts_neg sl"]
        by (auto simp: addSignedDecimal_def Let_def a_def [symmetric] b_def [symmetric] returns_signed_def with_sign_def rat_cmp_def)
    next
      case 3
      then obtain d where d: "subtractDecimal b a = Inr d" "canonical_decimal d" "dec_val d = dec_val b - dec_val a" "d \<noteq> ''0''"
        using step ab by blast
      then show ?thesis
        using sl(1) sr(1) False v compare_law [OF ab] 3 with_sign_facts(1,2) [of d "starts_neg sr"]
        by (auto simp: addSignedDecimal_def Let_def a_def [symmetric] b_def [symmetric] returns_signed_def with_sign_def rat_cmp_def)
    qed
  qed
qed


lemma add_signed_ok: "addSignedDecimal l r = Inr c \<Longrightarrow>
    \<exists>l' r'. signedDecimal l = Inr l' \<and> signedDecimal r = Inr r'"
  by (auto simp: addSignedDecimal_def rbind_Inr_iff)

lemma canonical_nonneg: "canonical_decimal s \<Longrightarrow> 0 \<le> dec_val s"
proof -
  assume "canonical_decimal s"
  then obtain i f where s: "s = join_point i f" "all_digits i" "all_digits f"
    by (auto simp: canonical_decimal_def dest: canonical_digitsD)
  then show ?thesis using digits_val_nonneg [of "i @ f"] by simp
qed

lemma on_grid_minus [simp]: "on_grid k (- x) \<longleftrightarrow> on_grid k x"
  by (simp add: on_grid_def)

lemma signed_ok_bounds: "signed_ok s \<Longrightarrow> \<bar>sdec_val s\<bar> < dec_limit \<and> on_grid 18 (sdec_val s)"
  using dec_val_bound [of "magnitude_of s"] dec_val_nonneg [of "magnitude_of s"] dec_val_grid [of "magnitude_of s"]
  by (cases "starts_neg s") (simp_all add: signed_ok_def sdec_val_def)

lemma signed_ok_iff:
  assumes "canonical_signed s"
  shows "signed_ok s \<longleftrightarrow> \<bar>sdec_val s\<bar> < dec_limit \<and> on_grid 18 (sdec_val s)"
  using assms canonical_nonneg [of "magnitude_of s"]
  by (cases "starts_neg s") (simp_all add: signed_ok_def sdec_val_def canonical_signed_def canonical_valid_iff)

lemma subtract_signed_law:
  assumes "signed_ok l" "signed_ok r"
  shows "returns_signed (subtractSignedDecimal l r) (sdec_val l - sdec_val r)"
proof -
  obtain n where n: "negateSignedDecimal r = Inr n" "canonical_signed n" "sdec_val n = - sdec_val r"
    using negate_law [OF assms(2)] by (auto simp: returns_signed_def)
  have "signed_ok n"
    using n signed_ok_bounds [OF assms(2)] by (simp add: signed_ok_iff on_grid_minus)
  from add_signed_law [OF assms(1) this] n show ?thesis
    by (simp add: subtractSignedDecimal_def)
qed

lemma reduce_scale_spec:
  assumes "0 \<le> c" "reduce_scale c sc = (c', sc')"
  shows "of_int c' / 10 ^ sc' = (of_int c / 10 ^ sc :: rat)" "0 \<le> c'" "sc' = 0 \<or> c' mod 10 \<noteq> 0"
  using assms
proof (induction c sc rule: reduce_scale.induct)
  case (1 c)
  {
    case 1
    then show ?case by simp
  next
    case 2
    then show ?case by simp
  next
    case 3
    then show ?case by simp
  }
next
  case (2 c sc)
  show "of_int c' / 10 ^ sc' = (of_int c / 10 ^ Suc sc :: rat)" "0 \<le> c'" "sc' = 0 \<or> c' mod 10 \<noteq> 0"
    if "0 \<le> c" "reduce_scale c (Suc sc) = (c', sc')"
  proof -
    have "of_int c' / 10 ^ sc' = (of_int c / 10 ^ Suc sc :: rat) \<and> 0 \<le> c' \<and> (sc' = 0 \<or> c' mod 10 \<noteq> 0)"
    proof (cases "c mod 10 = 0")
      case True
      then have "(of_int c :: rat) = 10 * of_int (c div 10)"
        by (metis add.right_neutral mult_div_mod_eq of_int_mult of_int_numeral)
      moreover have "reduce_scale (c div 10) sc = (c', sc')" "0 \<le> c div 10"
        using that True by (simp_all add: smod_nonneg sdiv_nonneg)
      ultimately show ?thesis using 2 True that by (simp add: smod_nonneg sdiv_nonneg)
    next
      case False
      with that show ?thesis by (auto simp: smod_nonneg)
    qed
    then show "of_int c' / 10 ^ sc' = (of_int c / 10 ^ Suc sc :: rat)" "0 \<le> c'" "sc' = 0 \<or> c' mod 10 \<noteq> 0"
      by auto
  qed
qed

lemma reduced_grid:
  assumes "c mod 10 \<noteq> 0" "k < sc"
  shows "\<not> on_grid k (of_int c / 10 ^ sc)"
proof
  assume "on_grid k (of_int c / 10 ^ sc)"
  then obtain z where z: "10 ^ k * (of_int c / 10 ^ sc) = (of_int z :: rat)" by (auto simp: on_grid_def elim: Ints_cases)
  obtain m where m: "sc = k + Suc m" using assms(2) less_imp_Suc_add by force
  have "(of_int c :: rat) = of_int (z * 10 ^ Suc m)"
    using z by (simp add: m power_add field_simps)
  then have "c = z * 10 ^ Suc m" by (simp only: of_int_eq_iff)
  then show False using assms(1) by simp
qed

lemma allocate_exact_law:
  assumes "decimal_pattern v" "decimal_pattern n" "decimal_pattern d" "dec_val d \<noteq> 0"
  defines "q \<equiv> dec_val v * dec_val n / dec_val d"
  shows "on_grid 18 q \<Longrightarrow> q < dec_limit \<Longrightarrow> returns_decimal (allocateDecimalExact v n d) q"
    and "\<not> on_grid 18 q \<Longrightarrow>
      allocateDecimalExact v n d = Inl (Error ''Exact cost allocation exceeds supported decimal precision.'')"
proof -
  obtain v' where v': "decimal v = Inr v'" "decimal_pattern v'" "dec_val v' = dec_val v"
    using decimal_law [OF assms(1)] decimal_valid by (metis returns_decimalE)
  obtain n' where n': "decimal n = Inr n'" "decimal_pattern n'" "dec_val n' = dec_val n"
    using decimal_law [OF assms(2)] decimal_valid by (metis returns_decimalE)
  obtain d' where d': "decimal_positive d = Inr d'" "decimal_pattern d'" "dec_val d' = dec_val d"
    using decimal_positive_law [OF assms(3,4)] decimal_with_valid unfolding decimal_positive_def by (metis returns_decimalE)
  obtain a where a: "parse v' = Inr a" "pd_val a = dec_val v" "0 \<le> coefficient a" "scale a \<le> 18"
    using parse_ok [OF v'(2)] v'(3) by metis
  obtain b where b: "parse n' = Inr b" "pd_val b = dec_val n" "0 \<le> coefficient b" "scale b \<le> 18"
    using parse_ok [OF n'(2)] n'(3) by metis
  obtain c where c: "parse d' = Inr c" "pd_val c = dec_val d" "0 \<le> coefficient c" "scale c \<le> 18"
    using parse_ok [OF d'(2)] d'(3) by metis
  have nz: "0 < coefficient c" using c assms(4) by (cases "coefficient c = 0") (auto simp: pd_val_def)
  define p18 :: int where "p18 = 10 ^ 18"
  define top bottom where "top = coefficient a * coefficient b * 10 ^ scale c * p18"
    and "bottom = coefficient c * 10 ^ (scale a + scale b)"
  have pos: "0 \<le> top" "0 < bottom" using a b c nz by (simp_all add: top_def bottom_def p18_def)
  have q: "10 ^ 18 * q = of_int top / of_int bottom"
    using nz by (simp add: q_def a(2) [symmetric] b(2) [symmetric] c(2) [symmetric] pd_val_def top_def bottom_def p18_def power_add field_simps)
  have run: "allocateDecimalExact v n d = (if top mod bottom \<noteq> 0
      then Inl (Error ''Exact cost allocation exceeds supported decimal precision.'')
      else rbind (format (top div bottom) 18) decimal)"
  proof -
    have "powerOfTen (int (scale c)) = Inr (10 ^ scale c)" "powerOfTen 18 = Inr p18"
      "powerOfTen (int (scale a + scale b)) = Inr (10 ^ (scale a + scale b))"
      using a b c by (simp_all add: powerOfTen_ok nat_add_distrib p18_def)
    then show ?thesis
      using v' n' d' a b c pos
      by (simp add: allocateDecimalExact_def Let_def smod_nonneg sdiv_nonneg top_def [symmetric] bottom_def [symmetric])
  qed
  have grid: "on_grid 18 q \<longleftrightarrow> top mod bottom = 0"
  proof
    assume "on_grid 18 q"
    then obtain z where "of_int top / of_int bottom = (of_int z :: rat)"
      using q by (auto simp: on_grid_def elim: Ints_cases)
    then have "of_int top = (of_int (z * bottom) :: rat)" using pos by (simp add: field_simps)
    then show "top mod bottom = 0" by (simp only: of_int_eq_iff) simp
  next
    assume "top mod bottom = 0"
    then have "top = (top div bottom) * bottom" by (simp add: minus_mod_eq_div_mult [symmetric])
    then have "of_int top / of_int bottom = (of_int (top div bottom) :: rat)"
      using pos by (metis nonzero_mult_div_cancel_right of_int_0_eq_iff of_int_mult order_less_irrefl)
    then show "on_grid 18 q" using q by (simp add: on_grid_def)
  qed
  show "allocateDecimalExact v n d = Inl (Error ''Exact cost allocation exceeds supported decimal precision.'')"
    if "\<not> on_grid 18 q" using that grid run by simp
  show "returns_decimal (allocateDecimalExact v n d) q" if "on_grid 18 q" "q < dec_limit"
  proof -
    have "of_int (top div bottom) / 10 ^ 18 = q"
      using that(1) grid q floor_divide_of_int_eq [where 'a = rat, of top bottom] trunc_at_grid [OF that(1)]
      by (simp add: trunc_at_def)
    moreover have "0 \<le> top div bottom" using pos by (simp add: pos_imp_zdiv_nonneg_iff)
    ultimately obtain f where f: "format (top div bottom) 18 = Inr f" "canonical_decimal f" "dec_val f = q"
      using format_spec [of "top div bottom" 18] by (auto elim: returns_decimalE)
    then have "decimal f = Inr f" using that by (simp add: decimal_canonical_id canonical_valid_iff)
    with f run grid that show ?thesis by (simp add: returns_decimal_def)
  qed
qed


lemma add_signed_exact: "addSignedDecimal a b = Inr c \<Longrightarrow> signed_ok a \<Longrightarrow> signed_ok b \<Longrightarrow> sdec_val c = sdec_val a + sdec_val b"
  using add_signed_law [of a b] by (auto simp: returns_signed_def)


lemma canonical_trim: "canonical_decimal s \<Longrightarrow> js_trim s = s"
proof (rule js_trim_id)
  assume c: "canonical_decimal s" "s \<noteq> []"
  then obtain i f where s: "s = join_point i f" "all_digits i" "i \<noteq> []" "all_digits f"
    by (auto simp: canonical_decimal_def dest: canonical_digitsD)
  then have "is_digit (hd s)" "is_digit (last s)"
    by (auto simp: join_point_def all_digits_mem)
  then show "\<not> is_space (hd s) \<and> \<not> is_space (last s)" using digit_not_space by blast
qed

lemma canonical_is_signed: "canonical_decimal s \<Longrightarrow> canonical_signed s"
  by (simp add: canonical_signed_def canonical_unsigned)

lemma signed_canonical_ok: "signedDecimal a = Inr l \<Longrightarrow> canonical_signed a \<Longrightarrow> signed_ok a"
  using signedDecimal_InrD(3) [of a l] canonical_trim by (simp add: signed_ok_def canonical_signed_def)

lemma add_signed_Inr:
  assumes "addSignedDecimal a b = Inr c" "canonical_signed a" "canonical_signed b"
  shows "canonical_signed c \<and> sdec_val c = sdec_val a + sdec_val b"
proof -
  obtain l r where "signedDecimal a = Inr l" "signedDecimal b = Inr r" using add_signed_ok [OF assms(1)] by blast
  then have "signed_ok a" "signed_ok b" using assms(2,3) signed_canonical_ok by blast+
  then show ?thesis using add_signed_law [of a b] assms(1) by (simp add: returns_signed_def)
qed


text \<open>A nonnegative integer printed by \<^verbatim>\<open>String\<close> is a canonical decimal; it is a valid one below the limit.\<close>

lemma integer_canonical:
  assumes "0 \<le> n"
  shows "canonical_decimal (show_int n)" "dec_val (show_int n) = of_int n"
proof -
  have s: "show_int n = join_point (show_nonneg n) []" using assms by (simp add: show_int_def join_point_def)
  show "canonical_decimal (show_int n)"
    unfolding canonical_decimal_def using s assms by (intro exI [of _ "show_nonneg n"] exI [of _ "[]"]) simp
  show "dec_val (show_int n) = of_int n"
    unfolding s using assms by simp
qed

lemma integer_decimal:
  assumes "0 \<le> n" "n < 10 ^ 36"
  shows "decimal_pattern (show_int n)" "canonical_decimal (show_int n)" "dec_val (show_int n) = of_int n" "js_trim (show_int n) = show_int n"
proof -
  note c = integer_canonical [OF assms(1)]
  have "(of_int n :: rat) < of_int (10 ^ 36)" using assms(2) by (simp only: of_int_less_iff)
  then have "dec_val (show_int n) < dec_limit" using c(2) by (simp add: dec_limit_def)
  moreover have "on_grid 18 (dec_val (show_int n))" using c(2) by (simp add: on_grid_def)
  ultimately have "decimal_pattern (show_int n)" using canonical_valid_iff [OF c(1)] by simp
  then show "decimal_pattern (show_int n)" "canonical_decimal (show_int n)" "dec_val (show_int n) = of_int n" "js_trim (show_int n) = show_int n"
    using c by simp_all
qed

lemma safe_integer_decimal: "0 \<le> n \<Longrightarrow> is_safe_integer n \<Longrightarrow> n < 10 ^ 36"
  by (simp add: is_safe_integer_def max_safe_integer_def)

lemma decimal_id_value: "decimal v = Inr t \<Longrightarrow> dec_val t = dec_val (js_trim v) \<and> decimal_pattern (js_trim v) \<and> js_trim t = t \<and> decimal_pattern t"
proof -
  assume d: "decimal v = Inr t"
  then have "decimal_pattern t" by (rule decimal_valid)
  with d show ?thesis by (simp add: decimal_Inr_iff)
qed

lemma decimal_positive_value:
  "decimal_positive v = Inr t \<Longrightarrow> dec_val t = dec_val (js_trim v) \<and> decimal_pattern (js_trim v) \<and> decimal_pattern t \<and> dec_val t \<noteq> 0"
  using decimal_with_valid unfolding decimal_positive_Inr_iff [symmetric] decimal_positive_def
  by (metis decimal_positive_Inr_iff decimal_positive_def)


section \<open>Inversion: what a returned decimal says\<close>

lemma zero_decimal: "decimal_pattern ''0''" "canonical_decimal ''0''" "dec_val ''0'' = 0"
proof -
  have d: "decimal ''0'' = Inr ''0''" by code_simp
  show "decimal_pattern ''0''" using decimal_valid [OF d] .
  then show "canonical_decimal ''0''" using decimal_law [of "''0''"] d by (simp add: returns_decimal_def)
  show "dec_val ''0'' = 0" by code_simp
qed

lemma returned: "returns_decimal (Inr s) q \<Longrightarrow> canonical_decimal s \<and> dec_val s = q"
  by (simp add: returns_decimal_def)

lemma compare_Inr: "compareDecimal a b = Inr c \<Longrightarrow> decimal_pattern a \<and> decimal_pattern b \<and> c = rat_cmp (dec_val a) (dec_val b)"
  using compare_ok_iff [of a b] by (auto simp: compare_law)

lemma add_Inr: "addDecimal a b = Inr c \<Longrightarrow> decimal_pattern a \<and> decimal_pattern b \<and> canonical_decimal c \<and> dec_val c = dec_val a + dec_val b"
proof -
  assume c: "addDecimal a b = Inr c"
  then have "decimal_pattern a" "decimal_pattern b" by (auto simp: addDecimal_def rbind_Inr_iff dest: parse_InrD)
  then show ?thesis using add_law [of a b] c returned by simp
qed

lemma subtract_Inr:
  "subtractDecimal a b = Inr c \<Longrightarrow> decimal_pattern a \<and> decimal_pattern b \<and> canonical_decimal c \<and> dec_val b \<le> dec_val a \<and> dec_val c = dec_val a - dec_val b"
proof -
  assume c: "subtractDecimal a b = Inr c"
  then have p: "decimal_pattern a" "decimal_pattern b" by (auto simp: subtractDecimal_def rbind_Inr_iff dest: parse_InrD)
  moreover have "dec_val b \<le> dec_val a" using subtract_negative [OF p] c by (cases "dec_val a < dec_val b") auto
  ultimately show ?thesis using subtract_law [of a b] c returned by simp
qed

lemma multiply_Inr:
  "multiplyDecimal a b = Inr c \<Longrightarrow> decimal_pattern a \<and> decimal_pattern b \<and> canonical_decimal c \<and> dec_val c = trunc_at 18 (dec_val a * dec_val b)"
proof -
  assume c: "multiplyDecimal a b = Inr c"
  then have "decimal_pattern a" "decimal_pattern b" by (auto simp: multiplyDecimal_def rbind_Inr_iff dest: parse_InrD)
  then show ?thesis using multiply_law [of a b] c returned by simp
qed

lemma divide_Inr:
  assumes "divideDecimal a b sc = Inr c"
  shows "decimal_pattern a \<and> decimal_pattern b \<and> dec_val b \<noteq> 0 \<and> 0 \<le> sc \<and> sc \<le> 18 \<and> canonical_decimal c \<and>
    dec_val c = trunc_at (nat sc) (dec_val a / dec_val b)"
proof -
  obtain p where p: "parse b = Inr p" "coefficient p \<noteq> 0" and a: "decimal_pattern a" "decimal_pattern b" and s: "0 \<le> sc" "sc \<le> 18"
    using assms by (auto simp: divideDecimal_def rbind_Inr_iff dest: parse_InrD split: if_splits)
  have "dec_val b \<noteq> 0" using p parse_ok [OF a(2)] by (metis pd_val_def divide_eq_0_iff of_int_eq_0_iff sum.inject(2) power_eq_0_iff zero_neq_numeral)
  then show ?thesis using divide_law [of a b sc] a s assms returned by simp
qed

lemma quantize_Inr:
  assumes "quantizeDecimalDown v inc = Inr q"
  shows "decimal_pattern v \<and> decimal_pattern inc \<and> 0 < dec_val inc \<and> canonical_decimal q \<and>
    dec_val q = of_int \<lfloor>dec_val v / dec_val inc\<rfloor> * dec_val inc"
proof -
  obtain n where n: "divideDecimal v inc 0 = Inr n" "multiplyDecimal n inc = Inr q"
    using assms by (auto simp: quantizeDecimalDown_def rbind_Inr_iff)
  note d = divide_Inr [OF n(1)] and m = multiply_Inr [OF n(2)]
  have "dec_val n = of_int \<lfloor>dec_val v / dec_val inc\<rfloor>" using d by (simp add: trunc_at_def)
  moreover have "on_grid 18 (of_int k * dec_val inc)" for k using dec_val_grid d by (intro on_grid_int_mult) blast
  moreover have "0 < dec_val inc" using d dec_val_nonneg [of inc] by auto
  ultimately show ?thesis using d m by (simp add: trunc_at_grid)
qed

lemma min_Inr:
  assumes "minDecimal vs = Inr m" "length vs \<ge> 2"
  shows "m \<in> set vs" "\<And>v. v \<in> set vs \<Longrightarrow> decimal_pattern v \<and> dec_val m \<le> dec_val v"
proof -
  obtain a b rest where vs: "vs = a # b # rest" using assms(2) by (metis Suc_le_length_iff numeral_2_eq_2)
  have fold: "decimal_pattern z \<and> (\<forall>x\<in>set xs. decimal_pattern x)"
    if "foldM (\<lambda>minimum v. rbind (compareDecimal v minimum) (\<lambda>c. Inr (if c < 0 then v else minimum))) z xs = Inr m" "xs \<noteq> []" for z xs
    using that
  proof (induction xs arbitrary: z)
    case (Cons x xs)
    then obtain c where c: "compareDecimal x z = Inr c"
      "foldM (\<lambda>minimum v. rbind (compareDecimal v minimum) (\<lambda>c. Inr (if c < 0 then v else minimum))) (if c < 0 then x else z) xs = Inr m"
      by (auto simp: rbind_Inr_iff)
    then show ?case using Cons.IH [OF c(2)] compare_Inr [OF c(1)] by (cases "xs = []") auto
  qed simp
  have "\<And>v. v \<in> set vs \<Longrightarrow> decimal_pattern v" using fold [of a "b # rest"] assms(1) vs by (auto simp: minDecimal_def)
  then show "m \<in> set vs" "\<And>v. v \<in> set vs \<Longrightarrow> decimal_pattern v \<and> dec_val m \<le> dec_val v"
    using minDecimal_law [of vs] assms(1) vs by (metis list.distinct(1) sum.inject(2))+
qed

lemmas decimal_inversion = compare_Inr add_Inr subtract_Inr multiply_Inr divide_Inr quantize_Inr


section \<open>Properties\<close>

text \<open>
  C1: \<^verbatim>\<open>decimal\<close> maps every accepted spelling of a number to one string: two accepted
  inputs normalise to the same string exactly when they denote the same number, the normalised
  string is accepted again, denotes the same number and normalises to itself. String comparison
  of normalised decimals, which the code uses throughout, is therefore comparison of numbers.
\<close>

theorem decimal_normal_form:
  assumes "decimal a = Inr s" and "decimal b = Inr t"
  shows "(s = t \<longleftrightarrow> dec_val (js_trim a) = dec_val (js_trim b)) \<and>
    decimal_pattern s \<and> dec_val s = dec_val (js_trim a) \<and> decimal s = Inr s"
  using assms canonical_decimal_inj decimal_valid [OF assms(1)] decimal_idempotent [OF assms(1)]
  by (auto simp: decimal_Inr_iff)

theorem decimal_normal_form_witness:
  "(''1.5'' = ''1.5'') = (dec_val (js_trim '' 1.50 '') = dec_val (js_trim ''1.5''))
   \<and> decimal_pattern ''1.5'' \<and> decimal ''1.5'' = Inr ''1.5''"
proof -
  have a: "decimal '' 1.50 '' = Inr ''1.5''" by code_simp
  have b: "decimal ''1.5'' = Inr ''1.5''" by code_simp
  show ?thesis using decimal_normal_form [OF a b] by blast
qed

text \<open>
  Comparison, addition and subtraction of valid decimals are exact and total: comparison
  returns the sign of the difference, addition the canonical string of the exact sum, and
  subtraction the canonical string of the exact difference or, for a negative difference and only
  then, an error.
\<close>

theorem decimal_exact_arithmetic:
  assumes "decimal_pattern l" and "decimal_pattern r"
  shows "compareDecimal l r = Inr (if dec_val l < dec_val r then -1 else if dec_val l > dec_val r then 1 else 0) \<and>
    (\<exists>s. addDecimal l r = Inr s \<and> canonical_decimal s \<and> dec_val s = dec_val l + dec_val r) \<and>
    (if dec_val r \<le> dec_val l
     then \<exists>s. subtractDecimal l r = Inr s \<and> canonical_decimal s \<and> dec_val s = dec_val l - dec_val r
     else subtractDecimal l r = Inl (Error ''Unsigned decimal subtraction would be negative.''))"
  using compare_law [OF assms] add_law [OF assms] subtract_law [OF assms] subtract_negative [OF assms]
  by (auto simp: rat_cmp_def returns_decimal_def)

theorem decimal_exact_arithmetic_witness:
  "\<exists>s. addDecimal ''0.1'' ''0.2'' = Inr s \<and> canonical_decimal s \<and> dec_val s = dec_val ''0.1'' + dec_val ''0.2''"
proof -
  have a: "decimal_pattern ''0.1''" by code_simp
  have b: "decimal_pattern ''0.2''" by code_simp
  show ?thesis using decimal_exact_arithmetic [OF a b] by blast
qed

text \<open>
  Multiplication and division never round up: the product is the exact product cut off after
  18 places, the quotient the exact quotient cut off after the requested number of places, so
  both are below the exact value by less than one unit of the last place.
\<close>

theorem decimal_products_round_down:
  assumes "decimal_pattern l" and "decimal_pattern r" and "dec_val r \<noteq> 0" and "0 \<le> sc" and "sc \<le> 18"
  shows "(\<exists>s. multiplyDecimal l r = Inr s \<and> canonical_decimal s \<and>
      dec_val s \<le> dec_val l * dec_val r \<and> dec_val l * dec_val r - 1 / 10 ^ 18 < dec_val s) \<and>
    (\<exists>s. divideDecimal l r sc = Inr s \<and> canonical_decimal s \<and> on_grid (nat sc) (dec_val s) \<and>
      dec_val s \<le> dec_val l / dec_val r \<and> dec_val l / dec_val r - 1 / 10 ^ nat sc < dec_val s)"
  using multiply_law [OF assms(1,2)] divide_law [OF assms]
    trunc_at_le [of 18 "dec_val l * dec_val r"] trunc_at_gt [of "dec_val l * dec_val r" 18]
    trunc_at_le [of "nat sc" "dec_val l / dec_val r"] trunc_at_gt [of "dec_val l / dec_val r" "nat sc"]
  by (auto simp: returns_decimal_def simp del: power_numeral)

text \<open>
  \<^verbatim>\<open>quantizeDecimalDown\<close> returns the greatest multiple of the increment that does not
  exceed the value, exactly: no step of the computation loses precision, as long as the number of
  increments has at most 36 digits.
\<close>

theorem quantize_down_greatest_multiple:
  assumes "decimal_pattern v" and "decimal_pattern inc" and "dec_val inc \<noteq> 0"
    and "dec_val v / dec_val inc < dec_limit"
  shows "\<exists>s k. quantizeDecimalDown v inc = Inr s \<and> canonical_decimal s \<and> dec_val s = of_int k * dec_val inc \<and>
      dec_val s \<le> dec_val v \<and> dec_val v < dec_val s + dec_val inc"
proof -
  define k where "k = \<lfloor>dec_val v / dec_val inc\<rfloor>"
  have inc: "0 < dec_val inc" using assms dec_val_nonneg [of inc] by simp
  have "of_int k \<le> dec_val v / dec_val inc" "dec_val v / dec_val inc < of_int k + 1"
    unfolding k_def by linarith+
  then have "of_int k * dec_val inc \<le> dec_val v" "dec_val v < of_int k * dec_val inc + dec_val inc"
    using inc by (simp_all add: pos_le_divide_eq pos_divide_less_eq distrib_right)
  then show ?thesis
    using quantize_law [OF assms] by (auto simp: returns_decimal_def k_def)
qed

text \<open>
  Signed addition, subtraction and negation are exact and total on valid signed decimals, and
  never print a negative zero.
\<close>

theorem signed_exact_arithmetic:
  assumes "signed_ok l" and "signed_ok r"
  shows "(\<exists>s. addSignedDecimal l r = Inr s \<and> canonical_signed s \<and> sdec_val s = sdec_val l + sdec_val r) \<and>
    (\<exists>s. subtractSignedDecimal l r = Inr s \<and> canonical_signed s \<and> sdec_val s = sdec_val l - sdec_val r) \<and>
    (\<exists>s. negateSignedDecimal l = Inr s \<and> canonical_signed s \<and> s \<noteq> ''-0'' \<and> sdec_val s = - sdec_val l)"
proof (intro conjI)
  show "\<exists>s. addSignedDecimal l r = Inr s \<and> canonical_signed s \<and> sdec_val s = sdec_val l + sdec_val r"
    using add_signed_law [OF assms] by (simp add: returns_signed_def)
  show "\<exists>s. subtractSignedDecimal l r = Inr s \<and> canonical_signed s \<and> sdec_val s = sdec_val l - sdec_val r"
    using subtract_signed_law [OF assms] by (simp add: returns_signed_def)
  have "canonical_signed s \<Longrightarrow> s \<noteq> ''-0''" for s
    by (auto simp: canonical_signed_def)
  then show "\<exists>s. negateSignedDecimal l = Inr s \<and> canonical_signed s \<and> s \<noteq> ''-0'' \<and> sdec_val s = - sdec_val l"
    using negate_law [OF assms(1)] unfolding returns_signed_def by blast
qed

text \<open>
  An exact cost allocation is exact or refused: on valid operands with a positive total,
  \<^verbatim>\<open>allocateDecimalExact\<close> returns the canonical string of the exact share when the share has at
  most 18 places (and fits the supported range), and throws when it has more.
\<close>

theorem allocate_exact_or_throws:
  assumes "decimal_pattern v" and "decimal_pattern n" and "decimal_pattern d" and "dec_val d \<noteq> 0"
    and "dec_val v * dec_val n / dec_val d < dec_limit"
  shows "if on_grid 18 (dec_val v * dec_val n / dec_val d)
    then \<exists>s. allocateDecimalExact v n d = Inr s \<and> canonical_decimal s \<and>
           dec_val s = dec_val v * dec_val n / dec_val d
    else allocateDecimalExact v n d = Inl (Error ''Exact cost allocation exceeds supported decimal precision.'')"
  using allocate_exact_law [OF assms(1-4)] assms(5) by (simp add: returns_decimal_def)

end
