(* ===== verification/Trading_Rational.thy ===== *)
theory Trading_Rational
  imports Trading_Decimal
begin

text \<open>
  Exact bounded fractions (\<^verbatim>\<open>src/trading_rational.ts\<close>): a numerator and a positive
  denominator, each a decimal integer string of at most 256 digits. The code computes on
  \<^verbatim>\<open>BigInt\<close>, reduces every result by its greatest common divisor and refuses a result that
  does not fit. The laws state each operation as the same operation on rational numbers.

  The model's \<^verbatim>\<open>ExactRational\<close> is a record of two strings, so the tests of the source that its
  argument is an object with exactly these two string fields always pass.
\<close>

section \<open>The code\<close>

record exact_rational =
  numerator :: string
  denominator :: string

record rational_decimal_bounds =
  lower_bound :: string
  upper_bound :: string
  bounds_exact :: bool

text \<open>\<^verbatim>\<open>POSITIVE_INTEGER = /^[1-9]\d{0,255}$/\<close> and \<^verbatim>\<open>INTEGER = /^(?:0|-?[1-9]\d{0,255})$/\<close>\<close>

definition positive_integer_pattern :: "string \<Rightarrow> bool" where
  "positive_integer_pattern s \<longleftrightarrow> s \<noteq> [] \<and> all_digits s \<and> hd s \<noteq> CHR ''0'' \<and> length s \<le> 256"

definition integer_pattern :: "string \<Rightarrow> bool" where
  "integer_pattern s \<longleftrightarrow> s = ''0'' \<or> positive_integer_pattern (magnitude_of s)"

definition rationalNumeratorValid :: "exact_rational \<Rightarrow> bool" where
  "rationalNumeratorValid q \<longleftrightarrow> integer_pattern (numerator q)"

definition rationalDenominatorValid :: "exact_rational \<Rightarrow> bool" where
  "rationalDenominatorValid q \<longleftrightarrow> positive_integer_pattern (denominator q)"

definition integers :: "exact_rational \<Rightarrow> (int \<times> int) result" where
  "integers value =
     (if \<not> rationalNumeratorValid value \<or> \<not> rationalDenominatorValid value
      then Inl (Error ''Invalid bounded rational value.'')
      else Inr (bigint_of (numerator value), bigint_of (denominator value)))"

text \<open>\<^verbatim>\<open>while (divisor !== 0n) [dividend, divisor] = [divisor, dividend % divisor]\<close>\<close>

function gcd_loop :: "int \<Rightarrow> int \<Rightarrow> int" where
  "gcd_loop dividend divisor =
     (if divisor \<noteq> 0 then gcd_loop divisor (dividend smod divisor) else dividend)"
  by pat_completeness auto
termination
proof (relation "measure (\<lambda>(a, b). nat \<bar>b\<bar>)")
  fix a b :: int
  assume "b \<noteq> 0"
  then have "\<bar>a smod b\<bar> < \<bar>b\<bar>"
    by (simp add: signed_modulo_int_def abs_mult sgn_if)
  then show "((b, a smod b), (a, b)) \<in> measure (\<lambda>(a, b). nat \<bar>b\<bar>)" by simp
qed simp

declare gcd_loop.simps [simp del]

definition gcdBig :: "int \<Rightarrow> int \<Rightarrow> int" where
  "gcdBig left right = gcd_loop (if left < 0 then - left else left) (if right < 0 then - right else right)"

definition fraction :: "int \<Rightarrow> int \<Rightarrow> exact_rational result" where
  "fraction n d =
     (if d = 0 then Inl (Error ''Rational division by zero.'')
      else let n' = (if d < 0 then - n else n); d' = (if d < 0 then - d else d);
               divisor = gcdBig n' d';
               res = \<lparr>numerator = show_int (n' sdiv divisor), denominator = show_int (d' sdiv divisor)\<rparr>
           in rbind (integers res) (\<lambda>_. Inr res))"

definition rational :: "exact_rational \<Rightarrow> exact_rational result" where
  "rational value = rbind (integers value) (\<lambda>(n, d). fraction n d)"

definition rationalFromDecimal :: "string \<Rightarrow> exact_rational result" where
  "rationalFromDecimal value =
     (if list_ex is_space value then Inl (Error ''Invalid rational source decimal.'')
      else rbind (signedDecimal value) (\<lambda>normalized.
        case split_point normalized of (integer, tail) \<Rightarrow>
          fraction (bigint_of (integer @ tail)) (10 ^ length tail)))"

definition addRational :: "exact_rational \<Rightarrow> exact_rational \<Rightarrow> exact_rational result" where
  "addRational left right =
     rbind (integers left) (\<lambda>(a, b). rbind (integers right) (\<lambda>(c, d).
       let divisor = gcdBig b d in
       fraction (a * (d sdiv divisor) + c * (b sdiv divisor)) (b * (d sdiv divisor))))"

definition multiplyRational :: "exact_rational \<Rightarrow> exact_rational \<Rightarrow> exact_rational result" where
  "multiplyRational left right =
     rbind (integers left) (\<lambda>(a, b). rbind (integers right) (\<lambda>(c, d).
       let first = gcdBig a d; second = gcdBig c b in
       fraction ((a sdiv first) * (c sdiv second)) ((b sdiv second) * (d sdiv first))))"

definition divideRational :: "exact_rational \<Rightarrow> exact_rational \<Rightarrow> exact_rational result" where
  "divideRational left right =
     rbind (integers left) (\<lambda>(a, b). rbind (integers right) (\<lambda>(c, d).
       if c = 0 then Inl (Error ''Rational division by zero.'')
       else fraction (a * d) (b * c)))"

definition compareRational :: "exact_rational \<Rightarrow> exact_rational \<Rightarrow> int result" where
  "compareRational left right =
     rbind (integers left) (\<lambda>(a, b). rbind (integers right) (\<lambda>(c, d).
       let difference = a * d - c * b in
       Inr (if difference < 0 then -1 else if difference > 0 then 1 else 0)))"

definition integerBounds :: "int \<Rightarrow> int \<Rightarrow> int \<times> int" where
  "integerBounds n d =
     (let quotient = n sdiv d; remainder = n smod d in
      (quotient - (if remainder < 0 then 1 else 0), quotient + (if remainder > 0 then 1 else 0)))"

definition format_signed :: "int \<Rightarrow> nat \<Rightarrow> string result" where
  "format_signed c sc =
     (let digits = pad_start (show_nonneg (if c < 0 then - c else c)) (sc + 1) (CHR ''0'');
          unsigned = (if sc = 0 then digits
            else take (length digits - sc) digits @ CHR ''.'' # drop (length digits - sc) digits)
      in signedDecimal ((if c < 0 then ''-'' else []) @ unsigned))"

definition rationalDecimalBounds :: "exact_rational \<Rightarrow> int \<Rightarrow> rational_decimal_bounds result" where
  "rationalDecimalBounds value sc =
     (if \<not> is_safe_integer sc \<or> sc < 0 \<or> sc > 18
      then Inl (Error ''Rational decimal scale must be 0 through 18.'')
      else rbind (integers value) (\<lambda>(n, d).
        case integerBounds (n * 10 ^ nat sc) d of (lo, hi) \<Rightarrow>
        rbind (format_signed lo (nat sc)) (\<lambda>l. rbind (format_signed hi (nat sc)) (\<lambda>h.
          Inr \<lparr>lower_bound = l, upper_bound = h, bounds_exact = (lo = hi)\<rparr>))))"

datatype direction = Floor | Ceil

text \<open>The direction is one of two values, so the test of the source for a third one never fires.\<close>

definition quantizeRational :: "exact_rational \<Rightarrow> string \<Rightarrow> direction \<Rightarrow> string result" where
  "quantizeRational value increment direction =
     (if js_trim increment \<noteq> increment then Inl (Error ''Invalid rational increment.'')
      else rbind (rbind (decimal_positive increment) rationalFromDecimal) (\<lambda>step.
        rbind (integers value) (\<lambda>(n, d). rbind (integers step) (\<lambda>(sn, sd).
          case integerBounds (n * sd) (d * sn) of (lo, hi) \<Rightarrow>
          let count = (case direction of Floor \<Rightarrow> lo | Ceil \<Rightarrow> hi) in
          rbind (rbind (fraction count 1) (\<lambda>c. multiplyRational c step)) (\<lambda>res.
          rbind (rationalDecimalBounds res 18) (\<lambda>bounds.
            if \<not> bounds_exact bounds then Inl (Error ''Rational increment cannot be represented exactly.'')
            else Inr (lower_bound bounds)))))))"


section \<open>What a fraction denotes\<close>

definition rational_ok :: "exact_rational \<Rightarrow> bool" where
  "rational_ok q \<longleftrightarrow> rationalNumeratorValid q \<and> rationalDenominatorValid q"

definition rval :: "exact_rational \<Rightarrow> rat" where
  "rval q = of_int (bigint_of (numerator q)) / of_int (bigint_of (denominator q))"

text \<open>The lowest-terms representation of a number, and whether it fits 256 digits.\<close>

definition rat_rep :: "rat \<Rightarrow> exact_rational" where
  "rat_rep x = \<lparr>numerator = show_int (fst (quotient_of x)), denominator = show_int (snd (quotient_of x))\<rparr>"

definition digits256 :: int where
  "digits256 = 10 ^ 256"

definition rat_fits :: "rat \<Rightarrow> bool" where
  "rat_fits x \<longleftrightarrow> \<bar>fst (quotient_of x)\<bar> < digits256 \<and> snd (quotient_of x) < digits256"

definition return_rat :: "rat \<Rightarrow> exact_rational result" where
  "return_rat x = (if rat_fits x then Inr (rat_rep x) else Inl (Error ''Invalid bounded rational value.''))"

lemma positive_pattern_show:
  assumes "0 < n"
  shows "positive_integer_pattern (show_int n) \<longleftrightarrow> n < digits256"
proof -
  have "length (show_nonneg n) \<le> 256 \<longleftrightarrow> n < digits256"
    unfolding digits256_def using assms by (intro show_nonneg_length_iff) simp_all
  then show ?thesis
    using assms show_nonneg_hd [OF assms] by (simp add: positive_integer_pattern_def show_int_def)
qed

lemma integer_pattern_show: "integer_pattern (show_int n) \<longleftrightarrow> \<bar>n\<bar> < digits256"
proof -
  consider "n = 0" | "0 < n" | "n < 0" by linarith
  then show ?thesis
  proof cases
    case 1
    then show ?thesis by (simp add: integer_pattern_def show_int_def digits256_def)
  next
    case 2
    have nn: "\<not> starts_neg (show_int n)"
      using 2 by (intro digit_led_unsigned) (simp_all add: show_int_def hd_digit)
    have "show_int n \<noteq> ''0''"
      using 2 show_nonneg_hd [OF 2] by (auto simp: show_int_def)
    with 2 nn positive_pattern_show [OF 2] show ?thesis by (simp add: integer_pattern_def)
  next
    case 3
    then have "show_int n = CHR ''-'' # show_nonneg (- n)" "show_nonneg (- n) = show_int (- n)"
      by (simp_all add: show_int_def)
    with 3 positive_pattern_show [of "- n"] show ?thesis by (simp add: integer_pattern_def)
  qed
qed

lemma positive_pattern_pos: "positive_integer_pattern s \<Longrightarrow> 0 < bigint_of s"
  by (simp add: positive_integer_pattern_def bigint_of_digits digits_val_pos)

lemma integers_ok: "rational_ok q \<Longrightarrow> integers q = Inr (bigint_of (numerator q), bigint_of (denominator q))"
  by (simp add: rational_ok_def integers_def)

lemma integers_reject: "\<not> rational_ok q \<Longrightarrow> integers q = Inl (Error ''Invalid bounded rational value.'')"
  by (simp add: rational_ok_def integers_def)

lemma denominator_pos: "rational_ok q \<Longrightarrow> 0 < bigint_of (denominator q)"
  by (simp add: rational_ok_def rationalDenominatorValid_def positive_pattern_pos)

lemma rational_okE:
  assumes "rational_ok q"
  obtains n d where "integers q = Inr (n, d)" "rval q = of_int n / of_int d" "0 < d"
  using integers_ok [OF assms] denominator_pos [OF assms] that by (auto simp: rval_def)

lemma rat_rep_ok: "rational_ok (rat_rep x) \<longleftrightarrow> rat_fits x"
  using quotient_of_denom_pos' [of x]
  by (simp add: rational_ok_def rationalNumeratorValid_def rationalDenominatorValid_def rat_rep_def
      rat_fits_def integer_pattern_show positive_pattern_show)

lemma rval_rat_rep [simp]: "rval (rat_rep x) = x"
  using quotient_of_div [of x] by (cases "quotient_of x") (simp add: rval_def rat_rep_def)


subsection \<open>Greatest common divisors and lowest terms\<close>

lemma gcd_loop_gcd: "0 \<le> a \<Longrightarrow> 0 \<le> b \<Longrightarrow> gcd_loop a b = gcd a b"
proof (induction a b rule: gcd_loop.induct)
  case (1 a b)
  show ?case
  proof (cases "b = 0")
    case True
    with 1 show ?thesis by (simp add: gcd_loop.simps [of a 0])
  next
    case False
    with 1 have "gcd_loop a b = gcd b (a mod b)"
      by (simp add: gcd_loop.simps [of a b] smod_nonneg)
    then show ?thesis by (metis gcd.commute gcd_red_int)
  qed
qed

lemma gcdBig_gcd [simp]: "gcdBig a b = gcd a b"
  by (simp add: gcdBig_def gcd_loop_gcd)

lemma sdiv_exact: "0 < g \<Longrightarrow> g dvd (a::int) \<Longrightarrow> a sdiv g = a div g"
  by (elim dvdE) (auto simp: signed_divide_int_def sgn_if abs_mult zero_less_mult_iff)

lemma fraction_law:
  assumes "d \<noteq> 0"
  shows "fraction n d = return_rat (of_int n / of_int d)"
proof -
  define n' d' where "n' = (if d < 0 then - n else n)" and "d' = (if d < 0 then - d else d)"
  have d': "0 < d'" using assms by (simp add: d'_def)
  have val: "(of_int n / of_int d :: rat) = Fract n' d'"
    by (simp add: Fract_of_int_quotient n'_def d'_def)
  have g: "0 < gcd n' d'" using d' by simp
  have q: "quotient_of (of_int n / of_int d) = (n' div gcd n' d', d' div gcd n' d')"
    unfolding val quotient_of_Fract using d' by (simp add: normalize_def Let_def)
  have "\<lparr>numerator = show_int (n' sdiv gcd n' d'), denominator = show_int (d' sdiv gcd n' d')\<rparr>
      = rat_rep (of_int n / of_int d)"
    using g by (simp add: rat_rep_def q sdiv_exact)
  then have "fraction n d = rbind (integers (rat_rep (of_int n / of_int d))) (\<lambda>_. Inr (rat_rep (of_int n / of_int d)))"
    using assms unfolding fraction_def Let_def n'_def [symmetric] d'_def [symmetric] by simp
  then show ?thesis
    by (simp add: return_rat_def rat_rep_ok [symmetric] integers_ok integers_reject)
qed


section \<open>The laws of the operations\<close>

lemma rational_law [rat_laws]:
  "rational q = (if rational_ok q then return_rat (rval q) else Inl (Error ''Invalid bounded rational value.''))"
  by (cases "rational_ok q") (auto simp: rational_def integers_reject fraction_law elim!: rational_okE)

lemma add_rational_law [rat_laws]:
  assumes "rational_ok l" "rational_ok r"
  shows "addRational l r = return_rat (rval l + rval r)"
proof -
  obtain a b where l: "integers l = Inr (a, b)" "rval l = of_int a / of_int b" "0 < b"
    using assms(1) by (rule rational_okE)
  obtain c d where r: "integers r = Inr (c, d)" "rval r = of_int c / of_int d" "0 < d"
    using assms(2) by (rule rational_okE)
  define g where "g = gcd b d"
  have g: "0 < g" using l(3) by (simp add: g_def)
  obtain m k where mk: "b = g * m" "d = g * k"
    unfolding g_def by (metis dvdE gcd_dvd1 gcd_dvd2)
  have pos: "0 < m" "0 < k" using mk g l(3) r(3) by (auto simp: zero_less_mult_iff)
  have div: "b sdiv g = m" "d sdiv g = k" using g mk by (simp_all add: sdiv_exact)
  have "(of_int (a * k + c * m) / of_int (b * k) :: rat) = rval l + rval r"
    using g pos by (simp add: l(2) r(2) mk field_simps)
  moreover have "b * k \<noteq> 0" using l(3) pos by simp
  ultimately show ?thesis
    using l(1) r(1) div g_def by (simp add: addRational_def fraction_law Let_def)
qed

lemma multiply_rational_law [rat_laws]:
  assumes "rational_ok l" "rational_ok r"
  shows "multiplyRational l r = return_rat (rval l * rval r)"
proof -
  obtain a b where l: "integers l = Inr (a, b)" "rval l = of_int a / of_int b" "0 < b"
    using assms(1) by (rule rational_okE)
  obtain c d where r: "integers r = Inr (c, d)" "rval r = of_int c / of_int d" "0 < d"
    using assms(2) by (rule rational_okE)
  define f s where "f = gcd a d" and "s = gcd c b"
  have fs: "0 < f" "0 < s" using l(3) r(3) by (simp_all add: f_def s_def)
  obtain a' d' where ad: "a = f * a'" "d = f * d'" unfolding f_def by (metis dvdE gcd_dvd1 gcd_dvd2)
  obtain c' b' where cb: "c = s * c'" "b = s * b'" unfolding s_def by (metis dvdE gcd_dvd1 gcd_dvd2)
  have pos: "0 < d'" "0 < b'" using ad cb fs l(3) r(3) by (auto simp: zero_less_mult_iff)
  have div: "a sdiv f = a'" "d sdiv f = d'" "c sdiv s = c'" "b sdiv s = b'"
    using fs ad cb by (simp_all add: sdiv_exact)
  have "(of_int (a' * c') / of_int (b' * d') :: rat) = rval l * rval r"
    using fs pos by (simp add: l(2) r(2) ad cb field_simps)
  moreover have "b' * d' \<noteq> 0" using pos by simp
  ultimately show ?thesis
    using l(1) r(1) div f_def s_def by (simp add: multiplyRational_def fraction_law Let_def)
qed

lemma divide_rational_law [rat_laws]:
  assumes "rational_ok l" "rational_ok r"
  shows "divideRational l r =
    (if rval r = 0 then Inl (Error ''Rational division by zero.'') else return_rat (rval l / rval r))"
proof -
  obtain a b where l: "integers l = Inr (a, b)" "rval l = of_int a / of_int b" "0 < b"
    using assms(1) by (rule rational_okE)
  obtain c d where r: "integers r = Inr (c, d)" "rval r = of_int c / of_int d" "0 < d"
    using assms(2) by (rule rational_okE)
  have "rval r = 0 \<longleftrightarrow> c = 0" using r by simp
  then show ?thesis
    using l r by (simp add: divideRational_def fraction_law)
qed

lemma compare_rational_law [rat_laws]:
  assumes "rational_ok l" "rational_ok r"
  shows "compareRational l r = Inr (rat_cmp (rval l) (rval r))"
proof -
  obtain a b where l: "integers l = Inr (a, b)" "rval l = of_int a / of_int b" "0 < b"
    using assms(1) by (rule rational_okE)
  obtain c d where r: "integers r = Inr (c, d)" "rval r = of_int c / of_int d" "0 < d"
    using assms(2) by (rule rational_okE)
  have "rval l < rval r \<longleftrightarrow> (of_int (a * d) :: rat) < of_int (c * b)"
    "rval r < rval l \<longleftrightarrow> (of_int (c * b) :: rat) < of_int (a * d)"
    unfolding l(2) r(2) using l(3) r(3) by (simp_all add: field_simps)
  then show ?thesis
    using l(1) r(1) unfolding of_int_less_iff by (simp add: compareRational_def rat_cmp_def)
qed

lemma return_rat_Inr: "return_rat x = Inr q \<longleftrightarrow> rat_fits x \<and> q = rat_rep x"
  by (auto simp: return_rat_def)

lemma return_rat_ok: "return_rat x = Inr q \<Longrightarrow> rational_ok q \<and> rval q = x"
  by (auto simp: return_rat_Inr rat_rep_ok)

lemma rational_op_operands:
  "addRational l r = Inr q \<Longrightarrow> rational_ok l \<and> rational_ok r"
  "multiplyRational l r = Inr q \<Longrightarrow> rational_ok l \<and> rational_ok r"
  "divideRational l r = Inr q \<Longrightarrow> rational_ok l \<and> rational_ok r"
  "compareRational l r = Inr n \<Longrightarrow> rational_ok l \<and> rational_ok r"
  by (cases "rational_ok l"; cases "rational_ok r"; simp add: addRational_def multiplyRational_def
      divideRational_def compareRational_def integers_ok integers_reject)+

interpretation rational_sum: exact_accumulator addRational rval
proof
  show "rval c = rval a + rval b" if "addRational a b = Inr c" for a b c
    using that rational_op_operands(1) [OF that] by (auto simp: add_rational_law dest: return_rat_ok)
qed


subsection \<open>Reading decimals\<close>

lemma rationalFromDecimal_law [rat_laws]:
  assumes "signed_ok v" "\<not> list_ex is_space v"
  shows "rationalFromDecimal v = return_rat (sdec_val v)"
proof -
  obtain t where t: "signedDecimal v = Inr t" "canonical_signed t" "signed_ok t" "sdec_val t = sdec_val v"
    using assms(1) by (rule signed_ok_normal)
  obtain i f where m: "magnitude_of t = join_point i f" "all_digits i" "all_digits f"
    using t(3) unfolding signed_ok_def by (blast elim: dec_ok_cases)
  have sp: "split_point t = ((if starts_neg t then CHR ''-'' # i else i), f)"
  proof (cases "starts_neg t")
    case True
    then have "t = (CHR ''-'' # i) @ (if f \<noteq> [] then CHR ''.'' # f else [])"
      using m(1) by (auto simp: join_point_def elim: starts_negE)
    with True m no_point_in_digits show ?thesis by (cases "f = []") (simp_all del: append_Cons)
  next
    case False
    with m show ?thesis by simp
  qed
  have "bigint_of (fst (split_point t) @ f) = (if starts_neg t then - digits_val (i @ f) else digits_val (i @ f))"
    using m by (simp add: sp bigint_of_digits)
  moreover have "sdec_val t = (if starts_neg t then -1 else 1) * (of_int (digits_val (i @ f)) / 10 ^ length f)"
    using m by (simp add: sdec_val_def)
  ultimately have "fraction (bigint_of (fst (split_point t) @ f)) (10 ^ length f) = return_rat (sdec_val t)"
    by (simp add: fraction_law)
  then show ?thesis
    using assms(2) t by (simp add: rationalFromDecimal_def sp)
qed

lemma no_space_valid: "decimal_pattern s \<Longrightarrow> \<not> list_ex is_space s"
proof -
  assume "decimal_pattern s"
  then obtain i f where "s = join_point i f" "all_digits i" "all_digits f" by (rule dec_ok_cases)
  then show ?thesis
    using digit_not_space point_not_space by (auto simp: join_point_def list_ex_iff dest!: all_digits_mem split: if_splits)
qed

lemma minus_not_space: "\<not> is_space (CHR ''-'')"
  by (simp add: is_space_def)

lemma no_space_signed: "signed_ok s \<Longrightarrow> \<not> list_ex is_space s"
  using no_space_valid [of "magnitude_of s"] minus_not_space
  by (cases "starts_neg s") (auto simp: signed_ok_def elim!: starts_negE)

text \<open>Every number with 18 places that is not astronomically large has a fraction that fits.\<close>

lemma grid_fits:
  assumes "\<bar>x\<bar> < 10 ^ 200" "on_grid 18 x"
  shows "rat_fits x"
proof -
  obtain z where z: "10 ^ 18 * x = of_int z" using assms(2) by (auto simp: on_grid_def elim: Ints_cases)
  then have x: "x = of_int z / of_int (10 ^ 18)" by (simp add: field_simps)
  then have q: "quotient_of x = Rat.normalize (z, 10 ^ 18)"
    by (metis Fract_of_int_quotient quotient_of_Fract)
  define g :: int where "g = gcd z (10 ^ 18)"
  have g: "1 \<le> g" unfolding g_def by (metis gcd_pos_int int_one_le_iff_zero_less power_eq_0_iff zero_neq_numeral)
  have nq: "quotient_of x = (z div g, 10 ^ 18 div g)" using q by (simp add: normalize_def Let_def g_def)
  have "\<bar>10 ^ 18 * x\<bar> < 10 ^ 18 * 10 ^ 200" using assms(1) by (simp only: abs_mult abs_numeral power_abs) simp
  then have "\<bar>of_int z :: rat\<bar> < of_int (10 ^ 218)" unfolding z by simp
  then have "\<bar>z\<bar> < 10 ^ 218" by (metis of_int_abs of_int_less_iff)
  moreover have "\<bar>z div g\<bar> \<le> \<bar>z\<bar>" using g by (metis abs_div div_by_1 g_def gcd_dvd1 abs_of_pos int_one_le_iff_zero_less zdiv_mono2 abs_ge_zero zero_less_one)
  moreover have "(10 ^ 18 :: int) div g \<le> 10 ^ 18"
    using zdiv_mono2 [of "10 ^ 18" 1 g] g by simp
  moreover have "(10 ^ 218 :: int) \<le> digits256" "(10 ^ 18 :: int) < digits256" unfolding digits256_def by simp_all
  ultimately show ?thesis by (simp add: rat_fits_def nq)
qed

lemma decimal_fits: "\<bar>x\<bar> < dec_limit \<Longrightarrow> on_grid 18 x \<Longrightarrow> rat_fits x"
  by (rule grid_fits) (simp_all add: dec_limit_def)


subsection \<open>Outward decimal bounds\<close>

lemma integerBounds_law:
  assumes "0 < d"
  shows "integerBounds n d = (\<lfloor>of_int n / of_int d :: rat\<rfloor>, \<lceil>of_int n / of_int d :: rat\<rceil>)"
proof -
  have fl: "\<lfloor>of_int n / of_int d :: rat\<rfloor> = n div d" by (rule floor_divide_of_int_eq)
  have ce: "\<lceil>of_int n / of_int d :: rat\<rceil> = - (- n div d)" 
    using floor_divide_of_int_eq [where 'a = rat, of "- n" d] by (simp add: ceiling_def)
  have up: "- (- n div d) = n div d + (if 0 < n mod d then 1 else 0)"
    using assms by (simp add: zdiv_zminus1_eq_if) (metis order_le_less pos_mod_sign)
  show ?thesis
  proof (cases "0 \<le> n")
    case True
    then have "n sdiv d = n div d" "n smod d = n mod d" using assms by (simp_all add: sdiv_nonneg smod_nonneg)
    moreover have "\<not> n mod d < 0" using assms by (simp add: not_less)
    ultimately show ?thesis using assms fl ce up by (simp add: integerBounds_def Let_def)
  next
    case False
    then have s: "n sdiv d = - (- n div d)" "n smod d = - (- n mod d)"
      using assms by (simp_all add: signed_divide_int_def signed_modulo_int_def sgn_if)
    have "(- n) mod d = 0 \<longleftrightarrow> n mod d = 0" by (metis dvd_imp_mod_0 dvd_minus_iff mod_0_imp_dvd)
    then have m: "0 < (- n) mod d \<longleftrightarrow> 0 < n mod d" "\<not> (- n) mod d < 0"
      using pos_mod_sign [OF assms, of "- n"] pos_mod_sign [OF assms, of n] by (simp_all only: not_less) linarith
    show ?thesis using fl ce up by (simp add: integerBounds_def Let_def s m)
  qed
qed

text \<open>The printed string before normalisation, and what it denotes whenever it is accepted.\<close>

lemma format_signed_string:
  obtains i f where "format_signed c sc = signedDecimal ((if c < 0 then ''-'' else []) @ join_point i f)"
    "canonical_digits i" "all_digits i" "all_digits f" "length f = sc" "digits_val (i @ f) = \<bar>c\<bar>"
    "\<bar>c\<bar> < 10 ^ (36 + sc) \<Longrightarrow> length i \<le> 36"
proof -
  define m d where "m = \<bar>c\<bar>" and "d = pad_start (show_nonneg \<bar>c\<bar>) (sc + 1) (CHR ''0'')"
  define i f where "i = take (length d - sc) d" and "f = drop (length d - sc) d"
  note d = pad_facts [of m sc, unfolded m_def, folded d_def, simplified]
  have i: "canonical_digits i" "all_digits i" and f: "all_digits f" "length f = sc" and v: "digits_val (i @ f) = \<bar>c\<bar>"
    using d by (simp_all add: i_def f_def)
  have len: "length i \<le> 36" if "\<bar>c\<bar> < 10 ^ (36 + sc)"
  proof -
    have "length (show_nonneg \<bar>c\<bar>) \<le> 36 + sc" using that by (intro show_nonneg_length) simp_all
    then have "length d \<le> 36 + sc" by (simp add: d_def pad_start_def)
    then show ?thesis unfolding i_def by simp
  qed
  have unsigned: "(if sc = 0 then d else i @ CHR ''.'' # f) = join_point i f"
    using f by (auto simp: join_point_def i_def)
  have "(if c < 0 then - c else c) = \<bar>c\<bar>" by simp
  then have run: "format_signed c sc = signedDecimal ((if c < 0 then ''-'' else []) @ join_point i f)"
    unfolding format_signed_def Let_def
    by (simp only: d_def [symmetric] i_def [symmetric] f_def [symmetric] unsigned)
  show ?thesis by (rule that [OF run i f v len])
qed

lemma trim_digits: "all_digits i \<Longrightarrow> all_digits f \<Longrightarrow> i \<noteq> [] \<Longrightarrow> js_trim (join_point i f) = join_point i f"
  by (rule js_trim_id) (auto simp: join_point_def digit_not_space all_digits_mem)

lemma format_signed_Inr:
  assumes "format_signed c sc = Inr s"
  shows "canonical_signed s" "signed_ok s" "sdec_val s = of_int c / 10 ^ sc"
proof -
  obtain i f where p: "format_signed c sc = signedDecimal ((if c < 0 then ''-'' else []) @ join_point i f)"
    "canonical_digits i" "all_digits i" "all_digits f" "length f = sc" "digits_val (i @ f) = \<bar>c\<bar>"
    by (rule format_signed_string [of c sc])
  have ne: "i \<noteq> []" using p(2) by (simp add: canonical_digits_def)
  have "\<not> starts_neg (join_point i f)"
    by (rule digit_led_unsigned) (use ne p(3) in \<open>auto simp: join_point_def hd_digit\<close>)
  then have m: "magnitude_of ((if c < 0 then ''-'' else []) @ join_point i f) = join_point i f"
    "starts_neg ((if c < 0 then ''-'' else []) @ join_point i f) \<longleftrightarrow> c < 0" by auto
  note sd = signedDecimal_InrD [OF assms [unfolded p(1)], unfolded m trim_digits [OF p(3,4) ne]]
  show "canonical_signed s" "signed_ok s" by (rule sd)+
  show "sdec_val s = of_int c / 10 ^ sc" using sd(4) p(3-6) by simp
qed

lemma format_signed_law:
  assumes "\<bar>c\<bar> < 10 ^ (36 + sc)" "sc \<le> 18"
  shows "returns_signed (format_signed c sc) (of_int c / 10 ^ sc)"
proof -
  obtain i f where p: "format_signed c sc = signedDecimal ((if c < 0 then ''-'' else []) @ join_point i f)"
    "canonical_digits i" "all_digits f" "length f = sc" "length i \<le> 36"
    using format_signed_string [of c sc] assms(1) by metis
  then have ok: "decimal_pattern (join_point i f)"
    using assms(2) unfolding decimal_pattern_iff by blast
  then have "signed_ok ((if c < 0 then ''-'' else []) @ join_point i f)"
    using signed_of_valid [OF ok] by (simp add: signed_ok_def)
  then obtain s where "format_signed c sc = Inr s" using signed_ok_normal p(1) by metis
  then show ?thesis using format_signed_Inr by (auto simp: returns_signed_def)
qed

lemma dec_limit_gt: "(1::rat) < dec_limit"
  by (simp add: dec_limit_def)

lemma grid_point_bound:
  assumes "\<bar>x\<bar> \<le> dec_limit - 1"
  shows "\<bar>\<lfloor>10 ^ sc * x\<rfloor>\<bar> < 10 ^ (36 + sc)" "\<bar>\<lceil>10 ^ sc * x\<rceil>\<bar> < 10 ^ (36 + sc)"
proof -
  define k :: int where "k = 10 ^ sc * (10 ^ 36 - 1)"
  have k: "k < 10 ^ (36 + sc)" by (simp add: k_def power_add algebra_simps)
  have "\<bar>10 ^ sc * x\<bar> \<le> 10 ^ sc * (dec_limit - 1)"
    using assms by (simp add: abs_mult)
  also have "\<dots> = of_int k" by (simp add: k_def dec_limit_def)
  finally have "- of_int k \<le> 10 ^ sc * x" "10 ^ sc * x \<le> of_int k" by (simp_all add: abs_le_iff)
  then have "- k \<le> \<lfloor>10 ^ sc * x\<rfloor>" "\<lfloor>10 ^ sc * x\<rfloor> \<le> k" "- k \<le> \<lceil>10 ^ sc * x\<rceil>" "\<lceil>10 ^ sc * x\<rceil> \<le> k"
    by (simp_all add: le_floor_iff ceiling_le_iff) linarith+
  with k show "\<bar>\<lfloor>10 ^ sc * x\<rfloor>\<bar> < 10 ^ (36 + sc)" "\<bar>\<lceil>10 ^ sc * x\<rceil>\<bar> < 10 ^ (36 + sc)" by linarith+
qed

lemma bounds_law_grid:
  assumes "rational_ok v" "0 \<le> sc" "sc \<le> 18" "\<bar>\<lfloor>10 ^ nat sc * rval v\<rfloor>\<bar> < 10 ^ (36 + nat sc)" "\<bar>\<lceil>10 ^ nat sc * rval v\<rceil>\<bar> < 10 ^ (36 + nat sc)"
  obtains l h where "rationalDecimalBounds v sc =
      Inr \<lparr>lower_bound = l, upper_bound = h, bounds_exact = on_grid (nat sc) (rval v)\<rparr>"
    "canonical_signed l" "canonical_signed h" "signed_ok l" "signed_ok h"
    "sdec_val l = of_int \<lfloor>10 ^ nat sc * rval v\<rfloor> / 10 ^ nat sc" "sdec_val h = of_int \<lceil>10 ^ nat sc * rval v\<rceil> / 10 ^ nat sc"
proof -
  obtain n d where nd: "integers v = Inr (n, d)" "rval v = of_int n / of_int d" "0 < d"
    using assms(1) by (rule rational_okE)
  define x where "x = 10 ^ nat sc * rval v"
  have "(of_int (n * 10 ^ nat sc) / of_int d :: rat) = x" by (simp add: x_def nd(2))
  then have ib: "integerBounds (n * 10 ^ nat sc) d = (\<lfloor>x\<rfloor>, \<lceil>x\<rceil>)" using integerBounds_law [OF nd(3)] by metis
  have lim: "\<bar>\<lfloor>x\<rfloor>\<bar> < 10 ^ (36 + nat sc)" "\<bar>\<lceil>x\<rceil>\<bar> < 10 ^ (36 + nat sc)" "nat sc \<le> 18"
    using assms(3,4,5) unfolding x_def by auto
  obtain l where l: "format_signed \<lfloor>x\<rfloor> (nat sc) = Inr l" "canonical_signed l" "sdec_val l = of_int \<lfloor>x\<rfloor> / 10 ^ nat sc"
    using format_signed_law [OF lim(1,3)] by (auto simp: returns_signed_def)
  obtain h where h: "format_signed \<lceil>x\<rceil> (nat sc) = Inr h" "canonical_signed h" "sdec_val h = of_int \<lceil>x\<rceil> / 10 ^ nat sc"
    using format_signed_law [OF lim(2,3)] by (auto simp: returns_signed_def)
  have ok: "signed_ok l" "signed_ok h"
    using l(1) h(1) signedDecimal_InrD(2) unfolding format_signed_def Let_def by blast+
  have "\<lfloor>x\<rfloor> = \<lceil>x\<rceil> \<longleftrightarrow> on_grid (nat sc) (rval v)"
    unfolding on_grid_def x_def [symmetric] by (metis Ints_cases Ints_of_int ceiling_of_int floor_of_int of_int_floor_le le_of_int_ceiling order_antisym)
  then have "rationalDecimalBounds v sc =
      Inr \<lparr>lower_bound = l, upper_bound = h, bounds_exact = on_grid (nat sc) (rval v)\<rparr>"
    using assms(2,3) nd(1) ib l h by (simp add: rationalDecimalBounds_def is_safe_integer_def max_safe_integer_def)
  with that l h ok show ?thesis unfolding x_def by blast
qed

lemma bounds_law:
  assumes "rational_ok v" "0 \<le> sc" "sc \<le> 18" "\<bar>rval v\<bar> \<le> dec_limit - 1"
  obtains l h where "rationalDecimalBounds v sc =
      Inr \<lparr>lower_bound = l, upper_bound = h, bounds_exact = on_grid (nat sc) (rval v)\<rparr>"
    "canonical_signed l" "canonical_signed h" "signed_ok l" "signed_ok h"
    "sdec_val l = of_int \<lfloor>10 ^ nat sc * rval v\<rfloor> / 10 ^ nat sc" "sdec_val h = of_int \<lceil>10 ^ nat sc * rval v\<rceil> / 10 ^ nat sc"
  using bounds_law_grid [OF assms(1-3) grid_point_bound [OF assms(4)]] .

text \<open>Between two decimals in range every number has its outward bounds in range.\<close>

lemma grid_between:
  assumes "lo \<le> x" "x \<le> hi" "on_grid 18 lo" "on_grid 18 hi" "\<bar>lo\<bar> < dec_limit" "\<bar>hi\<bar> < dec_limit"
  shows "\<bar>\<lfloor>10 ^ 18 * x\<rfloor>\<bar> < 10 ^ (36 + 18)" "\<bar>\<lceil>10 ^ 18 * x\<rceil>\<bar> < 10 ^ (36 + 18)"
proof -
  define p18 :: rat where "p18 = 10 ^ 18"
  have p: "0 < p18" by (simp add: p18_def)
  have lim: "p18 * dec_limit = of_int (10 ^ (36 + 18))" by (simp add: p18_def dec_limit_def)
  obtain a b where ab: "p18 * lo = of_int a" "p18 * hi = of_int b"
    using assms(3,4) unfolding on_grid_def p18_def [symmetric] by (metis Ints_cases)
  have b1: "- of_int (10 ^ (36 + 18)) < p18 * lo" "p18 * hi < of_int (10 ^ (36 + 18))"
    unfolding lim [symmetric] using assms(5,6) p by (simp_all add: abs_less_iff mult_minus_right [symmetric] del: mult_minus_right)
  then have b2: "- (10 ^ (36 + 18)) < a" "b < 10 ^ (36 + 18)"
    unfolding ab by (metis of_int_less_iff of_int_minus)+
  have "of_int a \<le> p18 * x" "p18 * x \<le> of_int b" unfolding ab [symmetric] using assms(1,2) p by simp_all
  then have "a \<le> \<lfloor>p18 * x\<rfloor>" "\<lceil>p18 * x\<rceil> \<le> b" "\<lfloor>p18 * x\<rfloor> \<le> \<lceil>p18 * x\<rceil>" by linarith+
  with b2 show "\<bar>\<lfloor>10 ^ 18 * x\<rfloor>\<bar> < 10 ^ (36 + 18)" "\<bar>\<lceil>10 ^ 18 * x\<rceil>\<bar> < 10 ^ (36 + 18)"
    unfolding p18_def [symmetric] by linarith+
qed

lemma bounds_Inr:
  assumes "rationalDecimalBounds v sc = Inr b"
  shows "rational_ok v" "0 \<le> sc" "sc \<le> 18"
    "canonical_signed (lower_bound b)" "canonical_signed (upper_bound b)" "signed_ok (lower_bound b)" "signed_ok (upper_bound b)"
    "sdec_val (lower_bound b) = of_int \<lfloor>10 ^ nat sc * rval v\<rfloor> / 10 ^ nat sc"
    "sdec_val (upper_bound b) = of_int \<lceil>10 ^ nat sc * rval v\<rceil> / 10 ^ nat sc"
    "bounds_exact b \<longleftrightarrow> \<lfloor>10 ^ nat sc * rval v\<rfloor> = \<lceil>10 ^ nat sc * rval v\<rceil>"
proof -
  have sc: "0 \<le> sc" "sc \<le> 18" using assms by (simp_all add: rationalDecimalBounds_def split: if_splits)
  have ok: "rational_ok v"
    using assms integers_reject [of v] by (cases "rational_ok v") (simp_all add: rationalDecimalBounds_def split: if_splits)
  then obtain n d where nd: "integers v = Inr (n, d)" "rval v = of_int n / of_int d" "0 < d" by (rule rational_okE)
  define x where "x = 10 ^ nat sc * rval v"
  have "(of_int (n * 10 ^ nat sc) / of_int d :: rat) = x" by (simp add: x_def nd(2))
  then have ib: "integerBounds (n * 10 ^ nat sc) d = (\<lfloor>x\<rfloor>, \<lceil>x\<rceil>)" using integerBounds_law [OF nd(3)] by metis
  obtain l h where lh: "format_signed \<lfloor>x\<rfloor> (nat sc) = Inr l" "format_signed \<lceil>x\<rceil> (nat sc) = Inr h"
    "b = \<lparr>lower_bound = l, upper_bound = h, bounds_exact = (\<lfloor>x\<rfloor> = \<lceil>x\<rceil>)\<rparr>"
    using assms nd(1) ib sc by (auto simp: rationalDecimalBounds_def rbind_Inr_iff split: if_splits)
  show "rational_ok v" "0 \<le> sc" "sc \<le> 18"
    "canonical_signed (lower_bound b)" "canonical_signed (upper_bound b)" "signed_ok (lower_bound b)" "signed_ok (upper_bound b)"
    "sdec_val (lower_bound b) = of_int \<lfloor>10 ^ nat sc * rval v\<rfloor> / 10 ^ nat sc"
    "sdec_val (upper_bound b) = of_int \<lceil>10 ^ nat sc * rval v\<rceil> / 10 ^ nat sc"
    "bounds_exact b \<longleftrightarrow> \<lfloor>10 ^ nat sc * rval v\<rfloor> = \<lceil>10 ^ nat sc * rval v\<rceil>"
    using ok sc format_signed_Inr [OF lh(1)] format_signed_Inr [OF lh(2)] lh(3) unfolding x_def by simp_all
qed

lemma unit_fits: "\<bar>n\<bar> < digits256 \<Longrightarrow> fraction n 1 = Inr (rat_rep (of_int n))"
  by (simp add: fraction_law return_rat_def rat_fits_def quotient_of_int digits256_def)

lemma increment_count_bound:
  assumes "on_grid 18 inc" "0 < inc" "\<bar>of_int k * inc\<bar> < dec_limit"
  shows "\<bar>k\<bar> < digits256"
proof -
  obtain z where z: "10 ^ 18 * inc = of_int z" using assms(1) by (auto simp: on_grid_def elim: Ints_cases)
  have "0 < (of_int z :: rat)" using assms(2) by (simp flip: z)
  then have "1 \<le> z" by simp
  then have "\<bar>k\<bar> \<le> \<bar>k * z\<bar>" by (simp add: abs_mult mult_le_cancel_left1)
  moreover have "\<bar>k * z\<bar> < 10 ^ 54"
  proof -
    have "of_int \<bar>k * z\<bar> = 10 ^ 18 * \<bar>of_int k * inc\<bar>"
      using arg_cong [OF z, of "\<lambda>x. \<bar>of_int k * x\<bar>"] by (simp add: abs_mult mult.left_commute) argo
    also have "\<dots> < 10 ^ 18 * dec_limit" using assms(3) by simp
    also have "\<dots> = of_int (10 ^ 54)" by (simp add: dec_limit_def)
    finally show ?thesis by (simp only: of_int_less_iff)
  qed
  moreover have "(10 ^ 54 :: int) < digits256" by (simp add: digits256_def)
  ultimately show ?thesis by linarith
qed

lemma increment_step:
  assumes "decimal_pattern inc" "dec_val inc \<noteq> 0"
  obtains t step where "decimal_positive inc = Inr t" "rationalFromDecimal t = Inr step"
    "rational_ok step" "rval step = dec_val inc"
proof -
  obtain t where t: "decimal_positive inc = Inr t" "decimal_pattern t" "dec_val t = dec_val inc"
    using decimal_positive_law [OF assms] decimal_with_valid unfolding decimal_positive_def by (metis returns_decimalE)
  have so: "signed_ok t" "sdec_val t = dec_val inc" using signed_of_valid [OF t(2)] t(3) by auto
  then have "rat_fits (dec_val inc)" using signed_ok_bounds [OF so(1)] decimal_fits by metis
  then show ?thesis
    using rationalFromDecimal_law [OF so(1) no_space_signed [OF so(1)]] so t that [of t "rat_rep (dec_val inc)"]
    by (simp add: return_rat_def rat_rep_ok)
qed

text \<open>Which multiple of the increment the code returns.\<close>

definition quantize_count :: "direction \<Rightarrow> rat \<Rightarrow> int" where
  "quantize_count dir x = (case dir of Floor \<Rightarrow> \<lfloor>x\<rfloor> | Ceil \<Rightarrow> \<lceil>x\<rceil>)"

lemma exact_multiple_bounds:
  assumes "on_grid 18 y" "\<bar>y\<bar> \<le> dec_limit - 1"
  obtains l h where "rationalDecimalBounds (rat_rep y) 18 = Inr \<lparr>lower_bound = l, upper_bound = h, bounds_exact = True\<rparr>"
    "canonical_signed l" "signed_ok l" "sdec_val l = y"
proof -
  have ok: "rational_ok (rat_rep y)" using assms by (simp add: rat_rep_ok) (rule decimal_fits, linarith+)
  obtain l h where b: "rationalDecimalBounds (rat_rep y) 18 =
      Inr \<lparr>lower_bound = l, upper_bound = h, bounds_exact = on_grid (nat 18) (rval (rat_rep y))\<rparr>"
    "canonical_signed l" "signed_ok l" "sdec_val l = of_int \<lfloor>10 ^ nat 18 * rval (rat_rep y)\<rfloor> / 10 ^ nat 18"
    using bounds_law [OF ok, of 18] assms(2) unfolding rval_rat_rep by (metis order_refl zero_le_numeral)
  then show ?thesis
    using that assms(1) trunc_at_grid [OF assms(1)] by (simp add: trunc_at_def)
qed

lemma quantize_rational_law:
  assumes v: "rational_ok v" and inc: "decimal_pattern inc" "dec_val inc \<noteq> 0"
    and lim: "\<bar>of_int (quantize_count dir (rval v / dec_val inc)) * dec_val inc\<bar> \<le> dec_limit - 1"
  shows "returns_signed (quantizeRational v inc dir) (of_int (quantize_count dir (rval v / dec_val inc)) * dec_val inc)"
proof -
  define k where "k = quantize_count dir (rval v / dec_val inc)"
  obtain t step where st: "decimal_positive inc = Inr t" "rationalFromDecimal t = Inr step"
    "rational_ok step" "rval step = dec_val inc" using inc by (rule increment_step)
  have grid: "on_grid 18 (dec_val inc)" and pos: "0 < dec_val inc"
    using dec_val_grid [OF inc(1)] dec_val_nonneg [OF inc(1)] inc(2) by auto
  obtain n d where nd: "integers v = Inr (n, d)" "rval v = of_int n / of_int d" "0 < d" using v by (rule rational_okE)
  obtain sn sd where sn: "integers step = Inr (sn, sd)" "dec_val inc = of_int sn / of_int sd" "0 < sd"
    using rational_okE [OF st(3)] st(4) by metis
  have "0 < sn" using pos sn by (simp add: zero_less_divide_iff)
  then have ib: "integerBounds (n * sd) (d * sn) = (\<lfloor>rval v / dec_val inc\<rfloor>, \<lceil>rval v / dec_val inc\<rceil>)"
    using integerBounds_law [of "d * sn" "n * sd"] nd(2,3) sn(2,3) by (simp add: mult.commute)
  have lim': "\<bar>of_int k * dec_val inc\<bar> \<le> dec_limit - 1" using lim by (simp add: k_def)
  then have kf: "\<bar>k\<bar> < digits256" using increment_count_bound [OF grid pos, of k] by linarith
  then have rk: "rational_ok (rat_rep (of_int k))"
    by (simp add: rat_rep_ok rat_fits_def quotient_of_int digits256_def)
  have gk: "on_grid 18 (of_int k * dec_val inc)" using grid by (rule on_grid_int_mult)
  have "rat_fits (of_int k * dec_val inc)" using gk lim' by (intro decimal_fits) linarith+
  then have mul: "multiplyRational (rat_rep (of_int k)) step = Inr (rat_rep (of_int k * dec_val inc))"
    using multiply_rational_law [OF rk st(3)] st(4) by (simp add: return_rat_def)
  obtain l h where b: "rationalDecimalBounds (rat_rep (of_int k * dec_val inc)) 18 =
      Inr \<lparr>lower_bound = l, upper_bound = h, bounds_exact = True\<rparr>"
    "canonical_signed l" "sdec_val l = of_int k * dec_val inc" using exact_multiple_bounds [OF gk lim'] by metis
  have "(case dir of Floor \<Rightarrow> \<lfloor>rval v / dec_val inc\<rfloor> | Ceil \<Rightarrow> \<lceil>rval v / dec_val inc\<rceil>) = k"
    by (simp add: k_def quantize_count_def)
  then have "quantizeRational v inc dir = Inr l"
    using st(1,2) nd(1) sn(1) ib mul b(1) inc(1) unit_fits [OF kf] by (simp add: quantizeRational_def Let_def)
  with b show ?thesis by (simp add: returns_signed_def k_def)
qed

lemma quantize_count_range:
  assumes "0 < inc"
  shows "(case dir of Floor \<Rightarrow> of_int (quantize_count dir (x / inc)) * inc \<le> x \<and> x < of_int (quantize_count dir (x / inc)) * inc + inc
     | Ceil \<Rightarrow> x \<le> of_int (quantize_count dir (x / inc)) * inc \<and> of_int (quantize_count dir (x / inc)) * inc - inc < x)"
proof (cases dir)
  case Floor
  have "of_int \<lfloor>x / inc\<rfloor> \<le> x / inc" "x / inc < of_int \<lfloor>x / inc\<rfloor> + 1" by linarith+
  then have "of_int \<lfloor>x / inc\<rfloor> * inc \<le> x" "x < of_int \<lfloor>x / inc\<rfloor> * inc + inc"
    using assms by (simp_all only: pos_le_divide_eq pos_divide_less_eq distrib_right mult_1)
  with Floor show ?thesis by (simp add: quantize_count_def)
next
  case Ceil
  have "x / inc \<le> of_int \<lceil>x / inc\<rceil>" "of_int \<lceil>x / inc\<rceil> - 1 < x / inc" by linarith+
  then have "x \<le> of_int \<lceil>x / inc\<rceil> * inc" "of_int \<lceil>x / inc\<rceil> * inc - inc < x"
    using assms by (simp_all only: pos_divide_le_eq pos_less_divide_eq left_diff_distrib mult_1)
  with Ceil show ?thesis by (simp add: quantize_count_def)
qed


section \<open>Decimals as fractions\<close>

lemma fits_quotient:
  assumes "\<bar>n\<bar> < digits256" "0 < d" "d < digits256"
  shows "rat_fits (of_int n / of_int d)"
proof -
  define g where "g = gcd n d"
  have g: "1 \<le> g" using assms(2) by (simp add: g_def int_one_le_iff_zero_less)
  have "quotient_of (of_int n / of_int d) = (n div g, d div g)"
    unfolding g_def using assms(2) by (metis Fract_of_int_quotient quotient_of_Fract normalize_def[of "(n, d)", simplified] fst_conv snd_conv)
  moreover have "\<bar>n div g\<bar> \<le> \<bar>n\<bar>"
    using g by (metis abs_div div_by_1 g_def gcd_dvd1 abs_of_pos int_one_le_iff_zero_less zdiv_mono2 abs_ge_zero zero_less_one)
  moreover have "d div g \<le> d" using zdiv_mono2 [of d 1 g] g assms(2) by simp
  ultimately show ?thesis using assms by (simp add: rat_fits_def)
qed

lemma signed_rational:
  assumes "signed_ok v"
  shows "rationalFromDecimal v = Inr (rat_rep (sdec_val v))" "rational_ok (rat_rep (sdec_val v))"
proof -
  have "rat_fits (sdec_val v)" using signed_ok_bounds [OF assms] by (intro decimal_fits) auto
  then show "rationalFromDecimal v = Inr (rat_rep (sdec_val v))" "rational_ok (rat_rep (sdec_val v))"
    using rationalFromDecimal_law [OF assms no_space_signed [OF assms]] by (simp_all add: return_rat_def rat_rep_ok)
qed

lemma unsigned_signed: "decimal_pattern t \<Longrightarrow> signed_ok t \<and> sdec_val t = dec_val t"
  using valid_unsigned by (simp add: signed_ok_def sdec_val_def)

lemma decimal_rational:
  assumes "decimal_pattern v"
  shows "rationalFromDecimal v = Inr (rat_rep (dec_val v))" "rational_ok (rat_rep (dec_val v))"
  using signed_rational [of v] unsigned_signed [OF assms] by simp_all


section \<open>Inversion: what a returned fraction says\<close>

lemma multiply_rational_Inr: "multiplyRational l r = Inr q \<Longrightarrow> rational_ok l \<and> rational_ok r \<and> rational_ok q \<and> rval q = rval l * rval r"
  using rational_op_operands(2) [of l r q] by (auto simp: multiply_rational_law dest: return_rat_ok)

lemma divide_rational_Inr:
  "divideRational l r = Inr q \<Longrightarrow> rational_ok l \<and> rational_ok r \<and> rational_ok q \<and> rval r \<noteq> 0 \<and> rval q = rval l / rval r"
  using rational_op_operands(3) [of l r q] by (auto simp: divide_rational_law split: if_splits dest: return_rat_ok)

lemma compare_rational_Inr: "compareRational l r = Inr c \<Longrightarrow> rational_ok l \<and> rational_ok r \<and> c = rat_cmp (rval l) (rval r)"
  using rational_op_operands(4) [of l r c] by (auto simp: compare_rational_law)

lemmas rational_inversion = multiply_rational_Inr divide_rational_Inr compare_rational_Inr

lemma positive_rational_Inr:
  assumes "rbind (decimal_positive v) rationalFromDecimal = Inr q"
  shows "rational_ok q" "rval q = dec_val (js_trim v)" "0 < dec_val (js_trim v)" "decimal_pattern (js_trim v)"
proof -
  obtain t where t: "decimal_positive v = Inr t" "rationalFromDecimal t = Inr q" using assms by (auto simp: rbind_Inr_iff)
  note v = decimal_positive_value [OF t(1)]
  then have "q = rat_rep (dec_val t)" "rational_ok (rat_rep (dec_val t))" using t(2) decimal_rational [of t] by auto
  then show "rational_ok q" "rval q = dec_val (js_trim v)" "0 < dec_val (js_trim v)" "decimal_pattern (js_trim v)"
    using v dec_val_nonneg [of t] by auto
qed

lemma nonneg_rational_Inr:
  assumes "rbind (decimal v) rationalFromDecimal = Inr q"
  shows "rational_ok q" "rval q = dec_val (js_trim v)" "0 \<le> dec_val (js_trim v)" "decimal_pattern (js_trim v)"
proof -
  obtain t where t: "decimal v = Inr t" "rationalFromDecimal t = Inr q" using assms by (auto simp: rbind_Inr_iff)
  note v = decimal_id_value [OF t(1)]
  then have "q = rat_rep (dec_val t)" "rational_ok (rat_rep (dec_val t))" using t(2) decimal_rational [of t] by auto
  then show "rational_ok q" "rval q = dec_val (js_trim v)" "0 \<le> dec_val (js_trim v)" "decimal_pattern (js_trim v)"
    using v dec_val_nonneg [of t] by auto
qed

lemma quantize_rational_Inr:
  assumes "quantizeRational v inc dir = Inr s"
  shows "decimal_pattern inc" "0 < dec_val inc" "rational_ok v" "canonical_signed s" "signed_ok s"
    "sdec_val s = of_int (quantize_count dir (rval v / dec_val inc)) * dec_val inc"
proof -
  have trim: "js_trim inc = inc" using assms by (auto simp: quantizeRational_def split: if_splits)
  obtain step where st: "rbind (decimal_positive inc) rationalFromDecimal = Inr step"
    using assms unfolding quantizeRational_def trim by (auto simp: rbind_Inr_iff)
  obtain n d where nd0: "integers v = Inr (n, d)" using assms by (auto simp: quantizeRational_def trim st rbind_Inr_iff)
  obtain sn sd where sn0: "integers step = Inr (sn, sd)" using assms by (auto simp: quantizeRational_def trim st nd0 rbind_Inr_iff)
  obtain lo hi where ib0: "integerBounds (n * sd) (d * sn) = (lo, hi)" by fastforce
  obtain c res b where rest: "fraction (case dir of Floor \<Rightarrow> lo | Ceil \<Rightarrow> hi) 1 = Inr c" "multiplyRational c step = Inr res"
    "rationalDecimalBounds res 18 = Inr b" "bounds_exact b" "s = lower_bound b"
    using assms by (auto simp: quantizeRational_def trim st nd0 sn0 ib0 Let_def rbind_Inr_iff split: if_splits)
  note h = st nd0 sn0 ib0 rest
  note p = positive_rational_Inr [OF h(1), unfolded trim]
  have ok: "rational_ok v" using h(2) integers_reject by force
  have nd: "rval v = of_int n / of_int d" "0 < d" using integers_ok [OF ok] denominator_pos [OF ok] h(2) by (auto simp: rval_def)
  have sn: "dec_val inc = of_int sn / of_int sd" "0 < sd" using integers_ok [OF p(1)] denominator_pos [OF p(1)] h(3) p(2) by (auto simp: rval_def)
  then have "0 < sn" using p(3) by (simp add: zero_less_divide_iff)
  then have ib: "lo = \<lfloor>rval v / dec_val inc\<rfloor>" "hi = \<lceil>rval v / dec_val inc\<rceil>"
    using integerBounds_law [of "d * sn" "n * sd"] nd sn h(4) by (simp_all add: mult.commute)
  then have k: "(case dir of Floor \<Rightarrow> lo | Ceil \<Rightarrow> hi) = quantize_count dir (rval v / dec_val inc)"
    by (simp add: quantize_count_def split: direction.splits)
  have "rval c = of_int (quantize_count dir (rval v / dec_val inc))"
    using h(5) return_rat_ok unfolding k by (auto simp: fraction_law)
  then have res: "rval res = of_int (quantize_count dir (rval v / dec_val inc)) * dec_val inc"
    using multiply_rational_Inr [OF h(6)] p(2) by simp
  define p18 :: rat where "p18 = 10 ^ 18"
  have n18: "nat 18 = 18" by simp
  have eq: "\<lfloor>p18 * rval res\<rfloor> = \<lceil>p18 * rval res\<rceil>" using bounds_Inr(10) [OF h(7)] h(8) unfolding n18 p18_def by simp
  have "sdec_val s = of_int \<lfloor>p18 * rval res\<rfloor> / p18" using bounds_Inr(8) [OF h(7)] h(9) unfolding n18 p18_def by simp
  also have "of_int \<lfloor>p18 * rval res\<rfloor> = p18 * rval res" using eq by (metis floor_less_iff less_ceiling_iff linorder_less_linear order_less_irrefl of_int_floor_le le_of_int_ceiling order_antisym)
  finally have "sdec_val s = rval res" by (simp add: p18_def)
  then show "sdec_val s = of_int (quantize_count dir (rval v / dec_val inc)) * dec_val inc" using res by simp
  show "decimal_pattern inc" "0 < dec_val inc" "rational_ok v" "canonical_signed s" "signed_ok s"
    using p ok bounds_Inr(4,6) [OF h(7)] h(9) by auto
qed


section \<open>Properties\<close>

text \<open>
  C7: the fraction operations are the operations on rational numbers: on valid operands each of
  \<^verbatim>\<open>addRational\<close>, \<^verbatim>\<open>multiplyRational\<close>, \<^verbatim>\<open>divideRational\<close> returns the unique
  lowest-terms representation of the exact result when both its parts have at most 256 digits and
  throws otherwise (also when dividing by zero), and \<^verbatim>\<open>compareRational\<close> is the order of the
  numbers. The cross-cancelling computations of the code never make a result too large that
  would fit in lowest terms.
\<close>

theorem rational_operations_refine_rat:
  assumes "rational_ok l" and "rational_ok r"
  shows "addRational l r = return_rat (rval l + rval r) \<and>
    multiplyRational l r = return_rat (rval l * rval r) \<and>
    divideRational l r = (if rval r = 0 then Inl (Error ''Rational division by zero.'') else return_rat (rval l / rval r)) \<and>
    compareRational l r = Inr (rat_cmp (rval l) (rval r))"
  using assms by (simp add: add_rational_law multiply_rational_law divide_rational_law compare_rational_law)

theorem rational_operations_refine_rat_witness:
  "addRational \<lparr>numerator = ''1'', denominator = ''6''\<rparr> \<lparr>numerator = ''-1'', denominator = ''10''\<rparr>
     = return_rat (rval \<lparr>numerator = ''1'', denominator = ''6''\<rparr> + rval \<lparr>numerator = ''-1'', denominator = ''10''\<rparr>)
   \<and> addRational \<lparr>numerator = ''1'', denominator = ''6''\<rparr> \<lparr>numerator = ''-1'', denominator = ''10''\<rparr>
     = Inr \<lparr>numerator = ''1'', denominator = ''15''\<rparr>"
proof -
  have a: "rational_ok \<lparr>numerator = ''1'', denominator = ''6''\<rparr>" by code_simp
  have b: "rational_ok \<lparr>numerator = ''-1'', denominator = ''10''\<rparr>" by code_simp
  have c: "addRational \<lparr>numerator = ''1'', denominator = ''6''\<rparr> \<lparr>numerator = ''-1'', denominator = ''10''\<rparr>
     = Inr \<lparr>numerator = ''1'', denominator = ''15''\<rparr>" by code_simp
  show ?thesis using rational_operations_refine_rat [OF a b] c by blast
qed

text \<open>
  \<^verbatim>\<open>rationalDecimalBounds\<close> encloses the fraction: the lower bound is at most the value,
  the upper bound at least the value, they lie on the decimal grid of the requested scale at most
  one unit apart, and the exactness flag is set exactly when the value itself lies on that grid,
  also for negative values.
\<close>

theorem rational_bounds_enclose:
  assumes "rational_ok v" and "0 \<le> sc" and "sc \<le> 18" and "\<bar>rval v\<bar> \<le> dec_limit - 1"
  shows "\<exists>b. rationalDecimalBounds v sc = Inr b \<and>
    canonical_signed (lower_bound b) \<and> canonical_signed (upper_bound b) \<and>
    sdec_val (lower_bound b) \<le> rval v \<and> rval v \<le> sdec_val (upper_bound b) \<and>
    on_grid (nat sc) (sdec_val (lower_bound b)) \<and> on_grid (nat sc) (sdec_val (upper_bound b)) \<and>
    sdec_val (upper_bound b) - sdec_val (lower_bound b) \<le> 1 / 10 ^ nat sc \<and>
    (bounds_exact b \<longleftrightarrow> on_grid (nat sc) (rval v))"
proof -
  define x where "x = 10 ^ nat sc * rval v"
  have v: "rval v = x / 10 ^ nat sc" by (simp add: x_def)
  obtain l h where b: "rationalDecimalBounds v sc =
      Inr \<lparr>lower_bound = l, upper_bound = h, bounds_exact = on_grid (nat sc) (rval v)\<rparr>"
    "canonical_signed l" "canonical_signed h"
    "sdec_val l = of_int \<lfloor>x\<rfloor> / 10 ^ nat sc" "sdec_val h = of_int \<lceil>x\<rceil> / 10 ^ nat sc"
    using bounds_law [OF assms] unfolding x_def by metis
  have "of_int \<lfloor>x\<rfloor> \<le> x" "x \<le> of_int \<lceil>x\<rceil>" "of_int \<lceil>x\<rceil> - of_int \<lfloor>x\<rfloor> \<le> (1::rat)"
    using ceiling_diff_floor_le_1 [of x] by (simp_all flip: of_int_diff)
  then have "sdec_val l \<le> rval v" "rval v \<le> sdec_val h" "sdec_val h - sdec_val l \<le> 1 / 10 ^ nat sc"
    unfolding b(4,5) v by (simp_all add: divide_right_mono flip: diff_divide_distrib)
  then show ?thesis using b by (auto simp: on_grid_def)
qed

text \<open>
  \<^verbatim>\<open>quantizeRational\<close> rounds a fraction to the exchange increment in one step: the
  result is an exact multiple of the increment, the greatest one not above the value for
  \<^verbatim>\<open>floor\<close> and the least one not below it for \<^verbatim>\<open>ceil\<close>.
\<close>

theorem quantize_rational_one_step:
  assumes "rational_ok v" and "decimal_pattern inc" and "dec_val inc \<noteq> 0"
    and "\<bar>of_int (quantize_count dir (rval v / dec_val inc)) * dec_val inc\<bar> \<le> dec_limit - 1"
  shows "\<exists>s k. quantizeRational v inc dir = Inr s \<and> canonical_signed s \<and> sdec_val s = of_int k * dec_val inc \<and>
    (case dir of Floor \<Rightarrow> sdec_val s \<le> rval v \<and> rval v < sdec_val s + dec_val inc
     | Ceil \<Rightarrow> rval v \<le> sdec_val s \<and> sdec_val s - dec_val inc < rval v)"
proof -
  have "0 < dec_val inc" using assms(2,3) dec_val_nonneg [of inc] by simp
  from quantize_count_range [OF this, of dir "rval v"] quantize_rational_law [OF assms]
  show ?thesis by (cases dir) (auto simp: returns_signed_def)
qed

end
