(* ===== verification/JS_Values.thy ===== *)
theory JS_Values
  imports JS_Strings
begin

text \<open>
  The untyped values the validators of the program receive (\<^verbatim>\<open>unknown\<close> in the source): plain
  JSON-like data. An object is the list of its own enumerable data properties in insertion order.
  Accessors, symbols, proxies and foreign prototypes are outside the model, so the tests of the
  source that refuse them always pass here.
\<close>

datatype js_number = Num rat | NegZero | NaN | Infinite bool

datatype js =
    JUndefined
  | JNull
  | JBool bool
  | JNum js_number
  | JStr string
  | JArr "js list"
  | JObj "(string \<times> js) list"

definition js_get :: "(string \<times> js) list \<Rightarrow> string \<Rightarrow> js" where
  "js_get props k = (case map_of props k of None \<Rightarrow> JUndefined | Some v \<Rightarrow> v)"

text \<open>The value of a number that \<^verbatim>\<open>Number.isSafeInteger\<close> accepts.\<close>

definition safe_integer_of :: "js \<Rightarrow> int option" where
  "safe_integer_of v = (case v of
       JNum (Num r) \<Rightarrow> if r = of_int \<lfloor>r\<rfloor> \<and> is_safe_integer \<lfloor>r\<rfloor> then Some \<lfloor>r\<rfloor> else None
     | JNum NegZero \<Rightarrow> Some 0
     | _ \<Rightarrow> None)"

text \<open>\<^verbatim>\<open>value ?? fallback\<close>\<close>

definition js_or :: "js \<Rightarrow> js \<Rightarrow> js" where
  "js_or v d = (case v of JUndefined \<Rightarrow> d | JNull \<Rightarrow> d | _ \<Rightarrow> v)"

text \<open>Falsy values, and \<^verbatim>\<open>===\<close> of values that are no shared objects.\<close>

definition js_falsy :: "js \<Rightarrow> bool" where
  "js_falsy v \<longleftrightarrow> v \<in> {JUndefined, JNull, JBool False, JNum (Num 0), JNum NegZero, JNum NaN, JStr []}"

definition strict_equal :: "js \<Rightarrow> js \<Rightarrow> bool" where
  "strict_equal a b = (case (a, b) of
       (JNum x, JNum y) \<Rightarrow> (case (x, y) of
           (NaN, _) \<Rightarrow> False | (NegZero, Num r) \<Rightarrow> r = 0 | (Num r, NegZero) \<Rightarrow> r = 0 | _ \<Rightarrow> x = y)
     | (JArr _, _) \<Rightarrow> False | (JObj _, _) \<Rightarrow> False | _ \<Rightarrow> a = b)"

lemma js_get_simps [simp]:
  "js_get [] k = JUndefined" "js_get ((k', v) # props) k = (if k = k' then v else js_get props k)"
  by (auto simp: js_get_def)

lemma safe_integer_of_int [simp]: "safe_integer_of (JNum (Num (of_int n))) = (if is_safe_integer n then Some n else None)"
  by (simp add: safe_integer_of_def)

lemma safe_integer_of_safe: "safe_integer_of v = Some n \<Longrightarrow> is_safe_integer n"
  by (auto simp: safe_integer_of_def is_safe_integer_def max_safe_integer_def
      split: js.splits js_number.splits if_splits)


section \<open>JSON texts\<close>

text \<open>\<^verbatim>\<open>JSON.stringify\<close> of a string and of an array of texts.\<close>

definition hex_char :: "nat \<Rightarrow> char" where
  "hex_char n = (if n < 10 then char_of (48 + n) else char_of (87 + n))"

definition json_char :: "char \<Rightarrow> string" where
  "json_char c =
     (let n = (of_char c :: nat) in
      if n = 34 then [char_of (92::nat), c]
      else if n = 92 then [c, c]
      else if n = 8 then [char_of (92::nat), CHR ''b'']
      else if n = 9 then [char_of (92::nat), CHR ''t'']
      else if n = 10 then [char_of (92::nat), CHR ''n'']
      else if n = 12 then [char_of (92::nat), CHR ''f'']
      else if n = 13 then [char_of (92::nat), CHR ''r'']
      else if n < 32 then char_of (92::nat) # ''u00'' @ [hex_char (n div 16), hex_char (n mod 16)]
      else [c])"

definition json_string :: "string \<Rightarrow> string" where
  "json_string s = CHR 0x22 # concat (map json_char s) @ [CHR 0x22]"

definition join_with :: "string \<Rightarrow> string list \<Rightarrow> string" where
  "join_with sep xs = (case xs of [] \<Rightarrow> [] | x # rest \<Rightarrow> x @ concat (map (\<lambda>y. sep @ y) rest))"

definition json_array :: "string list \<Rightarrow> string" where
  "json_array xs = ''['' @ join_with '','' xs @ '']''"

subsection \<open>JSON texts are unambiguous\<close>

text \<open>Reading one character of a JSON string back.\<close>

definition hex_value :: "char \<Rightarrow> nat" where
  "hex_value c = (if is_digit c then of_char c - 48 else of_char c - 87)"

fun read_char :: "string \<Rightarrow> (char \<times> string) option" where
  "read_char (a # rest) =
     (if a = CHR 0x22 then None
      else if a \<noteq> CHR 0x5C then Some (a, rest)
      else case rest of
        [] \<Rightarrow> None
      | b # r \<Rightarrow> if b = CHR 0x22 \<or> b = CHR 0x5C then Some (b, r)
          else if b = CHR ''b'' then Some (char_of (8::nat), r) else if b = CHR ''t'' then Some (char_of (9::nat), r)
          else if b = CHR ''n'' then Some (char_of (10::nat), r) else if b = CHR ''f'' then Some (char_of (12::nat), r)
          else if b = CHR ''r'' then Some (char_of (13::nat), r)
          else Some (char_of (16 * hex_value (r ! 2) + hex_value (r ! 3)), drop 4 r))"
| "read_char [] = None"

lemma hex_value_char: "n < 16 \<Longrightarrow> hex_value (hex_char n) = n"
proof -
  assume "n < 16"
  then have "n \<in> set [0..<16]" by simp
  moreover have "\<forall>n\<in>set [0..<16]. hex_value (hex_char n) = n" by code_simp
  ultimately show ?thesis by blast
qed

lemma read_json_char: "read_char (json_char c @ x) = Some (c, x)"
proof -
  define n where "n = (of_char c :: nat)"
  have c: "c = char_of n" by (simp add: n_def)
  have hex: "hex_value (hex_char (n div 16)) = n div 16" "hex_value (hex_char (n mod 16)) = n mod 16" if "n < 32"
    using that by (intro hex_value_char; simp)+
  have slash: "char_of (92::nat) = CHR 0x5C" "char_of (34::nat) = CHR 0x22" by code_simp+
  consider "n = 34" | "n = 92" | "n = 8" | "n = 9" | "n = 10" | "n = 12" | "n = 13" | "n < 32" "n \<notin> {8, 9, 10, 12, 13}" | "32 \<le> n" "n \<noteq> 34" "n \<noteq> 92" by force
  then show ?thesis
  proof cases
    case 8
    then show ?thesis using hex by (simp add: json_char_def n_def [symmetric] Let_def c slash)
  next
    case 9
    then have "c \<noteq> CHR 0x22" "c \<noteq> CHR 0x5C" by (auto simp: n_def)
    with 9 show ?thesis by (simp add: json_char_def n_def [symmetric] Let_def)
  qed (simp_all add: json_char_def n_def [symmetric] Let_def, simp_all add: c slash)
qed

lemma json_chars_inj:
  "concat (map json_char s) @ CHR 0x22 # x = concat (map json_char t) @ CHR 0x22 # y \<Longrightarrow> s = t \<and> x = y"
proof (induction s arbitrary: t)
  case Nil
  show ?case
  proof (cases t)
    case (Cons c t')
    then have "read_char (CHR 0x22 # x) = Some (c, concat (map json_char t') @ CHR 0x22 # y)" using Nil read_json_char by simp
    then show ?thesis by simp
  qed (use Nil in simp)
next
  case (Cons c s)
  then have r: "Some (c, concat (map json_char s) @ CHR 0x22 # x) = read_char (concat (map json_char t) @ CHR 0x22 # y)" using read_json_char by (metis append.assoc concat.simps(2) list.simps(9))
  then show ?case
  proof (cases t)
    case (Cons d t')
    then have "c = d" "concat (map json_char s) @ CHR 0x22 # x = concat (map json_char t') @ CHR 0x22 # y" using r read_json_char by auto
    then show ?thesis using Cons.IH [of t'] local.Cons by simp
  qed simp
qed

lemma json_string_inj: "json_string s @ x = json_string t @ y \<longleftrightarrow> s = t \<and> x = y"
  using json_chars_inj [of s x t y] by (auto simp: json_string_def)

text \<open>A case distinction that throws in all branches but one.\<close>

lemma case_Inr:
  "(case x of None \<Rightarrow> Inl e | Some y \<Rightarrow> f y) = Inr z \<longleftrightarrow> (\<exists>y. x = Some y \<and> f y = Inr z)"
  "(case v of JBool b \<Rightarrow> g b | _ \<Rightarrow> Inl e) = Inr z \<longleftrightarrow> (\<exists>b. v = JBool b \<and> g b = Inr z)"
  "(case v of JArr xs \<Rightarrow> h xs | _ \<Rightarrow> Inl e) = Inr z \<longleftrightarrow> (\<exists>xs. v = JArr xs \<and> h xs = Inr z)"
  "(if c then Inl e else k) = Inr z \<longleftrightarrow> \<not> c \<and> k = Inr z"
  by (cases x; simp) (cases v; simp)+

end
