(* ===== verification/Trading_Money.thy ===== *)
theory Trading_Money
  imports Trading_Rational JS_Values
begin

text \<open>
  Money values (\<^verbatim>\<open>src/trading_money_value.ts\<close>): an amount is either an exact fraction with
  its outward 18-digit bounds, or, once exact arithmetic has outgrown 256 digits, an interval. The
  validator accepts a serialised value only when bounds, precision and fraction agree; addition
  and negation validate their operands first.
\<close>

section \<open>The code\<close>

datatype money_precision = Exact_decimal | Exact_rational | Bounded

record money_value =
  mv_lower :: string
  mv_upper :: string
  mv_exact :: "exact_rational option"
  mv_decimal :: "string option"
  mv_precision :: money_precision
  mv_terms :: int

definition money_keys :: "string list" where
  "money_keys = [''lower'', ''upper'', ''exact'', ''decimal'', ''precision'', ''terms'']"

definition rational_keys :: "string list" where
  "rational_keys = [''numerator'', ''denominator'']"

definition dataRecord :: "js \<Rightarrow> string list \<Rightarrow> (string \<times> js) list result" where
  "dataRecord value ks = (case value of
       JObj props \<Rightarrow>
         if length props \<noteq> length ks then Inl (Error ''Invalid money value fields.'')
         else if list_ex (\<lambda>k. map_of props k = None) ks
         then Inl (Error ''Money value fields must be enumerable data properties.'')
         else Inr props
     | _ \<Rightarrow> Inl (Error ''Invalid money value structure.''))"

definition canonicalDecimal :: "js \<Rightarrow> string result" where
  "canonicalDecimal value = (case value of
       JStr s \<Rightarrow> rbind (signedDecimal s) (\<lambda>t.
         if t \<noteq> s then Inl (Error ''Invalid canonical money decimal.'') else Inr s)
     | _ \<Rightarrow> Inl (Error ''Invalid canonical money decimal.''))"

definition exactFraction :: "js \<Rightarrow> bool \<Rightarrow> exact_rational result" where
  "exactFraction value requireCanonical =
     rbind (dataRecord value rational_keys) (\<lambda>source.
       case (js_get source ''numerator'', js_get source ''denominator'') of
         (JStr n, JStr d) \<Rightarrow>
           rbind (rational \<lparr>numerator = n, denominator = d\<rparr>) (\<lambda>normalized.
             if requireCanonical \<and> (numerator normalized \<noteq> n \<or> denominator normalized \<noteq> d)
             then Inl (Error ''Money rational must be reduced and canonical.'')
             else Inr normalized)
       | _ \<Rightarrow> Inl (MoneyRationalValidationError ''Invalid money rational components.''))"

definition decimalUnits :: "string \<Rightarrow> int" where
  "decimalUnits value = (case split_point value of (integer, tail) \<Rightarrow>
     bigint_of (integer @ pad_end tail 18 (CHR ''0'')))"

definition checkedTerms :: "js \<Rightarrow> int result" where
  "checkedTerms value = (case safe_integer_of value of
       Some n \<Rightarrow> if n < 0 \<or> value = JNum NegZero
         then Inl (Error ''Money terms must be a nonnegative safe integer.'') else Inr n
     | None \<Rightarrow> Inl (Error ''Money terms must be a nonnegative safe integer.''))"

definition exactValue :: "exact_rational \<Rightarrow> int \<Rightarrow> money_value result" where
  "exactValue q n =
     rbind (rationalDecimalBounds q 18) (\<lambda>bounds. Inr
       \<lparr>mv_lower = lower_bound bounds, mv_upper = upper_bound bounds, mv_exact = Some q,
        mv_decimal = (if bounds_exact bounds then Some (lower_bound bounds) else None),
        mv_precision = (if bounds_exact bounds then Exact_decimal else Exact_rational), mv_terms = n\<rparr>)"

fun js_of_precision :: "money_precision \<Rightarrow> js" where
  "js_of_precision Exact_decimal = JStr ''exact_decimal''"
| "js_of_precision Exact_rational = JStr ''exact_rational''"
| "js_of_precision Bounded = JStr ''bounded''"

definition js_of_string_option :: "string option \<Rightarrow> js" where
  "js_of_string_option v = (case v of None \<Rightarrow> JNull | Some s \<Rightarrow> JStr s)"

definition js_of_rational :: "exact_rational \<Rightarrow> js" where
  "js_of_rational q = JObj [(''numerator'', JStr (numerator q)), (''denominator'', JStr (denominator q))]"

definition validateExact :: "(string \<times> js) list \<Rightarrow> int \<Rightarrow> string \<Rightarrow> string \<Rightarrow> money_value result" where
  "validateExact source n lo hi =
     rbind (exactFraction (js_get source ''exact'') True) (\<lambda>q.
     rbind (exactValue q n) (\<lambda>res.
       if lo \<noteq> mv_lower res \<or> hi \<noteq> mv_upper res
          \<or> js_get source ''decimal'' \<noteq> js_of_string_option (mv_decimal res)
          \<or> js_get source ''precision'' \<noteq> js_of_precision (mv_precision res)
       then Inl (Error ''Money exact value, bounds and precision disagree.'')
       else if n = 0 \<and> numerator q \<noteq> ''0''
       then Inl (Error ''Zero money terms require an exact zero identity.'')
       else Inr res))"

definition validateMoneyValue :: "js \<Rightarrow> money_value result" where
  "validateMoneyValue value =
     rbind (dataRecord value money_keys) (\<lambda>source.
     rbind (canonicalDecimal (js_get source ''lower'')) (\<lambda>lo.
     rbind (canonicalDecimal (js_get source ''upper'')) (\<lambda>hi.
     rbind (checkedTerms (js_get source ''terms'')) (\<lambda>n.
       if js_get source ''exact'' \<noteq> JNull then validateExact source n lo hi
       else let width = decimalUnits hi - decimalUnits lo in
         if js_get source ''precision'' \<noteq> JStr ''bounded'' \<or> js_get source ''decimal'' \<noteq> JNull
            \<or> n < 2 \<or> width \<le> 0 \<or> width > n
         then Inl (Error ''Money bounded interval, precision and terms disagree.'')
         else Inr \<lparr>mv_lower = lo, mv_upper = hi, mv_exact = None, mv_decimal = None,
                   mv_precision = Bounded, mv_terms = n\<rparr>))))"

text \<open>A money value as the object it is serialised to.\<close>

definition js_of_money :: "money_value \<Rightarrow> js" where
  "js_of_money m = JObj
     [(''lower'', JStr (mv_lower m)), (''upper'', JStr (mv_upper m)),
      (''exact'', case mv_exact m of None \<Rightarrow> JNull | Some q \<Rightarrow> js_of_rational q),
      (''decimal'', js_of_string_option (mv_decimal m)), (''precision'', js_of_precision (mv_precision m)),
      (''terms'', JNum (Num (of_int (mv_terms m))))]"

definition moneyValueFromRational :: "exact_rational \<Rightarrow> money_value result" where
  "moneyValueFromRational value = rbind (exactFraction (js_of_rational value) False) (\<lambda>q. exactValue q 1)"

definition moneyValueFromDecimal :: "string \<Rightarrow> money_value result" where
  "moneyValueFromDecimal value = rbind (rationalFromDecimal value) (\<lambda>q. exactValue q 1)"

text \<open>The module's own \<^verbatim>\<open>gcd\<close>: the right operand is not made positive.\<close>

definition money_gcd :: "int \<Rightarrow> int \<Rightarrow> int" where
  "money_gcd left right = gcd_loop (if left < 0 then - left else left) right"

definition exceedsRationalLimit :: "exact_rational \<Rightarrow> exact_rational \<Rightarrow> bool" where
  "exceedsRationalLimit left right =
     (let ln = bigint_of (numerator left); ld = bigint_of (denominator left);
          rn = bigint_of (numerator right); rd = bigint_of (denominator right);
          common = money_gcd ld rd;
          n = ln * (rd sdiv common) + rn * (ld sdiv common);
          d = ld * (rd sdiv common);
          divisor = money_gcd n d;
          magnitude = (if n < 0 then - n else n)
      in length (show_int (magnitude sdiv divisor)) > 256 \<or> length (show_int (d sdiv divisor)) > 256)"

definition addMoneyValues :: "money_value \<Rightarrow> money_value \<Rightarrow> money_value result" where
  "addMoneyValues left right =
     rbind (validateMoneyValue (js_of_money left)) (\<lambda>l.
     rbind (validateMoneyValue (js_of_money right)) (\<lambda>r.
     rbind (checkedTerms (JNum (Num (of_int (mv_terms l + mv_terms r))))) (\<lambda>n.
       let bounded = rbind (addSignedDecimal (mv_lower l) (mv_lower r)) (\<lambda>lo.
             rbind (addSignedDecimal (mv_upper l) (mv_upper r)) (\<lambda>hi.
               validateMoneyValue (js_of_money \<lparr>mv_lower = lo, mv_upper = hi, mv_exact = None,
                 mv_decimal = None, mv_precision = Bounded, mv_terms = n\<rparr>)))
       in case (mv_exact l, mv_exact r) of
            (Some a, Some b) \<Rightarrow>
              if \<not> exceedsRationalLimit a b then rbind (addRational a b) (\<lambda>q. exactValue q n)
              else bounded
          | _ \<Rightarrow> bounded)))"

definition negateMoneyValue :: "money_value \<Rightarrow> money_value result" where
  "negateMoneyValue value =
     rbind (validateMoneyValue (js_of_money value)) (\<lambda>source.
       case mv_exact source of
         Some q \<Rightarrow> exactValue \<lparr>numerator = show_int (- bigint_of (numerator q)), denominator = denominator q\<rparr> (mv_terms source)
       | None \<Rightarrow>
           rbind (negateSignedDecimal (mv_upper source)) (\<lambda>lo.
           rbind (negateSignedDecimal (mv_lower source)) (\<lambda>hi.
             validateMoneyValue (js_of_money \<lparr>mv_lower = lo, mv_upper = hi, mv_exact = None,
               mv_decimal = None, mv_precision = Bounded, mv_terms = mv_terms source\<rparr>))))"


section \<open>Well-formed money values\<close>

definition money_wf :: "money_value \<Rightarrow> bool" where
  "money_wf m \<longleftrightarrow>
     canonical_signed (mv_lower m) \<and> signed_ok (mv_lower m) \<and>
     canonical_signed (mv_upper m) \<and> signed_ok (mv_upper m) \<and>
     0 \<le> mv_terms m \<and> is_safe_integer (mv_terms m) \<and>
     (case mv_exact m of
        Some q \<Rightarrow> rational q = Inr q \<and> exactValue q (mv_terms m) = Inr m \<and> (mv_terms m = 0 \<longrightarrow> numerator q = ''0'')
      | None \<Rightarrow> mv_precision m = Bounded \<and> mv_decimal m = None \<and> 2 \<le> mv_terms m \<and>
          decimalUnits (mv_lower m) < decimalUnits (mv_upper m) \<and>
          decimalUnits (mv_upper m) - decimalUnits (mv_lower m) \<le> mv_terms m)"

text \<open>The numbers a money value may stand for: one for an exact value, an interval otherwise.\<close>

definition money_contains :: "money_value \<Rightarrow> rat \<Rightarrow> bool" where
  "money_contains m x \<longleftrightarrow> (case mv_exact m of
       Some q \<Rightarrow> x = rval q
     | None \<Rightarrow> sdec_val (mv_lower m) \<le> x \<and> x \<le> sdec_val (mv_upper m))"

lemma money_object [simp]:
  "dataRecord (js_of_money m) money_keys = Inr
     [(''lower'', JStr (mv_lower m)), (''upper'', JStr (mv_upper m)),
      (''exact'', case mv_exact m of None \<Rightarrow> JNull | Some q \<Rightarrow> js_of_rational q),
      (''decimal'', js_of_string_option (mv_decimal m)), (''precision'', js_of_precision (mv_precision m)),
      (''terms'', JNum (Num (of_int (mv_terms m))))]"
  by (simp add: js_of_money_def dataRecord_def money_keys_def)

lemma js_of_precision_inject [simp]: "js_of_precision a = js_of_precision b \<longleftrightarrow> a = b"
  by (cases a; cases b) auto

lemma js_of_string_option_inject [simp]: "js_of_string_option a = js_of_string_option b \<longleftrightarrow> a = b"
  by (cases a; cases b) (auto simp: js_of_string_option_def)

lemma js_tags [simp]:
  "js_of_rational q \<noteq> JNull" "js_of_string_option v = JNull \<longleftrightarrow> v = None" "js_of_precision p = JStr ''bounded'' \<longleftrightarrow> p = Bounded"
  by (simp_all add: js_of_rational_def js_of_string_option_def split: option.splits) (cases p; simp)

lemma canonicalDecimal_Inr: "canonicalDecimal (JStr s) = Inr t \<longleftrightarrow> t = s \<and> canonical_signed s \<and> signed_ok s"
proof
  assume "canonicalDecimal (JStr s) = Inr t"
  then have "t = s" "signedDecimal s = Inr s" by (auto simp: canonicalDecimal_def rbind_Inr_iff split: if_splits)
  then show "t = s \<and> canonical_signed s \<and> signed_ok s" using signedDecimal_InrD(1,2) by blast
qed (simp add: canonicalDecimal_def signedDecimal_canonical)

lemma checkedTerms_Inr: "checkedTerms (JNum (Num (of_int n))) = Inr k \<longleftrightarrow> k = n \<and> 0 \<le> n \<and> is_safe_integer n"
  by (auto simp: checkedTerms_def)

lemma exact_rational_eq_iff:
  "(a :: exact_rational) = b \<longleftrightarrow> numerator a = numerator b \<and> denominator a = denominator b"
  by (auto intro: exact_rational.equality)

lemma exactFraction_object:
  "exactFraction (js_of_rational q) canon = rbind (rational q) (\<lambda>n.
     if canon \<and> n \<noteq> q then Inl (Error ''Money rational must be reduced and canonical.'') else Inr n)"
proof -
  obtain n d where q: "q = \<lparr>numerator = n, denominator = d\<rparr>" by (cases q)
  have "(numerator r \<noteq> n \<or> denominator r \<noteq> d) = (r \<noteq> q)" for r :: exact_rational
    by (auto simp: exact_rational_eq_iff q)
  then show ?thesis
    by (simp add: exactFraction_def js_of_rational_def dataRecord_def rational_keys_def js_get_def q cong: rbind_cong)
qed

lemma exactValue_Inr:
  "exactValue q n = Inr m \<Longrightarrow> mv_exact m = Some q \<and> mv_terms m = n"
  by (auto simp: exactValue_def rbind_Inr_iff)

lemma validate_exact_iff:
  assumes "mv_exact m = Some q"
  shows "validateMoneyValue (js_of_money m) = Inr m' \<longleftrightarrow> m' = m \<and> money_wf m"
proof -
  have eq: "res = m \<longleftrightarrow> mv_lower m = mv_lower res \<and> mv_upper m = mv_upper res \<and> mv_decimal m = mv_decimal res \<and>
      mv_precision m = mv_precision res" if "mv_exact res = Some q" "mv_terms res = mv_terms m" for res
    using that assms by (auto intro: money_value.equality)
  show ?thesis
    using assms
    by (auto simp: validateMoneyValue_def validateExact_def js_get_def rbind_Inr_iff canonicalDecimal_Inr checkedTerms_Inr
        exactFraction_object money_wf_def split: if_splits)
      (metis eq exactValue_Inr)+
qed

lemma validate_bounded_iff:
  assumes "mv_exact m = None"
  shows "validateMoneyValue (js_of_money m) = Inr m' \<longleftrightarrow> m' = m \<and> money_wf m"
proof -
  have "m = \<lparr>mv_lower = mv_lower m, mv_upper = mv_upper m, mv_exact = None, mv_decimal = mv_decimal m,
      mv_precision = mv_precision m, mv_terms = mv_terms m\<rparr>"
    using assms by (simp add: money_value.equality)
  then show ?thesis
    using assms
    by (auto simp: validateMoneyValue_def js_get_def rbind_Inr_iff canonicalDecimal_Inr checkedTerms_Inr money_wf_def Let_def
        split: if_splits)
qed

lemma validate_iff: "validateMoneyValue (js_of_money m) = Inr m' \<longleftrightarrow> m' = m \<and> money_wf m"
  by (cases "mv_exact m") (blast dest: validate_exact_iff validate_bounded_iff)+


subsection \<open>Exact values\<close>

lemma exactValue_spec:
  assumes "exactValue q n = Inr m"
  shows "rational_ok q" "mv_exact m = Some q" "mv_terms m = n"
    "canonical_signed (mv_lower m)" "signed_ok (mv_lower m)" "canonical_signed (mv_upper m)" "signed_ok (mv_upper m)"
    "sdec_val (mv_lower m) = of_int \<lfloor>10 ^ 18 * rval q\<rfloor> / 10 ^ 18" "sdec_val (mv_upper m) = of_int \<lceil>10 ^ 18 * rval q\<rceil> / 10 ^ 18"
proof -
  obtain b where b: "rationalDecimalBounds q 18 = Inr b"
    using assms by (auto simp: exactValue_def rbind_Inr_iff)
  have "mv_lower m = lower_bound b" "mv_upper m = upper_bound b" "mv_exact m = Some q" "mv_terms m = n"
    using assms b by (auto simp: exactValue_def)
  with bounds_Inr [OF b]
  show "rational_ok q" "mv_exact m = Some q" "mv_terms m = n"
    "canonical_signed (mv_lower m)" "signed_ok (mv_lower m)" "canonical_signed (mv_upper m)" "signed_ok (mv_upper m)"
    "sdec_val (mv_lower m) = of_int \<lfloor>10 ^ 18 * rval q\<rfloor> / 10 ^ 18" "sdec_val (mv_upper m) = of_int \<lceil>10 ^ 18 * rval q\<rceil> / 10 ^ 18"
    by simp_all
qed

lemma reduced_rat_rep: "rational q = Inr q \<Longrightarrow> rational_ok q \<and> q = rat_rep (rval q)"
  by (auto simp: rational_law return_rat_def split: if_splits)

lemma rat_rep_reduced: "rat_fits x \<Longrightarrow> rational (rat_rep x) = Inr (rat_rep x)"
  by (simp add: rational_law rat_rep_ok return_rat_def)

lemma numerator_zero: "numerator (rat_rep x) = ''0'' \<longleftrightarrow> x = 0"
proof
  assume "numerator (rat_rep x) = ''0''"
  then have "fst (quotient_of x) = 0"
    using bigint_of_show [of "fst (quotient_of x)"] by (simp add: rat_rep_def bigint_of_def digits_val_Cons)
  then show "x = 0" using quotient_of_div [of x] by (cases "quotient_of x") simp
qed (simp add: rat_rep_def show_int_def)

lemma exact_enclosed:
  assumes "money_wf m" "money_contains m x"
  shows "sdec_val (mv_lower m) \<le> x" "x \<le> sdec_val (mv_upper m)"
proof -
  have "sdec_val (mv_lower m) \<le> x \<and> x \<le> sdec_val (mv_upper m)"
  proof (cases "mv_exact m")
    case None
    with assms show ?thesis by (simp add: money_contains_def)
  next
    case (Some q)
    with assms have e: "exactValue q (mv_terms m) = Inr m" "x = rval q" by (auto simp: money_wf_def money_contains_def)
    define y where "y = 10 ^ 18 * x"
    have x: "x = y / 10 ^ 18" by (simp add: y_def)
    have "of_int \<lfloor>y\<rfloor> \<le> y" "y \<le> of_int \<lceil>y\<rceil>" by linarith+
    then have "of_int \<lfloor>y\<rfloor> / 10 ^ 18 \<le> x" "x \<le> of_int \<lceil>y\<rceil> / 10 ^ 18"
      unfolding x by (intro divide_right_mono; simp)+
    then show ?thesis
      using exactValue_spec(8,9) [OF e(1)] by (simp only: e(2) y_def)
  qed
  then show "sdec_val (mv_lower m) \<le> x" "x \<le> sdec_val (mv_upper m)" by auto
qed

lemma exact_value_wf:
  assumes "exactValue (rat_rep x) n = Inr m" "0 \<le> n" "is_safe_integer n" "n = 0 \<Longrightarrow> x = 0"
  shows "money_wf m" "mv_exact m = Some (rat_rep x)" "mv_terms m = n"
proof -
  note e = exactValue_spec [OF assms(1)]
  have "rat_fits x" using e(1) by (simp add: rat_rep_ok)
  then have "rational (rat_rep x) = Inr (rat_rep x)" by (rule rat_rep_reduced)
  with e assms show "money_wf m" "mv_exact m = Some (rat_rep x)" "mv_terms m = n"
    by (simp_all add: money_wf_def numerator_zero)
qed


subsection \<open>Units of the last place\<close>

lemma digits_val_pad_end:
  "length f \<le> k \<Longrightarrow> digits_val (i @ pad_end f k (CHR ''0'')) = digits_val (i @ f) * 10 ^ (k - length f)"
  using digits_val_append [of "i @ f" "replicate (k - length f) (CHR ''0'')"] by (simp add: pad_end_def)

lemma signed_split:
  assumes "signed_ok t"
  obtains i f where "all_digits i" "all_digits f" "length f \<le> 18" "i \<noteq> []"
    "split_point t = ((if starts_neg t then CHR ''-'' # i else i), f)" "magnitude_of t = join_point i f"
proof -
  obtain i f where m: "magnitude_of t = join_point i f" "all_digits i" "all_digits f" "length f \<le> 18" "i \<noteq> []"
    using assms unfolding signed_ok_def by (blast elim: dec_ok_cases)
  have "split_point t = ((if starts_neg t then CHR ''-'' # i else i), f)"
  proof (cases "starts_neg t")
    case True
    then have "t = (CHR ''-'' # i) @ (if f \<noteq> [] then CHR ''.'' # f else [])"
      using m(1) by (auto simp: join_point_def elim: starts_negE)
    with True m no_point_in_digits show ?thesis by (cases "f = []") (simp_all del: append_Cons)
  qed (use m in simp)
  with m show ?thesis using that by blast
qed

lemma decimalUnits_law:
  assumes "signed_ok t"
  shows "(of_int (decimalUnits t) :: rat) = 10 ^ 18 * sdec_val t"
proof -
  obtain i f where p: "all_digits i" "all_digits f" "length f \<le> 18" "i \<noteq> []"
    "split_point t = ((if starts_neg t then CHR ''-'' # i else i), f)" "magnitude_of t = join_point i f"
    using assms by (rule signed_split)
  define v where "v = digits_val (i @ pad_end f 18 (CHR ''0''))"
  have v: "v = digits_val (i @ f) * 10 ^ (18 - length f)"
    unfolding v_def by (rule digits_val_pad_end [OF p(3)])
  have "all_digits (i @ pad_end f 18 (CHR ''0''))" using p by (simp add: pad_end_def)
  then have du: "decimalUnits t = (if starts_neg t then - v else v)"
    using p by (simp add: decimalUnits_def v_def bigint_of_digits)
  have "(of_int v :: rat) = 10 ^ 18 * (of_int (digits_val (i @ f)) / 10 ^ length f)"
    by (subst pow10_split [OF p(3)]) (simp add: v)
  then show ?thesis
    using p du by (simp add: sdec_val_def)
qed

lemma decimalUnits_le_iff:
  assumes "signed_ok a" "signed_ok b"
  shows "decimalUnits b - decimalUnits a \<le> n \<longleftrightarrow> sdec_val b - sdec_val a \<le> of_int n / 10 ^ 18"
    and "decimalUnits a < decimalUnits b \<longleftrightarrow> sdec_val a < sdec_val b"
proof -
  have "decimalUnits b - decimalUnits a \<le> n \<longleftrightarrow> (of_int (decimalUnits b) - of_int (decimalUnits a) :: rat) \<le> of_int n"
    by (metis of_int_diff of_int_le_iff)
  then show "decimalUnits b - decimalUnits a \<le> n \<longleftrightarrow> sdec_val b - sdec_val a \<le> of_int n / 10 ^ 18"
    unfolding decimalUnits_law [OF assms(1)] decimalUnits_law [OF assms(2)] by (simp add: pos_le_divide_eq algebra_simps)
  have "decimalUnits a < decimalUnits b \<longleftrightarrow> (of_int (decimalUnits a) :: rat) < of_int (decimalUnits b)" by simp
  then show "decimalUnits a < decimalUnits b \<longleftrightarrow> sdec_val a < sdec_val b"
    unfolding decimalUnits_law [OF assms(1)] decimalUnits_law [OF assms(2)] by simp
qed


lemma exact_units:
  assumes "exactValue q n = Inr m"
  shows "decimalUnits (mv_lower m) = \<lfloor>10 ^ 18 * rval q\<rfloor>" "decimalUnits (mv_upper m) = \<lceil>10 ^ 18 * rval q\<rceil>"
proof -
  define p18 :: rat where "p18 = 10 ^ 18"
  have p: "p18 \<noteq> 0" by (simp add: p18_def)
  note e = exactValue_spec [OF assms, folded p18_def]
  have "(of_int (decimalUnits (mv_lower m)) :: rat) = of_int \<lfloor>p18 * rval q\<rfloor>"
    using decimalUnits_law [OF e(5), folded p18_def] e(8) p by simp
  then show "decimalUnits (mv_lower m) = \<lfloor>10 ^ 18 * rval q\<rfloor>" unfolding p18_def of_int_eq_iff .
  have "(of_int (decimalUnits (mv_upper m)) :: rat) = of_int \<lceil>p18 * rval q\<rceil>"
    using decimalUnits_law [OF e(7), folded p18_def] e(9) p by simp
  then show "decimalUnits (mv_upper m) = \<lceil>10 ^ 18 * rval q\<rceil>" unfolding p18_def of_int_eq_iff .
qed

text \<open>A money value is at most one unit of the eighteenth place wide per term it sums up.\<close>

lemma money_width:
  assumes "money_wf m"
  shows "decimalUnits (mv_lower m) \<le> decimalUnits (mv_upper m)"
    "decimalUnits (mv_upper m) - decimalUnits (mv_lower m) \<le> mv_terms m"
    "decimalUnits (mv_lower m) = decimalUnits (mv_upper m) \<Longrightarrow> \<exists>q. mv_exact m = Some q \<and> on_grid 18 (rval q)"
proof -
  have "decimalUnits (mv_lower m) \<le> decimalUnits (mv_upper m) \<and>
    decimalUnits (mv_upper m) - decimalUnits (mv_lower m) \<le> mv_terms m \<and>
    (decimalUnits (mv_lower m) = decimalUnits (mv_upper m) \<longrightarrow> (\<exists>q. mv_exact m = Some q \<and> on_grid 18 (rval q)))"
  proof (cases "mv_exact m")
    case None
    with assms show ?thesis by (simp add: money_wf_def)
  next
    case (Some q)
    then have q: "rational q = Inr q" "exactValue q (mv_terms m) = Inr m" "mv_terms m = 0 \<Longrightarrow> numerator q = ''0''" "0 \<le> mv_terms m"
      using assms by (auto simp: money_wf_def)
    define y where "y = 10 ^ 18 * rval q"
    note u = exact_units [OF q(2), folded y_def]
    have c: "\<lfloor>y\<rfloor> \<le> \<lceil>y\<rceil>" "\<lceil>y\<rceil> - \<lfloor>y\<rfloor> \<le> 1" by linarith+
    have "\<lfloor>y\<rfloor> = \<lceil>y\<rceil> \<Longrightarrow> y \<in> \<int>"
      by (metis Ints_of_int of_int_floor_le le_of_int_ceiling order_antisym)
    moreover have "mv_terms m = 0 \<Longrightarrow> y = 0"
      using reduced_rat_rep [OF q(1)] numerator_zero [of "rval q"] q(3) by (simp add: y_def)
    ultimately show ?thesis
      using Some c q(4) unfolding u on_grid_def y_def by (cases "mv_terms m = 0") auto
  qed
  then show "decimalUnits (mv_lower m) \<le> decimalUnits (mv_upper m)"
    "decimalUnits (mv_upper m) - decimalUnits (mv_lower m) \<le> mv_terms m"
    "decimalUnits (mv_lower m) = decimalUnits (mv_upper m) \<Longrightarrow> \<exists>q. mv_exact m = Some q \<and> on_grid 18 (rval q)"
    by auto
qed


section \<open>Addition and negation\<close>

text \<open>The size test of the source foresees exactly when the exact sum has no bounded fraction.\<close>

lemma exceeds_iff:
  assumes "rational_ok a" "rational_ok b"
  shows "exceedsRationalLimit a b \<longleftrightarrow> \<not> rat_fits (rval a + rval b)"
proof -
  define an ad bn bd where "an = bigint_of (numerator a)" and "ad = bigint_of (denominator a)"
    and "bn = bigint_of (numerator b)" and "bd = bigint_of (denominator b)"
  have pos: "0 < ad" "0 < bd" using assms denominator_pos by (simp_all add: ad_def bd_def)
  define g where "g = gcd ad bd"
  have g: "0 < g" using pos by (simp add: g_def)
  obtain m k where mk: "ad = g * m" "bd = g * k"
    unfolding g_def by (metis dvdE gcd_dvd1 gcd_dvd2)
  have mkpos: "0 < m" "0 < k" using mk g pos by (auto simp: zero_less_mult_iff)
  have div: "ad sdiv g = m" "bd sdiv g = k" using g mk by (simp_all add: sdiv_exact)
  define n d where "n = an * k + bn * m" and "d = ad * k"
  have d: "0 < d" using pos mkpos by (simp add: d_def)
  have val: "rval a + rval b = Fract n d"
    using g mkpos by (simp add: rval_def an_def [symmetric] ad_def [symmetric] bn_def [symmetric] bd_def [symmetric]
        n_def d_def mk Fract_of_int_quotient field_simps)
  define c where "c = gcd n d"
  have c: "0 < c" "c dvd n" "c dvd d" using d by (simp_all add: c_def)
  have q: "quotient_of (rval a + rval b) = (n div c, d div c)"
    unfolding val quotient_of_Fract using d by (simp add: normalize_def Let_def c_def)
  have abs: "(if n < 0 then - n else n) sdiv c = \<bar>n div c\<bar>"
    using c by (auto simp: sdiv_exact abs_div elim!: dvdE)
  have gcds: "money_gcd ad bd = g" "money_gcd n d = c"
    using pos d by (simp_all add: money_gcd_def g_def c_def gcd_loop_gcd)
  have len: "length (show_int x) > 256 \<longleftrightarrow> \<not> x < digits256" if "0 \<le> x" for x
    using show_nonneg_length_iff [of x 256] that unfolding digits256_def by (auto simp: show_int_def)
  have "exceedsRationalLimit a b \<longleftrightarrow> length (show_int \<bar>n div c\<bar>) > 256 \<or> length (show_int (d div c)) > 256"
    unfolding exceedsRationalLimit_def Let_def an_def [symmetric] ad_def [symmetric] bn_def [symmetric] bd_def [symmetric]
      gcds(1) div n_def [symmetric] d_def [symmetric] gcds(2) abs
    using c by (simp add: sdiv_exact)
  moreover have "0 \<le> d div c" using c d by (simp add: pos_imp_zdiv_nonneg_iff)
  ultimately show ?thesis by (auto simp: len rat_fits_def q)
qed

text \<open>The interval sum, which the code falls back to.\<close>

definition bounded_sum :: "money_value \<Rightarrow> money_value \<Rightarrow> int \<Rightarrow> money_value result" where
  "bounded_sum l r n = rbind (addSignedDecimal (mv_lower l) (mv_lower r)) (\<lambda>lo.
     rbind (addSignedDecimal (mv_upper l) (mv_upper r)) (\<lambda>hi.
       validateMoneyValue (js_of_money \<lparr>mv_lower = lo, mv_upper = hi, mv_exact = None,
         mv_decimal = None, mv_precision = Bounded, mv_terms = n\<rparr>)))"

definition exact_sum :: "money_value \<Rightarrow> money_value \<Rightarrow> rat option" where
  "exact_sum l r = (case (mv_exact l, mv_exact r) of
       (Some a, Some b) \<Rightarrow> if rat_fits (rval a + rval b) then Some (rval a + rval b) else None
     | _ \<Rightarrow> None)"

lemma wf_exact_ok: "money_wf m \<Longrightarrow> mv_exact m = Some q \<Longrightarrow> rational_ok q"
  by (auto simp: money_wf_def dest: reduced_rat_rep)

lemma addMoneyValues_eq:
  assumes "money_wf l" "money_wf r" "is_safe_integer (mv_terms l + mv_terms r)"
  shows "addMoneyValues l r = (case exact_sum l r of
      Some z \<Rightarrow> exactValue (rat_rep z) (mv_terms l + mv_terms r)
    | None \<Rightarrow> bounded_sum l r (mv_terms l + mv_terms r))"
proof -
  define n where "n = mv_terms l + mv_terms r"
  have v: "validateMoneyValue (js_of_money l) = Inr l" "validateMoneyValue (js_of_money r) = Inr r"
    using assms validate_iff by blast+
  have "0 \<le> n" using assms(1,2) by (simp add: money_wf_def n_def)
  then have n: "checkedTerms (JNum (Num (of_int n))) = Inr n" using assms(3) by (simp only: checkedTerms_Inr n_def)
  show ?thesis
    using assms(1,2) wf_exact_ok
    unfolding addMoneyValues_def v rbind.simps n_def [symmetric] n Let_def bounded_sum_def exact_sum_def
    by (auto simp: exceeds_iff add_rational_law return_rat_def split: option.splits)
qed

lemma addMoneyValues_operands:
  assumes "addMoneyValues l r = Inr m"
  shows "money_wf l" "money_wf r" "is_safe_integer (mv_terms l + mv_terms r)"
proof -
  obtain l' r' n where "validateMoneyValue (js_of_money l) = Inr l'" "validateMoneyValue (js_of_money r) = Inr r'"
    "checkedTerms (JNum (Num (of_int (mv_terms l' + mv_terms r')))) = Inr n"
    using assms unfolding addMoneyValues_def rbind_Inr_iff by blast
  then show "money_wf l" "money_wf r" "is_safe_integer (mv_terms l + mv_terms r)"
    by (auto simp only: validate_iff checkedTerms_Inr)
qed

lemma terms_zero: "money_wf m \<Longrightarrow> mv_terms m = 0 \<Longrightarrow> \<exists>q. mv_exact m = Some q \<and> rval q = 0"
  by (cases "mv_exact m") (auto simp: money_wf_def dest!: reduced_rat_rep, metis numerator_zero)

lemma exact_sum_Some: "exact_sum l r = Some z \<Longrightarrow>
  \<exists>a b. mv_exact l = Some a \<and> mv_exact r = Some b \<and> z = rval a + rval b \<and> rat_fits z"
  by (auto simp: exact_sum_def split: option.splits if_splits)

lemma add_money_sound:
  assumes "addMoneyValues l r = Inr m"
  shows "money_wf m" "mv_terms m = mv_terms l + mv_terms r"
    "money_contains l x \<Longrightarrow> money_contains r y \<Longrightarrow> money_contains m (x + y)"
proof -
  note op = addMoneyValues_operands [OF assms]
  note eq = assms [unfolded addMoneyValues_eq [OF op]]
  have "money_wf m \<and> mv_terms m = mv_terms l + mv_terms r \<and>
    (money_contains l x \<longrightarrow> money_contains r y \<longrightarrow> money_contains m (x + y))"
  proof (cases "exact_sum l r")
    case (Some z)
    then obtain a b where ab: "mv_exact l = Some a" "mv_exact r = Some b" "z = rval a + rval b"
      by (auto dest: exact_sum_Some)
    have "mv_terms l + mv_terms r = 0 \<Longrightarrow> mv_terms l = 0 \<and> mv_terms r = 0" "0 \<le> mv_terms l + mv_terms r"
      using op(1,2) by (auto simp: money_wf_def)
    then have zero: "mv_terms l + mv_terms r = 0 \<Longrightarrow> z = 0"
      using terms_zero [OF op(1)] terms_zero [OF op(2)] ab by auto
    have "exactValue (rat_rep z) (mv_terms l + mv_terms r) = Inr m" using eq Some by simp
    from exact_value_wf [OF this _ op(3) zero] \<open>0 \<le> mv_terms l + mv_terms r\<close>
    show ?thesis using ab by (auto simp: money_contains_def)
  next
    case None
    then obtain lo hi where s: "addSignedDecimal (mv_lower l) (mv_lower r) = Inr lo"
        "addSignedDecimal (mv_upper l) (mv_upper r) = Inr hi"
      and m: "money_wf m" "m = \<lparr>mv_lower = lo, mv_upper = hi, mv_exact = None, mv_decimal = None,
        mv_precision = Bounded, mv_terms = mv_terms l + mv_terms r\<rparr>"
      using eq by (auto simp: bounded_sum_def rbind_Inr_iff validate_iff)
    have "signed_ok (mv_lower l)" "signed_ok (mv_lower r)" "signed_ok (mv_upper l)" "signed_ok (mv_upper r)"
      using op by (simp_all add: money_wf_def)
    then have "sdec_val lo = sdec_val (mv_lower l) + sdec_val (mv_lower r)"
      "sdec_val hi = sdec_val (mv_upper l) + sdec_val (mv_upper r)"
      using add_signed_law s by (fastforce simp: returns_signed_def)+
    moreover have "money_contains l x \<Longrightarrow> sdec_val (mv_lower l) \<le> x \<and> x \<le> sdec_val (mv_upper l)"
      "money_contains r y \<Longrightarrow> sdec_val (mv_lower r) \<le> y \<and> y \<le> sdec_val (mv_upper r)"
      using exact_enclosed op by blast+
    ultimately have "money_contains l x \<longrightarrow> money_contains r y \<longrightarrow> sdec_val lo \<le> x + y \<and> x + y \<le> sdec_val hi"
      by (auto intro: add_mono)
    with m show ?thesis by (simp add: money_contains_def)
  qed
  then show "money_wf m" "mv_terms m = mv_terms l + mv_terms r"
    "money_contains l x \<Longrightarrow> money_contains r y \<Longrightarrow> money_contains m (x + y)" by auto
qed

text \<open>When the operands leave the exact branch, their interval is proper and short enough.\<close>

lemma fallback_interval:
  assumes "money_wf l" "money_wf r" "exact_sum l r = None"
  shows "decimalUnits (mv_lower l) + decimalUnits (mv_lower r) < decimalUnits (mv_upper l) + decimalUnits (mv_upper r)"
    "2 \<le> mv_terms l + mv_terms r"
proof -
  note wl = money_width [OF assms(1)] and wr = money_width [OF assms(2)]
  have inexact: "\<not> (\<exists>a b. mv_exact l = Some a \<and> mv_exact r = Some b \<and> rat_fits (rval a + rval b))"
    using assms(3) by (auto simp: exact_sum_def)
  have small: "\<bar>rval q\<bar> \<le> dec_limit" if "money_wf m" "mv_exact m = Some q" for m q
    using exact_enclosed [OF that(1), of "rval q"] that signed_ok_bounds [of "mv_lower m"] signed_ok_bounds [of "mv_upper m"]
    by (auto simp: money_contains_def money_wf_def)
  have lim: "dec_limit + dec_limit < (10 ^ 200 :: rat)" by (simp add: dec_limit_def)
  show "decimalUnits (mv_lower l) + decimalUnits (mv_lower r) < decimalUnits (mv_upper l) + decimalUnits (mv_upper r)"
  proof (rule ccontr)
    assume "\<not> ?thesis"
    then have "decimalUnits (mv_lower l) = decimalUnits (mv_upper l)" "decimalUnits (mv_lower r) = decimalUnits (mv_upper r)"
      using wl(1) wr(1) by linarith+
    with wl(3) wr(3) obtain a b where ab: "mv_exact l = Some a" "mv_exact r = Some b" "on_grid 18 (rval a)" "on_grid 18 (rval b)"
      by blast
    then have "on_grid 18 (rval a + rval b)" by (simp add: on_grid_def distrib_left Ints_add)
    moreover have "\<bar>rval a + rval b\<bar> < 10 ^ 200"
      using small [OF assms(1) ab(1)] small [OF assms(2) ab(2)] lim by linarith
    ultimately show False using grid_fits inexact ab by blast
  qed
  have bounded: "mv_exact m = None \<Longrightarrow> money_wf m \<Longrightarrow> 2 \<le> mv_terms m" "money_wf m \<Longrightarrow> 0 \<le> mv_terms m" for m
    by (auto simp: money_wf_def)
  have "mv_terms l \<noteq> 0 \<and> mv_terms r \<noteq> 0" if "mv_exact l = Some a" "mv_exact r = Some b" for a b
  proof -
    have "rat_fits (rval a)" "rat_fits (rval b)"
      using that assms(1,2) by (auto simp: money_wf_def rational_law return_rat_def split: if_splits)
    then show ?thesis
      using terms_zero [OF assms(1)] terms_zero [OF assms(2)] that inexact by auto
  qed
  then show "2 \<le> mv_terms l + mv_terms r"
    using bounded(1) [of l] bounded(1) [of r] bounded(2) [of l] bounded(2) [of r] assms(1,2)
    by (cases "mv_exact l"; cases "mv_exact r") fastforce+
qed

lemma exactValue_total:
  assumes "rat_fits x" "lo \<le> x" "x \<le> hi" "on_grid 18 lo" "on_grid 18 hi" "\<bar>lo\<bar> < dec_limit" "\<bar>hi\<bar> < dec_limit"
  shows "\<exists>m. exactValue (rat_rep x) n = Inr m"
proof -
  have ok: "rational_ok (rat_rep x)" using assms(1) by (simp add: rat_rep_ok)
  have n18: "nat 18 = 18" by simp
  obtain b where "rationalDecimalBounds (rat_rep x) 18 = Inr b"
    using bounds_law_grid [OF ok, of 18, unfolded n18 rval_rat_rep, OF _ _ grid_between [OF assms(2-7)]]
    by (metis zero_le_numeral order_refl)
  then show ?thesis by (simp add: exactValue_def)
qed

lemma returns_signed_ok:
  assumes "returns_signed (addSignedDecimal a b) z" "signed_ok a" "signed_ok b" "\<bar>z\<bar> < dec_limit"
  obtains s where "addSignedDecimal a b = Inr s" "canonical_signed s" "signed_ok s" "sdec_val s = z"
proof -
  obtain s where s: "addSignedDecimal a b = Inr s" "canonical_signed s" "sdec_val s = z"
    using assms(1) by (auto simp: returns_signed_def)
  have "sdec_val s = sdec_val a + sdec_val b"
    using add_signed_law [OF assms(2,3)] s(1) by (auto simp: returns_signed_def)
  then have "on_grid 18 (sdec_val s)"
    using signed_ok_bounds [OF assms(2)] signed_ok_bounds [OF assms(3)] by (simp add: on_grid_def distrib_left Ints_add)
  then have "signed_ok s" using signed_ok_iff [OF s(2)] s(3) assms(4) by simp
  with s that show ?thesis by blast
qed

lemma units_add:
  assumes "signed_ok a" "signed_ok b" "signed_ok c" "sdec_val c = sdec_val a + sdec_val b"
  shows "decimalUnits c = decimalUnits a + decimalUnits b"
proof -
  have "(of_int (decimalUnits c) :: rat) = of_int (decimalUnits a + decimalUnits b)"
    unfolding of_int_add decimalUnits_law [OF assms(1)] decimalUnits_law [OF assms(2)] decimalUnits_law [OF assms(3)] assms(4)
    by (rule distrib_left)
  then show ?thesis by (simp only: of_int_eq_iff)
qed

lemma add_money_total:
  assumes "money_wf l" "money_wf r" "is_safe_integer (mv_terms l + mv_terms r)"
    and "\<bar>sdec_val (mv_lower l) + sdec_val (mv_lower r)\<bar> < dec_limit"
    and "\<bar>sdec_val (mv_upper l) + sdec_val (mv_upper r)\<bar> < dec_limit"
  shows "\<exists>m. addMoneyValues l r = Inr m"
proof (cases "exact_sum l r")
  case (Some z)
  then obtain a b where ab: "mv_exact l = Some a" "mv_exact r = Some b" "z = rval a + rval b" "rat_fits z"
    by (auto dest: exact_sum_Some)
  have "sdec_val (mv_lower l) \<le> rval a" "rval a \<le> sdec_val (mv_upper l)" "sdec_val (mv_lower r) \<le> rval b" "rval b \<le> sdec_val (mv_upper r)"
    using exact_enclosed [OF assms(1)] exact_enclosed [OF assms(2)] ab by (simp_all add: money_contains_def)
  then have z: "sdec_val (mv_lower l) + sdec_val (mv_lower r) \<le> z" "z \<le> sdec_val (mv_upper l) + sdec_val (mv_upper r)"
    using ab(3) by linarith+
  have "on_grid 18 (sdec_val (mv_lower l) + sdec_val (mv_lower r))" "on_grid 18 (sdec_val (mv_upper l) + sdec_val (mv_upper r))"
    using assms(1,2) signed_ok_bounds by (auto simp: money_wf_def on_grid_def distrib_left Ints_add)
  from exactValue_total [OF ab(4) z this assms(4,5)]
  show ?thesis using Some by (simp add: addMoneyValues_eq [OF assms(1-3)])
next
  case None
  have ok: "signed_ok (mv_lower l)" "signed_ok (mv_lower r)" "signed_ok (mv_upper l)" "signed_ok (mv_upper r)" "0 \<le> mv_terms l" "0 \<le> mv_terms r"
    using assms by (simp_all add: money_wf_def)
  obtain lo where lo: "addSignedDecimal (mv_lower l) (mv_lower r) = Inr lo" "canonical_signed lo" "signed_ok lo"
      "sdec_val lo = sdec_val (mv_lower l) + sdec_val (mv_lower r)"
    using returns_signed_ok [OF add_signed_law [OF ok(1,2)] ok(1,2)] assms(4) by blast
  obtain hi where hi: "addSignedDecimal (mv_upper l) (mv_upper r) = Inr hi" "canonical_signed hi" "signed_ok hi"
      "sdec_val hi = sdec_val (mv_upper l) + sdec_val (mv_upper r)"
    using returns_signed_ok [OF add_signed_law [OF ok(3,4)] ok(3,4)] assms(5) by blast
  have "money_wf \<lparr>mv_lower = lo, mv_upper = hi, mv_exact = None, mv_decimal = None, mv_precision = Bounded,
      mv_terms = mv_terms l + mv_terms r\<rparr>"
    using lo hi ok assms(3) fallback_interval [OF assms(1,2) None] money_width(2) [OF assms(1)] money_width(2) [OF assms(2)]
      units_add [OF ok(1,2) lo(3,4)] units_add [OF ok(3,4) hi(3,4)]
    by (simp add: money_wf_def)
  then show ?thesis
    using None lo(1) hi(1) by (simp add: addMoneyValues_eq [OF assms(1-3)] bounded_sum_def validate_iff)
qed


subsection \<open>Negation\<close>

lemma negate_rat_rep:
  "\<lparr>numerator = show_int (- bigint_of (numerator (rat_rep x))), denominator = denominator (rat_rep x)\<rparr> = rat_rep (- x)"
  by (simp add: rat_rep_def rat_uminus_code bigint_of_show split: prod.splits)

lemma fits_uminus [simp]: "rat_fits (- x) \<longleftrightarrow> rat_fits x"
  by (simp add: rat_fits_def rat_uminus_code split: prod.splits)

lemma units_negate:
  assumes "signed_ok a" "signed_ok c" "sdec_val c = - sdec_val a"
  shows "decimalUnits c = - decimalUnits a"
proof -
  have "(of_int (decimalUnits c) :: rat) = of_int (- decimalUnits a)"
    unfolding of_int_minus decimalUnits_law [OF assms(1)] decimalUnits_law [OF assms(2)] assms(3) by (rule mult_minus_right)
  then show ?thesis by (simp only: of_int_eq_iff)
qed

lemma negate_signed_ok:
  assumes "signed_ok a"
  obtains s where "negateSignedDecimal a = Inr s" "canonical_signed s" "signed_ok s" "sdec_val s = - sdec_val a"
proof -
  obtain s where s: "negateSignedDecimal a = Inr s" "canonical_signed s" "sdec_val s = - sdec_val a"
    using negate_law [OF assms] by (auto simp: returns_signed_def)
  then have "signed_ok s"
    using signed_ok_iff [OF s(2)] signed_ok_bounds [OF assms] by (simp add: on_grid_def)
  with s that show ?thesis by blast
qed

lemma on_grid_uminus [simp]: "on_grid k (- x) \<longleftrightarrow> on_grid k x"
  by (simp add: on_grid_def)

lemma negate_money:
  assumes "money_wf v"
  shows "\<exists>m. negateMoneyValue v = Inr m \<and> money_wf m \<and> mv_terms m = mv_terms v \<and>
    (\<forall>x. money_contains m (- x) \<longleftrightarrow> money_contains v x)"
proof -
  have val: "validateMoneyValue (js_of_money v) = Inr v" using assms validate_iff by blast
  have ok: "signed_ok (mv_lower v)" "signed_ok (mv_upper v)" "0 \<le> mv_terms v" "is_safe_integer (mv_terms v)"
    using assms by (simp_all add: money_wf_def)
  show ?thesis
  proof (cases "mv_exact v")
    case (Some q)
    define x where "x = rval q"
    have "rational q = Inr q" using assms Some by (simp add: money_wf_def)
    then have q: "q = rat_rep x" "rat_fits x"
      unfolding x_def using reduced_rat_rep rat_rep_ok by metis+
    have neg: "negateMoneyValue v = exactValue (rat_rep (- x)) (mv_terms v)"
      using val Some q(1) by (simp add: negateMoneyValue_def negate_rat_rep)
    have "sdec_val (mv_lower v) \<le> x" "x \<le> sdec_val (mv_upper v)"
      using exact_enclosed [OF assms, of x] Some by (simp_all add: money_contains_def x_def)
    then obtain m where m: "exactValue (rat_rep (- x)) (mv_terms v) = Inr m"
      using exactValue_total [of "- x" "- sdec_val (mv_upper v)" "- sdec_val (mv_lower v)"] q(2)
        signed_ok_bounds [OF ok(1)] signed_ok_bounds [OF ok(2)] by auto
    have "mv_terms v = 0 \<Longrightarrow> - x = 0" using terms_zero [OF assms] Some by (auto simp: x_def)
    from exact_value_wf [OF m ok(3,4) this] show ?thesis
      using neg m Some by (simp add: money_contains_def x_def)
  next
    case None
    obtain lo where lo: "negateSignedDecimal (mv_upper v) = Inr lo" "canonical_signed lo" "signed_ok lo" "sdec_val lo = - sdec_val (mv_upper v)"
      using ok(2) by (rule negate_signed_ok)
    obtain hi where hi: "negateSignedDecimal (mv_lower v) = Inr hi" "canonical_signed hi" "signed_ok hi" "sdec_val hi = - sdec_val (mv_lower v)"
      using ok(1) by (rule negate_signed_ok)
    define m where "m = \<lparr>mv_lower = lo, mv_upper = hi, mv_exact = None, mv_decimal = None, mv_precision = Bounded, mv_terms = mv_terms v\<rparr>"
    have "money_wf m"
      using assms None lo hi units_negate [OF ok(2) lo(3,4)] units_negate [OF ok(1) hi(3,4)] by (simp add: money_wf_def m_def)
    moreover from this have "negateMoneyValue v = Inr m"
      unfolding negateMoneyValue_def val using None lo(1) hi(1) by (simp add: validate_iff m_def)
    moreover have "money_contains m (- x) \<longleftrightarrow> money_contains v x" for x
      using None lo(4) hi(4) by (auto simp: m_def money_contains_def)
    ultimately show ?thesis by (auto simp: m_def)
  qed
qed


text \<open>A decimal is an exact value of one term, with itself as decimal alias.\<close>

lemma money_from_decimal:
  assumes "signed_ok s"
  obtains m d where "moneyValueFromDecimal s = Inr m" "money_wf m" "mv_exact m = Some (rat_rep (sdec_val s))" "mv_terms m = 1"
    "mv_decimal m = Some d" "canonical_signed d" "signed_ok d" "sdec_val d = sdec_val s"
proof -
  note r = signed_rational [OF assms] and b = signed_ok_bounds [OF assms]
  have n18: "nat 18 = 18" by simp
  obtain l h where bs: "rationalDecimalBounds (rat_rep (sdec_val s)) 18 = Inr \<lparr>lower_bound = l, upper_bound = h, bounds_exact = on_grid 18 (sdec_val s)\<rparr>"
    "canonical_signed l" "signed_ok l" "sdec_val l = of_int \<lfloor>10 ^ 18 * sdec_val s\<rfloor> / 10 ^ 18"
    using bounds_law_grid [OF r(2), of 18, unfolded n18 rval_rat_rep, OF _ _ grid_between [OF order_refl order_refl]] b
    by (metis order_refl zero_le_numeral)
  have g: "on_grid 18 (sdec_val s)" using b by simp
  then obtain z where "10 ^ 18 * sdec_val s = of_int z" by (auto simp: on_grid_def elim: Ints_cases)
  then have "sdec_val l = sdec_val s" unfolding bs(4) by (simp add: field_simps)
  obtain m where m: "exactValue (rat_rep (sdec_val s)) 1 = Inr m" "mv_decimal m = Some l"
    using bs(1) g by (simp add: exactValue_def)
  have "money_wf m" "mv_exact m = Some (rat_rep (sdec_val s))" "mv_terms m = 1"
    using exact_value_wf [OF m(1)] by (simp_all add: is_safe_integer_def max_safe_integer_def)
  with that [of m l] m bs(2,3) \<open>sdec_val l = sdec_val s\<close> r(1) show thesis by (simp add: moneyValueFromDecimal_def)
qed

lemma money_of_canonical:
  assumes "canonical_signed s" "signed_ok s"
  obtains m where "moneyValueFromDecimal s = Inr m" "money_wf m" "mv_exact m = Some (rat_rep (sdec_val s))" "mv_terms m = 1" "mv_decimal m = Some s"
proof -
  obtain m d where m: "moneyValueFromDecimal s = Inr m" "money_wf m" "mv_exact m = Some (rat_rep (sdec_val s))" "mv_terms m = 1"
    "mv_decimal m = Some d" "canonical_signed d" "signed_ok d" "sdec_val d = sdec_val s" using assms(2) by (rule money_from_decimal)
  then have "d = s" using canonical_signed_inj [of d s] assms by (simp add: signed_ok_def)
  with m that show thesis by blast
qed


section \<open>Properties\<close>

text \<open>
  The validator accepts the serialised form of a money value exactly when the value is well
  formed (canonical bounds in range, a safe nonnegative number of terms, an exact fraction in
  lowest terms with exactly its own outward bounds, decimal and precision tag, or else a proper
  interval of at most one unit of the eighteenth place per term), and what it returns is the value
  that was serialised.
\<close>

theorem money_validation_roundtrip:
  "validateMoneyValue (js_of_money m) = Inr m' \<longleftrightarrow> m' = m \<and> money_wf m"
  by (rule validate_iff)

text \<open>
  A sum of money values is well formed, counts the terms of both operands, and encloses the
  true sum: whatever amounts the operands stand for, the result stands for their sum. In
  particular an exact result is the exact sum, and the fallback to intervals never loses it.
\<close>

theorem money_sum_encloses:
  assumes "addMoneyValues l r = Inr m"
  shows "money_wf m \<and> mv_terms m = mv_terms l + mv_terms r \<and>
    (\<forall>x y. money_contains l x \<longrightarrow> money_contains r y \<longrightarrow>
       money_contains m (x + y) \<and> sdec_val (mv_lower m) \<le> x + y \<and> x + y \<le> sdec_val (mv_upper m))"
  using add_money_sound [OF assms] exact_enclosed [OF add_money_sound(1) [OF assms]] by blast

definition two_bounded :: money_value where
  "two_bounded = \<lparr>mv_lower = ''1'', mv_upper = ''1.000000000000000001'', mv_exact = None, mv_decimal = None,
     mv_precision = Bounded, mv_terms = 2\<rparr>"

theorem money_sum_encloses_witness:
  "\<exists>m. addMoneyValues two_bounded two_bounded = Inr m \<and> mv_terms m = 4 \<and> mv_upper m = ''2.000000000000000002'' \<and> money_wf m"
proof -
  have m: "addMoneyValues two_bounded two_bounded = Inr \<lparr>mv_lower = ''2'', mv_upper = ''2.000000000000000002'',
      mv_exact = None, mv_decimal = None, mv_precision = Bounded, mv_terms = 4\<rparr>"
    by code_simp
  show ?thesis using m money_sum_encloses [OF m] by auto
qed

end
