(* ===== verification/Trading_Types.thy ===== *)
theory Trading_Types
  imports Trading_Money
begin

text \<open>
  The data of the trading components (\<^verbatim>\<open>src/trading_types.ts\<close>): union types as datatypes,
  interfaces as records whose fields keep the source's names behind a short prefix. A field that
  may be absent or null is an option. Decimals are strings, as in the source; leverage, counts and
  times are the integers the program's validators admit.
\<close>

section \<open>Union types\<close>

datatype trading_exchange_mode = Paper | Testnet | Live
datatype trading_side = LONG | SHORT
datatype order_side = Buy | Sell
datatype order_type = Market_order | Limit_order
datatype planned_order_type = Market_planned | Limit_planned | Stop_market
datatype order_role = Entry_role | Take_profit | Stop_loss | Flatten
datatype time_in_force = IOC
datatype range_price = Near | Midpoint | Far
datatype target_allocation_mode = Manual | Adaptive_halving
datatype stop_loss_mode = Configured | Adaptive_targets
datatype daily_loss_limit_mode = Absolute | Equity_percent
datatype position_sizing_mode = Risk_percent | Equity_percent_notional | Equity_percent_margin
datatype requested_source = From_signal | Strategy_default
datatype capped_by = By_strategy | By_market | By_strategy_and_market

datatype trading_intent_status =
    Intent_pending | Intent_planned | Intent_submitting | Intent_monitoring
  | Intent_completed | Intent_blocked | Intent_failed | Intent_unknown


section \<open>Signals and strategies\<close>

record decimal_range =
  range_min :: string
  range_max :: string

datatype signal_entry = Market_entry | Range_entry decimal_range

record executable_signal =
  sig_schema :: string
  sig_action :: trading_side
  sig_symbol :: string
  sig_entry :: signal_entry
  sig_targets :: "decimal_range list"
  sig_stopLoss :: string
  sig_suggestedLeverage :: "int option"
  sig_suggestedRiskPercent :: "string option"
  sig_averagingPrice :: "string option"

record strategy_entry =
  se_orderType :: order_type
  se_rangePrice :: range_price
  se_postOnly :: bool
  se_timeoutSeconds :: int

record strategy_sizing =
  sz_positionSizingMode :: "position_sizing_mode option"
  sz_riskPerTradePercent :: string
  sz_maxAdaptiveRiskPercent :: "string option"
  sz_maxPositionNotional :: string
  sz_defaultLeverage :: "int option"
  sz_maxLeverage :: int

record strategy_exits =
  ex_targetAllocationMode :: "target_allocation_mode option"
  ex_targetAllocationsPercent :: "string list"
  ex_stopLossMode :: "stop_loss_mode option"
  ex_moveStopToBreakEvenAfterTarget :: "int option"
  ex_trailingStopPercent :: "string option"

record strategy_safety =
  sf_maxConcurrentPositions :: "int option"
  sf_maxDailyLossMode :: "daily_loss_limit_mode option"
  sf_maxDailyLoss :: string
  sf_maxSlippagePercent :: string
  sf_entryOrderTtlSeconds :: int

text \<open>The two fields of the source whose type is the constant \<^verbatim>\<open>true\<close> carry no information.\<close>

record strategy_configuration =
  st_schemaVersion :: int
  st_allowedSignalSchemas :: "string list"
  st_allowedSymbols :: "string list"
  st_allowedSides :: "trading_side list"
  st_entry :: strategy_entry
  st_sizing :: strategy_sizing
  st_exits :: strategy_exits
  st_safety :: strategy_safety


section \<open>Account and market snapshots\<close>

record fill_accounting =
  fa_source :: string
  fa_providerSymbol :: string
  fa_settlementAsset :: string

record leverage_tier =
  lt_lowerBound :: string
  lt_upperBound :: "string option"
  lt_maxLeverage :: int

record tier_scope =
  ts_complete :: bool
  ts_positionQuantity :: string
  ts_openOrderCount :: int

record tier_evidence =
  te_version :: int
  te_exchange :: string
  te_symbol :: string
  te_providerSymbol :: string
  te_accountFingerprint :: string
  te_credentialGeneration :: string
  te_ccxtVersion :: string
  te_profileHash :: string
  te_source :: string
  te_currency :: string
  te_contractSize :: string
  te_markPrice :: string
  te_observedAt :: int
  te_expiresAt :: int
  te_scope :: tier_scope
  te_tiers :: "leverage_tier list"

record tier_decision =
  td_version :: int
  td_evidenceHash :: string
  td_providerSymbol :: string
  td_contractSize :: string
  td_tierIndex :: int
  td_quantity :: string
  td_leverage :: int
  td_maximumNotional :: "string option"
  td_maximumNotionalCurrency :: "string option"
  td_maximumNotionalValue :: "money_value option"

text \<open>The funding evidence and other parts of the accounting evidence no component below reads are opaque.\<close>

record accounting_evidence =
  ae_accountFingerprint :: string
  ae_reportingCurrency :: string
  ae_settlementAssets :: "string list"
  ae_source :: string
  ae_observedAt :: int
  ae_unrealizedPnlSemantics :: string
  ae_funding :: js

record account_snapshot =
  as_equity :: string
  as_availableBalance :: string
  as_unrealizedPnl :: string
  as_marginUsed :: string
  as_fundingPnlToday :: "string option"
  as_fundingPnlTodayValue :: "money_value option"
  as_accounting :: "accounting_evidence option"

record market_snapshot =
  ms_symbol :: string
  ms_markPrice :: string
  ms_priceTick :: string
  ms_quantityStep :: string
  ms_minimumQuantity :: string
  ms_minimumNotional :: string
  ms_maxLeverage :: int
  ms_observedAt :: int
  ms_accounting :: "fill_accounting option"
  ms_leverageTiers :: "tier_evidence option"


section \<open>Conversions between reporting and settlement currency\<close>

record fx_conversion =
  fx_version :: int
  fx_valuationBasis :: string
  fx_policy :: string
  fx_mode :: string
  fx_profileHash :: string
  fx_baseAsset :: string
  fx_quoteAsset :: string
  fx_at :: int
  fx_earliestAt :: int
  fx_latestAt :: int
  fx_expiresAt :: int
  fx_rate :: exact_rational
  fx_receiptHashes :: "string list"
  fx_evidenceHash :: string

record stored_fx_conversion =
  sfx_id :: string
  sfx_conversion :: fx_conversion

record fx_sizing_context =
  fxc_version :: int
  fxc_conversionId :: string
  fxc_conversion :: fx_conversion
  fxc_reportingCurrency :: string
  fxc_notionalCurrency :: string
  fxc_strategyMaximumNotionalCurrency :: string
  fxc_riskAmountCurrency :: string


section \<open>Plans\<close>

record planned_order =
  po_clientOrderId :: string
  po_role :: order_role
  po_side :: order_side
  po_orderType :: planned_order_type
  po_timeInForce :: "time_in_force option"
  po_quantity :: string
  po_price :: "string option"
  po_triggerPrice :: "string option"
  po_reduceOnly :: bool
  po_postOnly :: bool
  po_targetIndex :: "int option"

record entry_price_boundary =
  eb_version :: int
  eb_referencePrice :: string
  eb_maxSlippagePercent :: string
  eb_priceTick :: string
  eb_limitPrice :: string

record leverage_decision =
  ld_requested :: int
  ld_requestedSource :: requested_source
  ld_strategyMaximum :: int
  ld_marketMaximum :: int
  ld_effective :: int
  ld_cappedBy :: "capped_by option"

record trading_plan =
  tp_version :: int
  tp_symbol :: string
  tp_side :: trading_side
  tp_entryPrice :: string
  tp_entryPriceBoundary :: "entry_price_boundary option"
  tp_stopPrice :: string
  tp_quantity :: string
  tp_notional :: string
  tp_riskAmount :: string
  tp_fxSizing :: "fx_sizing_context option"
  tp_leverage :: int
  tp_leverageDecision :: "leverage_decision option"
  tp_leverageTierDecision :: "tier_decision option"
  tp_entryTimeoutSeconds :: int
  tp_entryOrderTtlSeconds :: int
  tp_entryExpiresAt :: "int option"
  tp_maxSlippagePercent :: string
  tp_quantityStep :: string
  tp_targetAllocationMode :: target_allocation_mode
  tp_targetAllocationsPercent :: "string list"
  tp_stopLossMode :: stop_loss_mode
  tp_orders :: "planned_order list"
  tp_createdAt :: int


section \<open>Accounts and exchange orders\<close>

datatype account_status = Unverified | Ready | Disabled | Errored | Degraded

datatype exchange_order_status =
    Status_open | Status_partially_filled | Status_filled | Status_cancelled | Status_rejected | Status_unknown

text \<open>Exchanges are the identifiers of a catalogue and stay strings.\<close>

record trading_account =
  ta_id :: string
  ta_name :: string
  ta_exchange :: string
  ta_mode :: trading_exchange_mode
  ta_status :: account_status
  ta_enabled :: bool
  ta_credentialRef :: "string option"
  ta_externalAccountId :: "string option"
  ta_credentialGeneration :: "string option"
  ta_maxConcurrentPositions :: int
  ta_killSwitchActive :: bool
  ta_killSwitchReason :: "string option"
  ta_capabilities :: "js option"
  ta_lastVerifiedAt :: "int option"
  ta_lastReconciledAt :: "int option"
  ta_lastError :: "string option"
  ta_createdAt :: int
  ta_updatedAt :: int

text \<open>The fields a request inherits are the planned order in its first field.\<close>

record exchange_order_request =
  rq_order :: planned_order
  rq_entryExpiresAt :: "int option"
  rq_entryPriceBoundary :: "entry_price_boundary option"
  rq_leverageTierDecision :: "tier_decision option"
  rq_accountId :: string
  rq_symbol :: string
  rq_leverage :: int
  rq_timeoutSeconds :: int

record exchange_order_result =
  xr_clientOrderId :: string
  xr_exchangeOrderId :: string
  xr_providerSymbol :: "string option"
  xr_status :: exchange_order_status
  xr_filledQuantity :: string
  xr_averagePrice :: "string option"
  xr_error :: "string option"
  xr_raw :: js

text \<open>A snapshot may lack a client identifier, a market and the executed quantity; the evidence of its identity is left out.\<close>

record exchange_order_snapshot =
  xo_clientOrderId :: "string option"
  xo_exchangeOrderId :: string
  xo_providerSymbol :: "string option"
  xo_providerTimestamp :: "int option"
  xo_status :: exchange_order_status
  xo_filledQuantity :: "string option"
  xo_averagePrice :: "string option"
  xo_error :: "string option"
  xo_raw :: js
  xo_symbol :: string
  xo_role :: order_role
  xo_side :: order_side
  xo_quantity :: string
  xo_price :: "string option"
  xo_triggerPrice :: "string option"
  xo_reduceOnly :: bool

record exchange_position_snapshot =
  xp_symbol :: string
  xp_providerSymbol :: "string option"
  xp_side :: trading_side
  xp_quantity :: string
  xp_averageEntryPrice :: string
  xp_unrealizedPnl :: "string option"
  xp_markPrice :: "string option"
  xp_accounting :: "fill_accounting option"

text \<open>The identity and the normalisation of a fill stay untyped until they are validated.\<close>

record exchange_fill =
  xf_identity :: js
  xf_quantityNormalization :: js
  xf_exchangeFillId :: string
  xf_clientOrderId :: "string option"
  xf_exchangeOrderId :: string
  xf_symbol :: "string option"
  xf_providerSymbol :: "string option"
  xf_price :: string
  xf_quantity :: string
  xf_fee :: string
  xf_feeAsset :: "string option"
  xf_filledAt :: int
  xf_accounting :: "fill_accounting option"
  xf_raw :: js


section \<open>Acquisitions\<close>

record history_coverage =
  hc_profile :: string
  hc_since :: int
  hc_through :: int

record retention_anchor =
  ra_coin :: string
  ra_tid :: string
  ra_time :: int
  ra_payloadHash :: string

record history_retention =
  hr_phase :: string
  hr_originalSince :: int
  hr_originalUntil :: int
  hr_startedAt :: int
  hr_fixedUntil :: "int option"
  hr_cursor :: int
  hr_count :: int
  hr_anchor :: "retention_anchor option"
  hr_validatedAt :: "int option"

text \<open>The account identity of a checkpoint may be absent or null, which the contract tells apart.\<close>

record history_checkpoint =
  hk_providerAccountUid :: "string option option"
  hk_coverage :: "history_coverage option"
  hk_retention :: "history_retention option"
  hk_source :: string
  hk_providerSymbol :: "string option"
  hk_revision :: int
  hk_baselineSince :: int
  hk_windowSince :: int
  hk_windowUntil :: "int option"
  hk_cursor :: "string option"
  hk_scannedThrough :: "int option"
  hk_nextReadAt :: int
  hk_completeness :: string
  hk_reason :: "string option"

record history_progress =
  hp_baseRevision :: int
  hp_checkpoint :: history_checkpoint
  hp_pages :: int

record source_evidence =
  se_source :: string
  se_startedAt :: int
  se_completedAt :: int
  se_completeness :: string
  se_reason :: "string option"
  se_since :: "int option"

text \<open>
  Of an acquisition its window, its sources, the orders that were looked up and the history that was read; the parts that belong
  to the recovery schedule are untyped data there.
\<close>

record acquisition_evidence =
  aq_version :: int
  aq_startedAt :: int
  aq_completedAt :: int
  aq_sources :: "source_evidence list"
  aq_checkedOrders :: "(string \<times> string) list"
  aq_history :: "history_progress list"

record exchange_open_state =
  xs_orders :: "exchange_order_snapshot list"
  xs_positions :: "exchange_position_snapshot list"
  xs_fills :: "exchange_fill list"
  xs_observedAt :: int
  xs_acquisition :: "acquisition_evidence option"

end
