(* ===== verification/Trading_State_Transitions.thy ===== *)
theory Trading_State_Transitions
  imports Trading_Types Contracts
begin

text \<open>
  The lifecycle of trade intents and the merging of order evidence
  (\<^verbatim>\<open>src/trading_state_transitions.ts\<close>): which status an intent may take next, and how a local
  order absorbs a provider's report without ever losing executed quantity or leaving a settled
  state.
\<close>

section \<open>The code\<close>

subsection \<open>Intents\<close>

definition intent_transitions :: "(string \<times> string list) list" where
  "intent_transitions =
    [(''pending'', [''planned'', ''blocked'', ''failed'', ''unknown'']),
     (''planned'', [''submitting'', ''blocked'', ''failed'', ''unknown'']),
     (''submitting'', [''monitoring'', ''completed'', ''blocked'', ''failed'', ''unknown'']),
     (''monitoring'', [''completed'', ''blocked'', ''failed'', ''unknown'']),
     (''unknown'', [''monitoring'', ''completed'', ''blocked'', ''failed'']),
     (''completed'', []),
     (''blocked'', []),
     (''failed'', [])]"

definition canTransitionIntent :: "string \<Rightarrow> string \<Rightarrow> bool" where
  "canTransitionIntent current nxt =
     (case (map_of intent_transitions current, map_of intent_transitions nxt) of
        (Some successors, Some _) \<Rightarrow> current = nxt \<or> nxt \<in> set successors
      | _ \<Rightarrow> False)"

subsection \<open>Order evidence\<close>

datatype local_order_status =
    Created | Submitting | Open | Partially_filled | Cancel_pending
  | Filled | Cancelled | Rejected | Unknown

definition order_statuses :: "(string \<times> local_order_status) list" where
  "order_statuses =
    [(''created'', Created), (''submitting'', Submitting), (''open'', Open), (''partially_filled'', Partially_filled),
     (''cancel_pending'', Cancel_pending), (''filled'', Filled), (''cancelled'', Cancelled), (''rejected'', Rejected),
     (''unknown'', Unknown)]"

text \<open>Statuses arrive as strings and are narrowed by \<open>validStatus\<close>.\<close>

record order_evidence =
  oe_status :: string
  oe_filledQuantity :: "string option"
  oe_averagePrice :: "string option"

record local_order_evidence =
  loe_status :: string
  loe_quantity :: string
  loe_filledQuantity :: string
  loe_averagePrice :: "string option"

record merged_evidence =
  me_status :: local_order_status
  me_filledQuantity :: string
  me_averagePrice :: "string option"

definition validStatus :: "string \<Rightarrow> local_order_status result" where
  "validStatus value = (case map_of order_statuses value of
       None \<Rightarrow> Inl (Error ''Invalid order evidence status.'')
     | Some s \<Rightarrow> Inr s)"

definition rejectedWithExecution :: "local_order_status \<Rightarrow> local_order_status \<Rightarrow> string \<Rightarrow> bool result" where
  "rejectedWithExecution current incoming filled =
     (if current = Rejected \<or> incoming = Rejected
      then rbind (compareDecimal filled ''0'') (\<lambda>c. Inr (c > 0))
      else Inr False)"

definition settledThenCurrent :: "local_order_status \<Rightarrow> local_order_status option" where
  "settledThenCurrent current = (if current \<in> {Filled, Rejected} then Some current else None)"

definition cancelledKeepOrTakeFilled ::
    "local_order_status \<Rightarrow> local_order_status \<Rightarrow> string \<Rightarrow> string \<Rightarrow> local_order_status option result" where
  "cancelledKeepOrTakeFilled current incoming filled quantity =
     (if current \<noteq> Cancelled then Inr None
      else if incoming = Filled
      then rbind (compareDecimal filled quantity) (\<lambda>c. Inr (Some (if c = 0 then Filled else current)))
      else Inr (Some current))"

definition heldTerminalStatus :: "local_order_status \<Rightarrow> local_order_status option" where
  "heldTerminalStatus current = (if current = Cancel_pending then Some current else None)"

definition incomingTerminalStatus :: "local_order_status \<Rightarrow> local_order_status option" where
  "incomingTerminalStatus incoming = (if incoming = Unknown \<or> incoming = Cancel_pending then Some incoming else None)"

definition partialOrOpenFallback ::
    "local_order_status \<Rightarrow> local_order_status \<Rightarrow> string \<Rightarrow> local_order_status result" where
  "partialOrOpenFallback current incoming filled =
     rbind (compareDecimal filled ''0'') (\<lambda>c.
       if c > 0 then Inr Partially_filled
       else if incoming \<in> {Created, Submitting} \<and> current \<noteq> Created then Inr current
       else Inr incoming)"

definition heldOrPartialStatus ::
    "local_order_status \<Rightarrow> local_order_status \<Rightarrow> string \<Rightarrow> local_order_status result" where
  "heldOrPartialStatus current incoming filled =
     (case heldTerminalStatus current of
        Some s \<Rightarrow> Inr s
      | None \<Rightarrow> (case incomingTerminalStatus incoming of
           Some s \<Rightarrow> Inr s
         | None \<Rightarrow> partialOrOpenFallback current incoming filled))"

definition mergedIncomingStatus ::
    "local_order_status \<Rightarrow> local_order_status \<Rightarrow> string \<Rightarrow> local_order_status result" where
  "mergedIncomingStatus current incoming filled =
     (if incoming \<in> {Filled, Cancelled, Rejected} then Inr incoming
      else heldOrPartialStatus current incoming filled)"

definition mergedStatus ::
    "local_order_status \<Rightarrow> local_order_status \<Rightarrow> string \<Rightarrow> string \<Rightarrow> local_order_status result" where
  "mergedStatus current incoming filled quantity =
     rbind (rejectedWithExecution current incoming filled) (\<lambda>conflict.
       if conflict then Inl (Error ''Rejected order has conflicting execution evidence.'')
       else (case settledThenCurrent current of
           Some s \<Rightarrow> Inr s
         | None \<Rightarrow> rbind (cancelledKeepOrTakeFilled current incoming filled quantity) (\<lambda>kept.
             case kept of Some s \<Rightarrow> Inr s | None \<Rightarrow> mergedIncomingStatus current incoming filled)))"

definition selectedFilledQuantity :: "string \<Rightarrow> string \<Rightarrow> string result" where
  "selectedFilledQuantity previous reported =
     rbind (compareDecimal previous reported) (\<lambda>c. Inr (if c \<ge> 0 then previous else reported))"

definition incomingAverageWins :: "string option \<Rightarrow> string \<Rightarrow> string \<Rightarrow> bool result" where
  "incomingAverageWins incomingFilled reported previous = (case incomingFilled of
       None \<Rightarrow> Inr False
     | Some _ \<Rightarrow> rbind (compareDecimal reported previous) (\<lambda>c. Inr (c \<ge> 0)))"

definition optional_positive :: "string option \<Rightarrow> string option result" where
  "optional_positive v = (case v of None \<Rightarrow> Inr None | Some s \<Rightarrow> rbind (decimal_positive s) (\<lambda>d. Inr (Some d)))"

definition selectedAverages ::
    "local_order_evidence \<Rightarrow> order_evidence \<Rightarrow> (string \<times> string \<times> string option \<times> string option) result" where
  "selectedAverages current incoming =
     rbind (decimal (loe_filledQuantity current)) (\<lambda>previous.
     rbind (case oe_filledQuantity incoming of None \<Rightarrow> Inr previous | Some q \<Rightarrow> decimal q) (\<lambda>reported.
     rbind (optional_positive (loe_averagePrice current)) (\<lambda>oldAverage.
     rbind (optional_positive (oe_averagePrice incoming)) (\<lambda>newAverage.
       Inr (previous, reported, oldAverage, newAverage)))))"

definition mergeOrderEvidence :: "local_order_evidence \<Rightarrow> order_evidence \<Rightarrow> merged_evidence result" where
  "mergeOrderEvidence current incoming =
     rbind (validStatus (loe_status current)) (\<lambda>cs.
     rbind (validStatus (oe_status incoming)) (\<lambda>inc.
     rbind (decimal_positive (loe_quantity current)) (\<lambda>quantity.
     rbind (selectedAverages current incoming) (\<lambda>(previous, reported, oldAverage, newAverage).
     rbind (selectedFilledQuantity previous reported) (\<lambda>filled.
     rbind (compareDecimal filled quantity) (\<lambda>c.
       if c > 0 then Inl (Error ''Executed quantity exceeds order quantity.'')
       else rbind (mergedStatus cs inc filled quantity) (\<lambda>s.
         rbind (incomingAverageWins (oe_filledQuantity incoming) reported previous) (\<lambda>wins.
           Inr \<lparr>me_status = s, me_filledQuantity = filled,
                me_averagePrice = (if wins then (case newAverage of None \<Rightarrow> oldAverage | Some p \<Rightarrow> Some p) else oldAverage)\<rparr>))))))))"


section \<open>Intents as a transition system\<close>

inductive intent_reaches :: "string \<Rightarrow> string \<Rightarrow> bool" where
  intent_here: "map_of intent_transitions s \<noteq> None \<Longrightarrow> intent_reaches s s"
| intent_step: "intent_reaches s t \<Longrightarrow> canTransitionIntent t u \<Longrightarrow> intent_reaches s u"

definition intent_rank :: "string \<Rightarrow> nat" where
  "intent_rank s =
     (if s = ''pending'' then 0 else if s = ''planned'' then 1 else if s = ''submitting'' then 2
      else if s \<in> {''monitoring'', ''unknown''} then 3 else 4)"

definition intent_statuses :: "string list" where
  "intent_statuses = map fst intent_transitions"

lemma intent_statuses_iff: "map_of intent_transitions s \<noteq> None \<longleftrightarrow> s \<in> set intent_statuses"
  by (metis dom_map_of_conv_image_fst domIff intent_statuses_def list.set_map)

lemma intent_statuses_simps: "set intent_statuses =
    {''pending'', ''planned'', ''submitting'', ''monitoring'', ''unknown'', ''completed'', ''blocked'', ''failed''}"
  by (simp add: intent_statuses_def intent_transitions_def)

lemma intent_moves:
  assumes "canTransitionIntent s t"
  shows "s = t \<or> intent_rank s < intent_rank t \<or> intent_rank s = 3 \<and> intent_rank t = 3" "t \<in> set intent_statuses" "s \<in> set intent_statuses"
proof -
  have st: "s \<in> set intent_statuses" "t \<in> set intent_statuses"
    using assms intent_statuses_iff by (auto simp: canTransitionIntent_def split: option.splits)
  then show "t \<in> set intent_statuses" "s \<in> set intent_statuses" by auto
  from st(1) show "s = t \<or> intent_rank s < intent_rank t \<or> intent_rank s = 3 \<and> intent_rank t = 3"
    using assms by (auto simp: intent_statuses_simps canTransitionIntent_def intent_transitions_def intent_rank_def split: if_splits)
qed

lemma intent_moves_rank: "canTransitionIntent s t \<Longrightarrow> intent_rank s \<le> intent_rank t"
  using intent_moves(1) by (metis order_refl less_imp_le)

lemma intent_reaches_rank: "intent_reaches s t \<Longrightarrow> intent_rank s \<le> intent_rank t \<and> (intent_rank s = intent_rank t \<longrightarrow> s = t \<or> intent_rank s = 3)"
proof (induction rule: intent_reaches.induct)
  case (intent_step s t u)
  from intent_moves(1) [OF intent_step.hyps(2)] show ?case
    using intent_step.IH by (metis less_imp_le nless_le order_le_less_trans order_refl)
qed simp

lemma intent_early: "intent_rank s < 3 \<longleftrightarrow> s \<in> {''pending'', ''planned'', ''submitting''}"
  by (simp add: intent_rank_def)


section \<open>What a merge returns\<close>

text \<open>The status after a merge as a function of the two statuses and the quantities; no value for a contradiction.\<close>

definition status_after ::
    "local_order_status \<Rightarrow> local_order_status \<Rightarrow> rat \<Rightarrow> rat \<Rightarrow> local_order_status option" where
  "status_after cs inc filled quantity =
     (if (cs = Rejected \<or> inc = Rejected) \<and> filled > 0 then None
      else Some (
        if cs = Filled \<or> cs = Rejected then cs
        else if cs = Cancelled then (if inc = Filled \<and> filled = quantity then Filled else Cancelled)
        else if inc = Filled \<or> inc = Cancelled \<or> inc = Rejected then inc
        else if cs = Cancel_pending \<or> inc = Cancel_pending then Cancel_pending
        else if inc = Unknown then Unknown
        else if filled > 0 then Partially_filled
        else if (inc = Created \<or> inc = Submitting) \<and> cs \<noteq> Created then cs
        else inc))"

lemma mergedStatus_spec:
  assumes "decimal_pattern f" "decimal_pattern q"
  shows "mergedStatus cs inc f q = (case status_after cs inc (dec_val f) (dec_val q) of
      None \<Rightarrow> Inl (Error ''Rejected order has conflicting execution evidence.'') | Some s \<Rightarrow> Inr s)"
proof -
  have c: "compareDecimal f ''0'' = Inr (rat_cmp (dec_val f) 0)" "compareDecimal f q = Inr (rat_cmp (dec_val f) (dec_val q))"
    using compare_law assms zero_valid by (metis, blast)
  show ?thesis
    by (simp add: mergedStatus_def rejectedWithExecution_def settledThenCurrent_def cancelledKeepOrTakeFilled_def
        mergedIncomingStatus_def heldOrPartialStatus_def heldTerminalStatus_def incomingTerminalStatus_def
        partialOrOpenFallback_def c status_after_def)
qed

lemma selectedFilled_spec:
  assumes "decimal_pattern p" "decimal_pattern r"
  shows "selectedFilledQuantity p r = Inr (if dec_val r \<le> dec_val p then p else r)"
  by (simp add: selectedFilledQuantity_def compare_law [OF assms])

lemma optional_positive_valid: "optional_positive v = Inr (Some s) \<Longrightarrow> decimal_pattern s \<and> canonical_decimal s \<and> dec_val s \<noteq> 0"
  unfolding optional_positive_def
  by (auto simp: rbind_Inr_iff decimal_positive_Inr_iff split: option.splits)
    (metis decimal_positive_Inr_iff decimal_positive_def decimal_with_valid)

lemma optional_positive_id: "optional_positive v = Inr w \<Longrightarrow> optional_positive w = Inr w"
proof (cases w)
  case (Some s)
  assume "optional_positive v = Inr w"
  then have "decimal_pattern s \<and> canonical_decimal s \<and> dec_val s \<noteq> 0" using Some optional_positive_valid by blast
  then have "decimal_positive s = Inr s" by (simp add: decimal_positive_Inr_iff)
  then show ?thesis using Some by (simp add: optional_positive_def)
qed (simp add: optional_positive_def)

text \<open>The parts of a merge: both statuses, order quantity, previous and reported execution, both averages.\<close>

definition merge_parts ::
    "local_order_evidence \<Rightarrow> order_evidence \<Rightarrow> local_order_status \<Rightarrow> local_order_status \<Rightarrow> string \<Rightarrow> string \<Rightarrow> string \<Rightarrow>
     string option \<Rightarrow> string option \<Rightarrow> bool" where
  "merge_parts c i cs inc q p r oa na \<longleftrightarrow>
     validStatus (loe_status c) = Inr cs \<and> validStatus (oe_status i) = Inr inc \<and>
     decimal_positive (loe_quantity c) = Inr q \<and> decimal (loe_filledQuantity c) = Inr p \<and>
     (case oe_filledQuantity i of None \<Rightarrow> Inr p | Some v \<Rightarrow> decimal v) = Inr r \<and>
     optional_positive (loe_averagePrice c) = Inr oa \<and> optional_positive (oe_averagePrice i) = Inr na"

definition larger_fill :: "string \<Rightarrow> string \<Rightarrow> string" where
  "larger_fill p r = (if dec_val r \<le> dec_val p then p else r)"

definition average_after :: "order_evidence \<Rightarrow> string \<Rightarrow> string \<Rightarrow> string option \<Rightarrow> string option \<Rightarrow> string option" where
  "average_after i p r oa na =
     (if oe_filledQuantity i \<noteq> None \<and> dec_val p \<le> dec_val r \<and> na \<noteq> None then na else oa)"

lemma merge_parts_valid:
  assumes "merge_parts c i cs inc q p r oa na"
  shows "decimal_pattern q" "decimal_pattern p" "decimal_pattern r" "decimal_pattern (larger_fill p r)"
    "decimal p = Inr p" "decimal r = Inr r" "decimal (larger_fill p r) = Inr (larger_fill p r)"
proof -
  have d: "decimal_positive (loe_quantity c) = Inr q" "decimal (loe_filledQuantity c) = Inr p" "decimal r = Inr r"
    using assms decimal_idempotent by (auto simp: merge_parts_def split: option.splits)
  then show "decimal_pattern q" "decimal_pattern p" "decimal_pattern r" "decimal_pattern (larger_fill p r)"
    "decimal p = Inr p" "decimal r = Inr r" "decimal (larger_fill p r) = Inr (larger_fill p r)"
    using decimal_with_valid decimal_valid decimal_idempotent unfolding decimal_positive_def larger_fill_def by auto
qed

lemma merge_of_parts:
  assumes "merge_parts c i cs inc q p r oa na"
  shows "mergeOrderEvidence c i =
     (if dec_val q < dec_val (larger_fill p r) then Inl (Error ''Executed quantity exceeds order quantity.'')
      else case status_after cs inc (dec_val (larger_fill p r)) (dec_val q) of
          None \<Rightarrow> Inl (Error ''Rejected order has conflicting execution evidence.'')
        | Some s \<Rightarrow> Inr \<lparr>me_status = s, me_filledQuantity = larger_fill p r, me_averagePrice = average_after i p r oa na\<rparr>)"
proof -
  note v = merge_parts_valid [OF assms]
  have "selectedFilledQuantity p r = Inr (larger_fill p r)"
    using selectedFilled_spec [OF v(2,3)] by (simp add: larger_fill_def)
  moreover have "incomingAverageWins (oe_filledQuantity i) r p = Inr (oe_filledQuantity i \<noteq> None \<and> dec_val p \<le> dec_val r)"
    by (simp add: incomingAverageWins_def compare_law v split: option.splits)
  ultimately show ?thesis
    using assms v
    by (simp add: merge_parts_def mergeOrderEvidence_def selectedAverages_def compare_law mergedStatus_spec average_after_def
        split: option.splits)
qed

lemma merge_returns_parts:
  assumes "mergeOrderEvidence c i = Inr m"
  obtains cs inc q p r oa na where "merge_parts c i cs inc q p r oa na"
    "me_filledQuantity m = larger_fill p r" "dec_val (larger_fill p r) \<le> dec_val q"
    "status_after cs inc (dec_val (larger_fill p r)) (dec_val q) = Some (me_status m)"
    "me_averagePrice m = average_after i p r oa na"
proof -
  obtain cs inc q p r oa na where h: "merge_parts c i cs inc q p r oa na"
    using assms unfolding mergeOrderEvidence_def selectedAverages_def merge_parts_def
    by (auto simp: rbind_Inr_iff split: prod.splits)
  with assms that show thesis
    by (auto simp: merge_of_parts [OF h] not_less split: if_splits option.splits)
qed


section \<open>Histories of an order\<close>

text \<open>The order after a report: the merged evidence replaces the old one, a throw leaves it as it was.\<close>

definition status_name :: "local_order_status \<Rightarrow> string" where
  "status_name s = (case find (\<lambda>e. snd e = s) order_statuses of Some e \<Rightarrow> fst e | None \<Rightarrow> [])"

definition absorb :: "local_order_evidence \<Rightarrow> order_evidence \<Rightarrow> local_order_evidence" where
  "absorb c i = (case mergeOrderEvidence c i of
       Inl _ \<Rightarrow> c
     | Inr m \<Rightarrow> c\<lparr>loe_status := status_name (me_status m), loe_filledQuantity := me_filledQuantity m,
                  loe_averagePrice := me_averagePrice m\<rparr>)"

lemma status_roundtrip [simp]: "validStatus (status_name s) = Inr s"
  by (cases s) (simp_all add: status_name_def validStatus_def order_statuses_def)

definition order_ok :: "local_order_evidence \<Rightarrow> bool" where
  "order_ok c \<longleftrightarrow> (\<exists>cs q. validStatus (loe_status c) = Inr cs \<and> decimal_positive (loe_quantity c) = Inr q \<and>
     decimal_pattern (loe_filledQuantity c) \<and> dec_val (loe_filledQuantity c) \<le> dec_val q \<and>
     (cs = Rejected \<longrightarrow> dec_val (loe_filledQuantity c) = 0))"

lemma decimal_keeps_value: "decimal_pattern v \<Longrightarrow> decimal v = Inr t \<Longrightarrow> dec_val t = dec_val v"
  using decimal_law by (fastforce simp: returns_decimal_def)

lemma absorb_ok:
  assumes "order_ok c"
  shows "order_ok (absorb c i)"
proof (cases "mergeOrderEvidence c i")
  case (Inr m)
  obtain cs inc q p r oa na where h: "merge_parts c i cs inc q p r oa na"
    "me_filledQuantity m = larger_fill p r" "dec_val (larger_fill p r) \<le> dec_val q"
    "status_after cs inc (dec_val (larger_fill p r)) (dec_val q) = Some (me_status m)"
    using Inr by (rule merge_returns_parts)
  have "me_status m = Rejected \<Longrightarrow> \<not> 0 < dec_val (larger_fill p r)"
    using h(4) by (auto simp: status_after_def split: if_splits)
  then show ?thesis
    using Inr h merge_parts_valid(4) [OF h(1)] dec_val_nonneg [of "larger_fill p r"]
    by (auto simp: absorb_def order_ok_def merge_parts_def)
qed (use assms in \<open>simp add: absorb_def\<close>)

interpretation order_history: invariant_system absorb order_ok
  by unfold_locales (rule absorb_ok)

text \<open>Later evidence of an order: no execution is lost, the order's size stays, settled states stay settled.\<close>

definition order_progress :: "local_order_evidence \<Rightarrow> local_order_evidence \<Rightarrow> bool" where
  "order_progress a b \<longleftrightarrow>
     loe_quantity b = loe_quantity a \<and> dec_val (loe_filledQuantity a) \<le> dec_val (loe_filledQuantity b) \<and>
     (loe_status a \<in> {''filled'', ''rejected''} \<longrightarrow> loe_status b = loe_status a) \<and>
     (loe_status a = ''cancelled'' \<longrightarrow> loe_status b \<in> {''cancelled'', ''filled''})"

lemma validStatus_inverse: "validStatus s = Inr t \<Longrightarrow> s = status_name t"
  by (auto simp: validStatus_def order_statuses_def status_name_def split: option.splits if_splits)

lemma status_name_simps:
  "status_name s = ''filled'' \<longleftrightarrow> s = Filled" "status_name s = ''rejected'' \<longleftrightarrow> s = Rejected" "status_name s = ''cancelled'' \<longleftrightarrow> s = Cancelled"
  by (cases s; simp add: status_name_def order_statuses_def)+

lemma absorb_progress:
  assumes "order_ok c"
  shows "order_progress c (absorb c i)"
proof (cases "mergeOrderEvidence c i")
  case (Inr m)
  obtain cs inc q p r oa na where h: "merge_parts c i cs inc q p r oa na"
    "me_filledQuantity m = larger_fill p r" "dec_val (larger_fill p r) \<le> dec_val q"
    "status_after cs inc (dec_val (larger_fill p r)) (dec_val q) = Some (me_status m)"
    using Inr by (rule merge_returns_parts)
  have s: "loe_status c = status_name cs" using h(1) validStatus_inverse by (simp add: merge_parts_def)
  have "dec_val p = dec_val (loe_filledQuantity c)"
    using assms h(1) decimal_keeps_value by (auto simp: order_ok_def merge_parts_def)
  then have "dec_val (loe_filledQuantity c) \<le> dec_val (larger_fill p r)" by (auto simp: larger_fill_def)
  moreover have "cs = Filled \<or> cs = Rejected \<Longrightarrow> me_status m = cs" "cs = Cancelled \<Longrightarrow> me_status m = Cancelled \<or> me_status m = Filled"
    using h(4) by (auto simp: status_after_def split: if_splits)
  ultimately show ?thesis
    using Inr h(2) s by (auto simp: absorb_def order_progress_def status_name_simps)
qed (simp add: absorb_def order_progress_def)

lemma order_progress_refl: "order_progress a a" and
  order_progress_trans: "order_progress a b \<Longrightarrow> order_progress b c \<Longrightarrow> order_progress a c"
  by (auto simp: order_progress_def)

lemma merge_idempotent:
  assumes "mergeOrderEvidence c i = Inr m"
  shows "mergeOrderEvidence (absorb c i) i = Inr m"
proof -
  obtain cs inc q p r oa na where h: "merge_parts c i cs inc q p r oa na"
    "me_filledQuantity m = larger_fill p r" "dec_val (larger_fill p r) \<le> dec_val q"
    "status_after cs inc (dec_val (larger_fill p r)) (dec_val q) = Some (me_status m)"
    "me_averagePrice m = average_after i p r oa na"
    using assms by (rule merge_returns_parts)
  define r' where "r' = (if oe_filledQuantity i = None then larger_fill p r else r)"
  define a where "a = average_after i p r oa na"
  have avg: "optional_positive a = Inr a"
    using h(1) optional_positive_id by (auto simp: a_def average_after_def merge_parts_def)
  have parts: "merge_parts (absorb c i) i (me_status m) inc q (larger_fill p r) r' a na"
    using h(1,2,5) assms avg merge_parts_valid(7) [OF h(1)]
    by (auto simp: absorb_def merge_parts_def r'_def a_def split: option.splits)
  have "larger_fill (larger_fill p r) r' = larger_fill p r"
    by (auto simp: larger_fill_def r'_def)
  moreover have "average_after i (larger_fill p r) r' a na = a"
    by (auto simp: average_after_def larger_fill_def r'_def a_def)
  moreover have "status_after (me_status m) inc (dec_val (larger_fill p r)) (dec_val q) = Some (me_status m)"
    using h(4) by (auto simp: status_after_def split: if_splits)
  ultimately show ?thesis
    unfolding merge_of_parts [OF parts] using h(2,3,5) by (simp add: not_less a_def)
qed


section \<open>Properties\<close>

text \<open>
  An intent never goes back. Along any sequence of admitted transitions a completed, blocked
  or failed intent stays as it is, and an intent that has left \<^verbatim>\<open>submitting\<close> never becomes
  pending, planned or submitting again, so no intent is dispatched a second time.
\<close>

theorem intent_lifecycle_forward:
  assumes "intent_reaches s t"
  shows "(s \<in> {''completed'', ''blocked'', ''failed''} \<longrightarrow> t = s) \<and>
    (canTransitionIntent ''submitting'' s \<and> s \<noteq> ''submitting'' \<longrightarrow> t \<notin> {''pending'', ''planned'', ''submitting''})"
proof (intro conjI impI)
  assume "s \<in> {''completed'', ''blocked'', ''failed''}"
  then have "intent_rank s = 4" by (auto simp: intent_rank_def)
  moreover have "intent_rank t \<le> 4" by (simp add: intent_rank_def)
  ultimately show "t = s" using intent_reaches_rank [OF assms] by auto
next
  assume s: "canTransitionIntent ''submitting'' s \<and> s \<noteq> ''submitting''"
  have "intent_rank ''submitting'' = 2" by (simp add: intent_rank_def)
  then have "3 \<le> intent_rank s" using intent_moves(1) [of "''submitting''" s] s by auto
  then have "\<not> intent_rank t < 3" using intent_reaches_rank [OF assms] by simp
  then show "t \<notin> {''pending'', ''planned'', ''submitting''}" unfolding intent_early .
qed

theorem intent_lifecycle_forward_witness:
  "intent_reaches ''monitoring'' ''unknown'' \<and> ''unknown'' \<notin> {''pending'', ''planned'', ''submitting''}"
proof -
  have r: "intent_reaches ''monitoring'' ''unknown''"
    by (rule intent_step [OF intent_here]) code_simp+
  moreover have "canTransitionIntent ''submitting'' ''monitoring''" by code_simp
  ultimately show ?thesis using intent_lifecycle_forward [OF r] by simp
qed

text \<open>
  What one merge does with executed quantity. When it returns, the executed quantity is the
  larger of the recorded and the reported one, is never above the order's quantity, and the
  status is the one the merge table gives; a report above the order's quantity and a rejection
  beside execution are refused.
\<close>

theorem merge_keeps_execution:
  assumes "mergeOrderEvidence c i = Inr m"
  shows "\<exists>cs inc q p r oa na. merge_parts c i cs inc q p r oa na \<and>
    dec_val (me_filledQuantity m) = max (dec_val p) (dec_val r) \<and> dec_val (me_filledQuantity m) \<le> dec_val q \<and>
    status_after cs inc (dec_val (me_filledQuantity m)) (dec_val q) = Some (me_status m) \<and>
    (me_status m = Rejected \<longrightarrow> dec_val (me_filledQuantity m) = 0)"
proof -
  obtain cs inc q p r oa na where h: "merge_parts c i cs inc q p r oa na"
    "me_filledQuantity m = larger_fill p r" "dec_val (larger_fill p r) \<le> dec_val q"
    "status_after cs inc (dec_val (larger_fill p r)) (dec_val q) = Some (me_status m)"
    using assms by (rule merge_returns_parts)
  have "0 \<le> dec_val (larger_fill p r)" using dec_val_nonneg merge_parts_valid(4) [OF h(1)] by blast
  moreover have "me_status m = Rejected \<Longrightarrow> \<not> 0 < dec_val (larger_fill p r)"
    using h(4) by (auto simp: status_after_def split: if_splits)
  ultimately show ?thesis
    using h by (intro exI [of _ cs] exI [of _ inc] exI [of _ q] exI [of _ p] exI [of _ r] exI [of _ oa] exI [of _ na])
      (auto simp: larger_fill_def max_def)
qed

definition sample_order :: local_order_evidence where
  "sample_order = \<lparr>loe_status = ''cancelled'', loe_quantity = ''2'', loe_filledQuantity = ''0.5'', loe_averagePrice = None\<rparr>"

definition sample_report :: order_evidence where
  "sample_report = \<lparr>oe_status = ''filled'', oe_filledQuantity = Some ''2.0'', oe_averagePrice = Some ''10''\<rparr>"

theorem merge_keeps_execution_witness:
  "\<exists>m. mergeOrderEvidence sample_order sample_report = Inr m \<and> me_status m = Filled \<and> dec_val (me_filledQuantity m) = 2 \<and>
    (\<exists>cs inc q p r oa na. merge_parts sample_order sample_report cs inc q p r oa na)"
proof -
  have m: "mergeOrderEvidence sample_order sample_report =
      Inr \<lparr>me_status = Filled, me_filledQuantity = ''2'', me_averagePrice = Some ''10''\<rparr>" by code_simp
  have "dec_val ''2'' = 2" by code_simp
  moreover have "\<exists>cs inc q p r oa na. merge_parts sample_order sample_report cs inc q p r oa na"
    using merge_keeps_execution [OF m] by blast
  ultimately show ?thesis using m by simp
qed

text \<open>
  C16: over a whole history of reports, in any order and with any of them refused, a well-formed
  order stays well formed, its quantity is unchanged, its executed quantity never shrinks, a
  filled or rejected order stays so and a cancelled order can only become filled.
\<close>

theorem order_history_progress:
  assumes "order_ok c"
  shows "order_ok (foldl absorb c reports) \<and> order_progress c (foldl absorb c reports)"
proof
  show "order_ok (foldl absorb c reports)" using assms by (rule order_history.run_inv)
  show "order_progress c (foldl absorb c reports)"
    using assms order_progress_refl order_progress_trans absorb_progress by (rule order_history.run_rel)
qed

theorem order_history_progress_witness:
  "order_ok sample_order \<and> loe_status (foldl absorb sample_order [sample_report, sample_report]) \<in> {''cancelled'', ''filled''}"
proof -
  have v: "decimal_pattern ''0.5''" "validStatus ''cancelled'' = Inr Cancelled" "decimal_positive ''2'' = Inr ''2''"
    "dec_val ''0.5'' \<le> dec_val ''2''" by code_simp+
  then have ok: "order_ok sample_order" by (simp add: order_ok_def sample_order_def)
  have "order_progress sample_order (foldl absorb sample_order [sample_report, sample_report])"
    using order_history_progress [OF ok, of "[sample_report, sample_report]"] by blast
  then show ?thesis using ok by (auto simp: order_progress_def sample_order_def)
qed

end
