(* ===== verification/Trading_Leverage_Tiers.thy ===== *)
theory Trading_Leverage_Tiers
  imports Trading_Types
begin

text \<open>
  Leverage tiers (\<^verbatim>\<open>src/trading_leverage_tiers.ts\<close>): validation of a tier table, the tier a
  quantity falls into, the solver that lowers leverage until the sized position fits its tier, and
  the budget recorded with a plan. The SHA-256 of \<^verbatim>\<open>node:crypto\<close> is a parameter.
\<close>

section \<open>The code\<close>

definition requireTier :: "bool \<Rightarrow> string \<Rightarrow> unit result" where
  "requireTier condition reason = (if \<not> condition then Inl (LeverageTierError reason) else Inr ())"

fun validate_tiers_from :: "nat \<Rightarrow> nat \<Rightarrow> string \<Rightarrow> int \<Rightarrow> leverage_tier list \<Rightarrow> unit result" where
  "validate_tiers_from count index lower previousLeverage [] = Inr ()"
| "validate_tiers_from count index lower previousLeverage (tier # rest) =
     rbind (decimal (lt_lowerBound tier)) (\<lambda>lo.
     rbind (requireTier (lo = lower) ''Leverage tiers are gapped, overlapping or unordered.'') (\<lambda>_.
     rbind (requireTier (is_safe_integer (lt_maxLeverage tier) \<and> lt_maxLeverage tier \<ge> 1 \<and> lt_maxLeverage tier \<le> previousLeverage)
       ''Leverage tier maxima must decrease and must not exceed 50.'') (\<lambda>_.
     rbind (case lt_upperBound tier of
         None \<Rightarrow> requireTier (index + 1 = count) ''Only the final tier can be unlimited.''
       | Some upper \<Rightarrow> rbind (decimal_positive upper) (\<lambda>u. rbind (compareDecimal u lower) (\<lambda>c.
           requireTier (c > 0) ''Invalid leverage tier range.''))) (\<lambda>_.
       validate_tiers_from count (index + 1) (case lt_upperBound tier of None \<Rightarrow> [] | Some u \<Rightarrow> u) (lt_maxLeverage tier) rest))))"

definition validateTierTable :: "leverage_tier list \<Rightarrow> unit result" where
  "validateTierTable tiers =
     rbind (requireTier (length tiers > 0 \<and> length tiers \<le> 500) ''Complete leverage tiers are required.'') (\<lambda>_.
       validate_tiers_from (length tiers) 0 ''0'' 50 tiers)"

definition quantum :: "string \<Rightarrow> int result" where
  "quantum value = rbind (decimal value) (\<lambda>d.
     case split_point d of (whole, tail) \<Rightarrow> Inr (bigint_of (whole @ pad_end tail 18 (CHR ''0''))))"

definition tier_matches :: "int \<Rightarrow> leverage_tier \<Rightarrow> bool result" where
  "tier_matches product tier =
     rbind (quantum (lt_lowerBound tier)) (\<lambda>lo.
       if product \<ge> lo * 10 ^ 18
       then (case lt_upperBound tier of
           None \<Rightarrow> Inr True
         | Some upper \<Rightarrow> rbind (quantum upper) (\<lambda>hi. Inr (product < hi * 10 ^ 18)))
       else Inr False)"

text \<open>\<^verbatim>\<open>Array.prototype.findIndex\<close> with a test that may throw: the first index that passes, or -1.\<close>

fun find_index :: "('a \<Rightarrow> bool result) \<Rightarrow> int \<Rightarrow> 'a list \<Rightarrow> int result" where
  "find_index P k [] = Inr (-1)"
| "find_index P k (x # xs) = rbind (P x) (\<lambda>b. if b then Inr k else find_index P (k + 1) xs)"

definition findTierForQuantity :: "leverage_tier list \<Rightarrow> string \<Rightarrow> string \<Rightarrow> int result" where
  "findTierForQuantity tiers quantity markPrice =
     rbind (rbind (decimal_positive quantity) quantum) (\<lambda>q.
     rbind (rbind (decimal_positive markPrice) quantum) (\<lambda>p.
       find_index (tier_matches (q * p)) 0 tiers))"

definition tierForQuantity :: "leverage_tier list \<Rightarrow> string \<Rightarrow> string \<Rightarrow> int result" where
  "tierForQuantity tiers quantity markPrice =
     rbind (findTierForQuantity tiers quantity markPrice) (\<lambda>index.
     rbind (requireTier (index \<ge> 0) ''Quantized notional is outside the proven leverage tiers.'') (\<lambda>_. Inr index))"

record tier_solution =
  sol_leverage :: int
  sol_quantity :: string
  sol_tierIndex :: int

text \<open>
  The loop of \<open>solveTierQuantity\<close>; its first argument counts the iterations the source's bound
  still allows.
\<close>

fun solve_loop :: "nat \<Rightarrow> leverage_tier list \<Rightarrow> string \<Rightarrow> (int \<Rightarrow> string result) \<Rightarrow> int \<Rightarrow> tier_solution result" where
  "solve_loop 0 tiers markPrice quantityForLeverage leverage =
     Inl (LeverageTierError ''Leverage tier solver exceeded its monotone bound.'')"
| "solve_loop (Suc n) tiers markPrice quantityForLeverage leverage =
     rbind (rbind (quantityForLeverage leverage) decimal_positive) (\<lambda>quantity.
     rbind (findTierForQuantity tiers quantity markPrice) (\<lambda>tierIndex.
       if tiers = [] then Inl (LeverageTierError ''Complete consistent leverage tiers are required.'')
       else let tier = tiers ! (if tierIndex < 0 then length tiers - 1 else nat tierIndex); maximum = lt_maxLeverage tier in
         rbind (requireTier (tierIndex \<ge> 0 \<or> leverage > maximum) ''Quantized notional is outside the proven leverage tiers.'') (\<lambda>_.
           if leverage \<le> maximum then Inr \<lparr>sol_leverage = leverage, sol_quantity = quantity, sol_tierIndex = tierIndex\<rparr>
           else solve_loop n tiers markPrice quantityForLeverage maximum)))"

definition solveTierQuantity :: "tier_evidence \<Rightarrow> int \<Rightarrow> (int \<Rightarrow> string result) \<Rightarrow> tier_solution result" where
  "solveTierQuantity evidence requested quantityForLeverage =
     rbind (validateTierTable (te_tiers evidence)) (\<lambda>_.
     rbind (decimal_positive (te_contractSize evidence)) (\<lambda>_.
     rbind (requireTier (is_safe_integer requested \<and> requested > 0) ''Invalid requested tier leverage.'') (\<lambda>_.
       case te_tiers evidence of
         [] \<Rightarrow> Inl (LeverageTierError ''Complete consistent leverage tiers are required.'')
       | first # _ \<Rightarrow>
           solve_loop (length (te_tiers evidence) + 1) (te_tiers evidence) (te_markPrice evidence) quantityForLeverage
             (min requested (min 50 (lt_maxLeverage first))))))"

definition tierEvidenceHash :: "(string \<Rightarrow> string) \<Rightarrow> tier_evidence \<Rightarrow> string" where
  "tierEvidenceHash sha256 value = sha256 (json_array
     (map json_string [te_exchange value, te_symbol value, te_providerSymbol value, te_accountFingerprint value,
        te_credentialGeneration value, te_ccxtVersion value, te_profileHash value, te_source value, te_currency value,
        te_contractSize value] @
      [json_array (map (\<lambda>tier. json_array [json_string (lt_lowerBound tier),
          (case lt_upperBound tier of None \<Rightarrow> ''null'' | Some u \<Rightarrow> json_string u), show_int (lt_maxLeverage tier)])
        (te_tiers value))]))"

datatype notional_budget = Decimal_budget string | Money_budget money_value

definition exact_positive :: "money_value \<Rightarrow> bool result" where
  "exact_positive amount = (case mv_exact amount of
       None \<Rightarrow> Inr False
     | Some q \<Rightarrow> if mv_terms amount > 0
         then rbind (rationalFromDecimal ''0'') (\<lambda>zero. rbind (compareRational q zero) (\<lambda>c. Inr (c > 0)))
         else Inr False)"

definition tierDecision :: "(string \<Rightarrow> string) \<Rightarrow> tier_evidence \<Rightarrow> tier_solution \<Rightarrow> notional_budget \<Rightarrow> tier_decision result" where
  "tierDecision sha256 value res maximumNotional =
     (let decision = (\<lambda>version notional currency amount.
        \<lparr>td_version = version, td_evidenceHash = tierEvidenceHash sha256 value, td_providerSymbol = te_providerSymbol value,
         td_contractSize = te_contractSize value, td_tierIndex = sol_tierIndex res, td_quantity = sol_quantity res,
         td_leverage = sol_leverage res, td_maximumNotional = notional, td_maximumNotionalCurrency = currency,
         td_maximumNotionalValue = amount\<rparr>)
      in case maximumNotional of
           Money_budget m \<Rightarrow>
             rbind (validateMoneyValue (js_of_money m)) (\<lambda>amount.
             rbind (exact_positive amount) (\<lambda>ok.
             rbind (requireTier ok ''Exact positive notional budget is required.'') (\<lambda>_.
               Inr (decision 2 (mv_decimal amount) (Some (te_currency value)) (Some amount)))))
         | Decimal_budget d \<Rightarrow> Inr (decision 1 (Some d) None None))"

definition higher_price :: "string \<Rightarrow> string \<Rightarrow> string result" where
  "higher_price markPrice entryPrice =
     rbind (compareDecimal markPrice entryPrice) (\<lambda>c. Inr (if c > 0 then markPrice else entryPrice))"

definition assertTierNotionalBudget :: "string \<Rightarrow> string \<Rightarrow> string \<Rightarrow> string \<Rightarrow> unit result" where
  "assertTierNotionalBudget quantity markPrice entryPrice maximum =
     rbind (higher_price markPrice entryPrice) (\<lambda>price.
     rbind (quantum quantity) (\<lambda>q. rbind (quantum price) (\<lambda>p. rbind (quantum maximum) (\<lambda>m.
       requireTier (q * p \<le> m * 10 ^ 18) ''Current valuation exceeds the original margin/notional budget.''))))"

definition assertTierDecisionBudget :: "tier_decision \<Rightarrow> string \<Rightarrow> string \<Rightarrow> string \<Rightarrow> string \<Rightarrow> unit result" where
  "assertTierDecisionBudget decision currency quantity markPrice entryPrice =
     (if td_version decision = 1
      then (case td_maximumNotional decision of
          Some maximum \<Rightarrow>
            if td_maximumNotionalValue decision = None \<and> td_maximumNotionalCurrency decision = None
            then assertTierNotionalBudget quantity markPrice entryPrice maximum
            else Inl (LeverageTierError ''Legacy tier budget contract changed.'')
        | None \<Rightarrow> Inl (LeverageTierError ''Legacy tier budget contract changed.''))
      else
        rbind (requireTier (td_version decision = 2 \<and> td_maximumNotionalCurrency decision = Some currency)
          ''Tier budget currency differs.'') (\<lambda>_.
        rbind (validateMoneyValue (case td_maximumNotionalValue decision of None \<Rightarrow> JUndefined | Some m \<Rightarrow> js_of_money m)) (\<lambda>amount.
        rbind (if mv_exact amount \<noteq> None \<and> mv_terms amount > 0 \<and> td_maximumNotional decision = mv_decimal amount
               then exact_positive amount else Inr False) (\<lambda>ok.
        rbind (requireTier ok ''Tier rational budget is not exact or contradicts its decimal alias.'') (\<lambda>_.
        rbind (higher_price markPrice entryPrice) (\<lambda>price.
        rbind (rbind (decimal_positive quantity) rationalFromDecimal) (\<lambda>q.
        rbind (rbind (decimal_positive price) rationalFromDecimal) (\<lambda>p.
        rbind (multiplyRational q p) (\<lambda>actual.
          case mv_exact amount of
            None \<Rightarrow> Inl (LeverageTierError ''Tier rational budget is not exact or contradicts its decimal alias.'')
          | Some exact \<Rightarrow> rbind (compareRational actual exact) (\<lambda>c.
              requireTier (c \<le> 0) ''Current valuation exceeds the original margin/notional budget.''))))))))))"


section \<open>Tiers as intervals\<close>

definition tier_contains :: "leverage_tier \<Rightarrow> rat \<Rightarrow> bool" where
  "tier_contains tier v \<longleftrightarrow> dec_val (js_trim (lt_lowerBound tier)) \<le> v \<and>
     (case lt_upperBound tier of None \<Rightarrow> True | Some u \<Rightarrow> v < dec_val (js_trim u))"

text \<open>A validated table: consecutive intervals from \<open>lower\<close> on, with leverage that never grows.\<close>

fun tier_chain :: "rat \<Rightarrow> int \<Rightarrow> leverage_tier list \<Rightarrow> bool" where
  "tier_chain lower prev [] = True"
| "tier_chain lower prev (t # ts) \<longleftrightarrow>
     decimal_pattern (js_trim (lt_lowerBound t)) \<and> dec_val (js_trim (lt_lowerBound t)) = lower \<and>
     1 \<le> lt_maxLeverage t \<and> lt_maxLeverage t \<le> prev \<and>
     (case lt_upperBound t of
        None \<Rightarrow> ts = []
      | Some u \<Rightarrow> decimal_pattern (js_trim u) \<and> lower < dec_val (js_trim u) \<and> tier_chain (dec_val (js_trim u)) (lt_maxLeverage t) ts)"

lemma requireTier_Inr [simp]: "requireTier c e = Inr u \<longleftrightarrow> c"
  by (simp add: requireTier_def)

lemma validated_chain:
  assumes "validate_tiers_from (k + length ts) k lower prev ts = Inr ()" "ts \<noteq> [] \<Longrightarrow> js_trim lower = lower"
  shows "tier_chain (dec_val (js_trim lower)) prev ts"
  using assms
proof (induction ts arbitrary: k lower prev)
  case (Cons t ts)
  have lo: "decimal (lt_lowerBound t) = Inr lower" "1 \<le> lt_maxLeverage t" "lt_maxLeverage t \<le> prev"
    using Cons.prems(1) by (auto simp: rbind_Inr_iff)
  have trim: "js_trim lower = lower" "decimal_pattern lower" "dec_val (js_trim (lt_lowerBound t)) = dec_val lower"
      "decimal_pattern (js_trim (lt_lowerBound t))"
    using decimal_id_value [OF lo(1)] by auto
  show ?case
  proof (cases "lt_upperBound t")
    case None
    then show ?thesis using Cons.prems(1) lo trim by (auto simp: rbind_Inr_iff)
  next
    case (Some u)
    obtain u' c where u: "decimal_positive u = Inr u'" "compareDecimal u' lower = Inr c" "c > 0"
      and rest: "validate_tiers_from (Suc k + length ts) (Suc k) u (lt_maxLeverage t) ts = Inr ()"
      using Cons.prems(1) Some by (auto simp: rbind_Inr_iff)
    have up: "decimal_pattern (js_trim u)" "dec_val u' = dec_val (js_trim u)" "decimal_pattern u'"
      using decimal_positive_value [OF u(1)] by auto
    have "dec_val lower < dec_val (js_trim u)" using u(2,3) up trim by (auto simp: compare_law)
    moreover have "js_trim u = u" if ne: "ts \<noteq> []"
    proof -
      obtain t' ts' where "ts = t' # ts'" using ne by (cases ts) auto
      then have "decimal (lt_lowerBound t') = Inr u" using rest by (auto simp: rbind_Inr_iff)
      then show ?thesis using decimal_id_value by blast
    qed
    ultimately show ?thesis
      using Some lo trim up(1) Cons.IH [OF rest] by simp
  qed
qed simp

lemma table_chain:
  assumes "validateTierTable tiers = Inr ()"
  shows "tier_chain 0 50 tiers" "tiers \<noteq> []" "length tiers \<le> 500"
proof -
  have "js_trim ''0'' = ''0''" "dec_val ''0'' = 0" by code_simp+
  then show "tier_chain 0 50 tiers" "tiers \<noteq> []" "length tiers \<le> 500"
    using assms validated_chain [of 0 tiers "''0''" 50] by (auto simp: validateTierTable_def rbind_Inr_iff)
qed

lemma chain_lower: "tier_chain lower prev ts \<Longrightarrow> t \<in> set ts \<Longrightarrow> lower \<le> dec_val (js_trim (lt_lowerBound t)) \<and> decimal_pattern (js_trim (lt_lowerBound t))"
proof (induction ts arbitrary: lower prev)
  case (Cons a ts)
  then show ?case by (auto split: option.splits) (metis less_imp_le order_trans)
qed simp

lemma chain_upper: "tier_chain lower prev ts \<Longrightarrow> t \<in> set ts \<Longrightarrow> lt_upperBound t = Some u \<Longrightarrow> decimal_pattern (js_trim u)"
  by (induction ts arbitrary: lower prev) (auto split: option.splits)

lemma chain_leverage: "tier_chain lower prev ts \<Longrightarrow> t \<in> set ts \<Longrightarrow> 1 \<le> lt_maxLeverage t \<and> lt_maxLeverage t \<le> prev"
proof (induction ts arbitrary: lower prev)
  case (Cons a ts)
  then show ?case by (auto split: option.splits) (metis order_trans)+
qed simp

text \<open>No value lies in two tiers, and a value in no tier lies above the last one.\<close>

lemma chain_above: "tier_chain lower prev ts \<Longrightarrow> tier_contains t v \<Longrightarrow> t \<in> set ts \<Longrightarrow> lower \<le> v"
  using chain_lower by (fastforce simp: tier_contains_def)

lemma chain_unique:
  assumes "tier_chain lower prev ts" "i < length ts" "j < length ts" "tier_contains (ts ! i) v" "tier_contains (ts ! j) v"
  shows "i = j"
  using assms
proof (induction ts arbitrary: lower prev i j)
  case (Cons a ts)
  show ?case
  proof (cases "lt_upperBound a")
    case None
    then show ?thesis using Cons.prems by simp
  next
    case (Some u)
    then have tail: "tier_chain (dec_val (js_trim u)) (lt_maxLeverage a) ts" using Cons.prems(1) by simp
    have no: False if "tier_contains a v" "tier_contains (ts ! k) v" "k < length ts" for k
      using chain_above [OF tail that(2)] that Some by (auto simp: tier_contains_def)
    show ?thesis
      using Cons.prems(2-5) Cons.IH [OF tail] no by (cases i; cases j) auto
  qed
qed simp

lemma chain_covers:
  assumes "tier_chain lower prev ts" "ts \<noteq> []" "lower \<le> v"
  shows "(\<exists>t\<in>set ts. tier_contains t v) \<or> (\<exists>u. lt_upperBound (last ts) = Some u \<and> dec_val (js_trim u) \<le> v)"
  using assms
proof (induction ts arbitrary: lower prev)
  case (Cons a ts)
  show ?case
  proof (cases "lt_upperBound a")
    case None
    then show ?thesis using Cons.prems by (auto simp: tier_contains_def)
  next
    case (Some u)
    then have tail: "tier_chain (dec_val (js_trim u)) (lt_maxLeverage a) ts" using Cons.prems(1) by simp
    show ?thesis
    proof (cases "v < dec_val (js_trim u)")
      case True
      then show ?thesis using Some Cons.prems by (auto simp: tier_contains_def)
    next
      case False
      then show ?thesis using Cons.IH [OF tail] Some by (cases "ts = []") auto
    qed
  qed
qed simp


section \<open>The tier of a quantity\<close>

lemma quantum_law:
  assumes "decimal_pattern (js_trim v)"
  obtains n where "quantum v = Inr n" "(of_int n :: rat) = 10 ^ 18 * dec_val (js_trim v)"
proof -
  obtain d where d: "decimal v = Inr d" "dec_val d = dec_val (js_trim v)" "decimal_pattern d"
    using assms decimal_law decimal_valid by (metis decimal_Inr_iff returns_decimalE trim_valid)
  have "quantum v = Inr (decimalUnits d)" using d(1) by (simp add: quantum_def decimalUnits_def split: prod.splits)
  with that d unsigned_signed [OF d(3)] decimalUnits_law show thesis by metis
qed

lemma quantum_positive_law:
  assumes "decimal_pattern (js_trim v)" "dec_val (js_trim v) \<noteq> 0"
  obtains n where "rbind (decimal_positive v) quantum = Inr n" "(of_int n :: rat) = 10 ^ 18 * dec_val (js_trim v)"
proof -
  obtain d where d: "decimal_positive v = Inr d" "dec_val d = dec_val (js_trim v)" "decimal_pattern d"
    using assms decimal_positive_law [of "js_trim v"]
    by (metis decimal_positive_Inr_iff decimal_positive_def decimal_with_valid returns_decimalE trim_valid)
  then show thesis using that quantum_law [of d] by (metis rbind.simps(2) trim_valid)
qed

lemma scaled_le: "(of_int x :: rat) = 10 ^ 18 * a \<Longrightarrow> (of_int y :: rat) = 10 ^ 18 * (10 ^ 18 * b) \<Longrightarrow> x * 10 ^ 18 \<le> y \<longleftrightarrow> a \<le> b"
proof -
  assume h: "(of_int x :: rat) = 10 ^ 18 * a" "(of_int y :: rat) = 10 ^ 18 * (10 ^ 18 * b)"
  define p18 :: rat where "p18 = 10 ^ 18"
  have p: "0 < p18" by (simp add: p18_def)
  have "x * 10 ^ 18 \<le> y \<longleftrightarrow> (of_int (x * 10 ^ 18) :: rat) \<le> of_int y" by (simp only: of_int_le_iff)
  also have "\<dots> \<longleftrightarrow> of_int x * p18 \<le> of_int y" by (simp add: p18_def)
  also have "\<dots> \<longleftrightarrow> a \<le> b" unfolding h p18_def [symmetric] using p by (simp add: mult.commute)
  finally show ?thesis .
qed

lemma tier_matches_law:
  assumes "decimal_pattern (js_trim (lt_lowerBound t))" "\<And>u. lt_upperBound t = Some u \<Longrightarrow> decimal_pattern (js_trim u)"
    and "(of_int x :: rat) = 10 ^ 18 * (10 ^ 18 * v)"
  shows "tier_matches x t = Inr (tier_contains t v)"
proof -
  obtain lo where lo: "quantum (lt_lowerBound t) = Inr lo" "(of_int lo :: rat) = 10 ^ 18 * dec_val (js_trim (lt_lowerBound t))"
    using assms(1) by (rule quantum_law)
  show ?thesis
  proof (cases "lt_upperBound t")
    case None
    then show ?thesis
      by (simp only: tier_matches_def lo(1) rbind.simps scaled_le [OF lo(2) assms(3)] tier_contains_def option.simps) simp
  next
    case (Some u)
    obtain hi where hi: "quantum u = Inr hi" "(of_int hi :: rat) = 10 ^ 18 * dec_val (js_trim u)"
      using assms(2) [OF Some] by (rule quantum_law)
    have "x < hi * 10 ^ 18 \<longleftrightarrow> v < dec_val (js_trim u)" using scaled_le [OF hi(2) assms(3)] by (simp only: not_le [symmetric])
    then show ?thesis
      by (simp only: tier_matches_def lo(1) rbind.simps scaled_le [OF lo(2) assms(3)] tier_contains_def Some option.simps hi(1)) simp
  qed
qed

lemma find_index_law:
  assumes "\<And>x. x \<in> set xs \<Longrightarrow> P x = Inr (p x)"
  shows "\<exists>j. find_index P (int k) xs = Inr j \<and>
    (j = -1 \<and> (\<forall>x\<in>set xs. \<not> p x) \<or> (\<exists>i. j = int (k + i) \<and> i < length xs \<and> p (xs ! i)))"
  using assms
proof (induction xs arbitrary: k)
  case (Cons x xs)
  show ?case
  proof (cases "p x")
    case True
    then show ?thesis using Cons.prems by (intro exI [of _ "int k"]) (auto intro!: exI [of _ 0])
  next
    case False
    have step: "find_index P (int k) (x # xs) = find_index P (int (Suc k)) xs"
      using Cons.prems [of x] False by (simp add: add.commute)
    obtain j where j: "find_index P (int (Suc k)) xs = Inr j"
      "j = -1 \<and> (\<forall>x\<in>set xs. \<not> p x) \<or> (\<exists>i. j = int (Suc k + i) \<and> i < length xs \<and> p (xs ! i))"
      using Cons.IH [of "Suc k"] Cons.prems by fastforce
    from j(2) have "j = -1 \<and> (\<forall>y\<in>set (x # xs). \<not> p y) \<or> (\<exists>i. j = int (k + i) \<and> i < length (x # xs) \<and> p ((x # xs) ! i))"
    proof (elim disjE exE conjE)
      fix i assume "j = int (Suc k + i)" "i < length xs" "p (xs ! i)"
      then show ?thesis by (intro disjI2 exI [of _ "Suc i"]) simp
    qed (use False in simp)
    with step j(1) show ?thesis by simp
  qed
qed simp

definition notional_of :: "string \<Rightarrow> string \<Rightarrow> rat" where
  "notional_of quantity markPrice = dec_val (js_trim quantity) * dec_val (js_trim markPrice)"

lemma find_tier_law:
  assumes "tier_chain 0 50 tiers" "decimal_pattern (js_trim quantity)" "dec_val (js_trim quantity) \<noteq> 0"
    "decimal_pattern (js_trim markPrice)" "dec_val (js_trim markPrice) \<noteq> 0"
  obtains j where "findTierForQuantity tiers quantity markPrice = Inr j"
    "j = -1 \<and> (\<forall>t\<in>set tiers. \<not> tier_contains t (notional_of quantity markPrice)) \<or>
     0 \<le> j \<and> nat j < length tiers \<and> tier_contains (tiers ! nat j) (notional_of quantity markPrice)"
proof -
  obtain q where q: "rbind (decimal_positive quantity) quantum = Inr q" "(of_int q :: rat) = 10 ^ 18 * dec_val (js_trim quantity)"
    using assms(2,3) by (rule quantum_positive_law)
  obtain p where p: "rbind (decimal_positive markPrice) quantum = Inr p" "(of_int p :: rat) = 10 ^ 18 * dec_val (js_trim markPrice)"
    using assms(4,5) by (rule quantum_positive_law)
  define w where "w = notional_of quantity markPrice"
  have prod: "(of_int (q * p) :: rat) = 10 ^ 18 * (10 ^ 18 * w)"
    unfolding of_int_mult q(2) p(2) w_def notional_of_def by (simp only: mult.assoc mult.left_commute)
  have m: "tier_matches (q * p) t = Inr (tier_contains t w)" if "t \<in> set tiers" for t
    using chain_lower [OF assms(1) that] chain_upper [OF assms(1) that] prod by (intro tier_matches_law) auto
  obtain j where j: "find_index (tier_matches (q * p)) (int 0) tiers = Inr j"
    "j = -1 \<and> (\<forall>x\<in>set tiers. \<not> tier_contains x w) \<or> (\<exists>i. j = int (0 + i) \<and> i < length tiers \<and> tier_contains (tiers ! i) w)"
    using find_index_law [where P = "tier_matches (q * p)" and p = "\<lambda>t. tier_contains t w" and k = 0, OF m] by blast
  show thesis
    by (rule that [of j]) (use j q(1) p(1) in \<open>auto simp: findTierForQuantity_def w_def\<close>)
qed

lemma find_tier_spec:
  assumes "tier_chain 0 50 tiers" "findTierForQuantity tiers quantity markPrice = Inr j"
  shows "j = -1 \<and> (\<forall>t\<in>set tiers. \<not> tier_contains t (notional_of quantity markPrice)) \<or>
    0 \<le> j \<and> nat j < length tiers \<and> tier_contains (tiers ! nat j) (notional_of quantity markPrice)"
proof -
  have v: "decimal_pattern (js_trim quantity)" "dec_val (js_trim quantity) \<noteq> 0" "decimal_pattern (js_trim markPrice)" "dec_val (js_trim markPrice) \<noteq> 0"
    using assms(2) by (auto simp: findTierForQuantity_def rbind_Inr_iff decimal_positive_Inr_iff)
  show ?thesis using find_tier_law [OF assms(1) v] assms(2) by (metis sum.inject(2))
qed


section \<open>The solver\<close>

text \<open>The tier the loop looks at: the matching one, or the last one when the notional is above all.\<close>

definition bounding_tier :: "leverage_tier list \<Rightarrow> int \<Rightarrow> leverage_tier" where
  "bounding_tier tiers j = tiers ! (if j < 0 then length tiers - 1 else nat j)"

lemma bounding_tier_in:
  assumes "tiers \<noteq> []" "j = -1 \<or> 0 \<le> j \<and> nat j < length tiers"
  shows "bounding_tier tiers j \<in> set tiers"
  using assms by (auto simp: bounding_tier_def)

definition tier_position :: "leverage_tier list \<Rightarrow> string \<Rightarrow> string \<Rightarrow> int \<Rightarrow> bool" where
  "tier_position tiers quantity markPrice j \<longleftrightarrow>
     0 \<le> j \<and> nat j < length tiers \<and> tier_contains (tiers ! nat j) (notional_of quantity markPrice)"

definition good_solution ::
    "leverage_tier list \<Rightarrow> string \<Rightarrow> (int \<Rightarrow> string result) \<Rightarrow> int \<Rightarrow> tier_solution \<Rightarrow> bool" where
  "good_solution tiers markPrice quantityForLeverage bound s \<longleftrightarrow>
     1 \<le> sol_leverage s \<and> sol_leverage s \<le> bound \<and>
     rbind (quantityForLeverage (sol_leverage s)) decimal_positive = Inr (sol_quantity s) \<and>
     findTierForQuantity tiers (sol_quantity s) markPrice = Inr (sol_tierIndex s) \<and>
     tier_position tiers (sol_quantity s) markPrice (sol_tierIndex s) \<and>
     sol_leverage s \<le> lt_maxLeverage (tiers ! nat (sol_tierIndex s))"

lemma solve_loop_step:
  assumes "rbind (qfl leverage) decimal_positive = Inr q" "findTierForQuantity tiers q markPrice = Inr j" "tiers \<noteq> []"
  shows "solve_loop (Suc n) tiers markPrice qfl leverage =
    (let mx = lt_maxLeverage (bounding_tier tiers j) in
     if j \<ge> 0 \<or> leverage > mx
     then if leverage \<le> mx then Inr \<lparr>sol_leverage = leverage, sol_quantity = q, sol_tierIndex = j\<rparr>
          else solve_loop n tiers markPrice qfl mx
     else Inl (LeverageTierError ''Quantized notional is outside the proven leverage tiers.''))"
  using assms by (simp only: solve_loop.simps rbind.simps if_False bounding_tier_def Let_def requireTier_def) simp

lemma solve_loop_sound:
  assumes "tier_chain 0 50 tiers" "tiers \<noteq> []" "1 \<le> leverage"
    and "solve_loop n tiers markPrice qfl leverage = Inr s"
  shows "good_solution tiers markPrice qfl leverage s"
  using assms(3,4)
proof (induction n arbitrary: leverage)
  case (Suc n)
  obtain q j where qj: "rbind (qfl leverage) decimal_positive = Inr q" "findTierForQuantity tiers q markPrice = Inr j"
    using Suc.prems(2) by (fastforce simp: rbind_Inr_iff)
  note pos = find_tier_spec [OF assms(1) qj(2)]
  define mx where "mx = lt_maxLeverage (bounding_tier tiers j)"
  have mx: "1 \<le> mx" "mx \<le> 50"
    using chain_leverage [OF assms(1) bounding_tier_in [OF assms(2)]] pos by (auto simp: mx_def)
  have run: "(j \<ge> 0 \<or> leverage > mx) \<and>
      (if leverage \<le> mx then Inr \<lparr>sol_leverage = leverage, sol_quantity = q, sol_tierIndex = j\<rparr>
       else solve_loop n tiers markPrice qfl mx) = Inr s"
    using Suc.prems(2) unfolding solve_loop_step [of qfl leverage, OF qj assms(2)] mx_def Let_def by (simp split: if_splits)
  show ?case
  proof (cases "leverage \<le> mx")
    case True
    with run pos have "0 \<le> j" "s = \<lparr>sol_leverage = leverage, sol_quantity = q, sol_tierIndex = j\<rparr>" by auto
    then show ?thesis
      using pos True Suc.prems(1) qj by (auto simp: good_solution_def tier_position_def mx_def bounding_tier_def)
  next
    case False
    then have "good_solution tiers markPrice qfl mx s" using run mx Suc.IH by simp
    then show ?thesis using False by (simp add: good_solution_def)
  qed
qed simp

text \<open>The maxima still below the current leverage bound the remaining iterations.\<close>

definition lower_maxima :: "leverage_tier list \<Rightarrow> int \<Rightarrow> int set" where
  "lower_maxima tiers leverage = {m \<in> lt_maxLeverage ` set tiers. m < leverage}"

lemma lower_maxima_finite [simp]: "finite (lower_maxima tiers l)"
  by (simp add: lower_maxima_def)

lemma lower_maxima_shrink:
  assumes "m \<in> lt_maxLeverage ` set tiers" "m < leverage"
  shows "card (lower_maxima tiers m) < card (lower_maxima tiers leverage)"
proof (rule psubset_card_mono)
  show "lower_maxima tiers m \<subset> lower_maxima tiers leverage"
    using assms by (auto simp: lower_maxima_def)
qed simp

lemma lower_maxima_card: "card (lower_maxima tiers l) \<le> length tiers"
proof -
  have "card (lower_maxima tiers l) \<le> card (lt_maxLeverage ` set tiers)"
    by (intro card_mono) (auto simp: lower_maxima_def)
  also have "\<dots> \<le> length tiers" by (meson card_image_le card_length finite_set order_trans)
  finally show ?thesis .
qed

lemma solve_loop_total:
  assumes "tier_chain 0 50 tiers" "tiers \<noteq> []" "decimal_pattern (js_trim markPrice)" "dec_val (js_trim markPrice) \<noteq> 0"
    and "card (lower_maxima tiers leverage) < n"
    and "\<And>l. 1 \<le> l \<Longrightarrow> l \<le> leverage \<Longrightarrow> \<exists>q. rbind (qfl l) decimal_positive = Inr q" "1 \<le> leverage"
  shows "(\<exists>s. solve_loop n tiers markPrice qfl leverage = Inr s) \<or>
    solve_loop n tiers markPrice qfl leverage = Inl (LeverageTierError ''Quantized notional is outside the proven leverage tiers.'') \<and>
    lt_upperBound (last tiers) \<noteq> None"
  using assms(5-7)
proof (induction n arbitrary: leverage)
  case (Suc n)
  obtain q where q: "rbind (qfl leverage) decimal_positive = Inr q" using Suc.prems(2,3) by blast
  then have "decimal_pattern (js_trim q)" "dec_val (js_trim q) \<noteq> 0"
    using decimal_positive_value by (auto simp: rbind_Inr_iff) (metis trim_valid)+
  then obtain j where j: "findTierForQuantity tiers q markPrice = Inr j"
    using find_tier_law [OF assms(1) _ _ assms(3,4)] by metis
  note pos = find_tier_spec [OF assms(1) j]
  define mx where "mx = lt_maxLeverage (bounding_tier tiers j)"
  have mem: "mx \<in> lt_maxLeverage ` set tiers"
    using bounding_tier_in [OF assms(2), of j] pos by (auto simp: mx_def)
  have mx: "1 \<le> mx" using chain_leverage [OF assms(1)] mem by auto
  have nn: "0 \<le> notional_of q markPrice"
    using \<open>decimal_pattern (js_trim q)\<close> assms(3) dec_val_nonneg by (auto simp: notional_of_def)
  have above: "lt_upperBound (last tiers) \<noteq> None" if "j < 0"
    using chain_covers [OF assms(1,2) nn] pos that by auto
  show ?case
  proof (cases "leverage \<le> mx")
    case True
    then show ?thesis using above unfolding solve_loop_step [of qfl leverage, OF q j assms(2)] mx_def Let_def by auto
  next
    case False
    then have "card (lower_maxima tiers mx) < n" using lower_maxima_shrink [OF mem, of leverage] Suc.prems(1) by simp
    from Suc.IH [OF this _ mx] Suc.prems(2) False show ?thesis
      unfolding solve_loop_step [of qfl leverage, OF q j assms(2)] mx_def Let_def by (auto simp: not_le)
  qed
qed simp

lemma solver_result_good:
  assumes "solveTierQuantity evidence requested quantityForLeverage = Inr s"
  shows "good_solution (te_tiers evidence) (te_markPrice evidence) quantityForLeverage
    (min requested (min 50 (lt_maxLeverage (hd (te_tiers evidence))))) s"
proof -
  have v: "validateTierTable (te_tiers evidence) = Inr ()" "requested > 0"
    using assms by (auto simp: solveTierQuantity_def rbind_Inr_iff)
  note c = table_chain [OF v(1)]
  then obtain first rest where f: "te_tiers evidence = first # rest" by (cases "te_tiers evidence") auto
  have run: "solve_loop (length (te_tiers evidence) + 1) (te_tiers evidence) (te_markPrice evidence) quantityForLeverage
      (min requested (min 50 (lt_maxLeverage first))) = Inr s"
    using assms f by (auto simp: solveTierQuantity_def rbind_Inr_iff simp del: solve_loop.simps)
  have "1 \<le> lt_maxLeverage first" using c(1) f by simp
  then have "1 \<le> min requested (min 50 (lt_maxLeverage first))" using v(2) by simp
  from solve_loop_sound [OF c(1,2) this run] show ?thesis by (simp add: f)
qed


section \<open>Properties\<close>

text \<open>
  C18: a table the validator accepts is a partition: it starts at zero, its tiers are consecutive,
  a positive notional lies in at most one of them and in none only when the last tier is bounded
  and the notional reaches its end; and the permitted leverage never grows and stays within 1 to 50.
\<close>

theorem valid_tiers_partition:
  assumes "validateTierTable tiers = Inr ()" "0 \<le> v"
  shows "(\<forall>i j. i < length tiers \<longrightarrow> j < length tiers \<longrightarrow> tier_contains (tiers ! i) v \<longrightarrow> tier_contains (tiers ! j) v \<longrightarrow> i = j) \<and>
    ((\<exists>t\<in>set tiers. tier_contains t v) \<or> (\<exists>u. lt_upperBound (last tiers) = Some u \<and> dec_val (js_trim u) \<le> v)) \<and>
    (\<forall>t\<in>set tiers. 1 \<le> lt_maxLeverage t \<and> lt_maxLeverage t \<le> 50)"
proof -
  note c = table_chain [OF assms(1)]
  show ?thesis
    using chain_unique [OF c(1)] chain_covers [OF c(1,2) assms(2)] chain_leverage [OF c(1)] by blast
qed

definition sample_tiers :: "leverage_tier list" where
  "sample_tiers =
    [\<lparr>lt_lowerBound = ''0'', lt_upperBound = Some ''100'', lt_maxLeverage = 20\<rparr>,
     \<lparr>lt_lowerBound = ''100'', lt_upperBound = None, lt_maxLeverage = 5\<rparr>]"

theorem valid_tiers_partition_witness:
  "validateTierTable sample_tiers = Inr () \<and> (\<exists>t\<in>set sample_tiers. tier_contains t 100)"
proof -
  have v: "validateTierTable sample_tiers = Inr ()" by code_simp
  have "lt_upperBound (last sample_tiers) = None" by code_simp
  with valid_tiers_partition [OF v, of 100] v show ?thesis by auto
qed

text \<open>
  C19: the solver. When it returns, the leverage is at least one and at most the requested one, 50
  and the first tier's maximum; the quantity is what the sizing callback gives for exactly that
  leverage; the tier is the one that holds the quantity's notional at the mark price, and its
  maximum admits the leverage.
\<close>

theorem tier_solution_sound:
  assumes "solveTierQuantity evidence requested quantityForLeverage = Inr s"
  shows "good_solution (te_tiers evidence) (te_markPrice evidence) quantityForLeverage
    (min requested (min 50 (lt_maxLeverage (hd (te_tiers evidence))))) s"
  using assms by (rule solver_result_good)

definition sample_evidence :: tier_evidence where
  "sample_evidence = \<lparr>te_version = 1, te_exchange = ''paper'', te_symbol = ''BTC'', te_providerSymbol = ''BTC'',
     te_accountFingerprint = ''a'', te_credentialGeneration = ''paper'', te_ccxtVersion = ''paper'', te_profileHash = ''paper-v1'',
     te_source = ''s'', te_currency = ''USD'', te_contractSize = ''1'', te_markPrice = ''10'', te_observedAt = 0, te_expiresAt = 10000,
     te_scope = \<lparr>ts_complete = True, ts_positionQuantity = ''0'', ts_openOrderCount = 0\<rparr>, te_tiers = sample_tiers\<rparr>"

theorem tier_solution_sound_witness:
  "\<exists>s. solveTierQuantity sample_evidence 10 (\<lambda>l. Inr (show_int (2 * l))) = Inr s \<and> sol_leverage s = 5 \<and> sol_quantity s = ''10'' \<and>
     good_solution (te_tiers sample_evidence) (te_markPrice sample_evidence) (\<lambda>l. Inr (show_int (2 * l)))
       (min 10 (min 50 (lt_maxLeverage (hd (te_tiers sample_evidence))))) s"
proof -
  have s: "solveTierQuantity sample_evidence 10 (\<lambda>l. Inr (show_int (2 * l))) =
      Inr \<lparr>sol_leverage = 5, sol_quantity = ''10'', sol_tierIndex = 1\<rparr>" by code_simp
  show ?thesis using s tier_solution_sound [OF s] by (intro exI conjI) simp_all
qed

text \<open>
  The solver's loop bound is enough. On a valid table, with a positive mark price and a
  callback that sizes every admissible leverage, the solver returns; the only other outcome is the
  refusal of a notional above a bounded last tier. It never runs out of iterations, because the
  leverage it tries is each time a strictly smaller tier maximum.
\<close>

theorem tier_solver_terminates:
  assumes "validateTierTable (te_tiers evidence) = Inr ()" "is_safe_integer requested" "0 < requested"
    and "\<exists>c. decimal_positive (te_contractSize evidence) = Inr c" "\<exists>p. decimal_positive (te_markPrice evidence) = Inr p"
    and "\<forall>l. 1 \<le> l \<and> l \<le> requested \<longrightarrow> (\<exists>q. rbind (quantityForLeverage l) decimal_positive = Inr q)"
  shows "(\<exists>s. solveTierQuantity evidence requested quantityForLeverage = Inr s) \<or>
    solveTierQuantity evidence requested quantityForLeverage =
      Inl (LeverageTierError ''Quantized notional is outside the proven leverage tiers.'') \<and>
    lt_upperBound (last (te_tiers evidence)) \<noteq> None"
proof -
  note c = table_chain [OF assms(1)]
  then obtain first rest where f: "te_tiers evidence = first # rest" by (cases "te_tiers evidence") auto
  define start where "start = min requested (min 50 (lt_maxLeverage first))"
  obtain k p where kp: "decimal_positive (te_contractSize evidence) = Inr k" "decimal_positive (te_markPrice evidence) = Inr p"
    using assms(4,5) by blast
  then have mark: "decimal_pattern (js_trim (te_markPrice evidence))" "dec_val (js_trim (te_markPrice evidence)) \<noteq> 0"
    using decimal_positive_value [OF kp(2)] by auto
  have "solveTierQuantity evidence requested quantityForLeverage =
      solve_loop (length (te_tiers evidence) + 1) (te_tiers evidence) (te_markPrice evidence) quantityForLeverage start"
    using assms(1-3) kp f by (simp add: solveTierQuantity_def requireTier_def start_def del: solve_loop.simps)
  moreover have "1 \<le> start" using c(1) f assms(3) by (simp add: start_def)
  moreover have "card (lower_maxima (te_tiers evidence) start) < length (te_tiers evidence) + 1"
    using lower_maxima_card [of "te_tiers evidence" start] by simp
  moreover have "\<exists>q. rbind (quantityForLeverage l) decimal_positive = Inr q" if "1 \<le> l" "l \<le> start" for l
    using assms(6) that by (simp add: start_def)
  ultimately show ?thesis using solve_loop_total [OF c(1,2) mark] by metis
qed

theorem tier_solver_terminates_witness:
  "\<exists>s. solveTierQuantity sample_evidence 3 (\<lambda>l. Inr ''7'') = Inr s"
proof -
  have a: "validateTierTable (te_tiers sample_evidence) = Inr ()" "is_safe_integer 3" "0 < (3::int)"
    "decimal_positive (te_contractSize sample_evidence) = Inr ''1''" "decimal_positive (te_markPrice sample_evidence) = Inr ''10''"
    "rbind (Inr ''7'') decimal_positive = Inr ''7''" "lt_upperBound (last (te_tiers sample_evidence)) = None"
    by code_simp+
  show ?thesis
    using tier_solver_terminates [OF a(1,2,3), of "\<lambda>l. Inr ''7''"] a(4-7) by auto
qed

end
