(* ===== verification/Trading_Channel_Risk_Math.thy ===== *)
theory Trading_Channel_Risk_Math
  imports Trading_Types
begin

text \<open>
  Channel return thresholds (\<^verbatim>\<open>src/trading_channel_risk_math.ts\<close>): whether the profit or loss of a
  channel, a money value, has reached a percentage of the starting equity.
\<close>

section \<open>The code\<close>

datatype channel_threshold = Reached | Not_reached | Uncertain

definition gainReturnThreshold :: "int \<Rightarrow> int \<Rightarrow> channel_threshold" where
  "gainReturnThreshold lower upper = (if lower \<ge> 0 then Reached else if upper < 0 then Not_reached else Uncertain)"

definition lossReturnThreshold :: "int \<Rightarrow> int \<Rightarrow> channel_threshold" where
  "lossReturnThreshold lower upper = (if upper \<le> 0 then Reached else if lower > 0 then Not_reached else Uncertain)"

definition money_bound :: "money_value \<Rightarrow> string \<Rightarrow> exact_rational result" where
  "money_bound pnl bound = (case mv_exact pnl of Some q \<Rightarrow> Inr q | None \<Rightarrow> rationalFromDecimal bound)"

definition channelReturnThreshold :: "money_value \<Rightarrow> string \<Rightarrow> string \<Rightarrow> bool \<Rightarrow> channel_threshold result" where
  "channelReturnThreshold value equity threshold loss =
     rbind (validateMoneyValue (js_of_money value)) (\<lambda>pnl.
     rbind (rbind (decimal_positive equity) rationalFromDecimal) (\<lambda>e.
     rbind (rbind (decimal_with True (Some ''100'') threshold) rationalFromDecimal) (\<lambda>t.
     rbind (multiplyRational e t) (\<lambda>m.
     rbind (rationalFromDecimal ''100'') (\<lambda>h.
     rbind (divideRational m h) (\<lambda>b.
       let boundary = (if loss then b\<lparr>numerator := show_int (- bigint_of (numerator b))\<rparr> else b) in
       rbind (rbind (money_bound pnl (mv_lower pnl)) (\<lambda>q. compareRational q boundary)) (\<lambda>lower.
       rbind (rbind (money_bound pnl (mv_upper pnl)) (\<lambda>q. compareRational q boundary)) (\<lambda>upper.
         Inr (if loss then lossReturnThreshold lower upper else gainReturnThreshold lower upper)))))))))"

record channel_return =
  cr_value :: "money_value option"
  cr_reason :: "string option"

definition channelReturnValue :: "money_value \<Rightarrow> string \<Rightarrow> channel_return result" where
  "channelReturnValue value equity =
     rbind (validateMoneyValue (js_of_money value)) (\<lambda>pnl.
     rbind (rbind (decimal_positive equity) rationalFromDecimal) (\<lambda>capital.
       case mv_exact pnl of
         None \<Rightarrow> Inr \<lparr>cr_value = None, cr_reason = Some ''Return percentage has only bounded PnL inputs.''\<rparr>
       | Some exact \<Rightarrow> Inr (
           case rbind (rationalFromDecimal ''100'') (\<lambda>h. rbind (divideRational h capital) (\<lambda>f.
                  rbind (multiplyRational exact f) moneyValueFromRational)) of
             Inr v \<Rightarrow> \<lparr>cr_value = Some v, cr_reason = None\<rparr>
           | Inl _ \<Rightarrow> \<lparr>cr_value = None, cr_reason = Some ''Exact return percentage exceeds the supported representation budget.''\<rparr>)))"


section \<open>What the code compares\<close>

lemma hundred_rational: "rationalFromDecimal ''100'' = Inr (rat_rep 100)" "rational_ok (rat_rep 100)"
proof -
  have "decimal_pattern ''100''" "dec_val ''100'' = 100" by code_simp+
  then show "rationalFromDecimal ''100'' = Inr (rat_rep 100)" "rational_ok (rat_rep 100)"
    using decimal_rational [of "''100''"] by simp_all
qed

lemma unsigned_units:
  assumes "decimal_pattern v"
  obtains n where "dec_val v = of_int n / of_int (10 ^ 18)" "0 \<le> n" "n < 10 ^ 54"
proof -
  define p18 :: rat where "p18 = 10 ^ 18"
  have p: "0 < p18" by (simp add: p18_def)
  obtain n where n: "p18 * dec_val v = of_int n"
    using signed_ok_bounds unsigned_signed [OF assms] unfolding on_grid_def p18_def by (metis Ints_cases)
  have "dec_val v < dec_limit" "0 \<le> dec_val v" using signed_ok_bounds unsigned_signed [OF assms] dec_val_nonneg [OF assms] by (metis abs_of_nonneg)+
  then have "p18 * dec_val v < p18 * dec_limit" "0 \<le> p18 * dec_val v" using p by auto
  moreover have "p18 * dec_limit = of_int (10 ^ 54)" by (simp add: p18_def dec_limit_def)
  ultimately have "n < 10 ^ 54" "0 \<le> n" unfolding n by (simp_all only: of_int_less_iff of_int_0_le_iff)
  moreover have "dec_val v = of_int n / p18" using n p by (simp add: field_simps)
  ultimately show thesis using that by (simp add: p18_def)
qed

text \<open>The boundary, a percentage of the equity, and its negation always have a bounded fraction.\<close>

lemma boundary_fits:
  assumes "decimal_pattern e" "decimal_pattern t" 
  shows "rat_fits (dec_val e * dec_val t)" "rat_fits (dec_val e * dec_val t / 100)"
proof -
  obtain a where a: "dec_val e = of_int a / of_int (10 ^ 18)" "0 \<le> a" "a < 10 ^ 54" using assms(1) by (rule unsigned_units)
  obtain b where b: "dec_val t = of_int b / of_int (10 ^ 18)" "0 \<le> b" "b < 10 ^ 54" using assms(2) by (rule unsigned_units)
  have "a * b \<le> 10 ^ 54 * 10 ^ 54" using a b by (intro mult_mono) auto
  also have "\<dots> < digits256" by (simp add: digits256_def)
  finally have ab: "\<bar>a * b\<bar> < digits256" using a b by simp
  have small: "(0::int) < 10 ^ 36" "(10 ^ 36 :: int) < digits256" "(0::int) < 10 ^ 38" "(10 ^ 38 :: int) < digits256"
    by (simp_all add: digits256_def)
  have "dec_val e * dec_val t = of_int (a * b) / of_int (10 ^ 36)" by (simp add: a b)
  then show "rat_fits (dec_val e * dec_val t)" using fits_quotient [OF ab small(1,2)] by (simp only:)
  have "dec_val e * dec_val t / 100 = of_int (a * b) / of_int (10 ^ 38)" by (simp add: a b)
  then show "rat_fits (dec_val e * dec_val t / 100)" using fits_quotient [OF ab small(3,4)] by (simp only:)
qed

lemma money_bound_value:
  assumes "money_wf m"
  obtains a b where "money_bound m (mv_lower m) = Inr a" "rational_ok a" "money_bound m (mv_upper m) = Inr b" "rational_ok b"
    "\<And>x. money_contains m x \<longleftrightarrow> rval a \<le> x \<and> x \<le> rval b" "mv_exact m \<noteq> None \<longrightarrow> a = b"
proof (cases "mv_exact m")
  case None
  have s: "signed_ok (mv_lower m)" "signed_ok (mv_upper m)" using assms by (simp_all add: money_wf_def)
  show thesis
    by (rule that [of "rat_rep (sdec_val (mv_lower m))" "rat_rep (sdec_val (mv_upper m))"])
      (use None signed_rational [OF s(1)] signed_rational [OF s(2)] in \<open>simp_all add: money_bound_def money_contains_def\<close>)
next
  case (Some q)
  show thesis
    by (rule that [of q q]) (use Some wf_exact_ok [OF assms Some] in \<open>auto simp: money_bound_def money_contains_def\<close>)
qed

lemma threshold_spec:
  assumes "money_wf m" "decimal_positive equity = Inr e" "decimal_with True (Some ''100'') threshold = Inr t"
  obtains a b where
    "channelReturnThreshold m equity threshold loss = Inr
      (let boundary = (if loss then - (dec_val e * dec_val t / 100) else dec_val e * dec_val t / 100) in
       if loss then lossReturnThreshold (rat_cmp a boundary) (rat_cmp b boundary)
       else gainReturnThreshold (rat_cmp a boundary) (rat_cmp b boundary))"
    "\<And>x. money_contains m x \<longleftrightarrow> a \<le> x \<and> x \<le> b" "mv_exact m \<noteq> None \<longrightarrow> a = b"
proof -
  have v: "decimal_pattern e" "decimal_pattern t" using assms(2,3) decimal_with_valid unfolding decimal_positive_def by auto
  define w where "w = dec_val e * dec_val t / 100"
  note f = boundary_fits [OF v]
  obtain a b where ab: "money_bound m (mv_lower m) = Inr a" "rational_ok a" "money_bound m (mv_upper m) = Inr b" "rational_ok b"
    "\<And>x. money_contains m x \<longleftrightarrow> rval a \<le> x \<and> x \<le> rval b" "mv_exact m \<noteq> None \<longrightarrow> a = b"
    using assms(1) by (rule money_bound_value) blast
  have mul: "multiplyRational (rat_rep (dec_val e)) (rat_rep (dec_val t)) = Inr (rat_rep (dec_val e * dec_val t))"
    using decimal_rational(2) [OF v(1)] decimal_rational(2) [OF v(2)] f(1) by (simp add: multiply_rational_law return_rat_def)
  have div: "divideRational (rat_rep (dec_val e * dec_val t)) (rat_rep 100) = Inr (rat_rep w)"
    using f hundred_rational(2) by (simp add: divide_rational_law rat_rep_ok return_rat_def w_def)
  have bnd: "(if loss then (rat_rep w)\<lparr>numerator := show_int (- bigint_of (numerator (rat_rep w)))\<rparr> else rat_rep w)
      = rat_rep (if loss then - w else w)"
    using negate_rat_rep [of w] by (simp add: rat_rep_def)
  have ok: "rational_ok (rat_rep (if loss then - w else w))" using f(2) by (simp add: rat_rep_ok w_def)
  have val: "validateMoneyValue (js_of_money m) = Inr m" using assms(1) validate_iff by blast
  have "channelReturnThreshold m equity threshold loss = Inr
      (if loss then lossReturnThreshold (rat_cmp (rval a) (if loss then - w else w)) (rat_cmp (rval b) (if loss then - w else w))
       else gainReturnThreshold (rat_cmp (rval a) (if loss then - w else w)) (rat_cmp (rval b) (if loss then - w else w)))"
    unfolding channelReturnThreshold_def val rbind.simps assms(2,3) decimal_rational(1) [OF v(1)] decimal_rational(1) [OF v(2)]
      mul hundred_rational(1) div Let_def bnd ab(1) ab(3) compare_rational_law [OF ab(2) ok] compare_rational_law [OF ab(4) ok] rval_rat_rep ..
  with that [of "rval a" "rval b"] ab(5,6) show thesis unfolding w_def Let_def by metis
qed


section \<open>Properties\<close>

text \<open>
  The threshold test always decides from the true amount. On a well-formed amount with a
  positive equity and a percentage up to 100 it returns; \<^verbatim>\<open>reached\<close> means that every amount the
  value may stand for is at least (for a loss: at most minus) that percentage of the equity,
  \<^verbatim>\<open>not_reached\<close> that none is, and an exact value is never \<^verbatim>\<open>uncertain\<close>.
\<close>

theorem channel_threshold_sound:
  assumes "money_wf m" "decimal_positive equity = Inr e" "decimal_with True (Some ''100'') threshold = Inr t"
    and "money_contains m x"
  shows "\<exists>d. channelReturnThreshold m equity threshold loss = Inr d \<and>
    (d = Reached \<longrightarrow> (if loss then x \<le> - (dec_val e * dec_val t / 100) else dec_val e * dec_val t / 100 \<le> x)) \<and>
    (d = Not_reached \<longrightarrow> \<not> (if loss then x \<le> - (dec_val e * dec_val t / 100) else dec_val e * dec_val t / 100 \<le> x)) \<and>
    (mv_exact m \<noteq> None \<longrightarrow> d \<noteq> Uncertain)"
proof -
  obtain a b where ab: "channelReturnThreshold m equity threshold loss = Inr
      (let boundary = (if loss then - (dec_val e * dec_val t / 100) else dec_val e * dec_val t / 100) in
       if loss then lossReturnThreshold (rat_cmp a boundary) (rat_cmp b boundary)
       else gainReturnThreshold (rat_cmp a boundary) (rat_cmp b boundary))"
    "\<And>x. money_contains m x \<longleftrightarrow> a \<le> x \<and> x \<le> b" "mv_exact m \<noteq> None \<longrightarrow> a = b"
    using assms(1-3) by (rule threshold_spec) blast
  have x: "a \<le> x" "x \<le> b" using ab(2) assms(4) by auto
  show ?thesis
    unfolding ab(1) Let_def using x ab(3)
    by (cases loss) (auto simp: lossReturnThreshold_def gainReturnThreshold_def)
qed

end
