(* ===== verification/Trading_Fx.thy ===== *)
theory Trading_Fx
  imports Trading_Types "HOL-Library.Char_ord" "HOL-Library.List_Lexorder" "HOL-Library.Product_Lexorder"
begin

text \<open>
  Conversions between reporting and settlement currency: the evidence contract of one index
  receipt (\<^verbatim>\<open>src/trading_fx_contract.ts\<close>), the conversion derived from a coherent set of receipts
  (\<^verbatim>\<open>src/trading_fx_quotes.ts\<close>) and position sizing across currencies
  (\<^verbatim>\<open>src/trading_fx_sizing.ts\<close>). The hash of \<^verbatim>\<open>node:crypto\<close> and the clock are parameters. Strings
  are sequences of the first 256 code points, so a surrogate cannot occur.
\<close>

section \<open>The evidence contract\<close>

definition invalidFx :: "string \<Rightarrow> 'a result" where
  "invalidFx reason = Inl (FxEvidenceError (''FX_'' @ reason))"

definition invalid_evidence :: "'a result" where
  "invalid_evidence = invalidFx ''EVIDENCE_INVALID''"

definition fx_object :: "js \<Rightarrow> (string \<times> js) list result" where
  "fx_object value = (case value of JObj props \<Rightarrow> Inr props | _ \<Rightarrow> invalid_evidence)"

definition byte_length :: "string \<Rightarrow> nat" where
  "byte_length s = sum_list (map (\<lambda>c. if (of_char c :: nat) < 128 then 1 else 2) s)"

definition control_char :: "char \<Rightarrow> bool" where
  "control_char c = (let n = (of_char c :: nat) in n < 32 \<or> 127 \<le> n \<and> n \<le> 159)"

text \<open>
  \<open>canonical n value budget\<close> is the source's \<^verbatim>\<open>canonical\<close> at depth \<^verbatim>\<open>13 - n\<close>, so that the depth limit
  is the end of the recursion; the mutable budget is passed through.
\<close>

fun canonical :: "nat \<Rightarrow> js \<Rightarrow> int \<Rightarrow> (string \<times> int) result" where
  "canonical 0 value budget = invalid_evidence"
| "canonical (Suc n) value budget =
     (let remaining = budget - 1 in
      if remaining < 0 then invalid_evidence
      else case value of
        JNull \<Rightarrow> Inr (''null'', remaining)
      | JBool b \<Rightarrow> Inr (if b then ''true'' else ''false'', remaining)
      | JNum _ \<Rightarrow> (case safe_integer_of value of Some k \<Rightarrow> Inr (show_int k, remaining) | None \<Rightarrow> invalid_evidence)
      | JStr s \<Rightarrow> if byte_length s < 32768 then Inr (json_string s, remaining) else invalid_evidence
      | JArr xs \<Rightarrow>
          if int (length xs) > remaining then invalid_evidence
          else rbind (foldM (\<lambda>(items, b) x. rbind (canonical n x b) (\<lambda>(t, b'). Inr (items @ [t], b'))) ([], remaining) xs)
            (\<lambda>(items, b). Inr (json_array items, b))
      | JObj props \<Rightarrow>
          rbind (foldM (\<lambda>(items, b) kv.
              if length (fst kv) > 256 \<or> list_ex control_char (fst kv) then invalid_evidence
              else rbind (canonical n (JStr (fst kv)) b) (\<lambda>(key, b'). rbind (canonical n (snd kv) b') (\<lambda>(t, b'').
                Inr (items @ [key @ '':'' @ t], b''))))
            ([], remaining) (sort_key fst props))
            (\<lambda>(items, b). Inr (''{'' @ join_with '','' items @ ''}'', b))
      | JUndefined \<Rightarrow> invalid_evidence)"

definition fxEvidenceDigest :: "(string \<Rightarrow> string) \<Rightarrow> string \<Rightarrow> js \<Rightarrow> string result" where
  "fxEvidenceDigest sha256 domain value =
     rbind (canonical 13 value (if domain = ''bybit-fx-envelope-v1'' then 256 else 512)) (\<lambda>(encoded, _).
       if byte_length encoded \<ge> (if domain = ''bybit-fx-envelope-v1'' then 65536 else 131072) then invalid_evidence
       else Inr (sha256 (domain @ CHR 0x0A # encoded)))"

definition hex64 :: "string \<Rightarrow> bool" where
  "hex64 s \<longleftrightarrow> length s = 64 \<and> list_all (\<lambda>c. is_digit c \<or> c \<in> set ''abcdef'') s"

record fx_context =
  fctx_mode :: string
  fctx_profileHash :: string

record fx_leg_receipt =
  flr_legId :: string
  flr_value :: string
  flr_providerResponseAt :: int
  flr_receiptHash :: string

definition fx_shape :: string where
  "fx_shape = join_with '','' (sort [''version'', ''provider'', ''mode'', ''origin'', ''endpoint'', ''source'', ''legId'', ''routeId'',
     ''ccxtVersion'', ''profileVersion'', ''profileHash'', ''category'', ''symbol'', ''field'', ''value'', ''providerQuoteAt'',
     ''providerResponseAt'', ''timeBasis'', ''startedAt'', ''completedAt'', ''envelope'', ''envelopeHash'', ''receiptHash''])"

definition fx_definitions :: "(string \<times> string list) list" where
  "fx_definitions =
    [(''bybit:btc-usd-index:v1'', [''bybit:usdt-usd-index-ratio:v1'', ''inverse'', ''BTCUSD'', ''indexPrice'']),
     (''bybit:btc-usdt-index:v1'', [''bybit:usdt-usd-index-ratio:v1'', ''linear'', ''BTCUSDT'', ''indexPrice'']),
     (''bybit:usdc-usd-index:v1'', [''bybit:usdc-usd-index:v1'', ''spot'', ''USDCUSDT'', ''usdIndexPrice''])]"

definition require_fx :: "bool \<Rightarrow> unit result" where
  "require_fx c = (if c then Inr () else invalid_evidence)"

definition fx_timestamp :: "js \<Rightarrow> int result" where
  "fx_timestamp value = (case safe_integer_of value of
       Some n \<Rightarrow> if n < 0 then invalid_evidence else Inr n
     | None \<Rightarrow> invalid_evidence)"

definition validateTimes :: "int \<Rightarrow> (string \<times> js) list \<Rightarrow> int result" where
  "validateTimes now row =
     rbind (require_fx (js_get row ''providerQuoteAt'' = JNull \<and> js_get row ''timeBasis'' = JStr ''provider_snapshot_observation'')) (\<lambda>_.
     rbind (fx_timestamp (js_get row ''startedAt'')) (\<lambda>startedAt.
     rbind (fx_timestamp (js_get row ''completedAt'')) (\<lambda>completedAt.
     rbind (fx_timestamp (js_get row ''providerResponseAt'')) (\<lambda>responseAt.
       if startedAt > completedAt \<or> completedAt - startedAt > 10000 \<or> completedAt > now + 1000
          \<or> responseAt < startedAt - 1000 \<or> responseAt > completedAt + 1000
       then invalid_evidence else Inr responseAt))))"

definition validateProfile :: "(string \<times> js) list \<Rightarrow> fx_context \<Rightarrow> unit result" where
  "validateProfile row context =
     rbind (require_fx (js_get row ''version'' = JNum (Num 1) \<and> js_get row ''provider'' = JStr ''bybit''
       \<and> js_get row ''source'' = JStr ''bybit-v5-rest-index-snapshot-v1'' \<and> js_get row ''endpoint'' = JStr ''/v5/market/tickers''
       \<and> js_get row ''ccxtVersion'' = JStr ''4.5.75'' \<and> js_get row ''profileVersion'' = JNum (Num 1))) (\<lambda>_.
     require_fx (js_get row ''mode'' \<in> {JStr ''live'', JStr ''testnet''} \<and> js_get row ''mode'' = JStr (fctx_mode context)
       \<and> js_get row ''profileHash'' = JStr (fctx_profileHash context) \<and> hex64 (fctx_profileHash context)
       \<and> js_get row ''origin'' = JStr (if js_get row ''mode'' = JStr ''live'' then ''https://api.bybit.com'' else ''https://api-testnet.bybit.com'')))"

definition validateLeg :: "(string \<times> js) list \<Rightarrow> (string \<times> string) result" where
  "validateLeg row = (case js_get row ''legId'' of
       JStr legId \<Rightarrow> (case map_of fx_definitions legId of
           None \<Rightarrow> invalid_evidence
         | Some definition \<Rightarrow>
             if map (js_get row) [''routeId'', ''category'', ''symbol'', ''field''] \<noteq> map JStr definition then invalid_evidence
             else (case js_get row ''value'' of
                 JStr v \<Rightarrow> if list_ex is_space v then invalid_evidence
                   else (case decimal_positive v of Inl _ \<Rightarrow> invalid_evidence | Inr _ \<Rightarrow> Inr (legId, v))
               | _ \<Rightarrow> invalid_evidence))
     | _ \<Rightarrow> invalid_evidence)"

definition validateEnvelope :: "(string \<Rightarrow> string) \<Rightarrow> (string \<times> js) list \<Rightarrow> int \<Rightarrow> unit result" where
  "validateEnvelope sha256 row responseAt =
     rbind (fx_object (js_get row ''envelope'')) (\<lambda>envelope.
     rbind (fx_object (js_get envelope ''result'')) (\<lambda>res.
     rbind (require_fx (safe_integer_of (js_get envelope ''retCode'') = Some 0 \<and> safe_integer_of (js_get envelope ''time'') = Some responseAt
       \<and> js_get res ''category'' = js_get row ''category'')) (\<lambda>_.
       case js_get res ''list'' of
         JArr [item] \<Rightarrow>
           rbind (fx_object item) (\<lambda>ticker.
           rbind (require_fx (js_get ticker ''symbol'' = js_get row ''symbol''
             \<and> (case js_get row ''field'' of JStr f \<Rightarrow> js_get ticker f = js_get row ''value'' | _ \<Rightarrow> False))) (\<lambda>_.
           rbind (fxEvidenceDigest sha256 ''bybit-fx-envelope-v1'' (JObj envelope)) (\<lambda>digest.
             require_fx (js_get row ''envelopeHash'' = JStr digest))))
       | _ \<Rightarrow> invalid_evidence)))"

definition validateFxLegReceipt :: "(string \<Rightarrow> string) \<Rightarrow> int \<Rightarrow> js \<Rightarrow> fx_context \<Rightarrow> fx_leg_receipt result" where
  "validateFxLegReceipt sha256 now value context =
     rbind (fx_object value) (\<lambda>row.
     rbind (require_fx (join_with '','' (sort (map fst row)) = fx_shape)) (\<lambda>_.
     rbind (validateProfile row context) (\<lambda>_.
     rbind (validateLeg row) (\<lambda>(legId, v).
     rbind (validateTimes now row) (\<lambda>responseAt.
     rbind (validateEnvelope sha256 row responseAt) (\<lambda>_.
     rbind (fxEvidenceDigest sha256 ''bybit-fx-receipt-v1'' (JObj (filter (\<lambda>kv. fst kv \<noteq> ''receiptHash'') row))) (\<lambda>digest.
       if js_get row ''receiptHash'' \<noteq> JStr digest then invalid_evidence
       else Inr \<lparr>flr_legId = legId, flr_value = v, flr_providerResponseAt = responseAt, flr_receiptHash = digest\<rparr>)))))))"


section \<open>Quotes\<close>

definition leg_order :: "string list" where
  "leg_order = [''bybit:btc-usd-index:v1'', ''bybit:btc-usdt-index:v1'', ''bybit:usdc-usd-index:v1'']"

definition assetLegs :: "string \<Rightarrow> string list result" where
  "assetLegs asset =
     (if asset = ''USD'' then Inr []
      else if asset = ''USDT'' then Inr (take 2 leg_order)
      else if asset = ''USDC'' then Inr [leg_order ! 2]
      else invalidFx ''ASSET_UNSUPPORTED'')"

text \<open>The observations of the source are a \<^verbatim>\<open>Map\<close> in insertion order.\<close>

fun observe :: "fx_leg_receipt list \<Rightarrow> fx_leg_receipt \<Rightarrow> fx_leg_receipt list result" where
  "observe [] row = Inr [row]"
| "observe (prior # rest) row =
     (if flr_legId prior = flr_legId row \<and> flr_providerResponseAt prior = flr_providerResponseAt row
      then rbind (compareDecimal (flr_value prior) (flr_value row)) (\<lambda>c.
        if c \<noteq> 0 then invalidFx ''QUOTE_CONFLICT''
        else Inr ((if flr_receiptHash row < flr_receiptHash prior then row else prior) # rest))
      else rbind (observe rest row) (\<lambda>rest'. Inr (prior # rest')))"

definition eligibleReceipts ::
    "(string \<Rightarrow> string) \<Rightarrow> int \<Rightarrow> js list \<Rightarrow> string list \<Rightarrow> int \<Rightarrow> fx_context \<Rightarrow> fx_leg_receipt list result" where
  "eligibleReceipts sha256 now values required asOf context =
     rbind (mapM (\<lambda>row. validateFxLegReceipt sha256 now row context) values) (\<lambda>all.
     rbind (foldM observe [] (filter (\<lambda>row. flr_legId row \<in> set required \<and> flr_providerResponseAt row \<le> asOf
         \<and> flr_providerResponseAt row \<ge> asOf - 10000) all)) (\<lambda>observations.
       Inr (sort_key (\<lambda>row. (- flr_providerResponseAt row, flr_receiptHash row)) observations)))"

definition window_leg :: "fx_leg_receipt list \<Rightarrow> int \<Rightarrow> string \<Rightarrow> fx_leg_receipt option" where
  "window_leg rows anchor legId = find (\<lambda>row. flr_legId row = legId \<and> flr_providerResponseAt row \<le> anchor
     \<and> flr_providerResponseAt row \<ge> anchor - 1000) rows"

fun coherent_from :: "fx_leg_receipt list \<Rightarrow> fx_leg_receipt list \<Rightarrow> string list \<Rightarrow> fx_leg_receipt list result" where
  "coherent_from [] rows required = invalidFx ''QUOTE_UNAVAILABLE''"
| "coherent_from (anchor # anchors) rows required =
     (let selected = map (window_leg rows (flr_providerResponseAt anchor)) required in
      if list_all (\<lambda>s. s \<noteq> None) selected then Inr (map the selected)
      else coherent_from anchors rows required)"

definition coherentLegs :: "fx_leg_receipt list \<Rightarrow> string list \<Rightarrow> fx_leg_receipt list result" where
  "coherentLegs rows required = coherent_from rows rows required"

definition usdRate :: "string \<Rightarrow> fx_leg_receipt list \<Rightarrow> exact_rational result" where
  "usdRate asset receipts =
     (if asset = ''USD'' then rationalFromDecimal ''1''
      else rbind (assetLegs asset) (\<lambda>ids.
        rbind (mapM (\<lambda>legId. case find (\<lambda>r. flr_legId r = legId) receipts of
            None \<Rightarrow> invalidFx ''QUOTE_UNAVAILABLE'' | Some row \<Rightarrow> rationalFromDecimal (flr_value row)) ids) (\<lambda>legs.
          case legs of
            [] \<Rightarrow> invalidFx ''QUOTE_UNAVAILABLE''
          | first # rest \<Rightarrow>
              if asset = ''USDC'' then Inr first
              else (case rest of [] \<Rightarrow> invalidFx ''QUOTE_UNAVAILABLE'' | second # _ \<Rightarrow> divideRational first second))))"

definition js_of_conversion :: "fx_conversion \<Rightarrow> js" where
  "js_of_conversion c = JObj
     [(''version'', JNum (Num (of_int (fx_version c)))), (''valuationBasis'', JStr (fx_valuationBasis c)), (''policy'', JStr (fx_policy c)),
      (''mode'', JStr (fx_mode c)), (''profileHash'', JStr (fx_profileHash c)), (''baseAsset'', JStr (fx_baseAsset c)),
      (''quoteAsset'', JStr (fx_quoteAsset c)), (''at'', JNum (Num (of_int (fx_at c)))), (''earliestAt'', JNum (Num (of_int (fx_earliestAt c)))),
      (''latestAt'', JNum (Num (of_int (fx_latestAt c)))), (''expiresAt'', JNum (Num (of_int (fx_expiresAt c)))),
      (''rate'', js_of_rational (fx_rate c)), (''receiptHashes'', JArr (map JStr (fx_receiptHashes c)))]"

definition deriveFxConversion ::
    "(string \<Rightarrow> string) \<Rightarrow> int \<Rightarrow> js list \<Rightarrow> string \<Rightarrow> string \<Rightarrow> int \<Rightarrow> fx_context \<Rightarrow> fx_conversion result" where
  "deriveFxConversion sha256 now values baseAsset quoteAsset asOf context =
     (if length values > 256 \<or> \<not> is_safe_integer asOf \<or> asOf < 0 \<or> baseAsset = quoteAsset then invalid_evidence
      else
        rbind (assetLegs baseAsset) (\<lambda>bl. rbind (assetLegs quoteAsset) (\<lambda>ql.
        let required = filter (\<lambda>legId. legId \<in> set (bl @ ql)) leg_order in
        rbind (rbind (eligibleReceipts sha256 now values required asOf context) (\<lambda>rows. coherentLegs rows required)) (\<lambda>selected.
        let times = map flr_providerResponseAt selected; earliest = Min (set times); latest = Max (set times) in
        rbind (usdRate baseAsset selected) (\<lambda>b. rbind (usdRate quoteAsset selected) (\<lambda>q. rbind (divideRational b q) (\<lambda>rate.
        let original = \<lparr>fx_version = 1, fx_valuationBasis = ''provider_snapshot_index_asof'', fx_policy = ''stable-index-asof-10s-v1'',
              fx_mode = fctx_mode context, fx_profileHash = fctx_profileHash context, fx_baseAsset = baseAsset, fx_quoteAsset = quoteAsset,
              fx_at = asOf, fx_earliestAt = earliest, fx_latestAt = latest, fx_expiresAt = earliest + 10000, fx_rate = rate,
              fx_receiptHashes = map flr_receiptHash selected, fx_evidenceHash = []\<rparr>
        in rbind (fxEvidenceDigest sha256 ''tsx-fx-conversion-v1'' (js_of_conversion original)) (\<lambda>digest.
             Inr (original\<lparr>fx_evidenceHash := digest\<rparr>)))))))))"

definition assertFxConversionFresh :: "(string \<Rightarrow> string) \<Rightarrow> fx_conversion \<Rightarrow> int \<Rightarrow> unit result" where
  "assertFxConversionFresh sha256 value now =
     rbind (fxEvidenceDigest sha256 ''tsx-fx-conversion-v1'' (js_of_conversion value)) (\<lambda>digest.
       if fx_evidenceHash value \<noteq> digest \<or> fx_version value \<noteq> 1
          \<or> fx_policy value \<noteq> ''stable-index-asof-10s-v1'' \<or> fx_valuationBasis value \<noteq> ''provider_snapshot_index_asof''
          \<or> \<not> list_all is_safe_integer [fx_at value, fx_earliestAt value, fx_latestAt value, fx_expiresAt value, now]
          \<or> fx_earliestAt value < 0 \<or> fx_latestAt value < fx_earliestAt value \<or> fx_latestAt value - fx_earliestAt value > 1000
          \<or> fx_at value < fx_latestAt value \<or> fx_at value > fx_expiresAt value \<or> fx_expiresAt value \<noteq> fx_earliestAt value + 10000
          \<or> now < fx_latestAt value \<or> now > fx_expiresAt value
       then invalidFx ''QUOTE_EXPIRED_OR_CHANGED'' else Inr ())"


section \<open>Sizing across currencies\<close>

definition positive :: "string \<Rightarrow> exact_rational result" where
  "positive value = rbind (decimal_positive value) rationalFromDecimal"

definition nonnegative :: "string \<Rightarrow> exact_rational result" where
  "nonnegative value = rbind (decimal value) rationalFromDecimal"

definition minimum :: "exact_rational \<Rightarrow> exact_rational list \<Rightarrow> exact_rational result" where
  "minimum first values = foldM (\<lambda>left right. rbind (compareRational left right) (\<lambda>c. Inr (if c \<le> 0 then left else right))) first values"

record fx_sizing_input =
  fsi_account :: account_snapshot
  fsi_market :: market_snapshot
  fsi_strategy :: strategy_configuration
  fsi_fxConversion :: "stored_fx_conversion option"

record fx_quantity_input = fx_sizing_input +
  fqi_entry :: string
  fqi_distance :: string
  fqi_percent :: string
  fqi_leverage :: int

definition stable_assets :: "string list" where
  "stable_assets = [''USD'', ''USDT'', ''USDC'']"

definition assertSizingRecipe ::
    "(string \<Rightarrow> string) \<Rightarrow> int \<Rightarrow> stored_fx_conversion option \<Rightarrow> string \<Rightarrow> string \<Rightarrow> stored_fx_conversion result" where
  "assertSizingRecipe sha256 now fx reporting settlement =
     (if \<not> (reporting \<in> set stable_assets \<and> settlement \<in> set stable_assets) then invalidFx ''SIZING_ASSET_UNSUPPORTED''
      else case fx of
        None \<Rightarrow> invalidFx ''SIZING_CONVERSION_UNPROVEN''
      | Some stored \<Rightarrow>
          if \<not> hex64 (sfx_id stored) \<or> fx_baseAsset (sfx_conversion stored) \<noteq> settlement \<or> fx_quoteAsset (sfx_conversion stored) \<noteq> reporting
          then invalidFx ''SIZING_CONVERSION_UNPROVEN''
          else rbind (assertFxConversionFresh sha256 (sfx_conversion stored) now) (\<lambda>_.
            rbind (rationalFromDecimal ''0'') (\<lambda>zero. rbind (compareRational (fx_rate (sfx_conversion stored)) zero) (\<lambda>c.
              if c \<le> 0 then invalidFx ''SIZING_RATE_INVALID'' else Inr stored))))"

text \<open>Empty currency codes count as missing, as in the source's truth test.\<close>

definition reporting_currency :: "account_snapshot \<Rightarrow> string" where
  "reporting_currency account = (case as_accounting account of None \<Rightarrow> [] | Some a \<Rightarrow> ae_reportingCurrency a)"

definition settlement_asset :: "market_snapshot \<Rightarrow> string" where
  "settlement_asset market = (case ms_accounting market of None \<Rightarrow> [] | Some a \<Rightarrow> fa_settlementAsset a)"

definition fxSizingContext :: "(string \<Rightarrow> string) \<Rightarrow> int \<Rightarrow> 'b fx_sizing_input_scheme \<Rightarrow> fx_sizing_context option result" where
  "fxSizingContext sha256 now input =
     (let reporting = reporting_currency (fsi_account input); settlement = settlement_asset (fsi_market input) in
      if reporting = [] \<or> settlement = []
      then (if fsi_fxConversion input \<noteq> None then invalidFx ''SIZING_UNITS_UNPROVEN'' else Inr None)
      else if reporting = settlement
      then (if fsi_fxConversion input \<noteq> None then invalidFx ''SIZING_UNEXPECTED_CONVERSION'' else Inr None)
      else rbind (assertSizingRecipe sha256 now (fsi_fxConversion input) reporting settlement) (\<lambda>fx.
        Inr (Some \<lparr>fxc_version = 1, fxc_conversionId = sfx_id fx, fxc_conversion = sfx_conversion fx, fxc_reportingCurrency = reporting,
          fxc_notionalCurrency = settlement, fxc_strategyMaximumNotionalCurrency = settlement,
          fxc_riskAmountCurrency = (if sz_positionSizingMode (st_sizing (fsi_strategy input)) \<in> {None, Some Risk_percent}
            then reporting else settlement)\<rparr>)))"

record sizing_budget =
  sb_capital :: exact_rational
  sb_leverage :: exact_rational
  sb_available :: exact_rational
  sb_strategyMaximum :: exact_rational

definition sizingBudgets :: "(string \<Rightarrow> string) \<Rightarrow> int \<Rightarrow> fx_quantity_input \<Rightarrow> sizing_budget result" where
  "sizingBudgets sha256 now input =
     rbind (fxSizingContext sha256 now input) (\<lambda>context.
       case (context, fsi_fxConversion input) of
         (Some _, Some fx) \<Rightarrow>
           (let rate = fx_rate (sfx_conversion fx) in
            rbind (positive (show_int (fqi_leverage input))) (\<lambda>leverage.
            rbind (nonnegative (as_equity (fsi_account input))) (\<lambda>equity.
            rbind (positive (fqi_percent input)) (\<lambda>percent.
            rbind (multiplyRational equity percent) (\<lambda>scaled.
            rbind (positive ''100'') (\<lambda>hundred.
            rbind (divideRational scaled hundred) (\<lambda>capitalReporting.
            rbind (divideRational capitalReporting rate) (\<lambda>capital.
            rbind (nonnegative (as_availableBalance (fsi_account input))) (\<lambda>balance.
            rbind (multiplyRational balance leverage) (\<lambda>power.
            rbind (divideRational power rate) (\<lambda>available.
            rbind (positive (sz_maxPositionNotional (st_sizing (fsi_strategy input)))) (\<lambda>strategyMaximum.
              Inr \<lparr>sb_capital = capital, sb_leverage = leverage, sb_available = available, sb_strategyMaximum = strategyMaximum\<rparr>))))))))))))
       | _ \<Rightarrow> invalidFx ''SIZING_CONVERSION_UNPROVEN'')"

definition notionalBudget :: "sizing_budget \<Rightarrow> position_sizing_mode option \<Rightarrow> exact_rational result" where
  "notionalBudget budget mode =
     (if mode = Some Equity_percent_margin
      then rbind (multiplyRational (sb_capital budget) (sb_leverage budget)) (\<lambda>m.
        minimum (sb_strategyMaximum budget) [sb_available budget, m])
      else if mode = Some Equity_percent_notional
      then minimum (sb_strategyMaximum budget) [sb_available budget, sb_capital budget]
      else minimum (sb_strategyMaximum budget) [sb_available budget])"

definition risk_limited :: "fx_quantity_input \<Rightarrow> position_sizing_mode \<Rightarrow> sizing_budget \<Rightarrow> exact_rational \<Rightarrow> exact_rational result" where
  "risk_limited input mode budget quantity =
     (if mode = Risk_percent
      then rbind (positive (fqi_distance input)) (\<lambda>distance. rbind (divideRational (sb_capital budget) distance) (\<lambda>byRisk.
        minimum quantity [byRisk]))
      else Inr quantity)"

definition fxSizedQuantity :: "(string \<Rightarrow> string) \<Rightarrow> int \<Rightarrow> fx_quantity_input \<Rightarrow> string result" where
  "fxSizedQuantity sha256 now input =
     rbind (sizingBudgets sha256 now input) (\<lambda>budget.
     let mode = (case sz_positionSizingMode (st_sizing (fsi_strategy input)) of None \<Rightarrow> Risk_percent | Some m \<Rightarrow> m) in
     rbind (notionalBudget budget (Some mode)) (\<lambda>notional.
     rbind (positive (fqi_entry input)) (\<lambda>entry.
     rbind (divideRational notional entry) (\<lambda>quantity.
     rbind (risk_limited input mode budget quantity) (\<lambda>limited.
     rbind (quantizeRational limited (ms_quantityStep (fsi_market input)) Floor) (\<lambda>res.
     rbind (compareDecimal res (ms_minimumQuantity (fsi_market input))) (\<lambda>c.
       if c < 0 \<or> res = ''0'' then invalidFx ''SIZING_QUANTITY_BELOW_MINIMUM''
       else rbind (nonnegative res) (\<lambda>r. rbind (positive (fqi_entry input)) (\<lambda>entry'. rbind (multiplyRational r entry') (\<lambda>actual.
         rbind (nonnegative (ms_minimumNotional (fsi_market input))) (\<lambda>least. rbind (compareRational actual least) (\<lambda>d.
           if d < 0 then invalidFx ''SIZING_NOTIONAL_BELOW_MINIMUM'' else Inr res))))))))))))"

definition fxNotionalBudget :: "(string \<Rightarrow> string) \<Rightarrow> int \<Rightarrow> fx_quantity_input \<Rightarrow> money_value result" where
  "fxNotionalBudget sha256 now input =
     rbind (sizingBudgets sha256 now input) (\<lambda>budget.
     rbind (notionalBudget budget (sz_positionSizingMode (st_sizing (fsi_strategy input)))) moneyValueFromRational)"


section \<open>What the code computes\<close>

lemma minimum_Inr:
  assumes "minimum a xs = Inr m" "rational_ok a"
  shows "rational_ok m" "rval m \<le> rval a" "\<And>x. x \<in> set xs \<Longrightarrow> rval m \<le> rval x" "m = a \<or> m \<in> set xs"
proof -
  have "rational_ok m \<and> rval m \<le> rval a \<and> (\<forall>x\<in>set xs. rval m \<le> rval x) \<and> (m = a \<or> m \<in> set xs)"
    using assms unfolding minimum_def
  proof (induction xs arbitrary: a)
    case (Cons x xs)
    obtain c where c: "compareRational a x = Inr c" "rbind (Inr (if c \<le> 0 then a else x)) (\<lambda>b. foldM (\<lambda>left right. rbind (compareRational left right) (\<lambda>c. Inr (if c \<le> 0 then left else right))) b xs) = Inr m"
      using Cons.prems(1) by (auto simp: rbind_Inr_iff)
    note cc = compare_rational_Inr [OF c(1)]
    then have "rational_ok (if c \<le> 0 then a else x)" by simp
    from Cons.IH [OF c(2) [unfolded rbind.simps] this] cc show ?case by (auto split: if_splits)
  qed simp
  then show "rational_ok m" "rval m \<le> rval a" "\<And>x. x \<in> set xs \<Longrightarrow> rval m \<le> rval x" "m = a \<or> m \<in> set xs" by auto
qed

lemma positive_value: "positive v = Inr q \<Longrightarrow> rational_ok q \<and> rval q = dec_val (js_trim v) \<and> 0 < dec_val (js_trim v)"
  unfolding positive_def using positive_rational_Inr by blast

lemma nonnegative_value: "nonnegative v = Inr q \<Longrightarrow> rational_ok q \<and> rval q = dec_val (js_trim v) \<and> 0 \<le> dec_val (js_trim v)"
  unfolding nonnegative_def using nonneg_rational_Inr by blast

lemma decimal_with_positive_int:
  assumes "decimal_positive (show_int n) = Inr t"
  shows "0 < n"
proof (rule ccontr)
  assume "\<not> 0 < n"
  then consider "n = 0" | "n < 0" by linarith
  then show False
  proof cases
    case 1
    then show False using decimal_positive_value [OF assms] by (auto simp: show_int_def)
  next
    case 2
    then have "starts_neg (show_int n)" by (simp add: show_int_def)
    moreover have "js_trim (show_int n) = show_int n"
    proof (rule js_trim_id)
      have "last (show_int n) = last (show_nonneg (- n))" using 2 by (simp add: show_int_def)
      moreover have "is_digit (last (show_nonneg (- n)))"
        using 2 all_digits_mem [of "show_nonneg (- n)"] by (simp add: last_in_set)
      ultimately show "\<not> is_space (hd (show_int n)) \<and> \<not> is_space (last (show_int n))"
        using 2 digit_not_space minus_not_space by (simp add: show_int_def)
    qed
    ultimately show False using decimal_positive_value [OF assms] valid_unsigned by auto
  qed
qed

lemma positive_int_value: "positive (show_int n) = Inr q \<Longrightarrow> rational_ok q \<and> rval q = of_int n \<and> 0 < n"
proof -
  assume p: "positive (show_int n) = Inr q"
  then have n: "0 < n" using decimal_with_positive_int by (auto simp: positive_def rbind_Inr_iff)
  moreover have "js_trim (show_int n) = show_int n"
    using p n js_trim_id [of "show_int n"] hd_digit digit_not_space all_digits_mem [of "show_nonneg n"]
    by (simp add: show_int_def last_in_set)
  ultimately show ?thesis using positive_value [OF p] integer_canonical [of n] by simp
qed


lemma context_rate:
  assumes "fxSizingContext sha256 now input = Inr (Some c)"
  obtains fx where "fsi_fxConversion input = Some fx" "rational_ok (fx_rate (sfx_conversion fx))" "0 < rval (fx_rate (sfx_conversion fx))"
    "assertFxConversionFresh sha256 (sfx_conversion fx) now = Inr ()"
    "fx_baseAsset (sfx_conversion fx) = settlement_asset (fsi_market input)" "fx_quoteAsset (sfx_conversion fx) = reporting_currency (fsi_account input)"
proof -
  have "\<exists>stored. assertSizingRecipe sha256 now (fsi_fxConversion input) (reporting_currency (fsi_account input)) (settlement_asset (fsi_market input)) = Inr stored"
    using assms by (auto simp: fxSizingContext_def Let_def rbind_Inr_iff invalidFx_def split: if_splits)
  then obtain fx z k where fx: "fsi_fxConversion input = Some fx" "rationalFromDecimal ''0'' = Inr z"
      "compareRational (fx_rate (sfx_conversion fx)) z = Inr k" "\<not> k \<le> 0" "assertFxConversionFresh sha256 (sfx_conversion fx) now = Inr ()"
      "fx_baseAsset (sfx_conversion fx) = settlement_asset (fsi_market input)" "fx_quoteAsset (sfx_conversion fx) = reporting_currency (fsi_account input)"
    by (auto simp: assertSizingRecipe_def rbind_Inr_iff invalidFx_def split: if_splits option.splits)
  have "z = rat_rep 0" using fx(2) decimal_rational(1) [OF zero_valid(1)] by simp
  then show thesis using that fx compare_rational_Inr [OF fx(3)] by auto
qed

lemma budgets_Inr:
  assumes "sizingBudgets sha256 now input = Inr b"
  obtains fx where "fsi_fxConversion input = Some fx" "0 < rval (fx_rate (sfx_conversion fx))"
    "assertFxConversionFresh sha256 (sfx_conversion fx) now = Inr ()"
    "rational_ok (sb_capital b)" "rval (sb_capital b) = dec_val (js_trim (as_equity (fsi_account input))) * dec_val (js_trim (fqi_percent input)) / 100
       / rval (fx_rate (sfx_conversion fx))"
    "rational_ok (sb_leverage b)" "rval (sb_leverage b) = of_int (fqi_leverage input)" "0 < fqi_leverage input"
    "rational_ok (sb_available b)" "rval (sb_available b) = dec_val (js_trim (as_availableBalance (fsi_account input))) * of_int (fqi_leverage input)
       / rval (fx_rate (sfx_conversion fx))"
    "rational_ok (sb_strategyMaximum b)" "rval (sb_strategyMaximum b) = dec_val (js_trim (sz_maxPositionNotional (st_sizing (fsi_strategy input))))"
proof -
  obtain c where c: "fxSizingContext sha256 now input = Inr (Some c)"
    using assms by (auto simp: sizingBudgets_def rbind_Inr_iff invalidFx_def split: option.splits)
  obtain fx where fx: "fsi_fxConversion input = Some fx" "rational_ok (fx_rate (sfx_conversion fx))" "0 < rval (fx_rate (sfx_conversion fx))"
    "assertFxConversionFresh sha256 (sfx_conversion fx) now = Inr ()"
    using c by (rule context_rate)
  have h: "dec_val (js_trim ''100'') = 100" by code_simp
  obtain lev eq pc scaled hundred cr bal pow where s:
    "positive (show_int (fqi_leverage input)) = Inr lev" "nonnegative (as_equity (fsi_account input)) = Inr eq" "positive (fqi_percent input) = Inr pc"
    "multiplyRational eq pc = Inr scaled" "positive ''100'' = Inr hundred" "divideRational scaled hundred = Inr cr"
    "divideRational cr (fx_rate (sfx_conversion fx)) = Inr (sb_capital b)" "nonnegative (as_availableBalance (fsi_account input)) = Inr bal"
    "multiplyRational bal lev = Inr pow" "divideRational pow (fx_rate (sfx_conversion fx)) = Inr (sb_available b)"
    "positive (sz_maxPositionNotional (st_sizing (fsi_strategy input))) = Inr (sb_strategyMaximum b)" "sb_leverage b = lev"
    using assms c fx(1) by (auto simp: sizingBudgets_def rbind_Inr_iff Let_def)
  note v = positive_int_value [OF s(1)] nonnegative_value [OF s(2)] positive_value [OF s(3)] multiply_rational_Inr [OF s(4)]
    positive_value [OF s(5)] divide_rational_Inr [OF s(6)] divide_rational_Inr [OF s(7)] nonnegative_value [OF s(8)]
    multiply_rational_Inr [OF s(9)] divide_rational_Inr [OF s(10)] positive_value [OF s(11)]
  have cap: "rval (sb_capital b) = dec_val (js_trim (as_equity (fsi_account input))) * dec_val (js_trim (fqi_percent input)) / 100
       / rval (fx_rate (sfx_conversion fx))"
    using v(2,3,4,5,6,7) h by metis
  show thesis
    by (rule that [OF fx(1,3,4) _ cap]) (use v s(12) in simp_all)
qed

text \<open>What a quantity sized across currencies must satisfy, in the market's settlement currency.\<close>

definition fx_limits :: "fx_quantity_input \<Rightarrow> rat \<Rightarrow> rat \<Rightarrow> bool" where
  "fx_limits input rate q \<longleftrightarrow>
     (let entry = dec_val (js_trim (fqi_entry input)); distance = dec_val (js_trim (fqi_distance input));
          capital = dec_val (js_trim (as_equity (fsi_account input))) * dec_val (js_trim (fqi_percent input)) / 100 / rate;
          leverage = of_int (fqi_leverage input)
      in q * entry \<le> dec_val (js_trim (sz_maxPositionNotional (st_sizing (fsi_strategy input)))) \<and>
         q * entry \<le> dec_val (js_trim (as_availableBalance (fsi_account input))) * leverage / rate \<and>
         (case sz_positionSizingMode (st_sizing (fsi_strategy input)) of
            Some Equity_percent_margin \<Rightarrow> q * entry \<le> capital * leverage
          | Some Equity_percent_notional \<Rightarrow> q * entry \<le> capital
          | _ \<Rightarrow> q * distance \<le> capital))"

lemma notional_Inr:
  assumes "notionalBudget b mode = Inr n" "rational_ok (sb_strategyMaximum b)"
  shows "rational_ok n" "rval n \<le> rval (sb_strategyMaximum b)" "rval n \<le> rval (sb_available b)"
    "mode = Some Equity_percent_margin \<Longrightarrow> rval n \<le> rval (sb_capital b) * rval (sb_leverage b)"
    "mode = Some Equity_percent_notional \<Longrightarrow> rval n \<le> rval (sb_capital b)"
proof -
  obtain xs where m: "minimum (sb_strategyMaximum b) xs = Inr n" "sb_available b \<in> set xs"
    "mode = Some Equity_percent_margin \<Longrightarrow> \<exists>x\<in>set xs. rval x = rval (sb_capital b) * rval (sb_leverage b)"
    "mode = Some Equity_percent_notional \<Longrightarrow> sb_capital b \<in> set xs"
    using assms(1) multiply_rational_Inr
    by (fastforce simp: notionalBudget_def rbind_Inr_iff split: if_splits)
  show "rational_ok n" "rval n \<le> rval (sb_strategyMaximum b)" "rval n \<le> rval (sb_available b)"
    "mode = Some Equity_percent_margin \<Longrightarrow> rval n \<le> rval (sb_capital b) * rval (sb_leverage b)"
    "mode = Some Equity_percent_notional \<Longrightarrow> rval n \<le> rval (sb_capital b)"
    using minimum_Inr(1,2) [OF m(1) assms(2)] minimum_Inr(3) [OF m(1) assms(2)] m(2-4)
    by (blast, blast, blast, metis, blast)
qed


lemma fx_quantity_sound:
  assumes "fxSizedQuantity sha256 now input = Inr s"
  obtains fx k where "fsi_fxConversion input = Some fx" "assertFxConversionFresh sha256 (sfx_conversion fx) now = Inr ()"
    "fx_limits input (rval (fx_rate (sfx_conversion fx))) (dec_val s)" "decimal_pattern s" "canonical_decimal s"
    "dec_val s = of_int k * dec_val (ms_quantityStep (fsi_market input))" "0 < dec_val s"
    "dec_val (ms_minimumQuantity (fsi_market input)) \<le> dec_val s"
    "dec_val (js_trim (ms_minimumNotional (fsi_market input))) \<le> dec_val s * dec_val (js_trim (fqi_entry input))"
proof -
  define mode where "mode = (case sz_positionSizingMode (st_sizing (fsi_strategy input)) of None \<Rightarrow> Risk_percent | Some m \<Rightarrow> m)"
  obtain b notional entry quantity limited c r entry' actual least d where h: "sizingBudgets sha256 now input = Inr b"
    "notionalBudget b (Some mode) = Inr notional" "positive (fqi_entry input) = Inr entry" "divideRational notional entry = Inr quantity"
    "risk_limited input mode b quantity = Inr limited"
    "quantizeRational limited (ms_quantityStep (fsi_market input)) Floor = Inr s"
    "compareDecimal s (ms_minimumQuantity (fsi_market input)) = Inr c" "\<not> c < 0" "s \<noteq> ''0''"
    "nonnegative s = Inr r" "positive (fqi_entry input) = Inr entry'" "multiplyRational r entry' = Inr actual"
    "nonnegative (ms_minimumNotional (fsi_market input)) = Inr least" "compareRational actual least = Inr d" "\<not> d < 0"
    using assms unfolding fxSizedQuantity_def Let_def mode_def [symmetric]
    by (auto simp: rbind_Inr_iff invalidFx_def split: if_splits)
  obtain fx where b: "fsi_fxConversion input = Some fx" "0 < rval (fx_rate (sfx_conversion fx))"
    "assertFxConversionFresh sha256 (sfx_conversion fx) now = Inr ()"
    "rational_ok (sb_capital b)" "rval (sb_capital b) = dec_val (js_trim (as_equity (fsi_account input))) * dec_val (js_trim (fqi_percent input)) / 100
       / rval (fx_rate (sfx_conversion fx))"
    "rational_ok (sb_leverage b)" "rval (sb_leverage b) = of_int (fqi_leverage input)" "0 < fqi_leverage input"
    "rational_ok (sb_available b)" "rval (sb_available b) = dec_val (js_trim (as_availableBalance (fsi_account input))) * of_int (fqi_leverage input)
       / rval (fx_rate (sfx_conversion fx))"
    "rational_ok (sb_strategyMaximum b)" "rval (sb_strategyMaximum b) = dec_val (js_trim (sz_maxPositionNotional (st_sizing (fsi_strategy input))))"
    using h(1) by (rule budgets_Inr)
  note n = notional_Inr [OF h(2) b(11)]
  have e: "rval entry = dec_val (js_trim (fqi_entry input))" "0 < rval entry" "entry' = entry" using positive_value [OF h(3)] h(3,11) by auto
  have q: "rval quantity = rval notional / rval entry" "rational_ok quantity" using divide_rational_Inr [OF h(4)] by auto
  have lim: "rval limited \<le> rval quantity" "mode = Risk_percent \<Longrightarrow> rval limited * dec_val (js_trim (fqi_distance input)) \<le> rval (sb_capital b)"
  proof -
    have "rval limited \<le> rval quantity \<and> (mode = Risk_percent \<longrightarrow> rval limited * dec_val (js_trim (fqi_distance input)) \<le> rval (sb_capital b))"
    proof (cases "mode = Risk_percent")
      case True
      then obtain distance byRisk where r: "positive (fqi_distance input) = Inr distance" "divideRational (sb_capital b) distance = Inr byRisk"
        "minimum quantity [byRisk] = Inr limited" using h(5) by (auto simp: risk_limited_def rbind_Inr_iff)
      note mi = minimum_Inr [OF r(3) q(2)]
      have "rval limited \<le> rval (sb_capital b) / rval distance" using mi(3) divide_rational_Inr [OF r(2)] by auto
      then show ?thesis using mi(2) positive_value [OF r(1)] by (auto simp: pos_le_divide_eq)
    qed (use h(5) in \<open>simp add: risk_limited_def\<close>)
    then show "rval limited \<le> rval quantity" "mode = Risk_percent \<Longrightarrow> rval limited * dec_val (js_trim (fqi_distance input)) \<le> rval (sb_capital b)"
      by auto
  qed
  note z = quantize_rational_Inr [OF h(6)]
  have s: "decimal_pattern s" "decimal_pattern (ms_minimumQuantity (fsi_market input))" using h(7) compare_ok_iff by blast+
  have sv: "sdec_val s = dec_val s" "canonical_decimal s" "0 \<le> dec_val s"
    using unsigned_signed [OF s(1)] z(4) valid_unsigned [OF s(1)] dec_val_nonneg [OF s(1)] by (auto simp: canonical_signed_def)
  have le: "dec_val s \<le> rval limited"
    using quantize_count_range [OF z(2), of Floor "rval limited"] z(6) sv(1) by simp
  have pos: "0 < dec_val s" using sv h(9) canonical_zero_iff [OF sv(2)] by auto
  have not: "dec_val s * rval entry \<le> rval notional"
  proof -
    have "dec_val s \<le> rval notional / rval entry" using le lim(1) q(1) by linarith
    then show ?thesis using e(2) by (simp add: pos_le_divide_eq)
  qed
  have risk: "dec_val s * dec_val (js_trim (fqi_distance input)) \<le> rval (sb_capital b)" if "mode = Risk_percent"
  proof -
    have "0 < dec_val (js_trim (fqi_distance input))" using h(5) that positive_value by (auto simp: risk_limited_def rbind_Inr_iff)
    then show ?thesis using lim(2) [OF that] le by (meson less_imp_le mult_right_mono order_trans)
  qed
  have "fx_limits input (rval (fx_rate (sfx_conversion fx))) (dec_val s)"
    unfolding fx_limits_def Let_def b(5,10,12) [symmetric] e(1) [symmetric]
    unfolding b(7) [symmetric]
  proof (intro conjI)
    show "dec_val s * rval entry \<le> rval (sb_strategyMaximum b)" using not n(2) by (rule order_trans)
    show "dec_val s * rval entry \<le> rval (sb_available b)" using not n(3) by (rule order_trans)
    have modes: "mode = Equity_percent_margin \<Longrightarrow> dec_val s * rval entry \<le> rval (sb_capital b) * rval (sb_leverage b)"
      "mode = Equity_percent_notional \<Longrightarrow> dec_val s * rval entry \<le> rval (sb_capital b)"
      using order_trans [OF not n(4)] order_trans [OF not n(5)] by simp_all
    show "case sz_positionSizingMode (st_sizing (fsi_strategy input)) of
        Some Equity_percent_margin \<Rightarrow> dec_val s * rval entry \<le> rval (sb_capital b) * rval (sb_leverage b)
      | Some Equity_percent_notional \<Rightarrow> dec_val s * rval entry \<le> rval (sb_capital b)
      | _ \<Rightarrow> dec_val s * dec_val (js_trim (fqi_distance input)) \<le> rval (sb_capital b)"
      using modes risk by (simp add: mode_def split: option.splits position_sizing_mode.splits)
  qed
  moreover have "dec_val (js_trim (ms_minimumNotional (fsi_market input))) \<le> dec_val s * dec_val (js_trim (fqi_entry input))"
    using nonnegative_value [OF h(10)] multiply_rational_Inr [OF h(12)] nonnegative_value [OF h(13)] compare_rational_Inr [OF h(14)] h(15) e(1,3) s(1)
    by simp
  moreover have "dec_val (ms_minimumQuantity (fsi_market input)) \<le> dec_val s"
    using h(7,8) s by (auto simp: compare_law)
  moreover have "dec_val s = of_int (quantize_count Floor (rval limited / dec_val (ms_quantityStep (fsi_market input)))) * dec_val (ms_quantityStep (fsi_market input))"
    using z(6) sv(1) by simp
  ultimately show thesis using that [OF b(1,3) _ s(1) sv(2) _ pos] by blast
qed



section \<open>Receipts and conversions\<close>

lemma receipt_facts:
  assumes "validateFxLegReceipt sha256 now value context = Inr r"
  shows "decimal_pattern (flr_value r)" "0 < dec_val (flr_value r)" "is_safe_integer (flr_providerResponseAt r)" "0 \<le> flr_providerResponseAt r"
proof -
  obtain row legId v t where h: "validateLeg row = Inr (legId, v)" "validateTimes now row = Inr t" "flr_value r = v" "flr_providerResponseAt r = t"
    using assms by (auto simp: validateFxLegReceipt_def rbind_Inr_iff invalid_evidence_def invalidFx_def split: if_splits prod.splits)
  have v: "\<not> list_ex is_space v" "\<exists>d. decimal_positive v = Inr d"
    using h(1) by (auto simp: validateLeg_def invalid_evidence_def invalidFx_def split: js.splits option.splits if_splits sum.splits)
  have "js_trim v = v" using v(1) by (intro js_trim_id) (auto simp: list_ex_iff)
  then show "decimal_pattern (flr_value r)" "0 < dec_val (flr_value r)"
    using v(2) decimal_positive_value [of v] dec_val_nonneg [of v] h(3) by (auto simp: order_less_le)
  have "fx_timestamp (js_get row ''providerResponseAt'') = Inr t"
    using h(2) by (auto simp: validateTimes_def rbind_Inr_iff invalid_evidence_def invalidFx_def split: if_splits)
  then show "is_safe_integer (flr_providerResponseAt r)" "0 \<le> flr_providerResponseAt r"
    using h(4) safe_integer_of_safe by (auto simp: fx_timestamp_def invalid_evidence_def invalidFx_def split: option.splits if_splits)
qed

lemma observe_members: "observe rows r = Inr rows' \<Longrightarrow> set rows' \<subseteq> insert r (set rows)"
  by (induction rows arbitrary: rows') (auto simp: rbind_Inr_iff invalidFx_def split: if_splits)

lemma observed_members: "foldM observe acc rows = Inr out \<Longrightarrow> set out \<subseteq> set acc \<union> set rows"
proof (induction rows arbitrary: acc)
  case (Cons r rows)
  then show ?case using observe_members by (fastforce simp: rbind_Inr_iff)
qed simp

lemma eligible_facts:
  assumes "eligibleReceipts sha256 now values required asOf context = Inr rows" "r \<in> set rows"
  shows "decimal_pattern (flr_value r)" "0 < dec_val (flr_value r)" "is_safe_integer (flr_providerResponseAt r)" "0 \<le> flr_providerResponseAt r"
    "flr_providerResponseAt r \<le> asOf" "asOf - 10000 \<le> flr_providerResponseAt r"
proof -
  obtain all obs where h: "mapM (\<lambda>row. validateFxLegReceipt sha256 now row context) values = Inr all"
    "foldM observe [] (filter (\<lambda>row. flr_legId row \<in> set required \<and> flr_providerResponseAt row \<le> asOf
         \<and> flr_providerResponseAt row \<ge> asOf - 10000) all) = Inr obs" "set rows = set obs"
    using assms(1) by (auto simp: eligibleReceipts_def rbind_Inr_iff)
  have r: "r \<in> set all" "flr_providerResponseAt r \<le> asOf" "asOf - 10000 \<le> flr_providerResponseAt r"
    using observed_members [OF h(2)] h(3) assms(2) by auto
  then obtain v where "validateFxLegReceipt sha256 now v context = Inr r"
    using h(1) by (auto simp: mapM_Inr_iff list_all2_conv_all_nth in_set_conv_nth)
  from receipt_facts [OF this] r
  show "decimal_pattern (flr_value r)" "0 < dec_val (flr_value r)" "is_safe_integer (flr_providerResponseAt r)" "0 \<le> flr_providerResponseAt r"
    "flr_providerResponseAt r \<le> asOf" "asOf - 10000 \<le> flr_providerResponseAt r" by auto
qed

lemma coherent_window:
  assumes "coherent_from anchors rows required = Inr selected"
  obtains anchor where "\<And>r. r \<in> set selected \<Longrightarrow> r \<in> set rows \<and> anchor - 1000 \<le> flr_providerResponseAt r \<and> flr_providerResponseAt r \<le> anchor"
    "map flr_legId selected = required"
  using assms
proof (induction anchors rows required arbitrary: thesis rule: coherent_from.induct)
  case (2 anchor anchors rows required)
  define sel where "sel = map (window_leg rows (flr_providerResponseAt anchor)) required"
  show ?case
  proof (cases "list_all (\<lambda>s. s \<noteq> None) sel")
    case True
    then have s: "selected = map (\<lambda>l. the (window_leg rows (flr_providerResponseAt anchor) l)) required"
      using "2.prems"(2) by (simp add: sel_def Let_def comp_def)
    have leg: "\<exists>r. window_leg rows (flr_providerResponseAt anchor) l = Some r" if "l \<in> set required" for l
      using True that by (auto simp: sel_def list_all_iff)
    have "r \<in> set rows \<and> flr_providerResponseAt anchor - 1000 \<le> flr_providerResponseAt r \<and> flr_providerResponseAt r \<le> flr_providerResponseAt anchor \<and> flr_legId r = l"
      if "window_leg rows (flr_providerResponseAt anchor) l = Some r" for l r
      using that by (auto simp: window_leg_def find_Some_iff)
    then have "\<And>r. r \<in> set selected \<Longrightarrow> r \<in> set rows \<and> flr_providerResponseAt anchor - 1000 \<le> flr_providerResponseAt r \<and> flr_providerResponseAt r \<le> flr_providerResponseAt anchor"
      "map flr_legId selected = required"
      using leg s by (fastforce simp: map_idI)+
    then show ?thesis using "2.prems"(1) by blast
  next
    case False
    then have "coherent_from anchors rows required = Inr selected" using "2.prems"(2) by (auto simp: sel_def Let_def)
    then show ?thesis using "2.IH" [OF sel_def [symmetric, THEN sym]] False "2.prems"(1) sel_def by metis
  qed
qed (simp add: invalidFx_def)


lemma usdRate_positive:
  assumes "usdRate asset receipts = Inr q" "\<And>r. r \<in> set receipts \<Longrightarrow> decimal_pattern (flr_value r) \<and> 0 < dec_val (flr_value r)"
  shows "rational_ok q" "0 < rval q"
proof -
  have leg: "rational_ok x \<and> 0 < rval x" if f: "(case find (\<lambda>r. flr_legId r = legId) receipts of
      None \<Rightarrow> invalidFx ''QUOTE_UNAVAILABLE'' | Some row \<Rightarrow> rationalFromDecimal (flr_value row)) = Inr x" for legId x
  proof -
    obtain row where row: "find (\<lambda>r. flr_legId r = legId) receipts = Some row" "rationalFromDecimal (flr_value row) = Inr x"
      using f by (auto simp: invalidFx_def split: option.splits)
    then have "row \<in> set receipts" by (auto simp: find_Some_iff)
    then show ?thesis using assms(2) row(2) decimal_rational [of "flr_value row"] by auto
  qed
  have one: "decimal_pattern ''1''" "dec_val ''1'' = 1" by code_simp+
  have "rational_ok q \<and> 0 < rval q"
  proof (cases "asset = ''USD''")
    case True
    then show ?thesis using assms(1) decimal_rational [OF one(1)] one(2) by (auto simp: usdRate_def)
  next
    case False
    then obtain ids legs where l: "mapM (\<lambda>legId. case find (\<lambda>r. flr_legId r = legId) receipts of
        None \<Rightarrow> invalidFx ''QUOTE_UNAVAILABLE'' | Some row \<Rightarrow> rationalFromDecimal (flr_value row)) ids = Inr legs"
      "(case legs of [] \<Rightarrow> invalidFx ''QUOTE_UNAVAILABLE'' | first # rest \<Rightarrow> if asset = ''USDC'' then Inr first
         else (case rest of [] \<Rightarrow> invalidFx ''QUOTE_UNAVAILABLE'' | second # _ \<Rightarrow> divideRational first second)) = Inr q"
      using assms(1) by (auto simp: usdRate_def rbind_Inr_iff)
    have "x \<in> set legs \<Longrightarrow> rational_ok x \<and> 0 < rval x" for x
      using l(1) leg by (auto simp: mapM_Inr_iff list_all2_conv_all_nth in_set_conv_nth)
    then show ?thesis
      using l(2) divide_rational_Inr by (fastforce simp: invalidFx_def split: list.splits if_splits)
  qed
  then show "rational_ok q" "0 < rval q" by auto
qed

lemma conversion_facts:
  assumes "deriveFxConversion sha256 now values baseAsset quoteAsset asOf context = Inr c"
  obtains selected where "selected \<noteq> []" "rational_ok (fx_rate c)" "0 < rval (fx_rate c)"
    "\<And>r. r \<in> set selected \<Longrightarrow> is_safe_integer (flr_providerResponseAt r) \<and> 0 \<le> flr_providerResponseAt r \<and> flr_providerResponseAt r \<le> asOf \<and>
       asOf - 10000 \<le> flr_providerResponseAt r"
    "fx_earliestAt c = Min (flr_providerResponseAt ` set selected)" "fx_latestAt c = Max (flr_providerResponseAt ` set selected)"
    "fx_latestAt c - fx_earliestAt c \<le> 1000" "fx_expiresAt c = fx_earliestAt c + 10000" "fx_at c = asOf" "is_safe_integer asOf"
    "fx_version c = 1" "fx_policy c = ''stable-index-asof-10s-v1''" "fx_valuationBasis c = ''provider_snapshot_index_asof''"
    "fxEvidenceDigest sha256 ''tsx-fx-conversion-v1'' (js_of_conversion c) = Inr (fx_evidenceHash c)"
    "\<exists>b q. usdRate baseAsset selected = Inr b \<and> usdRate quoteAsset selected = Inr q \<and> rval (fx_rate c) = rval b / rval q"
proof -
  obtain bl ql required rows selected b q rate original digest where h:
    "baseAsset \<noteq> quoteAsset" "is_safe_integer asOf" "assetLegs baseAsset = Inr bl" "assetLegs quoteAsset = Inr ql"
    "required = filter (\<lambda>legId. legId \<in> set (bl @ ql)) leg_order"
    "eligibleReceipts sha256 now values required asOf context = Inr rows" "coherentLegs rows required = Inr selected"
    "usdRate baseAsset selected = Inr b" "usdRate quoteAsset selected = Inr q" "divideRational b q = Inr rate"
    "original = \<lparr>fx_version = 1, fx_valuationBasis = ''provider_snapshot_index_asof'', fx_policy = ''stable-index-asof-10s-v1'',
              fx_mode = fctx_mode context, fx_profileHash = fctx_profileHash context, fx_baseAsset = baseAsset, fx_quoteAsset = quoteAsset,
              fx_at = asOf, fx_earliestAt = Min (set (map flr_providerResponseAt selected)), fx_latestAt = Max (set (map flr_providerResponseAt selected)),
              fx_expiresAt = Min (set (map flr_providerResponseAt selected)) + 10000, fx_rate = rate,
              fx_receiptHashes = map flr_receiptHash selected, fx_evidenceHash = []\<rparr>"
    "fxEvidenceDigest sha256 ''tsx-fx-conversion-v1'' (js_of_conversion original) = Inr digest" "c = original\<lparr>fx_evidenceHash := digest\<rparr>"
    using assms unfolding deriveFxConversion_def Let_def
    by (auto simp: rbind_Inr_iff invalid_evidence_def invalidFx_def split: if_splits)
  have "required \<noteq> []"
    using h(1,3,4,5) by (auto simp: assetLegs_def leg_order_def invalidFx_def split: if_splits)
  obtain anchor where w: "\<And>r. r \<in> set selected \<Longrightarrow> r \<in> set rows \<and> anchor - 1000 \<le> flr_providerResponseAt r \<and> flr_providerResponseAt r \<le> anchor"
    "map flr_legId selected = required"
    using h(7) unfolding coherentLegs_def by (rule coherent_window) blast
  have ne: "selected \<noteq> []" using w(2) \<open>required \<noteq> []\<close> by auto
  have el: "decimal_pattern (flr_value r) \<and> 0 < dec_val (flr_value r) \<and> is_safe_integer (flr_providerResponseAt r) \<and> 0 \<le> flr_providerResponseAt r \<and>
      flr_providerResponseAt r \<le> asOf \<and> asOf - 10000 \<le> flr_providerResponseAt r" if "r \<in> set selected" for r
    using eligible_facts [OF h(6)] w(1) that by blast
  define T where "T = flr_providerResponseAt ` set selected"
  have T: "finite T" "T \<noteq> {}" using ne by (auto simp: T_def)
  have "Max T \<in> T" "Min T \<in> T" using T by simp_all
  moreover have "x \<in> T \<Longrightarrow> anchor - 1000 \<le> x \<and> x \<le> anchor" for x using w(1) by (auto simp: T_def)
  ultimately have "Max T \<le> anchor" "anchor - 1000 \<le> Min T" by blast+
  then have "Max T - Min T \<le> 1000" by linarith
  moreover have "rational_ok b" "0 < rval b" "rational_ok q" "0 < rval q"
    using usdRate_positive [OF h(8)] usdRate_positive [OF h(9)] el by blast+
  moreover note divide_rational_Inr [OF h(10)]
  moreover have "js_of_conversion c = js_of_conversion original" unfolding h(13) by (simp add: js_of_conversion_def)
  ultimately show thesis
    using h(2,8,9,11,12,13) el ne by (intro that [of selected]) (simp_all add: T_def)
qed



section \<open>Properties\<close>

text \<open>
  A derived conversion is what it claims. Its rate is the quotient of the two dollar rates and
  positive, its observations span at most one second, and the freshness fence accepts it exactly
  from its latest observation until ten seconds after its earliest one.
\<close>

theorem fx_conversion_window:
  assumes "deriveFxConversion sha256 now values baseAsset quoteAsset asOf context = Inr c" "is_safe_integer (asOf + 10000)"
  shows "0 < rval (fx_rate c) \<and> fx_latestAt c - fx_earliestAt c \<le> 1000 \<and> fx_latestAt c \<le> asOf \<and> asOf \<le> fx_expiresAt c \<and>
    (\<forall>t. assertFxConversionFresh sha256 c t = Inr () \<longleftrightarrow> is_safe_integer t \<and> fx_latestAt c \<le> t \<and> t \<le> fx_earliestAt c + 10000) \<and>
    (\<exists>selected b q. usdRate baseAsset selected = Inr b \<and> usdRate quoteAsset selected = Inr q \<and> rval (fx_rate c) = rval b / rval q)"
proof -
  obtain selected where s: "selected \<noteq> []" "rational_ok (fx_rate c)" "0 < rval (fx_rate c)"
    "\<And>r. r \<in> set selected \<Longrightarrow> is_safe_integer (flr_providerResponseAt r) \<and> 0 \<le> flr_providerResponseAt r \<and> flr_providerResponseAt r \<le> asOf \<and>
       asOf - 10000 \<le> flr_providerResponseAt r"
    "fx_earliestAt c = Min (flr_providerResponseAt ` set selected)" "fx_latestAt c = Max (flr_providerResponseAt ` set selected)"
    "fx_latestAt c - fx_earliestAt c \<le> 1000" "fx_expiresAt c = fx_earliestAt c + 10000" "fx_at c = asOf" "is_safe_integer asOf"
    "fx_version c = 1" "fx_policy c = ''stable-index-asof-10s-v1''" "fx_valuationBasis c = ''provider_snapshot_index_asof''"
    "fxEvidenceDigest sha256 ''tsx-fx-conversion-v1'' (js_of_conversion c) = Inr (fx_evidenceHash c)"
    "\<exists>b q. usdRate baseAsset selected = Inr b \<and> usdRate quoteAsset selected = Inr q \<and> rval (fx_rate c) = rval b / rval q"
    using assms(1) by (rule conversion_facts) blast
  define T where "T = flr_providerResponseAt ` set selected"
  have T: "finite T" "T \<noteq> {}" using s(1) by (auto simp: T_def)
  then have m: "Max T \<in> T" "Min T \<in> T" "Min T \<le> Max T" by simp_all
  have "x \<in> T \<Longrightarrow> is_safe_integer x \<and> 0 \<le> x \<and> x \<le> asOf \<and> asOf - 10000 \<le> x" for x using s(4) by (auto simp: T_def)
  with m have b: "is_safe_integer (Max T)" "is_safe_integer (Min T)" "0 \<le> Min T" "Min T \<le> asOf" "asOf - 10000 \<le> Min T" "Max T \<le> asOf"
    by blast+
  have e: "is_safe_integer (Min T + 10000)"
    using b(3,4) assms(2) by (simp add: is_safe_integer_def)
  have "assertFxConversionFresh sha256 c t = Inr () \<longleftrightarrow> is_safe_integer t \<and> fx_latestAt c \<le> t \<and> t \<le> fx_earliestAt c + 10000" for t
    unfolding assertFxConversionFresh_def s(14) rbind.simps
    using s(5-13) b e m(3) by (auto simp: T_def invalidFx_def)
  then show ?thesis using s(3,5,6,7,8,15) b(5,6) by (auto simp: T_def)
qed


text \<open>Evaluation of digests of concrete values.\<close>

lemma rbind_weak_cong: "m = m' \<Longrightarrow> rbind m f = rbind m' f"
  by simp

lemma foldM_weak_cong: "s = s' \<Longrightarrow> xs = xs' \<Longrightarrow> foldM f s xs = foldM f s' xs'"
  by simp

lemmas canonical_numeral = canonical.simps(2) [of "pred_numeral k" for k, unfolded numeral_eq_Suc [symmetric]]

lemmas digest_eval = fxEvidenceDigest_def canonical_numeral Let_def byte_length_def control_char_def safe_integer_of_def is_safe_integer_def
  max_safe_integer_def json_array_def join_with_def json_string_def json_char_def show_int_def show_nonneg.simps digit_char_def

definition sample_envelope :: "(string \<times> js) list" where
  "sample_envelope = [(''retCode'', JNum (Num 0)), (''time'', JNum (Num 5000)),
     (''result'', JObj [(''category'', JStr ''spot''), (''list'', JArr [JObj [(''symbol'', JStr ''USDCUSDT''), (''usdIndexPrice'', JStr ''1.5'')]])])]"

definition sample_row :: "(string \<times> js) list" where
  "sample_row =
    [(''version'', JNum (Num 1)), (''provider'', JStr ''bybit''), (''mode'', JStr ''live''), (''origin'', JStr ''https://api.bybit.com''),
     (''endpoint'', JStr ''/v5/market/tickers''), (''source'', JStr ''bybit-v5-rest-index-snapshot-v1''), (''legId'', JStr ''bybit:usdc-usd-index:v1''),
     (''routeId'', JStr ''bybit:usdc-usd-index:v1''), (''ccxtVersion'', JStr ''4.5.75''), (''profileVersion'', JNum (Num 1)),
     (''profileHash'', JStr ''aaaaaaaaaaaaaaaaaaaaaaaaaaaaaaaaaaaaaaaaaaaaaaaaaaaaaaaaaaaaaaaa''), (''category'', JStr ''spot''), (''symbol'', JStr ''USDCUSDT''), (''field'', JStr ''usdIndexPrice''),
     (''value'', JStr ''1.5''), (''providerQuoteAt'', JNull), (''providerResponseAt'', JNum (Num 5000)), (''timeBasis'', JStr ''provider_snapshot_observation''),
     (''startedAt'', JNum (Num 5000)), (''completedAt'', JNum (Num 5001)), (''envelope'', JObj sample_envelope),
     (''envelopeHash'', JStr ''h''), (''receiptHash'', JStr ''h'')]"

definition sample_context :: fx_context where
  "sample_context = \<lparr>fctx_mode = ''live'', fctx_profileHash = ''aaaaaaaaaaaaaaaaaaaaaaaaaaaaaaaaaaaaaaaaaaaaaaaaaaaaaaaaaaaaaaaa''\<rparr>"

lemma sample_envelope_digest: "fxEvidenceDigest (\<lambda>_. ''h'') ''bybit-fx-envelope-v1'' (JObj sample_envelope) = Inr ''h''"
  by (simp add: sample_envelope_def digest_eval cong: rbind_weak_cong foldM_weak_cong)

lemma sample_row_digest:
  "fxEvidenceDigest (\<lambda>_. ''h'') ''bybit-fx-receipt-v1'' (JObj (filter (\<lambda>kv. fst kv \<noteq> ''receiptHash'') sample_row)) = Inr ''h''"
  by (simp add: sample_row_def sample_envelope_def digest_eval cong: rbind_weak_cong foldM_weak_cong)

definition sample_leg :: fx_leg_receipt where
  "sample_leg = \<lparr>flr_legId = ''bybit:usdc-usd-index:v1'', flr_value = ''1.5'', flr_providerResponseAt = 5000, flr_receiptHash = ''h''\<rparr>"

lemma sample_receipt_valid: "validateFxLegReceipt (\<lambda>_. ''h'') 6000 (JObj sample_row) sample_context = Inr sample_leg"
proof -
  have p: "join_with '','' (sort (map fst sample_row)) = fx_shape" "validateProfile sample_row sample_context = Inr ()"
    "validateLeg sample_row = Inr (''bybit:usdc-usd-index:v1'', ''1.5'')" "validateTimes 6000 sample_row = Inr 5000"
    "js_get sample_row ''receiptHash'' = JStr ''h''" "js_get sample_row ''envelopeHash'' = JStr ''h''" "js_get sample_row ''envelope'' = JObj sample_envelope"
    "js_get sample_envelope ''result'' = JObj [(''category'', JStr ''spot''), (''list'', JArr [JObj [(''symbol'', JStr ''USDCUSDT''), (''usdIndexPrice'', JStr ''1.5'')]])]"
    "safe_integer_of (js_get sample_envelope ''retCode'') = Some 0" "safe_integer_of (js_get sample_envelope ''time'') = Some 5000"
    "js_get sample_row ''category'' = JStr ''spot''" "js_get sample_row ''symbol'' = JStr ''USDCUSDT''" "js_get sample_row ''field'' = JStr ''usdIndexPrice''"
    "js_get sample_row ''value'' = JStr ''1.5''"
    by code_simp+
  have "validateEnvelope (\<lambda>_. ''h'') sample_row 5000 = Inr ()"
    by (simp add: validateEnvelope_def p fx_object_def require_fx_def sample_envelope_digest)
  then show ?thesis
    by (simp add: validateFxLegReceipt_def fx_object_def require_fx_def p sample_row_digest sample_leg_def)
qed

definition sample_conversion :: fx_conversion where
  "sample_conversion = \<lparr>fx_version = 1, fx_valuationBasis = ''provider_snapshot_index_asof'', fx_policy = ''stable-index-asof-10s-v1'',
     fx_mode = ''live'', fx_profileHash = fctx_profileHash sample_context, fx_baseAsset = ''USDC'', fx_quoteAsset = ''USD'', fx_at = 5500,
     fx_earliestAt = 5000, fx_latestAt = 5000, fx_expiresAt = 15000, fx_rate = \<lparr>numerator = ''3'', denominator = ''2''\<rparr>,
     fx_receiptHashes = [''h''], fx_evidenceHash = ''h''\<rparr>"

lemma sample_conversion_digest:
  "fxEvidenceDigest (\<lambda>_. ''h'') ''tsx-fx-conversion-v1'' (js_of_conversion sample_conversion) = Inr ''h''"
  by (simp add: sample_conversion_def sample_context_def js_of_conversion_def js_of_rational_def digest_eval cong: rbind_weak_cong foldM_weak_cong)

lemma sample_conversion_derived:
  "deriveFxConversion (\<lambda>_. ''h'') 6000 [JObj sample_row] ''USDC'' ''USD'' 5500 sample_context = Inr sample_conversion"
proof -
  have legs: "assetLegs ''USDC'' = Inr [''bybit:usdc-usd-index:v1'']" "assetLegs ''USD'' = Inr []"
    "filter (\<lambda>legId. legId \<in> set ([''bybit:usdc-usd-index:v1''] @ [])) leg_order = [''bybit:usdc-usd-index:v1'']"
    "is_safe_integer 5500" by code_simp+
  have rows: "eligibleReceipts (\<lambda>_. ''h'') 6000 [JObj sample_row] [''bybit:usdc-usd-index:v1''] 5500 sample_context = Inr [sample_leg]"
    by (simp add: eligibleReceipts_def sample_receipt_valid) (simp add: sample_leg_def)
  have sel: "coherentLegs [sample_leg] [''bybit:usdc-usd-index:v1''] = Inr [sample_leg]"
    by (simp add: coherentLegs_def window_leg_def sample_leg_def)
  have rates: "usdRate ''USDC'' [sample_leg] = Inr \<lparr>numerator = ''3'', denominator = ''2''\<rparr>"
    "usdRate ''USD'' [sample_leg] = Inr \<lparr>numerator = ''1'', denominator = ''1''\<rparr>"
    "divideRational \<lparr>numerator = ''3'', denominator = ''2''\<rparr> \<lparr>numerator = ''1'', denominator = ''1''\<rparr> = Inr \<lparr>numerator = ''3'', denominator = ''2''\<rparr>"
    by code_simp+
  have js: "js_of_conversion (sample_conversion\<lparr>fx_evidenceHash := []\<rparr>) = js_of_conversion sample_conversion" by (simp add: js_of_conversion_def)
  have rec: "\<lparr>fx_version = 1, fx_valuationBasis = ''provider_snapshot_index_asof'', fx_policy = ''stable-index-asof-10s-v1'',
      fx_mode = fctx_mode sample_context, fx_profileHash = fctx_profileHash sample_context, fx_baseAsset = ''USDC'', fx_quoteAsset = ''USD'',
      fx_at = 5500, fx_earliestAt = 5000, fx_latestAt = 5000, fx_expiresAt = 5000 + 10000,
      fx_rate = \<lparr>numerator = ''3'', denominator = ''2''\<rparr>, fx_receiptHashes = [''h''], fx_evidenceHash = []\<rparr> = sample_conversion\<lparr>fx_evidenceHash := []\<rparr>"
    by (simp add: sample_conversion_def sample_context_def)
  have t: "flr_providerResponseAt sample_leg = 5000" "flr_receiptHash sample_leg = ''h''" by (simp_all add: sample_leg_def)
  have mm: "Min (set (map flr_providerResponseAt [sample_leg])) = 5000" "Max (set (map flr_providerResponseAt [sample_leg])) = 5000"
    "map flr_receiptHash [sample_leg] = [''h'']" by (simp_all add: t)
  have "(sample_conversion\<lparr>fx_evidenceHash := []\<rparr>)\<lparr>fx_evidenceHash := ''h''\<rparr> = sample_conversion" by (simp add: sample_conversion_def)
  then show ?thesis
    unfolding deriveFxConversion_def legs rbind.simps Let_def rows sel mm rates rec js sample_conversion_digest by (simp add: legs(4))
qed

theorem fx_conversion_window_witness:
  "0 < rval (fx_rate sample_conversion) \<and> assertFxConversionFresh (\<lambda>_. ''h'') sample_conversion 15000 = Inr ()"
proof -
  have "is_safe_integer (5500 + 10000)" "is_safe_integer 15000" by code_simp+
  with fx_conversion_window [OF sample_conversion_derived] show ?thesis
    by (auto simp: sample_conversion_def)
qed

text \<open>
  C23: a quantity sized across currencies respects every limit exactly, with no rounding in
  between: its notional at the entry price is within the strategy's maximum and within the
  leveraged balance converted at the proven rate; by mode it is within the converted capital share
  (or its leveraged multiple), or its loss at the stop distance is within that share. It is a
  positive multiple of the quantity step, not below the exchange minima, and the conversion used
  was fresh.
\<close>

theorem fx_sizing_within_limits:
  assumes "fxSizedQuantity sha256 now input = Inr s"
  shows "\<exists>fx k. fsi_fxConversion input = Some fx \<and> assertFxConversionFresh sha256 (sfx_conversion fx) now = Inr () \<and>
    fx_limits input (rval (fx_rate (sfx_conversion fx))) (dec_val s) \<and> canonical_decimal s \<and>
    dec_val s = of_int k * dec_val (ms_quantityStep (fsi_market input)) \<and> 0 < dec_val s \<and>
    dec_val (ms_minimumQuantity (fsi_market input)) \<le> dec_val s \<and>
    dec_val (js_trim (ms_minimumNotional (fsi_market input))) \<le> dec_val s * dec_val (js_trim (fqi_entry input))"
  using assms by (rule fx_quantity_sound) blast

definition sample_strategy :: strategy_configuration where
  "sample_strategy = \<lparr>st_schemaVersion = 4, st_allowedSignalSchemas = [''standard''], st_allowedSymbols = [], st_allowedSides = [LONG, SHORT],
     st_entry = \<lparr>se_orderType = Limit_order, se_rangePrice = Near, se_postOnly = False, se_timeoutSeconds = 60\<rparr>,
     st_sizing = \<lparr>sz_positionSizingMode = Some Equity_percent_notional, sz_riskPerTradePercent = ''1'', sz_maxAdaptiveRiskPercent = None,
       sz_maxPositionNotional = ''1000'', sz_defaultLeverage = Some 1, sz_maxLeverage = 5\<rparr>,
     st_exits = \<lparr>ex_targetAllocationMode = Some Manual, ex_targetAllocationsPercent = [''100''], ex_stopLossMode = Some Configured,
       ex_moveStopToBreakEvenAfterTarget = None, ex_trailingStopPercent = None\<rparr>,
     st_safety = \<lparr>sf_maxConcurrentPositions = None, sf_maxDailyLossMode = None, sf_maxDailyLoss = ''100'', sf_maxSlippagePercent = ''1'',
       sf_entryOrderTtlSeconds = 600\<rparr>\<rparr>"

definition sample_account :: account_snapshot where
  "sample_account = \<lparr>as_equity = ''300'', as_availableBalance = ''300'', as_unrealizedPnl = ''0'', as_marginUsed = ''0'', as_fundingPnlToday = None,
     as_fundingPnlTodayValue = None, as_accounting = Some \<lparr>ae_accountFingerprint = [], ae_reportingCurrency = ''USD'', ae_settlementAssets = [''USDC''],
       ae_source = [], ae_observedAt = 0, ae_unrealizedPnlSemantics = ''price_only'', ae_funding = JNull\<rparr>\<rparr>"

definition sample_market :: market_snapshot where
  "sample_market = \<lparr>ms_symbol = ''BTC'', ms_markPrice = ''1'', ms_priceTick = ''0.5'', ms_quantityStep = ''1'', ms_minimumQuantity = ''1'',
     ms_minimumNotional = ''1'', ms_maxLeverage = 10, ms_observedAt = 0,
     ms_accounting = Some \<lparr>fa_source = [], fa_providerSymbol = ''BTC'', fa_settlementAsset = ''USDC''\<rparr>, ms_leverageTiers = None\<rparr>"

definition sample_fx_input :: fx_quantity_input where
  "sample_fx_input = \<lparr>fsi_account = sample_account, fsi_market = sample_market, fsi_strategy = sample_strategy,
     fsi_fxConversion = Some \<lparr>sfx_id = fctx_profileHash sample_context, sfx_conversion = sample_conversion\<rparr>,
     fqi_entry = ''1'', fqi_distance = ''1'', fqi_percent = ''1'', fqi_leverage = 1\<rparr>"

lemma sample_fresh: "assertFxConversionFresh (\<lambda>_. ''h'') sample_conversion 6000 = Inr ()"
proof -
  have s: "list_all is_safe_integer [5500, 5000, 5000, 15000, 6000]" by code_simp
  show ?thesis
    unfolding assertFxConversionFresh_def sample_conversion_digest rbind.simps using s by (simp add: sample_conversion_def)
qed

lemma sample_quantized: "quantizeRational \<lparr>numerator = ''2'', denominator = ''1''\<rparr> ''1'' Floor = Inr ''2''"
proof -
  have a: "rational_ok \<lparr>numerator = ''2'', denominator = ''1''\<rparr>" "decimal_pattern ''1''" "dec_val ''1'' = 1" "decimal ''2'' = Inr ''2''"
    "rval \<lparr>numerator = ''2'', denominator = ''1''\<rparr> = 2" "signed_ok ''2''" "sdec_val ''2'' = 2" "\<not> starts_neg ''2''"
    by code_simp+
  have c: "canonical_signed ''2''" using a(4,8) by (simp add: canonical_signed_def decimal_Inr_iff)
  have "\<bar>of_int (quantize_count Floor (rval \<lparr>numerator = ''2'', denominator = ''1''\<rparr> / dec_val ''1'')) * dec_val ''1''\<bar> \<le> dec_limit - 1"
    by (simp add: a quantize_count_def dec_limit_def)
  from quantize_rational_law [OF a(1,2) _ this] obtain s where s: "quantizeRational \<lparr>numerator = ''2'', denominator = ''1''\<rparr> ''1'' Floor = Inr s"
    "canonical_signed s" "sdec_val s = 2" by (auto simp: returns_signed_def a quantize_count_def)
  moreover have "signed_ok s" using quantize_rational_Inr(5) [OF s(1)] .
  ultimately have "s = ''2''" using canonical_signed_inj [OF s(2) c] a(6,7) by (simp add: signed_ok_def)
  with s(1) show ?thesis by simp
qed

lemma sample_fx_quantity: "fxSizedQuantity (\<lambda>_. ''h'') 6000 sample_fx_input = Inr ''2''"
proof -
  have pos: "rationalFromDecimal ''0'' = Inr \<lparr>numerator = ''0'', denominator = ''1''\<rparr>"
    "compareRational \<lparr>numerator = ''3'', denominator = ''2''\<rparr> \<lparr>numerator = ''0'', denominator = ''1''\<rparr> = Inr 1" "hex64 (fctx_profileHash sample_context)"
    by code_simp+
  have ctx: "\<exists>c. fxSizingContext (\<lambda>_. ''h'') 6000 sample_fx_input = Inr (Some c)"
    using sample_fresh pos
    by (simp add: fxSizingContext_def assertSizingRecipe_def sample_fx_input_def reporting_currency_def settlement_asset_def sample_account_def
        sample_market_def stable_assets_def) (simp add: sample_conversion_def Let_def)
  have steps: "positive ''1'' = Inr \<lparr>numerator = ''1'', denominator = ''1''\<rparr>" "nonnegative ''300'' = Inr \<lparr>numerator = ''300'', denominator = ''1''\<rparr>"
    "multiplyRational \<lparr>numerator = ''300'', denominator = ''1''\<rparr> \<lparr>numerator = ''1'', denominator = ''1''\<rparr> = Inr \<lparr>numerator = ''300'', denominator = ''1''\<rparr>"
    "positive ''100'' = Inr \<lparr>numerator = ''100'', denominator = ''1''\<rparr>"
    "divideRational \<lparr>numerator = ''300'', denominator = ''1''\<rparr> \<lparr>numerator = ''100'', denominator = ''1''\<rparr> = Inr \<lparr>numerator = ''3'', denominator = ''1''\<rparr>"
    "divideRational \<lparr>numerator = ''3'', denominator = ''1''\<rparr> \<lparr>numerator = ''3'', denominator = ''2''\<rparr> = Inr \<lparr>numerator = ''2'', denominator = ''1''\<rparr>"
    "divideRational \<lparr>numerator = ''300'', denominator = ''1''\<rparr> \<lparr>numerator = ''3'', denominator = ''2''\<rparr> = Inr \<lparr>numerator = ''200'', denominator = ''1''\<rparr>"
    "positive ''1000'' = Inr \<lparr>numerator = ''1000'', denominator = ''1''\<rparr>" "show_int 1 = ''1''"
    "minimum \<lparr>numerator = ''1000'', denominator = ''1''\<rparr> [\<lparr>numerator = ''200'', denominator = ''1''\<rparr>, \<lparr>numerator = ''2'', denominator = ''1''\<rparr>] =
       Inr \<lparr>numerator = ''2'', denominator = ''1''\<rparr>"
    "divideRational \<lparr>numerator = ''2'', denominator = ''1''\<rparr> \<lparr>numerator = ''1'', denominator = ''1''\<rparr> = Inr \<lparr>numerator = ''2'', denominator = ''1''\<rparr>"
    "compareDecimal ''2'' ''1'' = Inr 1" "nonnegative ''2'' = Inr \<lparr>numerator = ''2'', denominator = ''1''\<rparr>"
    "multiplyRational \<lparr>numerator = ''2'', denominator = ''1''\<rparr> \<lparr>numerator = ''1'', denominator = ''1''\<rparr> = Inr \<lparr>numerator = ''2'', denominator = ''1''\<rparr>"
    "nonnegative ''1'' = Inr \<lparr>numerator = ''1'', denominator = ''1''\<rparr>"
    "compareRational \<lparr>numerator = ''2'', denominator = ''1''\<rparr> \<lparr>numerator = ''1'', denominator = ''1''\<rparr> = Inr 1"
    by code_simp+
  have budgets: "sizingBudgets (\<lambda>_. ''h'') 6000 sample_fx_input = Inr \<lparr>sb_capital = \<lparr>numerator = ''2'', denominator = ''1''\<rparr>,
      sb_leverage = \<lparr>numerator = ''1'', denominator = ''1''\<rparr>, sb_available = \<lparr>numerator = ''200'', denominator = ''1''\<rparr>,
      sb_strategyMaximum = \<lparr>numerator = ''1000'', denominator = ''1''\<rparr>\<rparr>"
    using ctx by (auto simp: sizingBudgets_def)
      (simp add: sample_fx_input_def sample_conversion_def sample_account_def sample_strategy_def steps)
  show ?thesis
    unfolding fxSizedQuantity_def budgets rbind.simps Let_def
    by (simp add: sample_fx_input_def sample_strategy_def sample_market_def notionalBudget_def risk_limited_def steps sample_quantized)
qed

theorem fx_sizing_within_limits_witness:
  "fxSizedQuantity (\<lambda>_. ''h'') 6000 sample_fx_input = Inr ''2'' \<and> 0 < dec_val ''2'' \<and>
   fx_limits sample_fx_input (rval (fx_rate sample_conversion)) (dec_val ''2'')"
  using fx_sizing_within_limits [OF sample_fx_quantity] sample_fx_quantity by (auto simp: sample_fx_input_def)

end
