(* ===== verification/Trading_Risk.thy ===== *)
theory Trading_Risk
  imports Trading_Fx Trading_Leverage_Tiers
begin

text \<open>
  Planning of a trade (\<^verbatim>\<open>src/trading_risk.ts\<close>): the price boundary of market entries, entry and
  stop prices on the exchange's tick, sizing by risk, notional or margin, allocation of the
  quantity to take-profit orders, deadlines, and the plan that combines them. The hash of
  \<^verbatim>\<open>node:crypto\<close> and the clock are parameters.
\<close>

section \<open>Price boundaries\<close>

definition priceQuantum :: "string \<Rightarrow> int result" where
  "priceQuantum value = rbind (decimal_positive value) (\<lambda>d.
     case split_point d of (whole, tail) \<Rightarrow> Inr (bigint_of (whole @ pad_end tail 18 (CHR ''0''))))"

definition formatPriceQuantum :: "int \<Rightarrow> string result" where
  "formatPriceQuantum value =
     (let digits = pad_start (show_int value) 19 (CHR ''0'')
      in decimal_positive (take (length digits - 18) digits @ CHR ''.'' # drop (length digits - 18) digits))"

definition createEntryPriceBoundary :: "trading_side \<Rightarrow> string \<Rightarrow> string \<Rightarrow> string \<Rightarrow> entry_price_boundary result" where
  "createEntryPriceBoundary side reference tick slippage =
     rbind (decimal_positive reference) (\<lambda>referencePrice.
     rbind (decimal_positive tick) (\<lambda>priceTick.
     rbind (decimal_with True (Some ''5'') slippage) (\<lambda>maxSlippagePercent.
     let hundred = 100 * 10 ^ 18 in
     rbind (priceQuantum maxSlippagePercent) (\<lambda>slip.
     let factor = (case side of LONG \<Rightarrow> hundred + slip | SHORT \<Rightarrow> hundred - slip) in
     rbind (priceQuantum referencePrice) (\<lambda>ref.
     rbind (priceQuantum priceTick) (\<lambda>unit.
     let numerator = ref * factor; denominator = hundred * unit;
         ticks = (case side of LONG \<Rightarrow> numerator sdiv denominator | SHORT \<Rightarrow> (numerator + denominator - 1) sdiv denominator) in
     rbind (formatPriceQuantum (ticks * unit)) (\<lambda>limitPrice.
       Inr \<lparr>eb_version = 1, eb_referencePrice = referencePrice, eb_maxSlippagePercent = maxSlippagePercent,
            eb_priceTick = priceTick, eb_limitPrice = limitPrice\<rparr>)))))))"

definition assertBoundaryContract :: "entry_price_boundary \<Rightarrow> trading_side \<Rightarrow> string \<Rightarrow> unit result" where
  "assertBoundaryContract boundary side slippage =
     rbind (createEntryPriceBoundary side (eb_referencePrice boundary) (eb_priceTick boundary) slippage) (\<lambda>expected.
       if boundary \<noteq> expected
       then Inl (TradingRiskError ''ENTRY_PRICE_BOUND_UNPROVEN'' ''Original entry price boundary is invalid or changed.'')
       else Inr ())"

definition opening_side :: "trading_side \<Rightarrow> order_side" where
  "opening_side side = (case side of LONG \<Rightarrow> Buy | SHORT \<Rightarrow> Sell)"

text \<open>The plan enters with its side, price boundary and slippage limit, the three fields the source picks.\<close>

definition assertEntryPriceBoundary :: "trading_side \<Rightarrow> entry_price_boundary option \<Rightarrow> string \<Rightarrow> planned_order \<Rightarrow> unit result" where
  "assertEntryPriceBoundary side entryPriceBoundary maxSlippagePercent entry = (case entryPriceBoundary of
       None \<Rightarrow>
         if po_orderType entry = Market_planned \<or> po_timeInForce entry \<noteq> None
         then Inl (TradingRiskError ''ENTRY_PRICE_BOUND_UNPROVEN'' ''Market-based entry requires its original price boundary.'')
         else Inr ()
     | Some boundary \<Rightarrow>
         rbind (assertBoundaryContract boundary side maxSlippagePercent) (\<lambda>_.
           if po_role entry \<noteq> Entry_role \<or> po_reduceOnly entry \<or> po_orderType entry \<noteq> Limit_planned \<or> po_timeInForce entry \<noteq> Some IOC
              \<or> po_postOnly entry \<or> po_price entry \<noteq> Some (eb_limitPrice boundary) \<or> po_side entry \<noteq> opening_side side
           then Inl (TradingRiskError ''ENTRY_PRICE_BOUND_UNPROVEN'' ''Entry must retain its original price-limited IOC contract.'')
           else Inr ()))"

record trading_plan_input =
  tpi_intentId :: string
  tpi_signal :: executable_signal
  tpi_strategy :: strategy_configuration
  tpi_account :: account_snapshot
  tpi_market :: market_snapshot
  tpi_fxConversion :: "stored_fx_conversion option"
  tpi_effectiveRiskPercent :: "string option"
  tpi_entryOriginAt :: "int option"
  tpi_entryExpiresAt :: "int option"
  tpi_entryPriceBoundary :: "entry_price_boundary option"
  tpi_now :: "int option"

definition is_market_entry :: "executable_signal \<Rightarrow> strategy_configuration \<Rightarrow> bool" where
  "is_market_entry signal strategy \<longleftrightarrow> sig_entry signal = Market_entry \<or> se_orderType (st_entry strategy) = Market_order"

definition planPriceBoundary :: "trading_plan_input \<Rightarrow> entry_price_boundary option result" where
  "planPriceBoundary input =
     (if \<not> is_market_entry (tpi_signal input) (tpi_strategy input)
      then (if tpi_entryPriceBoundary input \<noteq> None
            then Inl (TradingRiskError ''ENTRY_PRICE_BOUND_UNPROVEN'' ''Ordinary signal limits must not become market IOC entries.'')
            else Inr None)
      else
        rbind (case tpi_entryPriceBoundary input of
            Some b \<Rightarrow> Inr b
          | None \<Rightarrow> createEntryPriceBoundary (sig_action (tpi_signal input)) (ms_markPrice (tpi_market input)) (ms_priceTick (tpi_market input))
              (sf_maxSlippagePercent (st_safety (tpi_strategy input)))) (\<lambda>boundary.
        rbind (assertBoundaryContract boundary (sig_action (tpi_signal input)) (sf_maxSlippagePercent (st_safety (tpi_strategy input)))) (\<lambda>_.
        rbind (decimal (ms_priceTick (tpi_market input))) (\<lambda>tick.
          if eb_priceTick boundary \<noteq> tick
          then Inl (TradingRiskError ''ENTRY_PRICE_BOUND_UNPROVEN'' ''Market tick changed since original entry planning.'')
          else Inr (Some boundary)))))"


section \<open>Deadlines\<close>

definition resolveEntryExpiresAt :: "int \<Rightarrow> int \<Rightarrow> int option \<Rightarrow> int result" where
  "resolveEntryExpiresAt originAt ttlSeconds earlierDeadline =
     (let deadline = originAt + ttlSeconds * 1000 in
      if \<not> is_safe_integer originAt \<or> originAt \<le> 0 \<or> \<not> is_safe_integer ttlSeconds \<or> ttlSeconds < 10 \<or> ttlSeconds > 86400
         \<or> \<not> is_safe_integer deadline
      then Inl (TradingRiskError ''ENTRY_DEADLINE_UNPROVEN'' ''Original entry origin or deadline cannot be proven.'')
      else case earlierDeadline of
        None \<Rightarrow> Inr deadline
      | Some earlier \<Rightarrow>
          if \<not> is_safe_integer earlier \<or> earlier \<le> 0
          then Inl (TradingRiskError ''ENTRY_DEADLINE_UNPROVEN'' ''Persisted entry deadline is invalid.'')
          else Inr (min deadline earlier))"

definition assertEntryNotExpired :: "int option \<Rightarrow> int \<Rightarrow> unit result" where
  "assertEntryNotExpired deadline now = (case deadline of
       None \<Rightarrow> Inl (TradingRiskError ''ENTRY_DEADLINE_UNPROVEN'' ''Absolute entry deadline cannot be proven.'')
     | Some d \<Rightarrow>
         if \<not> is_safe_integer d \<or> d \<le> 0 \<or> \<not> is_safe_integer now
         then Inl (TradingRiskError ''ENTRY_DEADLINE_UNPROVEN'' ''Absolute entry deadline cannot be proven.'')
         else if now \<ge> d then Inl (TradingRiskError ''ENTRY_INTENT_EXPIRED'' ''Original entry deadline has expired.'')
         else Inr ())"

definition planEntryTiming :: "int \<Rightarrow> trading_plan_input \<Rightarrow> (int \<times> int) result" where
  "planEntryTiming clock input =
     (let createdAt = (case tpi_now input of None \<Rightarrow> clock | Some n \<Rightarrow> n);
          originAt = (case tpi_entryOriginAt input of None \<Rightarrow> createdAt | Some o' \<Rightarrow> o')
      in rbind (resolveEntryExpiresAt originAt (sf_entryOrderTtlSeconds (st_safety (tpi_strategy input))) (tpi_entryExpiresAt input)) (\<lambda>expires.
           Inr (createdAt, expires)))"


section \<open>Prices\<close>

fun role_name :: "order_role \<Rightarrow> string" where
  "role_name Entry_role = ''entry''"
| "role_name Take_profit = ''take_profit''"
| "role_name Stop_loss = ''stop_loss''"
| "role_name Flatten = ''flatten''"

definition clientOrderId :: "(string \<Rightarrow> string) \<Rightarrow> string \<Rightarrow> order_role \<Rightarrow> int \<Rightarrow> string" where
  "clientOrderId sha256 intentId role index =
     ''0x'' @ take 32 (sha256 (intentId @ '':'' @ role_name role @ '':'' @ show_int index))"

definition entryPrice :: "executable_signal \<Rightarrow> strategy_configuration \<Rightarrow> market_snapshot \<Rightarrow> string result" where
  "entryPrice signal strategy market =
     (if se_orderType (st_entry strategy) = Market_order then Inr (ms_markPrice market)
      else case sig_entry signal of
        Market_entry \<Rightarrow> Inr (ms_markPrice market)
      | Range_entry r \<Rightarrow>
          let near = (case sig_action signal of LONG \<Rightarrow> range_max r | SHORT \<Rightarrow> range_min r);
              far = (case sig_action signal of LONG \<Rightarrow> range_min r | SHORT \<Rightarrow> range_max r)
          in (case se_rangePrice (st_entry strategy) of
                Midpoint \<Rightarrow> midpointDecimal (range_min r) (range_max r)
              | Near \<Rightarrow> Inr near
              | Far \<Rightarrow> Inr far))"

definition quantizeDecimalUp :: "string \<Rightarrow> string \<Rightarrow> string result" where
  "quantizeDecimalUp value increment =
     rbind (quantizeDecimalDown value increment) (\<lambda>down.
     rbind (compareDecimal down value) (\<lambda>c.
       if c = 0 then Inr down else addDecimal down increment))"

definition quantizedEntryPrice :: "executable_signal \<Rightarrow> strategy_configuration \<Rightarrow> market_snapshot \<Rightarrow> string result" where
  "quantizedEntryPrice signal strategy market =
     rbind (rbind (entryPrice signal strategy market) decimal_positive) (\<lambda>raw.
       if is_market_entry signal strategy
       then (case sig_action signal of
           LONG \<Rightarrow> quantizeDecimalUp raw (ms_priceTick market)
         | SHORT \<Rightarrow> quantizeDecimalDown raw (ms_priceTick market))
       else (case sig_action signal of
           LONG \<Rightarrow> quantizeDecimalDown raw (ms_priceTick market)
         | SHORT \<Rightarrow> quantizeDecimalUp raw (ms_priceTick market)))"

definition quantizedStopPrice :: "executable_signal \<Rightarrow> market_snapshot \<Rightarrow> string result" where
  "quantizedStopPrice signal market = (case sig_action signal of
       LONG \<Rightarrow> quantizeDecimalDown (sig_stopLoss signal) (ms_priceTick market)
     | SHORT \<Rightarrow> quantizeDecimalUp (sig_stopLoss signal) (ms_priceTick market))"

fun side_name :: "trading_side \<Rightarrow> string" where
  "side_name LONG = ''LONG''"
| "side_name SHORT = ''SHORT''"

definition assertStrategyAllows :: "executable_signal \<Rightarrow> strategy_configuration \<Rightarrow> unit result" where
  "assertStrategyAllows signal strategy =
     (if sig_schema signal \<notin> set (st_allowedSignalSchemas strategy)
      then Inl (TradingRiskError ''SIGNAL_SCHEMA_BLOCKED'' (''Strategy does not allow '' @ sig_schema signal @ '' signals.''))
      else if sig_action signal \<notin> set (st_allowedSides strategy)
      then Inl (TradingRiskError ''SIDE_BLOCKED'' (''Strategy does not allow '' @ side_name (sig_action signal) @ '' positions.''))
      else if st_allowedSymbols strategy \<noteq> [] \<and> sig_symbol signal \<notin> set (st_allowedSymbols strategy)
      then Inl (TradingRiskError ''SYMBOL_BLOCKED'' (''Strategy does not allow '' @ sig_symbol signal @ ''.''))
      else Inr ())"

definition riskDistance :: "executable_signal \<Rightarrow> string \<Rightarrow> string result" where
  "riskDistance signal price = (case sig_action signal of
       LONG \<Rightarrow> rbind (compareDecimal (sig_stopLoss signal) price) (\<lambda>c.
         if c \<ge> 0 then Inl (TradingRiskError ''INVALID_STOP'' ''LONG stop must be below entry.'')
         else subtractDecimal price (sig_stopLoss signal))
     | SHORT \<Rightarrow> rbind (compareDecimal (sig_stopLoss signal) price) (\<lambda>c.
         if c \<le> 0 then Inl (TradingRiskError ''INVALID_STOP'' ''SHORT stop must be above entry.'')
         else subtractDecimal (sig_stopLoss signal) price))"


section \<open>Leverage and sizing\<close>

definition leverageCapSource :: "bool \<Rightarrow> bool \<Rightarrow> capped_by option" where
  "leverageCapSource strategyCaps marketCaps =
     (if strategyCaps \<and> marketCaps then Some By_strategy_and_market
      else if strategyCaps then Some By_strategy
      else if marketCaps then Some By_market else None)"

definition resolveLeverageDecision :: "executable_signal \<Rightarrow> strategy_configuration \<Rightarrow> market_snapshot \<Rightarrow> leverage_decision" where
  "resolveLeverageDecision signal strategy market =
     (let requestedSource = (if sig_suggestedLeverage signal \<noteq> None then From_signal else Strategy_default);
          requested = (case sig_suggestedLeverage signal of Some l \<Rightarrow> l
            | None \<Rightarrow> (case sz_defaultLeverage (st_sizing strategy) of Some l \<Rightarrow> l | None \<Rightarrow> sz_maxLeverage (st_sizing strategy)));
          strategyMaximum = sz_maxLeverage (st_sizing strategy);
          marketMaximum = ms_maxLeverage market;
          effective = min requested (min strategyMaximum (min marketMaximum 50));
          strategyCaps = (requested > strategyMaximum \<and> strategyMaximum = effective);
          marketCaps = (requested > marketMaximum \<and> marketMaximum = effective)
      in \<lparr>ld_requested = requested, ld_requestedSource = requestedSource, ld_strategyMaximum = strategyMaximum,
          ld_marketMaximum = marketMaximum, ld_effective = effective, ld_cappedBy = leverageCapSource strategyCaps marketCaps\<rparr>)"

definition above_minimums :: "market_snapshot \<Rightarrow> string \<Rightarrow> string \<Rightarrow> string \<Rightarrow> string result" where
  "above_minimums market entry label quantity =
     rbind (compareDecimal quantity (ms_minimumQuantity market)) (\<lambda>c.
       if c < 0 then Inl (TradingRiskError ''QUANTITY_BELOW_MINIMUM'' (label @ '' quantity is below the exchange minimum.''))
       else rbind (multiplyDecimal quantity entry) (\<lambda>notional. rbind (compareDecimal notional (ms_minimumNotional market)) (\<lambda>d.
         if d < 0 then Inl (TradingRiskError ''NOTIONAL_BELOW_MINIMUM'' (label @ '' notional is below the exchange minimum.''))
         else Inr quantity)))"

record sizing_common =
  sc_account :: account_snapshot
  sc_market :: market_snapshot
  sc_entry :: string
  sc_maxNotional :: string
  sc_leverage :: int

definition positionQuantity :: "sizing_common \<Rightarrow> string \<Rightarrow> string \<Rightarrow> string result" where
  "positionQuantity input riskAmount distance =
     rbind (divideDecimal riskAmount distance 18) (\<lambda>byRisk.
     rbind (divideDecimal (sc_maxNotional input) (sc_entry input) 18) (\<lambda>byNotional.
     rbind (multiplyDecimal (as_availableBalance (sc_account input)) (show_int (sc_leverage input))) (\<lambda>buyingPower.
     rbind (divideDecimal buyingPower (sc_entry input) 18) (\<lambda>byBuyingPower.
     rbind (minDecimal [byRisk, byNotional, byBuyingPower]) (\<lambda>least.
     rbind (quantizeDecimalDown least (ms_quantityStep (sc_market input))) (\<lambda>quantity.
       above_minimums (sc_market input) (sc_entry input) ''Risk-limited'' quantity))))))"

definition equityPercentPositionQuantity :: "sizing_common \<Rightarrow> string \<Rightarrow> string result" where
  "equityPercentPositionQuantity input positionPercent =
     rbind (rbind (multiplyDecimal (as_equity (sc_account input)) positionPercent) (\<lambda>p. divideDecimal p ''100'' 18)) (\<lambda>portfolioNotional.
     rbind (multiplyDecimal (as_availableBalance (sc_account input)) (show_int (sc_leverage input))) (\<lambda>buyingPower.
     rbind (minDecimal [portfolioNotional, sc_maxNotional input, buyingPower]) (\<lambda>allowedNotional.
     rbind (rbind (divideDecimal allowedNotional (sc_entry input) 18) (\<lambda>q. quantizeDecimalDown q (ms_quantityStep (sc_market input)))) (\<lambda>quantity.
       above_minimums (sc_market input) (sc_entry input) ''Portfolio-sized'' quantity))))"

definition equityPercentMarginQuantity :: "sizing_common \<Rightarrow> string \<Rightarrow> string result" where
  "equityPercentMarginQuantity input capitalPercent =
     rbind (rbind (multiplyDecimal (as_equity (sc_account input)) capitalPercent) (\<lambda>p. divideDecimal p ''100'' 18)) (\<lambda>deployedCapital.
     rbind (multiplyDecimal deployedCapital (show_int (sc_leverage input))) (\<lambda>leveragedNotional.
     rbind (multiplyDecimal (as_availableBalance (sc_account input)) (show_int (sc_leverage input))) (\<lambda>buyingPower.
     rbind (minDecimal [leveragedNotional, sc_maxNotional input, buyingPower]) (\<lambda>allowedNotional.
     rbind (rbind (divideDecimal allowedNotional (sc_entry input) 18) (\<lambda>q. quantizeDecimalDown q (ms_quantityStep (sc_market input)))) (\<lambda>quantity.
       above_minimums (sc_market input) (sc_entry input) ''Capital-sized'' quantity)))))"


section \<open>Take-profit allocation\<close>

text \<open>The mapping of the source with its running total; the last target takes what is left.\<close>

fun allocate_from :: "string \<Rightarrow> string \<Rightarrow> string \<Rightarrow> string list \<Rightarrow> string list result" where
  "allocate_from quantity step allocated [] = Inr []"
| "allocate_from quantity step allocated [allocation] = rbind (subtractDecimal quantity allocated) (\<lambda>q. Inr [q])"
| "allocate_from quantity step allocated (allocation # next # rest) =
     rbind (rbind (rbind (multiplyDecimal quantity allocation) (\<lambda>p. divideDecimal p ''100'' 18)) (\<lambda>q. quantizeDecimalDown q step)) (\<lambda>target.
     rbind (compareDecimal target ''0'') (\<lambda>c.
       if c \<le> 0 then Inl (TradingRiskError ''TARGET_QUANTITY_BELOW_MINIMUM'' ''A take-profit allocation rounds to zero.'')
       else rbind (addDecimal allocated target) (\<lambda>allocated'.
         rbind (allocate_from quantity step allocated' (next # rest)) (\<lambda>targets. Inr (target # targets)))))"

definition allocateTargetQuantities :: "string \<Rightarrow> string list \<Rightarrow> string \<Rightarrow> string list result" where
  "allocateTargetQuantities quantity allocations step = allocate_from quantity step ''0'' allocations"

fun halve_from :: "nat \<Rightarrow> string \<Rightarrow> string list result" where
  "halve_from 0 remaining = Inr [remaining]"
| "halve_from (Suc n) remaining =
     rbind (divideDecimal remaining ''2'' 18) (\<lambda>allocation.
     rbind (subtractDecimal remaining allocation) (\<lambda>remaining'.
     rbind (halve_from n remaining') (\<lambda>rest. Inr (allocation # rest))))"

definition adaptiveTargetAllocations :: "int \<Rightarrow> string list result" where
  "adaptiveTargetAllocations targetCount =
     (if \<not> is_safe_integer targetCount \<or> targetCount < 1 \<or> targetCount > 20
      then Inl (TradingRiskError ''INVALID_TARGET_COUNT'' ''Adaptive target count must be between one and twenty.'')
      else halve_from (nat (targetCount - 1)) ''100'')"

definition resolveTargetAllocations :: "strategy_configuration \<Rightarrow> nat \<Rightarrow> string list result" where
  "resolveTargetAllocations strategy targetCount =
     (let configured = ex_targetAllocationsPercent (st_exits strategy) in
      case ex_targetAllocationMode (st_exits strategy) of
        Some Adaptive_halving \<Rightarrow> adaptiveTargetAllocations (int targetCount)
      | _ \<Rightarrow>
          if length configured \<noteq> targetCount
          then Inl (TradingRiskError ''TARGET_COUNT_MISMATCH''
            (''Strategy defines '' @ show_int (int (length configured)) @ '' exits but the signal contains '' @ show_int (int targetCount) @ '' targets.''))
          else Inr configured)"

definition resolveDailyLossLimit :: "strategy_safety \<Rightarrow> string \<Rightarrow> string result" where
  "resolveDailyLossLimit safety accountEquity = (case sf_maxDailyLossMode safety of
       Some Equity_percent \<Rightarrow> rbind (multiplyDecimal accountEquity (sf_maxDailyLoss safety)) (\<lambda>p. divideDecimal p ''100'' 18)
     | _ \<Rightarrow> Inr (sf_maxDailyLoss safety))"


section \<open>Stops after take-profits\<close>

definition breakEvenStopPrice :: "trading_side \<Rightarrow> string \<Rightarrow> string \<Rightarrow> string result" where
  "breakEvenStopPrice side averageEntryPrice priceTick = (case side of
       LONG \<Rightarrow> quantizeDecimalUp averageEntryPrice priceTick
     | SHORT \<Rightarrow> quantizeDecimalDown averageEntryPrice priceTick)"

datatype stop_reason = Initial | Break_even_after_target | Target_ladder_after_target | Final_target_complete

record stop_loss_decision =
  sld_trigger :: string
  sld_reason :: stop_reason
  sld_referenceTargetIndex :: "int option"

definition take_profits :: "trading_plan \<Rightarrow> planned_order list" where
  "take_profits plan = sort_key (\<lambda>order. case po_targetIndex order of None \<Rightarrow> 0 | Some i \<Rightarrow> i)
     (filter (\<lambda>order. po_role order = Take_profit) (tp_orders plan))"

definition adaptiveStopLossDecision :: "trading_plan \<Rightarrow> int \<Rightarrow> string \<Rightarrow> stop_loss_decision result" where
  "adaptiveStopLossDecision plan filledTargets breakEvenPrice =
     (let takeProfits = take_profits plan; count = int (length takeProfits);
          finalTargetComplete = (filledTargets \<ge> count);
          managedTargetCount = (if finalTargetComplete then max 0 (count - 1) else filledTargets)
      in if managedTargetCount \<le> 0
         then Inr \<lparr>sld_trigger = tp_stopPrice plan, sld_reason = (if finalTargetComplete then Final_target_complete else Initial),
                  sld_referenceTargetIndex = None\<rparr>
         else let referenceTargetIndex = managedTargetCount - 2 in
           if referenceTargetIndex \<le> 0
           then Inr \<lparr>sld_trigger = breakEvenPrice, sld_reason = (if finalTargetComplete then Final_target_complete else Break_even_after_target),
                    sld_referenceTargetIndex = None\<rparr>
           else case find (\<lambda>order. po_targetIndex order = Some referenceTargetIndex) takeProfits of
               None \<Rightarrow> Inl (TradingRiskError ''MISSING_REFERENCE_TARGET'' ''Adaptive stop reference target is missing.'')
             | Some reference \<Rightarrow> (case po_price reference of
                 None \<Rightarrow> Inl (TradingRiskError ''MISSING_REFERENCE_TARGET'' ''Adaptive stop reference target is missing.'')
               | Some price \<Rightarrow>
                   if price = [] then Inl (TradingRiskError ''MISSING_REFERENCE_TARGET'' ''Adaptive stop reference target is missing.'')
                   else Inr \<lparr>sld_trigger = price, sld_reason = (if finalTargetComplete then Final_target_complete else Target_ladder_after_target),
                        sld_referenceTargetIndex = (if finalTargetComplete then None else Some referenceTargetIndex)\<rparr>))"


section \<open>The plan\<close>

definition closing_side :: "trading_side \<Rightarrow> order_side" where
  "closing_side side = (case side of LONG \<Rightarrow> Sell | SHORT \<Rightarrow> Buy)"

definition entry_order ::
    "(string \<Rightarrow> string) \<Rightarrow> trading_plan_input \<Rightarrow> string \<Rightarrow> string \<Rightarrow> entry_price_boundary option \<Rightarrow> planned_order" where
  "entry_order sha256 input entry quantity boundary =
     (let market = is_market_entry (tpi_signal input) (tpi_strategy input) in
      \<lparr>po_clientOrderId = clientOrderId sha256 (tpi_intentId input) Entry_role 0, po_role = Entry_role,
       po_side = opening_side (sig_action (tpi_signal input)),
       po_orderType = (if boundary \<noteq> None \<or> \<not> market then Limit_planned else Market_planned),
       po_timeInForce = (if boundary \<noteq> None then Some IOC else None), po_quantity = quantity,
       po_price = (case boundary of Some b \<Rightarrow> Some (eb_limitPrice b) | None \<Rightarrow> if \<not> market then Some entry else None),
       po_triggerPrice = None, po_reduceOnly = False, po_postOnly = (\<not> market \<and> se_postOnly (st_entry (tpi_strategy input))),
       po_targetIndex = None\<rparr>)"

definition stop_order :: "(string \<Rightarrow> string) \<Rightarrow> trading_plan_input \<Rightarrow> string \<Rightarrow> string \<Rightarrow> planned_order" where
  "stop_order sha256 input stop quantity =
     \<lparr>po_clientOrderId = clientOrderId sha256 (tpi_intentId input) Stop_loss 0, po_role = Stop_loss,
      po_side = closing_side (sig_action (tpi_signal input)), po_orderType = Stop_market, po_timeInForce = None, po_quantity = quantity,
      po_price = None, po_triggerPrice = Some stop, po_reduceOnly = True, po_postOnly = False, po_targetIndex = None\<rparr>"

definition take_profit_order ::
    "(string \<Rightarrow> string) \<Rightarrow> trading_plan_input \<Rightarrow> string list \<Rightarrow> nat \<times> decimal_range \<Rightarrow> planned_order result" where
  "take_profit_order sha256 input targets = (\<lambda>(index, target).
     if index \<ge> length targets then Inl (Error ''Target allocation is missing.'')
     else
       rbind (midpointDecimal (range_min target) (range_max target)) (\<lambda>middle.
       rbind (case sig_action (tpi_signal input) of
           LONG \<Rightarrow> quantizeDecimalDown middle (ms_priceTick (tpi_market input))
         | SHORT \<Rightarrow> quantizeDecimalUp middle (ms_priceTick (tpi_market input))) (\<lambda>price.
         Inr \<lparr>po_clientOrderId = clientOrderId sha256 (tpi_intentId input) Take_profit (int index + 1), po_role = Take_profit,
              po_side = closing_side (sig_action (tpi_signal input)), po_orderType = Limit_planned, po_timeInForce = None,
              po_quantity = targets ! index, po_price = Some price, po_triggerPrice = None, po_reduceOnly = True, po_postOnly = False,
              po_targetIndex = Some (int index + 1)\<rparr>)))"

definition plannedOrders ::
    "(string \<Rightarrow> string) \<Rightarrow> trading_plan_input \<Rightarrow> string \<Rightarrow> string \<Rightarrow> string \<Rightarrow> string list \<Rightarrow> entry_price_boundary option \<Rightarrow>
     planned_order list result" where
  "plannedOrders sha256 input entry stop quantity targetAllocations boundary =
     rbind (allocateTargetQuantities quantity targetAllocations (ms_quantityStep (tpi_market input))) (\<lambda>targets.
     rbind (mapM (take_profit_order sha256 input targets) (enumerate 0 (sig_targets (tpi_signal input)))) (\<lambda>takeProfits.
       Inr (entry_order sha256 input entry quantity boundary # stop_order sha256 input stop quantity # takeProfits)))"

definition configuredPlanRisk :: "trading_plan_input \<Rightarrow> string result" where
  "configuredPlanRisk input =
     (let sizing = st_sizing (tpi_strategy input);
          adaptiveCeiling = (case sz_maxAdaptiveRiskPercent sizing of None \<Rightarrow> sz_riskPerTradePercent sizing | Some m \<Rightarrow> m)
      in rbind (case tpi_effectiveRiskPercent input of
           None \<Rightarrow> Inr (sz_riskPerTradePercent sizing)
         | Some effective \<Rightarrow>
             if effective = [] then Inr (sz_riskPerTradePercent sizing)
             else rbind (decimal_with True (Some ''10'') effective) (\<lambda>e. minDecimal [e, adaptiveCeiling])) (\<lambda>selectedRisk.
         case sig_suggestedRiskPercent (tpi_signal input) of
           None \<Rightarrow> Inr selectedRisk
         | Some suggested \<Rightarrow>
             if sz_positionSizingMode sizing \<in> {None, Some Risk_percent} \<and> suggested \<noteq> []
             then minDecimal [selectedRisk, suggested] else Inr selectedRisk))"

definition fx_input_of :: "trading_plan_input \<Rightarrow> string \<Rightarrow> string \<Rightarrow> string \<Rightarrow> int \<Rightarrow> fx_quantity_input" where
  "fx_input_of input entry percent distance leverage =
     \<lparr>fsi_account = tpi_account input, fsi_market = tpi_market input, fsi_strategy = tpi_strategy input, fsi_fxConversion = tpi_fxConversion input,
      fqi_entry = entry, fqi_distance = distance, fqi_percent = percent, fqi_leverage = leverage\<rparr>"

definition quantityForPlan ::
    "(string \<Rightarrow> string) \<Rightarrow> int \<Rightarrow> trading_plan_input \<Rightarrow> string \<Rightarrow> string \<Rightarrow> string \<Rightarrow> int \<Rightarrow> string result" where
  "quantityForPlan sha256 clock input entry riskPercent distance leverage =
     (if tpi_fxConversion input \<noteq> None then fxSizedQuantity sha256 clock (fx_input_of input entry riskPercent distance leverage)
      else
        let common = \<lparr>sc_account = tpi_account input, sc_market = tpi_market input, sc_entry = entry,
              sc_maxNotional = sz_maxPositionNotional (st_sizing (tpi_strategy input)), sc_leverage = leverage\<rparr>
        in (case sz_positionSizingMode (st_sizing (tpi_strategy input)) of
              Some Equity_percent_notional \<Rightarrow> equityPercentPositionQuantity common riskPercent
            | Some Equity_percent_margin \<Rightarrow> equityPercentMarginQuantity common riskPercent
            | _ \<Rightarrow> rbind (rbind (multiplyDecimal (as_equity (tpi_account input)) riskPercent) (\<lambda>p. divideDecimal p ''100'' 18)) (\<lambda>riskAmount.
                positionQuantity common riskAmount distance)))"

definition originalNotionalBudget :: "trading_plan_input \<Rightarrow> string \<Rightarrow> int \<Rightarrow> string result" where
  "originalNotionalBudget input capital leverage =
     (let sizing = st_sizing (tpi_strategy input) in
      rbind (case sz_positionSizingMode sizing of
          Some Equity_percent_margin \<Rightarrow> multiplyDecimal capital (show_int leverage)
        | Some Equity_percent_notional \<Rightarrow> Inr capital
        | _ \<Rightarrow> Inr (sz_maxPositionNotional sizing)) (\<lambda>sized.
      rbind (multiplyDecimal (as_availableBalance (tpi_account input)) (show_int leverage)) (\<lambda>power.
        minDecimal [sz_maxPositionNotional sizing, power, sized])))"

record plan_sizing =
  ps_quantity :: string
  ps_leverage :: int
  ps_leverageDecision :: leverage_decision
  ps_riskAmount :: string
  ps_fxSizing :: "fx_sizing_context option"
  ps_tierDecision :: "tier_decision option"

definition solvePlanSizing ::
    "(string \<Rightarrow> string) \<Rightarrow> int \<Rightarrow> trading_plan_input \<Rightarrow> string \<Rightarrow> string \<Rightarrow> string \<Rightarrow> plan_sizing result" where
  "solvePlanSizing sha256 clock input price distance limitPrice =
     rbind (fxSizingContext sha256 clock (fx_input_of input price [] distance 0)) (\<lambda>fxSizing.
     rbind (configuredPlanRisk input) (\<lambda>configuredRisk.
     let decision = resolveLeverageDecision (tpi_signal input) (tpi_strategy input) (tpi_market input) in
     rbind (rbind (multiplyDecimal (as_equity (tpi_account input)) configuredRisk) (\<lambda>p. divideDecimal p ''100'' 18)) (\<lambda>configuredRiskAmount.
     rbind (case ms_leverageTiers (tpi_market input) of
         None \<Rightarrow> Inr price
       | Some _ \<Rightarrow> rbind (compareDecimal (ms_markPrice (tpi_market input)) limitPrice) (\<lambda>c.
           Inr (if c > 0 then ms_markPrice (tpi_market input) else limitPrice))) (\<lambda>sizingPrice.
     let quantityAtLeverage = (\<lambda>leverage. quantityForPlan sha256 clock input sizingPrice configuredRisk distance leverage) in
     rbind (case ms_leverageTiers (tpi_market input) of
         Some tiers \<Rightarrow> solveTierQuantity tiers (ld_effective decision) quantityAtLeverage
       | None \<Rightarrow> rbind (quantityAtLeverage (ld_effective decision)) (\<lambda>q.
           Inr \<lparr>sol_leverage = ld_effective decision, sol_quantity = q, sol_tierIndex = 0\<rparr>)) (\<lambda>solved.
     let leverage = sol_leverage solved; quantity = sol_quantity solved in
     rbind (case fxSizing of
         Some _ \<Rightarrow> rbind (fxNotionalBudget sha256 clock (fx_input_of input sizingPrice configuredRisk distance leverage)) (\<lambda>m. Inr (Money_budget m))
       | None \<Rightarrow> rbind (originalNotionalBudget input configuredRiskAmount leverage) (\<lambda>d. Inr (Decimal_budget d))) (\<lambda>maximumNotional.
     let leverageDecision = decision\<lparr>ld_effective := leverage,
           ld_cappedBy := (if leverage < ld_effective decision then Some By_market else ld_cappedBy decision)\<rparr> in
     rbind (case sz_positionSizingMode (st_sizing (tpi_strategy input)) of
         Some Equity_percent_notional \<Rightarrow> multiplyDecimal quantity distance
       | Some Equity_percent_margin \<Rightarrow> multiplyDecimal quantity distance
       | _ \<Rightarrow> Inr configuredRiskAmount) (\<lambda>riskAmount.
     rbind (case ms_leverageTiers (tpi_market input) of
         None \<Rightarrow> Inr None
       | Some tiers \<Rightarrow> rbind (tierDecision sha256 tiers solved maximumNotional) (\<lambda>td. Inr (Some td))) (\<lambda>td.
       Inr \<lparr>ps_quantity = quantity, ps_leverage = leverage, ps_leverageDecision = leverageDecision, ps_riskAmount = riskAmount,
            ps_fxSizing = fxSizing, ps_tierDecision = td\<rparr>))))))))"

definition createTradingPlan :: "(string \<Rightarrow> string) \<Rightarrow> int \<Rightarrow> trading_plan_input \<Rightarrow> trading_plan result" where
  "createTradingPlan sha256 clock input =
     rbind (assertStrategyAllows (tpi_signal input) (tpi_strategy input)) (\<lambda>_.
     rbind (resolveTargetAllocations (tpi_strategy input) (length (sig_targets (tpi_signal input)))) (\<lambda>targetAllocations.
     rbind (planPriceBoundary input) (\<lambda>boundary.
     let pricingMarket = (case boundary of None \<Rightarrow> tpi_market input | Some b \<Rightarrow> (tpi_market input)\<lparr>ms_markPrice := eb_referencePrice b\<rparr>) in
     rbind (quantizedEntryPrice (tpi_signal input) (tpi_strategy input) pricingMarket) (\<lambda>price.
     rbind (quantizedStopPrice (tpi_signal input) (tpi_market input)) (\<lambda>stop.
     let limitPrice = (case boundary of None \<Rightarrow> price | Some b \<Rightarrow> eb_limitPrice b) in
     rbind (riskDistance ((tpi_signal input)\<lparr>sig_stopLoss := stop\<rparr>) limitPrice) (\<lambda>distance.
     rbind (solvePlanSizing sha256 clock input price distance limitPrice) (\<lambda>sizing.
     rbind (multiplyDecimal (ps_quantity sizing) price) (\<lambda>notional.
     rbind (plannedOrders sha256 input price stop (ps_quantity sizing) targetAllocations boundary) (\<lambda>orders.
     rbind (planEntryTiming clock input) (\<lambda>(createdAt, expiresAt).
       Inr \<lparr>tp_version = 1, tp_symbol = sig_symbol (tpi_signal input), tp_side = sig_action (tpi_signal input), tp_entryPrice = price,
            tp_entryPriceBoundary = boundary, tp_stopPrice = stop, tp_quantity = ps_quantity sizing, tp_notional = notional,
            tp_riskAmount = ps_riskAmount sizing, tp_fxSizing = ps_fxSizing sizing, tp_leverage = ps_leverage sizing,
            tp_leverageDecision = Some (ps_leverageDecision sizing), tp_leverageTierDecision = ps_tierDecision sizing,
            tp_entryTimeoutSeconds = se_timeoutSeconds (st_entry (tpi_strategy input)),
            tp_entryOrderTtlSeconds = sf_entryOrderTtlSeconds (st_safety (tpi_strategy input)), tp_entryExpiresAt = Some expiresAt,
            tp_maxSlippagePercent = sf_maxSlippagePercent (st_safety (tpi_strategy input)), tp_quantityStep = ms_quantityStep (tpi_market input),
            tp_targetAllocationMode = (case ex_targetAllocationMode (st_exits (tpi_strategy input)) of None \<Rightarrow> Manual | Some m \<Rightarrow> m),
            tp_targetAllocationsPercent = targetAllocations,
            tp_stopLossMode = (case ex_stopLossMode (st_exits (tpi_strategy input)) of None \<Rightarrow> Configured | Some m \<Rightarrow> m),
            tp_orders = orders, tp_createdAt = createdAt\<rparr>))))))))))"


section \<open>Sizing respects its limits\<close>

lemma decimal_int:
  assumes "decimal_pattern (show_int n)"
  shows "0 \<le> n" "dec_val (show_int n) = of_int n"
proof -
  show n: "0 \<le> n"
  proof (rule ccontr)
    assume "\<not> 0 \<le> n"
    then have "starts_neg (show_int n)" by (simp add: show_int_def)
    with valid_unsigned [OF assms] show False by simp
  qed
  show "dec_val (show_int n) = of_int n" using integer_canonical [OF n] by simp
qed

lemma quantized_le: "quantizeDecimalDown v inc = Inr q \<Longrightarrow> dec_val q \<le> dec_val v"
proof -
  assume "quantizeDecimalDown v inc = Inr q"
  note h = quantize_Inr [OF this]
  then show ?thesis by (metis of_int_floor_le pos_le_divide_eq)
qed

lemma above_minimums_Inr:
  assumes "above_minimums market entry label quantity = Inr q"
  shows "q = quantity" "decimal_pattern q" "decimal_pattern entry" "dec_val (ms_minimumQuantity market) \<le> dec_val q"
    "dec_val (ms_minimumNotional market) \<le> dec_val q * dec_val entry"
proof -
  obtain c n d where h: "compareDecimal quantity (ms_minimumQuantity market) = Inr c" "\<not> c < 0" "multiplyDecimal quantity entry = Inr n"
    "compareDecimal n (ms_minimumNotional market) = Inr d" "\<not> d < 0" "q = quantity"
    using assms by (auto simp: above_minimums_def rbind_Inr_iff split: if_splits)
  note i = compare_Inr [OF h(1)] multiply_Inr [OF h(3)] compare_Inr [OF h(4)]
  have "dec_val n \<le> dec_val quantity * dec_val entry" using i(2) trunc_at_le by simp
  then show "q = quantity" "decimal_pattern q" "decimal_pattern entry" "dec_val (ms_minimumQuantity market) \<le> dec_val q"
    "dec_val (ms_minimumNotional market) \<le> dec_val q * dec_val entry"
    using h i by auto
qed

text \<open>A share of an amount in percent, cut off after eighteen places, never exceeds it.\<close>

lemma percent_of_Inr:
  assumes "rbind (multiplyDecimal amount percent) (\<lambda>p. divideDecimal p ''100'' 18) = Inr share"
  shows "decimal_pattern amount" "decimal_pattern percent" "0 \<le> dec_val share" "dec_val share \<le> dec_val amount * dec_val percent / 100"
proof -
  obtain p where p: "multiplyDecimal amount percent = Inr p" "divideDecimal p ''100'' 18 = Inr share" using assms by (auto simp: rbind_Inr_iff)
  have h: "dec_val ''100'' = 100" by code_simp
  note m = multiply_Inr [OF p(1)] and d = divide_Inr [OF p(2)]
  show "decimal_pattern amount" "decimal_pattern percent" using m by auto
  have "dec_val p \<le> dec_val amount * dec_val percent" using m trunc_at_le by simp
  then have "dec_val p / 100 \<le> dec_val amount * dec_val percent / 100" by (simp add: divide_right_mono)
  moreover have "dec_val share \<le> dec_val p / 100" "dec_val share = trunc_at 18 (dec_val p / 100)" using d h trunc_at_le [of 18 "dec_val p / 100"] by simp_all
  moreover have "0 \<le> dec_val p" using d dec_val_nonneg by blast
  ultimately show "0 \<le> dec_val share" "dec_val share \<le> dec_val amount * dec_val percent / 100" using trunc_at_nonneg [of "dec_val p / 100" 18] by linarith+
qed

lemma leveraged_Inr:
  assumes "multiplyDecimal amount (show_int leverage) = Inr bp"
  shows "decimal_pattern amount" "0 \<le> leverage" "dec_val bp \<le> dec_val amount * of_int leverage"
proof -
  note m = multiply_Inr [OF assms]
  then have l: "0 \<le> leverage" "dec_val (show_int leverage) = of_int leverage" using decimal_int by auto
  show "decimal_pattern amount" "0 \<le> leverage" "dec_val bp \<le> dec_val amount * of_int leverage"
    using m l trunc_at_le [of 18 "dec_val amount * of_int leverage"] by auto
qed

lemma divided_le:
  assumes "divideDecimal a b 18 = Inr c"
  shows "decimal_pattern a" "0 < dec_val b" "x \<le> dec_val c \<Longrightarrow> x * dec_val b \<le> dec_val a"
proof -
  note d = divide_Inr [OF assms]
  show b: "decimal_pattern a" "0 < dec_val b" using d dec_val_nonneg [of b] by auto
  assume "x \<le> dec_val c"
  then have "x \<le> dec_val a / dec_val b" using d trunc_at_le [of 18 "dec_val a / dec_val b"] by simp
  then show "x * dec_val b \<le> dec_val a" using b by (simp add: pos_le_divide_eq)
qed

text \<open>The limits of a position in its own currency.\<close>

definition native_limits ::
    "account_snapshot \<Rightarrow> strategy_sizing \<Rightarrow> rat \<Rightarrow> rat \<Rightarrow> rat \<Rightarrow> int \<Rightarrow> rat \<Rightarrow> bool" where
  "native_limits account sizing entry percent distance leverage q \<longleftrightarrow>
     (let capital = dec_val (as_equity account) * percent / 100 in
      q * entry \<le> dec_val (sz_maxPositionNotional sizing) \<and>
      q * entry \<le> dec_val (as_availableBalance account) * of_int leverage \<and>
      (case sz_positionSizingMode sizing of
         Some Equity_percent_margin \<Rightarrow> q * entry \<le> capital * of_int leverage
       | Some Equity_percent_notional \<Rightarrow> q * entry \<le> capital
       | _ \<Rightarrow> q * distance \<le> capital))"

text \<open>What every sizing mode guarantees of its result.\<close>

definition sized :: "sizing_common \<Rightarrow> rat \<Rightarrow> string \<Rightarrow> bool" where
  "sized input cap q \<longleftrightarrow>
     decimal_pattern q \<and> canonical_decimal q \<and>
     dec_val q * dec_val (sc_entry input) \<le> dec_val (sc_maxNotional input) \<and>
     dec_val q * dec_val (sc_entry input) \<le> dec_val (as_availableBalance (sc_account input)) * of_int (sc_leverage input) \<and>
     dec_val q * dec_val (sc_entry input) \<le> cap \<and>
     (\<exists>k. dec_val q = of_int k * dec_val (ms_quantityStep (sc_market input))) \<and>
     dec_val (ms_minimumQuantity (sc_market input)) \<le> dec_val q \<and>
     dec_val (ms_minimumNotional (sc_market input)) \<le> dec_val q * dec_val (sc_entry input)"

lemma sized_by_notional:
  assumes "multiplyDecimal (as_availableBalance (sc_account input)) (show_int (sc_leverage input)) = Inr bp"
    and "minDecimal [first, sc_maxNotional input, bp] = Inr allowed"
    and "rbind (divideDecimal allowed (sc_entry input) 18) (\<lambda>q. quantizeDecimalDown q (ms_quantityStep (sc_market input))) = Inr quantity"
    and "above_minimums (sc_market input) (sc_entry input) label quantity = Inr q"
  shows "sized input (dec_val first) q"
proof -
  obtain x where x: "divideDecimal allowed (sc_entry input) 18 = Inr x" "quantizeDecimalDown x (ms_quantityStep (sc_market input)) = Inr quantity"
    using assms(3) by (auto simp: rbind_Inr_iff)
  note a = above_minimums_Inr [OF assms(4)]
  have qx: "dec_val q \<le> dec_val x" using quantized_le [OF x(2)] a(1) by simp
  have "dec_val q * dec_val (sc_entry input) \<le> dec_val allowed" using divided_le(3) [OF x(1) qx] .
  moreover have "dec_val allowed \<le> dec_val first" "dec_val allowed \<le> dec_val (sc_maxNotional input)" "dec_val allowed \<le> dec_val bp"
    using min_Inr(2) [OF assms(2)] by auto
  moreover note leveraged_Inr(3) [OF assms(1)] quantize_Inr [OF x(2)]
  ultimately show ?thesis unfolding sized_def using a by auto
qed

lemma position_quantity_sized:
  assumes "positionQuantity input riskAmount distance = Inr q"
  shows "sized input (dec_val (sc_maxNotional input)) q" "dec_val q * dec_val distance \<le> dec_val riskAmount"
proof -
  obtain r n bp b least quantity where h: "divideDecimal riskAmount distance 18 = Inr r" "divideDecimal (sc_maxNotional input) (sc_entry input) 18 = Inr n"
    "multiplyDecimal (as_availableBalance (sc_account input)) (show_int (sc_leverage input)) = Inr bp"
    "divideDecimal bp (sc_entry input) 18 = Inr b" "minDecimal [r, n, b] = Inr least"
    "quantizeDecimalDown least (ms_quantityStep (sc_market input)) = Inr quantity"
    "above_minimums (sc_market input) (sc_entry input) ''Risk-limited'' quantity = Inr q"
    using assms by (auto simp: positionQuantity_def rbind_Inr_iff)
  note a = above_minimums_Inr [OF h(7)]
  have q: "dec_val q \<le> dec_val least" using quantized_le [OF h(6)] a(1) by simp
  have "dec_val least \<le> dec_val r" "dec_val least \<le> dec_val n" "dec_val least \<le> dec_val b" using min_Inr(2) [OF h(5)] by auto
  with q have le: "dec_val q \<le> dec_val r" "dec_val q \<le> dec_val n" "dec_val q \<le> dec_val b" by linarith+
  show "dec_val q * dec_val distance \<le> dec_val riskAmount" using divided_le(3) [OF h(1) le(1)] .
  have "dec_val q * dec_val (sc_entry input) \<le> dec_val (sc_maxNotional input)" "dec_val q * dec_val (sc_entry input) \<le> dec_val bp"
    using divided_le(3) [OF h(2) le(2)] divided_le(3) [OF h(4) le(3)] by auto
  moreover note leveraged_Inr(3) [OF h(3)] quantize_Inr [OF h(6)]
  ultimately show "sized input (dec_val (sc_maxNotional input)) q" unfolding sized_def using a by auto
qed

definition common_of :: "trading_plan_input \<Rightarrow> string \<Rightarrow> int \<Rightarrow> sizing_common" where
  "common_of input entry leverage = \<lparr>sc_account = tpi_account input, sc_market = tpi_market input, sc_entry = entry,
     sc_maxNotional = sz_maxPositionNotional (st_sizing (tpi_strategy input)), sc_leverage = leverage\<rparr>"

text \<open>The quantity of a plan by sizing mode, with the share of the equity it was sized by.\<close>

lemma plan_quantity_sized:
  assumes "quantityForPlan sha256 clock input entry percent distance leverage = Inr q" "tpi_fxConversion input = None"
  obtains share cap where
    "rbind (multiplyDecimal (as_equity (tpi_account input)) percent) (\<lambda>p. divideDecimal p ''100'' 18) = Inr share"
    "sized (common_of input entry leverage) (dec_val cap) q"
    "case sz_positionSizingMode (st_sizing (tpi_strategy input)) of
       Some Equity_percent_margin \<Rightarrow> multiplyDecimal share (show_int leverage) = Inr cap
     | Some Equity_percent_notional \<Rightarrow> cap = share
     | _ \<Rightarrow> cap = sz_maxPositionNotional (st_sizing (tpi_strategy input)) \<and> dec_val q * dec_val distance \<le> dec_val share"
proof -
  define sizing where "sizing = st_sizing (tpi_strategy input)"
  define common where "common = common_of input entry leverage"
  note c = common_def [unfolded common_of_def]
  consider (notional) "sz_positionSizingMode sizing = Some Equity_percent_notional" "equityPercentPositionQuantity common percent = Inr q"
    | (margin) "sz_positionSizingMode sizing = Some Equity_percent_margin" "equityPercentMarginQuantity common percent = Inr q"
    | (risk) amount where "sz_positionSizingMode sizing \<in> {None, Some Risk_percent}" "positionQuantity common amount distance = Inr q"
        "rbind (multiplyDecimal (as_equity (tpi_account input)) percent) (\<lambda>p. divideDecimal p ''100'' 18) = Inr amount"
    using assms unfolding quantityForPlan_def Let_def sizing_def [symmetric] c [folded sizing_def, symmetric]
    by (cases "sz_positionSizingMode sizing"; auto simp: rbind_Inr_iff split: position_sizing_mode.splits)
  then show thesis
  proof cases
    case notional
    obtain share bp allowed quantity where h: "rbind (multiplyDecimal (as_equity (tpi_account input)) percent) (\<lambda>p. divideDecimal p ''100'' 18) = Inr share"
      "multiplyDecimal (as_availableBalance (sc_account common)) (show_int (sc_leverage common)) = Inr bp"
      "minDecimal [share, sc_maxNotional common, bp] = Inr allowed"
      "rbind (divideDecimal allowed (sc_entry common) 18) (\<lambda>q. quantizeDecimalDown q (ms_quantityStep (sc_market common))) = Inr quantity"
      "above_minimums (sc_market common) (sc_entry common) ''Portfolio-sized'' quantity = Inr q"
      using notional(2) by (auto simp: equityPercentPositionQuantity_def rbind_Inr_iff c)
    show thesis
      using that [OF h(1) sized_by_notional [OF h(2-5), unfolded common_def]] notional(1) by (simp add: sizing_def)
  next
    case margin
    obtain share lev bp allowed quantity where h: "rbind (multiplyDecimal (as_equity (tpi_account input)) percent) (\<lambda>p. divideDecimal p ''100'' 18) = Inr share"
      "multiplyDecimal share (show_int leverage) = Inr lev"
      "multiplyDecimal (as_availableBalance (sc_account common)) (show_int (sc_leverage common)) = Inr bp"
      "minDecimal [lev, sc_maxNotional common, bp] = Inr allowed"
      "rbind (divideDecimal allowed (sc_entry common) 18) (\<lambda>q. quantizeDecimalDown q (ms_quantityStep (sc_market common))) = Inr quantity"
      "above_minimums (sc_market common) (sc_entry common) ''Capital-sized'' quantity = Inr q"
      using margin(2) by (auto simp: equityPercentMarginQuantity_def rbind_Inr_iff c)
    show thesis
      using that [OF h(1) sized_by_notional [OF h(3-6), unfolded common_def]] margin(1) h(2) by (simp add: sizing_def)
  next
    case risk
    note p = position_quantity_sized [OF risk(2)]
    have "sized (common_of input entry leverage) (dec_val (sz_maxPositionNotional sizing)) q" using p(1) by (simp add: c common_of_def sizing_def)
    from that [OF risk(3) this] show thesis using risk(1) p(2) by (auto simp: sizing_def)
  qed
qed

lemma plan_quantity_limits:
  assumes "quantityForPlan sha256 clock input entry percent distance leverage = Inr q" "tpi_fxConversion input = None"
  shows "native_limits (tpi_account input) (st_sizing (tpi_strategy input)) (dec_val entry) (dec_val percent) (dec_val distance) leverage (dec_val q)"
    "decimal_pattern q" "canonical_decimal q" "\<exists>k. dec_val q = of_int k * dec_val (ms_quantityStep (tpi_market input))"
    "dec_val (ms_minimumQuantity (tpi_market input)) \<le> dec_val q" "dec_val (ms_minimumNotional (tpi_market input)) \<le> dec_val q * dec_val entry"
proof -
  define capital where "capital = dec_val (as_equity (tpi_account input)) * dec_val percent / 100"
  obtain share cap where s: "rbind (multiplyDecimal (as_equity (tpi_account input)) percent) (\<lambda>p. divideDecimal p ''100'' 18) = Inr share"
    "sized (common_of input entry leverage) (dec_val cap) q"
    "case sz_positionSizingMode (st_sizing (tpi_strategy input)) of
       Some Equity_percent_margin \<Rightarrow> multiplyDecimal share (show_int leverage) = Inr cap
     | Some Equity_percent_notional \<Rightarrow> cap = share
     | _ \<Rightarrow> cap = sz_maxPositionNotional (st_sizing (tpi_strategy input)) \<and> dec_val q * dec_val distance \<le> dec_val share"
    using assms by (rule plan_quantity_sized)
  have "dec_val share \<le> capital" using percent_of_Inr(4) [OF s(1)] by (simp add: capital_def)
  moreover have "dec_val cap \<le> capital * of_int leverage" if "multiplyDecimal share (show_int leverage) = Inr cap"
    using leveraged_Inr(2,3) [OF that] \<open>dec_val share \<le> capital\<close> by (meson mult_right_mono of_int_0_le_iff order_trans)
  ultimately have "case sz_positionSizingMode (st_sizing (tpi_strategy input)) of
         Some Equity_percent_margin \<Rightarrow> dec_val q * dec_val entry \<le> capital * of_int leverage
       | Some Equity_percent_notional \<Rightarrow> dec_val q * dec_val entry \<le> capital
       | _ \<Rightarrow> dec_val q * dec_val distance \<le> capital"
    using s(2,3) by (auto simp: sized_def common_of_def split: option.splits position_sizing_mode.splits)
  then show "native_limits (tpi_account input) (st_sizing (tpi_strategy input)) (dec_val entry) (dec_val percent) (dec_val distance) leverage (dec_val q)"
    using s(2) unfolding native_limits_def Let_def capital_def [symmetric] by (simp add: sized_def common_of_def)
  show "decimal_pattern q" "canonical_decimal q" "\<exists>k. dec_val q = of_int k * dec_val (ms_quantityStep (tpi_market input))"
    "dec_val (ms_minimumQuantity (tpi_market input)) \<le> dec_val q" "dec_val (ms_minimumNotional (tpi_market input)) \<le> dec_val q * dec_val entry"
    using s(2) by (simp_all add: sized_def common_of_def)
qed


section \<open>The price boundary\<close>

lemma priceQuantum_Inr:
  assumes "priceQuantum v = Inr n"
  shows "decimal_pattern (js_trim v)" "(of_int n :: rat) = 10 ^ 18 * dec_val (js_trim v)" "0 < n"
proof -
  obtain d where d: "decimal_positive v = Inr d" "n = decimalUnits d"
    using assms by (auto simp: priceQuantum_def rbind_Inr_iff decimalUnits_def case_prod_unfold)
  note v = decimal_positive_value [OF d(1)]
  show "decimal_pattern (js_trim v)" using v by simp
  show n: "(of_int n :: rat) = 10 ^ 18 * dec_val (js_trim v)"
    using decimalUnits_law [of d] unsigned_signed [of d] v d(2) by simp
  have "0 < dec_val (js_trim v)" using v dec_val_nonneg [of d] by auto
  then have "(0 :: rat) < of_int n" unfolding n by simp
  then show "0 < n" by simp
qed

lemma formatPriceQuantum_Inr:
  assumes "formatPriceQuantum n = Inr s" "0 \<le> n"
  shows "canonical_decimal s" "decimal_pattern s" "dec_val s = of_int n / 10 ^ 18"
proof -
  define d where "d = pad_start (show_nonneg n) (18 + 1) (CHR ''0'')"
  define i f where "i = take (length d - 18) d" and "f = drop (length d - 18) d"
  note p = pad_facts [of n 18, folded d_def, OF assms(2)]
  have if': "all_digits i" "all_digits f" "length f = 18" "digits_val (i @ f) = n" "canonical_digits i"
    using p by (simp_all add: i_def f_def)
  then have ne: "i \<noteq> []" "f \<noteq> []" by (auto simp: canonical_digits_def)
  have "take (length d - 18) d @ CHR ''.'' # drop (length d - 18) d = join_point i f"
    using ne(2) by (simp add: join_point_def i_def f_def)
  then have s: "decimal_positive (join_point i f) = Inr s"
    using assms by (simp add: formatPriceQuantum_def Let_def show_int_def d_def)
  note v = decimal_positive_value [OF s]
  show "decimal_pattern s" using v by simp
  show "canonical_decimal s" using s by (simp add: decimal_positive_Inr_iff)
  show "dec_val s = of_int n / 10 ^ 18"
    using v trim_digits [OF if'(1,2) ne(1)] if' by simp
qed

definition slippage_bound :: "trading_side \<Rightarrow> rat \<Rightarrow> rat \<Rightarrow> rat" where
  "slippage_bound side reference slip = (case side of LONG \<Rightarrow> reference * (1 + slip / 100) | SHORT \<Rightarrow> reference * (1 - slip / 100))"

lemma ceil_sdiv:
  assumes "0 \<le> (a::int)" "0 < b"
  shows "a sdiv b = \<lfloor>of_int a / of_int b :: rat\<rfloor>" "(a + b - 1) sdiv b = \<lceil>of_int a / of_int b :: rat\<rceil>"
proof -
  show "a sdiv b = \<lfloor>of_int a / of_int b :: rat\<rfloor>"
    using assms by (simp add: sdiv_nonneg floor_divide_of_int_eq)
  define k where "k = (a + b - 1) div b"
  have m: "k * b + (a + b - 1) mod b = a + b - 1" "0 \<le> (a + b - 1) mod b" "(a + b - 1) mod b < b"
    using assms(2) by (simp_all add: k_def)
  then have "k * b - b < a" "a \<le> k * b" by linarith+
  then have "(of_int (k * b - b) :: rat) < of_int a" "(of_int a :: rat) \<le> of_int (k * b)" by (simp_all only: of_int_less_iff of_int_le_iff)
  then have "(of_int k - 1) * of_int b < (of_int a :: rat)" "(of_int a :: rat) \<le> of_int k * of_int b" by (simp_all add: algebra_simps)
  then have "of_int k - 1 < (of_int a / of_int b :: rat)" "(of_int a / of_int b :: rat) \<le> of_int k"
    using assms(2) by (simp_all only: pos_less_divide_eq pos_divide_le_eq of_int_0_less_iff)
  then have "\<lceil>of_int a / of_int b :: rat\<rceil> = k" by (rule ceiling_unique)
  moreover have "(a + b - 1) sdiv b = k" unfolding k_def using assms by (intro sdiv_nonneg) auto
  ultimately show "(a + b - 1) sdiv b = \<lceil>of_int a / of_int b :: rat\<rceil>" by simp
qed

lemma boundary_spec:
  assumes "createEntryPriceBoundary side reference tick slippage = Inr b"
  obtains ticks where "decimal_pattern (js_trim reference)" "0 < dec_val (js_trim reference)" "decimal_pattern (js_trim tick)" "0 < dec_val (js_trim tick)"
    "decimal_pattern (js_trim slippage)" "0 < dec_val (js_trim slippage)" "dec_val (js_trim slippage) \<le> 5"
    "ticks = (case side of LONG \<Rightarrow> \<lfloor>slippage_bound side (dec_val (js_trim reference)) (dec_val (js_trim slippage)) / dec_val (js_trim tick)\<rfloor>
       | SHORT \<Rightarrow> \<lceil>slippage_bound side (dec_val (js_trim reference)) (dec_val (js_trim slippage)) / dec_val (js_trim tick)\<rceil>)"
    "dec_val (eb_limitPrice b) = of_int ticks * dec_val (js_trim tick)" "decimal_pattern (eb_limitPrice b)" "canonical_decimal (eb_limitPrice b)"
    "dec_val (eb_priceTick b) = dec_val (js_trim tick)" "dec_val (eb_referencePrice b) = dec_val (js_trim reference)"
    "canonical_decimal (eb_referencePrice b)" "canonical_decimal (eb_priceTick b)" "0 < dec_val (eb_limitPrice b)"
    "decimal_pattern (eb_referencePrice b)" "decimal_pattern (eb_priceTick b)"
proof -
  define h :: int where "h = 100 * 10 ^ 18"
  obtain r t s slip ref unit l where d: "decimal_positive reference = Inr r" "decimal_positive tick = Inr t" "decimal_with True (Some ''5'') slippage = Inr s"
    "priceQuantum s = Inr slip" "priceQuantum r = Inr ref" "priceQuantum t = Inr unit"
    "formatPriceQuantum ((case side of LONG \<Rightarrow> (ref * (case side of LONG \<Rightarrow> h + slip | SHORT \<Rightarrow> h - slip)) sdiv (h * unit)
        | SHORT \<Rightarrow> (ref * (case side of LONG \<Rightarrow> h + slip | SHORT \<Rightarrow> h - slip) + h * unit - 1) sdiv (h * unit)) * unit) = Inr l"
    "eb_limitPrice b = l" "eb_priceTick b = t" "eb_referencePrice b = r"
    using assms unfolding createEntryPriceBoundary_def Let_def h_def [symmetric] by (auto simp: rbind_Inr_iff)
  note rv = decimal_positive_value [OF d(1)] and tv = decimal_positive_value [OF d(2)]
  have five: "dec_val ''5'' = 5" by code_simp
  have sv: "dec_val s = dec_val (js_trim slippage)" "decimal_pattern (js_trim slippage)" "dec_val s \<noteq> 0" "dec_val s \<le> 5" "decimal_pattern s"
    using d(3) five decimal_with_valid [OF d(3)] by (auto simp: decimal_with_Inr_iff)
  note q = priceQuantum_Inr [OF d(4)] priceQuantum_Inr [OF d(5)] priceQuantum_Inr [OF d(6)]
  define p18 :: rat where "p18 = 10 ^ 18"
  have p: "0 < p18" by (simp add: p18_def)
  have hp: "(of_int h :: rat) = 100 * p18" "0 < h" by (simp_all add: h_def p18_def)
  have trims: "js_trim s = s" "js_trim r = r" "js_trim t = t" using sv(5) rv tv by auto
  have u: "(of_int slip :: rat) = p18 * dec_val s" "(of_int ref :: rat) = p18 * dec_val r" "(of_int unit :: rat) = p18 * dec_val t"
    using q(2,5,8) trims unfolding p18_def by auto
  define factor where "factor = (case side of LONG \<Rightarrow> h + slip | SHORT \<Rightarrow> h - slip)"
  have sl: "0 < dec_val s" using sv dec_val_nonneg [of s] by auto
  have "(of_int slip :: rat) < of_int h" unfolding u(1) hp(1) using p sv(4) by simp
  then have slip: "slip < h" by simp
  have num: "0 \<le> ref * factor" "0 < h * unit" using q(3,6,9) hp(2) slip by (auto simp: factor_def split: trading_side.splits)
  define x where "x = slippage_bound side (dec_val r) (dec_val s) / dec_val t"
  have x: "(of_int (ref * factor) / of_int (h * unit) :: rat) = x"
    using p tv by (cases side) (simp_all add: factor_def x_def slippage_bound_def u hp(1) field_simps)
  define ticks where "ticks = (case side of LONG \<Rightarrow> \<lfloor>x\<rfloor> | SHORT \<Rightarrow> \<lceil>x\<rceil>)"
  have eq: "(case side of LONG \<Rightarrow> (ref * factor) sdiv (h * unit) | SHORT \<Rightarrow> (ref * factor + h * unit - 1) sdiv (h * unit)) = ticks"
    unfolding ticks_def ceil_sdiv [OF num] x by (cases side) simp_all
  have run: "formatPriceQuantum (ticks * unit) = Inr l" using d(7) unfolding factor_def [symmetric] eq .
  have "(0::rat) \<le> of_int (ref * factor) / of_int (h * unit)"
    using num by (intro divide_nonneg_pos) (simp_all only: of_int_0_le_iff of_int_0_less_iff)
  then have x0: "0 \<le> x" unfolding x .
  have "0 \<le> \<lfloor>x\<rfloor>" "0 \<le> \<lceil>x\<rceil>" using x0 by linarith+
  then have "0 \<le> ticks" unfolding ticks_def by (cases side) simp_all
  then have "0 \<le> ticks * unit" using q(9) by simp
  note f = formatPriceQuantum_Inr [OF run this]
  have lv: "dec_val l = of_int ticks * dec_val t" using f(3) u(3) p unfolding p18_def [symmetric] by simp
  have lpos: "0 < dec_val l" using run dec_val_nonneg [OF f(2)] by (auto simp: formatPriceQuantum_def Let_def decimal_positive_Inr_iff order_less_le)
  have can: "canonical_decimal r" "canonical_decimal t" using d(1,2) by (simp_all add: decimal_positive_Inr_iff)
  have pos: "0 < dec_val r" "0 < dec_val t" using rv tv dec_val_nonneg [of r] dec_val_nonneg [of t] by auto
  show thesis
  proof (rule that [of ticks])
    show "ticks = (case side of LONG \<Rightarrow> \<lfloor>slippage_bound side (dec_val (js_trim reference)) (dec_val (js_trim slippage)) / dec_val (js_trim tick)\<rfloor>
       | SHORT \<Rightarrow> \<lceil>slippage_bound side (dec_val (js_trim reference)) (dec_val (js_trim slippage)) / dec_val (js_trim tick)\<rceil>)"
      unfolding ticks_def x_def using rv tv sv(1) by (cases side) simp_all
  qed (use rv tv sv sl d(8-10) f lv lpos can pos in \<open>simp_all\<close>)
qed


lemma boundary_within_slippage:
  assumes "createEntryPriceBoundary side reference tick slippage = Inr b"
  shows "case side of
      LONG \<Rightarrow> dec_val (eb_limitPrice b) \<le> slippage_bound side (dec_val (js_trim reference)) (dec_val (js_trim slippage)) \<and>
        slippage_bound side (dec_val (js_trim reference)) (dec_val (js_trim slippage)) < dec_val (eb_limitPrice b) + dec_val (js_trim tick)
    | SHORT \<Rightarrow> slippage_bound side (dec_val (js_trim reference)) (dec_val (js_trim slippage)) \<le> dec_val (eb_limitPrice b) \<and>
        dec_val (eb_limitPrice b) - dec_val (js_trim tick) < slippage_bound side (dec_val (js_trim reference)) (dec_val (js_trim slippage))"
    "\<exists>k. dec_val (eb_limitPrice b) = of_int k * dec_val (js_trim tick)"
proof -
  define inc where "inc = dec_val (js_trim tick)"
  define v where "v = slippage_bound side (dec_val (js_trim reference)) (dec_val (js_trim slippage))"
  obtain ticks where t: "0 < inc" "ticks = (case side of LONG \<Rightarrow> \<lfloor>v / inc\<rfloor> | SHORT \<Rightarrow> \<lceil>v / inc\<rceil>)" "dec_val (eb_limitPrice b) = of_int ticks * inc"
    using boundary_spec [OF assms] unfolding inc_def v_def by metis
  then show "\<exists>k. dec_val (eb_limitPrice b) = of_int k * dec_val (js_trim tick)" by (auto simp: inc_def)
  show "case side of LONG \<Rightarrow> dec_val (eb_limitPrice b) \<le> v \<and> v < dec_val (eb_limitPrice b) + inc
      | SHORT \<Rightarrow> v \<le> dec_val (eb_limitPrice b) \<and> dec_val (eb_limitPrice b) - inc < v"
    using quantize_count_range [OF t(1), of Floor v] quantize_count_range [OF t(1), of Ceil v] t(2,3)
    by (cases side) (simp_all add: quantize_count_def)
qed


section \<open>Allocation to targets\<close>

definition nonneg_multiple :: "string \<Rightarrow> string \<Rightarrow> bool" where
  "nonneg_multiple step q \<longleftrightarrow> (\<exists>k. dec_val q = of_int k * dec_val step) \<and> 0 < dec_val q"

lemma allocate_from_sum:
  assumes "allocate_from quantity step allocated allocations = Inr targets" "allocations \<noteq> []"
  shows "length targets = length allocations" "dec_val allocated + (\<Sum>t\<leftarrow>targets. dec_val t) = dec_val quantity"
    "\<And>t. t \<in> set (butlast targets) \<Longrightarrow> nonneg_multiple step t" "\<And>t. t \<in> set targets \<Longrightarrow> 0 \<le> dec_val t"
proof -
  have "length targets = length allocations \<and> dec_val allocated + (\<Sum>t\<leftarrow>targets. dec_val t) = dec_val quantity \<and>
    (\<forall>t\<in>set (butlast targets). nonneg_multiple step t) \<and> (\<forall>t\<in>set targets. 0 \<le> dec_val t)"
    using assms
  proof (induction quantity step allocated allocations arbitrary: targets rule: allocate_from.induct)
    case (2 quantity step allocated allocation)
    then obtain q where q: "subtractDecimal quantity allocated = Inr q" "targets = [q]" by (auto simp: rbind_Inr_iff)
    then show ?case using subtract_Inr [OF q(1)] by simp
  next
    case (3 quantity step allocated allocation nxt rest)
    obtain raw target c allocated' ts where h: "quantizeDecimalDown raw step = Inr target" "compareDecimal target ''0'' = Inr c" "\<not> c \<le> 0"
      "addDecimal allocated target = Inr allocated'" "allocate_from quantity step allocated' (nxt # rest) = Inr ts" "targets = target # ts"
      using "3.prems"(1) by (auto simp: rbind_Inr_iff split: if_splits)
    have pos: "0 < dec_val target" using compare_Inr [OF h(2)] h(3) by auto
    have ih: "length ts = length (nxt # rest) \<and> dec_val allocated' + (\<Sum>t\<leftarrow>ts. dec_val t) = dec_val quantity \<and>
        (\<forall>t\<in>set (butlast ts). nonneg_multiple step t) \<and> (\<forall>t\<in>set ts. 0 \<le> dec_val t)"
      using "3.IH" h "3.prems"(1) by (auto simp: rbind_Inr_iff split: if_splits)
    have "nonneg_multiple step target" using quantize_Inr [OF h(1)] pos by (auto simp: nonneg_multiple_def)
    moreover have "ts \<noteq> []" using ih by auto
    ultimately show ?case using ih add_Inr [OF h(4)] pos by (auto simp: h(6))
  qed simp
  then show "length targets = length allocations" "dec_val allocated + (\<Sum>t\<leftarrow>targets. dec_val t) = dec_val quantity"
    "\<And>t. t \<in> set (butlast targets) \<Longrightarrow> nonneg_multiple step t" "\<And>t. t \<in> set targets \<Longrightarrow> 0 \<le> dec_val t" by auto
qed

lemma halving_grid: "j \<le> 20 \<Longrightarrow> on_grid 18 (100 / 2 ^ j)"
proof -
  assume "j \<le> 20"
  then obtain k where k: "20 = j + k" by (metis le_Suc_ex)
  have "(10 ^ 18 * (100 / 2 ^ j) :: rat) = 10 ^ 20 / 2 ^ j" by simp
  also have "(10 ^ 20 :: rat) = 2 ^ (j + k) * 5 ^ 20" unfolding k [symmetric] by simp
  also have "\<dots> / 2 ^ j = of_int (2 ^ k * 5 ^ 20)" by (simp add: power_add)
  finally show ?thesis unfolding on_grid_def by (metis Ints_of_int)
qed

lemma halve_from_law:
  assumes "decimal_pattern r" "dec_val r = 100 / 2 ^ j" "j + n \<le> 20"
  shows "\<exists>xs. halve_from n r = Inr xs \<and> length xs = Suc n \<and> (\<forall>i<n. dec_val (xs ! i) = 100 / 2 ^ (j + i + 1)) \<and> dec_val (last xs) = 100 / 2 ^ (j + n) \<and>
    (\<Sum>x\<leftarrow>xs. dec_val x) = dec_val r"
  using assms
proof (induction n arbitrary: r j)
  case (Suc n)
  have two: "decimal_pattern ''2''" "dec_val ''2'' = 2" by code_simp+
  have half: "dec_val r / dec_val ''2'' = 100 / 2 ^ Suc j" using Suc.prems(2) two by simp
  obtain a where a: "divideDecimal r ''2'' 18 = Inr a" "canonical_decimal a" "dec_val a = 100 / 2 ^ Suc j"
    using divide_law [OF Suc.prems(1) two(1), of 18] halving_grid [of "Suc j"] Suc.prems(3)
    unfolding half by (auto simp: returns_decimal_def two trunc_at_grid)
  have lim: "(100 / 2 ^ k :: rat) < dec_limit" for k
    by (rule order_le_less_trans [of _ 100]) (simp_all add: dec_limit_def divide_le_eq)
  have va: "decimal_pattern a" using canonical_valid_iff [OF a(2)] a(3) lim [of "Suc j"] halving_grid [of "Suc j"] Suc.prems(3) by simp
  obtain b where b: "subtractDecimal r a = Inr b" "canonical_decimal b" "dec_val b = 100 / 2 ^ Suc j"
    using subtract_law [OF Suc.prems(1) va] Suc.prems(2) a(3) by (auto simp: returns_decimal_def divide_right_mono)
  have vb: "decimal_pattern b" using canonical_valid_iff [OF b(2)] b(3) lim [of "Suc j"] halving_grid [of "Suc j"] Suc.prems(3) by simp
  obtain xs where xs: "halve_from n b = Inr xs" "length xs = Suc n" "\<forall>i<n. dec_val (xs ! i) = 100 / 2 ^ (Suc j + i + 1)"
    "dec_val (last xs) = 100 / 2 ^ (Suc j + n)" "(\<Sum>x\<leftarrow>xs. dec_val x) = dec_val b"
    using Suc.IH [OF vb b(3)] Suc.prems(3) by auto
  have "dec_val ((a # xs) ! i) = 100 / 2 ^ (j + i + 1)" if "i < Suc n" for i
    using that xs(3) a(3) by (cases i) auto
  moreover have "xs \<noteq> []" using xs(2) by auto
  moreover have "dec_val a + dec_val b = dec_val r" using a(3) b(3) Suc.prems(2) by simp
  ultimately show ?case using a(1) b(1) xs by (intro exI [of _ "a # xs"]) simp
qed simp


section \<open>The plan as a whole\<close>

lemma quantize_up_Inr:
  assumes "quantizeDecimalUp v inc = Inr q"
  shows "canonical_decimal q" "dec_val v \<le> dec_val q" "\<exists>k. dec_val q = of_int k * dec_val inc"
proof -
  obtain d c where d: "quantizeDecimalDown v inc = Inr d" "compareDecimal d v = Inr c" "(if c = 0 then Inr d else addDecimal d inc) = Inr q"
    using assms by (auto simp: quantizeDecimalUp_def rbind_Inr_iff)
  note z = quantize_Inr [OF d(1)] and c = compare_Inr [OF d(2)]
  have up: "dec_val v < dec_val d + dec_val inc"
    using quantize_count_range [of "dec_val inc" Floor "dec_val v"] z by (simp add: quantize_count_def)
  have "canonical_decimal q \<and> dec_val v \<le> dec_val q \<and> (\<exists>k. dec_val q = of_int k * dec_val inc)"
  proof (cases "c = 0")
    case True
    then have "q = d" "dec_val d = dec_val v" using d(3) c by auto
    then show ?thesis using z by (intro conjI exI [of _ "\<lfloor>dec_val v / dec_val inc\<rfloor>"]) simp_all
  next
    case False
    then have "canonical_decimal q" "dec_val q = dec_val d + dec_val inc" using d(3) add_Inr by auto
    moreover have "dec_val d + dec_val inc = of_int (\<lfloor>dec_val v / dec_val inc\<rfloor> + 1) * dec_val inc" using z by (simp add: algebra_simps)
    ultimately show ?thesis using up by (intro conjI exI [of _ "\<lfloor>dec_val v / dec_val inc\<rfloor> + 1"]) simp_all
  qed
  then show "canonical_decimal q" "dec_val v \<le> dec_val q" "\<exists>k. dec_val q = of_int k * dec_val inc" by auto
qed

lemma stop_price_adverse:
  assumes "quantizedStopPrice signal market = Inr stop"
  shows "case sig_action signal of LONG \<Rightarrow> dec_val stop \<le> dec_val (sig_stopLoss signal) | SHORT \<Rightarrow> dec_val (sig_stopLoss signal) \<le> dec_val stop"
    "\<exists>k. dec_val stop = of_int k * dec_val (ms_priceTick market)"
  using assms quantized_le quantize_Inr quantize_up_Inr(2,3)
  by (auto simp: quantizedStopPrice_def split: trading_side.splits)

lemma risk_distance_Inr:
  assumes "riskDistance signal price = Inr distance"
  shows "0 < dec_val distance" "dec_val distance = \<bar>dec_val price - dec_val (sig_stopLoss signal)\<bar>"
    "case sig_action signal of LONG \<Rightarrow> dec_val (sig_stopLoss signal) < dec_val price | SHORT \<Rightarrow> dec_val price < dec_val (sig_stopLoss signal)"
proof -
  have "0 < dec_val distance \<and> dec_val distance = \<bar>dec_val price - dec_val (sig_stopLoss signal)\<bar> \<and>
    (case sig_action signal of LONG \<Rightarrow> dec_val (sig_stopLoss signal) < dec_val price | SHORT \<Rightarrow> dec_val price < dec_val (sig_stopLoss signal))"
    using assms by (cases "sig_action signal")
      (auto simp: riskDistance_def rbind_Inr_iff split: if_splits dest!: compare_Inr subtract_Inr)
  then show "0 < dec_val distance" "dec_val distance = \<bar>dec_val price - dec_val (sig_stopLoss signal)\<bar>"
    "case sig_action signal of LONG \<Rightarrow> dec_val (sig_stopLoss signal) < dec_val price | SHORT \<Rightarrow> dec_val price < dec_val (sig_stopLoss signal)"
    by auto
qed

lemma leverage_effective:
  "ld_effective (resolveLeverageDecision signal strategy market) \<le> sz_maxLeverage (st_sizing strategy)"
  "ld_effective (resolveLeverageDecision signal strategy market) \<le> ms_maxLeverage market"
  "ld_effective (resolveLeverageDecision signal strategy market) \<le> 50"
  "ld_effective (resolveLeverageDecision signal strategy market) \<le> ld_requested (resolveLeverageDecision signal strategy market)"
  by (simp_all add: resolveLeverageDecision_def Let_def)

lemma take_profit_order_Inr:
  assumes "take_profit_order sha256 input targets (i, target) = Inr order"
  shows "po_role order = Take_profit \<and> po_reduceOnly order \<and> po_side order = closing_side (sig_action (tpi_signal input)) \<and>
    i < length targets \<and> po_quantity order = targets ! i \<and> po_orderType order = Limit_planned \<and> po_targetIndex order = Some (int i + 1)"
  using assms by (auto simp: take_profit_order_def rbind_Inr_iff split: if_splits)

text \<open>The shape of the orders of a plan: an entry, a stop of the same size, and take-profits that add up to it.\<close>

definition orders_balanced :: "trading_side \<Rightarrow> string \<Rightarrow> string \<Rightarrow> nat \<Rightarrow> planned_order list \<Rightarrow> bool" where
  "orders_balanced side quantity stop count orders \<longleftrightarrow>
     (\<exists>entry stopOrder targets. orders = entry # stopOrder # targets \<and>
       po_role entry = Entry_role \<and> \<not> po_reduceOnly entry \<and> po_side entry = opening_side side \<and> po_quantity entry = quantity \<and>
       po_role stopOrder = Stop_loss \<and> po_reduceOnly stopOrder \<and> po_side stopOrder = closing_side side \<and> po_quantity stopOrder = quantity \<and>
       po_triggerPrice stopOrder = Some stop \<and> length targets = count \<and>
       (\<forall>t\<in>set targets. po_role t = Take_profit \<and> po_reduceOnly t \<and> po_side t = closing_side side \<and> 0 \<le> dec_val (po_quantity t)) \<and>
       map po_targetIndex targets = map (\<lambda>i. Some (int i + 1)) [0..<count] \<and>
       (targets \<noteq> [] \<longrightarrow> (\<Sum>t\<leftarrow>targets. dec_val (po_quantity t)) = dec_val quantity))"

lemma planned_orders_balanced:
  assumes "plannedOrders sha256 input entry stop quantity allocations boundary = Inr orders"
    and "length allocations = length (sig_targets (tpi_signal input))"
  shows "orders_balanced (sig_action (tpi_signal input)) quantity stop (length (sig_targets (tpi_signal input))) orders"
proof -
  define n where "n = length (sig_targets (tpi_signal input))"
  obtain targets tps where h: "allocate_from quantity (ms_quantityStep (tpi_market input)) ''0'' allocations = Inr targets"
    "mapM (take_profit_order sha256 input targets) (enumerate 0 (sig_targets (tpi_signal input))) = Inr tps"
    "orders = entry_order sha256 input entry quantity boundary # stop_order sha256 input stop quantity # tps"
    using assms(1) by (auto simp: plannedOrders_def allocateTargetQuantities_def rbind_Inr_iff)
  have len: "length tps = n" using mapM_length [OF h(2)] by (simp add: n_def)
  have nth: "po_role (tps ! i) = Take_profit \<and> po_reduceOnly (tps ! i) \<and> po_side (tps ! i) = closing_side (sig_action (tpi_signal input)) \<and>
      i < length targets \<and> po_quantity (tps ! i) = targets ! i \<and> po_targetIndex (tps ! i) = Some (int i + 1)" if "i < n" for i
  proof -
    have "take_profit_order sha256 input targets (enumerate 0 (sig_targets (tpi_signal input)) ! i) = Inr (tps ! i)"
      using h(2) that by (auto simp: mapM_Inr_iff list_all2_conv_all_nth n_def)
    then show ?thesis using take_profit_order_Inr that by (simp add: nth_enumerate_eq n_def)
  qed
  have sum: "(\<Sum>t\<leftarrow>tps. dec_val (po_quantity t)) = dec_val quantity \<and> (\<forall>t\<in>set tps. 0 \<le> dec_val (po_quantity t))" if "n \<noteq> 0"
  proof -
    have "allocations \<noteq> []" using that assms(2) by (auto simp: n_def)
    note a = allocate_from_sum [OF h(1) this]
    have "map po_quantity tps = targets"
      using a(1) nth len assms(2) by (intro nth_equalityI) (auto simp: n_def)
    then have "map (\<lambda>t. dec_val (po_quantity t)) tps = map dec_val targets" by auto
    moreover have "\<forall>t\<in>set tps. po_quantity t \<in> set targets" using \<open>map po_quantity tps = targets\<close> by auto
    ultimately show ?thesis using a(2,4) by auto
  qed
  have index: "map po_targetIndex tps = map (\<lambda>i. Some (int i + 1)) [0..<n]"
    using nth len by (intro nth_equalityI) simp_all
  have each: "\<forall>t\<in>set tps. po_role t = Take_profit \<and> po_reduceOnly t \<and> po_side t = closing_side (sig_action (tpi_signal input))"
    using nth len by (metis in_set_conv_nth)
  have "tps = [] \<longleftrightarrow> n = 0" using len by auto
  show ?thesis
    unfolding orders_balanced_def h(3) n_def [symmetric]
  proof (rule exI [of _ "entry_order sha256 input entry quantity boundary"], rule exI [of _ "stop_order sha256 input stop quantity"],
      rule exI [of _ tps])
  qed (use index each len sum \<open>tps = [] \<longleftrightarrow> n = 0\<close> in \<open>auto simp: entry_order_def stop_order_def Let_def\<close>)
qed

lemma resolve_allocations_length:
  assumes "resolveTargetAllocations strategy n = Inr xs"
  shows "length xs = n"
proof (cases "ex_targetAllocationMode (st_exits strategy) = Some Adaptive_halving")
  case True
  then have h: "halve_from (nat (int n - 1)) ''100'' = Inr xs" "n \<le> 20" "0 < n"
    using assms by (auto simp: resolveTargetAllocations_def adaptiveTargetAllocations_def Let_def split: if_splits)
  have "decimal_pattern ''100''" "dec_val ''100'' = 100 / 2 ^ 0" by code_simp+
  from halve_from_law [OF this, of "nat (int n - 1)"] h show ?thesis by auto
next
  case False
  then show ?thesis
    using assms by (auto simp: resolveTargetAllocations_def Let_def split: if_splits option.splits target_allocation_mode.splits)
qed

definition plan_price :: "trading_plan \<Rightarrow> string" where
  "plan_price plan = (case tp_entryPriceBoundary plan of None \<Rightarrow> tp_entryPrice plan | Some b \<Rightarrow> eb_limitPrice b)"

lemma deadline_Inr:
  assumes "resolveEntryExpiresAt originAt ttl earlier = Inr d"
  shows "d \<le> originAt + ttl * 1000" "\<And>e. earlier = Some e \<Longrightarrow> d \<le> e" "0 < d" "is_safe_integer d"
  using assms by (auto simp: resolveEntryExpiresAt_def Let_def min_def split: if_splits option.splits)

text \<open>A plan, part by part.\<close>

lemma plan_parts:
  assumes "createTradingPlan sha256 clock input = Inr plan"
  obtains allocations distance sizing where
    "assertStrategyAllows (tpi_signal input) (tpi_strategy input) = Inr ()"
    "resolveTargetAllocations (tpi_strategy input) (length (sig_targets (tpi_signal input))) = Inr allocations"
    "planPriceBoundary input = Inr (tp_entryPriceBoundary plan)"
    "quantizedStopPrice (tpi_signal input) (tpi_market input) = Inr (tp_stopPrice plan)"
    "riskDistance ((tpi_signal input)\<lparr>sig_stopLoss := tp_stopPrice plan\<rparr>) (plan_price plan) = Inr distance"
    "solvePlanSizing sha256 clock input (tp_entryPrice plan) distance (plan_price plan) = Inr sizing"
    "tp_quantity plan = ps_quantity sizing" "tp_leverage plan = ps_leverage sizing" "tp_side plan = sig_action (tpi_signal input)"
    "plannedOrders sha256 input (tp_entryPrice plan) (tp_stopPrice plan) (tp_quantity plan) allocations (tp_entryPriceBoundary plan) = Inr (tp_orders plan)"
    "planEntryTiming clock input = Inr (tp_createdAt plan, the (tp_entryExpiresAt plan))" "tp_entryExpiresAt plan \<noteq> None"
    "tp_leverageTierDecision plan = ps_tierDecision sizing"
proof -
  obtain allocations boundary price stop distance sizing notional orders created expires where h:
    "assertStrategyAllows (tpi_signal input) (tpi_strategy input) = Inr ()"
    "resolveTargetAllocations (tpi_strategy input) (length (sig_targets (tpi_signal input))) = Inr allocations"
    "planPriceBoundary input = Inr boundary"
    "quantizedEntryPrice (tpi_signal input) (tpi_strategy input)
       (case boundary of None \<Rightarrow> tpi_market input | Some b \<Rightarrow> (tpi_market input)\<lparr>ms_markPrice := eb_referencePrice b\<rparr>) = Inr price"
    "quantizedStopPrice (tpi_signal input) (tpi_market input) = Inr stop"
    "riskDistance ((tpi_signal input)\<lparr>sig_stopLoss := stop\<rparr>) (case boundary of None \<Rightarrow> price | Some b \<Rightarrow> eb_limitPrice b) = Inr distance"
    "solvePlanSizing sha256 clock input price distance (case boundary of None \<Rightarrow> price | Some b \<Rightarrow> eb_limitPrice b) = Inr sizing"
    "plannedOrders sha256 input price stop (ps_quantity sizing) allocations boundary = Inr orders"
    "planEntryTiming clock input = Inr (created, expires)"
    and plan: "tp_entryPrice plan = price" "tp_entryPriceBoundary plan = boundary" "tp_stopPrice plan = stop" "tp_quantity plan = ps_quantity sizing"
      "tp_leverage plan = ps_leverage sizing" "tp_side plan = sig_action (tpi_signal input)" "tp_orders plan = orders" "tp_createdAt plan = created"
      "tp_entryExpiresAt plan = Some expires" "tp_leverageTierDecision plan = ps_tierDecision sizing"
    using assms unfolding createTradingPlan_def Let_def by (auto simp: rbind_Inr_iff)
  have pp: "plan_price plan = (case boundary of None \<Rightarrow> price | Some b \<Rightarrow> eb_limitPrice b)" unfolding plan_price_def plan ..
  show thesis
    by (rule that [of allocations distance sizing]) (use h in \<open>simp_all add: plan pp\<close>)
qed

text \<open>
  The price a plan is sized at: its entry price, or with leverage tiers the dearer of the mark price and the price it may pay.
\<close>

definition sizing_price :: "trading_plan_input \<Rightarrow> trading_plan \<Rightarrow> rat" where
  "sizing_price input plan = (case ms_leverageTiers (tpi_market input) of
       None \<Rightarrow> dec_val (tp_entryPrice plan)
     | Some _ \<Rightarrow> max (dec_val (ms_markPrice (tpi_market input))) (dec_val (plan_price plan)))"

definition within_tier :: "trading_plan_input \<Rightarrow> string \<Rightarrow> int \<Rightarrow> bool" where
  "within_tier input quantity leverage \<longleftrightarrow> (case ms_leverageTiers (tpi_market input) of
       None \<Rightarrow> True
     | Some tiers \<Rightarrow> \<exists>j. tier_position (te_tiers tiers) quantity (te_markPrice tiers) j \<and> leverage \<le> lt_maxLeverage (te_tiers tiers ! nat j))"

lemma untiered_sizing:
  assumes "solvePlanSizing sha256 clock input price distance limitPrice = Inr sizing" "ms_leverageTiers (tpi_market input) = None"
  obtains percent where "configuredPlanRisk input = Inr percent"
    "quantityForPlan sha256 clock input price percent distance (ps_leverage sizing) = Inr (ps_quantity sizing)"
    "ps_leverage sizing = ld_effective (resolveLeverageDecision (tpi_signal input) (tpi_strategy input) (tpi_market input))"
  using assms unfolding solvePlanSizing_def Let_def by (auto simp: rbind_Inr_iff)

lemma tier_solver_sizing:
  assumes "solvePlanSizing sha256 clock input price distance limitPrice = Inr sizing" "ms_leverageTiers (tpi_market input) = Some tiers"
  obtains percent c solved where "configuredPlanRisk input = Inr percent" "compareDecimal (ms_markPrice (tpi_market input)) limitPrice = Inr c"
    "solveTierQuantity tiers (ld_effective (resolveLeverageDecision (tpi_signal input) (tpi_strategy input) (tpi_market input)))
       (quantityForPlan sha256 clock input (if c > 0 then ms_markPrice (tpi_market input) else limitPrice) percent distance) = Inr solved"
    "ps_quantity sizing = sol_quantity solved" "ps_leverage sizing = sol_leverage solved"
  using assms unfolding solvePlanSizing_def Let_def by (auto simp: rbind_Inr_iff)

lemma fx_plan_quantity:
  assumes "quantityForPlan sha256 clock input entry percent distance leverage = Inr q" "tpi_fxConversion input = Some fx"
  shows "assertFxConversionFresh sha256 (sfx_conversion fx) clock = Inr ()"
    "fx_limits (fx_input_of input entry percent distance leverage) (rval (fx_rate (sfx_conversion fx))) (dec_val q)" "decimal_pattern q"
    "\<exists>k. dec_val q = of_int k * dec_val (ms_quantityStep (tpi_market input))"
    "dec_val (ms_minimumQuantity (tpi_market input)) \<le> dec_val q"
    "dec_val (js_trim (ms_minimumNotional (tpi_market input))) \<le> dec_val q * dec_val (js_trim entry)"
proof -
  have q: "fxSizedQuantity sha256 clock (fx_input_of input entry percent distance leverage) = Inr q" using assms by (simp add: quantityForPlan_def)
  obtain fx' k where h: "fsi_fxConversion (fx_input_of input entry percent distance leverage) = Some fx'"
    "assertFxConversionFresh sha256 (sfx_conversion fx') clock = Inr ()"
    "fx_limits (fx_input_of input entry percent distance leverage) (rval (fx_rate (sfx_conversion fx'))) (dec_val q)" "decimal_pattern q"
    "dec_val q = of_int k * dec_val (ms_quantityStep (fsi_market (fx_input_of input entry percent distance leverage)))"
    "dec_val (ms_minimumQuantity (fsi_market (fx_input_of input entry percent distance leverage))) \<le> dec_val q"
    "dec_val (js_trim (ms_minimumNotional (fsi_market (fx_input_of input entry percent distance leverage)))) \<le>
       dec_val q * dec_val (js_trim (fqi_entry (fx_input_of input entry percent distance leverage)))"
    using q by (rule fx_quantity_sound)
  have "fx' = fx" using h(1) assms(2) by (simp add: fx_input_of_def)
  then show "assertFxConversionFresh sha256 (sfx_conversion fx) clock = Inr ()"
    "fx_limits (fx_input_of input entry percent distance leverage) (rval (fx_rate (sfx_conversion fx))) (dec_val q)" "decimal_pattern q"
    "\<exists>k. dec_val q = of_int k * dec_val (ms_quantityStep (tpi_market input))"
    "dec_val (ms_minimumQuantity (tpi_market input)) \<le> dec_val q"
    "dec_val (js_trim (ms_minimumNotional (tpi_market input))) \<le> dec_val q * dec_val (js_trim entry)"
    using h(2-7) by (auto simp: fx_input_of_def)
qed

lemma plan_entry_valid: "createTradingPlan sha256 clock input = Inr plan \<Longrightarrow> decimal_pattern (tp_entryPrice plan)"
  unfolding createTradingPlan_def Let_def by (auto simp: rbind_Inr_iff dest: multiply_Inr)

text \<open>However a plan was sized, its quantity is what the sizing gives at the sizing price and the leverage of the plan.\<close>

lemma plan_sized:
  assumes "createTradingPlan sha256 clock input = Inr plan"
  obtains percent distance price q where "configuredPlanRisk input = Inr percent"
    "dec_val distance = \<bar>dec_val (plan_price plan) - dec_val (tp_stopPrice plan)\<bar>" "js_trim distance = distance"
    "dec_val price = sizing_price input plan" "decimal_pattern price"
    "quantityForPlan sha256 clock input price percent distance (tp_leverage plan) = Inr q" "dec_val q = dec_val (tp_quantity plan)"
    "tp_leverage plan \<le> ld_effective (resolveLeverageDecision (tpi_signal input) (tpi_strategy input) (tpi_market input))"
    "within_tier input (tp_quantity plan) (tp_leverage plan)"
proof -
  obtain distance sizing where p: "riskDistance ((tpi_signal input)\<lparr>sig_stopLoss := tp_stopPrice plan\<rparr>) (plan_price plan) = Inr distance"
    "solvePlanSizing sha256 clock input (tp_entryPrice plan) distance (plan_price plan) = Inr sizing"
    "tp_quantity plan = ps_quantity sizing" "tp_leverage plan = ps_leverage sizing"
    using plan_parts [OF assms(1)] by metis
  have d: "dec_val distance = \<bar>dec_val (plan_price plan) - dec_val (tp_stopPrice plan)\<bar>" using risk_distance_Inr(2) [OF p(1)] by simp
  have "canonical_decimal distance"
    using p(1) by (auto simp: riskDistance_def rbind_Inr_iff split: trading_side.splits if_splits dest: subtract_Inr)
  then have t: "js_trim distance = distance" by (rule canonical_trim)
  show thesis
  proof (cases "ms_leverageTiers (tpi_market input)")
    case None
    obtain percent where s: "configuredPlanRisk input = Inr percent"
      "quantityForPlan sha256 clock input (tp_entryPrice plan) percent distance (ps_leverage sizing) = Inr (ps_quantity sizing)"
      "ps_leverage sizing = ld_effective (resolveLeverageDecision (tpi_signal input) (tpi_strategy input) (tpi_market input))"
      using p(2) None by (rule untiered_sizing)
    show thesis
      by (rule that [OF s(1) d t _ _ s(2) [folded p(4)]]) (use None p s(3) plan_entry_valid [OF assms] in \<open>simp_all add: sizing_price_def within_tier_def\<close>)
  next
    case (Some tiers)
    obtain percent c solved where s: "configuredPlanRisk input = Inr percent" "compareDecimal (ms_markPrice (tpi_market input)) (plan_price plan) = Inr c"
      "solveTierQuantity tiers (ld_effective (resolveLeverageDecision (tpi_signal input) (tpi_strategy input) (tpi_market input)))
         (quantityForPlan sha256 clock input (if c > 0 then ms_markPrice (tpi_market input) else plan_price plan) percent distance) = Inr solved"
      "ps_quantity sizing = sol_quantity solved" "ps_leverage sizing = sol_leverage solved"
      using p(2) Some by (rule tier_solver_sizing)
    note g = solver_result_good [OF s(3), unfolded good_solution_def] and cmp = compare_Inr [OF s(2)]
    obtain q where q: "quantityForPlan sha256 clock input (if c > 0 then ms_markPrice (tpi_market input) else plan_price plan) percent distance (tp_leverage plan) = Inr q"
      "decimal_positive q = Inr (sol_quantity solved)"
      using g p(4) s(5) by (auto simp: rbind_Inr_iff)
    have "decimal_pattern q" using plan_quantity_limits(2) [OF q(1)] fx_plan_quantity(3) [OF q(1)] by (cases "tpi_fxConversion input") auto
    then have v: "dec_val q = dec_val (tp_quantity plan)" using decimal_positive_value [OF q(2)] p(3) s(4) by simp
    show thesis
      by (rule that [OF s(1) d t _ _ q(1) v]) (use Some p s(4,5) g cmp in \<open>auto simp: sizing_price_def within_tier_def rat_cmp_def split: if_splits\<close>)
  qed
qed


section \<open>Properties\<close>

text \<open>
  C24: the price boundary of a market entry never lets the price move further against the
  trader than the configured slippage: the limit is at most the reference plus the slippage for a
  long entry (at least the reference minus the slippage for a short one), lies on the price tick,
  and is less than one tick away from that bound.
\<close>

theorem price_boundary_within_slippage:
  assumes "createEntryPriceBoundary side reference tick slippage = Inr b"
  shows "0 < dec_val (js_trim slippage) \<and> dec_val (js_trim slippage) \<le> 5 \<and>
    (\<exists>k. dec_val (eb_limitPrice b) = of_int k * dec_val (js_trim tick)) \<and>
    (case side of
       LONG \<Rightarrow> dec_val (eb_limitPrice b) \<le> slippage_bound side (dec_val (js_trim reference)) (dec_val (js_trim slippage)) \<and>
         slippage_bound side (dec_val (js_trim reference)) (dec_val (js_trim slippage)) < dec_val (eb_limitPrice b) + dec_val (js_trim tick)
     | SHORT \<Rightarrow> slippage_bound side (dec_val (js_trim reference)) (dec_val (js_trim slippage)) \<le> dec_val (eb_limitPrice b) \<and>
         dec_val (eb_limitPrice b) - dec_val (js_trim tick) < slippage_bound side (dec_val (js_trim reference)) (dec_val (js_trim slippage)))"
  using boundary_within_slippage [OF assms] boundary_spec [OF assms] by metis

theorem price_boundary_within_slippage_witness:
  "createEntryPriceBoundary LONG ''200'' ''0.5'' ''1'' =
     Inr \<lparr>eb_version = 1, eb_referencePrice = ''200'', eb_maxSlippagePercent = ''1'', eb_priceTick = ''0.5'', eb_limitPrice = ''202''\<rparr> \<and>
   (\<exists>k. dec_val ''202'' = of_int k * dec_val (js_trim ''0.5''))"
proof -
  have run: "createEntryPriceBoundary LONG ''200'' ''0.5'' ''1'' =
     Inr \<lparr>eb_version = 1, eb_referencePrice = ''200'', eb_maxSlippagePercent = ''1'', eb_priceTick = ''0.5'', eb_limitPrice = ''202''\<rparr>"
    by code_simp
  from price_boundary_within_slippage [OF run] run show ?thesis by simp
qed

text \<open>
  The quantities given to the take-profit targets add up to exactly the position, whatever
  the percentages round to: all but the last are positive multiples of the quantity step, and none
  is negative.
\<close>

theorem target_quantities_sum_exactly:
  assumes "allocateTargetQuantities quantity allocations step = Inr targets" "allocations \<noteq> []"
  shows "length targets = length allocations \<and> (\<Sum>t\<leftarrow>targets. dec_val t) = dec_val quantity \<and>
    (\<forall>t\<in>set (butlast targets). (\<exists>k. dec_val t = of_int k * dec_val step) \<and> 0 < dec_val t) \<and> (\<forall>t\<in>set targets. 0 \<le> dec_val t)"
proof -
  have zero: "dec_val ''0'' = 0" by code_simp
  note h = allocate_from_sum [OF assms(1) [unfolded allocateTargetQuantities_def] assms(2)]
  show ?thesis using h zero by (auto simp: nonneg_multiple_def)
qed

theorem target_quantities_sum_exactly_witness:
  "allocateTargetQuantities ''10'' [''33'', ''33'', ''34''] ''1'' = Inr [''3'', ''3'', ''4''] \<and> (\<Sum>t\<leftarrow>[''3'', ''3'', ''4'']. dec_val t) = dec_val ''10''"
proof -
  have run: "allocateTargetQuantities ''10'' [''33'', ''33'', ''34''] ''1'' = Inr [''3'', ''3'', ''4'']" by code_simp
  from target_quantities_sum_exactly [OF run] run show ?thesis by simp
qed

text \<open>
  The adaptive allocation is defined for one to twenty targets and refused otherwise; it
  halves the rest at every target without rounding, so the shares are 50, 25, 12.5, ... percent and
  add up to exactly one hundred.
\<close>

lemma adaptive_allocations_halve:
  "if 1 \<le> n \<and> n \<le> 20
   then \<exists>xs. adaptiveTargetAllocations n = Inr xs \<and> length xs = nat n \<and> (\<Sum>x\<leftarrow>xs. dec_val x) = 100 \<and>
     (\<forall>i<nat (n - 1). dec_val (xs ! i) = 100 / 2 ^ (i + 1)) \<and> dec_val (last xs) = 100 / 2 ^ nat (n - 1)
   else adaptiveTargetAllocations n = Inl (TradingRiskError ''INVALID_TARGET_COUNT'' ''Adaptive target count must be between one and twenty.'')"
proof (cases "1 \<le> n \<and> n \<le> 20")
  case True
  then have safe: "is_safe_integer n" by (simp add: is_safe_integer_def max_safe_integer_def)
  have start: "decimal_pattern ''100''" "dec_val ''100'' = 100 / 2 ^ 0" by code_simp+
  obtain xs where xs: "halve_from (nat (n - 1)) ''100'' = Inr xs" "length xs = Suc (nat (n - 1))"
    "\<forall>i<nat (n - 1). dec_val (xs ! i) = 100 / 2 ^ (0 + i + 1)" "dec_val (last xs) = 100 / 2 ^ (0 + nat (n - 1))"
    "(\<Sum>x\<leftarrow>xs. dec_val x) = dec_val ''100''"
  proof -
    have "0 + nat (n - 1) \<le> 20" using True by linarith
    from halve_from_law [OF start this] that show thesis by blast
  qed
  have "adaptiveTargetAllocations n = Inr xs" "length xs = nat n" using True safe xs(1,2) by (auto simp: adaptiveTargetAllocations_def)
  with True xs(3-5) start(2) show ?thesis by auto
qed (auto simp: adaptiveTargetAllocations_def)

text \<open>
  An entry deadline is never later than the original moment plus the strategy's time to live,
  nor later than a deadline persisted earlier; and an entry passes the check of its deadline exactly
  while the clock is before it, so once refused it stays refused.
\<close>

theorem entry_deadline_final:
  assumes "resolveEntryExpiresAt originAt ttl earlier = Inr d" "is_safe_integer now" "is_safe_integer later" "now \<le> later"
  shows "d \<le> originAt + ttl * 1000 \<and> d \<le> originAt + 86400000 \<and> (\<forall>e. earlier = Some e \<longrightarrow> d \<le> e) \<and>
    (assertEntryNotExpired (Some d) now = Inr () \<longleftrightarrow> now < d) \<and>
    (assertEntryNotExpired (Some d) now \<noteq> Inr () \<longrightarrow>
      assertEntryNotExpired (Some d) later = Inl (TradingRiskError ''ENTRY_INTENT_EXPIRED'' ''Original entry deadline has expired.''))"
proof -
  note d = deadline_Inr [OF assms(1)]
  have "ttl \<le> 86400" using assms(1) by (auto simp: resolveEntryExpiresAt_def Let_def split: if_splits)
  with d assms(2-4) show ?thesis by (auto simp: assertEntryNotExpired_def)
qed

text \<open>
  C28: every plan keeps its limits. At the price it is sized at (its entry price, or with leverage tiers the dearer of the mark price
  and the price it may pay), its notional is within the strategy maximum and within the buying power at the chosen leverage, and the
  configured share of the equity bounds its notional, its margin or its loss at the planned stop, according to the sizing mode; with a
  currency conversion, which must be fresh, equity and balance count at the proven rate. The quantity is a multiple of the exchange
  step, not below the exchange minima, and the leverage is at most that of the strategy, the market, the request, 50, and of the tier
  that the quantity falls into.
\<close>

theorem plan_within_limits:
  assumes "createTradingPlan sha256 clock input = Inr plan"
  shows "\<exists>percent distance price. configuredPlanRisk input = Inr percent \<and>
    dec_val distance = \<bar>dec_val (plan_price plan) - dec_val (tp_stopPrice plan)\<bar> \<and> js_trim distance = distance \<and>
    dec_val price = sizing_price input plan \<and> js_trim price = price \<and>
    (case tpi_fxConversion input of
       None \<Rightarrow> native_limits (tpi_account input) (st_sizing (tpi_strategy input)) (dec_val price) (dec_val percent) (dec_val distance)
           (tp_leverage plan) (dec_val (tp_quantity plan)) \<and>
         dec_val (ms_minimumNotional (tpi_market input)) \<le> dec_val (tp_quantity plan) * dec_val price
     | Some fx \<Rightarrow> assertFxConversionFresh sha256 (sfx_conversion fx) clock = Inr () \<and>
         fx_limits (fx_input_of input price percent distance (tp_leverage plan)) (rval (fx_rate (sfx_conversion fx))) (dec_val (tp_quantity plan)) \<and>
         dec_val (js_trim (ms_minimumNotional (tpi_market input))) \<le> dec_val (tp_quantity plan) * dec_val price) \<and>
    (\<exists>k. dec_val (tp_quantity plan) = of_int k * dec_val (ms_quantityStep (tpi_market input))) \<and>
    dec_val (ms_minimumQuantity (tpi_market input)) \<le> dec_val (tp_quantity plan) \<and>
    tp_leverage plan \<le> sz_maxLeverage (st_sizing (tpi_strategy input)) \<and> tp_leverage plan \<le> ms_maxLeverage (tpi_market input) \<and>
    tp_leverage plan \<le> 50 \<and> (\<forall>l. sig_suggestedLeverage (tpi_signal input) = Some l \<longrightarrow> tp_leverage plan \<le> l) \<and>
    within_tier input (tp_quantity plan) (tp_leverage plan)"
proof -
  obtain percent distance price q where s: "configuredPlanRisk input = Inr percent"
    "dec_val distance = \<bar>dec_val (plan_price plan) - dec_val (tp_stopPrice plan)\<bar>" "js_trim distance = distance"
    "dec_val price = sizing_price input plan" "decimal_pattern price"
    "quantityForPlan sha256 clock input price percent distance (tp_leverage plan) = Inr q" "dec_val q = dec_val (tp_quantity plan)"
    "tp_leverage plan \<le> ld_effective (resolveLeverageDecision (tpi_signal input) (tpi_strategy input) (tpi_market input))"
    "within_tier input (tp_quantity plan) (tp_leverage plan)"
    using assms by (rule plan_sized)
  have req: "ld_effective (resolveLeverageDecision (tpi_signal input) (tpi_strategy input) (tpi_market input)) \<le> l"
    if "sig_suggestedLeverage (tpi_signal input) = Some l" for l using that by (simp add: resolveLeverageDecision_def Let_def)
  have lev: "tp_leverage plan \<le> sz_maxLeverage (st_sizing (tpi_strategy input))" "tp_leverage plan \<le> ms_maxLeverage (tpi_market input)"
    "tp_leverage plan \<le> 50" "\<forall>l. sig_suggestedLeverage (tpi_signal input) = Some l \<longrightarrow> tp_leverage plan \<le> l"
    using leverage_effective [of "tpi_signal input" "tpi_strategy input" "tpi_market input"] s(8) req by force+
  have trim: "js_trim price = price" using s(5) by simp
  show ?thesis
  proof (cases "tpi_fxConversion input")
    case None
    then show ?thesis using plan_quantity_limits [OF s(6) None] s(1-4,7,9) lev trim
      by (intro exI [of _ percent] exI [of _ distance] exI [of _ price]) simp
  next
    case (Some fx)
    then show ?thesis using fx_plan_quantity [OF s(6) Some] s(1-4,7,9) lev trim
      by (intro exI [of _ percent] exI [of _ distance] exI [of _ price]) simp
  qed
qed

definition sample_plan_input :: trading_plan_input where
  "sample_plan_input = \<lparr>tpi_intentId = ''i'', tpi_signal = \<lparr>sig_schema = ''standard'', sig_action = LONG, sig_symbol = ''BTC'',
     sig_entry = Range_entry \<lparr>range_min = ''1'', range_max = ''2''\<rparr>,
     sig_targets = [\<lparr>range_min = ''3'', range_max = ''3''\<rparr>, \<lparr>range_min = ''4'', range_max = ''5''\<rparr>], sig_stopLoss = ''1'',
     sig_suggestedLeverage = Some 20, sig_suggestedRiskPercent = None, sig_averagingPrice = None\<rparr>,
     tpi_strategy = sample_strategy\<lparr>st_exits := (st_exits sample_strategy)\<lparr>ex_targetAllocationsPercent := [''50'', ''50'']\<rparr>,
       st_sizing := (st_sizing sample_strategy)\<lparr>sz_positionSizingMode := None\<rparr>\<rparr>,
     tpi_account = sample_account\<lparr>as_accounting := None\<rparr>, tpi_market = sample_market\<lparr>ms_accounting := None\<rparr>,
     tpi_fxConversion = None, tpi_effectiveRiskPercent = None,
     tpi_entryOriginAt = None, tpi_entryExpiresAt = None, tpi_entryPriceBoundary = None, tpi_now = Some 1000\<rparr>"

lemma sample_plan:
  obtains plan where "createTradingPlan (\<lambda>_. ''h'') 0 sample_plan_input = Inr plan" "tp_quantity plan = ''3''" "tp_leverage plan = 5"
    "tp_side plan = LONG" "length (tp_orders plan) = 4"
proof -
  have "case createTradingPlan (\<lambda>_. ''h'') 0 sample_plan_input of Inl e \<Rightarrow> False
      | Inr plan \<Rightarrow> tp_quantity plan = ''3'' \<and> tp_leverage plan = 5 \<and> tp_side plan = LONG \<and> length (tp_orders plan) = 4"
    by code_simp
  with that show thesis by (auto split: sum.splits)
qed

theorem plan_within_limits_witness:
  "\<exists>plan. createTradingPlan (\<lambda>_. ''h'') 0 sample_plan_input = Inr plan \<and> tp_quantity plan = ''3'' \<and> tp_leverage plan = 5 \<and>
     5 \<le> sz_maxLeverage (st_sizing (tpi_strategy sample_plan_input))"
proof -
  obtain plan where plan: "createTradingPlan (\<lambda>_. ''h'') 0 sample_plan_input = Inr plan" "tp_quantity plan = ''3''" "tp_leverage plan = 5"
    by (rule sample_plan)
  from plan_within_limits [OF plan(1)] have "tp_leverage plan \<le> sz_maxLeverage (st_sizing (tpi_strategy sample_plan_input))" by blast
  with plan show ?thesis by auto
qed

text \<open>
  C29: a plan is protected whatever its sizing: its stop is on the losing side of the price it may
  enter at, on the price tick and no closer than the signal asked; its orders are one opening order,
  one reduce-only stop of the same quantity on the other side, and one reduce-only take-profit per
  target whose quantities add up to the position; the strategy allows the side, the schema and the
  symbol; and the plan expires.
\<close>

theorem plan_is_protected:
  assumes "createTradingPlan sha256 clock input = Inr plan"
  shows "(case tp_side plan of
        LONG \<Rightarrow> dec_val (tp_stopPrice plan) < dec_val (plan_price plan) \<and> dec_val (tp_stopPrice plan) \<le> dec_val (sig_stopLoss (tpi_signal input))
      | SHORT \<Rightarrow> dec_val (plan_price plan) < dec_val (tp_stopPrice plan) \<and> dec_val (sig_stopLoss (tpi_signal input)) \<le> dec_val (tp_stopPrice plan)) \<and>
    (\<exists>k. dec_val (tp_stopPrice plan) = of_int k * dec_val (ms_priceTick (tpi_market input))) \<and>
    orders_balanced (tp_side plan) (tp_quantity plan) (tp_stopPrice plan) (length (sig_targets (tpi_signal input))) (tp_orders plan) \<and>
    tp_side plan \<in> set (st_allowedSides (tpi_strategy input)) \<and>
    (\<exists>d. tp_entryExpiresAt plan = Some d \<and> (\<forall>e. tpi_entryExpiresAt input = Some e \<longrightarrow> d \<le> e))"
proof -
  obtain allocations distance where p: "assertStrategyAllows (tpi_signal input) (tpi_strategy input) = Inr ()"
    "resolveTargetAllocations (tpi_strategy input) (length (sig_targets (tpi_signal input))) = Inr allocations"
    "quantizedStopPrice (tpi_signal input) (tpi_market input) = Inr (tp_stopPrice plan)"
    "riskDistance ((tpi_signal input)\<lparr>sig_stopLoss := tp_stopPrice plan\<rparr>) (plan_price plan) = Inr distance"
    "tp_side plan = sig_action (tpi_signal input)"
    "plannedOrders sha256 input (tp_entryPrice plan) (tp_stopPrice plan) (tp_quantity plan) allocations (tp_entryPriceBoundary plan) = Inr (tp_orders plan)"
    "planEntryTiming clock input = Inr (tp_createdAt plan, the (tp_entryExpiresAt plan))" "tp_entryExpiresAt plan \<noteq> None"
    using plan_parts [OF assms] by metis
  have side: "sig_action (tpi_signal input) \<in> set (st_allowedSides (tpi_strategy input))"
    using p(1) by (auto simp: assertStrategyAllows_def split: if_splits)
  obtain d where d: "tp_entryExpiresAt plan = Some d" using p(8) by auto
  have "\<forall>e. tpi_entryExpiresAt input = Some e \<longrightarrow> d \<le> e"
    using p(7) deadline_Inr(2) by (auto simp: planEntryTiming_def Let_def rbind_Inr_iff d)
  moreover note stop_price_adverse [OF p(3)] risk_distance_Inr(3) [OF p(4)]
    planned_orders_balanced [OF p(6) resolve_allocations_length [OF p(2)]]
  ultimately show ?thesis
    unfolding p(5) using d side by (cases "sig_action (tpi_signal input)") simp_all
qed

theorem plan_is_protected_witness:
  "\<exists>plan. createTradingPlan (\<lambda>_. ''h'') 0 sample_plan_input = Inr plan \<and> length (tp_orders plan) = 4 \<and>
     orders_balanced LONG ''3'' (tp_stopPrice plan) 2 (tp_orders plan)"
proof -
  obtain plan where plan: "createTradingPlan (\<lambda>_. ''h'') 0 sample_plan_input = Inr plan" "tp_quantity plan = ''3''" "tp_side plan = LONG"
      "length (tp_orders plan) = 4"
    by (rule sample_plan)
  have "length (sig_targets (tpi_signal sample_plan_input)) = 2" by (simp add: sample_plan_input_def)
  with plan_is_protected [OF plan(1)] plan show ?thesis by auto
qed

end
