(* ===== verification/JS_Conversions.thy ===== *)
theory JS_Conversions
  imports JS_Values
begin

text \<open>
  Conversions of the language that the program applies to untyped values: the message of a thrown
  error, and \<^verbatim>\<open>Number(value)\<close> on strings and on plain data. Numbers are exact rationals here; the
  rounding of a literal to the nearest double is not modelled.
\<close>

section \<open>Messages of errors\<close>

fun error_message :: "error \<Rightarrow> string" where
  "error_message (Error m) = m"
| "error_message (JsTypeError m) = m"
| "error_message (TradingRiskError code m) = m"
| "error_message (LeverageTierError m) = m"
| "error_message (MoneyRationalValidationError m) = m"
| "error_message (TakeProfitAllocationError m) = m"
| "error_message (QueueCapacityError n) = ''Queue pending-task capacity of '' @ show_int n @ '' has been reached.''"
| "error_message (ClockDriftError m) = m"
| "error_message (CrashLoopBlockedError n blockFile) = ''Crash-loop guard blocked automatic routing after '' @ show_int n @ '' rapid crashes. Remove '' @
     CHR 0x27 # blockFile @ CHR 0x27 # '' and '' @ CHR 0x27 # ''.routing_active'' @ CHR 0x27 # '' only after correcting the cause.''"
| "error_message (FxEvidenceError m) = m"
| "error_message (TradingSymbolUnavailableError m) = m"
| "error_message (TradingOwnershipError code m) = ''Ownership proof failed ('' @ code @ ''): '' @ m"
| "error_message (TradingSafetyProofError m) = m"
| "error_message (CancellationEvidenceError code m) = m"
| "error_message EntryAdmissionRevokedError = ''Entry admission invalidated by an operator fence.''"
| "error_message CancelBudgetExhaustedError = ''Shared account cancellation budget exhausted.''"
| "error_message (SignalValidationError m) = m"
| "error_message (StartupAuthorityError m) = m"


section \<open>Numbers\<close>

definition finite_of :: "js_number \<Rightarrow> rat option" where
  "finite_of n = (case n of Num r \<Rightarrow> Some r | NegZero \<Rightarrow> Some 0 | _ \<Rightarrow> None)"

text \<open>A literal with its sign: magnitudes beyond the largest double are infinite, a negative zero keeps its sign.\<close>

definition signed_number :: "bool \<Rightarrow> rat \<Rightarrow> js_number" where
  "signed_number negative r =
     (if r \<ge> 2 ^ 1024 - 2 ^ 970 then Infinite negative
      else if negative then (if r = 0 then NegZero else Num (- r)) else Num r)"

definition digit_in :: "nat \<Rightarrow> char \<Rightarrow> int option" where
  "digit_in base c =
     (let n = (of_char c :: int);
          d = (if is_digit c then n - 48 else if 97 \<le> n \<and> n \<le> 122 then n - 87 else if 65 \<le> n \<and> n \<le> 90 then n - 55 else 99)
      in if d < int base then Some d else None)"

definition radix_number :: "nat \<Rightarrow> string \<Rightarrow> js_number" where
  "radix_number base s =
     (if s = [] \<or> list_ex (\<lambda>c. digit_in base c = None) s then NaN
      else signed_number False (of_int (foldl (\<lambda>a c. int base * a + the (digit_in base c)) 0 s)))"

definition exponent_of :: "string \<Rightarrow> int option" where
  "exponent_of s = (case s of
       [] \<Rightarrow> None
     | c # t \<Rightarrow>
         (let body = (if c = CHR ''+'' \<or> c = CHR ''-'' then t else s) in
          if body = [] \<or> \<not> all_digits body then None
          else Some (if c = CHR ''-'' then - digits_val body else digits_val body)))"

definition is_e :: "char \<Rightarrow> bool" where
  "is_e c \<longleftrightarrow> c = CHR ''e'' \<or> c = CHR ''E''"

definition unsigned_decimal :: "string \<Rightarrow> rat option" where
  "unsigned_decimal s =
     (let mantissa = takeWhile (\<lambda>c. \<not> is_e c) s; tail = dropWhile (\<lambda>c. \<not> is_e c) s;
          whole = takeWhile (\<lambda>c. c \<noteq> CHR ''.'') mantissa; point = dropWhile (\<lambda>c. c \<noteq> CHR ''.'') mantissa; places = drop 1 point;
          exponent = (if tail = [] then Some 0 else exponent_of (drop 1 tail))
      in if \<not> all_digits whole \<or> \<not> all_digits places \<or> (whole = [] \<and> places = []) then None
         else case exponent of
             None \<Rightarrow> None
           | Some e \<Rightarrow>
               let m = of_int (digits_val (whole @ places)) / 10 ^ length places
               in Some (if e \<ge> 0 then m * 10 ^ nat e else m / 10 ^ nat (- e)))"

definition decimal_number :: "bool \<Rightarrow> string \<Rightarrow> js_number" where
  "decimal_number negative s =
     (if s = ''Infinity'' then Infinite negative
      else case unsigned_decimal s of None \<Rightarrow> NaN | Some r \<Rightarrow> signed_number negative r)"

definition string_to_number :: "string \<Rightarrow> js_number" where
  "string_to_number text =
     (let s = js_trim text; prefix = take 2 s in
      if s = [] then Num 0
      else if prefix = ''0x'' \<or> prefix = ''0X'' then radix_number 16 (drop 2 s)
      else if prefix = ''0o'' \<or> prefix = ''0O'' then radix_number 8 (drop 2 s)
      else if prefix = ''0b'' \<or> prefix = ''0B'' then radix_number 2 (drop 2 s)
      else if hd s = CHR ''-'' then decimal_number True (tl s)
      else if hd s = CHR ''+'' then decimal_number False (tl s)
      else decimal_number False s)"

text \<open>An array is converted through its string: empty, or the string of its only element.\<close>

fun js_to_number :: "js \<Rightarrow> js_number" where
  "js_to_number JUndefined = NaN"
| "js_to_number JNull = Num 0"
| "js_to_number (JBool b) = Num (if b then 1 else 0)"
| "js_to_number (JNum n) = n"
| "js_to_number (JStr s) = string_to_number s"
| "js_to_number (JObj props) = NaN"
| "js_to_number (JArr []) = Num 0"
| "js_to_number (JArr (x # y # rest)) = NaN"
| "js_to_number (JArr [x]) = (case x of
      JUndefined \<Rightarrow> Num 0
    | JNull \<Rightarrow> Num 0
    | JBool b \<Rightarrow> NaN
    | JNum NegZero \<Rightarrow> Num 0
    | _ \<Rightarrow> js_to_number x)"

text \<open>The integer that passes \<^verbatim>\<open>Number.isSafeInteger\<close>.\<close>

definition safe_number :: "js_number \<Rightarrow> int option" where
  "safe_number n = safe_integer_of (JNum n)"

lemma safe_number_int [simp]: "safe_number (Num (of_int n)) = (if is_safe_integer n then Some n else None)"
  by (simp add: safe_number_def)

end
