(* ===== verification/Trading_Strategy.thy ===== *)
theory Trading_Strategy
  imports Trading_Types Trading_Decimal JS_Conversions
begin

text \<open>
  Validation of strategy configurations (\<^verbatim>\<open>src/trading_strategy.ts\<close>): every accepted value is brought to
  one normal form whose invariant the planner relies on. Values are untyped data; the fields of the
  result whose type is the constant \<^verbatim>\<open>true\<close> carry no information and are written back by the
  serialisation. Identifiers and the digest are arguments.
\<close>

section \<open>Cases and patterns\<close>

definition lower_char :: "char \<Rightarrow> char" where
  "lower_char c =
     (let n = (of_char c :: int) in
      if (65 \<le> n \<and> n \<le> 90) \<or> (192 \<le> n \<and> n \<le> 222 \<and> n \<noteq> 215) then char_of (n + 32) else c)"

text \<open>Upper case: the sharp s becomes two letters; two characters whose upper case is not a byte stay.\<close>

definition upper_char :: "char \<Rightarrow> string" where
  "upper_char c =
     (let n = (of_char c :: int) in
      if n = 223 then ''SS''
      else if (97 \<le> n \<and> n \<le> 122) \<or> (224 \<le> n \<and> n \<le> 254 \<and> n \<noteq> 247) then [char_of (n - 32)] else [c])"

definition toLowerCase :: "string \<Rightarrow> string" where
  "toLowerCase s = map lower_char s"

definition toUpperCase :: "string \<Rightarrow> string" where
  "toUpperCase s = concat (map upper_char s)"

definition symbol_pattern :: "string \<Rightarrow> bool" where
  "symbol_pattern s \<longleftrightarrow> 2 \<le> length s \<and> length s \<le> 20 \<and> list_all (\<lambda>c. is_upper c \<or> is_digit c) s"

definition signal_schema_id_pattern :: "string \<Rightarrow> bool" where
  "signal_schema_id_pattern s \<longleftrightarrow> s \<noteq> [] \<and> length s \<le> 40 \<and> is_lower (hd s) \<and>
     list_all (\<lambda>c. is_lower c \<or> is_digit c \<or> c = CHR ''_'' \<or> c = CHR ''-'') (tl s)"


section \<open>The default configuration\<close>

definition default_strategy_configuration :: strategy_configuration where
  "default_strategy_configuration =
     \<lparr>st_schemaVersion = 4, st_allowedSignalSchemas = [''standard'', ''cryptodanielvip'', ''loma''], st_allowedSymbols = [],
      st_allowedSides = [LONG, SHORT],
      st_entry = \<lparr>se_orderType = Limit_order, se_rangePrice = Midpoint, se_postOnly = False, se_timeoutSeconds = 10\<rparr>,
      st_sizing = \<lparr>sz_positionSizingMode = Some Risk_percent, sz_riskPerTradePercent = ''1'', sz_maxAdaptiveRiskPercent = Some ''1'',
        sz_maxPositionNotional = ''1000'', sz_defaultLeverage = Some 3, sz_maxLeverage = 3\<rparr>,
      st_exits = \<lparr>ex_targetAllocationMode = Some Manual, ex_targetAllocationsPercent = [''50'', ''50''], ex_stopLossMode = Some Configured,
        ex_moveStopToBreakEvenAfterTarget = Some 1, ex_trailingStopPercent = None\<rparr>,
      st_safety = \<lparr>sf_maxConcurrentPositions = None, sf_maxDailyLossMode = Some Absolute, sf_maxDailyLoss = ''100'',
        sf_maxSlippagePercent = ''0.5'', sf_entryOrderTtlSeconds = 900\<rparr>\<rparr>"


section \<open>Validators\<close>

text \<open>\<^verbatim>\<open>decimal\<close> on an untyped value: what has no \<^verbatim>\<open>trim\<close> method is a type error.\<close>

definition validateDecimalInput :: "js \<Rightarrow> string option \<Rightarrow> string result" where
  "validateDecimalInput value maximum = (case value of
       JStr s \<Rightarrow> decimal_with True maximum s
     | JUndefined \<Rightarrow> Inl (JsTypeError (''Cannot read properties of undefined (reading '' @ CHR 0x27 # ''trim'' @ CHR 0x27 # '')''))
     | JNull \<Rightarrow> Inl (JsTypeError (''Cannot read properties of null (reading '' @ CHR 0x27 # ''trim'' @ CHR 0x27 # '')''))
     | _ \<Rightarrow> Inl (JsTypeError ''value.trim is not a function''))"

definition signalSchemaIdentifier :: "js \<Rightarrow> string \<Rightarrow> string result" where
  "signalSchemaIdentifier value label = (case value of
       JStr s \<Rightarrow>
         (let normalized = toLowerCase (js_trim s) in
          if \<not> signal_schema_id_pattern normalized
          then Inl (Error (label @ '' must start with a lowercase letter and contain only lowercase letters, numbers, '' @
            CHR 0x27 # ''_'' @ CHR 0x27 # '' or '' @ CHR 0x27 # ''-'' @ CHR 0x27 # ''.''))
          else Inr normalized)
     | _ \<Rightarrow> Inl (Error (label @ '' is invalid.'')))"

definition integer_between :: "js \<Rightarrow> string \<Rightarrow> int \<Rightarrow> int \<Rightarrow> int result" where
  "integer_between value name least greatest = (case safe_integer_of value of
       Some n \<Rightarrow>
         if n < least \<or> n > greatest
         then Inl (Error (name @ '' must be an integer between '' @ show_int least @ '' and '' @ show_int greatest @ ''.''))
         else Inr n
     | None \<Rightarrow> Inl (Error (name @ '' must be an integer between '' @ show_int least @ '' and '' @ show_int greatest @ ''.'')))"

definition string_items :: "js \<Rightarrow> string list option" where
  "string_items value = (case value of
       JArr xs \<Rightarrow> if list_all (\<lambda>x. case x of JStr _ \<Rightarrow> True | _ \<Rightarrow> False) xs
         then Some (map (\<lambda>x. case x of JStr s \<Rightarrow> s | _ \<Rightarrow> []) xs) else None
     | _ \<Rightarrow> None)"

definition uniqueStrings :: "js \<Rightarrow> string \<Rightarrow> string list result" where
  "uniqueStrings values name = (case string_items values of
       None \<Rightarrow> Inl (Error (name @ '' must be an array of strings.''))
     | Some xs \<Rightarrow>
         (let normalized = map (\<lambda>x. toUpperCase (js_trim x)) xs in
          if \<not> distinct normalized then Inl (Error (name @ '' must not contain duplicates.'')) else Inr normalized))"

text \<open>\<^verbatim>\<open>object\<close>\<close>

definition strategy_object :: "js \<Rightarrow> string \<Rightarrow> (string \<times> js) list result" where
  "strategy_object value name = (case value of JObj props \<Rightarrow> Inr props | _ \<Rightarrow> Inl (Error (name @ '' must be an object.'')))"

definition exactKeys :: "(string \<times> js) list \<Rightarrow> string \<Rightarrow> string list \<Rightarrow> unit result" where
  "exactKeys props name keys =
     (let extras = filter (\<lambda>k. k \<notin> set keys) (map fst props) in
      throw_if (extras \<noteq> []) (Error (name @ '' contains unsupported fields: '' @ join_with '', '' extras @ ''.'')))"

record strategy_access =
  sa_schemaVersion :: int
  sa_allowedSignalSchemas :: "string list"
  sa_allowedSymbols :: "string list"
  sa_allowedSides :: "trading_side list"

definition side_of :: "string \<Rightarrow> trading_side" where
  "side_of s = (if s = ''LONG'' then LONG else SHORT)"

definition schema_version_of :: "js \<Rightarrow> int option" where
  "schema_version_of v = (if v = JNum (Num 1) then Some 1 else if v = JNum (Num 2) then Some 2
     else if v = JNum (Num 3) then Some 3 else if v = JNum (Num 4) then Some 4 else None)"

definition validateAccess :: "(string \<times> js) list \<Rightarrow> strategy_access result" where
  "validateAccess value = (case schema_version_of (js_get value ''schemaVersion'') of
       None \<Rightarrow> Inl (Error ''Unsupported strategy schema version.'')
     | Some version \<Rightarrow>
         (case string_items (js_get value ''allowedSignalSchemas'') of
            None \<Rightarrow> Inl (Error ''allowedSignalSchemas must be an array of strings.'')
          | Some items \<Rightarrow>
              rbind (mapM (\<lambda>s. signalSchemaIdentifier (JStr s) ''Signal schema identifier'') items) (\<lambda>schemas.
              rbind (throw_if (length schemas < 1) (Error ''At least one executable signal schema is required.'')) (\<lambda>_.
              rbind (throw_if (\<not> distinct schemas) (Error ''allowedSignalSchemas must not contain duplicates.'')) (\<lambda>_.
              rbind (uniqueStrings (js_get value ''allowedSymbols'') ''allowedSymbols'') (\<lambda>symbols.
              rbind (throw_if (\<not> list_all symbol_pattern symbols) (Error ''allowedSymbols contains an invalid normalized symbol.'')) (\<lambda>_.
              rbind (uniqueStrings (js_get value ''allowedSides'') ''allowedSides'') (\<lambda>sides.
              rbind (throw_if (length sides < 1 \<or> \<not> list_all (\<lambda>s. s = ''LONG'' \<or> s = ''SHORT'') sides)
                       (Error ''allowedSides must contain LONG and/or SHORT.'')) (\<lambda>_.
                Inr \<lparr>sa_schemaVersion = version, sa_allowedSignalSchemas = schemas, sa_allowedSymbols = symbols,
                     sa_allowedSides = map side_of sides\<rparr>)))))))))"

definition order_type_of :: "js \<Rightarrow> order_type option" where
  "order_type_of v = (if v = JStr ''market'' then Some Market_order else if v = JStr ''limit'' then Some Limit_order else None)"

definition range_price_of :: "js \<Rightarrow> range_price option" where
  "range_price_of v = (if v = JStr ''near'' then Some Near else if v = JStr ''midpoint'' then Some Midpoint else if v = JStr ''far'' then Some Far else None)"

definition validateEntry :: "js \<Rightarrow> strategy_entry result" where
  "validateEntry input =
     rbind (strategy_object input ''entry'') (\<lambda>value.
     rbind (exactKeys value ''entry'' [''orderType'', ''rangePrice'', ''postOnly'', ''timeoutSeconds'']) (\<lambda>_.
     case order_type_of (js_get value ''orderType'') of
       None \<Rightarrow> Inl (Error ''entry.orderType must be market or limit.'')
     | Some orderType \<Rightarrow> (case range_price_of (js_get value ''rangePrice'') of
         None \<Rightarrow> Inl (Error ''entry.rangePrice is invalid.'')
       | Some rangePrice \<Rightarrow> (case js_get value ''postOnly'' of
           JBool postOnly \<Rightarrow>
             if orderType = Market_order \<and> postOnly then Inl (Error ''Market entries cannot be post-only.'')
             else rbind (integer_between (js_get value ''timeoutSeconds'') ''entry.timeoutSeconds'' 2 30) (\<lambda>timeoutSeconds.
               Inr \<lparr>se_orderType = orderType, se_rangePrice = rangePrice, se_postOnly = postOnly, se_timeoutSeconds = timeoutSeconds\<rparr>)
         | _ \<Rightarrow> Inl (Error ''entry.postOnly must be boolean.'')))))"

definition sizing_mode_of :: "js \<Rightarrow> position_sizing_mode option" where
  "sizing_mode_of v = (if v = JStr ''risk_percent'' then Some Risk_percent
     else if v = JStr ''equity_percent_notional'' then Some Equity_percent_notional
     else if v = JStr ''equity_percent_margin'' then Some Equity_percent_margin else None)"

definition validateSizing :: "js \<Rightarrow> int \<Rightarrow> strategy_sizing result" where
  "validateSizing input schemaVersion =
     rbind (strategy_object input ''sizing'') (\<lambda>value.
     rbind (exactKeys value ''sizing'' [''positionSizingMode'', ''riskPerTradePercent'', ''maxAdaptiveRiskPercent'', ''maxPositionNotional'',
              ''defaultLeverage'', ''maxLeverage'']) (\<lambda>_.
     case sizing_mode_of (js_or (js_get value ''positionSizingMode'') (JStr ''risk_percent'')) of
       None \<Rightarrow> Inl (Error ''sizing.positionSizingMode must be risk_percent, equity_percent_notional or equity_percent_margin.'')
     | Some positionSizingMode \<Rightarrow>
         rbind (validateDecimalInput (js_get value ''riskPerTradePercent'') (Some ''10'')) (\<lambda>riskPerTradePercent.
         rbind (if schemaVersion = 1 then Inr None
                else rbind (validateDecimalInput (js_get value ''maxAdaptiveRiskPercent'') (Some ''10'')) (\<lambda>m. Inr (Some m))) (\<lambda>maxAdaptiveRiskPercent.
         rbind (case maxAdaptiveRiskPercent of
             None \<Rightarrow> Inr ()
           | Some m \<Rightarrow> rbind (compareDecimal m riskPerTradePercent) (\<lambda>c.
               throw_if (c < 0) (Error ''sizing.maxAdaptiveRiskPercent must not be below the baseline risk.''))) (\<lambda>_.
         rbind (integer_between (js_get value ''maxLeverage'') ''sizing.maxLeverage'' 1 50) (\<lambda>maxLeverage.
         rbind (throw_if (schemaVersion = 4 \<and> js_get value ''defaultLeverage'' = JUndefined)
                  (Error ''sizing.defaultLeverage is required for strategy schema version 4.'')) (\<lambda>_.
         rbind (if js_get value ''defaultLeverage'' = JUndefined then Inr maxLeverage
                else integer_between (js_get value ''defaultLeverage'') ''sizing.defaultLeverage'' 1 50) (\<lambda>defaultLeverage.
         rbind (throw_if (defaultLeverage > maxLeverage) (Error ''sizing.defaultLeverage must not exceed sizing.maxLeverage.'')) (\<lambda>_.
         rbind (validateDecimalInput (js_get value ''maxPositionNotional'') None) (\<lambda>maxPositionNotional.
           Inr \<lparr>sz_positionSizingMode = Some positionSizingMode, sz_riskPerTradePercent = riskPerTradePercent,
                sz_maxAdaptiveRiskPercent = maxAdaptiveRiskPercent, sz_maxPositionNotional = maxPositionNotional,
                sz_defaultLeverage = Some defaultLeverage, sz_maxLeverage = maxLeverage\<rparr>))))))))))"

definition allocation_mode_of :: "js \<Rightarrow> target_allocation_mode option" where
  "allocation_mode_of v = (if v = JStr ''manual'' then Some Manual else if v = JStr ''adaptive_halving'' then Some Adaptive_halving else None)"

definition stop_mode_of :: "js \<Rightarrow> stop_loss_mode option" where
  "stop_mode_of v = (if v = JStr ''configured'' then Some Configured else if v = JStr ''adaptive_targets'' then Some Adaptive_targets else None)"

definition validateExits :: "js \<Rightarrow> strategy_exits result" where
  "validateExits input =
     rbind (strategy_object input ''exits'') (\<lambda>value.
     rbind (exactKeys value ''exits'' [''targetAllocationMode'', ''targetAllocationsPercent'', ''stopLossMode'',
              ''moveStopToBreakEvenAfterTarget'', ''trailingStopPercent'', ''closeRemainderAtLastTarget'']) (\<lambda>_.
     case allocation_mode_of (js_or (js_get value ''targetAllocationMode'') (JStr ''manual'')) of
       None \<Rightarrow> Inl (Error ''exits.targetAllocationMode must be manual or adaptive_halving.'')
     | Some targetAllocationMode \<Rightarrow>
         rbind (case js_get value ''targetAllocationsPercent'' of
             JArr xs \<Rightarrow> if length xs < 1 \<or> length xs > 20 then Inl (Error ''Between one and twenty target allocations are required.'') else Inr xs
           | _ \<Rightarrow> Inl (Error ''Between one and twenty target allocations are required.'')) (\<lambda>items.
         rbind (mapM (\<lambda>x. validateDecimalInput x (Some ''100'')) items) (\<lambda>allocations.
         rbind (rbind (sumDecimals allocations) (\<lambda>s. compareDecimal s ''100'')) (\<lambda>c.
         rbind (throw_if (c \<noteq> 0) (Error ''Target allocations must total exactly 100 percent.'')) (\<lambda>_.
         rbind (if js_get value ''moveStopToBreakEvenAfterTarget'' = JNull then Inr None
                else rbind (integer_between (js_get value ''moveStopToBreakEvenAfterTarget'') ''exits.moveStopToBreakEvenAfterTarget'' 1
                  (int (length allocations))) (\<lambda>n. Inr (Some n))) (\<lambda>breakEvenTarget.
         rbind (if js_get value ''trailingStopPercent'' = JNull then Inr None
                else rbind (validateDecimalInput (js_get value ''trailingStopPercent'') (Some ''20'')) (\<lambda>d. Inr (Some d))) (\<lambda>trailingStop.
         case stop_mode_of (js_or (js_get value ''stopLossMode'') (JStr ''configured'')) of
           None \<Rightarrow> Inl (Error ''exits.stopLossMode must be configured or adaptive_targets.'')
         | Some stopLossMode \<Rightarrow>
             rbind (throw_if (js_get value ''closeRemainderAtLastTarget'' \<noteq> JBool True)
                      (Error ''Closing the full remainder at the last target is mandatory.'')) (\<lambda>_.
               Inr \<lparr>ex_targetAllocationMode = Some targetAllocationMode, ex_targetAllocationsPercent = allocations,
                    ex_stopLossMode = Some stopLossMode, ex_moveStopToBreakEvenAfterTarget = breakEvenTarget,
                    ex_trailingStopPercent = trailingStop\<rparr>)))))))))"

definition daily_loss_mode_of :: "js \<Rightarrow> daily_loss_limit_mode option" where
  "daily_loss_mode_of v = (if v = JStr ''absolute'' then Some Absolute else if v = JStr ''equity_percent'' then Some Equity_percent else None)"

definition validateSafety :: "js \<Rightarrow> int \<Rightarrow> strategy_safety result" where
  "validateSafety input schemaVersion =
     rbind (strategy_object input ''safety'') (\<lambda>value.
     rbind (exactKeys value ''safety'' ((if schemaVersion < 3 then [''maxConcurrentPositions''] else []) @
              [''maxDailyLossMode'', ''maxDailyLoss'', ''maxSlippagePercent'', ''entryOrderTtlSeconds'', ''requireProtectiveStop''])) (\<lambda>_.
     rbind (throw_if (js_get value ''requireProtectiveStop'' \<noteq> JBool True) (Error ''Protective stops are mandatory.'')) (\<lambda>_.
     case daily_loss_mode_of (js_or (js_get value ''maxDailyLossMode'') (JStr ''absolute'')) of
       None \<Rightarrow> Inl (Error ''safety.maxDailyLossMode must be absolute or equity_percent.'')
     | Some maxDailyLossMode \<Rightarrow>
         rbind (if schemaVersion < 3
                then rbind (integer_between (js_get value ''maxConcurrentPositions'') ''safety.maxConcurrentPositions'' 1 20) (\<lambda>n. Inr (Some n))
                else Inr None) (\<lambda>maxConcurrentPositions.
         rbind (validateDecimalInput (js_get value ''maxDailyLoss'') (if maxDailyLossMode = Equity_percent then Some ''100'' else None)) (\<lambda>maxDailyLoss.
         rbind (validateDecimalInput (js_get value ''maxSlippagePercent'') (Some ''5'')) (\<lambda>maxSlippagePercent.
         rbind (integer_between (js_get value ''entryOrderTtlSeconds'') ''safety.entryOrderTtlSeconds'' 10 86400) (\<lambda>entryOrderTtlSeconds.
           Inr \<lparr>sf_maxConcurrentPositions = maxConcurrentPositions, sf_maxDailyLossMode = Some maxDailyLossMode, sf_maxDailyLoss = maxDailyLoss,
                sf_maxSlippagePercent = maxSlippagePercent, sf_entryOrderTtlSeconds = entryOrderTtlSeconds\<rparr>)))))))"

definition validateStrategyConfiguration :: "js \<Rightarrow> strategy_configuration result" where
  "validateStrategyConfiguration input =
     rbind (strategy_object input ''Strategy configuration'') (\<lambda>value.
     rbind (exactKeys value ''Strategy configuration'' [''schemaVersion'', ''allowedSignalSchemas'', ''allowedSymbols'', ''allowedSides'',
              ''entry'', ''sizing'', ''exits'', ''safety'']) (\<lambda>_.
     rbind (validateAccess value) (\<lambda>access.
     rbind (validateEntry (js_get value ''entry'')) (\<lambda>entry.
     rbind (validateSizing (js_get value ''sizing'') (sa_schemaVersion access)) (\<lambda>sizing.
     rbind (validateExits (js_get value ''exits'')) (\<lambda>exits.
     rbind (validateSafety (js_get value ''safety'') (sa_schemaVersion access)) (\<lambda>safety.
       Inr \<lparr>st_schemaVersion = sa_schemaVersion access, st_allowedSignalSchemas = sa_allowedSignalSchemas access,
            st_allowedSymbols = sa_allowedSymbols access, st_allowedSides = sa_allowedSides access, st_entry = entry, st_sizing = sizing,
            st_exits = exits, st_safety = safety\<rparr>)))))))"

definition strategyConfigurationForNewVersion :: "js \<Rightarrow> strategy_configuration result" where
  "strategyConfigurationForNewVersion input =
     rbind (validateStrategyConfiguration input) (\<lambda>configuration.
       Inr (configuration\<lparr>st_schemaVersion := 4,
         st_sizing := (st_sizing configuration)\<lparr>sz_defaultLeverage :=
           (case sz_defaultLeverage (st_sizing configuration) of Some d \<Rightarrow> Some d | None \<Rightarrow> Some (sz_maxLeverage (st_sizing configuration)))\<rparr>\<rparr>))"


section \<open>Serialisation\<close>

text \<open>The plain data of a configuration, with its fields in the order in which the program writes them.\<close>

definition js_int :: "int \<Rightarrow> js" where
  "js_int n = JNum (Num (of_int n))"

fun side_text :: "trading_side \<Rightarrow> string" where
  "side_text LONG = ''LONG''"
| "side_text SHORT = ''SHORT''"

fun order_type_text :: "order_type \<Rightarrow> string" where
  "order_type_text Market_order = ''market''"
| "order_type_text Limit_order = ''limit''"

fun range_price_text :: "range_price \<Rightarrow> string" where
  "range_price_text Near = ''near''"
| "range_price_text Midpoint = ''midpoint''"
| "range_price_text Far = ''far''"

fun sizing_mode_text :: "position_sizing_mode \<Rightarrow> string" where
  "sizing_mode_text Risk_percent = ''risk_percent''"
| "sizing_mode_text Equity_percent_notional = ''equity_percent_notional''"
| "sizing_mode_text Equity_percent_margin = ''equity_percent_margin''"

fun allocation_mode_text :: "target_allocation_mode \<Rightarrow> string" where
  "allocation_mode_text Manual = ''manual''"
| "allocation_mode_text Adaptive_halving = ''adaptive_halving''"

fun stop_mode_text :: "stop_loss_mode \<Rightarrow> string" where
  "stop_mode_text Configured = ''configured''"
| "stop_mode_text Adaptive_targets = ''adaptive_targets''"

fun daily_loss_mode_text :: "daily_loss_limit_mode \<Rightarrow> string" where
  "daily_loss_mode_text Absolute = ''absolute''"
| "daily_loss_mode_text Equity_percent = ''equity_percent''"

definition optional_field :: "string \<Rightarrow> js option \<Rightarrow> (string \<times> js) list" where
  "optional_field key value = (case value of None \<Rightarrow> [] | Some v \<Rightarrow> [(key, v)])"

definition js_of_entry :: "strategy_entry \<Rightarrow> js" where
  "js_of_entry e = JObj [(''orderType'', JStr (order_type_text (se_orderType e))), (''rangePrice'', JStr (range_price_text (se_rangePrice e))),
     (''postOnly'', JBool (se_postOnly e)), (''timeoutSeconds'', js_int (se_timeoutSeconds e))]"

definition js_of_sizing :: "strategy_sizing \<Rightarrow> js" where
  "js_of_sizing z = JObj (optional_field ''positionSizingMode'' (map_option (JStr \<circ> sizing_mode_text) (sz_positionSizingMode z)) @
     [(''riskPerTradePercent'', JStr (sz_riskPerTradePercent z))] @
     optional_field ''maxAdaptiveRiskPercent'' (map_option JStr (sz_maxAdaptiveRiskPercent z)) @
     [(''maxPositionNotional'', JStr (sz_maxPositionNotional z))] @
     optional_field ''defaultLeverage'' (map_option js_int (sz_defaultLeverage z)) @ [(''maxLeverage'', js_int (sz_maxLeverage z))])"

definition js_of_exits :: "strategy_exits \<Rightarrow> js" where
  "js_of_exits x = JObj (optional_field ''targetAllocationMode'' (map_option (JStr \<circ> allocation_mode_text) (ex_targetAllocationMode x)) @
     [(''targetAllocationsPercent'', JArr (map JStr (ex_targetAllocationsPercent x)))] @
     optional_field ''stopLossMode'' (map_option (JStr \<circ> stop_mode_text) (ex_stopLossMode x)) @
     [(''moveStopToBreakEvenAfterTarget'', case ex_moveStopToBreakEvenAfterTarget x of None \<Rightarrow> JNull | Some n \<Rightarrow> js_int n),
      (''trailingStopPercent'', case ex_trailingStopPercent x of None \<Rightarrow> JNull | Some d \<Rightarrow> JStr d),
      (''closeRemainderAtLastTarget'', JBool True)])"

definition js_of_safety :: "strategy_safety \<Rightarrow> js" where
  "js_of_safety f = JObj (optional_field ''maxConcurrentPositions'' (map_option js_int (sf_maxConcurrentPositions f)) @
     optional_field ''maxDailyLossMode'' (map_option (JStr \<circ> daily_loss_mode_text) (sf_maxDailyLossMode f)) @
     [(''maxDailyLoss'', JStr (sf_maxDailyLoss f)), (''maxSlippagePercent'', JStr (sf_maxSlippagePercent f)),
      (''entryOrderTtlSeconds'', js_int (sf_entryOrderTtlSeconds f)), (''requireProtectiveStop'', JBool True)])"

definition js_of_strategy :: "strategy_configuration \<Rightarrow> js" where
  "js_of_strategy c = JObj [(''schemaVersion'', js_int (st_schemaVersion c)),
     (''allowedSignalSchemas'', JArr (map JStr (st_allowedSignalSchemas c))), (''allowedSymbols'', JArr (map JStr (st_allowedSymbols c))),
     (''allowedSides'', JArr (map (JStr \<circ> side_text) (st_allowedSides c))), (''entry'', js_of_entry (st_entry c)),
     (''sizing'', js_of_sizing (st_sizing c)), (''exits'', js_of_exits (st_exits c)), (''safety'', js_of_safety (st_safety c))]"

text \<open>\<^verbatim>\<open>JSON.stringify\<close>; the numbers of a configuration are integers.\<close>

fun json_text :: "js \<Rightarrow> string" where
  "json_text JUndefined = []"
| "json_text JNull = ''null''"
| "json_text (JBool b) = (if b then ''true'' else ''false'')"
| "json_text (JNum n) = (case n of Num r \<Rightarrow> show_int \<lfloor>r\<rfloor> | NegZero \<Rightarrow> ''0'' | _ \<Rightarrow> ''null'')"
| "json_text (JStr s) = json_string s"
| "json_text (JArr xs) = json_array (map json_text xs)"
| "json_text (JObj props) = ''{'' @ join_with '','' (map (\<lambda>(k, v). json_string k @ '':'' @ json_text v) props) @ ''}''"

definition strategyConfigurationSha256 :: "(string \<Rightarrow> string) \<Rightarrow> strategy_configuration \<Rightarrow> string" where
  "strategyConfigurationSha256 sha256 configuration = sha256 (json_text (js_of_strategy configuration))"

datatype strategy_status = Draft | Published | Archived

record strategy_version =
  sv_id :: string
  sv_strategyId :: string
  sv_version :: int
  sv_name :: string
  sv_description :: string
  sv_status :: strategy_status
  sv_configuration :: strategy_configuration
  sv_configurationSha256 :: string
  sv_createdAt :: int
  sv_publishedAt :: "int option"

text \<open>The two random identifiers and the clock are arguments.\<close>

definition createStrategyVersion ::
    "(string \<Rightarrow> string) \<Rightarrow> string \<Rightarrow> string \<Rightarrow> int \<Rightarrow> string option \<Rightarrow> js \<Rightarrow> string \<Rightarrow> string option \<Rightarrow> js \<Rightarrow> int option \<Rightarrow> strategy_version result" where
  "createStrategyVersion sha256 uuid1 uuid2 clock strategyId version rawName rawDescription rawConfiguration now =
     (let name = js_trim rawName in
      if name = [] \<or> length name > 80 then Inl (Error ''Strategy name must contain between 1 and 80 characters.'')
      else let description = (case rawDescription of None \<Rightarrow> [] | Some d \<Rightarrow> js_trim d) in
        if length description > 500 then Inl (Error ''Strategy description must not exceed 500 characters.'')
        else rbind (strategyConfigurationForNewVersion rawConfiguration) (\<lambda>configuration.
          rbind (integer_between version ''version'' 1 1000000) (\<lambda>v.
            Inr \<lparr>sv_id = uuid1, sv_strategyId = (case strategyId of None \<Rightarrow> uuid2 | Some i \<Rightarrow> if i = [] then uuid2 else i),
                 sv_version = v, sv_name = name, sv_description = description, sv_status = Draft, sv_configuration = configuration,
                 sv_configurationSha256 = strategyConfigurationSha256 sha256 configuration,
                 sv_createdAt = (case now of None \<Rightarrow> clock | Some n \<Rightarrow> n), sv_publishedAt = None\<rparr>)))"


section \<open>The invariant of accepted configurations\<close>

definition amount_ok :: "rat option \<Rightarrow> string \<Rightarrow> bool" where
  "amount_ok maximum d \<longleftrightarrow> decimal_pattern d \<and> canonical_decimal d \<and> 0 < dec_val d \<and> (case maximum of None \<Rightarrow> True | Some m \<Rightarrow> dec_val d \<le> m)"

definition entry_ok :: "strategy_entry \<Rightarrow> bool" where
  "entry_ok e \<longleftrightarrow> \<not> (se_orderType e = Market_order \<and> se_postOnly e) \<and> 2 \<le> se_timeoutSeconds e \<and> se_timeoutSeconds e \<le> 30"

definition sizing_ok :: "int \<Rightarrow> strategy_sizing \<Rightarrow> bool" where
  "sizing_ok version z \<longleftrightarrow> sz_positionSizingMode z \<noteq> None \<and> amount_ok (Some 10) (sz_riskPerTradePercent z) \<and>
     (case sz_maxAdaptiveRiskPercent z of None \<Rightarrow> version = 1
      | Some m \<Rightarrow> version \<noteq> 1 \<and> amount_ok (Some 10) m \<and> dec_val (sz_riskPerTradePercent z) \<le> dec_val m) \<and>
     amount_ok None (sz_maxPositionNotional z) \<and>
     (\<exists>d. sz_defaultLeverage z = Some d \<and> 1 \<le> d \<and> d \<le> sz_maxLeverage z) \<and> sz_maxLeverage z \<le> 50"

definition exits_ok :: "strategy_exits \<Rightarrow> bool" where
  "exits_ok x \<longleftrightarrow> ex_targetAllocationMode x \<noteq> None \<and> ex_stopLossMode x \<noteq> None \<and>
     1 \<le> length (ex_targetAllocationsPercent x) \<and> length (ex_targetAllocationsPercent x) \<le> 20 \<and>
     list_all (amount_ok (Some 100)) (ex_targetAllocationsPercent x) \<and> (\<Sum>d\<leftarrow>ex_targetAllocationsPercent x. dec_val d) = 100 \<and>
     (case ex_moveStopToBreakEvenAfterTarget x of None \<Rightarrow> True | Some n \<Rightarrow> 1 \<le> n \<and> n \<le> int (length (ex_targetAllocationsPercent x))) \<and>
     (case ex_trailingStopPercent x of None \<Rightarrow> True | Some d \<Rightarrow> amount_ok (Some 20) d)"

definition safety_ok :: "int \<Rightarrow> strategy_safety \<Rightarrow> bool" where
  "safety_ok version f \<longleftrightarrow>
     (case sf_maxConcurrentPositions f of None \<Rightarrow> 3 \<le> version | Some n \<Rightarrow> version < 3 \<and> 1 \<le> n \<and> n \<le> 20) \<and>
     (\<exists>m. sf_maxDailyLossMode f = Some m \<and> amount_ok (if m = Equity_percent then Some 100 else None) (sf_maxDailyLoss f)) \<and>
     amount_ok (Some 5) (sf_maxSlippagePercent f) \<and> 10 \<le> sf_entryOrderTtlSeconds f \<and> sf_entryOrderTtlSeconds f \<le> 86400"

definition strategy_ok :: "strategy_configuration \<Rightarrow> bool" where
  "strategy_ok c \<longleftrightarrow> st_schemaVersion c \<in> {1, 2, 3, 4} \<and>
     st_allowedSignalSchemas c \<noteq> [] \<and> distinct (st_allowedSignalSchemas c) \<and> list_all signal_schema_id_pattern (st_allowedSignalSchemas c) \<and>
     distinct (st_allowedSymbols c) \<and> list_all symbol_pattern (st_allowedSymbols c) \<and> st_allowedSides c \<noteq> [] \<and> distinct (st_allowedSides c) \<and>
     entry_ok (st_entry c) \<and> sizing_ok (st_schemaVersion c) (st_sizing c) \<and> exits_ok (st_exits c) \<and> safety_ok (st_schemaVersion c) (st_safety c)"


section \<open>Validators accept what they return\<close>

lemma small_safe: "0 \<le> n \<Longrightarrow> n \<le> 86400 \<Longrightarrow> is_safe_integer n"
  by (simp add: is_safe_integer_def max_safe_integer_def)

lemma integer_between_Inr: "integer_between v name lo hi = Inr n \<Longrightarrow> lo \<le> n \<and> n \<le> hi"
  by (auto simp: integer_between_def split: option.splits if_splits)

lemma integer_between_back [simp]: "lo \<le> n \<Longrightarrow> n \<le> hi \<Longrightarrow> 0 \<le> lo \<Longrightarrow> hi \<le> 86400 \<Longrightarrow> integer_between (js_int n) name lo hi = Inr n"
  using small_safe [of n] by (simp add: integer_between_def js_int_def)

lemma limit_decimals:
  "decimal_pattern ''10''" "dec_val ''10'' = 10" "decimal_pattern ''100''" "dec_val ''100'' = 100"
  "decimal_pattern ''20''" "dec_val ''20'' = 20" "decimal_pattern ''5''" "dec_val ''5'' = 5"
  by code_simp+

lemma decimal_input_Inr:
  assumes "validateDecimalInput v maximum = Inr d" "\<And>m. maximum = Some m \<Longrightarrow> m \<noteq> [] \<and> decimal_pattern m"
  shows "amount_ok (map_option dec_val maximum) d"
proof -
  obtain s where s: "decimal_with True maximum s = Inr d"
    using assms(1) by (auto simp: validateDecimalInput_def split: js.splits)
  have "decimal_pattern d" using s by (rule decimal_with_valid)
  then show ?thesis
    using s assms(2) dec_val_nonneg [of d] unfolding decimal_with_Inr_iff amount_ok_def by (auto split: option.splits)
qed

lemma decimal_input_back:
  assumes "amount_ok (map_option dec_val maximum) d" "\<And>m. maximum = Some m \<Longrightarrow> decimal_pattern m"
  shows "validateDecimalInput (JStr d) maximum = Inr d"
proof -
  have "decimal_pattern d" "canonical_decimal d" using assms(1) by (simp_all add: amount_ok_def)
  then have "js_trim d = d" using decimal_canonical_id decimal_id_value by blast
  then show ?thesis
    using assms unfolding validateDecimalInput_def js.case decimal_with_Inr_iff by (auto simp: amount_ok_def split: option.splits)
qed

lemma amount_Inr:
  "validateDecimalInput v (Some ''10'') = Inr d \<Longrightarrow> amount_ok (Some 10) d"
  "validateDecimalInput v (Some ''100'') = Inr d \<Longrightarrow> amount_ok (Some 100) d"
  "validateDecimalInput v (Some ''20'') = Inr d \<Longrightarrow> amount_ok (Some 20) d"
  "validateDecimalInput v (Some ''5'') = Inr d \<Longrightarrow> amount_ok (Some 5) d"
  "validateDecimalInput v None = Inr d \<Longrightarrow> amount_ok None d"
  using decimal_input_Inr [of v "Some ''10''" d] decimal_input_Inr [of v "Some ''100''" d] decimal_input_Inr [of v "Some ''20''" d]
    decimal_input_Inr [of v "Some ''5''" d] decimal_input_Inr [of v None d]
  by (simp_all add: limit_decimals)

lemma amount_back [simp]:
  "amount_ok (Some 10) d \<Longrightarrow> validateDecimalInput (JStr d) (Some ''10'') = Inr d"
  "amount_ok (Some 100) d \<Longrightarrow> validateDecimalInput (JStr d) (Some ''100'') = Inr d"
  "amount_ok (Some 20) d \<Longrightarrow> validateDecimalInput (JStr d) (Some ''20'') = Inr d"
  "amount_ok (Some 5) d \<Longrightarrow> validateDecimalInput (JStr d) (Some ''5'') = Inr d"
  "amount_ok None d \<Longrightarrow> validateDecimalInput (JStr d) None = Inr d"
  using decimal_input_back [of "Some ''10''" d] decimal_input_back [of "Some ''100''" d] decimal_input_back [of "Some ''20''" d]
    decimal_input_back [of "Some ''5''" d] decimal_input_back [of None d]
  by (simp_all only: limit_decimals option.map option.inject option.distinct) (simp_all add: limit_decimals)

lemma texts_back [simp]:
  "order_type_of (JStr (order_type_text a)) = Some a" "range_price_of (JStr (range_price_text b)) = Some b"
  "sizing_mode_of (JStr (sizing_mode_text c)) = Some c" "allocation_mode_of (JStr (allocation_mode_text d)) = Some d"
  "stop_mode_of (JStr (stop_mode_text e)) = Some e" "daily_loss_mode_of (JStr (daily_loss_mode_text f)) = Some f" "side_of (side_text g) = g"
  by (cases a, simp_all add: order_type_of_def) (cases b, simp_all add: range_price_of_def, cases c, simp_all add: sizing_mode_of_def,
    cases d, simp_all add: allocation_mode_of_def, cases e, simp_all add: stop_mode_of_def, cases f, simp_all add: daily_loss_mode_of_def,
    cases g, simp_all add: side_of_def)

lemma js_or_JStr [simp]: "js_or (JStr s) d = JStr s"
  by (simp add: js_or_def)

lemma entry_Inr: "validateEntry v = Inr e \<Longrightarrow> entry_ok e"
  by (auto simp: validateEntry_def rbind_Inr_iff case_Inr entry_ok_def dest: integer_between_Inr)

lemma entry_back: "entry_ok e \<Longrightarrow> validateEntry (js_of_entry e) = Inr e"
  by (auto simp: validateEntry_def js_of_entry_def strategy_object_def exactKeys_def entry_ok_def)

lemma sizing_Inr:
  assumes "validateSizing v version = Inr z"
  shows "sizing_ok version z"
proof -
  obtain props mode risk adaptive lev dflt notional where h:
    "validateDecimalInput (js_get props ''riskPerTradePercent'') (Some ''10'') = Inr risk"
    "(if version = 1 then Inr None else rbind (validateDecimalInput (js_get props ''maxAdaptiveRiskPercent'') (Some ''10'')) (\<lambda>m. Inr (Some m))) = Inr adaptive"
    "(case adaptive of None \<Rightarrow> Inr () | Some m \<Rightarrow> rbind (compareDecimal m risk) (\<lambda>c.
        throw_if (c < 0) (Error ''sizing.maxAdaptiveRiskPercent must not be below the baseline risk.''))) = Inr ()"
    "integer_between (js_get props ''maxLeverage'') ''sizing.maxLeverage'' 1 50 = Inr lev"
    "(if js_get props ''defaultLeverage'' = JUndefined then Inr lev
      else integer_between (js_get props ''defaultLeverage'') ''sizing.defaultLeverage'' 1 50) = Inr dflt"
    "\<not> dflt > lev" "validateDecimalInput (js_get props ''maxPositionNotional'') None = Inr notional"
    "z = \<lparr>sz_positionSizingMode = Some mode, sz_riskPerTradePercent = risk, sz_maxAdaptiveRiskPercent = adaptive,
       sz_maxPositionNotional = notional, sz_defaultLeverage = Some dflt, sz_maxLeverage = lev\<rparr>"
    using assms by (auto simp: validateSizing_def rbind_Inr_iff case_Inr throw_if_Inr)
  note r = amount_Inr(1) [OF h(1)] amount_Inr(5) [OF h(7)]
  have "case adaptive of None \<Rightarrow> version = 1 | Some m \<Rightarrow> version \<noteq> 1 \<and> amount_ok (Some 10) m \<and> dec_val risk \<le> dec_val m"
    using h(2,3) amount_Inr(1) by (auto simp: rbind_Inr_iff throw_if_Inr split: option.splits if_splits dest!: compare_Inr)
  then show ?thesis
    using r h(5,6) integer_between_Inr [OF h(4)] unfolding h(8) sizing_ok_def
    by (cases adaptive) (auto split: if_splits dest: integer_between_Inr)
qed

lemma compare_back: "decimal_pattern a \<Longrightarrow> decimal_pattern b \<Longrightarrow> dec_val b \<le> dec_val a \<Longrightarrow> \<exists>c. compareDecimal a b = Inr c \<and> \<not> c < 0"
  using compare_law [of a b] by (auto split: if_splits)

lemma sizing_back: "sizing_ok version z \<Longrightarrow> validateSizing (js_of_sizing z) version = Inr z"
proof -
  assume ok: "sizing_ok version z"
  then obtain mode dflt where m: "sz_positionSizingMode z = Some mode" "sz_defaultLeverage z = Some dflt" "1 \<le> dflt" "dflt \<le> sz_maxLeverage z"
    by (auto simp: sizing_ok_def)
  have nonundef: "js_int n \<noteq> JUndefined" for n by (simp add: js_int_def)
  show ?thesis
  proof (cases "sz_maxAdaptiveRiskPercent z")
    case None
    then show ?thesis
      using ok m nonundef by (simp add: validateSizing_def js_of_sizing_def strategy_object_def exactKeys_def optional_field_def sizing_ok_def)
  next
    case (Some a)
    obtain c where "compareDecimal a (sz_riskPerTradePercent z) = Inr c" "\<not> c < 0"
      using compare_back [of a "sz_riskPerTradePercent z"] ok Some by (auto simp: sizing_ok_def amount_ok_def)
    then show ?thesis
      using ok m nonundef Some by (simp add: validateSizing_def js_of_sizing_def strategy_object_def exactKeys_def optional_field_def sizing_ok_def)
  qed
qed

lemma exits_Inr:
  assumes "validateExits v = Inr x"
  shows "exits_ok x"
proof -
  obtain props mode items allocations s c be trailing stop where h:
    "mapM (\<lambda>x. validateDecimalInput x (Some ''100'')) items = Inr allocations" "\<not> (length items < 1 \<or> length items > 20)"
    "sumDecimals allocations = Inr s" "compareDecimal s ''100'' = Inr c" "\<not> c \<noteq> 0"
    "(if js_get props ''moveStopToBreakEvenAfterTarget'' = JNull then Inr None
      else rbind (integer_between (js_get props ''moveStopToBreakEvenAfterTarget'') ''exits.moveStopToBreakEvenAfterTarget'' 1
        (int (length allocations))) (\<lambda>n. Inr (Some n))) = Inr be"
    "(if js_get props ''trailingStopPercent'' = JNull then Inr None
      else rbind (validateDecimalInput (js_get props ''trailingStopPercent'') (Some ''20'')) (\<lambda>d. Inr (Some d))) = Inr trailing"
    "x = \<lparr>ex_targetAllocationMode = Some mode, ex_targetAllocationsPercent = allocations, ex_stopLossMode = Some stop,
       ex_moveStopToBreakEvenAfterTarget = be, ex_trailingStopPercent = trailing\<rparr>"
    using assms unfolding validateExits_def rbind_Inr_iff case_Inr throw_if_Inr sum.inject by blast
  have len: "1 \<le> length allocations" "length allocations \<le> 20" using mapM_length [OF h(1)] h(2) by linarith+
  have "list_all (amount_ok (Some 100)) allocations"
    using h(1) amount_Inr(2) by (auto simp: mapM_Inr_iff list_all_length list_all2_conv_all_nth)
  moreover have "(\<Sum>d\<leftarrow>allocations. dec_val d) = 100"
    using sum_exact [OF h(3)] compare_Inr [OF h(4)] h(5) limit_decimals by (auto simp: rat_cmp_def split: if_splits)
  ultimately show ?thesis
    using h(6,7) len amount_Inr(3) unfolding h(8) exits_ok_def
    by (simp add: rbind_Inr_iff split: if_splits option.splits) (auto dest: integer_between_Inr)
qed

lemma exits_back: "exits_ok x \<Longrightarrow> validateExits (js_of_exits x) = Inr x"
proof -
  assume ok: "exits_ok x"
  define as where "as = ex_targetAllocationsPercent x"
  obtain mode stop where m: "ex_targetAllocationMode x = Some mode" "ex_stopLossMode x = Some stop"
    using ok by (auto simp: exits_ok_def)
  have as: "list_all (amount_ok (Some 100)) as" "(\<Sum>d\<leftarrow>as. dec_val d) = 100" "1 \<le> length as" "length as \<le> 20"
    using ok by (simp_all add: exits_ok_def as_def)
  have items: "mapM (\<lambda>x. validateDecimalInput x (Some ''100'')) (map JStr as) = Inr as"
    using as(1) by (auto simp: mapM_Inr_iff list_all2_conv_all_nth list_all_length)
  have "(\<Sum>d\<leftarrow>as. dec_val d) < dec_limit" using as(2) by (simp add: dec_limit_def)
  then obtain s where s: "sumDecimals as = Inr s" "decimal_pattern s"
    using sum_total [of as] as(1) by (auto simp: list_all_iff amount_ok_def)
  have c: "compareDecimal s ''100'' = Inr 0"
    using compare_law [OF s(2) limit_decimals(3)] sum_exact [OF s(1)] as(2) limit_decimals(4) by (simp add: rat_cmp_def)
  have be: "integer_between (js_int n) ''exits.moveStopToBreakEvenAfterTarget'' 1 (int (length as)) = Inr n" "js_int n \<noteq> JNull"
    if "ex_moveStopToBreakEvenAfterTarget x = Some n" for n
  proof -
    have "1 \<le> n" "n \<le> int (length as)" using ok that by (simp_all add: exits_ok_def as_def)
    then show "integer_between (js_int n) ''exits.moveStopToBreakEvenAfterTarget'' 1 (int (length as)) = Inr n" using as(4) by simp
  qed (simp add: js_int_def)
  have tr: "amount_ok (Some 20) d" if "ex_trailingStopPercent x = Some d" for d
    using ok that by (simp add: exits_ok_def)
  define b where "b = (case ex_moveStopToBreakEvenAfterTarget x of None \<Rightarrow> JNull | Some n \<Rightarrow> js_int n)"
  define d where "d = (case ex_trailingStopPercent x of None \<Rightarrow> JNull | Some d \<Rightarrow> JStr d)"
  have js: "js_of_exits x = JObj [(''targetAllocationMode'', JStr (allocation_mode_text mode)), (''targetAllocationsPercent'', JArr (map JStr as)),
      (''stopLossMode'', JStr (stop_mode_text stop)), (''moveStopToBreakEvenAfterTarget'', b), (''trailingStopPercent'', d),
      (''closeRemainderAtLastTarget'', JBool True)]"
    by (simp add: js_of_exits_def optional_field_def m b_def d_def as_def)
  have x: "\<lparr>ex_targetAllocationMode = Some mode, ex_targetAllocationsPercent = as, ex_stopLossMode = Some stop,
      ex_moveStopToBreakEvenAfterTarget = ex_moveStopToBreakEvenAfterTarget x, ex_trailingStopPercent = ex_trailingStopPercent x\<rparr> = x"
    using m by (simp add: as_def)
  have len: "\<not> (length (map JStr as) < 1 \<or> length (map JStr as) > 20)" using as(3,4) by auto
  have bs: "(if b = JNull then Inr None else rbind (integer_between b ''exits.moveStopToBreakEvenAfterTarget'' 1 (int (length as))) (\<lambda>n. Inr (Some n))) =
      Inr (ex_moveStopToBreakEvenAfterTarget x)"
    using be by (cases "ex_moveStopToBreakEvenAfterTarget x") (simp_all add: b_def)
  have ds: "(if d = JNull then Inr None else rbind (validateDecimalInput d (Some ''20'')) (\<lambda>d. Inr (Some d))) = Inr (ex_trailingStopPercent x)"
    using tr by (cases "ex_trailingStopPercent x") (simp_all add: d_def)
  define p where "p = [(''targetAllocationMode'', JStr (allocation_mode_text mode)), (''targetAllocationsPercent'', JArr (map JStr as)),
      (''stopLossMode'', JStr (stop_mode_text stop)), (''moveStopToBreakEvenAfterTarget'', b), (''trailingStopPercent'', d),
      (''closeRemainderAtLastTarget'', JBool True)]"
  have gets: "js_get p ''targetAllocationMode'' = JStr (allocation_mode_text mode)" "js_get p ''targetAllocationsPercent'' = JArr (map JStr as)"
      "js_get p ''stopLossMode'' = JStr (stop_mode_text stop)" "js_get p ''moveStopToBreakEvenAfterTarget'' = b"
      "js_get p ''trailingStopPercent'' = d" "js_get p ''closeRemainderAtLastTarget'' = JBool True"
    by (simp_all add: p_def)
  have keys: "exactKeys p ''exits'' [''targetAllocationMode'', ''targetAllocationsPercent'', ''stopLossMode'',
              ''moveStopToBreakEvenAfterTarget'', ''trailingStopPercent'', ''closeRemainderAtLastTarget''] = Inr ()"
    by (simp add: exactKeys_def p_def)
  show ?thesis
    unfolding js p_def [symmetric] validateExits_def strategy_object_def js.case rbind.simps keys gets js_or_JStr texts_back option.case
      if_not_P [OF len] items s(1) c bs ds x by simp
qed

lemma safety_Inr:
  assumes "validateSafety v version = Inr f"
  shows "safety_ok version f"
proof -
  obtain props mode limit loss slippage ttl where h:
    "(if version < 3 then rbind (integer_between (js_get props ''maxConcurrentPositions'') ''safety.maxConcurrentPositions'' 1 20) (\<lambda>n. Inr (Some n))
      else Inr None) = Inr limit"
    "validateDecimalInput (js_get props ''maxDailyLoss'') (if mode = Equity_percent then Some ''100'' else None) = Inr loss"
    "validateDecimalInput (js_get props ''maxSlippagePercent'') (Some ''5'') = Inr slippage"
    "integer_between (js_get props ''entryOrderTtlSeconds'') ''safety.entryOrderTtlSeconds'' 10 86400 = Inr ttl"
    "f = \<lparr>sf_maxConcurrentPositions = limit, sf_maxDailyLossMode = Some mode, sf_maxDailyLoss = loss,
       sf_maxSlippagePercent = slippage, sf_entryOrderTtlSeconds = ttl\<rparr>"
    using assms unfolding validateSafety_def rbind_Inr_iff case_Inr throw_if_Inr sum.inject by metis
  have "case limit of None \<Rightarrow> 3 \<le> version | Some n \<Rightarrow> version < 3 \<and> 1 \<le> n \<and> n \<le> 20"
    using h(1) by (auto simp: rbind_Inr_iff split: if_splits dest: integer_between_Inr)
  moreover have "amount_ok (if mode = Equity_percent then Some 100 else None) loss"
    using h(2) amount_Inr(2,5) by (simp split: if_splits)
  ultimately show ?thesis
    using amount_Inr(4) [OF h(3)] integer_between_Inr [OF h(4)] by (simp add: h(5) safety_ok_def)
qed

lemma safety_back: "safety_ok version f \<Longrightarrow> validateSafety (js_of_safety f) version = Inr f"
proof -
  assume ok: "safety_ok version f"
  then obtain mode where m: "sf_maxDailyLossMode f = Some mode" "amount_ok (if mode = Equity_percent then Some 100 else None) (sf_maxDailyLoss f)"
    by (auto simp: safety_ok_def)
  have loss: "validateDecimalInput (JStr (sf_maxDailyLoss f)) (if mode = Equity_percent then Some ''100'' else None) = Inr (sf_maxDailyLoss f)"
    using m(2) by (simp split: if_splits)
  show ?thesis
    using ok m(1) loss
    by (cases "sf_maxConcurrentPositions f")
      (simp_all add: validateSafety_def js_of_safety_def strategy_object_def exactKeys_def optional_field_def safety_ok_def split del: if_split)
qed

lemma string_items_back [simp]: "string_items (JArr (map JStr xs)) = Some xs"
  by (simp add: string_items_def list_all_iff o_def)

lemma string_items_texts: "string_items (JArr (map (JStr \<circ> f) xs)) = Some (map f xs)"
  by (metis list.map_comp string_items_back)

lemma upper_fixed: "is_upper c \<or> is_digit c \<Longrightarrow> upper_char c = [c]"
  by (auto simp: upper_char_def is_upper_def is_digit_def Let_def)

lemma lower_fixed: "is_lower c \<or> is_digit c \<or> c = CHR ''_'' \<or> c = CHR ''-'' \<Longrightarrow> lower_char c = c"
  by (auto simp: lower_char_def is_lower_def is_digit_def Let_def)

lemma printable_not_space: "is_upper c \<or> is_lower c \<or> is_digit c \<or> c = CHR ''_'' \<or> c = CHR ''-'' \<Longrightarrow> \<not> is_space c"
  by (auto simp: is_upper_def is_lower_def is_digit_def is_space_def Let_def)

lemma trim_printable: "list_all (\<lambda>c. is_upper c \<or> is_lower c \<or> is_digit c \<or> c = CHR ''_'' \<or> c = CHR ''-'') s \<Longrightarrow> js_trim s = s"
  by (rule js_trim_id) (auto simp: list_all_iff intro!: printable_not_space)

lemma symbol_fixed: "list_all (\<lambda>c. is_upper c \<or> is_digit c) s \<Longrightarrow> toUpperCase (js_trim s) = s"
proof -
  assume s: "list_all (\<lambda>c. is_upper c \<or> is_digit c) s"
  then have "js_trim s = s" by (intro trim_printable) (auto simp: list_all_iff)
  moreover have "concat (map upper_char s) = s" using s by (induction s) (simp_all add: upper_fixed)
  ultimately show ?thesis by (simp add: toUpperCase_def)
qed

lemma schema_fixed: "signal_schema_id_pattern s \<Longrightarrow> signalSchemaIdentifier (JStr s) label = Inr s"
proof -
  assume s: "signal_schema_id_pattern s"
  then have a: "list_all (\<lambda>c. is_lower c \<or> is_digit c \<or> c = CHR ''_'' \<or> c = CHR ''-'') s"
    by (cases s) (auto simp: signal_schema_id_pattern_def)
  then have "js_trim s = s" "map lower_char s = s"
    by (auto intro!: trim_printable map_idI lower_fixed simp: list_all_iff)
  then show ?thesis using s by (simp add: signalSchemaIdentifier_def toLowerCase_def)
qed

lemma schemas_fixed: "list_all signal_schema_id_pattern ss \<Longrightarrow> mapM (\<lambda>s. signalSchemaIdentifier (JStr s) label) ss = Inr ss"
  by (auto simp: mapM_Inr_iff list_all2_conv_all_nth list_all_length schema_fixed)

lemma uniqueStrings_back:
  "distinct ss \<Longrightarrow> (\<And>s. s \<in> set ss \<Longrightarrow> list_all (\<lambda>c. is_upper c \<or> is_digit c) s) \<Longrightarrow> string_items v = Some ss \<Longrightarrow> uniqueStrings v name = Inr ss"
  by (simp add: uniqueStrings_def symbol_fixed cong: map_cong)

lemma side_text_upper: "list_all (\<lambda>c. is_upper c \<or> is_digit c) (side_text d)"
  by (cases d) (simp_all add: is_upper_def)

lemma side_text_inj: "inj side_text"
proof (rule injI)
  show "side_text a = side_text b \<Longrightarrow> a = b" for a b by (cases a; cases b) simp_all
qed

lemma schema_version_back: "v \<in> {1, 2, 3, 4} \<Longrightarrow> schema_version_of (js_int v) = Some v"
  by (auto simp: schema_version_of_def js_int_def)

lemma access_Inr:
  assumes "validateAccess props = Inr a"
  shows "sa_schemaVersion a \<in> {1, 2, 3, 4}" "sa_allowedSignalSchemas a \<noteq> []" "distinct (sa_allowedSignalSchemas a)"
    "list_all signal_schema_id_pattern (sa_allowedSignalSchemas a)" "distinct (sa_allowedSymbols a)" "list_all symbol_pattern (sa_allowedSymbols a)"
    "sa_allowedSides a \<noteq> []" "distinct (sa_allowedSides a)"
proof -
  obtain version items schemas symbols sides where h: "schema_version_of (js_get props ''schemaVersion'') = Some version"
    "mapM (\<lambda>s. signalSchemaIdentifier (JStr s) ''Signal schema identifier'') items = Inr schemas"
    "\<not> length schemas < 1" "\<not> \<not> distinct schemas" "uniqueStrings (js_get props ''allowedSymbols'') ''allowedSymbols'' = Inr symbols"
    "\<not> \<not> list_all symbol_pattern symbols" "uniqueStrings (js_get props ''allowedSides'') ''allowedSides'' = Inr sides"
    "\<not> (length sides < 1 \<or> \<not> list_all (\<lambda>s. s = ''LONG'' \<or> s = ''SHORT'') sides)"
    "a = \<lparr>sa_schemaVersion = version, sa_allowedSignalSchemas = schemas, sa_allowedSymbols = symbols, sa_allowedSides = map side_of sides\<rparr>"
    using assms unfolding validateAccess_def rbind_Inr_iff case_Inr throw_if_Inr sum.inject by blast
  show "sa_schemaVersion a \<in> {1, 2, 3, 4}" using h(1) by (auto simp: h(9) schema_version_of_def split: if_splits)
  show "sa_allowedSignalSchemas a \<noteq> []" "distinct (sa_allowedSignalSchemas a)" "list_all symbol_pattern (sa_allowedSymbols a)" "sa_allowedSides a \<noteq> []"
    using h(3,4,6,8) by (auto simp: h(9))
  show "list_all signal_schema_id_pattern (sa_allowedSignalSchemas a)"
    using h(2) by (auto simp: h(9) mapM_Inr_iff list_all2_conv_all_nth list_all_length signalSchemaIdentifier_def Let_def split: if_splits)
  have u: "distinct symbols" "distinct sides" using h(5,7) by (auto simp: uniqueStrings_def Let_def split: option.splits if_splits)
  have "inj_on side_of (set sides)" using h(8) by (auto simp: inj_on_def side_of_def list_all_iff)
  then show "distinct (sa_allowedSides a)" using u(2) by (simp add: h(9) distinct_map)
  show "distinct (sa_allowedSymbols a)" using u(1) by (simp add: h(9))
qed

lemma side_texts: "\<not> (length (map side_text ds) < 1 \<or> \<not> list_all (\<lambda>s. s = ''LONG'' \<or> s = ''SHORT'') (map side_text ds)) \<longleftrightarrow> ds \<noteq> []"
proof -
  have "side_text d = ''LONG'' \<or> side_text d = ''SHORT''" for d by (cases d) simp_all
  then show ?thesis by (cases ds) (auto simp: list_all_iff)
qed

lemma access_back:
  assumes "strategy_ok c" and
    "js_get p ''schemaVersion'' = js_int (st_schemaVersion c)" "js_get p ''allowedSignalSchemas'' = JArr (map JStr (st_allowedSignalSchemas c))"
    "js_get p ''allowedSymbols'' = JArr (map JStr (st_allowedSymbols c))" "js_get p ''allowedSides'' = JArr (map (JStr \<circ> side_text) (st_allowedSides c))"
  shows "validateAccess p = Inr \<lparr>sa_schemaVersion = st_schemaVersion c, sa_allowedSignalSchemas = st_allowedSignalSchemas c,
    sa_allowedSymbols = st_allowedSymbols c, sa_allowedSides = st_allowedSides c\<rparr>"
proof -
  note c = assms(1) [unfolded strategy_ok_def]
  have symbols: "uniqueStrings (JArr (map JStr (st_allowedSymbols c))) ''allowedSymbols'' = Inr (st_allowedSymbols c)"
    by (rule uniqueStrings_back) (use c in \<open>auto simp: list_all_iff symbol_pattern_def\<close>)
  have sides: "uniqueStrings (JArr (map (JStr \<circ> side_text) (st_allowedSides c))) ''allowedSides'' = Inr (map side_text (st_allowedSides c))"
    by (rule uniqueStrings_back) (use c side_text_upper in \<open>auto simp: distinct_map inj_on_subset [OF side_text_inj] string_items_texts\<close>)
  have sides_back: "map side_of (map side_text (st_allowedSides c)) = st_allowedSides c" by (simp add: o_def)
  have checks: "\<not> length (st_allowedSignalSchemas c) < 1" "\<not> \<not> distinct (st_allowedSignalSchemas c)" "\<not> \<not> list_all symbol_pattern (st_allowedSymbols c)"
    "\<not> (length (map side_text (st_allowedSides c)) < 1 \<or> \<not> list_all (\<lambda>s. s = ''LONG'' \<or> s = ''SHORT'') (map side_text (st_allowedSides c)))"
    "list_all signal_schema_id_pattern (st_allowedSignalSchemas c)" "st_schemaVersion c \<in> {1, 2, 3, 4}"
    using c unfolding side_texts by simp_all
  show ?thesis
    unfolding validateAccess_def assms(2-) schema_version_back [OF checks(6)] option.case string_items_back schemas_fixed [OF checks(5)] rbind.simps
      symbols sides throw_if_def if_not_P [OF checks(1)] if_not_P [OF checks(2)] if_not_P [OF checks(3)] if_not_P [OF checks(4)] sides_back ..
qed

lemma strategy_Inr:
  assumes "validateStrategyConfiguration v = Inr c"
  shows "strategy_ok c"
proof -
  obtain props a e z x f where h: "validateAccess props = Inr a" "validateEntry (js_get props ''entry'') = Inr e"
    "validateSizing (js_get props ''sizing'') (sa_schemaVersion a) = Inr z" "validateExits (js_get props ''exits'') = Inr x"
    "validateSafety (js_get props ''safety'') (sa_schemaVersion a) = Inr f"
    "c = \<lparr>st_schemaVersion = sa_schemaVersion a, st_allowedSignalSchemas = sa_allowedSignalSchemas a, st_allowedSymbols = sa_allowedSymbols a,
       st_allowedSides = sa_allowedSides a, st_entry = e, st_sizing = z, st_exits = x, st_safety = f\<rparr>"
    using assms unfolding validateStrategyConfiguration_def rbind_Inr_iff sum.inject by blast
  show ?thesis
    unfolding h(6) strategy_ok_def
    using access_Inr [OF h(1)] entry_Inr [OF h(2)] sizing_Inr [OF h(3)] exits_Inr [OF h(4)] safety_Inr [OF h(5)] by simp
qed

lemma strategy_back:
  assumes ok: "strategy_ok c"
  shows "validateStrategyConfiguration (js_of_strategy c) = Inr c"
proof -
  define p where "p = [(''schemaVersion'', js_int (st_schemaVersion c)),
     (''allowedSignalSchemas'', JArr (map JStr (st_allowedSignalSchemas c))), (''allowedSymbols'', JArr (map JStr (st_allowedSymbols c))),
     (''allowedSides'', JArr (map (JStr \<circ> side_text) (st_allowedSides c))), (''entry'', js_of_entry (st_entry c)),
     (''sizing'', js_of_sizing (st_sizing c)), (''exits'', js_of_exits (st_exits c)), (''safety'', js_of_safety (st_safety c))]"
  have gets: "js_get p ''entry'' = js_of_entry (st_entry c)" "js_get p ''sizing'' = js_of_sizing (st_sizing c)"
      "js_get p ''exits'' = js_of_exits (st_exits c)" "js_get p ''safety'' = js_of_safety (st_safety c)"
    by (simp_all add: p_def)
  have keys: "exactKeys p ''Strategy configuration'' [''schemaVersion'', ''allowedSignalSchemas'', ''allowedSymbols'', ''allowedSides'',
              ''entry'', ''sizing'', ''exits'', ''safety''] = Inr ()"
    by (simp add: exactKeys_def p_def)
  have access: "validateAccess p = Inr \<lparr>sa_schemaVersion = st_schemaVersion c, sa_allowedSignalSchemas = st_allowedSignalSchemas c,
    sa_allowedSymbols = st_allowedSymbols c, sa_allowedSides = st_allowedSides c\<rparr>"
    by (rule access_back [OF ok]) (simp_all add: p_def)
  have parts: "validateEntry (js_of_entry (st_entry c)) = Inr (st_entry c)"
      "validateSizing (js_of_sizing (st_sizing c)) (st_schemaVersion c) = Inr (st_sizing c)" "validateExits (js_of_exits (st_exits c)) = Inr (st_exits c)"
      "validateSafety (js_of_safety (st_safety c)) (st_schemaVersion c) = Inr (st_safety c)"
    using ok entry_back sizing_back exits_back safety_back by (simp_all add: strategy_ok_def)
  show ?thesis
    unfolding js_of_strategy_def p_def [symmetric] validateStrategyConfiguration_def strategy_object_def js.case rbind.simps keys access gets
      strategy_access.simps parts by simp
qed

text \<open>
  C38: an accepted strategy configuration satisfies the invariant the planner relies on (bounded percentages
  and leverage, at least one schema and side without duplicates, allocations that total exactly one
  hundred, a break-even target among the targets), and validating its serialised form gives it
  back unchanged.
\<close>

theorem accepted_strategy_is_normal_form:
  assumes "validateStrategyConfiguration v = Inr c"
  shows "strategy_ok c \<and> validateStrategyConfiguration (js_of_strategy c) = Inr c"
  using strategy_Inr [OF assms] strategy_back by blast

definition example_strategy :: "int \<Rightarrow> (string \<times> js) list \<Rightarrow> js" where
  "example_strategy version extra = JObj [(''schemaVersion'', js_int version), (''allowedSignalSchemas'', JArr [JStr '' Alpha_1 '']),
     (''allowedSymbols'', JArr [JStr ''btcusdt'', JStr ''ETHUSDT'']), (''allowedSides'', JArr [JStr ''long'', JStr ''SHORT'']),
     (''entry'', JObj [(''orderType'', JStr ''limit''), (''rangePrice'', JStr ''midpoint''), (''postOnly'', JBool True), (''timeoutSeconds'', js_int 5)]),
     (''sizing'', JObj [(''riskPerTradePercent'', JStr ''1.50''), (''maxAdaptiveRiskPercent'', JStr ''3''), (''maxPositionNotional'', JStr ''500''),
        (''defaultLeverage'', js_int 5), (''maxLeverage'', js_int 10)]),
     (''exits'', JObj [(''targetAllocationsPercent'', JArr [JStr ''40'', JStr ''60.0'']), (''moveStopToBreakEvenAfterTarget'', js_int 1),
        (''trailingStopPercent'', JNull), (''closeRemainderAtLastTarget'', JBool True)]),
     (''safety'', JObj (extra @ [(''maxDailyLoss'', JStr ''100''), (''maxSlippagePercent'', JStr ''0.5''), (''entryOrderTtlSeconds'', js_int 60),
        (''requireProtectiveStop'', JBool True)]))]"

lemma accepted_strategy_is_normal_form_witness:
  "\<exists>c. validateStrategyConfiguration (example_strategy 4 []) = Inr c \<and> st_allowedSymbols c = [''BTCUSDT'', ''ETHUSDT''] \<and>
     sz_riskPerTradePercent (st_sizing c) = ''1.5'' \<and> strategy_ok c \<and> validateStrategyConfiguration (js_of_strategy c) = Inr c"
proof -
  define c where "c = projr (validateStrategyConfiguration (example_strategy 4 []))"
  have v: "validateStrategyConfiguration (example_strategy 4 []) = Inr (projr (validateStrategyConfiguration (example_strategy 4 [])))"
    "st_allowedSymbols (projr (validateStrategyConfiguration (example_strategy 4 []))) = [''BTCUSDT'', ''ETHUSDT'']"
    "sz_riskPerTradePercent (st_sizing (projr (validateStrategyConfiguration (example_strategy 4 [])))) = ''1.5''"
    by code_simp+
  show ?thesis using accepted_strategy_is_normal_form [OF v(1)] v by blast
qed


text \<open>The default configuration is accepted and already in normal form.\<close>

lemma default_strategy_accepted:
  "validateStrategyConfiguration (js_of_strategy default_strategy_configuration) = Inr default_strategy_configuration"
  by code_simp

section \<open>New versions of legacy configurations\<close>

text \<open>
  A configuration normalised for a new version keeps the limit on concurrent positions that schema versions
  1 and 2 carry, and version 4 refuses this field: the persisted form of such a configuration is refused.
\<close>

lemma new_version_current:
  assumes "strategyConfigurationForNewVersion v = Inr c" "3 \<le> st_schemaVersion (projr (validateStrategyConfiguration v))"
  shows "validateStrategyConfiguration (js_of_strategy c) = Inr c"
proof -
  obtain c0 where c0: "validateStrategyConfiguration v = Inr c0" "c = c0\<lparr>st_schemaVersion := 4, st_sizing := (st_sizing c0)\<lparr>sz_defaultLeverage :=
      (case sz_defaultLeverage (st_sizing c0) of Some d \<Rightarrow> Some d | None \<Rightarrow> Some (sz_maxLeverage (st_sizing c0)))\<rparr>\<rparr>"
    using assms(1) by (auto simp: strategyConfigurationForNewVersion_def rbind_Inr_iff)
  have "strategy_ok c"
    using strategy_Inr [OF c0(1)] assms(2) c0 unfolding strategy_ok_def sizing_ok_def safety_ok_def by (auto split: option.splits)
  then show ?thesis by (rule strategy_back)
qed

lemma new_version_of_legacy_refused:
  assumes "strategyConfigurationForNewVersion v = Inr c" "st_schemaVersion (projr (validateStrategyConfiguration v)) < 3"
  shows "\<exists>e. validateStrategyConfiguration (js_of_strategy c) = Inl e"
proof (cases "validateStrategyConfiguration (js_of_strategy c)")
  case (Inr c')
  obtain c0 where c0: "validateStrategyConfiguration v = Inr c0" "st_safety c = st_safety c0" "st_schemaVersion c = 4"
    using assms(1) by (auto simp: strategyConfigurationForNewVersion_def rbind_Inr_iff)
  then obtain n where n: "sf_maxConcurrentPositions (st_safety c) = Some n"
    using strategy_Inr [OF c0(1)] assms(2) by (auto simp: strategy_ok_def safety_ok_def split: option.splits)
  have "\<exists>e. validateSafety (js_of_safety (st_safety c)) 4 = Inl e"
    by (simp add: validateSafety_def js_of_safety_def strategy_object_def exactKeys_def optional_field_def n throw_if_def)
  moreover have "validateAccess p = Inr a \<Longrightarrow> js_get p ''schemaVersion'' = js_int 4 \<Longrightarrow> sa_schemaVersion a = 4" for p a
    unfolding validateAccess_def rbind_Inr_iff case_Inr throw_if_Inr sum.inject by (auto simp: schema_version_of_def js_int_def)
  ultimately show ?thesis
    using Inr unfolding validateStrategyConfiguration_def rbind_Inr_iff js_of_strategy_def strategy_object_def js.case sum.inject
    by (auto simp: c0(3))
qed simp

end
