(* ===== verification/Trading_Take_Profit.thy ===== *)
theory Trading_Take_Profit
  imports Trading_Risk JS_Conversions
begin

text \<open>
  Take-profit budgets (\<^verbatim>\<open>src/trading_take_profit.ts\<close>): how the targets of a plan are checked, what
  their orders already cover, how the quantity that is still owned is spread over the targets that are
  not consumed, and which targets count as completed. Arrays are lists; an index outside of one is the
  missing value the source tests for.
\<close>

section \<open>The code\<close>

definition at_index :: "'a list \<Rightarrow> nat \<Rightarrow> 'a option" where
  "at_index xs i = (if i < length xs then Some (xs ! i) else None)"

record take_profit_order_row =
  tr_client_order_id :: string
  tr_exchange_order_id :: "string option"
  tr_provider_symbol :: "string option"
  tr_status :: string
  tr_price :: "string option"
  tr_quantity :: string
  tr_filled_quantity :: string
  tr_targetIndex :: "js"
  tr_created_at :: int

definition check_target :: "nat \<Rightarrow> planned_order \<Rightarrow> planned_order result" where
  "check_target index order = (case po_price order of
       Some price \<Rightarrow>
         if po_targetIndex order \<noteq> Some (int index + 1) then Inl (Error ''Take-profit plan has no valid target price or ordered index.'')
         else rbind (decimal_positive price) (\<lambda>_. Inr order)
     | None \<Rightarrow> Inl (Error ''Take-profit plan has no valid target price or ordered index.''))"

definition requireTakeProfitTargets :: "trading_plan \<Rightarrow> planned_order list result" where
  "requireTakeProfitTargets plan =
     (let targets = filter (\<lambda>order. po_role order = Take_profit) (tp_orders plan) in
      mapM (\<lambda>(index, order). check_target index order) (zip [0..<length targets] targets))"

definition requireTakeProfitAllocation :: "string list \<Rightarrow> string list \<Rightarrow> nat \<Rightarrow> (string \<times> string) result" where
  "requireTakeProfitAllocation totals remaining index = (case (at_index totals index, at_index remaining index) of
       (Some desired, Some outstanding) \<Rightarrow> rbind (decimal desired) (\<lambda>_. rbind (decimal outstanding) (\<lambda>_. Inr (desired, outstanding)))
     | _ \<Rightarrow> Inl (TakeProfitAllocationError ''Take-profit allocation has no quantity for a planned target.''))"

text \<open>The stored request is its data; a target index that is no positive integer reads as none.\<close>

definition targetIndexFromOrderRow :: "take_profit_order_row \<Rightarrow> int option" where
  "targetIndexFromOrderRow row = (case safe_integer_of (tr_targetIndex row) of Some n \<Rightarrow> if n > 0 then Some n else None | None \<Rightarrow> None)"

record target_coverage =
  tc_active :: "take_profit_order_row list"
  tc_filled :: string
  tc_remaining :: string
  tc_covered :: string
  tc_pricesMatch :: bool

fun every_price :: "string \<Rightarrow> take_profit_order_row list \<Rightarrow> bool result" where
  "every_price price [] = Inr True"
| "every_price price (row # rows) = (case tr_price row of
       None \<Rightarrow> Inr False
     | Some p \<Rightarrow> rbind (compareDecimal p price) (\<lambda>c. if c = 0 then every_price price rows else Inr False))"

definition targetOrderCoverage :: "take_profit_order_row list \<Rightarrow> string \<Rightarrow> target_coverage result" where
  "targetOrderCoverage rows price =
     (let active = filter (\<lambda>row. tr_status row = ''open'' \<or> tr_status row = ''partially_filled'') rows in
      rbind (sumDecimals (map tr_filled_quantity rows)) (\<lambda>filled.
      rbind (rbind (mapM (\<lambda>row. subtractDecimal (tr_quantity row) (tr_filled_quantity row)) active) sumDecimals) (\<lambda>remaining.
      rbind (addDecimal filled remaining) (\<lambda>covered.
      rbind (every_price price active) (\<lambda>pricesMatch.
        Inr \<lparr>tc_active = active, tc_filled = filled, tc_remaining = remaining, tc_covered = covered, tc_pricesMatch = pricesMatch\<rparr>)))))"

definition targetQuantity :: "string list \<Rightarrow> nat \<Rightarrow> string result" where
  "targetQuantity values index = (case at_index values index of
     Some v \<Rightarrow> Inr v | None \<Rightarrow> Inl (Error ''TP allocation has a missing or invalid target quantity.''))"

definition assertTargetQuantities :: "string list list \<Rightarrow> unit result" where
  "assertTargetQuantities collections = rbind (mapM (mapM decimal) collections) (\<lambda>_. Inr ())"

definition targetCompletion :: "bool list \<Rightarrow> nat \<Rightarrow> bool result" where
  "targetCompletion values index = (case at_index values index of
     Some v \<Rightarrow> Inr v | None \<Rightarrow> Inl (Error ''TP allocation has missing or invalid completion evidence.''))"

text \<open>The loop runs down from the last index; the first argument is the number of indices left.\<close>

fun remainder_loop :: "nat \<Rightarrow> string list \<Rightarrow> string \<Rightarrow> string \<Rightarrow> string \<Rightarrow> string list \<Rightarrow> string \<Rightarrow> string list result" where
  "remainder_loop 0 weights available weight step remaining remainder = Inr remaining"
| "remainder_loop (Suc index) weights available weight step remaining remainder =
     (if remainder = ''0'' then Inr remaining
      else if at_index weights index = Some ''0'' then remainder_loop index weights available weight step remaining remainder
      else
        rbind (compareDecimal available weight) (\<lambda>c.
        rbind (if c \<le> 0
               then rbind (targetQuantity weights index) (\<lambda>w. rbind (targetQuantity remaining index) (\<lambda>r.
                 rbind (subtractDecimal w r) (\<lambda>d. quantizeDecimalDown d step)))
               else Inr remainder) (\<lambda>room.
        rbind (minDecimal [room, remainder]) (\<lambda>extra.
        rbind (rbind (targetQuantity remaining index) (\<lambda>r. addDecimal r extra)) (\<lambda>raised.
        rbind (subtractDecimal remainder extra) (\<lambda>rest.
          remainder_loop index weights available weight step (remaining[index := raised]) rest))))))"

definition allocateRoundingRemainder :: "string list \<Rightarrow> string list \<Rightarrow> string \<Rightarrow> string \<Rightarrow> string \<Rightarrow> string list result" where
  "allocateRoundingRemainder weights remaining available weight step =
     rbind (rbind (sumDecimals remaining) (subtractDecimal available)) (\<lambda>remainder.
       remainder_loop (length weights) weights available weight step remaining remainder)"

record target_totals =
  tt_totals :: "string list"
  tt_remaining :: "string list"
  tt_unallocatedQuantity :: string

definition target_weight :: "string list \<Rightarrow> nat \<times> string \<Rightarrow> string result" where
  "target_weight filled = (\<lambda>(index, v).
     rbind (rbind (targetQuantity filled index) decimal) (\<lambda>executed.
     rbind (decimal v) (\<lambda>total_value.
     rbind (compareDecimal total_value executed) (\<lambda>c.
       if c > 0 then subtractDecimal total_value executed else Inr ''0''))))"

definition resizeTargetTotals :: "string list \<Rightarrow> string list \<Rightarrow> string \<Rightarrow> string \<Rightarrow> target_totals result" where
  "resizeTargetTotals previous filled netQuantity step =
     (if previous = [] \<or> length previous \<noteq> length filled then Inl (Error ''Invalid TP allocation dimensions.'')
      else
        rbind (assertTargetQuantities [previous, filled]) (\<lambda>_.
        rbind (mapM (target_weight filled) (zip [0..<length previous] previous)) (\<lambda>weights.
        rbind (sumDecimals weights) (\<lambda>weight.
        rbind (decimal netQuantity) (\<lambda>net. rbind (decimal_positive step) (\<lambda>normalStep.
        rbind (quantizeDecimalDown net normalStep) (\<lambda>available.
        if weight = ''0'' \<and> available \<noteq> ''0'' then Inl (Error ''TP_TARGETS_EXHAUSTED_WITH_EXPOSURE'')
        else
          rbind (mapM (\<lambda>v. if weight = ''0'' then Inr ''0''
                   else rbind (multiplyDecimal available v) (\<lambda>p. rbind (divideDecimal p weight 18) (\<lambda>share. quantizeDecimalDown share step))) weights) (\<lambda>shares.
          rbind (allocateRoundingRemainder weights shares available weight step) (\<lambda>remaining.
          rbind (mapM (\<lambda>(index, v). rbind (targetQuantity filled index) (addDecimal v)) (zip [0..<length remaining] remaining)) (\<lambda>totals.
          rbind (rbind (sumDecimals remaining) (subtractDecimal netQuantity)) (\<lambda>unallocated.
            Inr \<lparr>tt_totals = totals, tt_remaining = remaining, tt_unallocatedQuantity = unallocated\<rparr>)))))))))))"

definition target_completed :: "string list \<Rightarrow> bool list \<Rightarrow> string list \<Rightarrow> nat \<times> string \<Rightarrow> bool result" where
  "target_completed previousFilled completed filled = (\<lambda>(index, total_value).
     rbind (targetQuantity previousFilled index) (\<lambda>before.
     rbind (targetQuantity filled index) (\<lambda>current.
     rbind (compareDecimal current before) (\<lambda>c.
     if c < 0 then Inl (Error ''TP fill evidence regressed.'')
     else rbind (targetCompletion completed index) (\<lambda>done.
       if done then Inr True
       else rbind (compareDecimal total_value before) (\<lambda>open_budget.
         if \<not> open_budget > 0 then Inr False
         else rbind (compareDecimal current before) (\<lambda>progress.
           if \<not> progress > 0 then Inr False
           else rbind (compareDecimal current total_value) (\<lambda>reached. Inr (reached \<ge> 0)))))))))"

definition completedTargetEvidence :: "string list \<Rightarrow> string list \<Rightarrow> bool list \<Rightarrow> string list \<Rightarrow> bool list result" where
  "completedTargetEvidence totals previousFilled completed filled =
     (if length previousFilled \<noteq> length totals \<or> length completed \<noteq> length totals \<or> length filled \<noteq> length totals
      then Inl (Error ''Invalid target completion dimensions.'')
      else rbind (assertTargetQuantities [totals, previousFilled, filled]) (\<lambda>_.
        mapM (target_completed previousFilled completed filled) (zip [0..<length totals] totals)))"

definition add_filled :: "nat \<Rightarrow> string list \<Rightarrow> take_profit_order_row \<Rightarrow> string list result" where
  "add_filled targetCount filled order = (case targetIndexFromOrderRow order of
       None \<Rightarrow> Inl (Error ''Take-profit order has no valid target index.'')
     | Some index \<Rightarrow>
         if index > int targetCount then Inl (Error ''Take-profit order has no valid target index.'')
         else rbind (rbind (targetQuantity filled (nat (index - 1))) (\<lambda>q. addDecimal q (tr_filled_quantity order))) (\<lambda>q.
           Inr (filled[nat (index - 1) := q])))"

definition filledTargetQuantities :: "take_profit_order_row list \<Rightarrow> nat \<Rightarrow> string list result" where
  "filledTargetQuantities rows targetCount = foldM (add_filled targetCount) (replicate targetCount ''0'') rows"


section \<open>Spreading the rounding remainder\<close>

definition on_step :: "rat \<Rightarrow> rat \<Rightarrow> bool" where
  "on_step step q \<longleftrightarrow> (\<exists>k :: int. q = of_int k * step)"

lemma on_step_closed: "on_step s 0" "on_step s x \<Longrightarrow> on_step s y \<Longrightarrow> on_step s (x + y)" "on_step s x \<Longrightarrow> on_step s y \<Longrightarrow> on_step s (x - y)"
proof -
  show "on_step s 0" unfolding on_step_def by (rule exI [of _ 0]) simp
  assume "on_step s x" "on_step s y"
  then obtain k l where "x = of_int k * s" "y = of_int l * s" by (auto simp: on_step_def)
  then have "x + y = of_int (k + l) * s" "x - y = of_int (k - l) * s" by (simp_all add: algebra_simps)
  then show "on_step s (x + y)" "on_step s (x - y)" unfolding on_step_def by blast+
qed

lemma on_step_sum: "list_all (\<lambda>x. on_step s (f x)) xs \<Longrightarrow> on_step s (\<Sum>x\<leftarrow>xs. f x)"
  by (induction xs) (auto simp: on_step_closed)

lemma sum_list_update_rat: "i < length xs \<Longrightarrow> (\<Sum>x\<leftarrow>xs[i := y]. f x) = (\<Sum>x\<leftarrow>xs. f x) - f (xs ! i) + (f y :: rat)"
  by (induction xs arbitrary: i) (auto split: nat.splits simp: nth_Cons')

text \<open>One round of the loop: what the target at an index gains.\<close>

lemma remainder_step:
  assumes "remainder_loop (Suc index) ws av w step rs rem = Inr rs'" "rem \<noteq> ''0''" "at_index ws index \<noteq> Some ''0''"
    "index < length rs" "length rs = length ws" "canonical_decimal rem"
  obtains raised rest extra where "remainder_loop index ws av w step (rs[index := raised]) rest = Inr rs'" "canonical_decimal rest"
    "dec_val raised = dec_val (rs ! index) + extra" "dec_val rest = dec_val rem - extra" "0 \<le> extra" "decimal_pattern av" "decimal_pattern w"
    "dec_val av \<le> dec_val w \<Longrightarrow> dec_val raised \<le> dec_val (ws ! index)"
    "\<not> dec_val av \<le> dec_val w \<Longrightarrow> rest = ''0''"
    "on_step (dec_val step) (dec_val rem) \<Longrightarrow> on_step (dec_val step) extra"
proof -
  obtain c room extra raised rest where h: "compareDecimal av w = Inr c"
    "(if c \<le> 0 then rbind (targetQuantity ws index) (\<lambda>w. rbind (targetQuantity rs index) (\<lambda>r. rbind (subtractDecimal w r) (\<lambda>d. quantizeDecimalDown d step)))
      else Inr rem) = Inr room"
    "minDecimal [room, rem] = Inr extra" "rbind (targetQuantity rs index) (\<lambda>r. addDecimal r extra) = Inr raised" "subtractDecimal rem extra = Inr rest"
    "remainder_loop index ws av w step (rs[index := raised]) rest = Inr rs'"
    using assms(1) unfolding remainder_loop.simps if_not_P [OF assms(2)] if_not_P [OF assms(3)] rbind_Inr_iff by blast
  have t: "targetQuantity ws index = Inr (ws ! index)" "targetQuantity rs index = Inr (rs ! index)"
    using assms(4,5) by (simp_all add: targetQuantity_def at_index_def)
  note c = compare_Inr [OF h(1)] and mn = min_Inr [OF h(3)] and s = subtract_Inr [OF h(5)]
  have a: "dec_val raised = dec_val (rs ! index) + dec_val extra" using h(4) t add_Inr by simp
  have nn: "0 \<le> dec_val extra" using mn dec_val_nonneg [of extra] by auto
  have le: "c \<le> 0 \<longleftrightarrow> dec_val av \<le> dec_val w" using c by (auto simp: rat_cmp_def)
  have room: "dec_val extra \<le> dec_val (ws ! index) - dec_val (rs ! index) \<and> on_step (dec_val step) (dec_val room)" if low: "dec_val av \<le> dec_val w"
  proof -
    obtain d where d: "subtractDecimal (ws ! index) (rs ! index) = Inr d" "quantizeDecimalDown d step = Inr room"
      using h(2) le low t by (auto simp: rbind_Inr_iff)
    note q = quantize_Inr [OF d(2)] and sd = subtract_Inr [OF d(1)]
    have "of_int \<lfloor>dec_val d / dec_val step\<rfloor> * dec_val step \<le> dec_val d" using q by (simp add: floor_divide_lower)
    then show ?thesis using q sd mn(2) [of room] by (auto simp: on_step_def)
  qed
  show ?thesis
  proof (rule that [OF h(6) _ a _ nn])
    show "canonical_decimal rest" "dec_val rest = dec_val rem - dec_val extra" "decimal_pattern av" "decimal_pattern w" using s c by auto
    show "dec_val av \<le> dec_val w \<Longrightarrow> dec_val raised \<le> dec_val (ws ! index)" using room a by simp
    show "rest = ''0''" if "\<not> dec_val av \<le> dec_val w"
    proof -
      have "room = rem" using h(2) le that by simp
      then have "extra = rem" using mn(1) by simp
      then show ?thesis using s canonical_zero_iff by simp
    qed
    show "on_step (dec_val step) (dec_val extra)" if "on_step (dec_val step) (dec_val rem)"
    proof (cases "dec_val av \<le> dec_val w")
      case True
      then show ?thesis using room mn(1) that by auto
    next
      case False
      then have "room = rem" using h(2) le by simp
      then show ?thesis using mn(1) that by simp
    qed
  qed
qed


text \<open>What the whole loop does to the quantities of the targets.\<close>

definition spreads :: "string list \<Rightarrow> rat \<Rightarrow> rat \<Rightarrow> rat \<Rightarrow> nat \<Rightarrow> string list \<Rightarrow> rat \<Rightarrow> string list \<Rightarrow> bool" where
  "spreads ws av w step n rs rem rs' \<longleftrightarrow> length rs' = length rs \<and> (\<Sum>r\<leftarrow>rs'. dec_val r) \<le> (\<Sum>r\<leftarrow>rs. dec_val r) + rem \<and>
     (\<forall>i<length rs. ws ! i = ''0'' \<longrightarrow> rs' ! i = rs ! i) \<and>
     (av \<le> w \<longrightarrow> (\<forall>i<length rs. dec_val (rs ! i) \<le> dec_val (ws ! i) \<longrightarrow> dec_val (rs' ! i) \<le> dec_val (ws ! i))) \<and>
     (\<not> av \<le> w \<longrightarrow> (\<exists>i<n. ws ! i \<noteq> ''0'') \<longrightarrow> (\<Sum>r\<leftarrow>rs'. dec_val r) = (\<Sum>r\<leftarrow>rs. dec_val r) + rem) \<and>
     (on_step step rem \<longrightarrow> list_all (\<lambda>r. on_step step (dec_val r)) rs \<longrightarrow> list_all (\<lambda>r. on_step step (dec_val r)) rs')"

lemma spreads_stop: "0 \<le> rem \<Longrightarrow> rem = 0 \<or> n = 0 \<Longrightarrow> spreads ws av w step n rs rem rs"
  by (auto simp: spreads_def)

lemma spreads_skip: "spreads ws av w step n rs rem rs' \<Longrightarrow> ws ! n = ''0'' \<Longrightarrow> spreads ws av w step (Suc n) rs rem rs'"
  unfolding spreads_def by (metis less_Suc_eq)

lemma spreads_give:
  assumes s: "spreads ws av w step n (rs[n := raised]) rest rs'" and n: "n < length rs" "ws ! n \<noteq> ''0''"
    and v: "dec_val raised = dec_val (rs ! n) + extra" "rest = rem - extra" "0 \<le> extra"
    and cap: "av \<le> w \<Longrightarrow> dec_val raised \<le> dec_val (ws ! n)" and all: "\<not> av \<le> w \<Longrightarrow> rest = 0 \<and> rs' = rs[n := raised]"
    and st: "on_step step rem \<Longrightarrow> on_step step extra"
  shows "spreads ws av w step (Suc n) rs rem rs'"
proof -
  have sum: "(\<Sum>r\<leftarrow>rs[n := raised]. dec_val r) + rest = (\<Sum>r\<leftarrow>rs. dec_val r) + rem" using n(1) v by (simp add: sum_list_update_rat)
  have "list_all (\<lambda>r. on_step step (dec_val r)) rs'" if "on_step step rem" "list_all (\<lambda>r. on_step step (dec_val r)) rs"
  proof -
    have "on_step step (dec_val raised)" using that st n(1) v(1) on_step_closed(2) by (simp add: list_all_length)
    then have "list_all (\<lambda>r. on_step step (dec_val r)) (rs[n := raised])" using that(2) n(1) by (auto simp: list_all_length nth_list_update)
    moreover have "on_step step rest" using that(1) st v(2) on_step_closed(3) by simp
    ultimately show ?thesis using s by (simp add: spreads_def)
  qed
  moreover have "dec_val (rs' ! i) \<le> dec_val (ws ! i)" if "av \<le> w" "i < length rs" "dec_val (rs ! i) \<le> dec_val (ws ! i)" for i
  proof -
    have "dec_val (rs[n := raised] ! i) \<le> dec_val (ws ! i)" using cap that n(1) by (cases "i = n") simp_all
    then show ?thesis using s that(1,2) by (simp add: spreads_def)
  qed
  moreover have "(\<Sum>r\<leftarrow>rs'. dec_val r) = (\<Sum>r\<leftarrow>rs. dec_val r) + rem" if "\<not> av \<le> w" using all [OF that] sum by simp
  moreover have "rs' ! i = rs ! i" if "i < length rs" "ws ! i = ''0''" for i
  proof -
    have "i \<noteq> n" using that n(2) by blast
    then show ?thesis using s that by (simp add: spreads_def)
  qed
  ultimately show ?thesis using s sum unfolding spreads_def by auto
qed

lemma remainder_loop_law:
  assumes "remainder_loop n ws av w step rs rem = Inr rs'" "n \<le> length rs" "length rs = length ws" "canonical_decimal rem"
  shows "spreads ws (dec_val av) (dec_val w) (dec_val step) n rs (dec_val rem) rs'"
  using assms
proof (induction n arbitrary: rs rem)
  case 0
  then show ?case using canonical_nonneg spreads_stop by auto
next
  case (Suc n)
  consider "rem = ''0''" | "rem \<noteq> ''0''" "at_index ws n = Some ''0''" | "rem \<noteq> ''0''" "at_index ws n \<noteq> Some ''0''" by blast
  then show ?case
  proof cases
    case 1
    then show ?thesis using Suc.prems spreads_stop by simp
  next
    case 2
    then show ?thesis using Suc by (auto simp: at_index_def intro!: spreads_skip)
  next
    case 3
    obtain raised rest extra where h: "remainder_loop n ws av w step (rs[n := raised]) rest = Inr rs'" "canonical_decimal rest"
      "dec_val raised = dec_val (rs ! n) + extra" "dec_val rest = dec_val rem - extra" "0 \<le> extra"
      "dec_val av \<le> dec_val w \<Longrightarrow> dec_val raised \<le> dec_val (ws ! n)" "\<not> dec_val av \<le> dec_val w \<Longrightarrow> rest = ''0''"
      "on_step (dec_val step) (dec_val rem) \<Longrightarrow> on_step (dec_val step) extra"
      using remainder_step [OF Suc.prems(1) 3] Suc.prems by (metis Suc_le_lessD)
    have "rs' = rs[n := raised]" if "rest = ''0''" using h(1) that by (cases n) auto
    moreover have "spreads ws (dec_val av) (dec_val w) (dec_val step) n (rs[n := raised]) (dec_val rest) rs'"
      using Suc.IH [OF h(1)] Suc.prems h(2) by simp
    ultimately show ?thesis
      using h Suc.prems 3(2) by (intro spreads_give [of ws _ _ _ n rs raised "dec_val rest" rs' extra]) (auto simp: at_index_def)
  qed
qed


section \<open>Resizing the budgets of the targets\<close>

definition budget_left :: "string list \<Rightarrow> string list \<Rightarrow> nat \<Rightarrow> rat" where
  "budget_left previous filled i = max 0 (dec_val (previous ! i) - dec_val (filled ! i))"

definition step_floor :: "rat \<Rightarrow> rat \<Rightarrow> rat" where
  "step_floor step q = of_int \<lfloor>q / step\<rfloor> * step"

lemma indexed_mapM:
  "mapM f (zip [0..<length xs] xs) = Inr ys \<longleftrightarrow> length ys = length xs \<and> (\<forall>i<length xs. f (i, xs ! i) = Inr (ys ! i))"
  by (auto simp: mapM_Inr_iff list_all2_conv_all_nth)

lemma target_weight_law:
  assumes "target_weight filled (i, v) = Inr w" "i < length filled" "decimal_pattern v" "decimal_pattern (filled ! i)"
  shows "canonical_decimal w \<and> dec_val w = max 0 (dec_val v - dec_val (filled ! i))"
proof -
  obtain e t c where h: "decimal (filled ! i) = Inr e" "decimal v = Inr t" "compareDecimal t e = Inr c" "(if c > 0 then subtractDecimal t e else Inr ''0'') = Inr w"
    using assms(1,2) by (auto simp: target_weight_def rbind_Inr_iff targetQuantity_def at_index_def)
  have v: "dec_val e = dec_val (filled ! i)" "dec_val t = dec_val v" using decimal_id_value [OF h(1)] decimal_id_value [OF h(2)] assms(3,4) by simp_all
  show ?thesis
  proof (cases "c > 0")
    case True
    then show ?thesis using h(4) subtract_Inr [of t e w] v by (auto simp: max_def)
  next
    case False
    then have "dec_val v \<le> dec_val (filled ! i)" "w = ''0''" using compare_Inr [OF h(3)] h(4) v by (auto simp: rat_cmp_def split: if_splits)
    then show ?thesis by simp
  qed
qed

lemma step_floor_le: "0 < s \<Longrightarrow> step_floor s q \<le> q" "0 < s \<Longrightarrow> q - s < step_floor s q"
  using floor_divide_upper [of s q] floor_divide_lower [of s q] by (simp_all add: step_floor_def algebra_simps)

lemma share_law:
  assumes "(if weight = ''0'' then Inr ''0'' else rbind (multiplyDecimal available v) (\<lambda>p. rbind (divideDecimal p weight 18) (\<lambda>share. quantizeDecimalDown share step))) = Inr r"
    "canonical_decimal v"
  shows "on_step (dec_val step) (dec_val r) \<and> 0 \<le> dec_val r \<and> (dec_val available \<le> dec_val weight \<or> v = ''0'' \<longrightarrow> dec_val r \<le> dec_val v)"
proof (cases "weight = ''0''")
  case True
  then show ?thesis using assms canonical_nonneg [of v] on_step_closed(1) by auto
next
  case False
  then obtain p share where h: "multiplyDecimal available v = Inr p" "divideDecimal p weight 18 = Inr share" "quantizeDecimalDown share step = Inr r"
    using assms(1) by (auto simp: rbind_Inr_iff)
  note m = multiply_Inr [OF h(1)] and d = divide_Inr [OF h(2)] and q = quantize_Inr [OF h(3)]
  have w: "0 < dec_val weight" using d dec_val_nonneg [of weight] by simp
  have "dec_val share \<le> dec_val v" if "dec_val available \<le> dec_val weight \<or> v = ''0''"
  proof -
    have "dec_val available * dec_val v \<le> dec_val weight * dec_val v"
      using that canonical_nonneg [OF assms(2)] by (auto intro: mult_right_mono)
    then have "dec_val p / dec_val weight \<le> dec_val v"
      using m trunc_at_le [of 18 "dec_val available * dec_val v"] w by (simp add: pos_divide_le_eq mult.commute)
    then show ?thesis using d trunc_at_le [of 18 "dec_val p / dec_val weight"] by simp
  qed
  moreover have "dec_val r \<le> dec_val share" using q floor_divide_lower [of "dec_val step" "dec_val share"] by simp
  moreover have "on_step (dec_val step) (dec_val r)" "0 \<le> dec_val r" using q canonical_nonneg [of r] unfolding on_step_def by blast+
  ultimately show ?thesis by linarith
qed

lemma sum_canonical: "sumDecimals xs = Inr s \<Longrightarrow> canonical_decimal s"
proof -
  have "foldM addDecimal z xs = Inr s \<Longrightarrow> canonical_decimal z \<Longrightarrow> canonical_decimal s" for z
    by (induction xs arbitrary: z) (auto simp: rbind_Inr_iff dest: add_Inr)
  then show "sumDecimals xs = Inr s \<Longrightarrow> canonical_decimal s" unfolding sumDecimals_def using zero_canonical by blast
qed

lemma sum_nth: "(\<Sum>x\<leftarrow>xs. f x) = (\<Sum>i<length xs. (f (xs ! i) :: rat))"
  by (simp add: sum_list_sum_nth atLeast0LessThan)

lemma resize_facts:
  assumes "resizeTargetTotals previous filled netQuantity step = Inr t" "list_all decimal_pattern previous" "list_all decimal_pattern filled"
    "decimal_pattern step"
  obtains ws weight available shares where
    "length filled = length previous" "length ws = length previous" "\<And>i. i < length previous \<Longrightarrow> canonical_decimal (ws ! i) \<and> dec_val (ws ! i) = budget_left previous filled i"
    "sumDecimals ws = Inr weight" "decimal_pattern netQuantity" "0 < dec_val step" "canonical_decimal available" "dec_val available = step_floor (dec_val step) (dec_val netQuantity)"
    "\<not> (weight = ''0'' \<and> available \<noteq> ''0'')"
    "mapM (\<lambda>v. if weight = ''0'' then Inr ''0'' else rbind (multiplyDecimal available v) (\<lambda>p. rbind (divideDecimal p weight 18) (\<lambda>share. quantizeDecimalDown share step))) ws = Inr shares"
    "allocateRoundingRemainder ws shares available weight step = Inr (tt_remaining t)"
    "length (tt_totals t) = length (tt_remaining t)"
    "\<And>i. i < length (tt_remaining t) \<Longrightarrow> i < length filled \<Longrightarrow> dec_val (tt_totals t ! i) = dec_val (tt_remaining t ! i) + dec_val (filled ! i)"
    "\<exists>s. sumDecimals (tt_remaining t) = Inr s \<and> subtractDecimal netQuantity s = Inr (tt_unallocatedQuantity t)"
proof -
  obtain ws weight net normal available shares remaining totals s unallocated where h: "\<not> (previous = [] \<or> length previous \<noteq> length filled)"
    "mapM (target_weight filled) (zip [0..<length previous] previous) = Inr ws" "sumDecimals ws = Inr weight"
    "decimal netQuantity = Inr net" "decimal_positive step = Inr normal" "quantizeDecimalDown net normal = Inr available"
    "\<not> (weight = ''0'' \<and> available \<noteq> ''0'')"
    "mapM (\<lambda>v. if weight = ''0'' then Inr ''0'' else rbind (multiplyDecimal available v) (\<lambda>p. rbind (divideDecimal p weight 18) (\<lambda>share. quantizeDecimalDown share step))) ws = Inr shares"
    "allocateRoundingRemainder ws shares available weight step = Inr remaining"
    "mapM (\<lambda>(index, v). rbind (targetQuantity filled index) (addDecimal v)) (zip [0..<length remaining] remaining) = Inr totals"
    "sumDecimals remaining = Inr s" "subtractDecimal netQuantity s = Inr unallocated"
    "t = \<lparr>tt_totals = totals, tt_remaining = remaining, tt_unallocatedQuantity = unallocated\<rparr>"
    using assms(1) unfolding resizeTargetTotals_def case_Inr rbind_Inr_iff sum.inject by blast
  have p: "decimal_pattern (previous ! i)" "decimal_pattern (filled ! i)" if "i < length previous" for i using assms(2,3) h(1) that by (auto simp: list_all_length)
  have "canonical_decimal (ws ! i) \<and> dec_val (ws ! i) = budget_left previous filled i" if "i < length previous" for i
    using h(2) target_weight_law [of filled i "previous ! i" "ws ! i"] p that h(1) by (simp add: indexed_mapM budget_left_def)
  moreover have "decimal_pattern netQuantity" using subtract_Inr [OF h(12)] by simp
  moreover have "dec_val normal = dec_val step" "dec_val net = dec_val netQuantity"
    using decimal_id_value [OF h(4)] subtract_Inr [OF h(12)] decimal_positive_value [OF h(5)] assms(4) by simp_all
  then have "0 < dec_val step" "canonical_decimal available" "dec_val available = step_floor (dec_val step) (dec_val netQuantity)"
    using quantize_Inr [OF h(6)] by (simp_all add: step_floor_def)
  moreover have "dec_val (totals ! i) = dec_val (remaining ! i) + dec_val (filled ! i)" if "i < length remaining" "i < length filled" for i
  proof -
    have "addDecimal (remaining ! i) (filled ! i) = Inr (totals ! i)" using h(10) that by (auto simp: indexed_mapM targetQuantity_def at_index_def)
    then show ?thesis using add_Inr by blast
  qed
  moreover have "length ws = length previous" "length totals = length remaining" using h(2,10) by (simp_all add: indexed_mapM)
  ultimately show ?thesis using h(1,3,7-9,11,12) by (intro that [of ws weight available shares]) (simp_all add: h(13))
qed

text \<open>
  C40: resizing the budgets of the targets to the quantity still owned conserves it. What is
  assigned to the targets and what is left over add up to exactly the net quantity; every assignment is a
  multiple of the step; a target's total is what it executed plus what is assigned; a consumed target gets
  nothing again; while the position shrinks no target gets more than its unconsumed budget; and when it
  grew beyond the budgets less than one step is left over.
\<close>

theorem resize_conserves_exposure:
  assumes "resizeTargetTotals previous filled netQuantity step = Inr t" "list_all decimal_pattern previous" "list_all decimal_pattern filled"
    "decimal_pattern step"
  shows "length (tt_remaining t) = length previous \<and> length (tt_totals t) = length previous \<and>
    (\<Sum>r\<leftarrow>tt_remaining t. dec_val r) + dec_val (tt_unallocatedQuantity t) = dec_val netQuantity \<and> 0 \<le> dec_val (tt_unallocatedQuantity t) \<and>
    (\<forall>i<length previous. on_step (dec_val step) (dec_val (tt_remaining t ! i)) \<and>
       dec_val (tt_totals t ! i) = dec_val (tt_remaining t ! i) + dec_val (filled ! i) \<and>
       (dec_val (previous ! i) \<le> dec_val (filled ! i) \<longrightarrow> dec_val (tt_remaining t ! i) = 0)) \<and>
    (if step_floor (dec_val step) (dec_val netQuantity) \<le> (\<Sum>i<length previous. budget_left previous filled i)
     then \<forall>i<length previous. dec_val (tt_remaining t ! i) \<le> budget_left previous filled i
     else dec_val (tt_unallocatedQuantity t) < dec_val step)"
  using assms
proof (rule resize_facts)
  fix ws weight available shares s
  let ?A = "step_floor (dec_val step) (dec_val netQuantity)" and ?W = "\<Sum>i<length previous. budget_left previous filled i"
  assume f: "length filled = length previous" "length ws = length previous"
    "\<And>i. i < length previous \<Longrightarrow> canonical_decimal (ws ! i) \<and> dec_val (ws ! i) = budget_left previous filled i"
    "sumDecimals ws = Inr weight" "decimal_pattern netQuantity" "0 < dec_val step" "canonical_decimal available" "dec_val available = ?A"
    "\<not> (weight = ''0'' \<and> available \<noteq> ''0'')"
    "mapM (\<lambda>v. if weight = ''0'' then Inr ''0'' else rbind (multiplyDecimal available v) (\<lambda>p. rbind (divideDecimal p weight 18) (\<lambda>share. quantizeDecimalDown share step))) ws = Inr shares"
    "allocateRoundingRemainder ws shares available weight step = Inr (tt_remaining t)" "length (tt_totals t) = length (tt_remaining t)"
    "\<And>i. i < length (tt_remaining t) \<Longrightarrow> i < length filled \<Longrightarrow> dec_val (tt_totals t ! i) = dec_val (tt_remaining t ! i) + dec_val (filled ! i)"
    "\<exists>s. sumDecimals (tt_remaining t) = Inr s \<and> subtractDecimal netQuantity s = Inr (tt_unallocatedQuantity t)"
  have len: "length shares = length previous" using mapM_length [OF f(10)] f(2) by simp
  have share: "on_step (dec_val step) (dec_val (shares ! i))" "0 \<le> dec_val (shares ! i)"
      "dec_val available \<le> dec_val weight \<or> ws ! i = ''0'' \<Longrightarrow> dec_val (shares ! i) \<le> dec_val (ws ! i)" if "i < length previous" for i
    using f(10) share_law [of weight available "ws ! i" step "shares ! i"] that f(2,3) by (auto simp: mapM_Inr_iff list_all2_conv_all_nth)
  have W: "canonical_decimal weight" "dec_val weight = ?W"
    using sum_canonical [OF f(4)] sum_exact [OF f(4)] f(2,3) by (simp_all add: sum_nth)
  obtain s0 rem where r: "sumDecimals shares = Inr s0" "subtractDecimal available s0 = Inr rem"
      "remainder_loop (length ws) ws available weight step shares rem = Inr (tt_remaining t)"
    using f(11) by (auto simp: allocateRoundingRemainder_def rbind_Inr_iff)
  note rem = subtract_Inr [OF r(2)] and s0 = sum_exact [OF r(1)]
  have sp: "spreads ws ?A ?W (dec_val step) (length ws) shares (dec_val rem) (tt_remaining t)"
    using remainder_loop_law [OF r(3)] len f(2,8) W(2) rem by simp
  have lr: "length (tt_remaining t) = length previous" using sp len by (simp add: spreads_def)
  have shares: "list_all (\<lambda>r. on_step (dec_val step) (dec_val r)) shares" using share(1) len by (simp add: list_all_length)
  have "on_step (dec_val step) ?A" by (auto simp: on_step_def step_floor_def)
  then have "on_step (dec_val step) (dec_val rem)" using rem s0 f(8) on_step_closed(3) on_step_sum [OF shares] by simp
  then have steps: "on_step (dec_val step) (dec_val (tt_remaining t ! i))" if "i < length previous" for i
    using sp shares that lr by (auto simp: spreads_def list_all_length)
  have consumed: "dec_val (tt_remaining t ! i) = 0" if "i < length previous" "dec_val (previous ! i) \<le> dec_val (filled ! i)" for i
  proof -
    have "dec_val (ws ! i) = 0" "ws ! i = ''0''" using f(3) [OF that(1)] that(2) canonical_zero_iff by (simp_all add: budget_left_def)
    then show ?thesis using sp share(2,3) [OF that(1)] that len by (auto simp: spreads_def)
  qed
  obtain s where s: "sumDecimals (tt_remaining t) = Inr s" "subtractDecimal netQuantity s = Inr (tt_unallocatedQuantity t)" using f(14) by blast
  note u = subtract_Inr [OF s(2)] sum_exact [OF s(1)]
  have last: "if ?A \<le> ?W then \<forall>i<length previous. dec_val (tt_remaining t ! i) \<le> budget_left previous filled i
     else dec_val (tt_unallocatedQuantity t) < dec_val step"
  proof (cases "?A \<le> ?W")
    case True
    then show ?thesis using sp share(3) f(3,8) W(2) len by (simp add: spreads_def)
  next
    case False
    have "\<exists>i<length ws. ws ! i \<noteq> ''0''"
    proof (rule ccontr)
      assume none: "\<not> ?thesis"
      then have "dec_val weight = 0" using W(2) f(2,3) by (auto intro!: sum.neutral)
      then have "weight = ''0''" "available = ''0''" using W(1) canonical_zero_iff f(9) by auto
      then show False using False f(8) W(2) by simp
    qed
    then have "(\<Sum>r\<leftarrow>tt_remaining t. dec_val r) = ?A" using sp False rem s0 f(8) by (simp add: spreads_def)
    then show ?thesis using False u step_floor_le(2) [OF f(6), of "dec_val netQuantity"] by simp
  qed
  show ?thesis
    using lr f(1,12,13) u steps consumed last canonical_nonneg [of "tt_unallocatedQuantity t"] by auto
qed


lemma resize_conserves_exposure_witness:
  "\<exists>t. resizeTargetTotals [''0.5'', ''0.3'', ''0.2''] [''0.5'', ''0.1'', ''0''] ''0.355'' ''0.01'' = Inr t \<and> tt_remaining t = [''0'', ''0.17'', ''0.18''] \<and>
     tt_unallocatedQuantity t = ''0.005'' \<and> (\<Sum>r\<leftarrow>tt_remaining t. dec_val r) + dec_val (tt_unallocatedQuantity t) = dec_val ''0.355''"
proof -
  define t where "t = \<lparr>tt_totals = [''0.5'', ''0.27'', ''0.18''], tt_remaining = [''0'', ''0.17'', ''0.18''], tt_unallocatedQuantity = ''0.005''\<rparr>"
  have r: "resizeTargetTotals [''0.5'', ''0.3'', ''0.2''] [''0.5'', ''0.1'', ''0''] ''0.355'' ''0.01'' = Inr t" unfolding t_def by code_simp
  have p: "list_all decimal_pattern [''0.5'', ''0.3'', ''0.2'']" "list_all decimal_pattern [''0.5'', ''0.1'', ''0'']" "decimal_pattern ''0.01''" by code_simp+
  show ?thesis using resize_conserves_exposure [OF r p] r by (auto simp: t_def)
qed


section \<open>Completed targets\<close>

text \<open>Completion is never taken back, and evidence of fills that shrank is refused.\<close>

lemma completion_latches:
  assumes "completedTargetEvidence totals previousFilled completed filled = Inr done" "i < length totals"
  shows "(completed ! i \<longrightarrow> done ! i) \<and> dec_val (previousFilled ! i) \<le> dec_val (filled ! i) \<and>
    (done ! i \<and> \<not> completed ! i \<longrightarrow> dec_val (totals ! i) \<le> dec_val (filled ! i) \<and> dec_val (previousFilled ! i) < dec_val (totals ! i))"
proof -
  have l: "length previousFilled = length totals" "length completed = length totals" "length filled = length totals" and
    e: "target_completed previousFilled completed filled (i, totals ! i) = Inr (done ! i)"
    using assms by (auto simp: completedTargetEvidence_def rbind_Inr_iff indexed_mapM split: if_splits)
  have q: "targetQuantity previousFilled i = Inr (previousFilled ! i)" "targetQuantity filled i = Inr (filled ! i)"
      "targetCompletion completed i = Inr (completed ! i)"
    using l assms(2) by (simp_all add: targetQuantity_def targetCompletion_def at_index_def)
  show ?thesis
    using e unfolding target_completed_def prod.case q rbind.simps
    by (auto simp: rbind_Inr_iff case_Inr rat_cmp_def split: if_splits dest!: compare_Inr)
qed

text \<open>The executed quantities of the targets are the sums over their orders.\<close>

lemma filled_target_law:
  assumes "filledTargetQuantities rows n = Inr filled" "i < n"
  shows "length filled = n \<and> dec_val (filled ! i) = (\<Sum>r\<leftarrow>rows. if targetIndexFromOrderRow r = Some (int i + 1) then dec_val (tr_filled_quantity r) else 0)"
proof -
  have "length filled = length z \<and> dec_val (filled ! i) = dec_val (z ! i) +
      (\<Sum>r\<leftarrow>rows. if targetIndexFromOrderRow r = Some (int i + 1) then dec_val (tr_filled_quantity r) else 0)"
    if "foldM (add_filled n) z rows = Inr filled" "length z = n" for z
    using that
  proof (induction rows arbitrary: z)
    case (Cons r rows)
    then obtain z' where z': "add_filled n z r = Inr z'" "foldM (add_filled n) z' rows = Inr filled" by (auto simp: rbind_Inr_iff)
    then obtain k q where k: "targetIndexFromOrderRow r = Some k" "k \<le> int n" "1 \<le> k"
      "rbind (targetQuantity z (nat (k - 1))) (\<lambda>q. addDecimal q (tr_filled_quantity r)) = Inr q" "z' = z[nat (k - 1) := q]"
      by (auto simp: add_filled_def rbind_Inr_iff targetIndexFromOrderRow_def split: option.splits if_splits)
    then have "dec_val q = dec_val (z ! nat (k - 1)) + dec_val (tr_filled_quantity r)"
      using Cons.prems(2) by (auto simp: rbind_Inr_iff targetQuantity_def at_index_def split: if_splits dest!: add_Inr)
    moreover have "i = nat (k - 1) \<longleftrightarrow> k = int i + 1" using k(3) by auto
    ultimately show ?case using Cons.IH [OF z'(2)] Cons.prems(2) k assms(2) by (auto simp: nth_list_update)
  qed simp
  then show ?thesis using assms by (simp add: filledTargetQuantities_def)
qed

end
