(* ===== verification/Trading_Admission.thy ===== *)
theory Trading_Admission
  imports Trading_Risk
begin

text \<open>
  What a planned entry has to prove before it is sent: that the leverage tiers it was sized with still
  bind (\<^verbatim>\<open>src/trading_leverage_admission.ts\<close>), that the account trades in the reviewed mode
  (\<^verbatim>\<open>src/trading_execution_constraints.ts\<close>), and how the request is built from the plan
  (\<^verbatim>\<open>src/trading_order_request.ts\<close>). The clock and the hash are arguments; the capabilities
  of an account are untyped data.
\<close>

section \<open>Requests\<close>

definition entryExpiryOverlay :: "planned_order \<Rightarrow> trading_plan \<Rightarrow> int option" where
  "entryExpiryOverlay order plan = (if po_role order = Entry_role then tp_entryExpiresAt plan else None)"

definition entryBoundaryOverlay :: "planned_order \<Rightarrow> trading_plan \<Rightarrow> entry_price_boundary option" where
  "entryBoundaryOverlay order plan = (if po_role order = Entry_role then tp_entryPriceBoundary plan else None)"

definition entryLeverageOverlay :: "planned_order \<Rightarrow> trading_plan \<Rightarrow> tier_decision option" where
  "entryLeverageOverlay order plan = (if po_role order = Entry_role then tp_leverageTierDecision plan else None)"

text \<open>The second component is the slippage limit the request carries beside the declared fields.\<close>

definition requestFromOrder :: "trading_account \<Rightarrow> trading_plan \<Rightarrow> planned_order \<Rightarrow> exchange_order_request \<times> string" where
  "requestFromOrder account plan order =
     (\<lparr>rq_order = order, rq_entryExpiresAt = entryExpiryOverlay order plan, rq_entryPriceBoundary = entryBoundaryOverlay order plan,
       rq_leverageTierDecision = entryLeverageOverlay order plan, rq_accountId = ta_id account, rq_symbol = tp_symbol plan,
       rq_leverage = tp_leverage plan, rq_timeoutSeconds = (if po_role order = Entry_role then tp_entryTimeoutSeconds plan else 12)\<rparr>,
      tp_maxSlippagePercent plan)"


section \<open>Leverage tiers\<close>

definition tier_sources :: "(string \<times> string) list" where
  "tier_sources =
    [(''bybit'', ''bybit_v5_risk_limit_mark_authenticated_scope_v1''),
     (''hyperliquid'', ''hyperliquid_meta_asset_context_bound_scope_v1''),
     (''krakenfutures'', ''kraken_authenticated_trading_instruments_mark_scope_v1''),
     (''paper'', ''paper_simulated_complete_tiers_v1'')]"

definition requireEvidence :: "bool \<Rightarrow> string \<Rightarrow> unit result" where
  "requireEvidence condition message = throw_if (\<not> condition) (TradingRiskError ''LEVERAGE_TIERS_UNPROVEN'' message)"

text \<open>\<^verbatim>\<open>account.capabilities?.key\<close>\<close>

definition js_prop :: "js \<Rightarrow> string \<Rightarrow> js" where
  "js_prop v key = (case v of JObj props \<Rightarrow> js_get props key | _ \<Rightarrow> JUndefined)"

definition capability :: "trading_account \<Rightarrow> string \<Rightarrow> js" where
  "capability account key = (case ta_capabilities account of Some v \<Rightarrow> js_prop v key | None \<Rightarrow> JUndefined)"

definition assertTierBinding :: "trading_account \<Rightarrow> tier_evidence \<Rightarrow> unit result" where
  "assertTierBinding account value =
     (let paper = (ta_exchange account = ''paper'') in
      rbind (requireEvidence (Some (te_accountFingerprint value) = (if paper then Some (ta_id account) else ta_externalAccountId account)
          \<and> Some (te_credentialGeneration value) = (if paper then Some ''paper'' else ta_credentialGeneration account))
        ''Tier account/credential binding changed.'') (\<lambda>_.
      rbind (requireEvidence (Some (te_source value) = map_of tier_sources (ta_exchange account)
          \<and> te_ccxtVersion value = (if paper then ''paper'' else ''4.5.75'')
          \<and> JStr (te_profileHash value) = (if paper then JStr ''paper-v1'' else capability account ''executionProfileHash''))
        ''Tier implementation profile changed.'') (\<lambda>_.
      if paper then Inr ()
      else requireEvidence (list_all hex64 [te_profileHash value, te_accountFingerprint value, te_credentialGeneration value]) ''Tier binding is incomplete.'')))"

definition assertTierFresh :: "tier_evidence \<Rightarrow> int \<Rightarrow> unit result" where
  "assertTierFresh value now = requireEvidence (is_safe_integer (te_observedAt value) \<and> is_safe_integer (te_expiresAt value)
     \<and> now \<ge> te_observedAt value \<and> now < te_expiresAt value \<and> te_expiresAt value - te_observedAt value = 10000) ''Tier evidence expired.''"

definition assertTierUnits :: "market_snapshot \<Rightarrow> tier_evidence \<Rightarrow> unit result" where
  "assertTierUnits market value =
     rbind (requireEvidence (length (te_providerSymbol value) > 0 \<and> length (te_providerSymbol value) \<le> 100
         \<and> te_currency value \<in> set [''USD'', ''USDT'', ''USDC'']) ''Tier units are not proven.'') (\<lambda>_.
     rbind (case ms_accounting market of None \<Rightarrow> Inr ()
       | Some accounting \<Rightarrow> requireEvidence (fa_providerSymbol accounting = te_providerSymbol value \<and> fa_settlementAsset accounting = te_currency value)
           ''Tier and accounting contracts disagree.'') (\<lambda>_.
     if te_markPrice value \<noteq> ms_markPrice market then requireEvidence False ''Tier mark or contract size is invalid.''
     else rbind (decimal_positive (te_contractSize value)) (\<lambda>size. requireEvidence (size = te_contractSize value) ''Tier mark or contract size is invalid.'')))"

text \<open>Any error of the guarded computation is replaced by the given one.\<close>

definition or_unproven :: "'a result \<Rightarrow> string \<Rightarrow> 'a result" where
  "or_unproven outcome message = (case outcome of Inl _ \<Rightarrow> Inl (TradingRiskError ''LEVERAGE_TIERS_UNPROVEN'' message) | Inr x \<Rightarrow> Inr x)"

definition assertTierEvidence :: "trading_account \<Rightarrow> string \<Rightarrow> market_snapshot \<Rightarrow> int \<Rightarrow> tier_evidence result" where
  "assertTierEvidence account symbol market now = (case ms_leverageTiers market of
       None \<Rightarrow> Inl (TradingRiskError ''LEVERAGE_TIERS_UNPROVEN'' ''Tier account/symbol evidence is missing.'')
     | Some value \<Rightarrow>
         rbind (requireEvidence (te_version value = 1 \<and> te_exchange value = ta_exchange account \<and> te_symbol value = symbol)
           ''Tier account/symbol evidence is missing.'') (\<lambda>_.
         rbind (assertTierBinding account value) (\<lambda>_.
         rbind (assertTierFresh value now) (\<lambda>_.
         rbind (assertTierUnits market value) (\<lambda>_.
         rbind (requireEvidence (ts_complete (te_scope value) \<and> ts_positionQuantity (te_scope value) = ''0'' \<and> ts_openOrderCount (te_scope value) = 0)
           ''Existing or unknown actual tier scope blocks scale-in.'') (\<lambda>_.
         rbind (or_unproven (validateTierTable (te_tiers value)) ''Complete consistent leverage tiers are required.'') (\<lambda>_.
         case te_tiers value of
           [] \<Rightarrow> Inl (TradingRiskError ''LEVERAGE_TIERS_UNPROVEN'' ''Display maximum conflicts with actual tiers.'')
         | firstTier # _ \<Rightarrow>
             rbind (requireEvidence (lt_maxLeverage firstTier = ms_maxLeverage market) ''Display maximum conflicts with actual tiers.'') (\<lambda>_. Inr value))))))))"

definition assertCurrentPlanTier :: "tier_evidence \<Rightarrow> trading_plan \<Rightarrow> tier_decision \<Rightarrow> unit result" where
  "assertCurrentPlanTier value plan decision =
     rbind (or_unproven (tierForQuantity (te_tiers value) (tp_quantity plan) (te_markPrice value)) ''Current notional is outside proven tiers.'') (\<lambda>index.
       requireEvidence (index = td_tierIndex decision \<and> 0 \<le> index \<and> nat index < length (te_tiers value)
         \<and> tp_leverage plan \<le> lt_maxLeverage (te_tiers value ! nat index)) ''Current mark changed the original leverage tier.'')"

definition assertPlanTierDecision :: "(string \<Rightarrow> string) \<Rightarrow> trading_account \<Rightarrow> trading_plan \<Rightarrow> market_snapshot \<Rightarrow> int \<Rightarrow> unit result" where
  "assertPlanTierDecision sha256 account plan market now =
     rbind (assertTierEvidence account (tp_symbol plan) market now) (\<lambda>value.
     case tp_leverageTierDecision plan of
       None \<Rightarrow> Inl (TradingRiskError ''LEVERAGE_TIERS_UNPROVEN'' ''Original tier table or contract changed.'')
     | Some decision \<Rightarrow>
         rbind (requireEvidence ((td_version decision = 1 \<or> td_version decision = 2) \<and> td_evidenceHash decision = tierEvidenceHash sha256 value
             \<and> td_contractSize decision = te_contractSize value \<and> td_providerSymbol decision = te_providerSymbol value)
           ''Original tier table or contract changed.'') (\<lambda>_.
         rbind (requireEvidence (td_quantity decision = tp_quantity plan \<and> td_leverage decision = tp_leverage plan) ''Original tier sizing changed.'') (\<lambda>_.
         rbind (assertCurrentPlanTier value plan decision) (\<lambda>_.
         case find (\<lambda>order. po_role order = Entry_role) (tp_orders plan) of
           None \<Rightarrow> Inl (TradingRiskError ''LEVERAGE_TIERS_UNPROVEN'' ''Entry quantity changed after tier planning.'')
         | Some entry \<Rightarrow>
             rbind (requireEvidence (po_quantity entry = tp_quantity plan) ''Entry quantity changed after tier planning.'') (\<lambda>_.
             rbind (if td_version decision = 2
                    then requireEvidence (map_option fxc_notionalCurrency (tp_fxSizing plan) = Some (te_currency value))
                      ''Tier FX budget lacks the original sizing context.''
                    else Inr ()) (\<lambda>_.
             case po_price entry of
               None \<Rightarrow> Inl (TradingRiskError ''LEVERAGE_TIERS_UNPROVEN'' ''Current valuation exceeds the original margin/notional budget.'')
             | Some price \<Rightarrow>
                 if price = [] then Inl (TradingRiskError ''LEVERAGE_TIERS_UNPROVEN'' ''Current valuation exceeds the original margin/notional budget.'')
                 else or_unproven (assertTierDecisionBudget decision (te_currency value) (tp_quantity plan) (te_markPrice value) price)
                   ''Current valuation exceeds the original margin/notional budget.''))))))"



section \<open>Account and position mode\<close>

definition max_mode_age_ms :: int where
  "max_mode_age_ms = 10000"

record mode_profile =
  mp_api :: string
  mp_origin :: string
  mp_leverage :: string

definition mode_profiles :: "(string \<times> mode_profile) list" where
  "mode_profiles =
    [(''bybit'', \<lparr>mp_api = ''bybit-v5'', mp_origin = ''authenticated'', mp_leverage = ''configured''\<rparr>),
     (''hyperliquid'', \<lparr>mp_api = ''hyperliquid-info-exchange-v1'', mp_origin = ''public_bound_account'', mp_leverage = ''configured''\<rparr>),
     (''krakenfutures'', \<lparr>mp_api = ''kraken-derivatives-v3'', mp_origin = ''authenticated'', mp_leverage = ''effective_collateral_ratio''\<rparr>)]"

definition safe_mode_reasons :: "string list" where
  "safe_mode_reasons =
    [''READBACK_SCHEMA_INVALID'', ''READBACK_LIST_MISSING_OR_UNBOUNDED'', ''READBACK_LIST_INVALID'',
     ''LEVERAGE_READBACK_MISSING'', ''LEVERAGE_READBACK_INVALID'', ''LEVERAGE_READBACK_CONTRADICTORY'',
     ''MODE_READBACK_UNSUPPORTED'', ''ACCOUNT_MODE_READ_FAILED'', ''ACCOUNT_MODE_UNSUPPORTED'',
     ''MARGIN_MODE_READBACK_MISSING'', ''POSITION_MODE_READ_FAILED'', ''POSITION_MODE_SCOPE_INCOMPLETE'',
     ''POSITION_MODE_SYMBOL_UNPROVEN'', ''POSITION_MODE_READBACK_MISSING'', ''HEDGE_MODE_UNSUPPORTED'',
     ''WALLET_BINDING_UNPROVEN'', ''WALLET_BINDING_CHANGED'', ''PERP_DEX_SCOPE_UNPROVEN'', ''ACTIVE_ASSET_BINDING_MISMATCH'',
     ''KRAKEN_MODE_READ_FAILED'', ''MODE_SYMBOL_MISSING'', ''POSITION_MODE_CONTRADICTORY'', ''KRAKEN_CROSS_MARKET_SCOPE_UNPROVEN'',
     ''EXECUTION_PROFILE_UNSUPPORTED'', ''CCXT_VERSION_UNREVIEWED'', ''POSITION_MODE_UNSUPPORTED'', ''MARGIN_MODE_UNSUPPORTED'',
     ''MODE_READBACK_EXPIRED'', ''MODE_READBACK_TIMEOUT'', ''MODE_READBACK_FAILED'', ''ACCOUNT_MODE_READBACK_FAILED'']"

record entry_constraints =
  ec_accountAbstraction :: "string option"
  ec_version :: int
  ec_exchange :: string
  ec_symbol :: string
  ec_providerSymbol :: string
  ec_accountFingerprint :: string
  ec_credentialGeneration :: string
  ec_ccxtVersion :: string
  ec_profileVersion :: int
  ec_profileHash :: string
  ec_providerApiVersion :: string
  ec_origin :: string
  ec_observedAt :: int
  ec_expiresAt :: int
  ec_entryAllowed :: bool
  ec_reason :: "string option"
  ec_positionMode :: string
  ec_marginMode :: string
  ec_leverage :: js
  ec_leverageSemantics :: string
  ec_sources :: "string list"

definition modeFailure :: "string \<Rightarrow> 'a result" where
  "modeFailure reason = Inl (TradingRiskError ''EXECUTION_MODE_UNPROVEN'' (''Entry mode evidence is not proven: '' @ reason))"

definition rejectModeReadback :: "string option \<Rightarrow> 'a result" where
  "rejectModeReadback reason = modeFailure (case reason of
     Some r \<Rightarrow> if r \<in> set safe_mode_reasons then r else ''mode not allowed.'' | None \<Rightarrow> ''mode not allowed.'')"

definition assertBoundedEntryProfile :: "trading_account \<Rightarrow> trading_plan \<Rightarrow> unit result" where
  "assertBoundedEntryProfile account plan =
     (if tp_entryPriceBoundary plan = None \<or> ta_exchange account = ''paper'' then Inr ()
      else throw_if (ta_exchange account \<notin> set [''bybit'', ''hyperliquid'']
          \<or> js_prop (capability account ''executionCapabilities'') ''protected_bounded_entry'' \<noteq> JStr ''limit_ioc_batch_v1'')
        (TradingRiskError ''ENTRY_PRICE_BOUND_UNPROVEN'' ''Protected limit IOC plus stop-market is not proven for this account profile.''))"

definition assertModeLeverage :: "string \<Rightarrow> entry_constraints \<Rightarrow> unit result" where
  "assertModeLeverage semantics evidence =
     (if semantics = ''configured''
      then (case safe_integer_of (ec_leverage evidence) of
          Some n \<Rightarrow> if n \<le> 0 then modeFailure ''leverage readback missing.'' else Inr ()
        | None \<Rightarrow> modeFailure ''leverage readback missing.'')
      else if ec_leverage evidence \<noteq> JNull then modeFailure ''cross effective leverage is not a configured integer.'' else Inr ())"

definition assertProfile :: "trading_account \<Rightarrow> entry_constraints \<Rightarrow> unit result" where
  "assertProfile account evidence = (case map_of mode_profiles (ta_exchange account) of
       None \<Rightarrow> modeFailure ''unreviewed mode profile.''
     | Some expected \<Rightarrow>
         if ec_ccxtVersion evidence \<noteq> ''4.5.75'' \<or> ec_profileVersion evidence \<noteq> 1 \<or> ec_providerApiVersion evidence \<noteq> mp_api expected
            \<or> ec_origin evidence \<noteq> mp_origin expected \<or> ec_leverageSemantics evidence \<noteq> mp_leverage expected
         then modeFailure ''unreviewed mode profile.''
         else if ta_exchange account = ''hyperliquid'' \<and> ec_accountAbstraction evidence \<noteq> Some ''disabled''
         then modeFailure ''account abstraction is unreviewed.''
         else if \<not> hex64 (ec_profileHash evidence) \<or> JStr (ec_profileHash evidence) \<noteq> capability account ''executionProfileHash''
         then modeFailure ''mode profile changed; account verification is required.''
         else assertModeLeverage (mp_leverage expected) evidence)"

definition assertModeBinding :: "trading_account \<Rightarrow> string \<Rightarrow> entry_constraints \<Rightarrow> unit result" where
  "assertModeBinding account symbol value =
     (if ec_exchange value \<noteq> ta_exchange account \<or> ec_symbol value \<noteq> symbol
         \<or> length (ec_providerSymbol value) < 1 \<or> length (ec_providerSymbol value) > 100
         \<or> Some (ec_accountFingerprint value) \<noteq> ta_externalAccountId account
         \<or> Some (ec_credentialGeneration value) \<noteq> ta_credentialGeneration account
      then modeFailure ''account/symbol binding changed.'' else Inr ())"

definition assertObservationProfile :: "js \<Rightarrow> js \<Rightarrow> string \<Rightarrow> int \<Rightarrow> unit result" where
  "assertObservationProfile capabilities observation api now =
     (let hash_ok = (case js_prop capabilities ''executionProfileHash'' of JStr h \<Rightarrow> hex64 h | _ \<Rightarrow> False) in
      if js_prop observation ''ccxtVersion'' \<noteq> JStr ''4.5.75'' \<or> js_prop capabilities ''profileVersion'' \<noteq> JNum (Num 1) \<or> \<not> hash_ok
         \<or> js_prop (js_prop capabilities ''executionCapabilities'') ''provider_api_version'' \<noteq> JStr api
      then modeFailure ''account mode observation has an unreviewed profile.''
      else (case safe_integer_of (js_prop observation ''observedAt'') of
          None \<Rightarrow> modeFailure ''account mode observation is stale.''
        | Some observedAt \<Rightarrow> if observedAt > now \<or> now - observedAt \<ge> max_mode_age_ms then modeFailure ''account mode observation is stale.'' else Inr ()))"

definition assertAccountModeObservation :: "trading_account \<Rightarrow> js \<Rightarrow> int \<Rightarrow> unit result" where
  "assertAccountModeObservation account outcome now =
     (let capabilities = js_prop outcome ''capabilities''; observation = js_prop capabilities ''executionModeObservation'' in
      case map_of mode_profiles (ta_exchange account) of
        None \<Rightarrow> modeFailure ''account mode observation is missing or invalid.''
      | Some profile \<Rightarrow>
          if js_prop outcome ''entryAllowed'' \<noteq> JBool False \<or> js_prop outcome ''reason'' \<noteq> JNull \<or> js_prop observation ''verified'' \<noteq> JBool True
             \<or> js_prop observation ''entryAllowed'' \<noteq> JBool False \<or> js_prop observation ''requiresSymbolRead'' \<noteq> JBool True
             \<or> js_prop observation ''reason'' \<noteq> JNull \<or> js_prop observation ''scope'' \<noteq> JStr ''account_observation''
             \<or> js_prop observation ''origin'' \<noteq> JStr (mp_origin profile)
          then modeFailure ''account mode observation is missing or invalid.''
          else assertObservationProfile capabilities observation (mp_api profile) now)"

definition assertModeFresh :: "entry_constraints \<Rightarrow> int \<Rightarrow> unit result" where
  "assertModeFresh value now =
     (if \<not> is_safe_integer (ec_observedAt value) \<or> \<not> is_safe_integer (ec_expiresAt value) \<or> now < ec_observedAt value \<or> now \<ge> ec_expiresAt value
         \<or> ec_expiresAt value - ec_observedAt value \<noteq> max_mode_age_ms
      then modeFailure ''stale mode readback.'' else Inr ())"

definition assertModeSources :: "entry_constraints \<Rightarrow> unit result" where
  "assertModeSources value =
     (if length (ec_sources value) < 1 \<or> length (ec_sources value) > 8 \<or> list_ex (\<lambda>s. length s < 1 \<or> length s > 100) (ec_sources value)
      then modeFailure ''readback sources missing.'' else Inr ())"

definition assertEntryModeEvidence :: "trading_account \<Rightarrow> string \<Rightarrow> entry_constraints option \<Rightarrow> int \<Rightarrow> unit result" where
  "assertEntryModeEvidence account symbol evidence now = (case evidence of
       None \<Rightarrow> if ta_exchange account = ''paper'' then Inr () else modeFailure ''mode readback missing.''
     | Some value \<Rightarrow>
         if ec_version value \<noteq> 1 \<or> \<not> ec_entryAllowed value \<or> ec_reason value \<noteq> None \<or> ec_positionMode value \<noteq> ''oneway'' \<or> ec_marginMode value \<noteq> ''cross''
         then rejectModeReadback (ec_reason value)
         else rbind (assertModeBinding account symbol value) (\<lambda>_. rbind (assertProfile account value) (\<lambda>_.
           rbind (assertModeFresh value now) (\<lambda>_. assertModeSources value))))"

text \<open>The adapter's readback is a parameter: absent, or its answer.\<close>

definition readEntryModeEvidence :: "entry_constraints result option \<Rightarrow> trading_account \<Rightarrow> string \<Rightarrow> int \<Rightarrow> entry_constraints option result" where
  "readEntryModeEvidence adapter account symbol now =
     (if ta_exchange account = ''paper'' then Inr None
      else (case adapter of
          None \<Rightarrow> modeFailure ''adapter has no mode readback.''
        | Some answer \<Rightarrow> rbind answer (\<lambda>evidence. rbind (assertEntryModeEvidence account symbol (Some evidence) now) (\<lambda>_. Inr (Some evidence)))))"


section \<open>What admission establishes\<close>

lemma requireEvidence_Inr [simp]: "requireEvidence c m = Inr u \<longleftrightarrow> c"
  by (simp add: requireEvidence_def throw_if_def)

lemma or_unproven_Inr [simp]: "or_unproven r m = Inr x \<longleftrightarrow> r = Inr x"
  by (simp add: or_unproven_def split: sum.splits)

lemma tier_evidence_accepted:
  assumes "assertTierEvidence account symbol market now = Inr ev"
  shows "ms_leverageTiers market = Some ev" "te_exchange ev = ta_exchange account" "te_symbol ev = symbol"
    "te_observedAt ev \<le> now" "now < te_observedAt ev + 10000" "te_markPrice ev = ms_markPrice market"
    "ts_complete (te_scope ev)" "ts_positionQuantity (te_scope ev) = ''0''" "ts_openOrderCount (te_scope ev) = 0"
    "validateTierTable (te_tiers ev) = Inr ()" "lt_maxLeverage (hd (te_tiers ev)) = ms_maxLeverage market"
  using assms
  by (auto simp: assertTierEvidence_def assertTierFresh_def assertTierUnits_def rbind_Inr_iff split: option.splits list.splits if_splits)

text \<open>The exact product of the quantity and the dearer of the two prices stays within a decimal budget.\<close>

lemma notional_budget_iff:
  assumes "decimal_pattern quantity" "decimal_pattern mark" "decimal_pattern price" "decimal_pattern maximum"
  shows "assertTierNotionalBudget quantity mark price maximum = Inr () \<longleftrightarrow>
    dec_val quantity * max (dec_val mark) (dec_val price) \<le> dec_val maximum"
proof -
  define p where "p = (if dec_val mark > dec_val price then mark else price)"
  have hp: "higher_price mark price = Inr p" "decimal_pattern p" "dec_val p = max (dec_val mark) (dec_val price)"
    using assms(2,3) by (auto simp: higher_price_def compare_law p_def rat_cmp_def)
  obtain nq where q: "quantum quantity = Inr nq" "(of_int nq :: rat) = 10 ^ 18 * dec_val quantity" using quantum_law [of quantity] assms(1) trim_valid by metis
  obtain np where pp: "quantum p = Inr np" "(of_int np :: rat) = 10 ^ 18 * dec_val p" using quantum_law [of p] hp(2) trim_valid by metis
  obtain nm where m: "quantum maximum = Inr nm" "(of_int nm :: rat) = 10 ^ 18 * dec_val maximum" using quantum_law [of maximum] assms(4) trim_valid by metis
  have "nq * np \<le> nm * 10 ^ 18 \<longleftrightarrow> (of_int (nq * np) :: rat) \<le> of_int (nm * 10 ^ 18)" by (simp only: of_int_le_iff)
  also have "\<dots> \<longleftrightarrow> (10 ^ 18 * 10 ^ 18) * (dec_val quantity * dec_val p) \<le> (10 ^ 18 * 10 ^ 18) * dec_val maximum"
    unfolding of_int_mult q(2) pp(2) m(2) by (simp add: mult_ac)
  finally have "nq * np \<le> nm * 10 ^ 18 \<longleftrightarrow> dec_val quantity * dec_val p \<le> dec_val maximum" by simp
  then show ?thesis using hp q(1) pp(1) m(1) by (simp add: assertTierNotionalBudget_def)
qed


lemma leveraged_exact:
  assumes "multiplyDecimal amount (show_int leverage) = Inr bp"
  shows "dec_val bp = dec_val amount * of_int leverage"
proof -
  note m = multiply_Inr [OF assms]
  then have l: "dec_val (show_int leverage) = of_int leverage" using decimal_int by auto
  have "on_grid 18 (dec_val amount * of_int leverage)"
    using m dec_val_grid [of amount] on_grid_int_mult [of 18 "dec_val amount" leverage] by (simp add: mult.commute)
  then show ?thesis using m l trunc_at_grid by simp
qed

text \<open>The notional budget recorded with a plan covers the quantity it was sized to.\<close>

lemma budget_covers_quantity:
  assumes "quantityForPlan sha256 clock input entry percent distance leverage = Inr q" "tpi_fxConversion input = None"
    and share: "rbind (multiplyDecimal (as_equity (tpi_account input)) percent) (\<lambda>p. divideDecimal p ''100'' 18) = Inr share"
    and budget: "originalNotionalBudget input share leverage = Inr maximum"
  shows "dec_val q * dec_val entry \<le> dec_val maximum" "decimal_pattern maximum"
proof -
  obtain share' cap where s: "rbind (multiplyDecimal (as_equity (tpi_account input)) percent) (\<lambda>p. divideDecimal p ''100'' 18) = Inr share'"
    "sized (common_of input entry leverage) (dec_val cap) q"
    "case sz_positionSizingMode (st_sizing (tpi_strategy input)) of
       Some Equity_percent_margin \<Rightarrow> multiplyDecimal share' (show_int leverage) = Inr cap
     | Some Equity_percent_notional \<Rightarrow> cap = share'
     | _ \<Rightarrow> cap = sz_maxPositionNotional (st_sizing (tpi_strategy input)) \<and> dec_val q * dec_val distance \<le> dec_val share'"
    using assms(1,2) by (rule plan_quantity_sized)
  have "share' = share" using s(1) share by simp
  with s(3) budget obtain bp where b: "multiplyDecimal (as_availableBalance (tpi_account input)) (show_int leverage) = Inr bp"
    "minDecimal [sz_maxPositionNotional (st_sizing (tpi_strategy input)), bp, cap] = Inr maximum"
    by (auto simp: originalNotionalBudget_def Let_def rbind_Inr_iff split: option.splits position_sizing_mode.splits)
  note m = min_Inr [OF b(2)]
  have "maximum \<in> {sz_maxPositionNotional (st_sizing (tpi_strategy input)), bp, cap}" using m(1) by simp
  then show "dec_val q * dec_val entry \<le> dec_val maximum"
    using s(2) leveraged_exact [OF b(1)] by (auto simp: sized_def common_of_def)
  show "decimal_pattern maximum" using m by auto
qed

text \<open>How a plan was sized when the market carried leverage tiers and no conversion was needed.\<close>

lemma tiered_sizing:
  assumes "solvePlanSizing sha256 clock input price distance limitPrice = Inr sizing"
    and "ms_leverageTiers (tpi_market input) = Some tiers" "tpi_fxConversion input = None"
  obtains percent share sizingPrice c solved maximum where
    "rbind (multiplyDecimal (as_equity (tpi_account input)) percent) (\<lambda>p. divideDecimal p ''100'' 18) = Inr share"
    "compareDecimal (ms_markPrice (tpi_market input)) limitPrice = Inr c"
    "sizingPrice = (if c > 0 then ms_markPrice (tpi_market input) else limitPrice)"
    "solveTierQuantity tiers (ld_effective (resolveLeverageDecision (tpi_signal input) (tpi_strategy input) (tpi_market input)))
       (\<lambda>leverage. quantityForPlan sha256 clock input sizingPrice percent distance leverage) = Inr solved"
    "originalNotionalBudget input share (sol_leverage solved) = Inr maximum"
    "ps_quantity sizing = sol_quantity solved" "ps_leverage sizing = sol_leverage solved"
    "tierDecision sha256 tiers solved (Decimal_budget maximum) = Inr (the (ps_tierDecision sizing))" "ps_tierDecision sizing \<noteq> None"
proof -
  obtain fx where fx: "fxSizingContext sha256 clock (fx_input_of input price [] distance 0) = Inr fx"
    using assms(1) unfolding solvePlanSizing_def by (auto simp: rbind_Inr_iff)
  moreover from this have "fx = None"
    using assms(3) by (auto simp: fxSizingContext_def fx_input_of_def Let_def rbind_Inr_iff assertSizingRecipe_def invalidFx_def split: if_splits)
  ultimately have none: "fxSizingContext sha256 clock (fx_input_of input price [] distance 0) = Inr None" by simp
  obtain percent share c solved maximum where
    "rbind (multiplyDecimal (as_equity (tpi_account input)) percent) (\<lambda>p. divideDecimal p ''100'' 18) = Inr share"
    "compareDecimal (ms_markPrice (tpi_market input)) limitPrice = Inr c"
    "solveTierQuantity tiers (ld_effective (resolveLeverageDecision (tpi_signal input) (tpi_strategy input) (tpi_market input)))
       (quantityForPlan sha256 clock input (if c > 0 then ms_markPrice (tpi_market input) else limitPrice) percent distance) = Inr solved"
    "originalNotionalBudget input share (sol_leverage solved) = Inr maximum"
    "ps_quantity sizing = sol_quantity solved" "ps_leverage sizing = sol_leverage solved"
    "tierDecision sha256 tiers solved (Decimal_budget maximum) = Inr (the (ps_tierDecision sizing))" "ps_tierDecision sizing \<noteq> None"
    using assms(1) unfolding solvePlanSizing_def Let_def none assms(2)
    by (auto simp: rbind_Inr_iff) blast
  then show thesis using that by blast
qed

lemma planned_entry:
  assumes "createTradingPlan sha256 clock input = Inr plan"
  obtains entry where "find (\<lambda>order. po_role order = Entry_role) (tp_orders plan) = Some entry" "po_quantity entry = tp_quantity plan"
    "po_price entry = Some (plan_price plan)"
proof -
  obtain allocations where p: "planPriceBoundary input = Inr (tp_entryPriceBoundary plan)"
    "plannedOrders sha256 input (tp_entryPrice plan) (tp_stopPrice plan) (tp_quantity plan) allocations (tp_entryPriceBoundary plan) = Inr (tp_orders plan)"
    using plan_parts [OF assms] by metis
  define entry where "entry = entry_order sha256 input (tp_entryPrice plan) (tp_quantity plan) (tp_entryPriceBoundary plan)"
  have "\<not> is_market_entry (tpi_signal input) (tpi_strategy input)" if "tp_entryPriceBoundary plan = None"
    using p(1) that by (auto simp: planPriceBoundary_def rbind_Inr_iff split: if_splits)
  then have "po_price entry = Some (plan_price plan)"
    by (auto simp: entry_def entry_order_def plan_price_def Let_def split: option.splits)
  moreover have "po_role entry = Entry_role" "po_quantity entry = tp_quantity plan" by (simp_all add: entry_def entry_order_def Let_def)
  moreover obtain rest where "tp_orders plan = entry # rest" using p(2) unfolding plannedOrders_def entry_def by (auto simp: rbind_Inr_iff dest: sym)
  ultimately show thesis using that [of entry] by simp
qed

lemma same_tier_again:
  assumes "solveTierQuantity tiers requested f = Inr s"
  shows "tierForQuantity (te_tiers tiers) (sol_quantity s) (te_markPrice tiers) = Inr (sol_tierIndex s)"
  using solver_result_good [OF assms] by (simp add: good_solution_def tier_position_def tierForQuantity_def requireTier_def)


lemma original_budget_limits:
  assumes "originalNotionalBudget input capital leverage = Inr maximum"
  shows "dec_val maximum \<le> dec_val (sz_maxPositionNotional (st_sizing (tpi_strategy input)))"
    "dec_val maximum \<le> dec_val (as_availableBalance (tpi_account input)) * of_int leverage"
proof -
  obtain bp cap where b: "multiplyDecimal (as_availableBalance (tpi_account input)) (show_int leverage) = Inr bp"
    "minDecimal [sz_maxPositionNotional (st_sizing (tpi_strategy input)), bp, cap] = Inr maximum"
    using assms by (auto simp: originalNotionalBudget_def Let_def rbind_Inr_iff)
  have "dec_val maximum \<le> dec_val (sz_maxPositionNotional (st_sizing (tpi_strategy input)))" "dec_val maximum \<le> dec_val bp"
    using min_Inr(2) [OF b(2)] by simp_all
  with leveraged_exact [OF b(1)]
  show "dec_val maximum \<le> dec_val (sz_maxPositionNotional (st_sizing (tpi_strategy input)))"
    "dec_val maximum \<le> dec_val (as_availableBalance (tpi_account input)) * of_int leverage" by simp_all
qed

text \<open>The tier decision a plan carries: its sizing, the tier it was sized in and a budget that covers it.\<close>

definition covering_decision :: "(string \<Rightarrow> string) \<Rightarrow> trading_plan_input \<Rightarrow> trading_plan \<Rightarrow> tier_evidence \<Rightarrow> tier_decision \<Rightarrow> string \<Rightarrow> bool" where
  "covering_decision sha256 input plan tiers decision maximum \<longleftrightarrow>
     td_version decision = 1 \<and> td_evidenceHash decision = tierEvidenceHash sha256 tiers \<and> td_contractSize decision = te_contractSize tiers \<and>
     td_providerSymbol decision = te_providerSymbol tiers \<and> td_quantity decision = tp_quantity plan \<and> td_leverage decision = tp_leverage plan \<and>
     td_maximumNotional decision = Some maximum \<and> td_maximumNotionalCurrency decision = None \<and> td_maximumNotionalValue decision = None \<and>
     tierForQuantity (te_tiers tiers) (tp_quantity plan) (te_markPrice tiers) = Inr (td_tierIndex decision) \<and>
     0 \<le> td_tierIndex decision \<and> nat (td_tierIndex decision) < length (te_tiers tiers) \<and>
     tp_leverage plan \<le> lt_maxLeverage (te_tiers tiers ! nat (td_tierIndex decision)) \<and>
     decimal_pattern (tp_quantity plan) \<and> decimal_pattern (plan_price plan) \<and> decimal_pattern (ms_markPrice (tpi_market input)) \<and> decimal_pattern maximum \<and>
     dec_val (tp_quantity plan) * max (dec_val (ms_markPrice (tpi_market input))) (dec_val (plan_price plan)) \<le> dec_val maximum \<and>
     dec_val maximum \<le> dec_val (sz_maxPositionNotional (st_sizing (tpi_strategy input))) \<and>
     dec_val maximum \<le> dec_val (as_availableBalance (tpi_account input)) * of_int (tp_leverage plan)"

lemma plan_carries_decision:
  assumes "createTradingPlan sha256 clock input = Inr plan" "tpi_fxConversion input = None" "ms_leverageTiers (tpi_market input) = Some tiers"
  obtains decision maximum where "tp_leverageTierDecision plan = Some decision" "covering_decision sha256 input plan tiers decision maximum"
proof -
  obtain distance sizing where p: "solvePlanSizing sha256 clock input (tp_entryPrice plan) distance (plan_price plan) = Inr sizing"
    "tp_quantity plan = ps_quantity sizing" "tp_leverage plan = ps_leverage sizing" "tp_leverageTierDecision plan = ps_tierDecision sizing"
    using plan_parts [OF assms(1)] by metis
  obtain percent share sizingPrice c solved maximum where s:
    "rbind (multiplyDecimal (as_equity (tpi_account input)) percent) (\<lambda>p. divideDecimal p ''100'' 18) = Inr share"
    "compareDecimal (ms_markPrice (tpi_market input)) (plan_price plan) = Inr c"
    "sizingPrice = (if c > 0 then ms_markPrice (tpi_market input) else plan_price plan)"
    "solveTierQuantity tiers (ld_effective (resolveLeverageDecision (tpi_signal input) (tpi_strategy input) (tpi_market input)))
       (quantityForPlan sha256 clock input sizingPrice percent distance) = Inr solved"
    "originalNotionalBudget input share (sol_leverage solved) = Inr maximum"
    "ps_quantity sizing = sol_quantity solved" "ps_leverage sizing = sol_leverage solved"
    "tierDecision sha256 tiers solved (Decimal_budget maximum) = Inr (the (ps_tierDecision sizing))" "ps_tierDecision sizing \<noteq> None"
    using p(1) assms(3,2) by (rule tiered_sizing)
  note g = solver_result_good [OF s(4), unfolded good_solution_def tier_position_def]
  obtain q where q: "quantityForPlan sha256 clock input sizingPrice percent distance (sol_leverage solved) = Inr q"
    "decimal_positive q = Inr (sol_quantity solved)"
    using g by (auto simp: rbind_Inr_iff)
  have v: "decimal_pattern (sol_quantity solved)" "dec_val (sol_quantity solved) = dec_val q"
    using decimal_positive_value [OF q(2)] plan_quantity_limits(2) [OF q(1) assms(2)] trim_valid by auto
  note b = budget_covers_quantity [OF q(1) assms(2) s(1,5)] and l = original_budget_limits [OF s(5)]
  note cmp = compare_Inr [OF s(2)]
  have "dec_val sizingPrice = max (dec_val (ms_markPrice (tpi_market input))) (dec_val (plan_price plan))"
    using cmp by (auto simp: s(3) rat_cmp_def split: if_splits)
  moreover have "the (ps_tierDecision sizing) = \<lparr>td_version = 1, td_evidenceHash = tierEvidenceHash sha256 tiers,
      td_providerSymbol = te_providerSymbol tiers, td_contractSize = te_contractSize tiers, td_tierIndex = sol_tierIndex solved,
      td_quantity = sol_quantity solved, td_leverage = sol_leverage solved, td_maximumNotional = Some maximum,
      td_maximumNotionalCurrency = None, td_maximumNotionalValue = None\<rparr>"
    using s(8) by (simp add: tierDecision_def)
  ultimately have "covering_decision sha256 input plan tiers (the (ps_tierDecision sizing)) maximum"
    unfolding covering_decision_def p(2,3) s(6,7)
    using g b l v cmp same_tier_again [OF s(4)] by simp
  with that p(4) s(9) show thesis by auto
qed


lemma decision_needs_tiers:
  assumes "createTradingPlan sha256 clock input = Inr plan" "tp_leverageTierDecision plan = Some decision"
  shows "\<exists>tiers. ms_leverageTiers (tpi_market input) = Some tiers"
proof (rule ccontr)
  assume "\<not> ?thesis"
  then have none: "ms_leverageTiers (tpi_market input) = None" by auto
  obtain distance sizing where "solvePlanSizing sha256 clock input (tp_entryPrice plan) distance (plan_price plan) = Inr sizing"
    "tp_leverageTierDecision plan = ps_tierDecision sizing"
    using plan_parts [OF assms(1)] by metis
  with none assms(2) show False unfolding solvePlanSizing_def Let_def by (auto simp: rbind_Inr_iff)
qed

lemma notional_budget_Inr:
  assumes "assertTierNotionalBudget quantity mark price maximum = Inr ()" "decimal_pattern quantity" "decimal_pattern maximum"
  shows "dec_val quantity * max (dec_val mark) (dec_val price) \<le> dec_val maximum"
proof -
  have "decimal_pattern mark" "decimal_pattern price"
    using assms(1) by (auto simp: assertTierNotionalBudget_def higher_price_def rbind_Inr_iff dest: compare_Inr)
  with assms notional_budget_iff show ?thesis by blast
qed

lemma fresh_plan_admitted:
  assumes plan: "createTradingPlan sha256 clock input = Inr plan" "tpi_fxConversion input = None"
    and evidence: "assertTierEvidence account (tp_symbol plan) (tpi_market input) now = Inr ev"
  shows "assertPlanTierDecision sha256 account plan (tpi_market input) now = Inr ()"
proof -
  note e = tier_evidence_accepted [OF evidence]
  obtain decision maximum where d: "tp_leverageTierDecision plan = Some decision" "covering_decision sha256 input plan ev decision maximum"
    using plan e(1) by (rule plan_carries_decision)
  note c = d(2) [unfolded covering_decision_def]
  obtain entry where entry: "find (\<lambda>order. po_role order = Entry_role) (tp_orders plan) = Some entry" "po_quantity entry = tp_quantity plan"
    "po_price entry = Some (plan_price plan)"
    using plan(1) by (rule planned_entry)
  have "plan_price plan \<noteq> []" using c by (auto simp: decimal_pattern_def)
  moreover have "assertTierDecisionBudget decision (te_currency ev) (tp_quantity plan) (te_markPrice ev) (plan_price plan) = Inr ()"
    using c notional_budget_iff e(6) by (simp add: assertTierDecisionBudget_def)
  moreover have "assertCurrentPlanTier ev plan decision = Inr ()" using c by (simp add: assertCurrentPlanTier_def rbind_Inr_iff)
  ultimately show ?thesis
    unfolding assertPlanTierDecision_def evidence d(1) using c entry by (simp add: rbind_Inr_iff)
qed

lemma admitted_plan_decision:
  assumes "assertPlanTierDecision sha256 account plan market now = Inr ()"
  obtains ev decision entry price where "assertTierEvidence account (tp_symbol plan) market now = Inr ev"
    "tp_leverageTierDecision plan = Some decision" "td_evidenceHash decision = tierEvidenceHash sha256 ev"
    "tierForQuantity (te_tiers ev) (tp_quantity plan) (te_markPrice ev) = Inr (td_tierIndex decision)"
    "tp_leverage plan \<le> lt_maxLeverage (te_tiers ev ! nat (td_tierIndex decision))"
    "find (\<lambda>order. po_role order = Entry_role) (tp_orders plan) = Some entry" "po_price entry = Some price"
    "assertTierDecisionBudget decision (te_currency ev) (tp_quantity plan) (te_markPrice ev) price = Inr ()"
proof -
  note a = assms [unfolded assertPlanTierDecision_def]
  obtain ev where ev: "assertTierEvidence account (tp_symbol plan) market now = Inr ev" using a by (auto simp: rbind_Inr_iff)
  obtain decision where d: "tp_leverageTierDecision plan = Some decision" using a ev by (cases "tp_leverageTierDecision plan") auto
  obtain entry where en: "find (\<lambda>order. po_role order = Entry_role) (tp_orders plan) = Some entry"
    using a ev d by (cases "find (\<lambda>order. po_role order = Entry_role) (tp_orders plan)") (auto simp: rbind_Inr_iff)
  obtain price where pr: "po_price entry = Some price" using a ev d en by (cases "po_price entry") (auto simp: rbind_Inr_iff)
  show thesis
    by (rule that [OF ev d _ _ _ en pr]) (use a ev d en pr in \<open>auto simp: assertCurrentPlanTier_def rbind_Inr_iff split: if_splits\<close>)
qed

text \<open>An account on a real exchange trades one-way, in cross margin, on evidence of less than ten seconds that is its own.\<close>

lemma entry_mode_established:
  assumes "readEntryModeEvidence adapter account symbol now = Inr (Some evidence)"
  shows "ta_exchange account \<noteq> ''paper''" "adapter = Some (Inr evidence)" "ec_positionMode evidence = ''oneway''" "ec_marginMode evidence = ''cross''"
    "ec_entryAllowed evidence" "ec_observedAt evidence \<le> now" "now < ec_observedAt evidence + 10000" "ec_symbol evidence = symbol"
    "Some (ec_accountFingerprint evidence) = ta_externalAccountId account" "map_of mode_profiles (ta_exchange account) \<noteq> None"
  using assms
  by (auto simp: readEntryModeEvidence_def assertEntryModeEvidence_def assertModeBinding_def assertModeFresh_def assertProfile_def max_mode_age_ms_def
      modeFailure_def rejectModeReadback_def rbind_Inr_iff split: if_splits option.splits)


section \<open>Properties\<close>

text \<open>
  C26: planning and admission agree. A plan made without a currency conversion passes the tier check against the
  market it was planned on for as long as that market's evidence is accepted; and against any later
  market it passes only on complete evidence of less than ten seconds for a flat account, with the
  tier table of the same hash, when its quantity at the new mark price is still in the tier it was planned in, which
  allows its leverage, and while its quantity at the dearer of
  the mark and its own limit price stays within the strategy's notional limit and the buying power
  it was planned with.
\<close>

theorem admission_matches_planning:
  assumes plan: "createTradingPlan sha256 clock input = Inr plan" "tpi_fxConversion input = None"
  shows "(\<forall>now ev. assertTierEvidence account (tp_symbol plan) (tpi_market input) now = Inr ev \<longrightarrow>
      assertPlanTierDecision sha256 account plan (tpi_market input) now = Inr ()) \<and>
    (\<forall>market now. assertPlanTierDecision sha256 account plan market now = Inr () \<longrightarrow>
      (\<exists>original ev decision. ms_leverageTiers (tpi_market input) = Some original \<and> ms_leverageTiers market = Some ev \<and>
        tierEvidenceHash sha256 ev = tierEvidenceHash sha256 original \<and>
        te_observedAt ev \<le> now \<and> now < te_observedAt ev + 10000 \<and>
        ts_complete (te_scope ev) \<and> ts_positionQuantity (te_scope ev) = ''0'' \<and> ts_openOrderCount (te_scope ev) = 0 \<and>
        tp_leverageTierDecision plan = Some decision \<and>
        tierForQuantity (te_tiers original) (tp_quantity plan) (te_markPrice original) = Inr (td_tierIndex decision) \<and>
        tier_position (te_tiers ev) (tp_quantity plan) (ms_markPrice market) (td_tierIndex decision) \<and>
        tp_leverage plan \<le> lt_maxLeverage (te_tiers ev ! nat (td_tierIndex decision)) \<and>
        dec_val (tp_quantity plan) * max (dec_val (ms_markPrice market)) (dec_val (plan_price plan))
          \<le> min (dec_val (sz_maxPositionNotional (st_sizing (tpi_strategy input))))
              (dec_val (as_availableBalance (tpi_account input)) * of_int (tp_leverage plan))))"
proof (intro conjI allI impI)
  fix now ev
  assume "assertTierEvidence account (tp_symbol plan) (tpi_market input) now = Inr ev"
  with plan show "assertPlanTierDecision sha256 account plan (tpi_market input) now = Inr ()" by (rule fresh_plan_admitted)
next
  fix market now
  assume "assertPlanTierDecision sha256 account plan market now = Inr ()"
  then obtain ev decision entry price where a: "assertTierEvidence account (tp_symbol plan) market now = Inr ev"
    "tp_leverageTierDecision plan = Some decision" "td_evidenceHash decision = tierEvidenceHash sha256 ev"
    "tierForQuantity (te_tiers ev) (tp_quantity plan) (te_markPrice ev) = Inr (td_tierIndex decision)"
    "tp_leverage plan \<le> lt_maxLeverage (te_tiers ev ! nat (td_tierIndex decision))"
    "find (\<lambda>order. po_role order = Entry_role) (tp_orders plan) = Some entry" "po_price entry = Some price"
    "assertTierDecisionBudget decision (te_currency ev) (tp_quantity plan) (te_markPrice ev) price = Inr ()"
    by (rule admitted_plan_decision)
  note e = tier_evidence_accepted [OF a(1)]
  obtain original where orig: "ms_leverageTiers (tpi_market input) = Some original" using decision_needs_tiers [OF plan(1) a(2)] by blast
  obtain d maximum where d: "tp_leverageTierDecision plan = Some d" "covering_decision sha256 input plan original d maximum"
    using plan orig by (rule plan_carries_decision)
  note c = d(2) [unfolded covering_decision_def]
  have same: "d = decision" "price = plan_price plan" using d(1) a(2,6,7) planned_entry [OF plan(1)] by (metis option.inject)+
  have tier: "tier_position (te_tiers ev) (tp_quantity plan) (ms_markPrice market) (td_tierIndex decision)"
    using find_tier_spec [OF table_chain(1) [OF e(10)]] a(4) e(6) by (fastforce simp: tierForQuantity_def tier_position_def rbind_Inr_iff)
  have "dec_val (tp_quantity plan) * max (dec_val (ms_markPrice market)) (dec_val (plan_price plan)) \<le> dec_val maximum"
    using a(8) c e(6) same by (intro notional_budget_Inr) (simp_all add: assertTierDecisionBudget_def)
  then show "\<exists>original ev decision. ms_leverageTiers (tpi_market input) = Some original \<and> ms_leverageTiers market = Some ev \<and>
        tierEvidenceHash sha256 ev = tierEvidenceHash sha256 original \<and>
        te_observedAt ev \<le> now \<and> now < te_observedAt ev + 10000 \<and>
        ts_complete (te_scope ev) \<and> ts_positionQuantity (te_scope ev) = ''0'' \<and> ts_openOrderCount (te_scope ev) = 0 \<and>
        tp_leverageTierDecision plan = Some decision \<and>
        tierForQuantity (te_tiers original) (tp_quantity plan) (te_markPrice original) = Inr (td_tierIndex decision) \<and>
        tier_position (te_tiers ev) (tp_quantity plan) (ms_markPrice market) (td_tierIndex decision) \<and>
        tp_leverage plan \<le> lt_maxLeverage (te_tiers ev ! nat (td_tierIndex decision)) \<and>
        dec_val (tp_quantity plan) * max (dec_val (ms_markPrice market)) (dec_val (plan_price plan))
          \<le> min (dec_val (sz_maxPositionNotional (st_sizing (tpi_strategy input))))
              (dec_val (as_availableBalance (tpi_account input)) * of_int (tp_leverage plan))"
    using orig e tier a(2,3,5) c same by (intro exI [of _ original] exI [of _ ev] exI [of _ decision]) auto
qed


definition tier_account :: trading_account where
  "tier_account = \<lparr>ta_id = ''a'', ta_name = ''sim'', ta_exchange = ''paper'', ta_mode = Paper, ta_status = Ready, ta_enabled = True,
     ta_credentialRef = None, ta_externalAccountId = None, ta_credentialGeneration = None, ta_maxConcurrentPositions = 1, ta_killSwitchActive = False,
     ta_killSwitchReason = None, ta_capabilities = None, ta_lastVerifiedAt = None, ta_lastReconciledAt = None, ta_lastError = None,
     ta_createdAt = 0, ta_updatedAt = 0\<rparr>"

definition tiered_plan_input :: trading_plan_input where
  "tiered_plan_input = sample_plan_input\<lparr>tpi_market := (tpi_market sample_plan_input)\<lparr>ms_maxLeverage := 20,
     ms_leverageTiers := Some (sample_evidence\<lparr>te_markPrice := ''1'', te_source := ''paper_simulated_complete_tiers_v1''\<rparr>)\<rparr>\<rparr>"

theorem admission_matches_planning_witness:
  "\<exists>plan. createTradingPlan (\<lambda>_. ''h'') 0 tiered_plan_input = Inr plan \<and>
     assertPlanTierDecision (\<lambda>_. ''h'') tier_account plan (tpi_market tiered_plan_input) 9999 = Inr () \<and>
     dec_val (tp_quantity plan) * max 1 (dec_val (plan_price plan)) \<le> 1000"
proof -
  obtain plan where plan: "createTradingPlan (\<lambda>_. ''h'') 0 tiered_plan_input = Inr plan" "tp_symbol plan = ''BTC''"
  proof -
    have "case createTradingPlan (\<lambda>_. ''h'') 0 tiered_plan_input of Inl e \<Rightarrow> False | Inr plan \<Rightarrow> tp_symbol plan = ''BTC''" by code_simp
    with that show thesis by (auto split: sum.splits)
  qed
  obtain ev where ev: "assertTierEvidence tier_account ''BTC'' (tpi_market tiered_plan_input) 9999 = Inr ev"
  proof -
    have "case assertTierEvidence tier_account ''BTC'' (tpi_market tiered_plan_input) 9999 of Inl e \<Rightarrow> False | Inr ev \<Rightarrow> True" by code_simp
    with that show thesis by (auto split: sum.splits)
  qed
  have fx: "tpi_fxConversion tiered_plan_input = None" by (simp add: tiered_plan_input_def sample_plan_input_def)
  have "ms_markPrice (tpi_market tiered_plan_input) = ''1''" "sz_maxPositionNotional (st_sizing (tpi_strategy tiered_plan_input)) = ''1000''"
    "dec_val ''1'' = 1" "dec_val ''1000'' = 1000" by code_simp+
  with admission_matches_planning [OF plan(1) fx, of tier_account] ev plan show ?thesis by (metis min.bounded_iff)
qed

end
