(* ===== verification/Trading_Accounting.thy ===== *)
theory Trading_Accounting
  imports Trading_Fx JS_Conversions
begin

text \<open>
  Accounting evidence of accounts and fills (\<^verbatim>\<open>src/trading_accounting_contract.ts\<close>): validation of the
  settlement contract of a market, of funding payments and of observed funding totals, and the
  total that follows from them. Values are untyped data. Fields whose type is a single constant
  (version, linear, quantityUnit and the provenance of an observation) carry no information in the result.
\<close>

section \<open>Scalars\<close>

definition accounting_object :: "js \<Rightarrow> (string \<times> js) list result" where
  "accounting_object value = (case value of JObj props \<Rightarrow> Inr props | _ \<Rightarrow> Inl (Error ''Invalid accounting evidence object.''))"

definition isStringMember :: "js \<Rightarrow> string list \<Rightarrow> bool" where
  "isStringMember value allowed = (case value of JStr s \<Rightarrow> s \<in> set allowed | _ \<Rightarrow> False)"

definition is_control :: "char \<Rightarrow> bool" where
  "is_control c \<longleftrightarrow> (of_char c :: int) < 32"

definition invalidTokenText :: "string \<Rightarrow> int \<Rightarrow> bool" where
  "invalidTokenText value maximum \<longleftrightarrow> value = [] \<or> int (length value) > maximum \<or> js_trim value \<noteq> value \<or> list_ex is_control value"

definition token :: "js \<Rightarrow> int \<Rightarrow> string result" where
  "token value maximum = (case value of
       JStr s \<Rightarrow> if invalidTokenText s maximum then Inl (Error ''Invalid accounting evidence identity.'') else Inr s
     | _ \<Rightarrow> Inl (Error ''Invalid accounting evidence identity.''))"

definition asset_pattern :: "string \<Rightarrow> bool" where
  "asset_pattern s \<longleftrightarrow> s \<noteq> [] \<and> int (length s) \<le> 32 \<and> (is_upper (hd s) \<or> is_digit (hd s)) \<and>
     list_all (\<lambda>c. is_upper c \<or> is_digit c \<or> c \<in> set ''._-'') (tl s)"

definition asset :: "js \<Rightarrow> string result" where
  "asset value = (case value of
       JStr s \<Rightarrow> if asset_pattern s then Inr s else Inl (Error ''Invalid accounting asset.'')
     | _ \<Rightarrow> Inl (Error ''Invalid accounting asset.''))"

definition timestamp :: "js \<Rightarrow> int result" where
  "timestamp value = (case safe_integer_of value of
       Some n \<Rightarrow> if n < 0 then Inl (Error ''Invalid accounting timestamp.'') else Inr n
     | None \<Rightarrow> Inl (Error ''Invalid accounting timestamp.''))"

text \<open>\<^verbatim>\<open>if (value !== null) check(value)\<close>\<close>

definition nullable :: "(js \<Rightarrow> string result) \<Rightarrow> js \<Rightarrow> string option result" where
  "nullable check value = (if value = JNull then Inr None else rbind (check value) (\<lambda>s. Inr (Some s)))"


section \<open>Fills\<close>

definition fillAccountingContract :: "(string \<times> js) list \<Rightarrow> unit result" where
  "fillAccountingContract row =
     throw_if (js_get row ''version'' \<noteq> JNum (Num 1) \<or> js_get row ''linear'' \<noteq> JBool True \<or> js_get row ''quantityUnit'' \<noteq> JStr ''base''
        \<or> \<not> isStringMember (js_get row ''source'') [''ccxt-market-v1'', ''paper-contract-v1''])
       (Error ''Unsupported fill accounting contract.'')"

definition validateFillAccounting :: "js \<Rightarrow> string option \<Rightarrow> fill_accounting result" where
  "validateFillAccounting value providerSymbol =
     rbind (accounting_object value) (\<lambda>row.
     rbind (fillAccountingContract row) (\<lambda>_.
     rbind (token (js_get row ''providerSymbol'') 256) (\<lambda>symbol.
     rbind (asset (js_get row ''settlementAsset'')) (\<lambda>settlement.
     rbind (throw_if (providerSymbol \<noteq> None \<and> providerSymbol \<noteq> Some symbol)
              (Error ''Fill accounting market differs from the provider market.'')) (\<lambda>_.
       Inr \<lparr>fa_source = (case js_get row ''source'' of JStr s \<Rightarrow> s | _ \<Rightarrow> []), fa_providerSymbol = symbol, fa_settlementAsset = settlement\<rparr>)))))"


section \<open>Funding\<close>

record funding_event =
  fev_id :: string
  fev_timestamp :: int
  fev_amount :: string
  fev_asset :: "string option"

record funding_observation =
  fob_status :: string
  fob_namespace :: string
  fob_accountFingerprint :: string
  fob_credentialGeneration :: string
  fob_revisionHash :: string
  fob_since :: int
  fob_through :: int
  fob_reportingCurrency :: "string option"
  fob_amount :: "string option"
  fob_reason :: "string option"
  fob_value :: "money_value option option"

record funding_evidence =
  fun_status :: string
  fun_since :: int
  fun_until :: int
  fun_observation :: "funding_observation option"
  fun_cursor :: "string option"
  fun_source :: string
  fun_reason :: "string option"
  fun_nextReadAt :: int
  fun_events :: "funding_event list"

definition fundingEventAmount :: "(string \<times> js) list \<Rightarrow> string result" where
  "fundingEventAmount row = (case js_get row ''amount'' of
       JStr s \<Rightarrow> if js_trim s \<noteq> s then Inl (Error ''Invalid funding amount.'') else Inr s
     | _ \<Rightarrow> Inl (Error ''Invalid funding amount.''))"

definition fundingEvent :: "js \<Rightarrow> int \<Rightarrow> int \<Rightarrow> funding_event result" where
  "fundingEvent value since until =
     rbind (accounting_object value) (\<lambda>row.
     rbind (token (js_get row ''id'') 256) (\<lambda>i.
     rbind (timestamp (js_get row ''timestamp'')) (\<lambda>t.
     rbind (throw_if (t < since \<or> t > until) (Error ''Funding event is outside its evidence window.'')) (\<lambda>_.
     rbind (fundingEventAmount row) (\<lambda>raw.
     rbind (nullable asset (js_get row ''asset'')) (\<lambda>a.
     rbind (signedDecimal raw) (\<lambda>amount.
       Inr \<lparr>fev_id = i, fev_timestamp = t, fev_amount = amount, fev_asset = a\<rparr>)))))))"

definition fundingWindow :: "(string \<times> js) list \<Rightarrow> (int \<times> int \<times> int) result" where
  "fundingWindow row =
     rbind (timestamp (js_get row ''since'')) (\<lambda>since.
     rbind (timestamp (js_get row ''until'')) (\<lambda>until.
     rbind (timestamp (js_get row ''nextReadAt'')) (\<lambda>nextReadAt.
     rbind (throw_if (until < since \<or> until - since > 86400000) (Error ''Invalid bounded funding window.'')) (\<lambda>_.
       Inr (since, until, nextReadAt)))))"

definition completeFundingContinuation :: "(string \<times> js) list \<Rightarrow> unit result" where
  "completeFundingContinuation row =
     throw_if (js_get row ''status'' = JStr ''complete'' \<and> (js_get row ''cursor'' \<noteq> JNull \<or> js_get row ''reason'' \<noteq> JNull))
       (Error ''Complete funding evidence retains unresolved continuation.'')"

definition fundingContinuation :: "(string \<times> js) list \<Rightarrow> (string \<times> string option \<times> string option) result" where
  "fundingContinuation row =
     rbind (token (js_get row ''source'') 256) (\<lambda>source.
     rbind (nullable (\<lambda>v. token v 4096) (js_get row ''cursor'')) (\<lambda>cursor.
     rbind (nullable (\<lambda>v. token v 256) (js_get row ''reason'')) (\<lambda>reason.
     rbind (completeFundingContinuation row) (\<lambda>_. Inr (source, cursor, reason)))))"

definition fundingEvents :: "(string \<times> js) list \<Rightarrow> int \<Rightarrow> int \<Rightarrow> funding_event list result" where
  "fundingEvents row since until = (case js_get row ''events'' of
       JArr values \<Rightarrow>
         if int (length values) > 25000 then Inl (Error ''Invalid bounded funding event collection.'')
         else rbind (mapM (\<lambda>v. fundingEvent v since until) values) (\<lambda>events.
           rbind (throw_if (\<not> distinct (map fev_id events)) (Error ''Duplicate funding event identity.'')) (\<lambda>_. Inr events))
     | _ \<Rightarrow> Inl (Error ''Invalid bounded funding event collection.''))"

definition nullableFundingValue :: "js \<Rightarrow> money_value option result" where
  "nullableFundingValue value = (if value = JNull then Inr None else rbind (validateMoneyValue value) (\<lambda>m. Inr (Some m)))"

text \<open>
  The alias is given as the untyped value it is compared with; the result distinguishes an absent
  value (the source's \<^verbatim>\<open>undefined\<close>) from \<^verbatim>\<open>null\<close>.
\<close>

definition validateFundingValue :: "js \<Rightarrow> js \<Rightarrow> money_value option option result" where
  "validateFundingValue amount value =
     (if value = JUndefined then Inr None
      else rbind (nullableFundingValue value) (\<lambda>res.
        rbind (throw_if (amount \<noteq> (case res of None \<Rightarrow> JNull | Some m \<Rightarrow> js_of_string_option (mv_decimal m)))
                 (Error ''Funding decimal alias contradicts its money value.'')) (\<lambda>_. Inr (Some res))))"

definition invalidObservationProvenance :: "(string \<times> js) list \<Rightarrow> bool" where
  "invalidObservationProvenance row \<longleftrightarrow> js_get row ''sourceScope'' \<noteq> JStr ''source_account''
     \<or> js_get row ''finality'' \<noteq> JStr ''provider_as_observed'' \<or> js_get row ''delivery'' \<noteq> JStr ''may_be_delayed''"

definition binding_field :: "(string \<times> js) list \<Rightarrow> string \<Rightarrow> string result" where
  "binding_field row field = (case js_get row field of
       JStr s \<Rightarrow> if hex64 s then Inr s else Inl (Error ''Invalid funding observation binding.'')
     | _ \<Rightarrow> Inl (Error ''Invalid funding observation binding.''))"

definition observationBindings :: "(string \<times> js) list \<Rightarrow> (string list) result" where
  "observationBindings row = mapM (binding_field row) [''accountFingerprint'', ''credentialGeneration'', ''revisionHash'']"

definition observationIdentity :: "(string \<times> js) list \<Rightarrow> (string \<times> string list) result" where
  "observationIdentity row =
     rbind (throw_if (js_get row ''version'' \<noteq> JNum (Num 1) \<or> \<not> isStringMember (js_get row ''status'') [''observed'', ''incomplete'']
         \<or> invalidObservationProvenance row) (Error ''Invalid observed funding proof.'')) (\<lambda>_.
     rbind (token (js_get row ''namespace'') 256) (\<lambda>namespace.
     rbind (observationBindings row) (\<lambda>bindings. Inr (namespace, bindings))))"

definition observationMetadata :: "(string \<times> js) list \<Rightarrow> (int \<times> int \<times> string option \<times> string option) result" where
  "observationMetadata row =
     rbind (timestamp (js_get row ''since'')) (\<lambda>since.
     rbind (timestamp (js_get row ''through'')) (\<lambda>through.
     rbind (nullable asset (js_get row ''reportingCurrency'')) (\<lambda>currency.
     rbind (nullable (\<lambda>v. token v 256) (js_get row ''reason'')) (\<lambda>reason. Inr (since, through, currency, reason)))))"

definition observedFundingValueKnown :: "money_value option option \<Rightarrow> string option \<Rightarrow> bool" where
  "observedFundingValueKnown monetary amount = (case monetary of None \<Rightarrow> amount \<noteq> None | Some m \<Rightarrow> m \<noteq> None)"

definition observationValuation :: "(string \<times> js) list \<Rightarrow> money_value option option \<Rightarrow> string option \<Rightarrow> unit result" where
  "observationValuation row monetary amount =
     throw_if (js_get row ''status'' = JStr ''observed''
        \<and> (\<not> observedFundingValueKnown monetary amount \<or> js_get row ''reportingCurrency'' = JNull \<or> js_get row ''reason'' \<noteq> JNull))
       (Error ''Observed funding has unresolved valuation.'')"

text \<open>\<^verbatim>\<open>signedDecimal\<close> on an untyped value.\<close>

definition signed_input :: "js \<Rightarrow> string result" where
  "signed_input value = (case value of JStr s \<Rightarrow> signedDecimal s | _ \<Rightarrow> Inl (Error ''Invalid signed decimal.''))"

definition fundingObservation :: "js \<Rightarrow> funding_observation result" where
  "fundingObservation value =
     rbind (accounting_object value) (\<lambda>row.
     rbind (observationIdentity row) (\<lambda>(namespace, bindings).
     rbind (observationMetadata row) (\<lambda>(since, through, currency, reason).
     rbind (nullable signed_input (js_get row ''amount'')) (\<lambda>amount.
     rbind (validateFundingValue (js_get row ''amount'') (js_get row ''value'')) (\<lambda>monetary.
     rbind (observationValuation row monetary amount) (\<lambda>_.
       Inr \<lparr>fob_status = (case js_get row ''status'' of JStr s \<Rightarrow> s | _ \<Rightarrow> []), fob_namespace = namespace, fob_accountFingerprint = bindings ! 0,
            fob_credentialGeneration = bindings ! 1, fob_revisionHash = bindings ! 2, fob_since = since, fob_through = through,
            fob_reportingCurrency = currency, fob_amount = amount, fob_reason = reason, fob_value = monetary\<rparr>))))))"

definition invalidObservationEnvelope :: "funding_observation \<Rightarrow> string \<Rightarrow> int \<Rightarrow> int \<Rightarrow> string \<Rightarrow> nat \<Rightarrow> bool" where
  "invalidObservationEnvelope proof status since until source eventCount \<longleftrightarrow>
     fob_since proof \<noteq> since \<or> max (fob_since proof) (fob_through proof) \<noteq> until \<or> fob_namespace proof \<noteq> source
     \<or> (fob_status proof = ''observed'') \<noteq> (status = ''complete'') \<or> eventCount \<noteq> 0"

definition observationEnvelope :: "(string \<times> js) list \<Rightarrow> string \<Rightarrow> int \<Rightarrow> int \<Rightarrow> string \<Rightarrow> nat \<Rightarrow> funding_observation option result" where
  "observationEnvelope row status since until source eventCount =
     (if js_get row ''observation'' = JUndefined then Inr None
      else rbind (fundingObservation (js_get row ''observation'')) (\<lambda>proof.
        rbind (throw_if (invalidObservationEnvelope proof status since until source eventCount)
                 (Error ''Funding observation contradicts its envelope.'')) (\<lambda>_. Inr (Some proof))))"

definition validateFundingEvidence :: "js \<Rightarrow> funding_evidence result" where
  "validateFundingEvidence value =
     rbind (accounting_object value) (\<lambda>row.
     rbind (throw_if (\<not> isStringMember (js_get row ''status'') [''complete'', ''incomplete'', ''unsupported''])
              (Error ''Invalid funding completeness.'')) (\<lambda>_.
     let status = (case js_get row ''status'' of JStr s \<Rightarrow> s | _ \<Rightarrow> []) in
     rbind (fundingWindow row) (\<lambda>(since, until, nextReadAt).
     rbind (fundingContinuation row) (\<lambda>(source, cursor, reason).
     rbind (fundingEvents row since until) (\<lambda>events.
     rbind (observationEnvelope row status since until source (length events)) (\<lambda>observation.
       Inr \<lparr>fun_status = status, fun_since = since, fun_until = until, fun_observation = observation, fun_cursor = cursor,
            fun_source = source, fun_reason = reason, fun_nextReadAt = nextReadAt, fun_events = events\<rparr>))))))"


section \<open>Totals\<close>

definition decimalFundingValue :: "string option \<Rightarrow> money_value option result" where
  "decimalFundingValue value = (case value of None \<Rightarrow> Inr None | Some s \<Rightarrow> rbind (moneyValueFromDecimal s) (\<lambda>m. Inr (Some m)))"

definition observedFundingTotal :: "funding_observation \<Rightarrow> string \<Rightarrow> money_value option result" where
  "observedFundingTotal proof reportingCurrency =
     (if fob_status proof \<noteq> ''observed'' \<or> fob_reportingCurrency proof \<noteq> Some reportingCurrency then Inr None
      else case fob_value proof of None \<Rightarrow> decimalFundingValue (fob_amount proof) | Some v \<Rightarrow> Inr v)"

text \<open>The loop over the events: \<^verbatim>\<open>None\<close> when it returns early because of a foreign asset.\<close>

fun event_total :: "string \<Rightarrow> string \<Rightarrow> funding_event list \<Rightarrow> string option result" where
  "event_total reportingCurrency acc [] = Inr (Some acc)"
| "event_total reportingCurrency acc (event # events) =
     (if fev_amount event \<noteq> ''0'' \<and> fev_asset event \<noteq> Some reportingCurrency then Inr None
      else rbind (addSignedDecimal acc (fev_amount event)) (\<lambda>t. event_total reportingCurrency t events))"

definition eventFundingTotal :: "funding_evidence \<Rightarrow> string \<Rightarrow> money_value option result" where
  "eventFundingTotal evidence reportingCurrency =
     rbind (event_total reportingCurrency ''0'' (fun_events evidence)) decimalFundingValue"

definition fundingTotalValue :: "funding_evidence \<Rightarrow> string \<Rightarrow> money_value option result" where
  "fundingTotalValue evidence reportingCurrency =
     (if fun_status evidence \<noteq> ''complete'' then Inr None
      else case fun_observation evidence of
        Some proof \<Rightarrow> observedFundingTotal proof reportingCurrency
      | None \<Rightarrow> eventFundingTotal evidence reportingCurrency)"

definition fundingTotal :: "funding_evidence \<Rightarrow> string \<Rightarrow> string option result" where
  "fundingTotal evidence reportingCurrency =
     rbind (fundingTotalValue evidence reportingCurrency) (\<lambda>v. Inr (case v of None \<Rightarrow> None | Some m \<Rightarrow> mv_decimal m))"


section \<open>Accounts\<close>

record validated_accounting =
  va_accountFingerprint :: string
  va_reportingCurrency :: string
  va_settlementAssets :: "string list"
  va_source :: string
  va_observedAt :: int
  va_unrealizedPnlSemantics :: string
  va_funding :: funding_evidence

definition accountingSettlementAssets :: "(string \<times> js) list \<Rightarrow> string list result" where
  "accountingSettlementAssets row = (case js_get row ''settlementAssets'' of
       JArr values \<Rightarrow>
         if int (length values) > 1000 then Inl (Error ''Invalid accounting settlement metadata.'')
         else rbind (mapM asset values) (\<lambda>assets.
           rbind (throw_if (\<not> distinct assets) (Error ''Duplicate accounting settlement asset.'')) (\<lambda>_. Inr assets))
     | _ \<Rightarrow> Inl (Error ''Invalid accounting settlement metadata.''))"

definition fundingAccountingBinding :: "funding_evidence \<Rightarrow> string \<Rightarrow> string \<Rightarrow> unit result" where
  "fundingAccountingBinding funding accountFingerprint reportingCurrency = (case fun_observation funding of
       None \<Rightarrow> Inr ()
     | Some proof \<Rightarrow> throw_if (fob_accountFingerprint proof \<noteq> accountFingerprint \<or> fob_reportingCurrency proof \<noteq> Some reportingCurrency)
         (Error ''Funding observation accounting binding differs.''))"

definition accountingFundingTotals :: "string \<Rightarrow> funding_evidence \<Rightarrow> string option \<Rightarrow> js \<Rightarrow> unit result" where
  "accountingFundingTotals reportingCurrency funding fundingPnlToday fundingPnlTodayValue =
     rbind (case fundingPnlToday of None \<Rightarrow> Inr None | Some s \<Rightarrow> rbind (signedDecimal s) (\<lambda>d. Inr (Some d))) (\<lambda>reported.
     rbind (fundingTotal funding reportingCurrency) (\<lambda>total.
     rbind (throw_if (total \<noteq> reported) (Error ''Funding total contradicts its currency/completeness evidence.'')) (\<lambda>_.
     rbind (validateFundingValue (js_of_string_option fundingPnlToday) fundingPnlTodayValue) (\<lambda>monetary.
       case monetary of
         None \<Rightarrow> Inr ()
       | Some m \<Rightarrow> rbind (fundingTotalValue funding reportingCurrency) (\<lambda>v.
           throw_if (m \<noteq> v) (Error ''Funding money value contradicts its accounting evidence.''))))))"

definition validateAccountingEvidence :: "js \<Rightarrow> string option \<Rightarrow> js \<Rightarrow> validated_accounting result" where
  "validateAccountingEvidence value fundingPnlToday fundingPnlTodayValue =
     rbind (accounting_object value) (\<lambda>row.
     rbind (token (js_get row ''accountFingerprint'') 256) (\<lambda>fingerprint.
     rbind (token (js_get row ''source'') 256) (\<lambda>source.
     rbind (asset (js_get row ''reportingCurrency'')) (\<lambda>currency.
     rbind (timestamp (js_get row ''observedAt'')) (\<lambda>observedAt.
     rbind (accountingSettlementAssets row) (\<lambda>assets.
     rbind (throw_if (\<not> isStringMember (js_get row ''unrealizedPnlSemantics'') [''price_only'', ''unverified''])
              (Error ''Missing unrealized PnL semantics.'')) (\<lambda>_.
     rbind (validateFundingEvidence (js_get row ''funding'')) (\<lambda>funding.
     rbind (fundingAccountingBinding funding fingerprint currency) (\<lambda>_.
     rbind (accountingFundingTotals currency funding fundingPnlToday fundingPnlTodayValue) (\<lambda>_.
       Inr \<lparr>va_accountFingerprint = fingerprint, va_reportingCurrency = currency, va_settlementAssets = assets, va_source = source,
            va_observedAt = observedAt, va_unrealizedPnlSemantics = (case js_get row ''unrealizedPnlSemantics'' of JStr s \<Rightarrow> s | _ \<Rightarrow> []),
            va_funding = funding\<rparr>))))))))))"


section \<open>What the evidence establishes\<close>

lemma event_total_law:
  assumes "event_total currency acc events = Inr r" "canonical_signed acc" "\<And>e. e \<in> set events \<Longrightarrow> canonical_signed (fev_amount e)"
  shows "case r of
      Some t \<Rightarrow> canonical_signed t \<and> sdec_val t = sdec_val acc + (\<Sum>e\<leftarrow>events. sdec_val (fev_amount e)) \<and>
        (\<forall>e\<in>set events. fev_amount e \<noteq> ''0'' \<longrightarrow> fev_asset e = Some currency)
    | None \<Rightarrow> \<exists>e\<in>set events. fev_amount e \<noteq> ''0'' \<and> fev_asset e \<noteq> Some currency"
  using assms
proof (induction events arbitrary: acc)
  case (Cons e events)
  show ?case
  proof (cases "fev_amount e \<noteq> ''0'' \<and> fev_asset e \<noteq> Some currency")
    case True
    then show ?thesis using Cons.prems(1) by auto
  next
    case False
    then obtain a where a: "addSignedDecimal acc (fev_amount e) = Inr a" "event_total currency a events = Inr r"
      using Cons.prems(1) by (auto simp: rbind_Inr_iff)
    have "canonical_signed a \<and> sdec_val a = sdec_val acc + sdec_val (fev_amount e)" using a(1) Cons.prems(2,3) by (intro add_signed_Inr) auto
    then show ?thesis using Cons.IH [OF a(2)] Cons.prems(3) False by (auto split: option.splits)
  qed
qed auto

lemma funding_events_Inr:
  assumes "fundingEvents row since until = Inr events"
  shows "distinct (map fev_id events)"
    "e \<in> set events \<Longrightarrow> canonical_signed (fev_amount e) \<and> signed_ok (fev_amount e) \<and> since \<le> fev_timestamp e \<and> fev_timestamp e \<le> until"
proof -
  obtain vs where v: "mapM (\<lambda>v. fundingEvent v since until) vs = Inr events" "distinct (map fev_id events)"
    using assms by (auto simp: fundingEvents_def rbind_Inr_iff throw_if_Inr split: js.splits if_splits)
  show "distinct (map fev_id events)" by (rule v(2))
  assume "e \<in> set events"
  then obtain x where "fundingEvent x since until = Inr e" using v(1) unfolding mapM_Inr_iff list_all2_conv_all_nth in_set_conv_nth by metis
  then show "canonical_signed (fev_amount e) \<and> signed_ok (fev_amount e) \<and> since \<le> fev_timestamp e \<and> fev_timestamp e \<le> until"
    by (auto simp: fundingEvent_def rbind_Inr_iff throw_if_Inr dest: signedDecimal_InrD(1,2))
qed

lemma funding_evidence_Inr:
  assumes "validateFundingEvidence value = Inr f"
  shows "distinct (map fev_id (fun_events f))" "fun_since f \<le> fun_until f" "fun_until f \<le> fun_since f + 86400000"
    "e \<in> set (fun_events f) \<Longrightarrow> canonical_signed (fev_amount e) \<and> signed_ok (fev_amount e) \<and> fun_since f \<le> fev_timestamp e \<and> fev_timestamp e \<le> fun_until f"
    "fun_status f = ''complete'' \<Longrightarrow> fun_cursor f = None \<and> fun_reason f = None"
proof -
  obtain row since until n source cursor reason events where h: "fundingWindow row = Inr (since, until, n)"
    "fundingContinuation row = Inr (source, cursor, reason)" "fundingEvents row since until = Inr events"
    "fun_events f = events" "fun_since f = since" "fun_until f = until" "fun_cursor f = cursor" "fun_reason f = reason"
    "fun_status f = (case js_get row ''status'' of JStr s \<Rightarrow> s | _ \<Rightarrow> [])"
    using assms by (auto simp: validateFundingEvidence_def Let_def rbind_Inr_iff)
  note ev = funding_events_Inr [OF h(3)]
  show "distinct (map fev_id (fun_events f))" using ev(1) h by simp
  show "fun_since f \<le> fun_until f" "fun_until f \<le> fun_since f + 86400000"
    using h(1,5,6) by (auto simp: fundingWindow_def rbind_Inr_iff throw_if_Inr)
  show "canonical_signed (fev_amount e) \<and> signed_ok (fev_amount e) \<and> fun_since f \<le> fev_timestamp e \<and> fev_timestamp e \<le> fun_until f" if "e \<in> set (fun_events f)"
    using ev(2) that h by simp
  show "fun_cursor f = None \<and> fun_reason f = None" if "fun_status f = ''complete''"
    using that h(2,7,8,9)
    by (auto simp: fundingContinuation_def completeFundingContinuation_def nullable_def rbind_Inr_iff throw_if_Inr split: js.splits if_splits)
qed

lemma zero_signed: "canonical_signed ''0''"
proof -
  have "signedDecimal ''0'' = Inr ''0''" by code_simp
  then show ?thesis by (rule signedDecimal_InrD(1))
qed

lemma zero_value: "sdec_val ''0'' = 0"
  by code_simp

lemma zero_amount: "canonical_signed t \<Longrightarrow> signed_ok t \<Longrightarrow> sdec_val t = 0 \<longleftrightarrow> t = ''0''"
proof -
  have "decimal_pattern (magnitude_of ''0'')" by code_simp
  then show "canonical_signed t \<Longrightarrow> signed_ok t \<Longrightarrow> sdec_val t = 0 \<longleftrightarrow> t = ''0''"
    using canonical_signed_inj [of t "''0''"] zero_signed zero_value by (auto simp: signed_ok_def)
qed

lemma event_funding_total:
  assumes "eventFundingTotal f currency = Inr v" "\<And>e. e \<in> set (fun_events f) \<Longrightarrow> canonical_signed (fev_amount e)"
  shows "case v of
      Some m \<Rightarrow> \<exists>d. mv_decimal m = Some d \<and> canonical_signed d \<and> sdec_val d = (\<Sum>e\<leftarrow>fun_events f. sdec_val (fev_amount e)) \<and>
        (\<forall>e\<in>set (fun_events f). fev_amount e \<noteq> ''0'' \<longrightarrow> fev_asset e = Some currency)
    | None \<Rightarrow> \<exists>e\<in>set (fun_events f). fev_amount e \<noteq> ''0'' \<and> fev_asset e \<noteq> Some currency"
proof -
  obtain r where r: "event_total currency ''0'' (fun_events f) = Inr r" "decimalFundingValue r = Inr v"
    using assms(1) by (auto simp: eventFundingTotal_def rbind_Inr_iff)
  note law = event_total_law [OF r(1) zero_signed assms(2)]
  show ?thesis
  proof (cases r)
    case None
    then show ?thesis using law r(2) by (simp add: decimalFundingValue_def)
  next
    case (Some t)
    then obtain m where m: "moneyValueFromDecimal t = Inr m" "v = Some m" using r(2) by (auto simp: decimalFundingValue_def rbind_Inr_iff)
    have t: "canonical_signed t" "sdec_val t = (\<Sum>e\<leftarrow>fun_events f. sdec_val (fev_amount e))" using law Some zero_value by simp_all
    obtain l where "signedDecimal t = Inr l" using m(1) by (auto simp: moneyValueFromDecimal_def rationalFromDecimal_def rbind_Inr_iff split: if_splits)
    then have "signed_ok t" using t(1) signed_canonical_ok by blast
    then obtain d where "mv_decimal m = Some d" "canonical_signed d" "sdec_val d = sdec_val t" using m(1) by (auto elim: money_from_decimal)
    then show ?thesis using m(2) law Some t(2) by auto
  qed
qed


lemma observation_envelope_Inr:
  assumes "validateFundingEvidence value = Inr f" "fun_observation f = Some proof"
  shows "fob_since proof = fun_since f" "fob_namespace proof = fun_source f" "fun_events f = []"
    "fob_status proof = ''observed'' \<longleftrightarrow> fun_status f = ''complete''" "\<exists>x. fundingObservation x = Inr proof"
proof -
  obtain row status since until source n where "observationEnvelope row status since until source n = Inr (Some proof)"
    "fun_since f = since" "fun_source f = source" "length (fun_events f) = n" "fun_status f = status"
    using assms by (auto simp: validateFundingEvidence_def Let_def rbind_Inr_iff)
  moreover from this(1) have "\<not> invalidObservationEnvelope proof status since until source n" "\<exists>x. fundingObservation x = Inr proof"
    by (auto simp: observationEnvelope_def rbind_Inr_iff throw_if_Inr split: if_splits)
  ultimately show "fob_since proof = fun_since f" "fob_namespace proof = fun_source f" "fun_events f = []"
    "fob_status proof = ''observed'' \<longleftrightarrow> fun_status f = ''complete''" "\<exists>x. fundingObservation x = Inr proof"
    by (auto simp: invalidObservationEnvelope_def)
qed

lemma accounting_Inr:
  assumes "validateAccountingEvidence value reported reported_value = Inr acc"
  obtains v where "validateFundingEvidence v = Inr (va_funding acc)"
    "fundingAccountingBinding (va_funding acc) (va_accountFingerprint acc) (va_reportingCurrency acc) = Inr ()"
    "accountingFundingTotals (va_reportingCurrency acc) (va_funding acc) reported reported_value = Inr ()"
  using assms by (auto simp: validateAccountingEvidence_def rbind_Inr_iff)

lemma funding_totals_Inr:
  assumes "accountingFundingTotals currency f reported reported_value = Inr ()"
  obtains v where "fundingTotalValue f currency = Inr v"
    "case reported of None \<Rightarrow> (case v of None \<Rightarrow> True | Some m \<Rightarrow> mv_decimal m = None)
       | Some s \<Rightarrow> \<exists>m d. v = Some m \<and> signedDecimal s = Inr d \<and> mv_decimal m = Some d"
    "reported_value \<noteq> JUndefined \<longrightarrow> nullableFundingValue reported_value = Inr v"
  using assms by (auto simp: accountingFundingTotals_def fundingTotal_def validateFundingValue_def rbind_Inr_iff throw_if_Inr split: option.splits if_splits)

text \<open>The amount of an observed total agrees with its money value, when it has one.\<close>

lemma observation_amount:
  assumes "fundingObservation x = Inr proof" "fob_status proof = ''observed''"
  shows "case fob_value proof of
      None \<Rightarrow> \<exists>a. fob_amount proof = Some a \<and> canonical_signed a \<and> signed_ok a
    | Some None \<Rightarrow> False
    | Some (Some m) \<Rightarrow> (case mv_decimal m of None \<Rightarrow> fob_amount proof = None | Some d \<Rightarrow> \<exists>a. signedDecimal d = Inr a \<and> fob_amount proof = Some a)"
proof -
  obtain row where r: "nullable signed_input (js_get row ''amount'') = Inr (fob_amount proof)"
    "validateFundingValue (js_get row ''amount'') (js_get row ''value'') = Inr (fob_value proof)"
    and known: "observationValuation row (fob_value proof) (fob_amount proof) = Inr ()" "(case js_get row ''status'' of JStr s \<Rightarrow> s | _ \<Rightarrow> []) = ''observed''"
    using assms unfolding fundingObservation_def rbind_Inr_iff split_paired_Ex prod.case by force
  have "js_get row ''status'' = JStr ''observed''" using known(2) by (cases "js_get row ''status''") simp_all
  then have k: "observedFundingValueKnown (fob_value proof) (fob_amount proof)" using known(1) by (simp add: observationValuation_def throw_if_Inr)
  show ?thesis
  proof (cases "fob_value proof")
    case None
    then obtain a where "fob_amount proof = Some a" using k by (auto simp: observedFundingValueKnown_def)
    then show ?thesis using None r(1) by (auto simp: nullable_def rbind_Inr_iff signed_input_def split: if_splits js.splits dest: signedDecimal_InrD(1,2))
  next
    case (Some v)
    then obtain m where m: "v = Some m" using k by (auto simp: observedFundingValueKnown_def)
    then have "js_get row ''amount'' = js_of_string_option (mv_decimal m)"
      using r(2) Some by (auto simp: validateFundingValue_def rbind_Inr_iff throw_if_Inr split: if_splits)
    then show ?thesis using r(1) Some m
      by (cases "mv_decimal m") (auto simp: js_of_string_option_def nullable_def signed_input_def rbind_Inr_iff)
  qed
qed

lemma observed_total_amount:
  assumes "fundingObservation x = Inr proof" "fob_status proof = ''observed''" "observedFundingTotal proof currency = Inr v" "fob_reportingCurrency proof = Some currency"
  shows "\<exists>m. v = Some m \<and> (\<forall>d. mv_decimal m = Some d \<longrightarrow> (\<exists>a. signedDecimal d = Inr a \<and> fob_amount proof = Some a)) \<and>
    (mv_decimal m = None \<longrightarrow> fob_amount proof = None \<and> fob_value proof = Some (Some m))"
proof (cases "fob_value proof")
  case None
  then obtain a where a: "fob_amount proof = Some a" "canonical_signed a" "signed_ok a" using observation_amount [OF assms(1,2)] by auto
  obtain m where "moneyValueFromDecimal a = Inr m" "mv_decimal m = Some a" using a(2,3) by (rule money_of_canonical)
  then show ?thesis using assms(2-4) None a signedDecimal_canonical by (auto simp: observedFundingTotal_def decimalFundingValue_def rbind_Inr_iff)
next
  case (Some w)
  then show ?thesis using observation_amount [OF assms(1,2)] assms(2-4) by (auto simp: observedFundingTotal_def split: option.splits)
qed

lemma observed_report:
  assumes "fundingObservation x = Inr proof" "fob_status proof = ''observed''" "observedFundingTotal proof currency = Inr v" "fob_reportingCurrency proof = Some currency"
    "case reported of None \<Rightarrow> (case v of None \<Rightarrow> True | Some m \<Rightarrow> mv_decimal m = None)
       | Some s \<Rightarrow> \<exists>m d. v = Some m \<and> signedDecimal s = Inr d \<and> mv_decimal m = Some d"
    "reported_value \<noteq> JUndefined \<longrightarrow> nullableFundingValue reported_value = Inr v"
  shows "(case reported of
      Some s \<Rightarrow> \<exists>d. signedDecimal s = Inr d \<and> fob_amount proof = Some d
    | None \<Rightarrow> fob_amount proof = None \<and> (\<exists>m. fob_value proof = Some (Some m) \<and> mv_decimal m = None)) \<and>
    (\<forall>w. fob_value proof = Some w \<and> reported_value \<noteq> JUndefined \<longrightarrow> nullableFundingValue reported_value = Inr w)"
proof
  obtain m where m: "v = Some m" "\<forall>d. mv_decimal m = Some d \<longrightarrow> (\<exists>a. signedDecimal d = Inr a \<and> fob_amount proof = Some a)"
    "mv_decimal m = None \<longrightarrow> fob_amount proof = None \<and> fob_value proof = Some (Some m)"
    using observed_total_amount [OF assms(1-4)] by (elim exE conjE) (rule that)
  show "case reported of
      Some s \<Rightarrow> \<exists>d. signedDecimal s = Inr d \<and> fob_amount proof = Some d
    | None \<Rightarrow> fob_amount proof = None \<and> (\<exists>m. fob_value proof = Some (Some m) \<and> mv_decimal m = None)"
  proof (cases reported)
    case (Some s)
    then obtain d where d: "signedDecimal s = Inr d" "mv_decimal m = Some d" using assms(5) m(1) by auto
    have "signedDecimal d = Inr d" by (rule signedDecimal_canonical [OF signedDecimal_InrD(1,2) [OF d(1)]])
    then have "fob_amount proof = Some d" using m(2) d(2) by auto
    then show ?thesis using d(1) Some by simp
  next
    case None
    then have "mv_decimal m = None" using assms(5) m(1) by simp
    then show ?thesis using m(3) None by auto
  qed
  show "\<forall>w. fob_value proof = Some w \<and> reported_value \<noteq> JUndefined \<longrightarrow> nullableFundingValue reported_value = Inr w"
    using assms(2,3,4,6) by (auto simp: observedFundingTotal_def)
qed


section \<open>Properties\<close>

text \<open>
  C5: accepted accounting evidence reports funding honestly. Its payments have distinct identities and
  lie in its window of at most a day. Incomplete evidence comes with no total. When the evidence is complete and made of
  single payments, the reported total is exactly their sum and all payments that matter are in the
  reporting currency; the total is missing exactly because some payment is in another asset. Evidence that rests on an
  observed total carries no single payments and belongs to the same account and currency; there the reported total is exactly
  the observed amount, it is missing exactly when the observed money value has no exact decimal, and a reported money value is the
  observed one.
\<close>

theorem accounting_funding_exact:
  assumes "validateAccountingEvidence value reported reported_value = Inr acc"
  defines "f \<equiv> va_funding acc" and "currency \<equiv> va_reportingCurrency acc"
  shows "distinct (map fev_id (fun_events f)) \<and> fun_until f - fun_since f \<le> 24 * 60 * 60 * 1000 \<and>
    (\<forall>e\<in>set (fun_events f). fun_since f \<le> fev_timestamp e \<and> fev_timestamp e \<le> fun_until f) \<and>
    (if fun_status f \<noteq> ''complete'' then reported = None
     else case fun_observation f of
       None \<Rightarrow> (case reported of
           Some s \<Rightarrow> (\<forall>e\<in>set (fun_events f). sdec_val (fev_amount e) \<noteq> 0 \<longrightarrow> fev_asset e = Some currency) \<and>
             (\<exists>d. signedDecimal s = Inr d \<and> sdec_val d = (\<Sum>e\<leftarrow>fun_events f. sdec_val (fev_amount e)))
         | None \<Rightarrow> \<exists>e\<in>set (fun_events f). sdec_val (fev_amount e) \<noteq> 0 \<and> fev_asset e \<noteq> Some currency)
     | Some proof \<Rightarrow> fun_events f = [] \<and> fob_status proof = ''observed'' \<and> fob_accountFingerprint proof = va_accountFingerprint acc \<and>
         fob_reportingCurrency proof = Some currency \<and>
         (case reported of
             Some s \<Rightarrow> \<exists>d. signedDecimal s = Inr d \<and> fob_amount proof = Some d
           | None \<Rightarrow> fob_amount proof = None \<and> (\<exists>m. fob_value proof = Some (Some m) \<and> mv_decimal m = None)) \<and>
         (\<forall>w. fob_value proof = Some w \<and> reported_value \<noteq> JUndefined \<longrightarrow> nullableFundingValue reported_value = Inr w))"
proof -
  obtain v where v: "validateFundingEvidence v = Inr f" "fundingAccountingBinding f (va_accountFingerprint acc) currency = Inr ()"
    "accountingFundingTotals currency f reported reported_value = Inr ()"
    using accounting_Inr [OF assms(1)] unfolding f_def currency_def by metis
  note ev = funding_evidence_Inr [OF v(1)]
  obtain m where m: "fundingTotalValue f currency = Inr m"
    "case reported of None \<Rightarrow> (case m of None \<Rightarrow> True | Some m \<Rightarrow> mv_decimal m = None)
       | Some s \<Rightarrow> \<exists>x d. m = Some x \<and> signedDecimal s = Inr d \<and> mv_decimal x = Some d"
    "reported_value \<noteq> JUndefined \<longrightarrow> nullableFundingValue reported_value = Inr m"
    using v(3) by (rule funding_totals_Inr)
  have zero: "sdec_val (fev_amount e) = 0 \<longleftrightarrow> fev_amount e = ''0''" if "e \<in> set (fun_events f)" for e
    using ev(4) [OF that] by (simp add: zero_amount)
  have window: "fun_until f - fun_since f \<le> 24 * 60 * 60 * 1000" using ev(3) by simp
  have none: "reported = None" if "fun_status f \<noteq> ''complete''" using m that by (auto simp: fundingTotalValue_def split: option.splits)
  have events: "case reported of
      Some s \<Rightarrow> (\<forall>e\<in>set (fun_events f). sdec_val (fev_amount e) \<noteq> 0 \<longrightarrow> fev_asset e = Some currency) \<and>
        (\<exists>d. signedDecimal s = Inr d \<and> sdec_val d = (\<Sum>e\<leftarrow>fun_events f. sdec_val (fev_amount e)))
    | None \<Rightarrow> \<exists>e\<in>set (fun_events f). sdec_val (fev_amount e) \<noteq> 0 \<and> fev_asset e \<noteq> Some currency"
    if "fun_status f = ''complete''" "fun_observation f = None"
  proof -
    have "eventFundingTotal f currency = Inr m" using m(1) that by (simp add: fundingTotalValue_def)
    from event_funding_total [OF this] ev(4) m(2) zero show ?thesis by (fastforce split: option.splits)
  qed
  have observed: "fun_events f = [] \<and> fob_status proof = ''observed'' \<and> fob_accountFingerprint proof = va_accountFingerprint acc \<and>
      fob_reportingCurrency proof = Some currency" "observedFundingTotal proof currency = Inr m" "\<exists>x. fundingObservation x = Inr proof"
    if "fun_status f = ''complete''" "fun_observation f = Some proof" for "proof"
    using observation_envelope_Inr [OF v(1) that(2)] v(2) m(1) that by (simp_all add: fundingAccountingBinding_def fundingTotalValue_def throw_if_Inr)
  have amount: "(case reported of
             Some s \<Rightarrow> \<exists>d. signedDecimal s = Inr d \<and> fob_amount proof = Some d
           | None \<Rightarrow> fob_amount proof = None \<and> (\<exists>m. fob_value proof = Some (Some m) \<and> mv_decimal m = None)) \<and>
         (\<forall>w. fob_value proof = Some w \<and> reported_value \<noteq> JUndefined \<longrightarrow> nullableFundingValue reported_value = Inr w)"
    if c: "fun_status f = ''complete''" "fun_observation f = Some proof" for "proof"
    using observed_report [OF _ _ observed(2) [OF c] _ m(2,3)] observed(1,3) [OF c] by blast
  show ?thesis
  proof (intro conjI)
    show "if fun_status f \<noteq> ''complete'' then reported = None
     else case fun_observation f of
       None \<Rightarrow> (case reported of
           Some s \<Rightarrow> (\<forall>e\<in>set (fun_events f). sdec_val (fev_amount e) \<noteq> 0 \<longrightarrow> fev_asset e = Some currency) \<and>
             (\<exists>d. signedDecimal s = Inr d \<and> sdec_val d = (\<Sum>e\<leftarrow>fun_events f. sdec_val (fev_amount e)))
         | None \<Rightarrow> \<exists>e\<in>set (fun_events f). sdec_val (fev_amount e) \<noteq> 0 \<and> fev_asset e \<noteq> Some currency)
     | Some proof \<Rightarrow> fun_events f = [] \<and> fob_status proof = ''observed'' \<and> fob_accountFingerprint proof = va_accountFingerprint acc \<and>
         fob_reportingCurrency proof = Some currency \<and>
         (case reported of
             Some s \<Rightarrow> \<exists>d. signedDecimal s = Inr d \<and> fob_amount proof = Some d
           | None \<Rightarrow> fob_amount proof = None \<and> (\<exists>m. fob_value proof = Some (Some m) \<and> mv_decimal m = None)) \<and>
         (\<forall>w. fob_value proof = Some w \<and> reported_value \<noteq> JUndefined \<longrightarrow> nullableFundingValue reported_value = Inr w)"
    proof (cases "fun_status f = ''complete''")
      case True
      then show ?thesis using events [OF True] observed(1) [OF True] amount [OF True] by (cases "fun_observation f") simp_all
    qed (use none in simp)
  qed (use ev(1,4) window in auto)
qed

text \<open>Two payments of one day, reported as their sum.\<close>

definition sample_funding_event :: "string \<Rightarrow> int \<Rightarrow> string \<Rightarrow> js" where
  "sample_funding_event i t a = JObj [(''id'', JStr i), (''timestamp'', JNum (Num (of_int t))), (''amount'', JStr a), (''asset'', JStr ''USDT'')]"

definition sample_funding :: js where
  "sample_funding = JObj [(''status'', JStr ''complete''), (''since'', JNum (Num 0)), (''until'', JNum (Num 9)), (''nextReadAt'', JNum (Num 9)),
     (''source'', JStr ''income''), (''cursor'', JNull), (''reason'', JNull),
     (''events'', JArr [sample_funding_event ''a'' 1 ''1.50'', sample_funding_event ''b'' 2 ''-0.25''])]"

definition sample_accounting :: js where
  "sample_accounting = JObj [(''accountFingerprint'', JStr ''fp''), (''source'', JStr ''ccxt''), (''reportingCurrency'', JStr ''USDT''),
     (''observedAt'', JNum (Num 5)), (''settlementAssets'', JArr [JStr ''USDT'']), (''unrealizedPnlSemantics'', JStr ''price_only''),
     (''funding'', sample_funding)]"

lemma sample_accepted:
  "\<exists>acc. validateAccountingEvidence sample_accounting (Some ''1.25'') JUndefined = Inr acc \<and>
     fun_status (va_funding acc) = ''complete'' \<and> fun_observation (va_funding acc) = None"
proof -
  have "case validateFundingEvidence sample_funding of Inl e \<Rightarrow> False | Inr f \<Rightarrow>
      fun_status f = ''complete'' \<and> fun_observation f = None \<and> event_total ''USDT'' ''0'' (fun_events f) = Inr (Some ''1.25'')" by code_simp
  then obtain f where f: "validateFundingEvidence sample_funding = Inr f" "fun_status f = ''complete''" "fun_observation f = None"
    "event_total ''USDT'' ''0'' (fun_events f) = Inr (Some ''1.25'')" by (auto split: sum.splits)
  have d: "signedDecimal ''1.25'' = Inr ''1.25''" by code_simp
  obtain m where m: "moneyValueFromDecimal ''1.25'' = Inr m" "mv_decimal m = Some ''1.25''"
    using signedDecimal_InrD(1,2) [OF d] by (rule money_of_canonical)
  have "fundingTotalValue f ''USDT'' = Inr (Some m)" using f m by (simp add: fundingTotalValue_def eventFundingTotal_def decimalFundingValue_def)
  then have totals: "accountingFundingTotals ''USDT'' f (Some ''1.25'') JUndefined = Inr ()"
    using m(2) d by (simp add: accountingFundingTotals_def fundingTotal_def validateFundingValue_def)
  have "token (JStr ''fp'') 256 = Inr ''fp''" "token (JStr ''ccxt'') 256 = Inr ''ccxt''" "asset (JStr ''USDT'') = Inr ''USDT''"
    "timestamp (JNum (Num 5)) = Inr 5" by code_simp+
  with totals f show ?thesis
    by (simp add: validateAccountingEvidence_def sample_accounting_def accounting_object_def js_get_def accountingSettlementAssets_def isStringMember_def
        fundingAccountingBinding_def)
qed

theorem accounting_funding_exact_witness:
  "\<exists>acc. validateAccountingEvidence sample_accounting (Some ''1.25'') JUndefined = Inr acc \<and>
     (\<exists>d. signedDecimal ''1.25'' = Inr d \<and> sdec_val d = (\<Sum>e\<leftarrow>fun_events (va_funding acc). sdec_val (fev_amount e)))"
proof -
  obtain acc where acc: "validateAccountingEvidence sample_accounting (Some ''1.25'') JUndefined = Inr acc"
    "fun_status (va_funding acc) = ''complete''" "fun_observation (va_funding acc) = None" using sample_accepted by blast
  from accounting_funding_exact [OF acc(1)] acc show ?thesis by auto
qed

end
