(* ===== verification/Trading_Money_Risk.thy ===== *)
theory Trading_Money_Risk
  imports Trading_Channel_Risk_Math Trading_Accounting
begin

text \<open>
  Money at risk. \<^verbatim>\<open>src/trading_money_risk.ts\<close> decides the daily loss budget on amounts that may only be known
  as intervals; \<^verbatim>\<open>src/trading_risk_reservations.ts\<close> computes what a position and its open entries can still lose at
  their stop. The lemmas relate both to exact amounts: an uncertain interval denies an entry but never proves a
  breach, and a reservation is either the exact loss or unresolved.
\<close>

section \<open>The daily budget\<close>

datatype money_comparison = Compared int | Uncertain_order

datatype bound_side = Lower | Upper

definition bound_of :: "money_value \<Rightarrow> bound_side \<Rightarrow> string" where
  "bound_of m b = (case b of Lower \<Rightarrow> mv_lower m | Upper \<Rightarrow> mv_upper m)"

definition compareBound :: "money_value \<Rightarrow> exact_rational \<Rightarrow> bound_side \<Rightarrow> int result" where
  "compareBound value threshold bound =
     rbind (money_bound value (bound_of value bound)) (\<lambda>q.
     rbind (compareRational q threshold) (\<lambda>comparison.
       Inr (if comparison < 0 then -1 else if comparison > 0 then 1 else 0)))"

definition compareMoneyValue :: "money_value \<Rightarrow> string \<Rightarrow> money_comparison result" where
  "compareMoneyValue value thresholdDecimal =
     rbind (validateMoneyValue (js_of_money value)) (\<lambda>source.
     rbind (rationalFromDecimal thresholdDecimal) (\<lambda>threshold.
     rbind (compareBound source threshold Lower) (\<lambda>lower.
       if mv_exact source \<noteq> None then Inr (Compared lower)
       else rbind (compareBound source threshold Upper) (\<lambda>upper.
         Inr (if upper < 0 then Compared (-1) else if lower > 0 then Compared 1 else Uncertain_order)))))"

definition nonnegativeCommitment :: "money_value \<Rightarrow> money_value result" where
  "nonnegativeCommitment value =
     rbind (validateMoneyValue (js_of_money value)) (\<lambda>source.
     rbind (rationalFromDecimal ''0'') (\<lambda>zero.
     rbind (compareBound source zero Lower) (\<lambda>c.
       if c < 0 then Inl (Error ''Monetary commitment must be proven nonnegative.'') else Inr source)))"

definition zeroWithTerms :: "int \<Rightarrow> money_value result" where
  "zeroWithTerms n = rbind (moneyValueFromDecimal ''0'') (\<lambda>z. Inr (z\<lparr>mv_terms := n\<rparr>))"

definition consumedLossForInexact :: "money_value \<Rightarrow> money_value result" where
  "consumedLossForInexact loss =
     (let lower = (if starts_neg (mv_lower loss) then ''0'' else mv_lower loss);
          upper = (if starts_neg (mv_upper loss) then ''0'' else mv_upper loss)
      in if upper = ''0'' then zeroWithTerms (mv_terms loss)
         else validateMoneyValue (js_of_money (loss\<lparr>mv_lower := lower, mv_upper := upper\<rparr>)))"

definition consumedLossFor :: "money_value \<Rightarrow> money_value result" where
  "consumedLossFor dayPnl =
     rbind (negateMoneyValue dayPnl) (\<lambda>loss.
       if mv_exact loss \<noteq> None
       then rbind (rationalFromDecimal ''0'') (\<lambda>zero. rbind (compareBound loss zero Lower) (\<lambda>c.
         if c > 0 then Inr loss else zeroWithTerms (mv_terms loss)))
       else consumedLossForInexact loss)"

definition normalizedBudget :: "string \<Rightarrow> string result" where
  "normalizedBudget value = (if list_ex is_space value then Inl (Error ''Invalid monetary risk budget.'') else decimal value)"

record monetary_daily_risk_input =
  mdi_budget :: string
  mdi_ledgerPnl :: money_value
  mdi_unrealizedPnl :: string
  mdi_existingCommitment :: money_value
  mdi_candidateCommitment :: money_value

record monetary_daily_risk =
  mdr_budget :: string
  mdr_dayPnl :: money_value
  mdr_consumedLoss :: money_value
  mdr_existingCommitment :: money_value
  mdr_candidateCommitment :: money_value
  mdr_totalCommitment :: money_value
  mdr_allowed :: bool
  mdr_breached :: bool
  mdr_lossLimitReached :: bool
  mdr_precisionUncertain :: bool

definition calculateMonetaryDailyRisk :: "monetary_daily_risk_input \<Rightarrow> monetary_daily_risk result" where
  "calculateMonetaryDailyRisk input =
     rbind (normalizedBudget (mdi_budget input)) (\<lambda>budget.
     rbind (rationalFromDecimal budget) (\<lambda>threshold.
     rbind (validateMoneyValue (js_of_money (mdi_ledgerPnl input))) (\<lambda>ledgerPnl.
     rbind (nonnegativeCommitment (mdi_existingCommitment input)) (\<lambda>existing.
     rbind (nonnegativeCommitment (mdi_candidateCommitment input)) (\<lambda>candidate.
     rbind (rbind (moneyValueFromDecimal (mdi_unrealizedPnl input)) (\<lambda>u. addMoneyValues ledgerPnl u)) (\<lambda>dayPnl.
     rbind (consumedLossFor dayPnl) (\<lambda>consumedLoss.
     rbind (rbind (addMoneyValues consumedLoss existing) (\<lambda>s. addMoneyValues s candidate)) (\<lambda>totalCommitment.
     rbind (compareBound totalCommitment threshold Upper) (\<lambda>upper.
     rbind (compareBound totalCommitment threshold Lower) (\<lambda>lower.
     rbind (compareBound consumedLoss threshold Lower) (\<lambda>consumed.
       Inr \<lparr>mdr_budget = budget, mdr_dayPnl = dayPnl, mdr_consumedLoss = consumedLoss, mdr_existingCommitment = existing,
            mdr_candidateCommitment = candidate, mdr_totalCommitment = totalCommitment, mdr_allowed = (upper \<le> 0), mdr_breached = (lower > 0),
            mdr_lossLimitReached = (consumed \<ge> 0),
            mdr_precisionUncertain = list_ex (\<lambda>v. mv_precision v = Bounded)
              [ledgerPnl, existing, candidate, dayPnl, consumedLoss, totalCommitment]\<rparr>)))))))))))"


section \<open>Reservations\<close>

definition risk_evidence_ttl_ms :: int where
  "risk_evidence_ttl_ms = 60000"

record risk_entry_remainder =
  re_id :: string
  re_generation :: int
  re_status :: string
  re_quantity :: string
  re_filledQuantity :: "string option"
  re_price :: "string option"
  re_operationUnresolved :: bool

record risk_reservation_input =
  rri_side :: trading_side
  rri_ownedQuantity :: string
  rri_averageEntryPrice :: "string option"
  rri_markPrice :: "string option"
  rri_stopPrice :: string
  rri_reportingCurrency :: string
  rri_market :: js
  rri_entries :: "risk_entry_remainder list"
  rri_protectionProven :: bool

datatype reservation_status = Complete | Unresolved

record risk_reservation_amounts =
  rra_status :: reservation_status
  rra_reason :: "string option"
  rra_reportingCurrency :: string
  rra_ownedQuantity :: "string option"
  rra_pendingQuantity :: "string option"
  rra_markToStopRisk :: "string option"
  rra_pendingEntryRisk :: "string option"
  rra_actualFillToStopRisk :: "string option"
  rra_additionalRisk :: "string option"
  rra_markToStopRiskValue :: "money_value option"
  rra_pendingEntryRiskValue :: "money_value option"
  rra_actualFillToStopRiskValue :: "money_value option"
  rra_additionalRiskValue :: "money_value option"

definition adversePriceMovement :: "trading_side \<Rightarrow> string \<Rightarrow> string \<Rightarrow> bool result" where
  "adversePriceMovement side price stop =
     rbind (case side of LONG \<Rightarrow> compareDecimal price stop | SHORT \<Rightarrow> compareDecimal stop price) (\<lambda>c. Inr (c > 0))"

definition stopDistance :: "trading_side \<Rightarrow> string \<Rightarrow> string \<Rightarrow> string \<Rightarrow> string result" where
  "stopDistance side price stop quantity =
     rbind (case side of LONG \<Rightarrow> subtractDecimal price stop | SHORT \<Rightarrow> subtractDecimal stop price) (\<lambda>distance.
       multiplyExactSignedDecimal distance quantity)"

definition lossToStop :: "trading_side \<Rightarrow> string option \<Rightarrow> string \<Rightarrow> string \<Rightarrow> string result" where
  "lossToStop side reference stop quantity =
     (if quantity = ''0'' then Inr ''0''
      else case reference of
        None \<Rightarrow> Inl (Error ''Risk price is unproven.'')
      | Some r \<Rightarrow> rbind (decimal_positive r) (\<lambda>price. rbind (adversePriceMovement side price stop) (\<lambda>adverse.
          if \<not> adverse then Inr ''0'' else stopDistance side price stop quantity)))"

definition remainingQuantity :: "risk_entry_remainder \<Rightarrow> string result" where
  "remainingQuantity entry =
     (if re_operationUnresolved entry then Inl (Error ''Entry operation remains unresolved.'')
      else case re_filledQuantity entry of
        None \<Rightarrow> Inl (Error ''Entry executed quantity remains unproven.'')
      | Some filled \<Rightarrow>
          rbind (decimal_positive (re_quantity entry)) (\<lambda>q. rbind (decimal filled) (\<lambda>f. rbind (subtractDecimal q f) (\<lambda>remaining.
            if re_status entry = ''filled'' \<and> remaining \<noteq> ''0''
            then Inl (Error ''Filled entry still has an unexplained residual.'') else Inr remaining))))"

definition terminal_entry_states :: "string list" where
  "terminal_entry_states = [''filled'', ''cancelled'', ''rejected'']"

definition assertEntryLifecycle :: "risk_entry_remainder \<Rightarrow> unit result" where
  "assertEntryLifecycle entry =
     (if re_status entry \<in> set terminal_entry_states then Inr ()
      else throw_if (re_status entry \<notin> set [''created'', ''submitting'', ''open'', ''partially_filled'', ''cancel_pending'', ''unknown''])
             (Error ''Entry lifecycle is unproven.''))"

definition remainingEntry :: "risk_entry_remainder \<Rightarrow> string result" where
  "remainingEntry entry =
     rbind (remainingQuantity entry) (\<lambda>remaining. rbind (assertEntryLifecycle entry) (\<lambda>_.
       Inr (if re_status entry \<in> set terminal_entry_states then ''0'' else remaining)))"

text \<open>One round of the loop over the entries, on the pair of quantity and risk summed so far.\<close>

definition add_entry :: "trading_side \<Rightarrow> string \<Rightarrow> string \<times> string \<Rightarrow> risk_entry_remainder \<Rightarrow> (string \<times> string) result" where
  "add_entry side stop = (\<lambda>(pendingQuantity, pendingEntryRisk) entry.
     rbind (remainingEntry entry) (\<lambda>quantity.
     rbind (addDecimal pendingQuantity quantity) (\<lambda>q.
     rbind (rbind (lossToStop side (re_price entry) stop quantity) (\<lambda>l. addDecimal pendingEntryRisk l)) (\<lambda>r. Inr (q, r)))))"

definition provedReservation :: "risk_reservation_input \<Rightarrow> risk_reservation_amounts result" where
  "provedReservation input =
     rbind (validateFillAccounting (rri_market input) None) (\<lambda>market.
     rbind (throw_if (fa_settlementAsset market \<noteq> rri_reportingCurrency input) (Error ''Risk settlement conversion is unproven.'')) (\<lambda>_.
     rbind (throw_if (\<not> rri_protectionProven input) (Error ''Risk stop coverage is unproven.'')) (\<lambda>_.
     rbind (decimal (rri_ownedQuantity input)) (\<lambda>owned.
     rbind (decimal_positive (rri_stopPrice input)) (\<lambda>stop.
     rbind (foldM (add_entry (rri_side input) stop) (''0'', ''0'') (rri_entries input)) (\<lambda>(pendingQuantity, pendingEntryRisk).
     rbind (lossToStop (rri_side input) (rri_markPrice input) stop owned) (\<lambda>markToStopRisk.
     rbind (lossToStop (rri_side input) (rri_averageEntryPrice input) stop owned) (\<lambda>actualFillToStopRisk.
     rbind (addDecimal markToStopRisk pendingEntryRisk) (\<lambda>additionalRisk.
     rbind (moneyValueFromDecimal markToStopRisk) (\<lambda>markValue.
     rbind (moneyValueFromDecimal pendingEntryRisk) (\<lambda>pendingValue.
     rbind (moneyValueFromDecimal actualFillToStopRisk) (\<lambda>actualValue.
     rbind (moneyValueFromDecimal additionalRisk) (\<lambda>additionalValue.
       Inr \<lparr>rra_status = Complete, rra_reason = None, rra_reportingCurrency = rri_reportingCurrency input, rra_ownedQuantity = Some owned,
            rra_pendingQuantity = Some pendingQuantity, rra_markToStopRisk = Some markToStopRisk, rra_pendingEntryRisk = Some pendingEntryRisk,
            rra_actualFillToStopRisk = Some actualFillToStopRisk, rra_additionalRisk = Some additionalRisk,
            rra_markToStopRiskValue = Some markValue, rra_pendingEntryRiskValue = Some pendingValue,
            rra_actualFillToStopRiskValue = Some actualValue, rra_additionalRiskValue = Some additionalValue\<rparr>)))))))))))))"

definition unresolvedRiskAmounts :: "string \<Rightarrow> error \<Rightarrow> risk_reservation_amounts" where
  "unresolvedRiskAmounts reportingCurrency e =
     \<lparr>rra_status = Unresolved, rra_reason = Some (error_message e), rra_reportingCurrency = reportingCurrency, rra_ownedQuantity = None,
      rra_pendingQuantity = None, rra_markToStopRisk = None, rra_pendingEntryRisk = None, rra_actualFillToStopRisk = None, rra_additionalRisk = None,
      rra_markToStopRiskValue = None, rra_pendingEntryRiskValue = None, rra_actualFillToStopRiskValue = None, rra_additionalRiskValue = None\<rparr>"

definition calculateRiskReservation :: "risk_reservation_input \<Rightarrow> risk_reservation_amounts" where
  "calculateRiskReservation input = (case provedReservation input of
       Inr amounts \<Rightarrow> amounts | Inl e \<Rightarrow> unresolvedRiskAmounts (rri_reportingCurrency input) e)"

record daily_risk =
  dr_dayPnl :: string
  dr_consumedLoss :: string
  dr_existingCommitment :: string
  dr_candidateCommitment :: string
  dr_totalCommitment :: string
  dr_budget :: string
  dr_allowed :: bool

definition calculateDailyRisk :: "string \<Rightarrow> string \<Rightarrow> string \<Rightarrow> string \<Rightarrow> string \<Rightarrow> daily_risk result" where
  "calculateDailyRisk budget0 ledgerPnl unrealizedPnl existing0 candidate0 =
     rbind (decimal budget0) (\<lambda>budget.
     rbind (signedDecimal ledgerPnl) (\<lambda>l. rbind (signedDecimal unrealizedPnl) (\<lambda>u.
     rbind (addSignedDecimal l u) (\<lambda>dayPnl.
     let consumedLoss = (if starts_neg dayPnl then drop 1 dayPnl else ''0'') in
     rbind (decimal existing0) (\<lambda>existing.
     rbind (decimal candidate0) (\<lambda>candidate.
     rbind (rbind (addDecimal consumedLoss existing) (\<lambda>s. addDecimal s candidate)) (\<lambda>totalCommitment.
     rbind (compareDecimal totalCommitment budget) (\<lambda>c.
       Inr \<lparr>dr_dayPnl = dayPnl, dr_consumedLoss = consumedLoss, dr_existingCommitment = existing, dr_candidateCommitment = candidate,
            dr_totalCommitment = totalCommitment, dr_budget = budget, dr_allowed = (c \<le> 0)\<rparr>))))))))"

text \<open>\<^verbatim>\<open>new Date(now).setUTCHours(0, 0, 0, 0)\<close>\<close>

definition utc_day :: "int \<Rightarrow> int" where
  "utc_day now = now - now mod 86400000"

definition assertRiskFresh :: "int \<Rightarrow> int \<Rightarrow> int \<Rightarrow> int \<Rightarrow> unit result" where
  "assertRiskFresh observedAt expiresAt utcDay now =
     throw_if (\<not> list_all is_safe_integer [observedAt, expiresAt, utcDay, now] \<or> observedAt < 0 \<or> expiresAt \<le> observedAt
        \<or> observedAt > now + 1000 \<or> now \<ge> expiresAt \<or> expiresAt > observedAt + risk_evidence_ttl_ms \<or> utcDay \<noteq> utc_day now)
       (Error ''Risk evidence is stale, in the future or belongs to another UTC day.'')"


section \<open>What the daily budget decides\<close>

text \<open>The ends of the interval a value stands for.\<close>

definition money_lo :: "money_value \<Rightarrow> rat" where
  "money_lo m = (case mv_exact m of Some q \<Rightarrow> rval q | None \<Rightarrow> sdec_val (mv_lower m))"

definition money_hi :: "money_value \<Rightarrow> rat" where
  "money_hi m = (case mv_exact m of Some q \<Rightarrow> rval q | None \<Rightarrow> sdec_val (mv_upper m))"

lemma contains_iff: "money_contains m x \<longleftrightarrow> money_lo m \<le> x \<and> x \<le> money_hi m"
  by (auto simp: money_contains_def money_lo_def money_hi_def split: option.splits)

lemma exact_ends: "mv_exact m \<noteq> None \<Longrightarrow> money_lo m = money_hi m"
  by (auto simp: money_lo_def money_hi_def)

lemma compare_bound:
  assumes "money_wf m" "rational_ok t"
  shows "compareBound m t Lower = Inr (rat_cmp (money_lo m) (rval t))" "compareBound m t Upper = Inr (rat_cmp (money_hi m) (rval t))"
proof -
  have s: "signed_ok (mv_lower m)" "signed_ok (mv_upper m)" using assms by (simp_all add: money_wf_def)
  show "compareBound m t Lower = Inr (rat_cmp (money_lo m) (rval t))" "compareBound m t Upper = Inr (rat_cmp (money_hi m) (rval t))"
    using signed_rational [OF s(1)] signed_rational [OF s(2)] wf_exact_ok [OF assms(1)] assms(2)
    by (auto simp: compareBound_def bound_of_def money_bound_def money_lo_def money_hi_def compare_rational_law rat_cmp_def split: option.splits)
qed

lemma unspaced_signed:
  assumes "\<not> list_ex is_space s" "signedDecimal s = Inr l"
  shows "signed_ok s" "sdec_val l = sdec_val s"
proof -
  have "\<forall>c\<in>set (magnitude_of s). \<not> is_space c" using assms(1) by (auto simp: magnitude_of_def list_ex_iff dest: in_set_dropD)
  then have m: "js_trim (magnitude_of s) = magnitude_of s" by (intro js_trim_id) auto
  show "signed_ok s" using signedDecimal_InrD(3) [OF assms(2)] by (simp add: signed_ok_def m)
  show "sdec_val l = sdec_val s" using signedDecimal_InrD(4) [OF assms(2)] by (simp add: sdec_val_def m)
qed

lemma money_from_decimal_Inr:
  assumes "moneyValueFromDecimal s = Inr m"
  obtains u where "signedDecimal s = Inr u" "money_wf m" "mv_exact m \<noteq> None" "\<And>x. money_contains m x \<longleftrightarrow> x = sdec_val u"
proof -
  obtain l where l: "\<not> list_ex is_space s" "signedDecimal s = Inr l"
    using assms by (auto simp: moneyValueFromDecimal_def rationalFromDecimal_def rbind_Inr_iff split: if_splits)
  note s = unspaced_signed [OF l]
  obtain m' where "moneyValueFromDecimal s = Inr m'" "money_wf m'" "mv_exact m' = Some (rat_rep (sdec_val s))"
    using s(1) by (rule money_from_decimal)
  then show thesis using that [OF l(2)] assms s(2) by (simp add: money_contains_def)
qed

lemma zero_with_terms:
  assumes "zeroWithTerms n = Inr m" "0 \<le> n" "is_safe_integer n"
  shows "money_wf m" "mv_exact m \<noteq> None" "money_contains m 0" "\<And>x. money_contains m x \<longleftrightarrow> x = 0"
proof -
  have "signed_ok ''0''" "sdec_val ''0'' = 0" by code_simp+
  then have r: "rationalFromDecimal ''0'' = Inr (rat_rep 0)" using signed_rational [of "''0''"] by simp
  then have "exactValue (rat_rep 0) n = Inr m"
    using assms(1) by (auto simp: zeroWithTerms_def moneyValueFromDecimal_def exactValue_def rbind_Inr_iff)
  from exact_value_wf [OF this assms(2,3)] show "money_wf m" "mv_exact m \<noteq> None" "money_contains m 0" "\<And>x. money_contains m x \<longleftrightarrow> x = 0"
    by (simp_all add: money_contains_def)
qed

lemma zero_rational: "rationalFromDecimal ''0'' = Inr (rat_rep 0)" "rational_ok (rat_rep 0)"
proof -
  have "decimal_pattern ''0''" "dec_val ''0'' = 0" by code_simp+
  then show "rationalFromDecimal ''0'' = Inr (rat_rep 0)" "rational_ok (rat_rep 0)" using decimal_rational [of "''0''"] by simp_all
qed

lemma commitment_Inr:
  assumes "nonnegativeCommitment v = Inr m"
  shows "m = v" "money_wf v" "money_contains v x \<Longrightarrow> 0 \<le> x"
proof -
  obtain c where c: "validateMoneyValue (js_of_money v) = Inr m" "compareBound m (rat_rep 0) Lower = Inr c" "\<not> c < 0"
    using assms by (auto simp: nonnegativeCommitment_def zero_rational rbind_Inr_iff split: if_splits)
  then show m: "m = v" "money_wf v" by (simp_all add: validate_iff)
  show "money_contains v x \<Longrightarrow> 0 \<le> x" using c(2,3) compare_bound(1) [OF m(2) zero_rational(2)] m(1) by (auto simp: contains_iff)
qed

lemma sign_of_decimal: "signed_ok s \<Longrightarrow> if starts_neg s then sdec_val s \<le> 0 else 0 \<le> sdec_val s"
  using dec_val_nonneg [of "magnitude_of s"] by (auto simp: signed_ok_def sdec_val_def)

lemma consumed_inexact:
  assumes "consumedLossForInexact loss = Inr m" "money_wf loss" "mv_exact loss = None" "money_contains loss x"
  shows "money_wf m \<and> money_contains m (max 0 x)"
proof -
  have w: "signed_ok (mv_lower loss)" "signed_ok (mv_upper loss)" "0 \<le> mv_terms loss" "is_safe_integer (mv_terms loss)"
    using assms(2) by (simp_all add: money_wf_def)
  have x: "sdec_val (mv_lower loss) \<le> x" "x \<le> sdec_val (mv_upper loss)" using assms(3,4) by (simp_all add: money_contains_def)
  define lo hi where "lo = (if starts_neg (mv_lower loss) then ''0'' else mv_lower loss)" and "hi = (if starts_neg (mv_upper loss) then ''0'' else mv_upper loss)"
  have z: "sdec_val ''0'' = 0" by (rule zero_value)
  note sg = sign_of_decimal [OF w(1)] sign_of_decimal [OF w(2)]
  have b: "sdec_val lo \<le> max 0 x" "max 0 x \<le> sdec_val hi"
    using sg x z by (auto simp: lo_def hi_def split: if_splits)
  show ?thesis
  proof (cases "hi = ''0''")
    case True
    then have "zeroWithTerms (mv_terms loss) = Inr m" using assms(1) by (simp add: consumedLossForInexact_def Let_def hi_def [symmetric])
    moreover have "max 0 x = 0" using b(2) True z by simp
    ultimately show ?thesis using zero_with_terms w(3,4) by metis
  next
    case False
    then have "validateMoneyValue (js_of_money (loss\<lparr>mv_lower := lo, mv_upper := hi\<rparr>)) = Inr m"
      using assms(1) by (simp add: consumedLossForInexact_def Let_def hi_def [symmetric] lo_def [symmetric])
    then show ?thesis using b assms(3) by (auto simp: validate_iff money_contains_def)
  qed
qed

lemma consumed_loss:
  assumes "consumedLossFor p = Inr m" "money_wf p" "money_contains p x"
  shows "money_wf m \<and> money_contains m (max 0 (- x))"
proof -
  obtain loss where l: "negateMoneyValue p = Inr loss" "money_wf loss" "money_contains loss (- x)" "mv_terms loss = mv_terms p"
    using negate_money [OF assms(2)] assms(3) by blast
  have terms: "0 \<le> mv_terms loss" "is_safe_integer (mv_terms loss)" using l(2) by (simp_all add: money_wf_def)
  show ?thesis
  proof (cases "mv_exact loss")
    case None
    then show ?thesis using consumed_inexact [of loss m "- x"] assms(1) l by (simp add: consumedLossFor_def)
  next
    case (Some q)
    then have "money_lo loss = - x" using l(3) exact_ends [of loss] by (auto simp: contains_iff)
    then show ?thesis
      using assms(1) l Some compare_bound(1) [OF l(2) zero_rational(2)] zero_with_terms(1,3) [OF _ terms]
      by (auto simp: consumedLossFor_def zero_rational split: if_splits)
  qed
qed

lemma exact_not_bounded: "exactValue q n = Inr m \<Longrightarrow> mv_precision m \<noteq> Bounded"
  by (auto simp: exactValue_def rbind_Inr_iff split: if_splits)

lemma bounded_iff_inexact: "money_wf m \<Longrightarrow> mv_precision m = Bounded \<longleftrightarrow> mv_exact m = None"
  using exact_not_bounded by (cases "mv_exact m") (auto simp: money_wf_def)

lemma budget_Inr: "normalizedBudget v = Inr b \<Longrightarrow> decimal_pattern b"
  using decimal_valid [of v b] by (auto simp: normalizedBudget_def split: if_splits)

lemma daily_risk_parts:
  assumes "calculateMonetaryDailyRisk input = Inr r"
  obtains s u t where "decimal_pattern (mdr_budget r)" "money_wf (mdi_ledgerPnl input)"
    "nonnegativeCommitment (mdi_existingCommitment input) = Inr (mdr_existingCommitment r)"
    "nonnegativeCommitment (mdi_candidateCommitment input) = Inr (mdr_candidateCommitment r)"
    "moneyValueFromDecimal (mdi_unrealizedPnl input) = Inr u" "addMoneyValues (mdi_ledgerPnl input) u = Inr (mdr_dayPnl r)"
    "consumedLossFor (mdr_dayPnl r) = Inr (mdr_consumedLoss r)"
    "addMoneyValues (mdr_consumedLoss r) (mdr_existingCommitment r) = Inr s" "addMoneyValues s (mdr_candidateCommitment r) = Inr (mdr_totalCommitment r)"
    "rationalFromDecimal (mdr_budget r) = Inr t"
    "\<exists>c. compareBound (mdr_totalCommitment r) t Upper = Inr c \<and> mdr_allowed r = (c \<le> 0)"
    "\<exists>c. compareBound (mdr_totalCommitment r) t Lower = Inr c \<and> mdr_breached r = (c > 0)"
    "\<exists>c. compareBound (mdr_consumedLoss r) t Lower = Inr c \<and> mdr_lossLimitReached r = (c \<ge> 0)"
    "\<not> mdr_precisionUncertain r \<Longrightarrow> mv_precision (mdr_totalCommitment r) \<noteq> Bounded \<and> mv_precision (mdr_consumedLoss r) \<noteq> Bounded"
proof -
  obtain budget t ledger existing candidate u day consumed s total_commitment cu cl cc where h:
    "normalizedBudget (mdi_budget input) = Inr budget" "rationalFromDecimal budget = Inr t"
    "validateMoneyValue (js_of_money (mdi_ledgerPnl input)) = Inr ledger" "nonnegativeCommitment (mdi_existingCommitment input) = Inr existing"
    "nonnegativeCommitment (mdi_candidateCommitment input) = Inr candidate" "moneyValueFromDecimal (mdi_unrealizedPnl input) = Inr u"
    "addMoneyValues ledger u = Inr day" "consumedLossFor day = Inr consumed" "addMoneyValues consumed existing = Inr s"
    "addMoneyValues s candidate = Inr total_commitment" "compareBound total_commitment t Upper = Inr cu" "compareBound total_commitment t Lower = Inr cl"
    "compareBound consumed t Lower = Inr cc"
    "r = \<lparr>mdr_budget = budget, mdr_dayPnl = day, mdr_consumedLoss = consumed, mdr_existingCommitment = existing,
            mdr_candidateCommitment = candidate, mdr_totalCommitment = total_commitment, mdr_allowed = (cu \<le> 0), mdr_breached = (cl > 0),
            mdr_lossLimitReached = (cc \<ge> 0),
            mdr_precisionUncertain = list_ex (\<lambda>v. mv_precision v = Bounded) [ledger, existing, candidate, day, consumed, total_commitment]\<rparr>"
    using assms unfolding calculateMonetaryDailyRisk_def rbind_Inr_iff sum.inject by (elim exE conjE) (rule that, (assumption | rule sym, assumption)+)
  have "ledger = mdi_ledgerPnl input" "money_wf (mdi_ledgerPnl input)" using h(3) by (simp_all add: validate_iff)
  then show thesis using that [of u s t] h budget_Inr [OF h(1)] by simp
qed


section \<open>What a reservation is\<close>

lemma signed_unsigned: "decimal_pattern a \<Longrightarrow> signedDecimal a = decimal a"
  using valid_unsigned [of a] decimal_law [of a] with_sign_facts
  by (auto simp: signedDecimal_eq returns_decimal_def with_sign_def)

lemma multiply_exact_Inr:
  assumes "multiplyExactSignedDecimal a b = Inr c" "canonical_decimal a" "canonical_decimal b"
  shows "decimal_pattern c \<and> canonical_decimal c \<and> dec_val c = dec_val a * dec_val b"
proof -
  obtain x y where "signedDecimal a = Inr x" "signedDecimal b = Inr y" using assms(1) by (auto simp: multiplyExactSignedDecimal_def rbind_Inr_iff)
  then have v: "decimal_pattern a" "decimal_pattern b"
    using signed_canonical_ok [of a x] signed_canonical_ok [of b y] canonical_is_signed assms(2,3) canonical_unsigned by (auto simp: signed_ok_def)
  obtain l where l: "decimal a = Inr l" "canonical_decimal l" "dec_val l = dec_val a" using decimal_law [OF v(1)] by (rule returns_decimalE)
  obtain r where r: "decimal b = Inr r" "canonical_decimal r" "dec_val r = dec_val b" using decimal_law [OF v(2)] by (rule returns_decimalE)
  have n: "\<not> starts_neg l" "magnitude_of l = l" "\<not> starts_neg r" "magnitude_of r = r"
    using valid_unsigned decimal_valid [OF l(1)] decimal_valid [OF r(1)] by auto
  obtain p where p: "parse l = Inr p" "pd_val p = dec_val l" "0 \<le> coefficient p" using decimal_valid [OF l(1)] by (rule parse_ok)
  obtain q where q: "parse r = Inr q" "pd_val q = dec_val r" "0 \<le> coefficient q" using decimal_valid [OF r(1)] by (rule parse_ok)
  obtain k sc where k: "reduce_scale (coefficient p * coefficient q) (scale p + scale q) = (k, sc)" by fastforce
  note red = reduce_scale_spec [OF mult_nonneg_nonneg [OF p(3) q(3)] k]
  obtain s where s: "format k sc = Inr s" "decimal s = Inr c"
    using assms(1) signed_unsigned v l(1) r(1) n p(1) q(1) k by (auto simp: multiplyExactSignedDecimal_def rbind_Inr_iff split: if_splits)
  then have "canonical_decimal s" "dec_val s = of_int k / 10 ^ sc" using format_spec [OF red(2), of sc] by (simp_all add: returns_decimal_def)
  moreover have "of_int k / 10 ^ sc = dec_val a * dec_val b" unfolding red(1) l(3) [symmetric] r(3) [symmetric] p(2) [symmetric] q(2) [symmetric]
    by (simp add: pd_val_def power_add)
  ultimately show ?thesis using s(2) decimal_law [of s] decimal_valid [OF s(2)] canonical_trim [of s] decimal_Inr_iff [of s c]
    by (auto simp: returns_decimal_def)
qed

text \<open>The loss of a quantity bought (or sold) at a price when the stop is hit.\<close>

definition loss_at_stop :: "trading_side \<Rightarrow> rat \<Rightarrow> rat \<Rightarrow> rat \<Rightarrow> rat" where
  "loss_at_stop side price stop q = max 0 (case side of LONG \<Rightarrow> price - stop | SHORT \<Rightarrow> stop - price) * q"

definition price_of :: "string option \<Rightarrow> rat" where
  "price_of p = (case p of None \<Rightarrow> 0 | Some s \<Rightarrow> dec_val (js_trim s))"

lemma loss_to_stop_Inr:
  assumes "lossToStop side p stop q = Inr l" "decimal_pattern stop" "canonical_decimal q"
  shows "decimal_pattern l \<and> canonical_decimal l \<and> dec_val l = loss_at_stop side (price_of p) (dec_val stop) (dec_val q) \<and> (dec_val q \<noteq> 0 \<longrightarrow> p \<noteq> None)"
proof (cases "q = ''0''")
  case True
  then show ?thesis using assms(1) zero_decimal by (auto simp: lossToStop_def loss_at_stop_def)
next
  case False
  obtain r price adverse where p: "p = Some r" "decimal_positive r = Inr price" "adversePriceMovement side price stop = Inr adverse"
    "if adverse then stopDistance side price stop q = Inr l else l = ''0''"
    using assms(1) False by (auto simp: lossToStop_def rbind_Inr_iff split: option.splits if_splits)
  have v: "dec_val price = price_of p" "decimal_pattern price" using decimal_positive_value [OF p(2)] p(1) by (simp_all add: price_of_def)
  have adv: "adverse \<longleftrightarrow> 0 < (case side of LONG \<Rightarrow> dec_val price - dec_val stop | SHORT \<Rightarrow> dec_val stop - dec_val price)"
    using p(3) v(2) assms(2) by (auto simp: adversePriceMovement_def compare_law rat_cmp_def split: trading_side.splits if_splits)
  show ?thesis
  proof (cases adverse)
    case True
    then obtain d where d: "(case side of LONG \<Rightarrow> subtractDecimal price stop | SHORT \<Rightarrow> subtractDecimal stop price) = Inr d" "multiplyExactSignedDecimal d q = Inr l"
      using p(4) by (auto simp: stopDistance_def rbind_Inr_iff)
    then show ?thesis
      using multiply_exact_Inr [OF d(2) _ assms(3)] subtract_Inr adv True p(1) v(1)
      by (auto simp: loss_at_stop_def split: trading_side.splits)
  next
    case False
    then show ?thesis using p(1,4) zero_decimal adv v(1) by (auto simp: loss_at_stop_def split: trading_side.splits)
  qed
qed

text \<open>What an entry can still execute: nothing once it is settled, otherwise the part that is not filled.\<close>

definition entry_remaining :: "risk_entry_remainder \<Rightarrow> rat" where
  "entry_remaining e = (if re_status e \<in> {''filled'', ''cancelled'', ''rejected''} then 0
     else dec_val (js_trim (re_quantity e)) - price_of (re_filledQuantity e))"

lemma remaining_entry_Inr:
  assumes "remainingEntry e = Inr q"
  shows "canonical_decimal q" "dec_val q = entry_remaining e" "\<not> re_operationUnresolved e" "re_filledQuantity e \<noteq> None"
proof -
  obtain f q' f' r where h: "re_filledQuantity e = Some f" "decimal_positive (re_quantity e) = Inr q'" "decimal f = Inr f'" "subtractDecimal q' f' = Inr r"
    "q = (if re_status e \<in> set terminal_entry_states then ''0'' else r)" "\<not> re_operationUnresolved e"
    using assms by (auto simp: remainingEntry_def remainingQuantity_def rbind_Inr_iff split: if_splits option.splits)
  show "canonical_decimal q" "dec_val q = entry_remaining e" "\<not> re_operationUnresolved e" "re_filledQuantity e \<noteq> None"
    using h subtract_Inr [OF h(4)] decimal_positive_value [OF h(2)] decimal_Inr_iff [of f f'] zero_decimal
    by (auto simp: entry_remaining_def terminal_entry_states_def price_of_def)
qed

lemma entries_Inr:
  assumes "foldM (add_entry side stop) (q0, r0) es = Inr (q, r)" "decimal_pattern stop" "canonical_decimal q0" "canonical_decimal r0"
  shows "canonical_decimal q \<and> canonical_decimal r \<and> dec_val q = dec_val q0 + (\<Sum>e\<leftarrow>es. entry_remaining e) \<and>
    dec_val r = dec_val r0 + (\<Sum>e\<leftarrow>es. loss_at_stop side (price_of (re_price e)) (dec_val stop) (entry_remaining e)) \<and>
    (\<forall>e\<in>set es. \<not> re_operationUnresolved e \<and> re_filledQuantity e \<noteq> None \<and> (entry_remaining e \<noteq> 0 \<longrightarrow> re_price e \<noteq> None))"
  using assms
proof (induction es arbitrary: q0 r0)
  case (Cons e es)
  obtain k q1 l r1 where h: "remainingEntry e = Inr k" "addDecimal q0 k = Inr q1" "lossToStop side (re_price e) stop k = Inr l" "addDecimal r0 l = Inr r1"
    "foldM (add_entry side stop) (q1, r1) es = Inr (q, r)"
    using Cons.prems(1) by (auto simp: add_entry_def rbind_Inr_iff)
  note k = remaining_entry_Inr [OF h(1)] and l = loss_to_stop_Inr [OF h(3) Cons.prems(2) remaining_entry_Inr(1) [OF h(1)]]
  show ?case using Cons.IH [OF h(5) Cons.prems(2)] add_Inr [OF h(2)] add_Inr [OF h(4)] k l by auto
qed simp

lemma money_amount:
  assumes "moneyValueFromDecimal s = Inr m" "canonical_decimal s" "decimal_pattern s"
  shows "mv_decimal m = Some s" "money_contains m y \<longleftrightarrow> y = dec_val s"
proof -
  obtain m' where "moneyValueFromDecimal s = Inr m'" "mv_exact m' = Some (rat_rep (sdec_val s))" "mv_decimal m' = Some s"
    using canonical_is_signed [OF assms(2)] unsigned_signed [OF assms(3)] by (blast elim: money_of_canonical)
  then show "mv_decimal m = Some s" "money_contains m y \<longleftrightarrow> y = dec_val s" using assms unsigned_signed [OF assms(3)] by (auto simp: money_contains_def)
qed

lemma reservation_parts:
  assumes "provedReservation input = Inr a"
  obtains owned stop pendingQuantity pendingRisk mark actual additional v where
    "rri_protectionProven input" "decimal (rri_ownedQuantity input) = Inr owned" "decimal_positive (rri_stopPrice input) = Inr stop"
    "foldM (add_entry (rri_side input) stop) (''0'', ''0'') (rri_entries input) = Inr (pendingQuantity, pendingRisk)"
    "lossToStop (rri_side input) (rri_markPrice input) stop owned = Inr mark"
    "lossToStop (rri_side input) (rri_averageEntryPrice input) stop owned = Inr actual"
    "addDecimal mark pendingRisk = Inr additional" "moneyValueFromDecimal additional = Inr v"
    "rra_status a = Complete" "rra_pendingQuantity a = Some pendingQuantity" "rra_markToStopRisk a = Some mark" "rra_actualFillToStopRisk a = Some actual"
    "rra_pendingEntryRisk a = Some pendingRisk" "rra_additionalRisk a = Some additional" "rra_additionalRiskValue a = Some v"
  using assms by (auto simp: provedReservation_def rbind_Inr_iff throw_if_Inr)

section \<open>Properties\<close>

text \<open>
  C12: the daily loss budget is decided on true amounts. Whatever amounts the ledger profit and the
  two commitments stand for, the loss of the day (ledger plus open profit, when negative) plus the
  commitments lies in the reported total. An entry is allowed only if that amount is within the budget, a
  breach and a reached loss limit are reported only when they are real, and the commitments are never
  negative; when no precision was lost all three answers are exact. So missing precision can refuse an entry but not invent a breach.
\<close>

theorem daily_risk_sound:
  assumes "calculateMonetaryDailyRisk input = Inr r" "money_contains (mdi_ledgerPnl input) x"
    and "money_contains (mdi_existingCommitment input) e" "money_contains (mdi_candidateCommitment input) c"
  shows "\<exists>u. signedDecimal (mdi_unrealizedPnl input) = Inr u \<and>
    (let lost = max 0 (- (x + sdec_val u)); needed = lost + e + c; budget = dec_val (mdr_budget r) in
      0 \<le> e \<and> 0 \<le> c \<and> money_contains (mdr_totalCommitment r) needed \<and>
      (mdr_allowed r \<longrightarrow> needed \<le> budget) \<and> (mdr_breached r \<longrightarrow> budget < needed) \<and> (mdr_lossLimitReached r \<longrightarrow> budget \<le> lost) \<and>
      (\<not> mdr_precisionUncertain r \<longrightarrow>
        mdr_allowed r = (needed \<le> budget) \<and> mdr_breached r = (budget < needed) \<and> mdr_lossLimitReached r = (budget \<le> lost)))"
proof -
  obtain s u t where p: "decimal_pattern (mdr_budget r)" "money_wf (mdi_ledgerPnl input)"
    "nonnegativeCommitment (mdi_existingCommitment input) = Inr (mdr_existingCommitment r)"
    "nonnegativeCommitment (mdi_candidateCommitment input) = Inr (mdr_candidateCommitment r)"
    "moneyValueFromDecimal (mdi_unrealizedPnl input) = Inr u" "addMoneyValues (mdi_ledgerPnl input) u = Inr (mdr_dayPnl r)"
    "consumedLossFor (mdr_dayPnl r) = Inr (mdr_consumedLoss r)"
    "addMoneyValues (mdr_consumedLoss r) (mdr_existingCommitment r) = Inr s" "addMoneyValues s (mdr_candidateCommitment r) = Inr (mdr_totalCommitment r)"
    "rationalFromDecimal (mdr_budget r) = Inr t"
    "\<exists>c. compareBound (mdr_totalCommitment r) t Upper = Inr c \<and> mdr_allowed r = (c \<le> 0)"
    "\<exists>c. compareBound (mdr_totalCommitment r) t Lower = Inr c \<and> mdr_breached r = (c > 0)"
    "\<exists>c. compareBound (mdr_consumedLoss r) t Lower = Inr c \<and> mdr_lossLimitReached r = (c \<ge> 0)"
    "\<not> mdr_precisionUncertain r \<Longrightarrow> mv_precision (mdr_totalCommitment r) \<noteq> Bounded \<and> mv_precision (mdr_consumedLoss r) \<noteq> Bounded"
    using assms(1) by (rule daily_risk_parts) blast
  obtain d where d: "signedDecimal (mdi_unrealizedPnl input) = Inr d" "\<And>y. money_contains u y \<longleftrightarrow> y = sdec_val d"
    using p(5) by (rule money_from_decimal_Inr) blast
  define lost where "lost = max 0 (- (x + sdec_val d))"
  note e = commitment_Inr [OF p(3)] and c = commitment_Inr [OF p(4)]
  have day: "money_wf (mdr_dayPnl r)" "money_contains (mdr_dayPnl r) (x + sdec_val d)"
    using add_money_sound(1,3) [OF p(6)] assms(2) d(2) by auto
  have consumed: "money_wf (mdr_consumedLoss r)" "money_contains (mdr_consumedLoss r) lost"
    using consumed_loss [OF p(7) day] by (simp_all add: lost_def)
  have needed: "money_wf (mdr_totalCommitment r)" "money_contains (mdr_totalCommitment r) (lost + e + c)"
    using add_money_sound(1,3) [OF p(9)] add_money_sound(3) [OF p(8) consumed(2)] assms(3,4) e(1) c(1) by auto
  have t: "rational_ok t" "rval t = dec_val (mdr_budget r)" using decimal_rational [OF p(1)] p(10) by auto
  have answers: "mdr_allowed r = (money_hi (mdr_totalCommitment r) \<le> dec_val (mdr_budget r))"
    "mdr_breached r = (dec_val (mdr_budget r) < money_lo (mdr_totalCommitment r))"
    "mdr_lossLimitReached r = (dec_val (mdr_budget r) \<le> money_lo (mdr_consumedLoss r))"
    using p(11-13) compare_bound [OF needed(1) t(1)] compare_bound(1) [OF consumed(1) t(1)] t(2) by auto
  have ends: "money_lo (mdr_totalCommitment r) = money_hi (mdr_totalCommitment r)" "money_lo (mdr_consumedLoss r) = money_hi (mdr_consumedLoss r)"
    if "\<not> mdr_precisionUncertain r"
    using p(14) [OF that] bounded_iff_inexact needed(1) consumed(1) exact_ends by auto
  show ?thesis
    using d(1) e(3) [OF assms(3)] c(3) [OF assms(4)] needed(2) consumed(2) answers ends
    unfolding Let_def by (intro exI [of _ d], fold lost_def) (auto simp: contains_iff)
qed

text \<open>A day that lost about one, with a candidate that risks about one, on a budget of three.\<close>

definition sample_day :: monetary_daily_risk_input where
  "sample_day = \<lparr>mdi_budget = ''3'', mdi_ledgerPnl = two_bounded\<lparr>mv_lower := ''-1.000000000000000001'', mv_upper := ''-1''\<rparr>, mdi_unrealizedPnl = ''0'',
     mdi_existingCommitment = \<lparr>mv_lower = ''0'', mv_upper = ''0'', mv_exact = Some \<lparr>numerator = ''0'', denominator = ''1''\<rparr>, mv_decimal = Some ''0'',
       mv_precision = Exact_decimal, mv_terms = 1\<rparr>,
     mdi_candidateCommitment = two_bounded\<rparr>"

theorem daily_risk_sound_witness:
  "\<exists>r. calculateMonetaryDailyRisk sample_day = Inr r \<and> mdr_allowed r \<and> money_contains (mdr_totalCommitment r) 2"
proof -
  have "case calculateMonetaryDailyRisk sample_day of Inl e \<Rightarrow> False | Inr r \<Rightarrow> mdr_allowed r" by code_simp
  then obtain r where r: "calculateMonetaryDailyRisk sample_day = Inr r" "mdr_allowed r" by (auto split: sum.splits)
  have c: "money_contains (mdi_ledgerPnl sample_day) (- 1)" "money_contains (mdi_existingCommitment sample_day) 0"
    "money_contains (mdi_candidateCommitment sample_day) 1" by code_simp+
  have u: "signedDecimal (mdi_unrealizedPnl sample_day) = Inr ''0''" by code_simp
  show ?thesis using daily_risk_sound [OF r(1) c] r u zero_value by (auto simp: Let_def)
qed

text \<open>
  C21: a risk reservation is exact or it is not given. An unresolved reservation has no amount at
  all, only a reason. A complete one exists only for a position with proven stop coverage whose entries have a settled operation and a
  known executed quantity. Its pending risk is the exact sum, over the entries, of what their unfilled parts lose at the
  stop, its mark risk what the owned quantity loses from the mark price, and the additional risk, in both
  of its representations, exactly the sum of the two.
\<close>

theorem reservation_exact:
  "case calculateRiskReservation input of a \<Rightarrow> case rra_status a of
     Unresolved \<Rightarrow> rra_reason a \<noteq> None \<and> rra_additionalRisk a = None \<and> rra_additionalRiskValue a = None \<and> rra_markToStopRisk a = None \<and>
       rra_pendingEntryRisk a = None \<and> rra_actualFillToStopRisk a = None \<and> rra_pendingQuantity a = None
   | Complete \<Rightarrow> rri_protectionProven input \<and>
       list_all (\<lambda>e. \<not> re_operationUnresolved e \<and> re_filledQuantity e \<noteq> None) (rri_entries input) \<and>
       (\<exists>mark pending additional v. rra_markToStopRisk a = Some mark \<and> rra_pendingEntryRisk a = Some pending \<and> rra_additionalRisk a = Some additional \<and>
         rra_additionalRiskValue a = Some v \<and>
         (let side = rri_side input; stop = dec_val (js_trim (rri_stopPrice input)); owned = dec_val (js_trim (rri_ownedQuantity input)) in
           dec_val pending = (\<Sum>e\<leftarrow>rri_entries input. loss_at_stop side (price_of (re_price e)) stop (entry_remaining e)) \<and>
           dec_val mark = loss_at_stop side (price_of (rri_markPrice input)) stop owned \<and>
           dec_val additional = dec_val mark + dec_val pending \<and> (\<forall>y. money_contains v y \<longleftrightarrow> y = dec_val additional)))"
proof (cases "provedReservation input")
  case (Inl e)
  then show ?thesis by (simp add: calculateRiskReservation_def unresolvedRiskAmounts_def)
next
  case (Inr a)
  then obtain owned stop pendingQuantity pendingRisk mark actual additional v where h:
    "rri_protectionProven input" "decimal (rri_ownedQuantity input) = Inr owned" "decimal_positive (rri_stopPrice input) = Inr stop"
    "foldM (add_entry (rri_side input) stop) (''0'', ''0'') (rri_entries input) = Inr (pendingQuantity, pendingRisk)"
    "lossToStop (rri_side input) (rri_markPrice input) stop owned = Inr mark"
    "lossToStop (rri_side input) (rri_averageEntryPrice input) stop owned = Inr actual"
    "addDecimal mark pendingRisk = Inr additional" "moneyValueFromDecimal additional = Inr v"
    "rra_status a = Complete" "rra_pendingQuantity a = Some pendingQuantity" "rra_markToStopRisk a = Some mark" "rra_actualFillToStopRisk a = Some actual"
    "rra_pendingEntryRisk a = Some pendingRisk" "rra_additionalRisk a = Some additional" "rra_additionalRiskValue a = Some v"
    by (rule reservation_parts)
  have stop: "decimal_pattern stop" "dec_val stop = dec_val (js_trim (rri_stopPrice input))" using decimal_positive_value [OF h(3)] by auto
  have owned: "canonical_decimal owned" "dec_val owned = dec_val (js_trim (rri_ownedQuantity input))" using h(2) by (auto simp: decimal_Inr_iff)
  note entries = entries_Inr [OF h(4) stop(1) zero_decimal(2) zero_decimal(2)] and mark = loss_to_stop_Inr [OF h(5) stop(1) owned(1)]
    and sum = add_Inr [OF h(7)]
  obtain l where "signedDecimal additional = Inr l" using h(8) by (auto simp: moneyValueFromDecimal_def rationalFromDecimal_def rbind_Inr_iff split: if_splits)
  then have "decimal_pattern additional" using signed_canonical_ok canonical_is_signed canonical_unsigned sum by (fastforce simp: signed_ok_def)
  note v = money_amount [OF h(8) _ this]
  show ?thesis
    using Inr h entries mark sum v stop(2) owned(2) zero_decimal(3) by (simp add: calculateRiskReservation_def Let_def list_all_iff)
qed

definition sample_reservation :: risk_reservation_input where
  "sample_reservation = \<lparr>rri_side = LONG, rri_ownedQuantity = ''2'', rri_averageEntryPrice = Some ''9'', rri_markPrice = Some ''10'', rri_stopPrice = ''8'',
     rri_reportingCurrency = ''USDT'',
     rri_market = JObj [(''version'', JNum (Num 1)), (''linear'', JBool True), (''quantityUnit'', JStr ''base''), (''source'', JStr ''ccxt-market-v1''),
       (''providerSymbol'', JStr ''BTC''), (''settlementAsset'', JStr ''USDT'')],
     rri_entries = [\<lparr>re_id = ''e'', re_generation = 1, re_status = ''open'', re_quantity = ''3'', re_filledQuantity = Some ''2'', re_price = Some ''9'',
       re_operationUnresolved = False\<rparr>],
     rri_protectionProven = True\<rparr>"

theorem reservation_exact_witness:
  "\<exists>additional. rra_additionalRisk (calculateRiskReservation sample_reservation) = Some additional \<and> dec_val additional = 5"
proof -
  have money: "\<exists>m. moneyValueFromDecimal s = Inr m" if "signedDecimal s = Inr s" for s
    using signedDecimal_InrD(1,2) [OF that] by (blast elim: money_of_canonical)
  have "signedDecimal ''4'' = Inr ''4''" "signedDecimal ''1'' = Inr ''1''" "signedDecimal ''2'' = Inr ''2''" "signedDecimal ''5'' = Inr ''5''" by code_simp+
  then obtain m4 m1 m2 m5 where m: "moneyValueFromDecimal ''4'' = Inr m4" "moneyValueFromDecimal ''1'' = Inr m1" "moneyValueFromDecimal ''2'' = Inr m2"
    "moneyValueFromDecimal ''5'' = Inr m5" using money by meson
  have "case validateFillAccounting (rri_market sample_reservation) None of Inl e \<Rightarrow> False | Inr f \<Rightarrow> fa_settlementAsset f = ''USDT''" by code_simp
  then obtain f where f: "validateFillAccounting (rri_market sample_reservation) None = Inr f" "fa_settlementAsset f = ''USDT''" by (auto split: sum.splits)
  have c: "decimal (rri_ownedQuantity sample_reservation) = Inr ''2''" "decimal_positive (rri_stopPrice sample_reservation) = Inr ''8''"
    "foldM (add_entry (rri_side sample_reservation) ''8'') (''0'', ''0'') (rri_entries sample_reservation) = Inr (''1'', ''1'')"
    "lossToStop (rri_side sample_reservation) (rri_markPrice sample_reservation) ''8'' ''2'' = Inr ''4''"
    "lossToStop (rri_side sample_reservation) (rri_averageEntryPrice sample_reservation) ''8'' ''2'' = Inr ''2''" "addDecimal ''4'' ''1'' = Inr ''5''"
    "rri_reportingCurrency sample_reservation = ''USDT''" "rri_protectionProven sample_reservation"
    by code_simp+
  have complete: "rra_status (calculateRiskReservation sample_reservation) = Complete"
    by (simp add: calculateRiskReservation_def provedReservation_def f c m)
  have "loss_at_stop LONG 10 8 2 = 4" "price_of (Some ''10'') = 10" "dec_val (js_trim ''8'') = 8" "dec_val (js_trim ''2'') = 2"
    "(\<Sum>e\<leftarrow>rri_entries sample_reservation. loss_at_stop LONG (price_of (re_price e)) 8 (entry_remaining e)) = 1" by code_simp+
  then show ?thesis using reservation_exact [of sample_reservation] complete by (auto simp: Let_def) (simp_all add: sample_reservation_def)
qed

end
