(* ===== verification/Trading_Ownership.thy ===== *)
theory Trading_Ownership
  imports Trading_Types "HOL-Library.Char_ord" "HOL-Library.List_Lexorder" "HOL-Library.Product_Lexorder"
begin

text \<open>
  What is owned and what protects it: the quantity an intent owns according to its fill ledger
  (\<^verbatim>\<open>src/trading_ownership.ts\<close>), the coverage of a position by a stop (\<^verbatim>\<open>src/trading_protection.ts\<close>) and the obligation to
  drain entries (\<^verbatim>\<open>src/trading_entry_commitment.ts\<close>). Database tables are lists of rows; a query is a filter of a list,
  an update a map over it. The proofs show that an accepted ownership is the exact balance of the ledger and
  that a required stop quantity is the owned quantity plus everything the entries can still execute.
\<close>

section \<open>Tables\<close>

text \<open>Of each table the columns that the modelled statements read or write, those added by migrations included.\<close>

record trading_order_row =
  tor_id :: string
  tor_intent_id :: string
  tor_account_id :: string
  tor_client_order_id :: string
  tor_exchange_order_id :: "string option"
  tor_provider_symbol :: "string option"
  tor_role :: string
  tor_side :: string
  tor_status :: string
  tor_trigger_price :: "string option"
  tor_quantity :: string
  tor_filled_quantity :: string
  tor_reduce_only :: int
  tor_created_at :: int
  tor_drain_requested_at :: "int option"
  tor_drain_reason :: "string option"
  tor_drain_attempted_at :: "int option"

record trading_fill_row =
  tfr_order_id :: string
  tfr_quantity :: string

record trading_position_row =
  tpr_account_id :: string
  tpr_intent_id :: string
  tpr_symbol :: string
  tpr_side :: trading_side
  tpr_status :: string
  tpr_quantity :: string
  tpr_stop_price :: string

text \<open>Of an operation the phase and the client identifiers of the orders it expects.\<close>

record trading_operation_row =
  top_account_id :: string
  top_intent_id :: string
  top_phase :: string
  top_expected :: "string list"

record trading_tables =
  tt_orders :: "trading_order_row list"
  tt_fills :: "trading_fill_row list"
  tt_positions :: "trading_position_row list"
  tt_operations :: "trading_operation_row list"
  tt_intent_symbol :: "string \<rightharpoonup> string"


section \<open>Ownership\<close>

record ownership_order =
  oo_id :: string
  oo_role :: string
  oo_side :: string
  oo_reduce_only :: int
  oo_quantity :: string
  oo_filled_quantity :: string

record ownership_proof =
  op_entryQuantity :: string
  op_exitQuantity :: string
  op_netQuantity :: string

definition ownership_error :: "string \<Rightarrow> string \<Rightarrow> error" where
  "ownership_error code message = TradingOwnershipError code message"

definition side_name :: "trading_side \<Rightarrow> string" where
  "side_name side = (case side of LONG \<Rightarrow> ''LONG'' | SHORT \<Rightarrow> ''SHORT'')"

definition expectedOrderSide :: "string \<Rightarrow> trading_side \<Rightarrow> string \<times> int" where
  "expectedOrderSide role side =
     (let entrySide = (if side = LONG then ''buy'' else ''sell'');
          exitSide = (if entrySide = ''buy'' then ''sell'' else ''buy'')
      in if role = ''entry'' then (entrySide, 0) else (exitSide, 1))"

definition assertOrderSemantics :: "ownership_order \<Rightarrow> trading_side \<Rightarrow> unit result" where
  "assertOrderSemantics order side = (case expectedOrderSide (oo_role order) side of (expectedSide, expectedReduceOnly) \<Rightarrow>
     throw_if (oo_side order \<noteq> expectedSide \<or> oo_reduce_only order \<noteq> expectedReduceOnly)
       (ownership_error ''ORDER_SEMANTICS'' (''Order '' @ oo_id order @ '' cannot prove an owned '' @ side_name side @ '' execution.'')))"

definition executed_of :: "(string \<rightharpoonup> string) \<Rightarrow> string \<Rightarrow> string" where
  "executed_of totals i = (case totals i of None \<Rightarrow> ''0'' | Some s \<Rightarrow> s)"

definition add_fill :: "string list \<Rightarrow> (string \<rightharpoonup> string) \<Rightarrow> trading_fill_row \<Rightarrow> (string \<rightharpoonup> string) result" where
  "add_fill ids totals fill =
     rbind (throw_if (tfr_order_id fill \<notin> set ids) (ownership_error ''UNMAPPED_FILL'' ''A fill has no managed order.'')) (\<lambda>_.
     rbind (decimal_positive (tfr_quantity fill)) (\<lambda>q.
     rbind (addDecimal (executed_of totals (tfr_order_id fill)) q) (\<lambda>s. Inr (totals(tfr_order_id fill \<mapsto> s)))))"

definition add_order :: "trading_side \<Rightarrow> (string \<rightharpoonup> string) \<Rightarrow> string \<times> string \<Rightarrow> ownership_order \<Rightarrow> (string \<times> string) result" where
  "add_order side totals = (\<lambda>(entryQuantity, exitQuantity) order.
     rbind (assertOrderSemantics order side) (\<lambda>_.
     let executed = executed_of totals (oo_id order) in
     rbind (rbind (decimal_positive (oo_quantity order)) (\<lambda>q. compareDecimal executed q)) (\<lambda>c.
     rbind (throw_if (c > 0) (ownership_error ''ORDER_OVERFILLED'' (''Fill sum exceeds order '' @ oo_id order @ '' quantity.''))) (\<lambda>_.
     rbind (rbind (decimal (oo_filled_quantity order)) (\<lambda>f. compareDecimal executed f)) (\<lambda>d.
     rbind (throw_if (d \<noteq> 0) (ownership_error ''CUMULATIVE_EXECUTION_MISMATCH''
              (''Fill ledger and cumulative execution disagree for order '' @ oo_id order @ ''.''))) (\<lambda>_.
       if oo_role order = ''entry'' then rbind (addDecimal entryQuantity executed) (\<lambda>e. Inr (e, exitQuantity))
       else rbind (addDecimal exitQuantity executed) (\<lambda>x. Inr (entryQuantity, x))))))))"

definition proveOwnedQuantity :: "ownership_order list \<Rightarrow> trading_fill_row list \<Rightarrow> trading_side \<Rightarrow> ownership_proof result" where
  "proveOwnedQuantity orders fills side =
     rbind (foldM (add_fill (map oo_id orders)) (\<lambda>_. None) fills) (\<lambda>totals.
     rbind (foldM (add_order side totals) (''0'', ''0'') orders) (\<lambda>(entryQuantity, exitQuantity).
     rbind (compareDecimal exitQuantity entryQuantity) (\<lambda>c.
     rbind (throw_if (c > 0) (ownership_error ''EXITS_EXCEED_ENTRIES'' ''Owned exits exceed owned entries.'')) (\<lambda>_.
     rbind (subtractDecimal entryQuantity exitQuantity) (\<lambda>net.
       Inr \<lparr>op_entryQuantity = entryQuantity, op_exitQuantity = exitQuantity, op_netQuantity = net\<rparr>)))))"

definition ownership_order_of :: "trading_order_row \<Rightarrow> ownership_order" where
  "ownership_order_of r = \<lparr>oo_id = tor_id r, oo_role = tor_role r, oo_side = tor_side r, oo_reduce_only = tor_reduce_only r,
     oo_quantity = tor_quantity r, oo_filled_quantity = tor_filled_quantity r\<rparr>"

definition loadOwnershipProof :: "trading_tables \<Rightarrow> string \<Rightarrow> trading_side \<Rightarrow> ownership_proof result" where
  "loadOwnershipProof db intentId side =
     (let orders = filter (\<lambda>r. tor_intent_id r = intentId) (tt_orders db);
          fills = filter (\<lambda>f. \<exists>r\<in>set (tt_orders db). tor_id r = tfr_order_id f \<and> tor_intent_id r = intentId) (tt_fills db)
      in proveOwnedQuantity (map ownership_order_of orders) fills side)"

definition missing_text :: "string option \<Rightarrow> bool" where
  "missing_text v \<longleftrightarrow> v = None \<or> v = Some []"

definition assertPositionNamespace :: "exchange_position_snapshot \<Rightarrow> string option list \<Rightarrow> unit result" where
  "assertPositionNamespace position executedEntrySymbols =
     throw_if (missing_text (xp_providerSymbol position) \<or> executedEntrySymbols = []
        \<or> list_ex (\<lambda>symbol. missing_text symbol \<or> symbol \<noteq> xp_providerSymbol position) executedEntrySymbols)
       (ownership_error ''POSITION_NAMESPACE_MISMATCH'' ''Remote position market is not the exact market of every owned entry execution.'')"

text \<open>The rows kept by \<^verbatim>\<open>filter\<close>, whose predicate may throw.\<close>

fun executed_symbols :: "trading_order_row list \<Rightarrow> string option list result" where
  "executed_symbols [] = Inr []"
| "executed_symbols (r # rs) = rbind (compareDecimal (tor_filled_quantity r) ''0'') (\<lambda>c. rbind (executed_symbols rs) (\<lambda>ss.
     Inr (if c > 0 then tor_provider_symbol r # ss else ss)))"

definition assertOwnedPositionNamespace :: "trading_tables \<Rightarrow> string \<Rightarrow> exchange_position_snapshot \<Rightarrow> unit result" where
  "assertOwnedPositionNamespace db intentId position =
     rbind (executed_symbols (filter (\<lambda>r. tor_intent_id r = intentId \<and> tor_role r = ''entry'') (tt_orders db))) (assertPositionNamespace position)"

record local_position =
  lp_intent_id :: string
  lp_symbol :: string
  lp_side :: trading_side

definition assert_local :: "trading_tables \<Rightarrow> exchange_position_snapshot list \<Rightarrow> string list \<Rightarrow> local_position \<Rightarrow> string list result" where
  "assert_local db positions symbols l =
     rbind (throw_if (lp_symbol l \<in> set symbols)
              (ownership_error ''AMBIGUOUS_LOCAL_OWNERSHIP'' ''Multiple local positions claim the same symbol.'')) (\<lambda>_.
     let remote = filter (\<lambda>p. xp_symbol p = lp_symbol l) positions in
     rbind (throw_if (length remote > 1) (ownership_error ''AMBIGUOUS_REMOTE_POSITION'' ''Multiple remote positions use one canonical symbol.'')) (\<lambda>_.
     rbind (loadOwnershipProof db (lp_intent_id l) (lp_side l)) (\<lambda>own.
     rbind (case remote of
         [] \<Rightarrow> rbind (compareDecimal (op_netQuantity own) ''0'') (\<lambda>c.
           throw_if (c > 0) (ownership_error ''REMOTE_POSITION_ABSENT''
             (''Remote position '' @ lp_symbol l @ '' is absent without terminal fill proof.'')))
       | p # _ \<Rightarrow>
           rbind (if xp_side p \<noteq> lp_side l then Inr True else rbind (compareDecimal (xp_quantity p) (op_netQuantity own)) (\<lambda>c. Inr (c \<noteq> 0))) (\<lambda>bad.
           rbind (throw_if bad (ownership_error ''REMOTE_QUANTITY_MISMATCH''
             (''Remote '' @ lp_symbol l @ '' quantity does not equal the proved owned quantity.''))) (\<lambda>_.
             assertOwnedPositionNamespace db (lp_intent_id l) p))) (\<lambda>_.
       Inr (lp_symbol l # symbols)))))"

definition assertAccountOwnership :: "trading_tables \<Rightarrow> local_position list \<Rightarrow> exchange_position_snapshot list \<Rightarrow> unit result" where
  "assertAccountOwnership db locals positions = rbind (foldM (assert_local db positions) [] locals) (\<lambda>_. Inr ())"


section \<open>Protection\<close>

definition terminal_order_states :: "string list" where
  "terminal_order_states = [''filled'', ''cancelled'', ''rejected'']"

record protection_order =
  po_accountId :: string
  po_intentId :: string
  po_clientOrderId :: "string option"
  po_exchangeOrderId :: "string option"
  po_symbol :: string
  po_orderRole :: string
  po_orderSide :: string
  po_orderStatus :: string
  po_onlyReduces :: bool
  po_orderQuantity :: string
  po_filledQuantity :: "string option"
  po_trigger :: "string option"

record protection_need =
  pn_accountId :: string
  pn_intentId :: string
  pn_symbol :: string
  pn_side :: trading_side
  pn_quantity :: string
  pn_minimumTrigger :: "string option"

record stop_coverage =
  sc_protected :: bool
  sc_remainingQuantity :: "string option"
  sc_reason :: "string option"

definition no_coverage :: "string \<Rightarrow> string option \<Rightarrow> stop_coverage" where
  "no_coverage reason remaining = \<lparr>sc_protected = False, sc_remainingQuantity = remaining, sc_reason = Some reason\<rparr>"

text \<open>The body of the \<^verbatim>\<open>try\<close>; a throw inside it is \<^verbatim>\<open>STOP_EVIDENCE_INVALID\<close>.\<close>

definition trigger_too_loose :: "protection_need \<Rightarrow> string \<Rightarrow> bool result" where
  "trigger_too_loose need trigger = (case pn_minimumTrigger need of
       None \<Rightarrow> Inr False
     | Some m \<Rightarrow> rbind (decimal_positive m) (\<lambda>m'. rbind (compareDecimal trigger m') (\<lambda>change.
         Inr (pn_side need = LONG \<and> change < 0 \<or> pn_side need = SHORT \<and> change > 0))))"

definition stop_amounts :: "protection_order \<Rightarrow> protection_need \<Rightarrow> string \<Rightarrow> stop_coverage result" where
  "stop_amounts order need filled =
     rbind (decimal_positive (po_orderQuantity order)) (\<lambda>q. rbind (decimal filled) (\<lambda>f. rbind (subtractDecimal q f) (\<lambda>remaining.
     rbind (compareDecimal remaining ''0'') (\<lambda>c.
       if c \<le> 0 then Inr (no_coverage ''STOP_EXHAUSTED'' (Some remaining))
       else case po_trigger order of
         None \<Rightarrow> Inr (no_coverage ''STOP_EVIDENCE_INVALID'' None)
       | Some t \<Rightarrow> rbind (decimal_positive t) (\<lambda>trigger. rbind (trigger_too_loose need trigger) (\<lambda>loose.
           if loose then Inr (no_coverage ''STOP_TRIGGER_TOO_LOOSE'' (Some remaining))
           else rbind (rbind (decimal (pn_quantity need)) (\<lambda>n. compareDecimal remaining n)) (\<lambda>c.
             if c < 0 then Inr (no_coverage ''STOP_REMAINING_INSUFFICIENT'' (Some remaining))
             else Inr \<lparr>sc_protected = True, sc_remainingQuantity = Some remaining, sc_reason = None\<rparr>)))))))"

definition stopAmountsCoverage :: "protection_order \<Rightarrow> protection_need \<Rightarrow> stop_coverage" where
  "stopAmountsCoverage order need = (case po_filledQuantity order of
       None \<Rightarrow> no_coverage ''STOP_QUANTITY_UNKNOWN'' None
     | Some filled \<Rightarrow> (case stop_amounts order need filled of Inr c \<Rightarrow> c | Inl _ \<Rightarrow> no_coverage ''STOP_EVIDENCE_INVALID'' None))"

definition protectiveStopCoverage :: "protection_order \<Rightarrow> protection_need \<Rightarrow> stop_coverage" where
  "protectiveStopCoverage order need =
     (if po_accountId order \<noteq> pn_accountId need \<or> po_intentId order \<noteq> pn_intentId need \<or> po_symbol order \<noteq> pn_symbol need
         \<or> missing_text (po_clientOrderId order) \<or> missing_text (po_exchangeOrderId order) then no_coverage ''STOP_BINDING_MISMATCH'' None
      else if po_orderStatus order \<notin> set [''open'', ''partially_filled''] then no_coverage ''STOP_NOT_ACTIVE'' None
      else if po_orderRole order \<noteq> ''stop_loss'' \<or> \<not> po_onlyReduces order
         \<or> po_orderSide order \<noteq> (if pn_side need = LONG then ''sell'' else ''buy'') then no_coverage ''STOP_SEMANTICS_INVALID'' None
      else stopAmountsCoverage order need)"

definition add_remaining :: "string \<Rightarrow> protection_order \<Rightarrow> string result" where
  "add_remaining quantity entry =
     (if po_orderStatus entry \<in> set terminal_order_states then Inr quantity
      else case po_filledQuantity entry of
        None \<Rightarrow> Inl (Error ''Entry remaining quantity is not proved.'')
      | Some f \<Rightarrow> rbind (rbind (decimal_positive (po_orderQuantity entry)) (\<lambda>q. rbind (decimal f) (\<lambda>f'. subtractDecimal q f'))) (addDecimal quantity))"

definition requiredStopQuantity :: "string \<Rightarrow> protection_order list \<Rightarrow> string result" where
  "requiredStopQuantity positionQuantity entries = rbind (decimal positionQuantity) (\<lambda>q. foldM add_remaining q entries)"

definition loadProtectionOrders :: "trading_tables \<Rightarrow> string \<Rightarrow> string \<Rightarrow> protection_order list" where
  "loadProtectionOrders db accountId intentId =
     (case tt_intent_symbol db intentId of
        None \<Rightarrow> []
      | Some symbol \<Rightarrow> map (\<lambda>r. \<lparr>po_accountId = tor_account_id r, po_intentId = tor_intent_id r, po_clientOrderId = Some (tor_client_order_id r),
          po_exchangeOrderId = tor_exchange_order_id r, po_symbol = symbol, po_orderRole = tor_role r, po_orderSide = tor_side r,
          po_orderStatus = tor_status r, po_onlyReduces = (tor_reduce_only r = 1), po_orderQuantity = tor_quantity r,
          po_filledQuantity = Some (tor_filled_quantity r), po_trigger = tor_trigger_price r\<rparr>)
          (filter (\<lambda>r. tor_account_id r = accountId \<and> tor_intent_id r = intentId) (tt_orders db)))"

definition is_entry_order :: "protection_order \<Rightarrow> bool" where
  "is_entry_order order \<longleftrightarrow> po_orderRole order = ''entry''"

definition storedProtectionNeed :: "trading_tables \<Rightarrow> string \<Rightarrow> string \<Rightarrow> (protection_need \<times> protection_order list \<times> bool) result" where
  "storedProtectionNeed db accountId intentId =
     (case find (\<lambda>p. tpr_account_id p = accountId \<and> tpr_intent_id p = intentId \<and> tpr_status p \<noteq> ''closed'') (tt_positions db) of
        None \<Rightarrow> Inl (Error ''Protection check has no active managed position.'')
      | Some p \<Rightarrow>
          let orders = loadProtectionOrders db accountId intentId in
          rbind (requiredStopQuantity (tpr_quantity p) (filter is_entry_order orders)) (\<lambda>quantity.
          let need = \<lparr>pn_accountId = tpr_account_id p, pn_intentId = tpr_intent_id p, pn_symbol = tpr_symbol p, pn_side = tpr_side p,
                pn_quantity = quantity, pn_minimumTrigger = Some (tpr_stop_price p)\<rparr>
          in Inr (need, orders, list_ex (\<lambda>order. sc_protected (protectiveStopCoverage order need)) orders)))"


section \<open>Draining entries\<close>

definition max_cancel_attempts :: nat where
  "max_cancel_attempts = 5"

definition cancel_retry_ms :: int where
  "cancel_retry_ms = 10000"

definition nonTerminalEntryReason :: "string \<Rightarrow> string" where
  "nonTerminalEntryReason status =
     (if status = ''created'' then ''ENTRY_DISPATCH_INTENT''
      else if status = ''open'' \<or> status = ''partially_filled'' then ''ENTRY_CAN_FILL''
      else ''ENTRY_OUTCOME_UNRESOLVED'')"

definition entryCommitmentReason :: "string \<Rightarrow> bool \<Rightarrow> string option" where
  "entryCommitmentReason status unresolvedOperation =
     (if unresolvedOperation then Some ''ENTRY_OPERATION_UNRESOLVED''
      else if status \<in> set terminal_order_states then None
      else Some (nonTerminalEntryReason status))"

text \<open>The \<^verbatim>\<open>EXISTS\<close> of both statements: an operation in flight that expects the order.\<close>

definition operation_expects :: "trading_tables \<Rightarrow> trading_order_row \<Rightarrow> bool" where
  "operation_expects db r \<longleftrightarrow> list_ex (\<lambda>op. top_account_id op = tor_account_id r \<and> top_intent_id op = tor_intent_id r \<and>
     top_phase op \<in> set [''dispatching'', ''unresolved''] \<and> tor_client_order_id r \<in> set (top_expected op)) (tt_operations db)"

definition entry_undrained :: "trading_tables \<Rightarrow> trading_order_row \<Rightarrow> bool" where
  "entry_undrained db r \<longleftrightarrow> tor_status r \<notin> set terminal_order_states \<or> operation_expects db r"

definition requestEntryDrain :: "trading_tables \<Rightarrow> int \<Rightarrow> string \<Rightarrow> string \<Rightarrow> string option \<Rightarrow> trading_tables" where
  "requestEntryDrain db now accountId reason intentId = db\<lparr>tt_orders := map (\<lambda>r.
     if tor_account_id r = accountId \<and> tor_role r = ''entry'' \<and> entry_undrained db r \<and> (intentId = None \<or> intentId = Some (tor_intent_id r))
        \<and> tor_drain_requested_at r = None
     then r\<lparr>tor_drain_requested_at := Some now,
            tor_drain_reason := (case tor_drain_reason r of None \<Rightarrow> Some (take 300 reason) | Some s \<Rightarrow> Some s)\<rparr>
     else r) (tt_orders db)\<rparr>"

definition drain_key :: "trading_order_row \<Rightarrow> int \<times> int \<times> string" where
  "drain_key r = ((case tor_drain_attempted_at r of None \<Rightarrow> 0 | Some t \<Rightarrow> t), tor_created_at r, tor_client_order_id r)"

definition requestedEntryDrains :: "trading_tables \<Rightarrow> string \<Rightarrow> int \<Rightarrow> trading_order_row list" where
  "requestedEntryDrains db accountId now = take max_cancel_attempts (sort_key drain_key
     (filter (\<lambda>r. tor_account_id r = accountId \<and> tor_role r = ''entry'' \<and> tor_drain_requested_at r \<noteq> None
        \<and> tor_status r \<notin> set terminal_order_states
        \<and> (case tor_drain_attempted_at r of None \<Rightarrow> True | Some t \<Rightarrow> t \<le> now - cancel_retry_ms)) (tt_orders db)))"

definition pendingEntryDrainCount :: "trading_tables \<Rightarrow> string \<Rightarrow> nat" where
  "pendingEntryDrainCount db accountId = length (filter (\<lambda>r. tor_account_id r = accountId \<and> tor_role r = ''entry''
     \<and> tor_drain_requested_at r \<noteq> None \<and> entry_undrained db r) (tt_orders db))"

definition markEntryDrainAttempt :: "trading_tables \<Rightarrow> int \<Rightarrow> string \<Rightarrow> string \<Rightarrow> trading_tables" where
  "markEntryDrainAttempt db now accountId clientOrderId = db\<lparr>tt_orders := map (\<lambda>r.
     if tor_account_id r = accountId \<and> tor_client_order_id r = clientOrderId \<and> tor_role r = ''entry'' \<and> tor_drain_requested_at r \<noteq> None
     then r\<lparr>tor_drain_attempted_at := Some now\<rparr> else r) (tt_orders db)\<rparr>"


section \<open>The ledger\<close>

definition fill_value :: "trading_fill_row \<Rightarrow> rat" where
  "fill_value f = dec_val (js_trim (tfr_quantity f))"

definition filled_of :: "trading_fill_row list \<Rightarrow> string \<Rightarrow> rat" where
  "filled_of fills i = (\<Sum>f\<leftarrow>filter (\<lambda>f. tfr_order_id f = i) fills. fill_value f)"

lemma fills_Inr:
  assumes "foldM (add_fill ids) m fills = Inr totals" "\<And>i. canonical_decimal (executed_of m i)"
  shows "canonical_decimal (executed_of totals i) \<and> dec_val (executed_of totals i) = dec_val (executed_of m i) + filled_of fills i \<and>
    (\<forall>f\<in>set fills. tfr_order_id f \<in> set ids \<and> 0 < fill_value f)"
  using assms
proof (induction fills arbitrary: m)
  case Nil
  then show ?case by (simp add: filled_of_def)
next
  case (Cons f fills)
  obtain q s where h: "tfr_order_id f \<in> set ids" "decimal_positive (tfr_quantity f) = Inr q" "addDecimal (executed_of m (tfr_order_id f)) q = Inr s"
    "foldM (add_fill ids) (m(tfr_order_id f \<mapsto> s)) fills = Inr totals"
    using Cons.prems(1) by (auto simp: add_fill_def [of ids m f] rbind_Inr_iff throw_if_Inr)
  have q: "dec_val q = fill_value f" "0 < fill_value f"
    using decimal_positive_value [OF h(2)] dec_val_nonneg [of q] by (auto simp: fill_value_def)
  note s = add_Inr [OF h(3)]
  have upd: "executed_of (m(tfr_order_id f \<mapsto> s)) k = (if k = tfr_order_id f then s else executed_of m k)" for k
    by (simp add: executed_of_def)
  have "canonical_decimal (executed_of (m(tfr_order_id f \<mapsto> s)) k)" for k unfolding upd using s Cons.prems(2) by auto
  from Cons.IH [OF h(4) this] show ?case using h(1) s q unfolding upd by (auto simp: filled_of_def)
qed

text \<open>What an accepted order establishes about itself, given the ledger.\<close>

definition order_proved :: "trading_side \<Rightarrow> (string \<Rightarrow> rat) \<Rightarrow> ownership_order \<Rightarrow> bool" where
  "order_proved side executed order \<longleftrightarrow>
     (oo_side order, oo_reduce_only order) = expectedOrderSide (oo_role order) side \<and>
     executed (oo_id order) \<le> dec_val (js_trim (oo_quantity order)) \<and> executed (oo_id order) = dec_val (js_trim (oo_filled_quantity order))"

lemma orders_Inr:
  assumes "foldM (add_order side totals) (e0, x0) orders = Inr (e, x)" "canonical_decimal e0" "canonical_decimal x0"
  defines "executed \<equiv> \<lambda>i. dec_val (executed_of totals i)"
  shows "canonical_decimal e \<and> canonical_decimal x \<and> list_all (order_proved side executed) orders \<and>
    dec_val e = dec_val e0 + (\<Sum>r\<leftarrow>filter (\<lambda>r. oo_role r = ''entry'') orders. executed (oo_id r)) \<and>
    dec_val x = dec_val x0 + (\<Sum>r\<leftarrow>filter (\<lambda>r. oo_role r \<noteq> ''entry'') orders. executed (oo_id r))"
  using assms(1-3)
proof (induction orders arbitrary: e0 x0)
  case (Cons r orders)
  define s where "s = executed_of totals (oo_id r)"
  obtain q c f d e1 x1 where h: "assertOrderSemantics r side = Inr ()" "decimal_positive (oo_quantity r) = Inr q" "compareDecimal s q = Inr c" "\<not> c > 0"
    "decimal (oo_filled_quantity r) = Inr f" "compareDecimal s f = Inr d" "d = 0"
    "if oo_role r = ''entry'' then addDecimal e0 s = Inr e1 \<and> x1 = x0 else addDecimal x0 s = Inr x1 \<and> e1 = e0"
    "foldM (add_order side totals) (e1, x1) orders = Inr (e, x)"
    using Cons.prems(1) by (auto simp: add_order_def Let_def rbind_Inr_iff throw_if_Inr s_def [symmetric] split: if_splits)
  have "order_proved side executed r"
    using h(1,4,7) decimal_positive_value [OF h(2)] compare_Inr [OF h(3)] compare_Inr [OF h(6)] h(5)
    by (auto simp: order_proved_def assertOrderSemantics_def throw_if_Inr executed_def s_def [symmetric] decimal_Inr_iff rat_cmp_def split: if_splits prod.splits)
  moreover have "canonical_decimal e1" "canonical_decimal x1" using h(8) Cons.prems(2,3) add_Inr by (auto split: if_splits)
  moreover note Cons.IH [OF h(9) this]
  ultimately show ?case using h(8) add_Inr by (auto simp: executed_def s_def [symmetric] split: if_splits)
qed simp

lemma filled_of_Cons: "filled_of (f # fs) i = (if tfr_order_id f = i then fill_value f else 0) + filled_of fs i"
  by (simp add: filled_of_def)

text \<open>Summed over distinct orders, the fills of each order are the fills of the orders.\<close>

lemma sum_indicator: "distinct ids \<Longrightarrow> (\<Sum>i\<leftarrow>ids. if k = i then v else (0 :: rat)) = (if k \<in> set ids then v else 0)"
  by (induction ids) auto

lemma filled_by_orders:
  assumes "distinct ids"
  shows "(\<Sum>i\<leftarrow>ids. filled_of fills i) = (\<Sum>f\<leftarrow>filter (\<lambda>f. tfr_order_id f \<in> set ids) fills. fill_value f)"
proof (induction fills)
  case (Cons f fs)
  have "(\<Sum>i\<leftarrow>ids. filled_of (f # fs) i) = (\<Sum>i\<leftarrow>ids. if tfr_order_id f = i then fill_value f else 0) + (\<Sum>i\<leftarrow>ids. filled_of fs i)"
    by (simp add: filled_of_Cons sum_list_addf)
  then show ?case using Cons sum_indicator [OF assms] by simp
qed (simp add: filled_of_def)

definition role_fills :: "bool \<Rightarrow> ownership_order list \<Rightarrow> trading_fill_row list \<Rightarrow> rat" where
  "role_fills entry orders fills =
     (\<Sum>f\<leftarrow>filter (\<lambda>f. \<exists>r\<in>set orders. oo_id r = tfr_order_id f \<and> (oo_role r = ''entry'') = entry) fills. fill_value f)"

lemma role_fills_sum:
  assumes "distinct (map oo_id orders)"
  shows "(\<Sum>r\<leftarrow>filter (\<lambda>r. (oo_role r = ''entry'') = entry) orders. filled_of fills (oo_id r)) = role_fills entry orders fills"
proof -
  define ids where "ids = map oo_id (filter (\<lambda>r. (oo_role r = ''entry'') = entry) orders)"
  have d: "distinct ids" unfolding ids_def using assms by (simp add: distinct_map_filter)
  have mem: "tfr_order_id f \<in> set ids \<longleftrightarrow> (\<exists>r\<in>set orders. oo_id r = tfr_order_id f \<and> (oo_role r = ''entry'') = entry)" for f
    by (auto simp: ids_def image_iff)
  show ?thesis unfolding role_fills_def mem [symmetric] filled_by_orders [OF d, symmetric] by (simp add: ids_def o_def)
qed

lemma owned_Inr:
  assumes "proveOwnedQuantity orders fills side = Inr p"
  shows "list_all (order_proved side (filled_of fills)) orders" "\<forall>f\<in>set fills. tfr_order_id f \<in> oo_id ` set orders \<and> 0 < fill_value f"
    "canonical_decimal (op_netQuantity p)" "0 \<le> dec_val (op_netQuantity p)"
    "distinct (map oo_id orders) \<Longrightarrow> dec_val (op_netQuantity p) = role_fills True orders fills - role_fills False orders fills"
proof -
  obtain totals e x net where h: "foldM (add_fill (map oo_id orders)) (\<lambda>_. None) fills = Inr totals"
    "foldM (add_order side totals) (''0'', ''0'') orders = Inr (e, x)" "subtractDecimal e x = Inr net" "op_netQuantity p = net"
    using assms by (auto simp: proveOwnedQuantity_def rbind_Inr_iff)
  have none: "executed_of (\<lambda>_. None) i = ''0''" for i by (simp add: executed_of_def)
  have f: "canonical_decimal (executed_of totals i) \<and> dec_val (executed_of totals i) = filled_of fills i \<and>
      (\<forall>f\<in>set fills. tfr_order_id f \<in> set (map oo_id orders) \<and> 0 < fill_value f)" for i
    using fills_Inr [OF h(1), of i] zero_decimal none by simp
  have ex: "(\<lambda>i. dec_val (executed_of totals i)) = filled_of fills" "dec_val (executed_of totals i) = filled_of fills i" for i using f by auto
  note r = orders_Inr [OF h(2) zero_decimal(2) zero_decimal(2), unfolded ex zero_decimal(3)] and n = subtract_Inr [OF h(3)]
  show "list_all (order_proved side (filled_of fills)) orders" using r by simp
  show "\<forall>f\<in>set fills. tfr_order_id f \<in> oo_id ` set orders \<and> 0 < fill_value f" using f by simp
  show "canonical_decimal (op_netQuantity p)" "0 \<le> dec_val (op_netQuantity p)" using n h(4) by auto
  show "dec_val (op_netQuantity p) = role_fills True orders fills - role_fills False orders fills" if "distinct (map oo_id orders)"
    using r n h(4) role_fills_sum [OF that, where fills = fills and entry = True] role_fills_sum [OF that, where fills = fills and entry = False] by simp
qed


section \<open>Stops\<close>

definition stop_remaining :: "protection_order \<Rightarrow> rat" where
  "stop_remaining order = dec_val (js_trim (po_orderQuantity order)) - (case po_filledQuantity order of None \<Rightarrow> 0 | Some f \<Rightarrow> dec_val (js_trim f))"

text \<open>A covering stop: bound to the position, live, closing, tight enough, and large enough.\<close>

definition covers :: "protection_order \<Rightarrow> protection_need \<Rightarrow> bool" where
  "covers order need \<longleftrightarrow>
     po_accountId order = pn_accountId need \<and> po_intentId order = pn_intentId need \<and> po_symbol order = pn_symbol need \<and>
     po_orderStatus order \<in> {''open'', ''partially_filled''} \<and> po_orderRole order = ''stop_loss'' \<and> po_onlyReduces order \<and>
     po_orderSide order = (case pn_side need of LONG \<Rightarrow> ''sell'' | SHORT \<Rightarrow> ''buy'') \<and>
     0 < stop_remaining order \<and> dec_val (js_trim (pn_quantity need)) \<le> stop_remaining order \<and>
     (\<exists>t. po_trigger order = Some t \<and> (case pn_minimumTrigger need of None \<Rightarrow> True
        | Some m \<Rightarrow> (case pn_side need of LONG \<Rightarrow> dec_val (js_trim m) \<le> dec_val (js_trim t) | SHORT \<Rightarrow> dec_val (js_trim t) \<le> dec_val (js_trim m))))"

lemma trigger_tight:
  assumes "trigger_too_loose need trigger = Inr False" "decimal_positive t = Inr trigger" "pn_minimumTrigger need = Some m"
  shows "case pn_side need of LONG \<Rightarrow> dec_val (js_trim m) \<le> dec_val (js_trim t) | SHORT \<Rightarrow> dec_val (js_trim t) \<le> dec_val (js_trim m)"
proof -
  obtain m' c where h: "decimal_positive m = Inr m'" "compareDecimal trigger m' = Inr c"
    "\<not> (pn_side need = LONG \<and> c < 0)" "\<not> (pn_side need = SHORT \<and> c > 0)"
    using assms(1,3) by (auto simp: trigger_too_loose_def rbind_Inr_iff)
  show ?thesis
    using compare_Inr [OF h(2)] h(3,4) decimal_positive_value [OF h(1)] decimal_positive_value [OF assms(2)] by (cases "pn_side need") auto
qed

lemma protected_covers:
  assumes "sc_protected (protectiveStopCoverage order need)"
  shows "covers order need"
proof -
  have bind: "po_accountId order = pn_accountId need" "po_intentId order = pn_intentId need" "po_symbol order = pn_symbol need"
    "po_orderStatus order \<in> {''open'', ''partially_filled''}" "po_orderRole order = ''stop_loss''" "po_onlyReduces order"
    "po_orderSide order = (if pn_side need = LONG then ''sell'' else ''buy'')" and amounts: "sc_protected (stopAmountsCoverage order need)"
    using assms by (auto simp: protectiveStopCoverage_def no_coverage_def split: if_splits)
  obtain filled cov where f: "po_filledQuantity order = Some filled" "stop_amounts order need filled = Inr cov" "sc_protected cov"
    using amounts by (auto simp: stopAmountsCoverage_def no_coverage_def split: option.splits sum.splits)
  obtain q f' remaining c t trigger n d where h: "decimal_positive (po_orderQuantity order) = Inr q" "decimal filled = Inr f'"
    "subtractDecimal q f' = Inr remaining" "compareDecimal remaining ''0'' = Inr c" "\<not> c \<le> 0" "po_trigger order = Some t"
    "decimal_positive t = Inr trigger" "trigger_too_loose need trigger = Inr False" "decimal (pn_quantity need) = Inr n"
    "compareDecimal remaining n = Inr d" "\<not> d < 0"
    using f(2,3) by (auto simp: stop_amounts_def no_coverage_def rbind_Inr_iff split: if_splits option.splits)
  have rem: "dec_val remaining = stop_remaining order"
    using subtract_Inr [OF h(3)] decimal_positive_value [OF h(1)] h(2) f(1) by (simp add: stop_remaining_def decimal_Inr_iff)
  have "0 < stop_remaining order" using compare_Inr [OF h(4)] h(5) rem zero_decimal(3) by simp
  moreover have "dec_val (js_trim (pn_quantity need)) \<le> stop_remaining order"
    using compare_Inr [OF h(10)] h(9,11) rem by (simp add: decimal_Inr_iff)
  ultimately show ?thesis
    using bind h(6) trigger_tight [OF h(8,7)] by (auto simp: covers_def split: option.splits trading_side.splits)
qed

text \<open>What an entry can still add to the position.\<close>

definition may_execute :: "protection_order \<Rightarrow> rat" where
  "may_execute entry = (if po_orderStatus entry \<in> set terminal_order_states then 0 else stop_remaining entry)"

lemma remaining_Inr:
  assumes "foldM add_remaining q entries = Inr s" "canonical_decimal q"
  shows "canonical_decimal s \<and> dec_val s = dec_val q + (\<Sum>e\<leftarrow>entries. may_execute e) \<and> (\<forall>e\<in>set entries. 0 \<le> may_execute e)"
  using assms
proof (induction entries arbitrary: q)
  case (Cons e entries)
  obtain q' where q': "add_remaining q e = Inr q'" "foldM add_remaining q' entries = Inr s" using Cons.prems(1) by (auto simp: rbind_Inr_iff)
  have "canonical_decimal q' \<and> dec_val q' = dec_val q + may_execute e \<and> 0 \<le> may_execute e"
  proof (cases "po_orderStatus e \<in> set terminal_order_states")
    case False
    then obtain f a b c where h: "po_filledQuantity e = Some f" "decimal_positive (po_orderQuantity e) = Inr a" "decimal f = Inr b"
      "subtractDecimal a b = Inr c" "addDecimal q c = Inr q'"
      using q'(1) by (auto simp: add_remaining_def rbind_Inr_iff split: option.splits)
    show ?thesis
      using False h(1,3) subtract_Inr [OF h(4)] add_Inr [OF h(5)] decimal_positive_value [OF h(2)]
      by (auto simp: may_execute_def stop_remaining_def decimal_Inr_iff)
  qed (use q'(1) Cons.prems(2) in \<open>simp add: add_remaining_def may_execute_def\<close>)
  then show ?case using Cons.IH [OF q'(2)] by auto
qed simp

lemma required_Inr:
  assumes "requiredStopQuantity position entries = Inr s"
  shows "canonical_decimal s" "dec_val s = dec_val (js_trim position) + (\<Sum>e\<leftarrow>entries. may_execute e)"
    "\<And>e. e \<in> set entries \<Longrightarrow> 0 \<le> may_execute e" "decimal_pattern (js_trim position)"
proof -
  obtain q where q: "decimal position = Inr q" "foldM add_remaining q entries = Inr s"
    using assms by (auto simp: requiredStopQuantity_def rbind_Inr_iff)
  then have "canonical_decimal q" "dec_val q = dec_val (js_trim position)" "decimal_pattern (js_trim position)" by (simp_all add: decimal_Inr_iff)
  with remaining_Inr [OF q(2)] show "canonical_decimal s" "dec_val s = dec_val (js_trim position) + (\<Sum>e\<leftarrow>entries. may_execute e)"
    "\<And>e. e \<in> set entries \<Longrightarrow> 0 \<le> may_execute e" "decimal_pattern (js_trim position)" by auto
qed


section \<open>The account\<close>

text \<open>The executions of an intent recorded in the tables, those of its entries or those of its exits.\<close>

definition ledger_fills :: "bool \<Rightarrow> trading_tables \<Rightarrow> string \<Rightarrow> rat" where
  "ledger_fills entry db intent = (\<Sum>f\<leftarrow>filter (\<lambda>f. \<exists>r\<in>set (tt_orders db). tor_id r = tfr_order_id f \<and> tor_intent_id r = intent \<and>
     (tor_role r = ''entry'') = entry) (tt_fills db). fill_value f)"

definition ledger_net :: "trading_tables \<Rightarrow> string \<Rightarrow> rat" where
  "ledger_net db intent = ledger_fills True db intent - ledger_fills False db intent"

lemma intent_fills:
  "role_fills entry (map ownership_order_of (filter (\<lambda>r. tor_intent_id r = intent) rows))
     (filter (\<lambda>f. \<exists>r\<in>set rows. tor_id r = tfr_order_id f \<and> tor_intent_id r = intent) fills) =
   (\<Sum>f\<leftarrow>filter (\<lambda>f. \<exists>r\<in>set rows. tor_id r = tfr_order_id f \<and> tor_intent_id r = intent \<and> (tor_role r = ''entry'') = entry) fills. fill_value f)"
  by (auto simp: role_fills_def ownership_order_of_def intro!: arg_cong [where f = sum_list] map_cong filter_cong)

lemma load_Inr:
  assumes "loadOwnershipProof db intent side = Inr p" "distinct (map tor_id (tt_orders db))"
  shows "canonical_decimal (op_netQuantity p)" "dec_val (op_netQuantity p) = ledger_net db intent" "0 \<le> ledger_net db intent"
proof -
  define orders where "orders = map ownership_order_of (filter (\<lambda>r. tor_intent_id r = intent) (tt_orders db))"
  have ids: "map oo_id orders = map tor_id (filter (\<lambda>r. tor_intent_id r = intent) (tt_orders db))"
    by (simp add: orders_def ownership_order_of_def o_def)
  have d: "distinct (map oo_id orders)" unfolding ids using assms(2) by (rule distinct_map_filter)
  note own = owned_Inr [OF assms(1) [unfolded loadOwnershipProof_def Let_def orders_def [symmetric]]]
  have "role_fills entry orders (filter (\<lambda>f. \<exists>r\<in>set (tt_orders db). tor_id r = tfr_order_id f \<and> tor_intent_id r = intent) (tt_fills db)) =
      ledger_fills entry db intent" for entry
    unfolding orders_def ledger_fills_def by (rule intent_fills)
  then show "canonical_decimal (op_netQuantity p)" "dec_val (op_netQuantity p) = ledger_net db intent" "0 \<le> ledger_net db intent"
    using own(3) own(4) own(5) [OF d] by (simp_all add: ledger_net_def)
qed

lemma executed_symbols_Inr:
  "executed_symbols rows = Inr ss \<Longrightarrow> set ss = tor_provider_symbol ` {r \<in> set rows. 0 < dec_val (tor_filled_quantity r)}"
proof (induction rows arbitrary: ss)
  case (Cons r rows)
  obtain c rest where h: "compareDecimal (tor_filled_quantity r) ''0'' = Inr c" "executed_symbols rows = Inr rest"
    "ss = (if c > 0 then tor_provider_symbol r # rest else rest)" using Cons.prems by (auto simp: rbind_Inr_iff)
  have "c > 0 \<longleftrightarrow> 0 < dec_val (tor_filled_quantity r)" using compare_Inr [OF h(1)] zero_decimal(3) by simp
  moreover have "{x \<in> set (r # rows). 0 < dec_val (tor_filled_quantity x)} =
      (if 0 < dec_val (tor_filled_quantity r) then insert r {x \<in> set rows. 0 < dec_val (tor_filled_quantity x)} else {x \<in> set rows. 0 < dec_val (tor_filled_quantity x)})"
    by auto
  ultimately show ?case using Cons.IH [OF h(2)] h(3) by simp
qed simp

text \<open>A remote position is on the market of every executed entry, and there is one.\<close>

definition on_own_market :: "trading_tables \<Rightarrow> string \<Rightarrow> exchange_position_snapshot \<Rightarrow> bool" where
  "on_own_market db intent p \<longleftrightarrow>
     (let entries = filter (\<lambda>r. tor_intent_id r = intent \<and> tor_role r = ''entry'' \<and> 0 < dec_val (tor_filled_quantity r)) (tt_orders db)
      in \<not> missing_text (xp_providerSymbol p) \<and> entries \<noteq> [] \<and> list_all (\<lambda>r. tor_provider_symbol r = xp_providerSymbol p) entries)"

lemma namespace_Inr:
  assumes "assertOwnedPositionNamespace db intent p = Inr ()"
  shows "on_own_market db intent p"
proof -
  define rows where "rows = filter (\<lambda>r. tor_intent_id r = intent \<and> tor_role r = ''entry'') (tt_orders db)"
  obtain ss where s: "executed_symbols rows = Inr ss" "ss \<noteq> []" "\<forall>x\<in>set ss. x = xp_providerSymbol p" "\<not> missing_text (xp_providerSymbol p)"
    using assms by (auto simp: assertOwnedPositionNamespace_def assertPositionNamespace_def rbind_Inr_iff throw_if_Inr rows_def list_ex_iff)
  have "set ss = tor_provider_symbol ` {r \<in> set rows. 0 < dec_val (tor_filled_quantity r)}" using executed_symbols_Inr [OF s(1)] .
  moreover have "set ss \<noteq> {}" using s(2) by simp
  ultimately show ?thesis using s(3,4) by (auto simp: on_own_market_def Let_def filter_empty_conv list_all_iff rows_def)
qed

definition remote_agrees :: "trading_tables \<Rightarrow> exchange_position_snapshot list \<Rightarrow> local_position \<Rightarrow> bool" where
  "remote_agrees db positions l = (case filter (\<lambda>p. xp_symbol p = lp_symbol l) positions of
       [] \<Rightarrow> ledger_net db (lp_intent_id l) = 0
     | [p] \<Rightarrow> xp_side p = lp_side l \<and> dec_val (xp_quantity p) = ledger_net db (lp_intent_id l) \<and> on_own_market db (lp_intent_id l) p
     | _ \<Rightarrow> False)"

lemma local_Inr:
  assumes "assert_local db positions symbols l = Inr symbols'" "distinct (map tor_id (tt_orders db))"
  shows "symbols' = lp_symbol l # symbols" "lp_symbol l \<notin> set symbols" "remote_agrees db positions l" "0 \<le> ledger_net db (lp_intent_id l)"
proof -
  define remote where "remote = filter (\<lambda>p. xp_symbol p = lp_symbol l) positions"
  obtain own where own: "loadOwnershipProof db (lp_intent_id l) (lp_side l) = Inr own" and len: "length remote \<le> 1"
    and s: "symbols' = lp_symbol l # symbols" "lp_symbol l \<notin> set symbols"
    and empty: "remote = [] \<Longrightarrow> \<exists>c. compareDecimal (op_netQuantity own) ''0'' = Inr c \<and> \<not> c > 0"
    and one: "\<And>p rest. remote = p # rest \<Longrightarrow> xp_side p = lp_side l \<and> compareDecimal (xp_quantity p) (op_netQuantity own) = Inr 0 \<and>
      assertOwnedPositionNamespace db (lp_intent_id l) p = Inr ()"
    using assms(1) by (cases remote)
      (auto simp: assert_local_def Let_def remote_def [symmetric] rbind_Inr_iff throw_if_Inr split: if_splits list.splits)
  note p = load_Inr [OF own assms(2)]
  show "symbols' = lp_symbol l # symbols" "lp_symbol l \<notin> set symbols" "0 \<le> ledger_net db (lp_intent_id l)" using s p by auto
  show "remote_agrees db positions l"
  proof (cases remote)
    case Nil
    then obtain c where "compareDecimal (op_netQuantity own) ''0'' = Inr c" "\<not> c > 0" using empty by blast
    with p compare_Inr [OF this(1)] zero_decimal(3) show ?thesis using Nil by (simp add: remote_agrees_def remote_def)
  next
    case (Cons r rest)
    then have "rest = []" using len by simp
    then show ?thesis using one [OF Cons] namespace_Inr [of db "lp_intent_id l" r] compare_Inr [of "xp_quantity r"] p(2) Cons
      by (force simp: remote_agrees_def remote_def [symmetric] rat_cmp_def split: if_splits)
  qed
qed

lemma locals_Inr:
  assumes "foldM (assert_local db positions) symbols locals = Inr symbols'" "distinct (map tor_id (tt_orders db))" "distinct symbols"
  shows "distinct (map lp_symbol locals @ symbols) \<and> (\<forall>l\<in>set locals. remote_agrees db positions l \<and> 0 \<le> ledger_net db (lp_intent_id l))"
  using assms(1,3)
proof (induction locals arbitrary: symbols)
  case (Cons l locals)
  obtain s where s: "assert_local db positions symbols l = Inr s" "foldM (assert_local db positions) s locals = Inr symbols'"
    using Cons.prems(1) by (auto simp: rbind_Inr_iff)
  note h = local_Inr [OF s(1) assms(2)]
  have "distinct s" using h Cons.prems(2) by simp
  from Cons.IH [OF s(2) this] h show ?case by auto
qed simp


section \<open>Properties\<close>

text \<open>
  C6: ownership is proved from the fill ledger. When the ownership of an account is accepted, no two
  local positions claim one symbol, and for every local position the executions of the intent's
  entries exceed those of its exits by an amount the exchange confirms exactly: either there is one remote position
  of that symbol, with the same side, this very quantity and the market of every executed entry, or there is none and
  the ledger is flat. Order identifiers are a primary key.
\<close>

theorem account_ownership_is_ledger:
  assumes "assertAccountOwnership db locals positions = Inr ()" "distinct (map tor_id (tt_orders db))"
  shows "distinct (map lp_symbol locals) \<and>
    (\<forall>l\<in>set locals. 0 \<le> ledger_net db (lp_intent_id l) \<and>
      (case filter (\<lambda>p. xp_symbol p = lp_symbol l) positions of
         [] \<Rightarrow> ledger_net db (lp_intent_id l) = 0
       | [p] \<Rightarrow> xp_side p = lp_side l \<and> dec_val (xp_quantity p) = ledger_net db (lp_intent_id l) \<and> on_own_market db (lp_intent_id l) p
       | _ \<Rightarrow> False))"
proof -
  obtain s where "foldM (assert_local db positions) [] locals = Inr s" using assms(1) by (auto simp: assertAccountOwnership_def rbind_Inr_iff)
  from locals_Inr [OF this assms(2)] show ?thesis by (simp add: remote_agrees_def)
qed

definition sample_order_row :: "string \<Rightarrow> string \<Rightarrow> string \<Rightarrow> string \<Rightarrow> trading_order_row" where
  "sample_order_row i role side filled = \<lparr>tor_id = i, tor_intent_id = ''t'', tor_account_id = ''a'', tor_client_order_id = i,
     tor_exchange_order_id = Some i, tor_provider_symbol = Some ''BTC/USDT'', tor_role = role, tor_side = side, tor_status = ''partially_filled'',
     tor_trigger_price = Some ''8'', tor_quantity = ''5'', tor_filled_quantity = filled, tor_reduce_only = (if role = ''entry'' then 0 else 1),
     tor_created_at = 0, tor_drain_requested_at = None, tor_drain_reason = None, tor_drain_attempted_at = None\<rparr>"

definition sample_ledger :: trading_tables where
  "sample_ledger = \<lparr>tt_orders = [sample_order_row ''e'' ''entry'' ''buy'' ''3.5'', sample_order_row ''x'' ''take_profit'' ''sell'' ''1''],
     tt_fills = [\<lparr>tfr_order_id = ''e'', tfr_quantity = ''3''\<rparr>, \<lparr>tfr_order_id = ''x'', tfr_quantity = ''1.0''\<rparr>, \<lparr>tfr_order_id = ''e'', tfr_quantity = ''0.5''\<rparr>],
     tt_positions = [], tt_operations = [], tt_intent_symbol = (\<lambda>_. None)\<rparr>"

definition sample_remote :: exchange_position_snapshot where
  "sample_remote = \<lparr>xp_symbol = ''BTC'', xp_providerSymbol = Some ''BTC/USDT'', xp_side = LONG, xp_quantity = ''2.5'', xp_averageEntryPrice = ''9'',
     xp_unrealizedPnl = None, xp_markPrice = None, xp_accounting = None\<rparr>"

theorem account_ownership_is_ledger_witness:
  "assertAccountOwnership sample_ledger [\<lparr>lp_intent_id = ''t'', lp_symbol = ''BTC'', lp_side = LONG\<rparr>] [sample_remote] = Inr () \<and>
   ledger_net sample_ledger ''t'' = 5 / 2"
proof -
  have a: "assertAccountOwnership sample_ledger [\<lparr>lp_intent_id = ''t'', lp_symbol = ''BTC'', lp_side = LONG\<rparr>] [sample_remote] = Inr ()" by code_simp
  have b: "distinct (map tor_id (tt_orders sample_ledger))" by code_simp
  have "dec_val (xp_quantity sample_remote) = 5 / 2" "xp_symbol sample_remote = ''BTC''" by code_simp+
  then show ?thesis using account_ownership_is_ledger [OF a b] a by simp
qed

end
