(* ===== verification/Trading_Mutation.thy ===== *)
theory Trading_Mutation
  imports Trading_Ownership Contracts
begin

text \<open>
  The coordinator of account mutations (\<^verbatim>\<open>src/trading_mutation_coordinator.ts\<close>) with the cancellation budget of each
  owner (\<^verbatim>\<open>src/trading_cancel_budget.ts\<close>). A call of \<^verbatim>\<open>run\<close> is split where the code awaits: the request, which
  links the call behind the previous one of its account, the start after that call has released it, and the
  end of its operation. Any interleaving of these events with fences, holds and cancellation attempts is a history.
  A call is numbered; its number also stands for its tail promise (resolved when the call has finished), for its
  owner object and for the budget of that owner. What \<^verbatim>\<open>AsyncLocalStorage\<close> holds at a call is an argument.
\<close>

section \<open>State\<close>

datatype run_phase = Waiting | Running | Finished

record mutation_run =
  mr_account :: string
  mr_previous :: "nat option"
  mr_phase :: run_phase

record cancel_budget =
  cb_accountId :: string
  cb_remaining :: int
  cb_active :: bool

record cancel_permit =
  cp_accountId :: string
  cp_clientOrderId :: string
  cp_owner :: nat
  cp_used :: bool

record coordinator =
  co_runs :: "mutation_run list"
  co_tails :: "string \<rightharpoonup> nat"
  co_contexts :: "nat set"
  co_accountEpochs :: "string \<rightharpoonup> int"
  co_globalEpoch :: int
  co_entryHolds :: "(nat \<times> string option) list"
  co_nextHold :: nat
  co_budgets :: "nat \<rightharpoonup> cancel_budget"
  co_permits :: "cancel_permit list"

definition new_coordinator :: coordinator where
  "new_coordinator = \<lparr>co_runs = [], co_tails = (\<lambda>_. None), co_contexts = {}, co_accountEpochs = (\<lambda>_. None), co_globalEpoch = 0,
     co_entryHolds = [], co_nextHold = 0, co_budgets = (\<lambda>_. None), co_permits = []\<rparr>"


section \<open>Admission of entries\<close>

definition account_epoch :: "coordinator \<Rightarrow> string \<Rightarrow> int" where
  "account_epoch s accountId = (case co_accountEpochs s accountId of None \<Rightarrow> 0 | Some n \<Rightarrow> n)"

definition entryEpoch :: "coordinator \<Rightarrow> string \<Rightarrow> string" where
  "entryEpoch s accountId = show_int (co_globalEpoch s) @ '':'' @ show_int (account_epoch s accountId)"

definition fenceEntries :: "coordinator \<Rightarrow> string option \<Rightarrow> coordinator" where
  "fenceEntries s accountId = (case accountId of
       None \<Rightarrow> s\<lparr>co_globalEpoch := co_globalEpoch s + 1\<rparr>
     | Some a \<Rightarrow> s\<lparr>co_accountEpochs := (co_accountEpochs s)(a \<mapsto> account_epoch s a + 1)\<rparr>)"

definition holdEntries :: "coordinator \<Rightarrow> string option \<Rightarrow> coordinator \<times> nat" where
  "holdEntries s accountId =
     (let s' = fenceEntries s accountId
      in (s'\<lparr>co_entryHolds := co_entryHolds s' @ [(co_nextHold s', accountId)], co_nextHold := co_nextHold s' + 1\<rparr>, co_nextHold s'))"

definition releaseHold :: "coordinator \<Rightarrow> nat \<Rightarrow> coordinator" where
  "releaseHold s hold = s\<lparr>co_entryHolds := filter (\<lambda>h. fst h \<noteq> hold) (co_entryHolds s)\<rparr>"

definition assertContext :: "coordinator \<Rightarrow> nat \<Rightarrow> string \<Rightarrow> unit result" where
  "assertContext s context accountId =
     throw_if (context \<notin> co_contexts s \<or> mr_account (co_runs s ! context) \<noteq> accountId)
       (Error ''Trading mutation context is invalid, expired or belongs to another account.'')"

text \<open>The account of an owner object; a context that is no live owner is refused before its account matters.\<close>

definition context_account :: "coordinator \<Rightarrow> nat \<Rightarrow> string" where
  "context_account s context = (if context < length (co_runs s) then mr_account (co_runs s ! context) else [])"

definition assertEpoch :: "coordinator \<Rightarrow> nat \<Rightarrow> string \<Rightarrow> unit result" where
  "assertEpoch s context epoch =
     rbind (assertContext s context (context_account s context)) (\<lambda>_.
       throw_if (entryEpoch s (context_account s context) \<noteq> epoch) EntryAdmissionRevokedError)"

definition assertEntryEpoch :: "coordinator \<Rightarrow> nat \<Rightarrow> string \<Rightarrow> unit result" where
  "assertEntryEpoch s context epoch =
     rbind (assertEpoch s context epoch) (\<lambda>_.
       throw_if (list_ex (\<lambda>h. snd h = None \<or> snd h = Some (context_account s context)) (co_entryHolds s)) EntryAdmissionRevokedError)"


section \<open>Runs and budgets\<close>

text \<open>\<^verbatim>\<open>run\<close> without a context, up to its \<^verbatim>\<open>await previous\<close>.\<close>

definition run_request :: "coordinator \<Rightarrow> string \<Rightarrow> coordinator \<times> nat result" where
  "run_request s accountId =
     (if accountId = [] then (s, Inl (Error ''Trading mutation requires an account identifier.''))
      else let r = length (co_runs s) in
        (s\<lparr>co_runs := co_runs s @ [\<lparr>mr_account = accountId, mr_previous = co_tails s accountId, mr_phase = Waiting\<rparr>],
           co_tails := (co_tails s)(accountId \<mapsto> r)\<rparr>, Inr r))"

definition tail_resolved :: "coordinator \<Rightarrow> nat option \<Rightarrow> bool" where
  "tail_resolved s previous = (case previous of None \<Rightarrow> True | Some p \<Rightarrow> mr_phase (co_runs s ! p) = Finished)"

definition startable :: "coordinator \<Rightarrow> nat \<Rightarrow> bool" where
  "startable s r \<longleftrightarrow> r < length (co_runs s) \<and> mr_phase (co_runs s ! r) = Waiting \<and> tail_resolved s (mr_previous (co_runs s ! r))"

definition set_phase :: "coordinator \<Rightarrow> nat \<Rightarrow> run_phase \<Rightarrow> coordinator" where
  "set_phase s r phase = s\<lparr>co_runs := (co_runs s)[r := (co_runs s ! r)\<lparr>mr_phase := phase\<rparr>]\<rparr>"

text \<open>\<^verbatim>\<open>withCancelBudget\<close>: what happens before the operation. It fails for an owner whose budget has expired.\<close>

definition enterCancelBudget :: "coordinator \<Rightarrow> nat \<Rightarrow> coordinator \<times> unit result" where
  "enterCancelBudget s owner = (case co_budgets s owner of
       Some budget \<Rightarrow> if cb_active budget then (s, Inr ()) else (s, Inl (Error ''Cancel budget owner context expired.''))
     | None \<Rightarrow> (s\<lparr>co_budgets := (co_budgets s)(owner \<mapsto>
         \<lparr>cb_accountId = context_account s owner, cb_remaining = int max_cancel_attempts, cb_active = True\<rparr>)\<rparr>, Inr ()))"

definition leaveCancelBudget :: "coordinator \<Rightarrow> nat \<Rightarrow> coordinator" where
  "leaveCancelBudget s owner = (case co_budgets s owner of
       None \<Rightarrow> s | Some budget \<Rightarrow> s\<lparr>co_budgets := (co_budgets s)(owner \<mapsto> budget\<lparr>cb_active := False\<rparr>)\<rparr>)"

text \<open>After \<^verbatim>\<open>await previous\<close>, and the \<^verbatim>\<open>finally\<close> of the operation.\<close>

definition run_start :: "coordinator \<Rightarrow> nat \<Rightarrow> coordinator" where
  "run_start s r =
     (if startable s r
      then let s' = set_phase s r Running in fst (enterCancelBudget (s'\<lparr>co_contexts := insert r (co_contexts s')\<rparr>) r)
      else s)"

definition release_tail :: "coordinator \<Rightarrow> nat \<Rightarrow> coordinator" where
  "release_tail s r = (let a = mr_account (co_runs s ! r) in
     if co_tails s a = Some r then s\<lparr>co_tails := (co_tails s)(a := None)\<rparr> else s)"

definition run_finish :: "coordinator \<Rightarrow> nat \<Rightarrow> coordinator" where
  "run_finish s r =
     (if r < length (co_runs s) \<and> mr_phase (co_runs s ! r) = Running
      then let s1 = leaveCancelBudget s r; s2 = s1\<lparr>co_contexts := co_contexts s1 - {r}\<rparr>
           in release_tail (set_phase s2 r Finished) r
      else s)"

text \<open>\<^verbatim>\<open>run\<close> with the context of a live owner: the operation runs at once in the owner's budget.\<close>

definition run_nested :: "coordinator \<Rightarrow> string \<Rightarrow> nat \<Rightarrow> coordinator \<times> unit result" where
  "run_nested s accountId context =
     (if accountId = [] then (s, Inl (Error ''Trading mutation requires an account identifier.''))
      else case assertContext s context accountId of
        Inl e \<Rightarrow> (s, Inl e) | Inr _ \<Rightarrow> enterCancelBudget s context)"

definition claimCancelAttempt :: "coordinator \<Rightarrow> nat option \<Rightarrow> string \<Rightarrow> string \<Rightarrow> coordinator \<times> nat result" where
  "claimCancelAttempt s store accountId clientOrderId =
     (case Option.bind store (co_budgets s) of
        None \<Rightarrow> (s, Inl (Error ''Cancellation lacks its live account context.''))
      | Some budget \<Rightarrow>
          if \<not> cb_active budget \<or> cb_accountId budget \<noteq> accountId then (s, Inl (Error ''Cancellation lacks its live account context.''))
          else if cb_remaining budget \<le> 0 then (s, Inl CancelBudgetExhaustedError)
          else (s\<lparr>co_budgets := (co_budgets s)(the store \<mapsto> budget\<lparr>cb_remaining := cb_remaining budget - 1\<rparr>),
                  co_permits := co_permits s @ [\<lparr>cp_accountId = accountId, cp_clientOrderId = clientOrderId, cp_owner = the store, cp_used = False\<rparr>]\<rparr>,
                Inr (length (co_permits s))))"

definition permit_live :: "coordinator \<Rightarrow> nat option \<Rightarrow> nat \<Rightarrow> bool" where
  "permit_live s store permit \<longleftrightarrow> permit < length (co_permits s) \<and> \<not> cp_used (co_permits s ! permit) \<and>
     (case co_budgets s (cp_owner (co_permits s ! permit)) of None \<Rightarrow> False | Some b \<Rightarrow> cb_active b) \<and> store = Some (cp_owner (co_permits s ! permit))"

definition consumeCancelAttempt :: "coordinator \<Rightarrow> nat option \<Rightarrow> nat \<Rightarrow> string \<Rightarrow> string \<Rightarrow> coordinator \<times> unit result" where
  "consumeCancelAttempt s store permit accountId clientOrderId =
     (if \<not> permit_live s store permit \<or> cp_accountId (co_permits s ! permit) \<noteq> accountId \<or> cp_clientOrderId (co_permits s ! permit) \<noteq> clientOrderId
      then (s, Inl (Error ''Cancel permit is invalid, consumed or expired.''))
      else (s\<lparr>co_permits := (co_permits s)[permit := (co_permits s ! permit)\<lparr>cp_used := True\<rparr>]\<rparr>, Inr ()))"

datatype mutation_event =
    Request string
  | Start nat
  | Finish nat
  | Nested string nat
  | Fence "string option"
  | Hold "string option"
  | Release nat
  | Claim "nat option" string string
  | Consume "nat option" nat string string

fun mutation_step :: "coordinator \<Rightarrow> mutation_event \<Rightarrow> coordinator" where
  "mutation_step s (Request a) = fst (run_request s a)"
| "mutation_step s (Start r) = run_start s r"
| "mutation_step s (Finish r) = run_finish s r"
| "mutation_step s (Nested a c) = fst (run_nested s a c)"
| "mutation_step s (Fence a) = fenceEntries s a"
| "mutation_step s (Hold a) = fst (holdEntries s a)"
| "mutation_step s (Release h) = releaseHold s h"
| "mutation_step s (Claim store a c) = fst (claimCancelAttempt s store a c)"
| "mutation_step s (Consume store p a c) = fst (consumeCancelAttempt s store p a c)"


section \<open>The invariant\<close>

abbreviation runs_of :: "coordinator \<Rightarrow> nat" where
  "runs_of s \<equiv> length (co_runs s)"

abbreviation phase_of :: "coordinator \<Rightarrow> nat \<Rightarrow> run_phase" where
  "phase_of s r \<equiv> mr_phase (co_runs s ! r)"

abbreviation account_of :: "coordinator \<Rightarrow> nat \<Rightarrow> string" where
  "account_of s r \<equiv> mr_account (co_runs s ! r)"

text \<open>Calls of one account are served in the order of their requests: whoever has started had no unfinished predecessor.\<close>

definition served_in_order :: "coordinator \<Rightarrow> bool" where
  "served_in_order s \<longleftrightarrow> (\<forall>r<runs_of s. phase_of s r \<noteq> Waiting \<longrightarrow> (\<forall>q<r. account_of s q = account_of s r \<longrightarrow> phase_of s q = Finished))"

definition linked :: "coordinator \<Rightarrow> bool" where
  "linked s \<longleftrightarrow> (\<forall>r<runs_of s. case mr_previous (co_runs s ! r) of
       None \<Rightarrow> \<forall>q<r. account_of s q = account_of s r \<longrightarrow> phase_of s q = Finished
     | Some p \<Rightarrow> p < r \<and> account_of s p = account_of s r \<and> (\<forall>q<r. account_of s q = account_of s r \<longrightarrow> q \<le> p))"

definition tails_ok :: "coordinator \<Rightarrow> bool" where
  "tails_ok s \<longleftrightarrow> (\<forall>a. case co_tails s a of
       None \<Rightarrow> \<forall>r<runs_of s. account_of s r = a \<longrightarrow> phase_of s r = Finished
     | Some t \<Rightarrow> t < runs_of s \<and> account_of s t = a \<and> phase_of s t \<noteq> Finished \<and> (\<forall>r<runs_of s. account_of s r = a \<longrightarrow> r \<le> t))"

text \<open>The accounts of the permits an owner has been given.\<close>

definition permit_accounts :: "coordinator \<Rightarrow> nat \<Rightarrow> string list" where
  "permit_accounts s r = map cp_accountId (filter (\<lambda>p. cp_owner p = r) (co_permits s))"

definition permits_of :: "coordinator \<Rightarrow> nat \<Rightarrow> nat" where
  "permits_of s r = length (permit_accounts s r)"

definition budget_ok :: "coordinator \<Rightarrow> nat \<Rightarrow> bool" where
  "budget_ok s r = (case co_budgets s r of
       None \<Rightarrow> (r < runs_of s \<longrightarrow> phase_of s r = Waiting) \<and> permits_of s r = 0
     | Some b \<Rightarrow> r < runs_of s \<and> phase_of s r \<noteq> Waiting \<and> cb_accountId b = account_of s r \<and> cb_active b = (phase_of s r = Running) \<and>
         0 \<le> cb_remaining b \<and> cb_remaining b + int (permits_of s r) = 5 \<and> set (permit_accounts s r) \<subseteq> {account_of s r})"

definition mutation_ok :: "coordinator \<Rightarrow> bool" where
  "mutation_ok s \<longleftrightarrow> served_in_order s \<and> linked s \<and> tails_ok s \<and> co_contexts s = {r. r < runs_of s \<and> phase_of s r = Running} \<and>
     (\<forall>r. budget_ok s r)"

lemmas mutation_defs = served_in_order_def linked_def tails_ok_def budget_ok_def permits_of_def permit_accounts_def

lemma set_phase_simps [simp]:
  "runs_of (set_phase s r p) = runs_of s" "account_of (set_phase s r p) q = account_of s q"
  "mr_previous (co_runs (set_phase s r p) ! q) = mr_previous (co_runs s ! q)"
  "r < runs_of s \<Longrightarrow> phase_of (set_phase s r p) q = (if q = r then p else phase_of s q)"
  "co_tails (set_phase s r p) = co_tails s" "co_contexts (set_phase s r p) = co_contexts s"
  "co_budgets (set_phase s r p) = co_budgets s" "co_permits (set_phase s r p) = co_permits s"
  by (cases "r < runs_of s"; simp add: set_phase_def nth_list_update list_update_beyond)+

lemma startable_first:
  assumes "mutation_ok s" "startable s r" "q < r" "account_of s q = account_of s r"
  shows "phase_of s q = Finished"
proof (cases "mr_previous (co_runs s ! r)")
  case None
  then show ?thesis using assms by (auto simp: mutation_ok_def linked_def startable_def split: option.splits)
next
  case (Some p)
  then have p: "p < r" "account_of s p = account_of s r" "q \<le> p" "phase_of s p = Finished" "p < runs_of s"
    using assms by (fastforce simp: mutation_ok_def linked_def startable_def tail_resolved_def)+
  then show ?thesis using assms(1,4) by (cases "q = p") (auto simp: mutation_ok_def served_in_order_def)
qed

lemma first_startable:
  assumes "mutation_ok s" "r < runs_of s" "phase_of s r = Waiting" "\<And>q. q < r \<Longrightarrow> account_of s q = account_of s r \<Longrightarrow> phase_of s q = Finished"
  shows "startable s r"
  using assms by (auto simp: mutation_ok_def linked_def startable_def tail_resolved_def split: option.splits)

lemma running_unfinished_later:
  assumes "mutation_ok s" "r < runs_of s" "phase_of s r = Running" "q < runs_of s" "account_of s q = account_of s r" "r < q"
  shows "phase_of s q = Waiting"
  using assms by (auto simp: mutation_ok_def served_in_order_def)


subsection \<open>Every event keeps it\<close>

lemma run_request_ok:
  assumes "mutation_ok s"
  shows "mutation_ok (fst (run_request s a))"
proof (cases "a = []")
  case False
  define n s' where "n = runs_of s" and "s' = fst (run_request s a)"
  have fields: "runs_of s' = Suc n" "co_budgets s' = co_budgets s" "co_permits s' = co_permits s" "co_contexts s' = co_contexts s"
    "co_tails s' = (co_tails s)(a \<mapsto> n)" "account_of s' n = a" "phase_of s' n = Waiting" "mr_previous (co_runs s' ! n) = co_tails s a"
    using False by (simp_all add: s'_def run_request_def Let_def n_def)
  have old: "account_of s' r = account_of s r" "phase_of s' r = phase_of s r" "mr_previous (co_runs s' ! r) = mr_previous (co_runs s ! r)" if "r < n" for r
    using that False by (simp_all add: s'_def run_request_def Let_def nth_append n_def)
  note h = assms [unfolded mutation_ok_def, folded n_def]
  have tail: "case co_tails s b of None \<Rightarrow> \<forall>r<n. account_of s r = b \<longrightarrow> phase_of s r = Finished
      | Some t \<Rightarrow> t < n \<and> account_of s t = b \<and> phase_of s t \<noteq> Finished \<and> (\<forall>r<n. account_of s r = b \<longrightarrow> r \<le> t)" for b
    using h unfolding tails_ok_def n_def by blast
  have order: "served_in_order s'" using h fields old by (simp add: served_in_order_def less_Suc_eq n_def)
  have link: "linked s'"
    unfolding linked_def fields(1) less_Suc_eq
  proof (intro allI impI, elim disjE)
    fix r assume r: "r < n"
    then have "case mr_previous (co_runs s ! r) of
        None \<Rightarrow> \<forall>q<r. account_of s q = account_of s r \<longrightarrow> phase_of s q = Finished
      | Some p \<Rightarrow> p < r \<and> account_of s p = account_of s r \<and> (\<forall>q<r. account_of s q = account_of s r \<longrightarrow> q \<le> p)" using h by (simp add: linked_def n_def)
    then show "case mr_previous (co_runs s' ! r) of
        None \<Rightarrow> \<forall>q<r. account_of s' q = account_of s' r \<longrightarrow> phase_of s' q = Finished
      | Some p \<Rightarrow> p < r \<and> account_of s' p = account_of s' r \<and> (\<forall>q<r. account_of s' q = account_of s' r \<longrightarrow> q \<le> p)"
      using r old by (simp split: option.splits)
  next
    fix r assume r: "r = n"
    show "case mr_previous (co_runs s' ! r) of
        None \<Rightarrow> \<forall>q<r. account_of s' q = account_of s' r \<longrightarrow> phase_of s' q = Finished
      | Some p \<Rightarrow> p < r \<and> account_of s' p = account_of s' r \<and> (\<forall>q<r. account_of s' q = account_of s' r \<longrightarrow> q \<le> p)"
      using tail [of a] r fields old by (simp split: option.splits)
  qed
  have tails: "tails_ok s'"
    unfolding tails_ok_def fields(1,5)
  proof
    fix b
    show "case ((co_tails s)(a \<mapsto> n)) b of None \<Rightarrow> \<forall>r<Suc n. account_of s' r = b \<longrightarrow> phase_of s' r = Finished
      | Some t \<Rightarrow> t < Suc n \<and> account_of s' t = b \<and> phase_of s' t \<noteq> Finished \<and> (\<forall>r<Suc n. account_of s' r = b \<longrightarrow> r \<le> t)"
      using tail [of b] fields old by (cases "b = a") (auto simp: less_Suc_eq split: option.splits)
  qed
  have contexts: "co_contexts s' = {r. r < runs_of s' \<and> phase_of s' r = Running}" using h fields old by (auto simp: less_Suc_eq n_def)
  have budgets: "budget_ok s' r" for r
  proof -
    have "budget_ok s r" using h by simp
    then show ?thesis using fields old by (auto simp: budget_ok_def permits_of_def permit_accounts_def less_Suc_eq n_def split: option.splits)
  qed
  show ?thesis using order link tails contexts budgets by (simp add: mutation_ok_def s'_def)
qed (simp add: assms run_request_def)

lemma linked_mono:
  assumes "linked s" "runs_of s' = runs_of s" "\<And>q. account_of s' q = account_of s q" "\<And>q. mr_previous (co_runs s' ! q) = mr_previous (co_runs s ! q)"
    "\<And>q. phase_of s q = Finished \<Longrightarrow> phase_of s' q = Finished"
  shows "linked s'"
  unfolding linked_def assms(2-4)
proof (intro allI impI)
  fix r assume "r < runs_of s"
  then have "case mr_previous (co_runs s ! r) of
      None \<Rightarrow> \<forall>q<r. account_of s q = account_of s r \<longrightarrow> phase_of s q = Finished
    | Some p \<Rightarrow> p < r \<and> account_of s p = account_of s r \<and> (\<forall>q<r. account_of s q = account_of s r \<longrightarrow> q \<le> p)" using assms(1) by (simp add: linked_def)
  then show "case mr_previous (co_runs s ! r) of
      None \<Rightarrow> \<forall>q<r. account_of s q = account_of s r \<longrightarrow> phase_of s' q = Finished
    | Some p \<Rightarrow> p < r \<and> account_of s p = account_of s r \<and> (\<forall>q<r. account_of s q = account_of s r \<longrightarrow> q \<le> p)"
    using assms(5) by (simp split: option.splits)
qed

lemma tailsD:
  "tails_ok s \<Longrightarrow> case co_tails s a of None \<Rightarrow> \<forall>r<runs_of s. account_of s r = a \<longrightarrow> phase_of s r = Finished
     | Some t \<Rightarrow> t < runs_of s \<and> account_of s t = a \<and> phase_of s t \<noteq> Finished \<and> (\<forall>r<runs_of s. account_of s r = a \<longrightarrow> r \<le> t)"
  unfolding tails_ok_def by blast

lemma start_ok:
  assumes "mutation_ok s"
  shows "mutation_ok (run_start s r)"
proof (cases "startable s r")
  case True
  define s' where "s' = run_start s r"
  have r: "r < runs_of s" "phase_of s r = Waiting" using True by (auto simp: startable_def)
  have first: "phase_of s q = Finished" if "q < r" "account_of s q = account_of s r" for q using startable_first [OF assms True that] .
  have fresh: "co_budgets s r = None" "permits_of s r = 0"
    using assms r by (auto simp: mutation_ok_def budget_ok_def split: option.splits dest!: spec [of _ r])
  have fields: "runs_of s' = runs_of s" "account_of s' q = account_of s q" "mr_previous (co_runs s' ! q) = mr_previous (co_runs s ! q)"
    "phase_of s' q = (if q = r then Running else phase_of s q)" "co_tails s' = co_tails s" "co_contexts s' = insert r (co_contexts s)" "co_permits s' = co_permits s"
    "co_budgets s' = (co_budgets s)(r \<mapsto> \<lparr>cb_accountId = account_of s r, cb_remaining = 5, cb_active = True\<rparr>)" for q
    using True r fresh by (simp_all add: s'_def run_start_def Let_def enterCancelBudget_def context_account_def max_cancel_attempts_def)
  have order: "served_in_order s'" using assms first r unfolding served_in_order_def fields by (auto simp: mutation_ok_def served_in_order_def)
  have link: "linked s'" using assms r fields by (intro linked_mono [of s s']) (auto simp: mutation_ok_def)
  have tails: "tails_ok s'"
    unfolding tails_ok_def fields(1,2,5)
  proof
    fix a
    have "case co_tails s a of None \<Rightarrow> \<forall>r<runs_of s. account_of s r = a \<longrightarrow> phase_of s r = Finished
      | Some t \<Rightarrow> t < runs_of s \<and> account_of s t = a \<and> phase_of s t \<noteq> Finished \<and> (\<forall>r<runs_of s. account_of s r = a \<longrightarrow> r \<le> t)"
      using assms tailsD by (simp add: mutation_ok_def)
    then show "case co_tails s a of None \<Rightarrow> \<forall>r<runs_of s. account_of s r = a \<longrightarrow> phase_of s' r = Finished
      | Some t \<Rightarrow> t < runs_of s \<and> account_of s t = a \<and> phase_of s' t \<noteq> Finished \<and> (\<forall>r<runs_of s. account_of s r = a \<longrightarrow> r \<le> t)"
      unfolding fields(4) using r by (auto split: option.splits)
  qed
  have contexts: "co_contexts s' = {q. q < runs_of s' \<and> phase_of s' q = Running}" using assms r unfolding fields by (auto simp: mutation_ok_def)
  have budgets: "budget_ok s' q" for q
  proof -
    have "budget_ok s q" using assms by (simp add: mutation_ok_def)
    then show ?thesis using r fresh(2) unfolding budget_ok_def permits_of_def permit_accounts_def fields by (auto split: option.splits)
  qed
  show ?thesis using order link tails contexts budgets by (simp add: mutation_ok_def s'_def)
qed (simp add: assms run_start_def)

lemma release_tail_fields:
  "co_runs (release_tail s r) = co_runs s" "co_contexts (release_tail s r) = co_contexts s" "co_budgets (release_tail s r) = co_budgets s"
  "co_permits (release_tail s r) = co_permits s"
  "co_tails (release_tail s r) = (if co_tails s (account_of s r) = Some r then (co_tails s)(account_of s r := None) else co_tails s)"
  by (simp_all add: release_tail_def Let_def)

lemma finish_ok:
  assumes "mutation_ok s"
  shows "mutation_ok (run_finish s r)"
proof (cases "r < runs_of s \<and> phase_of s r = Running")
  case True
  then have r: "r < runs_of s" "phase_of s r = Running" by auto
  define s' where "s' = run_finish s r"
  obtain b where b: "co_budgets s r = Some b" using assms r by (auto simp: mutation_ok_def budget_ok_def split: option.splits dest!: spec [of _ r])
  have fields: "runs_of s' = runs_of s" "account_of s' q = account_of s q" "mr_previous (co_runs s' ! q) = mr_previous (co_runs s ! q)"
    "phase_of s' q = (if q = r then Finished else phase_of s q)" "co_contexts s' = co_contexts s - {r}" "co_permits s' = co_permits s"
    "co_budgets s' = (co_budgets s)(r \<mapsto> b\<lparr>cb_active := False\<rparr>)"
    "co_tails s' = (if co_tails s (account_of s r) = Some r then (co_tails s)(account_of s r := None) else co_tails s)" for q
    using r b by (simp_all add: s'_def run_finish_def Let_def leaveCancelBudget_def release_tail_fields)
  have first: "phase_of s q = Finished" if "q < r" "account_of s q = account_of s r" for q using assms r that by (auto simp: mutation_ok_def served_in_order_def)
  have order: "served_in_order s'" using assms r unfolding served_in_order_def fields by (auto simp: mutation_ok_def served_in_order_def)
  have link: "linked s'" using assms fields by (intro linked_mono [of s s']) (auto simp: mutation_ok_def)
  have tails: "tails_ok s'"
    unfolding tails_ok_def fields(1)
  proof
    fix a
    have old: "case co_tails s a of None \<Rightarrow> \<forall>r<runs_of s. account_of s r = a \<longrightarrow> phase_of s r = Finished
      | Some t \<Rightarrow> t < runs_of s \<and> account_of s t = a \<and> phase_of s t \<noteq> Finished \<and> (\<forall>r<runs_of s. account_of s r = a \<longrightarrow> r \<le> t)"
      using assms tailsD by (simp add: mutation_ok_def)
    show "case co_tails s' a of None \<Rightarrow> \<forall>r<runs_of s. account_of s' r = a \<longrightarrow> phase_of s' r = Finished
      | Some t \<Rightarrow> t < runs_of s \<and> account_of s' t = a \<and> phase_of s' t \<noteq> Finished \<and> (\<forall>r<runs_of s. account_of s' r = a \<longrightarrow> r \<le> t)"
    proof (cases "co_tails s a = Some r")
      case True
      then have "account_of s r = a" "\<And>q. q < runs_of s \<Longrightarrow> account_of s q = a \<Longrightarrow> q \<le> r" using old by auto
      then show ?thesis unfolding fields using first True by (auto simp: le_less)
    next
      case False
      then show ?thesis unfolding fields using old by (auto split: option.splits)
    qed
  qed
  have contexts: "co_contexts s' = {q. q < runs_of s' \<and> phase_of s' q = Running}" using assms r unfolding fields by (auto simp: mutation_ok_def)
  have budgets: "budget_ok s' q" for q
  proof -
    have "budget_ok s q" using assms by (simp add: mutation_ok_def)
    then show ?thesis using r b unfolding budget_ok_def permits_of_def permit_accounts_def fields by (auto split: option.splits)
  qed
  show ?thesis using order link tails contexts budgets by (simp add: mutation_ok_def s'_def)
qed (auto simp: assms run_finish_def)

text \<open>The other events leave the runs alone.\<close>

lemma same_runs_ok:
  assumes "mutation_ok s" "co_runs s' = co_runs s" "co_tails s' = co_tails s" "co_contexts s' = co_contexts s" "\<And>r. budget_ok s' r"
  shows "mutation_ok s'"
  using assms(1,5) unfolding mutation_ok_def served_in_order_def linked_def tails_ok_def assms(2-4) by blast

lemma same_budgets: "budget_ok s r \<Longrightarrow> co_runs s' = co_runs s \<Longrightarrow> co_budgets s' = co_budgets s \<Longrightarrow> permit_accounts s' r = permit_accounts s r \<Longrightarrow> budget_ok s' r"
  by (cases "co_budgets s r") (simp_all add: budget_ok_def permits_of_def)

lemma fence_fields [simp]:
  "co_runs (fenceEntries s a) = co_runs s" "co_tails (fenceEntries s a) = co_tails s" "co_contexts (fenceEntries s a) = co_contexts s"
  "co_budgets (fenceEntries s a) = co_budgets s" "co_permits (fenceEntries s a) = co_permits s"
  by (simp_all add: fenceEntries_def split: option.splits)

lemma claim_ok:
  assumes "mutation_ok s"
  shows "mutation_ok (fst (claimCancelAttempt s store a c))"
proof (cases "snd (claimCancelAttempt s store a c)")
  case (Inl e)
  then have "fst (claimCancelAttempt s store a c) = s" by (auto simp: claimCancelAttempt_def split: option.splits if_splits)
  then show ?thesis using assms by simp
next
  case (Inr n)
  then obtain r b where b: "store = Some r" "co_budgets s r = Some b" "cb_active b" "cb_accountId b = a" "0 < cb_remaining b"
    by (auto simp: claimCancelAttempt_def split: option.splits if_splits Option.bind_splits)
  define s' where "s' = fst (claimCancelAttempt s store a c)"
  have fields: "co_runs s' = co_runs s" "co_tails s' = co_tails s" "co_contexts s' = co_contexts s"
    "co_budgets s' = (co_budgets s)(r \<mapsto> b\<lparr>cb_remaining := cb_remaining b - 1\<rparr>)"
    "permit_accounts s' q = permit_accounts s q @ (if q = r then [a] else [])" for q
    using b by (simp_all add: s'_def claimCancelAttempt_def permit_accounts_def)
  have "budget_ok s' q" for q
  proof -
    have "budget_ok s q" using assms by (simp add: mutation_ok_def)
    then show ?thesis using b unfolding budget_ok_def permits_of_def fields by (auto split: option.splits)
  qed
  then show ?thesis using same_runs_ok [OF assms fields(1-3)] by (simp add: s'_def)
qed

lemma consume_ok:
  assumes "mutation_ok s"
  shows "mutation_ok (fst (consumeCancelAttempt s store p a c))"
proof -
  define s' where "s' = fst (consumeCancelAttempt s store p a c)"
  have fields: "co_runs s' = co_runs s" "co_tails s' = co_tails s" "co_contexts s' = co_contexts s" "co_budgets s' = co_budgets s"
    by (simp_all add: s'_def consumeCancelAttempt_def)
  have owners: "map (\<lambda>x. (cp_owner x, cp_accountId x)) (co_permits s') = map (\<lambda>x. (cp_owner x, cp_accountId x)) (co_permits s)"
    by (auto simp: s'_def consumeCancelAttempt_def permit_live_def nth_list_update intro!: nth_equalityI)
  have "permit_accounts x r = map snd (filter (\<lambda>k. fst k = r) (map (\<lambda>x. (cp_owner x, cp_accountId x)) (co_permits x)))" for x r
    by (simp add: permit_accounts_def filter_map o_def)
  then have "permit_accounts s' r = permit_accounts s r" for r by (simp only: owners)
  then have "budget_ok s' r" for r using assms by (intro same_budgets [OF _ fields(1,4)]) (auto simp: mutation_ok_def)
  then show ?thesis using same_runs_ok [OF assms fields(1-3)] by (simp add: s'_def)
qed

lemma nested_unchanged:
  assumes "mutation_ok s"
  shows "fst (run_nested s a c) = s"
proof -
  have "co_budgets s c \<noteq> None" if "c \<in> co_contexts s" using assms that by (auto simp: mutation_ok_def budget_ok_def split: option.splits dest!: spec [of _ c])
  then show ?thesis by (auto simp: run_nested_def assertContext_def throw_if_def enterCancelBudget_def split: sum.splits option.splits if_splits)
qed

lemma admission_only:
  assumes "mutation_ok s" "co_runs s' = co_runs s" "co_tails s' = co_tails s" "co_contexts s' = co_contexts s"
    "co_budgets s' = co_budgets s" "co_permits s' = co_permits s"
  shows "mutation_ok s'"
  using assms by (intro same_runs_ok [OF assms(1-4)] same_budgets [OF _ assms(2,5)]) (simp_all add: mutation_ok_def permit_accounts_def)

lemma mutation_step_ok: "mutation_ok s \<Longrightarrow> mutation_ok (mutation_step s e)"
  by (cases e) (auto simp: run_request_ok start_ok finish_ok claim_ok consume_ok nested_unchanged holdEntries_def Let_def releaseHold_def
      elim!: admission_only)

interpretation mutation: invariant_system mutation_step mutation_ok
  by unfold_locales (rule mutation_step_ok)

lemma new_coordinator_ok: "mutation_ok new_coordinator"
  by (simp add: new_coordinator_def mutation_ok_def mutation_defs)


section \<open>Consequences\<close>

lemma one_running:
  assumes "mutation_ok s" "q < runs_of s" "r < runs_of s" "phase_of s q = Running" "phase_of s r = Running" "account_of s q = account_of s r"
  shows "q = r"
  using running_unfinished_later [OF assms(1)] assms by (metis linorder_neqE_nat run_phase.distinct(1))

lemma somebody_moves:
  assumes "mutation_ok s" "r < runs_of s" "phase_of s r = Waiting"
  shows "\<exists>q\<le>r. account_of s q = account_of s r \<and> (phase_of s q = Running \<or> startable s q)"
proof -
  let ?P = "\<lambda>q. account_of s q = account_of s r \<and> phase_of s q \<noteq> Finished"
  have "?P r" using assms by simp
  then obtain q where q: "?P q" "\<forall>k<q. \<not> ?P k" using exists_least_iff [of ?P] by blast
  have le: "q \<le> r" using q(2) \<open>?P r\<close> by (metis linorder_not_le)
  have least: "phase_of s k = Finished" if "k < q" "account_of s k = account_of s q" for k using q that by auto
  show ?thesis
  proof (cases "phase_of s q")
    case Waiting
    then show ?thesis using first_startable [OF assms(1), of q] q le least assms(2) by auto
  qed (use q le in auto)
qed

definition used :: "coordinator \<Rightarrow> nat \<Rightarrow> bool" where
  "used s p \<longleftrightarrow> p < length (co_permits s) \<and> cp_used (co_permits s ! p)"

lemma set_phase_permits: "co_permits (release_tail s r) = co_permits s" "co_permits (leaveCancelBudget s r) = co_permits s"
  "co_permits (fst (enterCancelBudget s r)) = co_permits s"
  by (simp_all add: release_tail_def Let_def leaveCancelBudget_def enterCancelBudget_def split: option.splits)

lemma step_used: "used s p \<Longrightarrow> used (mutation_step s e) p"
  by (cases e)
    (auto simp: used_def run_request_def Let_def run_start_def run_finish_def set_phase_permits run_nested_def fenceEntries_def holdEntries_def
      releaseHold_def claimCancelAttempt_def consumeCancelAttempt_def permit_live_def nth_append nth_list_update split: option.splits sum.splits)

lemma run_used: "used s p \<Longrightarrow> used (foldl mutation_step s es) p"
  by (induction es arbitrary: s) (auto intro: step_used)

lemma consume_Inr:
  assumes "snd (consumeCancelAttempt s store p a c) = Inr ()"
  shows "permit_live s store p" "\<not> used s p" "used (fst (consumeCancelAttempt s store p a c)) p"
  using assms by (auto simp: consumeCancelAttempt_def used_def permit_live_def split: if_splits)

text \<open>Epochs only grow, and their text determines them.\<close>

definition epochs_le :: "coordinator \<Rightarrow> coordinator \<Rightarrow> bool" where
  "epochs_le s s' \<longleftrightarrow> co_globalEpoch s \<le> co_globalEpoch s' \<and> (\<forall>a. account_epoch s a \<le> account_epoch s' a)"

lemma epoch_fields:
  "co_globalEpoch (release_tail s r) = co_globalEpoch s" "co_accountEpochs (release_tail s r) = co_accountEpochs s"
  "co_globalEpoch (leaveCancelBudget s r) = co_globalEpoch s" "co_accountEpochs (leaveCancelBudget s r) = co_accountEpochs s"
  "co_globalEpoch (fst (enterCancelBudget s r)) = co_globalEpoch s" "co_accountEpochs (fst (enterCancelBudget s r)) = co_accountEpochs s"
  "co_globalEpoch (set_phase s r x) = co_globalEpoch s" "co_accountEpochs (set_phase s r x) = co_accountEpochs s"
  by (simp_all add: release_tail_def Let_def leaveCancelBudget_def enterCancelBudget_def set_phase_def split: option.splits)

lemma fence_epochs: "epochs_le s (fenceEntries s a)"
  by (auto simp: epochs_le_def fenceEntries_def account_epoch_def split: option.splits)

lemma same_epochs: "co_globalEpoch s' = co_globalEpoch s \<Longrightarrow> co_accountEpochs s' = co_accountEpochs s \<Longrightarrow> epochs_le s s'"
  by (simp add: epochs_le_def account_epoch_def)

lemma step_epochs: "epochs_le s (mutation_step s e)"
proof (cases e)
  case (Hold a)
  then show ?thesis using fence_epochs [of s a] by (simp add: holdEntries_def Let_def epochs_le_def account_epoch_def)
qed (auto simp: run_request_def Let_def run_start_def run_finish_def epoch_fields run_nested_def fence_epochs releaseHold_def claimCancelAttempt_def
    consumeCancelAttempt_def intro!: same_epochs split: option.splits sum.splits)

lemma run_epochs: "mutation_ok s \<Longrightarrow> epochs_le s (foldl mutation_step s es)"
  by (rule mutation.run_rel [where R = epochs_le]) (auto simp: step_epochs, auto simp: epochs_le_def intro: order_trans)

lemma no_colon: "CHR '':'' \<notin> set (show_int n)"
proof -
  have "\<not> is_digit (CHR '':'')" by code_simp
  then show ?thesis using all_digits_mem [of "show_nonneg n"] all_digits_mem [of "show_nonneg (- n)"] by (auto simp: show_int_def)
qed

lemma epoch_text: "entryEpoch s a = entryEpoch s' b \<longleftrightarrow> co_globalEpoch s = co_globalEpoch s' \<and> account_epoch s a = account_epoch s' b"
proof
  have cut: "takeWhile (\<lambda>c. c \<noteq> CHR '':'') (show_int n @ CHR '':'' # ys) = show_int n" for n ys
    using no_colon [of n] by (auto simp: takeWhile_append)
  assume eq: "entryEpoch s a = entryEpoch s' b"
  then have g: "show_int (co_globalEpoch s) = show_int (co_globalEpoch s')"
    using cut [of "co_globalEpoch s"] cut [of "co_globalEpoch s'"] by (metis append_Cons append_Nil entryEpoch_def)
  then have "show_int (account_epoch s a) = show_int (account_epoch s' b)" using eq by (simp add: entryEpoch_def)
  with g show "co_globalEpoch s = co_globalEpoch s' \<and> account_epoch s a = account_epoch s' b" by (metis bigint_of_show)
qed (simp add: entryEpoch_def)

lemma fenced_epoch:
  assumes "a = None \<or> a = Some b" "epochs_le (fenceEntries s a) s'"
  shows "entryEpoch s' b \<noteq> entryEpoch s b"
proof (cases a)
  case None
  then have "co_globalEpoch s < co_globalEpoch s'" using assms(2) by (simp add: epochs_le_def fenceEntries_def)
  then show ?thesis by (simp add: epoch_text)
next
  case (Some c)
  then have "account_epoch (fenceEntries s a) b = account_epoch s b + 1" using assms(1) by (simp add: fenceEntries_def account_epoch_def)
  then have "account_epoch s b < account_epoch s' b" using assms(2) by (metis epochs_le_def less_add_one order_less_le_trans)
  then show ?thesis by (simp add: epoch_text)
qed

text \<open>A hold stays until it is released.\<close>

lemma hold_fields:
  "co_entryHolds (release_tail s r) = co_entryHolds s" "co_entryHolds (leaveCancelBudget s r) = co_entryHolds s"
  "co_entryHolds (fst (enterCancelBudget s r)) = co_entryHolds s" "co_entryHolds (set_phase s r x) = co_entryHolds s"
  "co_entryHolds (fenceEntries s a) = co_entryHolds s"
  by (simp_all add: release_tail_def Let_def leaveCancelBudget_def enterCancelBudget_def set_phase_def fenceEntries_def split: option.splits)

lemma step_hold: "(h, a) \<in> set (co_entryHolds s) \<Longrightarrow> e \<noteq> Release h \<Longrightarrow> (h, a) \<in> set (co_entryHolds (mutation_step s e))"
  by (cases e)
    (auto simp: hold_fields run_request_def Let_def run_start_def run_finish_def run_nested_def holdEntries_def releaseHold_def claimCancelAttempt_def
      consumeCancelAttempt_def split: option.splits sum.splits)

lemma run_hold: "(h, a) \<in> set (co_entryHolds s) \<Longrightarrow> Release h \<notin> set es \<Longrightarrow> (h, a) \<in> set (co_entryHolds (foldl mutation_step s es))"
  by (induction es arbitrary: s) (auto simp: step_hold)

lemma held_refused:
  "(h, a) \<in> set (co_entryHolds s) \<Longrightarrow> a = None \<or> a = Some (context_account s c) \<Longrightarrow> assertEntryEpoch s c epoch \<noteq> Inr ()"
  by (force simp: assertEntryEpoch_def rbind_Inr_iff throw_if_Inr list_ex_iff)

lemma entry_needs_epoch: "assertEntryEpoch s c epoch = Inr () \<Longrightarrow> entryEpoch s (context_account s c) = epoch"
  by (auto simp: assertEntryEpoch_def assertEpoch_def rbind_Inr_iff throw_if_Inr)


section \<open>Properties\<close>

text \<open>
  C17: whatever the order of requests, starts, completions, nested calls and cancellation
  attempts, at most one mutation of an account runs at a time and mutations of one account run in the order in which they were
  requested; a context is accepted exactly while its mutation runs. No request is lost: as long as one waits, a mutation of its account runs or can start. An
  owner gets at most five cancellation permits, a permit works only inside its owner's running mutation, and once
  consumed it is never accepted again.
\<close>

theorem mutations_exclusive_and_fair:
  fixes es :: "mutation_event list"
  defines "s \<equiv> foldl mutation_step new_coordinator es"
  shows "(\<forall>q<runs_of s. \<forall>r<runs_of s. phase_of s q = Running \<and> phase_of s r = Running \<and> account_of s q = account_of s r \<longrightarrow> q = r) \<and>
    (\<forall>r<runs_of s. \<forall>q<r. account_of s q = account_of s r \<and> phase_of s r \<noteq> Waiting \<longrightarrow> phase_of s q = Finished) \<and>
    (\<forall>c a. assertContext s c a = Inr () \<longleftrightarrow> c < runs_of s \<and> phase_of s c = Running \<and> account_of s c = a) \<and>
    (\<forall>r<runs_of s. phase_of s r = Waiting \<longrightarrow> (\<exists>q\<le>r. account_of s q = account_of s r \<and> (phase_of s q = Running \<or> startable s q))) \<and>
    (\<forall>r. permits_of s r \<le> 5) \<and>
    (\<forall>store p a c. snd (consumeCancelAttempt s store p a c) = Inr () \<longrightarrow>
       (\<exists>r. store = Some r \<and> r < runs_of s \<and> phase_of s r = Running \<and> account_of s r = a) \<and>
       (\<forall>es'. snd (consumeCancelAttempt (foldl mutation_step (mutation_step s (Consume store p a c)) es') store p a c) \<noteq> Inr ()))"
proof -
  have ok: "mutation_ok s" unfolding s_def by (rule mutation.run_inv [OF new_coordinator_ok])
  have contexts: "assertContext s c a = Inr () \<longleftrightarrow> c < runs_of s \<and> phase_of s c = Running \<and> account_of s c = a" for c a
    using ok by (auto simp: assertContext_def throw_if_Inr mutation_ok_def)
  have budget: "budget_ok s r" for r using ok by (simp add: mutation_ok_def)
  have permits: "permits_of s r \<le> 5" for r using budget [of r] by (auto simp: budget_ok_def split: option.splits)
  have consume: "(\<exists>r. store = Some r \<and> r < runs_of s \<and> phase_of s r = Running \<and> account_of s r = a) \<and>
       (\<forall>es'. snd (consumeCancelAttempt (foldl mutation_step (mutation_step s (Consume store p a c)) es') store p a c) \<noteq> Inr ())"
    if h: "snd (consumeCancelAttempt s store p a c) = Inr ()" for store p a c
  proof -
    note live = consume_Inr [OF h]
    obtain r b where r: "store = Some r" "co_budgets s r = Some b" "cb_active b" "cp_owner (co_permits s ! p) = r"
      using live(1) by (auto simp: permit_live_def split: option.splits)
    have acc: "cp_accountId (co_permits s ! p) = a" using h by (auto simp: consumeCancelAttempt_def split: if_splits)
    have run: "r < runs_of s" "phase_of s r = Running" using budget [of r] r by (auto simp: budget_ok_def)
    have "cp_accountId (co_permits s ! p) \<in> set (permit_accounts s r)" using live(1) r(4) by (auto simp: permit_accounts_def permit_live_def)
    then have "account_of s r = a" using budget [of r] r(2) acc by (auto simp: budget_ok_def)
    with run r(1) have one: "\<exists>r. store = Some r \<and> r < runs_of s \<and> phase_of s r = Running \<and> account_of s r = a" by blast
    have "used (foldl mutation_step (mutation_step s (Consume store p a c)) es') p" for es' using live(3) by (intro run_used) simp
    then have "snd (consumeCancelAttempt (foldl mutation_step (mutation_step s (Consume store p a c)) es') store p a c) \<noteq> Inr ()" for es'
      using consume_Inr(2) by metis
    with one show ?thesis by simp
  qed
  have order: "phase_of s q = Finished" if "r < runs_of s" "q < r" "account_of s q = account_of s r" "phase_of s r \<noteq> Waiting" for q r
    using ok that by (simp add: mutation_ok_def served_in_order_def)
  show ?thesis
    using one_running [OF ok] somebody_moves [OF ok] contexts permits consume order by (intro conjI allI impI) blast+
qed

definition sample_history :: "mutation_event list" where
  "sample_history = [Request ''a'', Request ''a'', Start 1, Start 0, Claim (Some 0) ''a'' ''order'']"

theorem mutations_exclusive_and_fair_witness:
  "snd (consumeCancelAttempt (foldl mutation_step new_coordinator sample_history) (Some 0) 0 ''a'' ''order'') = Inr () \<and>
   (\<forall>es'. snd (consumeCancelAttempt (foldl mutation_step (mutation_step (foldl mutation_step new_coordinator sample_history)
      (Consume (Some 0) 0 ''a'' ''order'')) es') (Some 0) 0 ''a'' ''order'') \<noteq> Inr ())"
proof -
  have c: "snd (consumeCancelAttempt (foldl mutation_step new_coordinator sample_history) (Some 0) 0 ''a'' ''order'') = Inr ()" by code_simp
  then show ?thesis using mutations_exclusive_and_fair [of sample_history] by blast
qed

text \<open>
  C8: an operator fence is final. After a fence or a hold of all accounts or of one account, no later
  history makes the coordinator accept an entry of that account under an epoch read before; and while the hold is not
  released, it accepts no entry of the account at all, under any epoch. Without a hold the
  current epoch of a running owner is accepted.
\<close>

theorem entry_fence_final:
  assumes "mutation_ok s" "scope = None \<or> scope = Some a"
  shows "(\<forall>es c. let s' = foldl mutation_step (mutation_step s (Fence scope)) es in
       context_account s' c = a \<longrightarrow> assertEntryEpoch s' c (entryEpoch s a) \<noteq> Inr ()) \<and>
    (\<forall>es c epoch. let s' = foldl mutation_step (mutation_step s (Hold scope)) es in
       context_account s' c = a \<longrightarrow> (epoch = entryEpoch s a \<or> Release (co_nextHold s) \<notin> set es) \<longrightarrow> assertEntryEpoch s' c epoch \<noteq> Inr ()) \<and>
    (\<forall>c\<in>co_contexts s. co_entryHolds s = [] \<longrightarrow> assertEntryEpoch s c (entryEpoch s (context_account s c)) = Inr ())"
proof -
  have le: "epochs_le (mutation_step s e) (foldl mutation_step (mutation_step s e) es)" for e es
    using assms(1) by (intro run_epochs mutation_step_ok)
  have old: "assertEntryEpoch s' c (entryEpoch s a) \<noteq> Inr ()" if "epochs_le (fenceEntries s scope) s'" "context_account s' c = a" for s' c
    using fenced_epoch [OF assms(2) that(1)] entry_needs_epoch [of s' c "entryEpoch s a"] that(2) by auto
  have hold: "epochs_le (fenceEntries s scope) (mutation_step s (Hold scope))"
    by (simp add: holdEntries_def Let_def epochs_le_def account_epoch_def)
  have trans: "epochs_le x y \<Longrightarrow> epochs_le y z \<Longrightarrow> epochs_le x z" for x y z by (auto simp: epochs_le_def intro: order_trans)
  have next_hold: "co_nextHold (fenceEntries s scope) = co_nextHold s" by (simp add: fenceEntries_def split: option.splits)
  have held: "(co_nextHold s, scope) \<in> set (co_entryHolds (mutation_step s (Hold scope)))" by (simp add: holdEntries_def Let_def next_hold)
  have accepted: "assertEntryEpoch s c (entryEpoch s (context_account s c)) = Inr ()" if "c \<in> co_contexts s" "co_entryHolds s = []" for c
  proof -
    have "c < runs_of s" using assms(1) that(1) by (auto simp: mutation_ok_def)
    then show ?thesis using that by (simp add: assertEntryEpoch_def assertEpoch_def assertContext_def context_account_def)
  qed
  have fence: "assertEntryEpoch (foldl mutation_step (mutation_step s (Fence scope)) es) c (entryEpoch s a) \<noteq> Inr ()"
    if "context_account (foldl mutation_step (mutation_step s (Fence scope)) es) c = a" for es c
    using old [OF le [of "Fence scope" es, unfolded mutation_step.simps] ] that by simp
  have "assertEntryEpoch (foldl mutation_step (mutation_step s (Hold scope)) es) c epoch \<noteq> Inr ()"
    if "context_account (foldl mutation_step (mutation_step s (Hold scope)) es) c = a" "epoch = entryEpoch s a \<or> Release (co_nextHold s) \<notin> set es" for es c epoch
    using that(2)
  proof
    assume "epoch = entryEpoch s a"
    then show ?thesis using old [OF trans [OF hold le]] that(1) by simp
  next
    assume "Release (co_nextHold s) \<notin> set es"
    then show ?thesis using assms(2) that(1) by (intro held_refused [OF run_hold [OF held]]) simp_all
  qed
  with fence accepted show ?thesis unfolding Let_def by blast
qed

theorem entry_fence_final_witness:
  "\<exists>s. assertEntryEpoch s 0 ''0:0'' = Inr () \<and>
     (\<forall>es. context_account (foldl mutation_step (mutation_step s (Fence None)) es) 0 = ''a'' \<longrightarrow>
        assertEntryEpoch (foldl mutation_step (mutation_step s (Fence None)) es) 0 ''0:0'' \<noteq> Inr ())"
proof -
  define s where "s = foldl mutation_step new_coordinator [Request ''a'', Start 0]"
  have ok: "mutation_ok s" unfolding s_def by (rule mutation.run_inv [OF new_coordinator_ok])
  have e: "entryEpoch s ''a'' = ''0:0''" "assertEntryEpoch s 0 ''0:0'' = Inr ()" unfolding s_def by code_simp+
  show ?thesis using entry_fence_final [OF ok, of None "''a''"] e by (auto simp: Let_def)
qed

end
