(* ===== verification/Trading_Safety.thy ===== *)
theory Trading_Safety
  imports Trading_Ownership Trading_Accounting
begin

text \<open>
  Safety proofs over the evidence of an account (\<^verbatim>\<open>src/trading_safety_proof.ts\<close>), with the coverage of the fill history they
  rely on (\<^verbatim>\<open>src/exchange_history_coverage.ts\<close>). A proof lists the reasons against a purpose; it is safe when there is
  none. The lemmas say what an empty list means for protection, closed trades and fresh evidence.
\<close>

section \<open>History coverage\<close>

definition coverage_profiles :: "(string \<times> string) list" where
  "coverage_profiles = [(''bybit'', ''bybit_v5_linear_endpoint_v1''), (''krakenfutures'', ''kraken_v3_executions_v1''),
     (''hyperliquid'', ''hyperliquid_retained_fills_v1'')]"

definition coverage_interval :: "(string \<times> js) list \<Rightarrow> history_checkpoint \<Rightarrow> history_coverage option" where
  "coverage_interval row state =
     (case (js_get row ''profile'', safe_integer_of (js_get row ''since''), safe_integer_of (js_get row ''through''), hk_scannedThrough state) of
        (JStr profile, Some since, Some through, Some scanned) \<Rightarrow>
          if js_get row ''version'' \<noteq> JNum (Num 1) \<or> profile \<notin> set (map snd coverage_profiles) \<or> hk_source state \<noteq> ''fills''
             \<or> since \<noteq> hk_baselineSince state \<or> through < since \<or> through > scanned
          then None else Some \<lparr>hc_profile = profile, hc_since = since, hc_through = through\<rparr>
      | _ \<Rightarrow> None)"

definition validateHistoryCoverage :: "js \<Rightarrow> history_checkpoint \<Rightarrow> history_coverage option result" where
  "validateHistoryCoverage value state = (case value of
       JNull \<Rightarrow> Inr None
     | JObj row \<Rightarrow> (case coverage_interval row state of
           None \<Rightarrow> Inl (Error ''Invalid historical coverage interval or profile.'')
         | Some c \<Rightarrow> Inr (Some c))
     | _ \<Rightarrow> Inl (Error ''Invalid historical coverage object.''))"

definition retentionExceeded :: "history_checkpoint \<Rightarrow> history_retention \<Rightarrow> bool" where
  "retentionExceeded state retention = (case (hr_fixedUntil retention, hk_coverage state) of
       (Some fixed, Some coverage) \<Rightarrow> hr_phase retention \<noteq> ''proved'' \<or> Some (hc_profile coverage) \<noteq> map_of coverage_profiles ''hyperliquid''
         \<or> hc_through coverage > min (hr_originalUntil retention) fixed
     | _ \<Rightarrow> True)"

definition assertRetentionCoverageBound :: "history_checkpoint \<Rightarrow> unit result" where
  "assertRetentionCoverageBound state = (case hk_retention state of
       None \<Rightarrow> Inr ()
     | Some retention \<Rightarrow> throw_if (retentionExceeded state retention) (Error ''Historical coverage exceeds verified retention.''))"

definition coverage_regresses :: "history_coverage \<Rightarrow> history_coverage option \<Rightarrow> bool" where
  "coverage_regresses previous later = (case later of
       None \<Rightarrow> True
     | Some n \<Rightarrow> hc_profile n \<noteq> hc_profile previous \<or> hc_since n \<noteq> hc_since previous \<or> hc_through n < hc_through previous)"

definition assertCoverageContinuation :: "history_checkpoint \<Rightarrow> history_progress \<Rightarrow> unit result" where
  "assertCoverageContinuation previous update =
     rbind (throw_if (case hk_coverage previous of None \<Rightarrow> False | Some p \<Rightarrow> coverage_regresses p (hk_coverage (hp_checkpoint update)))
              (Error ''Historical coverage cannot disappear, change profile or regress.'')) (\<lambda>_.
     case hk_coverage (hp_checkpoint update) of
       None \<Rightarrow> Inr ()
     | Some n \<Rightarrow>
         if (case hk_coverage previous of None \<Rightarrow> False | Some p \<Rightarrow> hc_through n = hc_through p) then Inr ()
         else rbind (assertRetentionCoverageBound (hp_checkpoint update)) (\<lambda>_.
           throw_if (hp_pages update = 0
              \<or> hk_windowSince previous > (case hk_coverage previous of None \<Rightarrow> hk_baselineSince previous | Some p \<Rightarrow> hc_through p)
              \<or> hc_through n > hk_windowSince previous + hp_pages update * 7 * 86400000)
             (Error ''Historical coverage cannot bridge an unread window.'')))"

definition checkpointProofReason :: "string \<Rightarrow> history_checkpoint \<Rightarrow> string option" where
  "checkpointProofReason exchange checkpoint =
     (if exchange = ''krakenfutures'' \<and> missing_text (Option.bind (hk_providerAccountUid checkpoint) (\<lambda>uid. uid)) then Some ''FILL_PROVIDER_IDENTITY_UNPROVED''
      else case hk_coverage checkpoint of
        None \<Rightarrow> Some ''FILL_COVERAGE_UNPROVED''
      | Some coverage \<Rightarrow>
          if Some (hc_profile coverage) \<noteq> map_of coverage_profiles exchange \<or> hk_completeness checkpoint \<noteq> ''complete'' \<or> hk_cursor checkpoint \<noteq> None
          then Some ''FILL_COVERAGE_UNPROVED''
          else if (case hk_retention checkpoint of None \<Rightarrow> False | Some r \<Rightarrow> exchange \<noteq> ''hyperliquid'' \<or> hr_phase r \<noteq> ''proved'')
          then Some ''FILL_COVERAGE_UNPROVED'' else None)"

definition retentionIsFresh :: "history_checkpoint \<Rightarrow> acquisition_evidence \<Rightarrow> bool" where
  "retentionIsFresh checkpoint evidence = (case hk_retention checkpoint of
       None \<Rightarrow> True
     | Some r \<Rightarrow> (case (hk_coverage checkpoint, hr_fixedUntil r, hr_validatedAt r) of
           (Some coverage, Some fixed, Some validated) \<Rightarrow> hc_through coverage \<le> min fixed (hr_originalUntil r)
             \<and> validated \<ge> aq_startedAt evidence \<and> validated \<le> aq_completedAt evidence
         | _ \<Rightarrow> False))"

definition fillCoverageReason :: "string \<Rightarrow> acquisition_evidence \<Rightarrow> int \<Rightarrow> string option" where
  "fillCoverageReason exchange evidence since =
     (if exchange = ''bybit'' then Some ''FILL_OPTION_SCOPE_UNPROVED''
      else if map_of coverage_profiles exchange = None then Some ''FILL_COVERAGE_MISSING''
      else case filter (\<lambda>row. hk_source (hp_checkpoint row) = ''fills'' \<and> hk_providerSymbol (hp_checkpoint row) = None) (aq_history evidence) of
        [row] \<Rightarrow>
          let checkpoint = hp_checkpoint row in
          (case checkpointProofReason exchange checkpoint of
             Some reason \<Rightarrow> Some reason
           | None \<Rightarrow> (case hk_coverage checkpoint of
               None \<Rightarrow> Some ''FILL_COVERAGE_UNPROVED''
             | Some coverage \<Rightarrow>
                 if hc_since coverage > since \<or> hc_since coverage \<noteq> hk_baselineSince checkpoint then Some ''FILL_BASELINE_UNPROVED''
                 else if hp_pages row = 0 \<or> hc_through coverage < aq_startedAt evidence \<or> hc_through coverage > aq_completedAt evidence
                 then Some ''FILL_COVERAGE_NOT_FRESH''
                 else if \<not> retentionIsFresh checkpoint evidence then Some ''FILL_COVERAGE_NOT_FRESH'' else None))
      | _ \<Rightarrow> Some ''FILL_COVERAGE_MISSING'')"

definition assertCompleteFillCoverage :: "string \<Rightarrow> acquisition_evidence \<Rightarrow> int \<Rightarrow> unit result" where
  "assertCompleteFillCoverage exchange evidence since =
     (if \<not> list_ex (\<lambda>s. se_source s = ''fills'' \<and> se_completeness s = ''complete'') (aq_sources evidence) then Inr ()
      else case fillCoverageReason exchange evidence since of
        None \<Rightarrow> Inr () | Some reason \<Rightarrow> Inl (Error (''Invalid complete fill source: '' @ reason)))"


section \<open>Evidence\<close>

datatype safety_purpose = EntryAdmission | EntriesDrained | PositionProtected | TradeClosed | AccountRelease

record safety_binding =
  sb_accountId :: string
  sb_accountVersion :: int
  sb_runtimeEpoch :: string
  sb_accountFingerprint :: "string option"
  sb_credentialGeneration :: "string option"

record safety_order =
  so_order :: protection_order
  so_remoteConfirmed :: bool

record safety_position =
  sp_need :: protection_need
  sp_ownership :: "ownership_proof option"
  sp_remoteMatches :: bool
  sp_projectionMatches :: "bool option"

record safety_operation =
  sop_id :: string
  sop_intentId :: string
  sop_phase :: string
  sop_hasEntry :: bool

record historical_trade =
  ht_intentId :: string
  ht_accountId :: string
  ht_hasEntryHistory :: bool
  ht_ownership :: "ownership_proof option"
  ht_closedProjectionQuantity :: "string option"

record candidate_exemption =
  ce_intentId :: string
  ce_planHash :: "string option"
  ce_operationId :: "string option"
  ce_generation :: "int option"
  ce_requestHash :: "string option"
  ce_noSendBasis :: string
  ce_noSendEvidenceHash :: string

record safety_evidence =
  ev_binding :: safety_binding
  ev_identityVerified :: bool
  ev_stateCurrent :: bool
  ev_accountReady :: bool
  ev_entryAllowed :: bool
  ev_acquisition :: "acquisition_evidence option"
  ev_minimumAcquisitionStart :: int
  ev_requiredSince :: int
  ev_now :: int
  ev_orders :: "safety_order list"
  ev_positions :: "safety_position list"
  ev_operations :: "safety_operation list"
  ev_unresolvedEvidence :: int
  ev_fillIdentityUnresolved :: int
  ev_foreignOrders :: int
  ev_foreignPositions :: int
  ev_blockingIncidents :: "string list"
  ev_reviewRequiredIntents :: "string list"
  ev_balanceVerified :: bool
  ev_historyExchange :: "string option"
  ev_runtimeCurrent :: "bool option"
  ev_historicalTrades :: "historical_trade list"
  ev_candidateExemption :: "candidate_exemption option"

record safety_reason =
  sr_code :: string
  sr_intentId :: "string option"
  sr_orderId :: "string option"

record safety_proof =
  pf_purpose :: safety_purpose
  pf_binding :: safety_binding
  pf_intentId :: "string option"
  pf_safe :: bool
  pf_reasons :: "safety_reason list"
  pf_evaluatedAt :: int
  pf_acquisitionStartedAt :: "int option"
  pf_acquisitionCompletedAt :: "int option"
  pf_evidenceHash :: string
  pf_candidateExemption :: "candidate_exemption option"


section \<open>Reasons\<close>

definition freshness_ms :: int where
  "freshness_ms = 30000"

definition code_reason :: "string \<Rightarrow> safety_reason" where
  "code_reason code = \<lparr>sr_code = code, sr_intentId = None, sr_orderId = None\<rparr>"

definition intent_reason :: "string \<Rightarrow> string \<Rightarrow> safety_reason" where
  "intent_reason code intent = \<lparr>sr_code = code, sr_intentId = Some intent, sr_orderId = None\<rparr>"

text \<open>\<^verbatim>\<open>if (c) reasons.push(r)\<close>\<close>

definition reason_if :: "bool \<Rightarrow> safety_reason \<Rightarrow> safety_reason list" where
  "reason_if c r = (if c then [r] else [])"

lemma reason_if_Nil [simp]: "reason_if c r = [] \<longleftrightarrow> \<not> c"
  by (simp add: reason_if_def)

definition terminal :: "string \<Rightarrow> bool" where
  "terminal status \<longleftrightarrow> status \<in> set terminal_order_states"

definition pending :: "safety_operation \<Rightarrow> bool" where
  "pending operation \<longleftrightarrow> sop_phase operation \<notin> set [''resolved'', ''abandoned'']"

definition historicalCoverageReasons :: "safety_evidence \<Rightarrow> safety_reason list" where
  "historicalCoverageReasons input = (case (ev_historyExchange input, ev_acquisition input) of
       (Some exchange, Some acquisition) \<Rightarrow>
         if exchange = [] then []
         else (case fillCoverageReason exchange acquisition (ev_requiredSince input) of None \<Rightarrow> [] | Some reason \<Rightarrow> [code_reason reason])
     | _ \<Rightarrow> [])"

definition sourceReasons :: "safety_evidence \<Rightarrow> acquisition_evidence \<Rightarrow> string \<times> string \<Rightarrow> safety_reason list" where
  "sourceReasons input acquisition = (\<lambda>(source, upper).
     let sources = filter (\<lambda>item. se_source item = source) (aq_sources acquisition) in
     reason_if (sources = [] \<or> list_ex (\<lambda>item. se_completeness item \<noteq> ''complete'') sources) (code_reason (''SOURCE_'' @ upper @ ''_INCOMPLETE'')) @
     reason_if (list_ex (\<lambda>item. se_startedAt item < aq_startedAt acquisition \<or> se_completedAt item > aq_completedAt acquisition
        \<or> se_completedAt item < se_startedAt item) sources) (code_reason ''SOURCE_WINDOW_INVALID'') @
     reason_if (source = ''fills'' \<and> list_ex (\<lambda>item. case se_since item of None \<Rightarrow> True | Some s \<Rightarrow> s > ev_requiredSince input) sources)
       (code_reason ''FILL_BASELINE_UNPROVED''))"

definition acquisitionReasons :: "safety_evidence \<Rightarrow> safety_reason list" where
  "acquisitionReasons input = (case ev_acquisition input of
       None \<Rightarrow> [code_reason ''ACQUISITION_MISSING'']
     | Some acquisition \<Rightarrow>
         reason_if (aq_version acquisition \<noteq> 1 \<or> \<not> is_safe_integer (aq_startedAt acquisition) \<or> \<not> is_safe_integer (aq_completedAt acquisition)
            \<or> aq_startedAt acquisition < ev_minimumAcquisitionStart input \<or> aq_completedAt acquisition < aq_startedAt acquisition
            \<or> aq_completedAt acquisition > ev_now input \<or> ev_now input - aq_startedAt acquisition > freshness_ms) (code_reason ''ACQUISITION_NOT_FRESH'') @
         concat (map (sourceReasons input acquisition) [(''orders'', ''ORDERS''), (''positions'', ''POSITIONS''), (''fills'', ''FILLS'')]) @
         historicalCoverageReasons input)"

definition order_quantity :: "protection_order \<Rightarrow> string \<Rightarrow> bool result" where
  "order_quantity order filled0 =
     rbind (decimal_positive (po_orderQuantity order)) (\<lambda>quantity. rbind (decimal filled0) (\<lambda>filled. rbind (compareDecimal filled quantity) (\<lambda>c.
       Inr (c \<le> 0 \<and> (po_orderStatus order \<noteq> ''filled'' \<or> c = 0)))))"

definition orderQuantityValid :: "protection_order \<Rightarrow> bool" where
  "orderQuantityValid order = (case po_filledQuantity order of
       None \<Rightarrow> False
     | Some filled \<Rightarrow> (case order_quantity order filled of Inr b \<Rightarrow> b | Inl _ \<Rightarrow> False))"

definition order_reason :: "string \<Rightarrow> protection_order \<Rightarrow> safety_reason" where
  "order_reason code order = \<lparr>sr_code = code, sr_intentId = Some (po_intentId order), sr_orderId = po_clientOrderId order\<rparr>"

definition commitment_code :: "safety_operation list \<Rightarrow> bool \<Rightarrow> protection_order \<Rightarrow> string option" where
  "commitment_code operations allExits order =
     (let uncertain = list_ex (\<lambda>operation. sop_intentId operation = po_intentId order \<and> sop_hasEntry operation \<and> pending operation) operations in
      if po_orderRole order = ''entry'' then entryCommitmentReason (po_orderStatus order) uncertain
      else if allExits \<and> \<not> terminal (po_orderStatus order) then Some ''EXIT_SIBLING_NOT_TERMINAL'' else None)"

definition commitmentReasons :: "safety_order list \<Rightarrow> safety_operation list \<Rightarrow> bool \<Rightarrow> safety_reason list" where
  "commitmentReasons orders operations allExits = concat (map (\<lambda>order.
     case commitment_code operations allExits (so_order order) of None \<Rightarrow> [] | Some code \<Rightarrow> [order_reason code (so_order order)]) orders)"

definition protection_reason :: "safety_position \<Rightarrow> ownership_proof \<Rightarrow> safety_order list \<Rightarrow> safety_reason list" where
  "protection_reason position ownership orders =
     (let intentId = pn_intentId (sp_need position);
          own = filter (\<lambda>order. po_intentId (so_order order) = intentId) orders
      in case requiredStopQuantity (op_netQuantity ownership) (filter is_entry_order (map so_order own)) of
           Inl _ \<Rightarrow> [intent_reason ''PROTECTION_QUANTITY_UNPROVED'' intentId]
         | Inr quantity \<Rightarrow>
             if quantity = ''0'' then []
             else reason_if (\<not> list_ex (\<lambda>order. so_remoteConfirmed order \<and>
                      sc_protected (protectiveStopCoverage (so_order order) ((sp_need position)\<lparr>pn_quantity := quantity\<rparr>))) own)
                    (intent_reason ''POSITION_NOT_PROTECTED'' intentId))"

definition positionReasons :: "safety_position \<Rightarrow> safety_order list \<Rightarrow> bool \<Rightarrow> safety_reason list" where
  "positionReasons position orders isClosed =
     (let intentId = pn_intentId (sp_need position) in
      case sp_ownership position of
        None \<Rightarrow> [intent_reason ''OWNED_QUANTITY_UNPROVED'' intentId]
      | Some ownership \<Rightarrow>
          if \<not> sp_remoteMatches position then [intent_reason ''REMOTE_OWNERSHIP_MISMATCH'' intentId]
          else if isClosed then reason_if (op_netQuantity ownership \<noteq> ''0'') (intent_reason ''OWNED_POSITION_NOT_FLAT'' intentId)
          else if sp_projectionMatches position = Some False then [intent_reason ''POSITION_PROJECTION_MISMATCH'' intentId]
          else protection_reason position ownership orders)"

definition historical_reasons :: "safety_evidence \<Rightarrow> historical_trade \<Rightarrow> safety_reason list" where
  "historical_reasons input trade =
     reason_if (ht_accountId trade \<noteq> sb_accountId (ev_binding input)) (intent_reason ''HISTORICAL_ACCOUNT_MISMATCH'' (ht_intentId trade)) @
     reason_if (\<not> ht_hasEntryHistory trade) (intent_reason ''HISTORICAL_ENTRY_MISSING'' (ht_intentId trade)) @
     (case ht_ownership trade of
        None \<Rightarrow> [intent_reason ''HISTORICAL_OWNERSHIP_UNPROVED'' (ht_intentId trade)]
      | Some own \<Rightarrow> reason_if (op_netQuantity own \<noteq> ''0'') (intent_reason ''HISTORICAL_TRADE_NOT_FLAT'' (ht_intentId trade))) @
     reason_if (ht_closedProjectionQuantity trade \<noteq> None \<and> ht_closedProjectionQuantity trade \<noteq> Some ''0'')
       (intent_reason ''CLOSED_POSITION_NOT_ZERO'' (ht_intentId trade))"

definition historicalTradeReasons :: "safety_evidence \<Rightarrow> safety_reason list" where
  "historicalTradeReasons input = concat (map (historical_reasons input) (ev_historicalTrades input))"

definition admissionReasons :: "safety_evidence \<Rightarrow> safety_purpose \<Rightarrow> safety_reason list" where
  "admissionReasons input purpose =
     (if purpose \<notin> {EntryAdmission, AccountRelease} then []
      else reason_if (\<not> ev_accountReady input) (code_reason ''ACCOUNT_NOT_VERIFIED_READY'') @
        reason_if (\<not> ev_balanceVerified input) (code_reason ''ACCOUNT_BALANCE_UNPROVED'') @
        reason_if (purpose = EntryAdmission \<and> \<not> ev_entryAllowed input) (code_reason ''ENTRY_ADMISSION_DISABLED'') @
        map (\<lambda>_. code_reason ''BLOCKING_ACCOUNT_INCIDENT'') (ev_blockingIncidents input) @
        map (intent_reason ''TRADE_REVIEW_REQUIRED'') (ev_reviewRequiredIntents input) @
        historicalTradeReasons input)"

record safety_scope =
  scope_orders :: "safety_order list"
  scope_operations :: "safety_operation list"
  scope_positions :: "safety_position list"

definition in_scope :: "string option \<Rightarrow> string \<Rightarrow> bool" where
  "in_scope intentId i \<longleftrightarrow> intentId = None \<or> intentId = Some i"

definition scopeEvidence :: "safety_evidence \<Rightarrow> string option \<Rightarrow> safety_scope" where
  "scopeEvidence input intentId =
     \<lparr>scope_orders = filter (\<lambda>order. in_scope intentId (po_intentId (so_order order))) (ev_orders input),
      scope_operations = filter (\<lambda>operation. in_scope intentId (sop_intentId operation)) (ev_operations input),
      scope_positions = filter (\<lambda>position. in_scope intentId (pn_intentId (sp_need position))) (ev_positions input)\<rparr>"

definition remoteReasons :: "safety_evidence \<Rightarrow> safety_reason list" where
  "remoteReasons input =
     reason_if (\<not> ev_identityVerified input) (code_reason ''ACCOUNT_IDENTITY_UNPROVED'') @
     reason_if (\<not> ev_stateCurrent input) (code_reason ''ACCOUNT_STATE_CHANGED'') @
     reason_if (ev_runtimeCurrent input = Some False) (code_reason ''RUNTIME_GENERATION_CHANGED'') @
     reason_if (ev_unresolvedEvidence input > 0) (code_reason ''REMOTE_EVENTS_UNRESOLVED'') @
     reason_if (\<not> is_safe_integer (ev_fillIdentityUnresolved input) \<or> ev_fillIdentityUnresolved input \<noteq> 0) (code_reason ''FILL_IDENTITY_UNPROVEN'') @
     reason_if (ev_foreignOrders input > 0) (code_reason ''FOREIGN_ORDER_PRESENT'') @
     reason_if (ev_foreignPositions input > 0) (code_reason ''FOREIGN_POSITION_PRESENT'')"

definition localOrderReasons :: "string \<Rightarrow> safety_order \<Rightarrow> safety_reason list" where
  "localOrderReasons accountId order =
     (let local = so_order order in
      reason_if (po_accountId local \<noteq> accountId) (order_reason ''ORDER_ACCOUNT_MISMATCH'' local) @
      reason_if (\<not> orderQuantityValid local) (order_reason ''ORDER_QUANTITY_UNPROVED'' local) @
      reason_if (po_orderStatus local \<in> set [''submitting'', ''unknown'', ''cancel_pending'']) (order_reason ''ORDER_OUTCOME_UNRESOLVED'' local) @
      reason_if (\<not> terminal (po_orderStatus local) \<and> po_orderStatus local \<noteq> ''created'' \<and> \<not> so_remoteConfirmed order)
        (order_reason ''ACTIVE_ORDER_NOT_OBSERVED'' local))"

definition purposeReasons :: "safety_evidence \<Rightarrow> safety_scope \<Rightarrow> safety_purpose \<Rightarrow> string option \<Rightarrow> safety_reason list" where
  "purposeReasons input scope purpose intentId =
     reason_if (purpose \<in> {TradeClosed, PositionProtected} \<and> (missing_text intentId \<or> length (scope_positions scope) \<noteq> 1))
       (code_reason ''TRADE_SCOPE_UNPROVED'') @
     reason_if ((purpose = TradeClosed \<or> purpose = EntriesDrained \<and> \<not> missing_text intentId)
        \<and> \<not> list_ex (\<lambda>order. po_orderRole (so_order order) = ''entry'') (scope_orders scope)) (code_reason ''ENTRY_HISTORY_MISSING'') @
     concat (map (\<lambda>position. reason_if (pn_accountId (sp_need position) \<noteq> sb_accountId (ev_binding input))
        (intent_reason ''POSITION_ACCOUNT_MISMATCH'' (pn_intentId (sp_need position)))) (scope_positions scope)) @
     reason_if (purpose \<noteq> PositionProtected \<and> list_ex pending (scope_operations scope)) (code_reason ''EXCHANGE_OPERATION_UNRESOLVED'') @
     (if purpose \<in> {EntriesDrained, AccountRelease, TradeClosed}
      then commitmentReasons (scope_orders scope) (scope_operations scope) (purpose = TradeClosed) else []) @
     (if purpose \<noteq> EntriesDrained
      then concat (map (\<lambda>position. positionReasons position (scope_orders scope) (purpose = TradeClosed)) (scope_positions scope)) else [])"

text \<open>
  \<^verbatim>\<open>new Map(reasons.map(reason => [JSON.stringify(reason), reason])).values()\<close>: the first occurrence of each reason.
\<close>

fun first_occurrences :: "'a list \<Rightarrow> 'a list" where
  "first_occurrences [] = []"
| "first_occurrences (x # xs) = x # filter (\<lambda>y. y \<noteq> x) (first_occurrences xs)"

text \<open>The hash of the serialised evidence is a parameter.\<close>

definition evaluateTradingSafety :: "(safety_evidence \<Rightarrow> string) \<Rightarrow> safety_evidence \<Rightarrow> safety_purpose \<Rightarrow> string option \<Rightarrow> safety_proof" where
  "evaluateTradingSafety hash input purpose intentId =
     (let scope = scopeEvidence input intentId;
          reasons = acquisitionReasons input @ remoteReasons input @ purposeReasons input scope purpose intentId @
            concat (map (localOrderReasons (sb_accountId (ev_binding input))) (scope_orders scope)) @ admissionReasons input purpose;
          unique = first_occurrences reasons
      in \<lparr>pf_purpose = purpose, pf_binding = ev_binding input, pf_intentId = intentId, pf_safe = (unique = []), pf_reasons = unique,
          pf_evaluatedAt = ev_now input, pf_acquisitionStartedAt = map_option aq_startedAt (ev_acquisition input),
          pf_acquisitionCompletedAt = map_option aq_completedAt (ev_acquisition input), pf_evidenceHash = hash input,
          pf_candidateExemption = ev_candidateExemption input\<rparr>)"

definition purpose_name :: "safety_purpose \<Rightarrow> string" where
  "purpose_name p = (case p of EntryAdmission \<Rightarrow> ''entryAdmission'' | EntriesDrained \<Rightarrow> ''entriesDrained'' | PositionProtected \<Rightarrow> ''positionProtected''
     | TradeClosed \<Rightarrow> ''tradeClosed'' | AccountRelease \<Rightarrow> ''accountRelease'')"

definition assertTradingSafety :: "safety_proof \<Rightarrow> unit result" where
  "assertTradingSafety p = throw_if (\<not> pf_safe p) (TradingSafetyProofError
     (''Safety proof '' @ purpose_name (pf_purpose p) @ '' rejected: '' @ join_with '', '' (first_occurrences (map sr_code (pf_reasons p)))))"


section \<open>What an empty list of reasons means\<close>

lemma first_occurrences_Nil [simp]: "first_occurrences xs = [] \<longleftrightarrow> xs = []"
  by (cases xs) auto

lemma safe_iff:
  "pf_safe (evaluateTradingSafety hash input purpose intentId) \<longleftrightarrow>
     acquisitionReasons input = [] \<and> remoteReasons input = [] \<and> purposeReasons input (scopeEvidence input intentId) purpose intentId = [] \<and>
     list_all (\<lambda>order. localOrderReasons (sb_accountId (ev_binding input)) order = []) (scope_orders (scopeEvidence input intentId)) \<and>
     admissionReasons input purpose = []"
  by (auto simp: evaluateTradingSafety_def Let_def list_all_iff)

text \<open>Fresh evidence: a window of at most thirty seconds that ends by now and holds three complete sources.\<close>

definition fresh_evidence :: "safety_evidence \<Rightarrow> bool" where
  "fresh_evidence input \<longleftrightarrow> (\<exists>a. ev_acquisition input = Some a \<and> ev_minimumAcquisitionStart input \<le> aq_startedAt a \<and>
     aq_startedAt a \<le> aq_completedAt a \<and> aq_completedAt a \<le> ev_now input \<and> ev_now input \<le> aq_startedAt a + 30000 \<and>
     (\<forall>source\<in>{''orders'', ''positions'', ''fills''}. \<exists>s\<in>set (aq_sources a). se_source s = source) \<and>
     (\<forall>s\<in>set (aq_sources a). se_source s \<in> {''orders'', ''positions'', ''fills''} \<longrightarrow>
        se_completeness s = ''complete'' \<and> aq_startedAt a \<le> se_startedAt s \<and> se_completedAt s \<le> aq_completedAt a))"

lemma source_reasons_Nil:
  "sourceReasons input a (source, upper) = [] \<Longrightarrow> (\<exists>s\<in>set (aq_sources a). se_source s = source) \<and>
     (\<forall>s\<in>set (aq_sources a). se_source s = source \<longrightarrow>
        se_completeness s = ''complete'' \<and> aq_startedAt a \<le> se_startedAt s \<and> se_completedAt s \<le> aq_completedAt a)"
  by (auto simp: sourceReasons_def Let_def list_ex_iff filter_empty_conv)

lemma acquisition_fresh:
  assumes "acquisitionReasons input = []"
  shows "fresh_evidence input"
proof -
  obtain a where a: "ev_acquisition input = Some a" using assms by (auto simp: acquisitionReasons_def split: option.splits)
  have s: "sourceReasons input a (''orders'', ''ORDERS'') = []" "sourceReasons input a (''positions'', ''POSITIONS'') = []"
    "sourceReasons input a (''fills'', ''FILLS'') = []"
    and w: "ev_minimumAcquisitionStart input \<le> aq_startedAt a" "aq_startedAt a \<le> aq_completedAt a" "aq_completedAt a \<le> ev_now input"
      "ev_now input \<le> aq_startedAt a + 30000"
    using assms a by (auto simp: acquisitionReasons_def freshness_ms_def)
  show ?thesis unfolding fresh_evidence_def using a w s [THEN source_reasons_Nil] by auto
qed

text \<open>The most an intent may hold: what it owns and what its entries can still execute.\<close>

definition exposure :: "safety_order list \<Rightarrow> ownership_proof \<Rightarrow> string \<Rightarrow> rat" where
  "exposure orders own intent = dec_val (js_trim (op_netQuantity own)) +
     (\<Sum>e\<leftarrow>filter is_entry_order (map so_order (filter (\<lambda>order. po_intentId (so_order order) = intent) orders)). may_execute e)"

definition protected_position :: "safety_order list \<Rightarrow> safety_position \<Rightarrow> bool" where
  "protected_position orders position \<longleftrightarrow> sp_remoteMatches position \<and>
     (\<exists>own. sp_ownership position = Some own \<and> (exposure orders own (pn_intentId (sp_need position)) = 0 \<or>
        (\<exists>stop\<in>set orders. so_remoteConfirmed stop \<and> exposure orders own (pn_intentId (sp_need position)) \<le> stop_remaining (so_order stop) \<and>
           (\<exists>quantity. covers (so_order stop) ((sp_need position)\<lparr>pn_quantity := quantity\<rparr>)))))"

lemma position_protected:
  assumes "positionReasons position orders False = []"
  shows "protected_position orders position"
proof -
  define intent where "intent = pn_intentId (sp_need position)"
  define own_orders where "own_orders = filter (\<lambda>order. po_intentId (so_order order) = intent) orders"
  obtain own quantity where own: "sp_ownership position = Some own" "sp_remoteMatches position"
    and q: "requiredStopQuantity (op_netQuantity own) (filter is_entry_order (map so_order own_orders)) = Inr quantity"
    and cases: "quantity = ''0'' \<or> (\<exists>stop\<in>set own_orders. so_remoteConfirmed stop \<and>
       sc_protected (protectiveStopCoverage (so_order stop) ((sp_need position)\<lparr>pn_quantity := quantity\<rparr>)))"
    using assms
    by (auto simp: positionReasons_def protection_reason_def Let_def own_orders_def intent_def list_ex_iff split: option.splits if_splits sum.splits)
  have e: "exposure orders own intent = dec_val quantity" "js_trim quantity = quantity"
    using required_Inr(1,2) [OF q] by (simp_all add: exposure_def own_orders_def canonical_trim)
  from cases show ?thesis
  proof
    assume "quantity = ''0''"
    then show ?thesis using own e(1) zero_decimal(3) unfolding protected_position_def intent_def [symmetric] by auto
  next
    assume "\<exists>stop\<in>set own_orders. so_remoteConfirmed stop \<and>
       sc_protected (protectiveStopCoverage (so_order stop) ((sp_need position)\<lparr>pn_quantity := quantity\<rparr>))"
    then obtain stop where s: "stop \<in> set orders" "so_remoteConfirmed stop" "covers (so_order stop) ((sp_need position)\<lparr>pn_quantity := quantity\<rparr>)"
      using protected_covers by (auto simp: own_orders_def)
    then have "dec_val quantity \<le> stop_remaining (so_order stop)" using e(2) by (simp add: covers_def)
    with s own e(1) show ?thesis unfolding protected_position_def intent_def [symmetric] by auto
  qed
qed

lemma position_closed:
  "positionReasons position orders True = [] \<Longrightarrow> \<exists>own. sp_ownership position = Some own \<and> sp_remoteMatches position \<and> op_netQuantity own = ''0''"
  by (auto simp: positionReasons_def Let_def split: option.splits if_splits)

lemma commitment_terminal:
  assumes "commitmentReasons orders operations allExits = []" "order \<in> set orders" "po_orderRole (so_order order) = ''entry'' \<or> allExits"
  shows "terminal (po_orderStatus (so_order order))"
proof -
  have "commitment_code operations allExits (so_order order) = None" using assms(1,2) by (auto simp: commitmentReasons_def split: option.splits)
  then show ?thesis using assms(3) by (auto simp: commitment_code_def Let_def entryCommitmentReason_def terminal_def split: if_splits)
qed

lemma admission_clean:
  assumes "admissionReasons input purpose = []" "purpose = EntryAdmission \<or> purpose = AccountRelease"
  shows "ev_accountReady input" "ev_balanceVerified input" "ev_blockingIncidents input = []" "ev_reviewRequiredIntents input = []"
    "purpose = EntryAdmission \<Longrightarrow> ev_entryAllowed input"
    "\<And>trade. trade \<in> set (ev_historicalTrades input) \<Longrightarrow> \<exists>own. ht_ownership trade = Some own \<and> op_netQuantity own = ''0''"
proof -
  have h: "historicalTradeReasons input = []" using assms by (auto simp: admissionReasons_def)
  show "ev_accountReady input" "ev_balanceVerified input" "ev_blockingIncidents input = []" "ev_reviewRequiredIntents input = []"
    "purpose = EntryAdmission \<Longrightarrow> ev_entryAllowed input" using assms by (auto simp: admissionReasons_def)
  show "\<exists>own. ht_ownership trade = Some own \<and> op_netQuantity own = ''0''" if "trade \<in> set (ev_historicalTrades input)" for trade
    using h that by (auto simp: historicalTradeReasons_def historical_reasons_def split: option.splits)
qed


section \<open>Properties\<close>

text \<open>
  C9: a safe proof means what its purpose says. Its evidence is fresh and complete and shows no foreign order or position. A
  position is proved protected, and every position before an entry is admitted or an account released, only
  if what is owned plus what its entries can still execute is nothing, or fits into the remaining quantity of a
  confirmed, live, reduce-only stop of that intent on the closing side with a trigger at least as tight as required. A trade is proved
  closed only if it owns nothing, none of its orders is live and none of its operations pends; entries are proved drained only
  if every entry is terminal.
\<close>

theorem safe_proof_sound:
  assumes "pf_safe (evaluateTradingSafety hash input purpose intentId)"
  defines "scope \<equiv> scopeEvidence input intentId"
  shows "fresh_evidence input \<and> ev_foreignOrders input \<le> 0 \<and> ev_foreignPositions input \<le> 0 \<and>
    list_all (\<lambda>order. po_accountId (so_order order) = sb_accountId (ev_binding input)) (scope_orders scope) \<and>
    (case purpose of
       PositionProtected \<Rightarrow> (\<exists>position. scope_positions scope = [position] \<and> protected_position (scope_orders scope) position)
     | EntryAdmission \<Rightarrow> ev_entryAllowed input \<and> ev_accountReady input \<and> ev_blockingIncidents input = [] \<and>
         list_all (\<lambda>operation. \<not> pending operation) (scope_operations scope) \<and> list_all (protected_position (scope_orders scope)) (scope_positions scope)
     | AccountRelease \<Rightarrow> ev_accountReady input \<and> list_all (protected_position (scope_orders scope)) (scope_positions scope) \<and>
         list_all (\<lambda>order. po_orderRole (so_order order) = ''entry'' \<longrightarrow> terminal (po_orderStatus (so_order order))) (scope_orders scope)
     | TradeClosed \<Rightarrow> (\<exists>position own. scope_positions scope = [position] \<and> sp_ownership position = Some own \<and> op_netQuantity own = ''0'') \<and>
         list_all (\<lambda>order. terminal (po_orderStatus (so_order order))) (scope_orders scope) \<and>
         list_all (\<lambda>operation. \<not> pending operation) (scope_operations scope)
     | EntriesDrained \<Rightarrow>
         list_all (\<lambda>order. po_orderRole (so_order order) = ''entry'' \<longrightarrow> terminal (po_orderStatus (so_order order))) (scope_orders scope) \<and>
         list_all (\<lambda>operation. \<not> pending operation) (scope_operations scope))"
proof -
  note s = assms(1) [unfolded safe_iff scope_def [symmetric]]
  have fresh: "fresh_evidence input" using s acquisition_fresh by blast
  have remote: "ev_foreignOrders input \<le> 0" "ev_foreignPositions input \<le> 0" using s by (auto simp: remoteReasons_def)
  have account: "list_all (\<lambda>order. po_accountId (so_order order) = sb_accountId (ev_binding input)) (scope_orders scope)"
    using s by (auto simp: list_all_iff localOrderReasons_def Let_def)
  have quiet: "list_all (\<lambda>operation. \<not> pending operation) (scope_operations scope)" if "purpose \<noteq> PositionProtected"
    using s that by (auto simp: purposeReasons_def list_ex_iff list_all_iff)
  have entries: "list_all (\<lambda>order. po_orderRole (so_order order) = ''entry'' \<longrightarrow> terminal (po_orderStatus (so_order order))) (scope_orders scope)"
    if "purpose \<in> {EntriesDrained, AccountRelease, TradeClosed}"
    using s that by (auto simp: purposeReasons_def list_all_iff intro: commitment_terminal)
  have all: "list_all (\<lambda>order. terminal (po_orderStatus (so_order order))) (scope_orders scope)" if "purpose = TradeClosed"
    using s that by (auto simp: purposeReasons_def list_all_iff intro: commitment_terminal)
  have protected: "list_all (protected_position (scope_orders scope)) (scope_positions scope)" if "purpose \<notin> {EntriesDrained, TradeClosed}"
    using s that by (auto simp: purposeReasons_def list_all_iff intro!: position_protected)
  have one: "\<exists>position. scope_positions scope = [position]" if "purpose \<in> {TradeClosed, PositionProtected}"
    using s that by (auto simp: purposeReasons_def length_Suc_conv)
  have closed: "\<exists>own. sp_ownership position = Some own \<and> op_netQuantity own = ''0''" if "purpose = TradeClosed" "scope_positions scope = [position]" for position
    using s that position_closed by (auto simp: purposeReasons_def)
  show ?thesis
    using fresh remote account quiet entries all protected one closed s admission_clean [of input purpose] by (cases purpose) auto
qed

text \<open>Two owned of an entry of three, and a stop for three.\<close>

definition sample_safety_order :: "string \<Rightarrow> string \<Rightarrow> string \<Rightarrow> string \<Rightarrow> safety_order" where
  "sample_safety_order i role side filled = \<lparr>so_order = \<lparr>po_accountId = ''a'', po_intentId = ''t'', po_clientOrderId = Some i, po_exchangeOrderId = Some i,
     po_symbol = ''BTC'', po_orderRole = role, po_orderSide = side, po_orderStatus = ''open'', po_onlyReduces = (role \<noteq> ''entry''), po_orderQuantity = ''3'',
     po_filledQuantity = Some filled, po_trigger = (if role = ''entry'' then None else Some ''8'')\<rparr>, so_remoteConfirmed = True\<rparr>"

definition sample_evidence :: safety_evidence where
  "sample_evidence = \<lparr>ev_binding = \<lparr>sb_accountId = ''a'', sb_accountVersion = 1, sb_runtimeEpoch = ''0:0'', sb_accountFingerprint = None, sb_credentialGeneration = None\<rparr>,
     ev_identityVerified = True, ev_stateCurrent = True, ev_accountReady = True, ev_entryAllowed = True,
     ev_acquisition = Some \<lparr>aq_version = 1, aq_startedAt = 100, aq_completedAt = 200,
       aq_sources = map (\<lambda>s. \<lparr>se_source = s, se_startedAt = 110, se_completedAt = 190, se_completeness = ''complete'', se_reason = None, se_since = Some 0\<rparr>)
         [''positions'', ''orders'', ''fills''], aq_checkedOrders = [], aq_history = []\<rparr>,
     ev_minimumAcquisitionStart = 50, ev_requiredSince = 10, ev_now = 300,
     ev_orders = [sample_safety_order ''e'' ''entry'' ''buy'' ''2'', sample_safety_order ''s'' ''stop_loss'' ''sell'' ''0''],
     ev_positions = [\<lparr>sp_need = \<lparr>pn_accountId = ''a'', pn_intentId = ''t'', pn_symbol = ''BTC'', pn_side = LONG, pn_quantity = ''2'', pn_minimumTrigger = Some ''7''\<rparr>,
       sp_ownership = Some \<lparr>op_entryQuantity = ''2'', op_exitQuantity = ''0'', op_netQuantity = ''2''\<rparr>, sp_remoteMatches = True, sp_projectionMatches = None\<rparr>],
     ev_operations = [], ev_unresolvedEvidence = 0, ev_fillIdentityUnresolved = 0, ev_foreignOrders = 0, ev_foreignPositions = 0,
     ev_blockingIncidents = [], ev_reviewRequiredIntents = [], ev_balanceVerified = True, ev_historyExchange = None, ev_runtimeCurrent = None,
     ev_historicalTrades = [], ev_candidateExemption = None\<rparr>"

theorem safe_proof_sound_witness:
  "pf_safe (evaluateTradingSafety (\<lambda>_. ''h'') sample_evidence PositionProtected (Some ''t'')) \<and> fresh_evidence sample_evidence \<and>
   (\<exists>position. scope_positions (scopeEvidence sample_evidence (Some ''t'')) = [position] \<and>
      protected_position (scope_orders (scopeEvidence sample_evidence (Some ''t''))) position)"
proof -
  have s: "pf_safe (evaluateTradingSafety (\<lambda>_. ''h'') sample_evidence PositionProtected (Some ''t''))" by code_simp
  then show ?thesis using safe_proof_sound [OF s] by simp
qed

end
