(* ===== verification/Recovery_Schedule.thy ===== *)
theory Recovery_Schedule
  imports Trading_Safety
begin

text \<open>
  The recovery schedule: the planner that shares five exchange calls among the recovery lanes
  (\<^verbatim>\<open>src/trading_recovery_schedule.ts\<close>) and the contract of its requests and of the progress an executor reports
  (\<^verbatim>\<open>src/trading_recovery_schedule_contract.ts\<close>). Requests and progress cross a process boundary, so the contract works on untyped data. The
  proofs show that every plan is a valid request and that accepted progress stays within it.
\<close>

section \<open>Lanes\<close>

datatype recovery_lane = Targeted | Mode | Logs | History | Fx

definition lane_names :: "(string \<times> recovery_lane) list" where
  "lane_names = [(''targeted'', Targeted), (''mode'', Mode), (''logs'', Logs), (''history'', History), (''fx'', Fx)]"

definition lane_name :: "recovery_lane \<Rightarrow> string" where
  "lane_name lane = (case lane of Targeted \<Rightarrow> ''targeted'' | Mode \<Rightarrow> ''mode'' | Logs \<Rightarrow> ''logs'' | History \<Rightarrow> ''history'' | Fx \<Rightarrow> ''fx'')"

definition lane_caps :: "recovery_lane \<Rightarrow> int list" where
  "lane_caps lane = (case lane of Targeted \<Rightarrow> [0, 2] | Mode \<Rightarrow> [0, 2] | Logs \<Rightarrow> [0, 1] | History \<Rightarrow> [0, 4] | Fx \<Rightarrow> [0, 1, 2, 3])"

definition phase_lanes :: "int \<Rightarrow> recovery_lane list" where
  "phase_lanes phase = (if phase = 0 \<or> phase = 2 then [Fx, Targeted] else if phase = 1 then [History, Logs] else [Mode, Logs, Targeted])"

definition deferred_reasons :: "string list" where
  "deferred_reasons = [''phase_deferred'', ''not_due'', ''not_needed'', ''cooldown'']"

definition read_failures :: "string list" where
  "read_failures = [''budget_exhausted'', ''transient'', ''unsupported'', ''invalid_evidence'']"

definition recovery_legs :: "string list" where
  "recovery_legs = [''bybit:btc-usd-index:v1'', ''bybit:btc-usdt-index:v1'', ''bybit:usdc-usd-index:v1'']"

record recovery_binding =
  rb_accountId :: string
  rb_accountFingerprint :: string
  rb_credentialGeneration :: string
  rb_mode :: string
  rb_executionProfileHash :: string

record recovery_grant =
  rg_lane :: recovery_lane
  rg_maxCalls :: int
  rg_deferredReason :: "string option"

record recovery_request =
  rrq_attemptId :: string
  rrq_revision :: int
  rrq_phase :: int
  rrq_binding :: recovery_binding
  rrq_cooldownUntil :: int
  rrq_grants :: "recovery_grant list"


section \<open>The planner\<close>

text \<open>Account logs are plain data; of the orders only their number matters.\<close>

record recovery_query =
  rq_since :: int
  rq_orders :: "js list"
  rq_readAccountMode :: "bool option"
  rq_accountLogs :: "(string \<times> js) list option"
  rq_history :: "history_checkpoint list"

record schedule_state =
  ss_id :: string
  ss_revision :: int
  ss_phase :: int
  ss_fx_rotation :: int
  ss_logs_first :: int
  ss_history_after :: "string option"
  ss_next_due_at :: int
  ss_cooldown_until :: int

record scheduled_query =
  sq_since :: int
  sq_orders :: "js list"
  sq_readAccountMode :: "bool option"
  sq_accountLogs :: "(string \<times> js) list option"
  sq_history :: "history_checkpoint list"
  sq_fxEvidence :: "string list option"
  sq_recoverySchedule :: recovery_request

definition leg_rotations :: "string list list" where
  "leg_rotations =
     [[''bybit:btc-usd-index:v1'', ''bybit:btc-usdt-index:v1'', ''bybit:usdc-usd-index:v1''],
      [''bybit:usdc-usd-index:v1'', ''bybit:btc-usd-index:v1'', ''bybit:btc-usdt-index:v1''],
      [''bybit:btc-usdt-index:v1'', ''bybit:btc-usd-index:v1'', ''bybit:usdc-usd-index:v1''],
      [''bybit:usdc-usd-index:v1'', ''bybit:btc-usdt-index:v1'', ''bybit:btc-usd-index:v1'']]"

definition recoveryHistoryKey :: "history_checkpoint \<Rightarrow> string" where
  "recoveryHistoryKey row = json_array [json_string (hk_source row), (case hk_providerSymbol row of None \<Rightarrow> ''null'' | Some s \<Rightarrow> json_string s)]"

definition nextHistory :: "recovery_query \<Rightarrow> string option \<Rightarrow> int \<Rightarrow> history_checkpoint option" where
  "nextHistory query previous now =
     (let due = sort_key recoveryHistoryKey (filter (\<lambda>row. hk_nextReadAt row \<le> now) (rq_history query)) in
      case find (\<lambda>row. case previous of None \<Rightarrow> True | Some p \<Rightarrow> recoveryHistoryKey row > p) due of
        Some row \<Rightarrow> Some row
      | None \<Rightarrow> (case due of [] \<Rightarrow> None | row # _ \<Rightarrow> Some row))"

definition laneOrder :: "schedule_state \<Rightarrow> recovery_lane list" where
  "laneOrder state =
     (if ss_phase state = 0 then [Fx, Targeted, History, Logs, Mode]
      else if ss_phase state = 1 then [History, Logs, Targeted, Mode, Fx]
      else if ss_phase state = 2 then [Targeted, Fx, History, Logs, Mode]
      else if ss_logs_first state \<noteq> 0 then [Logs, Mode, Targeted, History, Fx] else [Mode, Logs, Targeted, History, Fx])"

definition maximums :: "int \<Rightarrow> recovery_lane \<Rightarrow> int" where
  "maximums phase lane =
     (if phase = 0 \<or> phase = 2 then (case lane of Fx \<Rightarrow> 3 | Targeted \<Rightarrow> 2 | _ \<Rightarrow> 0)
      else if phase = 1 then (case lane of History \<Rightarrow> 4 | Logs \<Rightarrow> 1 | _ \<Rightarrow> 0)
      else (case lane of Mode \<Rightarrow> 2 | Logs \<Rightarrow> 1 | Targeted \<Rightarrow> 2 | _ \<Rightarrow> 0))"

definition requiredAccountLogs :: "recovery_query \<Rightarrow> (string \<times> js) list result" where
  "requiredAccountLogs query = (case rq_accountLogs query of
       None \<Rightarrow> Inl (Error ''Recovery schedule logs grant without account logs.'') | Some logs \<Rightarrow> Inr logs)"

definition rotationLegs :: "int \<Rightarrow> string list result" where
  "rotationLegs rotation =
     (if 0 \<le> rotation \<and> rotation < 4 then Inr (leg_rotations ! nat rotation) else Inl (Error ''Recovery schedule rotation out of range.''))"

definition neededLanes :: "recovery_query \<Rightarrow> history_checkpoint option \<Rightarrow> recovery_lane \<Rightarrow> bool" where
  "neededLanes query history lane = (case lane of
       Fx \<Rightarrow> True | Targeted \<Rightarrow> length (rq_orders query) > 0 | Mode \<Rightarrow> rq_readAccountMode query = Some True
     | Logs \<Rightarrow> rq_accountLogs query \<noteq> None | History \<Rightarrow> history \<noteq> None)"

definition scheduleDeferredReason :: "schedule_state \<Rightarrow> int \<Rightarrow> bool \<Rightarrow> string option" where
  "scheduleDeferredReason state now busy =
     (if ss_cooldown_until state > now then Some ''cooldown''
      else if busy \<or> ss_next_due_at state > now then Some ''not_due'' else None)"

text \<open>\<^verbatim>\<open>nextReadAt > now\<close> on a number.\<close>

definition number_above :: "js \<Rightarrow> int \<Rightarrow> bool" where
  "number_above v now = (case v of JNum (Num r) \<Rightarrow> r > of_int now | JNum NegZero \<Rightarrow> 0 > now | JNum (Infinite negative) \<Rightarrow> \<not> negative | _ \<Rightarrow> False)"

definition logsDeferredReason :: "recovery_query \<Rightarrow> int \<Rightarrow> string option" where
  "logsDeferredReason query now = (case rq_accountLogs query of
       None \<Rightarrow> Some ''not_needed''
     | Some logs \<Rightarrow>
         if js_get logs ''nextReadAt'' = JUndefined then Some ''not_needed''
         else if number_above (js_get logs ''nextReadAt'') now then Some ''not_due'' else None)"

definition laneDeferredReason :: "recovery_lane \<Rightarrow> int \<Rightarrow> bool \<Rightarrow> recovery_query \<Rightarrow> int \<Rightarrow> string option" where
  "laneDeferredReason lane cap needed query now =
     (if cap = 0 then Some ''phase_deferred''
      else if \<not> needed then Some ''not_needed''
      else if lane \<noteq> Logs then None
      else logsDeferredReason query now)"

definition laneGrants ::
    "schedule_state \<Rightarrow> (recovery_lane \<Rightarrow> int) \<Rightarrow> (recovery_lane \<Rightarrow> bool) \<Rightarrow> recovery_query \<Rightarrow> int \<Rightarrow> string option \<Rightarrow> recovery_grant list" where
  "laneGrants state caps needed query now deferred = map (\<lambda>lane.
     let reason = (case deferred of Some r \<Rightarrow> Some r | None \<Rightarrow> laneDeferredReason lane (caps lane) (needed lane) query now)
     in \<lparr>rg_lane = lane, rg_maxCalls = (if reason = None then caps lane else 0), rg_deferredReason = reason\<rparr>) (laneOrder state)"

definition has_grant :: "recovery_grant list \<Rightarrow> recovery_lane \<Rightarrow> bool" where
  "has_grant grants lane \<longleftrightarrow> list_ex (\<lambda>g. rg_lane g = lane \<and> rg_maxCalls g > 0) grants"

definition grantedLogs :: "recovery_query \<Rightarrow> bool \<Rightarrow> (string \<times> js) list option result" where
  "grantedLogs query hasLogs = (if \<not> hasLogs then Inr None else rbind (requiredAccountLogs query) (\<lambda>logs. Inr (Some logs)))"

definition grantedFx :: "schedule_state \<Rightarrow> bool \<Rightarrow> string list option result" where
  "grantedFx state hasFx = (if \<not> hasFx then Inr None else rbind (rotationLegs (ss_fx_rotation state)) (\<lambda>legs. Inr (Some legs)))"

definition planScheduledRecovery ::
    "recovery_query \<Rightarrow> recovery_binding \<Rightarrow> schedule_state \<Rightarrow> string \<Rightarrow> int \<Rightarrow> bool \<Rightarrow> scheduled_query result" where
  "planScheduledRecovery query binding state attemptId now busy =
     (let history = nextHistory query (ss_history_after state) now; caps = maximums (ss_phase state);
          needed = neededLanes query history; deferred = scheduleDeferredReason state now busy;
          grants = laneGrants state caps needed query now deferred
      in rbind (grantedLogs query (has_grant grants Logs)) (\<lambda>logs.
         rbind (grantedFx state (has_grant grants Fx)) (\<lambda>fx.
           Inr \<lparr>sq_since = rq_since query, sq_orders = rq_orders query,
                sq_readAccountMode = (if rq_readAccountMode query = Some True then Some True else None),
                sq_accountLogs = logs,
                sq_history = (case history of Some row \<Rightarrow> if has_grant grants History then [row] else [] | None \<Rightarrow> []),
                sq_fxEvidence = fx,
                sq_recoverySchedule = \<lparr>rrq_attemptId = attemptId, rrq_revision = ss_revision state, rrq_phase = ss_phase state, rrq_binding = binding,
                  rrq_cooldownUntil = ss_cooldown_until state, rrq_grants = grants\<rparr>\<rparr>)))"


section \<open>The contract: plain data\<close>

definition schedule_invalid :: "'a result" where
  "schedule_invalid = Inl (Error ''RECOVERY_SCHEDULE_INVALID'')"

definition schedule_check :: "bool \<Rightarrow> unit result" where
  "schedule_check ok = (if ok then Inr () else schedule_invalid)"

lemma schedule_check_Inr [simp]: "schedule_check ok = Inr u \<longleftrightarrow> ok"
  by (simp add: schedule_check_def schedule_invalid_def)

definition schedule_object :: "js \<Rightarrow> (string \<times> js) list result" where
  "schedule_object value = (case value of JObj props \<Rightarrow> Inr props | _ \<Rightarrow> schedule_invalid)"

definition schedule_record :: "js \<Rightarrow> string list \<Rightarrow> (string \<times> js) list result" where
  "schedule_record value ks =
     rbind (schedule_object value) (\<lambda>props.
     rbind (schedule_check (join_with '' '' (sort (map fst props)) = join_with '' '' (sort ks))) (\<lambda>_. Inr props))"

definition schedule_integer :: "js \<Rightarrow> int \<Rightarrow> int result" where
  "schedule_integer value maximum = (case safe_integer_of value of
       Some n \<Rightarrow> if n < 0 \<or> n > maximum then schedule_invalid else Inr n
     | None \<Rightarrow> schedule_invalid)"

definition schedule_array :: "js \<Rightarrow> int \<Rightarrow> js list result" where
  "schedule_array value maximum = (case value of
       JArr xs \<Rightarrow> if int (length xs) > maximum then schedule_invalid else Inr xs
     | _ \<Rightarrow> schedule_invalid)"

definition binding_keys :: "string list" where
  "binding_keys = [''accountId'', ''accountFingerprint'', ''credentialGeneration'', ''mode'', ''executionProfileHash'']"

definition schedule_control :: "char \<Rightarrow> bool" where
  "schedule_control c \<longleftrightarrow> (of_char c :: int) < 32 \<or> 127 \<le> (of_char c :: int) \<and> (of_char c :: int) \<le> 159"

definition account_id_ok :: "js \<Rightarrow> bool" where
  "account_id_ok v = (case v of JStr s \<Rightarrow> int (length s) \<le> 256 \<and> s \<noteq> [] \<and> js_trim s = s \<and> \<not> list_ex schedule_control s | _ \<Rightarrow> False)"

definition hash_field_ok :: "(string \<times> js) list \<Rightarrow> string \<Rightarrow> bool" where
  "hash_field_ok row field = (case js_get row field of JStr s \<Rightarrow> hex64 s | _ \<Rightarrow> False)"

definition check_binding :: "js \<Rightarrow> js \<Rightarrow> unit result" where
  "check_binding value expected =
     rbind (schedule_record value binding_keys) (\<lambda>row.
     rbind (schedule_record expected binding_keys) (\<lambda>context.
     schedule_check (account_id_ok (js_get row ''accountId'')
       \<and> list_all (hash_field_ok row) [''accountFingerprint'', ''credentialGeneration'', ''executionProfileHash'']
       \<and> isStringMember (js_get row ''mode'') [''live'', ''testnet'']
       \<and> list_all (\<lambda>key. js_get row key = js_get context key) binding_keys)))"

definition hex_block :: "nat \<Rightarrow> string \<Rightarrow> bool" where
  "hex_block n s \<longleftrightarrow> length s = n \<and> list_all (\<lambda>c. is_digit c \<or> c \<in> set ''abcdef'') s"

text \<open>\<^verbatim>\<open>/^[a-f0-9]{8}(?:-[a-f0-9]{4}){3}-[a-f0-9]{12}$/\<close>\<close>

definition uuid_pattern :: "string \<Rightarrow> bool" where
  "uuid_pattern s \<longleftrightarrow> length s = 36 \<and> hex_block 8 (take 8 s) \<and> s ! 8 = CHR ''-'' \<and> hex_block 4 (take 4 (drop 9 s)) \<and> s ! 13 = CHR ''-''
     \<and> hex_block 4 (take 4 (drop 14 s)) \<and> s ! 18 = CHR ''-'' \<and> hex_block 4 (take 4 (drop 19 s)) \<and> s ! 23 = CHR ''-'' \<and> hex_block 12 (drop 24 s)"

text \<open>\<^verbatim>\<open>JSON.stringify\<close> of plain data whose numbers are safe integers.\<close>

fun json_text :: "js \<Rightarrow> string" where
  "json_text JUndefined = ''null''"
| "json_text JNull = ''null''"
| "json_text (JBool b) = (if b then ''true'' else ''false'')"
| "json_text (JNum n) = (case safe_integer_of (JNum n) of Some k \<Rightarrow> show_int k | None \<Rightarrow> ''null'')"
| "json_text (JStr s) = json_string s"
| "json_text (JArr xs) = json_array (map json_text xs)"
| "json_text (JObj props) = ''{'' @ join_with '','' (map (\<lambda>kv. json_string (fst kv) @ '':'' @ json_text (snd kv))
     (filter (\<lambda>kv. snd kv \<noteq> JUndefined) props)) @ ''}''"

definition check_header :: "(string \<times> js) list \<Rightarrow> js \<Rightarrow> unit result" where
  "check_header row expected =
     rbind (schedule_check (js_get row ''version'' = JNum (Num 1) \<and> js_get row ''profile'' = JStr ''bybit-usd-fx-recovery-v1''
       \<and> (case js_get row ''attemptId'' of JStr s \<Rightarrow> uuid_pattern s | _ \<Rightarrow> False))) (\<lambda>_.
     rbind (schedule_integer (js_get row ''phase'') 3) (\<lambda>_.
     rbind (schedule_integer (js_get row ''cooldownUntil'') max_safe_integer) (\<lambda>_.
     rbind (check_binding (js_get row ''binding'') expected) (\<lambda>_.
       schedule_check (byte_length (json_text (JObj row)) < 8192)))))"

definition lane_of :: "js \<Rightarrow> recovery_lane option" where
  "lane_of v = (case v of JStr s \<Rightarrow> map_of lane_names s | _ \<Rightarrow> None)"

definition grant_reason :: "js \<Rightarrow> int \<Rightarrow> string option result" where
  "grant_reason reason calls =
     (if calls > 0 then (if reason = JNull then Inr None else schedule_invalid)
      else case reason of JStr s \<Rightarrow> if s \<in> set deferred_reasons then Inr (Some s) else schedule_invalid | _ \<Rightarrow> schedule_invalid)"

definition check_grant :: "int \<Rightarrow> recovery_grant list \<Rightarrow> js \<Rightarrow> recovery_grant list result" where
  "check_grant phase seen item =
     rbind (schedule_record item [''lane'', ''maxCalls'', ''deferredReason'']) (\<lambda>row.
     case lane_of (js_get row ''lane'') of
       None \<Rightarrow> schedule_invalid
     | Some lane \<Rightarrow>
         if lane \<in> set (map rg_lane seen) then schedule_invalid
         else rbind (schedule_integer (js_get row ''maxCalls'') 5) (\<lambda>calls.
           if calls \<notin> set (lane_caps lane) \<or> (calls > 0 \<and> lane \<notin> set (phase_lanes phase)) then schedule_invalid
           else rbind (grant_reason (js_get row ''deferredReason'') calls) (\<lambda>reason.
             Inr (seen @ [\<lparr>rg_lane = lane, rg_maxCalls = calls, rg_deferredReason = reason\<rparr>]))))"

definition total_calls :: "recovery_grant list \<Rightarrow> int" where
  "total_calls grants = (\<Sum>g\<leftarrow>grants. rg_maxCalls g)"

definition check_grants :: "js \<Rightarrow> int \<Rightarrow> recovery_grant list result" where
  "check_grants value phase =
     rbind (schedule_array value 5) (\<lambda>rows.
     rbind (schedule_check (length rows = 5)) (\<lambda>_.
     rbind (foldM (check_grant phase) [] rows) (\<lambda>grants.
     rbind (schedule_check (total_calls grants \<le> 5)) (\<lambda>_. Inr grants))))"

text \<open>The typed reading of data that has been validated.\<close>

definition string_field :: "(string \<times> js) list \<Rightarrow> string \<Rightarrow> string" where
  "string_field row field = (case js_get row field of JStr s \<Rightarrow> s | _ \<Rightarrow> [])"

definition binding_of :: "js \<Rightarrow> recovery_binding" where
  "binding_of value = (let row = (case value of JObj props \<Rightarrow> props | _ \<Rightarrow> []) in
     \<lparr>rb_accountId = string_field row ''accountId'', rb_accountFingerprint = string_field row ''accountFingerprint'',
      rb_credentialGeneration = string_field row ''credentialGeneration'', rb_mode = string_field row ''mode'',
      rb_executionProfileHash = string_field row ''executionProfileHash''\<rparr>)"

definition request_keys :: "string list" where
  "request_keys = [''version'', ''profile'', ''attemptId'', ''revision'', ''phase'', ''binding'', ''cooldownUntil'', ''grants'']"

definition validateRecoveryScheduleRequest :: "js \<Rightarrow> js \<Rightarrow> recovery_request result" where
  "validateRecoveryScheduleRequest value expected =
     rbind (schedule_record value request_keys) (\<lambda>row.
     rbind (schedule_integer (js_get row ''revision'') max_safe_integer) (\<lambda>revision.
     rbind (schedule_integer (js_get row ''phase'') 3) (\<lambda>phase.
     rbind (check_grants (js_get row ''grants'') phase) (\<lambda>grants.
     rbind (check_header row expected) (\<lambda>_.
     rbind (schedule_integer (js_get row ''cooldownUntil'') max_safe_integer) (\<lambda>cooldown.
       Inr \<lparr>rrq_attemptId = string_field row ''attemptId'', rrq_revision = revision, rrq_phase = phase,
            rrq_binding = binding_of (js_get row ''binding''), rrq_cooldownUntil = cooldown, rrq_grants = grants\<rparr>))))))"

definition js_strings :: "js list \<Rightarrow> string list" where
  "js_strings xs = map (\<lambda>x. case x of JStr s \<Rightarrow> s | _ \<Rightarrow> []) xs"

definition fxRequest :: "js \<Rightarrow> int \<Rightarrow> string list result" where
  "fxRequest value maximum =
     rbind (schedule_record value [''version'', ''legIds'']) (\<lambda>row.
     rbind (schedule_array (js_get row ''legIds'') 3) (\<lambda>legs.
     rbind (schedule_check (js_get row ''version'' = JNum (Num 1) \<and> int (length legs) = maximum \<and> legs \<noteq> [] \<and> distinct legs
       \<and> list_all (\<lambda>leg. isStringMember leg recovery_legs) legs)) (\<lambda>_. Inr (js_strings legs))))"

definition laneGrant :: "recovery_request \<Rightarrow> recovery_lane \<Rightarrow> int result" where
  "laneGrant request lane = (case find (\<lambda>g. rg_lane g = lane) (rrq_grants request) of
       None \<Rightarrow> schedule_invalid | Some g \<Rightarrow> Inr (rg_maxCalls g))"

definition expected_field :: "js \<Rightarrow> string \<Rightarrow> js" where
  "expected_field expected field = (case expected of JObj props \<Rightarrow> js_get props field | _ \<Rightarrow> JUndefined)"

definition checkpoint_bound :: "(string \<times> js) list \<Rightarrow> js \<Rightarrow> bool" where
  "checkpoint_bound row expected \<longleftrightarrow> js_get row ''accountFingerprint'' = expected_field expected ''accountFingerprint''
     \<and> js_get row ''credentialGeneration'' = expected_field expected ''credentialGeneration''"

text \<open>\<^verbatim>\<open>value === undefined ? [] : value\<close>\<close>

definition or_empty :: "js \<Rightarrow> js" where
  "or_empty v = (if v = JUndefined then JArr [] else v)"

definition requestedSourcePresence :: "(string \<times> js) list \<Rightarrow> recovery_request \<Rightarrow> js \<Rightarrow> unit result" where
  "requestedSourcePresence recovery request expected =
     rbind (schedule_check (case js_get recovery ''readAccountMode'' of JUndefined \<Rightarrow> True | JBool _ \<Rightarrow> True | _ \<Rightarrow> False)) (\<lambda>_.
     rbind (laneGrant request Mode) (\<lambda>mode.
     rbind (schedule_check (\<not> (mode > 0 \<and> js_get recovery ''readAccountMode'' \<noteq> JBool True))) (\<lambda>_.
     rbind (laneGrant request Logs) (\<lambda>logs.
     rbind (schedule_check ((logs > 0) = (js_get recovery ''accountLogs'' \<noteq> JUndefined))) (\<lambda>_.
     rbind (if js_get recovery ''accountLogs'' = JUndefined then Inr ()
            else rbind (schedule_object (js_get recovery ''accountLogs'')) (\<lambda>checkpoint. schedule_check (checkpoint_bound checkpoint expected))) (\<lambda>_.
     rbind (schedule_array (or_empty (js_get recovery ''history'')) 1) (\<lambda>history.
     rbind (laneGrant request History) (\<lambda>granted.
     rbind (schedule_check (length history = (if granted > 0 then 1 else 0))) (\<lambda>_.
       case history of [] \<Rightarrow> Inr () | h # _ \<Rightarrow> rbind (schedule_object h) (\<lambda>_. Inr ()))))))))))"

definition validateRecoveryScheduleInputs :: "js \<Rightarrow> js \<Rightarrow> (recovery_request \<times> string list option) option result" where
  "validateRecoveryScheduleInputs value expected =
     rbind (schedule_object value) (\<lambda>recovery.
       if js_get recovery ''recoverySchedule'' = JUndefined
       then rbind (schedule_check (js_get recovery ''fxEvidence'' = JUndefined)) (\<lambda>_. Inr None)
       else rbind (validateRecoveryScheduleRequest (js_get recovery ''recoverySchedule'') expected) (\<lambda>request.
         rbind (requestedSourcePresence recovery request expected) (\<lambda>_.
         rbind (laneGrant request Fx) (\<lambda>maximum.
         rbind (schedule_check ((maximum > 0) = (js_get recovery ''fxEvidence'' \<noteq> JUndefined))) (\<lambda>_.
           if maximum \<noteq> 0 then rbind (fxRequest (js_get recovery ''fxEvidence'') maximum) (\<lambda>fx. Inr (Some (request, Some fx)))
           else Inr (Some (request, None)))))))"


section \<open>The contract: progress\<close>

text \<open>\<^verbatim>\<open>isDeepStrictEqual\<close> on plain data, which ignores the order of the properties.\<close>

function deep_equal :: "js \<Rightarrow> js \<Rightarrow> bool" where
  "deep_equal (JArr xs) b = (case b of
     JArr ys \<Rightarrow> length xs = length ys \<and> list_all (\<lambda>(x, y). deep_equal x y) (zip xs ys) | _ \<Rightarrow> False)"
| "deep_equal (JObj ps) b = (case b of
     JObj qs \<Rightarrow> length ps = length qs \<and>
       list_all (\<lambda>kv. case map_of qs (fst kv) of None \<Rightarrow> False | Some w \<Rightarrow> deep_equal (snd kv) w) ps
   | _ \<Rightarrow> False)"
| "deep_equal JUndefined b = (b = JUndefined)"
| "deep_equal JNull b = (b = JNull)"
| "deep_equal (JBool x) b = (b = JBool x)"
| "deep_equal (JNum x) b = (b = JNum x)"
| "deep_equal (JStr x) b = (b = JStr x)"
  by pat_completeness auto

lemma size_element: "x \<in> set xs \<Longrightarrow> size x < Suc (size_list size xs)"
  by (induction xs) auto

lemma size_property: "kv \<in> set ps \<Longrightarrow> size (snd kv) < Suc (size_list (size_prod (\<lambda>_. 0) size) ps)"
  by (rule less_SucI, erule size_list_estimation) (cases kv; simp)

termination deep_equal
  by (relation "measure (\<lambda>(a, b). size a)") (auto dest!: set_zip_leftD intro: size_element size_property)

record lane_evidence =
  le_calls :: int
  le_reasons :: "js list"
  le_cooldown :: int

definition no_evidence :: lane_evidence where
  "no_evidence = \<lparr>le_calls = 0, le_reasons = [], le_cooldown = 0\<rparr>"

record fx_progress =
  fxp_calls :: int
  fxp_receipts :: "js list"
  fxp_reason :: "string option"
  fxp_nextReadAt :: int

record lane_progress =
  lpr_lane :: recovery_lane
  lpr_calls :: int
  lpr_reason :: "string option"

record recovery_progress =
  rpr_attemptId :: string
  rpr_baseRevision :: int
  rpr_phase :: int
  rpr_binding :: js
  rpr_calls :: int
  rpr_cooldownUntil :: int
  rpr_lanes :: "lane_progress list"

definition readWindow :: "int \<Rightarrow> (string \<times> js) list \<Rightarrow> (int \<times> int) result" where
  "readWindow now row =
     rbind (schedule_integer (js_get row ''startedAt'') max_safe_integer) (\<lambda>startedAt.
     rbind (schedule_integer (js_get row ''completedAt'') max_safe_integer) (\<lambda>completedAt.
     rbind (schedule_check (\<not> (completedAt < startedAt \<or> completedAt - startedAt > 35000 \<or> completedAt > now + 1000))) (\<lambda>_.
       Inr (startedAt, completedAt))))"

text \<open>\<^verbatim>\<open>[null, ...allowed].includes(reason)\<close>\<close>

definition optional_reason :: "js \<Rightarrow> string list \<Rightarrow> string option result" where
  "optional_reason v allowed = (case v of
       JNull \<Rightarrow> Inr None
     | JStr s \<Rightarrow> if s \<in> set allowed then Inr (Some s) else schedule_invalid
     | _ \<Rightarrow> schedule_invalid)"

definition fxProgressShape :: "js \<Rightarrow> fx_progress result" where
  "fxProgressShape value =
     rbind (schedule_record value [''version'', ''calls'', ''receipts'', ''reason'', ''nextReadAt'']) (\<lambda>row.
     rbind (schedule_array (js_get row ''receipts'') 3) (\<lambda>receipts.
     rbind (schedule_integer (js_get row ''calls'') 3) (\<lambda>calls.
     rbind (schedule_integer (js_get row ''nextReadAt'') max_safe_integer) (\<lambda>nextReadAt.
     rbind (schedule_check (js_get row ''version'' = JNum (Num 1))) (\<lambda>_.
     rbind (optional_reason (js_get row ''reason'') read_failures) (\<lambda>reason.
     rbind (schedule_check (int (length receipts) \<le> calls \<and> calls \<le> int (length receipts) + 1)) (\<lambda>_.
     rbind (schedule_check (\<not> (reason = None \<and> (calls \<noteq> int (length receipts) \<or> calls = 0)))) (\<lambda>_.
       Inr \<lparr>fxp_calls = calls, fxp_receipts = receipts, fxp_reason = reason, fxp_nextReadAt = nextReadAt\<rparr>))))))))"

text \<open>One receipt of the loop, with the leg it was asked for.\<close>

definition check_receipt :: "(string \<Rightarrow> string) \<Rightarrow> int \<Rightarrow> fx_context \<Rightarrow> int \<times> int \<Rightarrow> js \<times> string \<Rightarrow> unit result" where
  "check_receipt sha256 now context read = (\<lambda>(value, leg).
     rbind (validateFxLegReceipt sha256 now value context) (\<lambda>receipt.
     rbind (schedule_object value) (\<lambda>row.
       schedule_check (flr_legId receipt = leg \<and> (case safe_integer_of (js_get row ''startedAt'') of Some s \<Rightarrow> s \<ge> fst read | None \<Rightarrow> False)
         \<and> (case safe_integer_of (js_get row ''completedAt'') of Some c \<Rightarrow> c \<le> snd read | None \<Rightarrow> False)))))"

definition validateFxEvidenceProgress ::
    "(string \<Rightarrow> string) \<Rightarrow> int \<Rightarrow> js \<Rightarrow> js \<Rightarrow> js \<Rightarrow> (string \<times> js) list \<Rightarrow> fx_progress result" where
  "validateFxEvidenceProgress sha256 now value requested expected read =
     rbind (check_binding expected expected) (\<lambda>_.
     rbind (readWindow now read) (\<lambda>window.
     rbind (rbind (schedule_object requested) (\<lambda>r. schedule_array (js_get r ''legIds'') 3)) (\<lambda>ids.
     rbind (fxRequest requested (int (length ids))) (\<lambda>legs.
     rbind (fxProgressShape value) (\<lambda>row.
     rbind (schedule_check (fxp_calls row \<le> int (length legs))) (\<lambda>_.
     rbind (schedule_check (if fxp_reason row = None then length (fxp_receipts row) = length legs \<and> fxp_calls row = int (length (fxp_receipts row))
                            else length (fxp_receipts row) \<noteq> length legs)) (\<lambda>_.
     rbind (mapM (check_receipt sha256 now \<lparr>fctx_mode = rb_mode (binding_of expected), fctx_profileHash = rb_executionProfileHash (binding_of expected)\<rparr> window)
              (zip (fxp_receipts row) legs)) (\<lambda>_. Inr row))))))))"

definition modeObservation :: "int \<Rightarrow> js \<Rightarrow> int \<times> int \<Rightarrow> js \<Rightarrow> unit result" where
  "modeObservation now value window expected =
     rbind (schedule_object value) (\<lambda>row.
     rbind (readWindow now row) (\<lambda>(startedAt, completedAt).
       schedule_check (checkpoint_bound row expected \<and> startedAt \<ge> fst window \<and> completedAt \<le> snd window)))"

definition modeEvidence ::
    "int \<Rightarrow> (string \<times> js) list \<Rightarrow> (string \<times> js) list \<Rightarrow> int \<times> int \<Rightarrow> recovery_request \<Rightarrow> js \<Rightarrow> lane_evidence result" where
  "modeEvidence now recovery acquisition window request expected =
     (if js_get recovery ''readAccountMode'' \<noteq> JBool True
      then rbind (schedule_check (js_get acquisition ''accountMode'' = JUndefined)) (\<lambda>_. Inr no_evidence)
      else rbind (schedule_object (js_get acquisition ''accountMode'')) (\<lambda>row.
        rbind (schedule_integer (js_get row ''calls'') 2) (\<lambda>calls.
        let reason = js_get row ''reason''; observation = js_get row ''observation'' in
        rbind (schedule_check (reason = JNull \<or> isStringMember reason [''budget_exhausted'', ''transient'', ''unsupported''])) (\<lambda>_.
        rbind (schedule_check (if observation = JNull then reason \<noteq> JNull else calls = 2 \<and> reason = JNull)) (\<lambda>_.
        rbind (laneGrant request Mode) (\<lambda>granted.
        rbind (schedule_check (\<not> (granted = 0 \<and> (calls \<noteq> 0 \<or> observation \<noteq> JNull \<or> reason \<noteq> JStr ''budget_exhausted'')))) (\<lambda>_.
        rbind (if observation \<noteq> JNull then modeObservation now observation window expected else Inr ()) (\<lambda>_.
          Inr \<lparr>le_calls = calls, le_reasons = [reason], le_cooldown = 0\<rparr>))))))))"

definition checkpointCollection :: "(string \<times> js) list \<Rightarrow> bool \<Rightarrow> js list result" where
  "checkpointCollection acquisition historical =
     (if historical then schedule_array (or_empty (js_get acquisition ''history'')) 1
      else Inr (if js_get acquisition ''accountLogs'' = JUndefined then [] else [js_get acquisition ''accountLogs'']))"

definition checkpointBinding :: "(string \<times> js) list \<Rightarrow> (string \<times> js) list \<Rightarrow> bool \<Rightarrow> js \<Rightarrow> bool" where
  "checkpointBinding previous later historical expected \<longleftrightarrow>
     list_all (\<lambda>field. strict_equal (js_get previous field) (js_get later field))
       (if historical then [''source'', ''providerSymbol'', ''baselineSince''] else [''namespace'', ''filterHash'', ''accountFingerprint'', ''credentialGeneration''])
     \<and> (historical \<or> checkpoint_bound later expected)"

definition skippedLogEvidence :: "(string \<times> js) list \<Rightarrow> (string \<times> js) list \<Rightarrow> lane_evidence result" where
  "skippedLogEvidence progress previous =
     rbind (schedule_check (isStringMember (js_get progress ''readSkipped'') read_failures \<and> safe_integer_of (js_get progress ''calls'') = Some 0)) (\<lambda>_.
     rbind (schedule_array (js_get progress ''receipts'') 0) (\<lambda>_.
     rbind (schedule_check (strict_equal (js_get progress ''baseRevision'') (js_get previous ''revision'')
        \<and> deep_equal (js_get progress ''checkpoint'') (JObj previous))) (\<lambda>_.
       Inr \<lparr>le_calls = 0, le_reasons = [js_get progress ''readSkipped''], le_cooldown = 0\<rparr>)))"

text \<open>The result of a log or history lane against the checkpoint it was asked to continue.\<close>

definition continued_evidence :: "(string \<times> js) list \<Rightarrow> (string \<times> js) list \<Rightarrow> bool \<Rightarrow> js \<Rightarrow> lane_evidence result" where
  "continued_evidence previous progress historical expected =
     rbind (schedule_object (js_get progress ''checkpoint'')) (\<lambda>later.
     rbind (schedule_integer (js_get progress (if historical then ''pages'' else ''calls'')) 5) (\<lambda>calls.
       if \<not> historical \<and> calls = 0 then skippedLogEvidence progress previous
       else rbind (schedule_check (js_get progress ''readSkipped'' = JUndefined)) (\<lambda>_.
         rbind (schedule_integer (js_get progress ''baseRevision'') max_safe_integer) (\<lambda>base.
         rbind (schedule_integer (js_get previous ''revision'') max_safe_integer) (\<lambda>revision.
         rbind (schedule_integer (js_get later ''revision'') max_safe_integer) (\<lambda>new_revision.
         rbind (schedule_check (base = revision \<and> new_revision = base + 1 \<and> checkpointBinding previous later historical expected)) (\<lambda>_.
         rbind (if isStringMember (js_get later ''reason'') [''transient'', ''history_transient'']
                then schedule_integer (js_get later ''nextReadAt'') max_safe_integer else Inr 0) (\<lambda>cooldown.
           Inr \<lparr>le_calls = calls, le_reasons = [js_get later ''reason''], le_cooldown = cooldown\<rparr>))))))))"

definition checkpointEvidence ::
    "(string \<times> js) list \<Rightarrow> (string \<times> js) list \<Rightarrow> bool \<Rightarrow> recovery_request \<Rightarrow> js \<Rightarrow> lane_evidence result" where
  "checkpointEvidence recovery acquisition historical request expected =
     rbind (checkpointCollection acquisition historical) (\<lambda>results.
     rbind (laneGrant request (if historical then History else Logs)) (\<lambda>granted.
     rbind (schedule_check (length results = (if granted > 0 then 1 else 0))) (\<lambda>_.
       case results of
         [] \<Rightarrow> Inr no_evidence
       | res # _ \<Rightarrow>
           rbind (schedule_object (if historical then (case js_get recovery ''history'' of JArr (h # _) \<Rightarrow> h | _ \<Rightarrow> JUndefined) else js_get recovery ''accountLogs'')) (\<lambda>previous.
           rbind (schedule_object res) (\<lambda>progress. continued_evidence previous progress historical expected)))))"

definition check_lane :: "int \<Rightarrow> lane_progress list \<Rightarrow> js \<Rightarrow> lane_progress list result" where
  "check_lane phase seen value =
     rbind (schedule_record value [''lane'', ''calls'', ''reason'']) (\<lambda>row.
     case lane_of (js_get row ''lane'') of
       None \<Rightarrow> schedule_invalid
     | Some lane \<Rightarrow>
         if lane \<in> set (map lpr_lane seen) then schedule_invalid
         else rbind (schedule_integer (js_get row ''calls'') (Max (set (lane_caps lane)))) (\<lambda>calls.
           rbind (optional_reason (js_get row ''reason'') (deferred_reasons @ read_failures)) (\<lambda>reason.
           rbind (schedule_check (\<not> (calls > 0 \<and> ((case reason of Some s \<Rightarrow> s \<in> set deferred_reasons | None \<Rightarrow> False) \<or> lane \<notin> set (phase_lanes phase))))) (\<lambda>_.
             Inr (seen @ [\<lparr>lpr_lane = lane, lpr_calls = calls, lpr_reason = reason\<rparr>])))))"

definition progress_keys :: "string list" where
  "progress_keys = [''version'', ''profile'', ''attemptId'', ''baseRevision'', ''phase'', ''binding'', ''calls'', ''cooldownUntil'', ''lanes'']"

definition progressShape :: "js \<Rightarrow> recovery_progress result" where
  "progressShape value =
     rbind (schedule_record value progress_keys) (\<lambda>row.
     rbind (schedule_array (js_get row ''lanes'') 5) (\<lambda>lanes.
     rbind (schedule_integer (js_get row ''baseRevision'') max_safe_integer) (\<lambda>baseRevision.
     rbind (schedule_integer (js_get row ''phase'') 3) (\<lambda>phase.
     rbind (schedule_integer (js_get row ''calls'') 5) (\<lambda>calls.
     rbind (foldM (check_lane phase) [] lanes) (\<lambda>parsed.
     rbind (schedule_check (length lanes = 5 \<and> (\<Sum>l\<leftarrow>parsed. lpr_calls l) = calls \<and> calls \<le> 5)) (\<lambda>_.
     rbind (check_header row (js_get row ''binding'')) (\<lambda>_.
     rbind (schedule_integer (js_get row ''cooldownUntil'') max_safe_integer) (\<lambda>cooldown.
       Inr \<lparr>rpr_attemptId = string_field row ''attemptId'', rpr_baseRevision = baseRevision, rpr_phase = phase, rpr_binding = js_get row ''binding'',
            rpr_calls = calls, rpr_cooldownUntil = cooldown, rpr_lanes = parsed\<rparr>)))))))))"

definition parse_receipt :: "(string \<Rightarrow> string) \<Rightarrow> int \<Rightarrow> js \<Rightarrow> unit result" where
  "parse_receipt sha256 now value =
     rbind (schedule_object value) (\<lambda>receipt.
     rbind (validateFxLegReceipt sha256 now value
       \<lparr>fctx_mode = string_field receipt ''mode'', fctx_profileHash = string_field receipt ''profileHash''\<rparr>) (\<lambda>_. Inr ()))"

definition parseRecoveryScheduleAcquisitionFields ::
    "(string \<Rightarrow> string) \<Rightarrow> int \<Rightarrow> js \<Rightarrow> js \<Rightarrow> (recovery_progress option \<times> fx_progress option) result" where
  "parseRecoveryScheduleAcquisitionFields sha256 now recoverySchedule fxEvidence =
     (if recoverySchedule = JUndefined
      then rbind (schedule_check (fxEvidence = JUndefined)) (\<lambda>_. Inr (None, None))
      else rbind (progressShape recoverySchedule) (\<lambda>schedule.
        if fxEvidence = JUndefined then Inr (Some schedule, None)
        else rbind (fxProgressShape fxEvidence) (\<lambda>fx.
          rbind (mapM (parse_receipt sha256 now) (fxp_receipts fx)) (\<lambda>_. Inr (Some schedule, Some fx)))))"

definition js_of_fx_request :: "string list \<Rightarrow> js" where
  "js_of_fx_request legs = JObj [(''version'', JNum (Num 1)), (''legIds'', JArr (map JStr legs))]"

definition checked_status :: "js \<Rightarrow> js result" where
  "checked_status row = rbind (schedule_object row) (\<lambda>r. Inr (js_get r ''status''))"

definition acquisitionEvidence ::
    "(string \<Rightarrow> string) \<Rightarrow> int \<Rightarrow> (string \<times> js) list \<Rightarrow> (string \<times> js) list \<Rightarrow> recovery_request \<Rightarrow> string list option \<Rightarrow> js \<Rightarrow>
      ((recovery_lane \<Rightarrow> lane_evidence) \<times> (int \<times> int)) result" where
  "acquisitionEvidence sha256 now recovery acquisition request fx expected =
     rbind (readWindow now acquisition) (\<lambda>window.
     rbind (schedule_array (js_or (js_get acquisition ''checkedOrders'') (JArr [])) 250) (\<lambda>checked.
     rbind (schedule_integer (js_get acquisition ''targetedCalls'') 5) (\<lambda>targeted.
     rbind (mapM checked_status checked) (\<lambda>statuses.
     rbind (modeEvidence now recovery acquisition window request expected) (\<lambda>mode.
     rbind (checkpointEvidence recovery acquisition False request expected) (\<lambda>logs.
     rbind (checkpointEvidence recovery acquisition True request expected) (\<lambda>history.
     rbind (schedule_check ((fx \<noteq> None) = (js_get acquisition ''fxEvidence'' \<noteq> JUndefined))) (\<lambda>_.
     rbind (case fx of
         None \<Rightarrow> Inr no_evidence
       | Some legs \<Rightarrow> rbind (validateFxEvidenceProgress sha256 now (js_get acquisition ''fxEvidence'') (js_of_fx_request legs) expected acquisition) (\<lambda>p.
           Inr \<lparr>le_calls = fxp_calls p, le_reasons = [case fxp_reason p of None \<Rightarrow> JNull | Some s \<Rightarrow> JStr s], le_cooldown = fxp_nextReadAt p\<rparr>)) (\<lambda>fx_evidence.
       Inr ((\<lambda>lane. case lane of Targeted \<Rightarrow> \<lparr>le_calls = targeted, le_reasons = statuses, le_cooldown = 0\<rparr> | Mode \<Rightarrow> mode | Logs \<Rightarrow> logs
              | History \<Rightarrow> history | Fx \<Rightarrow> fx_evidence), window))))))))))"

definition reason_aliases :: "(string \<times> string) list" where
  "reason_aliases = [(''history_transient'', ''transient''), (''source_unsupported'', ''unsupported''), (''history_profile_unsupported'', ''unsupported''),
     (''invalid_source_evidence'', ''invalid_evidence''), (''history_budget_exhausted'', ''budget_exhausted'')]"

definition normal_reason :: "js \<Rightarrow> js" where
  "normal_reason v = (case v of JStr s \<Rightarrow> (case map_of reason_aliases s of None \<Rightarrow> v | Some t \<Rightarrow> JStr t) | _ \<Rightarrow> v)"

definition sourceReason :: "js list \<Rightarrow> string option" where
  "sourceReason reasons = find (\<lambda>r. JStr r \<in> set (map normal_reason reasons)) [''transient'', ''invalid_evidence'', ''unsupported'', ''budget_exhausted'']"

definition responseLane :: "recovery_progress \<Rightarrow> lane_progress \<Rightarrow> recovery_grant \<Rightarrow> lane_evidence \<Rightarrow> int \<times> int \<Rightarrow> int result" where
  "responseLane progress lane grant evidence read =
     rbind (schedule_check (lpr_calls lane \<le> rg_maxCalls grant)) (\<lambda>_.
     rbind (schedule_check (lpr_lane lane = rg_lane grant \<and> lpr_calls lane = le_calls evidence)) (\<lambda>_.
     let reason = sourceReason (le_reasons evidence) in
     rbind (schedule_check
       (if rg_maxCalls grant = 0 then lpr_reason lane = rg_deferredReason grant
        else if lpr_reason lane = Some ''cooldown''
        then \<not> (lpr_calls lane \<noteq> 0 \<or> rpr_cooldownUntil progress \<le> fst read \<or> reason = Some ''transient'')
        else lpr_reason lane = reason)) (\<lambda>_.
     rbind (schedule_check (rpr_cooldownUntil progress \<ge> le_cooldown evidence)) (\<lambda>_. Inr (lpr_calls lane)))))"

definition responseLanes :: "recovery_progress \<Rightarrow> recovery_request \<Rightarrow> (recovery_lane \<Rightarrow> lane_evidence) \<Rightarrow> int \<times> int \<Rightarrow> unit result" where
  "responseLanes row request evidence read =
     rbind (schedule_check (length (rpr_lanes row) = length (rrq_grants request))) (\<lambda>_.
     rbind (mapM (\<lambda>(lane, grant). responseLane row lane grant (evidence (rg_lane grant)) read) (zip (rpr_lanes row) (rrq_grants request))) (\<lambda>calls.
       schedule_check (sum_list calls = rpr_calls row \<and> sum_list calls \<le> 5)))"

text \<open>
  The comparisons with \<^verbatim>\<open>acquisition.completedAt\<close> come before the window is checked; a value that is
  no integer is refused either way.
\<close>

definition progress_matches :: "recovery_progress \<Rightarrow> recovery_request \<Rightarrow> js \<Rightarrow> bool" where
  "progress_matches row request completed = (case safe_integer_of completed of
       None \<Rightarrow> False
     | Some completedAt \<Rightarrow>
         rpr_attemptId row = rrq_attemptId request \<and> rpr_baseRevision row = rrq_revision request \<and> rpr_phase row = rrq_phase request
         \<and> rpr_cooldownUntil row \<ge> rrq_cooldownUntil request
         \<and> \<not> (rrq_cooldownUntil request > completedAt \<and> rpr_calls row \<noteq> 0)
         \<and> rpr_cooldownUntil row \<le> max (rrq_cooldownUntil request) (completedAt + 86400000))"

definition validateRecoveryScheduleProgress ::
    "(string \<Rightarrow> string) \<Rightarrow> int \<Rightarrow> js \<Rightarrow> (string \<times> js) list \<Rightarrow> (string \<times> js) list \<Rightarrow> js \<Rightarrow> recovery_progress option result" where
  "validateRecoveryScheduleProgress sha256 now value recovery acquisition expected =
     rbind (validateRecoveryScheduleInputs (JObj recovery) expected) (\<lambda>inputs.
       case inputs of
         None \<Rightarrow> rbind (schedule_check (value = JUndefined \<and> js_get acquisition ''fxEvidence'' = JUndefined)) (\<lambda>_. Inr None)
       | Some (request, fx) \<Rightarrow>
           rbind (progressShape value) (\<lambda>row.
           rbind (check_binding (rpr_binding row) expected) (\<lambda>_.
           rbind (schedule_check (progress_matches row request (js_get acquisition ''completedAt''))) (\<lambda>_.
           rbind (acquisitionEvidence sha256 now recovery acquisition request fx expected) (\<lambda>(evidence, window).
           rbind (responseLanes row request evidence window) (\<lambda>_. Inr (Some row)))))))"


section \<open>Sizes of texts\<close>

lemma byte_length_simps [simp]:
  "byte_length [] = 0" "byte_length (c # s) = (if (of_char c :: nat) < 128 then 1 else 2) + byte_length s" "byte_length (s @ t) = byte_length s + byte_length t"
  by (simp_all add: byte_length_def)

lemma hex_char_ascii: "n < 16 \<Longrightarrow> (of_char (hex_char n) :: nat) < 128"
  by (auto simp: hex_char_def)

lemma json_char_bytes: "byte_length (json_char c) \<le> 6"
  using hex_char_ascii [of "of_char c div 16"] hex_char_ascii [of "of_char c mod 16"] by (auto simp: json_char_def Let_def)

lemma json_chars_bytes: "byte_length (concat (map json_char s)) \<le> 6 * length s"
proof (induction s)
  case (Cons c s)
  then show ?case using json_char_bytes [of c] by simp
qed simp

lemma json_string_bytes: "byte_length (json_string s) \<le> 2 + 6 * length s"
  using json_chars_bytes [of s] by (simp add: json_string_def)

lemma join_bytes: "byte_length (join_with '','' xs) \<le> (\<Sum>x\<leftarrow>xs. 1 + byte_length x)"
proof (cases xs)
  case (Cons x rest)
  have "byte_length (concat (map ((@) '','') rest)) \<le> (\<Sum>x\<leftarrow>rest. 1 + byte_length x)" by (induction rest) auto
  then show ?thesis using Cons by (simp add: join_with_def)
qed (simp add: join_with_def)

lemma array_bytes: "byte_length (json_text (JArr xs)) \<le> 2 + (\<Sum>x\<leftarrow>xs. 1 + byte_length (json_text x))"
  using join_bytes [of "map json_text xs"] by (simp add: json_array_def o_def)

lemma object_bytes: "byte_length (json_text (JObj ps)) \<le> 2 + (\<Sum>kv\<leftarrow>ps. 4 + 6 * length (fst kv) + byte_length (json_text (snd kv)))"
proof -
  have entry: "1 + byte_length (json_string k @ '':'' @ json_text v) \<le> 4 + 6 * length k + byte_length (json_text v)" for k v
    using json_string_bytes [of k] by simp
  have "(\<Sum>x\<leftarrow>map (\<lambda>kv. json_string (fst kv) @ '':'' @ json_text (snd kv)) (filter (\<lambda>kv. snd kv \<noteq> JUndefined) ps). 1 + byte_length x)
      \<le> (\<Sum>kv\<leftarrow>ps. 4 + 6 * length (fst kv) + byte_length (json_text (snd kv)))"
  proof (induction ps)
    case (Cons kv ps)
    then show ?case using entry [of "fst kv" "snd kv"] by simp
  qed simp
  then show ?thesis using join_bytes [of "map (\<lambda>kv. json_string (fst kv) @ '':'' @ json_text (snd kv)) (filter (\<lambda>kv. snd kv \<noteq> JUndefined) ps)"]
    by simp
qed

lemma digits_bytes: "all_digits s \<Longrightarrow> byte_length s = length s"
proof (induction s)
  case (Cons c s)
  moreover have "(of_char c :: int) = int (of_char c)" by (metis of_nat_of_char)
  ultimately have "(of_char c :: nat) < 128" by (simp add: is_digit_def)
  with Cons show ?case by simp
qed simp

lemma integer_bytes: "0 \<le> n \<Longrightarrow> is_safe_integer n \<Longrightarrow> byte_length (json_text (JNum (Num (of_int n)))) \<le> 16"
  using show_nonneg_length [of n 16] digits_bytes [of "show_nonneg n"] by (simp add: show_int_def is_safe_integer_def max_safe_integer_def)


section \<open>Plans as data\<close>

definition js_int :: "int \<Rightarrow> js" where
  "js_int n = JNum (Num (of_int n))"

definition js_of_binding :: "recovery_binding \<Rightarrow> js" where
  "js_of_binding b = JObj [(''accountId'', JStr (rb_accountId b)), (''accountFingerprint'', JStr (rb_accountFingerprint b)),
     (''credentialGeneration'', JStr (rb_credentialGeneration b)), (''mode'', JStr (rb_mode b)), (''executionProfileHash'', JStr (rb_executionProfileHash b))]"

definition js_of_grant :: "recovery_grant \<Rightarrow> js" where
  "js_of_grant g = JObj [(''lane'', JStr (lane_name (rg_lane g))), (''maxCalls'', js_int (rg_maxCalls g)),
     (''deferredReason'', js_of_string_option (rg_deferredReason g))]"

definition request_row :: "recovery_request \<Rightarrow> (string \<times> js) list" where
  "request_row r = [(''version'', js_int 1), (''profile'', JStr ''bybit-usd-fx-recovery-v1''), (''attemptId'', JStr (rrq_attemptId r)),
     (''revision'', js_int (rrq_revision r)), (''phase'', js_int (rrq_phase r)), (''binding'', js_of_binding (rrq_binding r)),
     (''cooldownUntil'', js_int (rrq_cooldownUntil r)), (''grants'', JArr (map js_of_grant (rrq_grants r)))]"

definition binding_wf :: "recovery_binding \<Rightarrow> bool" where
  "binding_wf b \<longleftrightarrow> account_id_ok (JStr (rb_accountId b)) \<and> hex64 (rb_accountFingerprint b) \<and> hex64 (rb_credentialGeneration b) \<and>
     hex64 (rb_executionProfileHash b) \<and> rb_mode b \<in> {''live'', ''testnet''}"

text \<open>What every grant of a plan satisfies.\<close>

definition grant_wf :: "int \<Rightarrow> recovery_grant \<Rightarrow> bool" where
  "grant_wf phase g \<longleftrightarrow> rg_maxCalls g \<in> set (lane_caps (rg_lane g)) \<and>
     (if rg_maxCalls g > 0 then rg_lane g \<in> set (phase_lanes phase) \<and> rg_deferredReason g = None
      else \<exists>r. rg_deferredReason g = Some r \<and> r \<in> set deferred_reasons)"

definition request_wf :: "recovery_request \<Rightarrow> bool" where
  "request_wf r \<longleftrightarrow> uuid_pattern (rrq_attemptId r) \<and> 0 \<le> rrq_revision r \<and> is_safe_integer (rrq_revision r) \<and> 0 \<le> rrq_phase r \<and> rrq_phase r \<le> 3 \<and>
     binding_wf (rrq_binding r) \<and> 0 \<le> rrq_cooldownUntil r \<and> is_safe_integer (rrq_cooldownUntil r) \<and>
     length (rrq_grants r) = 5 \<and> distinct (map rg_lane (rrq_grants r)) \<and> list_all (grant_wf (rrq_phase r)) (rrq_grants r) \<and> total_calls (rrq_grants r) \<le> 5"

lemma js_int_simps [simp]:
  "js_int n \<noteq> JUndefined" "safe_integer_of (js_int n) = (if is_safe_integer n then Some n else None)"
  "js_int 1 = JNum (Num 1)"
  by (simp_all add: js_int_def)

lemma schedule_int: "0 \<le> n \<Longrightarrow> n \<le> maximum \<Longrightarrow> maximum \<le> max_safe_integer \<Longrightarrow> schedule_integer (js_int n) maximum = Inr n"
  by (simp add: schedule_integer_def is_safe_integer_def)

lemma lane_of_name [simp]: "lane_of (JStr (lane_name lane)) = Some lane"
  by (cases lane) (simp_all add: lane_of_def lane_name_def lane_names_def)

lemma record_keys: "map fst props = ks \<Longrightarrow> schedule_record (JObj props) ks = Inr props"
  by (simp add: schedule_record_def schedule_object_def schedule_check_def)

lemma check_binding_ok:
  assumes "binding_wf b"
  shows "check_binding (js_of_binding b) (js_of_binding b) = Inr ()"
proof -
  have "schedule_record (js_of_binding b) binding_keys = Inr (case js_of_binding b of JObj ps \<Rightarrow> ps)"
    unfolding js_of_binding_def js.case by (rule record_keys) (simp add: binding_keys_def)
  then show ?thesis
    using assms by (auto simp: check_binding_def js_of_binding_def binding_wf_def hash_field_ok_def isStringMember_def list_all_iff)
qed

lemma check_grant_ok:
  assumes "grant_wf phase g" "rg_lane g \<notin> set (map rg_lane seen)"
  shows "check_grant phase seen (js_of_grant g) = Inr (seen @ [g])"
proof -
  have range: "0 \<le> rg_maxCalls g" "rg_maxCalls g \<le> 5" using assms(1) by (auto simp: grant_wf_def lane_caps_def split: recovery_lane.splits)
  have rec: "schedule_record (js_of_grant g) [''lane'', ''maxCalls'', ''deferredReason''] = Inr (case js_of_grant g of JObj ps \<Rightarrow> ps)"
    unfolding js_of_grant_def js.case by (rule record_keys) simp
  have reason: "grant_reason (js_of_string_option (rg_deferredReason g)) (rg_maxCalls g) = Inr (rg_deferredReason g)"
    using assms(1) range by (auto simp: grant_wf_def grant_reason_def js_of_string_option_def split: if_splits)
  have caps: "rg_maxCalls g \<in> set (lane_caps (rg_lane g))" "rg_maxCalls g > 0 \<Longrightarrow> rg_lane g \<in> set (phase_lanes phase)"
    using assms(1) by (auto simp: grant_wf_def split: if_splits)
  have int: "schedule_integer (js_int (rg_maxCalls g)) 5 = Inr (rg_maxCalls g)" using range by (intro schedule_int) (simp_all add: max_safe_integer_def)
  show ?thesis unfolding check_grant_def rec rbind.simps using assms(2) caps int reason by (auto simp: js_of_grant_def)
qed

lemma check_grants_fold:
  "list_all (grant_wf phase) gs \<Longrightarrow> distinct (map rg_lane (seen @ gs)) \<Longrightarrow> foldM (check_grant phase) seen (map js_of_grant gs) = Inr (seen @ gs)"
proof (induction gs arbitrary: seen)
  case (Cons g gs)
  then show ?case using check_grant_ok [of phase g seen] Cons.IH [of "seen @ [g]"] by auto
qed simp

lemma check_grants_ok:
  "request_wf r \<Longrightarrow> check_grants (JArr (map js_of_grant (rrq_grants r))) (rrq_phase r) = Inr (rrq_grants r)"
  using check_grants_fold [of "rrq_phase r" "rrq_grants r" "[]"]
  by (simp add: request_wf_def check_grants_def schedule_array_def schedule_check_def)

lemma string_bytes: "length s \<le> n \<Longrightarrow> byte_length (json_text (JStr s)) \<le> 2 + 6 * n"
  using json_string_bytes [of s] by simp

lemma grant_bytes:
  assumes "grant_wf phase g"
  shows "byte_length (json_text (js_of_grant g)) \<le> 400"
proof -
  have n: "length (lane_name (rg_lane g)) \<le> 8" by (simp add: lane_name_def split: recovery_lane.splits)
  have c: "0 \<le> rg_maxCalls g" "is_safe_integer (rg_maxCalls g)"
    using assms by (auto simp: grant_wf_def lane_caps_def is_safe_integer_def max_safe_integer_def split: recovery_lane.splits)
  have "\<forall>r. rg_deferredReason g = Some r \<longrightarrow> length r \<le> 14" using assms by (auto simp: grant_wf_def deferred_reasons_def split: if_splits)
  then have r: "byte_length (json_text (js_of_string_option (rg_deferredReason g))) \<le> 86"
    using string_bytes [of _ 14] by (auto simp: js_of_string_option_def split: option.splits)
  show ?thesis
    using object_bytes [of "[(''lane'', JStr (lane_name (rg_lane g))), (''maxCalls'', js_int (rg_maxCalls g)), (''deferredReason'', js_of_string_option (rg_deferredReason g))]"]
      string_bytes [OF n] integer_bytes [OF c] r by (simp add: js_of_grant_def js_int_def del: json_text.simps)
qed

lemma binding_bytes:
  assumes "binding_wf b"
  shows "byte_length (json_text (js_of_binding b)) \<le> 3200"
proof -
  have l: "length (rb_accountId b) \<le> 256" "length (rb_accountFingerprint b) \<le> 64" "length (rb_credentialGeneration b) \<le> 64"
    "length (rb_executionProfileHash b) \<le> 64" "length (rb_mode b) \<le> 7"
    using assms by (auto simp: binding_wf_def account_id_ok_def hex64_def)
  show ?thesis
    unfolding js_of_binding_def
    using object_bytes [of "[(''accountId'', JStr (rb_accountId b)), (''accountFingerprint'', JStr (rb_accountFingerprint b)),
       (''credentialGeneration'', JStr (rb_credentialGeneration b)), (''mode'', JStr (rb_mode b)), (''executionProfileHash'', JStr (rb_executionProfileHash b))]"]
      l [THEN string_bytes] by (simp del: json_text.simps)
qed

lemma request_bytes:
  assumes "request_wf r"
  shows "byte_length (json_text (JObj (request_row r))) < 8192"
proof -
  have ints: "0 \<le> rrq_revision r" "is_safe_integer (rrq_revision r)" "0 \<le> rrq_phase r" "is_safe_integer (rrq_phase r)"
    "0 \<le> rrq_cooldownUntil r" "is_safe_integer (rrq_cooldownUntil r)"
    using assms by (auto simp: request_wf_def is_safe_integer_def max_safe_integer_def)
  have one: "byte_length (json_text (js_int 1)) \<le> 16" using integer_bytes [of 1] by (simp add: js_int_def is_safe_integer_def max_safe_integer_def)
  have a: "length (rrq_attemptId r) \<le> 36" using assms by (simp add: request_wf_def uuid_pattern_def)
  have p: "byte_length (json_text (JStr ''bybit-usd-fx-recovery-v1'')) \<le> 2 + 6 * 24" by (rule string_bytes) simp
  have "(\<Sum>x\<leftarrow>map js_of_grant (rrq_grants r). 1 + byte_length (json_text x)) \<le> (\<Sum>x\<leftarrow>rrq_grants r. 401)"
    unfolding map_map o_def using assms grant_bytes [of "rrq_phase r"] by (intro sum_list_mono) (auto simp: request_wf_def list_all_iff)
  also have "\<dots> = 2005" using assms by (simp add: request_wf_def sum_list_triv)
  finally have g: "byte_length (json_text (JArr (map js_of_grant (rrq_grants r)))) \<le> 2007" using array_bytes [of "map js_of_grant (rrq_grants r)"] by linarith
  have b: "byte_length (json_text (js_of_binding (rrq_binding r))) \<le> 3200" using assms by (intro binding_bytes) (simp add: request_wf_def)
  show ?thesis
    using object_bytes [of "request_row r"] string_bytes [OF a] p one g b integer_bytes [OF ints(1,2)] integer_bytes [OF ints(3,4)] integer_bytes [OF ints(5,6)]
    by (simp add: request_row_def js_int_def del: json_text.simps js_int_simps)
qed

lemma request_accepted:
  assumes "request_wf r"
  shows "validateRecoveryScheduleRequest (JObj (request_row r)) (js_of_binding (rrq_binding r)) = Inr r"
proof -
  have rec: "schedule_record (JObj (request_row r)) request_keys = Inr (request_row r)"
    by (rule record_keys) (simp add: request_row_def request_keys_def)
  have ints: "schedule_integer (js_int (rrq_revision r)) max_safe_integer = Inr (rrq_revision r)" "schedule_integer (js_int (rrq_phase r)) 3 = Inr (rrq_phase r)"
    "schedule_integer (js_int (rrq_cooldownUntil r)) max_safe_integer = Inr (rrq_cooldownUntil r)"
    using assms by (auto simp: request_wf_def is_safe_integer_def max_safe_integer_def intro!: schedule_int)
  have b: "check_binding (js_of_binding (rrq_binding r)) (js_of_binding (rrq_binding r)) = Inr ()"
    using assms by (intro check_binding_ok) (simp add: request_wf_def)
  have get: "js_get (request_row r) ''version'' = JNum (Num 1)" "js_get (request_row r) ''profile'' = JStr ''bybit-usd-fx-recovery-v1''"
    "js_get (request_row r) ''attemptId'' = JStr (rrq_attemptId r)" "js_get (request_row r) ''revision'' = js_int (rrq_revision r)"
    "js_get (request_row r) ''phase'' = js_int (rrq_phase r)" "js_get (request_row r) ''binding'' = js_of_binding (rrq_binding r)"
    "js_get (request_row r) ''cooldownUntil'' = js_int (rrq_cooldownUntil r)" "js_get (request_row r) ''grants'' = JArr (map js_of_grant (rrq_grants r))"
    by (simp_all add: request_row_def)
  have accepted: "check_header (request_row r) (js_of_binding (rrq_binding r)) = Inr ()"
    using assms request_bytes [OF assms] by (simp add: check_header_def get ints b request_wf_def schedule_check_def del: json_text.simps)
  have again: "binding_of (js_of_binding (rrq_binding r)) = rrq_binding r" by (simp add: binding_of_def js_of_binding_def string_field_def)
  show ?thesis
    by (simp add: validateRecoveryScheduleRequest_def rec get ints check_grants_ok [OF assms] accepted again string_field_def)
qed


section \<open>Every plan is a valid request\<close>

lemma lane_order: "distinct (laneOrder state)" "set (laneOrder state) = {Fx, Targeted, History, Logs, Mode}" "length (laneOrder state) = 5"
  by (auto simp: laneOrder_def)

lemma grant_lane [simp]: "map rg_lane (laneGrants state caps needed query now deferred) = laneOrder state"
  by (simp add: laneGrants_def Let_def o_def)

definition lane_reason :: "recovery_query \<Rightarrow> schedule_state \<Rightarrow> int \<Rightarrow> bool \<Rightarrow> recovery_lane \<Rightarrow> string option" where
  "lane_reason query state now busy lane = (case scheduleDeferredReason state now busy of
       Some r \<Rightarrow> Some r
     | None \<Rightarrow> laneDeferredReason lane (maximums (ss_phase state) lane) (neededLanes query (nextHistory query (ss_history_after state) now) lane) query now)"

definition lane_calls :: "recovery_query \<Rightarrow> schedule_state \<Rightarrow> int \<Rightarrow> bool \<Rightarrow> recovery_lane \<Rightarrow> int" where
  "lane_calls query state now busy lane = (if lane_reason query state now busy lane = None then maximums (ss_phase state) lane else 0)"

definition plan_grants :: "recovery_query \<Rightarrow> schedule_state \<Rightarrow> int \<Rightarrow> bool \<Rightarrow> recovery_grant list" where
  "plan_grants query state now busy = laneGrants state (maximums (ss_phase state)) (neededLanes query (nextHistory query (ss_history_after state) now))
     query now (scheduleDeferredReason state now busy)"

lemma plan_grants_eq: "plan_grants query state now busy = map (\<lambda>lane. \<lparr>rg_lane = lane, rg_maxCalls = lane_calls query state now busy lane,
    rg_deferredReason = lane_reason query state now busy lane\<rparr>) (laneOrder state)"
  by (simp add: plan_grants_def laneGrants_def Let_def lane_calls_def lane_reason_def)

lemma reason_deferred: "lane_reason query state now busy lane = Some r \<Longrightarrow> r \<in> set deferred_reasons"
  by (auto simp: lane_reason_def scheduleDeferredReason_def laneDeferredReason_def logsDeferredReason_def deferred_reasons_def split: option.splits if_splits)

lemma maximums_caps: "maximums phase lane \<in> set (lane_caps lane)" "0 \<le> maximums phase lane" "maximums phase lane > 0 \<Longrightarrow> lane \<in> set (phase_lanes phase)"
  by (auto simp: maximums_def lane_caps_def phase_lanes_def split: recovery_lane.splits if_splits)

lemma calls_bounds: "0 \<le> lane_calls query state now busy lane" "lane_calls query state now busy lane \<le> maximums (ss_phase state) lane"
  "lane_calls query state now busy lane > 0 \<longleftrightarrow> lane_reason query state now busy lane = None"
proof -
  have "maximums (ss_phase state) lane \<noteq> 0" if "lane_reason query state now busy lane = None"
    using that by (auto simp: lane_reason_def laneDeferredReason_def split: option.splits if_splits)
  then show "0 \<le> lane_calls query state now busy lane" "lane_calls query state now busy lane \<le> maximums (ss_phase state) lane"
    "lane_calls query state now busy lane > 0 \<longleftrightarrow> lane_reason query state now busy lane = None"
    using maximums_caps(2) [of "ss_phase state" lane] unfolding lane_calls_def by (simp_all add: less_le)
qed

lemma zero_cap: "0 \<in> set (lane_caps lane)"
  by (cases lane) (simp_all add: lane_caps_def)

lemma plan_grant_wf:
  assumes "g \<in> set (plan_grants query state now busy)"
  shows "grant_wf (ss_phase state) g"
proof -
  obtain lane where g: "g = \<lparr>rg_lane = lane, rg_maxCalls = lane_calls query state now busy lane, rg_deferredReason = lane_reason query state now busy lane\<rparr>"
    using assms by (auto simp: plan_grants_eq)
  note calls = calls_bounds [of query state now busy lane]
  show ?thesis
  proof (cases "lane_reason query state now busy lane")
    case None
    then have "lane_calls query state now busy lane = maximums (ss_phase state) lane" by (simp add: lane_calls_def)
    then show ?thesis using None calls(3) maximums_caps(1,3) by (simp add: g grant_wf_def)
  next
    case (Some r)
    then have "lane_calls query state now busy lane = 0" by (simp add: lane_calls_def)
    then show ?thesis using Some reason_deferred [OF Some] zero_cap by (simp add: g grant_wf_def)
  qed
qed

lemma plan_total: "total_calls (plan_grants query state now busy) \<le> 5"
proof -
  have "total_calls (plan_grants query state now busy) = (\<Sum>l\<leftarrow>laneOrder state. lane_calls query state now busy l)"
    by (simp add: total_calls_def plan_grants_eq o_def)
  also have "\<dots> \<le> (\<Sum>l\<leftarrow>laneOrder state. maximums (ss_phase state) l)" by (intro sum_list_mono calls_bounds)
  also have "\<dots> \<le> 5" by (simp add: laneOrder_def maximums_def)
  finally show ?thesis .
qed

lemma plan_grant_of:
  assumes "rrq_grants request = plan_grants query state now busy"
  shows "laneGrant request lane = Inr (lane_calls query state now busy lane)" "has_grant (rrq_grants request) lane \<longleftrightarrow> lane_calls query state now busy lane > 0"
proof -
  have "find (\<lambda>g. rg_lane g = lane) (map (\<lambda>l. \<lparr>rg_lane = l, rg_maxCalls = f l, rg_deferredReason = h l\<rparr>) ls) =
      (if lane \<in> set ls then Some \<lparr>rg_lane = lane, rg_maxCalls = f lane, rg_deferredReason = h lane\<rparr> else None)" for f h ls
    by (induction ls) auto
  moreover have "lane \<in> set (laneOrder state)" unfolding lane_order(2) by (cases lane) auto
  ultimately show "laneGrant request lane = Inr (lane_calls query state now busy lane)" "has_grant (rrq_grants request) lane \<longleftrightarrow> lane_calls query state now busy lane > 0"
    unfolding laneGrant_def has_grant_def assms plan_grants_eq by (auto simp: list_ex_iff)
qed

lemma needed_when_granted:
  assumes "lane_calls query state now busy lane > 0"
  shows "neededLanes query (nextHistory query (ss_history_after state) now) lane"
  using assms calls_bounds(3) [of query state now busy lane]
  by (auto simp: lane_reason_def laneDeferredReason_def split: option.splits if_splits)

definition js_of_coverage :: "history_coverage option \<Rightarrow> js" where
  "js_of_coverage c = (case c of None \<Rightarrow> JNull | Some v \<Rightarrow> JObj [(''version'', js_int 1), (''profile'', JStr (hc_profile v)),
     (''since'', js_int (hc_since v)), (''through'', js_int (hc_through v))])"

definition js_of_history :: "history_checkpoint \<Rightarrow> js" where
  "js_of_history row = JObj [(''coverage'', js_of_coverage (hk_coverage row)), (''source'', JStr (hk_source row)),
     (''providerSymbol'', js_of_string_option (hk_providerSymbol row)), (''revision'', js_int (hk_revision row)), (''baselineSince'', js_int (hk_baselineSince row)),
     (''windowSince'', js_int (hk_windowSince row)), (''cursor'', js_of_string_option (hk_cursor row)), (''nextReadAt'', js_int (hk_nextReadAt row)),
     (''completeness'', JStr (hk_completeness row)), (''reason'', js_of_string_option (hk_reason row))]"

definition scheduled_row :: "scheduled_query \<Rightarrow> (string \<times> js) list" where
  "scheduled_row q = [(''since'', js_int (sq_since q)), (''orders'', JArr (sq_orders q)),
     (''readAccountMode'', case sq_readAccountMode q of None \<Rightarrow> JUndefined | Some b \<Rightarrow> JBool b),
     (''accountLogs'', case sq_accountLogs q of None \<Rightarrow> JUndefined | Some logs \<Rightarrow> JObj logs),
     (''history'', JArr (map js_of_history (sq_history q))),
     (''fxEvidence'', case sq_fxEvidence q of None \<Rightarrow> JUndefined | Some legs \<Rightarrow> js_of_fx_request legs),
     (''recoverySchedule'', JObj (request_row (sq_recoverySchedule q)))]"

text \<open>What the caller guarantees: a valid binding, attempt and stored state, and logs of the same account.\<close>

definition plan_input_ok :: "recovery_query \<Rightarrow> recovery_binding \<Rightarrow> schedule_state \<Rightarrow> string \<Rightarrow> bool" where
  "plan_input_ok query b state attemptId \<longleftrightarrow> binding_wf b \<and> uuid_pattern attemptId \<and> 0 \<le> ss_revision state \<and> is_safe_integer (ss_revision state) \<and>
     0 \<le> ss_phase state \<and> ss_phase state \<le> 3 \<and> 0 \<le> ss_cooldown_until state \<and> is_safe_integer (ss_cooldown_until state) \<and>
     0 \<le> ss_fx_rotation state \<and> ss_fx_rotation state < 4 \<and>
     (case rq_accountLogs query of None \<Rightarrow> True | Some logs \<Rightarrow> checkpoint_bound logs (js_of_binding b))"

lemma rotation_legs:
  assumes "0 \<le> n" "n < 4"
  obtains legs where "rotationLegs n = Inr legs" "length legs = 3" "distinct legs" "set legs \<subseteq> set recovery_legs"
proof -
  have "n \<in> {0, 1, 2, 3}" using assms by auto
  then have "distinct (leg_rotations ! nat n) \<and> length (leg_rotations ! nat n) = 3 \<and> set (leg_rotations ! nat n) \<subseteq> set recovery_legs"
    by (auto simp: leg_rotations_def recovery_legs_def)
  then show thesis using that assms by (simp add: rotationLegs_def)
qed

lemma schedule_parts:
  assumes "plan_input_ok query b state attemptId"
  obtains q where "planScheduledRecovery query b state attemptId now busy = Inr q"
    "sq_recoverySchedule q = \<lparr>rrq_attemptId = attemptId, rrq_revision = ss_revision state, rrq_phase = ss_phase state, rrq_binding = b,
       rrq_cooldownUntil = ss_cooldown_until state, rrq_grants = plan_grants query state now busy\<rparr>"
    "sq_readAccountMode q = (if rq_readAccountMode query = Some True then Some True else None)"
    "sq_accountLogs q = (if lane_calls query state now busy Logs > 0 then rq_accountLogs query else None)"
    "length (sq_history q) = (if lane_calls query state now busy History > 0 then 1 else 0)"
    "case sq_fxEvidence q of None \<Rightarrow> lane_calls query state now busy Fx = 0
       | Some legs \<Rightarrow> lane_calls query state now busy Fx > 0 \<and> length legs = 3 \<and> distinct legs \<and> set legs \<subseteq> set recovery_legs"
proof -
  define request where "request = \<lparr>rrq_attemptId = attemptId, rrq_revision = ss_revision state, rrq_phase = ss_phase state, rrq_binding = b,
    rrq_cooldownUntil = ss_cooldown_until state, rrq_grants = plan_grants query state now busy\<rparr>"
  define calls where "calls = lane_calls query state now busy"
  have has: "has_grant (plan_grants query state now busy) lane \<longleftrightarrow> calls lane > 0" for lane
    using plan_grant_of(2) [of request query state now busy lane] by (simp add: request_def calls_def)
  have needed: "calls lane > 0 \<Longrightarrow> neededLanes query (nextHistory query (ss_history_after state) now) lane" for lane
    unfolding calls_def by (rule needed_when_granted)
  have fold: "laneGrants state (maximums (ss_phase state)) (neededLanes query (nextHistory query (ss_history_after state) now)) query now
      (scheduleDeferredReason state now busy) = plan_grants query state now busy" by (simp add: plan_grants_def)
  have logs: "grantedLogs query (calls Logs > 0) = Inr (if calls Logs > 0 then rq_accountLogs query else None)"
    using needed [of Logs] by (auto simp: grantedLogs_def requiredAccountLogs_def neededLanes_def)
  have hist: "calls History > 0 \<Longrightarrow> nextHistory query (ss_history_after state) now \<noteq> None" using needed [of History] by (simp add: neededLanes_def)
  obtain legs where legs: "rotationLegs (ss_fx_rotation state) = Inr legs" "length legs = 3" "distinct legs" "set legs \<subseteq> set recovery_legs"
    using assms by (auto simp: plan_input_ok_def elim!: rotation_legs)
  define q where "q = \<lparr>sq_since = rq_since query, sq_orders = rq_orders query,
     sq_readAccountMode = (if rq_readAccountMode query = Some True then Some True else None), sq_accountLogs = (if calls Logs > 0 then rq_accountLogs query else None),
     sq_history = (case nextHistory query (ss_history_after state) now of Some row \<Rightarrow> if calls History > 0 then [row] else [] | None \<Rightarrow> []),
     sq_fxEvidence = (if calls Fx > 0 then Some legs else None), sq_recoverySchedule = request\<rparr>"
  have plan: "planScheduledRecovery query b state attemptId now busy = Inr q"
    unfolding planScheduledRecovery_def Let_def fold has logs rbind.simps by (simp add: grantedFx_def legs(1) q_def request_def)
  have zero: "calls Fx = 0" if "\<not> calls Fx > 0" using that calls_bounds(1) [of query state now busy Fx] by (simp add: calls_def)
  have parts: "sq_recoverySchedule q = request" "sq_readAccountMode q = (if rq_readAccountMode query = Some True then Some True else None)"
    "sq_accountLogs q = (if calls Logs > 0 then rq_accountLogs query else None)" by (simp_all add: q_def)
  have h: "length (sq_history q) = (if calls History > 0 then 1 else 0)" using hist by (cases "nextHistory query (ss_history_after state) now") (auto simp: q_def)
  have f: "case sq_fxEvidence q of None \<Rightarrow> calls Fx = 0
       | Some legs \<Rightarrow> calls Fx > 0 \<and> length legs = 3 \<and> distinct legs \<and> set legs \<subseteq> set recovery_legs"
    using zero legs(2-4) by (cases "calls Fx > 0") (simp_all add: q_def)
  show thesis by (rule that [OF plan parts(1) [unfolded request_def] parts(2) parts(3) [unfolded calls_def] h [unfolded calls_def] f [unfolded calls_def]])
qed

lemma plan_request_wf:
  assumes "plan_input_ok query b state attemptId"
  shows "request_wf \<lparr>rrq_attemptId = attemptId, rrq_revision = ss_revision state, rrq_phase = ss_phase state, rrq_binding = b,
       rrq_cooldownUntil = ss_cooldown_until state, rrq_grants = plan_grants query state now busy\<rparr>"
proof -
  have "map rg_lane (plan_grants query state now busy) = laneOrder state" by (simp add: plan_grants_def)
  moreover from this have "length (plan_grants query state now busy) = 5" using lane_order(3) length_map by metis
  ultimately show ?thesis
    using assms plan_grant_wf plan_total lane_order(1) by (auto simp: plan_input_ok_def request_wf_def list_all_iff)
qed

lemma fx_request_ok:
  assumes "length legs = 3" "distinct legs" "set legs \<subseteq> set recovery_legs"
  shows "fxRequest (js_of_fx_request legs) 3 = Inr legs"
proof -
  have rec: "schedule_record (js_of_fx_request legs) [''version'', ''legIds''] = Inr [(''version'', JNum (Num 1)), (''legIds'', JArr (map JStr legs))]"
    unfolding js_of_fx_request_def by (rule record_keys) simp
  have "distinct (map JStr legs)" using assms(2) by (simp add: distinct_map inj_on_def)
  moreover have "list_all (\<lambda>leg. isStringMember leg recovery_legs) (map JStr legs)" using assms(3) by (auto simp: list_all_iff isStringMember_def)
  moreover have "js_strings (map JStr legs) = legs" by (simp add: js_strings_def o_def)
  moreover have "legs \<noteq> []" using assms(1) by auto
  ultimately show ?thesis using assms(1) by (simp add: fxRequest_def rec schedule_array_def schedule_check_def)
qed

lemma plan_accepted:
  assumes "plan_input_ok query b state attemptId" "planScheduledRecovery query b state attemptId now busy = Inr q"
  shows "validateRecoveryScheduleInputs (JObj (scheduled_row q)) (js_of_binding b) = Inr (Some (sq_recoverySchedule q, sq_fxEvidence q))"
proof -
  define calls where "calls = lane_calls query state now busy"
  obtain q' where q': "planScheduledRecovery query b state attemptId now busy = Inr q'"
    "sq_recoverySchedule q' = \<lparr>rrq_attemptId = attemptId, rrq_revision = ss_revision state, rrq_phase = ss_phase state, rrq_binding = b,
       rrq_cooldownUntil = ss_cooldown_until state, rrq_grants = plan_grants query state now busy\<rparr>"
    "sq_readAccountMode q' = (if rq_readAccountMode query = Some True then Some True else None)"
    "sq_accountLogs q' = (if calls Logs > 0 then rq_accountLogs query else None)"
    "length (sq_history q') = (if calls History > 0 then 1 else 0)"
    "case sq_fxEvidence q' of None \<Rightarrow> calls Fx = 0
       | Some legs \<Rightarrow> calls Fx > 0 \<and> length legs = 3 \<and> distinct legs \<and> set legs \<subseteq> set recovery_legs"
    using assms(1) unfolding calls_def by (rule schedule_parts [where now = now and busy = busy]) blast
  then have [simp]: "q' = q" using assms(2) by simp
  define r where "r = sq_recoverySchedule q"
  note q = q' [unfolded \<open>q' = q\<close>, folded r_def]
  have wf: "request_wf r" unfolding q(2) using assms(1) by (rule plan_request_wf)
  have valid: "validateRecoveryScheduleRequest (JObj (request_row r)) (js_of_binding b) = Inr r"
    using request_accepted [OF wf] q(2) by simp
  have grant: "laneGrant r lane = Inr (calls lane)" for lane unfolding calls_def by (rule plan_grant_of) (simp add: q(2))
  have needed: "calls lane > 0 \<Longrightarrow> neededLanes query (nextHistory query (ss_history_after state) now) lane" for lane
    unfolding calls_def by (rule needed_when_granted)
  have get: "js_get (scheduled_row q) ''recoverySchedule'' = JObj (request_row r)" "js_get (scheduled_row q) ''history'' = JArr (map js_of_history (sq_history q))"
    "js_get (scheduled_row q) ''readAccountMode'' = (case sq_readAccountMode q of None \<Rightarrow> JUndefined | Some b \<Rightarrow> JBool b)"
    "js_get (scheduled_row q) ''accountLogs'' = (case sq_accountLogs q of None \<Rightarrow> JUndefined | Some logs \<Rightarrow> JObj logs)"
    "js_get (scheduled_row q) ''fxEvidence'' = (case sq_fxEvidence q of None \<Rightarrow> JUndefined | Some legs \<Rightarrow> js_of_fx_request legs)"
    by (simp_all add: scheduled_row_def r_def)
  have mode: "calls Mode > 0 \<Longrightarrow> rq_readAccountMode query = Some True" using needed [of Mode] by (simp add: neededLanes_def)
  have logs: "(calls Logs > 0) = (sq_accountLogs q \<noteq> None)" "sq_accountLogs q = Some l \<Longrightarrow> checkpoint_bound l (js_of_binding b)" for l
    using needed [of Logs] assms(1) q(4) by (auto simp: neededLanes_def plan_input_ok_def split: if_splits)
  have presence: "requestedSourcePresence (scheduled_row q) r (js_of_binding b) = Inr ()"
  proof -
    have m: "case js_get (scheduled_row q) ''readAccountMode'' of JUndefined \<Rightarrow> True | JBool _ \<Rightarrow> True | _ \<Rightarrow> False"
      "\<not> (calls Mode > 0 \<and> js_get (scheduled_row q) ''readAccountMode'' \<noteq> JBool True)"
      using mode by (auto simp: get q(3))
    have l: "(calls Logs > 0) = (js_get (scheduled_row q) ''accountLogs'' \<noteq> JUndefined)" using logs(1) by (simp add: get split: option.splits)
    have b: "(if js_get (scheduled_row q) ''accountLogs'' = JUndefined then Inr ()
        else rbind (schedule_object (js_get (scheduled_row q) ''accountLogs'')) (\<lambda>checkpoint. schedule_check (checkpoint_bound checkpoint (js_of_binding b)))) = Inr ()"
      using logs(2) by (simp add: get schedule_object_def schedule_check_def split: option.splits)
    have h: "schedule_array (or_empty (js_get (scheduled_row q) ''history'')) 1 = Inr (map js_of_history (sq_history q))"
      using q(5) by (simp add: get or_empty_def schedule_array_def)
    show ?thesis
      unfolding requestedSourcePresence_def grant rbind.simps b h using m l q(5)
      by (cases "sq_history q") (simp_all add: schedule_check_def schedule_object_def js_of_history_def)
  qed
  have three: "calls Fx > 0 \<Longrightarrow> calls Fx = 3"
    using calls_bounds(3) [of query state now busy Fx] maximums_caps(3) [of "ss_phase state" Fx]
    by (auto simp: calls_def lane_calls_def maximums_def split: if_splits)
  have fx: "(calls Fx > 0) = (sq_fxEvidence q \<noteq> None)" "sq_fxEvidence q = Some legs \<Longrightarrow> fxRequest (js_of_fx_request legs) (calls Fx) = Inr legs" for legs
    using q(6) three fx_request_ok by (auto split: option.splits)
  have defined: "js_of_fx_request legs \<noteq> JUndefined" for legs by (simp add: js_of_fx_request_def)
  show ?thesis
  proof (cases "sq_fxEvidence q")
    case None
    then have "calls Fx = 0" using q(6) by simp
    then show ?thesis
      unfolding validateRecoveryScheduleInputs_def schedule_object_def js.case rbind.simps get valid
      by (simp add: valid presence grant None schedule_check_def r_def [symmetric])
  next
    case (Some legs)
    then have "calls Fx > 0" "fxRequest (js_of_fx_request legs) (calls Fx) = Inr legs" using fx by auto
    then show ?thesis
      unfolding validateRecoveryScheduleInputs_def schedule_object_def js.case rbind.simps get valid
      using defined by (simp add: valid presence grant Some schedule_check_def r_def [symmetric])
  qed
qed


section \<open>Accepted progress\<close>

lemma schedule_integer_Inr: "schedule_integer v m = Inr n \<Longrightarrow> 0 \<le> n \<and> n \<le> m"
  by (auto simp: schedule_integer_def schedule_invalid_def split: option.splits if_splits)

lemma check_lane_calls:
  assumes "check_lane phase seen value = Inr seen'" "\<forall>l\<in>set seen. 0 \<le> lpr_calls l"
  shows "\<forall>l\<in>set seen'. 0 \<le> lpr_calls l"
proof -
  obtain row where row: "(case lane_of (js_get row ''lane'') of
       None \<Rightarrow> schedule_invalid
     | Some lane \<Rightarrow>
         if lane \<in> set (map lpr_lane seen) then schedule_invalid
         else rbind (schedule_integer (js_get row ''calls'') (Max (set (lane_caps lane)))) (\<lambda>calls.
           rbind (optional_reason (js_get row ''reason'') (deferred_reasons @ read_failures)) (\<lambda>reason.
           rbind (schedule_check (\<not> (calls > 0 \<and> ((case reason of Some s \<Rightarrow> s \<in> set deferred_reasons | None \<Rightarrow> False) \<or> lane \<notin> set (phase_lanes phase))))) (\<lambda>_.
             Inr (seen @ [\<lparr>lpr_lane = lane, lpr_calls = calls, lpr_reason = reason\<rparr>]))))) = Inr seen'"
    using assms(1) unfolding check_lane_def rbind_Inr_iff by blast
  show ?thesis
  proof (cases "lane_of (js_get row ''lane'')")
    case (Some lane)
    with row obtain calls reason where "schedule_integer (js_get row ''calls'') (Max (set (lane_caps lane))) = Inr calls"
      "seen' = seen @ [\<lparr>lpr_lane = lane, lpr_calls = calls, lpr_reason = reason\<rparr>]"
      by (cases "lane \<in> set (map lpr_lane seen)") (auto simp: schedule_invalid_def rbind_Inr_iff)
    then show ?thesis using assms(2) by (auto dest: schedule_integer_Inr)
  qed (use row in \<open>simp add: schedule_invalid_def\<close>)
qed

lemma lanes_calls: "foldM (check_lane phase) [] items = Inr lanes \<Longrightarrow> \<forall>l\<in>set lanes. 0 \<le> lpr_calls l"
  by (erule foldM_invariant [where P = "\<lambda>lanes. \<forall>l\<in>set lanes. 0 \<le> lpr_calls l"]) (auto intro: check_lane_calls [rule_format])

lemma progress_shape_Inr:
  assumes "progressShape value = Inr row"
  shows "\<forall>l\<in>set (rpr_lanes row). 0 \<le> lpr_calls l" "rpr_calls row = (\<Sum>l\<leftarrow>rpr_lanes row. lpr_calls l)" "rpr_calls row \<le> 5"
  using assms lanes_calls by (auto simp: progressShape_def rbind_Inr_iff)

text \<open>A lane of the progress next to the grant it answers.\<close>

definition within_grant :: "lane_progress \<Rightarrow> recovery_grant \<Rightarrow> bool" where
  "within_grant lane grant \<longleftrightarrow> lpr_lane lane = rg_lane grant \<and> 0 \<le> lpr_calls lane \<and> lpr_calls lane \<le> rg_maxCalls grant \<and>
     (rg_maxCalls grant = 0 \<longrightarrow> lpr_reason lane = rg_deferredReason grant)"

lemma response_lane_Inr: "responseLane row lane grant evidence read = Inr c \<Longrightarrow> 0 \<le> lpr_calls lane \<Longrightarrow> within_grant lane grant"
  by (auto simp: within_grant_def responseLane_def Let_def rbind_Inr_iff)

lemma response_lanes_Inr:
  assumes "responseLanes row request evidence read = Inr ()" "\<forall>l\<in>set (rpr_lanes row). 0 \<le> lpr_calls l"
  shows "list_all2 within_grant (rpr_lanes row) (rrq_grants request)"
proof -
  have len: "length (rpr_lanes row) = length (rrq_grants request)" using assms(1) by (auto simp: responseLanes_def rbind_Inr_iff)
  obtain calls where "mapM (\<lambda>(lane, grant). responseLane row lane grant (evidence (rg_lane grant)) read) (zip (rpr_lanes row) (rrq_grants request)) = Inr calls"
    using assms(1) by (auto simp: responseLanes_def rbind_Inr_iff)
  then have "list_all2 (\<lambda>(lane, grant) c. responseLane row lane grant (evidence (rg_lane grant)) read = Inr c) (zip (rpr_lanes row) (rrq_grants request)) calls"
    unfolding mapM_Inr_iff by (rule list_all2_mono) auto
  then have "\<exists>c. responseLane row (rpr_lanes row ! i) (rrq_grants request ! i) (evidence (rg_lane (rrq_grants request ! i))) read = Inr c"
    if "i < length (rpr_lanes row)" for i using that len by (auto simp: list_all2_conv_all_nth)
  then have "within_grant (rpr_lanes row ! i) (rrq_grants request ! i)" if "i < length (rpr_lanes row)" for i
    using that assms(2) response_lane_Inr nth_mem by metis
  then show ?thesis using len by (simp add: list_all2_conv_all_nth)
qed

lemma progress_Inr:
  assumes "validateRecoveryScheduleProgress sha256 now value recovery acquisition expected = Inr (Some row)"
  obtains request fx completedAt where "validateRecoveryScheduleInputs (JObj recovery) expected = Inr (Some (request, fx))"
    "rpr_attemptId row = rrq_attemptId request" "rpr_baseRevision row = rrq_revision request"
    "list_all2 within_grant (rpr_lanes row) (rrq_grants request)" "rpr_calls row = (\<Sum>l\<leftarrow>rpr_lanes row. lpr_calls l)" "rpr_calls row \<le> 5"
    "safe_integer_of (js_get acquisition ''completedAt'') = Some completedAt" "rrq_cooldownUntil request \<le> rpr_cooldownUntil row"
    "rrq_cooldownUntil request > completedAt \<Longrightarrow> rpr_calls row = 0"
proof -
  obtain request fx evidence window where h: "validateRecoveryScheduleInputs (JObj recovery) expected = Inr (Some (request, fx))" "progressShape value = Inr row"
    "progress_matches row request (js_get acquisition ''completedAt'')" "responseLanes row request evidence window = Inr ()"
    using assms by (auto simp: validateRecoveryScheduleProgress_def rbind_Inr_iff split: option.splits)
  note shape = progress_shape_Inr [OF h(2)]
  obtain completedAt where "safe_integer_of (js_get acquisition ''completedAt'') = Some completedAt" using h(3) by (auto simp: progress_matches_def split: option.splits)
  with that [OF h(1)] show thesis using h(3) shape response_lanes_Inr [OF h(4) shape(1)] by (auto simp: progress_matches_def)
qed


section \<open>Properties\<close>

text \<open>
  C3: the recovery planner and the contract of its messages agree. From a valid binding, attempt
  identifier and stored state the planner always returns, its plan grants at most five exchange calls in total, and the validator
  accepts the plan as a request and reads back the very same plan. Whatever progress an executor reports for it and the validator
  accepts stays within the plan: the same attempt and revision, the granted lanes in order, no lane above its grant, five calls in total
  at most, no call while a cooldown lasts, and never an earlier cooldown.
\<close>

theorem recovery_plan_honoured:
  assumes "plan_input_ok query b state attemptId"
  shows "\<exists>q. planScheduledRecovery query b state attemptId now busy = Inr q \<and> total_calls (rrq_grants (sq_recoverySchedule q)) \<le> 5 \<and>
    validateRecoveryScheduleInputs (JObj (scheduled_row q)) (js_of_binding b) = Inr (Some (sq_recoverySchedule q, sq_fxEvidence q)) \<and>
    (\<forall>sha256 clock value acquisition row completedAt.
      validateRecoveryScheduleProgress sha256 clock value (scheduled_row q) acquisition (js_of_binding b) = Inr (Some row) \<longrightarrow>
      safe_integer_of (js_get acquisition ''completedAt'') = Some completedAt \<longrightarrow>
      rpr_attemptId row = attemptId \<and> rpr_baseRevision row = ss_revision state \<and>
      list_all2 within_grant (rpr_lanes row) (rrq_grants (sq_recoverySchedule q)) \<and>
      rpr_calls row = (\<Sum>l\<leftarrow>rpr_lanes row. lpr_calls l) \<and> rpr_calls row \<le> 5 \<and>
      ss_cooldown_until state \<le> rpr_cooldownUntil row \<and> (completedAt < ss_cooldown_until state \<longrightarrow> rpr_calls row = 0))"
proof -
  obtain q where q: "planScheduledRecovery query b state attemptId now busy = Inr q"
    "sq_recoverySchedule q = \<lparr>rrq_attemptId = attemptId, rrq_revision = ss_revision state, rrq_phase = ss_phase state, rrq_binding = b,
       rrq_cooldownUntil = ss_cooldown_until state, rrq_grants = plan_grants query state now busy\<rparr>"
    using assms by (rule schedule_parts [where now = now and busy = busy]) blast
  note accepted = plan_accepted [OF assms q(1)]
  have honoured: "rpr_attemptId row = attemptId \<and> rpr_baseRevision row = ss_revision state \<and>
      list_all2 within_grant (rpr_lanes row) (rrq_grants (sq_recoverySchedule q)) \<and>
      rpr_calls row = (\<Sum>l\<leftarrow>rpr_lanes row. lpr_calls l) \<and> rpr_calls row \<le> 5 \<and>
      ss_cooldown_until state \<le> rpr_cooldownUntil row \<and> (completedAt < ss_cooldown_until state \<longrightarrow> rpr_calls row = 0)"
    if "validateRecoveryScheduleProgress sha256 clock v (scheduled_row q) acquisition (js_of_binding b) = Inr (Some row)"
      "safe_integer_of (js_get acquisition ''completedAt'') = Some completedAt" for sha256 clock v acquisition row completedAt
    using that(1) by (rule progress_Inr) (use accepted that(2) q(2) in auto)
  have capped: "total_calls (rrq_grants (sq_recoverySchedule q)) \<le> 5" using plan_total q(2) by simp
  show ?thesis by (rule exI [of _ q], intro conjI allI impI) (fact q(1) capped accepted | (drule (1) honoured, blast))+
qed

definition sample_binding :: recovery_binding where
  "sample_binding = \<lparr>rb_accountId = ''a'', rb_accountFingerprint = replicate 64 (CHR ''a''), rb_credentialGeneration = replicate 64 (CHR ''b''),
     rb_mode = ''live'', rb_executionProfileHash = replicate 64 (CHR ''0'')\<rparr>"

definition sample_state :: schedule_state where
  "sample_state = \<lparr>ss_id = ''s'', ss_revision = 7, ss_phase = 2, ss_fx_rotation = 1, ss_logs_first = 0, ss_history_after = None, ss_next_due_at = 0, ss_cooldown_until = 0\<rparr>"

definition sample_query :: recovery_query where
  "sample_query = \<lparr>rq_since = 0, rq_orders = [JNull], rq_readAccountMode = None, rq_accountLogs = None, rq_history = []\<rparr>"

theorem recovery_plan_honoured_witness:
  "\<exists>q. planScheduledRecovery sample_query sample_binding sample_state ''01234567-89ab-cdef-0123-456789abcdef'' 10 False = Inr q \<and>
     total_calls (rrq_grants (sq_recoverySchedule q)) \<le> 5 \<and>
     validateRecoveryScheduleInputs (JObj (scheduled_row q)) (js_of_binding sample_binding) = Inr (Some (sq_recoverySchedule q, sq_fxEvidence q))"
proof -
  have ok: "plan_input_ok sample_query sample_binding sample_state ''01234567-89ab-cdef-0123-456789abcdef''" by code_simp
  show ?thesis using recovery_plan_honoured [OF ok, of 10 False] by blast
qed

end
