(* ===== verification/Exchange_History.thy ===== *)
theory Exchange_History
  imports Recovery_Schedule "HOL-Library.Multiset"
begin

text \<open>
  Checkpoints of an exchange history and their continuation (\<^verbatim>\<open>src/exchange_history_contract.ts\<close>). An executor reads pages
  of the history of a scope and returns the next checkpoint; the contract validates it on untyped data and compares it with the
  checkpoint that was requested. The proofs show that over any sequence of accepted responses the history never rewinds, skips or
  changes its identity. One reading of the clock serves a whole validation.
\<close>

section \<open>Validation\<close>

definition history_object :: "js \<Rightarrow> (string \<times> js) list result" where
  "history_object value = (case value of JObj row \<Rightarrow> Inr row | _ \<Rightarrow> Inl (Error ''Invalid history checkpoint object.''))"

definition history_integer :: "js \<Rightarrow> int result" where
  "history_integer value = (case safe_integer_of value of
       Some n \<Rightarrow> if n < 0 then Inl (Error ''Invalid history checkpoint number.'') else Inr n
     | None \<Rightarrow> Inl (Error ''Invalid history checkpoint number.''))"

definition history_token :: "js \<Rightarrow> int \<Rightarrow> string option result" where
  "history_token value maximum = (case value of
       JNull \<Rightarrow> Inr None
     | JStr s \<Rightarrow> if s = [] \<or> int (length s) > maximum \<or> list_ex is_control s then Inl (Error ''Invalid history checkpoint token.'') else Inr (Some s)
     | _ \<Rightarrow> Inl (Error ''Invalid history checkpoint token.''))"

text \<open>\<^verbatim>\<open>value === null ? null : integer(value)\<close>\<close>

definition nullable_integer :: "js \<Rightarrow> int option result" where
  "nullable_integer value = (if value = JNull then Inr None else rbind (history_integer value) (\<lambda>n. Inr (Some n)))"

definition retention_fields :: "string list" where
  "retention_fields = [''version'', ''phase'', ''originalSince'', ''originalUntil'', ''startedAt'', ''fixedUntil'', ''cursor'', ''count'', ''anchor'', ''validatedAt'']"

definition retention_phases :: "string list" where
  "retention_phases = [''witness'', ''horizon'', ''scan'', ''verify'', ''proved'']"

definition retentionAnchor :: "js \<Rightarrow> retention_anchor option result" where
  "retentionAnchor value =
     (if value = JNull then Inr None
      else rbind (history_object value) (\<lambda>row.
        case js_get row ''payloadHash'' of
          JStr payload \<Rightarrow>
            if length row \<noteq> 4 \<or> \<not> set [''coin'', ''tid'', ''time'', ''payloadHash''] \<subseteq> set (map fst row) \<or> \<not> hex64 payload
               \<or> js_get row ''coin'' = JNull \<or> js_get row ''tid'' = JNull
            then Inl (Error ''Invalid Hyperliquid retention anchor.'')
            else rbind (history_token (js_get row ''coin'') 256) (\<lambda>coin. rbind (history_token (js_get row ''tid'') 256) (\<lambda>tid.
              case (coin, tid) of
                (Some c, Some t) \<Rightarrow> rbind (history_integer (js_get row ''time'')) (\<lambda>time.
                  Inr (Some \<lparr>ra_coin = c, ra_tid = t, ra_time = time, ra_payloadHash = payload\<rparr>))
              | _ \<Rightarrow> Inl (Error ''Invalid Hyperliquid retention anchor.'')))
        | _ \<Rightarrow> Inl (Error ''Invalid Hyperliquid retention anchor.'')))"

definition validateRetentionWindow :: "int \<Rightarrow> history_retention \<Rightarrow> history_checkpoint \<Rightarrow> unit result" where
  "validateRetentionWindow now probe state =
     rbind (throw_if (hr_originalSince probe < hk_baselineSince state \<or> hr_originalUntil probe < hr_originalSince probe
         \<or> hr_startedAt probe < hr_originalUntil probe \<or> hr_startedAt probe > now + 60000)
       (Error ''Invalid Hyperliquid retention original window.'')) (\<lambda>_.
     if hr_phase probe = ''proved''
     then throw_if (case (hr_fixedUntil probe, hk_scannedThrough state) of
         (Some fixed, Some scanned) \<Rightarrow> scanned < min (hr_originalUntil probe) fixed | _ \<Rightarrow> True)
       (Error ''Hyperliquid retention proof lacks traversal.'')
     else throw_if (hk_windowSince state \<noteq> hr_originalSince probe \<or> hk_windowUntil state \<noteq> Some (hr_originalUntil probe))
       (Error ''Hyperliquid retention changed its original window.''))"

definition validateRetentionHorizon :: "int \<Rightarrow> history_retention \<Rightarrow> unit result" where
  "validateRetentionHorizon now probe =
     throw_if (hr_phase probe \<in> {''scan'', ''verify'', ''proved''} \<and> (case hr_fixedUntil probe of
         None \<Rightarrow> True
       | Some fixed \<Rightarrow> fixed < hr_startedAt probe \<or> fixed > now + 60000 \<or> hr_cursor probe > fixed + 1))
     (Error ''Invalid fixed retention horizon.'')"

definition validateRetentionTime :: "int \<Rightarrow> history_retention \<Rightarrow> unit result" where
  "validateRetentionTime now probe =
     (if hr_phase probe = ''proved''
      then throw_if (case hr_validatedAt probe of None \<Rightarrow> True | Some v \<Rightarrow> v < hr_startedAt probe \<or> v > now + 60000) (Error ''Invalid retention validation time.'')
      else throw_if (hr_validatedAt probe \<noteq> None) (Error ''Unverified retention has a validation time.''))"

definition validateRetentionPhase :: "int \<Rightarrow> history_retention \<Rightarrow> unit result" where
  "validateRetentionPhase now probe =
     rbind (if hr_phase probe = ''witness''
       then throw_if (hr_anchor probe \<noteq> None \<or> hr_fixedUntil probe \<noteq> None \<or> hr_count probe \<noteq> 0 \<or> hr_cursor probe \<noteq> 0) (Error ''Invalid initial retention phase.'')
       else throw_if (case hr_anchor probe of None \<Rightarrow> True | Some a \<Rightarrow> hr_count probe < 1 \<or> hr_count probe \<ge> 10000 \<or> hr_cursor probe < ra_time a)
         (Error ''Invalid counted retention anchor.'')) (\<lambda>_.
     rbind (throw_if (hr_phase probe = ''horizon'' \<and> hr_fixedUntil probe \<noteq> None) (Error ''Invalid unread retention horizon.'')) (\<lambda>_.
     rbind (validateRetentionHorizon now probe) (\<lambda>_.
     validateRetentionTime now probe)))"

definition validateRetention :: "int \<Rightarrow> js \<Rightarrow> history_checkpoint \<Rightarrow> history_retention option result" where
  "validateRetention now value state =
     (if value = JNull then Inr None
      else rbind (history_object value) (\<lambda>row.
        case js_get row ''phase'' of
          JStr phase \<Rightarrow>
            if length row \<noteq> length retention_fields \<or> \<not> set retention_fields \<subseteq> set (map fst row) \<or> js_get row ''version'' \<noteq> JNum (Num 1)
               \<or> phase \<notin> set retention_phases \<or> hk_source state \<noteq> ''fills'' \<or> hk_providerSymbol state \<noteq> None
            then Inl (Error ''Invalid Hyperliquid retention checkpoint.'')
            else rbind (history_integer (js_get row ''originalSince'')) (\<lambda>since. rbind (history_integer (js_get row ''originalUntil'')) (\<lambda>until.
              rbind (history_integer (js_get row ''startedAt'')) (\<lambda>started. rbind (history_integer (js_get row ''cursor'')) (\<lambda>cursor.
              rbind (history_integer (js_get row ''count'')) (\<lambda>count. rbind (nullable_integer (js_get row ''fixedUntil'')) (\<lambda>fixed.
              rbind (nullable_integer (js_get row ''validatedAt'')) (\<lambda>validated. rbind (retentionAnchor (js_get row ''anchor'')) (\<lambda>anchor.
                let probe = \<lparr>hr_phase = phase, hr_originalSince = since, hr_originalUntil = until, hr_startedAt = started, hr_fixedUntil = fixed,
                      hr_cursor = cursor, hr_count = count, hr_anchor = anchor, hr_validatedAt = validated\<rparr>
                in rbind (validateRetentionWindow now probe state) (\<lambda>_. rbind (validateRetentionPhase now probe) (\<lambda>_. Inr (Some probe)))))))))))
        | _ \<Rightarrow> Inl (Error ''Invalid Hyperliquid retention checkpoint.'')))"

definition reason_pattern :: "string \<Rightarrow> bool" where
  "reason_pattern s \<longleftrightarrow> s \<noteq> [] \<and> length s \<le> 80 \<and> list_all (\<lambda>c. 97 \<le> (of_char c :: int) \<and> (of_char c :: int) \<le> 122 \<or> c = CHR ''_'') s"

definition validateWindow :: "int \<Rightarrow> history_checkpoint \<Rightarrow> unit result" where
  "validateWindow now row =
     (let latest = now + 60000 in
      throw_if (hk_baselineSince row > hk_windowSince row \<or> hk_windowSince row > latest
        \<or> (case hk_windowUntil row of None \<Rightarrow> False | Some u \<Rightarrow> u < hk_windowSince row \<or> u > latest)
        \<or> (case hk_scannedThrough row of None \<Rightarrow> False | Some s \<Rightarrow> s < hk_baselineSince row \<or> s > latest)
        \<or> hk_cursor row \<noteq> None \<and> hk_windowUntil row = None
        \<or> (case hk_reason row of None \<Rightarrow> False | Some r \<Rightarrow> \<not> reason_pattern r))
      (Error ''Invalid history checkpoint window or reason.''))"

definition js_of_int_option :: "int option \<Rightarrow> js" where
  "js_of_int_option v = (case v of None \<Rightarrow> JNull | Some n \<Rightarrow> js_int n)"

definition js_of_anchor :: "retention_anchor option \<Rightarrow> js" where
  "js_of_anchor v = (case v of None \<Rightarrow> JNull | Some a \<Rightarrow>
     JObj [(''coin'', JStr (ra_coin a)), (''tid'', JStr (ra_tid a)), (''time'', js_int (ra_time a)), (''payloadHash'', JStr (ra_payloadHash a))])"

definition js_of_retention :: "history_retention option \<Rightarrow> js" where
  "js_of_retention v = (case v of None \<Rightarrow> JNull | Some r \<Rightarrow>
     JObj [(''version'', js_int 1), (''phase'', JStr (hr_phase r)), (''originalSince'', js_int (hr_originalSince r)), (''originalUntil'', js_int (hr_originalUntil r)),
       (''startedAt'', js_int (hr_startedAt r)), (''cursor'', js_int (hr_cursor r)), (''count'', js_int (hr_count r)), (''fixedUntil'', js_of_int_option (hr_fixedUntil r)),
       (''validatedAt'', js_of_int_option (hr_validatedAt r)), (''anchor'', js_of_anchor (hr_anchor r))])"

definition js_of_coverage :: "history_coverage option \<Rightarrow> js" where
  "js_of_coverage v = (case v of None \<Rightarrow> JNull | Some c \<Rightarrow>
     JObj [(''version'', js_int 1), (''profile'', JStr (hc_profile c)), (''since'', js_int (hc_since c)), (''through'', js_int (hc_through c))])"

text \<open>A member that is absent in the input is absent in the validated checkpoint.\<close>

definition when_present :: "(string \<times> js) list \<Rightarrow> string \<Rightarrow> js \<Rightarrow> (string \<times> js) list" where
  "when_present row field v = (if js_get row field = JUndefined then [] else [(field, v)])"

definition checkpoint_text :: "(string \<times> js) list \<Rightarrow> history_checkpoint \<Rightarrow> string" where
  "checkpoint_text row c = json_text (JObj ([(''source'', JStr (hk_source c)), (''providerSymbol'', js_of_string_option (hk_providerSymbol c)),
     (''revision'', js_int (hk_revision c)), (''baselineSince'', js_int (hk_baselineSince c)), (''windowSince'', js_int (hk_windowSince c)),
     (''windowUntil'', js_of_int_option (hk_windowUntil c)), (''cursor'', js_of_string_option (hk_cursor c)), (''scannedThrough'', js_of_int_option (hk_scannedThrough c)),
     (''nextReadAt'', js_int (hk_nextReadAt c)), (''completeness'', JStr (hk_completeness c)), (''reason'', js_of_string_option (hk_reason c))] @
     when_present row ''providerAccountUid'' (js_of_string_option (Option.bind (hk_providerAccountUid c) (\<lambda>u. u))) @
     when_present row ''coverage'' (js_of_coverage (hk_coverage c)) @ when_present row ''retention'' (js_of_retention (hk_retention c))))"

definition validateHistoryCheckpoint :: "int \<Rightarrow> js \<Rightarrow> history_checkpoint result" where
  "validateHistoryCheckpoint now value = rbind (history_object value) (\<lambda>row.
     case (js_get row ''source'', js_get row ''completeness'') of
       (JStr source, JStr completeness) \<Rightarrow>
         if source \<notin> {''orders'', ''fills''} \<or> completeness \<notin> {''unknown'', ''partial'', ''complete''}
         then Inl (Error ''Invalid history checkpoint scope or completeness.'')
         else rbind (history_token (js_get row ''providerSymbol'') 256) (\<lambda>symbol. rbind (history_integer (js_get row ''revision'')) (\<lambda>revision.
           rbind (history_integer (js_get row ''baselineSince'')) (\<lambda>baseline. rbind (history_integer (js_get row ''windowSince'')) (\<lambda>since.
           rbind (nullable_integer (js_get row ''windowUntil'')) (\<lambda>until. rbind (history_token (js_get row ''cursor'') 4096) (\<lambda>cursor.
           rbind (nullable_integer (js_get row ''scannedThrough'')) (\<lambda>scanned. rbind (history_integer (js_get row ''nextReadAt'')) (\<lambda>next_read.
           rbind (history_token (js_get row ''reason'') 80) (\<lambda>reason.
             let result = \<lparr>hk_providerAccountUid = None, hk_coverage = None, hk_retention = None, hk_source = source, hk_providerSymbol = symbol, hk_revision = revision,
                   hk_baselineSince = baseline, hk_windowSince = since, hk_windowUntil = until, hk_cursor = cursor, hk_scannedThrough = scanned,
                   hk_nextReadAt = next_read, hk_completeness = completeness, hk_reason = reason\<rparr>
             in rbind (validateWindow now result) (\<lambda>_.
                rbind (if js_get row ''providerAccountUid'' = JUndefined then Inr None
                  else rbind (history_token (js_get row ''providerAccountUid'') 256) (\<lambda>u. Inr (Some u))) (\<lambda>uid.
                rbind (if js_get row ''coverage'' = JUndefined then Inr None else validateHistoryCoverage (js_get row ''coverage'') result) (\<lambda>coverage.
                rbind (if js_get row ''retention'' = JUndefined then Inr None else validateRetention now (js_get row ''retention'') result) (\<lambda>retention.
                  let validated = result\<lparr>hk_providerAccountUid := uid, hk_coverage := coverage, hk_retention := retention\<rparr>
                  in rbind (throw_if (byte_length (checkpoint_text row validated) \<ge> 8192) (Error ''Oversized history checkpoint.'')) (\<lambda>_. Inr validated))))))))))))))
     | _ \<Rightarrow> Inl (Error ''Invalid history checkpoint scope or completeness.''))"


section \<open>Progress\<close>

definition historyScope :: "history_checkpoint \<Rightarrow> string" where
  "historyScope row = json_array [json_string (hk_source row), (case hk_providerSymbol row of None \<Rightarrow> ''null'' | Some s \<Rightarrow> json_string s)]"

text \<open>Absent and null identities are both no identity.\<close>

definition known_uid :: "history_checkpoint \<Rightarrow> string option" where
  "known_uid c = (case hk_providerAccountUid c of Some (Some u) \<Rightarrow> if u = [] then None else Some u | _ \<Rightarrow> None)"

definition progress_item :: "int \<Rightarrow> js \<Rightarrow> history_progress result" where
  "progress_item now item = rbind (history_object item) (\<lambda>row.
     rbind (history_integer (js_get row ''baseRevision'')) (\<lambda>base. rbind (history_integer (js_get row ''pages'')) (\<lambda>pages.
     rbind (validateHistoryCheckpoint now (js_get row ''checkpoint'')) (\<lambda>checkpoint.
     rbind (throw_if (hk_revision checkpoint \<noteq> base + 1) (Error ''Invalid history checkpoint revision.'')) (\<lambda>_.
       Inr \<lparr>hp_baseRevision = base, hp_checkpoint = checkpoint, hp_pages = pages\<rparr>)))))"

definition validateHistoryProgress :: "int \<Rightarrow> js \<Rightarrow> history_progress list result" where
  "validateHistoryProgress now value = (case value of
       JArr items \<Rightarrow>
         if length items > 8 then Inl (Error ''Invalid bounded history progress.'')
         else rbind (mapM (progress_item now) items) (\<lambda>rows.
           rbind (throw_if (sum_list (map hp_pages rows) > 5 \<or> card (set (map (\<lambda>r. historyScope (hp_checkpoint r)) rows)) \<noteq> length rows)
             (Error ''Invalid history page budget or duplicate scope.'')) (\<lambda>_.
           rbind (throw_if (card (set (List.map_filter (\<lambda>r. known_uid (hp_checkpoint r)) rows)) > 1)
             (Error ''History sources disagree about provider account identity.'')) (\<lambda>_. Inr rows)))
     | _ \<Rightarrow> Inl (Error ''Invalid bounded history progress.''))"


section \<open>Continuation\<close>

definition index_of :: "string list \<Rightarrow> string \<Rightarrow> int" where
  "index_of xs x = (if x \<in> set xs then int (length (takeWhile (\<lambda>y. y \<noteq> x) xs)) else - 1)"

definition assertBoundRetentionContinuation :: "history_retention \<Rightarrow> history_retention \<Rightarrow> unit result" where
  "assertBoundRetentionContinuation old new =
     throw_if (hr_originalSince old \<noteq> hr_originalSince new \<or> hr_originalUntil old \<noteq> hr_originalUntil new \<or> hr_startedAt old \<noteq> hr_startedAt new
       \<or> hr_anchor old \<noteq> None \<and> hr_anchor old \<noteq> hr_anchor new
       \<or> hr_fixedUntil old \<noteq> None \<and> hr_fixedUntil old \<noteq> hr_fixedUntil new
       \<or> hr_count new < hr_count old \<or> hr_cursor new < hr_cursor old
       \<or> index_of retention_phases (hr_phase new) < index_of retention_phases (hr_phase old))
     (Error ''History retention continuation changed its bound probe.'')"

definition assertRetentionContinuation :: "history_checkpoint \<Rightarrow> history_progress \<Rightarrow> unit result" where
  "assertRetentionContinuation previous progress =
     rbind (throw_if (hp_pages progress = 0 \<and> hk_retention previous \<noteq> hk_retention (hp_checkpoint progress))
       (Error ''History retention cannot skip an unread page.'')) (\<lambda>_.
     case (hk_retention previous, hk_retention (hp_checkpoint progress)) of
       (Some old, Some new) \<Rightarrow>
         if hr_phase old = ''proved'' then Inr ()
         else rbind (throw_if (index_of retention_phases (hr_phase new) - index_of retention_phases (hr_phase old) > hp_pages progress)
             (Error ''History retention cannot skip an unread phase.'')) (\<lambda>_. assertBoundRetentionContinuation old new)
     | _ \<Rightarrow> Inr ())"

definition assertHistoryContinuation :: "history_checkpoint \<Rightarrow> history_progress \<Rightarrow> unit result" where
  "assertHistoryContinuation previous progress =
     (let next_checkpoint = hp_checkpoint progress in
      rbind (throw_if (historyScope previous \<noteq> historyScope next_checkpoint \<or> hp_baseRevision progress \<noteq> hk_revision previous
          \<or> hk_baselineSince next_checkpoint \<noteq> hk_baselineSince previous
          \<or> (case hk_scannedThrough next_checkpoint of None \<Rightarrow> 0 | Some s \<Rightarrow> s) < (case hk_scannedThrough previous of None \<Rightarrow> 0 | Some s \<Rightarrow> s))
        (Error ''History continuation contradicts its requested checkpoint.'')) (\<lambda>_.
      rbind (throw_if (known_uid previous \<noteq> None \<and> hk_providerAccountUid previous \<noteq> hk_providerAccountUid next_checkpoint)
        (Error ''History provider account identity changed.'')) (\<lambda>_.
      rbind (assertCoverageContinuation previous progress) (\<lambda>_.
      rbind (assertRetentionContinuation previous progress) (\<lambda>_.
      throw_if (hp_pages progress = 0 \<and> (hk_windowSince previous \<noteq> hk_windowSince next_checkpoint \<or> hk_windowUntil previous \<noteq> hk_windowUntil next_checkpoint
          \<or> hk_cursor previous \<noteq> hk_cursor next_checkpoint \<or> hk_scannedThrough previous \<noteq> hk_scannedThrough next_checkpoint
          \<or> hk_providerAccountUid previous \<noteq> hk_providerAccountUid next_checkpoint))
        (Error ''History progress cannot skip an unread page.''))))))"

text \<open>A map built from pairs keeps the last value of a key.\<close>

definition assertHistoryResponse :: "history_checkpoint list \<Rightarrow> history_progress list option \<Rightarrow> unit result" where
  "assertHistoryResponse request progress = (case progress of
       None \<Rightarrow> Inl (Error ''Exchange omitted requested history progress.'')
     | Some rows \<Rightarrow>
         rbind (throw_if (length rows \<noteq> length request) (Error ''Exchange omitted requested history progress.'')) (\<lambda>_.
           foldM (\<lambda>_ row. case map_of (rev (map (\<lambda>r. (historyScope r, r)) request)) (historyScope (hp_checkpoint row)) of
               None \<Rightarrow> Inl (Error ''Exchange returned unrequested history scope.'')
             | Some previous \<Rightarrow> assertHistoryContinuation previous row) () rows))"


section \<open>What an accepted continuation keeps\<close>

lemma json_null_string: "''null'' \<noteq> json_string s"
  by (simp add: json_string_def)

lemma scope_inj: "historyScope a = historyScope b \<longleftrightarrow> hk_source a = hk_source b \<and> hk_providerSymbol a = hk_providerSymbol b"
proof
  assume "historyScope a = historyScope b"
  then have "json_string (hk_source a) @ '','' @ (case hk_providerSymbol a of None \<Rightarrow> ''null'' | Some s \<Rightarrow> json_string s) @ '']'' =
    json_string (hk_source b) @ '','' @ (case hk_providerSymbol b of None \<Rightarrow> ''null'' | Some s \<Rightarrow> json_string s) @ '']''"
    by (simp add: historyScope_def json_array_def join_with_def)
  then have source: "hk_source a = hk_source b"
    and symbol: "(case hk_providerSymbol a of None \<Rightarrow> ''null'' | Some s \<Rightarrow> json_string s) = (case hk_providerSymbol b of None \<Rightarrow> ''null'' | Some s \<Rightarrow> json_string s)"
    unfolding json_string_inj by simp_all
  have "hk_providerSymbol a = hk_providerSymbol b"
    using symbol json_null_string json_string_inj [of _ "[]" _ "[]"] by (auto split: option.splits simp: json_null_string [symmetric])
  with source show "hk_source a = hk_source b \<and> hk_providerSymbol a = hk_providerSymbol b" by simp
qed (simp add: historyScope_def)

definition scanned_of :: "history_checkpoint \<Rightarrow> int" where
  "scanned_of c = (case hk_scannedThrough c of None \<Rightarrow> 0 | Some s \<Rightarrow> s)"

text \<open>A later coverage extends an earlier one.\<close>

definition covers_on :: "history_coverage option \<Rightarrow> history_coverage option \<Rightarrow> bool" where
  "covers_on old new = (case old of None \<Rightarrow> True | Some o1 \<Rightarrow>
     (case new of None \<Rightarrow> False | Some n \<Rightarrow> hc_profile n = hc_profile o1 \<and> hc_since n = hc_since o1 \<and> hc_through o1 \<le> hc_through n))"

text \<open>A later retention probe is the same probe, further on.\<close>

definition probe_phase :: "history_retention \<Rightarrow> int" where
  "probe_phase r = index_of retention_phases (hr_phase r)"

definition probe_on :: "int \<Rightarrow> history_retention \<Rightarrow> history_retention \<Rightarrow> bool" where
  "probe_on pages old new \<longleftrightarrow> hr_originalSince new = hr_originalSince old \<and> hr_originalUntil new = hr_originalUntil old \<and> hr_startedAt new = hr_startedAt old \<and>
     (hr_anchor old \<noteq> None \<longrightarrow> hr_anchor new = hr_anchor old) \<and> (hr_fixedUntil old \<noteq> None \<longrightarrow> hr_fixedUntil new = hr_fixedUntil old) \<and>
     hr_count old \<le> hr_count new \<and> hr_cursor old \<le> hr_cursor new \<and> probe_phase old \<le> probe_phase new \<and> probe_phase new \<le> probe_phase old + pages"

lemma probe_on_trans: "probe_on m a b \<Longrightarrow> probe_on n b c \<Longrightarrow> probe_on (m + n) a c"
  unfolding probe_on_def by (auto dest: order_trans)

lemma covers_on_trans: "covers_on a b \<Longrightarrow> covers_on b c \<Longrightarrow> covers_on a c"
  unfolding covers_on_def by (cases a; cases b; cases c) auto

lemma coverage_Inr:
  assumes "assertCoverageContinuation c p = Inr ()"
  shows "covers_on (hk_coverage c) (hk_coverage (hp_checkpoint p))" "hp_pages p = 0 \<Longrightarrow> hk_coverage (hp_checkpoint p) = hk_coverage c"
  using assms unfolding assertCoverageContinuation_def covers_on_def coverage_regresses_def
  by (cases "hk_coverage c"; cases "hk_coverage (hp_checkpoint p)"; auto simp: rbind_Inr_iff throw_if_Inr split: if_splits)+

lemma probe_Inr:
  assumes "assertRetentionContinuation c p = Inr ()"
  shows "hk_retention c = Some a \<Longrightarrow> hr_phase a \<noteq> ''proved'' \<Longrightarrow> hk_retention (hp_checkpoint p) = Some b \<Longrightarrow> probe_on (hp_pages p) a b"
    "hp_pages p = 0 \<Longrightarrow> hk_retention (hp_checkpoint p) = hk_retention c"
  using assms unfolding assertRetentionContinuation_def assertBoundRetentionContinuation_def probe_on_def probe_phase_def
  by (auto simp: rbind_Inr_iff throw_if_Inr)

text \<open>What holds of one accepted continuation and of any sequence of them.\<close>

definition continues :: "int \<Rightarrow> history_checkpoint \<Rightarrow> history_checkpoint \<Rightarrow> bool" where
  "continues pages c d \<longleftrightarrow> hk_source d = hk_source c \<and> hk_providerSymbol d = hk_providerSymbol c \<and> hk_baselineSince d = hk_baselineSince c \<and>
     scanned_of c \<le> scanned_of d \<and> (known_uid c \<noteq> None \<longrightarrow> known_uid d = known_uid c) \<and> covers_on (hk_coverage c) (hk_coverage d) \<and>
     (pages = 0 \<longrightarrow> hk_windowSince d = hk_windowSince c \<and> hk_windowUntil d = hk_windowUntil c \<and> hk_cursor d = hk_cursor c \<and>
        hk_scannedThrough d = hk_scannedThrough c \<and> hk_coverage d = hk_coverage c \<and> hk_retention d = hk_retention c)"

lemma continuation_Inr:
  assumes "assertHistoryContinuation c p = Inr ()"
  shows "continues (hp_pages p) c (hp_checkpoint p)" "hp_baseRevision p = hk_revision c" "assertRetentionContinuation c p = Inr ()"
proof -
  have h: "historyScope c = historyScope (hp_checkpoint p)" "hp_baseRevision p = hk_revision c" "hk_baselineSince (hp_checkpoint p) = hk_baselineSince c"
    "scanned_of c \<le> scanned_of (hp_checkpoint p)"
    "known_uid c = None \<or> hk_providerAccountUid c = hk_providerAccountUid (hp_checkpoint p)"
    "assertCoverageContinuation c p = Inr ()" "assertRetentionContinuation c p = Inr ()"
    "hp_pages p = 0 \<longrightarrow> hk_windowSince c = hk_windowSince (hp_checkpoint p) \<and> hk_windowUntil c = hk_windowUntil (hp_checkpoint p) \<and>
       hk_cursor c = hk_cursor (hp_checkpoint p) \<and> hk_scannedThrough c = hk_scannedThrough (hp_checkpoint p)"
    using assms unfolding assertHistoryContinuation_def Let_def rbind_Inr_iff throw_if_Inr scanned_of_def by auto
  show "hp_baseRevision p = hk_revision c" "assertRetentionContinuation c p = Inr ()" by (fact h)+
  have uid: "known_uid c \<noteq> None \<longrightarrow> known_uid (hp_checkpoint p) = known_uid c" using h(5) by (auto simp: known_uid_def)
  show "continues (hp_pages p) c (hp_checkpoint p)"
    unfolding continues_def using h(1,3,4,8) uid coverage_Inr [OF h(6)] probe_Inr(2) [OF h(7)] by (auto simp: scope_inj)
qed

lemma continues_refl: "continues 0 c c"
  by (auto simp: continues_def covers_on_def split: option.splits)

lemma continues_trans: "0 \<le> m \<Longrightarrow> 0 \<le> n \<Longrightarrow> continues m a b \<Longrightarrow> continues n b c \<Longrightarrow> continues (m + n) a c"
  unfolding continues_def using covers_on_trans by (auto dest: order_trans)


section \<open>Histories\<close>

text \<open>A scope is read again and again; each accepted progress becomes the next checkpoint.\<close>

definition history_step :: "history_checkpoint \<Rightarrow> history_progress \<Rightarrow> history_checkpoint result" where
  "history_step c p = rbind (assertHistoryContinuation c p) (\<lambda>_. Inr (hp_checkpoint p))"

lemma history_step_Inr: "history_step c p = Inr d \<longleftrightarrow> assertHistoryContinuation c p = Inr () \<and> d = hp_checkpoint p"
  by (auto simp: history_step_def rbind_Inr_iff)

lemma history_run:
  assumes "foldM history_step c ps = Inr d" "\<forall>p\<in>set ps. hk_revision (hp_checkpoint p) = hp_baseRevision p + 1 \<and> 0 \<le> hp_pages p"
  shows "continues (sum_list (map hp_pages ps)) c d \<and> hk_revision d = hk_revision c + int (length ps)"
  using assms
proof (induction ps arbitrary: c)
  case Nil
  then show ?case by (simp add: continues_refl)
next
  case (Cons p ps)
  then have h: "assertHistoryContinuation c p = Inr ()" "foldM history_step (hp_checkpoint p) ps = Inr d" by (auto simp: rbind_Inr_iff history_step_Inr)
  note IH = Cons.IH [OF h(2)]
  have pages: "0 \<le> sum_list (map hp_pages ps)" using Cons.prems(2) by (auto intro!: sum_list_nonneg)
  show ?case using continues_trans [OF _ pages continuation_Inr(1) [OF h(1)]] IH continuation_Inr(2) [OF h(1)] Cons.prems(2) by auto
qed

text \<open>The probes of a history, as long as none is missing and none but the last is proved.\<close>

lemma probe_run:
  assumes "foldM history_step c ps = Inr d" "\<forall>p\<in>set ps. 0 \<le> hp_pages p"
    and "hk_retention c = Some a" "hr_phase a \<noteq> ''proved''" "hk_retention d = Some b"
    and "\<forall>p\<in>set (butlast ps). \<exists>r. hk_retention (hp_checkpoint p) = Some r \<and> hr_phase r \<noteq> ''proved''"
  shows "probe_on (sum_list (map hp_pages ps)) a b"
  using assms
proof (induction ps arbitrary: c a)
  case Nil
  then show ?case by (simp add: probe_on_def)
next
  case (Cons p ps)
  then have h: "assertHistoryContinuation c p = Inr ()" "foldM history_step (hp_checkpoint p) ps = Inr d" by (auto simp: rbind_Inr_iff history_step_Inr)
  note step = probe_Inr(1) [OF continuation_Inr(3) [OF h(1)] Cons.prems(3,4)]
  show ?case
  proof (cases ps)
    case Nil
    then show ?thesis using step [of b] h(2) Cons.prems(5) by simp
  next
    case (Cons p' ps')
    then obtain r where r: "hk_retention (hp_checkpoint p) = Some r" "hr_phase r \<noteq> ''proved''" using Cons.prems(6) by auto
    have "probe_on (sum_list (map hp_pages ps)) r b"
      using Cons.IH [OF h(2) _ r Cons.prems(5)] Cons.prems(2,6) \<open>ps = p' # ps'\<close> by simp
    with step [OF r(1)] show ?thesis using probe_on_trans by simp
  qed
qed

lemma progress_Inr_rows:
  assumes "validateHistoryProgress now v = Inr rows"
  shows "sum_list (map hp_pages rows) \<le> 5" "distinct (map (\<lambda>r. historyScope (hp_checkpoint r)) rows)"
    "\<forall>row\<in>set rows. hk_revision (hp_checkpoint row) = hp_baseRevision row + 1 \<and> 0 \<le> hp_pages row"
proof -
  obtain items where items: "mapM (progress_item now) items = Inr rows" "sum_list (map hp_pages rows) \<le> 5"
    "card (set (map (\<lambda>r. historyScope (hp_checkpoint r)) rows)) = length rows"
    using assms unfolding validateHistoryProgress_def
    by (auto simp: rbind_Inr_iff throw_if_Inr split: js.splits if_splits)
  show "sum_list (map hp_pages rows) \<le> 5" by (fact items(2))
  show "distinct (map (\<lambda>r. historyScope (hp_checkpoint r)) rows)" using items(3) by (simp add: card_distinct)
  have "hk_revision (hp_checkpoint row) = hp_baseRevision row + 1 \<and> 0 \<le> hp_pages row" if item: "progress_item now item = Inr row" for item row
  proof -
    obtain fields base pages checkpoint where h: "history_integer (js_get fields ''pages'') = Inr pages" "hk_revision checkpoint = base + 1"
      "row = \<lparr>hp_baseRevision = base, hp_checkpoint = checkpoint, hp_pages = pages\<rparr>"
      using item unfolding progress_item_def rbind_Inr_iff throw_if_Inr by auto
    moreover have "0 \<le> pages" using h(1) by (simp add: history_integer_def split: option.splits if_splits)
    ultimately show ?thesis by simp
  qed
  then show "\<forall>row\<in>set rows. hk_revision (hp_checkpoint row) = hp_baseRevision row + 1 \<and> 0 \<le> hp_pages row"
    using items(1) unfolding mapM_Inr_iff list_all2_conv_all_nth by (metis in_set_conv_nth)
qed

lemma response_rows:
  assumes "assertHistoryResponse request (Some rows) = Inr ()" "row \<in> set rows"
  shows "\<exists>previous\<in>set request. historyScope previous = historyScope (hp_checkpoint row) \<and> assertHistoryContinuation previous row = Inr ()"
proof -
  define check where "check = (\<lambda>row. case map_of (rev (map (\<lambda>r. (historyScope r, r)) request)) (historyScope (hp_checkpoint row)) of
      None \<Rightarrow> Inl (Error ''Exchange returned unrequested history scope.'') | Some previous \<Rightarrow> assertHistoryContinuation previous row)"
  have "foldM (\<lambda>_ row. check row) () rows = Inr ()" using assms(1) by (auto simp: assertHistoryResponse_def check_def rbind_Inr_iff throw_if_Inr)
  then have "check row = Inr ()" using assms(2) by (induction rows) (auto simp: rbind_Inr_iff)
  then obtain previous where p: "map_of (rev (map (\<lambda>r. (historyScope r, r)) request)) (historyScope (hp_checkpoint row)) = Some previous"
    "assertHistoryContinuation previous row = Inr ()" by (auto simp: check_def split: option.splits)
  then show ?thesis using map_of_SomeD [OF p(1)] by auto
qed


section \<open>Properties\<close>

text \<open>
  C14: a history never rewinds. Over any sequence of accepted progress on a scope the source, the symbol and the baseline stay the same, the
  revision counts the steps, the scanned time never decreases, a known account identity never changes, proven coverage never
  shrinks or changes its profile, and without a page read nothing moves. A retention probe, until it is proved, keeps its original
  window, its anchor and its horizon, counts and moves forward only, and passes at most one phase for each page.
\<close>

theorem history_never_rewinds:
  assumes run: "foldM history_step c ps = Inr d"
    and valid: "\<forall>p\<in>set ps. hk_revision (hp_checkpoint p) = hp_baseRevision p + 1 \<and> 0 \<le> hp_pages p"
  shows "hk_source d = hk_source c \<and> hk_providerSymbol d = hk_providerSymbol c \<and> hk_baselineSince d = hk_baselineSince c \<and>
    hk_revision d = hk_revision c + int (length ps) \<and> scanned_of c \<le> scanned_of d \<and> (known_uid c \<noteq> None \<longrightarrow> known_uid d = known_uid c) \<and>
    covers_on (hk_coverage c) (hk_coverage d) \<and>
    (sum_list (map hp_pages ps) = 0 \<longrightarrow> hk_windowSince d = hk_windowSince c \<and> hk_cursor d = hk_cursor c \<and> hk_scannedThrough d = hk_scannedThrough c \<and>
       hk_coverage d = hk_coverage c \<and> hk_retention d = hk_retention c) \<and>
    (\<forall>a b. hk_retention c = Some a \<and> hr_phase a \<noteq> ''proved'' \<and> hk_retention d = Some b \<and>
       (\<forall>p\<in>set (butlast ps). \<exists>r. hk_retention (hp_checkpoint p) = Some r \<and> hr_phase r \<noteq> ''proved'') \<longrightarrow> probe_on (sum_list (map hp_pages ps)) a b)"
proof -
  have "probe_on (sum_list (map hp_pages ps)) a b"
    if "hk_retention c = Some a" "hr_phase a \<noteq> ''proved''" "hk_retention d = Some b"
      "\<forall>p\<in>set (butlast ps). \<exists>r. hk_retention (hp_checkpoint p) = Some r \<and> hr_phase r \<noteq> ''proved''" for a b
    using probe_run [OF run _ that] valid by blast
  moreover have "continues (sum_list (map hp_pages ps)) c d" "hk_revision d = hk_revision c + int (length ps)" using history_run [OF run valid] by auto
  ultimately show ?thesis unfolding continues_def by blast
qed

text \<open>Two rounds of a Hyperliquid fill history: a probe is started, then finds its anchor.\<close>

definition sample_checkpoint :: "int \<Rightarrow> history_retention option \<Rightarrow> history_checkpoint" where
  "sample_checkpoint revision retention = \<lparr>hk_providerAccountUid = None, hk_coverage = None, hk_retention = retention, hk_source = ''fills'', hk_providerSymbol = None,
     hk_revision = revision, hk_baselineSince = 10, hk_windowSince = 10, hk_windowUntil = Some 20, hk_cursor = None, hk_scannedThrough = None, hk_nextReadAt = 0,
     hk_completeness = ''partial'', hk_reason = None\<rparr>"

definition sample_probe :: "string \<Rightarrow> retention_anchor option \<Rightarrow> int \<Rightarrow> history_retention" where
  "sample_probe phase anchor n = \<lparr>hr_phase = phase, hr_originalSince = 10, hr_originalUntil = 20, hr_startedAt = 25, hr_fixedUntil = None, hr_cursor = n, hr_count = n,
     hr_anchor = anchor, hr_validatedAt = None\<rparr>"

definition sample_progress :: "history_progress list" where
  "sample_progress = [\<lparr>hp_baseRevision = 1, hp_checkpoint = sample_checkpoint 2 (Some (sample_probe ''witness'' None 0)), hp_pages = 0\<rparr>,
     \<lparr>hp_baseRevision = 2, hp_checkpoint = sample_checkpoint 3 (Some (sample_probe ''horizon''
        (Some \<lparr>ra_coin = ''BTC'', ra_tid = ''7'', ra_time = 1, ra_payloadHash = ''h''\<rparr>) 1)), hp_pages = 1\<rparr>]"

theorem history_never_rewinds_witness:
  "\<exists>d. foldM history_step (sample_checkpoint 1 (Some (sample_probe ''witness'' None 0))) sample_progress = Inr d \<and> hk_revision d = 3 \<and>
     probe_on 1 (sample_probe ''witness'' None 0) (the (hk_retention d))"
proof -
  define c where "c = sample_checkpoint 1 (Some (sample_probe ''witness'' None 0))"
  define d where "d = hp_checkpoint (sample_progress ! 1)"
  have run: "foldM history_step c sample_progress = Inr d" unfolding c_def d_def by code_simp
  have valid: "\<forall>p\<in>set sample_progress. hk_revision (hp_checkpoint p) = hp_baseRevision p + 1 \<and> 0 \<le> hp_pages p" by code_simp
  have probes: "hk_retention c = Some (sample_probe ''witness'' None 0)" "hr_phase (sample_probe ''witness'' None 0) \<noteq> ''proved''"
    "hk_retention d = Some (the (hk_retention d))"
    "\<forall>p\<in>set (butlast sample_progress). \<exists>r. hk_retention (hp_checkpoint p) = Some r \<and> hr_phase r \<noteq> ''proved''"
    by (simp_all add: c_def d_def sample_checkpoint_def sample_probe_def sample_progress_def)
  have "sum_list (map hp_pages sample_progress) = 1" "length sample_progress = 2" "hk_revision c = 1" unfolding c_def by code_simp+
  moreover note history_never_rewinds [OF run valid]
  ultimately show ?thesis using run probes by (auto simp: c_def)
qed

text \<open>
  A response answers what was asked, within its budget. Accepted progress has exactly one row for each requested scope, reads at
  most five pages in all, and every row continues the requested checkpoint of its scope with the next revision.
\<close>

theorem history_response_exact:
  assumes "validateHistoryProgress now v = Inr rows" "assertHistoryResponse request (Some rows) = Inr ()"
  shows "mset (map (\<lambda>r. historyScope (hp_checkpoint r)) rows) = mset (map historyScope request) \<and> sum_list (map hp_pages rows) \<le> 5 \<and>
    (\<forall>row\<in>set rows. \<exists>previous\<in>set request. historyScope previous = historyScope (hp_checkpoint row) \<and>
       hk_revision (hp_checkpoint row) = hk_revision previous + 1 \<and> history_step previous row = Inr (hp_checkpoint row))"
proof -
  note rows = progress_Inr_rows [OF assms(1)]
  define xs where "xs = map (\<lambda>r. historyScope (hp_checkpoint r)) rows"
  define ys where "ys = map historyScope request"
  have "length xs = length ys" using assms(2) by (auto simp: assertHistoryResponse_def rbind_Inr_iff throw_if_Inr xs_def ys_def)
  moreover have sub: "set xs \<subseteq> set ys" 
  proof
    fix z
    assume "z \<in> set xs"
    then obtain row where "row \<in> set rows" "z = historyScope (hp_checkpoint row)" by (auto simp: xs_def)
    then obtain previous where "previous \<in> set request" "historyScope previous = z" using response_rows [OF assms(2), of row] by auto
    then show "z \<in> set ys" by (auto simp: ys_def)
  qed
  moreover have d: "distinct xs" using rows(2) by (simp add: xs_def)
  ultimately have "card (set ys) \<le> card (set xs)" using card_length [of ys] distinct_card [OF d] by simp
  then have eq: "set xs = set ys" using sub by (simp add: card_subset_eq card_mono le_antisym)
  then have "distinct ys" using \<open>length xs = length ys\<close> distinct_card [OF d] by (simp add: card_distinct)
  then have "mset xs = mset ys" using eq d set_eq_iff_mset_eq_distinct by blast
  moreover have "\<exists>previous\<in>set request. historyScope previous = historyScope (hp_checkpoint row) \<and>
      hk_revision (hp_checkpoint row) = hk_revision previous + 1 \<and> history_step previous row = Inr (hp_checkpoint row)" if "row \<in> set rows" for row
    using response_rows [OF assms(2) that] rows(3) that continuation_Inr(2) by (fastforce simp: history_step_Inr)
  ultimately show ?thesis using rows(1) by (simp add: xs_def ys_def)
qed

definition sample_response :: js where
  "sample_response = JArr [JObj [(''baseRevision'', js_int 1), (''pages'', js_int 2), (''checkpoint'',
     JObj [(''source'', JStr ''fills''), (''providerSymbol'', JNull), (''revision'', js_int 2), (''baselineSince'', js_int 10), (''windowSince'', js_int 15),
       (''windowUntil'', js_int 20), (''cursor'', JStr ''n''), (''scannedThrough'', js_int 15), (''nextReadAt'', js_int 30), (''completeness'', JStr ''partial''),
       (''reason'', JNull)])]]"

theorem history_response_exact_witness:
  "\<exists>rows. validateHistoryProgress 100 sample_response = Inr rows \<and> length rows = 1 \<and> sum_list (map hp_pages rows) \<le> 5"
proof -
  have "case validateHistoryProgress 100 sample_response of Inr rows \<Rightarrow> length rows = 1 \<and> assertHistoryResponse [sample_checkpoint 1 None] (Some rows) = Inr () | Inl _ \<Rightarrow> False"
    by code_simp
  then obtain rows where rows: "validateHistoryProgress 100 sample_response = Inr rows" "length rows = 1" "assertHistoryResponse [sample_checkpoint 1 None] (Some rows) = Inr ()"
    by (auto split: sum.splits)
  from history_response_exact [OF rows(1,3)] rows(1,2) show ?thesis by auto
qed

end
