(* ===== verification/Account_Contracts.thy ===== *)
theory Account_Contracts
  imports Exchange_History
begin

text \<open>
  Two contracts of what an executor reports of an account: the account log (\<^verbatim>\<open>src/trading_account_log_contract.ts\<close>) and the account
  mode (\<^verbatim>\<open>src/trading_account_mode_contract.ts\<close>). Both work on untyped data, bind it to an account and a source, and share one
  budget of additional calls with the history. SHA-256 is a parameter, and one reading of the clock serves a validation.
\<close>

section \<open>Account log: sources and records\<close>

definition log_specs :: "(string \<times> string \<times> js) list" where
  "log_specs = [(''bybit'', ''bybit_uta_transaction_log_scope_v1'', JObj [(''accountType'', JStr ''UNIFIED'')]),
     (''hyperliquid'', ''hyperliquid_user_funding_v1'', JObj [(''type'', JStr ''userFunding'')]),
     (''krakenfutures'', ''kraken_account_log_v3'', JObj [(''version'', JStr ''v3''), (''sort'', JStr ''asc'')])]"

definition account_log_fields :: "(string \<times> string list) list" where
  "account_log_fields =
     [(''bybit_uta_transaction_log_scope_v1'', [''id'', ''transactionTime'', ''type'', ''subType'', ''transSubType'', ''category'', ''symbol'', ''side'',
         ''currency'', ''funding'', ''cashFlow'', ''change'', ''fee'', ''tradeId'', ''orderId'', ''orderLinkId'', ''qty'', ''size'', ''tradePrice'', ''feeRate'',
         ''bonusChange'', ''cashBalance'']),
      (''hyperliquid_user_funding_v1'', [''hash'', ''time'', ''coin'', ''type'', ''usdc'', ''szi'', ''fundingRate'', ''nSamples'']),
      (''kraken_account_log_v3'', [''id'', ''date'', ''asset'', ''collateral'', ''contract'', ''info'', ''booking_uid'', ''margin_account'', ''execution'', ''fee'',
         ''realized_funding'', ''realized_pnl'', ''old_balance'', ''new_balance'', ''funding_rate'', ''mark_price'', ''trade_price'', ''exchange_rate'',
         ''exchange_rate_from'', ''conversion_fee'', ''conversion_spread_percentage'', ''liquidation_fee''])]"

definition accountLogDigest :: "(string \<Rightarrow> string) \<Rightarrow> js \<Rightarrow> string" where
  "accountLogDigest sha256 value = sha256 (json_text value)"

definition accountLogSource :: "(string \<Rightarrow> string) \<Rightarrow> string \<Rightarrow> (string \<times> string) option" where
  "accountLogSource sha256 exchange = map_option (\<lambda>(namespace, spec). (namespace, accountLogDigest sha256 spec)) (map_of log_specs exchange)"

type_synonym log_record = "(string \<times> string option) list"

record log_binding =
  lb_namespace :: string
  lb_filterHash :: string
  lb_accountFingerprint :: string
  lb_credentialGeneration :: string

record log_audit =
  la_windowSince :: int
  la_windowUntil :: "int option"
  la_cursor :: "string option"
  la_completedAt :: int

record log_checkpoint = log_binding +
  lc_revision :: int
  lc_requiredSince :: int
  lc_windowSince :: int
  lc_windowUntil :: "int option"
  lc_cursor :: "string option"
  lc_scannedThrough :: "int option"
  lc_nextReadAt :: int
  lc_lastServedAt :: int
  lc_providerAccountUid :: "string option"
  lc_reason :: "string option"
  lc_audit :: "log_audit option"

record log_receipt = log_binding +
  lr_since :: int
  lr_until :: int
  lr_cursor :: "string option"
  lr_nextCursor :: "string option"
  lr_startedAt :: int
  lr_completedAt :: int
  lr_providerResponseAt :: "int option"
  lr_providerAccountUid :: "string option"
  lr_exhausted :: bool
  lr_records :: "log_record list"
  lr_lane :: "string option"

record log_progress =
  lp_readSkipped :: "string option"
  lp_baseRevision :: int
  lp_calls :: int
  lp_checkpoint :: log_checkpoint
  lp_receipts :: "log_receipt list"

definition log_object :: "js \<Rightarrow> (string \<times> js) list result" where
  "log_object value = (case value of JObj row \<Rightarrow> Inr row | _ \<Rightarrow> Inl (Error ''Invalid account-log object.''))"

definition log_integer :: "js \<Rightarrow> int result" where
  "log_integer value = (case safe_integer_of value of
       Some n \<Rightarrow> if n < 0 then Inl (Error ''Invalid account-log timestamp/revision.'') else Inr n
     | None \<Rightarrow> Inl (Error ''Invalid account-log timestamp/revision.''))"

definition log_nullable_integer :: "js \<Rightarrow> int option result" where
  "log_nullable_integer value = (if value = JNull then Inr None else rbind (log_integer value) (\<lambda>n. Inr (Some n)))"

text \<open>Every token of the contract may be null.\<close>

definition log_token :: "js \<Rightarrow> int \<Rightarrow> string option result" where
  "log_token value maximum = (case value of
       JNull \<Rightarrow> Inr None
     | JStr s \<Rightarrow> if s = [] \<or> int (length s) > maximum \<or> list_ex is_control s then Inl (Error ''Invalid account-log token.'') else Inr (Some s)
     | _ \<Rightarrow> Inl (Error ''Invalid account-log token.''))"

definition hash_member :: "(string \<times> js) list \<Rightarrow> string \<Rightarrow> error \<Rightarrow> string result" where
  "hash_member row field e = (case js_get row field of JStr s \<Rightarrow> if hex64 s then Inr s else Inl e | _ \<Rightarrow> Inl e)"

definition binding :: "(string \<Rightarrow> string) \<Rightarrow> (string \<times> js) list \<Rightarrow> log_binding result" where
  "binding sha256 row = (case find (\<lambda>spec. JStr (fst spec) = js_get row ''namespace'') (map snd log_specs) of
       None \<Rightarrow> Inl (Error ''Account-log source/filter is not allowlisted.'')
     | Some (namespace, spec) \<Rightarrow>
         rbind (throw_if (js_get row ''version'' \<noteq> JNum (Num 1) \<or> js_get row ''filterHash'' \<noteq> JStr (accountLogDigest sha256 spec))
           (Error ''Account-log source/filter is not allowlisted.'')) (\<lambda>_.
         rbind (hash_member row ''accountFingerprint'' (Error ''Account-log binding is unverified.'')) (\<lambda>fingerprint.
         rbind (hash_member row ''credentialGeneration'' (Error ''Account-log binding is unverified.'')) (\<lambda>generation.
           Inr \<lparr>lb_namespace = namespace, lb_filterHash = accountLogDigest sha256 spec, lb_accountFingerprint = fingerprint, lb_credentialGeneration = generation\<rparr>))))"

definition log_window :: "int \<Rightarrow> int \<Rightarrow> int \<Rightarrow> unit result" where
  "log_window now since until =
     throw_if (until < since \<or> until - since > 7 * 86400000 \<or> until > now + 1000) (Error ''Invalid pinned account-log window.'')"

definition optional_window :: "int \<Rightarrow> int \<Rightarrow> int option \<Rightarrow> unit result" where
  "optional_window now since until = (case until of None \<Rightarrow> Inr () | Some u \<Rightarrow> log_window now since u)"

definition validateAudit :: "int \<Rightarrow> js \<Rightarrow> int \<Rightarrow> log_audit result" where
  "validateAudit now value requiredSince = rbind (log_object value) (\<lambda>row.
     rbind (log_integer (js_get row ''windowSince'')) (\<lambda>since. rbind (log_nullable_integer (js_get row ''windowUntil'')) (\<lambda>until.
     rbind (log_token (js_get row ''cursor'') 4096) (\<lambda>cursor. rbind (log_integer (js_get row ''completedAt'')) (\<lambda>completed.
     rbind (throw_if (since < requiredSince \<or> since > now + 1000 \<or> cursor \<noteq> None \<and> until = None) (Error ''Historical audit lost its original obligation.'')) (\<lambda>_.
     rbind (optional_window now since until) (\<lambda>_.
       Inr \<lparr>la_windowSince = since, la_windowUntil = until, la_cursor = cursor, la_completedAt = completed\<rparr>)))))))"

definition js_of_audit :: "log_audit \<Rightarrow> js" where
  "js_of_audit a = JObj [(''windowSince'', js_int (la_windowSince a)), (''windowUntil'', js_of_int_option (la_windowUntil a)),
     (''cursor'', js_of_string_option (la_cursor a)), (''completedAt'', js_int (la_completedAt a))]"

definition log_checkpoint_text :: "log_checkpoint \<Rightarrow> string" where
  "log_checkpoint_text c = json_text (JObj ([(''version'', js_int 1), (''namespace'', JStr (lb_namespace c)), (''filterHash'', JStr (lb_filterHash c)),
     (''accountFingerprint'', JStr (lb_accountFingerprint c)), (''credentialGeneration'', JStr (lb_credentialGeneration c)), (''revision'', js_int (lc_revision c)),
     (''requiredSince'', js_int (lc_requiredSince c)), (''windowSince'', js_int (lc_windowSince c)), (''windowUntil'', js_of_int_option (lc_windowUntil c)),
     (''cursor'', js_of_string_option (lc_cursor c)), (''scannedThrough'', js_of_int_option (lc_scannedThrough c)), (''nextReadAt'', js_int (lc_nextReadAt c)),
     (''lastServedAt'', js_int (lc_lastServedAt c)), (''providerAccountUid'', js_of_string_option (lc_providerAccountUid c)), (''reason'', js_of_string_option (lc_reason c))] @
     (case lc_audit c of None \<Rightarrow> [] | Some a \<Rightarrow> [(''audit'', js_of_audit a)])))"

definition validateAccountLogCheckpoint :: "(string \<Rightarrow> string) \<Rightarrow> int \<Rightarrow> js \<Rightarrow> log_checkpoint result" where
  "validateAccountLogCheckpoint sha256 now value = rbind (log_object value) (\<lambda>row. rbind (binding sha256 row) (\<lambda>bound.
     rbind (log_integer (js_get row ''revision'')) (\<lambda>revision. rbind (log_integer (js_get row ''requiredSince'')) (\<lambda>required.
     rbind (log_integer (js_get row ''windowSince'')) (\<lambda>since. rbind (log_nullable_integer (js_get row ''windowUntil'')) (\<lambda>until.
     rbind (log_token (js_get row ''cursor'') 4096) (\<lambda>cursor. rbind (log_nullable_integer (js_get row ''scannedThrough'')) (\<lambda>scanned.
     rbind (log_integer (js_get row ''nextReadAt'')) (\<lambda>next_read. rbind (log_integer (js_get row ''lastServedAt'')) (\<lambda>served.
     rbind (log_token (js_get row ''providerAccountUid'') 256) (\<lambda>uid. rbind (log_token (js_get row ''reason'') 80) (\<lambda>reason.
     rbind (throw_if (since < required \<or> cursor \<noteq> None \<and> until = None) (Error ''Account-log checkpoint lost its window.'')) (\<lambda>_.
     rbind (optional_window now since until) (\<lambda>_.
     rbind (throw_if (since > now + 1000 \<or> (case scanned of None \<Rightarrow> 0 | Some s \<Rightarrow> s) > now + 1000) (Error ''Account-log checkpoint is in the future.'')) (\<lambda>_.
     rbind (if js_get row ''audit'' = JUndefined then Inr None else rbind (validateAudit now (js_get row ''audit'') required) (\<lambda>a. Inr (Some a))) (\<lambda>audit.
       let result = log_binding.extend bound \<lparr>lc_revision = revision, lc_requiredSince = required, lc_windowSince = since, lc_windowUntil = until, lc_cursor = cursor,
             lc_scannedThrough = scanned, lc_nextReadAt = next_read, lc_lastServedAt = served, lc_providerAccountUid = uid, lc_reason = reason, lc_audit = audit\<rparr>
       in rbind (throw_if (int (byte_length (log_checkpoint_text result)) \<ge> 8192) (Error ''Account-log checkpoint exceeds its storage budget.'')) (\<lambda>_.
          Inr result)))))))))))))))))"

definition log_item :: "string list \<Rightarrow> string \<times> js \<Rightarrow> (string \<times> string option) result" where
  "log_item allowed entry =
     (if fst entry \<notin> set allowed then Inl (Error ''Unallowlisted account-log economic field.'')
      else case snd entry of
        JNull \<Rightarrow> Inr (fst entry, None)
      | JStr s \<Rightarrow> if length s > 256 \<or> list_ex is_control s then Inl (Error ''Invalid account-log economics.'') else Inr (fst entry, Some s)
      | _ \<Rightarrow> Inl (Error ''Invalid account-log economics.''))"

definition log_record :: "string \<Rightarrow> js \<Rightarrow> log_record result" where
  "log_record namespace value = rbind (log_object value) (\<lambda>row.
     case map_of account_log_fields namespace of
       None \<Rightarrow> Inl (Error ''Unknown account-log namespace.'')
     | Some allowed \<Rightarrow> mapM (log_item allowed) row)"

definition receipt_lane :: "js \<Rightarrow> string option result" where
  "receipt_lane v = (if v = JUndefined then Inr None else if v = JStr ''forward'' then Inr (Some ''forward'') else if v = JStr ''audit'' then Inr (Some ''audit'')
     else Inl (Error ''Invalid account-log producer lane.''))"

definition validateAccountLogReceipt :: "(string \<Rightarrow> string) \<Rightarrow> int \<Rightarrow> js \<Rightarrow> log_receipt result" where
  "validateAccountLogReceipt sha256 now value = rbind (log_object value) (\<lambda>row. rbind (binding sha256 row) (\<lambda>bound.
     case (js_get row ''exhausted'', js_get row ''records'') of
       (JBool exhausted, JArr items) \<Rightarrow>
         if int (length items) > 5000 then Inl (Error ''Invalid account-log collection/EOF.'')
         else rbind (log_integer (js_get row ''since'')) (\<lambda>since. rbind (log_integer (js_get row ''until'')) (\<lambda>until.
           rbind (log_token (js_get row ''cursor'') 4096) (\<lambda>cursor. rbind (log_token (js_get row ''nextCursor'') 4096) (\<lambda>next_cursor.
           rbind (log_integer (js_get row ''startedAt'')) (\<lambda>started. rbind (log_integer (js_get row ''completedAt'')) (\<lambda>completed.
           rbind (log_nullable_integer (js_get row ''providerResponseAt'')) (\<lambda>responded. rbind (log_token (js_get row ''providerAccountUid'') 256) (\<lambda>uid.
           rbind (mapM (log_record (lb_namespace bound)) items) (\<lambda>records.
           rbind (log_window now since until) (\<lambda>_.
           rbind (receipt_lane (js_get row ''lane'')) (\<lambda>lane.
           rbind (throw_if (completed < started \<or> until > completed + 1000 \<or> exhausted \<and> next_cursor \<noteq> None)
             (Error ''Invalid account-log source observation.'')) (\<lambda>_.
             Inr (log_binding.extend bound \<lparr>lr_since = since, lr_until = until, lr_cursor = cursor, lr_nextCursor = next_cursor, lr_startedAt = started,
               lr_completedAt = completed, lr_providerResponseAt = responded, lr_providerAccountUid = uid, lr_exhausted = exhausted, lr_records = records,
               lr_lane = lane\<rparr>)))))))))))))
     | _ \<Rightarrow> Inl (Error ''Invalid account-log collection/EOF.'')))"

definition same_source :: "'a log_binding_scheme \<Rightarrow> 'b log_binding_scheme \<Rightarrow> bool" where
  "same_source a b \<longleftrightarrow> lb_namespace a = lb_namespace b \<and> lb_filterHash a = lb_filterHash b \<and> lb_accountFingerprint a = lb_accountFingerprint b \<and>
     lb_credentialGeneration a = lb_credentialGeneration b"

definition skip_reasons :: "string list" where
  "skip_reasons = [''budget_exhausted'', ''transient'', ''unsupported'', ''invalid_evidence'']"

definition skippedLogProgress :: "(string \<times> js) list \<Rightarrow> log_checkpoint \<Rightarrow> int \<Rightarrow> int \<Rightarrow> log_progress result" where
  "skippedLogProgress row checkpoint baseRevision calls = (case js_get row ''readSkipped'' of
       JStr reason \<Rightarrow>
         if reason \<notin> set skip_reasons \<or> lc_revision checkpoint \<noteq> baseRevision \<or> calls \<noteq> 0 \<or> js_get row ''receipts'' \<noteq> JArr []
         then Inl (Error ''Invalid skipped account-log read.'')
         else Inr \<lparr>lp_readSkipped = Some reason, lp_baseRevision = baseRevision, lp_calls = calls, lp_checkpoint = checkpoint, lp_receipts = []\<rparr>
     | _ \<Rightarrow> Inl (Error ''Invalid skipped account-log read.''))"

definition validateAccountLogProgress :: "(string \<Rightarrow> string) \<Rightarrow> int \<Rightarrow> js \<Rightarrow> log_progress result" where
  "validateAccountLogProgress sha256 now value = rbind (log_object value) (\<lambda>row.
     rbind (validateAccountLogCheckpoint sha256 now (js_get row ''checkpoint'')) (\<lambda>checkpoint.
     rbind (log_integer (js_get row ''baseRevision'')) (\<lambda>baseRevision. rbind (log_integer (js_get row ''calls'')) (\<lambda>calls.
     if js_get row ''readSkipped'' \<noteq> JUndefined then skippedLogProgress row checkpoint baseRevision calls
     else case js_get row ''receipts'' of
       JArr items \<Rightarrow>
         if lc_revision checkpoint \<noteq> baseRevision + 1 \<or> calls > 5 \<or> int (length items) > calls
         then Inl (Error ''Invalid account-log progress revision/budget.'')
         else rbind (mapM (validateAccountLogReceipt sha256 now) items) (\<lambda>receipts.
           rbind (throw_if (list_ex (\<lambda>item. \<not> same_source item checkpoint) receipts) (Error ''Account-log progress changed its source binding.'')) (\<lambda>_.
             Inr \<lparr>lp_readSkipped = None, lp_baseRevision = baseRevision, lp_calls = calls, lp_checkpoint = checkpoint, lp_receipts = receipts\<rparr>))
     | _ \<Rightarrow> Inl (Error ''Invalid account-log progress revision/budget.'')))))"

definition assertSkippedAccountLogUnchanged :: "log_checkpoint \<Rightarrow> log_progress \<Rightarrow> unit result" where
  "assertSkippedAccountLogUnchanged previous progress =
     throw_if (lp_readSkipped progress \<noteq> None \<and> previous \<noteq> lp_checkpoint progress) (Error ''Skipped account-log read changed its original checkpoint.'')"

definition assertAccountLogResponse :: "log_checkpoint option \<Rightarrow> log_progress option \<Rightarrow> unit result" where
  "assertAccountLogResponse request progress = (case (request, progress) of
       (None, None) \<Rightarrow> Inr ()
     | (Some r, Some p) \<Rightarrow>
         rbind (throw_if (lc_revision r \<noteq> lp_baseRevision p \<or> \<not> same_source r (lp_checkpoint p))
           (Error ''Account-log response does not match the requested source revision.'')) (\<lambda>_. assertSkippedAccountLogUnchanged r p)
     | _ \<Rightarrow> Inl (Error ''Account-log response does not match the requested source revision.''))"


section \<open>The shared call budget\<close>

text \<open>
  The pages of the history are added before the history is validated, so they may be any value. A number, a truth value or null
  takes part in the sum; with any other value the sum is no safe integer.
\<close>

definition addend :: "js \<Rightarrow> rat option" where
  "addend v = (case v of
       JNum n \<Rightarrow> (case n of Num r \<Rightarrow> Some r | NegZero \<Rightarrow> Some 0 | _ \<Rightarrow> None)
     | JBool b \<Rightarrow> Some (if b then 1 else 0)
     | JNull \<Rightarrow> Some 0
     | _ \<Rightarrow> None)"

definition add_pages :: "rat option \<Rightarrow> js \<Rightarrow> rat option result" where
  "add_pages subtotal item = (case item of
       JNull \<Rightarrow> Inl (JsTypeError ''Cannot read properties of null'')
     | JUndefined \<Rightarrow> Inl (JsTypeError ''Cannot read properties of undefined'')
     | JObj row \<Rightarrow> Inr (case (subtotal, addend (js_get row ''pages'')) of (Some s, Some p) \<Rightarrow> Some (s + p) | _ \<Rightarrow> None)
     | _ \<Rightarrow> Inr None)"

definition history_calls :: "js \<Rightarrow> rat option result" where
  "history_calls history = (case js_or history (JArr []) of
       JArr items \<Rightarrow> foldM add_pages (Some 0) items
     | _ \<Rightarrow> Inl (JsTypeError ''reduce is not a function''))"

definition member_calls :: "js \<Rightarrow> int result" where
  "member_calls v = log_integer (case v of JObj row \<Rightarrow> js_or (js_get row ''calls'') (js_int 0) | _ \<Rightarrow> js_int 0)"

definition assertSharedBudget :: "(string \<times> js) list \<Rightarrow> int \<Rightarrow> int \<Rightarrow> unit result" where
  "assertSharedBudget result targetedCalls logCalls =
     rbind (history_calls (js_get result ''history'')) (\<lambda>historyCalls.
     rbind (member_calls (js_get result ''accountMode'')) (\<lambda>modeCalls. rbind (member_calls (js_get result ''fxEvidence'')) (\<lambda>fxCalls.
     throw_if (case Option.bind historyCalls (\<lambda>r. safe_integer_of (JNum (Num r))) of
         None \<Rightarrow> True | Some h \<Rightarrow> targetedCalls + h + modeCalls + logCalls + fxCalls > 5)
       (Error ''Shared history request exceeded five additional calls.''))))"

text \<open>The window of the acquisition has been validated by the caller.\<close>

definition accountLogAcquisitionFields ::
    "(string \<Rightarrow> string) \<Rightarrow> int \<Rightarrow> int \<Rightarrow> int \<Rightarrow> (string \<times> js) list \<Rightarrow> (log_progress option \<times> int option) result" where
  "accountLogAcquisitionFields sha256 now startedAt completedAt result =
     (if list_all (\<lambda>field. js_get result field = JUndefined) [''accountLogs'', ''accountMode'', ''recoverySchedule'', ''fxEvidence''] then Inr (None, None)
      else rbind (if js_get result ''accountLogs'' = JUndefined then Inr None
          else rbind (validateAccountLogProgress sha256 now (js_get result ''accountLogs'')) (\<lambda>p. Inr (Some p))) (\<lambda>accountLogs.
        rbind (throw_if ((case accountLogs of None \<Rightarrow> False | Some p \<Rightarrow> lp_readSkipped p \<noteq> None) \<and> js_get result ''recoverySchedule'' = JUndefined)
          (Error ''Skipped account-log reads require an explicit schedule.'')) (\<lambda>_.
        rbind (log_integer (js_get result ''targetedCalls'')) (\<lambda>targetedCalls.
        rbind (assertSharedBudget result targetedCalls (case accountLogs of None \<Rightarrow> 0 | Some p \<Rightarrow> lp_calls p)) (\<lambda>_.
        rbind (throw_if (list_ex (\<lambda>r. lr_startedAt r < startedAt \<or> lr_completedAt r > completedAt) (case accountLogs of None \<Rightarrow> [] | Some p \<Rightarrow> lp_receipts p))
          (Error ''Account-log receipt is outside acquisition.'')) (\<lambda>_.
          Inr (accountLogs, Some targetedCalls)))))))"


section \<open>Account mode\<close>

record mode_observation =
  mo_accountFingerprint :: string
  mo_credentialGeneration :: string
  mo_providerAccountUid :: string
  mo_parentAccountUid :: string
  mo_isMaster :: bool
  mo_unifiedMarginStatus :: int
  mo_accountUpdatedAt :: int
  mo_startedAt :: int
  mo_completedAt :: int
  mo_evidenceHash :: string

record mode_progress =
  mp_calls :: int
  mp_observation :: "mode_observation option"
  mp_reason :: "string option"

definition mode_fields :: "string list" where
  "mode_fields = [''version'', ''profile'', ''accountFingerprint'', ''credentialGeneration'', ''providerAccountUid'', ''parentAccountUid'',
     ''isMaster'', ''unifiedMarginStatus'', ''accountUpdatedAt'', ''startedAt'', ''completedAt'', ''evidenceHash'']"

definition accountModeDigest :: "(string \<Rightarrow> string) \<Rightarrow> (string \<times> js) list \<Rightarrow> string" where
  "accountModeDigest sha256 row = sha256 (json_text (JObj (sort_key fst (filter (\<lambda>kv. fst kv \<noteq> ''evidenceHash'') row))))"

definition mode_object :: "js \<Rightarrow> (string \<times> js) list result" where
  "mode_object value = (case value of JObj row \<Rightarrow> Inr row | _ \<Rightarrow> Inl (Error ''Invalid account-mode observation.''))"

definition identityBinding :: "(string \<times> js) list \<Rightarrow> (string \<times> string \<times> string) result" where
  "identityBinding row =
     rbind (hash_member row ''accountFingerprint'' (Error ''Invalid account-mode binding/hash.'')) (\<lambda>fingerprint.
     rbind (hash_member row ''credentialGeneration'' (Error ''Invalid account-mode binding/hash.'')) (\<lambda>generation.
     rbind (hash_member row ''evidenceHash'' (Error ''Invalid account-mode binding/hash.'')) (\<lambda>evidence. Inr (fingerprint, generation, evidence))))"

definition uid_pattern :: "string \<Rightarrow> bool" where
  "uid_pattern s \<longleftrightarrow> s = ''0'' \<or> s \<noteq> [] \<and> hd s \<noteq> CHR ''0'' \<and> all_digits s \<and> length s \<le> 32"

definition uid_member :: "(string \<times> js) list \<Rightarrow> string \<Rightarrow> string result" where
  "uid_member row field = (case js_get row field of
       JStr s \<Rightarrow> if uid_pattern s then Inr s else Inl (Error ''Invalid authenticated account UID.'')
     | _ \<Rightarrow> Inl (Error ''Invalid authenticated account UID.''))"

definition identityUid :: "(string \<times> js) list \<Rightarrow> (string \<times> string) result" where
  "identityUid row = rbind (uid_member row ''providerAccountUid'') (\<lambda>uid. rbind (uid_member row ''parentAccountUid'') (\<lambda>parent. Inr (uid, parent)))"

definition identityRole :: "(string \<times> js) list \<Rightarrow> string \<Rightarrow> string \<Rightarrow> bool result" where
  "identityRole row uid parent = (case js_get row ''isMaster'' of
       JBool master \<Rightarrow> if uid = ''0'' \<or> parent = uid \<or> master \<noteq> (parent = ''0'') then Inl (Error ''Account UID role mismatch.'') else Inr master
     | _ \<Rightarrow> Inl (Error ''Account UID role mismatch.''))"

definition observationFieldSet :: "(string \<times> js) list \<Rightarrow> unit result" where
  "observationFieldSet row = throw_if (length row \<noteq> length mode_fields \<or> \<not> set mode_fields \<subseteq> set (map fst row)) (Error ''Invalid account-mode profile/schema.'')"

definition observationProfile :: "(string \<times> js) list \<Rightarrow> unit result" where
  "observationProfile row = throw_if (js_get row ''version'' \<noteq> JNum (Num 1) \<or> js_get row ''profile'' \<noteq> JStr ''bybit_uta_v1'') (Error ''Invalid account-mode profile/schema.'')"

definition observationMargin :: "(string \<times> js) list \<Rightarrow> int result" where
  "observationMargin row = (case js_get row ''unifiedMarginStatus'' of
       JNum n \<Rightarrow> (case safe_integer_of (JNum n) of
           Some k \<Rightarrow> if k \<in> {1, 3, 4, 5, 6} then Inr k else Inl (Error ''Invalid account-mode profile/schema.'')
         | None \<Rightarrow> Inl (Error ''Invalid account-mode profile/schema.''))
     | _ \<Rightarrow> Inl (Error ''Invalid account-mode profile/schema.''))"

definition mode_time :: "(string \<times> js) list \<Rightarrow> string \<Rightarrow> int result" where
  "mode_time row field = (case safe_integer_of (js_get row field) of
       Some n \<Rightarrow> if n < 0 then Inl (Error ''Invalid account-mode time.'') else Inr n
     | None \<Rightarrow> Inl (Error ''Invalid account-mode time.''))"

definition observationTimes :: "(string \<times> js) list \<Rightarrow> (int \<times> int \<times> int) result" where
  "observationTimes row = rbind (mode_time row ''accountUpdatedAt'') (\<lambda>updated. rbind (mode_time row ''startedAt'') (\<lambda>started.
     rbind (mode_time row ''completedAt'') (\<lambda>completed. Inr (updated, started, completed))))"

definition observationWindow :: "int \<Rightarrow> int \<Rightarrow> unit result" where
  "observationWindow started completed = throw_if (started > completed \<or> completed - started > 30000) (Error ''Invalid account-mode interval/digest.'')"

definition observationFreshness :: "int \<Rightarrow> int \<Rightarrow> int \<Rightarrow> unit result" where
  "observationFreshness now updated completed = throw_if (completed > now + 1000 \<or> updated > completed + 30000) (Error ''Invalid account-mode interval/digest.'')"

definition observationDigest :: "(string \<Rightarrow> string) \<Rightarrow> (string \<times> js) list \<Rightarrow> string \<Rightarrow> unit result" where
  "observationDigest sha256 row evidence = throw_if (accountModeDigest sha256 row \<noteq> evidence) (Error ''Invalid account-mode interval/digest.'')"

definition validateAccountModeObservation :: "(string \<Rightarrow> string) \<Rightarrow> int \<Rightarrow> js \<Rightarrow> mode_observation result" where
  "validateAccountModeObservation sha256 now value = rbind (mode_object value) (\<lambda>row.
     rbind (observationFieldSet row) (\<lambda>_. rbind (observationProfile row) (\<lambda>_. rbind (observationMargin row) (\<lambda>margin.
     rbind (identityBinding row) (\<lambda>(fingerprint, generation, evidence). rbind (identityUid row) (\<lambda>(uid, parent). rbind (identityRole row uid parent) (\<lambda>master.
     rbind (observationTimes row) (\<lambda>(updated, started, completed).
     rbind (observationWindow started completed) (\<lambda>_. rbind (observationFreshness now updated completed) (\<lambda>_. rbind (observationDigest sha256 row evidence) (\<lambda>_.
       Inr \<lparr>mo_accountFingerprint = fingerprint, mo_credentialGeneration = generation, mo_providerAccountUid = uid, mo_parentAccountUid = parent, mo_isMaster = master,
         mo_unifiedMarginStatus = margin, mo_accountUpdatedAt = updated, mo_startedAt = started, mo_completedAt = completed, mo_evidenceHash = evidence\<rparr>)))))))))))"

definition progress_invalid :: error where
  "progress_invalid = Error ''Invalid account-mode read progress.''"

definition progressCalls :: "(string \<times> js) list \<Rightarrow> int result" where
  "progressCalls row = (case safe_integer_of (js_get row ''calls'') of
       Some n \<Rightarrow> if n < 0 \<or> n > 2 then Inl progress_invalid else Inr n
     | None \<Rightarrow> Inl progress_invalid)"

definition progressReason :: "(string \<times> js) list \<Rightarrow> string option result" where
  "progressReason row = (case js_get row ''reason'' of
       JNull \<Rightarrow> Inr None
     | JStr s \<Rightarrow> if s \<in> {''budget_exhausted'', ''transient'', ''unsupported''} then Inr (Some s) else Inl progress_invalid
     | _ \<Rightarrow> Inl progress_invalid)"

definition no_read_evidence :: error where
  "no_read_evidence = Error ''Account-mode progress has no bound read evidence.''"

definition observedEvidence :: "int \<Rightarrow> string option \<Rightarrow> mode_observation \<Rightarrow> int \<Rightarrow> int \<Rightarrow> unit result" where
  "observedEvidence calls reason observation startedAt completedAt =
     rbind (throw_if (calls \<noteq> 2 \<or> reason \<noteq> None) no_read_evidence) (\<lambda>_.
     rbind (throw_if (mo_startedAt observation < startedAt) no_read_evidence) (\<lambda>_.
     throw_if (mo_completedAt observation > completedAt) no_read_evidence))"

definition unobservedEvidence :: "string option \<Rightarrow> unit result" where
  "unobservedEvidence reason = throw_if (reason = None) no_read_evidence"

definition progressEvidence :: "int \<Rightarrow> string option \<Rightarrow> mode_observation option \<Rightarrow> int \<Rightarrow> int \<Rightarrow> unit result" where
  "progressEvidence calls reason observation startedAt completedAt = (case observation of
       Some found \<Rightarrow> observedEvidence calls reason found startedAt completedAt | None \<Rightarrow> unobservedEvidence reason)"

definition validateAccountModeProgress :: "(string \<Rightarrow> string) \<Rightarrow> int \<Rightarrow> js \<Rightarrow> int \<Rightarrow> int \<Rightarrow> mode_progress result" where
  "validateAccountModeProgress sha256 now value startedAt completedAt = rbind (mode_object value) (\<lambda>row.
     rbind (throw_if (length row \<noteq> 3) progress_invalid) (\<lambda>_. rbind (progressCalls row) (\<lambda>calls. rbind (progressReason row) (\<lambda>reason.
     rbind (if js_get row ''observation'' = JNull then Inr None
       else rbind (validateAccountModeObservation sha256 now (js_get row ''observation'')) (\<lambda>found. Inr (Some found))) (\<lambda>observation.
     rbind (progressEvidence calls reason observation startedAt completedAt) (\<lambda>_.
       Inr \<lparr>mp_calls = calls, mp_observation = observation, mp_reason = reason\<rparr>))))))"

definition assertAccountModeResponse :: "bool option \<Rightarrow> mode_progress option \<Rightarrow> string option \<Rightarrow> string option \<Rightarrow> unit result" where
  "assertAccountModeResponse requested progress fingerprint generation =
     rbind (throw_if ((requested = Some True) \<noteq> (progress \<noteq> None)) (Error ''Account-mode response does not match its request.'')) (\<lambda>_.
     throw_if (case Option.bind progress mp_observation of
         None \<Rightarrow> False | Some found \<Rightarrow> Some (mo_accountFingerprint found) \<noteq> fingerprint \<or> Some (mo_credentialGeneration found) \<noteq> generation)
       (Error ''Account-mode response binding changed.''))"

end
