(* ===== verification/Order_Identity.thy ===== *)
theory Order_Identity
  imports Trading_Risk Trading_Ownership Trading_Accounting
begin

text \<open>
  Which remote order and which remote fill is which: the correlation of an exchange snapshot with the managed orders
  (\<^verbatim>\<open>src/exchange_order_correlation.ts\<close>), the evidence that an order can still be cancelled
  (\<^verbatim>\<open>src/trading_cancel_evidence.ts\<close>) and the identity of a fill (\<^verbatim>\<open>src/trading_fill_identity.ts\<close>). The proofs show that an order is
  adopted only on a full match, that cancel evidence names one live order with a known remainder, and
  that the key of a fill determines the fill.
\<close>

section \<open>Correlation\<close>

record local_correlation_order =
  lco_client_order_id :: string
  lco_exchange_order_id :: "string option"
  lco_provider_symbol :: "string option"
  lco_symbol :: string
  lco_role :: order_role
  lco_side :: string
  lco_quantity :: string
  lco_reduce_only :: int
  lco_trigger_price :: "string option"

record remote_identity =
  ri_clientOrderId :: "string option"
  ri_exchangeOrderId :: string
  ri_symbol :: "string option"
  ri_providerSymbol :: "string option"

definition identity_of_order :: "exchange_order_snapshot \<Rightarrow> remote_identity" where
  "identity_of_order remote = \<lparr>ri_clientOrderId = xo_clientOrderId remote, ri_exchangeOrderId = xo_exchangeOrderId remote,
     ri_symbol = Some (xo_symbol remote), ri_providerSymbol = xo_providerSymbol remote\<rparr>"

definition identity_of_fill :: "exchange_fill \<Rightarrow> remote_identity" where
  "identity_of_fill remote = \<lparr>ri_clientOrderId = xf_clientOrderId remote, ri_exchangeOrderId = xf_exchangeOrderId remote,
     ri_symbol = xf_symbol remote, ri_providerSymbol = xf_providerSymbol remote\<rparr>"

definition namespaceMatches :: "local_correlation_order \<Rightarrow> remote_identity \<Rightarrow> bool" where
  "namespaceMatches l remote =
     (if ri_symbol remote \<noteq> None \<and> ri_symbol remote \<noteq> Some (lco_symbol l) then False
      else if \<not> missing_text (lco_provider_symbol l) then ri_providerSymbol remote = lco_provider_symbol l
      else ri_symbol remote = Some (lco_symbol l))"

definition exchangeIdentityConflicts :: "local_correlation_order \<Rightarrow> remote_identity \<Rightarrow> bool" where
  "exchangeIdentityConflicts byClient remote \<longleftrightarrow>
     \<not> missing_text (lco_exchange_order_id byClient) \<and> lco_exchange_order_id byClient \<noteq> Some (ri_exchangeOrderId remote)"

definition symbolNamespaceConflicts :: "local_correlation_order \<Rightarrow> remote_identity \<Rightarrow> bool" where
  "symbolNamespaceConflicts byClient remote \<longleftrightarrow>
     ri_symbol remote \<noteq> None \<and> ri_symbol remote \<noteq> Some (lco_symbol byClient) \<or>
     \<not> missing_text (lco_provider_symbol byClient) \<and> ri_providerSymbol remote \<noteq> None \<and> lco_provider_symbol byClient \<noteq> ri_providerSymbol remote"

definition clientIdentityConflicts :: "local_correlation_order \<Rightarrow> remote_identity \<Rightarrow> bool" where
  "clientIdentityConflicts byClient remote \<longleftrightarrow> exchangeIdentityConflicts byClient remote \<or> symbolNamespaceConflicts byClient remote"

definition clientIdentityMatch :: "local_correlation_order list \<Rightarrow> remote_identity \<Rightarrow> local_correlation_order option result" where
  "clientIdentityMatch localOrders remote = (case find (\<lambda>l. Some (lco_client_order_id l) = ri_clientOrderId remote) localOrders of
       None \<Rightarrow> Inr None
     | Some byClient \<Rightarrow>
         rbind (throw_if (clientIdentityConflicts byClient remote)
           (Error ''Remote order client identity conflicts with its exchange identity or symbol namespace.'')) (\<lambda>_. Inr (Some byClient)))"

definition exchangeIdentityMatch :: "local_correlation_order list \<Rightarrow> remote_identity \<Rightarrow> local_correlation_order option result" where
  "exchangeIdentityMatch localOrders remote =
     (let byExchange = filter (\<lambda>l. lco_exchange_order_id l = Some (ri_exchangeOrderId remote) \<and> namespaceMatches l remote) localOrders
      in rbind (throw_if (length byExchange > 1) (Error ''Remote exchange identity maps to multiple local orders.'')) (\<lambda>_.
         Inr (case byExchange of [] \<Rightarrow> None | l # _ \<Rightarrow> Some l)))"

definition exactIdentity :: "local_correlation_order list \<Rightarrow> remote_identity \<Rightarrow> local_correlation_order option result" where
  "exactIdentity localOrders remote =
     rbind (clientIdentityMatch localOrders remote) (\<lambda>byClient.
       case byClient of
         Some l \<Rightarrow> Inr (Some l)
       | None \<Rightarrow> rbind (exchangeIdentityMatch localOrders remote) (\<lambda>match.
           case match of
             None \<Rightarrow> Inr None
           | Some l \<Rightarrow>
               rbind (throw_if (ri_clientOrderId remote \<noteq> None \<and> ri_clientOrderId remote \<noteq> Some (lco_client_order_id l))
                 (Error ''Remote exchange identity has a conflicting provider client identifier.'')) (\<lambda>_. Inr (Some l))))"

definition order_side_name :: "order_side \<Rightarrow> string" where
  "order_side_name side = (case side of Buy \<Rightarrow> ''buy'' | Sell \<Rightarrow> ''sell'')"

definition ownedOrderSemanticsMatch :: "local_correlation_order \<Rightarrow> exchange_order_snapshot \<Rightarrow> bool result" where
  "ownedOrderSemanticsMatch l remote =
     (if order_side_name (xo_side remote) = lco_side l \<and> xo_reduceOnly remote = (lco_reduce_only l = 1)
      then rbind (compareDecimal (xo_quantity remote) (lco_quantity l)) (\<lambda>c. Inr (c = 0)) else Inr False)"

definition ownedStopTriggerMatches :: "local_correlation_order \<Rightarrow> exchange_order_snapshot \<Rightarrow> bool result" where
  "ownedStopTriggerMatches l remote =
     (if lco_role l \<noteq> Stop_loss then Inr True
      else case (xo_triggerPrice remote, lco_trigger_price l) of
        (Some t, Some t') \<Rightarrow> rbind (compareDecimal t t') (\<lambda>c. Inr (c = 0))
      | _ \<Rightarrow> Inr False)"

definition validateOwnedOrder :: "local_correlation_order \<Rightarrow> exchange_order_snapshot \<Rightarrow> unit result" where
  "validateOwnedOrder l remote =
     rbind (ownedOrderSemanticsMatch l remote) (\<lambda>semantics.
     rbind (throw_if (\<not> semantics) (Error ''Remote order semantics conflict with the managed order.'')) (\<lambda>_.
     rbind (ownedStopTriggerMatches l remote) (\<lambda>trigger.
       throw_if (\<not> trigger) (Error ''Remote protective trigger conflicts with the managed stop.''))))"

definition correlate_order :: "local_correlation_order list \<Rightarrow> exchange_order_snapshot \<Rightarrow> exchange_order_snapshot result" where
  "correlate_order localOrders remote =
     rbind (exactIdentity localOrders (identity_of_order remote)) (\<lambda>match.
       case match of
         None \<Rightarrow> Inr remote
       | Some l \<Rightarrow> rbind (validateOwnedOrder l remote) (\<lambda>_.
           Inr (remote\<lparr>xo_clientOrderId := Some (lco_client_order_id l), xo_role := lco_role l\<rparr>)))"

definition correlateRemoteOrders :: "local_correlation_order list \<Rightarrow> exchange_order_snapshot list \<Rightarrow> exchange_order_snapshot list result" where
  "correlateRemoteOrders localOrders remoteOrders = mapM (correlate_order localOrders) remoteOrders"

definition correlate_fill :: "local_correlation_order list \<Rightarrow> exchange_fill \<Rightarrow> exchange_fill result" where
  "correlate_fill localOrders remote =
     rbind (exactIdentity localOrders (identity_of_fill remote)) (\<lambda>match.
       Inr (case match of None \<Rightarrow> remote | Some l \<Rightarrow> remote\<lparr>xf_clientOrderId := Some (lco_client_order_id l)\<rparr>))"

definition correlateRemoteFills :: "local_correlation_order list \<Rightarrow> exchange_fill list \<Rightarrow> exchange_fill list result" where
  "correlateRemoteFills localOrders remoteFills = mapM (correlate_fill localOrders) remoteFills"


section \<open>Cancellation evidence\<close>

record cancel_order =
  co_account_id :: string
  co_intent_id :: string
  co_client_order_id :: string
  co_exchange_order_id :: "string option"
  co_provider_symbol :: "string option"
  co_symbol :: string
  co_role :: string
  co_side :: string
  co_status :: string
  co_quantity :: string
  co_filled_quantity :: string
  co_reduce_only :: int
  co_price :: "string option"
  co_trigger_price :: "string option"

record active_cancel_evidence =
  ace_order :: exchange_order_snapshot
  ace_acquiredAt :: int
  ace_remainingQuantity :: string

text \<open>An open state as an executor reports it may name the account it was read from.\<close>

record bound_open_state = exchange_open_state +
  bs_accountFingerprint :: "string option"

definition validAcquisitionClock :: "int \<Rightarrow> int \<Rightarrow> bool" where
  "validAcquisitionClock startedAt completedAt \<longleftrightarrow> is_safe_integer startedAt \<and> is_safe_integer completedAt \<and> completedAt \<ge> startedAt"

definition acquisitionWindowFresh :: "acquisition_evidence \<Rightarrow> int \<Rightarrow> int \<Rightarrow> bool" where
  "acquisitionWindowFresh acquisition after now \<longleftrightarrow>
     aq_version acquisition = 1 \<and> validAcquisitionClock (aq_startedAt acquisition) (aq_completedAt acquisition) \<and> aq_startedAt acquisition \<ge> after \<and>
     aq_completedAt acquisition \<le> now \<and> now - aq_startedAt acquisition \<le> cancel_retry_ms"

definition sourceWithinAcquisition :: "source_evidence \<Rightarrow> acquisition_evidence \<Rightarrow> bool" where
  "sourceWithinAcquisition source acquisition \<longleftrightarrow> validAcquisitionClock (se_startedAt source) (se_completedAt source) \<and>
     se_startedAt source \<ge> aq_startedAt acquisition \<and> se_completedAt source \<le> aq_completedAt acquisition"

definition completeAcquisitionSource :: "acquisition_evidence \<Rightarrow> string \<Rightarrow> bool" where
  "completeAcquisitionSource acquisition source_name = (case filter (\<lambda>s. se_source s = source_name) (aq_sources acquisition) of
       [source] \<Rightarrow> se_completeness source = ''complete'' \<and> se_reason source = None \<and> sourceWithinAcquisition source acquisition
     | _ \<Rightarrow> False)"

definition acquisitionReason :: "'a exchange_open_state_scheme \<Rightarrow> int \<Rightarrow> int \<Rightarrow> string option" where
  "acquisitionReason remote after now = (case xs_acquisition remote of
       None \<Rightarrow> Some ''ACQUISITION_MISSING''
     | Some acquisition \<Rightarrow>
         if \<not> acquisitionWindowFresh acquisition after now then Some ''ACQUISITION_NOT_FRESH''
         else if list_all (completeAcquisitionSource acquisition) [''orders'', ''positions'', ''fills'', ''targeted_orders''] then None
         else Some ''SOURCE_INCOMPLETE'')"

definition cancelAcquisitionFresh :: "'a exchange_open_state_scheme \<Rightarrow> int \<Rightarrow> int \<Rightarrow> bool" where
  "cancelAcquisitionFresh remote after now \<longleftrightarrow> acquisitionReason remote after now = None"

definition assertCancelAcquisition :: "'a exchange_open_state_scheme \<Rightarrow> int \<Rightarrow> int \<Rightarrow> unit result" where
  "assertCancelAcquisition remote after now = (case acquisitionReason remote after now of
       None \<Rightarrow> Inr ()
     | Some reason \<Rightarrow> Inl (CancellationEvidenceError reason
         (reason @ '': cancellation requires newly acquired complete account evidence within ten seconds.'')))"

text \<open>A missing market of a snapshot is no market; it does not equal the null of a local order.\<close>

definition same_market :: "exchange_order_snapshot \<Rightarrow> cancel_order \<Rightarrow> bool" where
  "same_market order l \<longleftrightarrow> xo_providerSymbol order \<noteq> None \<and> xo_providerSymbol order = co_provider_symbol l"

definition cancel_candidate :: "cancel_order \<Rightarrow> exchange_order_snapshot \<Rightarrow> bool" where
  "cancel_candidate l order \<longleftrightarrow> xo_clientOrderId order = Some (co_client_order_id l) \<or>
     Some (xo_exchangeOrderId order) = co_exchange_order_id l \<and> same_market order l"

definition same_fields :: "cancel_order \<Rightarrow> exchange_order_snapshot \<Rightarrow> bool" where
  "same_fields l order \<longleftrightarrow> xo_clientOrderId order = Some (co_client_order_id l) \<and> Some (xo_exchangeOrderId order) = co_exchange_order_id l \<and>
     same_market order l \<and> xo_symbol order = co_symbol l \<and> role_name (xo_role order) = co_role l \<and> order_side_name (xo_side order) = co_side l \<and>
     xo_reduceOnly order = (co_reduce_only l = 1) \<and> xo_price order = co_price l \<and> xo_triggerPrice order = co_trigger_price l"

definition exactOrder :: "cancel_order \<Rightarrow> exchange_order_snapshot list \<Rightarrow> exchange_order_snapshot option" where
  "exactOrder l orders = (case filter (cancel_candidate l) orders of
       [order] \<Rightarrow> if same_fields l order then Some order else None
     | _ \<Rightarrow> None)"

definition observedActiveOrder :: "exchange_order_snapshot \<Rightarrow> bool" where
  "observedActiveOrder order \<longleftrightarrow> xo_status order \<in> {Status_open, Status_partially_filled} \<and> xo_filledQuantity order \<noteq> None"

definition unchangedOrderProgress :: "cancel_order \<Rightarrow> string \<Rightarrow> string \<Rightarrow> bool result" where
  "unchangedOrderProgress l quantity filled =
     rbind (compareDecimal quantity (co_quantity l)) (\<lambda>c.
       if c \<noteq> 0 then Inr False else rbind (compareDecimal filled (co_filled_quantity l)) (\<lambda>d. Inr (d \<ge> 0)))"

definition remaining_of :: "cancel_order \<Rightarrow> string \<Rightarrow> string \<Rightarrow> string option result" where
  "remaining_of l quantity0 filled0 =
     rbind (decimal_positive quantity0) (\<lambda>quantity. rbind (decimal filled0) (\<lambda>filled.
     rbind (unchangedOrderProgress l quantity filled) (\<lambda>unchanged.
       if \<not> unchanged then Inr None
       else rbind (subtractDecimal quantity filled) (\<lambda>remaining. rbind (compareDecimal remaining ''0'') (\<lambda>c.
         Inr (if c > 0 then Some remaining else None))))))"

definition activeRemaining :: "cancel_order \<Rightarrow> exchange_order_snapshot \<Rightarrow> string option" where
  "activeRemaining l order =
     (if \<not> observedActiveOrder order then None
      else case xo_filledQuantity order of
        None \<Rightarrow> None
      | Some filled \<Rightarrow> (case remaining_of l (xo_quantity order) filled of Inr r \<Rightarrow> r | Inl _ \<Rightarrow> None))"

definition remoteAccountBound :: "string option \<Rightarrow> trading_account \<Rightarrow> bool" where
  "remoteAccountBound fingerprint account \<longleftrightarrow> ta_exchange account = ''paper'' \<or>
     \<not> missing_text (ta_externalAccountId account) \<and> \<not> missing_text (ta_credentialGeneration account) \<and> fingerprint = ta_externalAccountId account"

definition cancellationAccountBound :: "cancel_order \<Rightarrow> bound_open_state \<Rightarrow> trading_account \<Rightarrow> bool" where
  "cancellationAccountBound l remote account \<longleftrightarrow>
     co_account_id l = ta_id account \<and> \<not> missing_text (co_exchange_order_id l) \<and> \<not> missing_text (co_provider_symbol l) \<and>
     remoteAccountBound (bs_accountFingerprint remote) account"

definition freshBoundAcquisition :: "cancel_order \<Rightarrow> bound_open_state \<Rightarrow> trading_account \<Rightarrow> int \<Rightarrow> int \<Rightarrow> acquisition_evidence option" where
  "freshBoundAcquisition l remote account after now =
     (if cancellationAccountBound l remote account \<and> cancelAcquisitionFresh remote after now then xs_acquisition remote else None)"

definition exactActiveCancelEvidence ::
    "cancel_order \<Rightarrow> bound_open_state \<Rightarrow> trading_account \<Rightarrow> int \<Rightarrow> int \<Rightarrow> active_cancel_evidence option" where
  "exactActiveCancelEvidence l remote account after now =
     (case freshBoundAcquisition l remote account after now of
        None \<Rightarrow> None
      | Some acquisition \<Rightarrow> (case exactOrder l (xs_orders remote) of
          None \<Rightarrow> None
        | Some order \<Rightarrow> (case activeRemaining l order of
            None \<Rightarrow> None
          | Some remaining \<Rightarrow> Some \<lparr>ace_order = order, ace_acquiredAt = aq_startedAt acquisition, ace_remainingQuantity = remaining\<rparr>)))"


section \<open>Fill identity\<close>

definition fill_profiles :: "(string \<times> string list) list" where
  "fill_profiles = [(''bybit_execution_v1'', [''linear'', ''inverse'', ''spot'', ''option'']), (''hyperliquid_user_fill_v1'', [''perpetual'']),
     (''kraken_history_execution_v3'', [''futures'']), (''paper_fill_v1'', [''paper''])]"

definition profile_providers :: "(string \<times> string) list" where
  "profile_providers = [(''bybit_execution_v1'', ''bybit''), (''hyperliquid_user_fill_v1'', ''hyperliquid''),
     (''kraken_history_execution_v3'', ''krakenfutures''), (''paper_fill_v1'', ''paper'')]"

text \<open>
  A value used as a property key is converted to a string. An array is converted by joining its elements, so an array of one
  element is the key of that element; no other value that is not a string has the text of a profile.
\<close>

fun profile_key :: "js \<Rightarrow> string option" where
  "profile_key (JStr s) = Some s"
| "profile_key (JArr [x]) = profile_key x"
| "profile_key _ = None"

definition fill_object :: "js \<Rightarrow> (string \<times> js) list" where
  "fill_object value = (case value of JObj props \<Rightarrow> props | _ \<Rightarrow> [])"

definition fill_identifier :: "js \<Rightarrow> string result" where
  "fill_identifier value = (case value of
       JStr s \<Rightarrow> if s = [] \<or> js_trim s \<noteq> s \<or> int (length s) > 256 \<or> list_ex is_control s
         then Inl (Error ''FILL_IDENTITY_UNPROVEN: missing exact provider identifier.'') else Inr s
     | _ \<Rightarrow> Inl (Error ''FILL_IDENTITY_UNPROVEN: missing exact provider identifier.''))"

text \<open>The profile keeps the form it came in.\<close>

record fill_identity =
  fid_profile :: js
  fid_marketNamespace :: string
  fid_providerMarketId :: string
  fid_providerSymbol :: string
  fid_providerFillId :: string
  fid_scopeTimestamp :: "int option"

definition identity_keys :: "string list" where
  "identity_keys = [''marketNamespace'', ''profile'', ''providerFillId'', ''providerMarketId'', ''providerSymbol'', ''scopeTimestamp'', ''version'']"

definition profile_namespace :: "(string \<times> js) list \<Rightarrow> string option" where
  "profile_namespace row = (case (Option.bind (profile_key (js_get row ''profile'')) (map_of fill_profiles), js_get row ''marketNamespace'') of
       (Some namespaces, JStr n) \<Rightarrow> if n \<in> set namespaces then Some n else None
     | _ \<Rightarrow> None)"

definition scope_timestamp :: "(string \<times> js) list \<Rightarrow> int option result" where
  "scope_timestamp row =
     (if js_get row ''profile'' = JStr ''hyperliquid_user_fill_v1''
      then (case safe_integer_of (js_get row ''scopeTimestamp'') of
          Some n \<Rightarrow> if n < 0 then Inl (Error ''Invalid Hyperliquid fill time identity.'') else Inr (Some n)
        | None \<Rightarrow> Inl (Error ''Invalid Hyperliquid fill time identity.''))
      else rbind (throw_if (js_get row ''scopeTimestamp'' \<noteq> JNull) (Error ''Only the Hyperliquid native identity includes its timestamp.'')) (\<lambda>_. Inr None))"

definition validateFillIdentity :: "js \<Rightarrow> fill_identity result" where
  "validateFillIdentity value =
     (let row = fill_object value in
      if sort (map fst row) \<noteq> identity_keys \<or> js_get row ''version'' \<noteq> JNum (Num 1) then Inl (Error ''Invalid fill identity profile.'')
      else case profile_namespace row of
        None \<Rightarrow> Inl (Error ''Invalid fill identity profile.'')
      | Some namespace \<Rightarrow>
          rbind (fill_identifier (js_get row ''providerMarketId'')) (\<lambda>market.
          rbind (fill_identifier (js_get row ''providerSymbol'')) (\<lambda>symbol.
          rbind (fill_identifier (js_get row ''providerFillId'')) (\<lambda>fill.
          rbind (scope_timestamp row) (\<lambda>time.
            Inr \<lparr>fid_profile = js_get row ''profile'', fid_marketNamespace = namespace, fid_providerMarketId = market,
              fid_providerSymbol = symbol, fid_providerFillId = fill, fid_scopeTimestamp = time\<rparr>)))))"

definition number_is :: "js \<Rightarrow> int \<Rightarrow> bool" where
  "number_is v n \<longleftrightarrow> strict_equal v (JNum (Num (of_int n)))"

definition nativeIntegerText :: "js \<Rightarrow> string option" where
  "nativeIntegerText value = (case value of
       JStr s \<Rightarrow> if s \<noteq> [] \<and> int (length s) \<le> 256 \<and> all_digits s \<and> js_trim s = s then Some s else None
     | _ \<Rightarrow> (case safe_integer_of value of Some n \<Rightarrow> if n \<ge> 0 then Some (show_int n) else None | None \<Rightarrow> None))"

definition matchesBybit :: "(string \<times> js) list \<Rightarrow> exchange_fill \<Rightarrow> fill_identity \<Rightarrow> bool" where
  "matchesBybit info fill identity \<longleftrightarrow>
     js_get info ''execId'' = JStr (xf_exchangeFillId fill) \<and> js_get info ''orderId'' = JStr (xf_exchangeOrderId fill) \<and>
     js_get info ''symbol'' = JStr (fid_providerMarketId identity) \<and> nativeIntegerText (js_get info ''execTime'') = Some (show_int (xf_filledAt fill)) \<and>
     (''category'' \<notin> set (map fst info) \<or> js_get info ''category'' = JStr (fid_marketNamespace identity))"

definition matchesHyperliquid :: "(string \<times> js) list \<Rightarrow> exchange_fill \<Rightarrow> fill_identity \<Rightarrow> bool" where
  "matchesHyperliquid info fill identity \<longleftrightarrow>
     nativeIntegerText (js_get info ''tid'') = Some (xf_exchangeFillId fill) \<and> nativeIntegerText (js_get info ''oid'') = Some (xf_exchangeOrderId fill) \<and>
     js_get info ''coin'' = JStr (fid_providerMarketId identity) \<and> number_is (js_get info ''time'') (xf_filledAt fill) \<and>
     fid_scopeTimestamp identity = Some (xf_filledAt fill)"

definition matchesKraken :: "(string \<times> js) list \<Rightarrow> exchange_fill \<Rightarrow> fill_identity \<Rightarrow> bool" where
  "matchesKraken info fill identity \<longleftrightarrow>
     js_get info ''identitySource'' = JStr ''kraken_history_execution_v3'' \<and> js_get info ''executionUid'' = JStr (xf_exchangeFillId fill) \<and>
     js_get info ''orderUid'' = JStr (xf_exchangeOrderId fill) \<and> js_get info ''tradeable'' = JStr (fid_providerMarketId identity) \<and>
     (case js_get info ''accountUid'' of JStr s \<Rightarrow> s \<noteq> [] | _ \<Rightarrow> False) \<and> number_is (js_get info ''executionTimestamp'') (xf_filledAt fill)"

definition nativeMatches :: "exchange_fill \<Rightarrow> fill_identity \<Rightarrow> bool" where
  "nativeMatches fill identity =
     (let raw = fill_object (xf_raw fill); info = fill_object (js_get raw ''info'') in
      js_get raw ''id'' = JStr (xf_exchangeFillId fill) \<and> js_get raw ''order'' = JStr (xf_exchangeOrderId fill) \<and>
      js_get raw ''symbol'' = JStr (fid_providerSymbol identity) \<and>
      (if fid_profile identity = JStr ''bybit_execution_v1'' then matchesBybit info fill identity
       else if fid_profile identity = JStr ''hyperliquid_user_fill_v1'' then matchesHyperliquid info fill identity
       else if fid_profile identity = JStr ''kraken_history_execution_v3'' then matchesKraken info fill identity
       else False))"

definition is_paper :: "trading_account \<Rightarrow> bool" where
  "is_paper account \<longleftrightarrow> ta_exchange account = ''paper'' \<and> ta_mode account = Paper"

definition fillAccountFingerprint :: "trading_account \<Rightarrow> string option" where
  "fillAccountFingerprint account = (if is_paper account then Some (''paper:'' @ ta_id account) else ta_externalAccountId account)"

definition fill_market :: "exchange_fill \<Rightarrow> string option" where
  "fill_market fill = (case xf_providerSymbol fill of Some s \<Rightarrow> Some s | None \<Rightarrow> xf_symbol fill)"

text \<open>The identity before it is bound to the account.\<close>

definition candidate_identity :: "trading_account \<Rightarrow> exchange_fill \<Rightarrow> fill_identity option result" where
  "candidate_identity account fill =
     (if is_paper account
      then Inr (case fill_market fill of
          None \<Rightarrow> None
        | Some symbol \<Rightarrow> if symbol = [] then None
            else Some \<lparr>fid_profile = JStr ''paper_fill_v1'', fid_marketNamespace = ''paper'', fid_providerMarketId = symbol, fid_providerSymbol = symbol,
              fid_providerFillId = xf_exchangeFillId fill, fid_scopeTimestamp = None\<rparr>)
      else if js_falsy (xf_identity fill) then Inr None
      else rbind (validateFillIdentity (xf_identity fill)) (\<lambda>identity.
        Inr (if Option.bind (profile_key (fid_profile identity)) (map_of profile_providers) = Some (ta_exchange account) \<and> nativeMatches fill identity
             then Some identity else None)))"

text \<open>A fill is proven only with a profile that is a string, so the text of another value never enters a key.\<close>

definition json_profile :: "js \<Rightarrow> string" where
  "json_profile v = (case v of JStr s \<Rightarrow> json_string s | _ \<Rightarrow> ''null'')"

definition json_option_int :: "int option \<Rightarrow> string" where
  "json_option_int v = (case v of None \<Rightarrow> ''null'' | Some n \<Rightarrow> show_int n)"

definition fill_key :: "trading_account \<Rightarrow> string \<Rightarrow> fill_identity \<Rightarrow> string" where
  "fill_key account fingerprint identity = json_array [json_string ''fill-v1'', json_string (ta_exchange account), json_string fingerprint,
     json_profile (fid_profile identity), json_string (fid_marketNamespace identity), json_string (fid_providerMarketId identity),
     json_string (fid_providerFillId identity), json_option_int (fid_scopeTimestamp identity)]"

definition provenFillIdentity :: "trading_account \<Rightarrow> exchange_fill \<Rightarrow> (string \<times> fill_identity) option result" where
  "provenFillIdentity account fill =
     rbind (candidate_identity account fill) (\<lambda>candidate. Inr (case (candidate, fillAccountFingerprint account) of
         (Some identity, Some fingerprint) \<Rightarrow>
           if fingerprint = [] \<or> fid_providerFillId identity \<noteq> xf_exchangeFillId fill \<or> Some (fid_providerSymbol identity) \<noteq> fill_market fill then None
           else Some (fill_key account fingerprint identity, identity)
       | _ \<Rightarrow> None))"

definition fillDigestIdentity :: "trading_account \<Rightarrow> exchange_fill \<Rightarrow> js result" where
  "fillDigestIdentity account fill =
     rbind (provenFillIdentity account fill) (\<lambda>proven. Inr (case proven of
         Some (key, _) \<Rightarrow> JArr [JStr ''native'', JStr key]
       | None \<Rightarrow> JArr [JStr ''unproved'', (case fill_market fill of Some s \<Rightarrow> JStr s | None \<Rightarrow> JNull), JStr (xf_exchangeFillId fill),
           JStr (xf_exchangeOrderId fill), JNum (Num (of_int (xf_filledAt fill)))]))"

section \<open>What a correlated order is\<close>

lemma compare_equal: "compareDecimal a b = Inr 0 \<Longrightarrow> dec_val a = dec_val b"
  using compare_Inr [of a b 0] by (auto simp: rat_cmp_def split: if_splits)

text \<open>The remote order answers to an identity of the managed order.\<close>

definition known_as :: "local_correlation_order \<Rightarrow> exchange_order_snapshot \<Rightarrow> bool" where
  "known_as l remote \<longleftrightarrow> xo_clientOrderId remote = Some (lco_client_order_id l) \<or>
     lco_exchange_order_id l = Some (xo_exchangeOrderId remote) \<and> namespaceMatches l (identity_of_order remote)"

text \<open>It agrees with the managed order in everything that is known of both.\<close>

definition agrees_with :: "local_correlation_order \<Rightarrow> exchange_order_snapshot \<Rightarrow> bool" where
  "agrees_with l remote \<longleftrightarrow> xo_symbol remote = lco_symbol l \<and> order_side_name (xo_side remote) = lco_side l \<and>
     xo_reduceOnly remote = (lco_reduce_only l = 1) \<and> dec_val (xo_quantity remote) = dec_val (lco_quantity l) \<and>
     (xo_clientOrderId remote = None \<or> xo_clientOrderId remote = Some (lco_client_order_id l)) \<and>
     (missing_text (lco_exchange_order_id l) \<or> lco_exchange_order_id l = Some (xo_exchangeOrderId remote)) \<and>
     (missing_text (lco_provider_symbol l) \<or> xo_providerSymbol remote = None \<or> xo_providerSymbol remote = lco_provider_symbol l) \<and>
     (lco_role l = Stop_loss \<longrightarrow> (\<exists>t t'. xo_triggerPrice remote = Some t \<and> lco_trigger_price l = Some t' \<and> dec_val t = dec_val t'))"

lemma exact_identity_cases:
  assumes "exactIdentity locals remote = Inr match"
  obtains (client) l where "match = Some l" "l \<in> set locals" "Some (lco_client_order_id l) = ri_clientOrderId remote" "\<not> clientIdentityConflicts l remote"
  | (exchange) l where "match = Some l" "l \<in> set locals" "lco_exchange_order_id l = Some (ri_exchangeOrderId remote)" "namespaceMatches l remote"
      "ri_clientOrderId remote = None \<or> ri_clientOrderId remote = Some (lco_client_order_id l)"
  | (none) "match = None" "\<forall>l\<in>set locals. Some (lco_client_order_id l) \<noteq> ri_clientOrderId remote \<and>
      \<not> (lco_exchange_order_id l = Some (ri_exchangeOrderId remote) \<and> namespaceMatches l remote)"
proof (cases "find (\<lambda>l. Some (lco_client_order_id l) = ri_clientOrderId remote) locals")
  case (Some l)
  then have "l \<in> set locals" "Some (lco_client_order_id l) = ri_clientOrderId remote" by (auto simp: find_Some_iff)
  moreover have "match = Some l" "\<not> clientIdentityConflicts l remote"
    using assms unfolding exactIdentity_def clientIdentityMatch_def Some by (auto simp: rbind_Inr_iff throw_if_Inr)
  ultimately show thesis using client by blast
next
  case None
  define found where "found = filter (\<lambda>l. lco_exchange_order_id l = Some (ri_exchangeOrderId remote) \<and> namespaceMatches l remote) locals"
  show thesis
  proof (cases found)
    case Nil
    then have "\<forall>l\<in>set locals. \<not> (lco_exchange_order_id l = Some (ri_exchangeOrderId remote) \<and> namespaceMatches l remote)"
      by (simp add: found_def filter_empty_conv)
    then show thesis
      using assms None Nil none by (auto simp: exactIdentity_def clientIdentityMatch_def exchangeIdentityMatch_def found_def [symmetric] find_None_iff rbind_Inr_iff throw_if_Inr)
  next
    case (Cons l rest)
    then have "l \<in> set found" by simp
    then have "l \<in> set locals" "lco_exchange_order_id l = Some (ri_exchangeOrderId remote)" "namespaceMatches l remote" by (auto simp: found_def)
    then show thesis
      using assms None Cons exchange by (auto simp: exactIdentity_def clientIdentityMatch_def exchangeIdentityMatch_def found_def [symmetric] Let_def rbind_Inr_iff throw_if_Inr)
  qed
qed

lemma owned_order_Inr:
  assumes "validateOwnedOrder l remote = Inr ()"
  shows "order_side_name (xo_side remote) = lco_side l \<and> xo_reduceOnly remote = (lco_reduce_only l = 1) \<and> dec_val (xo_quantity remote) = dec_val (lco_quantity l) \<and>
    (lco_role l = Stop_loss \<longrightarrow> (\<exists>t t'. xo_triggerPrice remote = Some t \<and> lco_trigger_price l = Some t' \<and> dec_val t = dec_val t'))"
proof -
  have semantics: "ownedOrderSemanticsMatch l remote = Inr True" and trigger: "ownedStopTriggerMatches l remote = Inr True"
    using assms by (auto simp: validateOwnedOrder_def rbind_Inr_iff throw_if_Inr)
  have "order_side_name (xo_side remote) = lco_side l \<and> xo_reduceOnly remote = (lco_reduce_only l = 1) \<and> compareDecimal (xo_quantity remote) (lco_quantity l) = Inr 0"
    using semantics by (auto simp: ownedOrderSemanticsMatch_def rbind_Inr_iff split: if_splits)
  moreover have "\<exists>t t'. xo_triggerPrice remote = Some t \<and> lco_trigger_price l = Some t' \<and> compareDecimal t t' = Inr 0" if "lco_role l = Stop_loss"
    using trigger that by (auto simp: ownedStopTriggerMatches_def rbind_Inr_iff split: option.splits)
  ultimately show ?thesis using compare_equal by blast
qed

lemma correlate_order_Inr:
  assumes "correlate_order locals remote = Inr out"
  shows "out = remote \<and> (\<forall>l\<in>set locals. \<not> known_as l remote) \<or>
    (\<exists>l\<in>set locals. out = remote\<lparr>xo_clientOrderId := Some (lco_client_order_id l), xo_role := lco_role l\<rparr> \<and> known_as l remote \<and> agrees_with l remote)"
proof -
  obtain match where m: "exactIdentity locals (identity_of_order remote) = Inr match"
    and out: "(case match of None \<Rightarrow> Inr remote | Some l \<Rightarrow> rbind (validateOwnedOrder l remote) (\<lambda>_.
      Inr (remote\<lparr>xo_clientOrderId := Some (lco_client_order_id l), xo_role := lco_role l\<rparr>))) = Inr out"
    using assms unfolding correlate_order_def rbind_Inr_iff by blast
  have adopted: "?thesis" if "match = Some l" "l \<in> set locals" "known_as l remote" "validateOwnedOrder l remote = Inr () \<Longrightarrow> agrees_with l remote" for l
    using out that unfolding that(1) by (cases "validateOwnedOrder l remote") auto
  from m show ?thesis
  proof (cases rule: exact_identity_cases)
    case (client l)
    have known: "known_as l remote" using client(3) by (simp add: known_as_def identity_of_order_def)
    have "agrees_with l remote" if "validateOwnedOrder l remote = Inr ()"
      using client(3,4) owned_order_Inr [OF that]
      by (simp add: agrees_with_def identity_of_order_def clientIdentityConflicts_def exchangeIdentityConflicts_def symbolNamespaceConflicts_def) metis
    with adopted client(1,2) known show ?thesis by blast
  next
    case (exchange l)
    have known: "known_as l remote" using exchange(3,4) by (simp add: known_as_def identity_of_order_def)
    have "agrees_with l remote" if "validateOwnedOrder l remote = Inr ()"
      using exchange(3-5) owned_order_Inr [OF that]
      by (simp add: agrees_with_def identity_of_order_def namespaceMatches_def split: if_splits)
    with adopted exchange(1,2) known show ?thesis by blast
  next
    case none
    then show ?thesis using out by (auto simp: known_as_def identity_of_order_def)
  qed
qed

section \<open>What cancel evidence says\<close>

lemma filter_one: "(case filter P xs of [x] \<Rightarrow> if Q x then Some x else None | _ \<Rightarrow> None) = Some y \<longleftrightarrow> filter P xs = [y] \<and> Q y"
  by (auto split: list.splits if_splits)

lemma exact_order_Some: "exactOrder l orders = Some order \<longleftrightarrow> filter (cancel_candidate l) orders = [order] \<and> same_fields l order"
  unfolding exactOrder_def by (rule filter_one)

lemma cancel_remaining_Inr:
  assumes "remaining_of l quantity filled = Inr (Some r)"
  shows "dec_val (js_trim quantity) = dec_val (co_quantity l)" "dec_val (co_filled_quantity l) \<le> dec_val (js_trim filled)"
    "canonical_decimal r" "dec_val r = dec_val (js_trim quantity) - dec_val (js_trim filled)" "0 < dec_val r"
proof -
  obtain q f c where q: "decimal_positive quantity = Inr q" "decimal filled = Inr f" "unchangedOrderProgress l q f = Inr True"
    "subtractDecimal q f = Inr r" "compareDecimal r ''0'' = Inr c" "c > 0"
    using assms by (auto simp: remaining_of_def rbind_Inr_iff split: if_splits)
  obtain d where d: "compareDecimal q (co_quantity l) = Inr 0" "compareDecimal f (co_filled_quantity l) = Inr d" "d \<ge> 0"
    using q(3) by (auto simp: unchangedOrderProgress_def rbind_Inr_iff split: if_splits)
  have v: "dec_val q = dec_val (js_trim quantity)" "dec_val f = dec_val (js_trim filled)"
    using decimal_positive_value [OF q(1)] decimal_id_value [OF q(2)] by auto
  show "dec_val (js_trim quantity) = dec_val (co_quantity l)" using compare_equal [OF d(1)] v by simp
  show "dec_val (co_filled_quantity l) \<le> dec_val (js_trim filled)" using compare_Inr [OF d(2)] d(3) v by (auto simp: rat_cmp_def split: if_splits)
  show "canonical_decimal r" "dec_val r = dec_val (js_trim quantity) - dec_val (js_trim filled)" using subtract_Inr [OF q(4)] v by auto
  show "0 < dec_val r" using compare_Inr [OF q(5)] q(6) zero_decimal(3) by (auto simp: rat_cmp_def split: if_splits)
qed

lemma cancel_fresh:
  assumes "cancelAcquisitionFresh remote after now" "xs_acquisition remote = Some a"
  shows "after \<le> aq_startedAt a \<and> aq_startedAt a \<le> aq_completedAt a \<and> aq_completedAt a \<le> now \<and> now \<le> aq_startedAt a + 10000 \<and>
    list_all (completeAcquisitionSource a) [''orders'', ''positions'', ''fills'', ''targeted_orders'']"
  using assms
  by (simp add: cancelAcquisitionFresh_def acquisitionReason_def acquisitionWindowFresh_def validAcquisitionClock_def cancel_retry_ms_def split: if_splits)

lemma complete_source:
  assumes "completeAcquisitionSource a name"
  shows "\<exists>source. filter (\<lambda>s. se_source s = name) (aq_sources a) = [source] \<and> se_completeness source = ''complete'' \<and> se_reason source = None \<and>
    aq_startedAt a \<le> se_startedAt source \<and> se_startedAt source \<le> se_completedAt source \<and> se_completedAt source \<le> aq_completedAt a"
  using assms by (auto simp: completeAcquisitionSource_def sourceWithinAcquisition_def validAcquisitionClock_def split: list.splits)

lemma cancel_evidence_parts:
  assumes "exactActiveCancelEvidence l remote account after now = Some e"
  obtains a filled where "xs_acquisition remote = Some a" "cancellationAccountBound l remote account" "cancelAcquisitionFresh remote after now"
    "filter (cancel_candidate l) (xs_orders remote) = [ace_order e]" "same_fields l (ace_order e)" "observedActiveOrder (ace_order e)"
    "xo_filledQuantity (ace_order e) = Some filled" "remaining_of l (xo_quantity (ace_order e)) filled = Inr (Some (ace_remainingQuantity e))"
    "ace_acquiredAt e = aq_startedAt a"
proof -
  obtain a order r where a: "freshBoundAcquisition l remote account after now = Some a" "exactOrder l (xs_orders remote) = Some order"
    "activeRemaining l order = Some r" "e = \<lparr>ace_order = order, ace_acquiredAt = aq_startedAt a, ace_remainingQuantity = r\<rparr>"
    using assms by (auto simp: exactActiveCancelEvidence_def split: option.splits)
  obtain filled where f: "observedActiveOrder order" "xo_filledQuantity order = Some filled" "remaining_of l (xo_quantity order) filled = Inr (Some r)"
    using a(3) by (auto simp: activeRemaining_def split: if_splits option.splits sum.splits)
  show thesis using that [of a filled] a f by (auto simp: freshBoundAcquisition_def exact_order_Some split: if_splits)
qed


section \<open>A profile that is not a string\<close>

text \<open>
  The profile is looked up as a property key, which converts it to a string, so an array around the name of a profile is an
  accepted profile. Its identity never proves a fill, because no native form is compared for it.
\<close>

definition array_profile :: js where
  "array_profile = JObj [(''version'', JNum (Num 1)), (''profile'', JArr [JStr ''bybit_execution_v1'']), (''marketNamespace'', JStr ''linear''),
     (''providerMarketId'', JStr ''BTCUSDT''), (''providerSymbol'', JStr ''BTC/USDT:USDT''), (''providerFillId'', JStr ''e1''), (''scopeTimestamp'', JNull)]"

lemma array_profile_accepted:
  "\<exists>identity. validateFillIdentity array_profile = Inr identity \<and> fid_profile identity = JArr [JStr ''bybit_execution_v1''] \<and> (\<forall>fill. \<not> nativeMatches fill identity)"
proof -
  have "case validateFillIdentity array_profile of Inr i \<Rightarrow> fid_profile i = JArr [JStr ''bybit_execution_v1''] | Inl _ \<Rightarrow> False" by code_simp
  then obtain i where "validateFillIdentity array_profile = Inr i" "fid_profile i = JArr [JStr ''bybit_execution_v1'']" by (auto split: sum.splits)
  then show ?thesis by (auto simp: nativeMatches_def Let_def)
qed


section \<open>The key of a fill\<close>

lemma json_option_int_inj: "json_option_int a = json_option_int b \<longleftrightarrow> a = b"
proof -
  have "show_int n \<noteq> ''null''" for n
  proof
    assume s: "show_int n = ''null''"
    show False
    proof (cases "n < 0")
      case False
      then have "all_digits ''null''" using s show_nonneg_digits [of n] by (simp add: show_int_def)
      moreover have "\<not> all_digits ''null''" by code_simp
      ultimately show False by simp
    qed (use s in \<open>simp add: show_int_def\<close>)
  qed
  moreover have "show_int m = show_int n \<longleftrightarrow> m = n" for m n by (metis bigint_of_show)
  ultimately show ?thesis by (auto simp: json_option_int_def split: option.splits) metis+
qed

section \<open>What a proven fill is\<close>

lemma candidate_string:
  assumes "candidate_identity account fill = Inr (Some i)"
  shows "\<exists>p. fid_profile i = JStr p" "\<not> is_paper account \<Longrightarrow> nativeMatches fill i"
  using assms by (auto simp: candidate_identity_def rbind_Inr_iff nativeMatches_def Let_def split: if_splits option.splits)

lemma proven_parts:
  assumes "provenFillIdentity account fill = Inr (Some (k, i))"
  obtains p fingerprint where "fid_profile i = JStr p" "fillAccountFingerprint account = Some fingerprint" "k = fill_key account fingerprint i"
    "fid_providerFillId i = xf_exchangeFillId fill" "fill_market fill = Some (fid_providerSymbol i)" "\<not> is_paper account \<Longrightarrow> nativeMatches fill i"
proof -
  obtain fingerprint where "candidate_identity account fill = Inr (Some i)" "fillAccountFingerprint account = Some fingerprint"
    "k = fill_key account fingerprint i" "fid_providerFillId i = xf_exchangeFillId fill" "fill_market fill = Some (fid_providerSymbol i)"
  proof -
    obtain candidate where c: "candidate_identity account fill = Inr candidate"
      and s: "(case (candidate, fillAccountFingerprint account) of
         (Some identity, Some fingerprint) \<Rightarrow>
           if fingerprint = [] \<or> fid_providerFillId identity \<noteq> xf_exchangeFillId fill \<or> Some (fid_providerSymbol identity) \<noteq> fill_market fill then None
           else Some (fill_key account fingerprint identity, identity)
       | _ \<Rightarrow> None) = Some (k, i)"
      using assms by (auto simp: provenFillIdentity_def rbind_Inr_iff)
    show thesis
      using s c that by (cases candidate; cases "fillAccountFingerprint account") (simp_all split: if_splits)
  qed
  with candidate_string that show thesis by blast
qed

lemma fill_key_inj:
  assumes "fid_profile i = JStr p" "fid_profile i' = JStr p'"
  shows "fill_key a f i = fill_key a' f' i' \<longleftrightarrow> ta_exchange a = ta_exchange a' \<and> f = f' \<and> p = p' \<and> fid_marketNamespace i = fid_marketNamespace i' \<and>
    fid_providerMarketId i = fid_providerMarketId i' \<and> fid_providerFillId i = fid_providerFillId i' \<and> fid_scopeTimestamp i = fid_scopeTimestamp i'"
  using assms by (simp add: fill_key_def json_array_def join_with_def json_profile_def json_string_inj json_option_int_inj)


section \<open>Properties\<close>

text \<open>
  C4: a remote order is adopted only on a full match. When an exchange snapshot is correlated with the managed orders, every
  remote order comes back in its place. It is unchanged, and then no managed order has its client identifier or, in the same
  market, its exchange identifier; or it carries the client identifier and role of a managed order that has one of
  these identities and agrees with it in symbol, side, direction of exposure and quantity, in the other identifiers as far as they
  are known, and for a stop in the trigger price.
\<close>

theorem remote_orders_adopted_exactly:
  assumes "correlateRemoteOrders locals remotes = Inr outs"
  shows "list_all2 (\<lambda>remote out.
    out = remote \<and> (\<forall>l\<in>set locals. \<not> known_as l remote) \<or>
    (\<exists>l\<in>set locals. out = remote\<lparr>xo_clientOrderId := Some (lco_client_order_id l), xo_role := lco_role l\<rparr> \<and> known_as l remote \<and> agrees_with l remote))
    remotes outs"
  using assms unfolding correlateRemoteOrders_def mapM_Inr_iff by (rule list_all2_mono) (rule correlate_order_Inr)

definition sample_local :: local_correlation_order where
  "sample_local = \<lparr>lco_client_order_id = ''c1'', lco_exchange_order_id = Some ''x1'', lco_provider_symbol = Some ''BTC/USDT'', lco_symbol = ''BTC'', lco_role = Stop_loss,
     lco_side = ''sell'', lco_quantity = ''2.0'', lco_reduce_only = 1, lco_trigger_price = Some ''9''\<rparr>"

definition sample_snapshot :: "string option \<Rightarrow> string \<Rightarrow> exchange_order_snapshot" where
  "sample_snapshot client exchange = \<lparr>xo_clientOrderId = client, xo_exchangeOrderId = exchange, xo_providerSymbol = Some ''BTC/USDT'', xo_providerTimestamp = None,
     xo_status = Status_open, xo_filledQuantity = Some ''0'', xo_averagePrice = None, xo_error = None, xo_raw = JNull, xo_symbol = ''BTC'', xo_role = Entry_role,
     xo_side = Sell, xo_quantity = ''2'', xo_price = None, xo_triggerPrice = Some ''9.0'', xo_reduceOnly = True\<rparr>"

theorem remote_orders_adopted_exactly_witness:
  "correlateRemoteOrders [sample_local] [sample_snapshot None ''x1'', sample_snapshot None ''x2''] =
     Inr [(sample_snapshot None ''x1'')\<lparr>xo_clientOrderId := Some ''c1'', xo_role := Stop_loss\<rparr>, sample_snapshot None ''x2''] \<and>
   agrees_with sample_local (sample_snapshot None ''x1'')"
proof -
  have c: "correlateRemoteOrders [sample_local] [sample_snapshot None ''x1'', sample_snapshot None ''x2''] =
     Inr [(sample_snapshot None ''x1'')\<lparr>xo_clientOrderId := Some ''c1'', xo_role := Stop_loss\<rparr>, sample_snapshot None ''x2'']"
    by code_simp
  from remote_orders_adopted_exactly [OF this] show ?thesis
    using c by (auto simp: sample_snapshot_def)
qed

text \<open>
  C27: the key of a fill identifies it. Two proven fills have the same key exactly when they are on the same exchange and
  account, in the same native profile, market namespace and market, with the same fill identifier and, where the profile has one, the
  same timestamp. A proven fill outside the simulated exchange repeats the identifiers of its own native original, and a Hyperliquid
  fill its native time.
\<close>

theorem fill_key_identifies:
  assumes "provenFillIdentity a f = Inr (Some (k, i))" and "provenFillIdentity a' f' = Inr (Some (k', i'))"
  shows "(k = k' \<longleftrightarrow> ta_exchange a = ta_exchange a' \<and> fillAccountFingerprint a = fillAccountFingerprint a' \<and> fid_profile i = fid_profile i' \<and>
      fid_marketNamespace i = fid_marketNamespace i' \<and> fid_providerMarketId i = fid_providerMarketId i' \<and>
      xf_exchangeFillId f = xf_exchangeFillId f' \<and> fid_scopeTimestamp i = fid_scopeTimestamp i') \<and>
    (\<not> is_paper a \<longrightarrow> js_get (fill_object (xf_raw f)) ''id'' = JStr (xf_exchangeFillId f) \<and> js_get (fill_object (xf_raw f)) ''order'' = JStr (xf_exchangeOrderId f) \<and>
      (fid_profile i = JStr ''hyperliquid_user_fill_v1'' \<longrightarrow> fid_scopeTimestamp i = Some (xf_filledAt f)))"
proof -
  obtain p fp where p: "fid_profile i = JStr p" "fillAccountFingerprint a = Some fp" "k = fill_key a fp i" "fid_providerFillId i = xf_exchangeFillId f"
    "\<not> is_paper a \<Longrightarrow> nativeMatches f i"
    using proven_parts [OF assms(1)] by metis
  obtain p' fp' where p': "fid_profile i' = JStr p'" "fillAccountFingerprint a' = Some fp'" "k' = fill_key a' fp' i'" "fid_providerFillId i' = xf_exchangeFillId f'"
    using proven_parts [OF assms(2)] by metis
  have "k = k' \<longleftrightarrow> ta_exchange a = ta_exchange a' \<and> fillAccountFingerprint a = fillAccountFingerprint a' \<and> fid_profile i = fid_profile i' \<and>
      fid_marketNamespace i = fid_marketNamespace i' \<and> fid_providerMarketId i = fid_providerMarketId i' \<and>
      xf_exchangeFillId f = xf_exchangeFillId f' \<and> fid_scopeTimestamp i = fid_scopeTimestamp i'"
    unfolding p(3) p'(3) fill_key_inj [OF p(1) p'(1)] using p p' by auto
  then show ?thesis using p(5) by (auto simp: nativeMatches_def Let_def matchesHyperliquid_def split: if_splits)
qed

definition sample_fill :: exchange_fill where
  "sample_fill = \<lparr>xf_identity = JObj [(''version'', JNum (Num 1)), (''profile'', JStr ''bybit_execution_v1''), (''marketNamespace'', JStr ''linear''),
       (''providerMarketId'', JStr ''BTCUSDT''), (''providerSymbol'', JStr ''BTC/USDT:USDT''), (''providerFillId'', JStr ''e1''), (''scopeTimestamp'', JNull)],
     xf_quantityNormalization = JUndefined, xf_exchangeFillId = ''e1'', xf_clientOrderId = None, xf_exchangeOrderId = ''o1'', xf_symbol = None,
     xf_providerSymbol = Some ''BTC/USDT:USDT'', xf_price = ''9'', xf_quantity = ''1'', xf_fee = ''0'', xf_feeAsset = None, xf_filledAt = 1234, xf_accounting = None,
     xf_raw = JObj [(''id'', JStr ''e1''), (''order'', JStr ''o1''), (''symbol'', JStr ''BTC/USDT:USDT''),
       (''info'', JObj [(''execId'', JStr ''e1''), (''orderId'', JStr ''o1''), (''symbol'', JStr ''BTCUSDT''), (''execTime'', JStr ''1234'')])]\<rparr>"

definition sample_owner :: trading_account where
  "sample_owner = \<lparr>ta_id = ''a'', ta_name = ''a'', ta_exchange = ''bybit'', ta_mode = Live, ta_status = Ready, ta_enabled = True, ta_credentialRef = None,
     ta_externalAccountId = Some ''fp'', ta_credentialGeneration = Some ''g'', ta_maxConcurrentPositions = 1, ta_killSwitchActive = False, ta_killSwitchReason = None,
     ta_capabilities = None, ta_lastVerifiedAt = None, ta_lastReconciledAt = None, ta_lastError = None, ta_createdAt = 0, ta_updatedAt = 0\<rparr>"

theorem fill_key_identifies_witness:
  "\<exists>k i. provenFillIdentity sample_owner sample_fill = Inr (Some (k, i)) \<and> js_get (fill_object (xf_raw sample_fill)) ''order'' = JStr ''o1''"
proof -
  have "(case provenFillIdentity sample_owner sample_fill of Inr (Some _) \<Rightarrow> True | _ \<Rightarrow> False)" by code_simp
  then obtain k i where p: "provenFillIdentity sample_owner sample_fill = Inr (Some (k, i))" by (auto split: sum.splits option.splits)
  have "\<not> is_paper sample_owner" by code_simp
  then show ?thesis using fill_key_identifies [OF p p] p by (auto simp: sample_fill_def)
qed

text \<open>
  C35: evidence for a cancellation names one live order. It is the only order of an account snapshot that has the
  client identifier or, in its market, the exchange identifier of the managed order, and agrees with it in all its terms. It is open or partly
  filled, its quantity is unchanged, it has executed no less than was known, and the remaining quantity, which is
  positive, is exactly what it has not executed. The snapshot is from the right account, was started after the given time and at
  most ten seconds ago, and is complete: each of its four sources is there once, complete, without a reason against it, and was read
  while the snapshot was taken.
\<close>

theorem cancel_evidence_sound:
  assumes "exactActiveCancelEvidence l remote account after now = Some e"
  defines "order \<equiv> ace_order e"
  shows "filter (cancel_candidate l) (xs_orders remote) = [order] \<and> same_fields l order \<and> xo_status order \<in> {Status_open, Status_partially_filled} \<and>
    (\<exists>filled. xo_filledQuantity order = Some filled \<and> dec_val (co_filled_quantity l) \<le> dec_val (js_trim filled) \<and>
      dec_val (js_trim (xo_quantity order)) = dec_val (co_quantity l) \<and>
      dec_val (ace_remainingQuantity e) = dec_val (co_quantity l) - dec_val (js_trim filled) \<and> 0 < dec_val (ace_remainingQuantity e)) \<and>
    co_account_id l = ta_id account \<and> (ta_exchange account \<noteq> ''paper'' \<longrightarrow> ta_externalAccountId account \<noteq> None \<and> bs_accountFingerprint remote = ta_externalAccountId account) \<and>
    after \<le> ace_acquiredAt e \<and> ace_acquiredAt e \<le> now \<and> now \<le> ace_acquiredAt e + 10000 \<and>
    (\<exists>a. xs_acquisition remote = Some a \<and> aq_startedAt a = ace_acquiredAt e \<and> aq_completedAt a \<le> now \<and>
      (\<forall>name\<in>{''orders'', ''positions'', ''fills'', ''targeted_orders''}. \<exists>source. filter (\<lambda>s. se_source s = name) (aq_sources a) = [source] \<and>
        se_completeness source = ''complete'' \<and> se_reason source = None \<and>
        aq_startedAt a \<le> se_startedAt source \<and> se_startedAt source \<le> se_completedAt source \<and> se_completedAt source \<le> aq_completedAt a))"
proof -
  obtain a filled where p: "xs_acquisition remote = Some a" "cancellationAccountBound l remote account" "cancelAcquisitionFresh remote after now"
    "filter (cancel_candidate l) (xs_orders remote) = [order]" "same_fields l order" "observedActiveOrder order"
    "xo_filledQuantity order = Some filled" "remaining_of l (xo_quantity order) filled = Inr (Some (ace_remainingQuantity e))" "ace_acquiredAt e = aq_startedAt a"
    using cancel_evidence_parts [OF assms(1)] unfolding order_def by metis
  note r = cancel_remaining_Inr [OF p(8)]
  have bound: "co_account_id l = ta_id account \<and>
      (ta_exchange account \<noteq> ''paper'' \<longrightarrow> ta_externalAccountId account \<noteq> None \<and> bs_accountFingerprint remote = ta_externalAccountId account)"
    using p(2) by (auto simp: cancellationAccountBound_def remoteAccountBound_def missing_text_def)
  have live: "xo_status order \<in> {Status_open, Status_partially_filled}" using p(6) by (simp add: observedActiveOrder_def)
  note fresh = cancel_fresh [OF p(3,1)]
  have "\<exists>source. filter (\<lambda>s. se_source s = name) (aq_sources a) = [source] \<and> se_completeness source = ''complete'' \<and> se_reason source = None \<and>
      aq_startedAt a \<le> se_startedAt source \<and> se_startedAt source \<le> se_completedAt source \<and> se_completedAt source \<le> aq_completedAt a"
    if "name \<in> {''orders'', ''positions'', ''fills'', ''targeted_orders''}" for name
  proof -
    have "completeAcquisitionSource a name" using fresh that by (auto simp: list_all_iff)
    then show ?thesis by (rule complete_source)
  qed
  then show ?thesis using p(1,4,5,7,9) live bound r fresh by auto
qed

definition sample_cancel :: cancel_order where
  "sample_cancel = \<lparr>co_account_id = ''a'', co_intent_id = ''t'', co_client_order_id = ''c1'', co_exchange_order_id = Some ''x1'', co_provider_symbol = Some ''BTC/USDT'',
     co_symbol = ''BTC'', co_role = ''entry'', co_side = ''sell'', co_status = ''open'', co_quantity = ''2'', co_filled_quantity = ''0'', co_reduce_only = 1,
     co_price = None, co_trigger_price = Some ''9.0''\<rparr>"

definition sample_state :: bound_open_state where
  "sample_state = \<lparr>xs_orders = [sample_snapshot (Some ''c2'') ''x2'', (sample_snapshot (Some ''c1'') ''x1'')\<lparr>xo_filledQuantity := Some ''0.5''\<rparr>], xs_positions = [], xs_fills = [],
     xs_observedAt = 20, xs_acquisition = Some \<lparr>aq_version = 1, aq_startedAt = 10, aq_completedAt = 20,
       aq_sources = map (\<lambda>s. \<lparr>se_source = s, se_startedAt = 11, se_completedAt = 19, se_completeness = ''complete'', se_reason = None, se_since = None\<rparr>)
         [''orders'', ''positions'', ''fills'', ''targeted_orders''], aq_checkedOrders = [], aq_history = []\<rparr>, bs_accountFingerprint = Some ''fp''\<rparr>"

theorem cancel_evidence_sound_witness:
  "\<exists>e. exactActiveCancelEvidence sample_cancel sample_state sample_owner 5 30 = Some e \<and> dec_val (ace_remainingQuantity e) = 3 / 2"
proof -
  have "exactActiveCancelEvidence sample_cancel sample_state sample_owner 5 30 \<noteq> None" by code_simp
  then obtain e where e: "exactActiveCancelEvidence sample_cancel sample_state sample_owner 5 30 = Some e" by blast
  have "filter (cancel_candidate sample_cancel) (xs_orders sample_state) = [(sample_snapshot (Some ''c1'') ''x1'')\<lparr>xo_filledQuantity := Some ''0.5''\<rparr>]" by code_simp
  then have "ace_order e = (sample_snapshot (Some ''c1'') ''x1'')\<lparr>xo_filledQuantity := Some ''0.5''\<rparr>" using cancel_evidence_sound [OF e] by simp
  then have "dec_val (ace_remainingQuantity e) = dec_val (co_quantity sample_cancel) - dec_val (js_trim ''0.5'')"
    using cancel_evidence_sound [OF e] by auto
  moreover have "dec_val (co_quantity sample_cancel) - dec_val (js_trim ''0.5'') = 3 / 2" by code_simp
  ultimately show ?thesis using e by auto
qed

end
