(* ===== verification/Exchange_Contract.thy ===== *)
theory Exchange_Contract
  imports Account_Contracts Order_Identity
begin

text \<open>
  What the program accepts from an exchange executor (\<^verbatim>\<open>src/exchange_contract_validation.ts\<close>), with the evidence of order
  identities (\<^verbatim>\<open>src/exchange_order_identity_contract.ts\<close>) and of fill quantities (\<^verbatim>\<open>src/trading_fill_quantity_contract.ts\<close>) it relies
  on. Answers are untyped data; a validated object is returned as the record its declared type has. SHA-256, the text of a number
  that is no safe integer and the clock are parameters; one reading of the clock serves a validation.
\<close>

section \<open>Order identity evidence\<close>

definition evidence_object :: "js \<Rightarrow> (string \<times> js) list result" where
  "evidence_object value = (case value of JObj row \<Rightarrow> Inr row | _ \<Rightarrow> Inl (Error ''Invalid order identity evidence object.''))"

definition evidence_id :: "js \<Rightarrow> string result" where
  "evidence_id value = (case value of
       JStr s \<Rightarrow> if s = [] \<or> js_trim s \<noteq> s \<or> length s > 256 \<or> list_ex is_control s then Inl (Error ''Invalid order identity evidence identifier.'') else Inr s
     | _ \<Rightarrow> Inl (Error ''Invalid order identity evidence identifier.''))"

definition assertScope :: "(string \<times> js) list \<Rightarrow> (string \<times> js) list \<Rightarrow> unit result" where
  "assertScope proof_row result =
     rbind (mapM (\<lambda>field. evidence_id (js_get proof_row field)) [''clientOrderId'', ''exchangeOrderId'', ''providerSymbol'']) (\<lambda>_.
     rbind (throw_if (js_get proof_row ''version'' \<noteq> JNum (Num 1) \<or> js_get proof_row ''exchangeOrderId'' \<noteq> js_get result ''exchangeOrderId''
         \<or> js_get proof_row ''providerSymbol'' \<noteq> js_get result ''providerSymbol''
         \<or> js_get result ''clientOrderId'' \<noteq> JNull \<and> js_get result ''clientOrderId'' \<noteq> js_get proof_row ''clientOrderId'')
       (Error ''Order identity witness scope changed.'')) (\<lambda>_.
     rbind (evidence_object (js_get result ''raw'')) (\<lambda>raw.
     throw_if (js_get raw ''id'' \<noteq> js_get proof_row ''exchangeOrderId''
         \<or> js_get raw ''clientOrderId'' \<notin> {JNull, JUndefined} \<and> js_get raw ''clientOrderId'' \<noteq> js_get proof_row ''clientOrderId'')
       (Error ''Order identity witness contradicts the original provider identifiers.''))))"

definition assertKrakenOriginalResponse :: "(string \<times> js) list \<Rightarrow> (string \<times> js) list \<Rightarrow> unit result" where
  "assertKrakenOriginalResponse proof_row info =
     throw_if (js_get proof_row ''tag'' \<noteq> js_get proof_row ''clientOrderId'' \<or> js_get info ''order_tag'' \<noteq> js_get proof_row ''tag''
       \<or> js_get info ''order_id'' \<noteq> js_get proof_row ''exchangeOrderId'')
     (Error ''Kraken batch tag lacks its exact original response.'')"

definition assertEvidenceFields :: "(string \<times> js) list \<Rightarrow> string list \<Rightarrow> unit result" where
  "assertEvidenceFields proof_row expected = throw_if (sort (map fst proof_row) \<noteq> sort expected) (Error ''Unexpected order identity evidence fields.'')"

definition hex_text :: "nat \<Rightarrow> bool \<Rightarrow> js \<Rightarrow> bool" where
  "hex_text n upper v = (case v of
       JStr s \<Rightarrow> length s = n + 2 \<and> take 2 s = ''0x'' \<and> list_all (\<lambda>c. is_digit c \<or> c \<in> set ''abcdef'' \<or> upper \<and> c \<in> set ''ABCDEF'') (drop 2 s)
     | _ \<Rightarrow> False)"

definition invalidLookupIdentifiers :: "(string \<times> js) list \<Rightarrow> bool" where
  "invalidLookupIdentifiers proof_row \<longleftrightarrow> \<not> hex_text 40 False (js_get proof_row ''user'') \<or> \<not> hex_text 32 True (js_get proof_row ''clientOrderId'')"

definition isSafeNativeOrderNumber :: "js \<Rightarrow> bool" where
  "isSafeNativeOrderNumber value = (case safe_integer_of value of Some n \<Rightarrow> n \<ge> 0 | None \<Rightarrow> False)"

definition nativeOrderId :: "js \<Rightarrow> string option" where
  "nativeOrderId value = (case value of
       JStr s \<Rightarrow> if s \<noteq> [] \<and> length s \<le> 256 \<and> all_digits s \<and> js_trim s = s then Some s else None
     | _ \<Rightarrow> if isSafeNativeOrderNumber value then map_option show_int (safe_integer_of value) else None)"

definition nativeLookupMismatch :: "(string \<times> js) list \<Rightarrow> (string \<times> js) list \<Rightarrow> (string \<times> js) list \<Rightarrow> bool" where
  "nativeLookupMismatch proof_row native raw \<longleftrightarrow>
     map_option JStr (nativeOrderId (js_get native ''oid'')) \<noteq> Some (js_get proof_row ''exchangeOrderId'')
     \<or> js_get native ''coin'' \<noteq> js_get proof_row ''providerMarketId'' \<or> js_get raw ''symbol'' \<noteq> js_get proof_row ''providerSymbol''
     \<or> js_get native ''cloid'' \<notin> {JNull, JUndefined} \<and> js_get native ''cloid'' \<noteq> js_get proof_row ''clientOrderId''"

definition assertLookupReadInterval :: "int \<Rightarrow> (string \<times> js) list \<Rightarrow> unit result" where
  "assertLookupReadInterval now proof_row =
     throw_if (case (safe_integer_of (js_get proof_row ''startedAt''), safe_integer_of (js_get proof_row ''completedAt'')) of
         (Some started, Some completed) \<Rightarrow> started < 0 \<or> completed < started \<or> completed > now + 60000 | _ \<Rightarrow> True)
     (Error ''Invalid cloid lookup read interval.'')"

definition validateCloid :: "int \<Rightarrow> (string \<times> js) list \<Rightarrow> (string \<times> js) list \<Rightarrow> (string \<times> js) list \<Rightarrow> unit result" where
  "validateCloid now proof_row info raw = rbind (evidence_object (js_get info ''order'')) (\<lambda>native.
     rbind (evidence_id (js_get proof_row ''providerMarketId'')) (\<lambda>_.
     rbind (throw_if (invalidLookupIdentifiers proof_row \<or> nativeLookupMismatch proof_row native raw)
       (Error ''Hyperliquid lookup scope contradicts its original order.'')) (\<lambda>_.
     assertLookupReadInterval now proof_row)))"

definition evidence_base :: "string list" where
  "evidence_base = [''version'', ''profile'', ''clientOrderId'', ''exchangeOrderId'', ''providerSymbol'']"

definition assertIdentityEvidence :: "int \<Rightarrow> js \<Rightarrow> (string \<times> js) list \<Rightarrow> unit result" where
  "assertIdentityEvidence now value result = rbind (evidence_object value) (\<lambda>proof_row. rbind (assertScope proof_row result) (\<lambda>_.
     rbind (evidence_object (js_get result ''raw'')) (\<lambda>raw. rbind (evidence_object (js_get raw ''info'')) (\<lambda>info.
     if js_get proof_row ''profile'' = JStr ''kraken_batch_tag_v1''
     then rbind (assertKrakenOriginalResponse proof_row info) (\<lambda>_. assertEvidenceFields proof_row (evidence_base @ [''tag'']))
     else if js_get proof_row ''profile'' = JStr ''hyperliquid_cloid_lookup_v1''
     then rbind (validateCloid now proof_row info raw) (\<lambda>_.
       assertEvidenceFields proof_row (evidence_base @ [''user'', ''providerMarketId'', ''startedAt'', ''completedAt'']))
     else Inl (Error ''Unsupported native order identity evidence.'')))))"

definition validateOrderIdentityEvidence :: "int \<Rightarrow> (string \<times> js) list \<Rightarrow> unit result" where
  "validateOrderIdentityEvidence now result =
     (if js_get result ''identityEvidence'' = JUndefined then Inr () else assertIdentityEvidence now (js_get result ''identityEvidence'') result)"


section \<open>Fill quantities\<close>

definition quantity_invalid :: "'a result" where
  "quantity_invalid = Inl (Error ''FILL_QUANTITY_EVIDENCE_INVALID'')"

definition quantity_check :: "bool \<Rightarrow> unit result" where
  "quantity_check ok = (if ok then Inr () else quantity_invalid)"

definition quantity_object :: "js \<Rightarrow> (string \<times> js) list result" where
  "quantity_object value = (case value of JObj row \<Rightarrow> Inr row | _ \<Rightarrow> quantity_invalid)"

definition quantity_shape :: "js \<Rightarrow> string list \<Rightarrow> (string \<times> js) list result" where
  "quantity_shape value ks = rbind (quantity_object value) (\<lambda>row. rbind (quantity_check (sort (map fst row) = sort ks)) (\<lambda>_. Inr row))"

definition quantity_token :: "js \<Rightarrow> string result" where
  "quantity_token value = (case value of
       JStr s \<Rightarrow> if s = [] \<or> length s > 256 \<or> js_trim s \<noteq> s \<or> list_ex (\<lambda>c. is_control c \<or> (of_char c :: int) = 127) s then quantity_invalid else Inr s
     | _ \<Rightarrow> quantity_invalid)"

definition quantity_positive :: "js \<Rightarrow> string result" where
  "quantity_positive value = (case value of JStr s \<Rightarrow> if js_trim s \<noteq> s then quantity_invalid else decimal_positive s | _ \<Rightarrow> quantity_invalid)"

text \<open>\<open>quantity_canonical n value\<close> is the source's \<^verbatim>\<open>canonical\<close> at depth \<^verbatim>\<open>13 - n\<close>, so that the depth limit ends the recursion.\<close>

fun quantity_canonical :: "nat \<Rightarrow> js \<Rightarrow> string result" where
  "quantity_canonical 0 value = quantity_invalid"
| "quantity_canonical (Suc n) value = (case value of
       JNull \<Rightarrow> Inr ''null''
     | JBool b \<Rightarrow> Inr (if b then ''true'' else ''false'')
     | JNum _ \<Rightarrow> (case safe_integer_of value of Some k \<Rightarrow> Inr (show_int k) | None \<Rightarrow> quantity_invalid)
     | JStr s \<Rightarrow> if int (length s) < 32768 then Inr (json_string s) else quantity_invalid
     | JArr xs \<Rightarrow> rbind (mapM (quantity_canonical n) xs) (\<lambda>items. Inr (json_array items))
     | JObj props \<Rightarrow> rbind (mapM (\<lambda>kv. rbind (quantity_token (JStr (fst kv))) (\<lambda>key. rbind (quantity_canonical n (snd kv)) (\<lambda>t. Inr (json_string key @ '':'' @ t))))
           (sort_key fst props)) (\<lambda>items. Inr (''{'' @ join_with '','' items @ ''}''))
     | JUndefined \<Rightarrow> quantity_invalid)"

definition fillQuantityDigest :: "(string \<Rightarrow> string) \<Rightarrow> string \<Rightarrow> js \<Rightarrow> string result" where
  "fillQuantityDigest sha256 domain value = rbind (quantity_canonical 13 value) (\<lambda>encoded.
     if int (byte_length encoded) \<ge> 32768 then quantity_invalid else Inr (sha256 (domain @ CHR 0x0A # encoded)))"

text \<open>The digits of a decimal and the number of them after the point.\<close>

definition coefficient :: "js \<Rightarrow> (int \<times> nat) result" where
  "coefficient value = rbind (quantity_positive value) (\<lambda>s. case split_point s of (whole, tail) \<Rightarrow>
     Inr (digits_val (whole @ tail), length tail))"

definition exactProduct :: "js \<Rightarrow> js \<Rightarrow> js \<Rightarrow> bool result" where
  "exactProduct input factor output = rbind (coefficient input) (\<lambda>(i, si). rbind (coefficient factor) (\<lambda>(f, sf). rbind (coefficient output) (\<lambda>(r, sr).
     Inr (i * f * 10 ^ sr = r * 10 ^ (si + sf)))))"

definition rounding_modes :: "string list" where
  "rounding_modes = [''ROUND_CEILING'', ''ROUND_DOWN'', ''ROUND_FLOOR'', ''ROUND_HALF_DOWN'', ''ROUND_HALF_EVEN'', ''ROUND_HALF_UP'', ''ROUND_UP'', ''ROUND_05UP'']"

definition arithmetic :: "js \<Rightarrow> (string \<times> js) list \<Rightarrow> unit result" where
  "arithmetic value row = rbind (quantity_shape value [''operation'', ''decimalPrecision'', ''decimalRounding'', ''exactProduct'']) (\<lambda>a.
     rbind (quantity_check (js_get a ''operation'' = JStr ''multiply''
       \<and> (case safe_integer_of (js_get a ''decimalPrecision'') of Some p \<Rightarrow> 1 \<le> p \<and> p \<le> 10000 | None \<Rightarrow> False)
       \<and> isStringMember (js_get a ''decimalRounding'') rounding_modes)) (\<lambda>_.
     rbind (exactProduct (js_get row ''inputQuantity'') (js_get row ''appliedFactor'') (js_get row ''outputQuantity'')) (\<lambda>exact.
     quantity_check (js_get a ''exactProduct'' = JBool exact))))"

definition original_pairs :: "fill_identity \<Rightarrow> (string \<times> js) list \<Rightarrow> (string \<times> js) list \<Rightarrow> (string \<times> js) list \<Rightarrow> (string \<times> js) list \<Rightarrow> (js \<times> js) list" where
  "original_pairs identity row fill raw info =
     [(JStr (fid_providerFillId identity), js_get fill ''exchangeFillId''), (JStr (fid_providerSymbol identity), js_get fill ''providerSymbol''),
      (js_get raw ''id'', js_get fill ''exchangeFillId''), (js_get raw ''order'', js_get fill ''exchangeOrderId''), (js_get raw ''symbol'', js_get fill ''providerSymbol''),
      (js_get raw ''timestamp'', js_get fill ''filledAt''), (js_get raw ''amount'', js_get row ''inputQuantity''),
      (js_get info ''identitySource'', fid_profile identity), (js_get info ''executionUid'', js_get fill ''exchangeFillId''),
      (js_get info ''orderUid'', js_get fill ''exchangeOrderId''), (js_get info ''tradeable'', JStr (fid_providerMarketId identity)),
      (js_get info ''executionTimestamp'', js_get fill ''filledAt'')]"

definition originalBinding :: "(string \<Rightarrow> string) \<Rightarrow> (string \<times> js) list \<Rightarrow> (string \<times> js) list \<Rightarrow> fill_identity result" where
  "originalBinding sha256 row fill = rbind (validateFillIdentity (js_get row ''nativeIdentity'')) (\<lambda>identity.
     rbind (quantity_object (js_get fill ''raw'')) (\<lambda>raw. rbind (quantity_object (js_get raw ''info'')) (\<lambda>info.
     rbind (quantity_check (fid_profile identity = JStr ''kraken_history_execution_v3'' \<and> deep_equal (js_get row ''nativeIdentity'') (js_get fill ''identity''))) (\<lambda>_.
     rbind (quantity_check (list_all (\<lambda>(a, b). strict_equal a b) (original_pairs identity row fill raw info))) (\<lambda>_.
     rbind (quantity_token (js_get info ''accountUid'')) (\<lambda>_.
     rbind (quantity_positive (js_get raw ''price'')) (\<lambda>price. rbind (compareDecimal price (string_field fill ''price'')) (\<lambda>c.
     rbind (quantity_check (c = 0)) (\<lambda>_.
     rbind (fillQuantityDigest sha256 ''kraken-normalization-original-v1'' (JObj raw)) (\<lambda>digest.
     rbind (quantity_check (js_get row ''originalExecutionHash'' = JStr digest)) (\<lambda>_. Inr identity)))))))))))"

definition market_keys :: "string list" where
  "market_keys = [''providerMarketId'', ''providerSymbol'', ''base'', ''quote'', ''settlementAsset'', ''contract'', ''linear'', ''inverse'', ''appliedContractSize'',
     ''source'', ''sourceHash'', ''observedAt'', ''providerContractSize'', ''providerOriginalStatus'']"

definition accounting_settlement :: "js \<Rightarrow> js" where
  "accounting_settlement v = (case v of JObj row \<Rightarrow> js_get row ''settlementAsset'' | _ \<Rightarrow> JUndefined)"

definition marketBinding :: "(string \<Rightarrow> string) \<Rightarrow> js \<Rightarrow> (string \<times> js) list \<Rightarrow> (string \<times> js) list \<Rightarrow> fill_identity \<Rightarrow> unit result" where
  "marketBinding sha256 value row fill identity = rbind (quantity_shape value market_keys) (\<lambda>market.
     rbind (mapM (\<lambda>name. quantity_token (js_get market name)) [''providerMarketId'', ''providerSymbol'', ''base'', ''quote'', ''settlementAsset'']) (\<lambda>_.
     rbind (quantity_check (js_get market ''contract'' = JBool True \<and> js_get market ''linear'' = JBool True \<and> js_get market ''inverse'' = JBool False
       \<and> js_get market ''source'' = JStr ''ccxt-4.5.75-loaded-market'' \<and> js_get market ''observedAt'' = JNull \<and> js_get market ''providerContractSize'' = JNull
       \<and> js_get market ''providerOriginalStatus'' = JStr ''not-retained'')) (\<lambda>_.
     rbind (quantity_check (js_get market ''providerMarketId'' = JStr (fid_providerMarketId identity) \<and> js_get market ''providerSymbol'' = JStr (fid_providerSymbol identity)
       \<and> js_get market ''settlementAsset'' = accounting_settlement (js_get fill ''accounting'') \<and> strict_equal (js_get market ''appliedContractSize'') (js_get row ''appliedFactor''))) (\<lambda>_.
     rbind (fillQuantityDigest sha256 ''kraken-normalization-market-v1'' (JObj (filter (\<lambda>kv. fst kv \<noteq> ''sourceHash'') market))) (\<lambda>digest.
     quantity_check (js_get market ''sourceHash'' = JStr digest))))))"

definition normalization_keys :: "string list" where
  "normalization_keys = [''version'', ''source'', ''inputField'', ''inputQuantity'', ''inputUnit'', ''appliedFactor'', ''outputQuantity'', ''outputUnit'', ''arithmetic'',
     ''market'', ''nativeIdentity'', ''originalExecutionHash'', ''normalizedAt'']"

definition validateFillQuantityNormalization :: "(string \<Rightarrow> string) \<Rightarrow> int \<Rightarrow> js \<Rightarrow> (string \<times> js) list \<Rightarrow> (string \<times> js) list result" where
  "validateFillQuantityNormalization sha256 now value fill = rbind (quantity_shape value normalization_keys) (\<lambda>row.
     rbind (quantity_check (js_get row ''version'' = JNum (Num 1) \<and> js_get row ''source'' = JStr ''kraken-execution-normalization-v1''
       \<and> js_get row ''inputField'' = JStr ''execution.quantity'' \<and> js_get row ''inputUnit'' = JStr ''kraken_native_execution_quantity''
       \<and> js_get row ''outputUnit'' = JStr ''base'')) (\<lambda>_.
     rbind (mapM (\<lambda>field. quantity_positive (js_get row field)) [''inputQuantity'', ''appliedFactor'', ''outputQuantity'']) (\<lambda>_.
     rbind (quantity_check (strict_equal (js_get row ''outputQuantity'') (js_get fill ''quantity'')
       \<and> (case safe_integer_of (js_get row ''normalizedAt'') of Some n \<Rightarrow> 0 \<le> n \<and> n \<le> now + 60000 | None \<Rightarrow> False))) (\<lambda>_.
     rbind (arithmetic (js_get row ''arithmetic'') row) (\<lambda>_.
     rbind (originalBinding sha256 row fill) (\<lambda>identity.
     rbind (marketBinding sha256 (js_get row ''market'') row fill identity) (\<lambda>_. Inr row)))))))"


section \<open>Answers of the executor\<close>

definition contractObject :: "js \<Rightarrow> (string \<times> js) list result" where
  "contractObject value = (case value of JObj row \<Rightarrow> Inr row | _ \<Rightarrow> Inl (Error ''Exchange executor returned an invalid contract.''))"

definition contract_identifier :: "js \<Rightarrow> string \<Rightarrow> string result" where
  "contract_identifier value label = (case value of
       JStr s \<Rightarrow> if js_trim s = [] \<or> length s > 256 \<or> list_ex is_control s then Inl (Error (''Invalid exchange '' @ label @ '' identifier.'')) else Inr s
     | _ \<Rightarrow> Inl (Error (''Invalid exchange '' @ label @ '' identifier.'')))"

definition nullableIdentifier :: "js \<Rightarrow> string \<Rightarrow> string option result" where
  "nullableIdentifier value label = (if value = JNull then Inr None else rbind (contract_identifier value label) (\<lambda>s. Inr (Some s)))"

text \<open>\<^verbatim>\<open>if (value !== undefined) identifier(value, label)\<close>\<close>

definition optional_identifier :: "js \<Rightarrow> string \<Rightarrow> string option result" where
  "optional_identifier value label = (if value = JUndefined then Inr None else rbind (contract_identifier value label) (\<lambda>s. Inr (Some s)))"

definition plain_text :: "js \<Rightarrow> string result" where
  "plain_text value = (case value of JStr s \<Rightarrow> if js_trim s \<noteq> s then Inl (Error ''Invalid exchange decimal contract.'') else Inr s
     | _ \<Rightarrow> Inl (Error ''Invalid exchange decimal contract.''))"

definition amount :: "js \<Rightarrow> bool \<Rightarrow> bool \<Rightarrow> string result" where
  "amount value is_positive signed = rbind (plain_text value) (\<lambda>s. if signed then signedDecimal s else decimal_with is_positive None s)"

text \<open>The validated object keeps the text of an amount as it is.\<close>

definition amount_text :: "js \<Rightarrow> bool \<Rightarrow> bool \<Rightarrow> string result" where
  "amount_text value is_positive signed = rbind (amount value is_positive signed) (\<lambda>_. plain_text value)"

definition nullable_amount :: "js \<Rightarrow> bool \<Rightarrow> bool \<Rightarrow> string option result" where
  "nullable_amount value is_positive signed = (if value = JNull then Inr None else rbind (amount_text value is_positive signed) (\<lambda>s. Inr (Some s)))"

definition nullablePrice :: "js \<Rightarrow> string option result" where
  "nullablePrice value = nullable_amount value True False"

definition contract_timestamp :: "int \<Rightarrow> js \<Rightarrow> int option \<Rightarrow> int result" where
  "contract_timestamp now value maximumAge = (case safe_integer_of value of
       Some n \<Rightarrow> if n < 0 \<or> n > now + 60000 \<or> (case maximumAge of None \<Rightarrow> False | Some age \<Rightarrow> now - n > age)
         then Inl (Error ''Invalid or stale exchange timestamp.'') else Inr n
     | None \<Rightarrow> Inl (Error ''Invalid or stale exchange timestamp.''))"

definition remote_statuses :: "(string \<times> exchange_order_status) list" where
  "remote_statuses = [(''open'', Status_open), (''partially_filled'', Status_partially_filled), (''filled'', Status_filled), (''cancelled'', Status_cancelled),
     (''rejected'', Status_rejected), (''unknown'', Status_unknown)]"

definition contract_status :: "js \<Rightarrow> exchange_order_status result" where
  "contract_status value = (case value of
       JStr s \<Rightarrow> (case map_of remote_statuses s of Some status \<Rightarrow> Inr status | None \<Rightarrow> Inl (Error ''Invalid exchange order status.''))
     | _ \<Rightarrow> Inl (Error ''Invalid exchange order status.''))"

record execution =
  ex_exchangeOrderId :: string
  ex_status :: exchange_order_status
  ex_filledQuantity :: "string option"
  ex_averagePrice :: "string option"
  ex_error :: "string option"

definition error_text :: "js \<Rightarrow> string option result" where
  "error_text value = (case value of JNull \<Rightarrow> Inr None | JStr s \<Rightarrow> Inr (Some s) | _ \<Rightarrow> Inl (Error ''Invalid exchange error contract.''))"

definition assert_within :: "string option \<Rightarrow> string option \<Rightarrow> unit result" where
  "assert_within filled quantity = (case (filled, quantity) of
       (Some f, Some q) \<Rightarrow> rbind (amount (JStr q) True False) (\<lambda>whole. rbind (compareDecimal f whole) (\<lambda>c.
         throw_if (c > 0) (Error ''Exchange executed quantity exceeds requested order quantity.'')))
     | _ \<Rightarrow> Inr ())"

definition executionFields :: "(string \<times> js) list \<Rightarrow> string option \<Rightarrow> bool \<Rightarrow> execution result" where
  "executionFields result quantity nullableFilled =
     rbind (contract_identifier (js_get result ''exchangeOrderId'') ''order'') (\<lambda>order. rbind (contract_status (js_get result ''status'')) (\<lambda>status.
     rbind (if nullableFilled \<and> js_get result ''filledQuantity'' = JNull then Inr None
       else rbind (amount (js_get result ''filledQuantity'') False False) (\<lambda>f. Inr (Some f))) (\<lambda>filled.
     rbind (assert_within filled quantity) (\<lambda>_.
     rbind (nullablePrice (js_get result ''averagePrice'')) (\<lambda>price. rbind (error_text (js_get result ''error'')) (\<lambda>e.
       Inr \<lparr>ex_exchangeOrderId = order, ex_status = status, ex_filledQuantity = (case filled of None \<Rightarrow> None | Some _ \<Rightarrow> Some (string_field result ''filledQuantity'')),
         ex_averagePrice = price, ex_error = e\<rparr>))))))"

record expected_order =
  eo_clientOrderId :: string
  eo_quantity :: "string option"
  eo_exchangeOrderId :: "string option"

definition validateOrderResult :: "int \<Rightarrow> js \<Rightarrow> expected_order \<Rightarrow> exchange_order_result result" where
  "validateOrderResult now value expected = rbind (contractObject value) (\<lambda>result.
     rbind (validateOrderIdentityEvidence now result) (\<lambda>_.
     rbind (contract_identifier (js_get result ''clientOrderId'') ''client order'') (\<lambda>client.
     rbind (throw_if (client \<noteq> eo_clientOrderId expected) (Error ''Exchange result identifier does not match the requested order.'')) (\<lambda>_.
     rbind (executionFields result (eo_quantity expected) False) (\<lambda>e.
     rbind (optional_identifier (js_get result ''providerSymbol'') ''provider symbol'') (\<lambda>symbol.
     rbind (throw_if (\<not> missing_text (eo_exchangeOrderId expected) \<and> Some (ex_exchangeOrderId e) \<noteq> eo_exchangeOrderId expected)
       (Error ''Exchange result identifier does not match the known remote order.'')) (\<lambda>_.
       Inr \<lparr>xr_clientOrderId = client, xr_exchangeOrderId = ex_exchangeOrderId e, xr_providerSymbol = symbol, xr_status = ex_status e,
         xr_filledQuantity = string_field result ''filledQuantity'', xr_averagePrice = ex_averagePrice e, xr_error = ex_error e, xr_raw = js_get result ''raw''\<rparr>)))))))"

definition confirmed_leg :: "int \<Rightarrow> (string \<times> js) list list \<Rightarrow> expected_order \<Rightarrow> exchange_order_result list" where
  "confirmed_leg now records request = (case filter (\<lambda>r. js_get r ''clientOrderId'' = JStr (eo_clientOrderId request)) records of
       [candidate] \<Rightarrow>
         if length (filter (\<lambda>r. strict_equal (js_get r ''exchangeOrderId'') (js_get candidate ''exchangeOrderId'')) records) \<noteq> 1 then []
         else (case validateOrderResult now (JObj candidate) request of Inr res \<Rightarrow> [res] | Inl _ \<Rightarrow> [])
     | _ \<Rightarrow> [])"

definition confirmedOrderEvidence :: "int \<Rightarrow> js \<Rightarrow> expected_order list \<Rightarrow> exchange_order_result list" where
  "confirmedOrderEvidence now answers expected = (case answers of
       JArr items \<Rightarrow> if length items > 2 then []
         else concat (map (confirmed_leg now (List.map_filter (\<lambda>v. case v of JObj row \<Rightarrow> Some row | _ \<Rightarrow> None) items)) expected)
     | _ \<Rightarrow> [])"

text \<open>An optional accounting contract of a market, a position or a fill, checked against its market when that is a string.\<close>

definition optional_accounting :: "(string \<times> js) list \<Rightarrow> fill_accounting option result" where
  "optional_accounting result =
     (if js_get result ''accounting'' \<in> {JUndefined, JNull} then Inr None
      else rbind (validateFillAccounting (js_get result ''accounting'') (case js_get result ''providerSymbol'' of JStr s \<Rightarrow> Some s | _ \<Rightarrow> None)) (\<lambda>a. Inr (Some a)))"

text \<open>A market and an account snapshot stay the object that was received, with their validated accounting beside it.\<close>

definition validateMarketSnapshot :: "int \<Rightarrow> js \<Rightarrow> string \<Rightarrow> ((string \<times> js) list \<times> fill_accounting option) result" where
  "validateMarketSnapshot now value symbol = rbind (contractObject value) (\<lambda>result.
     rbind (throw_if (js_get result ''symbol'' \<noteq> JStr symbol) (Error ''Exchange market symbol does not match the request.'')) (\<lambda>_.
     rbind (mapM (\<lambda>key. amount (js_get result key) True False) [''markPrice'', ''priceTick'', ''quantityStep'', ''minimumQuantity'', ''minimumNotional'']) (\<lambda>_.
     rbind (throw_if (case safe_integer_of (js_get result ''maxLeverage'') of Some n \<Rightarrow> n < 1 \<or> n > 50 | None \<Rightarrow> True) (Error ''Invalid exchange maximum leverage.'')) (\<lambda>_.
     rbind (contract_timestamp now (js_get result ''observedAt'') (Some 60000)) (\<lambda>_.
     rbind (optional_accounting result) (\<lambda>accounting. Inr (result, accounting)))))))"

definition validateAccountSnapshot :: "js \<Rightarrow> ((string \<times> js) list \<times> validated_accounting option) result" where
  "validateAccountSnapshot value = rbind (contractObject value) (\<lambda>result.
     rbind (mapM (\<lambda>key. amount (js_get result key) False False) [''equity'', ''availableBalance'', ''marginUsed'']) (\<lambda>_.
     rbind (amount (js_get result ''unrealizedPnl'') False True) (\<lambda>_.
     rbind (nullable_amount (js_get result ''fundingPnlToday'') False True) (\<lambda>funding.
     rbind (validateFundingValue (js_get result ''fundingPnlToday'') (js_get result ''fundingPnlTodayValue'')) (\<lambda>fundingValue.
     rbind (throw_if ((case fundingValue of Some (Some _) \<Rightarrow> True | _ \<Rightarrow> False) \<and> js_get result ''accounting'' = JUndefined)
       (Error ''Funding money value lacks accounting evidence.'')) (\<lambda>_.
     if js_get result ''accounting'' = JUndefined then Inr (result, None)
     else rbind (validateAccountingEvidence (js_get result ''accounting'') funding (js_get result ''fundingPnlTodayValue'')) (\<lambda>a. Inr (result, Some a))))))))"

definition order_roles :: "(string \<times> order_role) list" where
  "order_roles = [(''entry'', Entry_role), (''take_profit'', Take_profit), (''stop_loss'', Stop_loss), (''flatten'', Flatten)]"

definition order_sides :: "(string \<times> order_side) list" where
  "order_sides = [(''buy'', Buy), (''sell'', Sell)]"

definition remote_semantics :: "(string \<times> js) list \<Rightarrow> (order_role \<times> order_side \<times> bool) result" where
  "remote_semantics result = (case (js_get result ''role'', js_get result ''side'', js_get result ''reduceOnly'') of
       (JStr r, JStr s, JBool reduce) \<Rightarrow> (case (map_of order_roles r, map_of order_sides s) of
           (Some role, Some side) \<Rightarrow> Inr (role, side, reduce) | _ \<Rightarrow> Inl (Error ''Invalid remote order semantics.''))
     | _ \<Rightarrow> Inl (Error ''Invalid remote order semantics.''))"

definition optional_timestamp :: "int \<Rightarrow> js \<Rightarrow> int option result" where
  "optional_timestamp now value = (if value \<in> {JUndefined, JNull} then Inr None else rbind (contract_timestamp now value None) (\<lambda>n. Inr (Some n)))"

definition validateRemoteOrder :: "int \<Rightarrow> js \<Rightarrow> exchange_order_snapshot result" where
  "validateRemoteOrder now value = rbind (contractObject value) (\<lambda>result.
     rbind (validateOrderIdentityEvidence now result) (\<lambda>_.
     rbind (nullableIdentifier (js_get result ''clientOrderId'') ''client order'') (\<lambda>client. rbind (contract_identifier (js_get result ''symbol'') ''symbol'') (\<lambda>symbol.
     rbind (optional_identifier (js_get result ''providerSymbol'') ''provider symbol'') (\<lambda>market. rbind (optional_timestamp now (js_get result ''providerTimestamp'')) (\<lambda>time.
     rbind (amount (js_get result ''quantity'') True False) (\<lambda>quantity.
     rbind (executionFields result (Some quantity) True) (\<lambda>e. rbind (remote_semantics result) (\<lambda>(role, side, reduce).
     rbind (nullablePrice (js_get result ''price'')) (\<lambda>price. rbind (nullablePrice (js_get result ''triggerPrice'')) (\<lambda>trigger.
       Inr \<lparr>xo_clientOrderId = client, xo_exchangeOrderId = ex_exchangeOrderId e, xo_providerSymbol = market, xo_providerTimestamp = time, xo_status = ex_status e,
         xo_filledQuantity = ex_filledQuantity e, xo_averagePrice = ex_averagePrice e, xo_error = ex_error e, xo_raw = js_get result ''raw'', xo_symbol = symbol,
         xo_role = role, xo_side = side, xo_quantity = string_field result ''quantity'', xo_price = price, xo_triggerPrice = trigger, xo_reduceOnly = reduce\<rparr>)))))))))))"

definition position_side :: "js \<Rightarrow> trading_side result" where
  "position_side v = (if v = JStr ''LONG'' then Inr LONG else if v = JStr ''SHORT'' then Inr SHORT else Inl (Error ''Invalid exchange position side.''))"

definition validatePosition :: "js \<Rightarrow> exchange_position_snapshot result" where
  "validatePosition value = rbind (contractObject value) (\<lambda>result.
     rbind (contract_identifier (js_get result ''symbol'') ''symbol'') (\<lambda>symbol. rbind (optional_identifier (js_get result ''providerSymbol'') ''position provider symbol'') (\<lambda>market.
     rbind (position_side (js_get result ''side'')) (\<lambda>side. rbind (amount_text (js_get result ''quantity'') True False) (\<lambda>quantity.
     rbind (amount_text (js_get result ''averageEntryPrice'') True False) (\<lambda>average. rbind (nullable_amount (js_get result ''unrealizedPnl'') False True) (\<lambda>unrealized.
     rbind (if js_get result ''markPrice'' = JUndefined then Inr None else nullablePrice (js_get result ''markPrice'')) (\<lambda>mark.
     rbind (optional_accounting result) (\<lambda>accounting.
       Inr \<lparr>xp_symbol = symbol, xp_providerSymbol = market, xp_side = side, xp_quantity = quantity, xp_averageEntryPrice = average, xp_unrealizedPnl = unrealized,
         xp_markPrice = mark, xp_accounting = accounting\<rparr>)))))))))"

definition validateFill :: "(string \<Rightarrow> string) \<Rightarrow> int \<Rightarrow> js \<Rightarrow> exchange_fill result" where
  "validateFill sha256 now value = rbind (contractObject value) (\<lambda>result.
     rbind (if js_get result ''identity'' = JUndefined then Inr () else rbind (validateFillIdentity (js_get result ''identity'')) (\<lambda>_. Inr ())) (\<lambda>_.
     rbind (contract_identifier (js_get result ''exchangeFillId'') ''fill'') (\<lambda>fill. rbind (contract_identifier (js_get result ''exchangeOrderId'') ''fill order'') (\<lambda>order.
     rbind (optional_identifier (js_get result ''symbol'') ''fill symbol'') (\<lambda>symbol. rbind (optional_identifier (js_get result ''providerSymbol'') ''fill provider symbol'') (\<lambda>market.
     rbind (nullableIdentifier (js_get result ''clientOrderId'') ''fill client order'') (\<lambda>client. rbind (nullableIdentifier (js_get result ''feeAsset'') ''fee asset'') (\<lambda>fee_asset.
     rbind (amount_text (js_get result ''price'') True False) (\<lambda>price. rbind (amount_text (js_get result ''quantity'') True False) (\<lambda>quantity.
     rbind (amount_text (js_get result ''fee'') False True) (\<lambda>fee. rbind (contract_timestamp now (js_get result ''filledAt'') None) (\<lambda>time.
     rbind (if js_get result ''quantityNormalization'' = JUndefined then Inr ()
       else rbind (validateFillQuantityNormalization sha256 now (js_get result ''quantityNormalization'') result) (\<lambda>_. Inr ())) (\<lambda>_.
     rbind (optional_accounting result) (\<lambda>accounting.
       Inr \<lparr>xf_identity = js_get result ''identity'', xf_quantityNormalization = js_get result ''quantityNormalization'', xf_exchangeFillId = fill, xf_clientOrderId = client,
         xf_exchangeOrderId = order, xf_symbol = symbol, xf_providerSymbol = market, xf_price = price, xf_quantity = quantity, xf_fee = fee, xf_feeAsset = fee_asset,
         xf_filledAt = time, xf_accounting = accounting, xf_raw = js_get result ''raw''\<rparr>))))))))))))))"


section \<open>Open states\<close>

text \<open>The text of evidence of any form; a number that is no safe integer is printed by the platform.\<close>

fun evidence_text :: "(rat \<Rightarrow> string) \<Rightarrow> js \<Rightarrow> string" where
  "evidence_text number_text JUndefined = ''null''"
| "evidence_text number_text JNull = ''null''"
| "evidence_text number_text (JBool b) = (if b then ''true'' else ''false'')"
| "evidence_text number_text (JNum n) = (case safe_integer_of (JNum n) of Some k \<Rightarrow> show_int k | None \<Rightarrow> (case n of Num r \<Rightarrow> number_text r | _ \<Rightarrow> ''null''))"
| "evidence_text number_text (JStr s) = json_string s"
| "evidence_text number_text (JArr xs) = json_array (map (evidence_text number_text) xs)"
| "evidence_text number_text (JObj props) = ''{'' @ join_with '','' (map (\<lambda>kv. json_string (fst kv) @ '':'' @ evidence_text number_text (snd kv))
     (filter (\<lambda>kv. snd kv \<noteq> JUndefined) props)) @ ''}''"

definition economic_field :: "js \<Rightarrow> bool" where
  "economic_field item = (case item of JNull \<Rightarrow> True | JStr _ \<Rightarrow> True | JBool _ \<Rightarrow> True | JNum n \<Rightarrow> (case n of Num _ \<Rightarrow> True | NegZero \<Rightarrow> True | _ \<Rightarrow> False) | _ \<Rightarrow> False)"

definition unresolved_reason :: "js \<Rightarrow> bool" where
  "unresolved_reason v = (case v of JStr s \<Rightarrow> reason_pattern s \<and> length s \<le> 64 | _ \<Rightarrow> False)"

definition validateUnresolvedEvent :: "(rat \<Rightarrow> string) \<Rightarrow> js \<Rightarrow> (string \<times> js) list result" where
  "validateUnresolvedEvent number_text value = rbind (contractObject value) (\<lambda>result.
     rbind (throw_if (\<not> isStringMember (js_get result ''kind'') [''fill'', ''order''] \<or> \<not> isStringMember (js_get result ''source'') [''fetchMyTrades'', ''fetchOrders'']
         \<or> \<not> unresolved_reason (js_get result ''reason''))
       (Error ''Invalid unresolved exchange event contract.'')) (\<lambda>_.
     rbind (nullableIdentifier (js_get result ''providerId'') ''unresolved event'') (\<lambda>_. rbind (nullableIdentifier (js_get result ''providerSymbol'') ''unresolved provider symbol'') (\<lambda>_.
     rbind (contractObject (js_get result ''evidence'')) (\<lambda>evidence.
     rbind (throw_if (length evidence > 40 \<or> int (length (evidence_text number_text (JObj evidence))) > 16384) (Error ''Unresolved event evidence exceeds its size limit.'')) (\<lambda>_.
     rbind (throw_if (list_ex (\<lambda>kv. \<not> economic_field (snd kv)) evidence) (Error ''Unresolved event evidence must contain only bounded economic fields.'')) (\<lambda>_.
       Inr result)))))))"

definition scope_char :: "char \<Rightarrow> bool" where
  "scope_char c \<longleftrightarrow> is_digit c \<or> 97 \<le> (of_char c :: int) \<and> (of_char c :: int) \<le> 122 \<or> 65 \<le> (of_char c :: int) \<and> (of_char c :: int) \<le> 90 \<or> c \<in> set ''_.:-''"

definition acquisitionScope :: "js \<Rightarrow> (string \<times> int \<times> bool) result" where
  "acquisitionScope value = rbind (contractObject value) (\<lambda>row.
     case (js_get row ''scope'', js_get row ''complete'', safe_integer_of (js_get row ''pages'')) of
       (JStr scope, JBool finished, Some pages) \<Rightarrow>
         if scope = [] \<or> length scope > 100 \<or> \<not> list_all scope_char scope \<or> pages < (if finished then 1 else 0) \<or> pages > 64
         then Inl (Error ''Invalid acquisition scope evidence.'') else Inr (scope, pages, finished)
     | _ \<Rightarrow> Inl (Error ''Invalid acquisition scope evidence.''))"

definition acquisitionScopes :: "js \<Rightarrow> bool \<Rightarrow> (string \<times> int \<times> bool) list result" where
  "acquisitionScopes value finished = (case value of
       JArr items \<Rightarrow>
         if items = [] \<or> length items > 64 then Inl (Error ''Invalid acquisition scopes.'')
         else rbind (mapM acquisitionScope items) (\<lambda>scopes.
           rbind (throw_if (card (set (map fst scopes)) \<noteq> length scopes \<or> sum_list (map (\<lambda>s. fst (snd s)) scopes) > 64 \<or> finished \<and> list_ex (\<lambda>s. \<not> snd (snd s)) scopes)
             (Error ''Incomplete or duplicate acquisition scope.'')) (\<lambda>_. Inr scopes))
     | _ \<Rightarrow> Inl (Error ''Invalid acquisition scopes.''))"

definition acquisition_since :: "int \<Rightarrow> js \<Rightarrow> int \<Rightarrow> int option result" where
  "acquisition_since now value completed = (if value = JNull then Inr None
     else rbind (contract_timestamp now value None) (\<lambda>since.
       rbind (throw_if (since > completed) (Error ''Acquisition start exceeds its completion.'')) (\<lambda>_. Inr (Some since))))"

definition acquisition_reason :: "js \<Rightarrow> string option result" where
  "acquisition_reason value = (case value of
       JNull \<Rightarrow> Inr None
     | JStr s \<Rightarrow> if reason_pattern s then Inr (Some s) else Inl (Error ''Invalid acquisition reason.'')
     | _ \<Rightarrow> Inl (Error ''Invalid acquisition reason.''))"

definition acquisitionSource :: "int \<Rightarrow> int \<Rightarrow> int \<Rightarrow> js \<Rightarrow> source_evidence result" where
  "acquisitionSource now startedAt completedAt value = rbind (contractObject value) (\<lambda>row.
     rbind (throw_if (\<not> isStringMember (js_get row ''source'') [''positions'', ''orders'', ''targeted_orders'', ''fills'']
         \<or> \<not> isStringMember (js_get row ''completeness'') [''complete'', ''partial'', ''unknown'']) (Error ''Invalid acquisition source.'')) (\<lambda>_.
     rbind (contract_timestamp now (js_get row ''startedAt'') (Some 60000)) (\<lambda>started. rbind (contract_timestamp now (js_get row ''completedAt'') (Some 60000)) (\<lambda>completed.
     rbind (throw_if (started < startedAt \<or> completed > completedAt \<or> started > completed) (Error ''Acquisition source falls outside its request window.'')) (\<lambda>_.
     rbind (acquisition_since now (js_get row ''since'') completed) (\<lambda>since. rbind (acquisition_reason (js_get row ''reason'')) (\<lambda>reason.
     rbind (if js_get row ''scopes'' = JUndefined then Inr []
       else acquisitionScopes (js_get row ''scopes'') (js_get row ''completeness'' = JStr ''complete'')) (\<lambda>_.
       Inr \<lparr>se_source = string_field row ''source'', se_startedAt = started, se_completedAt = completed, se_completeness = string_field row ''completeness'',
         se_reason = reason, se_since = since\<rparr>))))))))"

definition acquisitionOrder :: "js \<Rightarrow> (string \<times> string) result" where
  "acquisitionOrder value = rbind (contractObject value) (\<lambda>row. rbind (contract_identifier (js_get row ''clientOrderId'') ''acquisition client order'') (\<lambda>client.
     rbind (throw_if (\<not> isStringMember (js_get row ''status'') [''observed'', ''not_found'', ''unsupported'', ''budget_exhausted'', ''transient''])
       (Error ''Invalid acquisition order result.'')) (\<lambda>_. Inr (client, string_field row ''status''))))"

record validated_acquisition = acquisition_evidence +
  va_accountMode :: "mode_progress option"
  va_accountLogs :: "log_progress option"
  va_targetedCalls :: "int option"
  va_recoverySchedule :: "recovery_progress option"
  va_fxEvidence :: "fx_progress option"

definition acquisition_collections :: "(string \<times> js) list \<Rightarrow> int \<Rightarrow> int \<Rightarrow> (js list \<times> js list) result" where
  "acquisition_collections result started completed = (case (js_get result ''sources'', js_get result ''checkedOrders'') of
       (JArr sources, JArr orders) \<Rightarrow>
         if js_get result ''version'' \<noteq> JNum (Num 1) \<or> started > completed \<or> completed - started > 35000 \<or> length sources \<noteq> 4 \<or> length orders > 250
         then Inl (Error ''Invalid exchange acquisition evidence.'') else Inr (sources, orders)
     | _ \<Rightarrow> Inl (Error ''Invalid exchange acquisition evidence.''))"

definition validateAcquisitionEvidence :: "(string \<Rightarrow> string) \<Rightarrow> int \<Rightarrow> js \<Rightarrow> validated_acquisition result" where
  "validateAcquisitionEvidence sha256 now value = rbind (contractObject value) (\<lambda>result.
     rbind (contract_timestamp now (js_get result ''startedAt'') (Some 60000)) (\<lambda>started. rbind (contract_timestamp now (js_get result ''completedAt'') (Some 60000)) (\<lambda>completed.
     rbind (acquisition_collections result started completed) (\<lambda>(source_rows, order_rows).
     rbind (mapM (acquisitionSource now started completed) source_rows) (\<lambda>sources. rbind (mapM acquisitionOrder order_rows) (\<lambda>orders.
     rbind (throw_if (card (set (map se_source sources)) \<noteq> 4 \<or> card (set (map fst orders)) \<noteq> length orders) (Error ''Duplicate exchange acquisition evidence.'')) (\<lambda>_.
     rbind (if js_get result ''accountMode'' = JUndefined then Inr None
       else rbind (validateAccountModeProgress sha256 now (js_get result ''accountMode'') started completed) (\<lambda>m. Inr (Some m))) (\<lambda>mode.
     rbind (accountLogAcquisitionFields sha256 now started completed result) (\<lambda>(logs, targeted).
     rbind (parseRecoveryScheduleAcquisitionFields sha256 now (js_get result ''recoverySchedule'') (js_get result ''fxEvidence'')) (\<lambda>(schedule, fx).
     rbind (if js_get result ''history'' = JUndefined then Inr [] else validateHistoryProgress now (js_get result ''history'')) (\<lambda>history.
       Inr \<lparr>aq_version = 1, aq_startedAt = started, aq_completedAt = completed, aq_sources = sources, aq_checkedOrders = orders, aq_history = history,
         va_accountMode = mode, va_accountLogs = logs, va_targetedCalls = targeted, va_recoverySchedule = schedule, va_fxEvidence = fx\<rparr>)))))))))))"

definition collection :: "(string \<times> js) list \<Rightarrow> string \<Rightarrow> js list result" where
  "collection result name = (case js_get result name of
       JArr items \<Rightarrow> if int (length items) > 100000 then Inl (Error ''Invalid exchange open-state collection.'') else Inr items
     | _ \<Rightarrow> Inl (Error ''Invalid exchange open-state collection.''))"

definition unresolved_rows :: "(string \<times> js) list \<Rightarrow> js list result" where
  "unresolved_rows result = (case js_get result ''unresolvedEvents'' of
       JUndefined \<Rightarrow> Inr []
     | JArr items \<Rightarrow> if int (length items) > 100000 then Inl (Error ''Invalid unresolved exchange event collection.'') else Inr items
     | _ \<Rightarrow> Inl (Error ''Invalid unresolved exchange event collection.''))"

definition bound_fingerprint :: "(string \<times> js) list \<Rightarrow> string option \<Rightarrow> string result" where
  "bound_fingerprint result expected = (case js_get result ''accountFingerprint'' of
       JStr f \<Rightarrow> if \<not> hex64 f \<or> \<not> missing_text expected \<and> Some f \<noteq> expected
         then Inl (Error ''Exchange account identity does not match the bound account.'') else Inr f
     | _ \<Rightarrow> Inl (Error ''Exchange account identity does not match the bound account.''))"

definition validateOpenState ::
    "(string \<Rightarrow> string) \<Rightarrow> (rat \<Rightarrow> string) \<Rightarrow> int \<Rightarrow> js \<Rightarrow> string option \<Rightarrow> (bound_open_state \<times> (string \<times> js) list list) result" where
  "validateOpenState sha256 number_text now value expected = rbind (contractObject value) (\<lambda>result.
     rbind (bound_fingerprint result expected) (\<lambda>fingerprint.
     rbind (collection result ''orders'') (\<lambda>orders. rbind (collection result ''positions'') (\<lambda>positions. rbind (collection result ''fills'') (\<lambda>fills.
     rbind (unresolved_rows result) (\<lambda>unresolved. rbind (contract_timestamp now (js_get result ''observedAt'') (Some 60000)) (\<lambda>observed.
     rbind (mapM (validateRemoteOrder now) orders) (\<lambda>os. rbind (mapM validatePosition positions) (\<lambda>ps. rbind (mapM (validateFill sha256 now) fills) (\<lambda>fs.
     rbind (mapM (validateUnresolvedEvent number_text) unresolved) (\<lambda>us.
     rbind (if js_get result ''acquisition'' = JUndefined then Inr None
       else rbind (validateAcquisitionEvidence sha256 now (js_get result ''acquisition'')) (\<lambda>a. Inr (Some (acquisition_evidence.truncate a)))) (\<lambda>acquisition.
       Inr (\<lparr>xs_orders = os, xs_positions = ps, xs_fills = fs, xs_observedAt = observed, xs_acquisition = acquisition, bs_accountFingerprint = Some fingerprint\<rparr>, us)))))))))))))"


section \<open>What an accepted acquisition promises\<close>

lemma contract_object_Inr: "contractObject v = Inr row \<longleftrightarrow> v = JObj row"
  by (auto simp: contractObject_def split: js.splits)

lemma contract_timestamp_Inr: "contract_timestamp now v m = Inr n \<Longrightarrow> safe_integer_of v = Some n \<and> 0 \<le> n \<and> n \<le> now + 60000"
  by (auto simp: contract_timestamp_def split: option.splits if_splits)

definition source_names :: "string list" where
  "source_names = [''positions'', ''orders'', ''targeted_orders'', ''fills'']"

lemma string_member: "isStringMember v xs \<Longrightarrow> \<exists>s\<in>set xs. v = JStr s"
  by (auto simp: isStringMember_def split: js.splits)

lemma mapM_all: "mapM f xs = Inr ys \<Longrightarrow> (\<And>x y. f x = Inr y \<Longrightarrow> P y) \<Longrightarrow> \<forall>y\<in>set ys. P y"
  by (fastforce simp: mapM_Inr_iff list_all2_conv_all_nth in_set_conv_nth)

lemma distinct_source_names: "distinct source_names"
  by (simp add: source_names_def)

lemma acquisition_source_Inr:
  assumes "acquisitionSource now s c v = Inr src"
  shows "se_source src \<in> set source_names \<and> s \<le> se_startedAt src \<and> validAcquisitionClock (se_startedAt src) (se_completedAt src) \<and> se_completedAt src \<le> c"
proof -
  obtain row where row: "isStringMember (js_get row ''source'') source_names" "s \<le> se_startedAt src" "se_startedAt src \<le> se_completedAt src" "se_completedAt src \<le> c"
    "se_source src = string_field row ''source''" "contract_timestamp now (js_get row ''startedAt'') (Some 60000) = Inr (se_startedAt src)"
    "contract_timestamp now (js_get row ''completedAt'') (Some 60000) = Inr (se_completedAt src)"
    using assms unfolding acquisitionSource_def rbind_Inr_iff throw_if_Inr source_names_def by auto
  have "is_safe_integer (se_startedAt src)" "is_safe_integer (se_completedAt src)"
    using contract_timestamp_Inr [OF row(6)] contract_timestamp_Inr [OF row(7)] safe_integer_of_safe by blast+
  moreover have "se_source src \<in> set source_names" using string_member [OF row(1)] row(5) by (auto simp: string_field_def)
  ultimately show ?thesis using row(2,3,4) by (simp add: validAcquisitionClock_def)
qed

lemma acquisition_sources_Inr:
  assumes "mapM (acquisitionSource now s c) rows = Inr sources" "length rows = 4" "card (set (map se_source sources)) = 4"
  shows "mset (map se_source sources) = mset source_names"
    "\<forall>src\<in>set sources. s \<le> se_startedAt src \<and> validAcquisitionClock (se_startedAt src) (se_completedAt src) \<and> se_completedAt src \<le> c"
proof -
  have all: "\<forall>src\<in>set sources. se_source src \<in> set source_names \<and> s \<le> se_startedAt src \<and> validAcquisitionClock (se_startedAt src) (se_completedAt src) \<and> se_completedAt src \<le> c"
    by (rule mapM_all [OF assms(1)]) (rule acquisition_source_Inr)
  have "length sources = 4" using mapM_length [OF assms(1)] assms(2) by simp
  then have d: "distinct (map se_source sources)" using assms(3) by (simp add: card_distinct)
  have "set (map se_source sources) \<subseteq> set source_names" using all by auto
  moreover have "card (set source_names) = 4" by (simp add: source_names_def)
  ultimately have "set (map se_source sources) = set source_names" using assms(3) by (metis List.finite_set card_subset_eq)
  then show "mset (map se_source sources) = mset source_names" using d distinct_source_names set_eq_iff_mset_eq_distinct by blast
  show "\<forall>src\<in>set sources. s \<le> se_startedAt src \<and> validAcquisitionClock (se_startedAt src) (se_completedAt src) \<and> se_completedAt src \<le> c" using all by blast
qed

text \<open>The sum the budget is checked on is the sum of the validated pages.\<close>

lemma addend_integer: "safe_integer_of v = Some n \<Longrightarrow> addend v = Some (of_int n)"
  by (auto simp: safe_integer_of_def addend_def split: js.splits js_number.splits if_splits)

lemma log_integer_Inr: "log_integer v = Inr n \<longleftrightarrow> safe_integer_of v = Some n \<and> 0 \<le> n"
  by (auto simp: log_integer_def split: option.splits if_splits)

lemma progress_item_pages:
  assumes "progress_item now item = Inr row"
  shows "\<exists>f. item = JObj f \<and> addend (js_get f ''pages'') = Some (of_int (hp_pages row))"
proof -
  obtain f pages where f: "history_object item = Inr f" "history_integer (js_get f ''pages'') = Inr pages" "hp_pages row = pages"
    using assms unfolding progress_item_def rbind_Inr_iff by auto
  have "safe_integer_of (js_get f ''pages'') = Some pages" using f(2) by (auto simp: history_integer_def split: option.splits if_splits)
  moreover have "item = JObj f" using f(1) by (auto simp: history_object_def split: js.splits)
  ultimately show ?thesis using addend_integer f(3) by auto
qed

lemma pages_sum:
  "list_all2 (\<lambda>item row. progress_item now item = Inr row) items rows \<Longrightarrow>
     foldM add_pages (Some z) items = Inr (Some (z + of_int (sum_list (map hp_pages rows))))"
proof (induction items rows arbitrary: z rule: list_all2_induct)
  case Nil
  then show ?case by simp
next
  case (Cons item items row rows)
  obtain f where f: "item = JObj f" "addend (js_get f ''pages'') = Some (of_int (hp_pages row))" using progress_item_pages [OF Cons.hyps(1)] by blast
  have "add_pages (Some z) item = Inr (Some (z + of_int (hp_pages row)))" by (simp add: f add_pages_def)
  then show ?case using Cons.IH [of "z + of_int (hp_pages row)"] by (simp add: add.assoc)
qed

lemma history_calls_pages:
  assumes "(if v = JUndefined then Inr [] else validateHistoryProgress now v) = Inr rows"
  shows "history_calls v = Inr (Some (of_int (sum_list (map hp_pages rows))))"
proof (cases "v = JUndefined")
  case True
  then show ?thesis using assms by (simp add: history_calls_def js_or_def)
next
  case False
  then obtain items where items: "v = JArr items" "list_all2 (\<lambda>item row. progress_item now item = Inr row) items rows"
    using assms by (auto simp: validateHistoryProgress_def rbind_Inr_iff throw_if_Inr mapM_Inr_iff split: js.splits if_splits)
  then show ?thesis using pages_sum [of now items rows 0] by (simp add: history_calls_def js_or_def)
qed


lemma member_calls_integer: "v = JObj row \<Longrightarrow> safe_integer_of (js_get row ''calls'') = Some n \<Longrightarrow> 0 \<le> n \<Longrightarrow> member_calls v = Inr n"
proof -
  assume v: "v = JObj row" and n: "safe_integer_of (js_get row ''calls'') = Some n" "0 \<le> n"
  have "js_or (js_get row ''calls'') (js_int 0) = js_get row ''calls''"
    using n(1) by (auto simp: js_or_def safe_integer_of_def split: js.splits)
  then show "member_calls v = Inr n" using n by (simp add: v member_calls_def log_integer_Inr)
qed

lemma member_calls_missing: "member_calls JUndefined = Inr 0"
  by (simp add: member_calls_def log_integer_Inr js_int_def safe_integer_of_def is_safe_integer_def max_safe_integer_def)

lemma mode_progress_Inr:
  assumes "validateAccountModeProgress sha256 now v started completed = Inr m"
  shows "member_calls v = Inr (mp_calls m)" "0 \<le> mp_calls m"
    "mp_observation m = Some ob \<Longrightarrow> started \<le> mo_startedAt ob \<and> mo_completedAt ob \<le> completed"
proof -
  obtain row where row: "mode_object v = Inr row" "progressCalls row = Inr (mp_calls m)"
    "progressEvidence (mp_calls m) (mp_reason m) (mp_observation m) started completed = Inr ()"
    using assms unfolding validateAccountModeProgress_def rbind_Inr_iff by auto
  have "safe_integer_of (js_get row ''calls'') = Some (mp_calls m) \<and> 0 \<le> mp_calls m"
    using row(2) by (auto simp: progressCalls_def split: option.splits if_splits)
  moreover have "v = JObj row" using row(1) by (auto simp: mode_object_def split: js.splits)
  ultimately show "member_calls v = Inr (mp_calls m)" "0 \<le> mp_calls m" using member_calls_integer by auto
  show "started \<le> mo_startedAt ob \<and> mo_completedAt ob \<le> completed" if "mp_observation m = Some ob"
    using row(3) that by (auto simp: progressEvidence_def observedEvidence_def rbind_Inr_iff throw_if_Inr)
qed

lemma fx_calls_Inr:
  assumes "parseRecoveryScheduleAcquisitionFields sha256 now schedule fx = Inr (s, f)"
  shows "member_calls fx = Inr (case f of None \<Rightarrow> 0 | Some p \<Rightarrow> fxp_calls p)" "0 \<le> (case f of None \<Rightarrow> 0 | Some p \<Rightarrow> fxp_calls p)"
    "s = None \<longleftrightarrow> schedule = JUndefined" "f = None \<longleftrightarrow> fx = JUndefined"
proof -
  have shape: "member_calls fx = Inr (fxp_calls p) \<and> 0 \<le> fxp_calls p" if p: "fxProgressShape fx = Inr p" for p
  proof -
    obtain row where row: "schedule_record fx [''version'', ''calls'', ''receipts'', ''reason'', ''nextReadAt''] = Inr row"
      "schedule_integer (js_get row ''calls'') 3 = Inr (fxp_calls p)"
      using p unfolding fxProgressShape_def rbind_Inr_iff by auto
    have "safe_integer_of (js_get row ''calls'') = Some (fxp_calls p) \<and> 0 \<le> fxp_calls p"
      using row(2) by (auto simp: schedule_integer_def schedule_invalid_def split: option.splits if_splits)
    moreover have "fx = JObj row" using row(1) by (auto simp: schedule_record_def schedule_object_def schedule_invalid_def rbind_Inr_iff split: js.splits)
    ultimately show ?thesis using member_calls_integer by auto
  qed
  have "(fx = JUndefined \<and> f = None \<or> (\<exists>p. fx \<noteq> JUndefined \<and> f = Some p \<and> fxProgressShape fx = Inr p)) \<and> (s = None \<longleftrightarrow> schedule = JUndefined)"
    using assms by (auto simp: parseRecoveryScheduleAcquisitionFields_def rbind_Inr_iff schedule_check_def schedule_invalid_def split: if_splits)
  then show "member_calls fx = Inr (case f of None \<Rightarrow> 0 | Some p \<Rightarrow> fxp_calls p)" "0 \<le> (case f of None \<Rightarrow> 0 | Some p \<Rightarrow> fxp_calls p)"
    "s = None \<longleftrightarrow> schedule = JUndefined" "f = None \<longleftrightarrow> fx = JUndefined"
    using shape member_calls_missing by auto
qed

lemma log_fields_Inr:
  assumes "accountLogAcquisitionFields sha256 now started completed result = Inr (logs, targeted)"
  shows "logs = None \<longleftrightarrow> js_get result ''accountLogs'' = JUndefined"
    "logs = Some p \<Longrightarrow> \<forall>r\<in>set (lp_receipts p). started \<le> lr_startedAt r \<and> lr_completedAt r \<le> completed"
    "if list_all (\<lambda>field. js_get result field = JUndefined) [''accountLogs'', ''accountMode'', ''recoverySchedule'', ''fxEvidence''] then targeted = None
     else \<exists>t\<ge>0. targeted = Some t \<and> assertSharedBudget result t (case logs of None \<Rightarrow> 0 | Some p \<Rightarrow> lp_calls p) = Inr ()"
  using assms unfolding accountLogAcquisitionFields_def
  by (auto simp: rbind_Inr_iff throw_if_Inr log_integer_Inr list_ex_iff not_less split: if_splits option.splits)

lemma shared_budget_Inr:
  assumes "assertSharedBudget result t l = Inr ()" "history_calls (js_get result ''history'') = Inr (Some (of_int h))"
    "member_calls (js_get result ''accountMode'') = Inr m" "member_calls (js_get result ''fxEvidence'') = Inr f"
  shows "t + h + m + l + f \<le> 5"
  using assms by (auto simp: assertSharedBudget_def rbind_Inr_iff throw_if_Inr safe_integer_of_def split: option.splits if_splits)


text \<open>The calls a validated acquisition reports beside its targeted lookups.\<close>

definition acquisition_calls :: "validated_acquisition \<Rightarrow> int" where
  "acquisition_calls a = sum_list (map hp_pages (aq_history a)) + (case va_accountMode a of None \<Rightarrow> 0 | Some m \<Rightarrow> mp_calls m) +
     (case va_accountLogs a of None \<Rightarrow> 0 | Some p \<Rightarrow> lp_calls p) + (case va_fxEvidence a of None \<Rightarrow> 0 | Some f \<Rightarrow> fxp_calls f)"

definition inside_window :: "validated_acquisition \<Rightarrow> int \<Rightarrow> int \<Rightarrow> bool" where
  "inside_window a started completed \<longleftrightarrow> aq_startedAt a \<le> started \<and> completed \<le> aq_completedAt a"

lemma acquisition_evidence_parts:
  assumes "validateAcquisitionEvidence sha256 now v = Inr a"
  obtains result source_rows order_rows where "contract_timestamp now (js_get result ''startedAt'') (Some 60000) = Inr (aq_startedAt a)"
    "contract_timestamp now (js_get result ''completedAt'') (Some 60000) = Inr (aq_completedAt a)"
    "acquisition_collections result (aq_startedAt a) (aq_completedAt a) = Inr (source_rows, order_rows)"
    "mapM (acquisitionSource now (aq_startedAt a) (aq_completedAt a)) source_rows = Inr (aq_sources a)"
    "card (set (map se_source (aq_sources a))) = 4" "card (set (map fst (aq_checkedOrders a))) = length (aq_checkedOrders a)"
    "if js_get result ''accountMode'' = JUndefined then va_accountMode a = None
     else \<exists>m. va_accountMode a = Some m \<and> validateAccountModeProgress sha256 now (js_get result ''accountMode'') (aq_startedAt a) (aq_completedAt a) = Inr m"
    "accountLogAcquisitionFields sha256 now (aq_startedAt a) (aq_completedAt a) result = Inr (va_accountLogs a, va_targetedCalls a)"
    "parseRecoveryScheduleAcquisitionFields sha256 now (js_get result ''recoverySchedule'') (js_get result ''fxEvidence'') = Inr (va_recoverySchedule a, va_fxEvidence a)"
    "(if js_get result ''history'' = JUndefined then Inr [] else validateHistoryProgress now (js_get result ''history'')) = Inr (aq_history a)"
    "aq_version a = 1" "length (aq_checkedOrders a) \<le> 250"
proof -
  obtain result started completed collections sources orders mode logs schedule history where h:
    "contract_timestamp now (js_get result ''startedAt'') (Some 60000) = Inr started"
    "contract_timestamp now (js_get result ''completedAt'') (Some 60000) = Inr completed"
    "acquisition_collections result started completed = Inr collections"
    "mapM (acquisitionSource now started completed) (fst collections) = Inr sources"
    "\<not> (card (set (map se_source sources)) \<noteq> 4 \<or> card (set (map fst orders)) \<noteq> length orders)"
    "(if js_get result ''accountMode'' = JUndefined then Inr None
      else rbind (validateAccountModeProgress sha256 now (js_get result ''accountMode'') started completed) (\<lambda>m. Inr (Some m))) = Inr mode"
    "accountLogAcquisitionFields sha256 now started completed result = Inr logs"
    "parseRecoveryScheduleAcquisitionFields sha256 now (js_get result ''recoverySchedule'') (js_get result ''fxEvidence'') = Inr schedule"
    "(if js_get result ''history'' = JUndefined then Inr [] else validateHistoryProgress now (js_get result ''history'')) = Inr history"
    "Inr \<lparr>aq_version = 1, aq_startedAt = started, aq_completedAt = completed, aq_sources = sources, aq_checkedOrders = orders, aq_history = history,
       va_accountMode = mode, va_accountLogs = fst logs, va_targetedCalls = snd logs, va_recoverySchedule = fst schedule, va_fxEvidence = snd schedule\<rparr> = (Inr a :: validated_acquisition result)"
    "mapM acquisitionOrder (snd collections) = Inr orders"
    using assms unfolding validateAcquisitionEvidence_def rbind_Inr_iff [of _ "\<lambda>r. _ r"] throw_if_Inr case_prod_beta by (elim exE conjE) (rule that)
  have mode: "if js_get result ''accountMode'' = JUndefined then mode = None
     else \<exists>m. mode = Some m \<and> validateAccountModeProgress sha256 now (js_get result ''accountMode'') started completed = Inr m"
    using h(6) by (auto simp: rbind_Inr_iff split: if_splits)
  have a: "a = \<lparr>aq_version = 1, aq_startedAt = started, aq_completedAt = completed, aq_sources = sources, aq_checkedOrders = orders, aq_history = history,
       va_accountMode = mode, va_accountLogs = fst logs, va_targetedCalls = snd logs, va_recoverySchedule = fst schedule, va_fxEvidence = snd schedule\<rparr>"
    using h(10) by simp
  have "length (snd collections) = length orders" using mapM_length [OF h(11)] by simp
  then have "length orders \<le> 250" using h(3) by (auto simp: acquisition_collections_def split: js.splits if_splits)
  then show thesis
    by (intro that [of result "fst collections" "snd collections"]) (use h mode in \<open>simp_all add: a del: if_split_asm\<close>)
qed

lemma acquisition_budget:
  assumes "validateAcquisitionEvidence sha256 now v = Inr a"
  shows "va_targetedCalls a = None \<and> va_accountMode a = None \<and> va_accountLogs a = None \<and> va_recoverySchedule a = None \<and> va_fxEvidence a = None \<or>
    (\<exists>t\<ge>0. va_targetedCalls a = Some t \<and> t + acquisition_calls a \<le> 5)"
proof -
  obtain result where r: "if js_get result ''accountMode'' = JUndefined then va_accountMode a = None
     else \<exists>m. va_accountMode a = Some m \<and> validateAccountModeProgress sha256 now (js_get result ''accountMode'') (aq_startedAt a) (aq_completedAt a) = Inr m"
    "accountLogAcquisitionFields sha256 now (aq_startedAt a) (aq_completedAt a) result = Inr (va_accountLogs a, va_targetedCalls a)"
    "parseRecoveryScheduleAcquisitionFields sha256 now (js_get result ''recoverySchedule'') (js_get result ''fxEvidence'') = Inr (va_recoverySchedule a, va_fxEvidence a)"
    "(if js_get result ''history'' = JUndefined then Inr [] else validateHistoryProgress now (js_get result ''history'')) = Inr (aq_history a)"
    using acquisition_evidence_parts [OF assms] by metis
  have mode: "va_accountMode a = None \<longleftrightarrow> js_get result ''accountMode'' = JUndefined"
    "member_calls (js_get result ''accountMode'') = Inr (case va_accountMode a of None \<Rightarrow> 0 | Some m \<Rightarrow> mp_calls m)"
    using r(1) mode_progress_Inr(1) member_calls_missing by (auto split: if_splits)
  note fx = fx_calls_Inr [OF r(3)]
  note logs = log_fields_Inr(1,3) [OF r(2)]
  show ?thesis
  proof (cases "list_all (\<lambda>field. js_get result field = JUndefined) [''accountLogs'', ''accountMode'', ''recoverySchedule'', ''fxEvidence'']")
    case True
    then show ?thesis using logs mode(1) fx(3,4) by simp
  next
    case False
    then obtain t where t: "0 \<le> t" "va_targetedCalls a = Some t" "assertSharedBudget result t (case va_accountLogs a of None \<Rightarrow> 0 | Some p \<Rightarrow> lp_calls p) = Inr ()"
      using logs(2) by auto
    have "t + sum_list (map hp_pages (aq_history a)) + (case va_accountMode a of None \<Rightarrow> 0 | Some m \<Rightarrow> mp_calls m) +
        (case va_accountLogs a of None \<Rightarrow> 0 | Some p \<Rightarrow> lp_calls p) + (case va_fxEvidence a of None \<Rightarrow> 0 | Some f \<Rightarrow> fxp_calls f) \<le> 5"
      by (rule shared_budget_Inr [OF t(3) history_calls_pages [OF r(4)] mode(2) fx(1)])
    then show ?thesis using t(1,2) by (simp add: acquisition_calls_def)
  qed
qed

lemma distinct_source_filter:
  assumes "distinct (map se_source sources)" "src \<in> set sources"
  shows "filter (\<lambda>s. se_source s = se_source src) sources = [src]"
  using assms by (induction sources) (auto simp: filter_empty_conv image_iff)

lemma accepted_sources_complete:
  assumes "mset (map se_source (aq_sources a)) = mset source_names"
    "\<forall>src\<in>set (aq_sources a). sourceWithinAcquisition src a"
  shows "list_all (completeAcquisitionSource a) [''orders'', ''positions'', ''fills'', ''targeted_orders''] \<longleftrightarrow>
    (\<forall>src\<in>set (aq_sources a). se_completeness src = ''complete'' \<and> se_reason src = None)"
proof -
  have "distinct (map se_source (aq_sources a))" using assms(1) using mset_eq_imp_distinct_iff distinct_source_names by blast
  then have one: "completeAcquisitionSource a (se_source src) \<longleftrightarrow> se_completeness src = ''complete'' \<and> se_reason src = None" if "src \<in> set (aq_sources a)" for src
    using that assms(2) by (simp add: completeAcquisitionSource_def distinct_source_filter)
  have "se_source ` set (aq_sources a) = set source_names" using mset_eq_setD [OF assms(1)] by simp
  then have "(\<forall>x\<in>set source_names. completeAcquisitionSource a x) \<longleftrightarrow> (\<forall>src\<in>set (aq_sources a). completeAcquisitionSource a (se_source src))" by (metis image_iff)
  moreover have "list_all (completeAcquisitionSource a) [''orders'', ''positions'', ''fills'', ''targeted_orders''] \<longleftrightarrow> (\<forall>x\<in>set source_names. completeAcquisitionSource a x)"
    by (auto simp: source_names_def)
  ultimately show ?thesis using one by blast
qed

text \<open>
  C2: accepted acquisition evidence is consistent in itself and keeps its budget. It lasts at most 35 seconds, has each of the four
  sources once and every looked-up order, of which there are at most 250, once, and all its sources, its account-mode observation and its account-log receipts lie
  inside its window. Unless it is a plain acquisition without any of the bounded extra reads, its targeted lookups, history pages,
  account-mode, account-log and conversion reads are together at most five calls. As evidence for a cancellation it counts exactly
  when it is fresh and none of its four sources is incomplete or gives a reason.
\<close>

theorem acquisition_within_budget:
  assumes "validateAcquisitionEvidence sha256 now v = Inr a"
  shows "aq_startedAt a \<le> aq_completedAt a \<and> aq_completedAt a \<le> aq_startedAt a + 35000 \<and>
    mset (map se_source (aq_sources a)) = mset source_names \<and> distinct (map fst (aq_checkedOrders a)) \<and> length (aq_checkedOrders a) \<le> 250 \<and>
    (\<forall>src\<in>set (aq_sources a). inside_window a (se_startedAt src) (se_completedAt src)) \<and>
    (\<forall>m ob. va_accountMode a = Some m \<and> mp_observation m = Some ob \<longrightarrow> inside_window a (mo_startedAt ob) (mo_completedAt ob)) \<and>
    (\<forall>p. va_accountLogs a = Some p \<longrightarrow> (\<forall>r\<in>set (lp_receipts p). inside_window a (lr_startedAt r) (lr_completedAt r))) \<and>
    (va_targetedCalls a = None \<and> va_accountMode a = None \<and> va_accountLogs a = None \<and> va_recoverySchedule a = None \<and> va_fxEvidence a = None \<or>
      (\<exists>t\<ge>0. va_targetedCalls a = Some t \<and> t + acquisition_calls a \<le> 5)) \<and>
    (\<forall>remote after time. xs_acquisition remote = Some (acquisition_evidence.truncate a) \<longrightarrow>
      (acquisitionReason remote after time = None \<longleftrightarrow> after \<le> aq_startedAt a \<and> aq_completedAt a \<le> time \<and> time \<le> aq_startedAt a + 10000 \<and>
        (\<forall>src\<in>set (aq_sources a). se_completeness src = ''complete'' \<and> se_reason src = None)))"
proof -
  obtain result source_rows order_rows where r: "contract_timestamp now (js_get result ''startedAt'') (Some 60000) = Inr (aq_startedAt a)"
    "contract_timestamp now (js_get result ''completedAt'') (Some 60000) = Inr (aq_completedAt a)"
    "acquisition_collections result (aq_startedAt a) (aq_completedAt a) = Inr (source_rows, order_rows)"
    "mapM (acquisitionSource now (aq_startedAt a) (aq_completedAt a)) source_rows = Inr (aq_sources a)"
    "card (set (map se_source (aq_sources a))) = 4" "card (set (map fst (aq_checkedOrders a))) = length (aq_checkedOrders a)"
    "if js_get result ''accountMode'' = JUndefined then va_accountMode a = None
     else \<exists>m. va_accountMode a = Some m \<and> validateAccountModeProgress sha256 now (js_get result ''accountMode'') (aq_startedAt a) (aq_completedAt a) = Inr m"
    "accountLogAcquisitionFields sha256 now (aq_startedAt a) (aq_completedAt a) result = Inr (va_accountLogs a, va_targetedCalls a)" "aq_version a = 1" "length (aq_checkedOrders a) \<le> 250"
    by (rule acquisition_evidence_parts [OF assms]) blast
  have time: "aq_startedAt a \<le> aq_completedAt a" "aq_completedAt a \<le> aq_startedAt a + 35000" "length source_rows = 4"
    using r(3) by (auto simp: acquisition_collections_def split: js.splits if_splits)
  note sources = acquisition_sources_Inr [OF r(4) time(3) r(5)]
  have clock: "validAcquisitionClock (aq_startedAt a) (aq_completedAt a)"
    using contract_timestamp_Inr [OF r(1)] contract_timestamp_Inr [OF r(2)] safe_integer_of_safe time(1) by (auto simp: validAcquisitionClock_def)
  have reason: "acquisitionReason remote after time = None \<longleftrightarrow> after \<le> aq_startedAt a \<and> aq_completedAt a \<le> time \<and> time \<le> aq_startedAt a + 10000 \<and>
        (\<forall>src\<in>set (aq_sources a). se_completeness src = ''complete'' \<and> se_reason src = None)"
    if remote: "xs_acquisition remote = Some (acquisition_evidence.truncate a)" for remote :: "'r exchange_open_state_scheme" and after time
    using accepted_sources_complete [of "acquisition_evidence.truncate a"] sources clock r(9)
    by (auto simp: remote acquisitionReason_def acquisitionWindowFresh_def cancel_retry_ms_def sourceWithinAcquisition_def acquisition_evidence.truncate_def)
  show ?thesis
    using time(1,2) sources acquisition_budget [OF assms] reason log_fields_Inr(2) [OF r(8)] mode_progress_Inr(3) r(6,7,10)
    by (auto simp: inside_window_def card_distinct split: if_splits)
qed

text \<open>An acquisition with two targeted lookups, a history of two pages and one failed account-mode read: five calls.\<close>

definition sample_source :: "string \<Rightarrow> js" where
  "sample_source name = JObj [(''source'', JStr name), (''startedAt'', js_int 40), (''completedAt'', js_int 50), (''completeness'', JStr ''complete''), (''reason'', JNull),
     (''since'', JNull), (''scopes'', JArr [JObj [(''scope'', JStr ''linear''), (''pages'', js_int 1), (''complete'', JBool True)]])]"

definition sample_acquisition :: js where
  "sample_acquisition = JObj [(''version'', js_int 1), (''startedAt'', js_int 40), (''completedAt'', js_int 60),
     (''sources'', JArr (map sample_source [''orders'', ''fills'', ''positions'', ''targeted_orders''])),
     (''checkedOrders'', JArr [JObj [(''clientOrderId'', JStr ''c1''), (''status'', JStr ''observed'')]]),
     (''accountMode'', JObj [(''calls'', js_int 1), (''observation'', JNull), (''reason'', JStr ''transient'')]),
     (''targetedCalls'', js_int 2), (''history'', sample_response)]"

theorem acquisition_within_budget_witness:
  "\<exists>a. validateAcquisitionEvidence id 100 sample_acquisition = Inr a \<and> va_targetedCalls a = Some 2 \<and> 2 + acquisition_calls a \<le> 5"
proof -
  have "case validateAcquisitionEvidence id 100 sample_acquisition of Inr a \<Rightarrow> va_targetedCalls a = Some 2 | Inl _ \<Rightarrow> False" by code_simp
  then obtain a where a: "validateAcquisitionEvidence id 100 sample_acquisition = Inr a" "va_targetedCalls a = Some 2" by (auto split: sum.splits)
  from acquisition_within_budget [OF a(1)] a show ?thesis by auto
qed


section \<open>What an accepted fill quantity promises\<close>

lemma quantity_positive_Inr:
  assumes "quantity_positive v = Inr s"
  shows "\<exists>t. v = JStr t \<and> decimal_pattern t \<and> 0 < dec_val t \<and> dec_val s = dec_val t"
proof -
  obtain t where t: "v = JStr t" "js_trim t = t" "decimal_positive t = Inr s"
    using assms by (auto simp: quantity_positive_def quantity_invalid_def split: js.splits if_splits)
  then show ?thesis using decimal_positive_value [OF t(3)] dec_val_nonneg [of t] by (auto simp: less_le)
qed

lemma coefficient_Inr:
  assumes "coefficient v = Inr (c, k)"
  shows "\<exists>t. v = JStr t \<and> decimal_pattern t \<and> 0 < dec_val t \<and> of_int c / 10 ^ k = dec_val t"
proof -
  obtain s where s: "quantity_positive v = Inr s" "dec_val s = of_int c / 10 ^ k"
    using assms by (auto simp: coefficient_def rbind_Inr_iff dec_val_def case_prod_beta)
  then show ?thesis using quantity_positive_Inr [OF s(1)] by auto
qed

lemma exact_product_Inr:
  assumes "exactProduct input factor output = Inr b"
  obtains i f r where "input = JStr i" "factor = JStr f" "output = JStr r" "0 < dec_val i" "0 < dec_val f" "b \<longleftrightarrow> dec_val r = dec_val i * dec_val f"
proof -
  obtain c1 k1 c2 k2 c3 k3 where h: "coefficient input = Inr (c1, k1)" "coefficient factor = Inr (c2, k2)" "coefficient output = Inr (c3, k3)"
    "b \<longleftrightarrow> c1 * c2 * 10 ^ k3 = c3 * 10 ^ (k1 + k2)"
    using assms by (auto simp: exactProduct_def rbind_Inr_iff)
  obtain i f r where t: "input = JStr i" "factor = JStr f" "output = JStr r" "0 < dec_val i" "0 < dec_val f"
    "dec_val i = of_int c1 / 10 ^ k1" "dec_val f = of_int c2 / 10 ^ k2" "dec_val r = of_int c3 / 10 ^ k3"
    using coefficient_Inr [OF h(1)] coefficient_Inr [OF h(2)] coefficient_Inr [OF h(3)] by metis
  have "c1 * c2 * 10 ^ k3 = c3 * 10 ^ (k1 + k2) \<longleftrightarrow> (of_int (c1 * c2 * 10 ^ k3) :: rat) = of_int (c3 * 10 ^ (k1 + k2))" by (simp only: of_int_eq_iff)
  also have "\<dots> \<longleftrightarrow> dec_val r = dec_val i * dec_val f" by (auto simp: t(6-8) field_simps power_add)
  finally show thesis using that t h(4) by blast
qed

lemma quantity_check_Inr: "quantity_check b = Inr u \<longleftrightarrow> b"
  by (simp add: quantity_check_def quantity_invalid_def)

lemma quantity_object_Inr: "quantity_object v = Inr row \<longleftrightarrow> v = JObj row"
  by (auto simp: quantity_object_def quantity_invalid_def split: js.splits)

lemma strict_equal_text: "strict_equal v (JStr s) \<longleftrightarrow> v = JStr s" "strict_equal (JStr s) v \<longleftrightarrow> v = JStr s"
  by (auto simp: strict_equal_def split: js.splits)

lemmas quantity_inversion = rbind_Inr_iff quantity_check_Inr quantity_object_Inr quantity_shape_def

lemma arithmetic_Inr:
  assumes "arithmetic v row = Inr ()"
  shows "\<exists>a b. v = JObj a \<and> js_get a ''exactProduct'' = JBool b \<and> exactProduct (js_get row ''inputQuantity'') (js_get row ''appliedFactor'') (js_get row ''outputQuantity'') = Inr b"
  using assms unfolding arithmetic_def quantity_inversion by blast

lemma original_Inr:
  assumes "originalBinding sha256 row fill = Inr identity"
  shows "\<exists>raw info. js_get fill ''raw'' = JObj raw \<and> js_get raw ''info'' = JObj info \<and> validateFillIdentity (js_get row ''nativeIdentity'') = Inr identity \<and>
    deep_equal (js_get row ''nativeIdentity'') (js_get fill ''identity'') \<and> strict_equal (js_get raw ''amount'') (js_get row ''inputQuantity'') \<and>
    js_get fill ''exchangeFillId'' = JStr (fid_providerFillId identity) \<and> js_get info ''executionUid'' = JStr (fid_providerFillId identity) \<and>
    js_get info ''tradeable'' = JStr (fid_providerMarketId identity) \<and>
    (\<exists>digest. fillQuantityDigest sha256 ''kraken-normalization-original-v1'' (JObj raw) = Inr digest \<and> js_get row ''originalExecutionHash'' = JStr digest)"
  using assms unfolding originalBinding_def quantity_inversion original_pairs_def by (auto simp: strict_equal_text)

lemma market_Inr:
  assumes "marketBinding sha256 v row fill identity = Inr ()"
  shows "\<exists>market. v = JObj market \<and> js_get market ''providerMarketId'' = JStr (fid_providerMarketId identity) \<and>
    strict_equal (js_get market ''appliedContractSize'') (js_get row ''appliedFactor'')"
  using assms unfolding marketBinding_def quantity_inversion by auto

text \<open>
  C33: an accepted fill quantity is what its evidence says. The recorded quantity is the fill's quantity, its input is the amount of
  the native original the fill carries, whose digest it repeats, its factor is the contract size of the recorded market, and the
  execution identifiers are those of the fill. The evidence calls the product exact exactly when the fill's quantity is the native
  amount times the contract size as numbers.
\<close>

theorem fill_quantity_exact:
  assumes "validateFillQuantityNormalization sha256 now v fill = Inr row"
  shows "\<exists>raw info market arithmetic_row identity native size quantity exact digest.
    js_get fill ''raw'' = JObj raw \<and> js_get raw ''info'' = JObj info \<and> js_get row ''market'' = JObj market \<and> js_get row ''arithmetic'' = JObj arithmetic_row \<and>
    validateFillIdentity (js_get row ''nativeIdentity'') = Inr identity \<and> deep_equal (js_get row ''nativeIdentity'') (js_get fill ''identity'') \<and>
    js_get fill ''exchangeFillId'' = JStr (fid_providerFillId identity) \<and> js_get info ''executionUid'' = JStr (fid_providerFillId identity) \<and>
    js_get info ''tradeable'' = js_get market ''providerMarketId'' \<and>
    js_get raw ''amount'' = JStr native \<and> js_get market ''appliedContractSize'' = JStr size \<and> js_get fill ''quantity'' = JStr quantity \<and>
    0 < dec_val native \<and> 0 < dec_val size \<and> js_get arithmetic_row ''exactProduct'' = JBool exact \<and> (exact \<longleftrightarrow> dec_val quantity = dec_val native * dec_val size) \<and>
    fillQuantityDigest sha256 ''kraken-normalization-original-v1'' (JObj raw) = Inr digest \<and> js_get row ''originalExecutionHash'' = JStr digest"
proof -
  obtain identity where h: "strict_equal (js_get row ''outputQuantity'') (js_get fill ''quantity'')" "arithmetic (js_get row ''arithmetic'') row = Inr ()"
    "originalBinding sha256 row fill = Inr identity" "marketBinding sha256 (js_get row ''market'') row fill identity = Inr ()"
    using assms unfolding validateFillQuantityNormalization_def quantity_inversion by auto
  obtain a b where a: "js_get row ''arithmetic'' = JObj a" "js_get a ''exactProduct'' = JBool b"
    "exactProduct (js_get row ''inputQuantity'') (js_get row ''appliedFactor'') (js_get row ''outputQuantity'') = Inr b"
    using arithmetic_Inr [OF h(2)] by blast
  obtain i f r where t: "js_get row ''inputQuantity'' = JStr i" "js_get row ''appliedFactor'' = JStr f" "js_get row ''outputQuantity'' = JStr r"
    "0 < dec_val i" "0 < dec_val f" "b \<longleftrightarrow> dec_val r = dec_val i * dec_val f"
    by (rule exact_product_Inr [OF a(3)])
  show ?thesis using original_Inr [OF h(3)] market_Inr [OF h(4)] h(1) a(1,2) t by (auto simp: strict_equal_text)
qed

text \<open>A fill of two native contracts of a tenth of a coin each.\<close>

definition sample_digest :: "string \<Rightarrow> js \<Rightarrow> js" where
  "sample_digest domain v = (case fillQuantityDigest id domain v of Inr d \<Rightarrow> JStr d | Inl _ \<Rightarrow> JNull)"

definition sample_identity :: js where
  "sample_identity = JObj [(''version'', js_int 1), (''profile'', JStr ''kraken_history_execution_v3''), (''marketNamespace'', JStr ''futures''),
     (''providerMarketId'', JStr ''PF_XBTUSD''), (''providerSymbol'', JStr ''BTC/USD:USD''), (''providerFillId'', JStr ''f1''), (''scopeTimestamp'', JNull)]"

definition sample_raw :: js where
  "sample_raw = JObj [(''id'', JStr ''f1''), (''order'', JStr ''o1''), (''symbol'', JStr ''BTC/USD:USD''), (''timestamp'', js_int 50), (''amount'', JStr ''2''),
     (''price'', JStr ''100.0''), (''info'', JObj [(''identitySource'', JStr ''kraken_history_execution_v3''), (''executionUid'', JStr ''f1''), (''orderUid'', JStr ''o1''),
       (''tradeable'', JStr ''PF_XBTUSD''), (''executionTimestamp'', js_int 50), (''accountUid'', JStr ''u'')])]"

definition sample_fill :: "(string \<times> js) list" where
  "sample_fill = [(''exchangeFillId'', JStr ''f1''), (''exchangeOrderId'', JStr ''o1''), (''providerSymbol'', JStr ''BTC/USD:USD''), (''filledAt'', js_int 50),
     (''price'', JStr ''100''), (''quantity'', JStr ''0.2''), (''identity'', sample_identity), (''raw'', sample_raw),
     (''accounting'', JObj [(''settlementAsset'', JStr ''USD'')])]"

definition sample_market :: "(string \<times> js) list" where
  "sample_market = [(''providerMarketId'', JStr ''PF_XBTUSD''), (''providerSymbol'', JStr ''BTC/USD:USD''), (''base'', JStr ''BTC''), (''quote'', JStr ''USD''),
     (''settlementAsset'', JStr ''USD''), (''contract'', JBool True), (''linear'', JBool True), (''inverse'', JBool False), (''appliedContractSize'', JStr ''0.1''),
     (''source'', JStr ''ccxt-4.5.75-loaded-market''), (''observedAt'', JNull), (''providerContractSize'', JNull), (''providerOriginalStatus'', JStr ''not-retained'')]"

definition sample_normalization :: js where
  "sample_normalization = JObj [(''version'', js_int 1), (''source'', JStr ''kraken-execution-normalization-v1''), (''inputField'', JStr ''execution.quantity''),
     (''inputQuantity'', JStr ''2''), (''inputUnit'', JStr ''kraken_native_execution_quantity''), (''appliedFactor'', JStr ''0.1''), (''outputQuantity'', JStr ''0.2''),
     (''outputUnit'', JStr ''base''), (''arithmetic'', JObj [(''operation'', JStr ''multiply''), (''decimalPrecision'', js_int 28),
       (''decimalRounding'', JStr ''ROUND_HALF_EVEN''), (''exactProduct'', JBool True)]),
     (''market'', JObj (sample_market @ [(''sourceHash'', sample_digest ''kraken-normalization-market-v1'' (JObj sample_market))])),
     (''nativeIdentity'', sample_identity), (''originalExecutionHash'', sample_digest ''kraken-normalization-original-v1'' sample_raw), (''normalizedAt'', js_int 60)]"

theorem fill_quantity_exact_witness:
  "\<exists>row. validateFillQuantityNormalization id 100 sample_normalization sample_fill = Inr row \<and> js_get sample_fill ''quantity'' = JStr ''0.2'' \<and>
     dec_val ''0.2'' = dec_val ''2'' * dec_val ''0.1''"
proof -
  have "case validateFillQuantityNormalization id 100 sample_normalization sample_fill of Inr row \<Rightarrow> JObj row = sample_normalization | Inl _ \<Rightarrow> False" by code_simp
  then obtain row where row: "validateFillQuantityNormalization id 100 sample_normalization sample_fill = Inr row" "JObj row = sample_normalization"
    by (auto split: sum.splits)
  have raw: "js_get sample_fill ''raw'' = JObj raw \<Longrightarrow> js_get raw ''amount'' = JStr ''2''" for raw by (auto simp: sample_fill_def sample_raw_def)
  have market: "js_get row ''market'' = JObj m \<Longrightarrow> js_get m ''appliedContractSize'' = JStr ''0.1''" for m
    using row(2) by (auto simp: sample_normalization_def sample_market_def)
  have exact: "js_get row ''arithmetic'' = JObj a \<Longrightarrow> js_get a ''exactProduct'' = JBool True" for a using row(2) by (auto simp: sample_normalization_def)
  have quantity: "js_get sample_fill ''quantity'' = JStr ''0.2''" by (simp add: sample_fill_def)
  from fill_quantity_exact [OF row(1)] have "dec_val ''0.2'' = dec_val ''2'' * dec_val ''0.1''" using raw market exact quantity by fastforce
  with row(1) quantity show ?thesis by blast
qed


section \<open>What a confirmed order promises\<close>

lemma contract_amount_Inr:
  assumes "amount v pos False = Inr s"
  shows "\<exists>t. v = JStr t \<and> decimal_pattern t \<and> decimal_pattern s \<and> dec_val s = dec_val t"
proof -
  obtain t where t: "v = JStr t" "js_trim t = t" "decimal_with pos None t = Inr s"
    using assms by (auto simp: amount_def plain_text_def rbind_Inr_iff split: js.splits if_splits)
  have "decimal_pattern t" "dec_val s = dec_val t" using t(2,3) unfolding decimal_with_Inr_iff by auto
  then show ?thesis using t(1) decimal_with_valid [OF t(3)] by auto
qed

lemma order_result_Inr:
  assumes "validateOrderResult now v request = Inr r"
  obtains row where "v = JObj row" "js_get row ''clientOrderId'' = JStr (xr_clientOrderId r)" "js_get row ''exchangeOrderId'' = JStr (xr_exchangeOrderId r)"
    "xr_clientOrderId r = eo_clientOrderId request" "missing_text (eo_exchangeOrderId request) \<or> Some (xr_exchangeOrderId r) = eo_exchangeOrderId request"
    "\<And>q. eo_quantity request = Some q \<Longrightarrow> dec_val (xr_filledQuantity r) \<le> dec_val q"
proof -
  obtain row e where h: "v = JObj row" "contract_identifier (js_get row ''clientOrderId'') ''client order'' = Inr (xr_clientOrderId r)"
    "xr_clientOrderId r = eo_clientOrderId request" "executionFields row (eo_quantity request) False = Inr e"
    "missing_text (eo_exchangeOrderId request) \<or> Some (ex_exchangeOrderId e) = eo_exchangeOrderId request"
    "xr_exchangeOrderId r = ex_exchangeOrderId e" "xr_filledQuantity r = string_field row ''filledQuantity''"
    using assms unfolding validateOrderResult_def rbind_Inr_iff throw_if_Inr contract_object_Inr by auto
  obtain f where f: "contract_identifier (js_get row ''exchangeOrderId'') ''order'' = Inr (ex_exchangeOrderId e)"
    "amount (js_get row ''filledQuantity'') False False = Inr f" "assert_within (Some f) (eo_quantity request) = Inr ()"
    using h(4) unfolding executionFields_def by (auto simp: rbind_Inr_iff)
  have id: "js_get row field = JStr s" if "contract_identifier (js_get row field) label = Inr s" for field label s
    using that by (auto simp: contract_identifier_def split: js.splits if_splits)
  have "dec_val (xr_filledQuantity r) \<le> dec_val q" if q: "eo_quantity request = Some q" for q
  proof -
    obtain whole c where w: "amount (JStr q) True False = Inr whole" "compareDecimal f whole = Inr c" "\<not> c > 0"
      using f(3) by (auto simp: q assert_within_def rbind_Inr_iff throw_if_Inr)
    obtain t where t: "js_get row ''filledQuantity'' = JStr t" "dec_val f = dec_val t" using contract_amount_Inr [OF f(2)] by blast
    have "dec_val f \<le> dec_val whole" using compare_Inr [OF w(2)] w(3) by auto
    then show ?thesis using contract_amount_Inr [OF w(1)] t h(7) by (auto simp: string_field_def)
  qed
  then show thesis using that [of row] h(1,3,5,6) id [OF h(2)] id [OF f(1)] by auto
qed

definition answer_count :: "js list \<Rightarrow> string \<Rightarrow> js \<Rightarrow> nat" where
  "answer_count items field wanted = length (filter (\<lambda>v. case v of JObj row \<Rightarrow> strict_equal (js_get row field) wanted | _ \<Rightarrow> False) items)"

lemma records_filter: "length (filter P (List.map_filter (\<lambda>v. case v of JObj row \<Rightarrow> Some row | _ \<Rightarrow> None) items)) =
    length (filter (\<lambda>v. case v of JObj row \<Rightarrow> P row | _ \<Rightarrow> False) items)"
  by (induction items) (auto simp: map_filter_simps split: js.splits)

lemma records_member: "row \<in> set (List.map_filter (\<lambda>v. case v of JObj row \<Rightarrow> Some row | _ \<Rightarrow> None) items) \<longleftrightarrow> JObj row \<in> set items"
  by (induction items) (auto simp: map_filter_simps split: js.splits)

lemma filter_single_iff: "filter P xs = [x] \<longleftrightarrow> length (filter P xs) = 1 \<and> x \<in> set xs \<and> P x"
proof
  assume h: "filter P xs = [x]"
  then have "x \<in> set (filter P xs)" by simp
  then have "x \<in> set xs" "P x" unfolding set_filter by auto
  then show "length (filter P xs) = 1 \<and> x \<in> set xs \<and> P x" using h by simp
next
  assume h: "length (filter P xs) = 1 \<and> x \<in> set xs \<and> P x"
  then obtain y where "filter P xs = [y]" by (auto simp: length_Suc_conv)
  moreover have "x \<in> set (filter P xs)" using h by simp
  ultimately show "filter P xs = [x]" by simp
qed

lemma order_result_ids:
  assumes "validateOrderResult now (JObj row) request = Inr r"
  shows "js_get row ''clientOrderId'' = JStr (eo_clientOrderId request) \<and> js_get row ''exchangeOrderId'' = JStr (xr_exchangeOrderId r)"
  by (rule order_result_Inr [OF assms]) simp

lemma single_cases: obtains "xs = []" | x where "xs = [x]" | x y ys where "xs = x # y # ys"
  by (metis list.exhaust)

lemma confirmed_leg_iff:
  assumes "records = List.map_filter (\<lambda>v. case v of JObj row \<Rightarrow> Some row | _ \<Rightarrow> None) items"
  shows "r \<in> set (confirmed_leg now records request) \<longleftrightarrow> (\<exists>row. JObj row \<in> set items \<and> validateOrderResult now (JObj row) request = Inr r \<and>
    answer_count items ''clientOrderId'' (JStr (eo_clientOrderId request)) = 1 \<and> answer_count items ''exchangeOrderId'' (JStr (xr_exchangeOrderId r)) = 1)"
proof -
  let ?P = "\<lambda>row. js_get row ''clientOrderId'' = JStr (eo_clientOrderId request)"
  have "r \<in> set (confirmed_leg now records request) \<longleftrightarrow> (\<exists>row. filter ?P records = [row] \<and> validateOrderResult now (JObj row) request = Inr r \<and>
      length (filter (\<lambda>o'. strict_equal (js_get o' ''exchangeOrderId'') (js_get row ''exchangeOrderId'')) records) = 1)"
    by (cases "filter ?P records" rule: single_cases) (auto simp: confirmed_leg_def split: sum.splits)
  also have "\<dots> \<longleftrightarrow> (\<exists>row. filter ?P records = [row] \<and> validateOrderResult now (JObj row) request = Inr r \<and>
      length (filter (\<lambda>o'. strict_equal (js_get o' ''exchangeOrderId'') (JStr (xr_exchangeOrderId r))) records) = 1)"
    by (rule ex_cong1) (auto dest: order_result_ids)
  also have "\<dots> \<longleftrightarrow> (\<exists>row. row \<in> set records \<and> ?P row \<and> validateOrderResult now (JObj row) request = Inr r \<and>
      answer_count items ''clientOrderId'' (JStr (eo_clientOrderId request)) = 1 \<and> answer_count items ''exchangeOrderId'' (JStr (xr_exchangeOrderId r)) = 1)"
    unfolding filter_single_iff assms records_filter answer_count_def strict_equal_text by blast
  finally show ?thesis unfolding assms records_member using order_result_ids by blast
qed

text \<open>
  C15: what is kept of an incomplete batch is proven, leg by leg. A result is confirmed exactly when the batch has at most two
  answers and one of them, alone in naming the client order and alone in naming its exchange order, passes the validation of a
  requested leg, whatever became of the other leg. A confirmed result names the requested client order and, if it was known, the
  exchange order, and has not executed more than was asked for.
\<close>

theorem confirmed_legs_proven:
  "(r \<in> set (confirmedOrderEvidence now (JArr items) expected) \<longleftrightarrow> length items \<le> 2 \<and> (\<exists>request\<in>set expected. \<exists>row.
     JObj row \<in> set items \<and> validateOrderResult now (JObj row) request = Inr r \<and>
     answer_count items ''clientOrderId'' (JStr (eo_clientOrderId request)) = 1 \<and> answer_count items ''exchangeOrderId'' (JStr (xr_exchangeOrderId r)) = 1)) \<and>
   (\<forall>request row. validateOrderResult now (JObj row) request = Inr r \<longrightarrow>
     xr_clientOrderId r = eo_clientOrderId request \<and> (missing_text (eo_exchangeOrderId request) \<or> Some (xr_exchangeOrderId r) = eo_exchangeOrderId request) \<and>
     (\<forall>q. eo_quantity request = Some q \<longrightarrow> dec_val (xr_filledQuantity r) \<le> dec_val q))"
proof -
  have "r \<in> set (confirmedOrderEvidence now (JArr items) expected) \<longleftrightarrow> length items \<le> 2 \<and> (\<exists>request\<in>set expected.
      r \<in> set (confirmed_leg now (List.map_filter (\<lambda>v. case v of JObj row \<Rightarrow> Some row | _ \<Rightarrow> None) items) request))"
    by (simp add: confirmedOrderEvidence_def)
  moreover have "xr_clientOrderId r = eo_clientOrderId request \<and> (missing_text (eo_exchangeOrderId request) \<or> Some (xr_exchangeOrderId r) = eo_exchangeOrderId request) \<and>
      (\<forall>q. eo_quantity request = Some q \<longrightarrow> dec_val (xr_filledQuantity r) \<le> dec_val q)" if "validateOrderResult now (JObj row) request = Inr r" for request row
    by (rule order_result_Inr [OF that]) blast
  ultimately show ?thesis unfolding confirmed_leg_iff [OF refl] by blast
qed

definition sample_answer :: js where
  "sample_answer = JObj [(''clientOrderId'', JStr ''c1''), (''exchangeOrderId'', JStr ''x1''), (''status'', JStr ''partially_filled''), (''filledQuantity'', JStr ''0.5''),
     (''averagePrice'', JNull), (''error'', JNull)]"

text \<open>The first leg of a batch is confirmed although the second answer is no object.\<close>

theorem confirmed_legs_proven_witness:
  "\<exists>r. r \<in> set (confirmedOrderEvidence 100 (JArr [sample_answer, JNull])
      [\<lparr>eo_clientOrderId = ''c1'', eo_quantity = Some ''2'', eo_exchangeOrderId = None\<rparr>]) \<and> dec_val (xr_filledQuantity r) \<le> dec_val ''2''"
proof -
  define request where "request = \<lparr>eo_clientOrderId = ''c1'', eo_quantity = Some ''2'', eo_exchangeOrderId = None\<rparr>"
  have "case validateOrderResult 100 sample_answer request of Inr r \<Rightarrow> xr_exchangeOrderId r = ''x1'' | Inl _ \<Rightarrow> False" unfolding request_def by code_simp
  then obtain r where r: "validateOrderResult 100 sample_answer request = Inr r" "xr_exchangeOrderId r = ''x1''" by (auto split: sum.splits)
  obtain row where row: "sample_answer = JObj row" by (auto simp: sample_answer_def)
  have "answer_count [sample_answer, JNull] ''clientOrderId'' (JStr (eo_clientOrderId request)) = 1" "answer_count [sample_answer, JNull] ''exchangeOrderId'' (JStr ''x1'') = 1"
    unfolding request_def by code_simp+
  then have "r \<in> set (confirmedOrderEvidence 100 (JArr [sample_answer, JNull]) [request])"
    using confirmed_legs_proven [of r 100 "[sample_answer, JNull]" "[request]"] r unfolding row by fastforce
  moreover have "dec_val (xr_filledQuantity r) \<le> dec_val q" if "eo_quantity request = Some q" for q
    using confirmed_legs_proven [of r 100 "[sample_answer, JNull]" "[request]"] r(1) that unfolding row by blast
  ultimately show ?thesis by (auto simp: request_def)
qed

end
