(* ===== verification/Signal_Contract.thy ===== *)
theory Signal_Contract
  imports Recovery_Schedule Trading_Strategy
begin

text \<open>
  Signal contracts (\<^verbatim>\<open>src/signal_contract.ts\<close>): the definitions that say where in the XML of a signal its action, pair, entry, targets and
  other fields are and which policy they obey. Definitions are untyped data brought to one normal form; a schema and a contract are
  composed into an executable definition. Objects, keys and bounded integers are checked by the functions of \<^verbatim>\<open>Trading_Strategy\<close>, whose
  sources are the same. Whether a text is a regular expression and the text of a number that is no safe integer are parameters.
\<close>

section \<open>Definitions\<close>

datatype contract_entry_mode = Optional_range | Required_range | Typed_range
datatype contract_target_shape = Scalar_shape | Range_shape
datatype contract_field_type = Text_field | Decimal_field | Integer_field | Boolean_field

record contract_field =
  cf_path :: string
  cf_type :: contract_field_type
  cf_required :: bool
  cf_allowedValues :: "string list"
  cf_minimum :: "string option"
  cf_maximum :: "string option"
  cf_maximumLength :: "int option"
  cf_pattern :: "string option"

record contract_entry =
  ce_mode :: contract_entry_mode
  ce_typePath :: "string option"
  ce_marketValues :: "string list"
  ce_rangeValues :: "string list"
  ce_minimumPath :: string
  ce_maximumPath :: string

record contract_targets =
  ct_containerPath :: string
  ct_itemTag :: string
  ct_shape :: contract_target_shape
  ct_minimumPath :: string
  ct_maximumPath :: string
  ct_minimumItems :: int
  ct_maximumItems :: int
  ct_sequentialIds :: bool

record contract_geometry =
  cg_stopOnLossSide :: bool
  cg_targetsOnProfitSide :: bool
  cg_orderedTargets :: bool
  cg_orderedRanges :: bool

record contract_grounding =
  cgr_action :: bool
  cgr_pair :: bool
  cgr_entry :: bool
  cgr_targets :: bool
  cgr_stopLoss :: bool
  cgr_leverage :: bool
  cgr_riskPercent :: bool
  cgr_averagingPrice :: bool

record signal_contract =
  sc_actionPath :: string
  sc_pairPath :: string
  sc_entry :: contract_entry
  sc_targets :: contract_targets
  sc_stopLossPath :: string
  sc_leveragePath :: "string option"
  sc_riskPercentPath :: "string option"
  sc_averagingPricePath :: "string option"
  sc_additionalFields :: "contract_field list"
  sc_geometry :: contract_geometry
  sc_grounding :: contract_grounding


section \<open>Validators\<close>

definition path_segment :: "string \<Rightarrow> bool" where
  "path_segment s \<longleftrightarrow> s \<noteq> [] \<and> is_lower (hd s) \<and> list_all (\<lambda>c. is_lower c \<or> is_digit c \<or> c = CHR ''_'') s"

definition path_pattern :: "string \<Rightarrow> bool" where
  "path_pattern s \<longleftrightarrow> length (split_on (CHR ''.'') s) \<le> 4 \<and> list_all path_segment (split_on (CHR ''.'') s)"

definition contract_text :: "js \<Rightarrow> string \<Rightarrow> int \<Rightarrow> string result" where
  "contract_text value label maximum = (case value of
       JStr s \<Rightarrow> if js_trim s = [] \<or> int (length (js_trim s)) > maximum \<or> list_ex (\<lambda>c. c \<in> {CHR 0x0D, CHR 0x0A, CHR 0x00}) s
         then Inl (Error (label @ '' is invalid.'')) else Inr (js_trim s)
     | _ \<Rightarrow> Inl (Error (label @ '' is invalid.'')))"

definition pathValue :: "js \<Rightarrow> string \<Rightarrow> string result" where
  "pathValue value label = rbind (contract_text value label 96) (\<lambda>normalized.
     if \<not> path_pattern normalized then Inl (Error (label @ '' must contain one to four lowercase XML path segments.'')) else Inr normalized)"

definition optionalPath :: "js \<Rightarrow> string \<Rightarrow> string option result" where
  "optionalPath value label = (if value \<in> {JUndefined, JNull, JStr []} then Inr None else rbind (pathValue value label) (\<lambda>p. Inr (Some p)))"

definition contract_boolean :: "js \<Rightarrow> string \<Rightarrow> bool result" where
  "contract_boolean value label = (case value of JBool b \<Rightarrow> Inr b | _ \<Rightarrow> Inl (Error (label @ '' must be boolean.'')))"

definition strings :: "js \<Rightarrow> string \<Rightarrow> int \<Rightarrow> string list result" where
  "strings value label maximum = (case string_items value of
       None \<Rightarrow> Inl (Error (label @ '' must be an array of at most '' @ show_int maximum @ '' strings.''))
     | Some items \<Rightarrow>
         if int (length items) > maximum then Inl (Error (label @ '' must be an array of at most '' @ show_int maximum @ '' strings.''))
         else rbind (mapM (\<lambda>item. contract_text (JStr item) label 80) items) (\<lambda>normalized.
           rbind (throw_if (card (set normalized) \<noteq> length normalized) (Error (label @ '' must not contain duplicates.''))) (\<lambda>_. Inr normalized)))"

definition hasNumericBackreference :: "string \<Rightarrow> bool" where
  "hasNumericBackreference pattern = snd (foldl (\<lambda>(follows, found) character.
     (character = CHR 0x5C, found \<or> follows \<and> character \<in> set ''123456789'')) (False, False) pattern)"

text \<open>A pattern that is looked for at every position, and \<^verbatim>\<open>includes\<close>.\<close>

fun at_some_position :: "(string \<Rightarrow> bool) \<Rightarrow> string \<Rightarrow> bool" where
  "at_some_position P [] = P []"
| "at_some_position P (c # s) = (P (c # s) \<or> at_some_position P s)"

definition text_includes :: "string \<Rightarrow> string \<Rightarrow> bool" where
  "text_includes s part = at_some_position (\<lambda>t. take (length part) t = part) s"

definition repeat_sign :: "string \<Rightarrow> bool" where
  "repeat_sign s = (case dropWhile is_space s of c # _ \<Rightarrow> c \<in> set ''*+{'' | [] \<Rightarrow> False)"

text \<open>\<^verbatim>\<open>/[*+]\s*[*+{]/\<close>\<close>

definition stacked_quantifier :: "string \<Rightarrow> bool" where
  "stacked_quantifier s = (case s of c # t \<Rightarrow> c \<in> set ''*+'' \<and> repeat_sign t | [] \<Rightarrow> False)"

text \<open>\<^verbatim>\<open>/\{\d+(?:,\d*)?\}\s*[*+{]/\<close>\<close>

definition stacked_bound :: "string \<Rightarrow> bool" where
  "stacked_bound s = (case s of
       c # t \<Rightarrow> c = CHR ''{'' \<and> takeWhile is_digit t \<noteq> [] \<and>
         (let rest = dropWhile is_digit t; after = (case rest of d # u \<Rightarrow> if d = CHR '','' then dropWhile is_digit u else rest | [] \<Rightarrow> [])
          in case after of d # u \<Rightarrow> d = CHR ''}'' \<and> repeat_sign u | [] \<Rightarrow> False)
     | [] \<Rightarrow> False)"

definition hasUnsupportedPatternConstruct :: "string \<Rightarrow> bool" where
  "hasUnsupportedPatternConstruct pattern \<longleftrightarrow> hasNumericBackreference pattern \<or> text_includes pattern (CHR 0x5C # ''k<'')
     \<or> list_ex (text_includes pattern) [''(?='', ''(?!'', ''(?<='', ''(?<!''] \<or> at_some_position stacked_quantifier pattern \<or> at_some_position stacked_bound pattern"

definition safePattern :: "(string \<Rightarrow> bool) \<Rightarrow> js \<Rightarrow> string \<Rightarrow> string option result" where
  "safePattern is_regexp value label = (if value \<in> {JUndefined, JNull, JStr []} then Inr None
     else rbind (contract_text value label 160) (\<lambda>pattern.
       rbind (throw_if (hasUnsupportedPatternConstruct pattern) (Error (label @ '' contains unsupported high-risk regular-expression constructs.''))) (\<lambda>_.
       rbind (throw_if (\<not> is_regexp pattern) (Error (label @ '' is not a valid regular expression.''))) (\<lambda>_. Inr (Some pattern)))))"

definition number_string :: "(rat \<Rightarrow> string) \<Rightarrow> js_number \<Rightarrow> string" where
  "number_string number_text n = (case safe_integer_of (JNum n) of
       Some k \<Rightarrow> show_int k
     | None \<Rightarrow> (case n of Num r \<Rightarrow> number_text r | NaN \<Rightarrow> ''NaN'' | Infinite negative \<Rightarrow> (if negative then ''-Infinity'' else ''Infinity'') | NegZero \<Rightarrow> ''0''))"

definition additionalFieldBound :: "(rat \<Rightarrow> string) \<Rightarrow> js \<Rightarrow> string \<Rightarrow> string option result" where
  "additionalFieldBound number_text value label = (if value \<in> {JUndefined, JStr []} then Inr None
     else case value of
       JStr s \<Rightarrow> rbind (decimal s) (\<lambda>d. Inr (Some d))
     | JNum n \<Rightarrow> rbind (decimal (number_string number_text n)) (\<lambda>d. Inr (Some d))
     | _ \<Rightarrow> Inl (JsTypeError (label @ '' must be a scalar decimal.'')))"

definition field_types :: "(string \<times> contract_field_type) list" where
  "field_types = [(''text'', Text_field), (''decimal'', Decimal_field), (''integer'', Integer_field), (''boolean'', Boolean_field)]"

definition entry_modes :: "(string \<times> contract_entry_mode) list" where
  "entry_modes = [(''optional_range'', Optional_range), (''required_range'', Required_range), (''typed'', Typed_range)]"

definition target_shapes :: "(string \<times> contract_target_shape) list" where
  "target_shapes = [(''scalar'', Scalar_shape), (''range'', Range_shape)]"

text \<open>A member of one of these sets of names.\<close>

definition choice :: "(string \<times> 'a) list \<Rightarrow> js \<Rightarrow> error \<Rightarrow> 'a result" where
  "choice table value e = (case value of JStr s \<Rightarrow> (case map_of table s of Some x \<Rightarrow> Inr x | None \<Rightarrow> Inl e) | _ \<Rightarrow> Inl e)"

definition assert_bounds :: "string option \<Rightarrow> string option \<Rightarrow> error \<Rightarrow> unit result" where
  "assert_bounds least maximum e = (case (least, maximum) of
       (Some a, Some b) \<Rightarrow> rbind (compareDecimal a b) (\<lambda>c. throw_if (c > 0) e) | _ \<Rightarrow> Inr ())"

definition optional_length :: "js \<Rightarrow> string \<Rightarrow> int option result" where
  "optional_length value label = (if value = JUndefined then Inr None else rbind (integer_between value label 1 2000) (\<lambda>n. Inr (Some n)))"

definition field_keys :: "string list" where
  "field_keys = [''path'', ''type'', ''required'', ''allowedValues'', ''minimum'', ''maximum'', ''maximumLength'', ''pattern'']"

definition additionalField :: "(string \<Rightarrow> bool) \<Rightarrow> (rat \<Rightarrow> string) \<Rightarrow> js \<Rightarrow> nat \<Rightarrow> contract_field result" where
  "additionalField is_regexp number_text value index =
     (let name = ''additionalFields['' @ show_int (int index) @ '']'' in
      rbind (strategy_object value name) (\<lambda>field. rbind (exactKeys field name field_keys) (\<lambda>_.
      rbind (choice field_types (js_get field ''type'') (Error (name @ ''.type is invalid.''))) (\<lambda>field_type.
      rbind (additionalFieldBound number_text (js_get field ''minimum'') (name @ ''.minimum'')) (\<lambda>least.
      rbind (additionalFieldBound number_text (js_get field ''maximum'') (name @ ''.maximum'')) (\<lambda>maximum.
      rbind (assert_bounds least maximum (Error (name @ '' minimum must not exceed maximum.''))) (\<lambda>_.
      rbind (optional_length (js_get field ''maximumLength'') (name @ ''.maximumLength'')) (\<lambda>maximumLength.
      rbind (strings (js_or (js_get field ''allowedValues'') (JArr [])) (name @ ''.allowedValues'') 50) (\<lambda>allowedValues.
      rbind (pathValue (js_get field ''path'') (name @ ''.path'')) (\<lambda>path.
      rbind (contract_boolean (js_get field ''required'') (name @ ''.required'')) (\<lambda>required.
      rbind (safePattern is_regexp (js_get field ''pattern'') (name @ ''.pattern'')) (\<lambda>pattern.
        Inr \<lparr>cf_path = path, cf_type = field_type, cf_required = required, cf_allowedValues = allowedValues, cf_minimum = least, cf_maximum = maximum,
          cf_maximumLength = maximumLength, cf_pattern = pattern\<rparr>))))))))))))"

definition entry_keys :: "string list" where
  "entry_keys = [''mode'', ''typePath'', ''marketValues'', ''rangeValues'', ''minimumPath'', ''maximumPath'']"

definition validateEntry :: "js \<Rightarrow> contract_entry result" where
  "validateEntry value = rbind (strategy_object value ''entry'') (\<lambda>entry. rbind (exactKeys entry ''entry'' entry_keys) (\<lambda>_.
     rbind (choice entry_modes (js_get entry ''mode'') (Error ''entry.mode is invalid.'')) (\<lambda>mode.
     rbind (optionalPath (js_get entry ''typePath'') ''entry.typePath'') (\<lambda>typePath.
     rbind (strings (js_or (js_get entry ''marketValues'') (JArr [])) ''entry.marketValues'' 20) (\<lambda>marketValues.
     rbind (strings (js_or (js_get entry ''rangeValues'') (JArr [])) ''entry.rangeValues'' 20) (\<lambda>rangeValues.
     rbind (throw_if (mode = Typed_range \<and> (typePath = None \<or> marketValues = [] \<or> rangeValues = []))
       (Error ''Typed entries require a type path plus market and range values.'')) (\<lambda>_.
     rbind (throw_if (mode \<noteq> Typed_range \<and> (typePath \<noteq> None \<or> marketValues \<noteq> [] \<or> rangeValues \<noteq> []))
       (Error ''Only typed entries may define entry type values.'')) (\<lambda>_.
     rbind (pathValue (js_get entry ''minimumPath'') ''entry.minimumPath'') (\<lambda>minimumPath.
     rbind (pathValue (js_get entry ''maximumPath'') ''entry.maximumPath'') (\<lambda>maximumPath.
       Inr \<lparr>ce_mode = mode, ce_typePath = typePath, ce_marketValues = marketValues, ce_rangeValues = rangeValues, ce_minimumPath = minimumPath,
         ce_maximumPath = maximumPath\<rparr>))))))))))"

definition target_keys :: "string list" where
  "target_keys = [''containerPath'', ''itemTag'', ''shape'', ''minimumPath'', ''maximumPath'', ''minimumItems'', ''maximumItems'', ''sequentialIds'']"

definition validateTargets :: "js \<Rightarrow> contract_targets result" where
  "validateTargets value = rbind (strategy_object value ''targets'') (\<lambda>targets. rbind (exactKeys targets ''targets'' target_keys) (\<lambda>_.
     rbind (choice target_shapes (js_get targets ''shape'') (Error ''targets.shape is invalid.'')) (\<lambda>shape.
     rbind (integer_between (js_get targets ''minimumItems'') ''targets.minimumItems'' 1 20) (\<lambda>minimumItems.
     rbind (integer_between (js_get targets ''maximumItems'') ''targets.maximumItems'' minimumItems 20) (\<lambda>maximumItems.
     rbind (pathValue (js_get targets ''containerPath'') ''targets.containerPath'') (\<lambda>containerPath.
     rbind (pathValue (js_get targets ''itemTag'') ''targets.itemTag'') (\<lambda>itemTag.
     rbind (pathValue (js_get targets ''minimumPath'') ''targets.minimumPath'') (\<lambda>minimumPath.
     rbind (pathValue (js_get targets ''maximumPath'') ''targets.maximumPath'') (\<lambda>maximumPath.
     rbind (contract_boolean (js_get targets ''sequentialIds'') ''targets.sequentialIds'') (\<lambda>sequentialIds.
       Inr \<lparr>ct_containerPath = containerPath, ct_itemTag = itemTag, ct_shape = shape, ct_minimumPath = minimumPath, ct_maximumPath = maximumPath,
         ct_minimumItems = minimumItems, ct_maximumItems = maximumItems, ct_sequentialIds = sequentialIds\<rparr>))))))))))"

text \<open>The values of the keys in their order.\<close>

definition booleanRecord :: "js \<Rightarrow> string \<Rightarrow> string list \<Rightarrow> bool list result" where
  "booleanRecord value label keys = rbind (strategy_object value label) (\<lambda>input. rbind (exactKeys input label keys) (\<lambda>_.
     mapM (\<lambda>key. contract_boolean (js_get input key) (label @ ''.'' @ key)) keys))"

definition geometry_keys :: "string list" where
  "geometry_keys = [''stopOnLossSide'', ''targetsOnProfitSide'', ''orderedTargets'', ''orderedRanges'']"

definition grounding_keys :: "string list" where
  "grounding_keys = [''action'', ''pair'', ''entry'', ''targets'', ''stopLoss'', ''leverage'', ''riskPercent'', ''averagingPrice'']"

definition geometry_of :: "bool list \<Rightarrow> contract_geometry" where
  "geometry_of bs = \<lparr>cg_stopOnLossSide = bs ! 0, cg_targetsOnProfitSide = bs ! 1, cg_orderedTargets = bs ! 2, cg_orderedRanges = bs ! 3\<rparr>"

definition grounding_of :: "bool list \<Rightarrow> contract_grounding" where
  "grounding_of bs = \<lparr>cgr_action = bs ! 0, cgr_pair = bs ! 1, cgr_entry = bs ! 2, cgr_targets = bs ! 3, cgr_stopLoss = bs ! 4, cgr_leverage = bs ! 5,
     cgr_riskPercent = bs ! 6, cgr_averagingPrice = bs ! 7\<rparr>"

definition option_list :: "'a option \<Rightarrow> 'a list" where
  "option_list x = (case x of None \<Rightarrow> [] | Some y \<Rightarrow> [y])"

definition contract_paths :: "signal_contract \<Rightarrow> string list" where
  "contract_paths d = [sc_actionPath d, sc_pairPath d] @ option_list (ce_typePath (sc_entry d)) @
     [ce_minimumPath (sc_entry d), ce_maximumPath (sc_entry d), sc_stopLossPath d] @ option_list (sc_leveragePath d) @ option_list (sc_riskPercentPath d) @
     option_list (sc_averagingPricePath d) @ map cf_path (sc_additionalFields d)"

definition uniqueContractPaths :: "signal_contract \<Rightarrow> unit result" where
  "uniqueContractPaths d = throw_if (card (set (contract_paths d)) \<noteq> length (contract_paths d)) (Error ''Contract field paths must be unique.'')"

definition contract_keys :: "string list" where
  "contract_keys = [''schemaVersion'', ''rootTag'', ''actionPath'', ''pairPath'', ''entry'', ''targets'', ''stopLossPath'', ''leveragePath'', ''riskPercentPath'',
     ''averagingPricePath'', ''additionalFields'', ''geometry'', ''grounding'']"

definition additional_items :: "js \<Rightarrow> js list result" where
  "additional_items value = (case value of
       JArr items \<Rightarrow> if length items > 30 then Inl (Error ''Signal contract may contain at most 30 additional fields.'') else Inr items
     | _ \<Rightarrow> Inl (Error ''Signal contract may contain at most 30 additional fields.''))"

definition validateSignalContractDefinition :: "(string \<Rightarrow> bool) \<Rightarrow> (rat \<Rightarrow> string) \<Rightarrow> js \<Rightarrow> signal_contract result" where
  "validateSignalContractDefinition is_regexp number_text input =
     rbind (strategy_object input ''Signal contract definition'') (\<lambda>value. rbind (exactKeys value ''Signal contract definition'' contract_keys) (\<lambda>_.
     rbind (throw_if (js_get value ''schemaVersion'' \<noteq> JNum (Num 1)) (Error ''Unsupported signal contract schema version.'')) (\<lambda>_.
     rbind (throw_if (js_get value ''rootTag'' \<noteq> JStr ''signal'') (Error (''Signal contract rootTag must be '' @ CHR 0x27 # ''signal'' @ CHR 0x27 # ''.''))) (\<lambda>_.
     rbind (additional_items (js_get value ''additionalFields'')) (\<lambda>items.
     rbind (pathValue (js_get value ''actionPath'') ''actionPath'') (\<lambda>actionPath. rbind (pathValue (js_get value ''pairPath'') ''pairPath'') (\<lambda>pairPath.
     rbind (validateEntry (js_get value ''entry'')) (\<lambda>entry. rbind (validateTargets (js_get value ''targets'')) (\<lambda>targets.
     rbind (pathValue (js_get value ''stopLossPath'') ''stopLossPath'') (\<lambda>stopLossPath.
     rbind (optionalPath (js_get value ''leveragePath'') ''leveragePath'') (\<lambda>leveragePath.
     rbind (optionalPath (js_get value ''riskPercentPath'') ''riskPercentPath'') (\<lambda>riskPercentPath.
     rbind (optionalPath (js_get value ''averagingPricePath'') ''averagingPricePath'') (\<lambda>averagingPricePath.
     rbind (mapM (\<lambda>(field, index). additionalField is_regexp number_text field index) (zip items [0..<length items])) (\<lambda>additionalFields.
     rbind (booleanRecord (js_get value ''geometry'') ''geometry'' geometry_keys) (\<lambda>geometry.
     rbind (booleanRecord (js_get value ''grounding'') ''grounding'' grounding_keys) (\<lambda>grounding.
       let definition = \<lparr>sc_actionPath = actionPath, sc_pairPath = pairPath, sc_entry = entry, sc_targets = targets, sc_stopLossPath = stopLossPath,
             sc_leveragePath = leveragePath, sc_riskPercentPath = riskPercentPath, sc_averagingPricePath = averagingPricePath,
             sc_additionalFields = additionalFields, sc_geometry = geometry_of geometry, sc_grounding = grounding_of grounding\<rparr>
       in rbind (uniqueContractPaths definition) (\<lambda>_. Inr definition)))))))))))))))))"


section \<open>Composition and serialisation\<close>

definition js_optional :: "string option \<Rightarrow> js" where
  "js_optional x = (case x of None \<Rightarrow> JUndefined | Some s \<Rightarrow> JStr s)"

definition name_of :: "(string \<times> 'a) list \<Rightarrow> 'a \<Rightarrow> string" where
  "name_of table x = (case find (\<lambda>entry. snd entry = x) table of Some entry \<Rightarrow> fst entry | None \<Rightarrow> [])"

definition js_strings :: "string list \<Rightarrow> js" where
  "js_strings xs = JArr (map JStr xs)"

definition js_of_field :: "contract_field \<Rightarrow> js" where
  "js_of_field f = JObj [(''path'', JStr (cf_path f)), (''type'', JStr (name_of field_types (cf_type f))), (''required'', JBool (cf_required f)),
     (''allowedValues'', js_strings (cf_allowedValues f)), (''minimum'', js_optional (cf_minimum f)), (''maximum'', js_optional (cf_maximum f)),
     (''maximumLength'', (case cf_maximumLength f of None \<Rightarrow> JUndefined | Some n \<Rightarrow> js_int n)), (''pattern'', js_optional (cf_pattern f))]"

definition js_of_entry :: "contract_entry \<Rightarrow> js" where
  "js_of_entry e = JObj [(''mode'', JStr (name_of entry_modes (ce_mode e))), (''typePath'', js_optional (ce_typePath e)), (''marketValues'', js_strings (ce_marketValues e)),
     (''rangeValues'', js_strings (ce_rangeValues e)), (''minimumPath'', JStr (ce_minimumPath e)), (''maximumPath'', JStr (ce_maximumPath e))]"

definition js_of_targets :: "contract_targets \<Rightarrow> js" where
  "js_of_targets t = JObj [(''containerPath'', JStr (ct_containerPath t)), (''itemTag'', JStr (ct_itemTag t)), (''shape'', JStr (name_of target_shapes (ct_shape t))),
     (''minimumPath'', JStr (ct_minimumPath t)), (''maximumPath'', JStr (ct_maximumPath t)), (''minimumItems'', js_int (ct_minimumItems t)),
     (''maximumItems'', js_int (ct_maximumItems t)), (''sequentialIds'', JBool (ct_sequentialIds t))]"

definition js_of_geometry :: "contract_geometry \<Rightarrow> js" where
  "js_of_geometry g = JObj [(''stopOnLossSide'', JBool (cg_stopOnLossSide g)), (''targetsOnProfitSide'', JBool (cg_targetsOnProfitSide g)),
     (''orderedTargets'', JBool (cg_orderedTargets g)), (''orderedRanges'', JBool (cg_orderedRanges g))]"

definition js_of_grounding :: "contract_grounding \<Rightarrow> js" where
  "js_of_grounding g = JObj [(''action'', JBool (cgr_action g)), (''pair'', JBool (cgr_pair g)), (''entry'', JBool (cgr_entry g)), (''targets'', JBool (cgr_targets g)),
     (''stopLoss'', JBool (cgr_stopLoss g)), (''leverage'', JBool (cgr_leverage g)), (''riskPercent'', JBool (cgr_riskPercent g)),
     (''averagingPrice'', JBool (cgr_averagingPrice g))]"

definition js_of_contract :: "signal_contract \<Rightarrow> js" where
  "js_of_contract d = JObj [(''schemaVersion'', js_int 1), (''rootTag'', JStr ''signal''), (''actionPath'', JStr (sc_actionPath d)), (''pairPath'', JStr (sc_pairPath d)),
     (''entry'', js_of_entry (sc_entry d)), (''targets'', js_of_targets (sc_targets d)), (''stopLossPath'', JStr (sc_stopLossPath d)),
     (''leveragePath'', js_optional (sc_leveragePath d)), (''riskPercentPath'', js_optional (sc_riskPercentPath d)),
     (''averagingPricePath'', js_optional (sc_averagingPricePath d)), (''additionalFields'', JArr (map js_of_field (sc_additionalFields d))),
     (''geometry'', js_of_geometry (sc_geometry d)), (''grounding'', js_of_grounding (sc_grounding d))]"

definition with_policy :: "signal_contract \<Rightarrow> contract_field \<Rightarrow> contract_field" where
  "with_policy contract field = (case map_of (rev (map (\<lambda>f. (cf_path f, f)) (sc_additionalFields contract))) (cf_path field) of
       None \<Rightarrow> field
     | Some policy \<Rightarrow> field\<lparr>cf_required := cf_required policy, cf_allowedValues := cf_allowedValues policy, cf_minimum := cf_minimum policy,
         cf_maximum := cf_maximum policy, cf_maximumLength := cf_maximumLength policy, cf_pattern := cf_pattern policy\<rparr>)"

definition composed :: "signal_contract \<Rightarrow> signal_contract \<Rightarrow> signal_contract" where
  "composed schema contract = schema\<lparr>sc_targets := (sc_targets schema)\<lparr>ct_minimumItems := ct_minimumItems (sc_targets contract),
       ct_maximumItems := ct_maximumItems (sc_targets contract)\<rparr>,
     sc_additionalFields := map (with_policy contract) (sc_additionalFields schema), sc_geometry := sc_geometry contract, sc_grounding := sc_grounding contract\<rparr>"

definition composeSignalSchemaContract :: "(string \<Rightarrow> bool) \<Rightarrow> (rat \<Rightarrow> string) \<Rightarrow> js \<Rightarrow> js \<Rightarrow> signal_contract result" where
  "composeSignalSchemaContract is_regexp number_text schemaInput contractInput =
     rbind (validateSignalContractDefinition is_regexp number_text schemaInput) (\<lambda>schema.
     rbind (validateSignalContractDefinition is_regexp number_text contractInput) (\<lambda>contract.
     validateSignalContractDefinition is_regexp number_text (js_of_contract (composed schema contract))))"

definition signalContractDefinitionSha256 :: "(string \<Rightarrow> bool) \<Rightarrow> (rat \<Rightarrow> string) \<Rightarrow> (string \<Rightarrow> string) \<Rightarrow> js \<Rightarrow> string result" where
  "signalContractDefinitionSha256 is_regexp number_text sha256 definition' =
     rbind (validateSignalContractDefinition is_regexp number_text definition') (\<lambda>d. Inr (sha256 (Recovery_Schedule.json_text (js_of_contract d))))"


section \<open>The built-in contracts\<close>

definition full_geometry :: contract_geometry where
  "full_geometry = geometry_of [True, True, True, True]"

definition full_grounding :: contract_grounding where
  "full_grounding = grounding_of [True, True, True, True, True, True, True, True]"

definition builtin_targets :: "contract_target_shape \<Rightarrow> contract_targets" where
  "builtin_targets shape = \<lparr>ct_containerPath = ''targets'', ct_itemTag = ''target'', ct_shape = shape, ct_minimumPath = ''min'', ct_maximumPath = ''max'',
     ct_minimumItems = 1, ct_maximumItems = 20, ct_sequentialIds = True\<rparr>"

definition standard_contract :: signal_contract where
  "standard_contract = \<lparr>sc_actionPath = ''action'', sc_pairPath = ''pair'',
     sc_entry = \<lparr>ce_mode = Optional_range, ce_typePath = None, ce_marketValues = [], ce_rangeValues = [], ce_minimumPath = ''entry_range.min'', ce_maximumPath = ''entry_range.max''\<rparr>,
     sc_targets = builtin_targets Scalar_shape, sc_stopLossPath = ''stoploss'', sc_leveragePath = Some ''leverage'', sc_riskPercentPath = None, sc_averagingPricePath = None,
     sc_additionalFields = [], sc_geometry = full_geometry, sc_grounding = full_grounding\<rparr>"

definition cryptodanielvip_contract :: signal_contract where
  "cryptodanielvip_contract = \<lparr>sc_actionPath = ''action'', sc_pairPath = ''pair'',
     sc_entry = \<lparr>ce_mode = Typed_range, ce_typePath = Some ''entry_type'', ce_marketValues = [''MARKET''], ce_rangeValues = [''LIMIT''],
       ce_minimumPath = ''entry_range.min'', ce_maximumPath = ''entry_range.max''\<rparr>,
     sc_targets = builtin_targets Scalar_shape, sc_stopLossPath = ''stoploss'', sc_leveragePath = None, sc_riskPercentPath = Some ''risk_percent'',
     sc_averagingPricePath = Some ''averaging'', sc_additionalFields = [], sc_geometry = full_geometry, sc_grounding = full_grounding\<rparr>"

definition timeframe_pattern :: string where
  "timeframe_pattern = ''^[MHDW]'' @ CHR 0x5C # ''d{1,3}(?:/[MHDW]'' @ CHR 0x5C # ''d{1,3})*$''"

definition loma_contract :: signal_contract where
  "loma_contract = \<lparr>sc_actionPath = ''action'', sc_pairPath = ''pair'',
     sc_entry = \<lparr>ce_mode = Required_range, ce_typePath = None, ce_marketValues = [], ce_rangeValues = [], ce_minimumPath = ''entry_range.min'', ce_maximumPath = ''entry_range.max''\<rparr>,
     sc_targets = builtin_targets Range_shape, sc_stopLossPath = ''stoploss'', sc_leveragePath = None, sc_riskPercentPath = None, sc_averagingPricePath = None,
     sc_additionalFields = [\<lparr>cf_path = ''timeframe'', cf_type = Text_field, cf_required = True, cf_allowedValues = [], cf_minimum = None, cf_maximum = None,
       cf_maximumLength = None, cf_pattern = Some timeframe_pattern\<rparr>],
     sc_geometry = full_geometry, sc_grounding = full_grounding\<rparr>"

definition builtin_signal_contracts :: "(string \<times> signal_contract) list" where
  "builtin_signal_contracts = [(''standard'', standard_contract), (''cryptodanielvip'', cryptodanielvip_contract), (''loma'', loma_contract)]"


section \<open>The normal form of a definition\<close>

definition text_ok :: "int \<Rightarrow> string \<Rightarrow> bool" where
  "text_ok maximum s \<longleftrightarrow> s \<noteq> [] \<and> js_trim s = s \<and> int (length s) \<le> maximum \<and> set s \<inter> {CHR 0x0D, CHR 0x0A, CHR 0x00} = {}"

definition path_ok :: "string \<Rightarrow> bool" where
  "path_ok p \<longleftrightarrow> text_ok 96 p \<and> path_pattern p"

definition values_ok :: "int \<Rightarrow> string list \<Rightarrow> bool" where
  "values_ok maximum xs \<longleftrightarrow> int (length xs) \<le> maximum \<and> list_all (text_ok 80) xs \<and> distinct xs"

definition bound_ok :: "string option \<Rightarrow> bool" where
  "bound_ok b = (case b of None \<Rightarrow> True | Some d \<Rightarrow> decimal_pattern d \<and> canonical_decimal d)"

definition field_ok :: "(string \<Rightarrow> bool) \<Rightarrow> contract_field \<Rightarrow> bool" where
  "field_ok is_regexp f \<longleftrightarrow> path_ok (cf_path f) \<and> values_ok 50 (cf_allowedValues f) \<and> bound_ok (cf_minimum f) \<and> bound_ok (cf_maximum f) \<and>
     (case (cf_minimum f, cf_maximum f) of (Some a, Some b) \<Rightarrow> dec_val a \<le> dec_val b | _ \<Rightarrow> True) \<and>
     (case cf_maximumLength f of None \<Rightarrow> True | Some n \<Rightarrow> 1 \<le> n \<and> n \<le> 2000) \<and>
     (case cf_pattern f of None \<Rightarrow> True | Some p \<Rightarrow> text_ok 160 p \<and> \<not> hasUnsupportedPatternConstruct p \<and> is_regexp p)"

definition optional_path_ok :: "string option \<Rightarrow> bool" where
  "optional_path_ok p = (case p of None \<Rightarrow> True | Some s \<Rightarrow> path_ok s)"

definition entry_ok :: "contract_entry \<Rightarrow> bool" where
  "entry_ok e \<longleftrightarrow> optional_path_ok (ce_typePath e) \<and> values_ok 20 (ce_marketValues e) \<and> values_ok 20 (ce_rangeValues e) \<and> path_ok (ce_minimumPath e) \<and> path_ok (ce_maximumPath e) \<and>
     (if ce_mode e = Typed_range then ce_typePath e \<noteq> None \<and> ce_marketValues e \<noteq> [] \<and> ce_rangeValues e \<noteq> []
      else ce_typePath e = None \<and> ce_marketValues e = [] \<and> ce_rangeValues e = [])"

definition targets_ok :: "contract_targets \<Rightarrow> bool" where
  "targets_ok t \<longleftrightarrow> path_ok (ct_containerPath t) \<and> path_ok (ct_itemTag t) \<and> path_ok (ct_minimumPath t) \<and> path_ok (ct_maximumPath t) \<and>
     1 \<le> ct_minimumItems t \<and> ct_minimumItems t \<le> ct_maximumItems t \<and> ct_maximumItems t \<le> 20"

definition contract_ok :: "(string \<Rightarrow> bool) \<Rightarrow> signal_contract \<Rightarrow> bool" where
  "contract_ok is_regexp d \<longleftrightarrow> path_ok (sc_actionPath d) \<and> path_ok (sc_pairPath d) \<and> entry_ok (sc_entry d) \<and> targets_ok (sc_targets d) \<and> path_ok (sc_stopLossPath d) \<and>
     optional_path_ok (sc_leveragePath d) \<and> optional_path_ok (sc_riskPercentPath d) \<and> optional_path_ok (sc_averagingPricePath d) \<and>
     length (sc_additionalFields d) \<le> 30 \<and> list_all (field_ok is_regexp) (sc_additionalFields d) \<and> distinct (contract_paths d)"

lemma trim_ends:
  assumes "js_trim s \<noteq> []"
  shows "\<not> is_space (hd (js_trim s)) \<and> \<not> is_space (last (js_trim s))"
proof -
  define x where "x = dropWhile is_space s"
  define y where "y = dropWhile is_space (rev x)"
  have y: "js_trim s = rev y" by (simp add: js_trim_def x_def y_def)
  then have "y \<noteq> []" using assms by simp
  then have "\<not> is_space (hd y)" unfolding y_def by (rule hd_dropWhile)
  moreover have "\<not> is_space (last y)"
  proof -
    have "rev x = takeWhile is_space (rev x) @ y" unfolding y_def by simp
    then have "last y = last (rev x)" "x \<noteq> []" using \<open>y \<noteq> []\<close> by (metis last_appendR, auto)
    then have "last y = hd x" by (simp add: last_rev)
    then show ?thesis using \<open>x \<noteq> []\<close> hd_dropWhile [of is_space s] by (simp add: x_def)
  qed
  ultimately show ?thesis using \<open>y \<noteq> []\<close> by (simp add: y hd_rev last_rev)
qed

lemma trim_again [simp]: "js_trim (js_trim s) = js_trim s"
  by (rule js_trim_id) (rule trim_ends)

lemma trim_set: "set (js_trim s) \<subseteq> set s"
  unfolding js_trim_def by (auto dest!: set_dropWhileD)

lemma contract_text_Inr: "contract_text v label m = Inr t \<Longrightarrow> text_ok m t"
  using trim_set by (fastforce simp: contract_text_def text_ok_def list_ex_iff split: js.splits if_splits)

lemma contract_text_back: "text_ok m t \<Longrightarrow> contract_text (JStr t) label m = Inr t"
  by (auto simp: contract_text_def text_ok_def list_ex_iff)

lemma path_Inr: "pathValue v label = Inr p \<Longrightarrow> path_ok p"
  using contract_text_Inr by (auto simp: pathValue_def path_ok_def rbind_Inr_iff split: if_splits)

lemma path_back [simp]: "path_ok p \<Longrightarrow> pathValue (JStr p) label = Inr p"
  by (simp add: pathValue_def path_ok_def contract_text_back)

lemma optional_path_Inr: "optionalPath v label = Inr p \<Longrightarrow> optional_path_ok p"
  using path_Inr by (auto simp: optionalPath_def optional_path_ok_def rbind_Inr_iff split: if_splits)

lemma optional_path_back [simp]: "optional_path_ok p \<Longrightarrow> optionalPath (js_optional p) label = Inr p"
  by (cases p) (auto simp: optionalPath_def optional_path_ok_def js_optional_def path_ok_def text_ok_def pathValue_def contract_text_back)

lemma strings_Inr:
  assumes "strings v label m = Inr xs"
  shows "values_ok m xs"
proof -
  obtain items where h: "int (length items) \<le> m" "mapM (\<lambda>item. contract_text (JStr item) label 80) items = Inr xs" "card (set xs) = length xs"
    using assms by (auto simp: strings_def rbind_Inr_iff throw_if_Inr not_less split: option.splits if_splits)
  have "list_all (text_ok 80) xs" using h(2) contract_text_Inr unfolding mapM_Inr_iff by (auto simp: list_all2_conv_all_nth list_all_length)
  then show ?thesis using h mapM_length [OF h(2)] by (simp add: values_ok_def card_distinct)
qed

lemma strings_back [simp]:
  assumes "values_ok m xs"
  shows "strings (js_or (js_strings xs) d) label m = Inr xs"
proof -
  have "mapM (\<lambda>item. contract_text (JStr item) label 80) xs = Inr xs"
    using assms contract_text_back unfolding mapM_Inr_iff by (auto simp: values_ok_def list_all2_conv_all_nth list_all_length)
  then show ?thesis using assms by (simp add: strings_def js_or_def js_strings_def values_ok_def distinct_card)
qed

lemma decimal_normal: "decimal v = Inr d \<Longrightarrow> decimal_pattern d \<and> canonical_decimal d"
  using decimal_valid [of v d] by (simp add: decimal_Inr_iff)

lemma bound_Inr: "additionalFieldBound number_text v label = Inr b \<Longrightarrow> bound_ok b"
  by (cases v) (auto simp: additionalFieldBound_def bound_ok_def rbind_Inr_iff split: if_splits dest: decimal_normal)

lemma bound_back [simp]: "bound_ok b \<Longrightarrow> additionalFieldBound number_text (js_optional b) label = Inr b"
  by (cases b) (auto simp: additionalFieldBound_def bound_ok_def js_optional_def decimal_canonical_id decimal_pattern_def)

lemma assert_bounds_Inr:
  assumes "bound_ok a" "bound_ok b"
  shows "assert_bounds a b e = Inr () \<longleftrightarrow> (case (a, b) of (Some x, Some y) \<Rightarrow> dec_val x \<le> dec_val y | _ \<Rightarrow> True)"
  using assms by (auto simp: assert_bounds_def bound_ok_def compare_law rbind_Inr_iff throw_if_Inr split: option.splits)

lemma pattern_Inr:
  "safePattern is_regexp v label = Inr (Some p) \<Longrightarrow> text_ok 160 p \<and> \<not> hasUnsupportedPatternConstruct p \<and> is_regexp p"
  using contract_text_Inr by (auto simp: safePattern_def rbind_Inr_iff throw_if_Inr split: if_splits)

lemma pattern_back [simp]:
  "case p of None \<Rightarrow> True | Some q \<Rightarrow> text_ok 160 q \<and> \<not> hasUnsupportedPatternConstruct q \<and> is_regexp q \<Longrightarrow> safePattern is_regexp (js_optional p) label = Inr p"
  by (cases p) (auto simp: safePattern_def js_optional_def contract_text_back, auto simp: text_ok_def)

lemma choice_back [simp]:
  "choice field_types (JStr (name_of field_types x)) e = Inr x" "choice entry_modes (JStr (name_of entry_modes y)) e = Inr y"
  "choice target_shapes (JStr (name_of target_shapes z)) e = Inr z"
proof -
  show "choice field_types (JStr (name_of field_types x)) e = Inr x" by (cases x) (simp_all add: choice_def name_of_def field_types_def)
  show "choice entry_modes (JStr (name_of entry_modes y)) e = Inr y" by (cases y) (simp_all add: choice_def name_of_def entry_modes_def)
  show "choice target_shapes (JStr (name_of target_shapes z)) e = Inr z" by (cases z) (simp_all add: choice_def name_of_def target_shapes_def)
qed

lemma length_Inr: "optional_length v label = Inr m \<Longrightarrow> case m of None \<Rightarrow> True | Some n \<Rightarrow> 1 \<le> n \<and> n \<le> 2000"
  using integer_between_Inr by (fastforce simp: optional_length_def rbind_Inr_iff split: if_splits option.splits)

lemma field_Inr:
  assumes "additionalField is_regexp number_text v k = Inr f"
  shows "field_ok is_regexp f"
proof -
  obtain field l1 l2 l3 l4 l5 l6 e where h: "additionalFieldBound number_text (js_get field ''minimum'') l1 = Inr (cf_minimum f)"
    "additionalFieldBound number_text (js_get field ''maximum'') l2 = Inr (cf_maximum f)" "assert_bounds (cf_minimum f) (cf_maximum f) e = Inr ()"
    "optional_length (js_get field ''maximumLength'') l3 = Inr (cf_maximumLength f)" "strings (js_or (js_get field ''allowedValues'') (JArr [])) l4 50 = Inr (cf_allowedValues f)"
    "pathValue (js_get field ''path'') l5 = Inr (cf_path f)" "safePattern is_regexp (js_get field ''pattern'') l6 = Inr (cf_pattern f)"
    using assms unfolding additionalField_def Let_def rbind_Inr_iff by auto
  have "case cf_pattern f of None \<Rightarrow> True | Some p \<Rightarrow> text_ok 160 p \<and> \<not> hasUnsupportedPatternConstruct p \<and> is_regexp p"
    using pattern_Inr [of is_regexp "js_get field ''pattern''" l6] h(7) by (cases "cf_pattern f") auto
  moreover have "case (cf_minimum f, cf_maximum f) of (Some a, Some b) \<Rightarrow> dec_val a \<le> dec_val b | _ \<Rightarrow> True"
    using assert_bounds_Inr [OF bound_Inr [OF h(1)] bound_Inr [OF h(2)]] h(3) by blast
  ultimately show ?thesis unfolding field_ok_def
    using path_Inr [OF h(6)] strings_Inr [OF h(5)] bound_Inr [OF h(1)] bound_Inr [OF h(2)] length_Inr [OF h(4)] by blast
qed

lemma number_defined: "js_int n \<noteq> JUndefined"
  by (simp add: js_int_def)

lemma length_back [simp]: "(case m of None \<Rightarrow> True | Some n \<Rightarrow> 1 \<le> n \<and> n \<le> 2000) \<Longrightarrow>
    optional_length (case m of None \<Rightarrow> JUndefined | Some n \<Rightarrow> js_int n) label = Inr m"
  by (cases m) (simp_all add: optional_length_def number_defined)

lemma field_back:
  assumes "field_ok is_regexp f"
  shows "additionalField is_regexp number_text (js_of_field f) k = Inr f"
proof -
  have b: "assert_bounds (cf_minimum f) (cf_maximum f) e = Inr ()" for e
    using assms assert_bounds_Inr [of "cf_minimum f" "cf_maximum f" e] by (simp add: field_ok_def)
  define name where "name = ''additionalFields['' @ show_int (int k) @ '']''"
  show ?thesis using assms b unfolding additionalField_def Let_def name_def [symmetric] field_ok_def
    by (simp add: js_of_field_def strategy_object_def exactKeys_def field_keys_def contract_boolean_def)
qed

lemma contract_entry_ok:
  assumes "validateEntry v = Inr e"
  shows "entry_ok e"
proof -
  obtain entry where h: "optionalPath (js_get entry ''typePath'') ''entry.typePath'' = Inr (ce_typePath e)"
    "strings (js_or (js_get entry ''marketValues'') (JArr [])) ''entry.marketValues'' 20 = Inr (ce_marketValues e)"
    "strings (js_or (js_get entry ''rangeValues'') (JArr [])) ''entry.rangeValues'' 20 = Inr (ce_rangeValues e)"
    "\<not> (ce_mode e = Typed_range \<and> (ce_typePath e = None \<or> ce_marketValues e = [] \<or> ce_rangeValues e = []))"
    "\<not> (ce_mode e \<noteq> Typed_range \<and> (ce_typePath e \<noteq> None \<or> ce_marketValues e \<noteq> [] \<or> ce_rangeValues e \<noteq> []))"
    "pathValue (js_get entry ''minimumPath'') ''entry.minimumPath'' = Inr (ce_minimumPath e)" "pathValue (js_get entry ''maximumPath'') ''entry.maximumPath'' = Inr (ce_maximumPath e)"
    using assms unfolding validateEntry_def rbind_Inr_iff throw_if_Inr by auto
  then show ?thesis unfolding entry_ok_def
    using optional_path_Inr [OF h(1)] strings_Inr [OF h(2)] strings_Inr [OF h(3)] path_Inr [OF h(6)] path_Inr [OF h(7)] by auto
qed

lemma contract_entry_back: "entry_ok e \<Longrightarrow> validateEntry (js_of_entry e) = Inr e"
  by (cases "ce_mode e = Typed_range") (auto simp: validateEntry_def js_of_entry_def strategy_object_def exactKeys_def entry_keys_def entry_ok_def throw_if_def)

lemma targets_Inr:
  assumes "validateTargets v = Inr t"
  shows "targets_ok t"
proof -
  obtain targets where h: "integer_between (js_get targets ''minimumItems'') ''targets.minimumItems'' 1 20 = Inr (ct_minimumItems t)"
    "integer_between (js_get targets ''maximumItems'') ''targets.maximumItems'' (ct_minimumItems t) 20 = Inr (ct_maximumItems t)"
    "pathValue (js_get targets ''containerPath'') ''targets.containerPath'' = Inr (ct_containerPath t)" "pathValue (js_get targets ''itemTag'') ''targets.itemTag'' = Inr (ct_itemTag t)"
    "pathValue (js_get targets ''minimumPath'') ''targets.minimumPath'' = Inr (ct_minimumPath t)" "pathValue (js_get targets ''maximumPath'') ''targets.maximumPath'' = Inr (ct_maximumPath t)"
    using assms unfolding validateTargets_def rbind_Inr_iff by auto
  then show ?thesis using integer_between_Inr [OF h(1)] integer_between_Inr [OF h(2)] path_Inr by (auto simp: targets_ok_def)
qed

lemma targets_back: "targets_ok t \<Longrightarrow> validateTargets (js_of_targets t) = Inr t"
  by (simp add: validateTargets_def js_of_targets_def strategy_object_def exactKeys_def target_keys_def targets_ok_def contract_boolean_def)

lemma geometry_back: "booleanRecord (js_of_geometry g) label geometry_keys = Inr [cg_stopOnLossSide g, cg_targetsOnProfitSide g, cg_orderedTargets g, cg_orderedRanges g]"
  by (simp add: booleanRecord_def js_of_geometry_def strategy_object_def exactKeys_def geometry_keys_def contract_boolean_def)

lemma grounding_back: "booleanRecord (js_of_grounding g) label grounding_keys = Inr [cgr_action g, cgr_pair g, cgr_entry g, cgr_targets g, cgr_stopLoss g, cgr_leverage g,
    cgr_riskPercent g, cgr_averagingPrice g]"
  by (simp add: booleanRecord_def js_of_grounding_def strategy_object_def exactKeys_def grounding_keys_def contract_boolean_def)

lemma contract_Inr:
  assumes "validateSignalContractDefinition is_regexp number_text v = Inr d"
  shows "contract_ok is_regexp d"
proof -
  obtain row items where h: "additional_items (js_get row ''additionalFields'') = Inr items" "pathValue (js_get row ''actionPath'') ''actionPath'' = Inr (sc_actionPath d)"
    "pathValue (js_get row ''pairPath'') ''pairPath'' = Inr (sc_pairPath d)" "validateEntry (js_get row ''entry'') = Inr (sc_entry d)"
    "validateTargets (js_get row ''targets'') = Inr (sc_targets d)" "pathValue (js_get row ''stopLossPath'') ''stopLossPath'' = Inr (sc_stopLossPath d)"
    "optionalPath (js_get row ''leveragePath'') ''leveragePath'' = Inr (sc_leveragePath d)" "optionalPath (js_get row ''riskPercentPath'') ''riskPercentPath'' = Inr (sc_riskPercentPath d)"
    "optionalPath (js_get row ''averagingPricePath'') ''averagingPricePath'' = Inr (sc_averagingPricePath d)"
    "mapM (\<lambda>(field, index). additionalField is_regexp number_text field index) (zip items [0..<length items]) = Inr (sc_additionalFields d)"
    "card (set (contract_paths d)) = length (contract_paths d)"
    using assms unfolding validateSignalContractDefinition_def Let_def uniqueContractPaths_def rbind_Inr_iff throw_if_Inr by auto
  have "length items \<le> 30" using h(1) by (auto simp: additional_items_def split: js.splits if_splits)
  then have "length (sc_additionalFields d) \<le> 30" using mapM_length [OF h(10)] by simp
  moreover have "list_all (field_ok is_regexp) (sc_additionalFields d)"
    using h(10) field_Inr unfolding mapM_Inr_iff by (fastforce simp: list_all2_conv_all_nth list_all_length split: prod.splits)
  ultimately show ?thesis unfolding contract_ok_def
    using path_Inr [OF h(2)] path_Inr [OF h(3)] contract_entry_ok [OF h(4)] targets_Inr [OF h(5)] path_Inr [OF h(6)] optional_path_Inr [OF h(7)] optional_path_Inr [OF h(8)]
      optional_path_Inr [OF h(9)] h(11) by (simp add: card_distinct)
qed

lemma fields_back:
  assumes "list_all (field_ok is_regexp) fs"
  shows "mapM (\<lambda>(field, index). additionalField is_regexp number_text field index) (zip (map js_of_field fs) [0..<length fs]) = Inr fs"
  using assms field_back unfolding mapM_Inr_iff by (auto simp: list_all2_conv_all_nth list_all_length)

lemma geometry_again: "geometry_of [cg_stopOnLossSide g, cg_targetsOnProfitSide g, cg_orderedTargets g, cg_orderedRanges g] = g"
  by (cases g) (simp add: geometry_of_def eval_nat_numeral)

lemma grounding_again: "grounding_of [cgr_action g, cgr_pair g, cgr_entry g, cgr_targets g, cgr_stopLoss g, cgr_leverage g, cgr_riskPercent g, cgr_averagingPrice g] = g"
  by (cases g) (simp add: grounding_of_def eval_nat_numeral)

lemma contract_again: "\<lparr>sc_actionPath = sc_actionPath d, sc_pairPath = sc_pairPath d, sc_entry = sc_entry d, sc_targets = sc_targets d, sc_stopLossPath = sc_stopLossPath d,
    sc_leveragePath = sc_leveragePath d, sc_riskPercentPath = sc_riskPercentPath d, sc_averagingPricePath = sc_averagingPricePath d,
    sc_additionalFields = sc_additionalFields d, sc_geometry = sc_geometry d, sc_grounding = sc_grounding d\<rparr> = d"
  by (cases d) simp

lemma contract_back:
  assumes "contract_ok is_regexp d"
  shows "validateSignalContractDefinition is_regexp number_text (js_of_contract d) = Inr d"
proof -
  define p where "p = (case js_of_contract d of JObj p \<Rightarrow> p | _ \<Rightarrow> [])"
  have js: "js_of_contract d = JObj p" by (simp add: p_def js_of_contract_def)
  have gets: "js_get p ''schemaVersion'' = JNum (Num 1)" "js_get p ''rootTag'' = JStr ''signal''" "js_get p ''additionalFields'' = JArr (map js_of_field (sc_additionalFields d))"
    "js_get p ''actionPath'' = JStr (sc_actionPath d)" "js_get p ''pairPath'' = JStr (sc_pairPath d)" "js_get p ''entry'' = js_of_entry (sc_entry d)"
    "js_get p ''targets'' = js_of_targets (sc_targets d)" "js_get p ''stopLossPath'' = JStr (sc_stopLossPath d)" "js_get p ''leveragePath'' = js_optional (sc_leveragePath d)"
    "js_get p ''riskPercentPath'' = js_optional (sc_riskPercentPath d)" "js_get p ''averagingPricePath'' = js_optional (sc_averagingPricePath d)"
    "js_get p ''geometry'' = js_of_geometry (sc_geometry d)" "js_get p ''grounding'' = js_of_grounding (sc_grounding d)"
    unfolding p_def js_of_contract_def by (simp_all add: js_int_def)
  have keys: "exactKeys p ''Signal contract definition'' contract_keys = Inr ()"
    unfolding p_def js_of_contract_def contract_keys_def exactKeys_def by simp
  have items: "additional_items (JArr (map js_of_field (sc_additionalFields d))) = Inr (map js_of_field (sc_additionalFields d))"
    using assms by (simp add: additional_items_def contract_ok_def)
  have ok: "path_ok (sc_actionPath d)" "path_ok (sc_pairPath d)" "entry_ok (sc_entry d)" "targets_ok (sc_targets d)" "path_ok (sc_stopLossPath d)"
    "optional_path_ok (sc_leveragePath d)" "optional_path_ok (sc_riskPercentPath d)" "optional_path_ok (sc_averagingPricePath d)"
    "list_all (field_ok is_regexp) (sc_additionalFields d)" "distinct (contract_paths d)" using assms by (simp_all add: contract_ok_def)
  have unique: "uniqueContractPaths d = Inr ()" using ok(10) by (simp add: uniqueContractPaths_def distinct_card)
  show ?thesis
    unfolding js validateSignalContractDefinition_def strategy_object_def js.case rbind.simps keys gets items contract_entry_back [OF ok(3)] targets_back [OF ok(4)]
      length_map fields_back [OF ok(9)] geometry_back grounding_back geometry_again grounding_again
    by (simp add: ok contract_again unique Let_def)
qed


lemma policy_member: "map_of (rev (map (\<lambda>f. (cf_path f, f)) fs)) p = Some policy \<Longrightarrow> policy \<in> set fs \<and> cf_path policy = p"
  by (auto dest!: map_of_SomeD)

lemma with_policy_ok:
  assumes "contract_ok is_regexp c" "field_ok is_regexp f"
  shows "field_ok is_regexp (with_policy c f)" "cf_path (with_policy c f) = cf_path f" "cf_type (with_policy c f) = cf_type f"
proof -
  have policies: "field_ok is_regexp policy" if "policy \<in> set (sc_additionalFields c)" for policy
    using assms(1) that by (simp add: contract_ok_def list_all_iff)
  have updated: "field_ok is_regexp (f\<lparr>cf_required := cf_required policy, cf_allowedValues := cf_allowedValues policy, cf_minimum := cf_minimum policy,
      cf_maximum := cf_maximum policy, cf_maximumLength := cf_maximumLength policy, cf_pattern := cf_pattern policy\<rparr>)"
    if "policy \<in> set (sc_additionalFields c)" for policy using assms(2) policies [OF that] by (simp add: field_ok_def)
  show "field_ok is_regexp (with_policy c f)"
  proof (cases "map_of (rev (map (\<lambda>f. (cf_path f, f)) (sc_additionalFields c))) (cf_path f)")
    case None
    then show ?thesis using assms(2) by (simp add: with_policy_def)
  next
    case (Some policy)
    then show ?thesis using updated policy_member [OF Some] by (simp add: with_policy_def)
  qed
  show "cf_path (with_policy c f) = cf_path f" "cf_type (with_policy c f) = cf_type f" by (simp_all add: with_policy_def split: option.splits)
qed

lemma composed_ok:
  assumes "contract_ok is_regexp s" "contract_ok is_regexp c"
  shows "contract_ok is_regexp (composed s c)"
proof -
  have fields: "\<forall>f\<in>set (sc_additionalFields s). field_ok is_regexp f" using assms(1) by (simp add: contract_ok_def list_all_iff)
  then have "map cf_path (map (with_policy c) (sc_additionalFields s)) = map cf_path (sc_additionalFields s)" using with_policy_ok(2) [OF assms(2)] by simp
  then have "contract_paths (composed s c) = contract_paths s" by (simp add: contract_paths_def composed_def)
  moreover have "list_all (field_ok is_regexp) (map (with_policy c) (sc_additionalFields s))" using fields with_policy_ok(1) [OF assms(2)] by (simp add: list_all_iff)
  ultimately show ?thesis using assms by (simp add: contract_ok_def composed_def targets_ok_def)
qed

text \<open>
  C20: a definition has one normal form, and schemas and contracts always compose. The normal form of an accepted definition is accepted
  as it is. An accepted schema and an accepted contract compose without an error, whatever they say: the result keeps every path, type,
  entry and shape of the schema, takes the number of targets, the geometry and the grounding of the contract, and for a field both
  declare the policy of the contract.
\<close>

theorem composition_total:
  assumes "validateSignalContractDefinition is_regexp number_text schema_input = Inr schema"
    and "validateSignalContractDefinition is_regexp number_text contract_input = Inr contract"
  shows "validateSignalContractDefinition is_regexp number_text (js_of_contract schema) = Inr schema \<and>
    (\<exists>d. composeSignalSchemaContract is_regexp number_text schema_input contract_input = Inr d \<and>
      validateSignalContractDefinition is_regexp number_text (js_of_contract d) = Inr d \<and> contract_paths d = contract_paths schema \<and> sc_entry d = sc_entry schema \<and>
      ct_containerPath (sc_targets d) = ct_containerPath (sc_targets schema) \<and> ct_itemTag (sc_targets d) = ct_itemTag (sc_targets schema) \<and>
      ct_shape (sc_targets d) = ct_shape (sc_targets schema) \<and> ct_sequentialIds (sc_targets d) = ct_sequentialIds (sc_targets schema) \<and>
      ct_minimumItems (sc_targets d) = ct_minimumItems (sc_targets contract) \<and> ct_maximumItems (sc_targets d) = ct_maximumItems (sc_targets contract) \<and>
      sc_geometry d = sc_geometry contract \<and> sc_grounding d = sc_grounding contract \<and>
      map cf_type (sc_additionalFields d) = map cf_type (sc_additionalFields schema) \<and>
      (\<forall>f\<in>set (sc_additionalFields d). \<forall>policy\<in>set (sc_additionalFields contract). cf_path policy = cf_path f \<longrightarrow>
        policy\<lparr>cf_type := cf_type f\<rparr> = f))"
proof -
  note ok = contract_Inr [OF assms(1)] contract_Inr [OF assms(2)]
  define d where "d = composed schema contract"
  have again: "validateSignalContractDefinition is_regexp number_text (js_of_contract d) = Inr d" unfolding d_def by (rule contract_back [OF composed_ok [OF ok]])
  have fields: "\<forall>f\<in>set (sc_additionalFields schema). field_ok is_regexp f" using ok(1) by (simp add: contract_ok_def list_all_iff)
  have "distinct (map cf_path (sc_additionalFields contract))" using ok(2) by (simp add: contract_ok_def contract_paths_def)
  then have one: "map_of (rev (map (\<lambda>f. (cf_path f, f)) (sc_additionalFields contract))) (cf_path policy) = Some policy" if "policy \<in> set (sc_additionalFields contract)" for policy
    using that by (intro map_of_is_SomeI) (auto simp: rev_map [symmetric] comp_def)
  have "policy\<lparr>cf_type := cf_type f\<rparr> = f" if f: "f \<in> set (sc_additionalFields d)" "policy \<in> set (sc_additionalFields contract)" "cf_path policy = cf_path f" for f policy
  proof -
    obtain g where g: "g \<in> set (sc_additionalFields schema)" "f = with_policy contract g" using f(1) by (auto simp: d_def composed_def)
    have "cf_path policy = cf_path g" using f(3) g fields with_policy_ok(2) [OF ok(2)] by simp
    then show ?thesis using one [OF f(2)] by (simp add: g(2) with_policy_def)
  qed
  moreover have "map cf_type (sc_additionalFields d) = map cf_type (sc_additionalFields schema)" "map cf_path (sc_additionalFields d) = map cf_path (sc_additionalFields schema)"
    using fields with_policy_ok(2,3) [OF ok(2)] by (simp_all add: d_def composed_def)
  moreover have "composeSignalSchemaContract is_regexp number_text schema_input contract_input = Inr d"
    using again by (simp add: composeSignalSchemaContract_def assms d_def)
  ultimately show ?thesis using again contract_back [OF ok(1)] by (intro conjI exI [of _ d]) (auto simp: d_def composed_def contract_paths_def)
qed

text \<open>Each built-in contract is its own normal form, once the platform takes its one pattern for a regular expression.\<close>

lemma builtin_ok: "contract_ok is_regexp standard_contract" "contract_ok is_regexp cryptodanielvip_contract"
  "is_regexp timeframe_pattern \<Longrightarrow> contract_ok is_regexp loma_contract"
proof -
  have base: "path_ok ''action''" "path_ok ''pair''" "path_ok ''entry_range.min''" "path_ok ''entry_range.max''" "path_ok ''stoploss''" "path_ok ''leverage''"
    "path_ok ''entry_type''" "path_ok ''risk_percent''" "path_ok ''averaging''" "path_ok ''timeframe''" "targets_ok (builtin_targets Scalar_shape)"
    "targets_ok (builtin_targets Range_shape)" "text_ok 160 timeframe_pattern" "\<not> hasUnsupportedPatternConstruct timeframe_pattern"
    "values_ok 20 []" "values_ok 50 []" "values_ok 20 [''MARKET'']" "values_ok 20 [''LIMIT'']" by code_simp+
  show "contract_ok is_regexp standard_contract"
    by (simp add: contract_ok_def standard_contract_def contract_paths_def option_list_def entry_ok_def optional_path_ok_def base)
  show "contract_ok is_regexp cryptodanielvip_contract"
    by (simp add: contract_ok_def cryptodanielvip_contract_def contract_paths_def option_list_def entry_ok_def optional_path_ok_def base)
  show "contract_ok is_regexp loma_contract" if "is_regexp timeframe_pattern"
    using that by (simp add: contract_ok_def loma_contract_def contract_paths_def option_list_def entry_ok_def optional_path_ok_def field_ok_def bound_ok_def base)
qed

lemma builtin_accepted:
  assumes "is_regexp timeframe_pattern" "(name, d) \<in> set builtin_signal_contracts"
  shows "validateSignalContractDefinition is_regexp number_text (js_of_contract d) = Inr d"
  using assms builtin_ok [of is_regexp] contract_back by (auto simp: builtin_signal_contracts_def)

text \<open>The structure of the Loma contract with the policy of the standard one.\<close>

theorem composition_total_witness:
  "\<exists>d. composeSignalSchemaContract (\<lambda>_. True) (\<lambda>_. []) (js_of_contract loma_contract) (js_of_contract standard_contract) = Inr d \<and>
     ct_shape (sc_targets d) = Range_shape \<and> contract_paths d = contract_paths loma_contract"
proof -
  have l: "validateSignalContractDefinition (\<lambda>_. True) (\<lambda>_. []) (js_of_contract loma_contract) = Inr loma_contract"
    by (rule builtin_accepted [of _ "''loma''"]) (simp_all add: builtin_signal_contracts_def)
  have s: "validateSignalContractDefinition (\<lambda>_. True) (\<lambda>_. []) (js_of_contract standard_contract) = Inr standard_contract"
    by (rule builtin_accepted [of _ "''standard''"]) (simp_all add: builtin_signal_contracts_def)
  have "ct_shape (sc_targets loma_contract) = Range_shape" by (simp add: loma_contract_def builtin_targets_def)
  then show ?thesis using composition_total [OF l s] by auto
qed

end
