(* ===== verification/Signal_Schema.thy ===== *)
theory Signal_Schema
  imports Signal_Contract "HOL-Library.Sublist"
begin

text \<open>
  From the XML a parser model writes to an executable signal (\<^verbatim>\<open>src/signal_schema.ts\<close>): the strict XML reader, the four fixed schemas and
  the schemas defined by contracts, up to \<^verbatim>\<open>validateSignalXml\<close>. The evaluation of a pattern within its time budget is a parameter that
  may fail. The grounding of a signal in its source text, which rests on Unicode properties of that text, is not translated.
\<close>

section \<open>Reading XML\<close>

datatype xml_node = Xml_Node (xn_name: string) (xn_id: "int option") (xn_text: string) (xn_children: "xml_node list")

definition signal_error :: "string \<Rightarrow> 'a result" where
  "signal_error message = Inl (SignalValidationError message)"

definition signal_check :: "bool \<Rightarrow> string \<Rightarrow> unit result" where
  "signal_check ok message = (if ok then Inr () else signal_error message)"

definition quoted :: "string \<Rightarrow> string" where
  "quoted s = CHR 0x27 # s @ [CHR 0x27]"

definition mark_char :: "char \<Rightarrow> bool" where
  "mark_char c \<longleftrightarrow> c = CHR ''<'' \<or> c = CHR ''>''"

text \<open>The loop of \<^verbatim>\<open>tokenizeXml\<close>: a tag up to the next closing bracket, or the text up to the next opening one.\<close>

function split_tokens :: "string \<Rightarrow> string list result" where
  "split_tokens [] = Inr []"
| "split_tokens (c # s) =
     (if c = CHR ''<'' then
        (case dropWhile (\<lambda>d. d \<noteq> CHR ''>'') s of
           [] \<Rightarrow> signal_error ''Malformed XML token sequence.''
         | d # rest \<Rightarrow> rbind (split_tokens rest) (\<lambda>tokens. Inr ((c # takeWhile (\<lambda>d. d \<noteq> CHR ''>'') s @ [d]) # tokens)))
      else rbind (split_tokens (dropWhile (\<lambda>d. d \<noteq> CHR ''<'') s)) (\<lambda>tokens. Inr ((c # takeWhile (\<lambda>d. d \<noteq> CHR ''<'') s) # tokens)))"
  by pat_completeness auto
termination
proof (relation "measure length", goal_cases)
  case (2 c s d rest)
  then have "length (d # rest) \<le> length s" by (metis length_dropWhile_le)
  then show ?case by simp
next
  case (3 c s)
  then show ?case by (simp add: le_imp_less_Suc length_dropWhile_le)
qed simp

definition tokenizeXml :: "string \<Rightarrow> string list result" where
  "tokenizeXml xml =
     rbind (signal_check (xml \<noteq> [] \<and> int (length xml) \<le> 65536) ''Signal XML must be a non-empty string no larger than 64 KiB.'') (\<lambda>_.
     let source = js_trim xml in
     rbind (signal_check (prefix ''<signal>'' source \<and> suffix ''</signal>'' source) (''Root tag must be '' @ quoted ''signal'' @ '' and properly closed.'')) (\<lambda>_.
     rbind (signal_check (\<not> at_some_position (\<lambda>t. take 2 t \<in> {''<!'', ''<?'', ''/>''}) source)
       ''XML declarations, comments, entities, DTDs, and self-closing tags are forbidden.'') (\<lambda>_. split_tokens source)))"

text \<open>The parser state: the open elements, innermost first, and the root once it is closed. An element joins its parent when it is closed,
  which puts the children in the order in which they were opened.\<close>

type_synonym xml_state = "xml_node list \<times> xml_node option"

definition add_text :: "string \<Rightarrow> xml_node \<Rightarrow> xml_node" where
  "add_text t n = Xml_Node (xn_name n) (xn_id n) (xn_text n @ t) (xn_children n)"

definition add_child :: "xml_node \<Rightarrow> xml_node \<Rightarrow> xml_node" where
  "add_child child n = Xml_Node (xn_name n) (xn_id n) (xn_text n) (xn_children n @ [child])"

definition appendTextToken :: "string \<Rightarrow> xml_state \<Rightarrow> xml_state result" where
  "appendTextToken piece s = (case fst s of
       [] \<Rightarrow> rbind (signal_check (js_trim piece = []) ''Text outside the signal root is forbidden.'') (\<lambda>_. Inr s)
     | inner # others \<Rightarrow> rbind (signal_check (\<not> list_ex mark_char piece) ''Unescaped angle brackets are forbidden in XML text.'') (\<lambda>_.
         Inr (add_text piece inner # others, snd s)))"

definition name_char :: "char \<Rightarrow> bool" where
  "name_char c \<longleftrightarrow> is_lower c \<or> is_digit c \<or> c = CHR ''_''"

definition xml_name :: "string \<Rightarrow> bool" where
  "xml_name s \<longleftrightarrow> s \<noteq> [] \<and> list_all name_char s \<and> \<not> is_digit (hd s)"

text \<open>\<^verbatim>\<open>/^<([a-z_][a-z0-9_]*)(?: id="([1-9]\d*)")?>$/u\<close>\<close>

definition opening_tag :: "string \<Rightarrow> (string \<times> int option) option" where
  "opening_tag piece =
     (let body = drop 1 piece; name = takeWhile name_char body; rest = dropWhile name_char body; tail = drop 5 rest; digits = takeWhile is_digit tail in
      if take 1 piece \<noteq> ''<'' \<or> \<not> xml_name name then None
      else if rest = ''>'' then Some (name, None)
      else if take 5 rest = '' id='' @ [CHR 0x22] \<and> digits \<noteq> [] \<and> hd digits \<noteq> CHR ''0'' \<and> dropWhile is_digit tail = [CHR 0x22, CHR ''>'']
      then Some (name, Some (digits_val digits)) else None)"

text \<open>\<^verbatim>\<open>/^<\/([a-z_][a-z0-9_]*)>$/u\<close>\<close>

definition closing_tag :: "string \<Rightarrow> string option" where
  "closing_tag piece = (let body = drop 2 piece; name = takeWhile name_char body in
     if take 2 piece = ''</'' \<and> xml_name name \<and> dropWhile name_char body = ''>'' then Some name else None)"

definition createXmlNode :: "string \<Rightarrow> xml_node result" where
  "createXmlNode piece = (case opening_tag piece of
       None \<Rightarrow> signal_error (''Malformed or disallowed XML tag '' @ quoted piece @ ''.'') | Some (name, i) \<Rightarrow> Inr (Xml_Node name i [] []))"

definition close_element :: "string \<Rightarrow> xml_state \<Rightarrow> xml_state result" where
  "close_element name s = (case fst s of
       [] \<Rightarrow> signal_error (''Mismatched closing tag '' @ quoted name @ ''.'')
     | node # others \<Rightarrow> rbind (signal_check (xn_name node = name) (''Mismatched closing tag '' @ quoted name @ ''.'')) (\<lambda>_.
         Inr (case others of [] \<Rightarrow> ([], Some node) | parent # rest \<Rightarrow> (add_child node parent # rest, snd s))))"

definition consumeTagToken :: "string \<Rightarrow> xml_state \<Rightarrow> xml_state result" where
  "consumeTagToken piece s = (case closing_tag piece of
       Some name \<Rightarrow> close_element name s
     | None \<Rightarrow> rbind (createXmlNode piece) (\<lambda>node.
         rbind (signal_check (fst s \<noteq> [] \<or> snd s = None) ''Multiple XML root elements are forbidden.'') (\<lambda>_. Inr (node # fst s, snd s))))"

definition consume_token :: "xml_state \<Rightarrow> string \<Rightarrow> xml_state result" where
  "consume_token s piece = (if prefix ''<'' piece then consumeTagToken piece s else appendTextToken piece s)"

definition root_error :: string where
  "root_error = ''Root tag must be '' @ quoted ''signal'' @ '' and properly closed.''"

definition finish_parse :: "xml_state \<Rightarrow> xml_node result" where
  "finish_parse s = (case fst s of
       node # _ \<Rightarrow> signal_error (''Unclosed XML tag '' @ quoted (xn_name node) @ ''.'')
     | [] \<Rightarrow> (case snd s of Some top_node \<Rightarrow> if xn_name top_node = ''signal'' then Inr top_node else signal_error root_error | None \<Rightarrow> signal_error root_error))"

definition parseXml :: "string \<Rightarrow> xml_node result" where
  "parseXml xml = rbind (tokenizeXml xml) (\<lambda>tokens. rbind (foldM consume_token ([], None) tokens) finish_parse)"

lemma mapM_cong [fundef_cong]: "xs = ys \<Longrightarrow> (\<And>x. x \<in> set ys \<Longrightarrow> f x = g x) \<Longrightarrow> mapM f xs = mapM g ys"
  by (induction ys arbitrary: xs) auto

fun assertAllowedIdAttributes :: "string \<Rightarrow> xml_node \<Rightarrow> unit result" where
  "assertAllowedIdAttributes targetItemTag (Xml_Node name i t cs) =
     rbind (signal_check (i = None \<or> name = targetItemTag) (''Attribute '' @ quoted ''id'' @ '' is not allowed on '' @ quoted name @ ''.'')) (\<lambda>_.
     rbind (mapM (assertAllowedIdAttributes targetItemTag) cs) (\<lambda>_. Inr ()))"


section \<open>Elements and their values\<close>

definition assertAllowedChildren :: "xml_node \<Rightarrow> string list \<Rightarrow> unit result" where
  "assertAllowedChildren node allowed =
     rbind (signal_check (js_trim (xn_text node) = []) (''Mixed text is not allowed inside '' @ quoted (xn_name node) @ ''.'')) (\<lambda>_.
     rbind (mapM (\<lambda>child. signal_check (xn_name child \<in> set allowed) (''Unknown tag '' @ quoted (xn_name child) @ '' in '' @ quoted (xn_name node) @ ''.''))
       (xn_children node)) (\<lambda>_. Inr ()))"

definition named_children :: "xml_node \<Rightarrow> string \<Rightarrow> xml_node list" where
  "named_children node name = filter (\<lambda>child. xn_name child = name) (xn_children node)"

definition required_child :: "xml_node \<Rightarrow> string \<Rightarrow> xml_node result" where
  "required_child node name = (case named_children node name of
       [found] \<Rightarrow> Inr found | _ \<Rightarrow> signal_error (''Required tag '' @ quoted name @ '' must appear exactly once.''))"

definition optional_child :: "xml_node \<Rightarrow> string \<Rightarrow> xml_node option result" where
  "optional_child node name = (case named_children node name of
       [] \<Rightarrow> Inr None | [found] \<Rightarrow> Inr (Some found) | _ \<Rightarrow> signal_error (''Optional tag '' @ quoted name @ '' may appear at most once.''))"

definition leaf :: "xml_node \<Rightarrow> string result" where
  "leaf node =
     rbind (signal_check (xn_children node = []) (''Tag '' @ quoted (xn_name node) @ '' must contain text only.'')) (\<lambda>_.
     let value = js_trim (xn_text node) in
     rbind (signal_check (value \<noteq> []) (''Tag '' @ quoted (xn_name node) @ '' must not be empty.'')) (\<lambda>_.
     rbind (signal_check (\<not> list_ex (\<lambda>c. mark_char c \<or> c = CHR ''&'') value) (''Tag '' @ quoted (xn_name node) @ '' contains forbidden markup characters.'')) (\<lambda>_.
       Inr value)))"

definition side_value :: "string \<Rightarrow> string \<Rightarrow> trading_side result" where
  "side_value action message = (if action = ''LONG'' then Inr LONG else if action = ''SHORT'' then Inr SHORT else signal_error message)"

definition actionValue :: "xml_node \<Rightarrow> trading_side result" where
  "actionValue node = rbind (required_child node ''action'') (\<lambda>found. rbind (leaf found) (\<lambda>action.
     side_value action (''Action must be '' @ quoted ''LONG'' @ '' or '' @ quoted ''SHORT'' @ '', got '' @ quoted action @ ''.'')))"

definition generic_pair :: "string \<Rightarrow> bool" where
  "generic_pair s \<longleftrightarrow> 2 \<le> length s \<and> length s \<le> 20 \<and> list_all (\<lambda>c. is_upper c \<or> is_digit c) s \<and> list_ex is_upper s"

definition quoted_pair :: "string \<Rightarrow> bool" where
  "quoted_pair s \<longleftrightarrow> 5 \<le> length s \<and> length s \<le> 20 \<and> list_all (\<lambda>c. is_upper c \<or> is_digit c) s \<and> (suffix ''USDT'' s \<or> suffix ''USDC'' s \<or> suffix ''USD'' s)"

definition pairValue :: "xml_node \<Rightarrow> bool \<Rightarrow> string result" where
  "pairValue node requireQuoteAsset = rbind (required_child node ''pair'') (\<lambda>found. rbind (leaf found) (\<lambda>pair.
     rbind (signal_check (\<not> requireQuoteAsset \<or> quoted_pair pair) (''Pair '' @ quoted pair @ '' must use the USD, USDC, or USDT quote asset.'')) (\<lambda>_.
     rbind (signal_check (requireQuoteAsset \<or> generic_pair pair) (''Pair '' @ quoted pair @ '' is not a normalized uppercase trading symbol.'')) (\<lambda>_. Inr pair))))"

text \<open>\<^verbatim>\<open>/^(?:0|[1-9]\d{0,17})(?:\.\d{1,18})?$/\<close>\<close>

definition signal_decimal_pattern :: "string \<Rightarrow> bool" where
  "signal_decimal_pattern s \<longleftrightarrow> decimal_pattern s \<and> length (takeWhile is_digit s) \<le> 18"

definition compareDecimals :: "string \<Rightarrow> string \<Rightarrow> int" where
  "compareDecimals left right = (case (split_point left, split_point right) of
       ((leftInteger, leftFraction), (rightInteger, rightFraction)) \<Rightarrow>
         let sc = max (length leftFraction) (length rightFraction);
             leftValue = digits_val (leftInteger @ pad_end leftFraction sc (CHR ''0''));
             rightValue = digits_val (rightInteger @ pad_end rightFraction sc (CHR ''0''))
         in if leftValue < rightValue then - 1 else if leftValue > rightValue then 1 else 0)"

definition signal_decimal :: "xml_node \<Rightarrow> string \<Rightarrow> string result" where
  "signal_decimal node label = rbind (leaf node) (\<lambda>value.
     rbind (signal_check (signal_decimal_pattern value) (label @ '' must be a positive plain decimal without suffixes, got '' @ quoted value @ ''.'')) (\<lambda>_.
     rbind (signal_check (compareDecimals value ''0'' > 0) (label @ '' must be greater than zero.'')) (\<lambda>_. Inr value)))"

definition node_range :: "xml_node \<Rightarrow> decimal_range result" where
  "node_range node = rbind (assertAllowedChildren node [''min'', ''max'']) (\<lambda>_.
     rbind (required_child node ''min'') (\<lambda>min_node. rbind (signal_decimal min_node (xn_name node @ ''.min'')) (\<lambda>lowest.
     rbind (required_child node ''max'') (\<lambda>max_node. rbind (signal_decimal max_node (xn_name node @ ''.max'')) (\<lambda>highest.
     rbind (signal_check (compareDecimals lowest highest \<le> 0) (xn_name node @ ''.min must be less than or equal to max.'')) (\<lambda>_.
       Inr \<lparr>range_min = lowest, range_max = highest\<rparr>))))))"

definition target_nodes :: "xml_node \<Rightarrow> xml_node list result" where
  "target_nodes node = rbind (assertAllowedChildren node [''target'']) (\<lambda>_.
     let nodes = named_children node ''target'' in
     rbind (signal_check (1 \<le> length nodes \<and> length nodes \<le> 20) ''Targets must contain between 1 and 20 target elements.'') (\<lambda>_. Inr nodes))"

definition sequential_id :: "xml_node \<Rightarrow> nat \<Rightarrow> unit result" where
  "sequential_id target index = signal_check (xn_id target = Some (int index + 1)) ''Target ids must be sequential and start at 1.''"

definition scalarTargets :: "xml_node \<Rightarrow> string list result" where
  "scalarTargets node = rbind (target_nodes node) (\<lambda>nodes.
     mapM (\<lambda>(target, index). rbind (sequential_id target index) (\<lambda>_. signal_decimal target (''target '' @ show_int (int index + 1)))) (zip nodes [0..<length nodes]))"


section \<open>Fixed schemas\<close>

datatype grounding_kind = Ground_entry | Ground_averaging | Ground_target | Ground_stop | Ground_leverage | Ground_risk

record signal_common =
  vs_action :: trading_side
  vs_pair :: string
  vs_groundingNumbers :: "string list"
  vs_groundingFields :: "(grounding_kind \<times> string list) list"
  vs_groundingComment :: "string option"
  vs_groundingPolicy :: "(bool \<times> bool) option"
  vs_execution :: "executable_signal option"

record validated_signal = signal_common +
  vs_xml :: string
  vs_schema :: string

definition side_text :: "trading_side \<Rightarrow> string" where
  "side_text action = (case action of LONG \<Rightarrow> ''LONG'' | SHORT \<Rightarrow> ''SHORT'')"

definition assertStopGeometry :: "trading_side \<Rightarrow> string \<Rightarrow> decimal_range option \<Rightarrow> unit result" where
  "assertStopGeometry action stoploss entry = (case entry of
       None \<Rightarrow> Inr ()
     | Some e \<Rightarrow> rbind (signal_check (action \<noteq> LONG \<or> compareDecimals stoploss (range_min e) < 0) ''LONG stoploss must be below the entry range.'') (\<lambda>_.
         signal_check (action \<noteq> SHORT \<or> compareDecimals stoploss (range_max e) > 0) ''SHORT stoploss must be above the entry range.''))"

definition assertTargetGeometry :: "trading_side \<Rightarrow> string \<Rightarrow> nat \<Rightarrow> string list \<Rightarrow> string \<Rightarrow> string \<Rightarrow> unit result" where
  "assertTargetGeometry action target index targets baseline boundaryLabel =
     rbind (signal_check (action \<noteq> LONG \<or> compareDecimals target baseline > 0) (''LONG target '' @ show_int (int index + 1) @ '' must be above '' @ boundaryLabel @ ''.'')) (\<lambda>_.
     rbind (signal_check (action \<noteq> SHORT \<or> compareDecimals target baseline < 0) (''SHORT target '' @ show_int (int index + 1) @ '' must be below '' @ boundaryLabel @ ''.'')) (\<lambda>_.
     if index = 0 then Inr ()
     else let order = compareDecimals (targets ! (index - 1)) target in
       signal_check (\<not> (action = LONG \<and> order \<ge> 0 \<or> action = SHORT \<and> order \<le> 0)) (side_text action @ '' targets must be strictly ordered away from entry.'')))"

definition scalar_baseline :: "trading_side \<Rightarrow> string \<Rightarrow> decimal_range option \<Rightarrow> string" where
  "scalar_baseline action stoploss entry = (case entry of None \<Rightarrow> stoploss | Some e \<Rightarrow> if action = LONG then range_max e else range_min e)"

definition assertScalarGeometry :: "trading_side \<Rightarrow> string \<Rightarrow> string list \<Rightarrow> decimal_range option \<Rightarrow> unit result" where
  "assertScalarGeometry action stoploss targets entry = rbind (assertStopGeometry action stoploss entry) (\<lambda>_.
     rbind (mapM (\<lambda>(target, index). assertTargetGeometry action target index targets (scalar_baseline action stoploss entry)
       (if entry = None then ''stoploss'' else ''the entry range'')) (zip targets [0..<length targets])) (\<lambda>_. Inr ()))"

definition signal_entry_of :: "decimal_range option \<Rightarrow> signal_entry" where
  "signal_entry_of entry = (case entry of None \<Rightarrow> Market_entry | Some e \<Rightarrow> Range_entry e)"

definition point_range :: "string \<Rightarrow> decimal_range" where
  "point_range target = \<lparr>range_min = target, range_max = target\<rparr>"

definition scalarExecution :: "string \<Rightarrow> trading_side \<Rightarrow> string \<Rightarrow> decimal_range option \<Rightarrow> string list \<Rightarrow> string \<Rightarrow> string option \<Rightarrow> string option \<Rightarrow> string option \<Rightarrow> executable_signal" where
  "scalarExecution schema action pair entry targets stoploss leverage averaging risk =
     \<lparr>sig_schema = schema, sig_action = action, sig_symbol = pair, sig_entry = signal_entry_of entry, sig_targets = map point_range targets, sig_stopLoss = stoploss,
      sig_suggestedLeverage = map_option digits_val leverage, sig_suggestedRiskPercent = risk, sig_averagingPrice = averaging\<rparr>"

definition entry_numbers :: "decimal_range option \<Rightarrow> string list" where
  "entry_numbers entry = (case entry of None \<Rightarrow> [] | Some e \<Rightarrow> [range_min e, range_max e])"

definition entry_grounding :: "decimal_range option \<Rightarrow> (grounding_kind \<times> string list) list" where
  "entry_grounding entry = (case entry of None \<Rightarrow> [] | Some e \<Rightarrow> [(Ground_entry, [range_min e, range_max e])])"

definition value_grounding :: "grounding_kind \<Rightarrow> string option \<Rightarrow> (grounding_kind \<times> string list) list" where
  "value_grounding kind v = (case v of None \<Rightarrow> [] | Some s \<Rightarrow> [(kind, [s])])"

text \<open>\<^verbatim>\<open>/^[1-9]\d{0,2}$/\<close> and at most 125\<close>

definition leverage_text :: "string \<Rightarrow> bool" where
  "leverage_text s \<longleftrightarrow> s \<noteq> [] \<and> hd s \<noteq> CHR ''0'' \<and> all_digits s \<and> length s \<le> 3 \<and> digits_val s \<le> 125"

definition optional_range :: "xml_node \<Rightarrow> decimal_range option result" where
  "optional_range node = rbind (optional_child node ''entry_range'') (\<lambda>found. case found of None \<Rightarrow> Inr None | Some n \<Rightarrow> rbind (node_range n) (\<lambda>r. Inr (Some r)))"

definition standard_leverage :: "xml_node \<Rightarrow> string option result" where
  "standard_leverage node = rbind (optional_child node ''leverage'') (\<lambda>found. case found of None \<Rightarrow> Inr None
     | Some n \<Rightarrow> rbind (leaf n) (\<lambda>leverage. rbind (signal_check (leverage_text leverage) ''Leverage must be an integer between 1 and 125.'') (\<lambda>_. Inr (Some leverage))))"

definition validateStandard :: "xml_node \<Rightarrow> signal_common result" where
  "validateStandard node = rbind (assertAllowedChildren node [''action'', ''pair'', ''entry_range'', ''targets'', ''stoploss'', ''leverage'']) (\<lambda>_.
     rbind (actionValue node) (\<lambda>action. rbind (pairValue node True) (\<lambda>pair. rbind (optional_range node) (\<lambda>entry.
     rbind (required_child node ''targets'') (\<lambda>targets_node. rbind (scalarTargets targets_node) (\<lambda>targets.
     rbind (required_child node ''stoploss'') (\<lambda>stop_node. rbind (signal_decimal stop_node ''stoploss'') (\<lambda>stoploss.
     rbind (standard_leverage node) (\<lambda>leverage. rbind (assertScalarGeometry action stoploss targets entry) (\<lambda>_.
       Inr \<lparr>vs_action = action, vs_pair = pair, vs_groundingNumbers = entry_numbers entry @ targets @ [stoploss] @ option_list leverage,
         vs_groundingFields = entry_grounding entry @ [(Ground_target, targets), (Ground_stop, [stoploss])] @ value_grounding Ground_leverage leverage,
         vs_groundingComment = None, vs_groundingPolicy = None,
         vs_execution = Some (scalarExecution ''standard'' action pair entry targets stoploss leverage None None)\<rparr>))))))))))"

definition cryptodanielEntry :: "xml_node \<Rightarrow> string \<Rightarrow> decimal_range option result" where
  "cryptodanielEntry node entryType = rbind (optional_child node ''entry_range'') (\<lambda>found.
     rbind (signal_check (entryType \<noteq> ''LIMIT'' \<or> found \<noteq> None) ''LIMIT signals require entry_range.'') (\<lambda>_.
     rbind (signal_check (entryType \<noteq> ''MARKET'' \<or> found = None) ''MARKET signals must omit entry_range.'') (\<lambda>_.
     case found of None \<Rightarrow> Inr None | Some n \<Rightarrow> rbind (node_range n) (\<lambda>r. Inr (Some r)))))"

definition optionalDecimalChild :: "xml_node \<Rightarrow> string \<Rightarrow> string option result" where
  "optionalDecimalChild node name = rbind (optional_child node name) (\<lambda>found. case found of None \<Rightarrow> Inr None | Some n \<Rightarrow> rbind (signal_decimal n name) (\<lambda>d. Inr (Some d)))"

definition risk_check :: "string option \<Rightarrow> unit result" where
  "risk_check risk = (case risk of None \<Rightarrow> Inr () | Some r \<Rightarrow> signal_check (compareDecimals r ''100'' \<le> 0) ''risk_percent must not exceed 100.'')"

definition cryptodanielRisk :: "xml_node \<Rightarrow> string option result" where
  "cryptodanielRisk node = rbind (optionalDecimalChild node ''risk_percent'') (\<lambda>risk. rbind (risk_check risk) (\<lambda>_. Inr risk))"

definition validateCryptoDaniel :: "xml_node \<Rightarrow> signal_common result" where
  "validateCryptoDaniel node =
     rbind (assertAllowedChildren node [''action'', ''pair'', ''entry_type'', ''entry_range'', ''averaging'', ''targets'', ''stoploss'', ''risk_percent'']) (\<lambda>_.
     rbind (actionValue node) (\<lambda>action. rbind (pairValue node True) (\<lambda>pair. rbind (required_child node ''entry_type'') (\<lambda>type_node. rbind (leaf type_node) (\<lambda>entryType.
     rbind (signal_check (entryType = ''MARKET'' \<or> entryType = ''LIMIT'') (''entry_type must be '' @ quoted ''MARKET'' @ '' or '' @ quoted ''LIMIT'' @ ''.'')) (\<lambda>_.
     rbind (cryptodanielEntry node entryType) (\<lambda>entry. rbind (optionalDecimalChild node ''averaging'') (\<lambda>averaging.
     rbind (required_child node ''targets'') (\<lambda>targets_node. rbind (scalarTargets targets_node) (\<lambda>targets.
     rbind (required_child node ''stoploss'') (\<lambda>stop_node. rbind (signal_decimal stop_node ''stoploss'') (\<lambda>stoploss.
     rbind (cryptodanielRisk node) (\<lambda>risk. rbind (assertScalarGeometry action stoploss targets entry) (\<lambda>_.
       Inr \<lparr>vs_action = action, vs_pair = pair, vs_groundingNumbers = entry_numbers entry @ option_list averaging @ targets @ [stoploss] @ option_list risk,
         vs_groundingFields = entry_grounding entry @ value_grounding Ground_averaging averaging @ [(Ground_target, targets), (Ground_stop, [stoploss])] @
           value_grounding Ground_risk risk,
         vs_groundingComment = None, vs_groundingPolicy = None,
         vs_execution = Some (scalarExecution ''cryptodanielvip'' action pair entry targets stoploss None averaging risk)\<rparr>))))))))))))))"

definition timeframe_part :: "string \<Rightarrow> bool" where
  "timeframe_part s \<longleftrightarrow> s \<noteq> [] \<and> hd s \<in> set ''MHDW'' \<and> all_digits (tl s) \<and> 1 \<le> length (tl s) \<and> length (tl s) \<le> 3"

definition range_values :: "decimal_range list \<Rightarrow> string list" where
  "range_values targets = concat (map (\<lambda>t. [range_min t, range_max t]) targets)"

definition loma_target_check :: "trading_side \<Rightarrow> decimal_range \<Rightarrow> decimal_range list \<Rightarrow> decimal_range \<times> nat \<Rightarrow> unit result" where
  "loma_target_check action entry targets = (\<lambda>(target, index).
     rbind (signal_check (action \<noteq> LONG \<or> compareDecimals (range_min target) (range_max entry) > 0) (''LONG target '' @ show_int (int index + 1) @ '' must be above entry.'')) (\<lambda>_.
     rbind (signal_check (action \<noteq> SHORT \<or> compareDecimals (range_max target) (range_min entry) < 0) (''SHORT target '' @ show_int (int index + 1) @ '' must be below entry.'')) (\<lambda>_.
     if index = 0 then Inr ()
     else let previous = targets ! (index - 1) in
       rbind (signal_check (action \<noteq> LONG \<or> compareDecimals (range_min target) (range_max previous) > 0) ''LONG target ranges must be strictly increasing.'') (\<lambda>_.
       signal_check (action \<noteq> SHORT \<or> compareDecimals (range_max target) (range_min previous) < 0) ''SHORT target ranges must be strictly decreasing.''))))"

definition validateLoma :: "xml_node \<Rightarrow> signal_common result" where
  "validateLoma node = rbind (assertAllowedChildren node [''pair'', ''timeframe'', ''action'', ''entry_range'', ''stoploss'', ''targets'']) (\<lambda>_.
     rbind (actionValue node) (\<lambda>action. rbind (pairValue node True) (\<lambda>pair. rbind (required_child node ''timeframe'') (\<lambda>time_node. rbind (leaf time_node) (\<lambda>timeframe.
     rbind (signal_check (list_all timeframe_part (split_on (CHR ''/'') timeframe)) (''Invalid timeframe '' @ quoted timeframe @ ''.'')) (\<lambda>_.
     rbind (required_child node ''entry_range'') (\<lambda>entry_node. rbind (node_range entry_node) (\<lambda>entry.
     rbind (required_child node ''stoploss'') (\<lambda>stop_node. rbind (signal_decimal stop_node ''stoploss'') (\<lambda>stoploss.
     rbind (required_child node ''targets'') (\<lambda>targets_node. rbind (target_nodes targets_node) (\<lambda>nodes.
     rbind (mapM (\<lambda>(target, index). rbind (sequential_id target index) (\<lambda>_. node_range target)) (zip nodes [0..<length nodes])) (\<lambda>targets.
     rbind (assertStopGeometry action stoploss (Some entry)) (\<lambda>_.
     rbind (mapM (loma_target_check action entry targets) (zip targets [0..<length targets])) (\<lambda>_.
       Inr \<lparr>vs_action = action, vs_pair = pair, vs_groundingNumbers = [range_min entry, range_max entry, stoploss] @ range_values targets,
         vs_groundingFields = [(Ground_entry, [range_min entry, range_max entry]), (Ground_target, range_values targets), (Ground_stop, [stoploss])],
         vs_groundingComment = None, vs_groundingPolicy = None,
         vs_execution = Some \<lparr>sig_schema = ''loma'', sig_action = action, sig_symbol = pair, sig_entry = Range_entry entry, sig_targets = targets, sig_stopLoss = stoploss,
           sig_suggestedLeverage = None, sig_suggestedRiskPercent = None, sig_averagingPrice = None\<rparr>\<rparr>)))))))))))))))"

definition required_leaf :: "xml_node \<Rightarrow> string \<Rightarrow> string result" where
  "required_leaf node name = rbind (required_child node name) leaf"

definition validateSpeculant :: "xml_node \<Rightarrow> signal_common result" where
  "validateSpeculant node = rbind (assertAllowedChildren node [''type'', ''action'', ''pair'', ''conviction'', ''timeframe'', ''comment'', ''risk_warning'']) (\<lambda>_.
     rbind (required_leaf node ''type'') (\<lambda>type'. rbind (signal_check (type' = ''MANIPULATION'') (''type must be '' @ quoted ''MANIPULATION'' @ ''.'')) (\<lambda>_.
     rbind (actionValue node) (\<lambda>action. rbind (pairValue node False) (\<lambda>pair.
     rbind (required_leaf node ''conviction'') (\<lambda>conviction. rbind (signal_check (conviction \<in> {''HIGH'', ''MEDIUM'', ''LOW''}) ''conviction must be HIGH, MEDIUM, or LOW.'') (\<lambda>_.
     rbind (required_leaf node ''timeframe'') (\<lambda>timeframe. rbind (signal_check (timeframe \<in> {''SHORT_TERM'', ''MID_TERM''}) ''timeframe must be SHORT_TERM or MID_TERM.'') (\<lambda>_.
     rbind (required_leaf node ''comment'') (\<lambda>comment. rbind (signal_check (length comment \<le> 500) ''comment must not exceed 500 characters.'') (\<lambda>_.
     rbind (required_leaf node ''risk_warning'') (\<lambda>riskWarning. rbind (signal_check (riskWarning = ''true'' \<or> riskWarning = ''false'') ''risk_warning must be true or false.'') (\<lambda>_.
       Inr \<lparr>vs_action = action, vs_pair = pair, vs_groundingNumbers = [], vs_groundingFields = [], vs_groundingComment = Some comment, vs_groundingPolicy = None,
         vs_execution = None\<rparr>)))))))))))))"


section \<open>Schemas defined by a contract\<close>

definition pathNodes :: "xml_node \<Rightarrow> string \<Rightarrow> xml_node list" where
  "pathNodes node path = foldl (\<lambda>current segment. concat (map (\<lambda>n. named_children n segment) current)) [node] (split_on (CHR ''.'') path)"

definition pathNode :: "xml_node \<Rightarrow> string \<Rightarrow> bool \<Rightarrow> xml_node option result" where
  "pathNode node path requiredValue = (let matches = pathNodes node path in
     rbind (signal_check (length matches \<le> 1) (''Contract path '' @ quoted path @ '' must resolve at most once.'')) (\<lambda>_.
     rbind (signal_check (\<not> (requiredValue \<and> length matches \<noteq> 1)) (''Required contract path '' @ quoted path @ '' must appear exactly once.'')) (\<lambda>_.
       Inr (case matches of [] \<Rightarrow> None | found # _ \<Rightarrow> Some found))))"

definition pathLeaf :: "xml_node \<Rightarrow> string \<Rightarrow> bool \<Rightarrow> string option result" where
  "pathLeaf node path requiredValue = rbind (pathNode node path requiredValue) (\<lambda>found.
     case found of None \<Rightarrow> Inr None | Some n \<Rightarrow> rbind (leaf n) (\<lambda>s. Inr (Some s)))"

text \<open>The declared structure as pairs of a path and a tag that may occur there.\<close>

definition dotted :: "string \<Rightarrow> string \<Rightarrow> string" where
  "dotted parent segment = (if parent = [] then segment else parent @ ''.'' @ segment)"

fun declare_segments :: "string \<Rightarrow> string list \<Rightarrow> (string \<times> string) list" where
  "declare_segments parent [] = []"
| "declare_segments parent (segment # rest) = (parent, segment) # declare_segments (dotted parent segment) rest"

definition addDeclaredPath :: "string \<Rightarrow> (string \<times> string) list" where
  "addDeclaredPath path = declare_segments [] (split_on (CHR ''.'') path)"

definition declared_paths :: "signal_contract \<Rightarrow> string list" where
  "declared_paths d = [sc_actionPath d, sc_pairPath d] @ option_list (ce_typePath (sc_entry d)) @
     [ce_minimumPath (sc_entry d), ce_maximumPath (sc_entry d), ct_containerPath (sc_targets d), sc_stopLossPath d] @ option_list (sc_leveragePath d) @
     option_list (sc_riskPercentPath d) @ option_list (sc_averagingPricePath d) @ map cf_path (sc_additionalFields d)"

definition declaredStructure :: "signal_contract \<Rightarrow> (string \<times> string) list" where
  "declaredStructure d = (let item = ct_containerPath (sc_targets d) @ ''.'' @ ct_itemTag (sc_targets d) @ ''.'' in
     concat (map addDeclaredPath (declared_paths d)) @ [(ct_containerPath (sc_targets d), ct_itemTag (sc_targets d))] @
     (if ct_shape (sc_targets d) = Range_shape
      then addDeclaredPath (item @ ct_minimumPath (sc_targets d)) @ addDeclaredPath (item @ ct_maximumPath (sc_targets d)) else []))"

fun assertDeclaredNode :: "(string \<times> string) list \<Rightarrow> string \<Rightarrow> xml_node \<Rightarrow> unit result" where
  "assertDeclaredNode structure path (Xml_Node name i t cs) =
     rbind (signal_check (cs = [] \<or> js_trim t = []) (''Mixed text is not allowed inside '' @ quoted name @ ''.'')) (\<lambda>_.
     rbind (mapM (\<lambda>child.
       rbind (signal_check ((path, xn_name child) \<in> set structure) (''Unknown tag '' @ quoted (xn_name child) @ '' in '' @ quoted name @ ''.'')) (\<lambda>_.
       assertDeclaredNode structure (dotted path (xn_name child)) child)) cs) (\<lambda>_. Inr ()))"

definition contractDecimal :: "xml_node \<Rightarrow> string \<Rightarrow> bool \<Rightarrow> string option result" where
  "contractDecimal node path requiredValue = rbind (pathNode node path requiredValue) (\<lambda>found.
     case found of None \<Rightarrow> Inr None | Some n \<Rightarrow> rbind (signal_decimal n path) (\<lambda>d. Inr (Some d)))"

text \<open>\<open>matches pattern value\<close> is the test of a pattern, or nothing when it fails or its budget is exhausted.\<close>

definition validateAdditionalFieldText :: "(string \<Rightarrow> string \<Rightarrow> bool option) \<Rightarrow> contract_field \<Rightarrow> string \<Rightarrow> unit result" where
  "validateAdditionalFieldText matches field value =
     rbind (signal_check (cf_allowedValues field = [] \<or> value \<in> set (cf_allowedValues field)) (''Contract path '' @ quoted (cf_path field) @ '' contains an unsupported value.'')) (\<lambda>_.
     rbind (signal_check (case cf_maximumLength field of None \<Rightarrow> True | Some n \<Rightarrow> int (length value) \<le> n)
       (''Contract path '' @ quoted (cf_path field) @ '' exceeds its maximum length.'')) (\<lambda>_.
     case cf_pattern field of
       None \<Rightarrow> Inr ()
     | Some pattern \<Rightarrow> (case matches pattern value of
           None \<Rightarrow> signal_error (''Contract path '' @ quoted (cf_path field) @ '' pattern evaluation exceeded its execution budget or failed.'')
         | Some found \<Rightarrow> signal_check found (''Contract path '' @ quoted (cf_path field) @ '' does not match its required pattern.''))))"

definition integer_text :: "string \<Rightarrow> bool" where
  "integer_text s \<longleftrightarrow> s = ''0'' \<or> s \<noteq> [] \<and> hd s \<noteq> CHR ''0'' \<and> all_digits s \<and> length s \<le> 18"

definition validateAdditionalFieldType :: "contract_field \<Rightarrow> string \<Rightarrow> unit result" where
  "validateAdditionalFieldType field value =
     rbind (signal_check (cf_type field \<noteq> Boolean_field \<or> value = ''true'' \<or> value = ''false'') (''Contract path '' @ quoted (cf_path field) @ '' must be true or false.'')) (\<lambda>_.
     signal_check (cf_type field \<noteq> Integer_field \<or> integer_text value) (''Contract path '' @ quoted (cf_path field) @ '' must be an unsigned integer.''))"

definition validateAdditionalDecimal :: "xml_node \<Rightarrow> contract_field \<Rightarrow> unit result" where
  "validateAdditionalDecimal node field = rbind (pathNode node (cf_path field) True) (\<lambda>found.
     rbind (signal_decimal (case found of Some n \<Rightarrow> n | None \<Rightarrow> Xml_Node (cf_path field) None [] []) (cf_path field)) (\<lambda>normalized.
     rbind (signal_check (case cf_minimum field of None \<Rightarrow> True | Some m \<Rightarrow> compareDecimals normalized m \<ge> 0)
       (''Contract path '' @ quoted (cf_path field) @ '' is below its minimum.'')) (\<lambda>_.
     signal_check (case cf_maximum field of None \<Rightarrow> True | Some m \<Rightarrow> compareDecimals normalized m \<le> 0)
       (''Contract path '' @ quoted (cf_path field) @ '' exceeds its maximum.''))))"

definition validateAdditionalField :: "(string \<Rightarrow> string \<Rightarrow> bool option) \<Rightarrow> xml_node \<Rightarrow> contract_field \<Rightarrow> unit result" where
  "validateAdditionalField matches node field = rbind (pathLeaf node (cf_path field) (cf_required field)) (\<lambda>found. case found of
       None \<Rightarrow> Inr ()
     | Some value \<Rightarrow> rbind (validateAdditionalFieldText matches field value) (\<lambda>_. rbind (validateAdditionalFieldType field value) (\<lambda>_.
         if cf_type field = Decimal_field then validateAdditionalDecimal node field else Inr ())))"

definition validateAdditionalFields :: "(string \<Rightarrow> string \<Rightarrow> bool option) \<Rightarrow> xml_node \<Rightarrow> contract_field list \<Rightarrow> unit result" where
  "validateAdditionalFields matches node contract_fields = rbind (mapM (validateAdditionalField matches node) contract_fields) (\<lambda>_. Inr ())"

definition entry_range_required :: "xml_node \<Rightarrow> contract_entry \<Rightarrow> bool result" where
  "entry_range_required node e = (if ce_mode e \<noteq> Typed_range then Inr (ce_mode e = Required_range)
     else case ce_typePath e of
       None \<Rightarrow> signal_error ''Typed entry requires an entry type path.''
     | Some path \<Rightarrow> rbind (pathLeaf node path True) (\<lambda>found. case found of
           None \<Rightarrow> signal_error ''Typed entry type is missing.''
         | Some type' \<Rightarrow> if type' \<in> set (ce_marketValues e) then Inr False else if type' \<in> set (ce_rangeValues e) then Inr True
             else signal_error (''Entry type '' @ quoted type' @ '' is not allowed by the contract.'')))"

definition contractEntry :: "xml_node \<Rightarrow> signal_contract \<Rightarrow> decimal_range option result" where
  "contractEntry node d = (let e = sc_entry d in
     rbind (entry_range_required node e) (\<lambda>rangeRequired.
     rbind (contractDecimal node (ce_minimumPath e) rangeRequired) (\<lambda>lowest. rbind (contractDecimal node (ce_maximumPath e) rangeRequired) (\<lambda>highest.
     rbind (signal_check ((lowest = None) = (highest = None)) ''Entry range minimum and maximum must either both be present or both be absent.'') (\<lambda>_.
     rbind (signal_check (\<not> (ce_mode e = Typed_range \<and> \<not> rangeRequired \<and> lowest \<noteq> None)) ''Market entry must omit its entry range.'') (\<lambda>_.
     case (lowest, highest) of
       (Some a, Some b) \<Rightarrow> rbind (signal_check (compareDecimals a b \<le> 0) ''Entry range minimum must not exceed maximum.'') (\<lambda>_.
         Inr (Some \<lparr>range_min = a, range_max = b\<rparr>))
     | _ \<Rightarrow> Inr None))))))"

definition targetItemRange :: "xml_node \<Rightarrow> signal_contract \<Rightarrow> decimal_range result" where
  "targetItemRange item d = (if ct_shape (sc_targets d) = Scalar_shape then rbind (signal_decimal item ''target'') (\<lambda>value. Inr (point_range value))
     else rbind (contractDecimal item (ct_minimumPath (sc_targets d)) True) (\<lambda>lowest. rbind (contractDecimal item (ct_maximumPath (sc_targets d)) True) (\<lambda>highest.
       case (lowest, highest) of
         (Some a, Some b) \<Rightarrow> rbind (signal_check (compareDecimals a b \<le> 0) ''Target range minimum must not exceed maximum.'') (\<lambda>_. Inr \<lparr>range_min = a, range_max = b\<rparr>)
       | _ \<Rightarrow> signal_error ''Target range minimum and maximum are required.'')))"

definition contractTargets :: "xml_node \<Rightarrow> signal_contract \<Rightarrow> decimal_range list result" where
  "contractTargets node d = (let t = sc_targets d in rbind (pathNode node (ct_containerPath t) True) (\<lambda>found. case found of
       None \<Rightarrow> signal_error ''Targets container is missing.''
     | Some container \<Rightarrow> (let items = named_children container (ct_itemTag t) in
         rbind (signal_check (ct_minimumItems t \<le> int (length items) \<and> int (length items) \<le> ct_maximumItems t)
           (''Targets must contain between '' @ show_int (ct_minimumItems t) @ '' and '' @ show_int (ct_maximumItems t) @ '' items.'')) (\<lambda>_.
         mapM (\<lambda>(item, index). rbind (if ct_sequentialIds t then sequential_id item index else Inr ()) (\<lambda>_. targetItemRange item d)) (zip items [0..<length items])))))"

definition assertOrderedContractTarget :: "trading_side \<Rightarrow> decimal_range \<Rightarrow> decimal_range \<Rightarrow> unit result" where
  "assertOrderedContractTarget action target previous =
     rbind (signal_check (action \<noteq> LONG \<or> compareDecimals (range_min target) (range_max previous) > 0) ''LONG targets must be strictly ordered away from entry.'') (\<lambda>_.
     signal_check (action \<noteq> SHORT \<or> compareDecimals (range_max target) (range_min previous) < 0) ''SHORT targets must be strictly ordered away from entry.'')"

definition contract_target_check :: "contract_geometry \<Rightarrow> trading_side \<Rightarrow> decimal_range option \<Rightarrow> decimal_range list \<Rightarrow> decimal_range \<times> nat \<Rightarrow> unit result" where
  "contract_target_check g action entry targets = (\<lambda>(target, index).
     rbind (signal_check (\<not> (cg_orderedRanges g \<and> compareDecimals (range_min target) (range_max target) > 0)) (''Target '' @ show_int (int index + 1) @ '' range is inverted.'')) (\<lambda>_.
     rbind (case entry of
         Some e \<Rightarrow> if cg_targetsOnProfitSide g
           then rbind (signal_check (action \<noteq> LONG \<or> compareDecimals (range_min target) (range_max e) > 0) (''LONG target '' @ show_int (int index + 1) @ '' must be above entry.'')) (\<lambda>_.
             signal_check (action \<noteq> SHORT \<or> compareDecimals (range_max target) (range_min e) < 0) (''SHORT target '' @ show_int (int index + 1) @ '' must be below entry.''))
           else Inr ()
       | None \<Rightarrow> Inr ()) (\<lambda>_.
     if \<not> cg_orderedTargets g \<or> index = 0 then Inr () else assertOrderedContractTarget action target (targets ! (index - 1)))))"

definition assertContractGeometry :: "signal_contract \<Rightarrow> trading_side \<Rightarrow> decimal_range option \<Rightarrow> string \<Rightarrow> decimal_range list \<Rightarrow> unit result" where
  "assertContractGeometry d action entry stopLoss targets = (let g = sc_geometry d in case targets of
       [] \<Rightarrow> signal_error ''At least one target is required.''
     | first # _ \<Rightarrow>
         rbind (if cg_stopOnLossSide g then assertStopGeometry action stopLoss (Some (case entry of Some e \<Rightarrow> e | None \<Rightarrow> first)) else Inr ()) (\<lambda>_.
         rbind (mapM (contract_target_check g action entry targets) (zip targets [0..<length targets])) (\<lambda>_. Inr ())))"

definition dynamicAction :: "xml_node \<Rightarrow> signal_contract \<Rightarrow> trading_side result" where
  "dynamicAction node d = rbind (pathLeaf node (sc_actionPath d) True) (\<lambda>action.
     side_value (case action of Some a \<Rightarrow> a | None \<Rightarrow> []) (''Action must be '' @ quoted ''LONG'' @ '' or '' @ quoted ''SHORT'' @ ''.''))"

record dynamic_values =
  dv_leverage :: "string option"
  dv_risk :: "string option"
  dv_averaging :: "string option"

definition optional_decimal :: "xml_node \<Rightarrow> string option \<Rightarrow> string option result" where
  "optional_decimal node path = (case path of None \<Rightarrow> Inr None | Some p \<Rightarrow> contractDecimal node p False)"

definition dynamicOptionalValues :: "xml_node \<Rightarrow> signal_contract \<Rightarrow> dynamic_values result" where
  "dynamicOptionalValues node d = rbind (optional_decimal node (sc_leveragePath d)) (\<lambda>leverage.
     rbind (signal_check (case leverage of None \<Rightarrow> True | Some l \<Rightarrow> leverage_text l) ''Leverage must be an integer between 1 and 125.'') (\<lambda>_.
     rbind (optional_decimal node (sc_riskPercentPath d)) (\<lambda>risk. rbind (risk_check risk) (\<lambda>_.
     rbind (optional_decimal node (sc_averagingPricePath d)) (\<lambda>averaging.
       Inr \<lparr>dv_leverage = leverage, dv_risk = risk, dv_averaging = averaging\<rparr>)))))"

definition dynamicGroundingNumbers :: "signal_contract \<Rightarrow> decimal_range option \<Rightarrow> decimal_range list \<Rightarrow> string \<Rightarrow> dynamic_values \<Rightarrow> string list" where
  "dynamicGroundingNumbers d entry targets stopLoss optional = (let g = sc_grounding d in
     (if cgr_entry g then entry_numbers entry else []) @ (if cgr_targets g then range_values targets else []) @ (if cgr_stopLoss g then [stopLoss] else []) @
     (if cgr_leverage g then option_list (dv_leverage optional) else []) @ (if cgr_riskPercent g then option_list (dv_risk optional) else []) @
     (if cgr_averagingPrice g then option_list (dv_averaging optional) else []))"

definition dynamicGroundingFields ::
    "signal_contract \<Rightarrow> decimal_range option \<Rightarrow> decimal_range list \<Rightarrow> string \<Rightarrow> dynamic_values \<Rightarrow> (grounding_kind \<times> string list) list" where
  "dynamicGroundingFields d entry targets stopLoss optional = (let g = sc_grounding d in
     (if cgr_entry g then entry_grounding entry else []) @ (if cgr_targets g then [(Ground_target, range_values targets)] else []) @
     (if cgr_stopLoss g then [(Ground_stop, [stopLoss])] else []) @ (if cgr_leverage g then value_grounding Ground_leverage (dv_leverage optional) else []) @
     (if cgr_riskPercent g then value_grounding Ground_risk (dv_risk optional) else []) @
     (if cgr_averagingPrice g then value_grounding Ground_averaging (dv_averaging optional) else []))"

definition rename_node :: "xml_node \<Rightarrow> string \<Rightarrow> xml_node" where
  "rename_node n name = Xml_Node name (xn_id n) (xn_text n) (xn_children n)"

definition dynamic_pair :: "xml_node \<Rightarrow> signal_contract \<Rightarrow> string result" where
  "dynamic_pair node d = rbind (pathNode node (sc_pairPath d) True) (\<lambda>found. case found of
       None \<Rightarrow> signal_error ''Required contract path is missing.''
     | Some pairNode \<Rightarrow> pairValue (Xml_Node (xn_name node) (xn_id node) (xn_text node) [rename_node pairNode ''pair'']) True)"

definition validateDynamicContract ::
    "(string \<Rightarrow> bool) \<Rightarrow> (rat \<Rightarrow> string) \<Rightarrow> (string \<Rightarrow> string \<Rightarrow> bool option) \<Rightarrow> xml_node \<Rightarrow> js \<Rightarrow> signal_common result" where
  "validateDynamicContract is_regexp number_text matches node input = rbind (validateSignalContractDefinition is_regexp number_text input) (\<lambda>d.
     rbind (assertDeclaredNode (declaredStructure d) [] node) (\<lambda>_. rbind (dynamicAction node d) (\<lambda>action. rbind (dynamic_pair node d) (\<lambda>pair.
     rbind (contractEntry node d) (\<lambda>entry. rbind (contractTargets node d) (\<lambda>targets. rbind (contractDecimal node (sc_stopLossPath d) True) (\<lambda>stop_found.
     case stop_found of
       None \<Rightarrow> signal_error ''Required contract path is missing.''
     | Some stopLoss \<Rightarrow> rbind (dynamicOptionalValues node d) (\<lambda>optional.
         rbind (validateAdditionalFields matches node (sc_additionalFields d)) (\<lambda>_. rbind (assertContractGeometry d action entry stopLoss targets) (\<lambda>_.
           Inr \<lparr>vs_action = action, vs_pair = pair, vs_groundingNumbers = dynamicGroundingNumbers d entry targets stopLoss optional,
             vs_groundingFields = dynamicGroundingFields d entry targets stopLoss optional, vs_groundingComment = None,
             vs_groundingPolicy = Some (cgr_action (sc_grounding d), cgr_pair (sc_grounding d)),
             vs_execution = Some \<lparr>sig_schema = ''dynamic'', sig_action = action, sig_symbol = pair, sig_entry = signal_entry_of entry, sig_targets = targets,
               sig_stopLoss = stopLoss, sig_suggestedLeverage = map_option digits_val (dv_leverage optional), sig_suggestedRiskPercent = dv_risk optional,
               sig_averagingPrice = dv_averaging optional\<rparr>\<rparr>))))))))))"


section \<open>Validation of a signal\<close>

definition schemaForTemplate :: "string option \<Rightarrow> string" where
  "schemaForTemplate templateName =
     (let normalized = toLowerCase (js_trim (case templateName of Some s \<Rightarrow> if s = [] then ''default'' else s | None \<Rightarrow> ''default'')) in
      if normalized = ''cryptodanielvip'' then ''cryptodanielvip'' else if normalized = ''loma'' then ''loma''
      else if normalized = ''speculantca'' then ''speculantca'' else ''standard'')"

text \<open>The selected schema of an execution; its definitions are still untyped data.\<close>

record schema_selection =
  es_id :: string
  es_parserSchema :: string
  es_schemaDefinition :: "js option"
  es_contractDefinition :: "js option"

definition executableDefinition :: "(string \<Rightarrow> bool) \<Rightarrow> (rat \<Rightarrow> string) \<Rightarrow> schema_selection option \<Rightarrow> js option result" where
  "executableDefinition is_regexp number_text executableSchema = (case executableSchema of
       None \<Rightarrow> Inr None
     | Some selected \<Rightarrow> (case (es_schemaDefinition selected, es_contractDefinition selected) of
           (Some schema, Some contract) \<Rightarrow> rbind (composeSignalSchemaContract is_regexp number_text schema contract) (\<lambda>d. Inr (Some (js_of_contract d)))
         | (Some schema, None) \<Rightarrow> Inr (Some schema)
         | (None, contract) \<Rightarrow> Inr contract))"

definition validateLegacyParserSchema :: "xml_node \<Rightarrow> string \<Rightarrow> signal_common result" where
  "validateLegacyParserSchema node parserSchema =
     (if parserSchema = ''cryptodanielvip'' then validateCryptoDaniel node else if parserSchema = ''loma'' then validateLoma node
      else if parserSchema = ''speculantca'' then validateSpeculant node else validateStandard node)"

text \<open>The third argument of \<^verbatim>\<open>validateSignalXml\<close> may be undefined or null; \<open>Some None\<close> is null.\<close>

definition validateSignalXml ::
    "(string \<Rightarrow> bool) \<Rightarrow> (rat \<Rightarrow> string) \<Rightarrow> (string \<Rightarrow> string \<Rightarrow> bool option) \<Rightarrow> string \<Rightarrow> string option \<Rightarrow> schema_selection option option \<Rightarrow> validated_signal result" where
  "validateSignalXml is_regexp number_text matches xml templateName executableSchema =
     (let normalizedXml = js_trim xml; selected = Option.bind executableSchema id;
          parserSchema = (case selected of Some e \<Rightarrow> es_parserSchema e | None \<Rightarrow> schemaForTemplate templateName);
          schema = (case selected of Some e \<Rightarrow> es_id e | None \<Rightarrow> parserSchema) in
      rbind (parseXml normalizedXml) (\<lambda>node. rbind (executableDefinition is_regexp number_text selected) (\<lambda>dynamicDefinition.
      rbind (case dynamicDefinition of
          Some definition' \<Rightarrow> rbind (validateSignalContractDefinition is_regexp number_text definition') (\<lambda>d.
            rbind (assertAllowedIdAttributes (ct_itemTag (sc_targets d)) node) (\<lambda>_. validateDynamicContract is_regexp number_text matches node (js_of_contract d)))
        | None \<Rightarrow> rbind (validateLegacyParserSchema node parserSchema) (\<lambda>common. rbind (assertAllowedIdAttributes ''target'' node) (\<lambda>_. Inr common))) (\<lambda>common.
        Inr (signal_common.extend (common\<lparr>vs_execution := (if executableSchema = Some None then None
            else map_option (\<lambda>e. e\<lparr>sig_schema := schema\<rparr>) (vs_execution common))\<rparr>) \<lparr>vs_xml = normalizedXml, vs_schema = schema\<rparr>)))))"


section \<open>What an executable signal promises\<close>

lemma signal_check_Inr: "signal_check b m = Inr u \<longleftrightarrow> b"
  by (simp add: signal_check_def signal_error_def)

lemma signal_error_Inr: "signal_error m = Inr x \<longleftrightarrow> False"
  by (simp add: signal_error_def)

lemmas signal_inversion = rbind_Inr_iff signal_check_Inr signal_error_Inr

lemma padded_value:
  assumes "decimal_pattern s" "split_point s = (i, f)" "length f \<le> sc"
  shows "of_int (digits_val (i @ pad_end f sc (CHR ''0''))) / 10 ^ sc = dec_val s"
proof -
  have "digits_val (i @ pad_end f sc (CHR ''0'')) = digits_val (i @ f) * 10 ^ (sc - length f)"
    using digits_val_append [of "i @ f" "replicate (sc - length f) (CHR ''0'')"] by (simp add: pad_end_def)
  moreover have "(10 :: rat) ^ sc = 10 ^ (sc - length f) * 10 ^ length f" using assms(3) by (rule pow10_split)
  ultimately show ?thesis by (simp add: dec_val_def assms(2))
qed

lemma compareDecimals_value:
  assumes "decimal_pattern l" "decimal_pattern r"
  shows "compareDecimals l r = rat_cmp (dec_val l) (dec_val r)"
proof -
  obtain i f j g where s: "split_point l = (i, f)" "split_point r = (j, g)" by fastforce
  define sc where "sc = max (length f) (length g)"
  have v: "of_int (digits_val (i @ pad_end f sc (CHR ''0''))) / 10 ^ sc = dec_val l" "of_int (digits_val (j @ pad_end g sc (CHR ''0''))) / 10 ^ sc = dec_val r"
    by (rule padded_value [OF assms(1) s(1)], simp add: sc_def, rule padded_value [OF assms(2) s(2)], simp add: sc_def)
  show ?thesis unfolding compareDecimals_def s prod.case Let_def sc_def [symmetric] v [symmetric] rat_cmp_def
    by (simp add: divide_strict_right_mono divide_less_cancel)
qed

definition price_ok :: "string \<Rightarrow> bool" where
  "price_ok s \<longleftrightarrow> decimal_pattern s \<and> 0 < dec_val s"

definition range_ok :: "decimal_range \<Rightarrow> bool" where
  "range_ok r \<longleftrightarrow> price_ok (range_min r) \<and> price_ok (range_max r) \<and> dec_val (range_min r) \<le> dec_val (range_max r)"

lemma compare_prices: "price_ok l \<Longrightarrow> price_ok r \<Longrightarrow> compareDecimals l r = rat_cmp (dec_val l) (dec_val r)"
  by (simp add: compareDecimals_value price_ok_def)

lemma signal_decimal_Inr: "signal_decimal node label = Inr s \<Longrightarrow> price_ok s"
  using compareDecimals_value [of s "''0''"] by (auto simp: signal_decimal_def signal_inversion signal_decimal_pattern_def price_ok_def)

lemma node_range_Inr:
  assumes "node_range node = Inr r"
  shows "range_ok r"
proof -
  obtain n m l k where h: "signal_decimal n l = Inr (range_min r)" "signal_decimal m k = Inr (range_max r)" "compareDecimals (range_min r) (range_max r) \<le> 0"
    using assms by (auto simp: node_range_def signal_inversion)
  note p = signal_decimal_Inr [OF h(1)] signal_decimal_Inr [OF h(2)]
  then show ?thesis using compare_prices [OF p] h(3) by (simp add: range_ok_def rat_cmp_def split: if_splits)
qed

lemma indexed_results:
  assumes "mapM f (zip xs [0..<length xs]) = Inr ys"
  shows "length ys = length xs" "\<And>i. i < length xs \<Longrightarrow> f (xs ! i, i) = Inr (ys ! i)"
  using assms by (auto simp: mapM_Inr_iff list_all2_conv_all_nth)

lemma indexed_all: "mapM f (zip xs [0..<length xs]) = Inr ys \<Longrightarrow> (\<And>x i y. f (x, i) = Inr y \<Longrightarrow> P y) \<Longrightarrow> list_all P ys"
  using indexed_results [of f xs ys] by (auto simp: list_all_length)

lemma target_nodes_Inr: "target_nodes node = Inr ns \<Longrightarrow> 1 \<le> length ns \<and> length ns \<le> 20"
  by (auto simp: target_nodes_def Let_def signal_inversion)

lemma scalar_targets_Inr:
  assumes "scalarTargets node = Inr ts"
  shows "list_all price_ok ts" "1 \<le> length ts" "length ts \<le> 20"
proof -
  obtain ns where ns: "target_nodes node = Inr ns"
    "mapM (\<lambda>(target, index). rbind (sequential_id target index) (\<lambda>_. signal_decimal target (''target '' @ show_int (int index + 1)))) (zip ns [0..<length ns]) = Inr ts"
    using assms by (auto simp: scalarTargets_def rbind_Inr_iff)
  show "list_all price_ok ts" by (rule indexed_all [OF ns(2)]) (auto simp: rbind_Inr_iff dest: signal_decimal_Inr)
  show "1 \<le> length ts" "length ts \<le> 20" using target_nodes_Inr [OF ns(1)] indexed_results(1) [OF ns(2)] by auto
qed

text \<open>Prices in the direction of the profit: the end of a range that is reached first, the end that is reached last.\<close>

definition toward :: "trading_side \<Rightarrow> rat \<Rightarrow> rat \<Rightarrow> bool" where
  "toward side a b = (case side of LONG \<Rightarrow> a < b | SHORT \<Rightarrow> b < a)"

definition near :: "trading_side \<Rightarrow> decimal_range \<Rightarrow> rat" where
  "near side r = (case side of LONG \<Rightarrow> dec_val (range_min r) | SHORT \<Rightarrow> dec_val (range_max r))"

definition far :: "trading_side \<Rightarrow> decimal_range \<Rightarrow> rat" where
  "far side r = (case side of LONG \<Rightarrow> dec_val (range_max r) | SHORT \<Rightarrow> dec_val (range_min r))"

definition away :: "trading_side \<Rightarrow> string \<Rightarrow> decimal_range list \<Rightarrow> bool" where
  "away side stop rs \<longleftrightarrow> rs \<noteq> [] \<and> toward side (dec_val stop) (near side (hd rs)) \<and> successively (\<lambda>a b. toward side (far side a) (near side b)) rs"

lemma point_near [simp]: "near side (point_range t) = dec_val t" "far side (point_range t) = dec_val t"
  by (simp_all add: near_def far_def point_range_def split: trading_side.splits)

lemma stop_geometry_Inr:
  assumes "assertStopGeometry side stop (Some e) = Inr ()" "price_ok stop" "range_ok e"
  shows "toward side (dec_val stop) (near side e)"
  using assms by (cases side) (auto simp: assertStopGeometry_def signal_inversion toward_def near_def range_ok_def compare_prices rat_cmp_def split: if_splits)

lemma successive_steps: "(\<And>i. Suc i < length xs \<Longrightarrow> P (xs ! i) (xs ! Suc i)) \<Longrightarrow> successively P xs"
proof (induction xs rule: induct_list012)
  case (3 x y zs)
  have "P x y" using "3.prems" [of 0] by simp
  moreover have "successively P (y # zs)" using "3.IH"(2) "3.prems" [of "Suc i" for i] by fastforce
  ultimately show ?case by simp
qed simp_all

text \<open>A chain of targets behind an optional entry range.\<close>

lemma away_chain:
  assumes "ts \<noteq> []" "successively (\<lambda>a b. toward side (far side a) (near side b)) ts"
    and "case entry of None \<Rightarrow> toward side (dec_val stop) (near side (hd ts)) | Some e \<Rightarrow> toward side (dec_val stop) (near side e) \<and> toward side (far side e) (near side (hd ts))"
  shows "away side stop (option_list entry @ ts)"
  using assms by (cases entry) (auto simp: away_def option_list_def successively_Cons)

lemma target_geometry_Inr:
  assumes "assertTargetGeometry side t i ts base label = Inr ()" "price_ok t" "price_ok base" "\<forall>x\<in>set ts. price_ok x" "i < length ts"
  shows "toward side (dec_val base) (dec_val t)" "0 < i \<Longrightarrow> toward side (dec_val (ts ! (i - 1))) (dec_val t)"
proof -
  have "price_ok (ts ! (i - 1))" using assms(4,5) by simp
  then show "toward side (dec_val base) (dec_val t)" "0 < i \<Longrightarrow> toward side (dec_val (ts ! (i - 1))) (dec_val t)"
    using assms(1-3) by (cases side; auto simp: assertTargetGeometry_def signal_inversion toward_def compare_prices Let_def not_le split: if_splits)+
qed

lemma scalar_geometry_Inr:
  assumes "assertScalarGeometry side stop ts entry = Inr ()" "price_ok stop" "list_all price_ok ts" "ts \<noteq> []" "case entry of None \<Rightarrow> True | Some e \<Rightarrow> range_ok e"
  shows "away side stop (option_list entry @ map point_range ts)"
proof -
  define base where "base = scalar_baseline side stop entry"
  define label where "label = (if entry = None then ''stoploss'' else ''the entry range'')"
  obtain us where us: "assertStopGeometry side stop entry = Inr ()" "mapM (\<lambda>(t, i). assertTargetGeometry side t i ts base label) (zip ts [0..<length ts]) = Inr us"
    using assms(1) by (auto simp: assertScalarGeometry_def rbind_Inr_iff base_def label_def)
  have base: "price_ok base" using assms(2,5) by (auto simp: base_def scalar_baseline_def range_ok_def split: option.splits)
  have each: "assertTargetGeometry side (ts ! i) i ts base label = Inr ()" if "i < length ts" for i using indexed_results(2) [OF us(2) that] by simp
  have prices: "\<forall>x\<in>set ts. price_ok x" using assms(3) by (simp add: list_all_iff)
  have geo: "toward side (dec_val base) (dec_val (ts ! i))" "0 < i \<Longrightarrow> toward side (dec_val (ts ! (i - 1))) (dec_val (ts ! i))" if "i < length ts" for i
    using target_geometry_Inr [OF each [OF that] _ base prices that] prices that by auto
  have "successively (\<lambda>a b. toward side (far side a) (near side b)) (map point_range ts)" by (rule successive_steps) (use geo(2) in fastforce)
  moreover have "toward side (dec_val base) (near side (hd (map point_range ts)))" using geo(1) [of 0] assms(4) by (simp add: hd_conv_nth)
  moreover have "toward side (dec_val stop) (near side e)" "far side e = dec_val base" if "entry = Some e" for e
    using stop_geometry_Inr us(1) assms(2,5) that by (auto simp: base_def scalar_baseline_def far_def split: trading_side.splits)
  moreover have "base = stop" if "entry = None" using that by (simp add: base_def scalar_baseline_def)
  ultimately show ?thesis using assms(4) by (intro away_chain) (auto split: option.splits)
qed


text \<open>The ends of two ranges, compared as the schemas compare them.\<close>

lemma ranges_apart:
  assumes "action \<noteq> LONG \<or> compareDecimals (range_min t) (range_max p) > 0" "action \<noteq> SHORT \<or> compareDecimals (range_max t) (range_min p) < 0"
    and "range_ok t" "range_ok p"
  shows "toward action (far action p) (near action t)"
  using assms by (cases action) (auto simp: toward_def near_def far_def range_ok_def compare_prices rat_cmp_def split: if_splits)

lemma range_targets_away:
  assumes "list_all range_ok ts" "ts \<noteq> []" "case entry of None \<Rightarrow> True | Some e \<Rightarrow> range_ok e"
    and "toward side (dec_val stop) (near side (case entry of Some e \<Rightarrow> e | None \<Rightarrow> hd ts))"
    and first: "\<And>e. entry = Some e \<Longrightarrow> toward side (far side e) (near side (hd ts))"
    and step: "\<And>i. Suc i < length ts \<Longrightarrow> toward side (far side (ts ! i)) (near side (ts ! Suc i))"
  shows "away side stop (option_list entry @ ts)"
proof (rule away_chain [OF assms(2)])
  show "successively (\<lambda>a b. toward side (far side a) (near side b)) ts" by (rule successive_steps) (rule step)
  show "case entry of None \<Rightarrow> toward side (dec_val stop) (near side (hd ts)) | Some e \<Rightarrow> toward side (dec_val stop) (near side e) \<and> toward side (far side e) (near side (hd ts))"
    using assms(4) first by (cases entry) simp_all
qed

lemma loma_geometry_Inr:
  assumes "assertStopGeometry side stop (Some e) = Inr ()" "mapM (loma_target_check side e ts) (zip ts [0..<length ts]) = Inr us"
    and "price_ok stop" "range_ok e" "list_all range_ok ts" "ts \<noteq> []"
  shows "away side stop (e # ts)"
proof -
  have each: "loma_target_check side e ts (ts ! i, i) = Inr (us ! i)" "range_ok (ts ! i)" if "i < length ts" for i
    using indexed_results(2) [OF assms(2) that] assms(5) that by (simp_all add: list_all_length)
  have "toward side (far side e) (near side (hd ts))"
    using each [of 0] assms(4,6) by (intro ranges_apart) (auto simp: loma_target_check_def signal_inversion hd_conv_nth)
  moreover have "toward side (far side (ts ! i)) (near side (ts ! Suc i))" if "Suc i < length ts" for i
    using each [OF that] each(2) [of i] that by (intro ranges_apart) (auto simp: loma_target_check_def signal_inversion Let_def)
  ultimately show ?thesis using range_targets_away [of ts "Some e" side stop] stop_geometry_Inr [OF assms(1,3,4)] assms(4-6) by (simp add: option_list_def)
qed

lemma contract_geometry_Inr:
  assumes "assertContractGeometry d side entry stop ts = Inr ()"
    and "cg_stopOnLossSide (sc_geometry d)" "cg_targetsOnProfitSide (sc_geometry d)" "cg_orderedTargets (sc_geometry d)"
    and "price_ok stop" "list_all range_ok ts" "case entry of None \<Rightarrow> True | Some e \<Rightarrow> range_ok e"
  shows "away side stop (option_list entry @ ts)"
proof -
  define first where "first = (case entry of Some e \<Rightarrow> e | None \<Rightarrow> hd ts)"
  have ne: "ts \<noteq> []" using assms(1) by (auto simp: assertContractGeometry_def signal_inversion)
  then obtain us where us: "assertStopGeometry side stop (Some first) = Inr ()" "mapM (contract_target_check (sc_geometry d) side entry ts) (zip ts [0..<length ts]) = Inr us"
    using assms(1,2) by (cases ts; cases entry) (auto simp: assertContractGeometry_def rbind_Inr_iff Let_def first_def simp del: upt_Suc)
  have each: "contract_target_check (sc_geometry d) side entry ts (ts ! i, i) = Inr (us ! i)" "range_ok (ts ! i)" if "i < length ts" for i
    using indexed_results(2) [OF us(2) that] assms(6) that by (simp_all add: list_all_length)
  have "range_ok first" using assms(6,7) ne by (cases entry) (auto simp: first_def list_all_iff)
  then have "toward side (dec_val stop) (near side first)" by (rule stop_geometry_Inr [OF us(1) assms(5)])
  moreover have "toward side (far side e) (near side (hd ts))" if "entry = Some e" for e
    using each [of 0] assms(3,7) ne that by (intro ranges_apart) (auto simp: contract_target_check_def signal_inversion hd_conv_nth)
  moreover have "toward side (far side (ts ! i)) (near side (ts ! Suc i))" if "Suc i < length ts" for i
    using each [OF that] each(2) [of i] assms(4) that
    by (intro ranges_apart) (auto simp: contract_target_check_def assertOrderedContractTarget_def signal_inversion)
  ultimately show ?thesis using assms(6,7) ne by (intro range_targets_away) (auto simp: first_def)
qed

text \<open>What is required of every executable signal, whatever its schema, and the order of its prices.\<close>

definition entry_ranges :: "signal_entry \<Rightarrow> decimal_range list" where
  "entry_ranges entry = (case entry of Range_entry e \<Rightarrow> [e] | _ \<Rightarrow> [])"

definition signal_ok :: "executable_signal \<Rightarrow> bool" where
  "signal_ok s \<longleftrightarrow> quoted_pair (sig_symbol s) \<and> price_ok (sig_stopLoss s) \<and> list_all range_ok (entry_ranges (sig_entry s) @ sig_targets s) \<and>
     1 \<le> length (sig_targets s) \<and> length (sig_targets s) \<le> 20 \<and> pred_option (\<lambda>n. 1 \<le> n \<and> n \<le> 125) (sig_suggestedLeverage s) \<and>
     pred_option (\<lambda>r. price_ok r \<and> dec_val r \<le> 100) (sig_suggestedRiskPercent s) \<and> pred_option price_ok (sig_averagingPrice s)"

definition signal_ordered :: "executable_signal \<Rightarrow> bool" where
  "signal_ordered s \<longleftrightarrow> away (sig_action s) (sig_stopLoss s) (entry_ranges (sig_entry s) @ sig_targets s)"

lemma entry_ranges_of [simp]: "entry_ranges (signal_entry_of e) = option_list e" "entry_ranges (Range_entry r) = [r]"
  by (simp_all add: entry_ranges_def signal_entry_of_def option_list_def split: option.splits)

lemma list_all_option_list [simp]: "list_all P (option_list e) \<longleftrightarrow> pred_option P e"
  by (cases e) (simp_all add: option_list_def)

lemma pair_Inr: "pairValue node True = Inr p \<Longrightarrow> quoted_pair p"
  by (auto simp: pairValue_def signal_inversion)

lemma optional_range_Inr: "optional_range node = Inr e \<Longrightarrow> pred_option range_ok e"
  unfolding optional_range_def rbind_Inr_iff by (elim exE conjE) (auto simp: rbind_Inr_iff split: option.split_asm elim: node_range_Inr)

lemma daniel_entry_Inr: "cryptodanielEntry node k = Inr e \<Longrightarrow> pred_option range_ok e"
  unfolding cryptodanielEntry_def rbind_Inr_iff by (elim exE conjE) (auto simp: rbind_Inr_iff split: option.split_asm elim: node_range_Inr)

lemma leverage_text_value: "leverage_text l \<Longrightarrow> 1 \<le> digits_val l \<and> digits_val l \<le> 125"
  using digits_val_pos [of l] by (auto simp: leverage_text_def)

lemma standard_leverage_Inr: "standard_leverage node = Inr l \<Longrightarrow> pred_option (\<lambda>n. 1 \<le> n \<and> n \<le> 125) (map_option digits_val l)"
  by (auto simp: standard_leverage_def signal_inversion leverage_text_value split: option.splits)

lemma optional_decimal_child_Inr: "optionalDecimalChild node name = Inr d \<Longrightarrow> pred_option price_ok d"
  unfolding optionalDecimalChild_def rbind_Inr_iff by (elim exE conjE) (auto simp: rbind_Inr_iff split: option.split_asm elim: signal_decimal_Inr)

lemma hundred_price: "price_ok ''100''" "dec_val ''100'' = 100"
  by code_simp+

lemma risk_check_Inr: "risk_check r = Inr () \<Longrightarrow> pred_option price_ok r \<Longrightarrow> pred_option (\<lambda>r. price_ok r \<and> dec_val r \<le> 100) r"
  using compare_prices [OF _ hundred_price(1)] by (auto simp: risk_check_def signal_inversion hundred_price rat_cmp_def split: option.splits if_splits)

lemma daniel_risk_Inr: "cryptodanielRisk node = Inr r \<Longrightarrow> pred_option (\<lambda>r. price_ok r \<and> dec_val r \<le> 100) r"
  by (auto simp: cryptodanielRisk_def rbind_Inr_iff dest: risk_check_Inr optional_decimal_child_Inr)

lemma contract_decimal_Inr: "contractDecimal node path req = Inr d \<Longrightarrow> pred_option price_ok d"
  unfolding contractDecimal_def rbind_Inr_iff by (elim exE conjE) (auto simp: rbind_Inr_iff split: option.split_asm elim: signal_decimal_Inr)

lemma optional_decimal_Inr: "optional_decimal node path = Inr d \<Longrightarrow> pred_option price_ok d"
  by (auto simp: optional_decimal_def dest: contract_decimal_Inr split: option.splits)

lemma contract_entry_Inr:
  assumes "contractEntry node d = Inr e"
  shows "pred_option range_ok e"
proof (cases e)
  case (Some r)
  obtain p q req where h: "contractDecimal node p req = Inr (Some (range_min r))" "contractDecimal node q req = Inr (Some (range_max r))"
    "compareDecimals (range_min r) (range_max r) \<le> 0"
    using assms Some unfolding contractEntry_def Let_def by (clarsimp simp: signal_inversion) (auto simp: signal_inversion split: option.split_asm)
  show ?thesis using contract_decimal_Inr [OF h(1)] contract_decimal_Inr [OF h(2)] h(3) Some
    by (auto simp: range_ok_def compare_prices rat_cmp_def split: if_splits)
qed simp

lemma target_item_Inr:
  assumes "targetItemRange item d = Inr r"
  shows "range_ok r"
proof (cases "ct_shape (sc_targets d) = Scalar_shape")
  case True
  then show ?thesis using assms by (auto simp: targetItemRange_def rbind_Inr_iff point_range_def range_ok_def dest: signal_decimal_Inr)
next
  case False
  then obtain p q where h: "contractDecimal item p True = Inr (Some (range_min r))" "contractDecimal item q True = Inr (Some (range_max r))"
    "compareDecimals (range_min r) (range_max r) \<le> 0"
    using assms unfolding targetItemRange_def by (clarsimp simp: signal_inversion) (auto simp: signal_inversion split: option.split_asm)
  show ?thesis using contract_decimal_Inr [OF h(1)] contract_decimal_Inr [OF h(2)] h(3) by (auto simp: range_ok_def compare_prices rat_cmp_def split: if_splits)
qed

lemma contract_targets_Inr:
  assumes "contractTargets node d = Inr ts" "contract_ok is_regexp d"
  shows "list_all range_ok ts" "1 \<le> length ts" "length ts \<le> 20"
proof -
  obtain items where items: "ct_minimumItems (sc_targets d) \<le> int (length items)" "int (length items) \<le> ct_maximumItems (sc_targets d)"
    "mapM (\<lambda>(item, index). rbind (if ct_sequentialIds (sc_targets d) then sequential_id item index else Inr ()) (\<lambda>_. targetItemRange item d))
      (zip items [0..<length items]) = Inr ts"
    using assms(1) unfolding contractTargets_def Let_def by (auto simp: signal_inversion split: option.splits)
  show "list_all range_ok ts" by (rule indexed_all [OF items(3)]) (auto simp: rbind_Inr_iff dest: target_item_Inr)
  have "1 \<le> ct_minimumItems (sc_targets d)" "ct_maximumItems (sc_targets d) \<le> 20" using assms(2) by (simp_all add: contract_ok_def targets_ok_def)
  then show "1 \<le> length ts" "length ts \<le> 20" using items(1,2) indexed_results(1) [OF items(3)] by auto
qed

lemma dynamic_values_Inr:
  assumes "dynamicOptionalValues node d = Inr vs"
  shows "pred_option (\<lambda>n. 1 \<le> n \<and> n \<le> 125) (map_option digits_val (dv_leverage vs))" "pred_option (\<lambda>r. price_ok r \<and> dec_val r \<le> 100) (dv_risk vs)"
    "pred_option price_ok (dv_averaging vs)"
proof -
  have h: "case dv_leverage vs of None \<Rightarrow> True | Some l \<Rightarrow> leverage_text l" "optional_decimal node (sc_riskPercentPath d) = Inr (dv_risk vs)" "risk_check (dv_risk vs) = Inr ()"
    "optional_decimal node (sc_averagingPricePath d) = Inr (dv_averaging vs)"
    using assms by (auto simp: dynamicOptionalValues_def signal_inversion)
  show "pred_option (\<lambda>n. 1 \<le> n \<and> n \<le> 125) (map_option digits_val (dv_leverage vs))" using h(1) leverage_text_value by (auto split: option.splits)
  show "pred_option (\<lambda>r. price_ok r \<and> dec_val r \<le> 100) (dv_risk vs)" using risk_check_Inr [OF h(3) optional_decimal_Inr [OF h(2)]] .
  show "pred_option price_ok (dv_averaging vs)" using optional_decimal_Inr [OF h(4)] .
qed

lemma option_case_pred: "(case e of None \<Rightarrow> True | Some x \<Rightarrow> P x) \<longleftrightarrow> pred_option P e"
  by (cases e) simp_all

lemma points_ok: "list_all price_ok ts \<Longrightarrow> list_all range_ok (map point_range ts)"
  by (induction ts) (simp_all add: point_range_def range_ok_def)

text \<open>The common end of the two schemas with scalar targets.\<close>

lemma scalar_execution_ok:
  assumes "assertScalarGeometry action stop ts entry = Inr ()" "price_ok stop" "list_all price_ok ts" "1 \<le> length ts" "length ts \<le> 20" "pred_option range_ok entry"
    and "quoted_pair pair" "pred_option (\<lambda>n. 1 \<le> n \<and> n \<le> 125) (map_option digits_val leverage)" "pred_option price_ok averaging"
    and "pred_option (\<lambda>r. price_ok r \<and> dec_val r \<le> 100) risk"
  shows "signal_ok (scalarExecution schema action pair entry ts stop leverage averaging risk)"
    and "signal_ordered (scalarExecution schema action pair entry ts stop leverage averaging risk)"
proof -
  have "ts \<noteq> []" using assms(4) by auto
  then have "away action stop (option_list entry @ map point_range ts)"
    using scalar_geometry_Inr [OF assms(1-3)] assms(6) by (simp add: option_case_pred)
  then show "signal_ordered (scalarExecution schema action pair entry ts stop leverage averaging risk)" by (simp add: signal_ordered_def scalarExecution_def)
  show "signal_ok (scalarExecution schema action pair entry ts stop leverage averaging risk)"
    using assms points_ok [OF assms(3)] by (simp add: signal_ok_def scalarExecution_def)
qed

lemma standard_Inr:
  assumes "validateStandard node = Inr c" "vs_execution c = Some s"
  shows "signal_ok s \<and> signal_ordered s \<and> sig_action s = vs_action c \<and> sig_symbol s = vs_pair c"
proof -
  obtain action pair entry tn ts sn stop lev where h: "pairValue node True = Inr pair" "optional_range node = Inr entry" "scalarTargets tn = Inr ts"
    "signal_decimal sn ''stoploss'' = Inr stop" "standard_leverage node = Inr lev" "assertScalarGeometry action stop ts entry = Inr ()"
    "s = scalarExecution ''standard'' action pair entry ts stop lev None None" "vs_action c = action" "vs_pair c = pair"
    using assms unfolding validateStandard_def rbind_Inr_iff by auto
  show ?thesis
    using scalar_execution_ok [OF h(6) signal_decimal_Inr [OF h(4)] scalar_targets_Inr [OF h(3)] optional_range_Inr [OF h(2)] pair_Inr [OF h(1)]
        standard_leverage_Inr [OF h(5)], of None None "''standard''"] by (simp add: h(7-9) scalarExecution_def)
qed

lemma daniel_Inr:
  assumes "validateCryptoDaniel node = Inr c" "vs_execution c = Some s"
  shows "signal_ok s \<and> signal_ordered s \<and> sig_action s = vs_action c \<and> sig_symbol s = vs_pair c"
proof -
  obtain action pair k entry tn ts sn stop avg risk where h: "pairValue node True = Inr pair" "cryptodanielEntry node k = Inr entry" "scalarTargets tn = Inr ts"
    "signal_decimal sn ''stoploss'' = Inr stop" "optionalDecimalChild node ''averaging'' = Inr avg" "assertScalarGeometry action stop ts entry = Inr ()"
    "s = scalarExecution ''cryptodanielvip'' action pair entry ts stop None avg risk" "vs_action c = action" "vs_pair c = pair" "cryptodanielRisk node = Inr risk"
    using assms unfolding validateCryptoDaniel_def rbind_Inr_iff by auto
  show ?thesis
    using scalar_execution_ok [OF h(6) signal_decimal_Inr [OF h(4)] scalar_targets_Inr [OF h(3)] daniel_entry_Inr [OF h(2)] pair_Inr [OF h(1)] _
        optional_decimal_child_Inr [OF h(5)] daniel_risk_Inr [OF h(10)], of None "''cryptodanielvip''"] by (simp add: h(7-9) scalarExecution_def)
qed

lemma loma_Inr:
  assumes "validateLoma node = Inr c" "vs_execution c = Some s"
  shows "signal_ok s \<and> signal_ordered s \<and> sig_action s = vs_action c \<and> sig_symbol s = vs_pair c"
proof -
  obtain us entry en ts tn ns sn where h: "pairValue node True = Inr (sig_symbol s)" "node_range en = Inr entry" "target_nodes tn = Inr ns"
    "signal_decimal sn ''stoploss'' = Inr (sig_stopLoss s)" "assertStopGeometry (sig_action s) (sig_stopLoss s) (Some entry) = Inr ()"
    "mapM (\<lambda>(target, index). rbind (sequential_id target index) (\<lambda>_. node_range target)) (zip ns [0..<length ns]) = Inr ts"
    "mapM (loma_target_check (sig_action s) entry ts) (zip ts [0..<length ts]) = Inr us" "vs_action c = sig_action s" "vs_pair c = sig_symbol s"
    "sig_entry s = Range_entry entry" "sig_targets s = ts" "sig_suggestedLeverage s = None" "sig_suggestedRiskPercent s = None" "sig_averagingPrice s = None"
    using assms unfolding validateLoma_def rbind_Inr_iff by auto
  have ts: "list_all range_ok ts" by (rule indexed_all [OF h(6)]) (auto simp: rbind_Inr_iff intro: node_range_Inr)
  have len: "1 \<le> length ts" "length ts \<le> 20" using target_nodes_Inr [OF h(3)] indexed_results(1) [OF h(6)] by auto
  then have "ts \<noteq> []" by auto
  then have "away (sig_action s) (sig_stopLoss s) (entry # ts)"
    by (rule loma_geometry_Inr [OF h(5) h(7) signal_decimal_Inr [OF h(4)] node_range_Inr [OF h(2)] ts])
  then show ?thesis using ts len signal_decimal_Inr [OF h(4)] node_range_Inr [OF h(2)] pair_Inr [OF h(1)] by (simp add: signal_ok_def signal_ordered_def h(8-14))
qed

lemma legacy_Inr:
  assumes "validateLegacyParserSchema node schema = Inr c" "vs_execution c = Some s"
  shows "signal_ok s \<and> signal_ordered s \<and> sig_action s = vs_action c \<and> sig_symbol s = vs_pair c"
proof -
  have "vs_execution c = None" if "validateSpeculant node = Inr c" using that unfolding validateSpeculant_def rbind_Inr_iff by auto
  then show ?thesis using assms standard_Inr daniel_Inr loma_Inr unfolding validateLegacyParserSchema_def by (auto split: if_splits)
qed

definition strict_geometry :: "contract_geometry \<Rightarrow> bool" where
  "strict_geometry g \<longleftrightarrow> cg_stopOnLossSide g \<and> cg_targetsOnProfitSide g \<and> cg_orderedTargets g"

lemma dynamic_pair_Inr: "dynamic_pair node d = Inr p \<Longrightarrow> quoted_pair p"
  unfolding dynamic_pair_def rbind_Inr_iff by (elim exE conjE) (auto simp: signal_inversion split: option.split_asm elim: pair_Inr)

lemma dynamic_Inr:
  assumes "validateDynamicContract is_regexp number_text matches node input = Inr c" "vs_execution c = Some s"
    and "validateSignalContractDefinition is_regexp number_text input = Inr d"
  shows "signal_ok s \<and> sig_action s = vs_action c \<and> sig_symbol s = vs_pair c \<and> (strict_geometry (sc_geometry d) \<longrightarrow> signal_ordered s)"
proof -
  obtain entry vals where h: "dynamic_pair node d = Inr (sig_symbol s)" "contractEntry node d = Inr entry" "contractTargets node d = Inr (sig_targets s)"
    "contractDecimal node (sc_stopLossPath d) True = Inr (Some (sig_stopLoss s))" "dynamicOptionalValues node d = Inr vals"
    "assertContractGeometry d (sig_action s) entry (sig_stopLoss s) (sig_targets s) = Inr ()" "vs_action c = sig_action s" "vs_pair c = sig_symbol s"
    "sig_entry s = signal_entry_of entry" "sig_suggestedLeverage s = map_option digits_val (dv_leverage vals)" "sig_suggestedRiskPercent s = dv_risk vals"
    "sig_averagingPrice s = dv_averaging vals"
    using assms unfolding validateDynamicContract_def rbind_Inr_iff
    by (elim exE conjE) (auto simp: signal_inversion split: option.split_asm)
  note ts = contract_targets_Inr [OF h(3) contract_Inr [OF assms(3)]] and entry = contract_entry_Inr [OF h(2)]
  have stop: "price_ok (sig_stopLoss s)" using contract_decimal_Inr [OF h(4)] by simp
  have "signal_ordered s" if "strict_geometry (sc_geometry d)"
    unfolding signal_ordered_def h(9) entry_ranges_of
    using that by (intro contract_geometry_Inr [OF h(6)]) (simp_all add: strict_geometry_def stop ts entry option_case_pred)
  then show ?thesis using ts entry stop dynamic_pair_Inr [OF h(1)] dynamic_values_Inr [OF h(5)] by (simp add: signal_ok_def h(7-12))
qed

lemma accepted_signal_sound:
  assumes "validateSignalXml is_regexp number_text matches xml templateName selected = Inr v" "vs_execution v = Some s"
  shows "signal_ok s \<and> sig_action s = vs_action v \<and> sig_symbol s = vs_pair v \<and> sig_schema s = vs_schema v \<and> selected \<noteq> Some None \<and>
    ((\<forall>input d. executableDefinition is_regexp number_text (Option.bind selected id) = Inr (Some input) \<and>
        validateSignalContractDefinition is_regexp number_text input = Inr d \<longrightarrow> strict_geometry (sc_geometry d)) \<longrightarrow> signal_ordered s)"
proof -
  define sel where "sel = Option.bind selected id"
  define p where "p = (case sel of Some e \<Rightarrow> es_parserSchema e | None \<Rightarrow> schemaForTemplate templateName)"
  obtain node definition' c where h: "executableDefinition is_regexp number_text sel = Inr definition'"
    "(case definition' of
        Some input \<Rightarrow> rbind (validateSignalContractDefinition is_regexp number_text input) (\<lambda>d.
          rbind (assertAllowedIdAttributes (ct_itemTag (sc_targets d)) node) (\<lambda>_. validateDynamicContract is_regexp number_text matches node (js_of_contract d)))
      | None \<Rightarrow> rbind (validateLegacyParserSchema node p) (\<lambda>common. rbind (assertAllowedIdAttributes ''target'' node) (\<lambda>_. Inr common))) = Inr c"
    "vs_execution v = (if selected = Some None then None else map_option (\<lambda>e. e\<lparr>sig_schema := vs_schema v\<rparr>) (vs_execution c))"
    "vs_action v = vs_action c" "vs_pair v = vs_pair c"
    using assms(1) unfolding validateSignalXml_def Let_def rbind_Inr_iff sel_def [symmetric] p_def [symmetric]
    by (elim exE conjE) (auto simp: signal_common.extend_def)
  obtain e where e: "selected \<noteq> Some None" "vs_execution c = Some e" "s = e\<lparr>sig_schema := vs_schema v\<rparr>" using h(3) assms(2) by (cases "vs_execution c") (auto split: if_splits)
  have keep: "signal_ok s = signal_ok e" "signal_ordered s = signal_ordered e" by (simp_all add: e(3) signal_ok_def signal_ordered_def)
  show ?thesis
  proof (cases definition')
    case None
    then have "validateLegacyParserSchema node p = Inr c" using h(2) by (auto simp: rbind_Inr_iff)
    then show ?thesis using legacy_Inr [OF _ e(2)] keep e(1,3) h(4,5) by simp
  next
    case (Some input)
    then obtain d where d: "validateSignalContractDefinition is_regexp number_text input = Inr d"
      "validateDynamicContract is_regexp number_text matches node (js_of_contract d) = Inr c" using h(2) by (auto simp: rbind_Inr_iff)
    have "signal_ok e \<and> sig_action e = vs_action c \<and> sig_symbol e = vs_pair c \<and> (strict_geometry (sc_geometry d) \<longrightarrow> signal_ordered e)"
      by (rule dynamic_Inr [OF d(2) e(2) contract_back [OF contract_Inr [OF d(1)]]])
    then show ?thesis using keep e(1,3) h(1,4,5) d(1) Some unfolding sel_def by auto
  qed
qed

text \<open>
  C22: the executable signal of an accepted XML text is well formed and its prices stand in order. Its symbol has a dollar quote asset, its
  stop loss, its entry and its one to twenty targets are positive prices in ranges that are not inverted, the suggested leverage is between 1
  and 125 and the suggested risk at most 100 percent; side, symbol and schema are those of the validated signal. Under the fixed schemas, and
  under a contract that asks for all checks of the geometry, the stop loss lies strictly on the loss side of the entry (without one, of the
  first target), and entry and targets follow each other strictly in the direction of the profit, without overlap. A null schema executes nothing.
\<close>

theorem accepted_signal_executable:
  assumes "validateSignalXml is_regexp number_text matches xml templateName selected = Inr v" "vs_execution v = Some s"
  shows "signal_ok s \<and> sig_action s = vs_action v \<and> sig_symbol s = vs_pair v \<and> sig_schema s = vs_schema v \<and> selected \<noteq> Some None \<and>
    ((\<forall>input d. executableDefinition is_regexp number_text (Option.bind selected id) = Inr (Some input) \<and>
        validateSignalContractDefinition is_regexp number_text input = Inr d \<longrightarrow> strict_geometry (sc_geometry d)) \<longrightarrow> signal_ordered s)"
  by (rule accepted_signal_sound [OF assms])

definition sample_xml :: string where
  "sample_xml = ''<signal><action>LONG</action><pair>BTCUSDT</pair><entry_range><min>99.5</min><max>100</max></entry_range><targets><target id='' @ [CHR 0x22] @ ''1'' @
     [CHR 0x22] @ ''>101</target><target id='' @ [CHR 0x22] @ ''2'' @ [CHR 0x22] @ ''>102.5</target></targets><stoploss>98</stoploss></signal>''"

theorem accepted_signal_executable_witness:
  "\<exists>v s. validateSignalXml (\<lambda>_. True) (\<lambda>_. []) (\<lambda>_ _. None) sample_xml None None = Inr v \<and> vs_execution v = Some s \<and> sig_schema s = ''standard'' \<and>
     signal_ok s \<and> signal_ordered s"
proof -
  have "case validateSignalXml (\<lambda>_. True) (\<lambda>_. []) (\<lambda>_ _. None) sample_xml None None of Inr v \<Rightarrow> vs_execution v \<noteq> None \<and> vs_schema v = ''standard'' | Inl _ \<Rightarrow> False"
    by code_simp
  then obtain v s where v: "validateSignalXml (\<lambda>_. True) (\<lambda>_. []) (\<lambda>_ _. None) sample_xml None None = Inr v" "vs_execution v = Some s" "vs_schema v = ''standard''"
    by (auto split: sum.split_asm)
  show ?thesis using accepted_signal_executable [OF v(1,2)] v by (auto simp: executableDefinition_def)
qed

end
