(* ===== verification/Signal_Reader.thy ===== *)
theory Signal_Reader
  imports Signal_Schema
begin

text \<open>
  The strict XML reader of \<^verbatim>\<open>src/signal_schema.ts\<close> against the text of a tree: nothing of the source is lost between its tokens, and
  the reader takes the text of every well formed tree back to that tree.
\<close>

section \<open>The text of a tree\<close>

definition open_tag :: "string \<Rightarrow> int option \<Rightarrow> string" where
  "open_tag name i = CHR ''<'' # (name @ (case i of None \<Rightarrow> [] | Some k \<Rightarrow> '' id='' @ [CHR 0x22] @ show_nonneg k @ [CHR 0x22])) @ [CHR ''>'']"

definition close_tag :: "string \<Rightarrow> string" where
  "close_tag name = CHR ''<'' # (CHR ''/'' # name) @ [CHR ''>'']"

fun xml_text :: "xml_node \<Rightarrow> string" where
  "xml_text (Xml_Node name i t cs) = open_tag name i @ t @ concat (map xml_text cs) @ close_tag name"

fun xml_tokens :: "xml_node \<Rightarrow> string list" where
  "xml_tokens (Xml_Node name i t cs) = open_tag name i # (if t = [] then [] else [t]) @ concat (map xml_tokens cs) @ [close_tag name]"

fun xml_wf :: "xml_node \<Rightarrow> bool" where
  "xml_wf (Xml_Node name i t cs) \<longleftrightarrow> xml_name name \<and> pred_option (\<lambda>k. 1 \<le> k) i \<and> \<not> list_ex mark_char t \<and> list_all xml_wf cs"


section \<open>Splitting it into tokens\<close>

text \<open>The tokens are the source: the final comparison of \<^verbatim>\<open>tokenizeXml\<close> can not fail.\<close>

lemma split_tokens_join: "split_tokens s = Inr ts \<Longrightarrow> concat ts = s"
proof (induction s arbitrary: ts rule: split_tokens.induct)
  case (2 c s)
  show ?case
  proof (cases "c = CHR ''<''")
    case True
    then obtain d rest us where h: "dropWhile (\<lambda>d. d \<noteq> CHR ''>'') s = d # rest" "split_tokens rest = Inr us" "ts = (c # takeWhile (\<lambda>d. d \<noteq> CHR ''>'') s @ [d]) # us"
      using "2.prems" by (auto simp: rbind_Inr_iff signal_error_def split: list.split_asm)
    then show ?thesis using "2.IH"(1) [OF True h(1,2)] takeWhile_dropWhile_id [of "\<lambda>d. d \<noteq> CHR ''>''" s] by (simp only: concat.simps) simp
  next
    case False
    then obtain us where us: "split_tokens (dropWhile (\<lambda>d. d \<noteq> CHR ''<'') s) = Inr us" "ts = (c # takeWhile (\<lambda>d. d \<noteq> CHR ''<'') s) # us"
      using "2.prems" by (auto simp: rbind_Inr_iff)
    then show ?thesis using "2.IH"(2) [OF False us(1)] by simp
  qed
qed simp

lemma split_tag:
  assumes "CHR ''>'' \<notin> set body" "split_tokens rest = Inr ts"
  shows "split_tokens ((CHR ''<'' # body @ [CHR ''>'']) @ rest) = Inr ((CHR ''<'' # body @ [CHR ''>'']) # ts)"
proof -
  have "takeWhile (\<lambda>d. d \<noteq> CHR ''>'') (body @ CHR ''>'' # rest) = body" "dropWhile (\<lambda>d. d \<noteq> CHR ''>'') (body @ CHR ''>'' # rest) = CHR ''>'' # rest"
    using assms(1) by (simp_all add: takeWhile_append dropWhile_append)
  then show ?thesis using assms(2) by simp
qed

lemma split_text:
  assumes "t \<noteq> []" "CHR ''<'' \<notin> set t" "prefix ''<'' rest" "split_tokens rest = Inr ts"
  shows "split_tokens (t @ rest) = Inr (t # ts)"
proof -
  obtain c u where t: "t = c # u" using assms(1) by (cases t) auto
  obtain r where r: "rest = CHR ''<'' # r" using assms(3) by (auto simp: prefix_def)
  have "takeWhile (\<lambda>d. d \<noteq> CHR ''<'') (u @ rest) = u" "dropWhile (\<lambda>d. d \<noteq> CHR ''<'') (u @ rest) = rest"
    using assms(2) by (simp_all add: t r takeWhile_append dropWhile_append)
  then show ?thesis using assms(2,4) by (auto simp: t)
qed

lemma plain_chars:
  assumes "name_char c"
  shows "c \<notin> set ''<>/!? =''" "\<not> is_space c"
  using assms by (auto simp: name_char_def is_digit_def is_lower_def is_space_def Let_def)

lemma not_mark: "\<not> name_char (CHR ''<'')" "\<not> name_char (CHR ''/'')" "\<not> name_char (CHR ''>'')"
  by code_simp+

lemma name_chars: "xml_name name \<Longrightarrow> \<forall>c\<in>set name. name_char c" "xml_name name \<Longrightarrow> name \<noteq> []"
  by (simp_all add: xml_name_def list_all_iff)

lemma digits_plain: "\<forall>c\<in>set (show_nonneg k). name_char c" if "1 \<le> k"
  using show_nonneg_digits [of k] that by (simp add: all_digits_def list_all_iff name_char_def)

lemma tag_bodies:
  assumes "xml_name name" "pred_option (\<lambda>k. 1 \<le> k) i"
  shows "CHR ''>'' \<notin> set (name @ (case i of None \<Rightarrow> [] | Some k \<Rightarrow> '' id='' @ [CHR 0x22] @ show_nonneg k @ [CHR 0x22]))" "CHR ''>'' \<notin> set (CHR ''/'' # name)"
  using name_chars(1) [OF assms(1)] digits_plain assms(2) plain_chars(1) [of "CHR ''>''"] by (auto split: option.splits)

lemma texts_start: "prefix ''<'' (concat (map xml_text cs) @ close_tag name @ rest)"
  by (cases cs; cases "hd cs") (auto simp: close_tag_def open_tag_def)

lemma split_xml_text: "xml_wf n \<Longrightarrow> split_tokens rest = Inr ts \<Longrightarrow> split_tokens (xml_text n @ rest) = Inr (xml_tokens n @ ts)"
proof (induction n arbitrary: rest ts rule: xml_text.induct)
  case (1 name i t cs)
  have wf: "xml_name name" "pred_option (\<lambda>k. 1 \<le> k) i" "CHR ''<'' \<notin> set t" "list_all xml_wf cs" using "1.prems"(1) by (auto simp: list_ex_iff mark_char_def)
  have close: "split_tokens (close_tag name @ rest) = Inr (close_tag name # ts)"
    unfolding close_tag_def by (rule split_tag [OF tag_bodies(2) [OF wf(1,2)] "1.prems"(2)])
  have children: "split_tokens (concat (map xml_text ds) @ tail) = Inr (concat (map xml_tokens ds) @ us)"
    if "split_tokens tail = Inr us" "set ds \<subseteq> set cs" for ds tail us
    using that(2) by (induction ds) (use "1.IH" wf(4) that(1) in \<open>auto simp: list_all_iff\<close>)
  have inner: "split_tokens (t @ concat (map xml_text cs) @ close_tag name @ rest) = Inr ((if t = [] then [] else [t]) @ concat (map xml_tokens cs) @ close_tag name # ts)"
    using children [OF close, of cs] split_text [OF _ wf(3) texts_start] by auto
  show ?case using split_tag [OF tag_bodies(1) [OF wf(1,2)] inner] by (simp add: open_tag_def)
qed


section \<open>Reading it\<close>

lemma not_name: "\<not> name_char (CHR ''>'')" "\<not> name_char (CHR '' '')"
  by code_simp+

lemma name_taken:
  assumes "xml_name name" "\<not> name_char c"
  shows "takeWhile name_char (name @ c # rest) = name" "dropWhile name_char (name @ c # rest) = c # rest"
  using name_chars(1) [OF assms(1)] assms(2) by (simp_all add: takeWhile_append dropWhile_append)

lemma digits_taken:
  assumes "1 \<le> k"
  shows "takeWhile is_digit (show_nonneg k @ CHR 0x22 # rest) = show_nonneg k" "dropWhile is_digit (show_nonneg k @ CHR 0x22 # rest) = CHR 0x22 # rest"
  using show_nonneg_digits [of k] assms by (simp_all add: takeWhile_append dropWhile_append all_digits_def list_all_iff is_digit_def)

lemma opening_back:
  assumes "xml_name name" "pred_option (\<lambda>k. 1 \<le> k) i"
  shows "opening_tag (open_tag name i) = Some (name, i)" "closing_tag (open_tag name i) = None"
proof -
  show "opening_tag (open_tag name i) = Some (name, i)"
    using assms show_nonneg_hd [of "the i"] by (cases i) (simp_all add: opening_tag_def open_tag_def Let_def name_taken not_name digits_taken)
  have "hd name \<noteq> CHR ''/''" "name \<noteq> []" using name_chars [OF assms(1)] plain_chars(1) [of "hd name"] by auto
  then show "closing_tag (open_tag name i) = None" by (cases name) (simp_all add: closing_tag_def open_tag_def)
qed

lemma closing_back: "xml_name name \<Longrightarrow> closing_tag (close_tag name) = Some name"
  using name_taken [OF _ not_name(1), of name "[]"] by (simp add: closing_tag_def close_tag_def Let_def)

text \<open>A finished element in the state of the parser.\<close>

fun attach :: "xml_node \<Rightarrow> xml_state \<Rightarrow> xml_state" where
  "attach n ([], r) = ([], Some n)"
| "attach n (p # ps, r) = (add_child n p # ps, r)"

lemma text_consumed: "\<not> list_ex mark_char t \<Longrightarrow>
    foldM consume_token (Xml_Node name i [] [] # stack, r) (if t = [] then [] else [t]) = Inr (Xml_Node name i t [] # stack, r)"
  by (cases t) (auto simp: consume_token_def appendTextToken_def signal_check_def add_text_def mark_char_def)

lemma consume_xml: "xml_wf n \<Longrightarrow> fst s \<noteq> [] \<or> snd s = None \<Longrightarrow> foldM consume_token s (xml_tokens n) = Inr (attach n s)"
proof (induction n arbitrary: s rule: xml_tokens.induct)
  case (1 name i t cs)
  have wf: "xml_name name" "pred_option (\<lambda>k. 1 \<le> k) i" "\<not> list_ex mark_char t" "list_all xml_wf cs" using "1.prems"(1) by auto
  obtain stack r where s: "s = (stack, r)" by fastforce
  have opened: "consume_token s (open_tag name i) = Inr (Xml_Node name i [] [] # stack, r)"
    using opening_back [OF wf(1,2)] "1.prems"(2) by (simp add: consume_token_def open_tag_def [of name i, unfolded append_Cons] consumeTagToken_def createXmlNode_def signal_check_def s)
  have children: "foldM consume_token (Xml_Node name i t ds # stack, r) (concat (map xml_tokens es)) = Inr (Xml_Node name i t (ds @ es) # stack, r)"
    if "set es \<subseteq> set cs" for ds es
    using that by (induction es arbitrary: ds) (use "1.IH" wf(4) in \<open>auto simp: foldM_append add_child_def list_all_iff\<close>)
  have "consume_token (Xml_Node name i t cs # stack, r) (close_tag name) = Inr (attach (Xml_Node name i t cs) s)"
    using closing_back [OF wf(1)] by (cases stack) (simp_all add: consume_token_def close_tag_def consumeTagToken_def close_element_def signal_check_def s)
  then show ?case using opened text_consumed [OF wf(3)] children [of cs "[]"] by (simp add: foldM_append del: if_split)
qed

text \<open>No forbidden pair of characters in the text of a tree.\<close>

definition good_pair :: "char \<Rightarrow> char \<Rightarrow> bool" where
  "good_pair a b \<longleftrightarrow> \<not> (a = CHR ''<'' \<and> (b = CHR ''!'' \<or> b = CHR ''?'')) \<and> \<not> (a = CHR ''/'' \<and> b = CHR ''>'')"

definition tagged :: "string \<Rightarrow> bool" where
  "tagged s \<longleftrightarrow> s \<noteq> [] \<and> hd s = CHR ''<'' \<and> last s = CHR ''>'' \<and> successively good_pair s"

lemma no_pair: "successively good_pair s \<Longrightarrow> \<not> at_some_position (\<lambda>t. take 2 t \<in> {''<!'', ''<?'', ''/>''}) s"
proof (induction s)
  case (Cons c s)
  then show ?case by (cases s) (auto simp: good_pair_def)
qed simp

lemma tagged_append: "tagged x \<Longrightarrow> tagged y \<Longrightarrow> tagged (x @ y)"
  by (auto simp: tagged_def successively_append_iff good_pair_def)

lemma tagged_between:
  assumes "tagged x" "\<not> list_ex mark_char t" "tagged y"
  shows "tagged (x @ t @ y)"
proof -
  have "successively good_pair t" using assms(2) by (induction t rule: induct_list012) (auto simp: good_pair_def mark_char_def)
  then show ?thesis using assms by (auto simp: tagged_def successively_append_iff good_pair_def)
qed

lemma tagged_tags:
  assumes "xml_name name" "pred_option (\<lambda>k. 1 \<le> k) i"
  shows "tagged (open_tag name i)" "tagged (close_tag name)"
proof -
  define body where "body = name @ (case i of None \<Rightarrow> [] | Some k \<Rightarrow> '' id='' @ [CHR 0x22] @ show_nonneg k @ [CHR 0x22])"
  have plain: "\<forall>c\<in>set body. c \<notin> set ''</>''" "\<forall>c\<in>set name. c \<notin> set ''</>''"
    using name_chars(1) [OF assms(1)] digits_plain [of "the i"] assms(2) not_mark unfolding body_def by (auto split: option.splits)
  have inner: "successively good_pair (b @ [CHR ''>''])" if "\<forall>c\<in>set b. c \<notin> set ''</>''" for b using that
    by (induction b rule: induct_list012) (auto simp: good_pair_def)
  have first: "body \<noteq> []" "hd body = hd name" "name \<noteq> []" "hd name \<notin> set ''!?''"
    using name_chars [OF assms(1)] plain_chars(1) [of "hd name"] by (auto simp: body_def)
  show "tagged (open_tag name i)" using inner [OF plain(1)] first
    unfolding open_tag_def body_def [symmetric] by (cases body) (auto simp: tagged_def successively_Cons good_pair_def)
  show "tagged (close_tag name)" using inner [OF plain(2)] first(3) plain(2) unfolding close_tag_def
    by (cases name) (auto simp: tagged_def successively_Cons good_pair_def)
qed

lemma tagged_text: "xml_wf n \<Longrightarrow> tagged (xml_text n)"
proof (induction n rule: xml_text.induct)
  case (1 name i t cs)
  have "tagged (concat (map xml_text ds) @ close_tag name)" if "set ds \<subseteq> set cs" for ds
    using that by (induction ds) (use "1" in \<open>auto simp: list_all_iff tagged_tags intro: tagged_append\<close>)
  then show ?case using "1.prems" by (auto intro!: tagged_between tagged_tags)
qed

text \<open>
  The strict reader inverts the printing of a tree. The text of a tree whose root is a signal without an id, whose names and
  ids are well formed and whose texts hold no angle bracket, is read back as exactly that tree, whatever its depth, as long as it fits
  into 64 KiB.
\<close>

theorem parseXml_print:
  assumes "xml_wf n" "xn_name n = ''signal''" "xn_id n = None" "int (length (xml_text n)) \<le> 65536"
  shows "parseXml (xml_text n) = Inr n"
proof -
  obtain t cs where n: "n = Xml_Node ''signal'' None t cs" using assms(2,3) by (cases n) auto
  note tag = tagged_text [OF assms(1)]
  have "js_trim (xml_text n) = xml_text n" using tag by (intro js_trim_id) (auto simp: tagged_def is_space_def)
  moreover have "prefix ''<signal>'' (xml_text n)" "suffix ''</signal>'' (xml_text n)" by (simp_all add: n open_tag_def close_tag_def suffix_def)
  moreover have "\<not> at_some_position (\<lambda>t. take 2 t \<in> {''<!'', ''<?'', ''/>''}) (xml_text n)" using tag by (intro no_pair) (simp add: tagged_def)
  moreover have "split_tokens (xml_text n) = Inr (xml_tokens n)" using split_xml_text [OF assms(1), of "[]" "[]"] by simp
  ultimately have "tokenizeXml (xml_text n) = Inr (xml_tokens n)" using assms(4) tag by (simp add: tokenizeXml_def Let_def signal_check_def tagged_def del: at_some_position.simps)
  then show ?thesis using consume_xml [OF assms(1), of "([], None)"] by (simp add: parseXml_def finish_parse_def n)
qed

theorem parseXml_print_witness:
  "parseXml (xml_text (Xml_Node ''signal'' None '' '' [Xml_Node ''pair'' None ''BTCUSDT'' [], Xml_Node ''targets'' None [] [Xml_Node ''target'' (Some 12) ''1.5/2'' []]])) =
     Inr (Xml_Node ''signal'' None '' '' [Xml_Node ''pair'' None ''BTCUSDT'' [], Xml_Node ''targets'' None [] [Xml_Node ''target'' (Some 12) ''1.5/2'' []]])"
proof -
  have "xml_name ''signal''" "xml_name ''pair''" "xml_name ''targets''" "xml_name ''target''" "show_nonneg 12 = ''12''" by code_simp+
  then show ?thesis by (intro parseXml_print) (simp_all add: mark_char_def open_tag_def close_tag_def)
qed

end
