(* ===== verification/Signal_Plan.thy ===== *)
theory Signal_Plan
  imports Signal_Schema Trading_Risk
begin

text \<open>
  From a validated signal to the orders of its plan: the planner rounds the prices of the signal to the tick of the market, and the
  order of stop loss, entry and targets that the schema checked survives.
\<close>

section \<open>Prices on the tick\<close>

text \<open>The planner rounds exits and limit entries of a long position down and of a short position up.\<close>

definition tick_price :: "trading_side \<Rightarrow> rat \<Rightarrow> rat \<Rightarrow> rat" where
  "tick_price side tick x = (case side of LONG \<Rightarrow> of_int \<lfloor>x / tick\<rfloor> * tick | SHORT \<Rightarrow> of_int \<lceil>x / tick\<rceil> * tick)"

definition up_to :: "trading_side \<Rightarrow> rat \<Rightarrow> rat \<Rightarrow> bool" where
  "up_to side a b = (case side of LONG \<Rightarrow> a \<le> b | SHORT \<Rightarrow> b \<le> a)"

definition inside :: "rat \<Rightarrow> decimal_range \<Rightarrow> bool" where
  "inside x r \<longleftrightarrow> dec_val (range_min r) \<le> x \<and> x \<le> dec_val (range_max r)"

lemma tick_price_mono: "0 < tick \<Longrightarrow> toward side a b \<Longrightarrow> up_to side (tick_price side tick a) (tick_price side tick b)"
  by (cases side) (auto simp: tick_price_def up_to_def toward_def intro!: mult_right_mono floor_mono ceiling_mono divide_right_mono)

lemma tick_price_close:
  assumes "0 < tick"
  shows "case side of LONG \<Rightarrow> tick_price side tick x \<le> x \<and> x - tick < tick_price side tick x | SHORT \<Rightarrow> x \<le> tick_price side tick x \<and> tick_price side tick x < x + tick"
  using quantize_count_range [OF assms, of Floor x] quantize_count_range [OF assms, of Ceil x]
  by (cases side) (auto simp: tick_price_def quantize_count_def)

lemma quantize_up_value:
  assumes "quantizeDecimalUp v inc = Inr q"
  shows "0 < dec_val inc" "dec_val q = of_int \<lceil>dec_val v / dec_val inc\<rceil> * dec_val inc"
proof -
  obtain d c where d: "quantizeDecimalDown v inc = Inr d" "compareDecimal d v = Inr c" "(if c = 0 then Inr d else addDecimal d inc) = Inr q"
    using assms by (auto simp: quantizeDecimalUp_def rbind_Inr_iff)
  note z = quantize_Inr [OF d(1)] and c = compare_Inr [OF d(2)]
  show inc: "0 < dec_val inc" using z by simp
  define k where "k = \<lfloor>dec_val v / dec_val inc\<rfloor>"
  have k: "dec_val d = of_int k * dec_val inc" "of_int k * dec_val inc \<le> dec_val v" "dec_val v < of_int k * dec_val inc + dec_val inc"
    using z quantize_count_range [OF inc, of Floor "dec_val v"] by (simp_all add: k_def quantize_count_def)
  show "dec_val q = of_int \<lceil>dec_val v / dec_val inc\<rceil> * dec_val inc"
  proof (cases "c = 0")
    case True
    then have "dec_val q = dec_val d" "dec_val v = of_int k * dec_val inc" using d(3) c k(1) by auto
    then show ?thesis using inc k(1) by simp
  next
    case False
    then have q: "dec_val q = of_int (k + 1) * dec_val inc" using d(3) add_Inr k(1) by (auto simp: algebra_simps)
    have "dec_val d \<noteq> dec_val v" using False c by auto
    then have "of_int k < dec_val v / dec_val inc" "dec_val v / dec_val inc < of_int k + 1" using k inc by (simp_all add: pos_less_divide_eq pos_divide_less_eq algebra_simps)
    then have "\<lceil>dec_val v / dec_val inc\<rceil> = k + 1" by (intro ceiling_unique) simp_all
    then show ?thesis using q by simp
  qed
qed

text \<open>Both directions of the rounding at once.\<close>

lemma rounded_value:
  assumes "(case side of LONG \<Rightarrow> quantizeDecimalDown v inc | SHORT \<Rightarrow> quantizeDecimalUp v inc) = Inr q"
  shows "0 < dec_val inc \<and> dec_val q = tick_price side (dec_val inc) (dec_val v)"
  using assms quantize_Inr quantize_up_value by (cases side) (auto simp: tick_price_def)

lemma midpoint_Inr:
  assumes "midpointDecimal a b = Inr m"
  shows "dec_val a \<le> dec_val m" "dec_val m \<le> dec_val b" "decimal_pattern m"
proof -
  obtain c s where h: "compareDecimal a b = Inr c" "c \<le> 0" "addDecimal a b = Inr s" "divideDecimal s ''2'' 18 = Inr m"
    using assms by (auto simp: midpointDecimal_def rbind_Inr_iff split: if_splits)
  have le: "dec_val a \<le> dec_val b" and pat: "decimal_pattern a" "decimal_pattern b" using compare_Inr [OF h(1)] h(2) by (auto simp: rat_cmp_def split: if_splits)
  have two: "dec_val ''2'' = 2" by code_simp
  have m: "dec_val m = trunc_at 18 ((dec_val a + dec_val b) / 2)" using divide_Inr [OF h(4)] add_Inr [OF h(3)] two by simp
  have "trunc_at 18 (dec_val a) \<le> trunc_at 18 ((dec_val a + dec_val b) / 2)"
    using le by (simp add: trunc_at_def divide_right_mono floor_mono)
  then show "dec_val a \<le> dec_val m" using trunc_at_grid [OF dec_val_grid [OF pat(1)]] m by simp
  have "dec_val m \<le> (dec_val a + dec_val b) / 2" unfolding m by (rule trunc_at_le)
  then show upper: "dec_val m \<le> dec_val b" using le by simp
  have "canonical_decimal m" "on_grid 18 (dec_val m)" using divide_Inr [OF h(4)] m by simp_all
  then show "decimal_pattern m" using canonical_valid_iff [of m] upper dec_val_bound [OF pat(2)] by simp
qed


section \<open>Prices of a plan\<close>

lemma take_profit_price:
  assumes "take_profit_order sha256 input quantities (i, r) = Inr order"
  obtains p m where "po_price order = Some p" "dec_val p = tick_price (sig_action (tpi_signal input)) (dec_val (ms_priceTick (tpi_market input))) m" "inside m r"
proof -
  obtain m p where h: "midpointDecimal (range_min r) (range_max r) = Inr m" "po_price order = Some p"
    "(case sig_action (tpi_signal input) of LONG \<Rightarrow> quantizeDecimalDown m (ms_priceTick (tpi_market input))
       | SHORT \<Rightarrow> quantizeDecimalUp m (ms_priceTick (tpi_market input))) = Inr p"
    using assms by (auto simp: take_profit_order_def rbind_Inr_iff split: if_splits)
  show thesis using that [OF h(2)] rounded_value [OF h(3)] midpoint_Inr [OF h(1)] by (auto simp: inside_def)
qed

lemma limit_entry_price:
  assumes "quantizedEntryPrice signal strategy market = Inr price" "\<not> is_market_entry signal strategy" "sig_entry signal = Range_entry r" "range_ok r"
  obtains m where "dec_val price = tick_price (sig_action signal) (dec_val (ms_priceTick market)) m" "inside m r"
proof -
  obtain raw m where h: "entryPrice signal strategy market = Inr raw" "decimal_positive raw = Inr m"
    "(case sig_action signal of LONG \<Rightarrow> quantizeDecimalDown m (ms_priceTick market) | SHORT \<Rightarrow> quantizeDecimalUp m (ms_priceTick market)) = Inr price"
    using assms(1,2) by (auto simp: quantizedEntryPrice_def rbind_Inr_iff)
  have ends: "decimal_pattern (range_min r)" "decimal_pattern (range_max r)" "dec_val (range_min r) \<le> dec_val (range_max r)"
    using assms(4) by (simp_all add: range_ok_def price_ok_def)
  consider "midpointDecimal (range_min r) (range_max r) = Inr raw" | "raw = range_min r" | "raw = range_max r"
    using h(1) assms(2,3) by (auto simp: entryPrice_def is_market_entry_def Let_def split: if_splits range_price.splits trading_side.splits)
  then have "inside (dec_val (js_trim raw)) r"
  proof cases
    case 1
    then show ?thesis using midpoint_Inr [OF 1] by (simp add: inside_def)
  qed (use ends in \<open>simp_all add: inside_def\<close>)
  moreover have "dec_val m = dec_val (js_trim raw)" using decimal_positive_value [OF h(2)] by simp
  ultimately show thesis using that rounded_value [OF h(3)] by simp
qed

text \<open>One price inside each range of a signal whose ranges follow each other.\<close>

lemma inside_ends: "inside m r \<Longrightarrow> up_to side (near side r) m \<and> up_to side m (far side r)"
  by (cases side) (simp_all add: inside_def up_to_def near_def far_def)

lemma toward_up_to: "toward side a b \<Longrightarrow> up_to side b c \<Longrightarrow> toward side a c" "up_to side a b \<Longrightarrow> toward side b c \<Longrightarrow> toward side a c"
  by (cases side; simp add: toward_def up_to_def)+

lemma chain_inside:
  assumes "successively (\<lambda>a b. toward side (far side a) (near side b)) rs" "list_all2 inside ms rs" "rs \<noteq> [] \<Longrightarrow> toward side x (near side (hd rs))"
  shows "successively (toward side) (x # ms)"
  using assms
proof (induction rs arbitrary: x ms)
  case (Cons r rs)
  obtain m ms' where ms: "ms = m # ms'" "inside m r" "list_all2 inside ms' rs" using Cons.prems(2) by (auto simp: list_all2_Cons2)
  have step: "toward side m (near side (hd rs))" if "rs \<noteq> []"
    using Cons.prems(1) that by (intro toward_up_to(2) [OF conjunct2 [OF inside_ends [OF ms(2)]]]) (auto simp: successively_Cons)
  have "successively (toward side) (m # ms')" by (rule Cons.IH [OF _ ms(3) step]) (use Cons.prems(1) in \<open>auto simp: successively_Cons\<close>)
  moreover have "toward side x m" using Cons.prems(3) inside_ends [OF ms(2)] toward_up_to(1) by auto
  ultimately show ?case by (simp add: ms(1))
qed simp

lemma away_inside:
  assumes "away side stop rs" "list_all2 inside ms rs"
  shows "sorted_wrt (toward side) (dec_val stop # ms)"
proof -
  have "transp (toward side)" by (cases side) (auto simp: transp_def toward_def)
  then show ?thesis using chain_inside [of side rs ms "dec_val stop"] assms by (simp add: away_def successively_conv_sorted_wrt)
qed

lemma ticks_ordered: "0 < tick \<Longrightarrow> sorted_wrt (toward side) xs \<Longrightarrow> sorted_wrt (up_to side) (map (tick_price side tick) xs)"
  by (auto simp: sorted_wrt_map intro: sorted_wrt_mono_rel [rotated] tick_price_mono)


section \<open>From the signal to the plan\<close>

lemma plan_entry_price:
  assumes "createTradingPlan sha256 clock input = Inr plan" "\<not> is_market_entry (tpi_signal input) (tpi_strategy input)" "sig_entry (tpi_signal input) = Range_entry r" "range_ok r"
  obtains m where "dec_val (tp_entryPrice plan) = tick_price (sig_action (tpi_signal input)) (dec_val (ms_priceTick (tpi_market input))) m" "inside m r"
proof -
  obtain price and boundary :: "entry_price_boundary option" where h: "quantizedEntryPrice (tpi_signal input) (tpi_strategy input)
      (case boundary of None \<Rightarrow> tpi_market input | Some b \<Rightarrow> (tpi_market input)\<lparr>ms_markPrice := eb_referencePrice b\<rparr>) = Inr price" "tp_entryPrice plan = price"
    using assms(1) unfolding createTradingPlan_def Let_def by (auto simp: rbind_Inr_iff)
  have "ms_priceTick (case boundary of None \<Rightarrow> tpi_market input | Some b \<Rightarrow> (tpi_market input)\<lparr>ms_markPrice := eb_referencePrice b\<rparr>) = ms_priceTick (tpi_market input)"
    by (cases boundary) simp_all
  then show thesis using limit_entry_price [OF h(1) assms(2-4)] that h(2) by metis
qed

lemma plan_orders_prices:
  assumes "plannedOrders sha256 input entry stop quantity allocations boundary = Inr orders"
  obtains entry_order' stop_order' tps prices ms where "orders = entry_order' # stop_order' # tps" "po_triggerPrice stop_order' = Some stop" "map po_price tps = map Some prices"
    "map dec_val prices = map (tick_price (sig_action (tpi_signal input)) (dec_val (ms_priceTick (tpi_market input)))) ms"
    "list_all2 inside ms (sig_targets (tpi_signal input))"
proof -
  obtain quantities tps where h: "mapM (take_profit_order sha256 input quantities) (enumerate 0 (sig_targets (tpi_signal input))) = Inr tps"
    "orders = entry_order sha256 input entry quantity boundary # stop_order sha256 input stop quantity # tps"
    using assms by (auto simp: plannedOrders_def rbind_Inr_iff)
  define n where "n = length (sig_targets (tpi_signal input))"
  have len: "length tps = n" using mapM_length [OF h(1)] by (simp add: n_def)
  have "\<exists>p m. po_price (tps ! i) = Some p \<and> dec_val p = tick_price (sig_action (tpi_signal input)) (dec_val (ms_priceTick (tpi_market input))) m \<and>
      inside m (sig_targets (tpi_signal input) ! i)" if "i < n" for i
  proof -
    have "take_profit_order sha256 input quantities (i, sig_targets (tpi_signal input) ! i) = Inr (tps ! i)"
      using h(1) that by (auto simp: mapM_Inr_iff list_all2_conv_all_nth n_def nth_enumerate_eq)
    then show ?thesis by (rule take_profit_price) blast
  qed
  then obtain P M where pm: "\<And>i. i < n \<Longrightarrow> po_price (tps ! i) = Some (P i)"
    "\<And>i. i < n \<Longrightarrow> dec_val (P i) = tick_price (sig_action (tpi_signal input)) (dec_val (ms_priceTick (tpi_market input))) (M i)"
    "\<And>i. i < n \<Longrightarrow> inside (M i) (sig_targets (tpi_signal input) ! i)" by metis
  show thesis
  proof (rule that [OF h(2), where prices = "map P [0..<n]" and ms = "map M [0..<n]"])
    show "map po_price tps = map Some (map P [0..<n])" using pm(1) len by (intro nth_equalityI) simp_all
    show "list_all2 inside (map M [0..<n]) (sig_targets (tpi_signal input))" using pm(3) by (simp add: list_all2_conv_all_nth n_def)
  qed (simp_all add: stop_order_def pm(2))
qed

text \<open>A chain through all ranges of a signal, with or without its entry.\<close>

lemma signal_chain:
  assumes "signal_ordered s" "signal_ok s" "list_all2 inside ms (sig_targets s)"
  shows "sorted_wrt (toward (sig_action s)) (dec_val (sig_stopLoss s) # ms)"
    and "\<And>r m. sig_entry s = Range_entry r \<Longrightarrow> inside m r \<Longrightarrow> sorted_wrt (toward (sig_action s)) (dec_val (sig_stopLoss s) # m # ms)"
proof -
  have away: "away (sig_action s) (sig_stopLoss s) (entry_ranges (sig_entry s) @ sig_targets s)" using assms(1) by (simp add: signal_ordered_def)
  show full: "sorted_wrt (toward (sig_action s)) (dec_val (sig_stopLoss s) # m # ms)" if "sig_entry s = Range_entry r" "inside m r" for r m
    using away_inside [OF away, of "m # ms"] assms(3) that by simp
  show "sorted_wrt (toward (sig_action s)) (dec_val (sig_stopLoss s) # ms)"
  proof (cases "sig_entry s")
    case Market_entry
    then show ?thesis using away_inside [OF away, of ms] assms(3) by (simp add: entry_ranges_def)
  next
    case (Range_entry r)
    then have "inside (dec_val (range_min r)) r" using assms(2) by (simp add: signal_ok_def inside_def range_ok_def)
    then show ?thesis using full [OF Range_entry] by auto
  qed
qed

text \<open>
  C25: the order of the prices survives from the message to the orders. A plan for the executable signal of an accepted XML text, under a
  fixed schema or a contract with all checks of the geometry, has its side and symbol, and the strategy allows its schema. The trigger of the
  stop, the price of a limit entry and the prices of the take-profits, one per target, follow each other in the direction of the profit;
  no rounding to the tick turns two of them around, and each take-profit is less than one tick away from its target range, on the side
  of the entry.
\<close>

theorem signal_order_survives_planning:
  assumes "validateSignalXml is_regexp number_text matches xml templateName selected = Inr v" "vs_execution v = Some s"
    and "\<And>input d. executableDefinition is_regexp number_text (Option.bind selected id) = Inr (Some input) \<Longrightarrow>
      validateSignalContractDefinition is_regexp number_text input = Inr d \<Longrightarrow> strict_geometry (sc_geometry d)"
    and "createTradingPlan sha256 clock request = Inr plan" "tpi_signal request = s"
  shows "tp_side plan = vs_action v \<and> tp_symbol plan = vs_pair v \<and> vs_schema v \<in> set (st_allowedSignalSchemas (tpi_strategy request)) \<and>
    (\<exists>entry stop targets prices. tp_orders plan = entry # stop # targets \<and> po_triggerPrice stop = Some (tp_stopPrice plan) \<and> map po_price targets = map Some prices \<and>
      sorted_wrt (up_to (tp_side plan)) (map dec_val (tp_stopPrice plan # (if is_market_entry s (tpi_strategy request) then [] else [tp_entryPrice plan]) @ prices)) \<and>
      list_all2 (\<lambda>p r. case tp_side plan of
          LONG \<Rightarrow> dec_val (range_min r) - dec_val (ms_priceTick (tpi_market request)) < dec_val p \<and> dec_val p \<le> dec_val (range_max r)
        | SHORT \<Rightarrow> dec_val (range_min r) \<le> dec_val p \<and> dec_val p < dec_val (range_max r) + dec_val (ms_priceTick (tpi_market request))) prices (sig_targets s))"
proof -
  define tick where "tick = dec_val (ms_priceTick (tpi_market request))"
  have ok: "signal_ok s" "sig_action s = vs_action v" "sig_symbol s = vs_pair v" "sig_schema s = vs_schema v" "signal_ordered s"
    using accepted_signal_sound [OF assms(1,2)] assms(3) by blast+
  obtain allocations distance sizing where p: "assertStrategyAllows s (tpi_strategy request) = Inr ()" "quantizedStopPrice s (tpi_market request) = Inr (tp_stopPrice plan)"
    "tp_side plan = sig_action s" "plannedOrders sha256 request (tp_entryPrice plan) (tp_stopPrice plan) (tp_quantity plan) allocations (tp_entryPriceBoundary plan) = Inr (tp_orders plan)"
    using plan_parts [OF assms(4)] unfolding assms(5) by metis
  obtain entry stop targets prices ms where o: "tp_orders plan = entry # stop # targets" "po_triggerPrice stop = Some (tp_stopPrice plan)" "map po_price targets = map Some prices"
    "map dec_val prices = map (tick_price (sig_action s) tick) ms" "list_all2 inside ms (sig_targets s)"
    using plan_orders_prices [OF p(4)] unfolding assms(5) tick_def by metis
  have stop: "0 < tick" "dec_val (tp_stopPrice plan) = tick_price (sig_action s) tick (dec_val (sig_stopLoss s))"
    using rounded_value p(2) unfolding quantizedStopPrice_def tick_def by blast+
  note ordered = ticks_ordered [OF stop(1) signal_chain(1) [OF ok(5,1) o(5)]]
  have chain: "sorted_wrt (up_to (sig_action s)) (map dec_val (tp_stopPrice plan # (if is_market_entry s (tpi_strategy request) then [] else [tp_entryPrice plan]) @ prices))"
  proof (cases "is_market_entry s (tpi_strategy request)")
    case True
    then show ?thesis using ordered by (simp add: stop(2) o(4))
  next
    case False
    then obtain r where r: "sig_entry s = Range_entry r" by (cases "sig_entry s") (auto simp: is_market_entry_def)
    then have "range_ok r" using ok(1) by (simp add: signal_ok_def)
    then obtain m where m: "dec_val (tp_entryPrice plan) = tick_price (sig_action s) tick m" "inside m r"
      using plan_entry_price [OF assms(4)] False r unfolding assms(5) tick_def by metis
    show ?thesis using ticks_ordered [OF stop(1) signal_chain(2) [OF ok(5,1) o(5) r m(2)]] False by (simp add: stop(2) o(4) m(1))
  qed
  have len: "length prices = length ms" using arg_cong [OF o(4), of length] by simp
  have "list_all2 (\<lambda>p r. case sig_action s of LONG \<Rightarrow> dec_val (range_min r) - tick < dec_val p \<and> dec_val p \<le> dec_val (range_max r)
      | SHORT \<Rightarrow> dec_val (range_min r) \<le> dec_val p \<and> dec_val p < dec_val (range_max r) + tick) prices (sig_targets s)"
    unfolding list_all2_conv_all_nth
  proof (intro conjI allI impI)
    show "length prices = length (sig_targets s)" using len list_all2_lengthD [OF o(5)] by simp
    fix i assume i: "i < length prices"
    then have "dec_val (prices ! i) = tick_price (sig_action s) tick (ms ! i)" using arg_cong [OF o(4), of "\<lambda>l. l ! i"] len by simp
    moreover have "inside (ms ! i) (sig_targets s ! i)" using o(5) i len by (simp add: list_all2_conv_all_nth)
    ultimately show "case sig_action s of LONG \<Rightarrow> dec_val (range_min (sig_targets s ! i)) - tick < dec_val (prices ! i) \<and> dec_val (prices ! i) \<le> dec_val (range_max (sig_targets s ! i))
      | SHORT \<Rightarrow> dec_val (range_min (sig_targets s ! i)) \<le> dec_val (prices ! i) \<and> dec_val (prices ! i) < dec_val (range_max (sig_targets s ! i)) + tick"
      using tick_price_close [OF stop(1), of "sig_action s" "ms ! i"] by (cases "sig_action s") (auto simp: inside_def)
  qed
  moreover have "tp_symbol plan = sig_symbol s" using assms(4) unfolding createTradingPlan_def Let_def assms(5) by (auto simp: rbind_Inr_iff)
  moreover have "sig_schema s \<in> set (st_allowedSignalSchemas (tpi_strategy request))" using p(1) by (auto simp: assertStrategyAllows_def split: if_splits)
  ultimately show ?thesis unfolding p(3) tick_def [symmetric] ok(2-4) [symmetric] using o chain by blast
qed

definition message_xml :: string where
  "message_xml = ''<signal><action>LONG</action><pair>BTCUSDT</pair><entry_range><min>1.5</min><max>2</max></entry_range><targets><target id='' @ [CHR 0x22] @ ''1'' @
     [CHR 0x22] @ ''>3.2</target><target id='' @ [CHR 0x22] @ ''2'' @ [CHR 0x22] @ ''>4.7</target></targets><stoploss>1.2</stoploss></signal>''"

definition message_signal :: executable_signal where
  "message_signal = \<lparr>sig_schema = ''standard'', sig_action = LONG, sig_symbol = ''BTCUSDT'', sig_entry = Range_entry \<lparr>range_min = ''1.5'', range_max = ''2''\<rparr>,
     sig_targets = [point_range ''3.2'', point_range ''4.7''], sig_stopLoss = ''1.2'', sig_suggestedLeverage = None, sig_suggestedRiskPercent = None, sig_averagingPrice = None\<rparr>"

theorem signal_order_survives_planning_witness:
  "\<exists>plan entry stop targets prices. createTradingPlan (\<lambda>_. ''h'') 0 (sample_plan_input\<lparr>tpi_signal := message_signal\<rparr>) = Inr plan \<and> tp_symbol plan = ''BTCUSDT'' \<and>
     tp_orders plan = entry # stop # targets \<and> map po_price targets = map Some prices \<and> length prices = 2 \<and>
     sorted_wrt (\<le>) (map dec_val (tp_stopPrice plan # tp_entryPrice plan # prices))"
proof -
  have "case validateSignalXml (\<lambda>_. True) (\<lambda>_. []) (\<lambda>_ _. None) message_xml None None of Inr v \<Rightarrow> vs_execution v = Some message_signal | Inl _ \<Rightarrow> False"
    by code_simp
  then obtain v where v: "validateSignalXml (\<lambda>_. True) (\<lambda>_. []) (\<lambda>_ _. None) message_xml None None = Inr v" "vs_execution v = Some message_signal"
    by (auto split: sum.split_asm)
  have "case createTradingPlan (\<lambda>_. ''h'') 0 (sample_plan_input\<lparr>tpi_signal := message_signal\<rparr>) of Inr plan \<Rightarrow> tp_side plan = LONG \<and> tp_symbol plan = ''BTCUSDT'' | Inl _ \<Rightarrow> False"
    by code_simp
  then obtain plan where plan: "createTradingPlan (\<lambda>_. ''h'') 0 (sample_plan_input\<lparr>tpi_signal := message_signal\<rparr>) = Inr plan" "tp_side plan = LONG" "tp_symbol plan = ''BTCUSDT''"
    by (auto split: sum.split_asm)
  have limit: "\<not> is_market_entry message_signal (tpi_strategy sample_plan_input)" by (simp add: is_market_entry_def message_signal_def sample_plan_input_def sample_strategy_def)
  have "up_to LONG = (\<le>)" by (intro ext) (simp add: up_to_def)
  moreover have "length (sig_targets message_signal) = 2" by (simp add: message_signal_def)
  ultimately show ?thesis
    using signal_order_survives_planning [OF v(1,2) _ plan(1)] plan limit by (auto simp: executableDefinition_def dest!: list_all2_lengthD)
qed

end
