(* ===== verification/Paper_Exchange.thy ===== *)
theory Paper_Exchange
  imports Trading_Risk Trading_Strategy Contracts
begin

text \<open>
  The simulated exchange (\<^verbatim>\<open>src/paper_exchange.ts\<close>). Its state is the five tables of the database it
  owns, as lists of rows in the order of insertion. An operation returns the new tables or
  the error it throws; a throwing operation leaves the tables as they were, because every operation that
  changes more than one row runs in a transaction. The clock is an argument; random identifiers come from
  a stream, and a constraint of a table that refuses a row is an error. The raw fields hold the data
  itself where the program stores its JSON text.
\<close>

section \<open>Tables\<close>

datatype remainder_policy = Cancel_when_flat | Retain

record paper_execution_options =
  px_maximumFillQuantity :: "string option"
  px_reduceOnlyRemainder :: "remainder_policy option"

record paper_account_row =
  pa_account_id :: string
  pa_equity :: string
  pa_available_balance :: string
  pa_realized_pnl :: string
  pa_updated_at :: int

record paper_market_row =
  pm_account_id :: string
  pm_symbol :: string
  pm_mark_price :: string
  pm_price_tick :: string
  pm_quantity_step :: string
  pm_minimum_quantity :: string
  pm_minimum_notional :: string
  pm_max_leverage :: int
  pm_updated_at :: int

record paper_order_row =
  pr_exchange_order_id :: string
  pr_account_id :: string
  pr_client_order_id :: string
  pr_symbol :: string
  pr_role :: order_role
  pr_side :: order_side
  pr_order_type :: planned_order_type
  pr_status :: exchange_order_status
  pr_quantity :: string
  pr_filled_quantity :: string
  pr_average_price :: "string option"
  pr_price :: "string option"
  pr_trigger_price :: "string option"
  pr_reduce_only :: bool
  pr_target_index :: "int option"
  pr_leverage :: int
  pr_created_at :: int
  pr_updated_at :: int

record paper_position_row =
  pp_account_id :: string
  pp_symbol :: string
  pp_side :: trading_side
  pp_quantity :: string
  pp_average_entry_price :: string
  pp_margin_used :: string
  pp_realized_pnl :: string
  pp_updated_at :: int

record paper_fill_row =
  pf_exchange_fill_id :: string
  pf_exchange_order_id :: string
  pf_account_id :: string
  pf_client_order_id :: string
  pf_price :: string
  pf_quantity :: string
  pf_fee :: string
  pf_fee_asset :: "string option"
  pf_filled_at :: int
  pf_raw :: js

text \<open>The identifiers of \<^verbatim>\<open>trading_accounts\<close> are what the foreign keys of the tables refer to.\<close>

record paper_db =
  db_account_ids :: "string list"
  db_accounts :: "paper_account_row list"
  db_markets :: "paper_market_row list"
  db_orders :: "paper_order_row list"
  db_positions :: "paper_position_row list"
  db_fills :: "paper_fill_row list"
  db_uuids :: nat

text \<open>
  What the program does not determine: the random identifiers, and the order in which the database
  returns orders that the query for settlement ranks equal.
\<close>

record paper_environment =
  pe_uuid :: "nat \<Rightarrow> string"
  pe_scan :: "paper_order_row list \<Rightarrow> paper_order_row list"

definition account_row :: "paper_db \<Rightarrow> string \<Rightarrow> paper_account_row option" where
  "account_row db a = find (\<lambda>r. pa_account_id r = a) (db_accounts db)"

definition market_row :: "paper_db \<Rightarrow> string \<Rightarrow> string \<Rightarrow> paper_market_row option" where
  "market_row db a s = find (\<lambda>r. pm_account_id r = a \<and> pm_symbol r = s) (db_markets db)"

definition position_row :: "paper_db \<Rightarrow> string \<Rightarrow> string \<Rightarrow> paper_position_row option" where
  "position_row db a s = find (\<lambda>r. pp_account_id r = a \<and> pp_symbol r = s) (db_positions db)"

definition order_row :: "paper_db \<Rightarrow> string \<Rightarrow> paper_order_row option" where
  "order_row db i = find (\<lambda>r. pr_exchange_order_id r = i) (db_orders db)"

definition update_where :: "('r \<Rightarrow> bool) \<Rightarrow> ('r \<Rightarrow> 'r) \<Rightarrow> 'r list \<Rightarrow> 'r list" where
  "update_where P f rows = map (\<lambda>r. if P r then f r else r) rows"

text \<open>A null where a decimal is expected is refused under the name it has as a string.\<close>

definition nullable :: "string option \<Rightarrow> string" where
  "nullable x = (case x of None \<Rightarrow> ''null'' | Some s \<Rightarrow> s)"

text \<open>\<^verbatim>\<open>value || null\<close>\<close>

definition or_null :: "string option \<Rightarrow> string option" where
  "or_null x = (case x of Some s \<Rightarrow> if s = [] then None else Some s | None \<Rightarrow> None)"

definition is_live :: "exchange_order_status \<Rightarrow> bool" where
  "is_live s \<longleftrightarrow> s = Status_open \<or> s = Status_partially_filled"


section \<open>Valuation\<close>

definition assertPaperAccount :: "trading_account \<Rightarrow> unit result" where
  "assertPaperAccount account =
     throw_if (ta_exchange account \<noteq> ''paper'' \<or> ta_mode account \<noteq> Paper) (Error ''Paper adapter only accepts paper accounts.'')"

definition paperAccounting :: "string \<Rightarrow> fill_accounting" where
  "paperAccounting symbol = \<lparr>fa_source = ''paper-contract-v1'', fa_providerSymbol = symbol, fa_settlementAsset = ''USDT''\<rparr>"

text \<open>A position joined with the mark price of its market, if there is one.\<close>

definition mark_of :: "paper_db \<Rightarrow> paper_position_row \<Rightarrow> string option" where
  "mark_of db p = map_option pm_mark_price (market_row db (pp_account_id p) (pp_symbol p))"

definition paperUnrealized :: "paper_position_row \<Rightarrow> string option \<Rightarrow> string option result" where
  "paperUnrealized position mark_price = (case mark_price of
       None \<Rightarrow> Inr None
     | Some mark \<Rightarrow>
         rbind (if pp_side position = LONG then signedDifference mark (pp_average_entry_price position)
                else signedDifference (pp_average_entry_price position) mark) (\<lambda>distance.
         rbind (multiplyExactSignedDecimal distance (pp_quantity position)) (\<lambda>v. Inr (Some v))))"

record balance_amounts =
  ba_equity :: string
  ba_availableBalance :: string
  ba_unrealizedPnl :: string
  ba_marginUsed :: string

definition paperBalanceAmounts :: "paper_db \<Rightarrow> string \<Rightarrow> paper_account_row \<Rightarrow> balance_amounts result" where
  "paperBalanceAmounts db accountId row =
     rbind (foldM (\<lambda>unrealizedPnl position.
              rbind (paperUnrealized position (mark_of db position)) (\<lambda>v. case v of
                None \<Rightarrow> Inl (Error ''Paper account valuation is unresolved: current mark is missing.'')
              | Some x \<Rightarrow> addSignedDecimal unrealizedPnl x))
            ''0'' (filter (\<lambda>p. pp_account_id p = accountId) (db_positions db))) (\<lambda>unrealizedPnl.
     rbind (addSignedDecimal (pa_equity row) unrealizedPnl) (\<lambda>equity.
     if starts_neg equity \<or> equity = ''0'' then Inl (Error ''Paper account equity is nonpositive; new entries are blocked.'')
     else
       rbind (addSignedDecimal (pa_available_balance row) unrealizedPnl) (\<lambda>free.
       rbind (decimal (pa_equity row)) (\<lambda>e. rbind (decimal (pa_available_balance row)) (\<lambda>a. rbind (subtractDecimal e a) (\<lambda>marginUsed.
         Inr \<lparr>ba_equity = equity, ba_availableBalance = (if starts_neg free then ''0'' else free), ba_unrealizedPnl = unrealizedPnl,
              ba_marginUsed = marginUsed\<rparr>))))))"

definition signedMultiply :: "string \<Rightarrow> string \<Rightarrow> string result" where
  "signedMultiply value multiplier =
     rbind (signedDecimal value) (\<lambda>normalized.
     rbind (multiplyDecimal (magnitude_of normalized) multiplier) (\<lambda>result.
       Inr (if starts_neg normalized \<and> result \<noteq> ''0'' then CHR ''-'' # result else result)))"

definition orderResult :: "paper_order_row \<Rightarrow> exchange_order_result" where
  "orderResult row = \<lparr>xr_clientOrderId = pr_client_order_id row, xr_exchangeOrderId = pr_exchange_order_id row, xr_providerSymbol = None,
     xr_status = pr_status row, xr_filledQuantity = (if pr_filled_quantity row = [] then ''0'' else pr_filled_quantity row),
     xr_averagePrice = or_null (pr_average_price row), xr_error = None,
     xr_raw = JObj [(''paper'', JBool True), (''updatedAt'', js_int (pr_updated_at row))]\<rparr>"

definition orderCanFill :: "paper_order_row \<Rightarrow> string \<Rightarrow> bool result" where
  "orderCanFill row markPrice = (case pr_order_type row of
       Market_planned \<Rightarrow> Inr True
     | Stop_market \<Rightarrow>
         rbind (compareDecimal (pr_filled_quantity row) ''0'') (\<lambda>f.
         if f > 0 then Inr True
         else rbind (compareDecimal markPrice (nullable (pr_trigger_price row))) (\<lambda>c.
           Inr (if pr_side row = Sell then c \<le> 0 else c \<ge> 0)))
     | Limit_planned \<Rightarrow>
         rbind (compareDecimal markPrice (nullable (pr_price row))) (\<lambda>c.
           Inr (if pr_side row = Buy then c \<le> 0 else c \<ge> 0)))"


section \<open>Positions and fills\<close>

definition side_of_order :: "order_side \<Rightarrow> trading_side" where
  "side_of_order s = (if s = Buy then LONG else SHORT)"

definition updateOpeningPosition :: "paper_order_row \<Rightarrow> string \<Rightarrow> string \<Rightarrow> int \<Rightarrow> paper_db \<Rightarrow> paper_db result" where
  "updateOpeningPosition row fillQuantity fillPrice now db = (case account_row db (pr_account_id row) of
       None \<Rightarrow> Inl (Error ''Paper account balance is missing.'')
     | Some account \<Rightarrow>
         rbind (multiplyDecimal fillQuantity fillPrice) (\<lambda>cost.
         rbind (divideDecimal cost (show_int (if pr_leverage row = 0 then 1 else pr_leverage row)) 18) (\<lambda>margin.
         rbind (compareDecimal (pa_available_balance account) margin) (\<lambda>c.
         rbind (throw_if (c < 0) (Error ''Paper account has insufficient available balance.'')) (\<lambda>_.
         rbind (case position_row db (pr_account_id row) (pr_symbol row) of
             Some existing \<Rightarrow>
               rbind (throw_if (pp_side existing \<noteq> side_of_order (pr_side row)) (Error ''Paper exchange refuses implicit position reversal.'')) (\<lambda>_.
               rbind (addSignedDecimal (pp_quantity existing) fillQuantity) (\<lambda>quantity.
               rbind (multiplyDecimal (pp_quantity existing) (pp_average_entry_price existing)) (\<lambda>previous.
               rbind (multiplyDecimal fillQuantity fillPrice) (\<lambda>added.
               rbind (addSignedDecimal previous added) (\<lambda>weighted.
               rbind (divideDecimal weighted quantity 18) (\<lambda>average.
               rbind (addSignedDecimal (pp_margin_used existing) margin) (\<lambda>margin_used.
                 Inr (update_where (\<lambda>p. pp_account_id p = pr_account_id row \<and> pp_symbol p = pr_symbol row)
                   (\<lambda>p. p\<lparr>pp_quantity := quantity, pp_average_entry_price := average, pp_margin_used := margin_used, pp_updated_at := now\<rparr>)
                   (db_positions db)))))))))
           | None \<Rightarrow>
               Inr (db_positions db @ [\<lparr>pp_account_id = pr_account_id row, pp_symbol = pr_symbol row, pp_side = side_of_order (pr_side row),
                 pp_quantity = fillQuantity, pp_average_entry_price = fillPrice, pp_margin_used = margin, pp_realized_pnl = ''0'',
                 pp_updated_at = now\<rparr>])) (\<lambda>positions.
         rbind (subtractDecimal (pa_available_balance account) margin) (\<lambda>available.
           Inr (db\<lparr>db_positions := positions,
             db_accounts := update_where (\<lambda>r. pa_account_id r = pr_account_id row)
               (\<lambda>r. r\<lparr>pa_available_balance := available, pa_updated_at := now\<rparr>) (db_accounts db)\<rparr>))))))))"

definition cancelOrphanedReduceOrders :: "string \<Rightarrow> string \<Rightarrow> int \<Rightarrow> paper_db \<Rightarrow> paper_db" where
  "cancelOrphanedReduceOrders accountId symbol now db =
     db\<lparr>db_orders := update_where (\<lambda>r. pr_account_id r = accountId \<and> pr_symbol r = symbol \<and> pr_reduce_only r \<and> is_live (pr_status r))
       (\<lambda>r. r\<lparr>pr_status := Status_cancelled, pr_updated_at := now\<rparr>) (db_orders db)\<rparr>"

definition updateClosingPosition ::
    "paper_execution_options \<Rightarrow> paper_order_row \<Rightarrow> string \<Rightarrow> string \<Rightarrow> int \<Rightarrow> paper_db \<Rightarrow> ((string \<times> bool) \<times> paper_db) result" where
  "updateClosingPosition options row requestedQuantity fillPrice now db = (case position_row db (pr_account_id row) (pr_symbol row) of
       None \<Rightarrow> Inr ((''0'', True), db)
     | Some position \<Rightarrow>
         rbind (throw_if (pr_side row \<noteq> (if pp_side position = LONG then Sell else Buy)) (Error ''Reduce-only paper order has the wrong side.'')) (\<lambda>_.
         rbind (minDecimal [requestedQuantity, pp_quantity position]) (\<lambda>fillQuantity.
         rbind (if pp_side position = LONG then signedDifference fillPrice (pp_average_entry_price position)
                else signedDifference (pp_average_entry_price position) fillPrice) (\<lambda>priceDifference.
         rbind (signedMultiply priceDifference fillQuantity) (\<lambda>pnl.
         rbind (multiplyDecimal (pp_margin_used position) fillQuantity) (\<lambda>share.
         rbind (divideDecimal share (pp_quantity position) 18) (\<lambda>releasedMargin.
         rbind (subtractDecimal (pp_quantity position) fillQuantity) (\<lambda>remaining.
         rbind (subtractDecimal (pp_margin_used position) releasedMargin) (\<lambda>remainingMargin.
         case account_row db (pr_account_id row) of
           None \<Rightarrow> Inl (Error ''Paper account balance is missing.'')
         | Some account \<Rightarrow>
             rbind (addSignedDecimal (pa_equity account) pnl) (\<lambda>equity.
             rbind (addSignedDecimal (pa_available_balance account) releasedMargin) (\<lambda>freed.
             rbind (addSignedDecimal freed pnl) (\<lambda>available.
             rbind (addSignedDecimal (pa_realized_pnl account) pnl) (\<lambda>realized.
             let paid = db\<lparr>db_accounts := update_where (\<lambda>r. pa_account_id r = pr_account_id row)
                   (\<lambda>r. r\<lparr>pa_equity := equity, pa_available_balance := available, pa_realized_pnl := realized, pa_updated_at := now\<rparr>)
                   (db_accounts db)\<rparr> in
             if remaining = ''0''
             then let closed = paid\<lparr>db_positions := filter (\<lambda>p. \<not> (pp_account_id p = pr_account_id row \<and> pp_symbol p = pr_symbol row)) (db_positions db)\<rparr> in
               Inr ((fillQuantity, True),
                 if px_reduceOnlyRemainder options \<noteq> Some Retain then cancelOrphanedReduceOrders (pr_account_id row) (pr_symbol row) now closed else closed)
             else rbind (addSignedDecimal (pp_realized_pnl position) pnl) (\<lambda>position_pnl.
               Inr ((fillQuantity, False),
                 paid\<lparr>db_positions := update_where (\<lambda>p. pp_account_id p = pr_account_id row \<and> pp_symbol p = pr_symbol row)
                   (\<lambda>p. p\<lparr>pp_quantity := remaining, pp_margin_used := remainingMargin, pp_realized_pnl := position_pnl, pp_updated_at := now\<rparr>)
                   (db_positions db)\<rparr>)))))))))))))))"

definition partialFillAverage :: "paper_order_row \<Rightarrow> string \<Rightarrow> string \<Rightarrow> string \<Rightarrow> string option result" where
  "partialFillAverage row fillQuantity fillPrice cumulative =
     (if cumulative = ''0'' then Inr None
      else rbind (compareDecimal (pr_filled_quantity row) ''0'') (\<lambda>c.
        rbind (if c > 0
               then (case pr_average_price row of
                   None \<Rightarrow> Inl (JsTypeError (''Cannot read properties of null (reading '' @ CHR 0x27 # ''trim'' @ CHR 0x27 # '')''))
                 | Some a \<Rightarrow> rbind (decimal_positive a) (multiplyDecimal (pr_filled_quantity row)))
               else Inr ''0'') (\<lambda>previousCost.
        rbind (multiplyDecimal fillQuantity fillPrice) (\<lambda>cost.
        rbind (addSignedDecimal previousCost cost) (\<lambda>total_cost.
        rbind (divideDecimal total_cost cumulative 18) (\<lambda>average. Inr (Some average)))))))"

definition random_uuid :: "paper_environment \<Rightarrow> paper_db \<Rightarrow> string \<times> paper_db" where
  "random_uuid env db = (pe_uuid env (db_uuids db), db\<lparr>db_uuids := Suc (db_uuids db)\<rparr>)"

definition insert_fill :: "paper_fill_row \<Rightarrow> paper_db \<Rightarrow> paper_db result" where
  "insert_fill fill db =
     (if pf_exchange_fill_id fill \<in> set (map pf_exchange_fill_id (db_fills db))
      then Inl (Error ''SQLITE_CONSTRAINT: UNIQUE constraint failed: trading_paper_fills.exchange_fill_id'')
      else Inr (db\<lparr>db_fills := db_fills db @ [fill]\<rparr>))"

definition fill_status :: "paper_execution_options \<Rightarrow> string \<Rightarrow> bool \<Rightarrow> int \<Rightarrow> exchange_order_status" where
  "fill_status options cumulative flat c =
     (if c = 0 then Status_filled
      else if flat \<and> px_reduceOnlyRemainder options \<noteq> Some Retain then Status_cancelled
      else if cumulative = ''0'' then Status_open else Status_partially_filled)"

definition fillOrder ::
    "paper_environment \<Rightarrow> paper_execution_options \<Rightarrow> paper_order_row \<Rightarrow> string \<Rightarrow> int \<Rightarrow> string option \<Rightarrow> paper_db \<Rightarrow>
     (paper_order_row option \<times> paper_db) result" where
  "fillOrder env options row markPrice now immediatePrice db =
     (let fillPrice = (case immediatePrice of Some p \<Rightarrow> p
        | None \<Rightarrow> if pr_order_type row = Limit_planned then nullable (pr_price row) else markPrice) in
      rbind (subtractDecimal (pr_quantity row) (pr_filled_quantity row)) (\<lambda>remaining.
      rbind (minDecimal [remaining, case px_maximumFillQuantity options of None \<Rightarrow> remaining | Some m \<Rightarrow> m]) (\<lambda>requested.
      rbind (if pr_reduce_only row then updateClosingPosition options row requested fillPrice now db
             else rbind (updateOpeningPosition row requested fillPrice now db) (\<lambda>opened. Inr ((requested, False), opened)))
        (\<lambda>((fillQuantity, flat), moved).
      rbind (addSignedDecimal (pr_filled_quantity row) fillQuantity) (\<lambda>cumulative.
      rbind (compareDecimal cumulative (pr_quantity row)) (\<lambda>c.
      rbind (partialFillAverage row fillQuantity fillPrice cumulative) (\<lambda>average.
      let settled = moved\<lparr>db_orders := update_where (\<lambda>r. pr_exchange_order_id r = pr_exchange_order_id row)
            (\<lambda>r. r\<lparr>pr_status := fill_status options cumulative flat c, pr_filled_quantity := cumulative, pr_average_price := average,
              pr_updated_at := now\<rparr>) (db_orders moved)\<rparr> in
      rbind (if fillQuantity = ''0'' then Inr settled
             else (case random_uuid env settled of (u, drawn) \<Rightarrow>
               insert_fill \<lparr>pf_exchange_fill_id = ''paper-fill-'' @ u, pf_exchange_order_id = pr_exchange_order_id row,
                 pf_account_id = pr_account_id row, pf_client_order_id = pr_client_order_id row, pf_price = fillPrice, pf_quantity = fillQuantity,
                 pf_fee = ''0'', pf_fee_asset = None, pf_filled_at = now,
                 pf_raw = JObj [(''paper'', JBool True), (''orderId'', JStr (pr_exchange_order_id row)), (''markPrice'', JStr markPrice)]\<rparr> drawn)) (\<lambda>recorded.
        Inr (order_row recorded (pr_exchange_order_id row), recorded)))))))))"

definition settle_rank :: "paper_order_row \<Rightarrow> int \<times> int" where
  "settle_rank r = ((case pr_role r of Stop_loss \<Rightarrow> 0 | Take_profit \<Rightarrow> 1 | _ \<Rightarrow> 2), pr_created_at r)"

definition settleOpenOrders ::
    "paper_environment \<Rightarrow> paper_execution_options \<Rightarrow> string \<Rightarrow> string \<Rightarrow> string \<Rightarrow> int \<Rightarrow> paper_db \<Rightarrow> paper_db result" where
  "settleOpenOrders env options accountId symbol markPrice now db =
     foldM (\<lambda>state order. case order_row state (pr_exchange_order_id order) of
           None \<Rightarrow> Inr state
         | Some current \<Rightarrow>
             if \<not> is_live (pr_status current) then Inr state
             else rbind (orderCanFill current markPrice) (\<lambda>can.
               if can then rbind (fillOrder env options current markPrice now None state) (\<lambda>(_, filled). Inr filled) else Inr state))
       db (sort_key settle_rank (pe_scan env (filter (\<lambda>r. pr_account_id r = accountId \<and> pr_symbol r = symbol \<and> is_live (pr_status r)) (db_orders db))))"


section \<open>The adapter\<close>

definition new_paper_adapter :: "string option \<Rightarrow> string option \<Rightarrow> paper_execution_options result" where
  "new_paper_adapter maximumFillQuantity reduceOnlyRemainder =
     rbind (case reduceOnlyRemainder of None \<Rightarrow> Inr None
            | Some p \<Rightarrow> if p = ''cancel_when_flat'' then Inr (Some Cancel_when_flat) else if p = ''retain'' then Inr (Some Retain)
                else Inl (Error ''Invalid paper reduce-only remainder policy.'')) (\<lambda>policy.
     rbind (case maximumFillQuantity of None \<Rightarrow> Inr None | Some m \<Rightarrow> rbind (decimal_positive m) (\<lambda>d. Inr (Some d))) (\<lambda>quantity.
       Inr \<lparr>px_maximumFillQuantity = quantity, px_reduceOnlyRemainder = policy\<rparr>))"

definition setBalance :: "string \<Rightarrow> string \<Rightarrow> string option \<Rightarrow> int \<Rightarrow> paper_db \<Rightarrow> paper_db result" where
  "setBalance accountId equity availableBalance now db =
     rbind (decimal_positive equity) (\<lambda>normalizedEquity.
     rbind (decimal (case availableBalance of None \<Rightarrow> equity | Some a \<Rightarrow> a)) (\<lambda>normalizedAvailable.
     rbind (compareDecimal normalizedAvailable normalizedEquity) (\<lambda>c.
     rbind (throw_if (c > 0) (Error ''Available paper balance cannot exceed equity.'')) (\<lambda>_.
       Inr (db\<lparr>db_accounts := update_where (\<lambda>r. pa_account_id r = accountId)
         (\<lambda>r. r\<lparr>pa_equity := normalizedEquity, pa_available_balance := normalizedAvailable, pa_updated_at := now\<rparr>) (db_accounts db)\<rparr>)))))"

text \<open>Insertion into the table of markets; a row with the same key is replaced in place.\<close>

definition upsert_market :: "paper_market_row \<Rightarrow> paper_db \<Rightarrow> paper_db result" where
  "upsert_market row db =
     (if pm_account_id row \<notin> set (db_account_ids db) then Inl (Error ''SQLITE_CONSTRAINT: FOREIGN KEY constraint failed'')
      else if market_row db (pm_account_id row) (pm_symbol row) = None then Inr (db\<lparr>db_markets := db_markets db @ [row]\<rparr>)
      else Inr (db\<lparr>db_markets := update_where (\<lambda>r. pm_account_id r = pm_account_id row \<and> pm_symbol r = pm_symbol row) (\<lambda>_. row) (db_markets db)\<rparr>))"

definition setMarket :: "paper_environment \<Rightarrow> paper_execution_options \<Rightarrow> string \<Rightarrow> market_snapshot \<Rightarrow> int \<Rightarrow> paper_db \<Rightarrow> paper_db result" where
  "setMarket env options accountId market now db =
     (let symbol = toUpperCase (js_trim (ms_symbol market)) in
      if \<not> symbol_pattern symbol then Inl (Error ''Invalid paper market symbol.'')
      else rbind (decimal_positive (ms_markPrice market)) (\<lambda>mark.
        rbind (decimal_positive (ms_priceTick market)) (\<lambda>tick.
        rbind (decimal_positive (ms_quantityStep market)) (\<lambda>step.
        rbind (decimal_positive (ms_minimumQuantity market)) (\<lambda>minimumQuantity.
        rbind (decimal_positive (ms_minimumNotional market)) (\<lambda>minimumNotional.
        if \<not> is_safe_integer (ms_maxLeverage market) \<or> ms_maxLeverage market < 1 \<or> ms_maxLeverage market > 125
        then Inl (Error ''Paper market max leverage must be between 1 and 125.'')
        else rbind (upsert_market \<lparr>pm_account_id = accountId, pm_symbol = symbol, pm_mark_price = mark, pm_price_tick = tick, pm_quantity_step = step,
               pm_minimum_quantity = minimumQuantity, pm_minimum_notional = minimumNotional, pm_max_leverage = ms_maxLeverage market,
               pm_updated_at = now\<rparr> db)
             (settleOpenOrders env options accountId symbol mark now)))))))"

definition utc_midnight :: "int \<Rightarrow> int" where
  "utc_midnight t = t - t mod 86400000"

definition readAccountSnapshot :: "paper_db \<Rightarrow> trading_account \<Rightarrow> int \<Rightarrow> account_snapshot result" where
  "readAccountSnapshot db account observedAt =
     rbind (assertPaperAccount account) (\<lambda>_. case account_row db (ta_id account) of
       None \<Rightarrow> Inl (Error ''Paper account state is missing.'')
     | Some row \<Rightarrow> rbind (paperBalanceAmounts db (ta_id account) row) (\<lambda>amounts.
         Inr \<lparr>as_equity = ba_equity amounts, as_availableBalance = ba_availableBalance amounts, as_unrealizedPnl = ba_unrealizedPnl amounts,
              as_marginUsed = ba_marginUsed amounts, as_fundingPnlToday = Some ''0'', as_fundingPnlTodayValue = None,
              as_accounting = Some \<lparr>ae_accountFingerprint = ''paper:'' @ ta_id account, ae_reportingCurrency = ''USDT'', ae_settlementAssets = [''USDT''],
                ae_source = ''paper-contract-v1'', ae_observedAt = observedAt, ae_unrealizedPnlSemantics = ''price_only'',
                ae_funding = JObj [(''status'', JStr ''complete''), (''since'', js_int (utc_midnight observedAt)), (''until'', js_int observedAt),
                  (''cursor'', JNull), (''source'', JStr ''paper:funding-v1''), (''reason'', JNull), (''nextReadAt'', js_int 0), (''events'', JArr [])]\<rparr>\<rparr>))"

definition accountSnapshot :: "paper_db \<Rightarrow> trading_account \<Rightarrow> int \<Rightarrow> account_snapshot result" where
  "accountSnapshot = readAccountSnapshot"

definition simulatedTierEvidence :: "paper_db \<Rightarrow> trading_account \<Rightarrow> paper_market_row \<Rightarrow> int \<Rightarrow> tier_evidence" where
  "simulatedTierEvidence db account market observedAt =
     \<lparr>te_version = 1, te_exchange = ''paper'', te_symbol = pm_symbol market, te_providerSymbol = pm_symbol market, te_accountFingerprint = ta_id account,
      te_credentialGeneration = ''paper'', te_ccxtVersion = ''paper'', te_profileHash = ''paper-v1'', te_source = ''paper_simulated_complete_tiers_v1'',
      te_currency = ''USDT'', te_contractSize = ''1'', te_markPrice = pm_mark_price market, te_observedAt = observedAt, te_expiresAt = observedAt + 10000,
      te_scope = \<lparr>ts_complete = True,
        ts_positionQuantity = (case position_row db (ta_id account) (pm_symbol market) of None \<Rightarrow> ''0'' | Some p \<Rightarrow> pp_quantity p),
        ts_openOrderCount = int (length (filter (\<lambda>r. pr_account_id r = ta_id account \<and> pr_symbol r = pm_symbol market \<and>
          (is_live (pr_status r) \<or> pr_status r = Status_unknown)) (db_orders db)))\<rparr>,
      te_tiers = [\<lparr>lt_lowerBound = ''0'', lt_upperBound = None, lt_maxLeverage = min 50 (pm_max_leverage market)\<rparr>]\<rparr>"

definition marketSnapshot :: "paper_db \<Rightarrow> trading_account \<Rightarrow> string \<Rightarrow> int \<Rightarrow> market_snapshot result" where
  "marketSnapshot db account symbol now =
     rbind (assertPaperAccount account) (\<lambda>_. case market_row db (ta_id account) symbol of
       None \<Rightarrow> Inl (TradingSymbolUnavailableError (''Paper market '' @ symbol @ '' is not configured.''))
     | Some row \<Rightarrow> Inr \<lparr>ms_symbol = pm_symbol row, ms_markPrice = pm_mark_price row, ms_priceTick = pm_price_tick row,
         ms_quantityStep = pm_quantity_step row, ms_minimumQuantity = pm_minimum_quantity row, ms_minimumNotional = pm_minimum_notional row,
         ms_maxLeverage = min 50 (pm_max_leverage row), ms_observedAt = pm_updated_at row, ms_accounting = Some (paperAccounting (pm_symbol row)),
         ms_leverageTiers = Some (simulatedTierEvidence db account row now)\<rparr>)"

definition insert_order :: "paper_order_row \<Rightarrow> paper_db \<Rightarrow> paper_db result" where
  "insert_order row db =
     (if pr_exchange_order_id row \<in> set (map pr_exchange_order_id (db_orders db))
      then Inl (Error ''SQLITE_CONSTRAINT: UNIQUE constraint failed: trading_paper_orders.exchange_order_id'')
      else if pr_leverage row < 1 \<or> pr_leverage row > 125 then Inl (Error ''SQLITE_CONSTRAINT: CHECK constraint failed: leverage BETWEEN 1 AND 125'')
      else if pr_account_id row \<notin> set (db_account_ids db) then Inl (Error ''SQLITE_CONSTRAINT: FOREIGN KEY constraint failed'')
      else Inr (db\<lparr>db_orders := db_orders db @ [row]\<rparr>))"

definition new_order_row :: "string \<Rightarrow> string \<Rightarrow> exchange_order_request \<Rightarrow> string \<Rightarrow> int \<Rightarrow> paper_order_row" where
  "new_order_row exchangeOrderId accountId request quantity now = (let order = rq_order request in
     \<lparr>pr_exchange_order_id = exchangeOrderId, pr_account_id = accountId, pr_client_order_id = po_clientOrderId order, pr_symbol = rq_symbol request,
      pr_role = po_role order, pr_side = po_side order, pr_order_type = po_orderType order, pr_status = Status_open, pr_quantity = quantity,
      pr_filled_quantity = ''0'', pr_average_price = None, pr_price = po_price order, pr_trigger_price = po_triggerPrice order,
      pr_reduce_only = po_reduceOnly order, pr_target_index = po_targetIndex order, pr_leverage = rq_leverage request,
      pr_created_at = now, pr_updated_at = now\<rparr>)"

definition assert_request_boundary :: "exchange_order_request \<Rightarrow> unit result" where
  "assert_request_boundary request =
     (if po_timeInForce (rq_order request) \<noteq> None \<or> rq_entryPriceBoundary request \<noteq> None
      then assertEntryPriceBoundary (side_of_order (po_side (rq_order request))) (rq_entryPriceBoundary request)
        (case rq_entryPriceBoundary request of None \<Rightarrow> [] | Some b \<Rightarrow> eb_maxSlippagePercent b) (rq_order request)
      else Inr ())"

text \<open>An immediate-or-cancel order that is still live after its chance to fill is cancelled.\<close>

definition cancel_unfilled :: "int \<Rightarrow> paper_order_row \<Rightarrow> paper_db \<Rightarrow> paper_order_row \<times> paper_db" where
  "cancel_unfilled now row db =
     (row\<lparr>pr_status := Status_cancelled, pr_updated_at := now\<rparr>,
      db\<lparr>db_orders := update_where (\<lambda>r. pr_exchange_order_id r = pr_exchange_order_id row)
        (\<lambda>r. r\<lparr>pr_status := Status_cancelled, pr_updated_at := now\<rparr>) (db_orders db)\<rparr>)"

definition submitOrder ::
    "paper_environment \<Rightarrow> paper_execution_options \<Rightarrow> trading_account \<Rightarrow> exchange_order_request \<Rightarrow> int \<Rightarrow> paper_db \<Rightarrow>
     (exchange_order_result \<times> paper_db) result" where
  "submitOrder env options account request now db =
     rbind (assertPaperAccount account) (\<lambda>_.
     rbind (assert_request_boundary request) (\<lambda>_.
     case find (\<lambda>r. pr_account_id r = ta_id account \<and> pr_client_order_id r = po_clientOrderId (rq_order request)) (db_orders db) of
       Some existing \<Rightarrow> Inr (orderResult existing, db)
     | None \<Rightarrow>
         rbind (marketSnapshot db account (rq_symbol request) now) (\<lambda>market.
         case random_uuid env db of (u, drawn) \<Rightarrow>
         rbind (decimal_positive (po_quantity (rq_order request))) (\<lambda>quantity.
         rbind (insert_order (new_order_row (''paper-order-'' @ u) (ta_id account) request quantity now) drawn) (\<lambda>inserted.
         let row = new_order_row (''paper-order-'' @ u) (ta_id account) request quantity now;
             immediate = po_timeInForce (rq_order request) = Some IOC in
         rbind (orderCanFill row (ms_markPrice market)) (\<lambda>can.
         rbind (if can then fillOrder env options row (ms_markPrice market) now (if immediate then Some (ms_markPrice market) else None) inserted
                else Inr (Some row, inserted)) (\<lambda>(outcome, filled).
         case outcome of
           None \<Rightarrow> Inl (JsTypeError (''Cannot read properties of undefined (reading '' @ CHR 0x27 # ''status'' @ CHR 0x27 # '')''))
         | Some after \<Rightarrow>
             if immediate \<and> is_live (pr_status after)
             then (case cancel_unfilled now after filled of (cancelled, final) \<Rightarrow> Inr (orderResult cancelled, final))
             else Inr (orderResult after, filled))))))))"

definition submitProtectedEntry ::
    "paper_environment \<Rightarrow> paper_execution_options \<Rightarrow> trading_account \<Rightarrow> exchange_order_request \<Rightarrow> exchange_order_request \<Rightarrow> int \<Rightarrow> int \<Rightarrow> paper_db \<Rightarrow>
     ((exchange_order_result \<times> exchange_order_result) \<times> paper_db) result" where
  "submitProtectedEntry env options account entry protectiveStop now later db =
     rbind (throw_if (po_role (rq_order entry) \<noteq> Entry_role \<or> po_role (rq_order protectiveStop) \<noteq> Stop_loss \<or> \<not> po_reduceOnly (rq_order protectiveStop))
              (Error ''Paper protected-entry contract requires an entry and a reduce-only stop.'')) (\<lambda>_.
     rbind (submitOrder env options account entry now db) (\<lambda>(entryResult, entered).
     rbind (submitOrder env options account protectiveStop later entered) (\<lambda>(stopResult, protected).
       Inr ((entryResult, stopResult), protected))))"

definition cancelOrder :: "trading_account \<Rightarrow> string \<Rightarrow> int \<Rightarrow> paper_db \<Rightarrow> (exchange_order_result \<times> paper_db) result" where
  "cancelOrder account client_order_id now db =
     rbind (assertPaperAccount account) (\<lambda>_.
     let cancelled = db\<lparr>db_orders := update_where
           (\<lambda>r. pr_account_id r = ta_id account \<and> pr_client_order_id r = client_order_id \<and> is_live (pr_status r))
           (\<lambda>r. r\<lparr>pr_status := Status_cancelled, pr_updated_at := now\<rparr>) (db_orders db)\<rparr> in
     case find (\<lambda>r. pr_account_id r = ta_id account \<and> pr_client_order_id r = client_order_id) (db_orders cancelled) of
       None \<Rightarrow> Inl (Error ''Paper order does not exist.'')
     | Some row \<Rightarrow> Inr (orderResult row, cancelled))"

definition order_snapshot :: "paper_order_row \<Rightarrow> exchange_order_snapshot" where
  "order_snapshot row = (let res = orderResult row in \<lparr>xo_clientOrderId = Some (xr_clientOrderId res), xo_exchangeOrderId = xr_exchangeOrderId res,
     xo_providerSymbol = Some (pr_symbol row), xo_providerTimestamp = None, xo_status = xr_status res, xo_filledQuantity = Some (xr_filledQuantity res),
     xo_averagePrice = xr_averagePrice res, xo_error = xr_error res, xo_raw = xr_raw res, xo_symbol = pr_symbol row, xo_role = pr_role row,
     xo_side = pr_side row, xo_quantity = pr_quantity row, xo_price = or_null (pr_price row), xo_triggerPrice = or_null (pr_trigger_price row),
     xo_reduceOnly = pr_reduce_only row\<rparr>)"

definition position_snapshot :: "paper_db \<Rightarrow> paper_position_row \<Rightarrow> exchange_position_snapshot result" where
  "position_snapshot db row =
     rbind (paperUnrealized row (mark_of db row)) (\<lambda>unrealized.
       Inr \<lparr>xp_symbol = pp_symbol row, xp_providerSymbol = Some (pp_symbol row), xp_side = pp_side row, xp_quantity = pp_quantity row,
            xp_averageEntryPrice = pp_average_entry_price row, xp_unrealizedPnl = unrealized, xp_markPrice = mark_of db row,
            xp_accounting = Some (paperAccounting (pp_symbol row))\<rparr>)"

definition fill_snapshot :: "paper_order_row list \<Rightarrow> paper_fill_row \<Rightarrow> exchange_fill result" where
  "fill_snapshot orders row = (case map_of (rev (map (\<lambda>r. (pr_exchange_order_id r, pr_symbol r)) orders)) (pf_exchange_order_id row) of
       None \<Rightarrow> Inl (Error ''Paper fill order symbol is missing.'')
     | Some symbol \<Rightarrow> if symbol = [] then Inl (Error ''Paper fill order symbol is missing.'')
         else Inr \<lparr>xf_identity = JUndefined, xf_quantityNormalization = JUndefined, xf_exchangeFillId = pf_exchange_fill_id row, xf_clientOrderId = Some (pf_client_order_id row),
           xf_exchangeOrderId = pf_exchange_order_id row, xf_symbol = Some symbol, xf_providerSymbol = Some symbol, xf_price = pf_price row,
           xf_quantity = pf_quantity row, xf_fee = pf_fee row, xf_feeAsset = or_null (pf_fee_asset row), xf_filledAt = pf_filled_at row,
           xf_accounting = Some (paperAccounting symbol), xf_raw = pf_raw row\<rparr>)"

definition paper_acquisition :: "int \<Rightarrow> int \<Rightarrow> acquisition_evidence" where
  "paper_acquisition startedAt completedAt = \<lparr>aq_version = 1, aq_startedAt = startedAt, aq_completedAt = completedAt,
     aq_sources = map (\<lambda>source. \<lparr>se_source = source, se_startedAt = startedAt, se_completedAt = completedAt, se_completeness = ''complete'', se_reason = None,
       se_since = (if source = ''fills'' then Some 0 else None)\<rparr>) [''orders'', ''positions'', ''fills'', ''targeted_orders''],
     aq_checkedOrders = [], aq_history = []\<rparr>"

definition readOpenState :: "paper_db \<Rightarrow> trading_account \<Rightarrow> int \<Rightarrow> int \<Rightarrow> exchange_open_state result" where
  "readOpenState db account startedAt completedAt =
     (let orders = sort_key pr_created_at (filter (\<lambda>r. pr_account_id r = ta_id account) (db_orders db));
          positions = sort_key pp_symbol (filter (\<lambda>r. pp_account_id r = ta_id account) (db_positions db));
          fills = sort_key pf_filled_at (filter (\<lambda>r. pf_account_id r = ta_id account) (db_fills db)) in
      rbind (mapM (position_snapshot db) positions) (\<lambda>ps.
      rbind (mapM (fill_snapshot orders) fills) (\<lambda>fs.
        Inr \<lparr>xs_orders = map order_snapshot orders, xs_positions = ps, xs_fills = fs, xs_observedAt = completedAt,
          xs_acquisition = Some (paper_acquisition startedAt completedAt)\<rparr>)))"

definition openState :: "paper_db \<Rightarrow> trading_account \<Rightarrow> int \<Rightarrow> int \<Rightarrow> exchange_open_state result" where
  "openState db account startedAt completedAt = rbind (assertPaperAccount account) (\<lambda>_. readOpenState db account startedAt completedAt)"


text \<open>Histories: each event is one call of the adapter; a call that throws changes nothing.\<close>

datatype paper_event =
    Set_balance string string "string option" int
  | Set_market string market_snapshot int
  | Submit trading_account exchange_order_request int
  | Submit_protected trading_account exchange_order_request exchange_order_request int int
  | Cancel trading_account string int

definition committed :: "paper_db \<Rightarrow> ('a \<times> paper_db) result \<Rightarrow> paper_db" where
  "committed db outcome = (case outcome of Inl _ \<Rightarrow> db | Inr (_, db') \<Rightarrow> db')"

fun paper_step :: "paper_environment \<Rightarrow> paper_execution_options \<Rightarrow> paper_db \<Rightarrow> paper_event \<Rightarrow> paper_db" where
  "paper_step env options db (Set_balance a equity available now) = (case setBalance a equity available now db of Inl _ \<Rightarrow> db | Inr db' \<Rightarrow> db')"
| "paper_step env options db (Set_market a market now) = (case setMarket env options a market now db of Inl _ \<Rightarrow> db | Inr db' \<Rightarrow> db')"
| "paper_step env options db (Submit account request now) = committed db (submitOrder env options account request now db)"
| "paper_step env options db (Submit_protected account entry protectiveStop now later) =
     committed db (submitProtectedEntry env options account entry protectiveStop now later db)"
| "paper_step env options db (Cancel account i now) = committed db (cancelOrder account i now db)"


section \<open>Sums over tables\<close>

lemma sum_update: "(\<Sum>y\<leftarrow>update_where P f xs. w y) = (\<Sum>y\<leftarrow>xs. w y) + (\<Sum>y\<leftarrow>filter P xs. w (f y) - (w y :: rat))"
  by (induction xs) (simp_all add: update_where_def)

lemma sum_remove: "(\<Sum>y\<leftarrow>filter (\<lambda>y. \<not> P y) xs. w y) = (\<Sum>y\<leftarrow>xs. w y) - (\<Sum>y\<leftarrow>filter P xs. (w y :: rat))"
  by (induction xs) simp_all

lemma find_filter: "distinct (map k xs) \<Longrightarrow> find (\<lambda>y. k y = c) xs = Some x \<Longrightarrow> filter (\<lambda>y. k y = c) xs = [x]"
proof (induction xs)
  case (Cons a xs)
  show ?case
  proof (cases "k a = c")
    case True
    then have "filter (\<lambda>y. k y = c) xs = []" using Cons.prems(1) by (auto simp: filter_empty_conv) (metis image_eqI)
    then show ?thesis using True Cons.prems(2) by simp
  qed (use Cons in simp)
qed simp

lemma find_none: "find P xs = None \<Longrightarrow> filter P xs = []"
  by (auto simp: find_None_iff filter_empty_conv)

lemma find_in: "find P xs = Some x \<Longrightarrow> x \<in> set xs \<and> P x"
  by (auto simp: find_Some_iff)

lemma update_where_keys: "(\<And>r. P r \<Longrightarrow> k (f r) = k r) \<Longrightarrow> map k (update_where P f xs) = map k xs"
  by (simp add: update_where_def)

lemma update_where_set: "y \<in> set (update_where P f xs) \<longleftrightarrow> (\<exists>x\<in>set xs. y = (if P x then f x else x))"
  by (auto simp: update_where_def)


section \<open>Decimals that were stored\<close>

lemma canonical_value [simp]: "canonical_decimal s \<Longrightarrow> sdec_val s = dec_val s"
  by (simp add: sdec_val_def canonical_unsigned)

lemma canonical_signed_nonneg: "canonical_signed s \<Longrightarrow> 0 \<le> sdec_val s \<Longrightarrow> canonical_decimal s"
  using canonical_nonneg [of "magnitude_of s"] canonical_zero_iff [of "magnitude_of s"]
  by (cases "starts_neg s") (auto simp: canonical_signed_def sdec_val_def)

lemma add_decimal_Inr:
  "addSignedDecimal a b = Inr c \<Longrightarrow> canonical_decimal a \<Longrightarrow> canonical_decimal b \<Longrightarrow> canonical_decimal c \<and> dec_val c = dec_val a + dec_val b"
  using add_signed_Inr [of a b c] canonical_nonneg [of a] canonical_nonneg [of b] canonical_signed_nonneg [of c]
  by (auto simp: canonical_is_signed)

lemma signedMultiply_Inr: "signedMultiply v m = Inr p \<Longrightarrow> canonical_signed p"
  by (auto simp: signedMultiply_def rbind_Inr_iff with_sign_def [symmetric] dest!: multiply_Inr intro: with_sign_facts)

lemma stored_trunc: "0 \<le> q \<Longrightarrow> 0 < y \<Longrightarrow> trunc_at 18 (trunc_at 18 (m * q) / y) \<le> m * q / (y :: rat)"
  by (meson divide_right_mono less_imp_le order_trans trunc_at_le)


section \<open>The invariant of the tables\<close>

definition opening_sign :: "trading_side \<Rightarrow> rat" where
  "opening_sign s = (if s = LONG then 1 else -1)"

definition fill_sign :: "order_side \<Rightarrow> rat" where
  "fill_sign s = (if s = Buy then 1 else -1)"

text \<open>What the positions of an account hold of a symbol, and what its orders executed, both signed.\<close>

definition held :: "paper_position_row list \<Rightarrow> string \<Rightarrow> string \<Rightarrow> rat" where
  "held ps a s = (\<Sum>p\<leftarrow>ps. if pp_account_id p = a \<and> pp_symbol p = s then opening_sign (pp_side p) * dec_val (pp_quantity p) else 0)"

definition executed :: "paper_order_row list \<Rightarrow> string \<Rightarrow> string \<Rightarrow> rat" where
  "executed rs a s = (\<Sum>r\<leftarrow>rs. if pr_account_id r = a \<and> pr_symbol r = s then fill_sign (pr_side r) * dec_val (pr_filled_quantity r) else 0)"

definition margin_of :: "paper_position_row list \<Rightarrow> string \<Rightarrow> rat" where
  "margin_of ps a = (\<Sum>p\<leftarrow>ps. if pp_account_id p = a then dec_val (pp_margin_used p) else 0)"

definition filled_of :: "paper_fill_row list \<Rightarrow> string \<Rightarrow> rat" where
  "filled_of fs i = (\<Sum>f\<leftarrow>fs. if pf_exchange_order_id f = i then dec_val (pf_quantity f) else 0)"

definition account_ok :: "string set \<Rightarrow> paper_position_row list \<Rightarrow> paper_account_row \<Rightarrow> bool" where
  "account_ok T ps r \<longleftrightarrow> canonical_signed (pa_equity r) \<and> canonical_signed (pa_available_balance r) \<and> canonical_signed (pa_realized_pnl r) \<and>
     (pa_account_id r \<in> T \<longrightarrow> sdec_val (pa_available_balance r) + margin_of ps (pa_account_id r) \<le> sdec_val (pa_equity r))"

definition position_ok :: "paper_position_row \<Rightarrow> bool" where
  "position_ok p \<longleftrightarrow> canonical_decimal (pp_quantity p) \<and> 0 < dec_val (pp_quantity p) \<and> canonical_decimal (pp_margin_used p)"

definition order_ok :: "paper_fill_row list \<Rightarrow> paper_order_row \<Rightarrow> bool" where
  "order_ok fs r \<longleftrightarrow> canonical_decimal (pr_quantity r) \<and> canonical_decimal (pr_filled_quantity r) \<and> 0 < dec_val (pr_quantity r) \<and>
     dec_val (pr_filled_quantity r) \<le> dec_val (pr_quantity r) \<and> dec_val (pr_filled_quantity r) = filled_of fs (pr_exchange_order_id r) \<and>
     (pr_status r = Status_filled \<longleftrightarrow> dec_val (pr_filled_quantity r) = dec_val (pr_quantity r)) \<and>
     (pr_status r = Status_open \<longrightarrow> dec_val (pr_filled_quantity r) = 0) \<and>
     (pr_status r = Status_partially_filled \<longrightarrow> 0 < dec_val (pr_filled_quantity r))"

text \<open>
  Accounts with their positions; orders with their fills. A balance that is set by hand need not leave
  room for the margins in use, so the set of the accounts whose margins are covered is a parameter.
\<close>

definition money_ok :: "string set \<Rightarrow> paper_account_row list \<Rightarrow> paper_position_row list \<Rightarrow> bool" where
  "money_ok T rs ps \<longleftrightarrow> distinct (map pa_account_id rs) \<and> distinct (map (\<lambda>p. (pp_account_id p, pp_symbol p)) ps) \<and>
     (\<forall>r\<in>set rs. account_ok T ps r) \<and> (\<forall>p\<in>set ps. position_ok p)"

definition orders_ok :: "paper_order_row list \<Rightarrow> paper_fill_row list \<Rightarrow> bool" where
  "orders_ok rs fs \<longleftrightarrow> distinct (map pr_exchange_order_id rs) \<and> (\<forall>r\<in>set rs. order_ok fs r) \<and>
     (\<forall>f\<in>set fs. pf_exchange_order_id f \<in> pr_exchange_order_id ` set rs)"

definition paper_ok :: "string set \<Rightarrow> paper_db \<Rightarrow> bool" where
  "paper_ok T db \<longleftrightarrow> money_ok T (db_accounts db) (db_positions db) \<and> orders_ok (db_orders db) (db_fills db) \<and>
     (\<forall>a s. executed (db_orders db) a s = held (db_positions db) a s)"

definition options_ok :: "paper_execution_options \<Rightarrow> bool" where
  "options_ok options \<longleftrightarrow> (case px_maximumFillQuantity options of None \<Rightarrow> True | Some m \<Rightarrow> canonical_decimal m \<and> 0 < dec_val m)"

text \<open>What trading leaves of an account: equity minus realised profit, the money that was paid in.\<close>

definition paid_in :: "paper_db \<Rightarrow> (string \<times> rat) list" where
  "paid_in db = map (\<lambda>r. (pa_account_id r, sdec_val (pa_equity r) - sdec_val (pa_realized_pnl r))) (db_accounts db)"

lemma position_row_unique:
  "money_ok T rs (db_positions db) \<Longrightarrow> position_row db a s = Some p \<Longrightarrow>
   filter (\<lambda>p. pp_account_id p = a \<and> pp_symbol p = s) (db_positions db) = [p] \<and> p \<in> set (db_positions db) \<and> position_ok p \<and>
   pp_account_id p = a \<and> pp_symbol p = s"
  using find_filter [of "\<lambda>p. (pp_account_id p, pp_symbol p)" "db_positions db" "(a, s)" p] find_in [of _ "db_positions db" p]
  by (auto simp: money_ok_def position_row_def)

lemma account_row_unique:
  "money_ok T (db_accounts db) ps \<Longrightarrow> account_row db a = Some r \<Longrightarrow> r \<in> set (db_accounts db) \<and> account_ok T ps r \<and> pa_account_id r = a \<and>
   (\<forall>r'\<in>set (db_accounts db). pa_account_id r' = a \<longrightarrow> r' = r)"
  using find_in [of _ "db_accounts db" r] by (auto simp: money_ok_def account_row_def distinct_map inj_on_def)

lemma margin_nonneg: "\<forall>p\<in>set ps. position_ok p \<Longrightarrow> 0 \<le> margin_of ps a"
  by (auto simp: margin_of_def position_ok_def canonical_nonneg intro!: sum_list_nonneg)

text \<open>The accounts after a change of one account and of the positions of one of its symbols.\<close>

lemma money_update:
  assumes ok: "money_ok T rs ps" and keys: "distinct (map (\<lambda>p. (pp_account_id p, pp_symbol p)) ps')" "\<forall>p\<in>set ps'. position_ok p"
    and f: "\<And>r. pa_account_id (f r) = pa_account_id r"
    and row: "\<And>r. r \<in> set rs \<Longrightarrow> pa_account_id r = a \<Longrightarrow> account_ok T ps' (f r)"
    and margins: "\<And>b. b \<noteq> a \<Longrightarrow> margin_of ps' b = margin_of ps b"
  shows "money_ok T (update_where (\<lambda>r. pa_account_id r = a) f rs) ps'"
  using assms by (auto simp: money_ok_def update_where_keys update_where_set account_ok_def)


text \<open>One position enters, changes or leaves: what that does to the sums over positions.\<close>

definition position_change :: "paper_order_row \<Rightarrow> rat \<Rightarrow> rat \<Rightarrow> paper_position_row list \<Rightarrow> paper_position_row list \<Rightarrow> bool" where
  "position_change row q m ps ps' \<longleftrightarrow> distinct (map (\<lambda>p. (pp_account_id p, pp_symbol p)) ps') \<and> (\<forall>p\<in>set ps'. position_ok p) \<and>
     (\<forall>a s. held ps' a s = held ps a s + (if a = pr_account_id row \<and> s = pr_symbol row then fill_sign (pr_side row) * q else 0)) \<and>
     (\<forall>a. margin_of ps' a = margin_of ps a + (if a = pr_account_id row then m else 0))"

lemma position_enters:
  assumes "money_ok T rs (db_positions db)" "position_row db (pr_account_id row) (pr_symbol row) = None" "position_ok p"
    "pp_account_id p = pr_account_id row" "pp_symbol p = pr_symbol row" "pp_side p = side_of_order (pr_side row)"
  shows "position_change row (dec_val (pp_quantity p)) (dec_val (pp_margin_used p)) (db_positions db) (db_positions db @ [p])"
proof -
  have "\<forall>p'\<in>set (db_positions db). \<not> (pp_account_id p' = pr_account_id row \<and> pp_symbol p' = pr_symbol row)"
    using find_none [OF assms(2) [unfolded position_row_def]] by (simp add: filter_empty_conv)
  then show ?thesis
    using assms by (auto simp: position_change_def money_ok_def held_def margin_of_def opening_sign_def fill_sign_def side_of_order_def)
qed

lemma position_changes:
  assumes "money_ok T rs (db_positions db)" "position_row db (pr_account_id row) (pr_symbol row) = Some p" "position_ok (f p)"
    "\<And>p. pp_account_id (f p) = pp_account_id p \<and> pp_symbol (f p) = pp_symbol p \<and> pp_side (f p) = pp_side p"
    "fill_sign (pr_side row) * q = opening_sign (pp_side p) * (dec_val (pp_quantity (f p)) - dec_val (pp_quantity p))"
    "m = dec_val (pp_margin_used (f p)) - dec_val (pp_margin_used p)"
  shows "position_change row q m (db_positions db)
    (update_where (\<lambda>p. pp_account_id p = pr_account_id row \<and> pp_symbol p = pr_symbol row) f (db_positions db))" (is "position_change _ _ _ _ ?ps")
proof -
  let ?P = "\<lambda>p :: paper_position_row. pp_account_id p = pr_account_id row \<and> pp_symbol p = pr_symbol row"
  note u = position_row_unique [OF assms(1,2)]
  have only: "filter ?P (db_positions db) = [p]" using u by simp
  have eq: "p' = p" if "p' \<in> set (db_positions db)" "?P p'" for p'
    using that only filter_set [of ?P "db_positions db"] by auto
  have "held ?ps a s = held (db_positions db) a s + (if a = pr_account_id row \<and> s = pr_symbol row then fill_sign (pr_side row) * q else 0)" for a s
    unfolding held_def sum_update only assms(5) using u assms(4) by (auto simp: algebra_simps)
  moreover have "margin_of ?ps a = margin_of (db_positions db) a + (if a = pr_account_id row then m else 0)" for a
    unfolding margin_of_def sum_update only assms(6) using u assms(4) by auto
  moreover have "distinct (map (\<lambda>p. (pp_account_id p, pp_symbol p)) ?ps)" "\<forall>p\<in>set ?ps. position_ok p"
    using assms(1,3,4) eq by (auto simp: money_ok_def update_where_keys update_where_set)
  ultimately show ?thesis unfolding position_change_def by simp
qed

lemma position_leaves:
  assumes "money_ok T rs (db_positions db)" "position_row db (pr_account_id row) (pr_symbol row) = Some p"
    "fill_sign (pr_side row) * q = - opening_sign (pp_side p) * dec_val (pp_quantity p)" "m = - dec_val (pp_margin_used p)"
  shows "position_change row q m (db_positions db) (filter (\<lambda>p. \<not> (pp_account_id p = pr_account_id row \<and> pp_symbol p = pr_symbol row)) (db_positions db))"
    (is "position_change _ _ _ _ ?ps")
proof -
  let ?P = "\<lambda>p :: paper_position_row. pp_account_id p = pr_account_id row \<and> pp_symbol p = pr_symbol row"
  note u = position_row_unique [OF assms(1,2)]
  have only: "filter ?P (db_positions db) = [p]" using u by simp
  have "held ?ps a s = held (db_positions db) a s + (if a = pr_account_id row \<and> s = pr_symbol row then fill_sign (pr_side row) * q else 0)" for a s
    unfolding held_def sum_remove only assms(3) using u by auto
  moreover have "margin_of ?ps a = margin_of (db_positions db) a + (if a = pr_account_id row then m else 0)" for a
    unfolding margin_of_def sum_remove only assms(4) using u by auto
  moreover have "distinct (map (\<lambda>p. (pp_account_id p, pp_symbol p)) ?ps)" "\<forall>p\<in>set ?ps. position_ok p"
    using assms(1) by (auto simp: money_ok_def distinct_map_filter)
  ultimately show ?thesis unfolding position_change_def by simp
qed

lemma money_changes:
  assumes "money_ok T rs ps" "position_change row q m ps ps'"
    and f: "\<And>r. pa_account_id (f r) = pa_account_id r"
    and row: "\<And>r. r \<in> set rs \<Longrightarrow> pa_account_id r = pr_account_id row \<Longrightarrow> account_ok T ps' (f r)"
  shows "money_ok T (update_where (\<lambda>r. pa_account_id r = pr_account_id row) f rs) ps'"
  using assms(2) by (intro money_update [OF assms(1)] f row) (auto simp: position_change_def)


text \<open>An opening fill moves its margin from the available balance to the position, and nothing else.\<close>

lemma opening_effect:
  assumes "updateOpeningPosition row q price now db = Inr db'" "money_ok T (db_accounts db) (db_positions db)" "canonical_decimal q" "0 < dec_val q"
  shows "\<exists>m. position_change row (dec_val q) m (db_positions db) (db_positions db')" "money_ok T (db_accounts db') (db_positions db')"
    "db_orders db' = db_orders db" "db_fills db' = db_fills db" "paid_in db' = paid_in db"
proof -
  let ?a = "pr_account_id row" and ?s = "pr_symbol row"
  obtain account cost margin c positions available where h: "account_row db ?a = Some account"
    "divideDecimal cost (show_int (if pr_leverage row = 0 then 1 else pr_leverage row)) 18 = Inr margin"
    "(case position_row db ?a ?s of
        Some existing \<Rightarrow>
               rbind (throw_if (pp_side existing \<noteq> side_of_order (pr_side row)) (Error ''Paper exchange refuses implicit position reversal.'')) (\<lambda>_.
               rbind (addSignedDecimal (pp_quantity existing) q) (\<lambda>quantity.
               rbind (multiplyDecimal (pp_quantity existing) (pp_average_entry_price existing)) (\<lambda>previous.
               rbind (multiplyDecimal q price) (\<lambda>added.
               rbind (addSignedDecimal previous added) (\<lambda>weighted.
               rbind (divideDecimal weighted quantity 18) (\<lambda>average.
               rbind (addSignedDecimal (pp_margin_used existing) margin) (\<lambda>margin_used.
                 Inr (update_where (\<lambda>p. pp_account_id p = ?a \<and> pp_symbol p = ?s)
                   (\<lambda>p. p\<lparr>pp_quantity := quantity, pp_average_entry_price := average, pp_margin_used := margin_used, pp_updated_at := now\<rparr>)
                   (db_positions db)))))))))
      | None \<Rightarrow> Inr (db_positions db @ [\<lparr>pp_account_id = ?a, pp_symbol = ?s, pp_side = side_of_order (pr_side row),
                 pp_quantity = q, pp_average_entry_price = price, pp_margin_used = margin, pp_realized_pnl = ''0'',
                 pp_updated_at = now\<rparr>])) = Inr positions"
    "subtractDecimal (pa_available_balance account) margin = Inr available"
    "db' = db\<lparr>db_positions := positions, db_accounts := update_where (\<lambda>r. pa_account_id r = ?a)
       (\<lambda>r. r\<lparr>pa_available_balance := available, pa_updated_at := now\<rparr>) (db_accounts db)\<rparr>"
    using assms(1) unfolding updateOpeningPosition_def case_Inr rbind_Inr_iff throw_if_Inr sum.inject by blast
  have m: "canonical_decimal margin" using divide_Inr [OF h(2)] by simp
  have change: "position_change row (dec_val q) (dec_val margin) (db_positions db) positions"
  proof (cases "position_row db ?a ?s")
    case None
    then show ?thesis
      using h(3) position_enters [OF assms(2) None, of "\<lparr>pp_account_id = ?a, pp_symbol = ?s, pp_side = side_of_order (pr_side row), pp_quantity = q,
          pp_average_entry_price = price, pp_margin_used = margin, pp_realized_pnl = ''0'', pp_updated_at = now\<rparr>"] m assms(3,4)
      by (simp add: position_ok_def)
  next
    case (Some existing)
    obtain quantity average margin_used where e: "pp_side existing = side_of_order (pr_side row)" "addSignedDecimal (pp_quantity existing) q = Inr quantity"
      "addSignedDecimal (pp_margin_used existing) margin = Inr margin_used" and positions: "positions = update_where (\<lambda>p. pp_account_id p = ?a \<and> pp_symbol p = ?s)
         (\<lambda>p. p\<lparr>pp_quantity := quantity, pp_average_entry_price := average, pp_margin_used := margin_used, pp_updated_at := now\<rparr>) (db_positions db)"
      using h(3) Some by (auto simp: rbind_Inr_iff throw_if_Inr)
    have ok: "position_ok existing" using position_row_unique [OF assms(2) Some] by blast
    then have v: "canonical_decimal quantity" "dec_val quantity = dec_val (pp_quantity existing) + dec_val q" "canonical_decimal margin_used"
        "dec_val margin_used = dec_val (pp_margin_used existing) + dec_val margin"
      using add_decimal_Inr [OF e(2)] add_decimal_Inr [OF e(3)] assms(3) m by (simp_all add: position_ok_def)
    have "fill_sign (pr_side row) = opening_sign (pp_side existing)" by (cases "pr_side row") (simp_all add: e(1) fill_sign_def opening_sign_def side_of_order_def)
    then show ?thesis
      unfolding positions using v ok assms(4) by (intro position_changes [OF assms(2) Some]) (simp_all add: position_ok_def)
  qed
  then show "\<exists>m. position_change row (dec_val q) m (db_positions db) (db_positions db')" by (auto simp: h(5))
  note a = account_row_unique [OF assms(2) h(1)] and sub = subtract_Inr [OF h(4)]
  have "sdec_val (pa_available_balance account) = dec_val (pa_available_balance account)" using sub signed_of_valid by blast
  then have acc: "account_ok T positions (r\<lparr>pa_available_balance := available, pa_updated_at := now\<rparr>)"
    if "r \<in> set (db_accounts db)" "pa_account_id r = ?a" for r
    using a that sub change by (auto simp: account_ok_def position_change_def canonical_is_signed)
  have "money_ok T (update_where (\<lambda>r. pa_account_id r = ?a) (\<lambda>r. r\<lparr>pa_available_balance := available, pa_updated_at := now\<rparr>) (db_accounts db)) positions"
    by (rule money_changes [OF assms(2) change _ acc]) simp
  then show "money_ok T (db_accounts db') (db_positions db')" by (simp add: h(5))
  show "db_orders db' = db_orders db" "db_fills db' = db_fills db" "paid_in db' = paid_in db"
    by (simp_all add: h(5) paid_in_def update_where_def)
qed


text \<open>A closing fill pays its profit and at most the margin of the position back to the account.\<close>

lemma closing_account:
  assumes "account_ok T ps r" "canonical_signed pnl" "canonical_decimal released"
    "addSignedDecimal (pa_equity r) pnl = Inr equity" "addSignedDecimal (pa_available_balance r) released = Inr freed"
    "addSignedDecimal freed pnl = Inr available" "addSignedDecimal (pa_realized_pnl r) pnl = Inr realized"
    "margin_of ps' (pa_account_id r) \<le> margin_of ps (pa_account_id r) - dec_val released"
  shows "account_ok T ps' (r\<lparr>pa_equity := equity, pa_available_balance := available, pa_realized_pnl := realized, pa_updated_at := now\<rparr>) \<and>
    sdec_val equity - sdec_val realized = sdec_val (pa_equity r) - sdec_val (pa_realized_pnl r)"
proof -
  note c = assms(1) [unfolded account_ok_def]
  have "canonical_signed equity \<and> sdec_val equity = sdec_val (pa_equity r) + sdec_val pnl"
    using add_signed_Inr [OF assms(4)] c assms(2) by blast
  moreover have f: "canonical_signed freed \<and> sdec_val freed = sdec_val (pa_available_balance r) + dec_val released"
    using add_signed_Inr [OF assms(5)] c assms(3) canonical_is_signed by simp
  moreover have "canonical_signed available \<and> sdec_val available = sdec_val freed + sdec_val pnl"
    using add_signed_Inr [OF assms(6)] f assms(2) by blast
  moreover have "canonical_signed realized \<and> sdec_val realized = sdec_val (pa_realized_pnl r) + sdec_val pnl"
    using add_signed_Inr [OF assms(7)] c assms(2) by blast
  ultimately show ?thesis using c assms(8) by (auto simp: account_ok_def)
qed

lemma closing_effect:
  assumes "updateClosingPosition options row rq price now db = Inr ((q, flat), db')" "money_ok T (db_accounts db) (db_positions db)" "canonical_decimal rq"
  shows "(\<exists>m. position_change row (dec_val q) m (db_positions db) (db_positions db')) \<and> money_ok T (db_accounts db') (db_positions db') \<and>
    db_fills db' = db_fills db \<and> paid_in db' = paid_in db \<and> canonical_decimal q \<and> dec_val q \<le> dec_val rq \<and>
    (db_orders db' = db_orders db \<or> db_orders db' = db_orders (cancelOrphanedReduceOrders (pr_account_id row) (pr_symbol row) now db))"
proof (cases "position_row db (pr_account_id row) (pr_symbol row)")
  case None
  then show ?thesis
    using assms canonical_nonneg by (auto simp: updateClosingPosition_def position_change_def money_ok_def intro!: exI [of _ 0])
next
  case (Some p)
  let ?a = "pr_account_id row" and ?s = "pr_symbol row"
  obtain x difference pnl share released remaining remainingMargin account equity freed available realized where h:
    "\<not> pr_side row \<noteq> (if pp_side p = LONG then Sell else Buy)" "minDecimal [rq, pp_quantity p] = Inr x" "signedMultiply difference x = Inr pnl"
    "divideDecimal share (pp_quantity p) 18 = Inr released" "subtractDecimal (pp_quantity p) x = Inr remaining"
    "subtractDecimal (pp_margin_used p) released = Inr remainingMargin" "account_row db ?a = Some account"
    "addSignedDecimal (pa_equity account) pnl = Inr equity" "addSignedDecimal (pa_available_balance account) released = Inr freed"
    "addSignedDecimal freed pnl = Inr available" "addSignedDecimal (pa_realized_pnl account) pnl = Inr realized" and result:
    "(let paid = db\<lparr>db_accounts := update_where (\<lambda>r. pa_account_id r = ?a)
        (\<lambda>r. r\<lparr>pa_equity := equity, pa_available_balance := available, pa_realized_pnl := realized, pa_updated_at := now\<rparr>) (db_accounts db)\<rparr> in
      if remaining = ''0''
      then let closed = paid\<lparr>db_positions := filter (\<lambda>p. \<not> (pp_account_id p = ?a \<and> pp_symbol p = ?s)) (db_positions db)\<rparr> in
        Inr ((x, True), if px_reduceOnlyRemainder options \<noteq> Some Retain then cancelOrphanedReduceOrders ?a ?s now closed else closed)
      else rbind (addSignedDecimal (pp_realized_pnl p) pnl) (\<lambda>position_pnl.
        Inr ((x, False), paid\<lparr>db_positions := update_where (\<lambda>p. pp_account_id p = ?a \<and> pp_symbol p = ?s)
           (\<lambda>p. p\<lparr>pp_quantity := remaining, pp_margin_used := remainingMargin, pp_realized_pnl := position_pnl, pp_updated_at := now\<rparr>)
           (db_positions db)\<rparr>))) = Inr ((q, flat), db')"
    using assms(1) unfolding updateClosingPosition_def Some option.case case_Inr rbind_Inr_iff throw_if_Inr by blast
  define f where "f r = r\<lparr>pa_equity := equity, pa_available_balance := available, pa_realized_pnl := realized, pa_updated_at := now\<rparr>" for r :: paper_account_row
  have q: "x = q" and accounts: "db_accounts db' = update_where (\<lambda>r. pa_account_id r = ?a) f (db_accounts db)" and fills: "db_fills db' = db_fills db" and
    orders: "db_orders db' = db_orders db \<or> db_orders db' = db_orders (cancelOrphanedReduceOrders ?a ?s now db)" and
    positions: "remaining = ''0'' \<and> db_positions db' = filter (\<lambda>p. \<not> (pp_account_id p = ?a \<and> pp_symbol p = ?s)) (db_positions db) \<or>
      remaining \<noteq> ''0'' \<and> (\<exists>g. db_positions db' = update_where (\<lambda>p. pp_account_id p = ?a \<and> pp_symbol p = ?s)
           (\<lambda>p. p\<lparr>pp_quantity := remaining, pp_margin_used := remainingMargin, pp_realized_pnl := g, pp_updated_at := now\<rparr>) (db_positions db))"
    using result by (auto simp: Let_def rbind_Inr_iff cancelOrphanedReduceOrders_def f_def [abs_def] split: if_splits)
  note u = position_row_unique [OF assms(2) Some] and mn = min_Inr [OF h(2) [unfolded q]]
    and sub = subtract_Inr [OF h(5) [unfolded q]] subtract_Inr [OF h(6)] and rel = divide_Inr [OF h(4)]
  have ok: "position_ok p" using u by blast
  have qc: "canonical_decimal q" "dec_val q \<le> dec_val rq" using mn ok assms(3) by (auto simp: position_ok_def)
  have sign: "fill_sign (pr_side row) = - opening_sign (pp_side p)" using h(1) by (auto simp: fill_sign_def opening_sign_def split: if_splits)
  have "\<exists>m. position_change row (dec_val q) m (db_positions db) (db_positions db') \<and> m \<le> - dec_val released"
    using positions
  proof (elim disjE conjE exE)
    assume "remaining = ''0''" "db_positions db' = filter (\<lambda>p. \<not> (pp_account_id p = ?a \<and> pp_symbol p = ?s)) (db_positions db)"
    then show ?thesis
      using position_leaves [OF assms(2) Some, of "dec_val q" "- dec_val (pp_margin_used p)"] sub sign by auto
  next
    fix g
    assume r: "remaining \<noteq> ''0''" "db_positions db' = update_where (\<lambda>p. pp_account_id p = ?a \<and> pp_symbol p = ?s)
           (\<lambda>p. p\<lparr>pp_quantity := remaining, pp_margin_used := remainingMargin, pp_realized_pnl := g, pp_updated_at := now\<rparr>) (db_positions db)"
    have "0 < dec_val remaining" using r(1) sub(1) canonical_zero_iff canonical_nonneg [of remaining] by force
    then have "position_change row (dec_val q) (- dec_val released) (db_positions db) (db_positions db')"
      unfolding r(2) using sub sign by (intro position_changes [OF assms(2) Some]) (simp_all add: position_ok_def)
    then show ?thesis by blast
  qed
  then obtain m where change: "position_change row (dec_val q) m (db_positions db) (db_positions db')" "m \<le> - dec_val released" by blast
  note a = account_row_unique [OF assms(2) h(7)]
  have row: "account_ok T (db_positions db') (f r) \<and> sdec_val equity - sdec_val realized = sdec_val (pa_equity r) - sdec_val (pa_realized_pnl r)"
    if "r \<in> set (db_accounts db)" "pa_account_id r = ?a" for r
    using closing_account [OF _ signedMultiply_Inr [OF h(3)] _ h(8-11), of T "db_positions db" "db_positions db'" now] a that change rel
    by (auto simp: f_def position_change_def)
  have "money_ok T (db_accounts db') (db_positions db')"
    unfolding accounts by (rule money_changes [OF assms(2) change(1)]) (use row in \<open>auto simp: f_def\<close>)
  moreover have "paid_in db' = paid_in db"
    unfolding paid_in_def accounts using row by (auto simp: update_where_def f_def)
  ultimately show ?thesis using change(1) fills orders qc by blast
qed


text \<open>Cancelling live orders changes neither what is executed nor how it is accounted for.\<close>

lemma cancel_keeps:
  fixes now :: int
  assumes "orders_ok rs fs" "\<And>r. r \<in> set rs \<Longrightarrow> P r \<Longrightarrow> is_live (pr_status r)"
  defines "rs' \<equiv> update_where P (\<lambda>r. r\<lparr>pr_status := Status_cancelled, pr_updated_at := now\<rparr>) rs"
  shows "orders_ok rs' fs" "executed rs' = executed rs"
    "r \<in> set rs \<Longrightarrow> \<exists>r'\<in>set rs'. pr_exchange_order_id r' = pr_exchange_order_id r \<and> pr_account_id r' = pr_account_id r \<and> pr_symbol r' = pr_symbol r \<and>
       pr_side r' = pr_side r \<and> pr_quantity r' = pr_quantity r \<and> pr_filled_quantity r' = pr_filled_quantity r"
proof -
  have "order_ok fs (r\<lparr>pr_status := Status_cancelled, pr_updated_at := now\<rparr>)" if "r \<in> set rs" "P r" for r
    using assms(1) assms(2) [OF that] that(1) by (auto simp: orders_ok_def order_ok_def is_live_def)
  moreover have keys: "map pr_exchange_order_id rs' = map pr_exchange_order_id rs" by (simp add: rs'_def update_where_def)
  moreover have "pr_exchange_order_id ` set rs' = pr_exchange_order_id ` set rs" using keys by (metis list.set_map)
  ultimately show "orders_ok rs' fs" using assms(1) by (auto simp: orders_ok_def rs'_def update_where_set)
  show "executed rs' = executed rs" by (intro ext) (simp add: executed_def rs'_def sum_update cong: if_cong)
  show "r \<in> set rs \<Longrightarrow> \<exists>r'\<in>set rs'. pr_exchange_order_id r' = pr_exchange_order_id r \<and> pr_account_id r' = pr_account_id r \<and> pr_symbol r' = pr_symbol r \<and>
       pr_side r' = pr_side r \<and> pr_quantity r' = pr_quantity r \<and> pr_filled_quantity r' = pr_filled_quantity r"
    by (intro bexI [of _ "if P r then r\<lparr>pr_status := Status_cancelled, pr_updated_at := now\<rparr> else r"]) (auto simp: rs'_def update_where_set)
qed

text \<open>Recording a fill of one order.\<close>

lemma fill_keeps:
  assumes ok: "orders_ok rs fs" and r0: "r0 \<in> set rs" "pr_exchange_order_id r0 = i"
    and new: "order_ok fs' (r0\<lparr>pr_status := st, pr_filled_quantity := c, pr_average_price := av, pr_updated_at := now\<rparr>)"
      "dec_val c = dec_val (pr_filled_quantity r0) + q"
    and fs': "\<And>j. j \<noteq> i \<Longrightarrow> filled_of fs' j = filled_of fs j" "\<forall>f\<in>set fs'. f \<in> set fs \<or> pf_exchange_order_id f = i"
  defines "rs' \<equiv> update_where (\<lambda>r. pr_exchange_order_id r = i) (\<lambda>r. r\<lparr>pr_status := st, pr_filled_quantity := c, pr_average_price := av, pr_updated_at := now\<rparr>) rs"
  shows "orders_ok rs' fs'"
    "executed rs' a s = executed rs a s + (if a = pr_account_id r0 \<and> s = pr_symbol r0 then fill_sign (pr_side r0) * q else 0)"
proof -
  have d: "distinct (map pr_exchange_order_id rs)" using ok by (simp add: orders_ok_def)
  have uniq: "r = r0" if "r \<in> set rs" "pr_exchange_order_id r = i" for r
    using d that r0 by (auto simp: distinct_map inj_on_def)
  have keys: "map pr_exchange_order_id rs' = map pr_exchange_order_id rs" by (simp add: rs'_def update_where_def)
  then have "pr_exchange_order_id ` set rs' = pr_exchange_order_id ` set rs" by (metis list.set_map)
  moreover have "order_ok fs' r" if r: "r \<in> set rs'" for r
  proof -
    from r obtain x where x: "x \<in> set rs" "r = (if pr_exchange_order_id x = i
        then x\<lparr>pr_status := st, pr_filled_quantity := c, pr_average_price := av, pr_updated_at := now\<rparr> else x)"
      unfolding rs'_def update_where_set by blast
    show ?thesis
    proof (cases "pr_exchange_order_id x = i")
      case False
      then have "order_ok fs x" "r = x" "filled_of fs' (pr_exchange_order_id x) = filled_of fs (pr_exchange_order_id x)"
        using x ok fs'(1) by (simp_all add: orders_ok_def)
      then show ?thesis unfolding order_ok_def by metis
    qed (use x new(1) uniq in simp)
  qed
  ultimately show "orders_ok rs' fs'" using d keys ok fs'(2) r0 by (auto simp: orders_ok_def)
  have "find (\<lambda>r. pr_exchange_order_id r = i) rs = Some r0"
  proof (cases "find (\<lambda>r. pr_exchange_order_id r = i) rs")
    case (Some r)
    then show ?thesis using find_in uniq by fastforce
  qed (use r0 in \<open>auto simp: find_None_iff\<close>)
  then have only: "filter (\<lambda>r. pr_exchange_order_id r = i) rs = [r0]" using find_filter [OF d] by blast
  show "executed rs' a s = executed rs a s + (if a = pr_account_id r0 \<and> s = pr_symbol r0 then fill_sign (pr_side r0) * q else 0)"
    unfolding executed_def rs'_def sum_update only using new(2) by (simp add: distrib_left)
qed


text \<open>What a step leaves untouched, and that a fill keeps the invariant.\<close>

lemma filled_of_append: "filled_of (fs @ [f]) i = filled_of fs i + (if pf_exchange_order_id f = i then dec_val (pf_quantity f) else 0)"
  by (simp add: filled_of_def)

lemma fill_moves:
  assumes "(if pr_reduce_only row then updateClosingPosition options row rq price now db
            else rbind (updateOpeningPosition row rq price now db) (\<lambda>opened. Inr ((rq, False), opened))) = Inr ((q, flat), moved)"
    "paper_ok T db" "canonical_decimal rq" "0 < dec_val rq" "row \<in> set (db_orders db)"
  shows "\<exists>m. position_change row (dec_val q) m (db_positions db) (db_positions moved)"
    "money_ok T (db_accounts moved) (db_positions moved)" "db_fills moved = db_fills db" "paid_in moved = paid_in db"
    "canonical_decimal q" "dec_val q \<le> dec_val rq" "orders_ok (db_orders moved) (db_fills db)" "executed (db_orders moved) = executed (db_orders db)"
    "\<exists>r\<in>set (db_orders moved). pr_exchange_order_id r = pr_exchange_order_id row \<and> pr_account_id r = pr_account_id row \<and> pr_symbol r = pr_symbol row \<and>
       pr_side r = pr_side row \<and> pr_quantity r = pr_quantity row \<and> pr_filled_quantity r = pr_filled_quantity row"
proof -
  have ok: "money_ok T (db_accounts db) (db_positions db)" "orders_ok (db_orders db) (db_fills db)" using assms(2) by (simp_all add: paper_ok_def)
  have "(\<exists>m. position_change row (dec_val q) m (db_positions db) (db_positions moved)) \<and> money_ok T (db_accounts moved) (db_positions moved) \<and>
    db_fills moved = db_fills db \<and> paid_in moved = paid_in db \<and> canonical_decimal q \<and> dec_val q \<le> dec_val rq \<and>
    (db_orders moved = db_orders db \<or> db_orders moved = db_orders (cancelOrphanedReduceOrders (pr_account_id row) (pr_symbol row) now db))"
  proof (cases "pr_reduce_only row")
    case True
    then show ?thesis using closing_effect [OF _ ok(1) assms(3)] assms(1) by (simp only: if_True)
  next
    case False
    then have "updateOpeningPosition row rq price now db = Inr moved" "q = rq" using assms(1) by (auto simp: rbind_Inr_iff)
    then show ?thesis using opening_effect [OF _ ok(1) assms(3,4)] assms(3) by simp
  qed
  note effect = this
  from effect show "\<exists>m. position_change row (dec_val q) m (db_positions db) (db_positions moved)"
    "money_ok T (db_accounts moved) (db_positions moved)" "db_fills moved = db_fills db" "paid_in moved = paid_in db"
    "canonical_decimal q" "dec_val q \<le> dec_val rq" by blast+
  from effect have orders: "db_orders moved = db_orders db \<or>
      db_orders moved = db_orders (cancelOrphanedReduceOrders (pr_account_id row) (pr_symbol row) now db)" by blast
  let ?P = "\<lambda>r :: paper_order_row. pr_account_id r = pr_account_id row \<and> pr_symbol r = pr_symbol row \<and> pr_reduce_only r \<and> is_live (pr_status r)"
  note c = cancel_keeps [where P = ?P and now = now, OF ok(2)]
  show "orders_ok (db_orders moved) (db_fills db)" "executed (db_orders moved) = executed (db_orders db)"
    "\<exists>r\<in>set (db_orders moved). pr_exchange_order_id r = pr_exchange_order_id row \<and> pr_account_id r = pr_account_id row \<and> pr_symbol r = pr_symbol row \<and>
       pr_side r = pr_side row \<and> pr_quantity r = pr_quantity row \<and> pr_filled_quantity r = pr_filled_quantity row"
    using orders ok(2) assms(5) c by (auto simp: cancelOrphanedReduceOrders_def)
qed

lemma requested_quantity:
  assumes "order_ok fs row" "is_live (pr_status row)" "options_ok options"
    "subtractDecimal (pr_quantity row) (pr_filled_quantity row) = Inr remaining"
    "minDecimal [remaining, case px_maximumFillQuantity options of None \<Rightarrow> remaining | Some m \<Rightarrow> m] = Inr requested"
  shows "canonical_decimal requested" "0 < dec_val requested" "dec_val (pr_filled_quantity row) + dec_val requested \<le> dec_val (pr_quantity row)"
proof -
  note s = subtract_Inr [OF assms(4)] and m = min_Inr [OF assms(5)]
  have pos: "0 < dec_val remaining" using assms(1,2) s by (auto simp: order_ok_def is_live_def)
  show "canonical_decimal requested" "0 < dec_val requested"
    using m(1) s pos assms(3) by (auto simp: options_ok_def split: option.splits)
  show "dec_val (pr_filled_quantity row) + dec_val requested \<le> dec_val (pr_quantity row)" using m(2) [of remaining] s by auto
qed

lemma fill_status_ok:
  assumes "canonical_decimal cumulative" "c = rat_cmp (dec_val cumulative) (dec_val quantity)"
  shows "fill_status options cumulative flat c = Status_filled \<longleftrightarrow> dec_val cumulative = dec_val quantity"
    "fill_status options cumulative flat c = Status_open \<longrightarrow> dec_val cumulative = 0"
    "fill_status options cumulative flat c = Status_partially_filled \<longrightarrow> 0 < dec_val cumulative"
  using assms canonical_zero_iff [OF assms(1)] canonical_nonneg [OF assms(1)] by (auto simp: fill_status_def rat_cmp_def split: if_splits)


lemma fillOrder_ok:
  assumes "fillOrder env options row mark now imm db = Inr (out, db')" "paper_ok T db" "row \<in> set (db_orders db)" "is_live (pr_status row)" "options_ok options"
  shows "paper_ok T db' \<and> paid_in db' = paid_in db \<and> (\<exists>after. out = Some after \<and> order_row db' (pr_exchange_order_id row) = Some after)"
proof -
  let ?i = "pr_exchange_order_id row"
  let ?settled = "\<lambda>moved cumulative flat c average. moved\<lparr>db_orders := update_where (\<lambda>r. pr_exchange_order_id r = ?i)
    (\<lambda>r. r\<lparr>pr_status := fill_status options cumulative flat c, pr_filled_quantity := cumulative, pr_average_price := average, pr_updated_at := now\<rparr>)
    (db_orders moved)\<rparr>"
  define price where "price = (case imm of Some p \<Rightarrow> p | None \<Rightarrow> if pr_order_type row = Limit_planned then nullable (pr_price row) else mark)"
  obtain remaining requested q flat moved cumulative c average where h:
    "subtractDecimal (pr_quantity row) (pr_filled_quantity row) = Inr remaining"
    "minDecimal [remaining, case px_maximumFillQuantity options of None \<Rightarrow> remaining | Some m \<Rightarrow> m] = Inr requested"
    "(if pr_reduce_only row then updateClosingPosition options row requested price now db
      else rbind (updateOpeningPosition row requested price now db) (\<lambda>opened. Inr ((requested, False), opened))) = Inr ((q, flat), moved)"
    "addSignedDecimal (pr_filled_quantity row) q = Inr cumulative" "compareDecimal cumulative (pr_quantity row) = Inr c"
    and rest: "rbind (if q = ''0'' then Inr (?settled moved cumulative flat c average)
             else (case random_uuid env (?settled moved cumulative flat c average) of (u, drawn) \<Rightarrow>
               insert_fill \<lparr>pf_exchange_fill_id = ''paper-fill-'' @ u, pf_exchange_order_id = ?i,
                 pf_account_id = pr_account_id row, pf_client_order_id = pr_client_order_id row, pf_price = price, pf_quantity = q,
                 pf_fee = ''0'', pf_fee_asset = None, pf_filled_at = now,
                 pf_raw = JObj [(''paper'', JBool True), (''orderId'', JStr ?i), (''markPrice'', JStr mark)]\<rparr> drawn)) (\<lambda>recorded.
        Inr (order_row recorded ?i, recorded)) = Inr (out, db')"
    using assms(1) unfolding fillOrder_def Let_def price_def [symmetric] rbind_Inr_iff split_paired_Ex prod.case by blast
  have row: "order_ok (db_fills db) row" using assms(2,3) by (simp add: paper_ok_def orders_ok_def)
  note rq = requested_quantity [OF row assms(4,5) h(1,2)]
  note mv = fill_moves [OF h(3) assms(2) rq(1,2) assms(3)]
  note cum = add_decimal_Inr [OF h(4) _ mv(5)] and cmp = compare_Inr [OF h(5)]
  have cumulative: "canonical_decimal cumulative" "dec_val cumulative = dec_val (pr_filled_quantity row) + dec_val q"
    using cum row by (simp_all add: order_ok_def)
  obtain r0 where r0: "r0 \<in> set (db_orders moved)" "pr_exchange_order_id r0 = ?i" "pr_account_id r0 = pr_account_id row" "pr_symbol r0 = pr_symbol row"
    "pr_side r0 = pr_side row" "pr_quantity r0 = pr_quantity row" "pr_filled_quantity r0 = pr_filled_quantity row" using mv(9) by blast
  define fs where "fs = db_fills db'"
  have db': "db_accounts db' = db_accounts moved" "db_positions db' = db_positions moved" "out = order_row db' ?i"
    "db_orders db' = update_where (\<lambda>r. pr_exchange_order_id r = ?i) (\<lambda>r. r\<lparr>pr_status := fill_status options cumulative flat c,
       pr_filled_quantity := cumulative, pr_average_price := average, pr_updated_at := now\<rparr>) (db_orders moved)"
    "q = ''0'' \<and> fs = db_fills db \<or> (\<exists>f. fs = db_fills db @ [f] \<and> pf_exchange_order_id f = ?i \<and> pf_quantity f = q)"
    using rest mv(3) by (auto simp: Let_def rbind_Inr_iff random_uuid_def insert_fill_def fs_def split: if_splits)
  have fills: "filled_of fs j = filled_of (db_fills db) j + (if j = ?i then dec_val q else 0)" "\<forall>f\<in>set fs. f \<in> set (db_fills db) \<or> pf_exchange_order_id f = ?i" for j
    using db'(5) by (auto simp: filled_of_append)
  have le: "dec_val cumulative \<le> dec_val (pr_quantity row)" using cumulative(2) rq(3) mv(6) by simp
  have "order_ok fs (r0\<lparr>pr_status := fill_status options cumulative flat c, pr_filled_quantity := cumulative, pr_average_price := average, pr_updated_at := now\<rparr>)"
    using row r0 cumulative fills(1) [of ?i] le fill_status_ok [OF cumulative(1), of c "pr_quantity row" options flat] cmp by (simp add: order_ok_def)
  note keep = fill_keeps [OF mv(7) r0(1,2) this _ _ fills(2), of "dec_val q"]
  have orders: "orders_ok (db_orders db') fs" "executed (db_orders db') a s = executed (db_orders db) a s +
      (if a = pr_account_id row \<and> s = pr_symbol row then fill_sign (pr_side row) * dec_val q else 0)" for a s
    using keep cumulative(2) r0 fills(1) mv(8) by (simp_all add: db'(4))
  have "executed (db_orders db') a s = held (db_positions db') a s" for a s
    using orders(2) mv(1) assms(2) by (auto simp: db'(2) position_change_def paper_ok_def)
  then have "paper_ok T db'" using mv(2) orders(1) by (simp add: paper_ok_def db'(1,2) fs_def)
  moreover have "paid_in db' = paid_in db" using mv(4) by (simp add: paid_in_def db'(1))
  moreover have "\<exists>after. order_row db' ?i = Some after"
    using r0(1,2) by (auto simp: order_row_def find_None_iff db'(4) update_where_set simp flip: not_None_eq)
  ultimately show ?thesis using db'(3) by auto
qed


section \<open>Every call keeps the invariant\<close>

abbreviation keeps :: "string set \<Rightarrow> paper_db \<Rightarrow> paper_db \<Rightarrow> bool" where
  "keeps T db db' \<equiv> paper_ok T db' \<and> paid_in db' = paid_in db"

lemma settle_ok: "settleOpenOrders env options a s mark now db = Inr db' \<Longrightarrow> paper_ok T db \<Longrightarrow> options_ok options \<Longrightarrow> keeps T db db'"
proof -
  define step where "step = (\<lambda>state (order :: paper_order_row). case order_row state (pr_exchange_order_id order) of
           None \<Rightarrow> Inr state
         | Some current \<Rightarrow>
             if \<not> is_live (pr_status current) then Inr state
             else rbind (orderCanFill current mark) (\<lambda>can.
               if can then rbind (fillOrder env options current mark now None state) (\<lambda>(_, filled). Inr filled) else Inr state))"
  have one: "keeps T state state'" if "step state order = Inr state'" "paper_ok T state" "options_ok options" for state state' and order :: paper_order_row
    using that unfolding step_def order_row_def
    by (auto simp: rbind_Inr_iff split: option.splits if_splits dest!: fillOrder_ok intro: find_in [THEN conjunct1])
  have "keeps T state state'" if "foldM step state rs = Inr state'" "paper_ok T state" "options_ok options" for state state' rs
    using that
  proof (induction rs arbitrary: state)
    case (Cons r rs)
    then obtain m where "step state r = Inr m" "foldM step m rs = Inr state'" by (auto simp: rbind_Inr_iff)
    then show ?case using one Cons by metis
  qed simp
  then show "settleOpenOrders env options a s mark now db = Inr db' \<Longrightarrow> paper_ok T db \<Longrightarrow> options_ok options \<Longrightarrow> keeps T db db'"
    unfolding settleOpenOrders_def step_def [symmetric] by blast
qed

lemma setMarket_ok:
  assumes "setMarket env options a market now db = Inr db'" "paper_ok T db" "options_ok options"
  shows "keeps T db db'"
proof -
  obtain row db1 s mark where h: "upsert_market row db = Inr db1" "settleOpenOrders env options a s mark now db1 = Inr db'"
    using assms(1) by (auto simp: setMarket_def Let_def rbind_Inr_iff split: if_splits)
  have "keeps T db db1" using h(1) assms(2) by (auto simp: upsert_market_def paper_ok_def paid_in_def split: if_splits)
  then show ?thesis using settle_ok [OF h(2) _ assms(3)] by auto
qed

lemma insert_ok:
  assumes "insert_order (new_order_row i a request quantity now) (snd (random_uuid env db)) = Inr db'" "paper_ok T db"
    "canonical_decimal quantity" "0 < dec_val quantity"
  shows "keeps T db db' \<and> new_order_row i a request quantity now \<in> set (db_orders db')"
proof -
  define row where "row = new_order_row i a request quantity now"
  have row: "pr_exchange_order_id row = i" "pr_filled_quantity row = ''0''" "pr_quantity row = quantity" "pr_status row = Status_open"
    by (simp_all add: row_def new_order_row_def Let_def)
  have h: "i \<notin> pr_exchange_order_id ` set (db_orders db)" "db_orders db' = db_orders db @ [row]" "db_fills db' = db_fills db"
      "db_accounts db' = db_accounts db" "db_positions db' = db_positions db"
    using assms(1) row(1) by (auto simp: insert_order_def random_uuid_def row_def [symmetric] split: if_splits)
  have "filled_of (db_fills db) i = (\<Sum>f\<leftarrow>db_fills db. 0)"
    unfolding filled_of_def using h(1) assms(2) by (intro arg_cong [where f = sum_list] map_cong) (auto simp: paper_ok_def orders_ok_def)
  then have "order_ok (db_fills db) row" using assms(3,4) row by (simp add: order_ok_def)
  then have "orders_ok (db_orders db') (db_fills db')" using assms(2) h row(1) by (auto simp: paper_ok_def orders_ok_def)
  moreover have "executed (db_orders db') a' s = executed (db_orders db) a' s" for a' s using row(2) by (simp add: executed_def h(2))
  ultimately show ?thesis using assms(2) h by (simp add: paper_ok_def paid_in_def row_def)
qed

lemma cancel_row_ok:
  assumes "paper_ok T db" "\<And>r. r \<in> set (db_orders db) \<Longrightarrow> P r \<Longrightarrow> is_live (pr_status r)"
  shows "keeps T db (db\<lparr>db_orders := update_where P (\<lambda>r. r\<lparr>pr_status := Status_cancelled, pr_updated_at := now\<rparr>) (db_orders db)\<rparr>)"
  using assms(1) cancel_keeps(1,2) [where P = P and now = now and rs = "db_orders db" and fs = "db_fills db"] assms(2)
  by (simp add: paper_ok_def paid_in_def)

lemma order_row_found:
  assumes "paper_ok T db" "r \<in> set (db_orders db)"
  shows "order_row db (pr_exchange_order_id r) = Some r"
proof (cases "order_row db (pr_exchange_order_id r)")
  case (Some x)
  then have "x \<in> set (db_orders db)" "pr_exchange_order_id x = pr_exchange_order_id r" using find_in unfolding order_row_def by fastforce+
  then show ?thesis using Some assms by (auto simp: paper_ok_def orders_ok_def distinct_map inj_on_def)
qed (use assms(2) in \<open>auto simp: order_row_def find_None_iff\<close>)

lemma submitOrder_ok:
  assumes "submitOrder env options account request now db = Inr (res, db')" "paper_ok T db" "options_ok options"
  shows "keeps T db db'"
proof (cases "find (\<lambda>r. pr_account_id r = ta_id account \<and> pr_client_order_id r = po_clientOrderId (rq_order request)) (db_orders db)")
  case (Some r)
  then show ?thesis using assms by (auto simp: submitOrder_def rbind_Inr_iff)
next
  case None
  obtain u drawn where ru: "random_uuid env db = (u, drawn)" by fastforce
  define row where "row q = new_order_row (''paper-order-'' @ u) (ta_id account) request q now" for q
  obtain market :: market_snapshot and q inserted can out filled after where h: "decimal_positive (po_quantity (rq_order request)) = Inr q"
    "insert_order (row q) drawn = Inr inserted"
    "(if can then fillOrder env options (row q) (ms_markPrice market) now
        (if po_timeInForce (rq_order request) = Some IOC then Some (ms_markPrice market) else None) inserted else Inr (Some (row q), inserted)) = Inr (out, filled)"
    "out = Some after" and rest: "(if po_timeInForce (rq_order request) = Some IOC \<and> is_live (pr_status after)
       then (case cancel_unfilled now after filled of (cancelled, final) \<Rightarrow> Inr (orderResult cancelled, final))
       else Inr (orderResult after, filled)) = (Inr (res, db') :: (exchange_order_result \<times> paper_db) result)"
    using assms(1) unfolding submitOrder_def None ru prod.case option.case Let_def rbind_Inr_iff split_paired_Ex case_Inr row_def [symmetric]
    by blast
  have final: "db' = filled \<or> is_live (pr_status after) \<and> db' = snd (cancel_unfilled now after filled)"
    using rest by (auto split: if_splits prod.splits)
  have q: "canonical_decimal q" "0 < dec_val q"
    using h(1) canonical_nonneg [of q] by (auto simp: decimal_positive_Inr_iff less_le)
  have drawn: "drawn = snd (random_uuid env db)" by (simp add: ru)
  note ins = insert_ok [OF h(2) [unfolded row_def drawn] assms(2) q, folded row_def]
  have live: "is_live (pr_status (row q))" by (simp add: row_def new_order_row_def is_live_def Let_def)
  have "keeps T inserted filled \<and> (\<exists>i. order_row filled i = Some after \<and> pr_exchange_order_id after = i)"
  proof (cases can)
    case True
    then show ?thesis using h(3,4) fillOrder_ok [OF _ _ _ live assms(3)] ins find_in unfolding order_row_def by fastforce
  next
    case False
    then have "filled = inserted" "after = row q" using h(3,4) by auto
    then show ?thesis using ins order_row_found [of _ inserted "row q"] by blast
  qed
  then obtain i where f: "keeps T db filled" "order_row filled i = Some after" "pr_exchange_order_id after = i" using ins by auto
  have "is_live (pr_status r)" if "is_live (pr_status after)" "r \<in> set (db_orders filled)" "pr_exchange_order_id r = i" for r
    using that f find_in [of _ "db_orders filled" after] by (auto simp: order_row_def paper_ok_def orders_ok_def distinct_map inj_on_def)
  then show ?thesis
    using final f cancel_row_ok [of _ filled "\<lambda>r. pr_exchange_order_id r = i" now] by (auto simp: cancel_unfilled_def)
qed

lemma cancelOrder_ok: "cancelOrder account i now db = Inr (res, db') \<Longrightarrow> paper_ok T db \<Longrightarrow> keeps T db db'"
  using cancel_row_ok [of _ db "\<lambda>r. pr_account_id r = ta_id account \<and> pr_client_order_id r = i \<and> is_live (pr_status r)" now]
  by (auto simp: cancelOrder_def Let_def rbind_Inr_iff split: option.splits)

text \<open>Setting a balance by hand: the account it names is no longer known to cover its margins, the others are untouched.\<close>

fun sets_balance :: "string \<Rightarrow> paper_event \<Rightarrow> bool" where
  "sets_balance a (Set_balance b _ _ _) \<longleftrightarrow> b = a"
| "sets_balance a _ \<longleftrightarrow> False"

definition covered :: "paper_db \<Rightarrow> string \<Rightarrow> bool" where
  "covered db a \<longleftrightarrow> list_all (\<lambda>r. pa_account_id r = a \<longrightarrow>
     sdec_val (pa_available_balance r) + margin_of (db_positions db) a \<le> sdec_val (pa_equity r)) (db_accounts db)"

lemma paper_ok_covered: "paper_ok T db \<longleftrightarrow> paper_ok {} db \<and> (\<forall>a\<in>T. covered db a)"
  by (auto simp: paper_ok_def money_ok_def account_ok_def covered_def list_all_iff)

lemma paid_in_update:
  assumes "b \<noteq> a"
  shows "map_of (paid_in (db\<lparr>db_accounts := update_where (\<lambda>r. pa_account_id r = a)
     (\<lambda>r. r\<lparr>pa_equity := e, pa_available_balance := v, pa_updated_at := now\<rparr>) (db_accounts db)\<rparr>)) b = map_of (paid_in db) b"
proof -
  have "map_of (map (\<lambda>r. (pa_account_id r, sdec_val (pa_equity r) - sdec_val (pa_realized_pnl r))) (update_where (\<lambda>r. pa_account_id r = a)
      (\<lambda>r. r\<lparr>pa_equity := e, pa_available_balance := v, pa_updated_at := now\<rparr>) rs)) b =
    map_of (map (\<lambda>r. (pa_account_id r, sdec_val (pa_equity r) - sdec_val (pa_realized_pnl r))) rs) b" for rs :: "paper_account_row list"
    using assms by (induction rs) (auto simp: update_where_def)
  then show ?thesis by (simp add: paid_in_def)
qed

lemma setBalance_ok:
  assumes "setBalance a equity available now db = Inr db'" "paper_ok T db" "a \<notin> T"
  shows "paper_ok T db' \<and> (\<forall>b. b \<noteq> a \<longrightarrow> map_of (paid_in db') b = map_of (paid_in db) b)"
proof -
  obtain e v where h: "canonical_signed e" "canonical_signed v" and
    db': "db' = db\<lparr>db_accounts := update_where (\<lambda>r. pa_account_id r = a) (\<lambda>r. r\<lparr>pa_equity := e, pa_available_balance := v, pa_updated_at := now\<rparr>) (db_accounts db)\<rparr>"
    using assms(1) by (auto simp: setBalance_def rbind_Inr_iff decimal_positive_Inr_iff decimal_Inr_iff intro!: canonical_is_signed)
  have "money_ok T (db_accounts db') (db_positions db)"
    using assms(2,3) h by (auto simp: db' paper_ok_def account_ok_def money_ok_def update_where_keys update_where_set)
  then show ?thesis using assms(2) by (simp add: paper_ok_def db' paid_in_update)
qed

lemma paper_step_ok:
  assumes "options_ok options \<and> paper_ok T db" "\<forall>a\<in>T. \<not> sets_balance a e"
  shows "paper_ok T (paper_step env options db e) \<and>
    (\<forall>a. \<not> sets_balance a e \<longrightarrow> map_of (paid_in (paper_step env options db e)) a = map_of (paid_in db) a)"
proof (cases e)
  case (Set_balance a equity available now)
  then show ?thesis using assms by (auto split: sum.splits dest!: setBalance_ok)
next
  case (Submit_protected account entry stop now later)
  have "keeps T db db'" if "submitProtectedEntry env options account entry stop now later db = Inr (res, db')" for res db'
    using that assms(1) by (auto simp: submitProtectedEntry_def rbind_Inr_iff dest!: submitOrder_ok)
  then show ?thesis using assms(1) Submit_protected by (auto simp: committed_def split: sum.splits)
qed (use assms(1) in \<open>auto simp: committed_def split: sum.splits dest: setMarket_ok submitOrder_ok cancelOrder_ok\<close>)

interpretation paper: invariant_system "paper_step env options" "\<lambda>db. options_ok options \<and> paper_ok {} db"
  for env options
  by unfold_locales (use paper_step_ok [where T = "{}"] in blast)

lemma paper_run_ok:
  assumes "options_ok options \<and> paper_ok T db" "T \<subseteq> {a}" "list_all (\<lambda>e. \<not> sets_balance a e) es"
  shows "paper_ok T (foldl (paper_step env options) db es) \<and> map_of (paid_in (foldl (paper_step env options) db es)) a = map_of (paid_in db) a"
  using assms
proof (induction es arbitrary: db)
  case (Cons e es)
  then have "\<forall>b\<in>T. \<not> sets_balance b e" by auto
  note step = paper_step_ok [OF Cons.prems(1) this, of env]
  then show ?case using Cons.IH [of "paper_step env options db e"] Cons.prems by auto
qed simp

lemma new_adapter_ok: "new_paper_adapter m p = Inr options \<Longrightarrow> options_ok options"
  using dec_val_nonneg
  by (auto simp: new_paper_adapter_def options_ok_def rbind_Inr_iff decimal_positive_Inr_iff less_le split: option.splits if_splits)


section \<open>The ledger over any history\<close>

definition fresh_tables :: "paper_db \<Rightarrow> bool" where
  "fresh_tables db \<longleftrightarrow> db_orders db = [] \<and> db_positions db = [] \<and> db_fills db = [] \<and> distinct (map pa_account_id (db_accounts db)) \<and>
     list_all (\<lambda>r. signedDecimal (pa_equity r) = Inr (pa_equity r) \<and> signedDecimal (pa_available_balance r) = Inr (pa_available_balance r) \<and>
       signedDecimal (pa_realized_pnl r) = Inr (pa_realized_pnl r) \<and> sdec_val (pa_available_balance r) \<le> sdec_val (pa_equity r)) (db_accounts db)"

lemma fresh_ok: "fresh_tables db \<Longrightarrow> paper_ok T db"
proof -
  assume f: "fresh_tables db"
  have "account_ok T [] r" if "r \<in> set (db_accounts db)" for r
    using f that by (auto simp: fresh_tables_def list_all_iff account_ok_def margin_of_def intro: signedDecimal_InrD(1))
  then show ?thesis using f by (simp add: fresh_tables_def paper_ok_def money_ok_def orders_ok_def executed_def held_def)
qed


definition sample_account :: trading_account where
  "sample_account = \<lparr>ta_id = ''a'', ta_name = ''sim'', ta_exchange = ''paper'', ta_mode = Paper, ta_status = Ready, ta_enabled = True,
     ta_credentialRef = None, ta_externalAccountId = None, ta_credentialGeneration = None, ta_maxConcurrentPositions = 3, ta_killSwitchActive = False,
     ta_killSwitchReason = None, ta_capabilities = None, ta_lastVerifiedAt = None, ta_lastReconciledAt = None, ta_lastError = None,
     ta_createdAt = 0, ta_updatedAt = 0\<rparr>"

definition sample_paper_market :: "string \<Rightarrow> market_snapshot" where
  "sample_paper_market price = \<lparr>ms_symbol = ''btc'', ms_markPrice = price, ms_priceTick = ''1'', ms_quantityStep = ''0.001'', ms_minimumQuantity = ''0.001'',
     ms_minimumNotional = ''1'', ms_maxLeverage = 20, ms_observedAt = 0, ms_accounting = None, ms_leverageTiers = None\<rparr>"

definition sample_request :: "string \<Rightarrow> order_role \<Rightarrow> order_side \<Rightarrow> planned_order_type \<Rightarrow> string option \<Rightarrow> bool \<Rightarrow> exchange_order_request" where
  "sample_request i role side kind trigger reduce =
     \<lparr>rq_order = \<lparr>po_clientOrderId = i, po_role = role, po_side = side, po_orderType = kind, po_timeInForce = None, po_quantity = ''0.001'',
        po_price = None, po_triggerPrice = trigger, po_reduceOnly = reduce, po_postOnly = False, po_targetIndex = None\<rparr>,
      rq_entryExpiresAt = None, rq_entryPriceBoundary = None, rq_leverageTierDecision = None, rq_accountId = ''a'', rq_symbol = ''BTC'',
      rq_leverage = 3, rq_timeoutSeconds = 5\<rparr>"

definition sample_environment_paper :: paper_environment where
  "sample_environment_paper = \<lparr>pe_uuid = (\<lambda>n. show_int (int n)), pe_scan = (\<lambda>rows. rows)\<rparr>"

definition sample_tables :: paper_db where
  "sample_tables = \<lparr>db_account_ids = [''a''], db_accounts = [\<lparr>pa_account_id = ''a'', pa_equity = ''100'', pa_available_balance = ''100'',
     pa_realized_pnl = ''0'', pa_updated_at = 0\<rparr>], db_markets = [], db_orders = [], db_positions = [], db_fills = [], db_uuids = 0\<rparr>"

definition sample_history :: "paper_event list" where
  "sample_history = [Set_market ''a'' (sample_paper_market ''1000'') 1,
     Submit_protected sample_account (sample_request ''e'' Entry_role Buy Market_planned None False)
       (sample_request ''s'' Stop_loss Sell Stop_market (Some ''900'') True) 2 3,
     Set_market ''a'' (sample_paper_market ''890'') 4]"


text \<open>
  Closing a position in full does not give back its whole margin. The released share is computed by a
  product and a quotient that both round down, and what they cut off leaves with the deleted position:
  after buying and selling the same quantity at the same price no position is left, yet the available balance
  stays below the equity.
\<close>

lemma closed_position_keeps_margin:
  "let db = foldl (paper_step sample_environment_paper \<lparr>px_maximumFillQuantity = None, px_reduceOnlyRemainder = None\<rparr>) sample_tables
       [Set_market ''a'' (sample_paper_market ''1000'') 1, Submit sample_account (sample_request ''e'' Entry_role Buy Market_planned None False) 2,
        Submit sample_account (sample_request ''x'' Flatten Sell Market_planned None True) 3] in
   db_positions db = [] \<and> map (\<lambda>r. (pa_equity r, pa_available_balance r)) (db_accounts db) = [(''100'', ''99.999999999999999667'')]"
  by code_simp

end
