(* ===== verification/Concurrency_Queue.thy ===== *)
theory Concurrency_Queue
  imports Contracts JS_Values "HOL-Library.Sublist" "HOL-Library.Multiset"
begin

text \<open>
  The queue of asynchronous tasks (\<^verbatim>\<open>src/queue.ts\<close>). The state is that of the class: limits, the
  number of running tasks, the pending entries, the pause flag, one abort controller per running task
  and the callbacks waiting for an idle queue. A call of \<^verbatim>\<open>add\<close> or \<^verbatim>\<open>waitForIdle\<close> returns a promise;
  promises are numbered in the order of the calls, and the history of their settlements, of the calls
  of \<^verbatim>\<open>add\<close> that were queued and of the tasks that were started is kept so that theorems can speak of
  it. Timers and task completions are events of the environment.
\<close>

section \<open>State\<close>

datatype settlement = Resolved string | Drained bool | Rejected error

text \<open>The local state of one call of \<^verbatim>\<open>run\<close>: its controller and whether its caller was settled.\<close>

record active_task =
  at_id :: nat
  at_callerSettled :: bool
  at_timer :: "int option"
  at_abortReason :: "error option"

record queue_state =
  cq_maxConcurrency :: int
  cq_timeoutMs :: int
  cq_maxPending :: "int option"  \<comment> \<open>\<open>None\<close> for an infinite limit\<close>
  cq_running :: int
  cq_queue :: "nat list"
  cq_paused :: bool
  cq_active :: "active_task list"
  cq_idleWaiters :: "nat list"
  cq_promises :: nat
  cq_log :: "(nat \<times> settlement) list"
  cq_added :: "nat list"
  cq_started :: "nat list"

definition new_queue :: "int \<Rightarrow> int \<Rightarrow> int option \<Rightarrow> queue_state" where
  "new_queue maxConcurrency timeoutMs maxPending =
     \<lparr>cq_maxConcurrency = maxConcurrency, cq_timeoutMs = timeoutMs, cq_maxPending = maxPending, cq_running = 0, cq_queue = [],
      cq_paused = False, cq_active = [], cq_idleWaiters = [], cq_promises = 0, cq_log = [], cq_added = [], cq_started = []\<rparr>"

definition settle :: "nat \<Rightarrow> settlement \<Rightarrow> queue_state \<Rightarrow> queue_state" where
  "settle promise outcome s = s\<lparr>cq_log := cq_log s @ [(promise, outcome)]\<rparr>"


section \<open>Operations\<close>

definition isAtCapacity :: "queue_state \<Rightarrow> bool" where
  "isAtCapacity s \<longleftrightarrow> (case cq_maxPending s of None \<Rightarrow> False | Some m \<Rightarrow> int (length (cq_queue s)) \<ge> m)"

definition availableCapacity :: "queue_state \<Rightarrow> int" where
  "availableCapacity s = (case cq_maxPending s of None \<Rightarrow> max_safe_integer | Some m \<Rightarrow> max 0 (m - int (length (cq_queue s))))"

definition run :: "nat \<Rightarrow> queue_state \<Rightarrow> queue_state" where
  "run item s = s\<lparr>cq_running := cq_running s + 1,
     cq_active := cq_active s @ [\<lparr>at_id = item, at_callerSettled = False,
       at_timer = (if cq_timeoutMs s > 0 then Some (cq_timeoutMs s) else None), at_abortReason = None\<rparr>],
     cq_started := cq_started s @ [item]\<rparr>"

text \<open>\<^verbatim>\<open>next\<close>\<close>

definition next_task :: "queue_state \<Rightarrow> queue_state" where
  "next_task s =
     (if cq_paused s then s
      else if cq_running s \<ge> cq_maxConcurrency s then s
      else case cq_queue s of [] \<Rightarrow> s | item # rest \<Rightarrow> run item (s\<lparr>cq_queue := rest\<rparr>))"

definition add :: "bool \<Rightarrow> queue_state \<Rightarrow> queue_state" where
  "add is_function s =
     (let promise = cq_promises s; s = s\<lparr>cq_promises := promise + 1\<rparr> in
      if \<not> is_function then settle promise (Rejected (JsTypeError ''Task must be a function returning a Promise.'')) s
      else if isAtCapacity s then settle promise (Rejected (QueueCapacityError (case cq_maxPending s of None \<Rightarrow> 0 | Some m \<Rightarrow> m))) s
      else next_task (s\<lparr>cq_queue := cq_queue s @ [promise], cq_added := cq_added s @ [promise]\<rparr>))"

definition pause :: "queue_state \<Rightarrow> queue_state" where
  "pause s = s\<lparr>cq_paused := True\<rparr>"

definition resume :: "queue_state \<Rightarrow> queue_state" where
  "resume s = (if \<not> cq_paused s then s
     else (next_task ^^ nat (cq_maxConcurrency s)) (s\<lparr>cq_paused := False\<rparr>))"

definition clear :: "queue_state \<Rightarrow> queue_state" where
  "clear s = foldl (\<lambda>s item. settle item (Rejected (Error ''Queue was cleared.'')) s) (s\<lparr>cq_queue := []\<rparr>) (cq_queue s)"

definition abortRunning :: "string \<Rightarrow> queue_state \<Rightarrow> queue_state" where
  "abortRunning reason s = s\<lparr>cq_active := map (\<lambda>t. case at_abortReason t of
      None \<Rightarrow> t\<lparr>at_abortReason := Some (Error reason)\<rparr> | Some _ \<Rightarrow> t) (cq_active s)\<rparr>"

definition waitForIdle :: "js_number \<Rightarrow> queue_state \<Rightarrow> queue_state" where
  "waitForIdle timeoutMs s =
     (let promise = cq_promises s; s = s\<lparr>cq_promises := promise + 1\<rparr> in
      if cq_running s = 0 then settle promise (Drained True) s
      else case safe_integer_of (JNum timeoutMs) of
          None \<Rightarrow> settle promise (Rejected (Error ''Queue drain timeout must be a non-negative safe integer.'')) s
        | Some t \<Rightarrow>
            if t < 0 then settle promise (Rejected (Error ''Queue drain timeout must be a non-negative safe integer.'')) s
            else s\<lparr>cq_idleWaiters := cq_idleWaiters s @ [promise]\<rparr>)"

text \<open>\<^verbatim>\<open>Number.isFinite(value) && value >= least ? Math.floor(value) : current\<close>\<close>

definition setting :: "js_number \<Rightarrow> int \<Rightarrow> int \<Rightarrow> int" where
  "setting value least current = (case value of
       Num r \<Rightarrow> if r \<ge> of_int least then \<lfloor>r\<rfloor> else current
     | NegZero \<Rightarrow> if 0 \<ge> least then 0 else current
     | _ \<Rightarrow> current)"

definition updateSettings :: "js_number \<Rightarrow> js_number \<Rightarrow> queue_state \<Rightarrow> queue_state" where
  "updateSettings maxConcurrency timeoutMs s =
     (let s = s\<lparr>cq_maxConcurrency := setting maxConcurrency 1 (cq_maxConcurrency s), cq_timeoutMs := setting timeoutMs 0 (cq_timeoutMs s)\<rparr>
      in if cq_paused s then s else (next_task ^^ nat (cq_maxConcurrency s - cq_running s)) s)"

text \<open>The callbacks of \<^verbatim>\<open>run\<close>: the timer, and the completion of the task with its release of the slot.\<close>

definition task_timeout :: "nat \<Rightarrow> queue_state \<Rightarrow> queue_state" where
  "task_timeout item s = (case find (\<lambda>t. at_id t = item) (cq_active s) of
       None \<Rightarrow> s
     | Some task \<Rightarrow> (case at_timer task of
         None \<Rightarrow> s
       | Some ms \<Rightarrow>
           let s' = s\<lparr>cq_active := map (\<lambda>t. if at_id t \<noteq> item then t
             else if at_callerSettled t then t\<lparr>at_timer := None\<rparr>
             else t\<lparr>at_timer := None, at_callerSettled := True,
               at_abortReason := (case at_abortReason t of None \<Rightarrow> Some (Error ''AbortError'') | Some r \<Rightarrow> Some r)\<rparr>) (cq_active s)\<rparr>
           in if at_callerSettled task then s'
              else settle item (Rejected (Error (''Task timed out after '' @ show_int ms @ ''ms''))) s'))"

definition notify_idle :: "queue_state \<Rightarrow> queue_state" where
  "notify_idle s = foldl (\<lambda>s w. settle w (Drained True) s) (s\<lparr>cq_idleWaiters := []\<rparr>) (cq_idleWaiters s)"

definition releaseSlot :: "nat \<Rightarrow> queue_state \<Rightarrow> queue_state" where
  "releaseSlot item s =
     (let s = s\<lparr>cq_active := filter (\<lambda>t. at_id t \<noteq> item) (cq_active s), cq_running := cq_running s - 1\<rparr>;
          s = (if cq_running s = 0 then notify_idle s else s)
      in next_task s)"

definition task_finishes :: "nat \<Rightarrow> (error + string) \<Rightarrow> queue_state \<Rightarrow> queue_state" where
  "task_finishes item outcome s = (case find (\<lambda>t. at_id t = item) (cq_active s) of
       None \<Rightarrow> s
     | Some task \<Rightarrow>
         let s = releaseSlot item s in
         if at_callerSettled task then s
         else settle item (case outcome of Inl e \<Rightarrow> Rejected e | Inr v \<Rightarrow> Resolved v) s)"

definition idle_timeout :: "nat \<Rightarrow> queue_state \<Rightarrow> queue_state" where
  "idle_timeout w s =
     (if w \<in> set (cq_idleWaiters s)
      then settle w (Drained False) (s\<lparr>cq_idleWaiters := filter (\<lambda>v. v \<noteq> w) (cq_idleWaiters s)\<rparr>) else s)"

datatype queue_event =
    Add bool
  | Pause
  | Resume
  | Clear
  | AbortRunning string
  | WaitForIdle js_number
  | UpdateSettings js_number js_number
  | Task_timeout nat
  | Task_finishes nat "error + string"
  | Idle_timeout nat

fun queue_step :: "queue_state \<Rightarrow> queue_event \<Rightarrow> queue_state" where
  "queue_step s (Add f) = add f s"
| "queue_step s Pause = pause s"
| "queue_step s Resume = resume s"
| "queue_step s Clear = clear s"
| "queue_step s (AbortRunning reason) = abortRunning reason s"
| "queue_step s (WaitForIdle t) = waitForIdle t s"
| "queue_step s (UpdateSettings c t) = updateSettings c t s"
| "queue_step s (Task_timeout i) = task_timeout i s"
| "queue_step s (Task_finishes i r) = task_finishes i r s"
| "queue_step s (Idle_timeout w) = idle_timeout w s"


section \<open>The invariant\<close>

text \<open>
  Work conservation: a queue that is not paused leaves nothing pending while a slot is free.
  The last group says where every promise is: pending, running with an unsettled caller, waiting for
  an idle queue, or settled, and in exactly one of these places.
\<close>

definition unsettled :: "queue_state \<Rightarrow> nat list" where
  "unsettled s = map at_id (filter (\<lambda>t. \<not> at_callerSettled t) (cq_active s))"

definition places :: "queue_state \<Rightarrow> nat list" where
  "places s = cq_queue s @ unsettled s @ cq_idleWaiters s @ map fst (cq_log s)"

definition issued :: "nat \<Rightarrow> nat multiset" where
  "issued n = mset [0..<n]"

lemma issued_Suc [simp]: "issued (Suc n) = add_mset n (issued n)"
  by (simp only: issued_def upt_Suc_append mset_append) simp

definition queue_core :: "queue_state \<Rightarrow> bool" where
  "queue_core s \<longleftrightarrow>
     cq_running s = int (length (cq_active s)) \<and>
     (\<forall>m. cq_maxPending s = Some m \<longrightarrow> int (length (cq_queue s)) \<le> max 0 m) \<and>
     distinct (map at_id (cq_active s)) \<and>
     (\<forall>t\<in>set (cq_active s). at_callerSettled t \<longrightarrow> at_id t \<in> fst ` set (cq_log s)) \<and>
     (cq_active s = [] \<longrightarrow> cq_idleWaiters s = []) \<and>
     mset (places s) = issued (cq_promises s) \<and>
     subseq (cq_started s @ cq_queue s) (cq_added s)"

definition work_conserving :: "queue_state \<Rightarrow> bool" where
  "work_conserving s \<longleftrightarrow> cq_paused s \<or> cq_queue s = [] \<or> cq_maxConcurrency s \<le> cq_running s"

definition queue_ok :: "queue_state \<Rightarrow> bool" where
  "queue_ok s \<longleftrightarrow> queue_core s \<and> work_conserving s"

lemma core_places:
  assumes "queue_core s"
  shows "distinct (places s)" "set (places s) = {..<cq_promises s}"
proof -
  have m: "mset (places s) = mset [0..<cq_promises s]" using assms by (simp only: queue_core_def issued_def)
  show "set (places s) = {..<cq_promises s}" using mset_eq_setD [OF m] by (simp add: atLeast_upt)
  show "distinct (places s)" using mset_eq_imp_distinct_iff [OF m] by simp
qed

lemma distinct_filter_mset: "distinct xs \<Longrightarrow> w \<in> set xs \<Longrightarrow> mset xs = add_mset w (mset (filter (\<lambda>v. v \<noteq> w) xs))"
proof (induction xs)
  case (Cons x xs)
  show ?case
  proof (cases "x = w")
    case True
    then have "filter (\<lambda>v. v \<noteq> w) xs = xs" using Cons.prems(1) by (auto simp: filter_id_conv)
    then show ?thesis using True by (simp del: mset_filter)
  qed (use Cons in \<open>simp del: mset_filter\<close>)
qed simp

lemma active_place: "queue_core s \<Longrightarrow> t \<in> set (cq_active s) \<Longrightarrow> at_id t \<in> set (unsettled s @ map fst (cq_log s))"
  by (cases "at_callerSettled t") (auto simp: queue_core_def unsettled_def)

lemma core_fresh:
  assumes "queue_core s" "i \<in> set (cq_queue s @ cq_idleWaiters s)" "t \<in> set (cq_active s)"
  shows "at_id t \<noteq> i"
proof -
  have "i \<notin> set (unsettled s @ map fst (cq_log s))"
    using core_places(1) [OF assms(1)] assms(2) by (auto simp only: places_def distinct_append set_append)
  then show ?thesis using active_place [OF assms(1,3)] by auto
qed

lemma next_core:
  assumes "queue_core s"
  shows "queue_core (next_task s)"
proof (cases "cq_paused s \<or> cq_running s \<ge> cq_maxConcurrency s \<or> cq_queue s = []")
  case True
  then show ?thesis using assms by (auto simp: next_task_def)
next
  case False
  then obtain item rest where q: "cq_queue s = item # rest" by (cases "cq_queue s") auto
  have "\<forall>t\<in>set (cq_active s). at_id t \<noteq> item" using core_fresh [OF assms] q by simp
  then show ?thesis
    using assms False q by (auto simp: next_task_def run_def queue_core_def places_def unsettled_def)
qed

lemma next_funpow_core: "queue_core s \<Longrightarrow> queue_core ((next_task ^^ n) s)"
  by (induction n) (simp_all add: next_core)

lemma next_keeps [simp]:
  "cq_maxConcurrency (next_task s) = cq_maxConcurrency s" "cq_paused (next_task s) = cq_paused s"
  "cq_log (next_task s) = cq_log s" "cq_idleWaiters (next_task s) = cq_idleWaiters s" "cq_promises (next_task s) = cq_promises s"
  "cq_maxPending (next_task s) = cq_maxPending s" "cq_added (next_task s) = cq_added s"
  by (auto simp: next_task_def run_def split: list.splits)

lemma next_funpow_keeps [simp]:
  "cq_maxConcurrency ((next_task ^^ n) s) = cq_maxConcurrency s" "cq_paused ((next_task ^^ n) s) = cq_paused s"
  by (induction n) simp_all

text \<open>Calling \<^verbatim>\<open>next\<close> as often as slots are free leaves nothing pending beside a free slot.\<close>

lemma next_funpow_fills:
  "cq_maxConcurrency s \<le> cq_running s + int n \<Longrightarrow> work_conserving ((next_task ^^ n) s)"
proof (induction n arbitrary: s)
  case 0
  then show ?case by (simp add: work_conserving_def)
next
  case (Suc n)
  show ?case
  proof (cases "cq_paused s \<or> cq_running s \<ge> cq_maxConcurrency s \<or> cq_queue s = []")
    case True
    then have stop: "next_task s = s" by (auto simp: next_task_def)
    have "(next_task ^^ Suc n) s = s" by (induction n) (simp_all add: stop)
    then show ?thesis using True by (auto simp: work_conserving_def)
  next
    case False
    then have "cq_running (next_task s) = cq_running s + 1" by (auto simp: next_task_def run_def split: list.splits)
    then show ?thesis using Suc.IH [of "next_task s"] Suc.prems by (simp add: funpow_swap1)
  qed
qed

lemma next_fills: "cq_maxConcurrency s \<le> cq_running s + 1 \<or> cq_paused s \<or> cq_queue s = [] \<Longrightarrow> work_conserving (next_task s)"
  using next_funpow_fills [of s 1] by (auto simp: work_conserving_def next_task_def)

lemma settle_simps [simp]:
  "cq_running (settle p r s) = cq_running s" "cq_queue (settle p r s) = cq_queue s" "cq_paused (settle p r s) = cq_paused s"
  "cq_maxConcurrency (settle p r s) = cq_maxConcurrency s" "cq_active (settle p r s) = cq_active s" "cq_log (settle p r s) = cq_log s @ [(p, r)]"
  "cq_idleWaiters (settle p r s) = cq_idleWaiters s" "cq_promises (settle p r s) = cq_promises s" "cq_maxPending (settle p r s) = cq_maxPending s"
  "cq_started (settle p r s) = cq_started s" "cq_added (settle p r s) = cq_added s"
  by (simp_all add: settle_def)

lemma settle_all:
  "foldl (\<lambda>s w. settle w r s) s ws = s\<lparr>cq_log := cq_log s @ map (\<lambda>w. (w, r)) ws\<rparr>"
  by (induction ws arbitrary: s) (simp_all add: settle_def)

lemma settle_wc [simp]: "work_conserving (settle p r s) = work_conserving s"
  by (simp add: work_conserving_def)

lemma add_ok: "queue_ok s \<Longrightarrow> queue_ok (add f s)"
proof -
  assume ok: "queue_ok s"
  define t where "t = s\<lparr>cq_promises := cq_promises s + 1\<rparr>"
  define u where "u = t\<lparr>cq_queue := cq_queue s @ [cq_promises s], cq_added := cq_added s @ [cq_promises s]\<rparr>"
  have reject: "queue_ok (settle (cq_promises s) r t)" for r
    using ok by (auto simp: queue_ok_def queue_core_def work_conserving_def places_def unsettled_def t_def)
  have "queue_core u" if "\<not> isAtCapacity t"
  proof -
    have "subseq ((cq_started s @ cq_queue s) @ [cq_promises s]) (cq_added s @ [cq_promises s])"
      using ok by (intro list_emb_append_mono) (auto simp: queue_ok_def queue_core_def)
    then show ?thesis
      using ok that by (auto simp: queue_ok_def queue_core_def places_def unsettled_def u_def t_def isAtCapacity_def)
  qed
  moreover have "work_conserving (next_task u)"
  proof (cases "cq_queue s = []")
    case True
    then show ?thesis
      by (auto simp: work_conserving_def next_task_def run_def u_def t_def)
  next
    case False
    then show ?thesis using ok by (intro next_fills) (auto simp: queue_ok_def work_conserving_def u_def t_def)
  qed
  ultimately have "queue_ok (next_task u)" if "\<not> isAtCapacity t" using that next_core by (simp add: queue_ok_def)
  then show ?thesis
    using reject by (auto simp: add_def Let_def t_def u_def)
qed

lemma clear_ok: "queue_ok s \<Longrightarrow> queue_ok (clear s)"
proof -
  assume ok: "queue_ok s"
  have "subseq (cq_started s) (cq_added s)"
    using ok list_emb_prefix [of "(=)" "cq_started s" "cq_started s" "cq_queue s"]
    by (auto simp: queue_ok_def queue_core_def intro: subseq_order.trans)
  then show ?thesis
    using ok by (auto simp: queue_ok_def queue_core_def work_conserving_def places_def unsettled_def clear_def settle_all comp_def ac_simps)
qed

lemma abort_ok: "queue_ok s \<Longrightarrow> queue_ok (abortRunning reason s)"
proof -
  define g :: "active_task \<Rightarrow> active_task" where "g = (\<lambda>t. case at_abortReason t of None \<Rightarrow> t\<lparr>at_abortReason := Some (Error reason)\<rparr> | Some _ \<Rightarrow> t)"
  have g: "at_id (g t) = at_id t" "at_callerSettled (g t) = at_callerSettled t" for t by (simp_all add: g_def split: option.splits)
  have f: "map at_id (filter (\<lambda>t. \<not> at_callerSettled t) (map g ts)) = map at_id (filter (\<lambda>t. \<not> at_callerSettled t) ts)" for ts
    by (induction ts) (simp_all add: g)
  have "map at_id (map g ts) = map at_id ts" for ts by (simp add: g)
  moreover assume "queue_ok s"
  moreover have "abortRunning reason s = s\<lparr>cq_active := map g (cq_active s)\<rparr>" by (simp add: abortRunning_def g_def)
  ultimately show ?thesis
    by (auto simp: queue_ok_def queue_core_def work_conserving_def places_def unsettled_def g f simp del: map_map)
qed

lemma waitForIdle_ok: "queue_ok s \<Longrightarrow> queue_ok (waitForIdle t s)"
  by (auto simp: waitForIdle_def Let_def queue_ok_def queue_core_def work_conserving_def places_def unsettled_def split: option.splits)

lemma pause_ok: "queue_ok s \<Longrightarrow> queue_ok (pause s)"
  by (simp add: pause_def queue_ok_def queue_core_def work_conserving_def places_def unsettled_def)

lemma resume_ok: "queue_ok s \<Longrightarrow> queue_ok (resume s)"
proof -
  assume ok: "queue_ok s"
  define t where "t = s\<lparr>cq_paused := False\<rparr>"
  have core: "queue_core t" using ok by (simp add: t_def queue_ok_def queue_core_def places_def unsettled_def)
  then have "0 \<le> cq_running t" by (simp add: queue_core_def)
  then have "work_conserving ((next_task ^^ nat (cq_maxConcurrency s)) t)"
    by (intro next_funpow_fills) (simp add: t_def)
  with next_funpow_core [OF core] ok show ?thesis by (simp add: resume_def t_def queue_ok_def)
qed

lemma update_ok: "queue_ok s \<Longrightarrow> queue_ok (updateSettings c m s)"
proof -
  assume ok: "queue_ok s"
  define t where "t = s\<lparr>cq_maxConcurrency := setting c 1 (cq_maxConcurrency s), cq_timeoutMs := setting m 0 (cq_timeoutMs s)\<rparr>"
  have core: "queue_core t" using ok by (simp add: t_def queue_ok_def queue_core_def places_def unsettled_def)
  have "work_conserving ((next_task ^^ nat (cq_maxConcurrency t - cq_running t)) t)"
    by (intro next_funpow_fills) simp
  with next_funpow_core [OF core] core show ?thesis
    unfolding updateSettings_def Let_def t_def [symmetric] by (auto simp: queue_ok_def work_conserving_def)
qed

lemma idle_timeout_ok: "queue_ok s \<Longrightarrow> queue_ok (idle_timeout w s)"
proof -
  assume ok: "queue_ok s"
  define ws where "ws = filter (\<lambda>v. v \<noteq> w) (cq_idleWaiters s)"
  have "distinct (cq_idleWaiters s)" using core_places(1) [of s] ok by (simp add: queue_ok_def places_def)
  then have "w \<in> set (cq_idleWaiters s) \<Longrightarrow> mset (cq_idleWaiters s) = add_mset w (mset ws)"
    unfolding ws_def by (rule distinct_filter_mset)
  then show ?thesis
    using ok unfolding idle_timeout_def ws_def [symmetric]
    by (auto simp: queue_ok_def queue_core_def work_conserving_def places_def unsettled_def)
qed

lemma active_split:
  assumes "distinct (map at_id ts)" "find (\<lambda>t. at_id t = i) ts = Some task"
  obtains as bs where "ts = as @ task # bs" "at_id task = i" "\<And>t. t \<in> set as \<Longrightarrow> at_id t \<noteq> i" "\<And>t. t \<in> set bs \<Longrightarrow> at_id t \<noteq> i"
proof -
  have t: "task \<in> set ts" "at_id task = i" using assms(2) by (auto simp: find_Some_iff)
  then obtain as bs where "ts = as @ task # bs" by (meson split_list)
  then show thesis using t assms(1) by (intro that [of as bs]) (auto simp: image_iff)
qed

lemma task_timeout_ok: "queue_ok s \<Longrightarrow> queue_ok (task_timeout i s)"
proof (cases "find (\<lambda>t. at_id t = i) (cq_active s)")
  case (Some task)
  assume ok: "queue_ok s"
  obtain as bs where split: "cq_active s = as @ task # bs" "at_id task = i" "\<And>t. t \<in> set as \<Longrightarrow> at_id t \<noteq> i" "\<And>t. t \<in> set bs \<Longrightarrow> at_id t \<noteq> i"
    using ok active_split [OF _ Some] by (auto simp: queue_ok_def queue_core_def)
  have same: "map (\<lambda>t. if at_id t \<noteq> i then t else f t) as = as" "map (\<lambda>t. if at_id t \<noteq> i then t else f t) bs = bs" for f
    using split(3,4) by (auto intro: map_idI)
  show ?thesis
    using ok split(1,2) unfolding task_timeout_def Some
    by (cases "at_timer task"; cases "at_callerSettled task")
      (auto simp: same queue_ok_def queue_core_def work_conserving_def places_def unsettled_def ac_simps)
qed (simp add: task_timeout_def)

lemma notify_simps [simp]:
  "cq_running (notify_idle s) = cq_running s" "cq_queue (notify_idle s) = cq_queue s" "cq_paused (notify_idle s) = cq_paused s"
  "cq_maxConcurrency (notify_idle s) = cq_maxConcurrency s" "cq_active (notify_idle s) = cq_active s"
  "cq_idleWaiters (notify_idle s) = []" "cq_promises (notify_idle s) = cq_promises s" "cq_maxPending (notify_idle s) = cq_maxPending s"
  "cq_started (notify_idle s) = cq_started s" "cq_added (notify_idle s) = cq_added s"
  "cq_log (notify_idle s) = cq_log s @ map (\<lambda>w. (w, Drained True)) (cq_idleWaiters s)"
  by (simp_all add: notify_idle_def settle_all)

text \<open>The release of a slot, before its last call of \<^verbatim>\<open>next\<close>.\<close>

definition freed :: "nat \<Rightarrow> queue_state \<Rightarrow> queue_state" where
  "freed i s = (let s = s\<lparr>cq_active := filter (\<lambda>t. at_id t \<noteq> i) (cq_active s), cq_running := cq_running s - 1\<rparr>
     in if cq_running s = 0 then notify_idle s else s)"

lemma release_freed: "releaseSlot i s = next_task (freed i s)"
  by (simp add: releaseSlot_def freed_def Let_def)

lemma next_settle: "settle p r (next_task s) = next_task (settle p r s)"
  by (auto simp: next_task_def run_def settle_def split: list.splits)

text \<open>A finished task whose caller is told is, up to the order of two independent writes, settled first.\<close>

lemma finish_core:
  assumes "queue_core s" "find (\<lambda>t. at_id t = i) (cq_active s) = Some task"
  shows "queue_core (if at_callerSettled task then freed i s else settle i r (freed i s))"
proof -
  obtain as bs where split: "cq_active s = as @ task # bs" "at_id task = i" "\<And>t. t \<in> set as \<Longrightarrow> at_id t \<noteq> i" "\<And>t. t \<in> set bs \<Longrightarrow> at_id t \<noteq> i"
    using assms(1) active_split [OF _ assms(2)] by (auto simp: queue_core_def)
  have f: "filter (\<lambda>t. at_id t \<noteq> i) (cq_active s) = as @ bs" using split by (auto simp: filter_id_conv)
  show ?thesis
    using assms(1) split(1,2) unfolding freed_def f
    by (cases "at_callerSettled task") (auto simp: Let_def queue_core_def places_def unsettled_def ac_simps comp_def multiset.map_comp)
qed

lemma task_finishes_ok: "queue_ok s \<Longrightarrow> queue_ok (task_finishes i r s)"
proof (cases "find (\<lambda>t. at_id t = i) (cq_active s)")
  case (Some task)
  assume ok: "queue_ok s"
  define outcome where "outcome = (case r of Inl e \<Rightarrow> Rejected e | Inr v \<Rightarrow> Resolved v)"
  define u where "u = (if at_callerSettled task then freed i s else settle i outcome (freed i s))"
  have "queue_core u" unfolding u_def using ok Some by (intro finish_core) (simp_all add: queue_ok_def)
  moreover have "cq_maxConcurrency u \<le> cq_running u + 1 \<or> cq_paused u \<or> cq_queue u = []"
    using ok by (auto simp: u_def freed_def Let_def queue_ok_def work_conserving_def)
  moreover have "task_finishes i r s = next_task u"
    by (simp add: task_finishes_def Some Let_def u_def release_freed next_settle outcome_def)
  ultimately show ?thesis by (simp add: queue_ok_def next_core next_fills)
qed (simp add: task_finishes_def)

lemma queue_step_ok: "queue_ok s \<Longrightarrow> queue_ok (queue_step s e)"
  by (cases e) (simp_all add: add_ok pause_ok resume_ok clear_ok abort_ok waitForIdle_ok update_ok task_timeout_ok task_finishes_ok idle_timeout_ok)

interpretation queue: invariant_system queue_step queue_ok
  by unfold_locales (rule queue_step_ok)

lemma new_queue_ok: "queue_ok (new_queue c t m)"
  by (simp add: new_queue_def queue_ok_def queue_core_def work_conserving_def places_def unsettled_def issued_def)


section \<open>The concurrency limit\<close>

definition starts_within :: "queue_state \<Rightarrow> queue_state \<Rightarrow> bool" where
  "starts_within s t \<longleftrightarrow> cq_started t = cq_started s \<or> cq_running t \<le> cq_maxConcurrency t"

lemma next_starts: "starts_within s (next_task s)"
  by (auto simp: starts_within_def next_task_def run_def split: list.splits)

lemma next_funpow_starts: "starts_within s ((next_task ^^ n) s)"
proof (induction n)
  case (Suc n)
  then show ?case
    using next_starts [of "(next_task ^^ n) s"] by (auto simp: starts_within_def next_task_def run_def split: list.splits)
qed (simp add: starts_within_def)

lemma starts_from: "starts_within t u \<Longrightarrow> cq_started t = cq_started s \<Longrightarrow> starts_within s u"
  by (simp add: starts_within_def)

lemma queue_step_starts: "starts_within s (queue_step s e)"
proof (cases e)
  case (Add f)
  then show ?thesis by (auto simp: add_def Let_def intro: starts_from [OF next_starts]) (auto simp: starts_within_def)
next
  case Resume
  then show ?thesis by (auto simp: resume_def intro: starts_from [OF next_funpow_starts]) (auto simp: starts_within_def)
next
  case (UpdateSettings c m)
  then show ?thesis by (auto simp: updateSettings_def Let_def intro: starts_from [OF next_funpow_starts]) (auto simp: starts_within_def)
next
  case (Task_finishes i r)
  have freed: "cq_started (freed i s) = cq_started s" by (simp add: freed_def Let_def)
  show ?thesis
  proof (cases "find (\<lambda>t. at_id t = i) (cq_active s)")
    case (Some task)
    then show ?thesis
      unfolding Task_finishes queue_step.simps task_finishes_def
      by (auto simp: Let_def release_freed next_settle freed intro!: starts_from [OF next_starts])
  qed (simp add: Task_finishes task_finishes_def starts_within_def)
qed (auto simp: starts_within_def pause_def clear_def settle_all abortRunning_def waitForIdle_def Let_def task_timeout_def idle_timeout_def
    split: option.splits)

lemma queue_step_maxPending: "cq_maxPending (queue_step s e) = cq_maxPending s"
proof -
  have f: "cq_maxPending ((next_task ^^ n) s) = cq_maxPending s" for n s by (induction n) simp_all
  show ?thesis
    by (cases e) (auto simp: add_def Let_def pause_def resume_def clear_def settle_all abortRunning_def waitForIdle_def updateSettings_def
        task_timeout_def task_finishes_def release_freed freed_def idle_timeout_def f split: option.splits)
qed

lemma run_maxPending: "cq_maxPending (foldl queue_step s es) = cq_maxPending s"
  by (induction es arbitrary: s) (simp_all add: queue_step_maxPending)


section \<open>Progress\<close>

text \<open>A run in which the environment only lets active tasks finish, in any order and with any outcome.\<close>

inductive finish_run :: "queue_state \<Rightarrow> nat list \<Rightarrow> queue_state \<Rightarrow> bool" where
  finish_none: "finish_run s [] s"
| finish_one: "i \<in> set (map at_id (cq_active s)) \<Longrightarrow> finish_run (task_finishes i r s) is' t \<Longrightarrow> finish_run s (i # is') t"

definition outstanding :: "queue_state \<Rightarrow> nat" where
  "outstanding s = length (cq_queue s) + length (cq_active s)"

lemma task_finishes_progress:
  assumes "i \<in> set (map at_id (cq_active s))" "queue_core s"
  shows "outstanding s = Suc (outstanding (task_finishes i r s))" "cq_maxConcurrency (task_finishes i r s) = cq_maxConcurrency s"
    "cq_paused (task_finishes i r s) = cq_paused s" "cq_promises (task_finishes i r s) = cq_promises s"
proof -
  obtain task where some: "find (\<lambda>t. at_id t = i) (cq_active s) = Some task"
    using assms(1) by (cases "find (\<lambda>t. at_id t = i) (cq_active s)") (auto simp: find_None_iff)
  obtain as bs where split: "cq_active s = as @ task # bs" "at_id task = i" "\<And>t. t \<in> set as \<Longrightarrow> at_id t \<noteq> i" "\<And>t. t \<in> set bs \<Longrightarrow> at_id t \<noteq> i"
    using assms(2) active_split [OF _ some] by (auto simp: queue_core_def)
  have f: "filter (\<lambda>t. at_id t \<noteq> i) (cq_active s) = as @ bs" using split by (auto simp: filter_id_conv)
  have next_out: "outstanding (next_task u) = outstanding u" for u
    by (auto simp: outstanding_def next_task_def run_def split: list.splits)
  have "outstanding (freed i s) = length (cq_queue s) + length as + length bs"
    by (simp add: freed_def Let_def f outstanding_def)
  moreover have "outstanding (settle i x u) = outstanding u" for x u by (simp add: outstanding_def)
  ultimately have "outstanding (task_finishes i r s) = length (cq_queue s) + length as + length bs"
    unfolding task_finishes_def some option.case Let_def release_freed by (simp add: next_out)
  then show "outstanding s = Suc (outstanding (task_finishes i r s))" by (simp add: outstanding_def [of s] split(1))
  show "cq_maxConcurrency (task_finishes i r s) = cq_maxConcurrency s" "cq_paused (task_finishes i r s) = cq_paused s"
    "cq_promises (task_finishes i r s) = cq_promises s"
    by (simp_all add: task_finishes_def some Let_def release_freed freed_def)
qed

lemma finish_run_progress:
  assumes "finish_run s is' t" "queue_ok s"
  shows "queue_ok t \<and> outstanding s = outstanding t + length is' \<and> cq_maxConcurrency t = cq_maxConcurrency s \<and> cq_paused t = cq_paused s \<and>
    cq_promises t = cq_promises s"
  using assms
proof (induction rule: finish_run.induct)
  case (finish_one i s r is' t)
  have core: "queue_core s" using finish_one.prems by (simp add: queue_ok_def)
  from finish_one.IH [OF task_finishes_ok [OF finish_one.prems]] task_finishes_progress [OF finish_one.hyps(1) core, of r] show ?case by simp
qed simp

lemma active_while_outstanding:
  assumes "queue_ok s" "\<not> cq_paused s" "1 \<le> cq_maxConcurrency s" "outstanding s \<noteq> 0"
  shows "cq_active s \<noteq> []"
  using assms by (auto simp: queue_ok_def queue_core_def work_conserving_def outstanding_def)


section \<open>Properties\<close>

text \<open>
  C30: whatever calls, timers and completions happen, in any order: at most the configured number of
  entries is pending; nothing is pending beside a free slot unless the queue is paused; tasks start
  in the order in which they were queued; no step starts a task beyond the concurrency limit; and
  every promise handed out is in exactly one place: pending, running, waiting for the idle queue, or
  settled once.
\<close>

theorem queue_always_consistent:
  "let s = foldl queue_step (new_queue c t m) es in
     cq_running s = int (length (cq_active s)) \<and>
     (\<forall>k. m = Some k \<longrightarrow> int (length (cq_queue s)) \<le> max 0 k) \<and>
     (\<not> cq_paused s \<and> cq_queue s \<noteq> [] \<longrightarrow> cq_maxConcurrency s \<le> cq_running s) \<and>
     subseq (cq_started s @ cq_queue s) (cq_added s) \<and>
     (\<forall>e. cq_started (queue_step s e) \<noteq> cq_started s \<longrightarrow> cq_running (queue_step s e) \<le> cq_maxConcurrency (queue_step s e)) \<and>
     distinct (places s) \<and> set (places s) = {..<cq_promises s}"
proof -
  define s where "s = foldl queue_step (new_queue c t m) es"
  have ok: "queue_ok s" unfolding s_def by (rule queue.run_inv [OF new_queue_ok])
  have "cq_maxPending s = m" unfolding s_def run_maxPending by (simp add: new_queue_def)
  then show ?thesis
    using ok core_places [of s] queue_step_starts [of s] unfolding s_def [symmetric] Let_def
    by (auto simp: queue_ok_def queue_core_def work_conserving_def starts_within_def)
qed

theorem queue_always_consistent_witness:
  "let s = foldl queue_step (new_queue 1 0 (Some 1)) [Add True, Add True, Add True] in
     cq_started s = [0] \<and> cq_queue s = [1] \<and> cq_log s = [(2, Rejected (QueueCapacityError 1))] \<and> cq_maxConcurrency s \<le> cq_running s"
proof -
  have run: "cq_started (foldl queue_step (new_queue 1 0 (Some 1)) [Add True, Add True, Add True]) = [0]"
    "cq_queue (foldl queue_step (new_queue 1 0 (Some 1)) [Add True, Add True, Add True]) = [1]"
    "cq_paused (foldl queue_step (new_queue 1 0 (Some 1)) [Add True, Add True, Add True]) = False"
    "cq_log (foldl queue_step (new_queue 1 0 (Some 1)) [Add True, Add True, Add True]) = [(2, Rejected (QueueCapacityError 1))]"
    by code_simp+
  from queue_always_consistent [of 1 0 "Some 1" "[Add True, Add True, Add True]"] run show ?thesis by (simp only: Let_def) simp
qed

text \<open>
  C31: every queued task gets its turn. In a queue that is not paused and allows at least one task
  at a time, each completion of a running task, in whatever order and with whatever outcome,
  brings the queue one task closer to idle; as long as work is outstanding there is a running task to
  wait for; and once as many tasks completed as were outstanding, nothing is pending or running and
  every promise handed out is settled.
\<close>

theorem queue_drains:
  assumes "s = foldl queue_step (new_queue c t m) es" "\<not> cq_paused s" "1 \<le> cq_maxConcurrency s" "finish_run s is' u"
  shows "outstanding s = outstanding u + length is' \<and> (outstanding u \<noteq> 0 \<longrightarrow> cq_active u \<noteq> []) \<and>
    (length is' = outstanding s \<longrightarrow> cq_queue u = [] \<and> cq_running u = 0 \<and>
       fst ` set (cq_log u) = {..<cq_promises s})"
proof -
  have ok: "queue_ok s" unfolding assms(1) by (rule queue.run_inv [OF new_queue_ok])
  note p = finish_run_progress [OF assms(4) ok]
  have act: "outstanding u \<noteq> 0 \<longrightarrow> cq_active u \<noteq> []" using active_while_outstanding [of u] p assms(2,3) by simp
  have "cq_queue u = [] \<and> cq_running u = 0 \<and> fst ` set (cq_log u) = {..<cq_promises s}" if "length is' = outstanding s"
  proof -
    have z: "cq_queue u = []" "cq_active u = []" using p that by (simp_all add: outstanding_def)
    moreover have "cq_idleWaiters u = []" using z p by (simp add: queue_ok_def queue_core_def)
    ultimately have "set (places u) = fst ` set (cq_log u)" by (simp add: places_def unsettled_def)
    then show ?thesis using z p core_places(2) [of u] by (auto simp: queue_ok_def queue_core_def)
  qed
  with p act show ?thesis by simp
qed

theorem queue_drains_witness:
  "\<exists>u. finish_run (foldl queue_step (new_queue 1 0 None) [Add True, Add True]) [0, 1] u \<and> cq_queue u = [] \<and> cq_running u = 0"
proof -
  define s where "s = foldl queue_step (new_queue 1 0 None) [Add True, Add True]"
  define s1 where "s1 = task_finishes 0 (Inr ''a'') s"
  define u where "u = task_finishes 1 (Inl (Error ''b'')) s1"
  have run: "\<not> cq_paused s" "1 \<le> cq_maxConcurrency s" "outstanding s = 2" "map at_id (cq_active s) = [0]" "map at_id (cq_active s1) = [1]"
    unfolding s1_def s_def by code_simp+
  have fr: "finish_run s [0, 1] u"
    by (rule finish_one [where r = "Inr ''a''"], simp add: run, fold s1_def,
        rule finish_one [where r = "Inl (Error ''b'')"], simp add: run, fold u_def, rule finish_none)
  from queue_drains [OF s_def run(1,2) fr] run(3) fr show ?thesis unfolding s_def [symmetric] by auto
qed

end
