(* ===== verification/Outbox_Scheduler.thy ===== *)
theory Outbox_Scheduler
  imports Concurrency_Queue JS_Conversions
begin

text \<open>
  The scheduler of durable outbox tasks (\<^verbatim>\<open>src/outbox_scheduler.ts\<close>) on top of the queue. The database
  query \<^verbatim>\<open>listPending\<close> and the execution of a task are the environment's: a pump that waits for the
  query is a state of its own, and the answer, the settlement handlers of the queue's promises and the
  end of a pump are separate events, so that every interleaving of them is covered. The queue may be
  used by others at the same time.
\<close>

text \<open>The life of \<^verbatim>\<open>pumpPromise\<close>: absent, waiting for a listing, or settled with its handler not yet run.\<close>

datatype pump_state = No_pump | Listing "string list" int | Pump_settled "error option"

record scheduler =
  os_queue :: queue_state
  os_batchSize :: int
  os_scheduledTaskIds :: "string list"
  os_pump :: pump_state
  os_pumpRequested :: bool
  os_pumpLoggers :: nat                  \<comment> \<open>callers of \<^verbatim>\<open>requestPump\<close> attached to the current pump\<close>
  os_handlers :: "(nat \<times> string) list"   \<comment> \<open>queue promises whose settlement handler has not run, with their task\<close>
  os_calls :: "(nat \<times> string) list"      \<comment> \<open>every call of the queue so far\<close>
  os_errors :: "string list"

definition new_scheduler :: "queue_state \<Rightarrow> int option \<Rightarrow> scheduler" where
  "new_scheduler queue batchSize =
     \<lparr>os_queue = queue, os_batchSize = max 1 (min (case batchSize of None \<Rightarrow> 100 | Some b \<Rightarrow> b) 1000), os_scheduledTaskIds = [],
      os_pump = No_pump, os_pumpRequested = False, os_pumpLoggers = 0, os_handlers = [], os_calls = [], os_errors = []\<rparr>"

definition scheduledCount :: "scheduler \<Rightarrow> nat" where
  "scheduledCount s = length (os_scheduledTaskIds s)"

definition scheduleIntoQueue :: "string \<Rightarrow> scheduler \<Rightarrow> scheduler" where
  "scheduleIntoQueue taskId s =
     (let promise = cq_promises (os_queue s) in
      s\<lparr>os_scheduledTaskIds := (if taskId \<in> set (os_scheduledTaskIds s) then os_scheduledTaskIds s else os_scheduledTaskIds s @ [taskId]),
        os_queue := add True (os_queue s), os_handlers := os_handlers s @ [(promise, taskId)], os_calls := os_calls s @ [(promise, taskId)]\<rparr>)"

definition schedule :: "string \<Rightarrow> scheduler \<Rightarrow> bool \<times> scheduler" where
  "schedule taskId s =
     (if taskId = [] \<or> taskId \<in> set (os_scheduledTaskIds s) then (taskId \<in> set (os_scheduledTaskIds s), s)
      else if isAtCapacity (os_queue s) then (False, s)
      else (True, scheduleIntoQueue taskId s))"

definition shouldContinuePumping :: "scheduler \<Rightarrow> bool" where
  "shouldContinuePumping s \<longleftrightarrow> availableCapacity (os_queue s) > 0 \<and> \<not> cq_paused (os_queue s)"

fun scheduleBatch :: "string list \<Rightarrow> scheduler \<Rightarrow> nat \<times> scheduler" where
  "scheduleBatch [] s = (0, s)"
| "scheduleBatch (candidate # rest) s =
     (case schedule candidate s of (ok, s') \<Rightarrow> case scheduleBatch rest s' of (n, s'') \<Rightarrow> ((if ok then Suc n else n), s''))"

text \<open>The head of the loop of \<^verbatim>\<open>pumpAvailableWork\<close>, up to its \<^verbatim>\<open>await\<close>, and what follows the \<^verbatim>\<open>await\<close>.\<close>

definition pump_loop :: "scheduler \<Rightarrow> scheduler" where
  "pump_loop s =
     (if shouldContinuePumping s
      then s\<lparr>os_pump := Listing (os_scheduledTaskIds s) (min (os_batchSize s) (availableCapacity (os_queue s)))\<rparr>
      else s\<lparr>os_pump := Pump_settled None\<rparr>)"

definition pumpAvailableWork :: "scheduler \<Rightarrow> scheduler" where
  "pumpAvailableWork s = (if cq_paused (os_queue s) then s\<lparr>os_pump := Pump_settled None\<rparr> else pump_loop s)"

definition listing_arrives :: "(error + string list) \<Rightarrow> scheduler \<Rightarrow> scheduler" where
  "listing_arrives answer s = (case os_pump s of
       Listing excluded limit \<Rightarrow>
         (case answer of
            Inl e \<Rightarrow> s\<lparr>os_pump := Pump_settled (Some e)\<rparr>
          | Inr candidates \<Rightarrow>
              if candidates = [] then s\<lparr>os_pump := Pump_settled None\<rparr>
              else case scheduleBatch candidates s of (n, s') \<Rightarrow>
                if n = 0 then s'\<lparr>os_pump := Pump_settled None\<rparr> else pump_loop s')
     | _ \<Rightarrow> s)"

definition pump :: "scheduler \<Rightarrow> scheduler" where
  "pump s = (if os_pump s \<noteq> No_pump then s\<lparr>os_pumpRequested := True\<rparr> else pumpAvailableWork s)"

definition requestPump :: "scheduler \<Rightarrow> scheduler" where
  "requestPump s = (let s' = pump s in s'\<lparr>os_pumpLoggers := os_pumpLoggers s' + 1\<rparr>)"

text \<open>The handler of a settled pump, with the error message each of its logging callers writes.\<close>

definition pump_finally :: "scheduler \<Rightarrow> scheduler" where
  "pump_finally s = (case os_pump s of
       Pump_settled failure \<Rightarrow>
         (let s = s\<lparr>os_pump := No_pump, os_pumpLoggers := 0,
                os_errors := os_errors s @ (case failure of None \<Rightarrow> [] | Some e \<Rightarrow>
                  replicate (os_pumpLoggers s) (''Durable outbox scheduler failed: '' @ error_message e))\<rparr>
          in if os_pumpRequested s then requestPump (s\<lparr>os_pumpRequested := False\<rparr>) else s)
     | _ \<Rightarrow> s)"

text \<open>The handlers attached to the promise of the queue: they run once it is settled.\<close>

definition call_settled :: "nat \<Rightarrow> scheduler \<Rightarrow> scheduler" where
  "call_settled promise s = (case (map_of (os_handlers s) promise, map_of (cq_log (os_queue s)) promise) of
       (Some taskId, Some outcome) \<Rightarrow>
         (let s = s\<lparr>os_handlers := filter (\<lambda>h. fst h \<noteq> promise) (os_handlers s),
                os_errors := os_errors s @ (case outcome of Rejected e \<Rightarrow> [''Outbox task '' @ taskId @ '': '' @ error_message e] | _ \<Rightarrow> []),
                os_scheduledTaskIds := filter (\<lambda>t. t \<noteq> taskId) (os_scheduledTaskIds s)\<rparr>
          in requestPump s)
     | _ \<Rightarrow> s)"

datatype outbox_event =
    Schedule string
  | Resume_outbox
  | Request_pump
  | Listing_arrives "error + string list"
  | Pump_finally
  | Call_settled nat
  | Queue_event queue_event

fun outbox_step :: "scheduler \<Rightarrow> outbox_event \<Rightarrow> scheduler" where
  "outbox_step s (Schedule taskId) = snd (schedule taskId s)"
| "outbox_step s Resume_outbox = pump s"
| "outbox_step s Request_pump = requestPump s"
| "outbox_step s (Listing_arrives answer) = listing_arrives answer s"
| "outbox_step s Pump_finally = pump_finally s"
| "outbox_step s (Call_settled p) = call_settled p s"
| "outbox_step s (Queue_event e) = s\<lparr>os_queue := queue_step (os_queue s) e\<rparr>"


section \<open>The invariant\<close>

definition outbox_core :: "scheduler \<Rightarrow> bool" where
  "outbox_core s \<longleftrightarrow>
     queue_ok (os_queue s) \<and> 1 \<le> os_batchSize s \<and> os_batchSize s \<le> 1000 \<and>
     os_scheduledTaskIds s = map snd (os_handlers s) \<and> distinct (map snd (os_handlers s)) \<and> distinct (map fst (os_handlers s)) \<and>
     distinct (map fst (os_calls s)) \<and> set (os_handlers s) \<subseteq> set (os_calls s) \<and>
     (\<forall>p t. (p, t) \<in> set (os_calls s) \<longrightarrow> p < cq_promises (os_queue s) \<and> p \<in> set (cq_added (os_queue s)) \<and> t \<noteq> []) \<and>
     (\<forall>p t. (p, t) \<in> set (os_calls s) \<and> p \<notin> fst ` set (cq_log (os_queue s)) \<longrightarrow> (p, t) \<in> set (os_handlers s))"

definition outbox_ok :: "scheduler \<Rightarrow> bool" where
  "outbox_ok s \<longleftrightarrow> outbox_core s \<and> (os_pumpRequested s \<longrightarrow> os_pump s \<noteq> No_pump) \<and>
     (\<forall>excluded limit. os_pump s = Listing excluded limit \<longrightarrow> 1 \<le> limit \<and> limit \<le> os_batchSize s)"

text \<open>What the rest of the program can only add to the queue.\<close>

definition queue_grows :: "queue_state \<Rightarrow> queue_state \<Rightarrow> bool" where
  "queue_grows s t \<longleftrightarrow> cq_promises s \<le> cq_promises t \<and> set (cq_added s) \<subseteq> set (cq_added t) \<and> set (cq_log s) \<subseteq> set (cq_log t)"

lemma next_funpow_history [simp]:
  "cq_promises ((next_task ^^ n) s) = cq_promises s" "cq_added ((next_task ^^ n) s) = cq_added s" "cq_log ((next_task ^^ n) s) = cq_log s"
  by (induction n) simp_all

lemma queue_step_grows: "queue_grows s (queue_step s e)"
  by (cases e) (auto simp: queue_grows_def add_def Let_def pause_def resume_def clear_def settle_all abortRunning_def waitForIdle_def
      updateSettings_def task_timeout_def task_finishes_def release_freed freed_def idle_timeout_def split: option.splits)

lemma core_calls:
  "outbox_core s \<Longrightarrow> (p, t) \<in> set (os_calls s) \<Longrightarrow> p < cq_promises (os_queue s) \<and> p \<in> set (cq_added (os_queue s)) \<and> t \<noteq> []"
  "outbox_core s \<Longrightarrow> (p, t) \<in> set (os_calls s) \<Longrightarrow> p \<notin> fst ` set (cq_log (os_queue s)) \<Longrightarrow> (p, t) \<in> set (os_handlers s)"
  unfolding outbox_core_def by blast+

lemma core_handlers_inj:
  assumes "outbox_core s" "(p, t) \<in> set (os_handlers s)" "(p', t') \<in> set (os_handlers s)"
  shows "p = p' \<longleftrightarrow> t = t'"
proof -
  have "inj_on fst (set (os_handlers s))" "inj_on snd (set (os_handlers s))" using assms(1) by (simp_all add: outbox_core_def distinct_map)
  then show ?thesis using inj_onD [of fst _ "(p, t)" "(p', t')"] inj_onD [of snd _ "(p, t)" "(p', t')"] assms(2,3) by auto
qed

lemma core_queue_event:
  assumes "outbox_core s" "queue_ok q" "queue_grows (os_queue s) q"
  shows "outbox_core (s\<lparr>os_queue := q\<rparr>)"
proof -
  have log: "fst ` set (cq_log (os_queue s)) \<subseteq> fst ` set (cq_log q)" using assms(3) by (auto simp: queue_grows_def)
  have "p < cq_promises q \<and> p \<in> set (cq_added q) \<and> t \<noteq> []" if "(p, t) \<in> set (os_calls s)" for p t
    using core_calls(1) [OF assms(1) that] assms(3) by (auto simp: queue_grows_def)
  moreover have "(p, t) \<in> set (os_handlers s)" if "(p, t) \<in> set (os_calls s)" "p \<notin> fst ` set (cq_log q)" for p t
    using core_calls(2) [OF assms(1) that(1)] that(2) log by auto
  ultimately show ?thesis using assms(1,2) by (simp add: outbox_core_def)
qed

lemma capacity_promises [simp]: "isAtCapacity (q\<lparr>cq_promises := n\<rparr>) = isAtCapacity q"
  by (auto simp: isAtCapacity_def split: option.split)

lemma add_accepted:
  assumes "\<not> isAtCapacity q"
  shows "cq_promises (add True q) = Suc (cq_promises q)" "cq_promises q \<in> set (cq_added (add True q))"
  using assms by (simp_all add: add_def Let_def)

lemma schedule_core:
  assumes "outbox_core s"
  shows "outbox_core (snd (schedule taskId s))"
proof (cases "taskId = [] \<or> taskId \<in> set (os_scheduledTaskIds s) \<or> isAtCapacity (os_queue s)")
  case True
  then show ?thesis using assms by (auto simp: schedule_def)
next
  case False
  define q where "q = os_queue s"
  have grow: "queue_grows q (add True q)" using queue_step_grows [of q "Add True"] by simp
  have "outbox_core (s\<lparr>os_queue := add True q\<rparr>)"
    using assms grow add_ok [of q True] by (intro core_queue_event) (simp_all add: q_def outbox_core_def)
  moreover have "cq_promises q \<notin> fst ` set (os_calls s)" using core_calls(1) [OF assms] by (force simp: q_def)
  ultimately show ?thesis
    using False assms add_accepted [of q]
    by (auto simp: schedule_def scheduleIntoQueue_def Let_def outbox_core_def q_def [symmetric] image_iff)
qed

lemma schedule_keeps [simp]:
  "os_pump (snd (schedule t s)) = os_pump s" "os_pumpRequested (snd (schedule t s)) = os_pumpRequested s"
  "os_batchSize (snd (schedule t s)) = os_batchSize s"
  by (simp_all add: schedule_def scheduleIntoQueue_def Let_def)

lemma batch_Cons: "snd (scheduleBatch (t # ts) s) = snd (scheduleBatch ts (snd (schedule t s)))"
  by (simp add: case_prod_unfold)

lemma batch_core: "outbox_core s \<Longrightarrow> outbox_core (snd (scheduleBatch ts s))"
  by (induction ts arbitrary: s) (simp_all add: batch_Cons schedule_core del: scheduleBatch.simps(2))

lemma core_pump_fields [simp]:
  "outbox_core (s\<lparr>os_pump := p\<rparr>) = outbox_core s" "outbox_core (s\<lparr>os_pumpRequested := b\<rparr>) = outbox_core s"
  "outbox_core (s\<lparr>os_pumpLoggers := n\<rparr>) = outbox_core s" "outbox_core (s\<lparr>os_errors := es\<rparr>) = outbox_core s"
  by (simp_all add: outbox_core_def)

lemma pump_loop_ok: "outbox_core s \<Longrightarrow> outbox_ok (pump_loop s)"
proof -
  assume "outbox_core s"
  moreover have "outbox_core s \<Longrightarrow> 1 \<le> os_batchSize s" by (simp add: outbox_core_def)
  ultimately show ?thesis by (auto simp: pump_loop_def outbox_ok_def shouldContinuePumping_def)
qed

lemma pump_ok: "outbox_ok s \<Longrightarrow> outbox_ok (pump s)"
proof -
  assume ok: "outbox_ok s"
  then have "outbox_ok (pump_loop s)" by (intro pump_loop_ok) (simp add: outbox_ok_def)
  with ok show ?thesis unfolding pump_def pumpAvailableWork_def by (auto simp: outbox_ok_def simp del: core_pump_fields) (simp_all)
qed

lemma request_ok: "outbox_ok s \<Longrightarrow> outbox_ok (requestPump s)"
  using pump_ok [of s] by (simp add: requestPump_def Let_def outbox_ok_def)

lemma listing_ok: "outbox_ok s \<Longrightarrow> outbox_ok (listing_arrives answer s)"
proof (cases "os_pump s")
  case (Listing excluded limit)
  assume ok: "outbox_ok s"
  then have core: "outbox_core s" by (simp add: outbox_ok_def)
  show ?thesis
  proof (cases answer)
    case (Inr candidates)
    obtain n s' where b: "scheduleBatch candidates s = (n, s')" by fastforce
    have "outbox_core s'" using batch_core [OF core, of candidates] b by simp
    then show ?thesis
      using Listing Inr b core by (auto simp: listing_arrives_def pump_loop_ok) (auto simp: outbox_ok_def)
  qed (use Listing core in \<open>auto simp: listing_arrives_def outbox_ok_def\<close>)
qed (simp_all add: listing_arrives_def)

lemma finally_ok: "outbox_ok s \<Longrightarrow> outbox_ok (pump_finally s)"
proof (cases "os_pump s")
  case (Pump_settled failure)
  assume ok: "outbox_ok s"
  then have "outbox_ok (s\<lparr>os_pump := No_pump, os_pumpLoggers := n, os_errors := es, os_pumpRequested := False\<rparr>)" for n es
    by (simp add: outbox_ok_def outbox_core_def)
  note request_ok [OF this]
  with ok Pump_settled show ?thesis by (simp add: pump_finally_def Let_def) (simp add: outbox_ok_def outbox_core_def)
qed (simp_all add: pump_finally_def)

lemma call_settled_ok: "outbox_ok s \<Longrightarrow> outbox_ok (call_settled p s)"
proof (cases "map_of (os_handlers s) p"; cases "map_of (cq_log (os_queue s)) p")
  fix taskId outcome
  assume ok: "outbox_ok s" and h: "map_of (os_handlers s) p = Some taskId" "map_of (cq_log (os_queue s)) p = Some outcome"
  define hs where "hs = filter (\<lambda>h. fst h \<noteq> p) (os_handlers s)"
  have core: "outbox_core s" using ok by (simp add: outbox_ok_def)
  have mem: "(p, taskId) \<in> set (os_handlers s)" "p \<in> fst ` set (cq_log (os_queue s))" using h map_of_SomeD by force+
  have "fst h \<noteq> p \<longleftrightarrow> snd h \<noteq> taskId" if "h \<in> set (os_handlers s)" for h
    using core_handlers_inj [OF core _ mem(1), of "fst h" "snd h"] that by simp
  then have "filter (\<lambda>t. t \<noteq> taskId) (os_scheduledTaskIds s) = map snd hs"
    using core by (simp add: outbox_core_def hs_def filter_map comp_def cong: filter_cong)
  moreover have "\<forall>q t. (q, t) \<in> set (os_calls s) \<and> q \<notin> fst ` set (cq_log (os_queue s)) \<longrightarrow> (q, t) \<in> set hs"
    using core mem(2) unfolding outbox_core_def hs_def by auto
  moreover have "distinct (map snd hs)" "distinct (map fst hs)" "set hs \<subseteq> set (os_calls s)"
    using core by (auto simp: outbox_core_def hs_def distinct_map_filter)
  ultimately have "outbox_core (s\<lparr>os_handlers := hs, os_errors := es, os_scheduledTaskIds := filter (\<lambda>t. t \<noteq> taskId) (os_scheduledTaskIds s)\<rparr>)" for es
    using core by (simp add: outbox_core_def)
  then have "outbox_ok (s\<lparr>os_handlers := hs, os_errors := es, os_scheduledTaskIds := filter (\<lambda>t. t \<noteq> taskId) (os_scheduledTaskIds s)\<rparr>)" for es
    using ok by (simp add: outbox_ok_def)
  then show ?thesis
    unfolding call_settled_def h hs_def [symmetric] prod.case option.case Let_def by (rule request_ok)
qed (simp_all add: call_settled_def)

lemma outbox_step_ok: "outbox_ok s \<Longrightarrow> outbox_ok (outbox_step s e)"
proof (cases e)
  case (Schedule t)
  assume "outbox_ok s"
  then show ?thesis using Schedule schedule_core [of s t] by (simp add: outbox_ok_def)
next
  case (Queue_event q)
  assume ok: "outbox_ok s"
  then have "outbox_core (s\<lparr>os_queue := queue_step (os_queue s) q\<rparr>)"
    by (intro core_queue_event queue_step_ok queue_step_grows) (simp_all add: outbox_ok_def outbox_core_def)
  then show ?thesis using ok Queue_event by (simp add: outbox_ok_def)
qed (simp_all add: pump_ok request_ok listing_ok finally_ok call_settled_ok)

interpretation outbox: invariant_system outbox_step outbox_ok
  by unfold_locales (rule outbox_step_ok)

lemma new_outbox_ok: "queue_ok q \<Longrightarrow> outbox_ok (new_scheduler q b)"
  by (simp add: new_scheduler_def outbox_ok_def outbox_core_def)


section \<open>Requests to pump\<close>

text \<open>The events that ask for a pump: a resumption, an explicit request, and the settlement of a call of the queue.\<close>

fun requests_pump :: "scheduler \<Rightarrow> outbox_event \<Rightarrow> bool" where
  "requests_pump s Resume_outbox \<longleftrightarrow> True"
| "requests_pump s Request_pump \<longleftrightarrow> True"
| "requests_pump s (Call_settled p) \<longleftrightarrow> map_of (os_handlers s) p \<noteq> None \<and> map_of (cq_log (os_queue s)) p \<noteq> None"
| "requests_pump s _ \<longleftrightarrow> False"

text \<open>
  A pump that has just started: it waits for a listing that excludes exactly the tasks scheduled now,
  unless the queue is paused or full, when it has nothing to do.
\<close>

definition pump_started :: "scheduler \<Rightarrow> bool" where
  "pump_started s \<longleftrightarrow> os_pump s =
     (if shouldContinuePumping s then Listing (os_scheduledTaskIds s) (min (os_batchSize s) (availableCapacity (os_queue s)))
      else Pump_settled None)"

lemma pump_starts: "os_pump s = No_pump \<Longrightarrow> pump_started (requestPump s) \<and> pump_started (pump s)"
  by (simp add: pump_started_def requestPump_def pump_def pumpAvailableWork_def pump_loop_def shouldContinuePumping_def)

lemma pump_noted: "os_pump s \<noteq> No_pump \<Longrightarrow> os_pumpRequested (requestPump s) \<and> os_pumpRequested (pump s)"
  by (simp add: requestPump_def pump_def)

lemma request_starts_or_is_noted:
  assumes "requests_pump s e"
  shows "if os_pump s = No_pump then pump_started (outbox_step s e) else os_pumpRequested (outbox_step s e)"
  using assms
  by (cases e) (auto simp: pump_starts pump_noted call_settled_def Let_def)

lemma pump_keeps_request:
  "os_pump s \<noteq> No_pump \<Longrightarrow> os_pumpRequested (requestPump s)" "os_pumpRequested s \<Longrightarrow> os_pumpRequested (pump_loop s)"
  by (simp_all add: requestPump_def pump_def pump_loop_def)

lemma batch_keeps_request: "os_pumpRequested (snd (scheduleBatch ts s)) = os_pumpRequested s"
  by (induction ts arbitrary: s) (simp_all add: batch_Cons del: scheduleBatch.simps(2))

text \<open>A noted request survives every event but the end of the pump in flight, which starts a new pump.\<close>

lemma noted_request_step:
  assumes "os_pumpRequested s" "os_pump s \<noteq> No_pump"
  shows "os_pumpRequested (outbox_step s e) \<or> e = Pump_finally \<and> pump_started (outbox_step s e)"
proof (cases e)
  case (Listing_arrives answer)
  have "os_pumpRequested (snd (scheduleBatch ts s))" for ts using assms by (simp add: batch_keeps_request)
  then have "os_pumpRequested s'" if "scheduleBatch ts s = (n, s')" for ts n s' using that by (metis snd_conv)
  then show ?thesis
    using Listing_arrives assms
    by (auto simp: listing_arrives_def pump_keeps_request split: pump_state.split sum.split prod.split)
next
  case Pump_finally
  then show ?thesis using assms by (auto simp: pump_finally_def Let_def pump_starts split: pump_state.split)
qed (use assms in \<open>auto simp: pump_noted call_settled_def Let_def split: option.split\<close>)

lemma noted_request_served:
  assumes "outbox_ok s" "os_pumpRequested s"
  shows "os_pumpRequested (foldl outbox_step s fs) \<or>
    (\<exists>gs hs. fs = gs @ Pump_finally # hs \<and> os_pumpRequested (foldl outbox_step s gs) \<and>
       pump_started (foldl outbox_step s (gs @ [Pump_finally])))"
proof (induction fs rule: rev_induct)
  case (snoc e fs)
  then show ?case
  proof (elim disjE exE conjE)
    assume noted: "os_pumpRequested (foldl outbox_step s fs)"
    have "outbox_ok (foldl outbox_step s fs)" by (rule outbox.run_inv [OF assms(1)])
    then have "os_pump (foldl outbox_step s fs) \<noteq> No_pump" using noted by (simp add: outbox_ok_def)
    from noted_request_step [OF noted this, of e] noted show ?thesis by auto
  qed fastforce
qed (use assms(2) in simp)


section \<open>Properties\<close>

text \<open>
  C32: whatever the interleaving of scheduling, database answers, completions and pauses, the
  scheduler never has two unsettled queue calls for the same outbox task, never calls the queue when
  it would refuse the call for lack of capacity (every call was accepted), asks the database for at
  least one and at most the batch size of tasks and remembers a task until its call is settled. It
  never loses a request to pump: a request with no pump in flight starts one at once; a request while
  one is in flight is noted, a noted request always has a pump in flight, and after any further events
  it is either still noted or the end of the pump in flight has started a new pump, which excludes
  exactly the tasks scheduled at that moment.
\<close>

theorem outbox_exactly_once_in_flight:
  assumes "queue_ok q"
  shows "let s = foldl outbox_step (new_scheduler q b) es; settled = fst ` set (cq_log (os_queue s)) in
    (\<forall>p p' t. (p, t) \<in> set (os_calls s) \<and> (p', t) \<in> set (os_calls s) \<and> p \<notin> settled \<and> p' \<notin> settled \<longrightarrow> p = p') \<and>
    (\<forall>p t. (p, t) \<in> set (os_calls s) \<longrightarrow> p \<in> set (cq_added (os_queue s))) \<and>
    (\<forall>p t. (p, t) \<in> set (os_calls s) \<and> p \<notin> settled \<longrightarrow> t \<in> set (os_scheduledTaskIds s)) \<and>
    (\<forall>excluded limit. os_pump s = Listing excluded limit \<longrightarrow> 1 \<le> limit \<and> limit \<le> os_batchSize s \<and> os_batchSize s \<le> 1000) \<and>
    (os_pumpRequested s \<longrightarrow> os_pump s \<noteq> No_pump) \<and>
    (\<forall>r. requests_pump s r \<longrightarrow>
       (if os_pump s = No_pump then pump_started (outbox_step s r) else os_pumpRequested (outbox_step s r))) \<and>
    (\<forall>fs. os_pumpRequested s \<longrightarrow>
       os_pumpRequested (foldl outbox_step s fs) \<or>
       (\<exists>gs hs. fs = gs @ Pump_finally # hs \<and> os_pumpRequested (foldl outbox_step s gs) \<and>
          pump_started (foldl outbox_step s (gs @ [Pump_finally]))))"
proof -
  define s where "s = foldl outbox_step (new_scheduler q b) es"
  define settled where "settled = fst ` set (cq_log (os_queue s))"
  have ok: "outbox_ok s" unfolding s_def by (rule outbox.run_inv [OF new_outbox_ok [OF assms]])
  have core: "outbox_core s" using ok by (simp add: outbox_ok_def)
  have h: "(p, t) \<in> set (os_handlers s)" if "(p, t) \<in> set (os_calls s)" "p \<notin> settled" for p t
    using core that unfolding outbox_core_def settled_def by blast
  have one: "p = p'" if "(p, t) \<in> set (os_handlers s)" "(p', t) \<in> set (os_handlers s)" for p p' t
    using core_handlers_inj [OF core that] by simp
  have sched: "t \<in> set (os_scheduledTaskIds s)" if "(p, t) \<in> set (os_handlers s)" for p t
    using core that by (force simp: outbox_core_def)
  have limit: "1 \<le> limit \<and> limit \<le> os_batchSize s \<and> os_batchSize s \<le> 1000" if "os_pump s = Listing excluded limit" for excluded limit
    using ok that by (auto simp: outbox_ok_def outbox_core_def)
  have req: "os_pumpRequested s \<longrightarrow> os_pump s \<noteq> No_pump" using ok by (simp add: outbox_ok_def)
  show ?thesis
    unfolding s_def [symmetric] Let_def settled_def [symmetric]
  proof (intro conjI)
    show "\<forall>p p' t. (p, t) \<in> set (os_calls s) \<and> (p', t) \<in> set (os_calls s) \<and> p \<notin> settled \<and> p' \<notin> settled \<longrightarrow> p = p'"
      using h one by blast
    show "\<forall>p t. (p, t) \<in> set (os_calls s) \<longrightarrow> p \<in> set (cq_added (os_queue s))" using core_calls(1) [OF core] by blast
    show "\<forall>p t. (p, t) \<in> set (os_calls s) \<and> p \<notin> settled \<longrightarrow> t \<in> set (os_scheduledTaskIds s)" using h sched by blast
  qed (use limit req request_starts_or_is_noted [of s] noted_request_served [OF ok] in blast)+
qed

theorem outbox_exactly_once_in_flight_witness:
  "\<exists>s. s = foldl outbox_step (new_scheduler (new_queue 1 0 (Some 1)) None) [Schedule ''a'', Schedule ''a'', Schedule ''b'', Schedule ''c''] \<and>
     os_calls s = [(0, ''a''), (1, ''b'')] \<and> 1 \<in> set (cq_added (os_queue s)) \<and> pump_started (outbox_step s Request_pump)"
proof -
  define s where "s = foldl outbox_step (new_scheduler (new_queue 1 0 (Some 1)) None) [Schedule ''a'', Schedule ''a'', Schedule ''b'', Schedule ''c'']"
  have run: "os_calls s = [(0, ''a''), (1, ''b'')]" "os_pump s = No_pump" unfolding s_def by code_simp+
  note claim = outbox_exactly_once_in_flight [OF new_queue_ok, of 1 0 "Some 1" None "[Schedule ''a'', Schedule ''a'', Schedule ''b'', Schedule ''c'']"]
  have "\<forall>p t. (p, t) \<in> set (os_calls s) \<longrightarrow> p \<in> set (cq_added (os_queue s))"
    using claim unfolding Let_def s_def [symmetric] by blast
  moreover have "requests_pump s Request_pump \<longrightarrow> pump_started (outbox_step s Request_pump)"
    using claim run(2) unfolding Let_def s_def [symmetric] by presburger
  ultimately show ?thesis using run(1) unfolding s_def [symmetric] by simp
qed

end
