(* ===== verification/Delivery_Tracker.thy ===== *)
theory Delivery_Tracker
  imports Contracts JS_Values "HOL-Library.AList" "HOL-Library.Multiset"
begin

text \<open>
  Confirmation of Telegram deliveries (\<^verbatim>\<open>src/delivery_tracker.ts\<close>): sent messages wait for the update
  that confirms or refuses them, updates that come first are cached for a while. The maps of the class
  are association lists in insertion order (\<^const>\<open>AList.update\<close> keeps the place of a key that is
  present, as \<^verbatim>\<open>Map.set\<close> does). The promise of each message that is waited for has a number; the log
  records their settlements. The time of an event is its argument.
\<close>

section \<open>State\<close>

record delivery_outcome =
  do_destinationMessageId :: "string option"
  do_error :: "error option"
  do_expiresAt :: int

record delivery_waiter =
  dw_promise :: nat
  dw_signal :: bool

record tracker =
  dt_confirmationTimeoutMs :: int
  dt_outcomeTtlMs :: int
  dt_maxCachedOutcomes :: int
  dt_waiters :: "(string \<times> delivery_waiter) list"
  dt_recentOutcomes :: "(string \<times> delivery_outcome) list"
  dt_promises :: nat
  dt_log :: "(nat \<times> (error + string)) list"

definition new_tracker :: "int \<Rightarrow> int \<Rightarrow> int \<Rightarrow> tracker result" where
  "new_tracker confirmationTimeoutMs outcomeTtlMs maxCachedOutcomes =
     (if \<not> is_safe_integer confirmationTimeoutMs \<or> confirmationTimeoutMs < 1
      then Inl (Error ''confirmationTimeoutMs must be a positive safe integer.'')
      else Inr \<lparr>dt_confirmationTimeoutMs = confirmationTimeoutMs, dt_outcomeTtlMs = outcomeTtlMs, dt_maxCachedOutcomes = maxCachedOutcomes,
        dt_waiters = [], dt_recentOutcomes = [], dt_promises = 0, dt_log = []\<rparr>)"


section \<open>Messages\<close>

text \<open>\<^verbatim>\<open>value?.key\<close> on an object or a missing value\<close>

definition js_field :: "js \<Rightarrow> string \<Rightarrow> js" where
  "js_field v k = (case v of JObj props \<Rightarrow> js_get props k | _ \<Rightarrow> JUndefined)"

definition deliveryMessageId :: "js \<Rightarrow> string option" where
  "deliveryMessageId value = (case value of
       JStr s \<Rightarrow> Some s
     | _ \<Rightarrow> map_option show_int (safe_integer_of value))"

definition deliveryErrorDetail :: "js \<Rightarrow> string option" where
  "deliveryErrorDetail value = (case value of JStr s \<Rightarrow> if s = [] then None else Some s | _ \<Rightarrow> None)"

definition deliveryFailureDetail :: "js \<Rightarrow> string" where
  "deliveryFailureDetail update =
     (case deliveryErrorDetail (js_field (js_field update ''error'') ''message'') of
        Some d \<Rightarrow> d
      | None \<Rightarrow> (case deliveryErrorDetail (js_field (js_field (js_field (js_field update ''message'') ''sending_state'') ''error'') ''message'') of
          Some d \<Rightarrow> d
        | None \<Rightarrow> ''Telegram send failed.''))"


section \<open>Operations\<close>

definition settle_promise :: "nat \<Rightarrow> (error + string) \<Rightarrow> tracker \<Rightarrow> tracker" where
  "settle_promise p r s = s\<lparr>dt_log := dt_log s @ [(p, r)]\<rparr>"

definition cleanupWaiter :: "string \<Rightarrow> tracker \<Rightarrow> tracker" where
  "cleanupWaiter messageId s = s\<lparr>dt_waiters := AList.delete messageId (dt_waiters s)\<rparr>"

definition pruneOutcomes :: "int \<Rightarrow> tracker \<Rightarrow> tracker" where
  "pruneOutcomes now s = s\<lparr>dt_recentOutcomes := filter (\<lambda>(k, outcome). \<not> do_expiresAt outcome \<le> now) (dt_recentOutcomes s)\<rparr>"

text \<open>What the caller of a message is told about its outcome.\<close>

definition outcome_result :: "delivery_outcome \<Rightarrow> error + string" where
  "outcome_result outcome = (case do_error outcome of
       Some e \<Rightarrow> Inl e
     | None \<Rightarrow> (case do_destinationMessageId outcome of
         Some d \<Rightarrow> if d = [] then Inl (Error ''Delivery confirmation is missing.'') else Inr d
       | None \<Rightarrow> Inl (Error ''Delivery confirmation is missing.'')))"

fun evict :: "int \<Rightarrow> (string \<times> delivery_outcome) list \<Rightarrow> (string \<times> delivery_outcome) list" where
  "evict maximum [] = []"
| "evict maximum (oldest # rest) = (if int (length (oldest # rest)) > maximum then evict maximum rest else oldest # rest)"

definition publish :: "int \<Rightarrow> string \<Rightarrow> delivery_outcome \<Rightarrow> tracker \<Rightarrow> tracker" where
  "publish now oldMessageId outcome s =
     (let s = pruneOutcomes now s in
      case map_of (dt_waiters s) oldMessageId of
        Some waiter \<Rightarrow> settle_promise (dw_promise waiter) (outcome_result outcome) (cleanupWaiter oldMessageId s)
      | None \<Rightarrow> s\<lparr>dt_recentOutcomes := evict (dt_maxCachedOutcomes s) (AList.update oldMessageId outcome (dt_recentOutcomes s))\<rparr>)"

definition handleUpdate :: "int \<Rightarrow> js \<Rightarrow> tracker \<Rightarrow> bool \<times> tracker" where
  "handleUpdate now update s =
     (let kind = js_field update ''_''; oldId = js_field update ''old_message_id'' in
      if kind = JStr ''updateMessageSendSucceeded''
      then (case deliveryMessageId oldId of
          None \<Rightarrow> (False, s)
        | Some oldMessageId \<Rightarrow> (case deliveryMessageId (js_or (js_field (js_field update ''message'') ''id'') oldId) of
            None \<Rightarrow> (False, s)
          | Some destinationMessageId \<Rightarrow>
              (True, publish now oldMessageId \<lparr>do_destinationMessageId = Some destinationMessageId, do_error = None,
                 do_expiresAt = now + dt_outcomeTtlMs s\<rparr> s)))
      else if kind = JStr ''updateMessageSendFailed''
      then (case deliveryMessageId oldId of
          None \<Rightarrow> (False, s)
        | Some oldMessageId \<Rightarrow>
            (True, publish now oldMessageId \<lparr>do_destinationMessageId = None,
               do_error = Some (Error (''Telegram delivery failed for local message '' @ oldMessageId @ '': '' @ deliveryFailureDetail update)),
               do_expiresAt = now + dt_outcomeTtlMs s\<rparr> s))
      else (False, s))"

text \<open>The signal is absent, or present and aborted or not.\<close>

definition waitForMessage :: "int \<Rightarrow> string \<Rightarrow> bool option \<Rightarrow> nat \<Rightarrow> tracker \<Rightarrow> tracker" where
  "waitForMessage now oldMessageId signal promise s =
     (let s = pruneOutcomes now s in
      case map_of (dt_recentOutcomes s) oldMessageId of
        Some cached \<Rightarrow> settle_promise promise (outcome_result cached) (s\<lparr>dt_recentOutcomes := AList.delete oldMessageId (dt_recentOutcomes s)\<rparr>)
      | None \<Rightarrow>
          if signal = Some True then settle_promise promise (Inl (Error ''Delivery confirmation aborted.'')) s
          else if map_of (dt_waiters s) oldMessageId \<noteq> None
          then settle_promise promise (Inl (Error (''A delivery confirmation waiter already exists for '' @ oldMessageId @ ''.''))) s
          else s\<lparr>dt_waiters := AList.update oldMessageId \<lparr>dw_promise = promise, dw_signal = (signal \<noteq> None)\<rparr> (dt_waiters s)\<rparr>)"

text \<open>One member of the list of messages: its promise gets the next number.\<close>

definition wait_member :: "int \<Rightarrow> bool option \<Rightarrow> js \<Rightarrow> tracker \<Rightarrow> tracker" where
  "wait_member now signal message s =
     (let p = dt_promises s; s = s\<lparr>dt_promises := Suc p\<rparr>; i = js_field message ''id'' in
      if i = JUndefined \<or> i = JNull then settle_promise p (Inl (Error ''Telegram send returned a message without an id.'')) s
      else case deliveryMessageId i of
          None \<Rightarrow> settle_promise p (Inl (Error ''Telegram send returned an invalid message id.'')) s
        | Some messageId \<Rightarrow>
            let sendingState = js_field message ''sending_state'' in
            if js_falsy sendingState then settle_promise p (Inr messageId) s
            else if js_field sendingState ''_'' = JStr ''messageSendingStateFailed''
            then settle_promise p (Inl (Error (case deliveryErrorDetail (js_field (js_field sendingState ''error'') ''message'') of
                Some d \<Rightarrow> d | None \<Rightarrow> ''Telegram reported a failed sending state.''))) s
            else waitForMessage now messageId signal p s)"

text \<open>The promises of the members, in order; the call fails when there is nothing to confirm.\<close>

definition waitForResult :: "int \<Rightarrow> js \<Rightarrow> bool option \<Rightarrow> tracker \<Rightarrow> nat list result \<times> tracker" where
  "waitForResult now answer signal s =
     (let messages = (case js_field answer ''messages'' of
          JArr ms \<Rightarrow> ms
        | _ \<Rightarrow> if js_field answer ''id'' \<noteq> JUndefined then [answer] else []) in
      if messages = [] then (Inl (Error ''Telegram send returned no destination messages to confirm.''), s)
      else (Inr [dt_promises s..<dt_promises s + length messages], foldl (\<lambda>s m. wait_member now signal m s) s messages))"

text \<open>\<^verbatim>\<open>Promise.all\<close>: the first rejection, or all values once all are there, or still pending.\<close>

definition promise_all :: "(nat \<times> (error + string)) list \<Rightarrow> nat list \<Rightarrow> string list result option" where
  "promise_all entries ps = (case find (\<lambda>(p, r). p \<in> set ps \<and> isl r) entries of
       Some (p, r) \<Rightarrow> Some (Inl (projl r))
     | None \<Rightarrow> if \<forall>p\<in>set ps. map_of entries p \<noteq> None then Some (Inr (map (\<lambda>p. projr (the (map_of entries p))) ps)) else None)"

definition close :: "string \<Rightarrow> tracker \<Rightarrow> tracker" where
  "close reason s =
     (foldl (\<lambda>s (messageId, waiter). settle_promise (dw_promise waiter) (Inl (Error reason)) (cleanupWaiter messageId s)) s (dt_waiters s))
       \<lparr>dt_recentOutcomes := []\<rparr>"

text \<open>The timer and the abort listener of a waiter; both are gone once the waiter is.\<close>

definition waiter_gone :: "error \<Rightarrow> nat \<Rightarrow> tracker \<Rightarrow> tracker" where
  "waiter_gone e p s = (case find (\<lambda>(k, w). dw_promise w = p) (dt_waiters s) of
       None \<Rightarrow> s
     | Some (messageId, w) \<Rightarrow> settle_promise p (Inl e) (cleanupWaiter messageId s))"

definition waiter_timeout :: "nat \<Rightarrow> tracker \<Rightarrow> tracker" where
  "waiter_timeout p s =
     waiter_gone (Error (''Telegram delivery confirmation timed out after '' @ show_int (dt_confirmationTimeoutMs s) @ ''ms.'')) p s"

definition waiter_abort :: "nat \<Rightarrow> tracker \<Rightarrow> tracker" where
  "waiter_abort p s = (if \<exists>(k, w)\<in>set (dt_waiters s). dw_promise w = p \<and> dw_signal w
     then waiter_gone (Error ''Delivery confirmation aborted.'') p s else s)"

datatype tracker_event =
    Update int js
  | Wait int js "bool option"
  | Close string
  | Waiter_timeout nat
  | Waiter_abort nat

fun tracker_step :: "tracker \<Rightarrow> tracker_event \<Rightarrow> tracker" where
  "tracker_step s (Update now u) = snd (handleUpdate now u s)"
| "tracker_step s (Wait now r signal) = snd (waitForResult now r signal s)"
| "tracker_step s (Close reason) = close reason s"
| "tracker_step s (Waiter_timeout p) = waiter_timeout p s"
| "tracker_step s (Waiter_abort p) = waiter_abort p s"


section \<open>The invariant\<close>

definition waiting :: "tracker \<Rightarrow> nat list" where
  "waiting s = map (dw_promise \<circ> snd) (dt_waiters s)"

text \<open>The parts of the invariant that a promise in flight (numbered, not yet placed) does not touch.\<close>

definition maps_ok :: "tracker \<Rightarrow> bool" where
  "maps_ok s \<longleftrightarrow> distinct (map fst (dt_waiters s)) \<and> distinct (map fst (dt_recentOutcomes s)) \<and>
     fst ` set (dt_waiters s) \<inter> fst ` set (dt_recentOutcomes s) = {} \<and>
     int (length (dt_recentOutcomes s)) \<le> max 0 (dt_maxCachedOutcomes s)"

definition promises_ok :: "nat multiset \<Rightarrow> tracker \<Rightarrow> bool" where
  "promises_ok inflight s \<longleftrightarrow> mset (waiting s) + mset (map fst (dt_log s)) + inflight = mset [0..<dt_promises s]"

definition tracker_ok :: "tracker \<Rightarrow> bool" where
  "tracker_ok s \<longleftrightarrow> maps_ok s \<and> promises_ok {#} s"

lemma delete_mset:
  assumes "distinct (map fst xs)" "map_of xs k = Some v"
  shows "mset (map f xs) = add_mset (f (k, v)) (mset (map f (AList.delete k xs)))"
  using assms
proof (induction xs)
  case (Cons x xs)
  obtain k' v' where x: "x = (k', v')" by fastforce
  show ?case
  proof (cases "k' = k")
    case True
    then have "AList.delete k xs = xs" using Cons.prems(1) x by (simp add: AList.delete_id)
    then show ?thesis using True Cons.prems(2) x by simp
  qed (use Cons x in auto)
qed simp

lemma update_new: "k \<notin> fst ` set xs \<Longrightarrow> AList.update k v xs = xs @ [(k, v)]"
  by (induction xs) auto

lemma delete_keys: "fst ` set (AList.delete k xs) = fst ` set xs - {k}"
  by (auto simp: AList.delete_eq image_iff)

lemma evict_suffix: "\<exists>ys. xs = ys @ evict m xs"
proof (induction xs)
  case (Cons x xs)
  then obtain ys where "xs = ys @ evict m xs" by blast
  then have "x # xs = (if int (length (x # xs)) > m then x # ys else []) @ evict m (x # xs)" by simp
  then show ?case by blast
qed simp

lemma evict_length: "int (length (evict m xs)) \<le> max 0 m"
  by (induction xs) auto

lemma evict_distinct: "distinct (map fst xs) \<Longrightarrow> distinct (map fst (evict m xs))"
proof -
  assume d: "distinct (map fst xs)"
  obtain ys where "xs = ys @ evict m xs" using evict_suffix by blast
  then have "map fst xs = map fst ys @ map fst (evict m xs)" by (metis map_append)
  with d show ?thesis by (metis distinct_append)
qed

lemma evict_keys: "fst ` set (evict m xs) \<subseteq> fst ` set xs"
proof -
  obtain ys where "xs = ys @ evict m xs" using evict_suffix by blast
  then have "set (evict m xs) \<subseteq> set xs" by (metis Un_upper2 set_append)
  then show ?thesis by blast
qed

lemma prune_simps [simp]:
  "dt_waiters (pruneOutcomes now s) = dt_waiters s" "dt_promises (pruneOutcomes now s) = dt_promises s" "dt_log (pruneOutcomes now s) = dt_log s"
  "dt_maxCachedOutcomes (pruneOutcomes now s) = dt_maxCachedOutcomes s" "dt_outcomeTtlMs (pruneOutcomes now s) = dt_outcomeTtlMs s"
  by (simp_all add: pruneOutcomes_def)

lemma prune_maps: "maps_ok s \<Longrightarrow> maps_ok (pruneOutcomes now s)"
proof -
  assume ok: "maps_ok s"
  have "length (filter (\<lambda>(k, outcome). \<not> do_expiresAt outcome \<le> now) (dt_recentOutcomes s)) \<le> length (dt_recentOutcomes s)" by (rule length_filter_le)
  then have "int (length (filter (\<lambda>(k, outcome). \<not> do_expiresAt outcome \<le> now) (dt_recentOutcomes s))) \<le> max 0 (dt_maxCachedOutcomes s)"
    using ok unfolding maps_ok_def by linarith
  then show ?thesis using ok by (auto simp: maps_ok_def pruneOutcomes_def distinct_map_filter)
qed

lemma promises_cong: "waiting s = waiting t \<Longrightarrow> dt_log s = dt_log t \<Longrightarrow> dt_promises s = dt_promises t \<Longrightarrow> promises_ok m s = promises_ok m t"
  by (simp add: promises_ok_def)

lemma settle_maps [simp]: "maps_ok (settle_promise p r s) = maps_ok s"
  by (simp add: maps_ok_def settle_promise_def)

lemma settle_promises: "promises_ok (add_mset p m) s \<Longrightarrow> promises_ok m (settle_promise p r s)"
  by (simp add: promises_ok_def settle_promise_def waiting_def)

text \<open>Telling the caller of a waiter and forgetting the waiter go together.\<close>

lemma resolve_waiter_ok:
  assumes "maps_ok s" "promises_ok m s" "map_of (dt_waiters s) k = Some w"
  shows "maps_ok (settle_promise (dw_promise w) r (cleanupWaiter k s))" "promises_ok m (settle_promise (dw_promise w) r (cleanupWaiter k s))"
proof -
  show "maps_ok (settle_promise (dw_promise w) r (cleanupWaiter k s))"
  proof -
    have "maps_ok (cleanupWaiter k s)"
      using assms(1) AList.distinct_delete [of "dt_waiters s" k] unfolding maps_ok_def cleanupWaiter_def by (simp add: delete_keys) blast
    then show ?thesis by simp
  qed
  have "mset (waiting s) = add_mset (dw_promise w) (mset (waiting (cleanupWaiter k s)))"
    using delete_mset [OF _ assms(3), of "dw_promise \<circ> snd"] assms(1) by (simp add: maps_ok_def waiting_def cleanupWaiter_def)
  then have "promises_ok (add_mset (dw_promise w) m) (cleanupWaiter k s)"
    using assms(2) by (simp add: promises_ok_def cleanupWaiter_def)
  then show "promises_ok m (settle_promise (dw_promise w) r (cleanupWaiter k s))" by (rule settle_promises)
qed

lemma publish_ok:
  assumes "tracker_ok s"
  shows "tracker_ok (publish now k outcome s)"
proof -
  define u where "u = pruneOutcomes now s"
  have u: "maps_ok u" "promises_ok {#} u"
    using assms prune_maps promises_cong [of s u] by (auto simp: u_def tracker_ok_def waiting_def)
  show ?thesis
  proof (cases "map_of (dt_waiters u) k")
    case None
    define os where "os = AList.update k outcome (dt_recentOutcomes u)"
    have k: "k \<notin> fst ` set (dt_waiters u)" using None by (simp add: map_of_eq_None_iff)
    have keys: "fst ` set (evict (dt_maxCachedOutcomes u) os) \<subseteq> insert k (fst ` set (dt_recentOutcomes u))"
      using evict_keys [of "dt_maxCachedOutcomes u" os] dom_update [of k outcome "dt_recentOutcomes u"]
      by (simp add: os_def dom_map_of_conv_image_fst)
    have apart: "A \<inter> C = {}" if "A \<inter> B = {}" "x \<notin> A" "C \<subseteq> insert x B" for A B C and x :: string using that by blast
    have "distinct (map fst os)" using u(1) by (simp add: os_def maps_ok_def distinct_update)
    then have "distinct (map fst (evict (dt_maxCachedOutcomes u) os))" by (rule evict_distinct)
    moreover have "fst ` set (dt_waiters u) \<inter> fst ` set (evict (dt_maxCachedOutcomes u) os) = {}"
      using u(1) by (intro apart [OF _ k keys]) (simp add: maps_ok_def)
    ultimately have "maps_ok (u\<lparr>dt_recentOutcomes := evict (dt_maxCachedOutcomes u) os\<rparr>)"
      using u(1) evict_length [of "dt_maxCachedOutcomes u" os] by (simp add: maps_ok_def)
    moreover have "promises_ok {#} (u\<lparr>dt_recentOutcomes := xs\<rparr>)" for xs using u(2) by (simp add: promises_ok_def waiting_def)
    ultimately show ?thesis
      using None unfolding publish_def Let_def u_def [symmetric] os_def [symmetric] by (simp add: tracker_ok_def os_def)
  next
    case (Some w)
    then show ?thesis
      using resolve_waiter_ok [OF u Some] unfolding publish_def Let_def u_def [symmetric] by (simp add: tracker_ok_def)
  qed
qed

lemma handleUpdate_ok: "tracker_ok s \<Longrightarrow> tracker_ok (snd (handleUpdate now u s))"
  by (simp add: handleUpdate_def Let_def publish_ok split: option.split)

lemma waitForMessage_ok:
  assumes "maps_ok s" "promises_ok {#p#} s"
  shows "tracker_ok (waitForMessage now k signal p s)"
proof -
  define u where "u = pruneOutcomes now s"
  have u: "maps_ok u" "promises_ok {#p#} u"
    using assms prune_maps promises_cong [of s u] by (auto simp: u_def waiting_def)
  have settled: "tracker_ok (settle_promise p r u)" for r using u settle_promises by (simp add: tracker_ok_def)
  show ?thesis
  proof (cases "map_of (dt_recentOutcomes u) k")
    case (Some cached)
    define v where "v = u\<lparr>dt_recentOutcomes := AList.delete k (dt_recentOutcomes u)\<rparr>"
    have "length (AList.delete k (dt_recentOutcomes u)) \<le> length (dt_recentOutcomes u)" by (rule length_delete_le)
    then have "maps_ok v"
      using u(1) AList.distinct_delete [of "dt_recentOutcomes u" k] by (auto simp: maps_ok_def v_def delete_keys)
    moreover have "promises_ok {#p#} v" using u(2) by (simp add: promises_ok_def waiting_def v_def)
    ultimately show ?thesis
      using Some settle_promises unfolding waitForMessage_def Let_def u_def [symmetric] v_def by (simp add: tracker_ok_def)
  next
    case None
    have "tracker_ok (u\<lparr>dt_waiters := AList.update k \<lparr>dw_promise = p, dw_signal = b\<rparr> (dt_waiters u)\<rparr>)" if "map_of (dt_waiters u) k = None" for b
    proof -
      have "k \<notin> fst ` set (dt_waiters u)" "k \<notin> fst ` set (dt_recentOutcomes u)" using that None by (simp_all add: map_of_eq_None_iff)
      then show ?thesis using u by (auto simp: tracker_ok_def maps_ok_def promises_ok_def waiting_def update_new)
    qed
    with None settled show ?thesis unfolding waitForMessage_def Let_def u_def [symmetric] by simp
  qed
qed

lemma wait_member_ok:
  assumes "tracker_ok s"
  shows "tracker_ok (wait_member now signal message s)"
proof -
  define u where "u = s\<lparr>dt_promises := Suc (dt_promises s)\<rparr>"
  have u: "maps_ok u" "promises_ok {#dt_promises s#} u"
    using assms by (simp_all add: tracker_ok_def maps_ok_def promises_ok_def u_def waiting_def)
  then have "tracker_ok (settle_promise (dt_promises s) r u)" for r using settle_promises by (simp add: tracker_ok_def)
  moreover have "tracker_ok (waitForMessage now k signal (dt_promises s) u)" for k using u by (rule waitForMessage_ok)
  ultimately show ?thesis
    unfolding wait_member_def Let_def u_def [symmetric] by (simp split: option.split)
qed

lemma waitForResult_ok: "tracker_ok s \<Longrightarrow> tracker_ok (snd (waitForResult now r signal s))"
proof -
  have "tracker_ok s \<Longrightarrow> tracker_ok (foldl (\<lambda>s m. wait_member now signal m s) s ms)" for ms
    by (induction ms arbitrary: s) (simp_all add: wait_member_ok)
  moreover assume "tracker_ok s"
  ultimately show ?thesis by (simp add: waitForResult_def Let_def split: js.split)
qed

lemma waiter_gone_ok: "tracker_ok s \<Longrightarrow> tracker_ok (waiter_gone e p s)"
proof (cases "find (\<lambda>(k, w). dw_promise w = p) (dt_waiters s)")
  case (Some kw)
  assume ok: "tracker_ok s"
  obtain k w where kw: "kw = (k, w)" by fastforce
  then have "(k, w) \<in> set (dt_waiters s)" "dw_promise w = p" using Some by (auto simp: find_Some_iff in_set_conv_nth)
  moreover from this have "map_of (dt_waiters s) k = Some w" using ok by (simp add: tracker_ok_def maps_ok_def)
  ultimately show ?thesis
    using resolve_waiter_ok [of s "{#}" k w] ok Some kw by (simp add: waiter_gone_def tracker_ok_def)
qed (simp add: waiter_gone_def)

text \<open>Closing removes the waiters one by one, from the first.\<close>

lemma close_fold:
  assumes "distinct (map fst (dt_waiters s))"
  shows "foldl (\<lambda>s (messageId, waiter). settle_promise (dw_promise waiter) (Inl e) (cleanupWaiter messageId s)) s (dt_waiters s) =
    s\<lparr>dt_waiters := [], dt_log := dt_log s @ map (\<lambda>(k, w). (dw_promise w, Inl e)) (dt_waiters s)\<rparr>"
proof -
  have "foldl (\<lambda>s (messageId, waiter). settle_promise (dw_promise waiter) (Inl e) (cleanupWaiter messageId s)) u ws =
    u\<lparr>dt_waiters := [], dt_log := dt_log u @ map (\<lambda>(k, w). (dw_promise w, Inl e)) ws\<rparr>" if "dt_waiters u = ws" "distinct (map fst ws)" for u ws
    using that
  proof (induction ws arbitrary: u)
    case (Cons kw ws)
    obtain k w where kw: "kw = (k, w)" by fastforce
    have "AList.delete k ws = ws" using Cons.prems(2) kw by (simp add: AList.delete_id)
    then show ?case using Cons kw by (simp add: settle_promise_def cleanupWaiter_def)
  qed simp
  from this [OF refl assms] show ?thesis .
qed

lemma close_ok: "tracker_ok s \<Longrightarrow> tracker_ok (close reason s)"
proof -
  assume ok: "tracker_ok s"
  define entries where "entries = map (\<lambda>(k, w). (dw_promise w, Inl (Error reason) :: error + string)) (dt_waiters s)"
  have told: "map fst entries = waiting s" by (simp add: entries_def waiting_def comp_def case_prod_unfold)
  have "distinct (map fst (dt_waiters s))" using ok by (simp add: tracker_ok_def maps_ok_def)
  then have "close reason s = s\<lparr>dt_waiters := [], dt_log := dt_log s @ entries, dt_recentOutcomes := []\<rparr>"
    unfolding close_def entries_def by (subst close_fold) simp_all
  moreover have "mset (map fst (dt_log s @ entries)) = mset [0..<dt_promises s]"
    unfolding map_append mset_append told using ok by (simp add: tracker_ok_def promises_ok_def ac_simps)
  ultimately show ?thesis by (simp add: tracker_ok_def maps_ok_def promises_ok_def waiting_def del: mset_map)
qed

lemma tracker_step_ok: "tracker_ok s \<Longrightarrow> tracker_ok (tracker_step s e)"
  by (cases e) (simp_all add: handleUpdate_ok waitForResult_ok close_ok waiter_timeout_def waiter_abort_def waiter_gone_ok)

interpretation tracker: invariant_system tracker_step tracker_ok
  by unfold_locales (rule tracker_step_ok)

lemma new_tracker_ok: "new_tracker c t m = Inr s \<Longrightarrow> tracker_ok s"
  by (auto simp: new_tracker_def tracker_ok_def maps_ok_def promises_ok_def waiting_def split: if_splits)


section \<open>Either order\<close>

lemma evict_keeps_last: "1 \<le> m \<Longrightarrow> k \<notin> fst ` set xs \<Longrightarrow> map_of (evict m (xs @ [(k, v)])) k = Some v"
proof (induction xs)
  case (Cons x xs)
  obtain k' v' where x: "x = (k', v')" by fastforce
  have "map_of (xs @ [(k, v)]) k = Some v" using Cons.prems(2) map_of_eq_None_iff [of xs k] by (simp add: map_add_def)
  then show ?case using Cons x by auto
qed simp

lemma log_fresh: "tracker_ok s \<Longrightarrow> map_of (dt_log s) (dt_promises s) = None"
proof -
  assume "tracker_ok s"
  then have "mset (waiting s) + mset (map fst (dt_log s)) = mset [0..<dt_promises s]" by (simp add: tracker_ok_def promises_ok_def)
  then have "set (map fst (dt_log s)) \<subseteq> {..<dt_promises s}"
    by (metis atLeast0LessThan atLeast_upt mset_append mset_eq_setD order_refl set_append sup.bounded_iff)
  then show ?thesis by (auto simp: map_of_eq_None_iff)
qed

text \<open>A sent message that is still pending, and the update that confirms it.\<close>

definition pending_message :: "string \<Rightarrow> js \<Rightarrow> bool" where
  "pending_message k m \<longleftrightarrow> (\<forall>ms. js_field m ''messages'' \<noteq> JArr ms) \<and> js_field m ''id'' \<notin> {JUndefined, JNull} \<and>
     deliveryMessageId (js_field m ''id'') = Some k \<and> \<not> js_falsy (js_field m ''sending_state'') \<and>
     js_field (js_field m ''sending_state'') ''_'' \<noteq> JStr ''messageSendingStateFailed''"

definition confirms :: "string \<Rightarrow> string \<Rightarrow> js \<Rightarrow> bool" where
  "confirms k d u \<longleftrightarrow> js_field u ''_'' = JStr ''updateMessageSendSucceeded'' \<and> deliveryMessageId (js_field u ''old_message_id'') = Some k \<and>
     deliveryMessageId (js_or (js_field (js_field u ''message'') ''id'') (js_field u ''old_message_id'')) = Some d \<and> d \<noteq> []"

lemma wait_pending:
  assumes "pending_message k m"
  shows "tracker_step s (Wait now m signal) = waitForMessage now k signal (dt_promises s) (s\<lparr>dt_promises := Suc (dt_promises s)\<rparr>)"
proof -
  have "(case js_field m ''messages'' of JArr ms \<Rightarrow> ms | _ \<Rightarrow> if js_field m ''id'' \<noteq> JUndefined then [m] else []) = [m]"
    using assms by (auto simp: pending_message_def split: js.splits)
  then show ?thesis
    using assms unfolding tracker_step.simps waitForResult_def by (simp add: wait_member_def Let_def pending_message_def)
qed

lemma update_confirms:
  assumes "confirms k d u"
  shows "tracker_step s (Update now u) = publish now k \<lparr>do_destinationMessageId = Some d, do_error = None, do_expiresAt = now + dt_outcomeTtlMs s\<rparr> s"
  using assms by (simp add: handleUpdate_def confirms_def Let_def)


section \<open>Properties\<close>

text \<open>
  Over any history of updates, waits, timeouts, aborts and closings, the cache of outcomes stays
  within its limit, no message is both waited for and cached, and every promise handed out is either
  still waiting or settled, exactly once.
\<close>

theorem tracker_bounded_and_settles_once:
  assumes "new_tracker c t m = Inr s0"
  shows "let s = foldl tracker_step s0 es in
    int (length (dt_recentOutcomes s)) \<le> max 0 (dt_maxCachedOutcomes s) \<and>
    fst ` set (dt_waiters s) \<inter> fst ` set (dt_recentOutcomes s) = {} \<and> distinct (map fst (dt_waiters s)) \<and>
    distinct (waiting s @ map fst (dt_log s)) \<and> set (waiting s @ map fst (dt_log s)) = {..<dt_promises s}"
proof -
  define s where "s = foldl tracker_step s0 es"
  have ok: "tracker_ok s" unfolding s_def by (rule tracker.run_inv [OF new_tracker_ok [OF assms]])
  then have m: "mset (waiting s @ map fst (dt_log s)) = mset [0..<dt_promises s]" by (simp add: tracker_ok_def promises_ok_def)
  have "set (waiting s @ map fst (dt_log s)) = {..<dt_promises s}" using mset_eq_setD [OF m] by (simp add: atLeast_upt)
  moreover have "distinct (waiting s @ map fst (dt_log s))" using mset_eq_imp_distinct_iff [OF m] by simp
  ultimately show ?thesis using ok unfolding s_def [symmetric] Let_def by (simp add: tracker_ok_def maps_ok_def)
qed

definition sample_message :: js where
  "sample_message = JObj [(''id'', JStr ''7''), (''sending_state'', JObj [(''_'', JStr ''messageSendingStatePending'')])]"

definition sample_update :: js where
  "sample_update = JObj [(''_'', JStr ''updateMessageSendSucceeded''), (''old_message_id'', JStr ''7''), (''message'', JObj [(''id'', JStr ''70'')])]"

definition sample_tracker :: tracker where
  "sample_tracker = \<lparr>dt_confirmationTimeoutMs = 30000, dt_outcomeTtlMs = 300000, dt_maxCachedOutcomes = 2, dt_waiters = [],
     dt_recentOutcomes = [], dt_promises = 0, dt_log = []\<rparr>"

theorem tracker_bounded_and_settles_once_witness:
  "new_tracker 30000 300000 2 = Inr sample_tracker \<and>
   (let s = foldl tracker_step sample_tracker [Wait 0 sample_message None, Waiter_timeout 0, Update 5 sample_update] in
      length (dt_recentOutcomes s) = 1 \<and> distinct (waiting s @ map fst (dt_log s)))"
proof -
  have run: "new_tracker 30000 300000 2 = Inr sample_tracker"
    "length (dt_recentOutcomes (foldl tracker_step sample_tracker [Wait 0 sample_message None, Waiter_timeout 0, Update 5 sample_update])) = 1"
    by code_simp+
  show ?thesis
    using tracker_bounded_and_settles_once [OF run(1), of "[Wait 0 sample_message None, Waiter_timeout 0, Update 5 sample_update]"] run
    unfolding Let_def by blast
qed

text \<open>
  C34: a confirmation reaches its caller whichever comes first. If the caller waits before the
  update arrives, or the update arrives first and is still cached, the promise of the wait (the next
  number) resolves with the same destination message id.
\<close>

theorem confirmation_in_either_order:
  assumes "tracker_ok s" "pending_message k m" "confirms k d u" "signal \<noteq> Some True" "1 \<le> dt_maxCachedOutcomes s"
    and "k \<notin> fst ` set (dt_waiters s)" "k \<notin> fst ` set (dt_recentOutcomes s)" "now \<le> later" "later < now + dt_outcomeTtlMs s"
  shows "map_of (dt_log (foldl tracker_step s [Wait now m signal, Update later u])) (dt_promises s) = Some (Inr d) \<and>
    map_of (dt_log (foldl tracker_step s [Update now u, Wait later m signal])) (dt_promises s) = Some (Inr d)"
proof
  have fresh: "map_of (dt_log s) (dt_promises s) = None" using assms(1) by (rule log_fresh)
  have d: "d \<noteq> []" using assms(3) by (simp add: confirms_def)
  have none: "map_of (filter f (dt_recentOutcomes s)) k = None" "map_of (dt_waiters s) k = None" for f
    using assms(6,7) by (auto simp: map_of_eq_None_iff image_iff)
  define w where "w = tracker_step s (Wait now m signal)"
  have w: "map_of (dt_waiters w) k = Some \<lparr>dw_promise = dt_promises s, dw_signal = (signal \<noteq> None)\<rparr>" "dt_log w = dt_log s"
    unfolding w_def wait_pending [OF assms(2)] waitForMessage_def using none assms(4)
    by (simp_all add: Let_def pruneOutcomes_def update_conv')
  have "dt_log (tracker_step w (Update later u)) = dt_log s @ [(dt_promises s, Inr d)]"
    unfolding update_confirms [OF assms(3)] publish_def
    using w d by (simp add: Let_def settle_promise_def cleanupWaiter_def outcome_result_def)
  then show "map_of (dt_log (foldl tracker_step s [Wait now m signal, Update later u])) (dt_promises s) = Some (Inr d)"
    unfolding foldl.simps w_def [symmetric] using fresh by (simp add: map_add_def del: tracker_step.simps)
  define outcome where "outcome = \<lparr>do_destinationMessageId = Some d, do_error = None, do_expiresAt = now + dt_outcomeTtlMs s\<rparr>"
  define v where "v = tracker_step s (Update now u)"
  have v: "v = publish now k outcome s" unfolding v_def outcome_def by (rule update_confirms [OF assms(3)])
  have kept: "map_of (dt_recentOutcomes v) k = Some outcome"
  proof -
    define xs where "xs = filter (\<lambda>(k, outcome). \<not> do_expiresAt outcome \<le> now) (dt_recentOutcomes s)"
    have k: "k \<notin> fst ` set xs" using assms(7) by (auto simp: xs_def image_iff)
    have "dt_recentOutcomes v = evict (dt_maxCachedOutcomes s) (xs @ [(k, outcome)])"
      unfolding v publish_def using none(2) update_new [OF k] by (simp add: Let_def pruneOutcomes_def xs_def)
    then show ?thesis using evict_keeps_last [OF assms(5) k] by simp
  qed
  have ok: "tracker_ok v" unfolding v by (rule publish_ok [OF assms(1)])
  then have "distinct (map fst (dt_recentOutcomes v))" by (simp add: tracker_ok_def maps_ok_def)
  then have cached: "map_of (filter (\<lambda>(k, outcome). \<not> do_expiresAt outcome \<le> later) (dt_recentOutcomes v)) k = Some outcome"
    using map_of_SomeD [OF kept] assms(9) by (intro map_of_is_SomeI) (auto simp: distinct_map_filter outcome_def)
  have v_keeps: "dt_promises v = dt_promises s" "dt_log v = dt_log s"
    unfolding v publish_def using none(2) by (simp_all add: Let_def)
  have "dt_log (tracker_step v (Wait later m signal)) = dt_log s @ [(dt_promises s, Inr d)]"
    unfolding wait_pending [OF assms(2)] waitForMessage_def using cached v_keeps d
    by (simp add: Let_def pruneOutcomes_def settle_promise_def outcome_result_def outcome_def)
  then show "map_of (dt_log (foldl tracker_step s [Update now u, Wait later m signal])) (dt_promises s) = Some (Inr d)"
    unfolding foldl.simps v_def [symmetric] using fresh by (simp add: map_add_def del: tracker_step.simps)
qed

theorem confirmation_in_either_order_witness:
  "map_of (dt_log (foldl tracker_step sample_tracker [Update 1 sample_update, Wait 5 sample_message None])) 0 = Some (Inr ''70'')"
proof -
  have ok: "tracker_ok sample_tracker" using new_tracker_ok [of 30000 300000 2 sample_tracker] by (simp add: new_tracker_def sample_tracker_def is_safe_integer_def max_safe_integer_def)
  have p: "pending_message ''7'' sample_message" "confirms ''7'' ''70'' sample_update"
    by (simp_all add: pending_message_def confirms_def sample_message_def sample_update_def js_field_def deliveryMessageId_def js_falsy_def js_or_def)
  show ?thesis
    using confirmation_in_either_order [OF ok p, of None 1 5] by (simp add: sample_tracker_def)
qed

end
