(* ===== verification/Runtime_Guards.thy ===== *)
theory Runtime_Guards
  imports Contracts JS_Conversions
begin

text \<open>
  The guards that keep an unhealthy process from routing: the clock guard
  (\<^verbatim>\<open>src/clock_guard.ts\<close>), which compares the wall clock with the monotonic clock and latches the
  first failure, and the crash-loop guard (\<^verbatim>\<open>src/crash_guard.ts\<close>), which counts rapid crashes in files.
  Clock readings are arguments; the files are a record of what exists under the state directory.
\<close>

section \<open>The clock guard\<close>

definition default_max_clock_drift_ms :: int where
  "default_max_clock_drift_ms = 1000"

definition clockDriftLimitFromEnvironment :: "string option \<Rightarrow> int result" where
  "clockDriftLimitFromEnvironment variable =
     (let raw = (case variable of None \<Rightarrow> [] | Some v \<Rightarrow> js_trim v) in
      if raw = [] then Inr default_max_clock_drift_ms
      else case safe_number (string_to_number raw) of
          None \<Rightarrow> Inl (Error ''CLOCK_MAX_DRIFT_MS must be an integer between 100 and 5000.'')
        | Some value \<Rightarrow>
            if value < 100 \<or> value > 5000 then Inl (Error ''CLOCK_MAX_DRIFT_MS must be an integer between 100 and 5000.'')
            else Inr value)"

definition validatedClockLimit :: "js_number \<Rightarrow> int result" where
  "validatedClockLimit maxDriftMilliseconds = (case safe_number maxDriftMilliseconds of
       None \<Rightarrow> Inl (Error ''Maximum clock drift must be an integer between 100 and 5000 milliseconds.'')
     | Some m \<Rightarrow>
         if m < 100 \<or> m > 5000 then Inl (Error ''Maximum clock drift must be an integer between 100 and 5000 milliseconds.'') else Inr m)"

definition validatedClockBaseline :: "js_number \<Rightarrow> rat result" where
  "validatedClockBaseline value = (case finite_of value of
       None \<Rightarrow> Inl (JsTypeError ''Clock sources must return finite millisecond values.'')
     | Some r \<Rightarrow> Inr r)"

record clock_guard =
  cg_maxDriftMilliseconds :: int
  cg_baselineWallMilliseconds :: rat
  cg_baselineMonotonicMilliseconds :: rat
  cg_latchedReason :: "string option"
  cg_latchedDriftMilliseconds :: js_number

record clock_snapshot =
  ch_healthy :: bool
  ch_driftMilliseconds :: rat
  ch_maxDriftMilliseconds :: int
  ch_checkedAt :: rat
  ch_reason :: "string option"

definition new_clock_guard :: "js_number \<Rightarrow> js_number \<Rightarrow> js_number \<Rightarrow> clock_guard result" where
  "new_clock_guard maxDrift wall monotonic =
     rbind (validatedClockLimit maxDrift) (\<lambda>m.
     rbind (validatedClockBaseline wall) (\<lambda>w.
     rbind (validatedClockBaseline monotonic) (\<lambda>t.
       Inr \<lparr>cg_maxDriftMilliseconds = m, cg_baselineWallMilliseconds = w, cg_baselineMonotonicMilliseconds = t, cg_latchedReason = None,
            cg_latchedDriftMilliseconds = Num 0\<rparr>)))"

definition sourceDriftError :: "js_number \<Rightarrow> js_number \<Rightarrow> clock_guard \<Rightarrow> string option" where
  "sourceDriftError wall monotonic guard = (case (finite_of wall, finite_of monotonic) of
       (Some w, Some m) \<Rightarrow> if m < cg_baselineMonotonicMilliseconds guard then Some ''The monotonic clock moved backwards.'' else None
     | _ \<Rightarrow> Some ''A system clock source returned a non-finite value.'')"

definition measuredDrift :: "rat \<Rightarrow> rat \<Rightarrow> clock_guard \<Rightarrow> rat" where
  "measuredDrift wall monotonic guard =
     \<bar>(wall - cg_baselineWallMilliseconds guard) - (monotonic - cg_baselineMonotonicMilliseconds guard)\<bar>"

record drift_outcome =
  dr_driftMilliseconds :: js_number
  dr_reason :: "string option"

definition measuredDriftOutcome :: "rat \<Rightarrow> rat \<Rightarrow> clock_guard \<Rightarrow> drift_outcome" where
  "measuredDriftOutcome wall monotonic guard =
     (let drift = measuredDrift wall monotonic guard in
      if drift \<le> of_int (cg_maxDriftMilliseconds guard) then \<lparr>dr_driftMilliseconds = Num drift, dr_reason = None\<rparr>
      else \<lparr>dr_driftMilliseconds = Num drift, dr_reason = Some (''System clock changed by '' @ show_int \<lceil>drift\<rceil> @
        ''ms relative to the monotonic clock; limit is '' @ show_int (cg_maxDriftMilliseconds guard) @ ''ms.'')\<rparr>)"

definition sampleDrift :: "js_number \<Rightarrow> js_number \<Rightarrow> clock_guard \<Rightarrow> drift_outcome" where
  "sampleDrift wall monotonic guard = (case sourceDriftError wall monotonic guard of
       Some reason \<Rightarrow> \<lparr>dr_driftMilliseconds = Infinite False, dr_reason = Some reason\<rparr>
     | None \<Rightarrow> measuredDriftOutcome (the (finite_of wall)) (the (finite_of monotonic)) guard)"

definition latchedOutcome :: "drift_outcome \<Rightarrow> clock_guard \<Rightarrow> drift_outcome \<times> clock_guard" where
  "latchedOutcome outcome guard =
     (let guard = (if dr_reason outcome \<noteq> None \<and> cg_latchedReason guard = None
            then guard\<lparr>cg_latchedReason := dr_reason outcome, cg_latchedDriftMilliseconds := dr_driftMilliseconds outcome\<rparr> else guard)
      in if cg_latchedReason guard \<noteq> None
         then (\<lparr>dr_driftMilliseconds = cg_latchedDriftMilliseconds guard, dr_reason = cg_latchedReason guard\<rparr>, guard)
         else (outcome, guard))"

definition sample :: "js_number \<Rightarrow> js_number \<Rightarrow> clock_guard \<Rightarrow> clock_snapshot \<times> clock_guard" where
  "sample wall monotonic guard = (case latchedOutcome (sampleDrift wall monotonic guard) guard of (outcome, guard') \<Rightarrow>
     (\<lparr>ch_healthy = (dr_reason outcome = None),
       ch_driftMilliseconds = (case finite_of (dr_driftMilliseconds outcome) of Some d \<Rightarrow> d | None \<Rightarrow> of_int (cg_maxDriftMilliseconds guard' + 1)),
       ch_maxDriftMilliseconds = cg_maxDriftMilliseconds guard',
       ch_checkedAt = (case finite_of wall of Some w \<Rightarrow> w | None \<Rightarrow> cg_baselineWallMilliseconds guard'),
       ch_reason = dr_reason outcome\<rparr>, guard'))"

definition assertHealthy :: "js_number \<Rightarrow> js_number \<Rightarrow> clock_guard \<Rightarrow> clock_snapshot result \<times> clock_guard" where
  "assertHealthy wall monotonic guard = (case sample wall monotonic guard of (snapshot, guard') \<Rightarrow>
     if \<not> ch_healthy snapshot
     then (Inl (ClockDriftError (case ch_reason snapshot of Some r \<Rightarrow> r | None \<Rightarrow> ''System clock drift is outside the configured safety limit.'')), guard')
     else (Inr snapshot, guard'))"

text \<open>The snapshots of successive readings of both clocks.\<close>

fun clock_run :: "clock_guard \<Rightarrow> (js_number \<times> js_number) list \<Rightarrow> clock_snapshot list" where
  "clock_run guard [] = []"
| "clock_run guard ((wall, monotonic) # rest) = (case sample wall monotonic guard of (snapshot, guard') \<Rightarrow> snapshot # clock_run guard' rest)"


section \<open>The crash-loop guard\<close>

text \<open>A path is missing, a regular file with its text parsed or the parser's message, or anything else.\<close>

datatype file_entry = Missing | Regular "string + js" | Special

record crash_counter =
  cc_count :: int
  cc_lastCrash :: int

record crash_files =
  cf_directory :: string
  cf_active :: file_entry
  cf_counter :: file_entry
  cf_block :: file_entry
  cf_legacyLock :: file_entry

definition counter_field :: "js \<Rightarrow> string \<Rightarrow> int" where
  "counter_field row key = (case safe_number (js_to_number (case row of JObj props \<Rightarrow> js_get props key | _ \<Rightarrow> JUndefined)) of
       Some n \<Rightarrow> if n \<ge> 0 then n else 0
     | None \<Rightarrow> 0)"

definition validCounter :: "js \<Rightarrow> crash_counter" where
  "validCounter row = \<lparr>cc_count = counter_field row ''count'', cc_lastCrash = counter_field row ''lastCrash''\<rparr>"

definition js_of_counter :: "crash_counter \<Rightarrow> js" where
  "js_of_counter c = JObj [(''count'', JNum (Num (of_int (cc_count c)))), (''lastCrash'', JNum (Num (of_int (cc_lastCrash c))))]"

definition validateCrashGuardOptions :: "js_number \<Rightarrow> js_number \<Rightarrow> js_number \<Rightarrow> (int \<times> int \<times> int) result" where
  "validateCrashGuardOptions now maximumCrashes windowMs =
     (case safe_number now of
        None \<Rightarrow> Inl (Error ''Crash-guard timestamp is invalid.'')
      | Some n \<Rightarrow> if n < 0 then Inl (Error ''Crash-guard timestamp is invalid.'') else
         (case safe_number maximumCrashes of
            None \<Rightarrow> Inl (Error ''maximumCrashes must be at least 2.'')
          | Some m \<Rightarrow> if m < 2 then Inl (Error ''maximumCrashes must be at least 2.'') else
             (case safe_number windowMs of
                None \<Rightarrow> Inl (Error ''Crash-guard window must be at least one second.'')
              | Some w \<Rightarrow> if w < 1000 then Inl (Error ''Crash-guard window must be at least one second.'') else Inr (n, m, w))))"

definition path_message :: "string \<Rightarrow> string \<Rightarrow> string" where
  "path_message directory name = directory @ ''/'' @ name"

definition not_regular :: "string \<Rightarrow> string" where
  "not_regular path = ''Crash-guard path '' @ CHR 0x27 # path @ CHR 0x27 # '' is not a regular, non-symlink file.''"

definition pathExists :: "file_entry \<Rightarrow> bool" where
  "pathExists entry \<longleftrightarrow> entry \<noteq> Missing"

definition assertRegularFile :: "string \<Rightarrow> file_entry \<Rightarrow> unit result" where
  "assertRegularFile path entry = (case entry of Regular _ \<Rightarrow> Inr () | _ \<Rightarrow> Inl (Error (not_regular path)))"

definition readCounter :: "string \<Rightarrow> string \<Rightarrow> file_entry \<Rightarrow> crash_counter option result" where
  "readCounter path label entry = (case entry of
       Missing \<Rightarrow> Inr None
     | Special \<Rightarrow> Inl (Error (label @ '' cannot be read safely: '' @ not_regular path))
     | Regular (Inl message) \<Rightarrow> Inl (Error (label @ '' cannot be read safely: '' @ message))
     | Regular (Inr row) \<Rightarrow> Inr (Some (validCounter row)))"

definition writeCrashBlock :: "crash_counter \<Rightarrow> crash_files \<Rightarrow> crash_files result" where
  "writeCrashBlock counter files =
     (if cf_block files \<noteq> Missing then Inl (Error ''EEXIST'') else Inr (files\<lparr>cf_block := Regular (Inr (js_of_counter counter))\<rparr>))"

definition writeCounter :: "crash_counter \<Rightarrow> crash_files \<Rightarrow> crash_files result" where
  "writeCounter counter files =
     rbind (if pathExists (cf_counter files) then assertRegularFile (path_message (cf_directory files) ''.crash_counter'') (cf_counter files) else Inr ()) (\<lambda>_.
       Inr (files\<lparr>cf_counter := Regular (Inr (js_of_counter counter))\<rparr>))"

text \<open>The outcome with the files as they are left, also when the check throws.\<close>

definition checkCrashLoopState :: "int \<Rightarrow> int \<Rightarrow> int \<Rightarrow> crash_files \<Rightarrow> crash_counter result \<times> crash_files" where
  "checkCrashLoopState now maximumCrashes windowMs files =
     (let blockFile = path_message (cf_directory files) ''.crash_blocked'' in
      case readCounter blockFile ''Crash-loop block file'' (cf_block files) of
        Inl e \<Rightarrow> (Inl e, files)
      | Inr (Some block) \<Rightarrow> (Inl (CrashLoopBlockedError (max (cc_count block) maximumCrashes) blockFile), files)
      | Inr None \<Rightarrow>
          (case (if pathExists (cf_active files) then assertRegularFile (path_message (cf_directory files) ''.routing_active'') (cf_active files) else Inr ()) of
             Inl e \<Rightarrow> (Inl e, files)
           | Inr _ \<Rightarrow>
               if \<not> pathExists (cf_active files)
               then (let reset = \<lparr>cc_count = 0, cc_lastCrash = 0\<rparr> in
                 case writeCounter reset files of Inl e \<Rightarrow> (Inl e, files) | Inr files' \<Rightarrow> (Inr reset, files'))
               else
                 (case readCounter (path_message (cf_directory files) ''.crash_counter'') ''Crash counter'' (cf_counter files) of
                    Inl e \<Rightarrow> (Inl e, files)
                  | Inr stored \<Rightarrow>
                      (let previous = (case stored of None \<Rightarrow> \<lparr>cc_count = 0, cc_lastCrash = 0\<rparr> | Some c \<Rightarrow> c);
                           counter = \<lparr>cc_count = (if now - cc_lastCrash previous < windowMs then cc_count previous + 1 else 1), cc_lastCrash = now\<rparr>
                       in case writeCounter counter files of
                            Inl e \<Rightarrow> (Inl e, files)
                          | Inr files' \<Rightarrow>
                              if cc_count counter \<ge> maximumCrashes
                              then (case writeCrashBlock counter files' of
                                  Inl e \<Rightarrow> (Inl e, files')
                                | Inr files'' \<Rightarrow> (Inl (CrashLoopBlockedError (cc_count counter) blockFile), files''))
                              else (Inr counter, files')))))"

definition checkCrashLoopFiles :: "js_number \<Rightarrow> js_number \<Rightarrow> js_number \<Rightarrow> crash_files \<Rightarrow> crash_counter result \<times> crash_files" where
  "checkCrashLoopFiles now maximumCrashes windowMs files =
     (case validateCrashGuardOptions now maximumCrashes windowMs of
        Inl e \<Rightarrow> (Inl e, files)
      | Inr (n, m, w) \<Rightarrow>
          if pathExists (cf_legacyLock files)
          then (Inl (Error (''Legacy crash-guard lock '' @ CHR 0x27 # path_message (cf_directory files) ''.crash_guard.lock'' @ CHR 0x27 #
            '' requires explicit offline version-transition review; startup is blocked to protect state integrity. The lock, crash counter and crash block were not removed.'')), files)
          else checkCrashLoopState n m w files)"


section \<open>Latching\<close>

definition in_limit :: "clock_guard \<Rightarrow> js_number \<times> js_number \<Rightarrow> bool" where
  "in_limit guard = (\<lambda>(wall, monotonic). case (finite_of wall, finite_of monotonic) of
     (Some w, Some m) \<Rightarrow> cg_baselineMonotonicMilliseconds guard \<le> m \<and> measuredDrift w m guard \<le> of_int (cg_maxDriftMilliseconds guard)
   | _ \<Rightarrow> False)"

lemma sampleDrift_reason: "dr_reason (sampleDrift wall monotonic guard) = None \<longleftrightarrow> in_limit guard (wall, monotonic)"
  by (auto simp: sampleDrift_def sourceDriftError_def measuredDriftOutcome_def in_limit_def Let_def split: option.splits)

lemma sample_unlatched:
  assumes "cg_latchedReason guard = None"
  shows "in_limit guard (wall, monotonic) \<Longrightarrow> ch_healthy (fst (sample wall monotonic guard)) \<and> snd (sample wall monotonic guard) = guard"
    "\<not> in_limit guard (wall, monotonic) \<Longrightarrow> \<not> ch_healthy (fst (sample wall monotonic guard)) \<and>
       cg_latchedReason (snd (sample wall monotonic guard)) = ch_reason (fst (sample wall monotonic guard)) \<and>
       ch_reason (fst (sample wall monotonic guard)) \<noteq> None"
  using assms sampleDrift_reason [of wall monotonic guard] by (auto simp: sample_def latchedOutcome_def Let_def)

lemma sample_latched:
  assumes "cg_latchedReason guard = Some r"
  shows "ch_reason (fst (sample wall monotonic guard)) = Some r" "\<not> ch_healthy (fst (sample wall monotonic guard))"
    "snd (sample wall monotonic guard) = guard"
  using assms by (simp_all add: sample_def latchedOutcome_def Let_def)

lemma clock_run_Cons [simp]:
  "clock_run guard (x # rest) = fst (sample (fst x) (snd x) guard) # clock_run (snd (sample (fst x) (snd x) guard)) rest"
  by (cases x) (simp add: case_prod_unfold)

lemma clock_run_length [simp]: "length (clock_run guard rs) = length rs"
  by (induction rs arbitrary: guard) simp_all

declare clock_run.simps(2) [simp del]

lemma clock_run_latched:
  "cg_latchedReason guard = Some r \<Longrightarrow> j < length rs \<Longrightarrow> ch_reason (clock_run guard rs ! j) = Some r \<and> \<not> ch_healthy (clock_run guard rs ! j)"
proof (induction rs arbitrary: j)
  case (Cons x rs)
  note s = sample_latched [OF Cons.prems(1), of "fst x" "snd x"]
  show ?case
  proof (cases j)
    case 0
    then show ?thesis using s(1,2) by simp
  next
    case (Suc i)
    then show ?thesis using Cons.IH [of i] Cons.prems s(3) by simp
  qed
qed simp

lemma clock_run_unlatched:
  assumes "cg_latchedReason guard = None" "j < length rs"
  shows "(ch_healthy (clock_run guard rs ! j) \<longleftrightarrow> (\<forall>i\<le>j. in_limit guard (rs ! i))) \<and>
    (\<forall>i\<le>j. \<not> ch_healthy (clock_run guard rs ! i) \<longrightarrow> ch_reason (clock_run guard rs ! j) = ch_reason (clock_run guard rs ! i))"
  using assms
proof (induction rs arbitrary: j)
  case (Cons x rs)
  have x: "x = (fst x, snd x)" by simp
  show ?case
  proof (cases "in_limit guard x")
    case True
    then have s: "ch_healthy (fst (sample (fst x) (snd x) guard))" "snd (sample (fst x) (snd x) guard) = guard"
      using sample_unlatched(1) [OF Cons.prems(1), of "fst x" "snd x"] by simp_all
    show ?thesis
    proof (cases j)
      case 0
      then show ?thesis using True s by simp
    next
      case (Suc k)
      have le: "(\<forall>i\<le>Suc k. P i) \<longleftrightarrow> P 0 \<and> (\<forall>i\<le>k. P (Suc i))" for P by (metis Suc_le_mono le0 old.nat.exhaust)
      show ?thesis
        unfolding Suc le using Cons.IH [OF Cons.prems(1), of k] Cons.prems(2) Suc True s by simp
    qed
  next
    case False
    define g where "g = snd (sample (fst x) (snd x) guard)"
    obtain r where r: "cg_latchedReason g = Some r" "ch_reason (fst (sample (fst x) (snd x) guard)) = Some r"
        "\<not> ch_healthy (fst (sample (fst x) (snd x) guard))"
      using sample_unlatched(2) [OF Cons.prems(1), of "fst x" "snd x"] False unfolding g_def by auto
    have all: "ch_reason (clock_run guard (x # rs) ! i) = Some r \<and> \<not> ch_healthy (clock_run guard (x # rs) ! i)" if "i \<le> j" for i
      using r clock_run_latched [OF r(1), of _ rs] that Cons.prems(2) by (cases i) (auto simp: g_def [symmetric])
    have "\<not> (\<forall>i\<le>j. in_limit guard ((x # rs) ! i))" using False by (metis le0 nth_Cons_0)
    with all show ?thesis by (metis order_refl)
  qed
qed simp


section \<open>Counting crashes\<close>

definition blocked :: "crash_files \<Rightarrow> bool" where
  "blocked files \<longleftrightarrow> (\<exists>row. cf_block files = Regular (Inr row))"

lemma counter_roundtrip:
  assumes "0 \<le> cc_count c" "is_safe_integer (cc_count c)" "0 \<le> cc_lastCrash c" "is_safe_integer (cc_lastCrash c)"
  shows "validCounter (js_of_counter c) = c"
  using assms by (simp add: validCounter_def counter_field_def js_of_counter_def)

lemma blocked_stays:
  assumes "blocked files"
  shows "\<exists>n\<ge>m. checkCrashLoopState t m w files = (Inl (CrashLoopBlockedError n (path_message (cf_directory files) ''.crash_blocked'')), files)"
  using assms by (auto simp: blocked_def checkCrashLoopState_def readCounter_def Let_def)

text \<open>A startup after a crash, with the counter of the last one.\<close>

definition advanced :: "int \<Rightarrow> int \<Rightarrow> crash_counter \<Rightarrow> crash_counter" where
  "advanced w t previous = \<lparr>cc_count = (if t - cc_lastCrash previous < w then cc_count previous + 1 else 1), cc_lastCrash = t\<rparr>"

lemma crash_step:
  assumes "cf_block files = Missing" "cf_active files = Regular a" "cf_counter files = Regular (Inr row)" "c = advanced w t (validCounter row)"
  shows "checkCrashLoopState t m w files =
    (if cc_count c \<ge> m
     then (Inl (CrashLoopBlockedError (cc_count c) (path_message (cf_directory files) ''.crash_blocked'')),
           files\<lparr>cf_counter := Regular (Inr (js_of_counter c)), cf_block := Regular (Inr (js_of_counter c))\<rparr>)
     else (Inr c, files\<lparr>cf_counter := Regular (Inr (js_of_counter c))\<rparr>))"
  using assms by (simp add: checkCrashLoopState_def readCounter_def writeCounter_def writeCrashBlock_def assertRegularFile_def pathExists_def Let_def
      advanced_def)

text \<open>After so many crashes in a row the guard has blocked, or the counter has at least that many.\<close>

definition counted :: "int \<Rightarrow> nat \<Rightarrow> int \<Rightarrow> crash_files \<Rightarrow> bool" where
  "counted m n t files \<longleftrightarrow> blocked files \<or>
     (cf_block files = Missing \<and> (\<exists>a. cf_active files = Regular a) \<and>
      (\<exists>c. cf_counter files = Regular (Inr (js_of_counter c)) \<and> int n \<le> cc_count c \<and> cc_count c < m \<and> cc_lastCrash c = t))"

lemma counted_step:
  assumes "counted m n s files" "is_safe_integer m" "0 \<le> s" "is_safe_integer s" "t - s < w"
  shows "counted m (Suc n) t (snd (checkCrashLoopState t m w files))"
proof (cases "blocked files")
  case True
  then show ?thesis using blocked_stays [OF True, of m t w] by (auto simp: counted_def)
next
  case False
  then obtain a c where f: "cf_block files = Missing" "cf_active files = Regular a" "cf_counter files = Regular (Inr (js_of_counter c))"
      "int n \<le> cc_count c" "cc_count c < m" "cc_lastCrash c = s"
    using assms(1) by (auto simp: counted_def)
  have "is_safe_integer (cc_count c)" using f(4,5) assms(2) by (auto simp: is_safe_integer_def)
  then have "validCounter (js_of_counter c) = c" using f assms(3,4) by (intro counter_roundtrip) auto
  then show ?thesis
    using crash_step [OF f(1-3) refl, of t m w] f assms(5) by (auto simp: counted_def blocked_def advanced_def)
qed

lemma counted_first:
  assumes "cf_block files = Missing" "cf_active files = Regular a" "cf_counter files = Regular (Inr row)"
  shows "counted m 1 t (snd (checkCrashLoopState t m w files))"
proof -
  have "0 \<le> cc_count (validCounter row)" by (simp add: validCounter_def counter_field_def split: option.split)
  then show ?thesis using crash_step [OF assms refl, of t m w] assms(1,2) by (auto simp: counted_def blocked_def advanced_def)
qed

lemma counted_run:
  assumes "cf_block files = Missing" "cf_active files = Regular a" "cf_counter files = Regular (Inr row)" "is_safe_integer m"
    and "\<And>t. t \<in> set (ts @ [u]) \<Longrightarrow> 0 \<le> t \<and> is_safe_integer t" "\<And>i. Suc i < length (ts @ [u]) \<Longrightarrow> (ts @ [u]) ! Suc i - (ts @ [u]) ! i < w"
  shows "counted m (Suc (length ts)) u (foldl (\<lambda>f t. snd (checkCrashLoopState t m w f)) files (ts @ [u]))"
  using assms(5,6)
proof (induction ts arbitrary: u rule: rev_induct)
  case Nil
  then show ?case using counted_first [OF assms(1-3)] by simp
next
  case (snoc s ts)
  have "counted m (Suc (length ts)) s (foldl (\<lambda>f t. snd (checkCrashLoopState t m w f)) files (ts @ [s]))"
  proof (rule snoc.IH)
    show "0 \<le> t \<and> is_safe_integer t" if "t \<in> set (ts @ [s])" for t using snoc.prems(1) that by auto
    show "(ts @ [s]) ! Suc i - (ts @ [s]) ! i < w" if "Suc i < length (ts @ [s])" for i
      using snoc.prems(2) [of i] that by (simp add: nth_append split: if_splits)
  qed
  moreover have "u - s < w" using snoc.prems(2) [of "length ts"] by (simp add: nth_append)
  ultimately show ?case using counted_step [OF _ assms(4)] snoc.prems(1) by simp
qed


section \<open>Properties\<close>

text \<open>
  The clock guard is healthy exactly as long as every reading so far had finite values, a
  monotonic clock not before its baseline, and a drift within the limit; the first failure is kept, so
  every later snapshot is unhealthy and names the same reason.
\<close>

theorem clock_failure_latches:
  assumes "new_clock_guard maxDrift wall monotonic = Inr guard" "j < length readings"
  shows "100 \<le> cg_maxDriftMilliseconds guard \<and> cg_maxDriftMilliseconds guard \<le> 5000 \<and>
    (ch_healthy (clock_run guard readings ! j) \<longleftrightarrow> (\<forall>i\<le>j. in_limit guard (readings ! i))) \<and>
    (\<forall>i\<le>j. \<not> ch_healthy (clock_run guard readings ! i) \<longrightarrow> ch_reason (clock_run guard readings ! j) = ch_reason (clock_run guard readings ! i))"
proof -
  have "cg_latchedReason guard = None" "100 \<le> cg_maxDriftMilliseconds guard" "cg_maxDriftMilliseconds guard \<le> 5000"
    using assms(1) by (auto simp: new_clock_guard_def rbind_Inr_iff validatedClockLimit_def split: option.splits if_splits)
  with clock_run_unlatched [OF _ assms(2)] show ?thesis by blast
qed

text \<open>
  C36: a process that crashes again and again within the window is stopped. After as many startups
  with the routing marker still present as the maximum allows, each within the window of the previous
  one, the block file exists, and from then on every startup is refused with the crash-loop error and
  changes nothing, whatever the time, the limits and the marker are.
\<close>

theorem crash_loop_blocks:
  assumes "cf_block files = Missing" "cf_active files = Regular a" "cf_counter files = Regular (Inr row)" "is_safe_integer m"
    and "\<forall>t\<in>set ts. 0 \<le> t \<and> is_safe_integer t" "\<forall>i. Suc i < length ts \<longrightarrow> ts ! Suc i - ts ! i < w" "0 < m" "nat m \<le> length ts"
  shows "let files' = foldl (\<lambda>f t. snd (checkCrashLoopState t m w f)) files ts in
    blocked files' \<and>
    (\<forall>t m' w' active. \<exists>n\<ge>m'. checkCrashLoopState t m' w' (files'\<lparr>cf_active := active\<rparr>) =
       (Inl (CrashLoopBlockedError n (path_message (cf_directory files') ''.crash_blocked'')), files'\<lparr>cf_active := active\<rparr>))"
proof -
  define files' where "files' = foldl (\<lambda>f t. snd (checkCrashLoopState t m w f)) files ts"
  have "ts \<noteq> []" using assms(7,8) by auto
  then obtain us u where ts: "ts = us @ [u]" by (metis rev_exhaust)
  have "counted m (Suc (length us)) u files'"
    unfolding files'_def ts by (rule counted_run [OF assms(1-4)]) (use assms(5,6) ts in auto)
  then have b: "blocked files'" using assms(8) ts by (auto simp: counted_def)
  have "\<exists>n\<ge>m'. checkCrashLoopState t m' w' (files'\<lparr>cf_active := active\<rparr>) =
       (Inl (CrashLoopBlockedError n (path_message (cf_directory files') ''.crash_blocked'')), files'\<lparr>cf_active := active\<rparr>)" for t m' w' active
    using blocked_stays [of "files'\<lparr>cf_active := active\<rparr>" m' t w'] b by (simp add: blocked_def)
  with b show ?thesis unfolding files'_def [symmetric] Let_def by blast
qed

definition sample_files :: crash_files where
  "sample_files = \<lparr>cf_directory = ''d'', cf_active = Regular (Inr JNull), cf_counter = Regular (Inr (JObj [])), cf_block = Missing, cf_legacyLock = Missing\<rparr>"

theorem crash_loop_blocks_witness:
  "blocked (foldl (\<lambda>f t. snd (checkCrashLoopState t 3 300000 f)) sample_files [1000000, 1000500, 1001000])"
proof -
  have f: "cf_block sample_files = Missing" "cf_active sample_files = Regular (Inr JNull)" "cf_counter sample_files = Regular (Inr (JObj []))"
    by (simp_all add: sample_files_def)
  have safe: "is_safe_integer 3" "\<forall>t\<in>set [1000000, 1000500, 1001000 :: int]. 0 \<le> t \<and> is_safe_integer t" by code_simp+
  have gaps: "\<forall>i. Suc i < length [1000000, 1000500, 1001000 :: int] \<longrightarrow> [1000000, 1000500, 1001000 :: int] ! Suc i - [1000000, 1000500, 1001000] ! i < 300000"
    by (auto simp: less_Suc_eq)
  from crash_loop_blocks [OF f safe(1,2) gaps] show ?thesis by (simp add: Let_def)
qed

end
