(* ===== verification/Startup_Authority.thy ===== *)
theory Startup_Authority
  imports Contracts JS_Conversions
begin

text \<open>
  The authority that decides whether a process may change anything (\<^verbatim>\<open>src/startup_authority.ts\<close>): gates of the startup, a release, a
  revocation that can not be taken back, and holds for maintenance that only their owner can release. Every method is one function; the
  asynchronous actions of the gates settle in any order, as events. A hold's capability, a fresh symbol in the code, is a number.
\<close>

section \<open>The authority\<close>

definition startup_gates :: "string list" where
  "startup_gates = [''configuration'', ''crash'', ''database'', ''protection_scan'', ''retention'', ''dashboard'', ''monitoring'', ''backup'']"

datatype startup_phase = Initial | Recovery_only | Ready | Blocked

record startup =
  sa_phase :: startup_phase
  sa_reason :: "string option"
  sa_generation :: int
  sa_recoveryAuthorized :: bool
  sa_completed :: "string list"
  sa_holds :: "(nat \<times> string) list"
  sa_tokens :: nat    \<comment> \<open>the next fresh symbol\<close>

definition new_startup :: startup where
  "new_startup = \<lparr>sa_phase = Initial, sa_reason = None, sa_generation = 0, sa_recoveryAuthorized = False, sa_completed = [], sa_holds = [], sa_tokens = 0\<rparr>"

definition phase_text :: "startup_phase \<Rightarrow> string" where
  "phase_text p = (case p of Initial \<Rightarrow> ''initial'' | Recovery_only \<Rightarrow> ''recovery-only'' | Ready \<Rightarrow> ''ready'' | Blocked \<Rightarrow> ''blocked'')"

definition authority_error :: "startup_phase \<Rightarrow> string option \<Rightarrow> error" where
  "authority_error phase reason = StartupAuthorityError (''Startup authority is '' @ phase_text phase @ ''; mutations are blocked'' @
     (case reason of None \<Rightarrow> ''.'' | Some r \<Rightarrow> if r = [] then ''.'' else '': '' @ r))"

definition assertKnownGate :: "string \<Rightarrow> unit result" where
  "assertKnownGate gate = throw_if (gate \<noteq> ''routing'' \<and> gate \<notin> set startup_gates) (Error ''Unknown startup gate.'')"

definition beginRecovery :: "startup \<Rightarrow> startup result" where
  "beginRecovery s = rbind (throw_if (sa_phase s \<noteq> Initial) (authority_error (sa_phase s) (Some ''A fresh startup is required.''))) (\<lambda>_.
     Inr (s\<lparr>sa_phase := Recovery_only, sa_recoveryAuthorized := True, sa_generation := sa_generation s + 1\<rparr>))"

definition completeGate :: "string \<Rightarrow> startup \<Rightarrow> startup result" where
  "completeGate gate s = rbind (assertKnownGate gate) (\<lambda>_.
     rbind (throw_if (sa_phase s \<noteq> Recovery_only \<and> \<not> (sa_phase s = Ready \<and> gate = ''routing'')) (authority_error (sa_phase s) (sa_reason s))) (\<lambda>_.
       Inr (s\<lparr>sa_completed := List.insert gate (sa_completed s)\<rparr>)))"

definition block :: "string \<Rightarrow> startup \<Rightarrow> startup result" where
  "block reason s = rbind (throw_if (js_trim reason = []) (Error ''Startup revocation requires a reason.'')) (\<lambda>_.
     Inr (if sa_phase s = Blocked then s else s\<lparr>sa_phase := Blocked, sa_reason := Some reason, sa_generation := sa_generation s + 1\<rparr>))"

definition failGate :: "string \<Rightarrow> string \<Rightarrow> startup \<Rightarrow> startup result" where
  "failGate gate reason s = rbind (assertKnownGate gate) (\<lambda>_. block (gate @ '': '' @ reason) s)"

definition missing_gates :: "startup \<Rightarrow> string list" where
  "missing_gates s = filter (\<lambda>gate. gate \<notin> set (sa_completed s)) startup_gates"

fun join_comma :: "string list \<Rightarrow> string" where
  "join_comma [] = []"
| "join_comma [x] = x"
| "join_comma (x # y # xs) = x @ '', '' @ join_comma (y # xs)"

definition release :: "startup \<Rightarrow> startup result" where
  "release s = rbind (throw_if (sa_phase s \<noteq> Recovery_only) (authority_error (sa_phase s) (sa_reason s))) (\<lambda>_.
     rbind (throw_if (missing_gates s \<noteq> []) (Error (''Startup gates remain incomplete: '' @ join_comma (missing_gates s) @ ''.''))) (\<lambda>_.
       Inr (s\<lparr>sa_phase := Ready, sa_generation := sa_generation s + 1\<rparr>)))"

definition holdMutations :: "string \<Rightarrow> startup \<Rightarrow> (nat \<times> startup) result" where
  "holdMutations reason s = rbind (throw_if (js_trim reason = []) (Error ''A maintenance hold requires a reason.'')) (\<lambda>_.
     Inr (sa_tokens s, s\<lparr>sa_holds := sa_holds s @ [(sa_tokens s, reason)], sa_tokens := sa_tokens s + 1, sa_generation := sa_generation s + 1\<rparr>))"

definition release_hold :: "nat \<Rightarrow> startup \<Rightarrow> startup" where
  "release_hold hold s = (if hold \<in> fst ` set (sa_holds s)
     then s\<lparr>sa_holds := filter (\<lambda>h. fst h \<noteq> hold) (sa_holds s), sa_generation := sa_generation s + 1\<rparr> else s)"

definition canMutate :: "startup \<Rightarrow> bool" where
  "canMutate s \<longleftrightarrow> sa_phase s = Ready \<and> sa_holds s = []"

definition canEnter :: "startup \<Rightarrow> bool" where
  "canEnter s \<longleftrightarrow> canMutate s \<and> ''routing'' \<in> set (sa_completed s)"

definition canProtect :: "startup \<Rightarrow> bool" where
  "canProtect s = sa_recoveryAuthorized s"

definition assertReady :: "startup \<Rightarrow> unit result" where
  "assertReady s = throw_if (\<not> canMutate s) (authority_error (sa_phase s)
     (case sa_reason s of Some r \<Rightarrow> Some r | None \<Rightarrow> (case sa_holds s of [] \<Rightarrow> None | h # _ \<Rightarrow> Some (snd h))))"

definition assertEntryReady :: "startup \<Rightarrow> unit result" where
  "assertEntryReady s = rbind (assertReady s) (\<lambda>_. throw_if (\<not> canEnter s) (authority_error (sa_phase s) (Some ''Routing startup gate is incomplete.'')))"

record startup_snapshot =
  ss_phase :: startup_phase
  ss_reason :: "string option"
  ss_generation :: int
  ss_completedGates :: "string list"
  ss_mutationHolds :: "string list"
  ss_routingReady :: bool
  ss_pendingGates :: "string list"

definition snapshot :: "startup \<Rightarrow> startup_snapshot" where
  "snapshot s = \<lparr>ss_phase = sa_phase s, ss_reason = sa_reason s, ss_generation = sa_generation s,
     ss_completedGates = filter (\<lambda>gate. gate \<in> set (sa_completed s)) startup_gates, ss_mutationHolds = map snd (sa_holds s),
     ss_routingReady = (''routing'' \<in> set (sa_completed s)), ss_pendingGates = missing_gates s\<rparr>"

text \<open>What follows the \<^verbatim>\<open>await\<close> of \<^verbatim>\<open>runStartupGate\<close>, with the outcome of the action: a gate that can not be completed fails, too.\<close>

definition runStartupGate :: "string \<Rightarrow> 'a result \<Rightarrow> startup \<Rightarrow> 'a result \<times> startup" where
  "runStartupGate gate outcome s =
     (case rbind outcome (\<lambda>_. if ss_phase (snapshot s) \<noteq> Blocked then completeGate gate s else Inr s) of
        Inr s' \<Rightarrow> (outcome, s')
      | Inl e \<Rightarrow> (case failGate gate (error_message e) s of Inr s' \<Rightarrow> (Inl e, s') | Inl e' \<Rightarrow> (Inl e', s)))"


section \<open>Histories\<close>

datatype startup_event = Begin_recovery | Complete_gate string | Fail_gate string string | Release | Block string | Hold string | Release_hold nat
  | Gate_settled string "unit result"

definition kept :: "startup \<Rightarrow> startup result \<Rightarrow> startup" where
  "kept s r = (case r of Inr s' \<Rightarrow> s' | Inl _ \<Rightarrow> s)"

fun startup_step :: "startup \<Rightarrow> startup_event \<Rightarrow> startup" where
  "startup_step s Begin_recovery = kept s (beginRecovery s)"
| "startup_step s (Complete_gate gate) = kept s (completeGate gate s)"
| "startup_step s (Fail_gate gate reason) = kept s (failGate gate reason s)"
| "startup_step s Release = kept s (release s)"
| "startup_step s (Block reason) = kept s (block reason s)"
| "startup_step s (Hold reason) = (case holdMutations reason s of Inr (_, s') \<Rightarrow> s' | Inl _ \<Rightarrow> s)"
| "startup_step s (Release_hold hold) = release_hold hold s"
| "startup_step s (Gate_settled gate outcome) = snd (runStartupGate gate outcome s)"


text \<open>What a step may do to the parts of the authority.\<close>

definition known_gate :: "string \<Rightarrow> bool" where
  "known_gate gate \<longleftrightarrow> gate = ''routing'' \<or> gate \<in> set startup_gates"

definition startup_ok :: "startup \<Rightarrow> bool" where
  "startup_ok s \<longleftrightarrow> (sa_phase s = Ready \<longrightarrow> set startup_gates \<subseteq> set (sa_completed s)) \<and> (sa_phase s \<in> {Recovery_only, Ready} \<longrightarrow> sa_recoveryAuthorized s) \<and>
     (\<forall>h\<in>set (sa_holds s). fst h < sa_tokens s) \<and> distinct (map fst (sa_holds s))"

definition advances :: "startup \<Rightarrow> startup \<Rightarrow> bool" where
  "advances s t \<longleftrightarrow> sa_generation s \<le> sa_generation t \<and> (sa_generation t = sa_generation s \<longrightarrow> sa_phase t = sa_phase s \<and> sa_holds t = sa_holds s) \<and>
     (sa_phase s = Blocked \<longrightarrow> sa_phase t = Blocked \<and> sa_reason t = sa_reason s) \<and> (sa_recoveryAuthorized s \<longrightarrow> sa_recoveryAuthorized t) \<and>
     set (sa_completed s) \<subseteq> set (sa_completed t)"

lemma kept_failure:
  "kept s (failGate gate reason s) = s \<or>
   sa_phase s \<noteq> Blocked \<and> (\<exists>r. kept s (failGate gate reason s) = s\<lparr>sa_phase := Blocked, sa_reason := Some r, sa_generation := sa_generation s + 1\<rparr>)"
  by (cases "assertKnownGate gate"; cases "js_trim (gate @ '': '' @ reason) = []"; cases "sa_phase s = Blocked") (auto simp: kept_def failGate_def block_def throw_if_def)

lemma kept_completion:
  "kept s (completeGate gate s) = s \<or>
   known_gate gate \<and> (sa_phase s = Recovery_only \<or> sa_phase s = Ready) \<and> kept s (completeGate gate s) = s\<lparr>sa_completed := List.insert gate (sa_completed s)\<rparr>"
  by (auto simp: kept_def completeGate_def assertKnownGate_def known_gate_def throw_if_def)

lemma settled_failure: "snd (case failGate gate reason s of Inr s' \<Rightarrow> (Inl e, s') | Inl e' \<Rightarrow> (Inl e', s)) = kept s (failGate gate reason s)"
  by (cases "failGate gate reason s") (simp_all add: kept_def)

lemma startup_step_cases:
  obtains (same) "startup_step s e = s"
  | (began) "sa_phase s = Initial" "startup_step s e = s\<lparr>sa_phase := Recovery_only, sa_recoveryAuthorized := True, sa_generation := sa_generation s + 1\<rparr>"
  | (completed) gate where "known_gate gate" "sa_phase s = Recovery_only \<or> sa_phase s = Ready" "startup_step s e = s\<lparr>sa_completed := List.insert gate (sa_completed s)\<rparr>"
  | (blocked) reason where "sa_phase s \<noteq> Blocked" "startup_step s e = s\<lparr>sa_phase := Blocked, sa_reason := Some reason, sa_generation := sa_generation s + 1\<rparr>"
  | (released) "sa_phase s = Recovery_only" "missing_gates s = []" "startup_step s e = s\<lparr>sa_phase := Ready, sa_generation := sa_generation s + 1\<rparr>"
  | (held) reason where "startup_step s e = s\<lparr>sa_holds := sa_holds s @ [(sa_tokens s, reason)], sa_tokens := sa_tokens s + 1, sa_generation := sa_generation s + 1\<rparr>"
  | (dropped) hold where "e = Release_hold hold" "startup_step s e = s\<lparr>sa_holds := filter (\<lambda>h. fst h \<noteq> hold) (sa_holds s), sa_generation := sa_generation s + 1\<rparr>"
proof (cases e)
  case (Gate_settled gate outcome)
  show thesis
  proof (cases "rbind outcome (\<lambda>_. if sa_phase s \<noteq> Blocked then completeGate gate s else Inr s)")
    case (Inl x)
    then have "startup_step s e = kept s (failGate gate (error_message x) s)" by (simp add: Gate_settled runStartupGate_def snapshot_def settled_failure)
    then show thesis using kept_failure [of s gate "error_message x"] that(1,4) by auto
  next
    case (Inr s')
    then have "startup_step s e = s'" by (simp add: Gate_settled runStartupGate_def snapshot_def)
    moreover have "s' = kept s (completeGate gate s) \<or> s' = s" using Inr by (auto simp: rbind_Inr_iff kept_def split: if_splits)
    ultimately show thesis using kept_completion [of s gate] that(1,3) by auto
  qed
next
  case Begin_recovery
  then show thesis using that(1,2) by (cases "sa_phase s = Initial") (simp_all add: beginRecovery_def kept_def)
next
  case (Complete_gate gate)
  then show thesis using kept_completion [of s gate] that(1,3) by auto
next
  case (Fail_gate gate reason)
  then show thesis using kept_failure [of s gate reason] that(1,4) by auto
next
  case Release
  then show thesis using that(1,5) by (cases "sa_phase s = Recovery_only"; cases "missing_gates s = []") (simp_all add: release_def kept_def)
next
  case (Block reason)
  then show thesis using that(1,4) by (cases "js_trim reason = []"; cases "sa_phase s = Blocked") (simp_all add: block_def kept_def)
next
  case (Hold reason)
  then show thesis using that(1,6) by (cases "js_trim reason = []") (simp_all add: holdMutations_def)
next
  case (Release_hold hold)
  then show thesis using that(1,7) by (cases "hold \<in> fst ` set (sa_holds s)") (simp_all add: release_hold_def)
qed

lemma startup_step_ok: "startup_ok s \<Longrightarrow> startup_ok (startup_step s e)"
  by (cases rule: startup_step_cases [of s e]) (auto simp: startup_ok_def missing_gates_def filter_empty_conv distinct_map_filter)

lemma startup_step_advances: "advances s (startup_step s e)"
  by (cases rule: startup_step_cases [of s e]) (auto simp: advances_def)

interpretation startup: invariant_system startup_step startup_ok
  by unfold_locales (rule startup_step_ok)

lemma new_startup_ok: "startup_ok new_startup"
  by (simp add: startup_ok_def new_startup_def)

lemma run_advances: "startup_ok s \<Longrightarrow> advances s (foldl startup_step s es)"
proof (rule startup.run_rel)
  show "advances a c" if "advances a b" "advances b c" for a b c using that by (auto simp: advances_def)
qed (auto simp: startup_step_advances, simp add: advances_def)

text \<open>The events that revoke the authority for good.\<close>

fun revokes :: "startup_event \<Rightarrow> bool" where
  "revokes (Fail_gate gate reason) \<longleftrightarrow> known_gate gate"
| "revokes (Block reason) \<longleftrightarrow> js_trim reason \<noteq> []"
| "revokes (Gate_settled gate (Inl e)) \<longleftrightarrow> known_gate gate"
| "revokes _ \<longleftrightarrow> False"

lemma trim_empty: "js_trim s = [] \<Longrightarrow> \<forall>c\<in>set s. is_space c"
proof -
  assume "js_trim s = []"
  then have all: "\<forall>c\<in>set (dropWhile is_space s). is_space c" by (simp add: js_trim_def dropWhile_eq_Nil_conv)
  have "dropWhile is_space s = []"
  proof (rule ccontr)
    assume "dropWhile is_space s \<noteq> []"
    then show False using all hd_dropWhile [of is_space s] hd_in_set by blast
  qed
  then show ?thesis by (simp only: dropWhile_eq_Nil_conv)
qed

lemma failure_reason: "js_trim (gate @ '': '' @ reason) \<noteq> []"
  using trim_empty [of "gate @ '': '' @ reason"] by (auto simp: is_space_def)

lemma revoked: "revokes e \<Longrightarrow> sa_phase (startup_step s e) = Blocked"
proof (induction e rule: revokes.induct)
  case (1 gate reason)
  then show ?case using failure_reason [of gate reason] by (simp add: kept_def failGate_def assertKnownGate_def known_gate_def block_def throw_if_def)
next
  case (2 reason)
  then show ?case by (simp add: kept_def block_def throw_if_def)
next
  case (3 gate e)
  then show ?case using failure_reason [of gate "error_message e"]
    by (simp add: runStartupGate_def failGate_def assertKnownGate_def known_gate_def block_def throw_if_def)
qed simp_all

lemma run_revoked: "startup_ok s \<Longrightarrow> list_ex revokes es \<or> sa_phase s = Blocked \<Longrightarrow> sa_phase (foldl startup_step s es) = Blocked"
proof (induction es arbitrary: s)
  case (Cons e es)
  have "list_ex revokes es \<or> sa_phase (startup_step s e) = Blocked" using Cons.prems(2) revoked startup_step_advances [of s e] by (auto simp: advances_def)
  then show ?case using Cons.IH [OF startup_step_ok [OF Cons.prems(1)]] by simp
qed simp

lemma run_held: "hold \<in> fst ` set (sa_holds s) \<Longrightarrow> Release_hold hold \<notin> set es \<Longrightarrow> hold \<in> fst ` set (sa_holds (foldl startup_step s es))"
proof (induction es arbitrary: s)
  case (Cons e es)
  have "hold \<in> fst ` set (sa_holds (startup_step s e))" using Cons.prems by (cases rule: startup_step_cases [of s e]) auto
  then show ?case using Cons by simp
qed simp

lemma ready_iff: "assertReady s = Inr () \<longleftrightarrow> canMutate s" "assertEntryReady s = Inr () \<longleftrightarrow> canMutate s \<and> ''routing'' \<in> set (sa_completed s)"
  by (auto simp: assertReady_def assertEntryReady_def canEnter_def throw_if_def)

text \<open>
  C11: startup authority is earned, and lost for good. Over any history of gates, failures, releases, revocations and holds, changes are
  possible only after every gate has completed, and an entry only after the routing gate as well; the guards throw exactly when the
  authority is missing. A failed gate or a revocation blocks every later state, whatever succeeds afterwards. A hold blocks changes until
  its own capability releases it. The generation never decreases, and as long as it is the same the permission for changes is the same,
  and the permission for entries, which the routing gate may still grant, is not taken back. The protection of positions, once
  authorized, is never lost.
\<close>

theorem startup_authority_earned:
  assumes "s = foldl startup_step new_startup es" "t = foldl startup_step s fs"
  shows "(canMutate s \<longrightarrow> set startup_gates \<subseteq> set (sa_completed s) \<and> canProtect s \<and> \<not> list_ex revokes es) \<and>
    (assertReady s = Inr () \<longleftrightarrow> canMutate s) \<and> (assertEntryReady s = Inr () \<longleftrightarrow> canMutate s \<and> ''routing'' \<in> set (sa_completed s)) \<and>
    (list_ex revokes fs \<or> sa_phase s = Blocked \<longrightarrow> sa_phase t = Blocked \<and> \<not> canMutate t) \<and>
    (\<forall>h\<in>set (sa_holds s). Release_hold (fst h) \<notin> set fs \<longrightarrow> \<not> canMutate t) \<and>
    sa_generation s \<le> sa_generation t \<and> (sa_generation t = sa_generation s \<longrightarrow> canMutate t = canMutate s \<and> (canEnter s \<longrightarrow> canEnter t)) \<and> (canProtect s \<longrightarrow> canProtect t)"
proof -
  have ok: "startup_ok s" unfolding assms(1) by (rule startup.run_inv [OF new_startup_ok])
  have adv: "advances s t" unfolding assms(2) by (rule run_advances [OF ok])
  have "\<not> list_ex revokes es" if "canMutate s" using run_revoked [OF new_startup_ok, of es] that by (auto simp: assms(1) canMutate_def)
  moreover have "sa_phase t = Blocked" if "list_ex revokes fs \<or> sa_phase s = Blocked" unfolding assms(2) by (rule run_revoked [OF ok that])
  moreover have "\<not> canMutate t" if "h \<in> set (sa_holds s)" "Release_hold (fst h) \<notin> set fs" for h
    using run_held [of "fst h" s fs] that by (auto simp: assms(2) canMutate_def)
  ultimately show ?thesis using ok adv ready_iff [of s] by (auto simp: startup_ok_def advances_def canMutate_def canEnter_def canProtect_def)
qed

definition full_startup :: "startup_event list" where
  "full_startup = Begin_recovery # map (\<lambda>gate. Gate_settled gate (Inr ())) startup_gates @ [Release, Complete_gate ''routing'']"

theorem startup_authority_earned_witness:
  "canEnter (foldl startup_step new_startup full_startup) \<and>
   \<not> canMutate (foldl startup_step (foldl startup_step new_startup full_startup) [Fail_gate ''backup'' ''stale'', Gate_settled ''backup'' (Inr ()), Release])"
proof
  show "canEnter (foldl startup_step new_startup full_startup)" by code_simp
  have "list_ex revokes [Fail_gate ''backup'' ''stale'', Gate_settled ''backup'' (Inr ()), Release]" by code_simp
  then show "\<not> canMutate (foldl startup_step (foldl startup_step new_startup full_startup) [Fail_gate ''backup'' ''stale'', Gate_settled ''backup'' (Inr ()), Release])"
    using startup_authority_earned [OF refl refl, of full_startup "[Fail_gate ''backup'' ''stale'', Gate_settled ''backup'' (Inr ()), Release]"] by blast
qed

end
