(* ===== verification/Tdlib_Retry.thy ===== *)
theory Tdlib_Retry
  imports Contracts JS_Conversions
begin

text \<open>
  Calls of Telegram's client library with retries under its rate limit
  (\<^verbatim>\<open>src/tdlib_retry.ts\<close>). The client is the environment: its answer to the n-th invocation is an
  argument, as is whether the abort signal is set when an attempt or a delay begins or ends. The model
  returns the outcome together with the number of invocations and the delays that were waited.
\<close>

section \<open>The loop\<close>

definition retryLimits :: "js_number option \<Rightarrow> js_number option \<Rightarrow> (int \<times> int) result" where
  "retryLimits attempts flood =
     (case safe_number (case attempts of None \<Rightarrow> Num 3 | Some n \<Rightarrow> n) of
        None \<Rightarrow> Inl (Error ''TDLib maxAttempts must be between 1 and 10.'')
      | Some maxAttempts \<Rightarrow>
          if maxAttempts < 1 \<or> maxAttempts > 10 then Inl (Error ''TDLib maxAttempts must be between 1 and 10.'')
          else (case safe_number (case flood of None \<Rightarrow> Num 60 | Some n \<Rightarrow> n) of
              None \<Rightarrow> Inl (Error ''TDLib maxFloodWaitSeconds must be between 0 and 3600.'')
            | Some maxFloodWaitSeconds \<Rightarrow>
                if maxFloodWaitSeconds < 0 \<or> maxFloodWaitSeconds > 3600
                then Inl (Error ''TDLib maxFloodWaitSeconds must be between 0 and 3600.'')
                else Inr (maxAttempts, maxFloodWaitSeconds)))"

text \<open>The leftmost match of \<^verbatim>\<open>/FLOOD_WAIT_(\d+)/\<close>, by its digits.\<close>

fun flood_match :: "string \<Rightarrow> string option" where
  "flood_match [] = None"
| "flood_match (c # s) =
     (if take 11 (c # s) = ''FLOOD_WAIT_'' \<and> takeWhile is_digit (drop 11 (c # s)) \<noteq> []
      then Some (takeWhile is_digit (drop 11 (c # s))) else flood_match s)"

text \<open>\<^verbatim>\<open>String(error.message || error)\<close>\<close>

definition rejection_text :: "error \<Rightarrow> string" where
  "rejection_text e = (if error_message e = [] then ''Error'' else error_message e)"

definition floodWaitSeconds :: "error \<Rightarrow> int \<Rightarrow> int result" where
  "floodWaitSeconds e maximum = (case flood_match (rejection_text e) of
       None \<Rightarrow> Inl e
     | Some digits \<Rightarrow>
         let seconds = digits_val digits in
         if \<not> is_safe_integer seconds \<or> seconds > maximum
         then Inl (Error (''Telegram FLOOD_WAIT_'' @ digits @ '' exceeds the configured '' @ show_int maximum @ ''s safety limit.''))
         else Inr seconds)"

text \<open>
  The signal: whether it is aborted when attempt \<open>n\<close> begins, when the delay after attempt \<open>n\<close> begins, or
  in the course of that delay; the reason of the abort is an error.
\<close>

record 'a retry_environment =
  re_invoke :: "nat \<Rightarrow> 'a result"
  re_aborted_before :: "nat \<Rightarrow> bool"
  re_aborted_after :: "nat \<Rightarrow> bool"
  re_interrupted :: "nat \<Rightarrow> bool"
  re_reason :: error

definition abortableDelay :: "'a retry_environment \<Rightarrow> nat \<Rightarrow> int \<Rightarrow> unit result" where
  "abortableDelay env attempt milliseconds =
     (if re_aborted_after env attempt then Inl (re_reason env)
      else if milliseconds \<le> 0 then Inr ()
      else if re_interrupted env attempt then Inl (re_reason env) else Inr ())"

function retry_loop :: "'a retry_environment \<Rightarrow> nat \<Rightarrow> int \<Rightarrow> nat \<Rightarrow> int list \<Rightarrow> 'a result \<times> nat \<times> int list" where
  "retry_loop env maxAttempts maxFlood attempt waits =
     (if attempt > maxAttempts
      then (Inl (Error (''TDLib operation failed after '' @ show_int (int maxAttempts) @ '' rate-limit attempts.'')), maxAttempts, waits)
      else if re_aborted_before env attempt then (Inl (re_reason env), attempt - 1, waits)
      else case re_invoke env attempt of
          Inr value \<Rightarrow> (Inr value, attempt, waits)
        | Inl e \<Rightarrow>
            (case floodWaitSeconds e maxFlood of
               Inl e' \<Rightarrow> (Inl e', attempt, waits)
             | Inr waitSeconds \<Rightarrow>
                 if attempt = maxAttempts
                 then (Inl (Error (''TDLib operation failed after '' @ show_int (int maxAttempts) @ '' rate-limit attempts.'')), attempt, waits)
                 else (case abortableDelay env attempt (waitSeconds * 1000) of
                     Inl e' \<Rightarrow> (Inl e', attempt, waits @ [waitSeconds])
                   | Inr _ \<Rightarrow> retry_loop env maxAttempts maxFlood (attempt + 1) (waits @ [waitSeconds]))))"
  by pat_completeness auto
termination by (relation "measure (\<lambda>(env, maxAttempts, maxFlood, attempt, waits). Suc maxAttempts - attempt)") auto

declare retry_loop.simps [simp del]

definition invokeWithFloodWaitRetry ::
    "'a retry_environment \<Rightarrow> js_number option \<Rightarrow> js_number option \<Rightarrow> 'a result \<times> nat \<times> int list" where
  "invokeWithFloodWaitRetry env attempts flood = (case retryLimits attempts flood of
       Inl e \<Rightarrow> (Inl e, 0, [])
     | Inr (maxAttempts, maxFlood) \<Rightarrow> retry_loop env (nat maxAttempts) maxFlood 1 [])"


section \<open>What the loop does\<close>

definition rate_limited :: "'a retry_environment \<Rightarrow> int \<Rightarrow> nat \<Rightarrow> bool" where
  "rate_limited env maxFlood n \<longleftrightarrow> (\<exists>e w. re_invoke env n = Inl e \<and> floodWaitSeconds e maxFlood = Inr w)"

definition undisturbed :: "'a retry_environment \<Rightarrow> bool" where
  "undisturbed env \<longleftrightarrow> (\<forall>n. \<not> re_aborted_before env n \<and> \<not> re_aborted_after env n \<and> \<not> re_interrupted env n)"

lemma flood_wait_bounds: "floodWaitSeconds e maximum = Inr w \<Longrightarrow> 0 \<le> w \<and> w \<le> maximum"
proof -
  assume h: "floodWaitSeconds e maximum = Inr w"
  have "flood_match s = Some d \<Longrightarrow> all_digits d" for s d
    by (induction s) (auto simp: all_digits_def list_all_iff split: if_splits dest: set_takeWhileD)
  then show ?thesis
    using h digits_val_nonneg by (auto simp: floodWaitSeconds_def Let_def split: option.splits if_splits)
qed

lemma retry_loop_bounds:
  assumes "1 \<le> attempt" "attempt \<le> maxAttempts" "length waits < attempt" "\<forall>w\<in>set waits. 0 \<le> w \<and> w \<le> maxFlood"
    and "retry_loop env maxAttempts maxFlood attempt waits = (outcome, invocations, delays)"
  shows "invocations \<le> maxAttempts \<and> length delays < maxAttempts \<and> (\<forall>w\<in>set delays. 0 \<le> w \<and> w \<le> maxFlood)"
  using assms
proof (induction env maxAttempts maxFlood attempt waits rule: retry_loop.induct)
  case (1 env maxAttempts maxFlood attempt waits)
  have next_bounds: "\<forall>x\<in>set (waits @ [w]). 0 \<le> x \<and> x \<le> maxFlood" if "floodWaitSeconds e maxFlood = Inr w" for e w
    using "1.prems"(4) flood_wait_bounds [OF that] by auto
  show ?case
    using "1.prems" next_bounds "1.IH"
    by (subst (asm) retry_loop.simps) (fastforce split: if_splits sum.splits)
qed

text \<open>What a caller learns from an answer that is not a rate limit.\<close>

definition definite :: "'a retry_environment \<Rightarrow> int \<Rightarrow> nat \<Rightarrow> 'a result" where
  "definite env maxFlood n = (case re_invoke env n of
       Inr value \<Rightarrow> Inr value
     | Inl e \<Rightarrow> (case floodWaitSeconds e maxFlood of Inl e' \<Rightarrow> Inl e' | Inr w \<Rightarrow> Inl e))"

lemma loop_limited:
  assumes "undisturbed env" "attempt < maxAttempts" "rate_limited env maxFlood attempt"
  shows "\<exists>w. retry_loop env maxAttempts maxFlood attempt waits = retry_loop env maxAttempts maxFlood (Suc attempt) (waits @ [w])"
proof -
  obtain e w where "re_invoke env attempt = Inl e" "floodWaitSeconds e maxFlood = Inr w" using assms(3) by (auto simp: rate_limited_def)
  then have "retry_loop env maxAttempts maxFlood attempt waits = retry_loop env maxAttempts maxFlood (Suc attempt) (waits @ [w])"
    using assms(1,2) by (subst retry_loop.simps) (simp add: undisturbed_def abortableDelay_def)
  then show ?thesis ..
qed

lemma loop_definite:
  assumes "undisturbed env" "attempt \<le> n" "n \<le> maxAttempts" "\<not> rate_limited env maxFlood n"
    and "\<And>k. attempt \<le> k \<Longrightarrow> k < n \<Longrightarrow> rate_limited env maxFlood k"
  shows "\<exists>delays. retry_loop env maxAttempts maxFlood attempt waits = (definite env maxFlood n, n, delays)"
  using assms(2,5)
proof (induction "n - attempt" arbitrary: attempt waits)
  case 0
  then have "attempt = n" by simp
  then show ?case
    using assms(1,3,4) by (subst retry_loop.simps) (auto simp: undisturbed_def rate_limited_def definite_def split: sum.splits)
next
  case (Suc d)
  have "attempt < n" using Suc.hyps(2) by simp
  then obtain w where w: "retry_loop env maxAttempts maxFlood attempt waits = retry_loop env maxAttempts maxFlood (Suc attempt) (waits @ [w])"
    using loop_limited [OF assms(1), of attempt maxAttempts maxFlood waits] Suc.prems(2) [of attempt] assms(3) by auto
  show ?case unfolding w by (rule Suc.hyps(1)) (use Suc in auto)
qed

lemma loop_exhausted:
  assumes "undisturbed env" "attempt \<le> maxAttempts" "\<And>k. attempt \<le> k \<Longrightarrow> k \<le> maxAttempts \<Longrightarrow> rate_limited env maxFlood k"
  shows "\<exists>delays. retry_loop env maxAttempts maxFlood attempt waits =
    (Inl (Error (''TDLib operation failed after '' @ show_int (int maxAttempts) @ '' rate-limit attempts.'')), maxAttempts, delays)"
  using assms(2,3)
proof (induction "maxAttempts - attempt" arbitrary: attempt waits)
  case 0
  then have "attempt = maxAttempts" "rate_limited env maxFlood attempt" by simp_all
  then show ?case
    using assms(1) by (subst retry_loop.simps) (auto simp: undisturbed_def rate_limited_def)
next
  case (Suc d)
  have "attempt < maxAttempts" using Suc.hyps(2) by simp
  then obtain w where w: "retry_loop env maxAttempts maxFlood attempt waits = retry_loop env maxAttempts maxFlood (Suc attempt) (waits @ [w])"
    using loop_limited [OF assms(1), of attempt maxAttempts maxFlood waits] Suc.prems(2) [of attempt] by auto
  show ?case unfolding w by (rule Suc.hyps(1)) (use Suc in auto)
qed

lemma sum_list_bound: "\<forall>w\<in>set ws. 0 \<le> w \<and> w \<le> (m::int) \<Longrightarrow> 0 \<le> m \<Longrightarrow> sum_list ws \<le> int (length ws) * m"
  by (induction ws) (auto simp: algebra_simps)


section \<open>Properties\<close>

text \<open>
  C37: the first answer that is not an acceptable rate limit decides: its value is returned, or its
  error thrown at once, without another invocation; when every allowed attempt is rate limited the
  call fails after exactly that many invocations. In every case, aborted or not, there are at most
  ten invocations, and the seconds waited add up to at most the limit per wait times the number of
  retries.
\<close>

theorem retry_decided_by_first_definite_answer:
  assumes "retryLimits attempts flood = Inr (m, f)" "invokeWithFloodWaitRetry env attempts flood = (outcome, invocations, delays)"
  shows "invocations \<le> nat m \<and> m \<le> 10 \<and> sum_list delays \<le> (m - 1) * f \<and>
    (undisturbed env \<longrightarrow>
      (\<forall>n. 1 \<le> n \<and> n \<le> nat m \<and> \<not> rate_limited env f n \<and> (\<forall>k. 1 \<le> k \<and> k < n \<longrightarrow> rate_limited env f k) \<longrightarrow>
         outcome = definite env f n \<and> invocations = n) \<and>
      ((\<forall>n. 1 \<le> n \<and> n \<le> nat m \<longrightarrow> rate_limited env f n) \<longrightarrow>
         outcome = Inl (Error (''TDLib operation failed after '' @ show_int m @ '' rate-limit attempts.'')) \<and> invocations = nat m))"
proof -
  have lim: "1 \<le> m" "m \<le> 10" "0 \<le> f" using assms(1) by (auto simp: retryLimits_def split: option.splits if_splits)
  have run: "retry_loop env (nat m) f 1 [] = (outcome, invocations, delays)"
    using assms by (simp add: invokeWithFloodWaitRetry_def)
  have b: "invocations \<le> nat m" "length delays < nat m" "\<forall>w\<in>set delays. 0 \<le> w \<and> w \<le> f"
    using retry_loop_bounds [OF _ _ _ _ run] lim by auto
  have "sum_list delays \<le> int (length delays) * f" using b(3) lim(3) by (rule sum_list_bound)
  also have "\<dots> \<le> (m - 1) * f" using b(2) lim by (intro mult_right_mono) auto
  finally have waits: "sum_list delays \<le> (m - 1) * f" .
  have "outcome = definite env f n \<and> invocations = n"
    if "undisturbed env" "1 \<le> n" "n \<le> nat m" "\<not> rate_limited env f n" "\<forall>k. 1 \<le> k \<and> k < n \<longrightarrow> rate_limited env f k" for n
    using loop_definite [OF that(1-4), of "[]"] that(5) run by auto
  moreover have "outcome = Inl (Error (''TDLib operation failed after '' @ show_int m @ '' rate-limit attempts.'')) \<and> invocations = nat m"
    if "undisturbed env" "\<forall>n. 1 \<le> n \<and> n \<le> nat m \<longrightarrow> rate_limited env f n"
    using loop_exhausted [OF that(1), of 1 "nat m" f "[]"] that(2) run lim by auto
  ultimately show ?thesis using b(1) lim waits by blast
qed

definition sample_environment :: "string retry_environment" where
  "sample_environment = \<lparr>re_invoke = (\<lambda>n. if n = 1 then Inl (Error ''FLOOD_WAIT_5'') else Inr ''ok''), re_aborted_before = (\<lambda>_. False),
     re_aborted_after = (\<lambda>_. False), re_interrupted = (\<lambda>_. False), re_reason = Error ''aborted''\<rparr>"

theorem retry_decided_by_first_definite_answer_witness:
  "invokeWithFloodWaitRetry sample_environment None None = (Inr ''ok'', 2, [5]) \<and> sum_list [5] \<le> (3 - 1) * (60 :: int)"
proof -
  have run: "retryLimits None None = Inr (3, 60)" by code_simp
  have loop: "retry_loop sample_environment 3 60 1 [] = (Inr ''ok'', 2, [5])"
  proof -
    have f: "floodWaitSeconds (Error ''FLOOD_WAIT_5'') 60 = Inr 5" by code_simp
    show ?thesis
      by (subst retry_loop.simps, simp add: sample_environment_def f abortableDelay_def, subst retry_loop.simps, simp)
  qed
  then have "invokeWithFloodWaitRetry sample_environment None None = (Inr ''ok'', 2, [5])"
    unfolding invokeWithFloodWaitRetry_def run by simp
  with retry_decided_by_first_definite_answer [OF run this] show ?thesis by simp
qed

end
