(* ===== verification/Spec2Isabelle.thy ===== *)
theory Spec2Isabelle
  imports Trading_State_Transitions Trading_Leverage_Tiers Trading_Channel_Risk_Math Trading_Risk Trading_Strategy
    Trading_Take_Profit Trading_Admission Trading_Money_Risk Trading_Mutation Exchange_Contract Signal_Reader Signal_Plan Paper_Exchange Concurrency_Queue Outbox_Scheduler Delivery_Tracker Runtime_Guards Startup_Authority Tdlib_Retry
begin

text \<open>
  TSX Core: a control plane that turns Telegram signals into protected orders on several exchanges.

  \<^bold>\<open>The program and its parts.\<close> An external model answers a message with XML, which is read strictly and validated against a
  fixed schema or a composed contract (\<^verbatim>\<open>src/signal_schema.ts\<close>, \<^verbatim>\<open>src/signal_contract.ts\<close>) into an executable signal: side, symbol,
  entry, targets, stop. A strategy configuration (\<^verbatim>\<open>src/trading_strategy.ts\<close>) and the account and market snapshots of an
  exchange adapter are turned into a plan (\<^verbatim>\<open>src/trading_risk.ts\<close>): price, stop, quantity, leverage, one entry
  order, one protective stop and one take-profit order per target. The quantity is solved against the leverage
  tiers of the exchange (\<^verbatim>\<open>src/trading_leverage_tiers.ts\<close>) and, when account and market have different
  currencies, through a currency conversion (\<^verbatim>\<open>src/trading_fx_*.ts\<close>). Before the entry is sent its tier decision
  and the account mode are checked again on fresh evidence (\<^verbatim>\<open>src/trading_leverage_admission.ts\<close>,
  \<^verbatim>\<open>src/trading_execution_constraints.ts\<close>) and the request is built from the plan
  (\<^verbatim>\<open>src/trading_order_request.ts\<close>). Reports of the exchange are merged into the order's durable evidence
  (\<^verbatim>\<open>src/trading_state_transitions.ts\<close>), and take-profit budgets follow the position
  (\<^verbatim>\<open>src/trading_take_profit.ts\<close>). What an account owns is proved from its fill ledger (\<^verbatim>\<open>src/trading_ownership.ts\<close>), what
  protects it from its stop orders (\<^verbatim>\<open>src/trading_protection.ts\<close>), and both enter the safety proofs
  (\<^verbatim>\<open>src/trading_safety_proof.ts\<close>) that admit entries, release accounts and close trades. Remote orders and fills are matched with the
  managed ones by their identities (\<^verbatim>\<open>src/exchange_order_correlation.ts\<close>, \<^verbatim>\<open>src/trading_fill_identity.ts\<close>,
  \<^verbatim>\<open>src/trading_cancel_evidence.ts\<close>). Whatever an exchange executor answers passes a contract first
  (\<^verbatim>\<open>src/exchange_contract_validation.ts\<close> with the contracts of order identities, fill quantities, histories, account logs and account
  modes it calls). The loss budget of a day is decided on
  funding and profit evidence (\<^verbatim>\<open>src/trading_accounting_contract.ts\<close>, \<^verbatim>\<open>src/trading_money_risk.ts\<close>,
  \<^verbatim>\<open>src/trading_risk_reservations.ts\<close>). Mutations of an account are serialised and fenced by
  \<^verbatim>\<open>src/trading_mutation_coordinator.ts\<close>, with a budget of cancellations (\<^verbatim>\<open>src/trading_cancel_budget.ts\<close>), and the calls of a
  recovery pass are planned by \<^verbatim>\<open>src/trading_recovery_schedule.ts\<close>. \<^verbatim>\<open>src/paper_exchange.ts\<close> is the built-in simulated exchange. Amounts are
  decimal strings (\<^verbatim>\<open>src/trading_decimal.ts\<close>), exact fractions (\<^verbatim>\<open>src/trading_rational.ts\<close>) and intervals with an
  optional exact value (\<^verbatim>\<open>src/trading_money_value.ts\<close>). Around this core the process delivers Telegram messages
  through a bounded queue (\<^verbatim>\<open>src/queue.ts\<close>), fed from a durable outbox (\<^verbatim>\<open>src/outbox_scheduler.ts\<close>), with
  rate-limit retries (\<^verbatim>\<open>src/tdlib_retry.ts\<close>) and confirmation tracking (\<^verbatim>\<open>src/delivery_tracker.ts\<close>), and stops
  itself on clock anomalies and crash loops (\<^verbatim>\<open>src/clock_guard.ts\<close>, \<^verbatim>\<open>src/crash_guard.ts\<close>). It changes anything only
  after the gates of its startup (\<^verbatim>\<open>src/startup_authority.ts\<close>).

  \<^bold>\<open>Theories.\<close>
  \<^item> \<^verbatim>\<open>Prelude\<close>: the errors the code throws, results as a sum (\<^verbatim>\<open>Inl\<close> is a throw), the bind \<^verbatim>\<open>rbind\<close> with its
    inversion rules, \<^verbatim>\<open>mapM\<close> and \<^verbatim>\<open>foldM\<close>. \<^verbatim>\<open>JS_Strings\<close>, \<^verbatim>\<open>JS_Values\<close>, \<^verbatim>\<open>JS_Conversions\<close>: trimming, padding, digits,
    untyped data with undefined and null, number parsing and formatting. \<^verbatim>\<open>Contracts\<close>: the locales for
    exact and total additions, which decimals and rationals interpret, and for systems with an invariant, which the
    queue, the scheduler, the tracker, the order history, the simulated exchange, the mutation coordinator and the startup authority interpret
    on their own step functions.
  \<^item> \<^verbatim>\<open>Trading_Decimal\<close>, \<^verbatim>\<open>Trading_Rational\<close>, \<^verbatim>\<open>Trading_Money\<close>: arithmetic. The lemmas give each operation its meaning in
    the rationals (\<^verbatim>\<open>dec_val\<close>, \<^verbatim>\<open>rval\<close>, \<^verbatim>\<open>money_contains\<close>) and say exactly when it throws.
  \<^item> \<^verbatim>\<open>Trading_Types\<close>: records and enumerations of \<^verbatim>\<open>src/trading_types.ts\<close>. \<^verbatim>\<open>Trading_State_Transitions\<close>: the intent and order
    life cycles over arbitrary histories of reports.
  \<^item> \<^verbatim>\<open>Trading_Leverage_Tiers\<close>, \<^verbatim>\<open>Trading_Fx\<close>, \<^verbatim>\<open>Trading_Risk\<close>, \<^verbatim>\<open>Trading_Channel_Risk_Math\<close>: tables as partitions, the
    tier solver (sound, never out of iterations), conversion evidence, sizing within limits, price boundaries, deadlines,
    target allocation, and the plan as a whole (within limits with or without tiers and conversion, protected).
  \<^item> \<^verbatim>\<open>Trading_Strategy\<close>: validation of configurations, with the round trip through their serialised form.
  \<^item> \<^verbatim>\<open>Signal_Contract\<close>, \<^verbatim>\<open>Signal_Schema\<close>, \<^verbatim>\<open>Signal_Reader\<close>: definitions of contracts, their normal form and composition; from XML to
    an executable signal, whose prices stand in order wherever the geometry is checked; the reader as the inverse of printing a tree. \<^verbatim>\<open>Signal_Plan\<close>:
    the order of the prices survives from the message to the orders of its plan.
  \<^item> \<^verbatim>\<open>Trading_Admission\<close>: tier admission, account mode and request construction; planning and admission agree.
  \<^item> \<^verbatim>\<open>Trading_Accounting\<close>, \<^verbatim>\<open>Trading_Money_Risk\<close>: validation of fill and funding evidence with exact totals; the daily
    budget decided on intervals, and risk reservations that are exact or refused.
  \<^item> \<^verbatim>\<open>Trading_Ownership\<close>, \<^verbatim>\<open>Trading_Safety\<close>: ownership from the ledger, stop coverage, entry drains and history coverage;
    what a safe proof guarantees for each of its purposes.
  \<^item> \<^verbatim>\<open>Order_Identity\<close>: which remote order and fill is which. A remote order is adopted only on a full match, evidence for a
    cancellation names one live order and its remainder, and the key of a fill determines the fill.
  \<^item> \<^verbatim>\<open>Exchange_History\<close>, \<^verbatim>\<open>Account_Contracts\<close>, \<^verbatim>\<open>Exchange_Contract\<close>: what is accepted of an executor. Histories continue and never
    rewind, an acquisition keeps its window and one budget of calls over all its parts, orders of an incomplete batch are confirmed
    leg by leg, and a fill quantity is the exact product its evidence claims.
  \<^item> \<^verbatim>\<open>Trading_Mutation\<close>: the coordinator and the cancellation budgets as a state machine over any history of events.
    \<^verbatim>\<open>Recovery_Schedule\<close>: the recovery planner and the contract of its messages, which accept each other.
  \<^item> \<^verbatim>\<open>Trading_Take_Profit\<close>: budgets of the targets, conserved under resizing. \<^verbatim>\<open>Paper_Exchange\<close>: the simulated exchange
    on a record of its database tables, with a ledger invariant over any history of calls, balances set by hand included.
  \<^item> \<^verbatim>\<open>Concurrency_Queue\<close>, \<^verbatim>\<open>Outbox_Scheduler\<close>, \<^verbatim>\<open>Delivery_Tracker\<close>, \<^verbatim>\<open>Runtime_Guards\<close>, \<^verbatim>\<open>Startup_Authority\<close>, \<^verbatim>\<open>Tdlib_Retry\<close>: stateful components,
    one function per method or callback; asynchrony is an arbitrary sequence of such events.
  \<^item> This theory: the path of an entry from the plan to the simulated exchange, and that of a cancellation from the open
    state of the exchange to the cancelled order.

  \<^bold>\<open>State and operations.\<close> A class is a record, a method a function from the state to the new state and the value or
  error; database tables are lists of row records, a query a \<^verbatim>\<open>find\<close> or \<^verbatim>\<open>filter\<close>, a constraint violation an error
  of the statement. Promises are numbers; a promise is settled by an event.

  \<^bold>\<open>Parameters.\<close> SHA-256, the compilation of a regular expression and its match within a time budget, clock readings, random identifiers, the order of rows the database leaves open, the answers
  of TDLib and of exchange adapters are arguments. No property assumes anything of them beyond what it states.

  \<^bold>\<open>Bounds and termination.\<close> Every loop is a terminating function. The tier solver keeps the source's own iteration
  bound, and \<^verbatim>\<open>tier_solver_terminates\<close> shows that it is never reached. The retry loop is bounded by the validated
  number of attempts. Decimals keep the source's limits of 36 integer digits and 18 places; big integers are \<^verbatim>\<open>int\<close>; numbers that the code
  checks to be safe integers are \<^verbatim>\<open>int\<close> with that check written out.

  \<^bold>\<open>Abstractions.\<close> Strings are lists of 8-bit characters, so text outside Latin-1 is not represented. JavaScript numbers
  in untyped data are rationals, or not a number or infinite; the model does not round as doubles do. The modelled
  code mostly checks such numbers to be safe integers before it computes with them. JSON text is represented by the data it denotes; objects have no
  accessors.

  \<^bold>\<open>Not modelled.\<close> SQL and migrations (\<^verbatim>\<open>src/db.ts\<close> and the repositories), the trading engine that drives them, HTTP and
  browser code, the Python executor, backups, secrets and TLS, the prompting of the external model and the grounding of its answer in
  the source message (\<^verbatim>\<open>assertSignalGrounded\<close>, which rests on Unicode normalisation). Of modelled modules
  most database access is left out: \<^verbatim>\<open>prepareSizingFx\<close>, \<^verbatim>\<open>assertLocalTierScope\<close>, loading and storing
  take-profit allocations, the process lock of the crash guard, the collection of the evidence of a safety proof. Ownership,
  protection and entry drains are modelled with their queries, on lists of rows.

  \<^bold>\<open>Plan.\<close> Next: admission over row records (\<^verbatim>\<open>trading_risk_admission.ts\<close>), protection observations, cash legs of account logs
  (\<^verbatim>\<open>trading_kraken_cashleg_contract.ts\<close>), then the message filters (\<^verbatim>\<open>filters.ts\<close>), the duplicate blocker and the fallback policy of
  workflows.
\<close>


section \<open>From the plan to the simulated exchange\<close>

text \<open>What the simulated exchange reports of an account that is flat in a symbol is complete tier evidence.\<close>

definition paper_flat :: "paper_db \<Rightarrow> trading_account \<Rightarrow> string \<Rightarrow> bool" where
  "paper_flat db account symbol \<longleftrightarrow>
     (case position_row db (ta_id account) symbol of None \<Rightarrow> True | Some p \<Rightarrow> pp_quantity p = ''0'') \<and>
     (\<forall>r\<in>set (db_orders db). pr_account_id r = ta_id account \<and> pr_symbol r = symbol \<longrightarrow> \<not> is_live (pr_status r) \<and> pr_status r \<noteq> Status_unknown)"

lemma paper_market:
  assumes "marketSnapshot db account symbol observed = Inr market"
  obtains row where "market_row db (ta_id account) symbol = Some row" "pm_symbol row = symbol" "ta_exchange account = ''paper''"
    "ms_markPrice market = pm_mark_price row" "ms_maxLeverage market = min 50 (pm_max_leverage row)" "ms_accounting market = Some (paperAccounting symbol)"
    "ms_leverageTiers market = Some (simulatedTierEvidence db account row observed)"
proof -
  obtain row where row: "market_row db (ta_id account) symbol = Some row" "ta_exchange account = ''paper''"
    using assms by (auto simp: marketSnapshot_def assertPaperAccount_def rbind_Inr_iff throw_if_def split: option.splits if_splits)
  moreover from this have "pm_symbol row = symbol" by (auto simp: market_row_def find_Some_iff)
  ultimately show thesis using that [of row] assms by (auto simp: marketSnapshot_def rbind_Inr_iff)
qed

lemma one_tier_valid: "1 \<le> m \<Longrightarrow> m \<le> 50 \<Longrightarrow> validateTierTable [\<lparr>lt_lowerBound = ''0'', lt_upperBound = None, lt_maxLeverage = m\<rparr>] = Inr ()"
proof -
  assume "1 \<le> m" "m \<le> 50"
  moreover have "decimal ''0'' = Inr ''0''" by code_simp
  ultimately show ?thesis by (simp add: validateTierTable_def requireTier_def throw_if_def is_safe_integer_def max_safe_integer_def)
qed

lemma paper_evidence:
  assumes "marketSnapshot db account symbol observed = Inr market" "1 \<le> ms_maxLeverage market" "symbol_pattern symbol"
    and "0 \<le> observed" "is_safe_integer (observed + 10000)" "observed \<le> now" "now < observed + 10000"
  shows "if paper_flat db account symbol
    then \<exists>ev. assertTierEvidence account symbol market now = Inr ev
    else assertTierEvidence account symbol market now =
      Inl (TradingRiskError ''LEVERAGE_TIERS_UNPROVEN'' ''Existing or unknown actual tier scope blocks scale-in.'')"
proof -
  obtain row where row: "pm_symbol row = symbol" "ta_exchange account = ''paper''" "ms_markPrice market = pm_mark_price row"
    "ms_maxLeverage market = min 50 (pm_max_leverage row)" "ms_accounting market = Some (paperAccounting symbol)"
    "ms_leverageTiers market = Some (simulatedTierEvidence db account row observed)"
    using assms(1) by (rule paper_market)
  define ev where "ev = simulatedTierEvidence db account row observed"
  have size: "decimal_positive ''1'' = Inr ''1''" by code_simp
  have binding: "assertTierBinding account ev = Inr ()"
    by (simp add: assertTierBinding_def ev_def simulatedTierEvidence_def row tier_sources_def Let_def rbind_Inr_iff)
  have fresh: "assertTierFresh ev now = Inr ()"
    using assms(4-7) by (simp add: assertTierFresh_def ev_def simulatedTierEvidence_def is_safe_integer_def)
  have units: "assertTierUnits market ev = Inr ()"
    using assms(3) size by (auto simp: assertTierUnits_def ev_def simulatedTierEvidence_def row paperAccounting_def symbol_pattern_def rbind_Inr_iff)
  have table: "validateTierTable (te_tiers ev) = Inr ()" "te_tiers ev \<noteq> []" "lt_maxLeverage (hd (te_tiers ev)) = ms_maxLeverage market"
    using assms(2) row(4) by (simp_all add: ev_def simulatedTierEvidence_def one_tier_valid)
  have scope: "ts_complete (te_scope ev) \<and> ts_positionQuantity (te_scope ev) = ''0'' \<and> ts_openOrderCount (te_scope ev) = 0 \<longleftrightarrow> paper_flat db account symbol"
    by (auto simp: ev_def simulatedTierEvidence_def row paper_flat_def filter_empty_conv split: option.splits)
  have heads: "te_version ev = 1" "te_exchange ev = ta_exchange account" "te_symbol ev = symbol"
    by (simp_all add: ev_def simulatedTierEvidence_def row)
  obtain t ts where tiers: "te_tiers ev = t # ts" "lt_maxLeverage t = ms_maxLeverage market" using table(2,3) by (cases "te_tiers ev") auto
  show ?thesis
    unfolding assertTierEvidence_def row(6) ev_def [symmetric]
    using binding fresh units table(1) scope heads tiers by (auto simp: requireEvidence_def throw_if_def or_unproven_def)
qed


lemma decimal_with_again:
  assumes "decimal_with pos mx v = Inr d"
  shows "decimal_with pos mx d = Inr d"
proof -
  have "js_trim d = d" "decimal_pattern d" using decimal_with_valid [OF assms] trim_valid by auto
  with assms show ?thesis unfolding decimal_with_Inr_iff by auto
qed

lemma boundary_contract_own_slippage:
  assumes "assertBoundaryContract b side slippage = Inr ()"
  shows "assertBoundaryContract b side (eb_maxSlippagePercent b) = Inr ()"
proof -
  obtain s where s: "decimal_with True (Some ''5'') slippage = Inr s" "eb_maxSlippagePercent b = s"
    and create: "createEntryPriceBoundary side (eb_referencePrice b) (eb_priceTick b) slippage = Inr b"
    using assms unfolding assertBoundaryContract_def createEntryPriceBoundary_def Let_def by (fastforce simp: rbind_Inr_iff split: if_splits)
  have again: "decimal_with True (Some ''5'') s = Inr s" using decimal_with_again [OF s(1)] .
  have "createEntryPriceBoundary side (eb_referencePrice b) (eb_priceTick b) s = createEntryPriceBoundary side (eb_referencePrice b) (eb_priceTick b) slippage"
    unfolding createEntryPriceBoundary_def s(1) again ..
  then show ?thesis unfolding assertBoundaryContract_def s(2) create by simp
qed

text \<open>The entry request built from a plan keeps the price contract it was planned with.\<close>

lemma planned_request_boundary:
  assumes "createTradingPlan sha256 clock input = Inr plan"
    and "find (\<lambda>order. po_role order = Entry_role) (tp_orders plan) = Some entry"
  shows "assert_request_boundary (fst (requestFromOrder account plan entry)) = Inr ()"
proof -
  obtain allocations where p: "planPriceBoundary input = Inr (tp_entryPriceBoundary plan)"
    "plannedOrders sha256 input (tp_entryPrice plan) (tp_stopPrice plan) (tp_quantity plan) allocations (tp_entryPriceBoundary plan) = Inr (tp_orders plan)"
    using plan_parts [OF assms(1)] by metis
  define planned where "planned = entry_order sha256 input (tp_entryPrice plan) (tp_quantity plan) (tp_entryPriceBoundary plan)"
  have "po_role planned = Entry_role" by (simp add: planned_def entry_order_def Let_def)
  moreover obtain rest where "tp_orders plan = planned # rest" using p(2) unfolding plannedOrders_def planned_def by (auto simp: rbind_Inr_iff dest: sym)
  ultimately have entry: "entry = planned" using assms(2) by simp
  show ?thesis
  proof (cases "tp_entryPriceBoundary plan")
    case None
    then show ?thesis
      by (simp add: entry planned_def entry_order_def Let_def assert_request_boundary_def requestFromOrder_def entryBoundaryOverlay_def)
  next
    case (Some b)
    define side where "side = sig_action (tpi_signal input)"
    have market: "is_market_entry (tpi_signal input) (tpi_strategy input)"
      and contract: "assertBoundaryContract b side (sf_maxSlippagePercent (st_safety (tpi_strategy input))) = Inr ()"
      using p(1) Some by (auto simp: planPriceBoundary_def rbind_Inr_iff side_def split: if_splits)
    from boundary_contract_own_slippage [OF contract] have own: "assertBoundaryContract b side (eb_maxSlippagePercent b) = Inr ()" .
    have "side_of_order (opening_side side) = side" by (cases side) (simp_all add: opening_side_def side_of_order_def)
    then show ?thesis
      using Some market own
      by (simp add: entry planned_def entry_order_def Let_def assert_request_boundary_def requestFromOrder_def entryBoundaryOverlay_def
          assertEntryPriceBoundary_def side_def [symmetric])
  qed
qed


section \<open>Cancelling on the simulated exchange\<close>

text \<open>A managed order mirrors a row of the simulated exchange when it has its terms and knows no more of its execution.\<close>

definition mirrors :: "cancel_order \<Rightarrow> paper_order_row \<Rightarrow> bool" where
  "mirrors l r \<longleftrightarrow> co_account_id l = pr_account_id r \<and> co_client_order_id l = pr_client_order_id r \<and> co_exchange_order_id l = Some (pr_exchange_order_id r) \<and>
     co_provider_symbol l = Some (pr_symbol r) \<and> co_symbol l = pr_symbol r \<and> co_role l = role_name (pr_role r) \<and> co_side l = order_side_name (pr_side r) \<and>
     co_quantity l = pr_quantity r \<and> decimal_pattern (co_filled_quantity l) \<and> dec_val (co_filled_quantity l) \<le> dec_val (pr_filled_quantity r) \<and>
     (co_reduce_only l = 1 \<longleftrightarrow> pr_reduce_only r) \<and> co_price l = or_null (pr_price r) \<and> co_trigger_price l = or_null (pr_trigger_price r)"

text \<open>The open state of an adapter that does not name its account.\<close>

definition unbound :: "exchange_open_state \<Rightarrow> bound_open_state" where
  "unbound state = exchange_open_state.extend state \<lparr>bs_accountFingerprint = None\<rparr>"

definition paper_orders :: "paper_db \<Rightarrow> trading_account \<Rightarrow> paper_order_row list" where
  "paper_orders db account = sort_key pr_created_at (filter (\<lambda>r. pr_account_id r = ta_id account) (db_orders db))"

lemma open_state_parts:
  assumes "openState db account started completed = Inr state"
  shows "xs_orders (unbound state) = map order_snapshot (paper_orders db account)" "xs_acquisition (unbound state) = Some (paper_acquisition started completed)"
    "ta_exchange account = ''paper''"
  using assms
  by (auto simp: openState_def readOpenState_def assertPaperAccount_def Let_def rbind_Inr_iff throw_if_Inr unbound_def paper_orders_def exchange_open_state.defs)

lemma snapshot_fields [simp]:
  "xo_clientOrderId (order_snapshot r) = Some (pr_client_order_id r)" "xo_exchangeOrderId (order_snapshot r) = pr_exchange_order_id r"
  "xo_providerSymbol (order_snapshot r) = Some (pr_symbol r)" "xo_symbol (order_snapshot r) = pr_symbol r" "xo_role (order_snapshot r) = pr_role r"
  "xo_side (order_snapshot r) = pr_side r" "xo_status (order_snapshot r) = pr_status r" "xo_quantity (order_snapshot r) = pr_quantity r"
  "xo_price (order_snapshot r) = or_null (pr_price r)" "xo_triggerPrice (order_snapshot r) = or_null (pr_trigger_price r)" "xo_reduceOnly (order_snapshot r) = pr_reduce_only r"
  "pr_filled_quantity r \<noteq> [] \<Longrightarrow> xo_filledQuantity (order_snapshot r) = Some (pr_filled_quantity r)"
  by (simp_all add: order_snapshot_def orderResult_def Let_def)

lemma paper_acquisition_fresh:
  assumes "xs_acquisition remote = Some (paper_acquisition started completed)" "is_safe_integer started" "is_safe_integer completed"
    and "after \<le> started" "started \<le> completed" "completed \<le> now" "now \<le> started + 10000"
  shows "cancelAcquisitionFresh remote after now"
  using assms
  by (simp add: cancelAcquisitionFresh_def acquisitionReason_def acquisitionWindowFresh_def validAcquisitionClock_def cancel_retry_ms_def paper_acquisition_def
      completeAcquisitionSource_def sourceWithinAcquisition_def)

lemma distinct_filter_one: "distinct xs \<Longrightarrow> x \<in> set xs \<Longrightarrow> (\<And>y. y \<in> set xs \<Longrightarrow> P y \<longleftrightarrow> y = x) \<Longrightarrow> filter P xs = [x]"
proof (induction xs)
  case (Cons y ys)
  show ?case
  proof (cases "y = x")
    case True
    then have "filter P ys = []" using Cons.prems by (auto simp: filter_empty_conv)
    then show ?thesis using True Cons.prems(3) by simp
  next
    case False
    then show ?thesis using Cons by auto
  qed
qed simp

text \<open>The database has one row for a client identifier of an account.\<close>

definition one_client_row :: "paper_db \<Rightarrow> paper_order_row \<Rightarrow> bool" where
  "one_client_row db r \<longleftrightarrow> r \<in> set (db_orders db) \<and>
     (\<forall>x\<in>set (db_orders db). pr_account_id x = pr_account_id r \<and> pr_client_order_id x = pr_client_order_id r \<longrightarrow> x = r)"

lemma paper_candidates:
  assumes "paper_ok T db" "one_client_row db r" "ta_id account = pr_account_id r" "mirrors l r"
  shows "filter (cancel_candidate l) (map order_snapshot (paper_orders db account)) = [order_snapshot r]"
proof -
  have ids: "distinct (map pr_exchange_order_id (db_orders db))" using assms(1) by (simp add: paper_ok_def orders_ok_def)
  then have d: "distinct (paper_orders db account)" by (simp add: paper_orders_def distinct_map)
  have r: "r \<in> set (paper_orders db account)" using assms(2,3) by (simp add: paper_orders_def one_client_row_def)
  have identities: "cancel_candidate l (order_snapshot x) \<longleftrightarrow> pr_client_order_id x = pr_client_order_id r \<or>
      pr_exchange_order_id x = pr_exchange_order_id r \<and> pr_symbol x = pr_symbol r" for x
    using assms(4) unfolding mirrors_def cancel_candidate_def same_market_def by simp
  have "cancel_candidate l (order_snapshot x) \<longleftrightarrow> x = r" if "x \<in> set (paper_orders db account)" for x
  proof
    have x: "x \<in> set (db_orders db)" "pr_account_id x = pr_account_id r" using that assms(3) by (auto simp: paper_orders_def)
    assume "cancel_candidate l (order_snapshot x)"
    then consider "pr_client_order_id x = pr_client_order_id r" | "pr_exchange_order_id x = pr_exchange_order_id r"
      using identities by blast
    then show "x = r"
    proof cases
      case 1
      then show ?thesis using x assms(2) by (simp add: one_client_row_def)
    next
      case 2
      have "r \<in> set (db_orders db)" using assms(2) by (simp add: one_client_row_def)
      then show ?thesis using 2 x(1) ids by (auto simp: distinct_map dest: inj_onD)
    qed
  next
    assume "x = r"
    then show "cancel_candidate l (order_snapshot x)" using identities by simp
  qed
  then have "filter (\<lambda>x. cancel_candidate l (order_snapshot x)) (paper_orders db account) = [r]" using distinct_filter_one [OF d r] by simp
  then show ?thesis by (simp add: filter_map comp_def)
qed

lemma paper_same_fields: "mirrors l r \<Longrightarrow> same_fields l (order_snapshot r)"
  by (auto simp: same_fields_def same_market_def mirrors_def)

lemma paper_remaining:
  assumes "paper_ok T db" "r \<in> set (db_orders db)" "mirrors l r" "decimal_pattern (pr_quantity r)" "decimal_pattern (pr_filled_quantity r)" "is_live (pr_status r)"
  shows "\<exists>q. activeRemaining l (order_snapshot r) = Some q \<and> dec_val q = dec_val (pr_quantity r) - dec_val (pr_filled_quantity r)"
proof -
  have ok: "order_ok (db_fills db) r" using assms(1,2) by (simp add: paper_ok_def orders_ok_def)
  have dec: "decimal_positive (pr_quantity r) = Inr (pr_quantity r)" "decimal (pr_filled_quantity r) = Inr (pr_filled_quantity r)"
    using ok assms(4,5) trim_valid [OF assms(4)] by (auto simp: order_ok_def decimal_positive_Inr_iff decimal_canonical_id)
  have less: "dec_val (pr_filled_quantity r) < dec_val (pr_quantity r)"
    using ok assms(6) by (auto simp: order_ok_def is_live_def)
  obtain q where q: "subtractDecimal (pr_quantity r) (pr_filled_quantity r) = Inr q" "canonical_decimal q" "dec_val q = dec_val (pr_quantity r) - dec_val (pr_filled_quantity r)"
    using subtract_law [OF assms(4,5)] less by (auto simp: returns_decimal_def)
  have zero: "decimal_pattern ''0''" "dec_val ''0'' = 0" by code_simp+
  have "decimal_pattern q" unfolding canonical_valid_iff [OF q(2)] q(3)
    using dec_val_bound [OF assms(4)] dec_val_nonneg [OF assms(5)] dec_val_grid [OF assms(4)] dec_val_grid [OF assms(5)] on_grid_diff [of 18] by auto
  then have "remaining_of l (pr_quantity r) (pr_filled_quantity r) = Inr (Some q)"
    using assms(3-5) dec q less zero
    by (simp add: remaining_of_def unchangedOrderProgress_def mirrors_def compare_law rat_cmp_def)
  moreover have "pr_filled_quantity r \<noteq> []" using assms(5) by (auto simp: decimal_pattern_def)
  ultimately show ?thesis using assms(6) q(3) by (auto simp: activeRemaining_def observedActiveOrder_def is_live_def)
qed

text \<open>After the cancellation the row is cancelled and still the only one with its identifiers.\<close>

lemma paper_cancelled:
  assumes "paper_ok T db" "one_client_row db r" "ta_id account = pr_account_id r" "is_live (pr_status r)" "ta_exchange account = ''paper''" "ta_mode account = Paper"
    and c: "c = r\<lparr>pr_status := Status_cancelled, pr_updated_at := now\<rparr>"
  shows "\<exists>db'. cancelOrder account (pr_client_order_id r) now db = Inr (orderResult c, db') \<and> paper_ok T db' \<and> one_client_row db' c"
proof -
  define P :: "paper_order_row \<Rightarrow> bool" where "P = (\<lambda>x. pr_account_id x = ta_id account \<and> pr_client_order_id x = pr_client_order_id r \<and> is_live (pr_status x))"
  define rows where "rows = update_where P (\<lambda>x. x\<lparr>pr_status := Status_cancelled, pr_updated_at := now\<rparr>) (db_orders db)"
  have r: "r \<in> set (db_orders db)" "P r" using assms(2-4) by (auto simp: one_client_row_def P_def)
  have only: "x = r" if "x \<in> set (db_orders db)" "pr_account_id x = ta_id account" "pr_client_order_id x = pr_client_order_id r" for x
    using that assms(2,3) by (simp add: one_client_row_def)
  have rows: "y = c" if "y \<in> set rows" "pr_account_id y = ta_id account" "pr_client_order_id y = pr_client_order_id r" for y
  proof -
    obtain x where x: "x \<in> set (db_orders db)" "y = (if P x then x\<lparr>pr_status := Status_cancelled, pr_updated_at := now\<rparr> else x)"
      using \<open>y \<in> set rows\<close> by (auto simp: rows_def update_where_set)
    then have "pr_account_id x = ta_id account" "pr_client_order_id x = pr_client_order_id r" using that(2,3) by (auto split: if_splits)
    then have "x = r" using only x(1) by blast
    then show ?thesis using x(2) r(2) by (simp add: c)
  qed
  have keys: "pr_account_id c = pr_account_id r" "pr_client_order_id c = pr_client_order_id r" by (simp_all add: c)
  have row: "c \<in> set rows" using r by (auto simp: rows_def update_where_set c)
  have found: "find (\<lambda>x. pr_account_id x = ta_id account \<and> pr_client_order_id x = pr_client_order_id r) rows = Some c"
  proof (cases "find (\<lambda>x. pr_account_id x = ta_id account \<and> pr_client_order_id x = pr_client_order_id r) rows")
    case None
    then have "\<not> (\<exists>x\<in>set rows. pr_account_id x = ta_id account \<and> pr_client_order_id x = pr_client_order_id r)" by (simp add: find_None_iff)
    then show ?thesis using row assms(3) keys by metis
  next
    case (Some y)
    then have "y = c" by (intro rows) (use find_in [OF Some] in simp_all)
    with Some show ?thesis by simp
  qed
  have run: "cancelOrder account (pr_client_order_id r) now db = Inr (orderResult c, db\<lparr>db_orders := rows\<rparr>)"
  proof -
    have "assertPaperAccount account = Inr ()" using assms(5,6) by (simp add: assertPaperAccount_def)
    then have "cancelOrder account (pr_client_order_id r) now db =
      (case find (\<lambda>x. pr_account_id x = ta_id account \<and> pr_client_order_id x = pr_client_order_id r) rows of
         None \<Rightarrow> Inl (Error ''Paper order does not exist.'') | Some row \<Rightarrow> Inr (orderResult row, db\<lparr>db_orders := rows\<rparr>))"
      unfolding rows_def P_def by (simp add: cancelOrder_def)
    then show ?thesis by (simp only: found option.case)
  qed
  have ok: "paper_ok T (db\<lparr>db_orders := rows\<rparr>)" using cancelOrder_ok [OF run assms(1)] by (rule conjunct1)
  have one: "one_client_row (db\<lparr>db_orders := rows\<rparr>) c"
  proof -
    have "y = c" if "y \<in> set rows" "pr_account_id y = pr_account_id c \<and> pr_client_order_id y = pr_client_order_id c" for y
      by (rule rows) (use that keys assms(3) in simp_all)
    with row show ?thesis unfolding one_client_row_def by simp
  qed
  show ?thesis using run ok one by (intro exI conjI)
qed


section \<open>Properties\<close>

text \<open>
  C13: the planner, the admission check, the request and the simulated exchange fit together. Take
  a plan made in one currency from a market snapshot of the simulated exchange. For ten seconds it
  is admitted against that snapshot exactly when the account was flat in the symbol, with neither a
  position nor a live or unknown order, and is otherwise refused with the scale-in error; and the
  request built from its entry always passes the price-boundary check of the exchange.
\<close>

theorem paper_entry_end_to_end:
  assumes snapshot: "marketSnapshot db account symbol observed = Inr market" "1 \<le> ms_maxLeverage market" "symbol_pattern symbol"
    and clock: "0 \<le> observed" "is_safe_integer (observed + 10000)" "observed \<le> now" "now < observed + 10000"
    and plan: "createTradingPlan sha256 planned_at input = Inr plan" "tpi_market input = market" "tpi_fxConversion input = None" "tp_symbol plan = symbol"
  shows "assertPlanTierDecision sha256 account plan market now =
      (if paper_flat db account symbol then Inr ()
       else Inl (TradingRiskError ''LEVERAGE_TIERS_UNPROVEN'' ''Existing or unknown actual tier scope blocks scale-in.'')) \<and>
    (\<exists>entry. find (\<lambda>order. po_role order = Entry_role) (tp_orders plan) = Some entry \<and>
       assert_request_boundary (fst (requestFromOrder account plan entry)) = Inr ())"
proof -
  note ev = paper_evidence [OF snapshot clock]
  have "assertPlanTierDecision sha256 account plan market now = Inr ()" if "paper_flat db account symbol"
    using ev that fresh_plan_admitted [OF plan(1,3)] plan(2,4) by auto
  moreover have "assertPlanTierDecision sha256 account plan market now =
      Inl (TradingRiskError ''LEVERAGE_TIERS_UNPROVEN'' ''Existing or unknown actual tier scope blocks scale-in.'')" if "\<not> paper_flat db account symbol"
    using ev that plan(4) by (simp add: assertPlanTierDecision_def)
  moreover obtain entry where "find (\<lambda>order. po_role order = Entry_role) (tp_orders plan) = Some entry"
    using plan(1) by (rule planned_entry)
  ultimately show ?thesis using planned_request_boundary [OF plan(1)] by auto
qed


definition one_market :: paper_db where
  "one_market = sample_tables\<lparr>db_markets := [\<lparr>pm_account_id = ''a'', pm_symbol = ''BTC'', pm_mark_price = ''1'', pm_price_tick = ''0.5'',
     pm_quantity_step = ''1'', pm_minimum_quantity = ''1'', pm_minimum_notional = ''1'', pm_max_leverage = 20, pm_updated_at = 0\<rparr>]\<rparr>"

definition paper_plan_input :: trading_plan_input where
  "paper_plan_input = sample_plan_input\<lparr>tpi_signal := (tpi_signal sample_plan_input)\<lparr>sig_entry := Market_entry, sig_stopLoss := ''0.5''\<rparr>,
     tpi_market := (case marketSnapshot one_market tier_account ''BTC'' 1000 of Inr m \<Rightarrow> m | Inl _ \<Rightarrow> tpi_market sample_plan_input)\<rparr>"

theorem paper_entry_end_to_end_witness:
  "\<exists>plan entry. createTradingPlan (\<lambda>_. ''h'') 0 paper_plan_input = Inr plan \<and> entry \<in> set (tp_orders plan) \<and>
     assertPlanTierDecision (\<lambda>_. ''h'') tier_account plan (tpi_market paper_plan_input) 10999 = Inr () \<and>
     assert_request_boundary (fst (requestFromOrder tier_account plan entry)) = Inr ()"
proof -
  have "case createTradingPlan (\<lambda>_. ''h'') 0 paper_plan_input of Inl e \<Rightarrow> False | Inr plan \<Rightarrow> tp_symbol plan = ''BTC''" by code_simp
  then obtain plan where plan: "createTradingPlan (\<lambda>_. ''h'') 0 paper_plan_input = Inr plan" "tp_symbol plan = ''BTC''" by (auto split: sum.splits)
  have "case marketSnapshot one_market tier_account ''BTC'' 1000 of Inl e \<Rightarrow> False | Inr m \<Rightarrow> 1 \<le> ms_maxLeverage m" by code_simp
  then have market: "marketSnapshot one_market tier_account ''BTC'' 1000 = Inr (tpi_market paper_plan_input)" "1 \<le> ms_maxLeverage (tpi_market paper_plan_input)"
    by (auto simp: paper_plan_input_def split: sum.splits)
  have "symbol_pattern ''BTC''" "is_safe_integer (1000 + 10000)" "paper_flat one_market tier_account ''BTC''" by code_simp+
  moreover have "tpi_fxConversion paper_plan_input = None" by (simp add: paper_plan_input_def sample_plan_input_def)
  ultimately have "assertPlanTierDecision (\<lambda>_. ''h'') tier_account plan (tpi_market paper_plan_input) 10999 = Inr () \<and>
      (\<exists>entry. find (\<lambda>order. po_role order = Entry_role) (tp_orders plan) = Some entry \<and>
        assert_request_boundary (fst (requestFromOrder tier_account plan entry)) = Inr ())"
    using paper_entry_end_to_end [OF market, of 10999 "\<lambda>_. ''h''" 0 paper_plan_input plan] plan by simp
  then show ?thesis using plan(1) by (metis find_Some_iff nth_mem)
qed

text \<open>
  C10: a cancellation on the simulated exchange, end to end. Take a live order of a consistent simulated exchange, the
  managed order that mirrors it, and an open state read from the exchange at most ten seconds ago. The evidence that the order can be
  cancelled is found, names that order, and its remaining quantity is what the exchange has not filled. The cancellation then
  succeeds and reports the order as cancelled, the ledger stays consistent, with the margins of the same accounts covered, and no open
  state read later gives evidence for cancelling the order again.
\<close>

theorem paper_cancel_end_to_end:
  assumes exchange: "paper_ok T db" "one_client_row db r" "is_live (pr_status r)" "decimal_pattern (pr_quantity r)" "decimal_pattern (pr_filled_quantity r)"
      "pr_exchange_order_id r \<noteq> []" "pr_symbol r \<noteq> []"
    and owner: "ta_id account = pr_account_id r" "mirrors l r"
    and read: "openState db account started completed = Inr state"
    and clock: "is_safe_integer started" "is_safe_integer completed" "after \<le> started" "started \<le> completed" "completed \<le> now" "now \<le> started + 10000"
  shows "\<exists>e res db'. exactActiveCancelEvidence l (unbound state) account after now = Some e \<and> ace_order e = order_snapshot r \<and>
    dec_val (ace_remainingQuantity e) = dec_val (pr_quantity r) - dec_val (pr_filled_quantity r) \<and> 0 < dec_val (ace_remainingQuantity e) \<and>
    cancelOrder account (pr_client_order_id r) now db = Inr (res, db') \<and> xr_status res = Status_cancelled \<and> paper_ok T db' \<and>
    (\<forall>s c state' after' now'. openState db' account s c = Inr state' \<longrightarrow> exactActiveCancelEvidence l (unbound state') account after' now' = None)"
proof -
  define c where "c = r\<lparr>pr_status := Status_cancelled, pr_updated_at := now\<rparr>"
  note parts = open_state_parts [OF read]
  have mode: "ta_mode account = Paper" using read by (auto simp: openState_def assertPaperAccount_def rbind_Inr_iff throw_if_Inr)
  have r: "r \<in> set (db_orders db)" using exchange(2) by (simp add: one_client_row_def)
  have bound: "cancellationAccountBound l (unbound state) account"
    using owner exchange(6,7) parts(3) by (simp add: cancellationAccountBound_def remoteAccountBound_def mirrors_def missing_text_def)
  have fresh: "freshBoundAcquisition l (unbound state) account after now = Some (paper_acquisition started completed)"
    using bound paper_acquisition_fresh [OF parts(2) clock] parts(2) by (simp add: freshBoundAcquisition_def)
  have order: "exactOrder l (xs_orders (unbound state)) = Some (order_snapshot r)"
    unfolding exact_order_Some parts(1) using paper_candidates [OF exchange(1,2) owner] paper_same_fields [OF owner(2)] by simp
  obtain q where q: "activeRemaining l (order_snapshot r) = Some q" "dec_val q = dec_val (pr_quantity r) - dec_val (pr_filled_quantity r)"
    using paper_remaining [OF exchange(1) r owner(2) exchange(4,5,3)] by blast
  define e where "e = \<lparr>ace_order = order_snapshot r, ace_acquiredAt = started, ace_remainingQuantity = q\<rparr>"
  have evidence: "exactActiveCancelEvidence l (unbound state) account after now = Some e"
    using fresh order q(1) by (simp add: exactActiveCancelEvidence_def e_def paper_acquisition_def)
  obtain db' where db': "cancelOrder account (pr_client_order_id r) now db = Inr (orderResult c, db')" "paper_ok T db'" "one_client_row db' c"
    using paper_cancelled [OF exchange(1,2) owner(1) exchange(3) parts(3) mode c_def] by blast
  have again: "exactActiveCancelEvidence l (unbound state') account after' now' = None"
    if "openState db' account s d = Inr state'" for s d state' after' now'
  proof -
    have "mirrors l c" "ta_id account = pr_account_id c" using owner by (simp_all add: mirrors_def c_def)
    then have "filter (cancel_candidate l) (xs_orders (unbound state')) = [order_snapshot c]"
      unfolding open_state_parts(1) [OF that] using paper_candidates [OF db'(2,3)] by blast
    then have "exactOrder l (xs_orders (unbound state')) \<in> {None, Some (order_snapshot c)}" by (simp add: exactOrder_def)
    moreover have "activeRemaining l (order_snapshot c) = None" by (simp add: activeRemaining_def observedActiveOrder_def c_def)
    ultimately show ?thesis by (auto simp: exactActiveCancelEvidence_def split: option.splits)
  qed
  have positive: "0 < dec_val q" using q exchange(1,3) r by (auto simp: paper_ok_def orders_ok_def order_ok_def is_live_def less_le)
  have "xr_status (orderResult c) = Status_cancelled" by (simp add: orderResult_def c_def)
  with evidence q(2) positive db'(1,2) again show ?thesis by (auto simp: e_def)
qed

text \<open>An entry with its protective stop, which is still open.\<close>

definition protected_tables :: paper_db where
  "protected_tables = foldl (paper_step sample_environment_paper \<lparr>px_maximumFillQuantity = None, px_reduceOnlyRemainder = None\<rparr>) sample_tables (take 2 sample_history)"

definition open_stop :: paper_order_row where
  "open_stop = db_orders protected_tables ! 1"

definition managed_stop :: cancel_order where
  "managed_stop = \<lparr>co_account_id = ''a'', co_intent_id = ''t'', co_client_order_id = ''s'', co_exchange_order_id = Some (pr_exchange_order_id open_stop),
     co_provider_symbol = Some ''BTC'', co_symbol = ''BTC'', co_role = ''stop_loss'', co_side = ''sell'', co_status = ''open'', co_quantity = ''0.001'',
     co_filled_quantity = ''0'', co_reduce_only = 1, co_price = None, co_trigger_price = Some ''900''\<rparr>"

theorem paper_cancel_end_to_end_witness:
  "\<exists>state e. openState protected_tables sample_account 10 20 = Inr state \<and> exactActiveCancelEvidence managed_stop (unbound state) sample_account 5 30 = Some e \<and>
     dec_val (ace_remainingQuantity e) = 1 / 1000"
proof -
  have ok: "paper_ok {} protected_tables"
  proof -
    have "options_ok \<lparr>px_maximumFillQuantity = None, px_reduceOnlyRemainder = None\<rparr> \<and> paper_ok {} sample_tables"
    proof
      show "options_ok \<lparr>px_maximumFillQuantity = None, px_reduceOnlyRemainder = None\<rparr>" by (simp add: options_ok_def)
      have "fresh_tables sample_tables" by code_simp
      then show "paper_ok {} sample_tables" by (rule fresh_ok)
    qed
    from paper.run_inv [OF this, of sample_environment_paper "take 2 sample_history"] show ?thesis by (simp add: protected_tables_def)
  qed
  have row: "one_client_row protected_tables open_stop" "is_live (pr_status open_stop)" "decimal_pattern (pr_quantity open_stop)"
    "decimal_pattern (pr_filled_quantity open_stop)" "pr_exchange_order_id open_stop \<noteq> []" "pr_symbol open_stop \<noteq> []"
    "ta_id sample_account = pr_account_id open_stop" "mirrors managed_stop open_stop" by code_simp+
  have amount: "dec_val (pr_quantity open_stop) - dec_val (pr_filled_quantity open_stop) = 1 / 1000" by code_simp
  have "case openState protected_tables sample_account 10 20 of Inr _ \<Rightarrow> True | Inl _ \<Rightarrow> False" by code_simp
  then obtain state where state: "openState protected_tables sample_account 10 20 = Inr state" by (auto split: sum.splits)
  have clock: "is_safe_integer 10" "is_safe_integer 20" "(5::int) \<le> 10" "(10::int) \<le> 20" "(20::int) \<le> 30" "(30::int) \<le> 10 + 10000" by code_simp+
  from paper_cancel_end_to_end [OF ok row state clock] state amount show ?thesis by auto
qed

end
